(* ===== verification/Prelude.thy ===== *)
theory Prelude
  imports Main
begin

text \<open>
  Shared vocabulary of the development: results of fallible code, the \<^emph>\<open>first failing check\<close>
  shape of the \<^verbatim>\<open>Validate\<close> methods, error-stopping loops, and the generic list lemmas that the
  component theories use. A Go \<^verbatim>\<open>error\<close> result is \<open>'e option\<close> (\<^term>\<open>None\<close> is \<^verbatim>\<open>nil\<close>), a
  \<^verbatim>\<open>(value, error)\<close> result is \<open>'e + 'a\<close>, a pointer is \<open>'a option\<close>, and a slice is a list.
\<close>

named_theorems result_simps \<open>characteristic equations of results and checks\<close>
named_theorems valid_simps \<open>what a passed validation means\<close>

section \<open>Checks and results\<close>

text \<open>\<open>check bad e\<close> is the guard \<^verbatim>\<open>if bad { return e }\<close>; \<open>first_error\<close> runs guards in order.\<close>

definition check :: "bool \<Rightarrow> 'e \<Rightarrow> 'e option" where
  "check bad e = (if bad then Some e else None)"

fun first_error :: "'e option list \<Rightarrow> 'e option" where
  "first_error [] = None"
| "first_error (None # cs) = first_error cs"
| "first_error (Some e # cs) = Some e"

text \<open>\<open>guardE c r\<close> is \<^verbatim>\<open>if err := c; err != nil { return err }\<close> followed by \<open>r\<close>.\<close>

definition guardE :: "'e option \<Rightarrow> 'e + 'a \<Rightarrow> 'e + 'a" where
  "guardE c r = (case c of None \<Rightarrow> r | Some e \<Rightarrow> Inl e)"

definition bindE :: "'e + 'a \<Rightarrow> ('a \<Rightarrow> 'e + 'b) \<Rightarrow> 'e + 'b" where
  "bindE m f = (case m of Inl e \<Rightarrow> Inl e | Inr x \<Rightarrow> f x)"

text \<open>A \<^verbatim>\<open>for ... range\<close> loop over a state that stops at the first error.\<close>

primrec foldE :: "('s \<Rightarrow> 'x \<Rightarrow> 'e + 's) \<Rightarrow> 's \<Rightarrow> 'x list \<Rightarrow> 'e + 's" where
  "foldE f s [] = Inr s"
| "foldE f s (x # xs) = bindE (f s x) (\<lambda>s'. foldE f s' xs)"

text \<open>A loop that updates its state in place: the state reached is kept also when a step fails.\<close>

primrec foldS :: "('s \<Rightarrow> 'x \<Rightarrow> 'e option \<times> 's) \<Rightarrow> 's \<Rightarrow> 'x list \<Rightarrow> 'e option \<times> 's" where
  "foldS f s [] = (None, s)"
| "foldS f s (x # xs) = (case f s x of (None, t) \<Rightarrow> foldS f t xs | (Some e, t) \<Rightarrow> (Some e, t))"

definition map_error :: "('e \<Rightarrow> 'f) \<Rightarrow> 'e + 'a \<Rightarrow> 'f + 'a" where
  "map_error f r = (case r of Inl e \<Rightarrow> Inl (f e) | Inr x \<Rightarrow> Inr x)"

lemma check_None [simp, result_simps]: "check bad e = None \<longleftrightarrow> \<not> bad"
  by (simp add: check_def)

lemma check_Some [simp, result_simps]: "check bad e = Some e' \<longleftrightarrow> bad \<and> e' = e"
  by (auto simp: check_def)

lemma first_error_Cons: "first_error (c # cs) = (case c of None \<Rightarrow> first_error cs | Some e \<Rightarrow> Some e)"
  by (cases c) simp_all

lemma first_error_Cons_None [simp, result_simps]:
  "first_error (c # cs) = None \<longleftrightarrow> c = None \<and> first_error cs = None"
  by (cases c) simp_all

lemma first_error_None_iff: "first_error cs = None \<longleftrightarrow> (\<forall>c \<in> set cs. c = None)"
  by (induction cs) auto

lemma first_error_append [simp]:
  "first_error (xs @ ys) = (case first_error xs of None \<Rightarrow> first_error ys | Some e \<Rightarrow> Some e)"
  by (induction xs rule: first_error.induct) auto

lemma first_error_map_None [simp, result_simps]:
  "first_error (map f xs) = None \<longleftrightarrow> (\<forall>x \<in> set xs. f x = None)"
  by (auto simp: first_error_None_iff)

lemma guardE_simps [simp, result_simps]:
  "guardE None r = r"
  "guardE (Some e) r = Inl e"
  by (simp_all add: guardE_def)

lemma guardE_Inr [simp, result_simps]: "guardE c r = Inr y \<longleftrightarrow> c = None \<and> r = Inr y"
  by (cases c) simp_all

lemma bindE_simps [simp, result_simps]:
  "bindE (Inl e) f = Inl e"
  "bindE (Inr x) f = f x"
  by (simp_all add: bindE_def)

lemma bindE_Inr [simp, result_simps]: "bindE m f = Inr y \<longleftrightarrow> (\<exists>x. m = Inr x \<and> f x = Inr y)"
  by (cases m) auto

lemma bindE_assoc: "bindE (bindE m f) g = bindE m (\<lambda>x. bindE (f x) g)"
  by (cases m) simp_all

lemma map_error_Inr [simp, result_simps]: "map_error f r = Inr y \<longleftrightarrow> r = Inr y"
  by (cases r) (auto simp: map_error_def)

lemma foldE_append: "foldE f s (xs @ ys) = bindE (foldE f s xs) (\<lambda>t. foldE f t ys)"
  by (induction xs arbitrary: s) (simp_all add: bindE_assoc)

lemma foldE_append_Inr [result_simps]:
  "foldE f s (xs @ ys) = Inr t \<longleftrightarrow> (\<exists>u. foldE f s xs = Inr u \<and> foldE f u ys = Inr t)"
  by (simp add: foldE_append)

section \<open>Loops that keep an invariant\<close>

text \<open>
  The contract between a step of an error-stopping loop and the loop: a step keeps \<open>inv\<close> and relates
  the states before and after by the preorder \<open>rel\<close>. The loop then does both. Each component
  interprets this locale with its own step.
\<close>

locale loop_step =
  fixes step :: "'s \<Rightarrow> 'x \<Rightarrow> 'e + 's"
    and ok :: "'x \<Rightarrow> bool"
    and inv :: "'s \<Rightarrow> bool"
    and rel :: "'s \<Rightarrow> 's \<Rightarrow> bool"
  assumes step_inv: "step s x = Inr t \<Longrightarrow> ok x \<Longrightarrow> inv s \<Longrightarrow> inv t"
    and step_rel: "step s x = Inr t \<Longrightarrow> ok x \<Longrightarrow> inv s \<Longrightarrow> rel s t"
    and rel_refl: "rel s s"
    and rel_trans: "rel s t \<Longrightarrow> rel t u \<Longrightarrow> rel s u"
begin

lemma loop_both:
  "foldE step s xs = Inr t \<Longrightarrow> \<forall>x \<in> set xs. ok x \<Longrightarrow> inv s \<Longrightarrow> inv t \<and> rel s t"
proof (induction xs arbitrary: s)
  case Nil
  then show ?case by (simp add: rel_refl)
next
  case (Cons x xs)
  then obtain u where u: "step s x = Inr u" and rest: "foldE step u xs = Inr t" by auto
  have "inv u" and su: "rel s u" using step_inv [OF u] step_rel [OF u] Cons.prems by auto
  with Cons.IH [OF rest] Cons.prems have "inv t \<and> rel u t" by simp
  with su show ?case using rel_trans by blast
qed

lemma loop_inv: "foldE step s xs = Inr t \<Longrightarrow> \<forall>x \<in> set xs. ok x \<Longrightarrow> inv s \<Longrightarrow> inv t"
  using loop_both by blast

lemma loop_rel: "foldE step s xs = Inr t \<Longrightarrow> \<forall>x \<in> set xs. ok x \<Longrightarrow> inv s \<Longrightarrow> rel s t"
  using loop_both by blast

end

section \<open>Lists\<close>

lemma find_append: "List.find P (xs @ ys) = (case List.find P xs of None \<Rightarrow> List.find P ys | Some x \<Rightarrow> Some x)"
  by (induction xs) auto

lemma find_None_iff_all: "List.find P xs = None \<longleftrightarrow> (\<forall>x \<in> set xs. \<not> P x)"
  by (induction xs) auto

lemma find_SomeD: "List.find P xs = Some x \<Longrightarrow> x \<in> set xs \<and> P x"
  by (induction xs) (auto split: if_splits)

lemma distinct_map_filter_append:
  "distinct (List.map_filter f (xs @ [x])) \<longleftrightarrow>
     distinct (List.map_filter f xs) \<and>
     (case f x of None \<Rightarrow> True | Some y \<Rightarrow> y \<notin> set (List.map_filter f xs))"
  by (auto simp: List.map_filter_def split: option.splits)

end
