(* ===== verification/Go_Text.thy ===== *)
theory Go_Text
  imports Prelude "HOL-Library.Word"
begin

text \<open>
  The parts of Go's value model and standard library that the program's validation rests on. A Go
  string is its byte sequence, a \<^typ>\<open>string\<close> whose characters are bytes. The theory models
  \<^verbatim>\<open>utf8.DecodeRune\<close>, \<^verbatim>\<open>range\<close> over a string, \<^verbatim>\<open>utf8.ValidString\<close>, \<^verbatim>\<open>strings.TrimSpace\<close>, the
  \<^verbatim>\<open>unicode\<close> classes used by the safe-text checks (Unicode 15, as shipped with Go 1.25), decimal
  printing, \<^verbatim>\<open>float64\<close> comparison on IEEE bit patterns, and \<^verbatim>\<open>time.Time\<close> as nanoseconds from the
  zero instant.
\<close>

section \<open>Numbers and time\<close>

type_synonym int64 = "64 word"
type_synonym uint64 = "64 word"
type_synonym float64 = "64 word"
type_synonym time = int

abbreviation slt :: "int64 \<Rightarrow> int64 \<Rightarrow> bool" where
  "slt a b \<equiv> sint a < sint b"

abbreviation sle :: "int64 \<Rightarrow> int64 \<Rightarrow> bool" where
  "sle a b \<equiv> sint a \<le> sint b"

definition IsZero :: "time \<Rightarrow> bool" where
  "IsZero t \<longleftrightarrow> t = 0"

definition f64_exponent :: "float64 \<Rightarrow> int" where
  "f64_exponent x = (uint x div 2 ^ 52) mod 2 ^ 11"

definition f64_fraction :: "float64 \<Rightarrow> int" where
  "f64_fraction x = uint x mod 2 ^ 52"

definition f64_isNaN :: "float64 \<Rightarrow> bool" where
  "f64_isNaN x \<longleftrightarrow> f64_exponent x = 2047 \<and> f64_fraction x \<noteq> 0"

definition f64_isInf :: "float64 \<Rightarrow> bool" where
  "f64_isInf x \<longleftrightarrow> f64_exponent x = 2047 \<and> f64_fraction x = 0"

definition f64_isZero :: "float64 \<Rightarrow> bool" where
  "f64_isZero x \<longleftrightarrow> f64_exponent x = 0 \<and> f64_fraction x = 0"

definition f64_negative :: "float64 \<Rightarrow> bool" where
  "f64_negative x \<longleftrightarrow> 2 ^ 63 \<le> uint x \<and> \<not> f64_isZero x \<and> \<not> f64_isNaN x"

definition f64_eq :: "float64 \<Rightarrow> float64 \<Rightarrow> bool" where
  "f64_eq x y \<longleftrightarrow> \<not> f64_isNaN x \<and> \<not> f64_isNaN y \<and> (x = y \<or> f64_isZero x \<and> f64_isZero y)"

section \<open>UTF-8\<close>

abbreviation cont_byte :: "nat \<Rightarrow> bool" where
  "cont_byte b \<equiv> 128 \<le> b \<and> b \<le> 191"

text \<open>\<^verbatim>\<open>utf8.DecodeRune\<close>: the rune and its width, \<^term>\<open>None\<close> for an invalid encoding.\<close>

fun decodeRune :: "string \<Rightarrow> (nat \<times> nat) option" where
  "decodeRune [] = None"
| "decodeRune (c0 # s) =
     (let b0 = of_char c0 in
      if b0 < 128 then Some (b0, 1)
      else if b0 < 194 then None
      else if b0 < 224 then
        (case s of
           c1 # _ \<Rightarrow> let b1 = of_char c1 in
             if cont_byte b1 then Some ((b0 - 192) * 64 + (b1 - 128), 2) else None
         | _ \<Rightarrow> None)
      else if b0 < 240 then
        (case s of
           c1 # c2 # _ \<Rightarrow> let b1 = of_char c1; b2 = of_char c2 in
             if (if b0 = 224 then 160 else 128) \<le> b1 \<and> b1 \<le> (if b0 = 237 then 159 else 191) \<and> cont_byte b2
             then Some ((b0 - 224) * 4096 + (b1 - 128) * 64 + (b2 - 128), 3) else None
         | _ \<Rightarrow> None)
      else if b0 < 245 then
        (case s of
           c1 # c2 # c3 # _ \<Rightarrow> let b1 = of_char c1; b2 = of_char c2; b3 = of_char c3 in
             if (if b0 = 240 then 144 else 128) \<le> b1 \<and> b1 \<le> (if b0 = 244 then 143 else 191)
                \<and> cont_byte b2 \<and> cont_byte b3
             then Some ((b0 - 240) * 262144 + (b1 - 128) * 4096 + (b2 - 128) * 64 + (b3 - 128), 4) else None
         | _ \<Rightarrow> None)
      else None)"

lemma decodeRune_width: "decodeRune s = Some (r, n) \<Longrightarrow> 0 < n"
  by (cases s) (auto simp: Let_def split: if_splits list.splits)

declare decodeRune.simps [simp del]

text \<open>The runes of a string in order; \<^term>\<open>None\<close> for each byte that starts no valid encoding.\<close>

function decodeAll :: "string \<Rightarrow> nat option list" where
  "decodeAll s =
     (if s = [] then []
      else case decodeRune s of
             None \<Rightarrow> None # decodeAll (tl s)
           | Some (r, n) \<Rightarrow> Some r # decodeAll (drop n s))"
  by pat_completeness auto
termination
proof (relation "measure length")
  fix s :: string and p r n
  assume "s \<noteq> []" and "decodeRune s = Some p" and "(r, n) = p"
  then have "0 < n" using decodeRune_width by metis
  with \<open>s \<noteq> []\<close> show "(drop n s, s) \<in> measure length" by simp
qed auto

declare decodeAll.simps [simp del]

definition utf8_ValidString :: "string \<Rightarrow> bool" where
  "utf8_ValidString s \<longleftrightarrow> (\<forall>r \<in> set (decodeAll s). r \<noteq> None)"

definition runes :: "string \<Rightarrow> nat list" where
  "runes s = map (\<lambda>r. case r of None \<Rightarrow> 65533 | Some c \<Rightarrow> c) (decodeAll s)"

lemma decodeAll_ascii: "\<forall>c \<in> set s. (of_char c :: nat) < 128 \<Longrightarrow> decodeAll s = map (\<lambda>c. Some (of_char c)) s"
proof (induction s)
  case Nil
  then show ?case by (simp add: decodeAll.simps)
next
  case (Cons c s)
  then have "decodeRune (c # s) = Some (of_char c, 1)" by (simp add: decodeRune.simps)
  with Cons show ?case by (simp add: decodeAll.simps [of "c # s"])
qed

lemma utf8_ascii: "\<forall>c \<in> set s. (of_char c :: nat) < 128 \<Longrightarrow> utf8_ValidString s"
  by (auto simp: utf8_ValidString_def decodeAll_ascii)

lemma runes_ascii: "\<forall>c \<in> set s. (of_char c :: nat) < 128 \<Longrightarrow> runes s = map of_char s"
  by (simp add: runes_def decodeAll_ascii)

definition utf8_encode :: "nat \<Rightarrow> string" where
  "utf8_encode r = map char_of
     (if r < 128 then [r]
      else if r < 2048 then [192 + r div 64, 128 + r mod 64]
      else if r < 65536 then [224 + r div 4096, 128 + (r div 64) mod 64, 128 + r mod 64]
      else [240 + r div 262144, 128 + (r div 4096) mod 64, 128 + (r div 64) mod 64, 128 + r mod 64])"

section \<open>Unicode classes\<close>

text \<open>\<^verbatim>\<open>unicode.IsControl\<close>, \<^verbatim>\<open>unicode.IsSpace\<close> and \<^verbatim>\<open>unicode.In(r, Cf, Zl, Zp)\<close>.\<close>

definition unicode_IsControl :: "nat \<Rightarrow> bool" where
  "unicode_IsControl r \<longleftrightarrow> r < 32 \<or> 127 \<le> r \<and> r < 160"

definition space_runes :: "nat list" where
  "space_runes = [9, 10, 11, 12, 13, 32, 133, 160, 5760, 8192, 8193, 8194, 8195, 8196, 8197, 8198,
     8199, 8200, 8201, 8202, 8232, 8233, 8239, 8287, 12288]"

definition unicode_IsSpace :: "nat \<Rightarrow> bool" where
  "unicode_IsSpace r \<longleftrightarrow> r \<in> set space_runes"

definition format_ranges :: "(nat \<times> nat) list" where
  "format_ranges = [(173, 173), (1536, 1541), (1564, 1564), (1757, 1757), (1807, 1807), (2192, 2193),
     (2274, 2274), (6158, 6158), (8203, 8207), (8234, 8238), (8288, 8292), (8294, 8303), (65279, 65279),
     (65529, 65531), (69821, 69821), (69837, 69837), (78896, 78911), (113824, 113827),
     (119155, 119162), (917505, 917505), (917536, 917631)]"

definition unicode_In_CfZlZp :: "nat \<Rightarrow> bool" where
  "unicode_In_CfZlZp r \<longleftrightarrow> (\<exists>(lo, hi) \<in> set format_ranges. lo \<le> r \<and> r \<le> hi) \<or> r = 8232 \<or> r = 8233"

section \<open>TrimSpace\<close>

text \<open>
  Trimming works on encoded runes: a leading rune is a space exactly when the string starts with the
  encoding of a space rune, and a trailing one when it ends with it.
\<close>

function strip_seqs :: "string list \<Rightarrow> string \<Rightarrow> string" where
  "strip_seqs seqs s =
     (case List.find (\<lambda>p. p \<noteq> [] \<and> take (length p) s = p) seqs of
        None \<Rightarrow> s
      | Some p \<Rightarrow> strip_seqs seqs (drop (length p) s))"
  by pat_completeness auto
termination
proof (relation "measure (length \<circ> snd)")
  fix seqs :: "string list" and s p
  assume "List.find (\<lambda>p. p \<noteq> [] \<and> take (length p) s = p) seqs = Some p"
  then have "p \<noteq> []" and "take (length p) s = p" by (auto dest: find_SomeD)
  then have "0 < length p" and "s \<noteq> []" by auto
  then show "((seqs, drop (length p) s), seqs, s) \<in> measure (length \<circ> snd)" by simp
qed auto

declare strip_seqs.simps [simp del]

definition space_seqs :: "string list" where
  "space_seqs = map utf8_encode space_runes"

definition TrimSpace :: "string \<Rightarrow> string" where
  "TrimSpace s = rev (strip_seqs (map rev space_seqs) (rev (strip_seqs space_seqs s)))"

text \<open>A printable ASCII byte starts and ends no space encoding, which settles most identifiers.\<close>

definition graphic :: "char \<Rightarrow> bool" where
  "graphic c \<longleftrightarrow> 33 \<le> (of_char c :: nat) \<and> (of_char c :: nat) \<le> 126"

lemma strip_seqs_id:
  assumes "\<forall>p \<in> set seqs. p = [] \<or> hd p \<noteq> c"
  shows "strip_seqs seqs (c # s) = c # s"
proof -
  have "\<not> (p \<noteq> [] \<and> take (length p) (c # s) = p)" if "p \<in> set seqs" for p
    using assms that by (cases p) auto
  then have "List.find (\<lambda>p. p \<noteq> [] \<and> take (length p) (c # s) = p) seqs = None"
    by (simp only: find_None_iff_all) blast
  then show ?thesis by (subst strip_seqs.simps) simp
qed

lemma space_seqs_edges:
  "\<forall>p \<in> set space_seqs. p \<noteq> [] \<and> \<not> graphic (hd p) \<and> \<not> graphic (last p)"
  by (simp add: space_seqs_def space_runes_def utf8_encode_def graphic_def)

lemma TrimSpace_graphic:
  assumes "s \<noteq> []" and "graphic (hd s)" and "graphic (last s)"
  shows "TrimSpace s = s"
proof -
  obtain c t where s: "s = c # t" using assms(1) by (cases s) auto
  have 1: "strip_seqs space_seqs s = s"
    unfolding s using space_seqs_edges assms(2) s by (intro strip_seqs_id) auto
  obtain d u where r: "rev s = d # u" using assms(1) by (cases "rev s") auto
  then have d: "d = last s" by (metis hd_rev list.sel(1))
  have "strip_seqs (map rev space_seqs) (rev s) = rev s"
    unfolding r using space_seqs_edges assms(3) d by (intro strip_seqs_id) (auto simp: hd_rev)
  with 1 show ?thesis by (simp add: TrimSpace_def)
qed

lemma strip_seqs_suffix: "\<exists>n. strip_seqs seqs s = drop n s"
proof (induction seqs s rule: strip_seqs.induct)
  case (1 seqs s)
  show ?case
  proof (cases "List.find (\<lambda>p. p \<noteq> [] \<and> take (length p) s = p) seqs")
    case None
    then show ?thesis by (subst strip_seqs.simps) (auto intro: exI [of _ 0])
  next
    case (Some p)
    with 1 obtain n where "strip_seqs seqs (drop (length p) s) = drop n (drop (length p) s)" by blast
    with Some show ?thesis by (subst strip_seqs.simps) auto
  qed
qed

lemma strip_seqs_fixed:
  "strip_seqs seqs s = s \<longleftrightarrow> (\<forall>p \<in> set seqs. p = [] \<or> take (length p) s \<noteq> p)"
proof (cases "List.find (\<lambda>p. p \<noteq> [] \<and> take (length p) s = p) seqs")
  case None
  then have "strip_seqs seqs s = s" by (subst strip_seqs.simps) simp
  with None show ?thesis unfolding find_None_iff_all by blast
next
  case (Some p)
  then have p: "p \<in> set seqs" "p \<noteq> []" "take (length p) s = p" by (auto dest: find_SomeD)
  have "strip_seqs seqs s = strip_seqs seqs (drop (length p) s)"
    using Some by (subst strip_seqs.simps) simp
  then obtain n where "strip_seqs seqs s = drop n (drop (length p) s)"
    using strip_seqs_suffix [of seqs "drop (length p) s"] by auto
  moreover have "drop n (drop (length p) s) \<noteq> s"
  proof
    assume "drop n (drop (length p) s) = s"
    then have "length s - (length p + n) = length s" by (metis add.commute drop_drop length_drop)
    moreover have "0 < length p" "0 < length s" using p by auto
    ultimately show False by linarith
  qed
  ultimately show ?thesis using p by auto
qed

lemma TrimSpace_fixed:
  "TrimSpace s = s \<longleftrightarrow> strip_seqs space_seqs s = s \<and> strip_seqs (map rev space_seqs) (rev s) = rev s"
proof
  assume t: "TrimSpace s = s"
  obtain n where n: "strip_seqs space_seqs s = drop n s" using strip_seqs_suffix by blast
  obtain m where m: "strip_seqs (map rev space_seqs) (rev (drop n s)) = drop m (rev (drop n s))"
    using strip_seqs_suffix by blast
  have "length s = length s - n - m" using t n m by (metis TrimSpace_def length_drop length_rev)
  then have "drop n s = s" by (cases s; cases n) auto
  with t n show "strip_seqs space_seqs s = s \<and> strip_seqs (map rev space_seqs) (rev s) = rev s"
    by (metis TrimSpace_def rev_rev_ident)
qed (simp add: TrimSpace_def)

lemma space_seqs_not_graphic: "\<forall>p \<in> set space_seqs. p \<noteq> [] \<and> (\<forall>c \<in> set p. \<not> graphic c)"
  by (simp add: space_seqs_def space_runes_def utf8_encode_def graphic_def)

text \<open>Appending graphic text after a trimmed string leaves it trimmed.\<close>

lemma TrimSpace_append:
  assumes s: "TrimSpace s = s" "s \<noteq> []" and t: "t \<noteq> []" "graphic (hd t)" "graphic (last t)"
  shows "TrimSpace (s @ t) = s @ t"
proof -
  have front: "strip_seqs space_seqs s = s" using s TrimSpace_fixed by blast
  have "take (length p) (s @ t) \<noteq> p" if p: "p \<in> set space_seqs" for p
  proof
    assume eq: "take (length p) (s @ t) = p"
    have ng: "\<forall>c \<in> set p. \<not> graphic c" and ne: "p \<noteq> []" using p space_seqs_not_graphic by auto
    show False
    proof (cases "length p \<le> length s")
      case True
      with eq have "take (length p) s = p" by simp
      with front p ne show False by (auto simp: strip_seqs_fixed)
    next
      case False
      then have "p = s @ take (length p - length s) t" using eq by simp
      moreover have "hd t \<in> set (take (length p - length s) t)" using False t(1) by (cases t) (auto simp: take_Cons')
      ultimately show False using ng t(2) by (metis Un_iff set_append)
    qed
  qed
  then have "strip_seqs space_seqs (s @ t) = s @ t" by (auto simp: strip_seqs_fixed)
  moreover obtain d u where r: "rev (s @ t) = d # u" "d = last t"
    using t(1) by (cases t rule: rev_cases) auto
  moreover have "strip_seqs (map rev space_seqs) (d # u) = d # u"
    using space_seqs_edges t(3) r by (intro strip_seqs_id) (auto simp: hd_rev)
  ultimately show ?thesis unfolding TrimSpace_fixed by (simp only: r(1))
qed

section \<open>Decimal printing\<close>

fun dec :: "nat \<Rightarrow> string" where
  "dec n = (if n < 10 then [char_of (48 + n)] else dec (n div 10) @ [char_of (48 + n mod 10)])"

declare dec.simps [simp del]

lemma dec_digits: "\<forall>c \<in> set (dec n). 48 \<le> (of_char c :: nat) \<and> (of_char c :: nat) \<le> 57"
proof (induction n rule: dec.induct)
  case (1 n)
  have "(48 + n mod 10) < 256" by (simp add: order_le_less_trans)
  with 1 show ?case by (subst dec.simps) auto
qed

lemma dec_nonempty [simp]: "dec n \<noteq> []"
  by (subst dec.simps) simp

fun undec :: "string \<Rightarrow> nat" where
  "undec s = foldl (\<lambda>a c. 10 * a + (of_char c - 48)) 0 s"

lemma undec_dec: "undec (dec n) = n"
proof (induction n rule: dec.induct)
  case (1 n)
  show ?case
  proof (cases "n < 10")
    case True
    then show ?thesis by (subst dec.simps) simp
  next
    case False
    have "48 + n mod 10 < 256" by (simp add: order_le_less_trans)
    then have "undec (dec n) = 10 * undec (dec (n div 10)) + n mod 10"
      using False by (subst dec.simps) simp
    with 1 False show ?thesis by simp
  qed
qed

lemma dec_inject [simp]: "dec m = dec n \<longleftrightarrow> m = n"
  by (metis undec_dec)

end
