(* ===== verification/Json_Value.thy ===== *)
theory Json_Value
  imports Go_Text
begin

text \<open>
  \<^verbatim>\<open>internal/jsonvalue\<close>: the private JSON value semantics behind tool-call identity and admission.
  \<^verbatim>\<open>decode\<close> reads tokens from \<^verbatim>\<open>encoding/json\<close>; the token state machine of that package admits exactly
  the separators of the JSON grammar, so \<open>json_decode\<close> reads the grammar directly from the bytes,
  unquoting strings as \<^verbatim>\<open>encoding/json\<close> does (surrogate pairs joined, invalid UTF-8 and lone surrogates
  replaced by U+FFFD). Objects are association lists with distinct names (duplicates are rejected).
\<close>

section \<open>Values\<close>

record number =
  num_negative :: bool
  num_digits :: string
  num_exponent :: int

datatype json =
    JNull
  | JBool bool
  | JNumber number
  | JString string
  | JArray "json list"
  | JObject "(string \<times> json) list"

section \<open>Numbers\<close>

abbreviation is_digit :: "char \<Rightarrow> bool" where
  "is_digit c \<equiv> 48 \<le> (of_char c :: nat) \<and> (of_char c :: nat) \<le> 57"

definition digits_value :: "string \<Rightarrow> int" where
  "digits_value s = int (undec s)"

text \<open>\<^verbatim>\<open>big.Int.SetString\<close> in base 10, for texts the scanner has admitted.\<close>

definition exponent_value :: "string \<Rightarrow> int" where
  "exponent_value s = (case s of
      c # r \<Rightarrow> if c = CHR ''-'' then - digits_value r else digits_value s
    | [] \<Rightarrow> 0)"

definition normalizeNumber :: "string \<Rightarrow> number" where
  "normalizeNumber raw0 =
     (let negative = (raw0 \<noteq> [] \<and> hd raw0 = CHR ''-'');
          raw = (if negative then tl raw0 else raw0);
          isE = (\<lambda>c. c = CHR ''e'' \<or> c = CHR ''E'');
          mantissa = takeWhile (\<lambda>c. \<not> isE c) raw;
          after = dropWhile (\<lambda>c. \<not> isE c) raw;
          exponentText0 = (if after = [] then ''0'' else tl after);
          exponentText = (if exponentText0 \<noteq> [] \<and> hd exponentText0 = CHR ''+'' then tl exponentText0 else exponentText0);
          exponent = exponent_value exponentText;
          whole = takeWhile (\<lambda>c. c \<noteq> CHR ''.'') mantissa;
          point = dropWhile (\<lambda>c. c \<noteq> CHR ''.'') mantissa;
          fraction = (if point = [] then [] else tl point);
          digits = dropWhile (\<lambda>c. c = CHR ''0'') (whole @ fraction)
      in if digits = [] then \<lparr>num_negative = False, num_digits = ''0'', num_exponent = 0\<rparr>
         else let trimmed = rev (dropWhile (\<lambda>c. c = CHR ''0'') (rev digits));
                  trailing = length digits - length trimmed
              in \<lparr>num_negative = negative, num_digits = trimmed,
                  num_exponent = exponent - int (length fraction) + int trailing\<rparr>)"

text \<open>The number token: sign, integer part without leading zero, fraction, exponent.\<close>

definition lex_digits :: "string \<Rightarrow> (string \<times> string) option" where
  "lex_digits s = (let d = takeWhile is_digit s in if d = [] then None else Some (d, dropWhile is_digit s))"

definition lex_int :: "string \<Rightarrow> (string \<times> string) option" where
  "lex_int s = (case s of
      [] \<Rightarrow> None
    | c # r \<Rightarrow> if c = CHR ''0'' then Some ([c], r) else lex_digits s)"

definition lex_fraction :: "string \<Rightarrow> (string \<times> string) option" where
  "lex_fraction s = (case s of
      c # r \<Rightarrow> if c = CHR ''.'' then map_option (\<lambda>(d, t). (c # d, t)) (lex_digits r) else Some ([], s)
    | [] \<Rightarrow> Some ([], []))"

definition lex_exponent :: "string \<Rightarrow> (string \<times> string) option" where
  "lex_exponent s = (case s of
      c # r \<Rightarrow>
        if c = CHR ''e'' \<or> c = CHR ''E'' then
          (case r of
             g # r' \<Rightarrow> if g = CHR ''+'' \<or> g = CHR ''-''
                      then map_option (\<lambda>(d, t). (c # g # d, t)) (lex_digits r')
                      else map_option (\<lambda>(d, t). (c # d, t)) (lex_digits r)
           | [] \<Rightarrow> None)
        else Some ([], s)
    | [] \<Rightarrow> Some ([], []))"

definition lex_number :: "string \<Rightarrow> (string \<times> string) option" where
  "lex_number s =
     (let minus = (s \<noteq> [] \<and> hd s = CHR ''-'') in
      case lex_int (if minus then tl s else s) of None \<Rightarrow> None
      | Some (i, r1) \<Rightarrow> (case lex_fraction r1 of None \<Rightarrow> None
        | Some (f, r2) \<Rightarrow> (case lex_exponent r2 of None \<Rightarrow> None
          | Some (e, r3) \<Rightarrow> Some ((if minus then ''-'' else []) @ i @ f @ e, r3))))"

section \<open>Strings\<close>

definition hex_digit :: "char \<Rightarrow> nat option" where
  "hex_digit c = (let b = of_char c in
     if 48 \<le> b \<and> b \<le> 57 then Some (b - 48)
     else if 97 \<le> b \<and> b \<le> 102 then Some (b - 87)
     else if 65 \<le> b \<and> b \<le> 70 then Some (b - 55)
     else None)"

definition hex4 :: "char \<Rightarrow> char \<Rightarrow> char \<Rightarrow> char \<Rightarrow> nat option" where
  "hex4 a b c d = (case (hex_digit a, hex_digit b, hex_digit c, hex_digit d) of
      (Some w, Some x, Some y, Some z) \<Rightarrow> Some (((w * 16 + x) * 16 + y) * 16 + z)
    | _ \<Rightarrow> None)"

definition simple_escape :: "char \<Rightarrow> char option" where
  "simple_escape c = map_of
     [(CHR 0x22, CHR 0x22), (CHR 0x5C, CHR 0x5C), (CHR ''/'', CHR ''/''), (CHR ''b'', CHR 0x08),
      (CHR ''f'', CHR 0x0C), (CHR ''n'', CHR 0x0A), (CHR ''r'', CHR 0x0D), (CHR ''t'', CHR 0x09)] c"

text \<open>The second half of a surrogate pair directly after the first, and what follows it.\<close>

definition low_surrogate :: "string \<Rightarrow> (nat \<times> string) option" where
  "low_surrogate s = (case s of
      x # y # a # b # c # d # r \<Rightarrow>
        if x = CHR 0x5C \<and> y = CHR ''u'' then
          (case hex4 a b c d of
             Some u \<Rightarrow> if 56320 \<le> u \<and> u < 57344 then Some (u, r) else None
           | None \<Rightarrow> None)
        else None
    | _ \<Rightarrow> None)"

lemma low_surrogate_shorter: "low_surrogate s = Some (u, r) \<Longrightarrow> length r < length s"
  by (auto simp: low_surrogate_def split: list.splits if_splits option.splits)

text \<open>One step of unquoting: the closing quote, an error, or the bytes one character decodes to.\<close>

datatype str_step = StrEnd string | StrBad | StrChar string string

definition lex_escape_u :: "string \<Rightarrow> str_step" where
  "lex_escape_u s = (case s of
      a # b # x # d # r \<Rightarrow>
        (case hex4 a b x d of
           None \<Rightarrow> StrBad
         | Some u \<Rightarrow>
             if 55296 \<le> u \<and> u < 57344 then
               (case (if u < 56320 then low_surrogate r else None) of
                  Some (v, r') \<Rightarrow> StrChar (utf8_encode (65536 + (u - 55296) * 1024 + (v - 56320))) r'
                | None \<Rightarrow> StrChar (utf8_encode 65533) r)
             else StrChar (utf8_encode u) r)
    | _ \<Rightarrow> StrBad)"

definition lex_escape :: "string \<Rightarrow> str_step" where
  "lex_escape s = (case s of
      [] \<Rightarrow> StrBad
    | e # r \<Rightarrow>
        if e = CHR ''u'' then lex_escape_u r
        else (case simple_escape e of None \<Rightarrow> StrBad | Some x \<Rightarrow> StrChar [x] r))"

definition lex_char :: "string \<Rightarrow> str_step" where
  "lex_char s = (case s of
      [] \<Rightarrow> StrBad
    | c # r \<Rightarrow>
        if c = CHR 0x22 then StrEnd r
        else if c = CHR 0x5C then lex_escape r
        else if (of_char c :: nat) < 32 then StrBad
        else if (of_char c :: nat) < 128 then StrChar [c] r
        else (case decodeRune s of
                None \<Rightarrow> StrChar (utf8_encode 65533) r
              | Some (_, n) \<Rightarrow> StrChar (take n s) (drop n s)))"

lemma lex_escape_u_shorter: "lex_escape_u s = StrChar t r \<Longrightarrow> length r < length s"
  by (auto simp: lex_escape_u_def split: list.splits option.splits if_splits dest: low_surrogate_shorter)

lemma lex_escape_shorter: "lex_escape s = StrChar t r \<Longrightarrow> length r < length s"
  by (auto simp: lex_escape_def split: list.splits option.splits if_splits dest: lex_escape_u_shorter)

lemma lex_char_shorter: "lex_char s = StrChar t r \<Longrightarrow> length r < length s"
  by (auto simp: lex_char_def split: list.splits option.splits if_splits
      dest: lex_escape_shorter decodeRune_width)

lemma lex_char_end_shorter: "lex_char s = StrEnd r \<Longrightarrow> length r < length s"
  by (auto simp: lex_char_def lex_escape_def lex_escape_u_def split: list.splits option.splits if_splits)

function lex_string :: "string \<Rightarrow> (string \<times> string) option" where
  "lex_string s = (case lex_char s of
      StrEnd r \<Rightarrow> Some ([], r)
    | StrBad \<Rightarrow> None
    | StrChar t r \<Rightarrow> map_option (\<lambda>(u, rest). (t @ u, rest)) (lex_string r))"
  by pat_completeness auto
termination
  by (relation "measure length") (auto dest: lex_char_shorter)

declare lex_string.simps [simp del]

section \<open>Documents\<close>

definition skip_ws :: "string \<Rightarrow> string" where
  "skip_ws = dropWhile (\<lambda>c. c = CHR '' '' \<or> c = CHR 0x09 \<or> c = CHR 0x0A \<or> c = CHR 0x0D)"

lemma skip_ws_length: "length (skip_ws s) \<le> length s"
  by (simp add: skip_ws_def length_dropWhile_le)

text \<open>
  The recursion follows \<^verbatim>\<open>decode\<close>: one value, the items of an array up to its closing bracket, the
  members of an object up to its closing brace. Each call consumes input; the length tests hold for
  every rest that the lexers and recursive calls return (lemma \<open>json_decode_shorter\<close>) and only make
  the termination order visible.
\<close>

definition shorter :: "string \<Rightarrow> string \<Rightarrow> bool" where
  "shorter r s \<longleftrightarrow> length r < length s"

definition json_scalar :: "char \<Rightarrow> string \<Rightarrow> (json \<times> string) option" where
  "json_scalar c r =
     (if c = CHR ''n'' then (if take 3 r = ''ull'' then Some (JNull, drop 3 r) else None)
      else if c = CHR ''t'' then (if take 3 r = ''rue'' then Some (JBool True, drop 3 r) else None)
      else if c = CHR ''f'' then (if take 4 r = ''alse'' then Some (JBool False, drop 4 r) else None)
      else if c = CHR 0x22 then map_option (\<lambda>(t, rest). (JString t, rest)) (lex_string r)
      else if c = CHR ''-'' \<or> is_digit c then
        map_option (\<lambda>(t, rest). (JNumber (normalizeNumber t), rest)) (lex_number (c # r))
      else None)"

text \<open>A member name and the colon after it.\<close>

definition json_name :: "string \<Rightarrow> (string \<times> string) option" where
  "json_name s = (case skip_ws s of
      [] \<Rightarrow> None
    | q # r0 \<Rightarrow>
        if q \<noteq> CHR 0x22 then None
        else (case lex_string r0 of
           None \<Rightarrow> None
         | Some (name, r1) \<Rightarrow>
             (case skip_ws r1 of
                [] \<Rightarrow> None
              | k # r2 \<Rightarrow> if k \<noteq> CHR '':'' then None else Some (name, r2))))"

function json_decode :: "string \<Rightarrow> (json \<times> string) option"
  and json_items :: "string \<Rightarrow> (json list \<times> string) option"
  and json_members :: "string \<Rightarrow> (string \<times> json) list \<Rightarrow> ((string \<times> json) list \<times> string) option" where
  "json_decode s0 = (case skip_ws s0 of
      [] \<Rightarrow> None
    | c # r \<Rightarrow>
        if c = CHR ''['' then
          (case skip_ws r of
             [] \<Rightarrow> None
           | d # r' \<Rightarrow> if d = CHR '']'' then Some (JArray [], r')
                      else map_option (\<lambda>(items, rest). (JArray items, rest)) (json_items r))
        else if c = CHR ''{'' then
          (case skip_ws r of
             [] \<Rightarrow> None
           | d # r' \<Rightarrow> if d = CHR ''}'' then Some (JObject [], r')
                      else map_option (\<lambda>(ms, rest). (JObject ms, rest)) (json_members r []))
        else json_scalar c r)"
| "json_items s = (case json_decode s of
      None \<Rightarrow> None
    | Some (v, r) \<Rightarrow>
        (case skip_ws r of
           [] \<Rightarrow> None
         | c # r' \<Rightarrow>
             if c = CHR '','' \<and> shorter r' s then map_option (\<lambda>(vs, rest). (v # vs, rest)) (json_items r')
             else if c = CHR '']'' then Some ([v], r')
             else None))"
| "json_members s seen = (case json_name s of
      None \<Rightarrow> None
    | Some (name, r2) \<Rightarrow>
        if name \<in> fst ` set seen \<or> \<not> shorter r2 s then None
        else (case json_decode r2 of
           None \<Rightarrow> None
         | Some (v, r3) \<Rightarrow>
             (case skip_ws r3 of
                [] \<Rightarrow> None
              | c # r4 \<Rightarrow>
                  if c = CHR '','' \<and> shorter r4 s then json_members r4 (seen @ [(name, v)])
                  else if c = CHR ''}'' then Some (seen @ [(name, v)], r4)
                  else None)))"
  by pat_completeness auto
termination
proof (relation "measure (\<lambda>x. case x of
      Inl s \<Rightarrow> 2 * length s
    | Inr (Inl s) \<Rightarrow> 2 * length s + 1
    | Inr (Inr (s, _)) \<Rightarrow> 2 * length s + 1)", goal_cases)
  case (2 s0 c r d r')
  then show ?case using skip_ws_length [of s0] by simp
next
  case (3 s0 c r d r')
  then show ?case using skip_ws_length [of s0] by simp
qed (auto simp: shorter_def)

declare json_decode.simps [simp del] json_items.simps [simp del] json_members.simps [simp del]

definition json_parse :: "string \<Rightarrow> json option" where
  "json_parse raw = (case json_decode raw of
      None \<Rightarrow> None
    | Some (v, rest) \<Rightarrow> if skip_ws rest = [] then Some v else None)"

fun json_equal :: "json \<Rightarrow> json \<Rightarrow> bool"
  and json_items_equal :: "json list \<Rightarrow> json list \<Rightarrow> bool"
  and json_members_equal :: "(string \<times> json) list \<Rightarrow> (string \<times> json) list \<Rightarrow> bool" where
  "json_equal JNull JNull = True"
| "json_equal (JBool a) (JBool b) = (a = b)"
| "json_equal (JNumber a) (JNumber b) =
     (num_negative a = num_negative b \<and> num_digits a = num_digits b \<and> num_exponent a = num_exponent b)"
| "json_equal (JString a) (JString b) = (a = b)"
| "json_equal (JArray xs) (JArray ys) = (length xs = length ys \<and> json_items_equal xs ys)"
| "json_equal (JObject xs) (JObject ys) = (length xs = length ys \<and> json_members_equal xs ys)"
| "json_equal _ _ = False"
| "json_items_equal (x # xs) (y # ys) = (json_equal x y \<and> json_items_equal xs ys)"
| "json_items_equal _ _ = True"
| "json_members_equal [] ys = True"
| "json_members_equal ((n, v) # xs) ys =
     ((case map_of ys n of None \<Rightarrow> False | Some w \<Rightarrow> json_equal v w) \<and> json_members_equal xs ys)"

definition jsonvalue_Valid :: "string \<Rightarrow> bool" where
  "jsonvalue_Valid raw \<longleftrightarrow> json_parse raw \<noteq> None"

definition jsonvalue_Equal :: "string \<Rightarrow> string \<Rightarrow> bool" where
  "jsonvalue_Equal left right =
     (case json_parse left of None \<Rightarrow> False
      | Some l \<Rightarrow> (case json_parse right of None \<Rightarrow> False | Some r \<Rightarrow> json_equal l r))"

text \<open>
  \<^verbatim>\<open>json.Valid\<close> of the standard library, used for opaque payloads: the same grammar, duplicate names
  allowed, at most \<^verbatim>\<open>maxNestingDepth\<close> = 10000 open brackets (\<open>d\<close> is how many more may open).
\<close>

function scan_value :: "nat \<Rightarrow> string \<Rightarrow> string option"
  and scan_items :: "nat \<Rightarrow> string \<Rightarrow> string option"
  and scan_members :: "nat \<Rightarrow> string \<Rightarrow> string option" where
  "scan_value d s0 = (case skip_ws s0 of
      [] \<Rightarrow> None
    | c # r \<Rightarrow>
        if c = CHR ''['' then
          (case skip_ws r of
             [] \<Rightarrow> None
           | e # r' \<Rightarrow> if d = 0 then None else if e = CHR '']'' then Some r' else scan_items (d - 1) r)
        else if c = CHR ''{'' then
          (case skip_ws r of
             [] \<Rightarrow> None
           | e # r' \<Rightarrow> if d = 0 then None else if e = CHR ''}'' then Some r' else scan_members (d - 1) r)
        else map_option snd (json_scalar c r))"
| "scan_items d s = (case scan_value d s of
      None \<Rightarrow> None
    | Some r \<Rightarrow>
        (case skip_ws r of
           [] \<Rightarrow> None
         | c # r' \<Rightarrow>
             if c = CHR '','' \<and> shorter r' s then scan_items d r'
             else if c = CHR '']'' then Some r'
             else None))"
| "scan_members d s = (case json_name s of
      None \<Rightarrow> None
    | Some (_, r2) \<Rightarrow>
        if \<not> shorter r2 s then None
        else (case scan_value d r2 of
           None \<Rightarrow> None
         | Some r3 \<Rightarrow>
             (case skip_ws r3 of
                [] \<Rightarrow> None
              | c # r4 \<Rightarrow>
                  if c = CHR '','' \<and> shorter r4 s then scan_members d r4
                  else if c = CHR ''}'' then Some r4
                  else None)))"
  by pat_completeness auto
termination
  by (relation "measures
      [\<lambda>x. case x of Inl (d, s) \<Rightarrow> d | Inr (Inl (d, s)) \<Rightarrow> d | Inr (Inr (d, s)) \<Rightarrow> d,
       \<lambda>x. case x of Inl (d, s) \<Rightarrow> 2 * length s | Inr (Inl (d, s)) \<Rightarrow> 2 * length s + 1
           | Inr (Inr (d, s)) \<Rightarrow> 2 * length s + 1]")
    (auto simp: shorter_def)

declare scan_value.simps [simp del] scan_items.simps [simp del] scan_members.simps [simp del]

definition json_Valid :: "string \<Rightarrow> bool" where
  "json_Valid raw = (case scan_value 10000 raw of None \<Rightarrow> False | Some rest \<Rightarrow> skip_ws rest = [])"

section \<open>The data model\<close>

text \<open>
  The abstract JSON data model: an object is a finite map from names to values, so member order and
  spelling are gone. \<open>json_equal\<close> decides equality in it for values without duplicate names, which
  are the only ones the parser returns.
\<close>

datatype json_model =
    MNull
  | MBool bool
  | MNumber number
  | MString string
  | MArray "json_model list"
  | MObject "string \<Rightarrow> json_model option"

fun json_abs :: "json \<Rightarrow> json_model" where
  "json_abs JNull = MNull"
| "json_abs (JBool b) = MBool b"
| "json_abs (JNumber n) = MNumber n"
| "json_abs (JString s) = MString s"
| "json_abs (JArray xs) = MArray (map json_abs xs)"
| "json_abs (JObject ms) = MObject (map_of (map (\<lambda>(n, v). (n, json_abs v)) ms))"

fun json_wf :: "json \<Rightarrow> bool" where
  "json_wf (JArray xs) = (\<forall>x \<in> set xs. json_wf x)"
| "json_wf (JObject ms) = (distinct (map fst ms) \<and> (\<forall>(n, v) \<in> set ms. json_wf v))"
| "json_wf _ = True"

lemma json_items_equal_iff:
  "length xs = length ys \<Longrightarrow> json_items_equal xs ys \<longleftrightarrow> list_all2 json_equal xs ys"
  by (induction xs ys rule: list_induct2) auto

lemma json_members_equal_iff:
  "json_members_equal xs ys \<longleftrightarrow>
     (\<forall>(n, v) \<in> set xs. \<exists>w. map_of ys n = Some w \<and> json_equal v w)"
  by (induction xs) (auto split: option.splits)

lemma map_of_map_abs: "map_of (map (\<lambda>(n, v). (n, f v)) ms) n = map_option f (map_of ms n)"
  by (induction ms) auto

lemma distinct_keys_eq:
  assumes "distinct (map fst xs)" and "distinct (map fst ys)" and "length xs = length ys"
    and "fst ` set xs \<subseteq> fst ` set ys"
  shows "fst ` set xs = fst ` set ys"
proof (rule card_subset_eq [OF _ assms(4)])
  have "card (fst ` set xs) = length xs" "card (fst ` set ys) = length ys"
    using assms(1,2) distinct_card by (fastforce simp: distinct_map card_image distinct_card)+
  with assms(3) show "card (fst ` set xs) = card (fst ` set ys)" by simp
qed simp

lemma json_object_equal:
  assumes IH: "\<And>n v w. (n, v) \<in> set xs \<Longrightarrow> json_wf w \<Longrightarrow> json_equal v w \<longleftrightarrow> json_abs v = json_abs w"
    and wx: "json_wf (JObject xs)" and wy: "json_wf (JObject ys)"
  shows "json_equal (JObject xs) (JObject ys) \<longleftrightarrow> json_abs (JObject xs) = json_abs (JObject ys)"
proof
  assume eq: "json_equal (JObject xs) (JObject ys)"
  then have keys: "fst ` set xs = fst ` set ys"
    using wx wy by (intro distinct_keys_eq) (force simp: json_members_equal_iff dest: map_of_SomeD)+
  have "map_option json_abs (map_of xs n) = map_option json_abs (map_of ys n)" for n
  proof (cases "map_of xs n")
    case None
    then have "map_of ys n = None" using keys by (metis map_of_eq_None_iff)
    with None show ?thesis by simp
  next
    case (Some v)
    then have v: "(n, v) \<in> set xs" by (rule map_of_SomeD)
    with eq obtain w where w: "map_of ys n = Some w" "json_equal v w"
      by (auto simp: json_members_equal_iff)
    then have "json_wf w" using wy by (auto dest: map_of_SomeD)
    with IH [OF v] w Some show ?thesis by simp
  qed
  then show "json_abs (JObject xs) = json_abs (JObject ys)"
    by (simp add: map_of_map_abs fun_eq_iff)
next
  assume "json_abs (JObject xs) = json_abs (JObject ys)"
  then have eq: "map_option json_abs (map_of xs n) = map_option json_abs (map_of ys n)" for n
    by (simp add: map_of_map_abs fun_eq_iff)
  have "dom (map_of xs) = dom (map_of ys)"
    using eq by (auto simp: dom_def) (metis map_option_eq_Some)+
  then have "fst ` set xs = fst ` set ys" by (simp add: dom_map_of_conv_image_fst)
  moreover have "length xs = card (fst ` set xs)" "length ys = card (fst ` set ys)"
    using wx wy by (simp_all add: distinct_map card_image distinct_card)
  ultimately have len: "length xs = length ys" by simp
  have "\<exists>w. map_of ys n = Some w \<and> json_equal v w" if v: "(n, v) \<in> set xs" for n v
  proof -
    have "map_of xs n = Some v" using v wx by simp
    with eq [of n] have "map_option json_abs (map_of ys n) = Some (json_abs v)" by simp
    then obtain w where w: "map_of ys n = Some w" "json_abs v = json_abs w" by auto
    then have "json_wf w" using wy by (auto dest: map_of_SomeD)
    with IH [OF v] w show ?thesis by simp
  qed
  with len show "json_equal (JObject xs) (JObject ys)" by (auto simp: json_members_equal_iff)
qed

lemma json_equal_abs: "json_wf x \<Longrightarrow> json_wf y \<Longrightarrow> json_equal x y \<longleftrightarrow> json_abs x = json_abs y"
proof (induction x arbitrary: y)
  case (JNumber n)
  then show ?case by (cases y) auto
next
  case (JArray xs)
  show ?case
  proof (cases y)
    case (JArray ys)
    have "list_all2 json_equal xs ys \<longleftrightarrow> map json_abs xs = map json_abs ys" if "length xs = length ys"
      using that JArray.IH JArray.prems JArray
      by (auto simp: list_all2_conv_all_nth list_eq_iff_nth_eq)
    then show ?thesis
      using JArray map_eq_imp_length_eq [of json_abs xs json_abs ys]
      by (cases "length xs = length ys") (simp_all add: json_items_equal_iff, blast)
  qed auto
next
  case (JObject xs)
  show ?case
  proof (cases y)
    case (JObject ys)
    show ?thesis unfolding JObject
    proof (rule json_object_equal)
      show "json_equal v w \<longleftrightarrow> json_abs v = json_abs w" if "(n, v) \<in> set xs" "json_wf w" for n v w
        using JObject.IH [of "(n, v)" v w] JObject.prems that by auto
    qed (use JObject.prems JObject in auto)
  qed auto
qed (case_tac y; auto)+

section \<open>What the parser returns\<close>

lemma lex_string_shorter: "lex_string s = Some (t, r) \<Longrightarrow> length r < length s"
proof (induction s arbitrary: t r rule: lex_string.induct)
  case (1 s)
  show ?case
  proof (cases "lex_char s")
    case (StrChar u r')
    with "1.prems" obtain t' where "lex_string r' = Some (t', r)"
      by (auto simp: lex_string.simps [of s])
    with "1.IH" [OF StrChar] lex_char_shorter [OF StrChar] show ?thesis by force
  qed (use "1.prems" in \<open>auto simp: lex_string.simps [of s] dest: lex_char_end_shorter\<close>)
qed

lemma lex_digits_shorter: "lex_digits s = Some (d, r) \<Longrightarrow> length r < length s"
proof -
  assume "lex_digits s = Some (d, r)"
  then have "takeWhile is_digit s \<noteq> []" and r: "r = dropWhile is_digit s"
    by (auto simp: lex_digits_def Let_def split: if_splits)
  moreover have "length s = length (takeWhile is_digit s) + length (dropWhile is_digit s)"
    by (metis length_append takeWhile_dropWhile_id)
  ultimately show ?thesis by simp
qed

lemma lex_int_shorter: "lex_int s = Some (d, r) \<Longrightarrow> length r < length s"
  by (auto simp: lex_int_def split: list.splits if_splits dest: lex_digits_shorter)

lemma lex_fraction_shorter: "lex_fraction s = Some (d, r) \<Longrightarrow> length r \<le> length s"
  by (auto simp: lex_fraction_def split: list.splits if_splits dest!: lex_digits_shorter)

lemma lex_exponent_shorter: "lex_exponent s = Some (d, r) \<Longrightarrow> length r \<le> length s"
  by (auto simp: lex_exponent_def split: list.splits if_splits dest!: lex_digits_shorter)

lemma lex_number_shorter: "lex_number s = Some (d, r) \<Longrightarrow> length r < length s"
  by (cases s) (auto simp: lex_number_def Let_def split: option.splits if_splits
      dest!: lex_int_shorter lex_fraction_shorter lex_exponent_shorter)

lemma skip_ws_Cons: "skip_ws s = c # r \<Longrightarrow> length r < length s"
  using skip_ws_length [of s] by simp

lemma json_name_shorter: "json_name s = Some (n, r) \<Longrightarrow> shorter r s"
  by (auto simp: json_name_def shorter_def split: list.splits option.splits if_splits
      dest!: lex_string_shorter skip_ws_Cons)

lemma json_scalar_shorter: "json_scalar c r = Some (v, r') \<Longrightarrow> length r' \<le> length r"
  by (auto simp: json_scalar_def split: if_splits dest!: lex_string_shorter lex_number_shorter)

lemma json_scalar_wf: "json_scalar c r = Some (v, r') \<Longrightarrow> json_wf v"
  by (auto simp: json_scalar_def split: if_splits)

lemma json_decode_shorter:
  "\<forall>v r. json_decode s = Some (v, r) \<longrightarrow> shorter r s"
  "\<forall>vs r. json_items s = Some (vs, r) \<longrightarrow> shorter r s"
  "\<forall>ms r. json_members s seen = Some (ms, r) \<longrightarrow> shorter r s"
proof (induction s and s and s seen rule: json_decode_json_items_json_members.induct)
  case (1 s0)
  show ?case
  proof (cases "skip_ws s0")
    case Nil
    then show ?thesis by (simp add: json_decode.simps [of s0])
  next
    case (Cons c r)
    note c = Cons
    have r: "length r < length s0" using c by (rule skip_ws_Cons)
    show ?thesis
    proof (cases "skip_ws r")
      case Nil
      with c r show ?thesis by (auto simp: json_decode.simps [of s0] shorter_def dest: json_scalar_shorter)
    next
      case (Cons d r')
      have "length r' < length r" using Cons by (rule skip_ws_Cons)
      then show ?thesis
        using c r Cons "1.IH"(1) [OF c _ Cons] "1.IH"(2) [OF c _ _ Cons]
        by (cases "c = CHR ''[''"; cases "c = CHR ''{''")
          (auto simp: json_decode.simps [of s0] shorter_def split: if_splits
            intro: order.strict_trans dest: json_scalar_shorter)
    qed
  qed
next
  case (2 s)
  then show ?case
    by (subst json_items.simps)
      (fastforce simp: shorter_def split: list.splits if_splits option.splits dest: skip_ws_Cons)
next
  case (3 s seen)
  show ?case
  proof (intro allI impI)
    fix ms r
    assume "json_members s seen = Some (ms, r)"
    then obtain name r2 v r3 c r4 where 1: "json_name s = Some (name, r2)"
        "\<not> (name \<in> fst ` set seen \<or> \<not> shorter r2 s)"
      and 2: "json_decode r2 = Some (v, r3)" and 3: "skip_ws r3 = c # r4"
      and 4: "c = CHR '','' \<and> shorter r4 s \<and> json_members r4 (seen @ [(name, v)]) = Some (ms, r) \<or> r = r4"
      by (simp add: json_members.simps [of s] split: option.splits prod.splits list.splits if_splits)
    have "shorter r3 r2" using "3.IH"(1) [OF 1(1) refl 1(2)] 2 by blast
    moreover have "length r4 < length r3" using 3 by (rule skip_ws_Cons)
    ultimately have "shorter r4 s" using 1(2) by (simp add: shorter_def)
    with 4 "3.IH"(2) [OF 1(1) refl 1(2) 2 refl 3] show "shorter r s"
      by (auto simp: shorter_def intro: order.strict_trans)
  qed
qed

lemma json_decode_wf:
  "\<forall>v r. json_decode s = Some (v, r) \<longrightarrow> json_wf v"
  "\<forall>vs r. json_items s = Some (vs, r) \<longrightarrow> (\<forall>v \<in> set vs. json_wf v)"
  "\<forall>ms r. json_members s seen = Some (ms, r) \<longrightarrow> json_wf (JObject seen) \<longrightarrow> json_wf (JObject ms)"
proof (induction s and s and s seen rule: json_decode_json_items_json_members.induct)
  case (1 s0)
  then show ?case
    by (subst json_decode.simps)
      (fastforce split: list.splits if_splits dest: json_scalar_wf)
next
  case (2 s)
  then show ?case
    by (subst json_items.simps) (fastforce split: list.splits if_splits option.splits)
next
  case (3 s seen)
  then show ?case
    by (subst json_members.simps) (fastforce split: list.splits if_splits option.splits)
qed

lemma json_parse_wf: "json_parse raw = Some v \<Longrightarrow> json_wf v"
  using json_decode_wf(1) [of raw] by (auto simp: json_parse_def split: option.splits if_splits)

definition json_meaning :: "string \<Rightarrow> json_model option" where
  "json_meaning raw = map_option json_abs (json_parse raw)"

lemma jsonvalue_Equal_meaning:
  "jsonvalue_Equal left right \<longleftrightarrow> json_meaning left \<noteq> None \<and> json_meaning left = json_meaning right"
  using json_equal_abs json_parse_wf
  by (simp add: jsonvalue_Equal_def json_meaning_def split: option.splits)

lemma jsonvalue_Equal_refl: "jsonvalue_Equal raw raw \<longleftrightarrow> jsonvalue_Valid raw"
  by (auto simp: jsonvalue_Equal_meaning jsonvalue_Valid_def json_meaning_def)

lemma jsonvalue_Equal_sym: "jsonvalue_Equal l r \<Longrightarrow> jsonvalue_Equal r l"
  by (simp add: jsonvalue_Equal_meaning) metis

lemma jsonvalue_Equal_trans: "jsonvalue_Equal a b \<Longrightarrow> jsonvalue_Equal b c \<Longrightarrow> jsonvalue_Equal a c"
  by (simp add: jsonvalue_Equal_meaning) metis

end
