(* ===== verification/Agent_Types.thy ===== *)
theory Agent_Types
  imports Json_Value
begin

text \<open>
  \<^verbatim>\<open>agent/types.go\<close>: identities, messages, tool calls, the Session identity record and the classified
  errors that every component returns. A string vocabulary of the source is a datatype with the
  source's constants as constructors and one more constructor for any other string, so the zero value
  of a vocabulary \<open>K\<close> is \<open>K_other ''''\<close>. Identities stay strings, as on the wire.
\<close>

section \<open>Identities\<close>

type_synonym AgentID = string
type_synonym WorkspaceID = string
type_synonym SessionID = string
type_synonym RunID = string
type_synonym StepID = string
type_synonym MessageID = string
type_synonym ClientMessageID = string
type_synonym ToolCallID = string
type_synonym FactID = string
type_synonym AttemptID = string
type_synonym Revision = uint64

definition validID :: "string \<Rightarrow> bool" where
  "validID value \<longleftrightarrow> value \<noteq> '''' \<and> TrimSpace value = value"

definition Revision_Next :: "Revision \<Rightarrow> Revision" where
  "Revision_Next r = r + 1"

datatype ActorKind = ActorLocalUser | ActorRemoteUser | ActorService | ActorAgent | ActorKind_other string

definition ActorKind_Valid :: "ActorKind \<Rightarrow> bool" where
  "ActorKind_Valid k \<longleftrightarrow> k = ActorLocalUser \<or> k = ActorRemoteUser \<or> k = ActorService \<or> k = ActorAgent"

record ActorIdentity =
  actor_Kind :: ActorKind
  actor_ID :: string

definition ActorIdentity_Valid :: "ActorIdentity \<Rightarrow> bool" where
  "ActorIdentity_Valid a \<longleftrightarrow> ActorKind_Valid (actor_Kind a) \<and> validID (actor_ID a)"

definition zero_actor :: ActorIdentity where
  "zero_actor = \<lparr>actor_Kind = ActorKind_other '''', actor_ID = ''''\<rparr>"

section \<open>Messages and tool calls\<close>

datatype Role = RoleUser | RoleAssistant | RoleTool | Role_other string

definition Role_Valid :: "Role \<Rightarrow> bool" where
  "Role_Valid r \<longleftrightarrow> r = RoleUser \<or> r = RoleAssistant \<or> r = RoleTool"

record ModelContinuation =
  mc_ProviderKey :: string
  mc_ModelID :: string
  mc_State :: string

definition ModelContinuation_Valid :: "ModelContinuation \<Rightarrow> bool" where
  "ModelContinuation_Valid c \<longleftrightarrow> mc_ModelID c \<noteq> '''' \<and> mc_State c \<noteq> [] \<and> json_Valid (mc_State c)"

datatype MessagePartKind = PartText | PartAttachment | PartKind_other string

record MessagePart =
  part_Kind :: MessagePartKind
  part_Text :: string
  part_AttachmentID :: string
  part_MediaType :: string
  part_Name :: string

definition MessagePart_Valid :: "MessagePart \<Rightarrow> bool" where
  "MessagePart_Valid p = (case part_Kind p of
      PartText \<Rightarrow> part_Text p \<noteq> '''' \<and> part_AttachmentID p = '''' \<and> part_MediaType p = '''' \<and> part_Name p = ''''
    | PartAttachment \<Rightarrow> part_Text p = '''' \<and> part_AttachmentID p \<noteq> '''' \<and> part_MediaType p \<noteq> ''''
    | PartKind_other _ \<Rightarrow> False)"

record Message =
  msg_ID :: MessageID
  msg_ClientMessageID :: ClientMessageID
  msg_SessionID :: SessionID
  msg_RunID :: RunID
  msg_StepID :: StepID
  msg_Role :: Role
  msg_Parts :: "MessagePart list"
  msg_ModelContinuation :: "ModelContinuation option"
  msg_CreatedAt :: time

definition Message_Valid :: "Message \<Rightarrow> bool" where
  "Message_Valid m =
     (if \<not> validID (msg_ID m) \<or> \<not> validID (msg_SessionID m) \<or> \<not> Role_Valid (msg_Role m) \<or>
         (msg_ClientMessageID m \<noteq> '''' \<and> \<not> validID (msg_ClientMessageID m)) then False
      else if (case msg_ModelContinuation m of None \<Rightarrow> False
               | Some c \<Rightarrow> msg_Role m \<noteq> RoleAssistant \<or> \<not> validID (msg_RunID m) \<or> \<not> validID (msg_StepID m) \<or>
                   \<not> ModelContinuation_Valid c) then False
      else if msg_Parts m = [] then
        msg_Role m = RoleAssistant \<and> validID (msg_RunID m) \<and> validID (msg_StepID m)
      else (\<forall>p \<in> set (msg_Parts m). MessagePart_Valid p))"

record MessageInput =
  input_Parts :: "MessagePart list"

definition MessageInput_Valid :: "MessageInput \<Rightarrow> bool" where
  "MessageInput_Valid m \<longleftrightarrow> input_Parts m \<noteq> [] \<and> (\<forall>p \<in> set (input_Parts m). MessagePart_Valid p)"

record ToolCall =
  call_ID :: ToolCallID
  call_CorrelationID :: string
  call_MessageID :: MessageID
  call_SessionID :: SessionID
  call_RunID :: RunID
  call_StepID :: StepID
  call_Name :: string
  call_Arguments :: string

definition ToolCall_Valid :: "ToolCall \<Rightarrow> bool" where
  "ToolCall_Valid c \<longleftrightarrow> validID (call_ID c) \<and> validID (call_MessageID c) \<and> validID (call_SessionID c) \<and>
     validID (call_RunID c) \<and> validID (call_StepID c) \<and> call_Name c \<noteq> '''' \<and> jsonvalue_Valid (call_Arguments c)"

record Session =
  ses_ID :: SessionID
  ses_AgentID :: AgentID
  ses_WorkspaceID :: WorkspaceID
  ses_ParentSessionID :: SessionID
  ses_ParentRevision :: Revision
  ses_Revision :: Revision

section \<open>Classified errors\<close>

datatype ErrorKind =
    ErrorInvalidInput | ErrorConflict | ErrorNotFound | ErrorUnauthorized | ErrorForbidden
  | ErrorCanceled | ErrorDeadline | ErrorUnavailable | ErrorInternal | ErrorKind_other string

definition ErrorKind_Valid :: "ErrorKind \<Rightarrow> bool" where
  "ErrorKind_Valid k = (case k of ErrorKind_other _ \<Rightarrow> False | _ \<Rightarrow> True)"

type_synonym ErrorCode = string

abbreviation (input) "CodeRevisionConflict \<equiv> ''revision_conflict''"
abbreviation (input) "CodeQueueItemClaimed \<equiv> ''queue_item_claimed''"
abbreviation (input) "CodeNoActiveRun \<equiv> ''no_active_run''"
abbreviation (input) "CodeCanceled \<equiv> ''canceled''"
abbreviation (input) "CodeSessionNotFound \<equiv> ''session_not_found''"
abbreviation (input) "CodeSessionAlreadyExists \<equiv> ''session_already_exists''"
abbreviation (input) "CodeActiveRun \<equiv> ''active_run''"
abbreviation (input) "CodeQueueItemNotFound \<equiv> ''queue_item_not_found''"
abbreviation (input) "CodeQueueItemAlreadyExists \<equiv> ''queue_item_already_exists''"
abbreviation (input) "CodeJournalInvariant \<equiv> ''journal_invariant''"
abbreviation (input) "CodeHistoryInvariant \<equiv> ''history_invariant''"
abbreviation (input) "CodeRunTokenBudgetExceeded \<equiv> ''run_token_budget_exceeded''"
abbreviation (input) "CodeRunModelAttemptLimitExceeded \<equiv> ''run_model_attempt_limit_exceeded''"
abbreviation (input) "CodeRunToolCallLimitExceeded \<equiv> ''run_tool_call_limit_exceeded''"
abbreviation (input) "CodeRuntimeInterrupted \<equiv> ''runtime_interrupted''"

datatype ClassifiedError =
  ClassifiedError (err_Kind: ErrorKind) (err_Code: ErrorCode) (err_Op: string) (err_Message: string)

definition NewCodedError :: "ErrorKind \<Rightarrow> ErrorCode \<Rightarrow> string \<Rightarrow> string \<Rightarrow> ClassifiedError" where
  "NewCodedError kind code op message =
     ClassifiedError (if kind = ErrorKind_other '''' then ErrorInternal else kind) code op message"

definition NewError :: "ErrorKind \<Rightarrow> string \<Rightarrow> string \<Rightarrow> ClassifiedError" where
  "NewError kind op message = NewCodedError kind '''' op message"

definition ErrorKind_string :: "ErrorKind \<Rightarrow> string" where
  "ErrorKind_string k = (case k of
      ErrorInvalidInput \<Rightarrow> ''invalid_input'' | ErrorConflict \<Rightarrow> ''conflict'' | ErrorNotFound \<Rightarrow> ''not_found''
    | ErrorUnauthorized \<Rightarrow> ''unauthorized'' | ErrorForbidden \<Rightarrow> ''forbidden'' | ErrorCanceled \<Rightarrow> ''canceled''
    | ErrorDeadline \<Rightarrow> ''deadline_exceeded'' | ErrorUnavailable \<Rightarrow> ''unavailable'' | ErrorInternal \<Rightarrow> ''internal''
    | ErrorKind_other s \<Rightarrow> s)"

definition ClassifiedError_Error :: "ClassifiedError \<Rightarrow> string" where
  "ClassifiedError_Error e =
     (let classification = ErrorKind_string (err_Kind e) @ (if err_Code e \<noteq> '''' then ''/'' @ err_Code e else '''') in
      if err_Op e = '''' then classification @ '': '' @ err_Message e
      else err_Op e @ '': '' @ classification @ '': '' @ err_Message e)"

definition KindOf :: "ClassifiedError \<Rightarrow> ErrorKind" where
  "KindOf e = (if err_Kind e = ErrorKind_other '''' then ErrorInternal else err_Kind e)"

section \<open>Facts about identities\<close>

lemma validID_empty [simp]: "\<not> validID []"
  by (simp add: validID_def)

lemma validID_graphic: "s \<noteq> [] \<Longrightarrow> graphic (hd s) \<Longrightarrow> graphic (last s) \<Longrightarrow> validID s"
  by (simp add: validID_def TrimSpace_graphic)

lemma zero_actor_invalid [simp]: "\<not> ActorIdentity_Valid zero_actor"
  by (simp add: zero_actor_def ActorIdentity_Valid_def ActorKind_Valid_def)

end
