(* ===== verification/Tool_Contracts.thy ===== *)
theory Tool_Contracts
  imports Agent_Types
begin

text \<open>
  \<^verbatim>\<open>tool/contracts.go\<close>, the schema-free part of \<^verbatim>\<open>tool/schema.go\<close>, and the artifact metadata of
  \<^verbatim>\<open>artifact/contracts.go\<close> that tool results carry. The compiled JSON schema of a tool definition is
  third-party (\<^verbatim>\<open>jsonschema/v6\<close>); a definition keeps its canonical document and whether it compiled.
\<close>

section \<open>Artifact metadata\<close>

record Metadata =
  art_ID :: string
  art_MediaType :: string
  art_Name :: string
  art_Size :: int64

definition to_lower :: "string \<Rightarrow> string" where
  "to_lower = map (\<lambda>c. if 65 \<le> (of_char c :: nat) \<and> (of_char c :: nat) \<le> 90
                      then char_of (of_char c + 32 :: nat) else c)"

text \<open>\<^verbatim>\<open>mime\<close> token characters: printable ASCII except the separators.\<close>

definition token_char :: "char \<Rightarrow> bool" where
  "token_char c \<longleftrightarrow> graphic c \<and> c \<notin> set ''()<>@,;:/[]?='' \<and> c \<noteq> CHR 0x22 \<and> c \<noteq> CHR 0x5C"

text \<open>
  \<^verbatim>\<open>mime.ParseMediaType\<close> on a value that equals its own parsed media type: it then has no parameter
  section, so it is a token, or two tokens around one slash.
\<close>

definition media_type_shape :: "string \<Rightarrow> bool" where
  "media_type_shape value =
     (let typ = takeWhile token_char value; rest = dropWhile token_char value in
      typ \<noteq> [] \<and> (rest = [] \<or> hd rest = CHR ''/'' \<and> tl rest \<noteq> [] \<and> (\<forall>c \<in> set (tl rest). token_char c)))"

definition validateMediaType :: "string \<Rightarrow> string option" where
  "validateMediaType value =
     check (value = '''' \<or> value \<noteq> to_lower value \<or> \<not> media_type_shape value)
       ''artifact: media type must be a canonical lowercase MIME type without parameters''"

definition Metadata_Validate :: "Metadata \<Rightarrow> string option" where
  "Metadata_Validate m = first_error
     [check (art_ID m = '''' \<or> TrimSpace (art_ID m) \<noteq> art_ID m)
        ''artifact: ID must be non-empty without surrounding whitespace'',
      validateMediaType (art_MediaType m),
      check (slt (art_Size m) 0) ''artifact: size cannot be negative'']"

section \<open>Tool results\<close>

datatype ResultStatus = ResultSucceeded | ResultFailed | ResultUnknown | ResultStatus_other string

record StructuredError =
  serr_Code :: string
  serr_Message :: string

record ToolResult =
  res_CallID :: ToolCallID
  res_Status :: ResultStatus
  res_Output :: string
  res_Error :: "StructuredError option"
  res_Artifacts :: "Metadata list"

fun validateArtifacts :: "string list \<Rightarrow> Metadata list \<Rightarrow> string option" where
  "validateArtifacts seen [] = None"
| "validateArtifacts seen (r # rs) =
     first_error
       [map_option (\<lambda>e. ''tool: invalid artifact reference: '' @ e) (Metadata_Validate r),
        check (art_ID r \<in> set seen) (''tool: duplicate artifact reference '' @ art_ID r),
        validateArtifacts (art_ID r # seen) rs]"

definition ToolResult_Validate :: "ToolResult \<Rightarrow> string option" where
  "ToolResult_Validate r = first_error
     [check (\<not> validID (res_CallID r)) ''tool: result requires a call ID'',
      check (res_Output r \<noteq> [] \<and> \<not> json_Valid (res_Output r)) ''tool: result output must be valid JSON'',
      validateArtifacts [] (res_Artifacts r),
      (case res_Status r of
         ResultSucceeded \<Rightarrow> check (res_Error r \<noteq> None) ''tool: succeeded result cannot carry an error''
       | ResultFailed \<Rightarrow> check (case res_Error r of None \<Rightarrow> True | Some e \<Rightarrow> serr_Code e = '''' \<or> serr_Message e = '''')
           ''tool: failed result requires a structured error''
       | ResultUnknown \<Rightarrow> check (res_Error r \<noteq> None) ''tool: unknown result cannot carry a normal error''
       | ResultStatus_other s \<Rightarrow> Some (''tool: unknown result status '' @ s))]"

definition ToolResult_ValidateWithin :: "ToolResult \<Rightarrow> int \<Rightarrow> string option" where
  "ToolResult_ValidateWithin r maxInlineOutputBytes = first_error
     [check (maxInlineOutputBytes \<le> 0) ''tool: inline output budget must be positive'',
      ToolResult_Validate r,
      check (int (length (res_Output r)) > maxInlineOutputBytes) ''tool: inline output exceeds budget'']"

definition toolUnknown :: "ToolCallID \<Rightarrow> ToolResult" where
  "toolUnknown i = \<lparr>res_CallID = i, res_Status = ResultUnknown, res_Output = [], res_Error = None, res_Artifacts = []\<rparr>"

section \<open>Tool definitions\<close>

record Definition =
  def_Name :: string
  def_Description :: string
  def_InputSchema :: string
  def_SchemaCompiled :: bool

definition Definition_Validate :: "Definition \<Rightarrow> string option" where
  "Definition_Validate d = first_error
     [check (def_Name d = '''') ''tool: definition name is required'',
      check (\<not> def_SchemaCompiled d) (''tool: definition requires an input schema: '' @ def_Name d)]"

section \<open>Facts\<close>

lemma validateArtifacts_None:
  "validateArtifacts seen rs = None \<longleftrightarrow>
     (\<forall>r \<in> set rs. Metadata_Validate r = None) \<and> distinct (map art_ID rs) \<and> set (map art_ID rs) \<inter> set seen = {}"
  by (induction rs arbitrary: seen) auto

lemma toolUnknown_valid [simp]: "ToolResult_Validate (toolUnknown i) = None \<longleftrightarrow> validID i"
  by (simp add: ToolResult_Validate_def toolUnknown_def)

lemma toolUnknown_CallID [simp]: "res_CallID (toolUnknown i) = i"
  by (simp add: toolUnknown_def)

end
