(* ===== verification/Model_Contracts.thy ===== *)
theory Model_Contracts
  imports Tool_Contracts "HOL-Library.Multiset"
begin

text \<open>
  \<^verbatim>\<open>model/contracts.go\<close>, \<^verbatim>\<open>model/modality.go\<close>, \<^verbatim>\<open>model/stream_state.go\<close>, \<^verbatim>\<open>model/catalog.go\<close> and the
  records of \<^verbatim>\<open>model/attempt_observer.go\<close>: the provider-neutral model vocabulary, the input protocol
  that every provider request obeys, the token accounting at its machine width, and the event-stream
  automaton. The executors themselves are providers of interfaces and are not modelled here.
\<close>

section \<open>Modalities and capabilities\<close>

type_synonym Modality = "8 word"

abbreviation (input) "ModalityText \<equiv> (1 :: Modality)"
abbreviation (input) "ModalityImage \<equiv> (2 :: Modality)"
abbreviation (input) "ModalityAudio \<equiv> (3 :: Modality)"

definition AllModalities :: "Modality list" where
  "AllModalities = [ModalityText, ModalityImage, ModalityAudio]"

definition Modality_Valid :: "Modality \<Rightarrow> bool" where
  "Modality_Valid m \<longleftrightarrow> m = ModalityText \<or> m = ModalityImage \<or> m = ModalityAudio"

definition Modality_String :: "Modality \<Rightarrow> string" where
  "Modality_String m =
     (if m = ModalityText then ''text''
      else if m = ModalityImage then ''image''
      else if m = ModalityAudio then ''audio''
      else ''unknown('' @ dec (unat m) @ '')'')"

definition ParseModality :: "string \<Rightarrow> string + Modality" where
  "ParseModality value =
     (if value = ''text'' then Inr ModalityText
      else if value = ''image'' then Inr ModalityImage
      else if value = ''audio'' then Inr ModalityAudio
      else Inl (''unknown model modality '' @ value))"

record Capabilities =
  cap_InputModalities :: "Modality list"
  cap_OutputModalities :: "Modality list"
  cap_ToolCalling :: bool

fun validateModalities_from :: "string \<Rightarrow> Modality list \<Rightarrow> Modality list \<Rightarrow> string option" where
  "validateModalities_from direction seen [] = None"
| "validateModalities_from direction seen (m # ms) = first_error
     [check (\<not> Modality_Valid m) (''model: '' @ direction @ '': unknown model modality '' @ Modality_String m),
      check (m \<in> set seen) (''model: duplicate '' @ direction @ '' modality '' @ Modality_String m),
      validateModalities_from direction (m # seen) ms]"

definition validateModalities :: "string \<Rightarrow> Modality list \<Rightarrow> string option" where
  "validateModalities direction modalities = first_error
     [check (modalities = []) (''model: at least one '' @ direction @ '' modality is required''),
      validateModalities_from direction [] modalities]"

definition Capabilities_Validate :: "Capabilities \<Rightarrow> string option" where
  "Capabilities_Validate c = first_error
     [validateModalities ''input'' (cap_InputModalities c),
      validateModalities ''output'' (cap_OutputModalities c)]"

definition modality_contains :: "Modality list \<Rightarrow> Modality \<Rightarrow> bool" where
  "modality_contains modalities candidate \<longleftrightarrow> Modality_Valid candidate \<and> candidate \<in> set modalities"

definition SupportsInput :: "Capabilities \<Rightarrow> Modality \<Rightarrow> bool" where
  "SupportsInput c m = modality_contains (cap_InputModalities c) m"

definition SupportsOutput :: "Capabilities \<Rightarrow> Modality \<Rightarrow> bool" where
  "SupportsOutput c m = modality_contains (cap_OutputModalities c) m"

section \<open>Configuration and accounting\<close>

datatype Reasoning =
    ReasoningDefault | ReasoningLow | ReasoningMedium | ReasoningHigh | ReasoningXHigh | ReasoningMax
  | Reasoning_other string

definition Reasoning_Valid :: "Reasoning \<Rightarrow> bool" where
  "Reasoning_Valid r = (case r of Reasoning_other _ \<Rightarrow> False | _ \<Rightarrow> True)"

record Parameters =
  par_Temperature :: "float64 option"
  par_MaxTokens :: "int option"

record Config =
  cfg_ProviderKey :: string
  cfg_ModelID :: string
  cfg_Reasoning :: Reasoning
  cfg_Parameters :: Parameters

definition zero_config :: Config where
  "zero_config = \<lparr>cfg_ProviderKey = '''', cfg_ModelID = '''', cfg_Reasoning = Reasoning_other '''',
     cfg_Parameters = \<lparr>par_Temperature = None, par_MaxTokens = None\<rparr>\<rparr>"

definition Config_Validate :: "Config \<Rightarrow> string option" where
  "Config_Validate c = first_error
     [check (cfg_ModelID c = '''') ''model: model ID is required'',
      check (\<not> Reasoning_Valid (cfg_Reasoning c)) ''model: invalid reasoning mode'',
      check (case par_Temperature (cfg_Parameters c) of None \<Rightarrow> False
             | Some t \<Rightarrow> f64_isNaN t \<or> f64_isInf t \<or> f64_negative t)
        ''model: temperature must be finite and non-negative'',
      check (case par_MaxTokens (cfg_Parameters c) of None \<Rightarrow> False | Some n \<Rightarrow> n \<le> 0)
        ''model: max tokens must be positive'']"

record TokenUsage =
  use_InputTokens :: int64
  use_OutputTokens :: int64
  use_CachedInputTokens :: int64
  use_CacheWriteTokens :: int64
  use_ReasoningTokens :: int64
  use_TotalTokens :: int64
  use_Estimated :: bool
  use_EstimateSource :: string

definition zero_usage :: TokenUsage where
  "zero_usage = \<lparr>use_InputTokens = 0, use_OutputTokens = 0, use_CachedInputTokens = 0, use_CacheWriteTokens = 0,
     use_ReasoningTokens = 0, use_TotalTokens = 0, use_Estimated = False, use_EstimateSource = ''''\<rparr>"

definition TokenUsage_Validate :: "TokenUsage \<Rightarrow> string option" where
  "TokenUsage_Validate u = first_error
     [check (slt (use_InputTokens u) 0 \<or> slt (use_OutputTokens u) 0 \<or> slt (use_CachedInputTokens u) 0 \<or>
             slt (use_CacheWriteTokens u) 0 \<or> slt (use_ReasoningTokens u) 0 \<or> slt (use_TotalTokens u) 0)
        ''model: token usage cannot be negative'',
      check (slt (use_InputTokens u) (use_CachedInputTokens u)) ''model: cached input tokens exceed input tokens'',
      check (slt (use_OutputTokens u) (use_ReasoningTokens u)) ''model: reasoning tokens exceed output tokens'',
      check (slt (use_TotalTokens u) (use_InputTokens u + use_OutputTokens u))
        ''model: total tokens are smaller than input plus output'',
      check (use_Estimated u \<noteq> (use_EstimateSource u \<noteq> ''''))
        ''model: estimated token usage requires exactly one estimate source'']"

section \<open>Model inputs\<close>

record Input =
  inp_SystemPrompt :: "string option"
  inp_Message :: "Message option"
  inp_ToolCall :: "ToolCall option"
  inp_ToolResult :: "ToolResult option"

definition present :: "'a option \<Rightarrow> nat" where
  "present x = (if x = None then 0 else 1)"

definition Input_Valid :: "Input \<Rightarrow> bool" where
  "Input_Valid i =
     (if present (inp_SystemPrompt i) + present (inp_Message i) + present (inp_ToolCall i) +
         present (inp_ToolResult i) \<noteq> 1 then False
      else case inp_SystemPrompt i of Some p \<Rightarrow> p \<noteq> ''''
         | None \<Rightarrow> (case inp_Message i of Some m \<Rightarrow> Message_Valid m
             | None \<Rightarrow> (case inp_ToolCall i of Some c \<Rightarrow> ToolCall_Valid c
                 | None \<Rightarrow> (case inp_ToolResult i of Some r \<Rightarrow> ToolResult_Validate r = None | None \<Rightarrow> False))))"

text \<open>
  The three nested loops of \<^verbatim>\<open>ValidateInputs\<close>; a loop over an index is a recursion on the suffix of the
  slice from that index. The source's maps from an identity to \<^verbatim>\<open>true\<close> are the lists of the
  identities seen so far.
\<close>

fun consumeCalls :: "Message \<Rightarrow> ToolCallID list \<Rightarrow> ToolCallID list \<Rightarrow> Input list \<Rightarrow>
    string + ToolCallID list \<times> ToolCallID list \<times> Input list" where
  "consumeCalls m calls allCalls [] = Inr (calls, allCalls, [])"
| "consumeCalls m calls allCalls (i # is) = (case inp_ToolCall i of
      None \<Rightarrow> Inr (calls, allCalls, i # is)
    | Some c \<Rightarrow>
        if \<not> Input_Valid i \<or> call_MessageID c \<noteq> msg_ID m \<or> call_RunID c \<noteq> msg_RunID m \<or>
           call_StepID c \<noteq> msg_StepID m \<or> call_ID c \<in> set calls \<or> call_ID c \<in> set allCalls
        then Inl ''model: tool call has invalid assistant containment''
        else consumeCalls m (call_ID c # calls) (call_ID c # allCalls) is)"

fun consumeResults :: "ToolCallID list \<Rightarrow> ToolCallID list \<Rightarrow> Input list \<Rightarrow>
    string + ToolCallID list \<times> Input list" where
  "consumeResults calls results [] = Inr (results, [])"
| "consumeResults calls results (i # is) = (case inp_ToolResult i of
      None \<Rightarrow> Inr (results, i # is)
    | Some r \<Rightarrow>
        if \<not> Input_Valid i \<or> res_CallID r \<notin> set calls \<or> res_CallID r \<in> set results
        then Inl ''model: tool result is unpaired or duplicated''
        else consumeResults calls (res_CallID r # results) is)"

lemma consumeCalls_shorter: "consumeCalls m cs as is = Inr (cs', as', rest) \<Longrightarrow> length rest \<le> length is"
  by (induction m cs as "is" rule: consumeCalls.induct) (auto split: option.splits if_splits intro: le_SucI)

lemma consumeResults_shorter: "consumeResults cs rs is = Inr (rs', rest) \<Longrightarrow> length rest \<le> length is"
  by (induction cs rs "is" rule: consumeResults.induct) (auto split: option.splits if_splits intro: le_SucI)

function validateInputs_from :: "MessageID list \<Rightarrow> ToolCallID list \<Rightarrow> Input list \<Rightarrow> string option" where
  "validateInputs_from messages allCalls [] = None"
| "validateInputs_from messages allCalls (i # is) =
     (if \<not> Input_Valid i then Some ''model: invalid input item''
      else if inp_SystemPrompt i \<noteq> None then
        Some ''model: system prompt must be the first and only fixed input''
      else case inp_Message i of
        None \<Rightarrow> Some ''model: tool exchange must begin with an assistant message''
      | Some m \<Rightarrow>
          if msg_ID m \<in> set messages then Some ''model: duplicate message input''
          else if msg_Role m \<noteq> RoleAssistant \<or> is = [] \<or> inp_ToolCall (hd is) = None then
            validateInputs_from (msg_ID m # messages) allCalls is
          else (case consumeCalls m [] allCalls is of
              Inl e \<Rightarrow> Some e
            | Inr (calls, allCalls', rest) \<Rightarrow> (case consumeResults calls [] rest of
                Inl e \<Rightarrow> Some e
              | Inr (results, rest') \<Rightarrow>
                  if length results \<noteq> length calls then Some ''model: tool call has no terminal result''
                  else validateInputs_from (msg_ID m # messages) allCalls' rest')))"
  by pat_completeness auto
termination
  by (relation "measure (\<lambda>(ms, as, is). length is)")
     (auto dest!: consumeCalls_shorter consumeResults_shorter)

definition ValidateInputs :: "Input list \<Rightarrow> string option" where
  "ValidateInputs inputs =
     (if inputs \<noteq> [] \<and> inp_SystemPrompt (hd inputs) \<noteq> None then
        (if \<not> Input_Valid (hd inputs) then Some ''model: invalid system prompt''
         else validateInputs_from [] [] (tl inputs))
      else validateInputs_from [] [] inputs)"

section \<open>Requests and attempts\<close>

record ModelRequest =
  mreq_SessionID :: SessionID
  mreq_RunID :: RunID
  mreq_StepID :: StepID
  mreq_Config :: Config
  mreq_ConfigRevision :: Revision
  mreq_Inputs :: "Input list"
  mreq_Tools :: "Definition list"

datatype AttemptOutcome = AttemptSucceeded | AttemptFailed | AttemptCanceled | AttemptOutcome_other string

definition AttemptOutcome_Valid :: "AttemptOutcome \<Rightarrow> bool" where
  "AttemptOutcome_Valid r \<longleftrightarrow> r = AttemptSucceeded \<or> r = AttemptFailed \<or> r = AttemptCanceled"

record AttemptStart =
  ast_AttemptID :: AttemptID
  ast_ProviderKey :: string
  ast_ModelID :: string

definition AttemptStart_Validate :: "AttemptStart \<Rightarrow> string option" where
  "AttemptStart_Validate a = check (\<not> validID (ast_AttemptID a) \<or> ast_ModelID a = '''') ''model: invalid attempt start''"

text \<open>The display-line check shared by \<^verbatim>\<open>ValidateErrorMessage\<close>, \<^verbatim>\<open>ValidateSafeReason\<close> and \<^verbatim>\<open>validSafeIdentity\<close>.\<close>

definition unsafe_rune :: "nat \<Rightarrow> bool" where
  "unsafe_rune r \<longleftrightarrow> unicode_IsControl r \<or> unicode_In_CfZlZp r"

abbreviation (input) "MaxErrorMessageBytes \<equiv> (1024 :: nat)"

definition ValidateErrorMessage :: "string \<Rightarrow> string option" where
  "ValidateErrorMessage message =
     (if message = '''' then None
      else first_error
        [check (length message > MaxErrorMessageBytes \<or> \<not> utf8_ValidString message \<or> TrimSpace message \<noteq> message)
           ''model: error message must be bounded, valid UTF-8, and trimmed'',
         check (\<exists>r \<in> set (runes message). unsafe_rune r)
           ''model: error message must be a single safe display line''])"

record AttemptFinish =
  afi_AttemptID :: AttemptID
  afi_Outcome :: AttemptOutcome
  afi_ProviderRequestID :: string
  afi_Usage :: TokenUsage
  afi_ErrorCode :: string
  afi_ErrorMessage :: string

definition AttemptFinish_Validate :: "AttemptFinish \<Rightarrow> string option" where
  "AttemptFinish_Validate a = first_error
     [check (\<not> validID (afi_AttemptID a) \<or> \<not> AttemptOutcome_Valid (afi_Outcome a)) ''model: invalid attempt finish'',
      TokenUsage_Validate (afi_Usage a),
      ValidateErrorMessage (afi_ErrorMessage a),
      check (afi_Outcome a = AttemptSucceeded \<and> (afi_ErrorCode a \<noteq> '''' \<or> afi_ErrorMessage a \<noteq> ''''))
        ''model: succeeded attempt cannot contain an error'',
      check (afi_Outcome a \<noteq> AttemptSucceeded \<and> afi_ErrorCode a = '''')
        ''model: unsuccessful attempt requires a safe error code'']"

record AttemptIdentity =
  aid_SessionID :: SessionID
  aid_RunID :: RunID
  aid_StepID :: StepID
  aid_AttemptID :: AttemptID
  aid_ConfigRevision :: Revision
  aid_Config :: Config

definition AttemptIdentity_Validate :: "AttemptIdentity \<Rightarrow> string option" where
  "AttemptIdentity_Validate i = check
     (\<not> validID (aid_SessionID i) \<or> \<not> validID (aid_RunID i) \<or> \<not> validID (aid_StepID i) \<or>
      \<not> validID (aid_AttemptID i) \<or> aid_ConfigRevision i = 0 \<or> Config_Validate (aid_Config i) \<noteq> None)
     ''model: invalid attempt identity''"

record AttemptFinished =
  afd_Identity :: AttemptIdentity
  afd_Outcome :: AttemptOutcome
  afd_ProviderRequestID :: string
  afd_Usage :: TokenUsage
  afd_ErrorCode :: string

definition AttemptFinished_Validate :: "AttemptFinished \<Rightarrow> string option" where
  "AttemptFinished_Validate a = first_error
     [AttemptIdentity_Validate (afd_Identity a),
      AttemptFinish_Validate
        \<lparr>afi_AttemptID = aid_AttemptID (afd_Identity a), afi_Outcome = afd_Outcome a,
         afi_ProviderRequestID = afd_ProviderRequestID a, afi_Usage = afd_Usage a,
         afi_ErrorCode = afd_ErrorCode a, afi_ErrorMessage = ''''\<rparr>]"

record TokenBudget =
  bud_MaxTokens :: int64
  bud_UsedTokens :: int64

definition TokenBudget_Validate :: "TokenBudget \<Rightarrow> string option" where
  "TokenBudget_Validate b = check (slt (bud_MaxTokens b) 0 \<or> slt (bud_UsedTokens b) 0)
     ''model: token budget cannot be negative''"

definition TokenBudget_Exhausted :: "TokenBudget \<Rightarrow> bool" where
  "TokenBudget_Exhausted b \<longleftrightarrow> slt 0 (bud_MaxTokens b) \<and> sle (bud_MaxTokens b) (bud_UsedTokens b)"

definition RemainingTokens :: "TokenBudget \<Rightarrow> int64" where
  "RemainingTokens b =
     (if bud_MaxTokens b = 0 then 0
      else if sle (bud_MaxTokens b) (bud_UsedTokens b) then 0
      else bud_MaxTokens b - bud_UsedTokens b)"

record ExecutionCapabilities =
  exe_Media :: Capabilities
  exe_Reasoning :: "Reasoning list"
  exe_ContextWindowTokens :: int
  exe_MaxOutputTokens :: int

fun validateReasoning_from :: "Reasoning list \<Rightarrow> Reasoning list \<Rightarrow> string option" where
  "validateReasoning_from seen [] = None"
| "validateReasoning_from seen (r # rs) = first_error
     [check (\<not> Reasoning_Valid r \<or> r \<in> set seen) ''model: invalid or duplicate reasoning capability'',
      validateReasoning_from (r # seen) rs]"

definition ExecutionCapabilities_Validate :: "ExecutionCapabilities \<Rightarrow> string option" where
  "ExecutionCapabilities_Validate c = first_error
     [check (exe_ContextWindowTokens c \<le> 0 \<or> exe_MaxOutputTokens c < 0 \<or>
             exe_MaxOutputTokens c > exe_ContextWindowTokens c) ''model: invalid token capabilities'',
      Capabilities_Validate (exe_Media c),
      check (exe_Reasoning c = []) ''model: reasoning capabilities are required'',
      validateReasoning_from [] (exe_Reasoning c)]"

record Descriptor =
  dsc_ProviderKey :: string
  dsc_ModelID :: string
  dsc_Title :: string
  dsc_Capabilities :: ExecutionCapabilities

definition Descriptor_Validate :: "Descriptor \<Rightarrow> string option" where
  "Descriptor_Validate d = first_error
     [check (dsc_ProviderKey d = '''' \<or> dsc_ModelID d = '''' \<or> dsc_Title d = '''')
        ''model: descriptor identity and title are required'',
      ExecutionCapabilities_Validate (dsc_Capabilities d)]"

definition catalog_key :: "Descriptor \<Rightarrow> string" where
  "catalog_key d = dsc_ProviderKey d @ CHR 0x00 # dsc_ModelID d"

fun catalog_check :: "string list \<Rightarrow> Descriptor list \<Rightarrow> string option" where
  "catalog_check seen [] = None"
| "catalog_check seen (d # ds) = first_error
     [Descriptor_Validate d,
      check (catalog_key d \<in> set seen) ''model: duplicate catalog model'',
      catalog_check (catalog_key d # seen) ds]"

definition NewStaticCatalog :: "Descriptor list \<Rightarrow> string + Descriptor list" where
  "NewStaticCatalog descriptors = guardE (catalog_check [] descriptors) (Inr descriptors)"

section \<open>Model events\<close>

record ToolCallRequest =
  tcr_CorrelationID :: string
  tcr_Name :: string
  tcr_Arguments :: string

definition ToolCallRequest_Valid :: "ToolCallRequest \<Rightarrow> bool" where
  "ToolCallRequest_Valid c \<longleftrightarrow> tcr_Name c \<noteq> '''' \<and> jsonvalue_Valid (tcr_Arguments c)"

record Completion =
  cmp_Parts :: "MessagePart list"
  cmp_ToolCalls :: "ToolCallRequest list"
  cmp_Continuation :: string

definition Completion_Valid :: "Completion \<Rightarrow> bool" where
  "Completion_Valid c \<longleftrightarrow> \<not> (cmp_Parts c = [] \<and> cmp_ToolCalls c = []) \<and>
     (\<forall>p \<in> set (cmp_Parts c). MessagePart_Valid p) \<and>
     (\<forall>t \<in> set (cmp_ToolCalls c). ToolCallRequest_Valid t) \<and>
     (cmp_Continuation c = [] \<or> json_Valid (cmp_Continuation c))"

datatype ModelEventKind = EventDelta | EventReset | EventComplete | EventFailed | EventKind_other string

record ModelEvent =
  ev_Kind :: ModelEventKind
  ev_AttemptID :: string
  ev_Text :: string
  ev_Output :: "Completion option"
  ev_Err :: "string option"

definition ModelEvent_Validate :: "ModelEvent \<Rightarrow> string option" where
  "ModelEvent_Validate e = (case ev_Kind e of
      EventDelta \<Rightarrow> check (ev_Text e = '''' \<or> ev_Output e \<noteq> None \<or> ev_Err e \<noteq> None)
        ''model: delta event requires text and no terminal payload''
    | EventReset \<Rightarrow> check (ev_Text e \<noteq> '''' \<or> ev_Output e \<noteq> None \<or> ev_Err e \<noteq> None)
        ''model: reset event cannot carry content or error''
    | EventComplete \<Rightarrow> check (ev_Text e \<noteq> '''' \<or> (case ev_Output e of None \<Rightarrow> True | Some p \<Rightarrow> \<not> Completion_Valid p) \<or>
          ev_Err e \<noteq> None) ''model: complete event requires output and no error''
    | EventFailed \<Rightarrow> check (ev_Text e \<noteq> '''' \<or> ev_Err e = None \<or> ev_Output e \<noteq> None)
        ''model: failed event requires an error and no message''
    | EventKind_other k \<Rightarrow> Some (''model: unknown event kind '' @ k))"

section \<open>The stream automaton\<close>

record StreamState =
  st_attemptID :: string
  st_visible :: bool
  st_terminal :: bool

definition stream_init :: StreamState where
  "stream_init = \<lparr>st_attemptID = '''', st_visible = False, st_terminal = False\<rparr>"

definition invalidStream :: "string \<Rightarrow> ClassifiedError" where
  "invalidStream message = NewCodedError ErrorInternal ''model_stream_invalid'' ''model.stream'' message"

definition StreamState_Accept :: "StreamState \<Rightarrow> ModelEvent \<Rightarrow> ClassifiedError + StreamState" where
  "StreamState_Accept s event =
     (if st_terminal s then Inl (invalidStream ''event arrived after the logical terminal'')
      else if ModelEvent_Validate event \<noteq> None then
        Inl (invalidStream ''event violates the portable model contract'')
      else if ev_Kind event \<in> {EventDelta, EventReset, EventComplete} \<and> \<not> validID (ev_AttemptID event) then
        Inl (invalidStream ''temporary or completed event requires a valid AttemptID'')
      else if ev_AttemptID event \<noteq> '''' \<and> \<not> validID (ev_AttemptID event) then
        Inl (invalidStream ''event contains an invalid AttemptID'')
      else case ev_Kind event of
        EventDelta \<Rightarrow>
          if st_attemptID s \<noteq> '''' \<and> st_attemptID s \<noteq> ev_AttemptID event then
            Inl (invalidStream ''AttemptID changed without resetting temporary output'')
          else Inr (s\<lparr>st_attemptID := ev_AttemptID event, st_visible := True\<rparr>)
      | EventReset \<Rightarrow>
          if \<not> st_visible s \<or> st_attemptID s = '''' \<or> st_attemptID s \<noteq> ev_AttemptID event then
            Inl (invalidStream ''reset does not match visible temporary output'')
          else Inr (s\<lparr>st_attemptID := '''', st_visible := False\<rparr>)
      | EventComplete \<Rightarrow>
          if st_attemptID s \<noteq> '''' \<and> st_attemptID s \<noteq> ev_AttemptID event then
            Inl (invalidStream ''completed AttemptID differs from visible output'')
          else Inr (s\<lparr>st_terminal := True\<rparr>)
      | EventFailed \<Rightarrow>
          if st_visible s then Inl (invalidStream ''failed stream exposed temporary output without reset'')
          else if st_attemptID s \<noteq> '''' \<and> ev_AttemptID event \<noteq> '''' \<and> st_attemptID s \<noteq> ev_AttemptID event then
            Inl (invalidStream ''failed AttemptID differs from the active attempt'')
          else Inr (s\<lparr>st_terminal := True\<rparr>)
      | EventKind_other _ \<Rightarrow> Inr s)"

text \<open>The error of \<^verbatim>\<open>Recv\<close>, and what \<^verbatim>\<open>End\<close> makes of it: nothing, a stream violation, or itself.\<close>

datatype RecvError = ErrStreamClosed | RecvFailure string
datatype EndError = InvalidEnd ClassifiedError | PassedOn RecvError

definition StreamState_End :: "StreamState \<Rightarrow> RecvError option \<Rightarrow> EndError option" where
  "StreamState_End s err =
     (if err = Some ErrStreamClosed then
        (if \<not> st_terminal s then Some (InvalidEnd (invalidStream ''stream closed before a logical terminal''))
         else None)
      else if st_terminal s then
        Some (InvalidEnd (invalidStream ''stream returned a non-closure error after its logical terminal''))
      else map_option PassedOn err)"

end
