(* ===== verification/Model_Protocol.thy ===== *)
theory Model_Protocol
  imports Model_Contracts
begin

text \<open>
  What the checks of \<^verbatim>\<open>model/\<close> establish: the input protocol as a grammar and its equivalence with
  \<^verbatim>\<open>ValidateInputs\<close>, the runs that the stream automaton accepts, and the exact meaning of the 64-bit
  token accounting.
\<close>

section \<open>The input protocol as a grammar\<close>

text \<open>
  An abstract reading of a request: an optional system prompt and a sequence of exchanges, an exchange
  being a message with the calls it issued and the results of those calls.
\<close>

record exchange =
  x_message :: Message
  x_calls :: "ToolCall list"
  x_results :: "ToolResult list"

definition blank_input :: Input where
  "blank_input = \<lparr>inp_SystemPrompt = None, inp_Message = None, inp_ToolCall = None, inp_ToolResult = None\<rparr>"

definition message_input :: "Message \<Rightarrow> Input" where
  "message_input m = blank_input\<lparr>inp_Message := Some m\<rparr>"

definition call_input :: "ToolCall \<Rightarrow> Input" where
  "call_input c = blank_input\<lparr>inp_ToolCall := Some c\<rparr>"

definition result_input :: "ToolResult \<Rightarrow> Input" where
  "result_input r = blank_input\<lparr>inp_ToolResult := Some r\<rparr>"

definition prompt_input :: "string \<Rightarrow> Input" where
  "prompt_input p = blank_input\<lparr>inp_SystemPrompt := Some p\<rparr>"

definition exchange_inputs :: "exchange \<Rightarrow> Input list" where
  "exchange_inputs x = message_input (x_message x) # map call_input (x_calls x) @ map result_input (x_results x)"

definition exchange_ok :: "exchange \<Rightarrow> bool" where
  "exchange_ok x \<longleftrightarrow> Message_Valid (x_message x) \<and>
     (x_calls x \<noteq> [] \<longrightarrow> msg_Role (x_message x) = RoleAssistant) \<and>
     (\<forall>c \<in> set (x_calls x). ToolCall_Valid c \<and> call_MessageID c = msg_ID (x_message x) \<and>
        call_RunID c = msg_RunID (x_message x) \<and> call_StepID c = msg_StepID (x_message x)) \<and>
     (\<forall>r \<in> set (x_results x). ToolResult_Validate r = None) \<and>
     mset (map res_CallID (x_results x)) = mset (map call_ID (x_calls x))"

definition exchanges_ok :: "exchange list \<Rightarrow> bool" where
  "exchanges_ok xs \<longleftrightarrow> (\<forall>x \<in> set xs. exchange_ok x) \<and>
     distinct (map (msg_ID \<circ> x_message) xs) \<and> distinct (map call_ID (concat (map x_calls xs)))"

lemmas input_defs = blank_input_def message_input_def call_input_def result_input_def prompt_input_def

lemma input_fields [simp]:
  "inp_SystemPrompt (message_input m) = None" "inp_Message (message_input m) = Some m"
  "inp_ToolCall (message_input m) = None" "inp_ToolResult (message_input m) = None"
  "inp_SystemPrompt (call_input c) = None" "inp_Message (call_input c) = None"
  "inp_ToolCall (call_input c) = Some c" "inp_ToolResult (call_input c) = None"
  "inp_SystemPrompt (result_input r) = None" "inp_Message (result_input r) = None"
  "inp_ToolCall (result_input r) = None" "inp_ToolResult (result_input r) = Some r"
  "inp_SystemPrompt (prompt_input p) = Some p" "inp_Message (prompt_input p) = None"
  "inp_ToolCall (prompt_input p) = None" "inp_ToolResult (prompt_input p) = None"
  by (simp_all add: input_defs)

lemma input_valid [simp]:
  "Input_Valid (message_input m) = Message_Valid m"
  "Input_Valid (call_input c) = ToolCall_Valid c"
  "Input_Valid (result_input r) = (ToolResult_Validate r = None)"
  "Input_Valid (prompt_input p) = (p \<noteq> '''')"
  by (simp_all add: input_defs Input_Valid_def present_def)

text \<open>A valid item carries exactly one payload, so it is one of the four constructed inputs.\<close>

lemma valid_input_shape:
  assumes "Input_Valid i"
  shows "inp_Message i = Some m \<Longrightarrow> i = message_input m"
    and "inp_ToolCall i = Some c \<Longrightarrow> i = call_input c"
    and "inp_ToolResult i = Some r \<Longrightarrow> i = result_input r"
    and "inp_SystemPrompt i = Some p \<Longrightarrow> i = prompt_input p"
  using assms by (cases i; auto simp: Input_Valid_def present_def input_defs split: if_splits)+

definition issued_by :: "Message \<Rightarrow> ToolCall \<Rightarrow> bool" where
  "issued_by m c \<longleftrightarrow> ToolCall_Valid c \<and> call_MessageID c = msg_ID m \<and> call_RunID c = msg_RunID m \<and>
     call_StepID c = msg_StepID m"

lemma consumeCalls_sound:
  "consumeCalls m calls allCalls is = Inr (calls', allCalls', rest) \<Longrightarrow>
     \<exists>cs. is = map call_input cs @ rest \<and> calls' = rev (map call_ID cs) @ calls \<and>
          allCalls' = rev (map call_ID cs) @ allCalls \<and> (\<forall>c \<in> set cs. issued_by m c) \<and>
          distinct (map call_ID cs) \<and> set (map call_ID cs) \<inter> (set calls \<union> set allCalls) = {}"
proof (induction m calls allCalls "is" rule: consumeCalls.induct)
  case (2 m calls allCalls i "is")
  show ?case
  proof (cases "inp_ToolCall i")
    case None
    with 2 show ?thesis by (intro exI [of _ "[]"]) simp
  next
    case (Some c)
    with 2 have v: "Input_Valid i" by (auto split: if_splits)
    then have i: "i = call_input c" using valid_input_shape(2) Some by blast
    with v have "ToolCall_Valid c" by simp
    with 2 Some v obtain cs where c: "issued_by m c" "call_ID c \<notin> set calls \<union> set allCalls"
      and cs: "is = map call_input cs @ rest" "calls' = rev (map call_ID cs) @ call_ID c # calls"
        "allCalls' = rev (map call_ID cs) @ call_ID c # allCalls" "\<forall>c \<in> set cs. issued_by m c"
        "distinct (map call_ID cs)" "set (map call_ID cs) \<inter> (insert (call_ID c) (set calls \<union> set allCalls)) = {}"
      by (auto simp: issued_by_def split: if_splits)
    with i c cs show ?thesis by (intro exI [of _ "c # cs"]) auto
  qed
qed auto

lemma consumeCalls_complete:
  "\<forall>c \<in> set cs. issued_by m c \<Longrightarrow> distinct (map call_ID cs) \<Longrightarrow>
   set (map call_ID cs) \<inter> (set calls \<union> set allCalls) = {} \<Longrightarrow> rest = [] \<or> inp_ToolCall (hd rest) = None \<Longrightarrow>
   consumeCalls m calls allCalls (map call_input cs @ rest) =
     Inr (rev (map call_ID cs) @ calls, rev (map call_ID cs) @ allCalls, rest)"
proof (induction cs arbitrary: calls allCalls)
  case Nil
  then show ?case by (cases rest) auto
next
  case (Cons c cs)
  then show ?case by (auto simp: issued_by_def)
qed

lemma consumeResults_sound:
  "consumeResults calls results is = Inr (results', rest) \<Longrightarrow>
     \<exists>rs. is = map result_input rs @ rest \<and> results' = rev (map res_CallID rs) @ results \<and>
          (\<forall>r \<in> set rs. ToolResult_Validate r = None) \<and> set (map res_CallID rs) \<subseteq> set calls \<and>
          distinct (map res_CallID rs) \<and> set (map res_CallID rs) \<inter> set results = {}"
proof (induction calls results "is" rule: consumeResults.induct)
  case (2 calls results i "is")
  show ?case
  proof (cases "inp_ToolResult i")
    case None
    with 2 show ?thesis by (intro exI [of _ "[]"]) simp
  next
    case (Some r)
    with 2 obtain rs where v: "Input_Valid i" and r: "res_CallID r \<in> set calls" "res_CallID r \<notin> set results"
      and rs: "is = map result_input rs @ rest" "results' = rev (map res_CallID rs) @ res_CallID r # results"
        "\<forall>r \<in> set rs. ToolResult_Validate r = None" "set (map res_CallID rs) \<subseteq> set calls"
        "distinct (map res_CallID rs)" "set (map res_CallID rs) \<inter> insert (res_CallID r) (set results) = {}"
      by (auto split: if_splits)
    have "i = result_input r" using valid_input_shape(3) [OF v Some] .
    with v r rs show ?thesis by (intro exI [of _ "r # rs"]) auto
  qed
qed auto

lemma consumeResults_complete:
  "\<forall>r \<in> set rs. ToolResult_Validate r = None \<Longrightarrow> distinct (map res_CallID rs) \<Longrightarrow>
   set (map res_CallID rs) \<subseteq> set calls \<Longrightarrow> set (map res_CallID rs) \<inter> set results = {} \<Longrightarrow>
   rest = [] \<or> inp_ToolResult (hd rest) = None \<Longrightarrow>
   consumeResults calls results (map result_input rs @ rest) = Inr (rev (map res_CallID rs) @ results, rest)"
proof (induction rs arbitrary: results)
  case Nil
  then show ?case by (cases rest) auto
next
  case (Cons r rs)
  then show ?case by auto
qed

definition fresh_exchanges :: "MessageID list \<Rightarrow> ToolCallID list \<Rightarrow> exchange list \<Rightarrow> bool" where
  "fresh_exchanges messages allCalls xs \<longleftrightarrow> exchanges_ok xs \<and>
     set (map (msg_ID \<circ> x_message) xs) \<inter> set messages = {} \<and>
     set (map call_ID (concat (map x_calls xs))) \<inter> set allCalls = {}"

lemma fresh_exchanges_Nil [simp]: "fresh_exchanges messages allCalls []"
  by (simp add: fresh_exchanges_def exchanges_ok_def)

lemma fresh_exchanges_Cons:
  "fresh_exchanges messages allCalls (x # xs) \<longleftrightarrow>
     exchange_ok x \<and> msg_ID (x_message x) \<notin> set messages \<and> distinct (map call_ID (x_calls x)) \<and>
     set (map call_ID (x_calls x)) \<inter> set allCalls = {} \<and>
     fresh_exchanges (msg_ID (x_message x) # messages) (rev (map call_ID (x_calls x)) @ allCalls) xs"
  unfolding fresh_exchanges_def exchanges_ok_def list.map concat.simps map_append distinct_append set_append set_rev
    distinct.simps list.set comp_apply
  by blast

lemma exchange_ok_issued:
  "exchange_ok x \<longleftrightarrow> Message_Valid (x_message x) \<and> (x_calls x \<noteq> [] \<longrightarrow> msg_Role (x_message x) = RoleAssistant) \<and>
     (\<forall>c \<in> set (x_calls x). issued_by (x_message x) c) \<and> (\<forall>r \<in> set (x_results x). ToolResult_Validate r = None) \<and>
     mset (map res_CallID (x_results x)) = mset (map call_ID (x_calls x))"
  by (simp add: exchange_ok_def issued_by_def)

lemma validateInputs_from_complete:
  "fresh_exchanges messages allCalls xs \<Longrightarrow> validateInputs_from messages allCalls (concat (map exchange_inputs xs)) = None"
proof (induction xs arbitrary: messages allCalls)
  case (Cons x xs)
  let ?rest = "concat (map exchange_inputs xs)"
  have hd: "?rest = [] \<or> inp_ToolCall (hd ?rest) = None" "?rest = [] \<or> inp_ToolResult (hd ?rest) = None"
    by (cases xs; simp add: exchange_inputs_def)+
  have x: "exchange_ok x" "msg_ID (x_message x) \<notin> set messages" "distinct (map call_ID (x_calls x))"
    "set (map call_ID (x_calls x)) \<inter> set allCalls = {}" and
    IH: "validateInputs_from (msg_ID (x_message x) # messages) (rev (map call_ID (x_calls x)) @ allCalls) ?rest = None"
    using Cons by (auto simp: fresh_exchanges_Cons)
  have ms: "mset (map res_CallID (x_results x)) = mset (map call_ID (x_calls x))"
    using x(1) by (simp add: exchange_ok_issued)
  have len: "length (x_results x) = length (x_calls x)"
    and dist: "distinct (map res_CallID (x_results x))"
    and sub: "set (map res_CallID (x_results x)) = set (map call_ID (x_calls x))"
    using arg_cong [OF ms, of size] mset_eq_imp_distinct_iff [OF ms] mset_eq_setD [OF ms] x(3) by auto
  show ?case
  proof (cases "x_calls x = []")
    case True
    then have "x_results x = []" using len by simp
    with True have "exchange_inputs x = [message_input (x_message x)]" by (simp add: exchange_inputs_def)
    with True x IH hd show ?thesis by (simp add: exchange_ok_issued)
  next
    case False
    let ?after = "map result_input (x_results x) @ ?rest"
    have aft: "?after = [] \<or> inp_ToolCall (hd ?after) = None"
      using hd by (cases "x_results x") simp_all
    have calls: "consumeCalls (x_message x) [] allCalls (map call_input (x_calls x) @ ?after) =
        Inr (rev (map call_ID (x_calls x)), rev (map call_ID (x_calls x)) @ allCalls, ?after)"
      using consumeCalls_complete [OF _ x(3) _ aft, of "x_message x" "[]" allCalls] x
      by (simp add: exchange_ok_issued)
    have res: "consumeResults (rev (map call_ID (x_calls x))) [] ?after = Inr (rev (map res_CallID (x_results x)), ?rest)"
      using consumeResults_complete [OF _ dist _ _ hd(2), of "rev (map call_ID (x_calls x))" "[]"] x sub
      by (simp add: exchange_ok_issued)
    have first: "inp_ToolCall (hd (map call_input (x_calls x) @ ?after)) \<noteq> None" using False by (cases "x_calls x") simp_all
    have "concat (map exchange_inputs (x # xs)) = message_input (x_message x) # map call_input (x_calls x) @ ?after"
      by (simp add: exchange_inputs_def [of x])
    then show ?thesis using first calls res False x IH len
      by (simp add: exchange_ok_issued hd_map del: concat.simps)
  qed
qed simp

lemma validateInputs_from_sound:
  "validateInputs_from messages allCalls is = None \<Longrightarrow>
     \<exists>xs. is = concat (map exchange_inputs xs) \<and> fresh_exchanges messages allCalls xs"
proof (induction messages allCalls "is" rule: validateInputs_from.induct)
  case (1 messages allCalls)
  show ?case by (intro exI [of _ "[]"]) simp
next
  case (2 messages allCalls i "is")
  then obtain m where v: "Input_Valid i" and m: "inp_Message i = Some m" "inp_SystemPrompt i = None"
    and fresh: "msg_ID m \<notin> set messages"
    by (auto split: if_splits option.splits)
  have i: "i = message_input m" using valid_input_shape(1) [OF v m(1)] .
  show ?case
  proof (cases "msg_Role m \<noteq> RoleAssistant \<or> is = [] \<or> inp_ToolCall (hd is) = None")
    case True
    then obtain xs where xs: "is = concat (map exchange_inputs xs)" "fresh_exchanges (msg_ID m # messages) allCalls xs"
      using 2 v m fresh by auto
    let ?x = "\<lparr>x_message = m, x_calls = [], x_results = []\<rparr>"
    show ?thesis using xs i v fresh
      by (intro exI [of _ "?x # xs"]) (simp add: fresh_exchanges_Cons exchange_ok_def exchange_inputs_def [of ?x])
  next
    case False
    then obtain calls allCalls' rest results rest' where
      c: "consumeCalls m [] allCalls is = Inr (calls, allCalls', rest)" and
      r: "consumeResults calls [] rest = Inr (results, rest')" and
      len: "length results = length calls" and
      nxt: "validateInputs_from (msg_ID m # messages) allCalls' rest' = None"
      using "2.prems" v m fresh by (auto split: sum.splits prod.splits if_splits)
    obtain xs where xs: "rest' = concat (map exchange_inputs xs)" "fresh_exchanges (msg_ID m # messages) allCalls' xs"
      using "2.IH"(2) [OF _ _ m(1) fresh False c refl refl r refl] v m len nxt by auto
    obtain cs where cs: "is = map call_input cs @ rest" "calls = rev (map call_ID cs)"
      "allCalls' = rev (map call_ID cs) @ allCalls" "\<forall>c \<in> set cs. issued_by m c" "distinct (map call_ID cs)"
      "set (map call_ID cs) \<inter> set allCalls = {}"
      using consumeCalls_sound [OF c] by auto
    obtain rs where rs: "rest = map result_input rs @ rest'" "results = rev (map res_CallID rs)"
      "\<forall>r \<in> set rs. ToolResult_Validate r = None" "set (map res_CallID rs) \<subseteq> set calls" "distinct (map res_CallID rs)"
      using consumeResults_sound [OF r] by auto
    let ?x = "\<lparr>x_message = m, x_calls = cs, x_results = rs\<rparr>"
    have "card (set (map res_CallID rs)) = card (set (map call_ID cs))"
      using rs(2,5) cs(2,5) len distinct_card [of "map res_CallID rs"] distinct_card [of "map call_ID cs"] by simp
    then have "set (map res_CallID rs) = set (map call_ID cs)"
      using rs(4) cs(2) by (intro card_subset_eq) auto
    then have "mset (map res_CallID rs) = mset (map call_ID cs)"
      using rs(5) cs(5) set_eq_iff_mset_eq_distinct by blast
    then show ?thesis using xs i v fresh cs rs False
      by (intro exI [of _ "?x # xs"])
         (auto simp: fresh_exchanges_Cons exchange_ok_issued exchange_inputs_def [of ?x])
  qed
qed

lemma validateInputs_from_iff:
  "validateInputs_from [] [] is = None \<longleftrightarrow> (\<exists>xs. is = concat (map exchange_inputs xs) \<and> exchanges_ok xs)"
  using validateInputs_from_sound [of "[]" "[]" "is"] validateInputs_from_complete [of "[]" "[]"]
  by (auto simp: fresh_exchanges_def)

lemma exchanges_no_prompt: "i # is = concat (map exchange_inputs xs) \<Longrightarrow> inp_SystemPrompt i = None"
  by (cases xs) (auto simp: exchange_inputs_def)

lemma ValidateInputs_prompt:
  assumes "inp_SystemPrompt i = Some p"
  shows "ValidateInputs (i # is) = None \<longleftrightarrow> i = prompt_input p \<and> p \<noteq> '''' \<and> validateInputs_from [] [] is = None"
  using assms valid_input_shape(4) [of i p] by (auto simp: ValidateInputs_def split: if_splits)

text \<open>
  C11. The input check of a model request accepts exactly the provider-neutral protocol: an optional
  non-empty system prompt first, then exchanges, each one valid message, followed for an assistant
  message by its valid calls (contained in that message, run and step) and by exactly one valid result
  per call, with message identities and call identities pairwise distinct over the whole request.
\<close>

theorem ValidateInputs_iff_protocol:
  "ValidateInputs inputs = None \<longleftrightarrow>
     (\<exists>prompt xs. inputs = map prompt_input prompt @ concat (map exchange_inputs xs) \<and> length prompt \<le> 1 \<and>
        '''' \<notin> set prompt \<and> exchanges_ok xs)" (is "_ = (\<exists>prompt xs. ?P prompt xs)")
proof (cases "inputs \<noteq> [] \<and> inp_SystemPrompt (hd inputs) \<noteq> None")
  case True
  then obtain p i "is" where inputs: "inputs = i # is" and p: "inp_SystemPrompt i = Some p" by (cases inputs) auto
  have "prompt = [p] \<and> i = prompt_input p" if "?P prompt xs" for prompt xs
    using that inputs p exchanges_no_prompt [of i "is" xs] by (cases prompt) auto
  moreover have "?P [p] xs \<longleftrightarrow> i = prompt_input p \<and> p \<noteq> '''' \<and> is = concat (map exchange_inputs xs) \<and> exchanges_ok xs" for xs
    using inputs by auto
  ultimately show ?thesis using ValidateInputs_prompt [OF p] inputs validateInputs_from_iff by metis
next
  case False
  then have v: "ValidateInputs inputs = validateInputs_from [] [] inputs" by (auto simp: ValidateInputs_def)
  have "prompt = []" if "?P prompt xs" for prompt xs
    using False that by (cases prompt) auto
  moreover have "?P [] xs \<longleftrightarrow> inputs = concat (map exchange_inputs xs) \<and> exchanges_ok xs" for xs by simp
  ultimately show ?thesis using v validateInputs_from_iff by metis
qed

section \<open>Accepted streams\<close>

text \<open>
  The events of the stream protocol, spelled out: a delta of an attempt carries text and nothing else, a
  reset carries nothing, a completion carries a valid output, and a failure carries
  an error and names no attempt or a valid one.
\<close>

definition delta_of :: "string \<Rightarrow> ModelEvent \<Rightarrow> bool" where
  "delta_of a e \<longleftrightarrow> ev_Kind e = EventDelta \<and> ev_AttemptID e = a \<and> ev_Text e \<noteq> '''' \<and> ev_Output e = None \<and> ev_Err e = None"

definition reset_of :: "string \<Rightarrow> ModelEvent \<Rightarrow> bool" where
  "reset_of a e \<longleftrightarrow> ev_Kind e = EventReset \<and> ev_AttemptID e = a \<and> ev_Text e = '''' \<and> ev_Output e = None \<and> ev_Err e = None"

definition complete_of :: "string \<Rightarrow> ModelEvent \<Rightarrow> bool" where
  "complete_of a e \<longleftrightarrow> ev_Kind e = EventComplete \<and> ev_AttemptID e = a \<and> ev_Text e = '''' \<and>
     (\<exists>p. ev_Output e = Some p \<and> Completion_Valid p) \<and> ev_Err e = None"

definition failure :: "ModelEvent \<Rightarrow> bool" where
  "failure e \<longleftrightarrow> ev_Kind e = EventFailed \<and> (ev_AttemptID e = '''' \<or> validID (ev_AttemptID e)) \<and>
     ev_Text e = '''' \<and> ev_Output e = None \<and> ev_Err e \<noteq> None"

text \<open>
  A stream is a sequence of abandoned attempts (some deltas, then the reset that withdraws them)
  followed by the deltas of at most one further attempt.  It is finished by the completion of that
  attempt, or, when no delta is left standing, by a failure.
\<close>

definition deltas_of :: "string \<Rightarrow> ModelEvent list \<Rightarrow> bool" where
  "deltas_of a ds \<longleftrightarrow> validID a \<and> (\<forall>d \<in> set ds. delta_of a d)"

definition abandoned :: "ModelEvent list \<Rightarrow> bool" where
  "abandoned b \<longleftrightarrow> (\<exists>a ds r. b = ds @ [r] \<and> ds \<noteq> [] \<and> deltas_of a ds \<and> reset_of a r)"

definition stream_open :: "ModelEvent list \<Rightarrow> bool" where
  "stream_open evs \<longleftrightarrow> (\<exists>bs a ds. evs = concat bs @ ds \<and> (\<forall>b \<in> set bs. abandoned b) \<and> deltas_of a ds)"

definition stream_finished :: "ModelEvent list \<Rightarrow> bool" where
  "stream_finished evs \<longleftrightarrow> (\<exists>bs a ds e. evs = concat bs @ ds @ [e] \<and> (\<forall>b \<in> set bs. abandoned b) \<and>
     (deltas_of a ds \<and> complete_of a e \<or> ds = [] \<and> failure e))"

text \<open>The state of the automaton while the deltas \<open>ds\<close> of attempt \<open>a\<close> stand.\<close>

definition standing :: "string \<Rightarrow> ModelEvent list \<Rightarrow> StreamState" where
  "standing a ds = (if ds = [] then stream_init else \<lparr>st_attemptID = a, st_visible = True, st_terminal = False\<rparr>)"

lemma standing_simps [simp]:
  "standing a [] = stream_init"
  "st_terminal (standing a ds) = False"
  "st_visible (standing a ds) \<longleftrightarrow> ds \<noteq> []"
  "st_attemptID (standing a ds) = (if ds = [] then '''' else a)"
  by (simp_all add: standing_def stream_init_def)

lemma validID_nonempty: "validID a \<Longrightarrow> a \<noteq> ''''"
  by (auto simp: validID_def)

lemma Accept_delta:
  "deltas_of a ds \<Longrightarrow> delta_of a e \<Longrightarrow> StreamState_Accept (standing a ds) e = Inr (standing a (ds @ [e]))"
  by (auto simp: StreamState_Accept_def ModelEvent_Validate_def check_def delta_of_def deltas_of_def standing_def stream_init_def)

lemma Accept_reset:
  "deltas_of a ds \<Longrightarrow> ds \<noteq> [] \<Longrightarrow> reset_of a e \<Longrightarrow> StreamState_Accept (standing a ds) e = Inr stream_init"
  by (auto simp: StreamState_Accept_def ModelEvent_Validate_def check_def reset_of_def deltas_of_def standing_def stream_init_def
      dest: validID_nonempty)

lemma Accept_complete:
  "deltas_of a ds \<Longrightarrow> complete_of a e \<Longrightarrow> StreamState_Accept (standing a ds) e = Inr ((standing a ds)\<lparr>st_terminal := True\<rparr>)"
  by (auto simp: StreamState_Accept_def ModelEvent_Validate_def check_def complete_of_def deltas_of_def)

lemma Accept_failure: "failure e \<Longrightarrow> StreamState_Accept stream_init e = Inr (stream_init\<lparr>st_terminal := True\<rparr>)"
  by (auto simp: StreamState_Accept_def ModelEvent_Validate_def check_def failure_def stream_init_def)

lemma run_deltas: "deltas_of a ds \<Longrightarrow> foldE StreamState_Accept stream_init ds = Inr (standing a ds)"
  by (induction ds rule: rev_induct) (auto simp: foldE_append Accept_delta deltas_of_def)

lemma run_abandoned: "\<forall>b \<in> set bs. abandoned b \<Longrightarrow> foldE StreamState_Accept stream_init (concat bs) = Inr stream_init"
  by (induction bs) (auto simp: foldE_append abandoned_def run_deltas Accept_reset)

text \<open>Whatever the automaton accepts after standing deltas extends the grammar.\<close>

lemma StreamState_Accept_standing:
  assumes "StreamState_Accept (standing a ds) e = Inr t" and "deltas_of a ds"
  obtains (delta) b where "deltas_of b (ds @ [e])" "t = standing b (ds @ [e])"
    | (reset) "ds \<noteq> []" "reset_of a e" "t = stream_init"
    | (complete) b where "deltas_of b ds" "complete_of b e" "st_terminal t"
    | (failed) "ds = []" "failure e" "st_terminal t"
proof (cases "ev_Kind e")
  case EventDelta
  with assms show ?thesis
    by (intro delta [of "ev_AttemptID e"])
      (auto simp: StreamState_Accept_def ModelEvent_Validate_def check_def deltas_of_def delta_of_def standing_def
        split: if_splits)
next
  case EventReset
  with assms show ?thesis
    by (intro reset) (auto simp: StreamState_Accept_def ModelEvent_Validate_def check_def reset_of_def standing_def stream_init_def
        split: if_splits)
next
  case EventComplete
  with assms show ?thesis
    by (intro complete [of "ev_AttemptID e"])
      (auto simp: StreamState_Accept_def ModelEvent_Validate_def check_def deltas_of_def complete_of_def delta_of_def
        split: if_splits option.splits)
next
  case EventFailed
  with assms show ?thesis
    by (intro failed) (auto simp: StreamState_Accept_def ModelEvent_Validate_def check_def failure_def split: if_splits)
next
  case (EventKind_other k)
  with assms show ?thesis by (auto simp: StreamState_Accept_def ModelEvent_Validate_def split: if_splits)
qed

lemma run_stream_finished:
  assumes "stream_finished evs"
  obtains s where "foldE StreamState_Accept stream_init evs = Inr s" "st_terminal s"
proof -
  from assms obtain bs a ds e where evs: "evs = concat bs @ ds @ [e]" and bs: "\<forall>b \<in> set bs. abandoned b"
    and end_: "deltas_of a ds \<and> complete_of a e \<or> ds = [] \<and> failure e" by (auto simp: stream_finished_def)
  from end_ show ?thesis
    by (elim disjE conjE; intro that) (auto simp: evs foldE_append run_abandoned [OF bs] run_deltas Accept_complete Accept_failure)
qed

lemma stream_run_grammar:
  "foldE StreamState_Accept stream_init evs = Inr s \<Longrightarrow>
     (\<exists>bs a ds. evs = concat bs @ ds \<and> (\<forall>b \<in> set bs. abandoned b) \<and> deltas_of a ds \<and> s = standing a ds) \<or>
     st_terminal s \<and> stream_finished evs"
proof (induction evs arbitrary: s rule: rev_induct)
  case Nil
  have "deltas_of ''a'' []" by (simp add: deltas_of_def validID_graphic graphic_def)
  with Nil show ?case by (intro disjI1 exI [of _ "[]"] exI [of _ "''a''"]) simp
next
  case (snoc e evs)
  then obtain t where t: "foldE StreamState_Accept stream_init evs = Inr t" and s: "StreamState_Accept t e = Inr s"
    by (auto simp: foldE_append split: sum.splits)
  then have "\<not> st_terminal t" by (auto simp: StreamState_Accept_def)
  with snoc.IH [OF t] obtain bs a ds where evs: "evs = concat bs @ ds" and bs: "\<forall>b \<in> set bs. abandoned b"
    and ds: "deltas_of a ds" and "t = standing a ds" by auto
  with s have "StreamState_Accept (standing a ds) e = Inr s" by simp
  then show ?case using ds
  proof (cases rule: StreamState_Accept_standing)
    case (delta b)
    with evs bs show ?thesis by (intro disjI1 exI [of _ bs] exI [of _ b] exI [of _ "ds @ [e]"]) simp
  next
    case reset
    with ds have "abandoned (ds @ [e])" by (auto simp: abandoned_def)
    with reset evs bs ds show ?thesis
      by (intro disjI1 exI [of _ "bs @ [ds @ [e]]"] exI [of _ a] exI [of _ "[]"]) (auto simp: deltas_of_def)
  next
    case (complete b)
    with evs bs have "stream_finished (evs @ [e])"
      unfolding stream_finished_def by (intro exI [of _ bs] exI [of _ b] exI [of _ ds] exI [of _ e]) simp
    with complete show ?thesis by blast
  next
    case failed
    with evs bs have "stream_finished (evs @ [e])"
      unfolding stream_finished_def by (intro exI [of _ bs] exI [of _ a] exI [of _ "[]"] exI [of _ e]) simp
    with failed show ?thesis by blast
  qed
qed

text \<open>
  C12. The stream automaton accepts, from its initial state, exactly the streams of the protocol:
  attempts that each show some deltas and are then withdrawn by their own reset, followed by the deltas
  of at most one more attempt and possibly by the completion of that attempt, or by a failure when no
  delta is left standing.  A normal close of the stream is accepted exactly when it is finished by such
  a completion or failure.
\<close>

theorem stream_accepts_protocol:
  "((\<exists>s. foldE StreamState_Accept stream_init evs = Inr s) \<longleftrightarrow> stream_open evs \<or> stream_finished evs) \<and>
   ((\<exists>s. foldE StreamState_Accept stream_init evs = Inr s \<and> StreamState_End s (Some ErrStreamClosed) = None) \<longleftrightarrow>
      stream_finished evs)"
proof -
  have "\<exists>s. foldE StreamState_Accept stream_init evs = Inr s" if "stream_open evs"
    using that by (auto simp: stream_open_def foldE_append run_abandoned run_deltas)
  moreover have "stream_open evs \<or> stream_finished evs" if "foldE StreamState_Accept stream_init evs = Inr s" for s
    using stream_run_grammar [OF that] by (auto simp: stream_open_def)
  moreover have "stream_finished evs" if "foldE StreamState_Accept stream_init evs = Inr s" "st_terminal s" for s
    using stream_run_grammar [OF that(1)] that(2) by auto
  ultimately show ?thesis
    by (auto simp: StreamState_End_def split: if_splits elim!: run_stream_finished)
qed

definition delta_event :: "string \<Rightarrow> string \<Rightarrow> ModelEvent" where
  "delta_event a t = \<lparr>ev_Kind = EventDelta, ev_AttemptID = a, ev_Text = t, ev_Output = None, ev_Err = None\<rparr>"

definition reset_event :: "string \<Rightarrow> ModelEvent" where
  "reset_event a = \<lparr>ev_Kind = EventReset, ev_AttemptID = a, ev_Text = '''', ev_Output = None, ev_Err = None\<rparr>"

definition failed_event :: "string \<Rightarrow> ModelEvent" where
  "failed_event a = \<lparr>ev_Kind = EventFailed, ev_AttemptID = a, ev_Text = '''', ev_Output = None, ev_Err = Some ''boom''\<rparr>"

lemma validID_a1: "validID ''a1''"
  by (rule validID_graphic) (simp_all add: graphic_def)

theorem stream_accepts_protocol_witness:
  "\<exists>s. foldE StreamState_Accept stream_init [delta_event ''a1'' ''hi'', reset_event ''a1'', failed_event ''''] = Inr s \<and>
     StreamState_End s (Some ErrStreamClosed) = None"
proof -
  have "abandoned ([delta_event ''a1'' ''hi''] @ [reset_event ''a1''])"
    unfolding abandoned_def
    by (intro exI conjI) (auto simp: deltas_of_def delta_of_def reset_of_def delta_event_def reset_event_def validID_a1)
  then have "stream_finished [delta_event ''a1'' ''hi'', reset_event ''a1'', failed_event '''']"
    unfolding stream_finished_def
    by (intro exI [of _ "[[delta_event ''a1'' ''hi'', reset_event ''a1'']]"] exI [of _ "''a1''"] exI [of _ "[]"]
        exI [of _ "failed_event ''''"]) (simp add: failure_def failed_event_def)
  with stream_accepts_protocol show ?thesis by blast
qed

section \<open>Token accounting\<close>

lemma sint64_plus_cases:
  fixes a b :: int64
  assumes "0 \<le> sint a" and "0 \<le> sint b"
  shows "sint (a + b) = (if sint a + sint b < 2 ^ 63 then sint a + sint b else sint a + sint b - 2 ^ 64)"
proof -
  have r: "sint a < 2 ^ 63" "sint b < 2 ^ 63" using sint_lt [of a] sint_lt [of b] by simp_all
  have "sint (a + b) = (sint a + sint b + 2 ^ 63) mod 2 ^ 64 - 2 ^ 63"
    by (simp add: sint_word_ariths signed_take_bit_eq_take_bit_shift take_bit_eq_mod)
  moreover have "(sint a + sint b + 2 ^ 63) mod 2 ^ 64 = sint a + sint b + 2 ^ 63" if "sint a + sint b < 2 ^ 63"
    using that assms by (intro mod_pos_pos_trivial) auto
  moreover have "(sint a + sint b + 2 ^ 63) mod 2 ^ 64 = sint a + sint b + 2 ^ 63 - 2 ^ 64" if "\<not> sint a + sint b < 2 ^ 63"
  proof -
    have "(sint a + sint b + 2 ^ 63) mod 2 ^ 64 = (sint a + sint b + 2 ^ 63 - 2 ^ 64) mod 2 ^ 64"
      by (rule minus_mod_self2 [symmetric])
    also have "\<dots> = sint a + sint b + 2 ^ 63 - 2 ^ 64" using that r by (intro mod_pos_pos_trivial) auto
    finally show ?thesis .
  qed
  ultimately show ?thesis by simp
qed

lemma sint64_minus_nonneg:
  fixes a b :: int64
  assumes "0 \<le> sint b" and "sint b \<le> sint a"
  shows "sint (a - b) = sint a - sint b"
proof -
  have "sint a < 2 ^ 63" using sint_lt [of a] by simp
  then have "(sint a - sint b + 2 ^ 63) mod 2 ^ 64 = sint a - sint b + 2 ^ 63"
    using assms by (intro mod_pos_pos_trivial) auto
  then show ?thesis by (simp add: sint_word_ariths signed_take_bit_eq_take_bit_shift take_bit_eq_mod)
qed

text \<open>
  C14. What the accounting check of one attempt really establishes: all counts are non-negative, the two
  subsets are within their wholes, the estimate source is present exactly for estimates, and the total
  covers input plus output \<^emph>\<open>or\<close> input plus output exceeds the signed 64-bit range. In the second
  case the machine sum is negative and the check accepts any total, also one smaller than the sum.
\<close>

theorem TokenUsage_Validate_exact:
  "TokenUsage_Validate u = None \<longleftrightarrow>
     0 \<le> sint (use_InputTokens u) \<and> 0 \<le> sint (use_OutputTokens u) \<and> 0 \<le> sint (use_CacheWriteTokens u) \<and>
     0 \<le> sint (use_TotalTokens u) \<and>
     sint (use_CachedInputTokens u) \<in> {0 .. sint (use_InputTokens u)} \<and>
     sint (use_ReasoningTokens u) \<in> {0 .. sint (use_OutputTokens u)} \<and>
     (sint (use_InputTokens u) + sint (use_OutputTokens u) \<le> sint (use_TotalTokens u) \<or>
      2 ^ 63 \<le> sint (use_InputTokens u) + sint (use_OutputTokens u)) \<and>
     (use_Estimated u \<longleftrightarrow> use_EstimateSource u \<noteq> '''')"
proof -
  have "sint (use_TotalTokens u) < sint (use_InputTokens u + use_OutputTokens u) \<longleftrightarrow>
     \<not> (sint (use_InputTokens u) + sint (use_OutputTokens u) \<le> sint (use_TotalTokens u) \<or>
      2 ^ 63 \<le> sint (use_InputTokens u) + sint (use_OutputTokens u))"
    if "0 \<le> sint (use_InputTokens u)" "0 \<le> sint (use_OutputTokens u)" "0 \<le> sint (use_TotalTokens u)"
    using sint64_plus_cases [OF that(1,2)] that sint_lt [of "use_InputTokens u"] sint_lt [of "use_OutputTokens u"]
    by auto
  then show ?thesis by (auto simp: TokenUsage_Validate_def)
qed

text \<open>
  The remaining budget of a run is the mathematical difference, never negative and never wrapped,
  and for a limited run it is zero exactly when the budget counts as exhausted.
\<close>

theorem RemainingTokens_exact:
  assumes "TokenBudget_Validate b = None"
  shows "sint (RemainingTokens b) =
      (if bud_MaxTokens b = 0 then 0 else max 0 (sint (bud_MaxTokens b) - sint (bud_UsedTokens b))) \<and>
    (bud_MaxTokens b \<noteq> 0 \<longrightarrow> (TokenBudget_Exhausted b \<longleftrightarrow> RemainingTokens b = 0))"
proof -
  have nn: "0 \<le> sint (bud_MaxTokens b)" "0 \<le> sint (bud_UsedTokens b)"
    using assms by (auto simp: TokenBudget_Validate_def)
  show ?thesis
  proof (cases "sle (bud_MaxTokens b) (bud_UsedTokens b)")
    case True
    with nn show ?thesis
      by (auto simp: RemainingTokens_def TokenBudget_Exhausted_def less_le signed_eq_0_iff)
  next
    case False
    then have "sint (bud_MaxTokens b - bud_UsedTokens b) = sint (bud_MaxTokens b) - sint (bud_UsedTokens b)"
      using nn by (intro sint64_minus_nonneg) auto
    with False nn show ?thesis
      by (auto simp: RemainingTokens_def TokenBudget_Exhausted_def)
  qed
qed

theorem RemainingTokens_exact_witness:
  "sint (RemainingTokens \<lparr>bud_MaxTokens = 10, bud_UsedTokens = 4\<rparr>) = 6"
  using RemainingTokens_exact [of "\<lparr>bud_MaxTokens = 10, bud_UsedTokens = 4\<rparr>"]
  by (simp add: TokenBudget_Validate_def)

end
