(* ===== verification/Hook_Invocation.thy ===== *)
theory Hook_Invocation
  imports Model_Contracts
begin

text \<open>
  \<^verbatim>\<open>hook/\<close>: the vocabulary of durable extension invocations (\<^verbatim>\<open>invocation.go\<close>) and, for the five
  extension boundaries (\<^verbatim>\<open>input_gate.go\<close>, \<^verbatim>\<open>tool_preflight.go\<close>, \<^verbatim>\<open>tool_result.go\<close>,
  \<^verbatim>\<open>completion.go\<close>, \<^verbatim>\<open>session_lifecycle.go\<close>), the build-time scope, the detached view and the result a
  contribution may return. \<^verbatim>\<open>FingerprintTypedInput\<close> rests on \<^verbatim>\<open>json.Marshal\<close> and SHA-256; the checks
  that use it take it as a parameter \<open>fpt\<close>, which gives the digest and canonical size, or
  \<^term>\<open>None\<close> for its error.
\<close>

section \<open>Safe text and identities\<close>

abbreviation (input) "MaxExtensionKeyBytes \<equiv> (128 :: nat)"
abbreviation (input) "MaxInvocationIDBytes \<equiv> (128 :: nat)"
abbreviation (input) "MaxSafeReasonBytes \<equiv> (1024 :: nat)"
abbreviation (input) "MaxContextInputs \<equiv> (16 :: nat)"
abbreviation (input) "MaxContextBytes \<equiv> (262144 :: int)"

definition validSafeIdentity :: "string \<Rightarrow> nat \<Rightarrow> bool" where
  "validSafeIdentity value limit =
     (if value = '''' \<or> length value > limit \<or> \<not> utf8_ValidString value \<or> TrimSpace value \<noteq> value then False
      else \<not> (\<exists>r \<in> set (runes value). unsafe_rune r))"

definition InvocationID_Valid :: "string \<Rightarrow> bool" where
  "InvocationID_Valid i = validSafeIdentity i MaxInvocationIDBytes"

definition lower_hex :: "char \<Rightarrow> bool" where
  "lower_hex c \<longleftrightarrow> c \<in> set ''0123456789abcdef''"

definition ValidDigest :: "string \<Rightarrow> bool" where
  "ValidDigest value \<longleftrightarrow> length value = length ''sha256:'' + 64 \<and> take 7 value = ''sha256:'' \<and>
     (\<forall>c \<in> set (drop 7 value). lower_hex c)"

definition ValidateSafeReason :: "string \<Rightarrow> string option" where
  "ValidateSafeReason value =
     (if value = '''' then None
      else first_error
        [check (length value > MaxSafeReasonBytes \<or> \<not> utf8_ValidString value \<or> TrimSpace value \<noteq> value)
           ''hook: reason must be bounded, trimmed, valid UTF-8'',
         check (\<exists>r \<in> set (runes value). unsafe_rune r) ''hook: reason must be one safe display line''])"

record ExtensionDescriptor =
  ext_Key :: string
  ext_DefinitionDigest :: string

definition ExtensionDescriptor_Validate :: "ExtensionDescriptor \<Rightarrow> string option" where
  "ExtensionDescriptor_Validate d = first_error
     [check (\<not> validSafeIdentity (ext_Key d) MaxExtensionKeyBytes)
        ''hook: extension key must be bounded, trimmed, valid UTF-8, and control-free'',
      check (\<not> ValidDigest (ext_DefinitionDigest d)) ''hook: definition digest must be lowercase sha256'']"

section \<open>Invocation vocabulary\<close>

datatype BoundaryKind =
    BoundaryInputGate | BoundaryToolPreflight | BoundaryToolResult | BoundaryCompletion
  | BoundarySessionLifecycle | BoundaryKind_other string

definition BoundaryKind_Valid :: "BoundaryKind \<Rightarrow> bool" where
  "BoundaryKind_Valid k = (case k of BoundaryKind_other _ \<Rightarrow> False | _ \<Rightarrow> True)"

datatype InvocationStatus =
    InvocationPrepared | InvocationPending | InvocationSucceeded | InvocationFailed | InvocationCanceled
  | InvocationOutcomeUnknown | InvocationStatus_other string

definition InvocationStatus_Valid :: "InvocationStatus \<Rightarrow> bool" where
  "InvocationStatus_Valid s = (case s of InvocationStatus_other _ \<Rightarrow> False | _ \<Rightarrow> True)"

definition InvocationStatus_Terminal :: "InvocationStatus \<Rightarrow> bool" where
  "InvocationStatus_Terminal s \<longleftrightarrow> s = InvocationSucceeded \<or> s = InvocationFailed \<or> s = InvocationCanceled \<or>
     s = InvocationOutcomeUnknown"

datatype EffectDisposition = EffectNone | EffectPending | EffectApplied | EffectDiscarded | Effect_other string

definition EffectDisposition_Valid :: "EffectDisposition \<Rightarrow> bool" where
  "EffectDisposition_Valid d \<longleftrightarrow> d = EffectNone \<or> d = EffectPending \<or> d = EffectApplied \<or> d = EffectDiscarded"

datatype ContextDisposition = ContextNone | ContextPending | ContextConsumed | ContextDiscarded | ContextDisp_other string

definition ContextDisposition_Valid :: "ContextDisposition \<Rightarrow> bool" where
  "ContextDisposition_Valid d \<longleftrightarrow> d = ContextNone \<or> d = ContextPending \<or> d = ContextConsumed \<or> d = ContextDiscarded"

datatype Decision =
    DecisionNone | DecisionAccept | DecisionReject | DecisionAllow | DecisionDeny | DecisionRequireApproval
  | DecisionComplete | DecisionContinue | Decision_other string

definition Decision_Valid :: "Decision \<Rightarrow> bool" where
  "Decision_Valid d = (case d of Decision_other _ \<Rightarrow> False | _ \<Rightarrow> True)"

record InvocationResult =
  ires_Decision :: Decision
  ires_Reason :: string

definition InvocationResult_Validate :: "InvocationResult \<Rightarrow> string option" where
  "InvocationResult_Validate r = first_error
     [check (\<not> Decision_Valid (ires_Decision r)) ''hook: invalid invocation decision'',
      ValidateSafeReason (ires_Reason r)]"

record InvocationFailure =
  ifl_Status :: InvocationStatus
  ifl_Code :: ErrorCode
  ifl_Reason :: string

definition InvocationFailure_Validate :: "InvocationFailure option \<Rightarrow> string option" where
  "InvocationFailure_Validate f = (case f of None \<Rightarrow> Some ''hook: invalid invocation failure''
    | Some e \<Rightarrow> first_error
        [check (ifl_Status e \<noteq> InvocationFailed \<and> ifl_Status e \<noteq> InvocationCanceled \<and>
                ifl_Status e \<noteq> InvocationOutcomeUnknown \<or> \<not> validSafeIdentity (ifl_Code e) MaxExtensionKeyBytes)
           ''hook: invalid invocation failure'',
         ValidateSafeReason (ifl_Reason e)])"

type_synonym typed_fingerprint = "Input list \<Rightarrow> (string \<times> int) option"

definition foreign_input :: "SessionID \<Rightarrow> Input \<Rightarrow> bool" where
  "foreign_input sessionID input \<longleftrightarrow>
     \<not> Input_Valid input \<or> inp_SystemPrompt input \<noteq> None \<or>
     (case inp_Message input of None \<Rightarrow> False | Some m \<Rightarrow> msg_SessionID m \<noteq> sessionID) \<or>
     (case inp_ToolCall input of None \<Rightarrow> False | Some c \<Rightarrow> call_SessionID c \<noteq> sessionID)"

definition validateContextProposal :: "typed_fingerprint \<Rightarrow> Input list \<Rightarrow> SessionID \<Rightarrow> string option" where
  "validateContextProposal fpt inputs sessionID = first_error
     [check (length inputs > MaxContextInputs) ''hook: extension context exceeds the input limit'',
      check (\<exists>i \<in> set inputs. foreign_input sessionID i) ''hook: invalid extension context'',
      check (ValidateInputs inputs \<noteq> None) ''hook: extension context violates the model protocol'',
      check (inputs \<noteq> [] \<and> (case fpt inputs of None \<Rightarrow> True | Some (_, bytes) \<Rightarrow> bytes > MaxContextBytes))
        ''hook: extension context exceeds the byte limit'']"

section \<open>Input gate\<close>

datatype InputOperation = InputSend | InputSteer | InputEditQueued | InputOperation_other string

definition InputOperation_Valid :: "InputOperation \<Rightarrow> bool" where
  "InputOperation_Valid x \<longleftrightarrow> x = InputSend \<or> x = InputSteer \<or> x = InputEditQueued"

record InputGateView =
  igv_InvocationID :: string
  igv_Operation :: InputOperation
  igv_SessionID :: SessionID
  igv_AgentID :: AgentID
  igv_WorkspaceID :: WorkspaceID
  igv_Revision :: Revision
  igv_MessageID :: MessageID
  igv_ClientMessageID :: ClientMessageID
  igv_Input :: MessageInput
  igv_PreviousInputDigest :: string

definition InputGateView_Validate :: "InputGateView \<Rightarrow> string option" where
  "InputGateView_Validate v = first_error
     [check (\<not> InvocationID_Valid (igv_InvocationID v) \<or> \<not> InputOperation_Valid (igv_Operation v) \<or>
             \<not> validID (igv_SessionID v) \<or> \<not> validID (igv_AgentID v) \<or> \<not> validID (igv_WorkspaceID v) \<or>
             igv_Revision v = 0 \<or> \<not> validID (igv_MessageID v) \<or> \<not> MessageInput_Valid (igv_Input v) \<or>
             (igv_ClientMessageID v \<noteq> '''' \<and> \<not> validID (igv_ClientMessageID v)))
        ''hook: invalid input gate view'',
      (if igv_Operation v = InputEditQueued then
         check (\<not> ValidDigest (igv_PreviousInputDigest v)) ''hook: edit input gate requires the previous input digest''
       else check (igv_PreviousInputDigest v \<noteq> '''')
         ''hook: only edit input gate may carry a previous input digest'')]"

record InputGateResult =
  igr_Decision :: Decision
  igr_Reason :: string
  igr_Context :: "Input list"

definition InputGateResult_Validate :: "typed_fingerprint \<Rightarrow> InputGateResult \<Rightarrow> SessionID \<Rightarrow> string option" where
  "InputGateResult_Validate fpt r sessionID = first_error
     [check (igr_Decision r \<noteq> DecisionAccept \<and> igr_Decision r \<noteq> DecisionReject)
        ''hook: input gate decision must be accept or reject'',
      ValidateSafeReason (igr_Reason r),
      (if igr_Decision r = DecisionReject then
         check (igr_Reason r = '''' \<or> igr_Context r \<noteq> [])
           ''hook: rejected input requires a reason and cannot contribute context''
       else map_option (\<lambda>e. ''hook: invalid input gate context: '' @ e)
         (validateContextProposal fpt (igr_Context r) sessionID))]"

section \<open>Tool preflight\<close>

record ToolScope =
  tsc_All :: bool
  tsc_ToolKeys :: "string list"

fun scopeKeys_from :: "string \<Rightarrow> string list \<Rightarrow> string list \<Rightarrow> string option" where
  "scopeKeys_from what seen [] = None"
| "scopeKeys_from what seen (k # ks) = first_error
     [check (\<not> validSafeIdentity k MaxExtensionKeyBytes) (''hook: '' @ what @ '' scope key is invalid''),
      check (k \<in> set seen) (''hook: '' @ what @ '' scope key is duplicated: '' @ k),
      scopeKeys_from what (k # seen) ks]"

definition ToolScope_Validate :: "ToolScope \<Rightarrow> string option" where
  "ToolScope_Validate s =
     (if tsc_All s then check (tsc_ToolKeys s \<noteq> []) ''hook: all-tools scope cannot also name tool keys''
      else first_error
        [check (tsc_ToolKeys s = [] \<or> length (tsc_ToolKeys s) > 64) ''hook: tool scope requires a bounded explicit key set'',
         scopeKeys_from ''tool'' [] (tsc_ToolKeys s)])"

definition ToolScope_Matches :: "ToolScope \<Rightarrow> string \<Rightarrow> bool" where
  "ToolScope_Matches s toolKey \<longleftrightarrow> tsc_All s \<or> toolKey \<in> set (tsc_ToolKeys s)"

record ToolPreflightView =
  tpv_InvocationID :: string
  tpv_SessionID :: SessionID
  tpv_AgentID :: AgentID
  tpv_WorkspaceID :: WorkspaceID
  tpv_Revision :: Revision
  tpv_RunID :: RunID
  tpv_StepID :: StepID
  tpv_MessageID :: MessageID
  tpv_ToolCallID :: ToolCallID
  tpv_ToolKey :: string
  tpv_Arguments :: string

definition ToolPreflightView_Validate :: "ToolPreflightView \<Rightarrow> string option" where
  "ToolPreflightView_Validate v = check
     (\<not> InvocationID_Valid (tpv_InvocationID v) \<or> \<not> validID (tpv_SessionID v) \<or> \<not> validID (tpv_AgentID v) \<or>
      \<not> validID (tpv_WorkspaceID v) \<or> tpv_Revision v = 0 \<or> \<not> validID (tpv_RunID v) \<or> \<not> validID (tpv_StepID v) \<or>
      \<not> validID (tpv_MessageID v) \<or> \<not> validID (tpv_ToolCallID v) \<or>
      \<not> validSafeIdentity (tpv_ToolKey v) MaxExtensionKeyBytes \<or> \<not> jsonvalue_Valid (tpv_Arguments v))
     ''hook: invalid tool preflight view''"

record ToolPreflightResult =
  tpr_Decision :: Decision
  tpr_Reason :: string

definition ToolPreflightResult_Validate :: "ToolPreflightResult \<Rightarrow> string option" where
  "ToolPreflightResult_Validate r = first_error
     [check (tpr_Decision r \<noteq> DecisionAllow \<and> tpr_Decision r \<noteq> DecisionDeny \<and> tpr_Decision r \<noteq> DecisionRequireApproval)
        ''hook: tool preflight decision must be allow, deny, or require_approval'',
      ValidateSafeReason (tpr_Reason r),
      check ((tpr_Decision r = DecisionDeny \<or> tpr_Decision r = DecisionRequireApproval) \<and> tpr_Reason r = '''')
        ''hook: restrictive tool preflight decision requires a reason'']"

section \<open>Tool result hook\<close>

record ToolResultScope =
  trs_All :: bool
  trs_ToolKeys :: "string list"
  trs_Statuses :: "ResultStatus list"

fun scopeStatuses_from :: "ResultStatus list \<Rightarrow> ResultStatus list \<Rightarrow> string option" where
  "scopeStatuses_from seen [] = None"
| "scopeStatuses_from seen (s # ss) = first_error
     [check (s \<noteq> ResultSucceeded \<and> s \<noteq> ResultFailed) ''hook: tool result scope status is not post-execution eligible'',
      check (s \<in> set seen) ''hook: tool result scope status is duplicated'',
      scopeStatuses_from (s # seen) ss]"

definition ToolResultScope_Validate :: "ToolResultScope \<Rightarrow> string option" where
  "ToolResultScope_Validate s = first_error
     [check (trs_All s \<and> trs_ToolKeys s \<noteq> []) ''hook: all-tools result scope cannot also name tool keys'',
      check (\<not> trs_All s \<and> (trs_ToolKeys s = [] \<or> length (trs_ToolKeys s) > 64))
        ''hook: tool result scope requires a bounded explicit key set'',
      scopeKeys_from ''tool result'' [] (trs_ToolKeys s),
      check (trs_Statuses s = [] \<or> length (trs_Statuses s) > 2) ''hook: tool result scope requires a finite terminal status set'',
      scopeStatuses_from [] (trs_Statuses s)]"

definition ToolResultScope_Matches :: "ToolResultScope \<Rightarrow> string \<Rightarrow> ResultStatus \<Rightarrow> bool" where
  "ToolResultScope_Matches s toolKey status \<longleftrightarrow>
     (trs_All s \<or> toolKey \<in> set (trs_ToolKeys s)) \<and> status \<in> set (trs_Statuses s)"

record ToolResultView =
  trv_InvocationID :: string
  trv_SessionID :: SessionID
  trv_AgentID :: AgentID
  trv_WorkspaceID :: WorkspaceID
  trv_Revision :: Revision
  trv_RunID :: RunID
  trv_StepID :: StepID
  trv_NextStepID :: StepID
  trv_MessageID :: MessageID
  trv_ToolCallID :: ToolCallID
  trv_ToolKey :: string
  trv_Arguments :: string
  trv_Result :: ToolResult

definition ToolResultView_Validate :: "ToolResultView \<Rightarrow> string option" where
  "ToolResultView_Validate v = check
     (\<not> InvocationID_Valid (trv_InvocationID v) \<or> \<not> validID (trv_SessionID v) \<or> \<not> validID (trv_AgentID v) \<or>
      \<not> validID (trv_WorkspaceID v) \<or> trv_Revision v = 0 \<or> \<not> validID (trv_RunID v) \<or> \<not> validID (trv_StepID v) \<or>
      \<not> validID (trv_NextStepID v) \<or> \<not> validID (trv_MessageID v) \<or> \<not> validID (trv_ToolCallID v) \<or>
      \<not> validSafeIdentity (trv_ToolKey v) MaxExtensionKeyBytes \<or> \<not> json_Valid (trv_Arguments v) \<or>
      ToolResult_Validate (trv_Result v) \<noteq> None \<or> res_CallID (trv_Result v) \<noteq> trv_ToolCallID v \<or>
      res_Status (trv_Result v) = ResultUnknown) ''hook: invalid tool result view''"

definition ToolResultHookResult_Validate :: "typed_fingerprint \<Rightarrow> Input list \<Rightarrow> SessionID \<Rightarrow> string option" where
  "ToolResultHookResult_Validate fpt context sessionID =
     map_option (\<lambda>e. ''hook: invalid tool result context: '' @ e) (validateContextProposal fpt context sessionID)"

section \<open>Completion gate\<close>

datatype CompletionDecision = CompletionComplete | CompletionContinue | CompletionDecision_other string

definition CompletionDecision_Valid :: "CompletionDecision \<Rightarrow> bool" where
  "CompletionDecision_Valid d \<longleftrightarrow> d = CompletionComplete \<or> d = CompletionContinue"

record CompletionGoalCandidate =
  cgc_GoalID :: string
  cgc_Version :: uint64

definition CompletionGoalCandidate_Validate :: "CompletionGoalCandidate \<Rightarrow> string option" where
  "CompletionGoalCandidate_Validate c = check
     (\<not> validSafeIdentity (cgc_GoalID c) MaxExtensionKeyBytes \<or> cgc_Version c = 0) ''hook: invalid completion goal candidate''"

record CompletionView =
  cv_InvocationID :: string
  cv_SessionID :: SessionID
  cv_AgentID :: AgentID
  cv_WorkspaceID :: WorkspaceID
  cv_Revision :: Revision
  cv_RunID :: RunID
  cv_StepID :: StepID
  cv_NextStepID :: StepID
  cv_LastAssistantMessage :: Message
  cv_Budget :: TokenBudget
  cv_FollowOns :: int
  cv_GoalCandidate :: "CompletionGoalCandidate option"

definition CompletionView_Validate :: "CompletionView \<Rightarrow> string option" where
  "CompletionView_Validate v = (let m = cv_LastAssistantMessage v in first_error
     [check (\<not> InvocationID_Valid (cv_InvocationID v) \<or> \<not> validID (cv_SessionID v) \<or> \<not> validID (cv_AgentID v) \<or>
             \<not> validID (cv_WorkspaceID v) \<or> cv_Revision v = 0 \<or> \<not> validID (cv_RunID v) \<or> \<not> validID (cv_StepID v) \<or>
             \<not> validID (cv_NextStepID v) \<or> cv_StepID v = cv_NextStepID v \<or> cv_FollowOns v < 0 \<or>
             TokenBudget_Validate (cv_Budget v) \<noteq> None \<or> \<not> Message_Valid m \<or> msg_SessionID m \<noteq> cv_SessionID v \<or>
             msg_RunID m \<noteq> cv_RunID v \<or> msg_StepID m \<noteq> cv_StepID v \<or> msg_Role m \<noteq> RoleAssistant \<or>
             msg_ClientMessageID m \<noteq> '''' \<or> msg_ModelContinuation m \<noteq> None \<or> \<not> IsZero (msg_CreatedAt m))
        ''hook: invalid completion view'',
      (case cv_GoalCandidate v of None \<Rightarrow> None | Some c \<Rightarrow> CompletionGoalCandidate_Validate c)])"

record CompletionGateResult =
  cgr_Decision :: CompletionDecision
  cgr_Reason :: string
  cgr_Context :: "Input list"

definition unbound_completion_input :: "CompletionView \<Rightarrow> Input \<Rightarrow> bool" where
  "unbound_completion_input view input \<longleftrightarrow>
     inp_SystemPrompt input \<noteq> None \<or> inp_ToolCall input \<noteq> None \<or> inp_ToolResult input \<noteq> None \<or>
     (case inp_Message input of None \<Rightarrow> True
      | Some m \<Rightarrow> msg_RunID m \<noteq> cv_RunID view \<or> msg_StepID m \<noteq> cv_NextStepID view \<or> msg_Role m \<noteq> RoleUser)"

definition CompletionGateResult_Validate ::
    "typed_fingerprint \<Rightarrow> CompletionGateResult \<Rightarrow> CompletionView \<Rightarrow> string option" where
  "CompletionGateResult_Validate fpt r view = first_error
     [check (\<not> CompletionDecision_Valid (cgr_Decision r)) ''hook: completion gate decision must be complete or continue'',
      ValidateSafeReason (cgr_Reason r),
      (if cgr_Decision r = CompletionComplete then
         check (cgr_Context r \<noteq> []) ''hook: completed gate cannot contribute context''
       else first_error
         [check (cgr_Context r = []) ''hook: continued gate requires context'',
          map_option (\<lambda>e. ''hook: invalid completion context: '' @ e)
            (validateContextProposal fpt (cgr_Context r) (cv_SessionID view)),
          check (\<exists>i \<in> set (cgr_Context r). unbound_completion_input view i)
            ''hook: completion context is not bound to the allocated next step''])]"

section \<open>Session lifecycle\<close>

datatype LifecyclePhase = LifecycleOpen | LifecycleClose | LifecyclePhase_other string

definition LifecyclePhase_Valid :: "LifecyclePhase \<Rightarrow> bool" where
  "LifecyclePhase_Valid p \<longleftrightarrow> p = LifecycleOpen \<or> p = LifecycleClose"

datatype OpenKind = OpenCreate | OpenResume | OpenFork | OpenSummary | OpenKind_other string

definition OpenKind_Valid :: "OpenKind \<Rightarrow> bool" where
  "OpenKind_Valid k \<longleftrightarrow> k = OpenCreate \<or> k = OpenResume \<or> k = OpenFork \<or> k = OpenSummary"

fun scopePhases_from :: "LifecyclePhase list \<Rightarrow> LifecyclePhase list \<Rightarrow> string option" where
  "scopePhases_from seen [] = None"
| "scopePhases_from seen (p # ps) = first_error
     [check (\<not> LifecyclePhase_Valid p) ''hook: lifecycle scope phase is invalid'',
      check (p \<in> set seen) ''hook: lifecycle scope phase is duplicated'',
      scopePhases_from (p # seen) ps]"

definition LifecycleScope_Validate :: "LifecyclePhase list \<Rightarrow> string option" where
  "LifecycleScope_Validate phases = first_error
     [check (phases = [] \<or> length phases > 2) ''hook: lifecycle scope requires a bounded phase set'',
      scopePhases_from [] phases]"

definition LifecycleScope_Matches :: "LifecyclePhase list \<Rightarrow> LifecyclePhase \<Rightarrow> bool" where
  "LifecycleScope_Matches phases p \<longleftrightarrow> p \<in> set phases"

record SessionLifecycleView =
  slv_InvocationID :: string
  slv_SessionID :: SessionID
  slv_AgentID :: AgentID
  slv_WorkspaceID :: WorkspaceID
  slv_Revision :: Revision
  slv_Phase :: LifecyclePhase
  slv_OpenKind :: OpenKind

definition SessionLifecycleView_Validate :: "SessionLifecycleView \<Rightarrow> string option" where
  "SessionLifecycleView_Validate v = first_error
     [check (\<not> InvocationID_Valid (slv_InvocationID v) \<or> \<not> validID (slv_SessionID v) \<or> \<not> validID (slv_AgentID v) \<or>
             \<not> validID (slv_WorkspaceID v) \<or> slv_Revision v = 0 \<or> \<not> LifecyclePhase_Valid (slv_Phase v))
        ''hook: invalid session lifecycle view'',
      (if slv_Phase v = LifecycleOpen then
         check (\<not> OpenKind_Valid (slv_OpenKind v)) ''hook: open lifecycle view requires an open kind''
       else check (slv_OpenKind v \<noteq> OpenKind_other '''') ''hook: close lifecycle view cannot carry an open kind'')]"

definition SessionLifecycleResult_Validate ::
    "typed_fingerprint \<Rightarrow> Input list \<Rightarrow> SessionLifecycleView \<Rightarrow> string option" where
  "SessionLifecycleResult_Validate fpt context view = first_error
     [SessionLifecycleView_Validate view,
      check (slv_Phase view = LifecycleClose \<and> context \<noteq> []) ''hook: close lifecycle result cannot contribute context'',
      map_option (\<lambda>e. ''hook: invalid session lifecycle context: '' @ e)
        (validateContextProposal fpt context (slv_SessionID view))]"

section \<open>Facts\<close>

lemma scopeKeys_from_None:
  "scopeKeys_from what seen ks = None \<longleftrightarrow>
     (\<forall>k \<in> set ks. validSafeIdentity k MaxExtensionKeyBytes) \<and> distinct ks \<and> set ks \<inter> set seen = {}"
  by (induction ks arbitrary: seen) auto

lemma scopeStatuses_from_None:
  "scopeStatuses_from seen ss = None \<longleftrightarrow>
     set ss \<subseteq> {ResultSucceeded, ResultFailed} \<and> distinct ss \<and> set ss \<inter> set seen = {}"
  by (induction ss arbitrary: seen) auto

lemma scopePhases_from_None:
  "scopePhases_from seen ps = None \<longleftrightarrow> (\<forall>p \<in> set ps. LifecyclePhase_Valid p) \<and> distinct ps \<and> set ps \<inter> set seen = {}"
  by (induction ps arbitrary: seen) auto

lemma validSafeIdentity_validID: "validSafeIdentity s n \<Longrightarrow> validID s"
  by (auto simp: validSafeIdentity_def validID_def split: if_splits)

end
