(* ===== verification/Extension_Journal.thy ===== *)
theory Extension_Journal
  imports Hook_Invocation
begin

text \<open>
  \<^verbatim>\<open>session/extension_journal.go\<close>: the durable record of one extension invocation, its validation, its
  transition discipline inside a Session aggregate, and the diagnostic page. The operations take the
  journal slice of the aggregate instead of the whole snapshot; \<open>fpt\<close> is the typed-input fingerprint.
\<close>

section \<open>Shared error constructors of the session package\<close>

definition invalid :: "string \<Rightarrow> string \<Rightarrow> ClassifiedError" where
  "invalid op message = NewError ErrorInvalidInput op message"

definition extensionConflict :: "string \<Rightarrow> ClassifiedError" where
  "extensionConflict message = NewCodedError ErrorConflict CodeJournalInvariant ''session.commit'' message"

section \<open>The journal entry\<close>

type_synonym ExtensionSequence = uint64

record ExtensionJournalEntry =
  xj_InvocationID :: string
  xj_Sequence :: ExtensionSequence
  xj_Descriptor :: ExtensionDescriptor
  xj_Boundary :: BoundaryKind
  xj_SessionID :: SessionID
  xj_RunID :: RunID
  xj_StepID :: StepID
  xj_TargetStepID :: StepID
  xj_MessageID :: MessageID
  xj_ToolCallID :: ToolCallID
  xj_GoalID :: string
  xj_GoalVersion :: uint64
  xj_LifecyclePhase :: LifecyclePhase
  xj_LifecycleOpenKind :: OpenKind
  xj_InputDigest :: string
  xj_PreparedRevision :: Revision
  xj_PreparedAt :: time
  xj_PendingAt :: time
  xj_FinishedAt :: time
  xj_Status :: InvocationStatus
  xj_Result :: "InvocationResult option"
  xj_ErrorCode :: ErrorCode
  xj_ErrorReason :: string
  xj_EffectDisposition :: EffectDisposition
  xj_ContextDisposition :: ContextDisposition
  xj_ContextInputs :: "Input list"
  xj_ContextDigest :: string
  xj_ContextBytes :: int

definition validateSubject :: "ExtensionJournalEntry \<Rightarrow> string option" where
  "validateSubject e = first_error
     [check ((xj_RunID e \<noteq> '''' \<and> \<not> validID (xj_RunID e)) \<or> (xj_StepID e \<noteq> '''' \<and> \<not> validID (xj_StepID e)) \<or>
             (xj_TargetStepID e \<noteq> '''' \<and> \<not> validID (xj_TargetStepID e)) \<or>
             (xj_MessageID e \<noteq> '''' \<and> \<not> validID (xj_MessageID e)) \<or>
             (xj_ToolCallID e \<noteq> '''' \<and> \<not> validID (xj_ToolCallID e)))
        ''session: extension subject identity is invalid'',
      (case xj_Boundary e of
         BoundaryInputGate \<Rightarrow> check
           (\<not> validID (xj_MessageID e) \<or> xj_RunID e \<noteq> '''' \<or> xj_StepID e \<noteq> '''' \<or> xj_TargetStepID e \<noteq> '''' \<or>
            xj_ToolCallID e \<noteq> '''' \<or> xj_GoalID e \<noteq> '''' \<or> xj_GoalVersion e \<noteq> 0)
           ''session: input gate subject is invalid''
       | BoundaryToolPreflight \<Rightarrow> first_error
           [check (\<not> validID (xj_RunID e) \<or> \<not> validID (xj_StepID e) \<or> \<not> validID (xj_ToolCallID e) \<or>
                   xj_GoalID e \<noteq> '''' \<or> xj_GoalVersion e \<noteq> 0) ''session: tool extension subject is incomplete'',
            check (xj_TargetStepID e \<noteq> '''') ''session: tool preflight cannot target a later step'']
       | BoundaryToolResult \<Rightarrow> check
           (\<not> validID (xj_RunID e) \<or> \<not> validID (xj_StepID e) \<or> \<not> validID (xj_TargetStepID e) \<or>
            \<not> validID (xj_ToolCallID e) \<or> xj_TargetStepID e = xj_StepID e \<or> xj_GoalID e \<noteq> '''' \<or> xj_GoalVersion e \<noteq> 0)
           ''session: tool result extension subject is incomplete''
       | BoundaryCompletion \<Rightarrow> check
           (\<not> validID (xj_RunID e) \<or> \<not> validID (xj_StepID e) \<or> \<not> validID (xj_TargetStepID e) \<or>
            xj_TargetStepID e = xj_StepID e \<or> \<not> validID (xj_MessageID e) \<or> xj_ToolCallID e \<noteq> '''' \<or>
            ((xj_GoalID e = '''') \<noteq> (xj_GoalVersion e = 0)) \<or>
            (xj_GoalID e \<noteq> '''' \<and> CompletionGoalCandidate_Validate
               \<lparr>cgc_GoalID = xj_GoalID e, cgc_Version = xj_GoalVersion e\<rparr> \<noteq> None))
           ''session: completion subject is invalid''
       | BoundarySessionLifecycle \<Rightarrow> check
           (xj_RunID e \<noteq> '''' \<or> xj_StepID e \<noteq> '''' \<or> xj_TargetStepID e \<noteq> '''' \<or> xj_MessageID e \<noteq> '''' \<or>
            xj_ToolCallID e \<noteq> '''' \<or> xj_GoalID e \<noteq> '''' \<or> xj_GoalVersion e \<noteq> 0 \<or>
            \<not> LifecyclePhase_Valid (xj_LifecyclePhase e) \<or>
            (xj_LifecyclePhase e = LifecycleOpen \<and> \<not> OpenKind_Valid (xj_LifecycleOpenKind e)) \<or>
            (xj_LifecyclePhase e = LifecycleClose \<and> xj_LifecycleOpenKind e \<noteq> OpenKind_other ''''))
           ''session: lifecycle subject must be Session-scoped''
       | BoundaryKind_other _ \<Rightarrow> check
           (xj_LifecyclePhase e \<noteq> LifecyclePhase_other '''' \<or> xj_LifecycleOpenKind e \<noteq> OpenKind_other '''')
           ''session: non-lifecycle extension carries lifecycle identity'')]"

definition validateBoundaryResult :: "ExtensionJournalEntry \<Rightarrow> InvocationResult \<Rightarrow> string option" where
  "validateBoundaryResult e r =
     (let hasContext = xj_ContextDisposition e \<noteq> ContextNone; d = ires_Decision r in
      case xj_Boundary e of
        BoundaryInputGate \<Rightarrow> first_error
          [check (d \<noteq> DecisionAccept \<and> d \<noteq> DecisionReject) ''session: input gate result has an invalid decision'',
           check (d = DecisionReject \<and> hasContext) ''session: rejected input cannot contribute context'']
      | BoundaryToolPreflight \<Rightarrow> first_error
          [check (d \<noteq> DecisionAllow \<and> d \<noteq> DecisionDeny \<and> d \<noteq> DecisionRequireApproval)
             ''session: tool preflight result has an invalid decision'',
           check hasContext ''session: tool preflight cannot contribute context'']
      | BoundaryToolResult \<Rightarrow> check (d \<noteq> DecisionNone) ''session: context-only extension cannot persist a decision''
      | BoundarySessionLifecycle \<Rightarrow> check (d \<noteq> DecisionNone) ''session: context-only extension cannot persist a decision''
      | BoundaryCompletion \<Rightarrow> first_error
          [check (d \<noteq> DecisionComplete \<and> d \<noteq> DecisionContinue) ''session: completion result has an invalid decision'',
           check ((d = DecisionContinue) \<noteq> hasContext) ''session: completion continuation and context must agree'']
      | BoundaryKind_other _ \<Rightarrow> None)"

definition validExtensionErrorCode :: "string \<Rightarrow> bool" where
  "validExtensionErrorCode value =
     (if value = '''' \<or> length value > 128 \<or> \<not> utf8_ValidString value \<or> TrimSpace value \<noteq> value then False
      else \<not> (\<exists>r \<in> set (runes value). unicode_IsControl r \<or> unicode_IsSpace r \<or> unicode_In_CfZlZp r))"

definition validateStatusShape :: "ExtensionJournalEntry \<Rightarrow> string option" where
  "validateStatusShape e =
     (if xj_Status e = InvocationPrepared then
        check (\<not> IsZero (xj_PendingAt e) \<or> \<not> IsZero (xj_FinishedAt e) \<or> xj_Result e \<noteq> None \<or> xj_ErrorCode e \<noteq> '''' \<or>
               xj_ErrorReason e \<noteq> '''' \<or> xj_EffectDisposition e \<noteq> EffectNone)
          ''session: prepared extension carries execution outcome''
      else if xj_Status e = InvocationPending then
        check (IsZero (xj_PendingAt e) \<or> \<not> IsZero (xj_FinishedAt e) \<or> xj_Result e \<noteq> None \<or> xj_ErrorCode e \<noteq> '''' \<or>
               xj_ErrorReason e \<noteq> '''' \<or> xj_EffectDisposition e \<noteq> EffectNone)
          ''session: pending extension shape is invalid''
      else first_error
        [check (IsZero (xj_FinishedAt e) \<or> xj_EffectDisposition e = EffectNone)
           ''session: terminal extension requires finished time and effect disposition'',
         (if xj_Status e = InvocationSucceeded then
            (case xj_Result e of
               None \<Rightarrow> Some ''session: succeeded extension result is invalid''
             | Some r \<Rightarrow> first_error
                 [check (xj_ErrorCode e \<noteq> '''' \<or> xj_ErrorReason e \<noteq> '''') ''session: succeeded extension result is invalid'',
                  InvocationResult_Validate r,
                  validateBoundaryResult e r])
          else check (xj_Result e \<noteq> None \<or> \<not> validExtensionErrorCode (xj_ErrorCode e))
            ''session: unsuccessful extension requires a safe error code and no result'')])"

definition validateExtensionContextInputs :: "Input list \<Rightarrow> SessionID \<Rightarrow> string option" where
  "validateExtensionContextInputs inputs sessionID = first_error
     [check (\<exists>i \<in> set inputs. foreign_input sessionID i) ''session: invalid extension context input'',
      check (ValidateInputs inputs \<noteq> None) ''session: extension context violates the model protocol'']"

definition unbound_target_input :: "ExtensionJournalEntry \<Rightarrow> Input \<Rightarrow> bool" where
  "unbound_target_input e input \<longleftrightarrow>
     inp_SystemPrompt input \<noteq> None \<or> inp_ToolCall input \<noteq> None \<or> inp_ToolResult input \<noteq> None \<or>
     (case inp_Message input of None \<Rightarrow> True
      | Some m \<Rightarrow> msg_RunID m \<noteq> xj_RunID e \<or> msg_StepID m \<noteq> xj_TargetStepID e \<or> msg_Role m \<noteq> RoleUser)"

definition validateContext_x :: "typed_fingerprint \<Rightarrow> ExtensionJournalEntry \<Rightarrow> SessionID \<Rightarrow> string option" where
  "validateContext_x fpt e sessionID = (case xj_ContextDisposition e of
      ContextNone \<Rightarrow> check (xj_ContextInputs e \<noteq> [] \<or> xj_ContextDigest e \<noteq> '''' \<or> xj_ContextBytes e \<noteq> 0)
        ''session: context-free extension carries context metadata''
    | ContextPending \<Rightarrow> first_error
        [check (xj_Status e \<noteq> InvocationSucceeded \<or>
                (xj_EffectDisposition e \<noteq> EffectPending \<and> xj_EffectDisposition e \<noteq> EffectApplied) \<or>
                xj_ContextInputs e = [] \<or> length (xj_ContextInputs e) > MaxContextInputs)
           ''session: pending extension context is not attached to a successful effect'',
         validateExtensionContextInputs (xj_ContextInputs e) sessionID,
         check ((xj_Boundary e = BoundaryToolResult \<or> xj_Boundary e = BoundaryCompletion) \<and>
                (\<exists>i \<in> set (xj_ContextInputs e). unbound_target_input e i))
           ''session: extension context is not bound to its exact target step'',
         check (case fpt (xj_ContextInputs e) of None \<Rightarrow> True
                | Some (digest, bytes) \<Rightarrow> digest \<noteq> xj_ContextDigest e \<or> bytes \<noteq> xj_ContextBytes e \<or> bytes > MaxContextBytes)
           ''session: extension context fingerprint is invalid'']
    | ContextConsumed \<Rightarrow> first_error
        [check (xj_ContextInputs e \<noteq> [] \<or> \<not> ValidDigest (xj_ContextDigest e) \<or> xj_ContextBytes e \<le> 0)
           ''session: terminal context disposition must retain only its fingerprint'',
         check (xj_EffectDisposition e \<noteq> EffectApplied) ''session: consumed context requires applied effect'']
    | ContextDiscarded \<Rightarrow> first_error
        [check (xj_ContextInputs e \<noteq> [] \<or> \<not> ValidDigest (xj_ContextDigest e) \<or> xj_ContextBytes e \<le> 0)
           ''session: terminal context disposition must retain only its fingerprint'',
         check (xj_EffectDisposition e \<noteq> EffectApplied \<and> xj_EffectDisposition e \<noteq> EffectDiscarded)
           ''session: discarded context requires a finalized effect'']
    | ContextDisp_other _ \<Rightarrow> None)"

definition ExtensionJournalEntry_Validate ::
    "typed_fingerprint \<Rightarrow> ExtensionJournalEntry \<Rightarrow> SessionID \<Rightarrow> string option" where
  "ExtensionJournalEntry_Validate fpt e sessionID = first_error
     [check (\<not> InvocationID_Valid (xj_InvocationID e) \<or> xj_Sequence e = 0 \<or> xj_SessionID e \<noteq> sessionID \<or> \<not> validID sessionID)
        ''session: extension journal identity is invalid'',
      ExtensionDescriptor_Validate (xj_Descriptor e),
      check (\<not> BoundaryKind_Valid (xj_Boundary e) \<or> \<not> InvocationStatus_Valid (xj_Status e) \<or>
             \<not> EffectDisposition_Valid (xj_EffectDisposition e) \<or> \<not> ContextDisposition_Valid (xj_ContextDisposition e) \<or>
             \<not> ValidDigest (xj_InputDigest e)) ''session: extension journal vocabulary is invalid'',
      validateSubject e,
      check (xj_Boundary e \<in> {BoundaryToolPreflight, BoundaryToolResult, BoundaryCompletion, BoundarySessionLifecycle} \<and>
             xj_PreparedRevision e = 0) ''session: execution-boundary extension requires its prepared revision'',
      check (IsZero (xj_PreparedAt e)) ''session: extension journal requires prepared time'',
      check (\<not> IsZero (xj_PendingAt e) \<and> xj_PendingAt e < xj_PreparedAt e)
        ''session: extension pending time precedes prepared time'',
      check (\<not> IsZero (xj_FinishedAt e) \<and> (xj_FinishedAt e < xj_PreparedAt e \<or>
               (\<not> IsZero (xj_PendingAt e) \<and> xj_FinishedAt e < xj_PendingAt e)))
        ''session: extension finished time is inconsistent'',
      ValidateSafeReason (xj_ErrorReason e),
      validateStatusShape e,
      validateContext_x fpt e sessionID]"

section \<open>Transitions\<close>

definition sameExtensionIdentity :: "ExtensionJournalEntry \<Rightarrow> ExtensionJournalEntry \<Rightarrow> bool" where
  "sameExtensionIdentity left right \<longleftrightarrow>
     xj_InvocationID left = xj_InvocationID right \<and> xj_Sequence left = xj_Sequence right \<and>
     xj_Descriptor left = xj_Descriptor right \<and> xj_Boundary left = xj_Boundary right \<and>
     xj_SessionID left = xj_SessionID right \<and> xj_RunID left = xj_RunID right \<and> xj_StepID left = xj_StepID right \<and>
     xj_TargetStepID left = xj_TargetStepID right \<and> xj_MessageID left = xj_MessageID right \<and>
     xj_ToolCallID left = xj_ToolCallID right \<and> xj_GoalID left = xj_GoalID right \<and>
     xj_GoalVersion left = xj_GoalVersion right \<and> xj_LifecyclePhase left = xj_LifecyclePhase right \<and>
     xj_LifecycleOpenKind left = xj_LifecycleOpenKind right \<and> xj_InputDigest left = xj_InputDigest right \<and>
     xj_PreparedRevision left = xj_PreparedRevision right \<and> xj_PreparedAt left = xj_PreparedAt right"

definition sameExtensionTerminalOutcome :: "ExtensionJournalEntry \<Rightarrow> ExtensionJournalEntry \<Rightarrow> bool" where
  "sameExtensionTerminalOutcome left right \<longleftrightarrow>
     xj_PendingAt left = xj_PendingAt right \<and> xj_FinishedAt left = xj_FinishedAt right \<and>
     xj_Result left = xj_Result right \<and> xj_ErrorCode left = xj_ErrorCode right \<and>
     xj_ErrorReason left = xj_ErrorReason right \<and> xj_ContextDigest left = xj_ContextDigest right \<and>
     xj_ContextBytes left = xj_ContextBytes right"

definition effectTransition :: "EffectDisposition \<Rightarrow> EffectDisposition \<Rightarrow> ClassifiedError option" where
  "effectTransition current next = (case current of
      EffectPending \<Rightarrow> check (next \<noteq> EffectPending \<and> next \<noteq> EffectApplied \<and> next \<noteq> EffectDiscarded)
        (extensionConflict ''pending extension effect has an invalid transition'')
    | EffectApplied \<Rightarrow> check (next \<noteq> current) (extensionConflict ''finalized extension effect is immutable'')
    | EffectDiscarded \<Rightarrow> check (next \<noteq> current) (extensionConflict ''finalized extension effect is immutable'')
    | _ \<Rightarrow> Some (extensionConflict ''terminal extension effect is invalid''))"

definition contextTransition :: "ExtensionJournalEntry \<Rightarrow> ExtensionJournalEntry \<Rightarrow> ClassifiedError option" where
  "contextTransition current next = (case xj_ContextDisposition current of
      ContextNone \<Rightarrow> check (xj_ContextDisposition next \<noteq> ContextNone)
        (extensionConflict ''context-free extension cannot acquire context'')
    | ContextPending \<Rightarrow> first_error
        [check (xj_ContextDisposition next \<noteq> ContextPending \<and> xj_ContextDisposition next \<noteq> ContextConsumed \<and>
                xj_ContextDisposition next \<noteq> ContextDiscarded)
           (extensionConflict ''pending extension context has an invalid transition''),
         check (xj_ContextDisposition next = ContextPending \<and> xj_ContextInputs current \<noteq> xj_ContextInputs next)
           (extensionConflict ''pending extension context inputs are immutable'')]
    | ContextConsumed \<Rightarrow> check (xj_ContextDisposition next \<noteq> ContextConsumed)
        (extensionConflict ''finalized extension context is immutable'')
    | ContextDiscarded \<Rightarrow> check (xj_ContextDisposition next \<noteq> ContextDiscarded)
        (extensionConflict ''finalized extension context is immutable'')
    | ContextDisp_other _ \<Rightarrow> None)"

definition validateExtensionTransition ::
    "ExtensionJournalEntry \<Rightarrow> ExtensionJournalEntry \<Rightarrow> ClassifiedError option" where
  "validateExtensionTransition current next =
     (if xj_Status current = InvocationPrepared then first_error
        [check (xj_Status next \<noteq> InvocationPending \<and> xj_Status next \<noteq> InvocationFailed \<and> xj_Status next \<noteq> InvocationCanceled)
           (extensionConflict ''prepared extension may only become pending, failed, or canceled''),
         check (\<not> IsZero (xj_PendingAt next) \<and> xj_Status next \<noteq> InvocationPending)
           (extensionConflict ''direct terminal extension cannot invent a pending boundary''),
         check (xj_Status next = InvocationFailed \<and> xj_EffectDisposition next \<noteq> EffectPending)
           (extensionConflict ''failed extension outcome must await effect application''),
         check (xj_Status next = InvocationCanceled \<and> xj_EffectDisposition next \<noteq> EffectDiscarded)
           (extensionConflict ''administratively canceled extension must discard its effect'')]
      else if xj_Status current = InvocationPending then first_error
        [check (\<not> InvocationStatus_Terminal (xj_Status next))
           (extensionConflict ''pending extension requires a terminal outcome''),
         check (xj_PendingAt next \<noteq> xj_PendingAt current \<or> xj_EffectDisposition next \<noteq> EffectPending)
           (extensionConflict ''pending identity is immutable and terminal effect must await application'')]
      else first_error
        [check (xj_Status next \<noteq> xj_Status current \<or> \<not> sameExtensionTerminalOutcome current next)
           (extensionConflict ''terminal extension outcome is immutable''),
         effectTransition (xj_EffectDisposition current) (xj_EffectDisposition next),
         contextTransition current next,
         check (xj_EffectDisposition current = xj_EffectDisposition next \<and>
                xj_ContextDisposition current = xj_ContextDisposition next)
           (extensionConflict ''terminal extension disposition did not advance'')])"

text \<open>
  \<^verbatim>\<open>int(next.Sequence) - 1\<close> is the signed reading of the wrapped 64-bit difference; a sequence beyond
  the slice, also one that reads negative, is not contiguous.
\<close>

definition applyExtensionJournal :: "typed_fingerprint \<Rightarrow> SessionID \<Rightarrow> ExtensionJournalEntry list \<Rightarrow>
    ExtensionJournalEntry \<Rightarrow> ClassifiedError + ExtensionJournalEntry list" where
  "applyExtensionJournal fpt sessionID journal next =
     (case ExtensionJournalEntry_Validate fpt next sessionID of
        Some e \<Rightarrow> Inl (invalid ''session.commit'' e)
      | None \<Rightarrow>
          let index = sint (xj_Sequence next - 1) in
          if index = int (length journal) then
            if xj_Status next \<noteq> InvocationPrepared \<or> xj_Sequence next \<noteq> word_of_nat (length journal + 1) then
              Inl (extensionConflict ''new extension invocation must append the next prepared sequence'')
            else if \<exists>existing \<in> set journal. xj_InvocationID existing = xj_InvocationID next then
              Inl (extensionConflict ''extension invocation ID is already assigned'')
            else Inr (journal @ [next])
          else if index < 0 \<or> index \<ge> int (length journal) then
            Inl (extensionConflict ''extension sequence is not contiguous'')
          else let current = journal ! nat index in
            if \<not> sameExtensionIdentity current next then
              Inl (extensionConflict ''extension update changed immutable invocation identity'')
            else guardE (validateExtensionTransition current next) (Inr (journal[nat index := next])))"

section \<open>Diagnostics\<close>

record ExtensionDiagnostic =
  xd_InvocationID :: string
  xd_Sequence :: ExtensionSequence
  xd_Descriptor :: ExtensionDescriptor
  xd_Boundary :: BoundaryKind
  xd_SessionID :: SessionID
  xd_RunID :: RunID
  xd_StepID :: StepID
  xd_TargetStepID :: StepID
  xd_MessageID :: MessageID
  xd_ToolCallID :: ToolCallID
  xd_LifecyclePhase :: LifecyclePhase
  xd_LifecycleOpenKind :: OpenKind
  xd_InputDigest :: string
  xd_PreparedRevision :: Revision
  xd_PreparedAt :: time
  xd_PendingAt :: time
  xd_FinishedAt :: time
  xd_Status :: InvocationStatus
  xd_Decision :: Decision
  xd_Reason :: string
  xd_ErrorCode :: ErrorCode
  xd_ErrorReason :: string
  xd_Effect :: EffectDisposition
  xd_Context :: ContextDisposition
  xd_ContextDigest :: string
  xd_ContextBytes :: int

definition Diagnostic :: "ExtensionJournalEntry \<Rightarrow> ExtensionDiagnostic" where
  "Diagnostic e =
     \<lparr>xd_InvocationID = xj_InvocationID e, xd_Sequence = xj_Sequence e, xd_Descriptor = xj_Descriptor e,
      xd_Boundary = xj_Boundary e, xd_SessionID = xj_SessionID e, xd_RunID = xj_RunID e, xd_StepID = xj_StepID e,
      xd_TargetStepID = xj_TargetStepID e, xd_MessageID = xj_MessageID e, xd_ToolCallID = xj_ToolCallID e,
      xd_LifecyclePhase = xj_LifecyclePhase e, xd_LifecycleOpenKind = xj_LifecycleOpenKind e,
      xd_InputDigest = xj_InputDigest e, xd_PreparedRevision = xj_PreparedRevision e, xd_PreparedAt = xj_PreparedAt e,
      xd_PendingAt = xj_PendingAt e, xd_FinishedAt = xj_FinishedAt e, xd_Status = xj_Status e,
      xd_Decision = (case xj_Result e of None \<Rightarrow> DecisionNone | Some r \<Rightarrow> ires_Decision r),
      xd_Reason = (case xj_Result e of None \<Rightarrow> '''' | Some r \<Rightarrow> ires_Reason r),
      xd_ErrorCode = xj_ErrorCode e, xd_ErrorReason = xj_ErrorReason e, xd_Effect = xj_EffectDisposition e,
      xd_Context = xj_ContextDisposition e, xd_ContextDigest = xj_ContextDigest e, xd_ContextBytes = xj_ContextBytes e\<rparr>"

record ExtensionPageRequest =
  xpr_SessionID :: SessionID
  xpr_BeforeExtensionSequence :: ExtensionSequence
  xpr_Limit :: int

record ExtensionPage =
  xp_AgentID :: AgentID
  xp_WorkspaceID :: WorkspaceID
  xp_Revision :: Revision
  xp_Diagnostics :: "ExtensionDiagnostic list"
  xp_HasMore :: bool

abbreviation (input) "DefaultExtensionPageLimit \<equiv> (50 :: int)"
abbreviation (input) "MaxExtensionPageLimit \<equiv> (100 :: int)"

text \<open>\<^verbatim>\<open>sort.Search\<close>: binary search for the least index in \<open>[lo, hi)\<close> at which the predicate holds.\<close>

function sort_Search :: "(nat \<Rightarrow> bool) \<Rightarrow> nat \<Rightarrow> nat \<Rightarrow> nat" where
  "sort_Search f lo hi =
     (if lo < hi then
        let h = (lo + hi) div 2 in
        if \<not> f h then sort_Search f (h + 1) hi else sort_Search f lo h
      else lo)"
  by pat_completeness auto
termination by (relation "measure (\<lambda>(f, lo, hi). hi - lo)") auto

declare sort_Search.simps [simp del]

definition extensionPage :: "ExtensionJournalEntry list \<Rightarrow> ExtensionPageRequest \<Rightarrow> ClassifiedError + ExtensionPage" where
  "extensionPage entries request =
     (let op = ''session.extension_diagnostics'';
          limit = (if xpr_Limit request = 0 then DefaultExtensionPageLimit else xpr_Limit request) in
      if \<not> validID (xpr_SessionID request) then Inl (invalid op ''session ID is required'')
      else if limit < 1 \<or> limit > MaxExtensionPageLimit then
        Inl (invalid op ''limit must be between 1 and 100'')
      else
        let start = (if xpr_BeforeExtensionSequence request \<noteq> 0 then
                       sort_Search (\<lambda>i. xj_Sequence (entries ! i) \<ge> xpr_BeforeExtensionSequence request) 0 (length entries)
                     else length entries);
            diagnostics = map Diagnostic (take (nat limit) (rev (take start entries))) in
        Inr \<lparr>xp_AgentID = '''', xp_WorkspaceID = '''', xp_Revision = 0, xp_Diagnostics = diagnostics,
             xp_HasMore = start - length diagnostics > 0\<rparr>)"

end
