(* ===== verification/Session_Contracts.thy ===== *)
theory Session_Contracts
  imports Extension_Journal
begin

text \<open>
  \<^verbatim>\<open>session/contracts.go\<close>: the History vocabulary, the queue, the run journal, the aggregate snapshot,
  and the typed changes of a commit with their validation. A struct with one optional payload per kind
  is a record with one option field per payload, as in the source. History sequences are natural
  numbers (they are slice lengths); revisions and context versions are 64-bit words.
\<close>

type_synonym HistorySequence = nat
type_synonym ContextVersion = uint64

section \<open>Run facts\<close>

datatype RunFactKind = RunStarted | RunCompleted | RunCanceled | RunFailed | RunInterrupted | RunFactKind_other string

definition RunFactKind_Valid :: "RunFactKind \<Rightarrow> bool" where
  "RunFactKind_Valid k = (case k of RunFactKind_other _ \<Rightarrow> False | _ \<Rightarrow> True)"

datatype TerminationSource =
    TerminationModel | TerminationContext | TerminationLoop | TerminationTool | TerminationPolicy | TerminationBudget
  | TerminationSession | TerminationRuntime | TerminationExtension | TerminationSource_other string

definition TerminationSource_Valid :: "TerminationSource \<Rightarrow> bool" where
  "TerminationSource_Valid s = (case s of TerminationSource_other _ \<Rightarrow> False | _ \<Rightarrow> True)"

record RunTermination =
  term_Source :: TerminationSource
  term_Kind :: ErrorKind
  term_Code :: ErrorCode
  term_SafeMessage :: string

abbreviation (input) "MaxRunTerminationMessageBytes \<equiv> (1024 :: nat)"

definition RunTermination_Validate :: "RunTermination \<Rightarrow> string option" where
  "RunTermination_Validate t = first_error
     [check (\<not> TerminationSource_Valid (term_Source t) \<or> \<not> ErrorKind_Valid (term_Kind t) \<or> term_Code t = '''')
        ''session: invalid run termination classification'',
      (if term_SafeMessage t = '''' then None
       else first_error
         [check (length (term_SafeMessage t) > MaxRunTerminationMessageBytes \<or> \<not> utf8_ValidString (term_SafeMessage t) \<or>
                 TrimSpace (term_SafeMessage t) \<noteq> term_SafeMessage t)
            ''session: run termination message must be bounded, valid UTF-8, and trimmed'',
          check (\<exists>r \<in> set (runes (term_SafeMessage t)). unsafe_rune r)
            ''session: run termination message must be a single safe display line''])]"

record RunFact =
  run_SessionID :: SessionID
  run_RunID :: RunID
  run_Kind :: RunFactKind
  run_ModelConfig :: Config
  run_ConfigRevision :: Revision
  run_LegacyCompletionMode :: string
  run_Termination :: "RunTermination option"

definition RunFact_Validate :: "RunFact \<Rightarrow> SessionID \<Rightarrow> string option" where
  "RunFact_Validate f sessionID = first_error
     [check (run_SessionID f \<noteq> sessionID \<or> \<not> validID (run_RunID f) \<or> \<not> RunFactKind_Valid (run_Kind f))
        ''session: run fact containment is invalid'',
      map_option (\<lambda>e. ''session: run fact model config is invalid: '' @ e) (Config_Validate (run_ModelConfig f)),
      check (run_LegacyCompletionMode f \<noteq> '''' \<and>
             (run_Kind f \<noteq> RunCompleted \<or> run_LegacyCompletionMode f \<noteq> ''attempt_limit_finalization''))
        (''session: invalid legacy run completion mode '' @ run_LegacyCompletionMode f),
      (if run_Kind f = RunStarted \<or> run_Kind f = RunCompleted then
         check (run_Termination f \<noteq> None) ''session: successful or started run cannot contain a termination''
       else (case run_Termination f of None \<Rightarrow> None | Some t \<Rightarrow> RunTermination_Validate t))]"

section \<open>Attempts, contributions and limits\<close>

datatype ModelAttemptKind =
  Attempt_Started | Attempt_Succeeded | Attempt_Failed | Attempt_Canceled | Attempt_OutcomeUnknown | AttemptKind_other string

definition ModelAttemptKind_Valid :: "ModelAttemptKind \<Rightarrow> bool" where
  "ModelAttemptKind_Valid k = (case k of AttemptKind_other _ \<Rightarrow> False | _ \<Rightarrow> True)"

record ModelAttemptFact =
  att_AttemptID :: AttemptID
  att_RunID :: RunID
  att_StepID :: StepID
  att_Kind :: ModelAttemptKind
  att_ProviderKey :: string
  att_ModelID :: string
  att_ProviderRequestID :: string
  att_Usage :: TokenUsage
  att_ErrorCode :: string
  att_ErrorMessage :: string

definition ModelAttemptFact_Validate :: "ModelAttemptFact \<Rightarrow> string option" where
  "ModelAttemptFact_Validate f = first_error
     [check (\<not> validID (att_AttemptID f) \<or> \<not> validID (att_RunID f) \<or> \<not> validID (att_StepID f) \<or>
             \<not> ModelAttemptKind_Valid (att_Kind f) \<or> att_ModelID f = '''') ''session: invalid model attempt fact'',
      TokenUsage_Validate (att_Usage f),
      ValidateErrorMessage (att_ErrorMessage f),
      check (att_Kind f = Attempt_Started \<and> (att_Usage f \<noteq> zero_usage \<or> att_ProviderRequestID f \<noteq> '''' \<or>
               att_ErrorCode f \<noteq> '''' \<or> att_ErrorMessage f \<noteq> ''''))
        ''session: started attempt cannot contain terminal outcome'',
      check (att_Kind f \<noteq> Attempt_Started \<and> att_Kind f \<noteq> Attempt_Succeeded \<and> att_ErrorCode f = '''')
        ''session: unsuccessful attempt requires a safe error code'',
      check (att_Kind f = Attempt_Succeeded \<and> (att_ErrorCode f \<noteq> '''' \<or> att_ErrorMessage f \<noteq> ''''))
        ''session: succeeded attempt cannot contain an error'']"

record ContextContributionFact =
  ctr_RunID :: RunID
  ctr_StepID :: StepID
  ctr_SourceKey :: string
  ctr_Inputs :: "Input list"

definition ContextContributionFact_Validate :: "ContextContributionFact \<Rightarrow> SessionID \<Rightarrow> string option" where
  "ContextContributionFact_Validate f sessionID = first_error
     [check (\<not> validID (ctr_RunID f) \<or> \<not> validID (ctr_StepID f) \<or> ctr_SourceKey f = '''')
        ''session: invalid context contribution fact'',
      check (\<exists>i \<in> set (ctr_Inputs f). foreign_input sessionID i) ''session: invalid context contribution input'']"

record RunBudgetExceededFact =
  bex_RunID :: RunID
  bex_UsedTokens :: int64
  bex_MaxTokens :: int64

definition RunBudgetExceededFact_Validate :: "RunBudgetExceededFact \<Rightarrow> string option" where
  "RunBudgetExceededFact_Validate f = check
     (\<not> validID (bex_RunID f) \<or> sle (bex_MaxTokens f) 0 \<or> slt (bex_UsedTokens f) (bex_MaxTokens f))
     ''session: invalid run budget fact''"

datatype RunLimitKind = RunLimitModelAttempts | RunLimitToolCalls | RunLimitKind_other string

definition RunLimitKind_Valid :: "RunLimitKind \<Rightarrow> bool" where
  "RunLimitKind_Valid k \<longleftrightarrow> k = RunLimitModelAttempts \<or> k = RunLimitToolCalls"

record RunLimitExceededFact =
  lim_RunID :: RunID
  lim_StepID :: StepID
  lim_Kind :: RunLimitKind
  lim_Used :: int64
  lim_Max :: int64
  lim_Requested :: int64
  lim_TriggerAttemptID :: AttemptID
  lim_TriggerToolCallID :: ToolCallID

definition RunLimitExceededFact_Validate :: "RunLimitExceededFact \<Rightarrow> string option" where
  "RunLimitExceededFact_Validate f = first_error
     [check (\<not> validID (lim_RunID f) \<or> \<not> validID (lim_StepID f) \<or> \<not> RunLimitKind_Valid (lim_Kind f) \<or>
             slt (lim_Used f) 0 \<or> sle (lim_Max f) 0 \<or> sle (lim_Requested f) 0) ''session: invalid run limit fact'',
      check (slt (lim_Used f) (lim_Max f) \<and> sle (lim_Requested f) (lim_Max f - lim_Used f))
        ''session: run limit fact does not exceed its maximum'',
      (case lim_Kind f of
         RunLimitModelAttempts \<Rightarrow> check (\<not> validID (lim_TriggerAttemptID f) \<or> lim_TriggerToolCallID f \<noteq> '''')
           ''session: model attempt limit requires only an attempt trigger''
       | RunLimitToolCalls \<Rightarrow> check (\<not> validID (lim_TriggerToolCallID f) \<or> lim_TriggerAttemptID f \<noteq> '''')
           ''session: tool call limit requires only a tool call trigger''
       | RunLimitKind_other _ \<Rightarrow> None)]"

section \<open>Session events\<close>

record ModelConfigChange =
  mcc_Previous :: Config
  mcc_Current :: Config

datatype SessionEventKind = EventModelConfigChanged | SessionEventKind_other string

record SessionEvent =
  sev_Kind :: SessionEventKind
  sev_Revision :: Revision
  sev_ModelConfigChanged :: "ModelConfigChange option"

definition SessionEvent_Validate :: "SessionEvent \<Rightarrow> string option" where
  "SessionEvent_Validate e = (case sev_ModelConfigChanged e of
      None \<Rightarrow> Some ''session: invalid Session event''
    | Some c \<Rightarrow> first_error
        [check (sev_Kind e \<noteq> EventModelConfigChanged) ''session: invalid Session event'',
         map_option (\<lambda>m. ''session: invalid previous model config: '' @ m) (Config_Validate (mcc_Previous c)),
         map_option (\<lambda>m. ''session: invalid current model config: '' @ m) (Config_Validate (mcc_Current c))])"

section \<open>History facts\<close>

datatype HistoryFactKind =
    FactMessage | FactToolCall | FactToolResult | FactRun | FactModelAttempt | FactModelConfigChanged
  | FactContextContribution | FactRunBudgetExceeded | FactRunLimitExceeded | HistoryFactKind_other string

record HistoryFact =
  fact_FactID :: FactID
  fact_OriginFactID :: FactID
  fact_Sequence :: HistorySequence
  fact_SessionID :: SessionID
  fact_RunID :: RunID
  fact_StepID :: StepID
  fact_At :: time
  fact_Actor :: ActorIdentity
  fact_Kind :: HistoryFactKind
  fact_Message :: "Message option"
  fact_ToolCall :: "ToolCall option"
  fact_ToolResult :: "ToolResult option"
  fact_Run :: "RunFact option"
  fact_ModelAttempt :: "ModelAttemptFact option"
  fact_ModelConfigChanged :: "ModelConfigChange option"
  fact_ContextContribution :: "ContextContributionFact option"
  fact_RunBudgetExceeded :: "RunBudgetExceededFact option"
  fact_RunLimitExceeded :: "RunLimitExceededFact option"

definition zero_fact :: HistoryFact where
  "zero_fact = \<lparr>fact_FactID = '''', fact_OriginFactID = '''', fact_Sequence = 0, fact_SessionID = '''', fact_RunID = '''',
     fact_StepID = '''', fact_At = 0, fact_Actor = zero_actor, fact_Kind = HistoryFactKind_other '''', fact_Message = None,
     fact_ToolCall = None, fact_ToolResult = None, fact_Run = None, fact_ModelAttempt = None, fact_ModelConfigChanged = None,
     fact_ContextContribution = None, fact_RunBudgetExceeded = None, fact_RunLimitExceeded = None\<rparr>"

definition payloadKind :: "HistoryFact \<Rightarrow> HistoryFactKind" where
  "payloadKind f =
     (if fact_Message f \<noteq> None then FactMessage
      else if fact_ToolCall f \<noteq> None then FactToolCall
      else if fact_ToolResult f \<noteq> None then FactToolResult
      else if fact_Run f \<noteq> None then FactRun
      else if fact_ModelAttempt f \<noteq> None then FactModelAttempt
      else if fact_ModelConfigChanged f \<noteq> None then FactModelConfigChanged
      else if fact_ContextContribution f \<noteq> None then FactContextContribution
      else if fact_RunBudgetExceeded f \<noteq> None then FactRunBudgetExceeded
      else if fact_RunLimitExceeded f \<noteq> None then FactRunLimitExceeded
      else HistoryFactKind_other '''')"

definition fact_payloads :: "HistoryFact \<Rightarrow> nat" where
  "fact_payloads f = present (fact_Message f) + present (fact_ToolCall f) + present (fact_ToolResult f) +
     present (fact_Run f) + present (fact_ModelAttempt f) + present (fact_ModelConfigChanged f) +
     present (fact_ContextContribution f) + present (fact_RunBudgetExceeded f) + present (fact_RunLimitExceeded f)"

definition validatePayload :: "HistoryFact \<Rightarrow> SessionID \<Rightarrow> string option" where
  "validatePayload f sessionID =
     (if fact_payloads f \<noteq> 1 then Some ''session: history fact requires exactly one payload''
      else case fact_Message f of Some m \<Rightarrow>
        check (\<not> Message_Valid m \<or> msg_SessionID m \<noteq> sessionID) ''session: history message does not belong to session''
      | None \<Rightarrow> (case fact_ToolCall f of Some c \<Rightarrow>
        check (\<not> ToolCall_Valid c \<or> call_SessionID c \<noteq> sessionID) ''session: history tool call is invalid''
      | None \<Rightarrow> (case fact_ToolResult f of Some r \<Rightarrow> ToolResult_Validate r
      | None \<Rightarrow> (case fact_Run f of Some r \<Rightarrow> RunFact_Validate r sessionID
      | None \<Rightarrow> (case fact_ModelAttempt f of Some a \<Rightarrow> ModelAttemptFact_Validate a
      | None \<Rightarrow> (case fact_ModelConfigChanged f of Some c \<Rightarrow>
        SessionEvent_Validate \<lparr>sev_Kind = EventModelConfigChanged, sev_Revision = 0, sev_ModelConfigChanged = Some c\<rparr>
      | None \<Rightarrow> (case fact_ContextContribution f of Some c \<Rightarrow> ContextContributionFact_Validate c sessionID
      | None \<Rightarrow> (case fact_RunBudgetExceeded f of Some b \<Rightarrow> RunBudgetExceededFact_Validate b
      | None \<Rightarrow> (case fact_RunLimitExceeded f of Some l \<Rightarrow> RunLimitExceededFact_Validate l
      | None \<Rightarrow> None)))))))))"

definition HistoryFact_Validate :: "HistoryFact \<Rightarrow> SessionID \<Rightarrow> string option" where
  "HistoryFact_Validate f sessionID = first_error
     [check (fact_OriginFactID f \<noteq> '''' \<and> \<not> validID (fact_OriginFactID f)) ''session: history origin fact ID is invalid'',
      check ((validID (fact_FactID f) \<or> fact_Sequence f \<noteq> 0 \<or> validID (fact_SessionID f) \<or> \<not> IsZero (fact_At f) \<or>
              ActorIdentity_Valid (fact_Actor f) \<or> fact_Kind f \<noteq> HistoryFactKind_other '''' \<or> validID (fact_RunID f) \<or>
              validID (fact_StepID f)) \<and>
             (\<not> validID (fact_FactID f) \<or> fact_Sequence f = 0 \<or> fact_SessionID f \<noteq> sessionID \<or> IsZero (fact_At f) \<or>
              \<not> ActorIdentity_Valid (fact_Actor f) \<or> fact_Kind f \<noteq> payloadKind f))
        ''session: history fact envelope is invalid'',
      validatePayload f sessionID]"

section \<open>Context, queue and journal\<close>

record ContextView =
  ctx_Version :: ContextVersion
  ctx_SourceRevision :: Revision
  ctx_SourceHistorySequence :: HistorySequence
  ctx_TokenCount :: int
  ctx_Request :: ModelRequest

definition zero_context :: ContextView where
  "zero_context = \<lparr>ctx_Version = 0, ctx_SourceRevision = 0, ctx_SourceHistorySequence = 0, ctx_TokenCount = 0,
     ctx_Request = \<lparr>mreq_SessionID = '''', mreq_RunID = '''', mreq_StepID = '''', mreq_Config = zero_config,
       mreq_ConfigRevision = 0, mreq_Inputs = [], mreq_Tools = []\<rparr>\<rparr>"

datatype Delivery = DeliveryNormal | DeliverySteer | DeliveryHeld | Delivery_other string

definition Delivery_Valid :: "Delivery \<Rightarrow> bool" where
  "Delivery_Valid d \<longleftrightarrow> d = DeliveryNormal \<or> d = DeliverySteer \<or> d = DeliveryHeld"

record QueueItem =
  qi_Message :: Message
  qi_Delivery :: Delivery
  qi_ClaimedBy :: RunID

definition Claimed :: "QueueItem \<Rightarrow> bool" where
  "Claimed i = validID (qi_ClaimedBy i)"

record QueueClaim =
  qc_MessageID :: MessageID
  qc_RunID :: RunID

record QueueConsume =
  qn_MessageID :: MessageID
  qn_RunID :: RunID

record QueueEdit =
  qe_MessageID :: MessageID
  qe_Input :: MessageInput
  qe_Delivery :: Delivery

record QueueReclassify =
  qr_MessageID :: MessageID
  qr_Delivery :: Delivery

datatype RunState = RunIdle | RunRunning | RunState_other string

definition RunState_Valid :: "RunState \<Rightarrow> bool" where
  "RunState_Valid s \<longleftrightarrow> s = RunIdle \<or> s = RunRunning"

record RunStateChange =
  rsc_RunID :: RunID
  rsc_State :: RunState

datatype JournalStatus =
  JournalPrepared | JournalPending | JournalSucceeded | JournalFailed | JournalOutcomeUnknown | JournalStatus_other string

definition JournalStatus_Valid :: "JournalStatus \<Rightarrow> bool" where
  "JournalStatus_Valid s = (case s of JournalStatus_other _ \<Rightarrow> False | _ \<Rightarrow> True)"

record JournalEntry =
  jrn_RunID :: RunID
  jrn_StepID :: StepID
  jrn_ToolCall :: "ToolCall option"
  jrn_ToolResult :: "ToolResult option"
  jrn_Status :: JournalStatus

definition JournalEntry_Validate :: "JournalEntry \<Rightarrow> SessionID \<Rightarrow> string option" where
  "JournalEntry_Validate e sessionID = (case jrn_ToolCall e of
      None \<Rightarrow> Some ''session: journal entry requires run, step, call, and status''
    | Some call \<Rightarrow> first_error
        [check (\<not> validID (jrn_RunID e) \<or> \<not> validID (jrn_StepID e) \<or> \<not> JournalStatus_Valid (jrn_Status e))
           ''session: journal entry requires run, step, call, and status'',
         check (\<not> ToolCall_Valid call \<or> call_SessionID call \<noteq> sessionID \<or> call_RunID call \<noteq> jrn_RunID e \<or>
                call_StepID call \<noteq> jrn_StepID e) ''session: journal tool call containment is invalid'',
         (if jrn_Status e = JournalPrepared \<or> jrn_Status e = JournalPending then
            check (jrn_ToolResult e \<noteq> None) ''session: unfinished journal cannot carry a result''
          else (case jrn_ToolResult e of
              None \<Rightarrow> Some ''session: terminal journal requires the matching result''
            | Some r \<Rightarrow> first_error
                [check (res_CallID r \<noteq> call_ID call) ''session: terminal journal requires the matching result'',
                 ToolResult_Validate r,
                 (case jrn_Status e of
                    JournalSucceeded \<Rightarrow> check (res_Status r \<noteq> ResultSucceeded)
                      ''session: succeeded journal requires a succeeded result''
                  | JournalFailed \<Rightarrow> check (res_Status r \<noteq> ResultFailed) ''session: failed journal requires a failed result''
                  | JournalOutcomeUnknown \<Rightarrow> check (res_Status r \<noteq> ResultUnknown)
                      ''session: unknown journal requires an unknown result''
                  | _ \<Rightarrow> None)]))])"

section \<open>The aggregate\<close>

record ForkProvenance =
  fork_ParentSessionID :: SessionID
  fork_CutoffSequence :: HistorySequence

record Snapshot =
  snap_Session :: Session
  snap_Revision :: Revision
  snap_History :: "HistoryFact list"
  snap_Context :: ContextView
  snap_RetainedContexts :: "ContextView list"
  snap_Queue :: "QueueItem list"
  snap_RunJournal :: "JournalEntry list"
  snap_ExtensionJournal :: "ExtensionJournalEntry list"
  snap_Events :: "SessionEvent list"
  snap_ModelConfig :: Config
  snap_RunState :: RunState
  snap_ActiveRunID :: RunID
  snap_Fork :: "ForkProvenance option"

record NewSession =
  new_Session :: Session
  new_History :: "HistoryFact list"
  new_Context :: ContextView
  new_Queue :: "QueueItem list"
  new_RunJournal :: "JournalEntry list"
  new_ModelConfig :: Config
  new_RunState :: RunState
  new_ActiveRunID :: RunID
  new_Fork :: "ForkProvenance option"

section \<open>Changes and commits\<close>

datatype ChangeKind =
    AppendMessage | AppendToolCall | AppendToolResult | AppendRunFact | AppendModelAttempt | AppendContextContribution
  | AppendRunBudgetExceeded | AppendRunLimitExceeded | AppendSessionEvent | EnqueueMessage | ClaimQueue | ConsumeQueue
  | EditQueue | DeleteQueue | ReclassifyQueue | SetContext | SetModelConfig | SetRunState | UpdateRunJournal
  | UpdateExtensionJournal | ChangeKind_other string

record Change =
  chg_Kind :: ChangeKind
  chg_Message :: "Message option"
  chg_ToolCall :: "ToolCall option"
  chg_ToolResult :: "ToolResult option"
  chg_RunFact :: "RunFact option"
  chg_ModelAttempt :: "ModelAttemptFact option"
  chg_ContextContribution :: "ContextContributionFact option"
  chg_RunBudgetExceeded :: "RunBudgetExceededFact option"
  chg_RunLimitExceeded :: "RunLimitExceededFact option"
  chg_SessionEvent :: "SessionEvent option"
  chg_QueueItem :: "QueueItem option"
  chg_QueueClaim :: "QueueClaim option"
  chg_QueueConsume :: "QueueConsume option"
  chg_QueueEdit :: "QueueEdit option"
  chg_QueueDelete :: "MessageID option"
  chg_QueueReclassification :: "QueueReclassify option"
  chg_Context :: "ContextView option"
  chg_RetainPreviousContext :: bool
  chg_ModelConfig :: "Config option"
  chg_RunState :: "RunStateChange option"
  chg_Journal :: "JournalEntry option"
  chg_Extension :: "ExtensionJournalEntry option"

definition payloadCount :: "Change \<Rightarrow> nat" where
  "payloadCount c = present (chg_Message c) + present (chg_ToolCall c) + present (chg_ToolResult c) +
     present (chg_RunFact c) + present (chg_ModelAttempt c) + present (chg_ContextContribution c) +
     present (chg_RunBudgetExceeded c) + present (chg_RunLimitExceeded c) + present (chg_SessionEvent c) +
     present (chg_QueueItem c) + present (chg_QueueClaim c) + present (chg_QueueConsume c) + present (chg_QueueEdit c) +
     present (chg_QueueDelete c) + present (chg_QueueReclassification c) + present (chg_Context c) +
     present (chg_ModelConfig c) + present (chg_RunState c) + present (chg_Journal c) + present (chg_Extension c)"

text \<open>\<open>required msg v x\<close> is \<^verbatim>\<open>if x == nil { return msg }; return v(*x)\<close>.\<close>

definition required :: "string \<Rightarrow> ('a \<Rightarrow> string option) \<Rightarrow> 'a option \<Rightarrow> string option" where
  "required message v x = (case x of None \<Rightarrow> Some message | Some p \<Rightarrow> v p)"

definition Change_Validate :: "typed_fingerprint \<Rightarrow> Change \<Rightarrow> SessionID \<Rightarrow> string option" where
  "Change_Validate fpt c sessionID = first_error
     [check (payloadCount c \<noteq> 1) ''session: change requires exactly one payload'',
      check (chg_RetainPreviousContext c \<and> chg_Kind c \<noteq> SetContext)
        ''session: context retention applies only to a context change'',
      (case chg_Kind c of
         AppendMessage \<Rightarrow> (let e = ''session: appended message does not belong to session'' in
           required e (\<lambda>m. check (\<not> Message_Valid m \<or> msg_SessionID m \<noteq> sessionID) e) (chg_Message c))
       | AppendToolCall \<Rightarrow> (let e = ''session: appended tool call does not belong to session'' in
           required e (\<lambda>t. check (\<not> ToolCall_Valid t \<or> call_SessionID t \<noteq> sessionID) e) (chg_ToolCall c))
       | AppendToolResult \<Rightarrow> required ''session: appended tool result is missing'' ToolResult_Validate (chg_ToolResult c)
       | AppendRunFact \<Rightarrow> required ''session: appended run fact is missing'' (\<lambda>f. first_error
           [RunFact_Validate f sessionID,
            check (run_Kind f \<noteq> RunStarted \<and> run_Kind f \<noteq> RunCompleted \<and> run_Termination f = None)
              ''session: appended non-successful run terminal requires a termination'']) (chg_RunFact c)
       | AppendModelAttempt \<Rightarrow> required ''session: appended model attempt is missing'' ModelAttemptFact_Validate (chg_ModelAttempt c)
       | AppendContextContribution \<Rightarrow> required ''session: appended context contribution is missing''
           (\<lambda>f. ContextContributionFact_Validate f sessionID) (chg_ContextContribution c)
       | AppendRunBudgetExceeded \<Rightarrow> required ''session: appended run budget fact is missing''
           RunBudgetExceededFact_Validate (chg_RunBudgetExceeded c)
       | AppendRunLimitExceeded \<Rightarrow> required ''session: appended run limit fact is missing''
           RunLimitExceededFact_Validate (chg_RunLimitExceeded c)
       | AppendSessionEvent \<Rightarrow> (let e = ''session: appended Session event must have store-assigned revision'' in
           required e (\<lambda>v. first_error [check (sev_Revision v \<noteq> 0) e, SessionEvent_Validate v]) (chg_SessionEvent c))
       | EnqueueMessage \<Rightarrow> (let e = ''session: queue change does not belong to session'' in
           required e (\<lambda>q. let m = qi_Message q in check (\<not> Message_Valid m \<or> msg_SessionID m \<noteq> sessionID \<or>
             msg_Role m \<noteq> RoleUser \<or> msg_RunID m \<noteq> '''' \<or> msg_StepID m \<noteq> '''' \<or> \<not> Delivery_Valid (qi_Delivery q) \<or>
             qi_ClaimedBy q \<noteq> '''') e) (chg_QueueItem c))
       | ClaimQueue \<Rightarrow> (let e = ''session: queue claim requires message and run IDs'' in
           required e (\<lambda>q. check (\<not> validID (qc_MessageID q) \<or> \<not> validID (qc_RunID q)) e) (chg_QueueClaim c))
       | ConsumeQueue \<Rightarrow> (let e = ''session: queue consume requires message and run IDs'' in
           required e (\<lambda>q. check (\<not> validID (qn_MessageID q) \<or> \<not> validID (qn_RunID q)) e) (chg_QueueConsume c))
       | EditQueue \<Rightarrow> (let e = ''session: queue edit is invalid'' in
           required e (\<lambda>q. check (\<not> validID (qe_MessageID q) \<or> \<not> MessageInput_Valid (qe_Input q) \<or>
             \<not> Delivery_Valid (qe_Delivery q)) e) (chg_QueueEdit c))
       | DeleteQueue \<Rightarrow> (let e = ''session: queue delete requires a message ID'' in
           required e (\<lambda>q. check (\<not> validID q) e) (chg_QueueDelete c))
       | ReclassifyQueue \<Rightarrow> (let e = ''session: queue reclassification is invalid'' in
           required e (\<lambda>q. check (\<not> validID (qr_MessageID q) \<or> \<not> Delivery_Valid (qr_Delivery q)) e) (chg_QueueReclassification c))
       | SetContext \<Rightarrow> required ''session: context change is missing'' (\<lambda>_. None) (chg_Context c)
       | SetModelConfig \<Rightarrow> required ''session: model config change is missing''
           (\<lambda>m. map_option (\<lambda>e. ''session: invalid model config change: '' @ e) (Config_Validate m)) (chg_ModelConfig c)
       | SetRunState \<Rightarrow> (let e = ''session: invalid run state change'' in
           required e (\<lambda>r. check (\<not> validID (rsc_RunID r) \<or> \<not> RunState_Valid (rsc_State r)) e) (chg_RunState c))
       | UpdateRunJournal \<Rightarrow> required ''session: journal change is missing'' (\<lambda>j. JournalEntry_Validate j sessionID) (chg_Journal c)
       | UpdateExtensionJournal \<Rightarrow> required ''session: extension journal change is missing''
           (\<lambda>x. ExtensionJournalEntry_Validate fpt x sessionID) (chg_Extension c)
       | ChangeKind_other k \<Rightarrow> Some (''session: unsupported change kind '' @ k))]"

record CommitRequest =
  creq_SessionID :: SessionID
  creq_ExpectedRevision :: Revision
  creq_IdempotencyKey :: string
  creq_Actor :: ActorIdentity
  creq_Changes :: "Change list"

definition CommitRequest_Validate :: "typed_fingerprint \<Rightarrow> CommitRequest \<Rightarrow> string option" where
  "CommitRequest_Validate fpt r = first_error
     ([check (\<not> validID (creq_SessionID r)) ''session: commit requires a valid session ID'',
       check (creq_IdempotencyKey r = '''') ''session: commit requires an idempotency key'',
       check ((actor_Kind (creq_Actor r) \<noteq> ActorKind_other '''' \<or> actor_ID (creq_Actor r) \<noteq> '''') \<and>
              \<not> ActorIdentity_Valid (creq_Actor r)) ''session: commit actor identity is invalid'',
       check (creq_Changes r = []) ''session: commit requires at least one change''] @
      map (\<lambda>c. Change_Validate fpt c (creq_SessionID r)) (creq_Changes r))"

record Commit =
  com_SessionID :: SessionID
  com_Revision :: Revision
  com_FirstHistorySequence :: HistorySequence
  com_LastHistorySequence :: HistorySequence
  com_Applied :: bool

record CommitNotice =
  cn_SessionID :: SessionID
  cn_Revision :: Revision
  cn_FirstHistorySequence :: HistorySequence
  cn_LastHistorySequence :: HistorySequence

definition CommitNotice_Validate :: "CommitNotice \<Rightarrow> string option" where
  "CommitNotice_Validate n = first_error
     [check (\<not> validID (cn_SessionID n) \<or> cn_Revision n = 0) ''session: commit notice requires Session and revision identity'',
      check ((cn_FirstHistorySequence n = 0) \<noteq> (cn_LastHistorySequence n = 0) \<or>
             cn_FirstHistorySequence n > cn_LastHistorySequence n) ''session: commit notice History range is invalid'']"

section \<open>Queries\<close>

abbreviation (input) "DefaultSessionListLimit \<equiv> (50 :: int)"
abbreviation (input) "MaxSessionListLimit \<equiv> (200 :: int)"
abbreviation (input) "MaxSessionListCursorBytes \<equiv> (4096 :: nat)"

record ListRequest =
  lreq_AgentID :: AgentID
  lreq_WorkspaceID :: WorkspaceID
  lreq_Limit :: int
  lreq_Cursor :: string

definition ListRequest_Validate :: "ListRequest \<Rightarrow> string option" where
  "ListRequest_Validate r = first_error
     [check (\<not> validID (lreq_AgentID r) \<or> \<not> validID (lreq_WorkspaceID r)) ''agent ID and workspace ID are required'',
      check (lreq_Limit r < 0 \<or> lreq_Limit r > MaxSessionListLimit) ''limit must be zero or between 1 and 200'',
      check (length (lreq_Cursor r) > MaxSessionListCursorBytes) ''cursor exceeds 4096 bytes'']"

record SessionSummary =
  sum_SessionID :: SessionID
  sum_AgentID :: AgentID
  sum_WorkspaceID :: WorkspaceID
  sum_Revision :: Revision
  sum_UpdatedAt :: time

record ListResult =
  lres_Sessions :: "SessionSummary list"
  lres_NextCursor :: string

record HistoryPageRequest =
  hpr_SessionID :: SessionID
  hpr_BeforeHistorySequence :: HistorySequence
  hpr_StepLimit :: int

record HistoryPage =
  hp_AgentID :: AgentID
  hp_WorkspaceID :: WorkspaceID
  hp_Revision :: Revision
  hp_Facts :: "HistoryFact list"
  hp_HasMore :: bool

definition zero_history_page :: HistoryPage where
  "zero_history_page = \<lparr>hp_AgentID = '''', hp_WorkspaceID = '''', hp_Revision = 0, hp_Facts = [], hp_HasMore = False\<rparr>"

end
