(* ===== verification/Session_History.thy ===== *)
theory Session_History
  imports Session_Contracts
begin

text \<open>
  \<^verbatim>\<open>session/history.go\<close>: the store-owned envelope of History facts, the append, and the page query.
  \<^verbatim>\<open>time.Now()\<close> is the parameter \<open>clock\<close>: \<open>clock n\<close> is the reading taken when fact number \<open>n\<close> of a
  Session is appended. Facts about appending and about the window a page returns follow.
\<close>

type_synonym clock = "nat \<Rightarrow> time"

section \<open>Lookups\<close>

definition findMessage :: "HistoryFact list \<Rightarrow> MessageID \<Rightarrow> Message option" where
  "findMessage history i = List.find (\<lambda>m. msg_ID m = i) (List.map_filter fact_Message history)"

definition containsMessage :: "HistoryFact list \<Rightarrow> MessageID \<Rightarrow> bool" where
  "containsMessage history i \<longleftrightarrow> (\<exists>m \<in> set (List.map_filter fact_Message history). msg_ID m = i)"

definition findToolCall :: "HistoryFact list \<Rightarrow> ToolCallID \<Rightarrow> ToolCall option" where
  "findToolCall history i = List.find (\<lambda>c. call_ID c = i) (List.map_filter fact_ToolCall history)"

definition containsToolCall :: "HistoryFact list \<Rightarrow> ToolCallID \<Rightarrow> bool" where
  "containsToolCall history i \<longleftrightarrow> findToolCall history i \<noteq> None"

definition findToolResult :: "HistoryFact list \<Rightarrow> ToolCallID \<Rightarrow> ToolResult option" where
  "findToolResult history i = List.find (\<lambda>r. res_CallID r = i) (List.map_filter fact_ToolResult history)"

definition hasToolResult :: "HistoryFact list \<Rightarrow> ToolCallID \<Rightarrow> bool" where
  "hasToolResult history i \<longleftrightarrow> (\<exists>r \<in> set (List.map_filter fact_ToolResult history). res_CallID r = i)"

text \<open>\<^verbatim>\<open>runFacts\<close>: the last start and the last terminal fact of a run.\<close>

fun last_such :: "('a \<Rightarrow> bool) \<Rightarrow> 'a list \<Rightarrow> 'a option" where
  "last_such P [] = None"
| "last_such P (x # xs) = (case last_such P xs of Some y \<Rightarrow> Some y | None \<Rightarrow> if P x then Some x else None)"

definition runFacts :: "HistoryFact list \<Rightarrow> RunID \<Rightarrow> RunFact option \<times> RunFact option" where
  "runFacts history runID =
     (let runs = filter (\<lambda>f. run_RunID f = runID) (List.map_filter fact_Run history) in
      (last_such (\<lambda>f. run_Kind f = RunStarted) runs, last_such (\<lambda>f. run_Kind f \<noteq> RunStarted) runs))"

section \<open>Appending\<close>

definition hasHistoryEnvelope :: "HistoryFact \<Rightarrow> bool" where
  "hasHistoryEnvelope f \<longleftrightarrow> fact_FactID f \<noteq> '''' \<or> fact_Sequence f \<noteq> 0 \<or> fact_SessionID f \<noteq> '''' \<or> fact_RunID f \<noteq> '''' \<or>
     fact_StepID f \<noteq> '''' \<or> \<not> IsZero (fact_At f) \<or> actor_Kind (fact_Actor f) \<noteq> ActorKind_other '''' \<or>
     actor_ID (fact_Actor f) \<noteq> '''' \<or> fact_Kind f \<noteq> HistoryFactKind_other ''''"

definition normalizedActor :: "ActorIdentity \<Rightarrow> ActorIdentity" where
  "normalizedActor actor =
     (if ActorIdentity_Valid actor then actor else \<lparr>actor_Kind = ActorService, actor_ID = ''agentslot''\<rparr>)"

definition factContainment :: "HistoryFact list \<Rightarrow> HistoryFact \<Rightarrow> RunID \<times> StepID" where
  "factContainment history f =
     (case fact_Message f of Some m \<Rightarrow> (msg_RunID m, msg_StepID m)
      | None \<Rightarrow> (case fact_ToolCall f of Some c \<Rightarrow> (call_RunID c, call_StepID c)
      | None \<Rightarrow> (case fact_ToolResult f of Some r \<Rightarrow>
          (case findToolCall history (res_CallID r) of Some c \<Rightarrow> (call_RunID c, call_StepID c) | None \<Rightarrow> ('''', ''''))
      | None \<Rightarrow> (case fact_Run f of Some r \<Rightarrow> (run_RunID r, '''')
      | None \<Rightarrow> (case fact_ModelAttempt f of Some a \<Rightarrow> (att_RunID a, att_StepID a)
      | None \<Rightarrow> (case fact_ContextContribution f of Some c \<Rightarrow> (ctr_RunID c, ctr_StepID c)
      | None \<Rightarrow> (case fact_RunBudgetExceeded f of Some b \<Rightarrow> (bex_RunID b, '''')
      | None \<Rightarrow> (case fact_RunLimitExceeded f of Some l \<Rightarrow> (lim_RunID l, lim_StepID l)
      | None \<Rightarrow> ('''', '''')))))))))"

definition factID :: "SessionID \<Rightarrow> HistorySequence \<Rightarrow> FactID" where
  "factID sessionID n = sessionID @ '':fact:'' @ dec n"

definition stamped :: "clock \<Rightarrow> HistoryFact list \<Rightarrow> SessionID \<Rightarrow> HistoryFact \<Rightarrow> ActorIdentity \<Rightarrow> HistoryFact" where
  "stamped clock history sessionID source actor =
     (let n = length history + 1;
          f = source\<lparr>fact_Sequence := n, fact_FactID := factID sessionID n, fact_SessionID := sessionID,
                     fact_At := clock n, fact_Actor := normalizedActor actor, fact_Kind := payloadKind source\<rparr>;
          (runID, stepID) = factContainment history f in
      f\<lparr>fact_RunID := runID, fact_StepID := stepID\<rparr>)"

definition appendHistoryFact :: "clock \<Rightarrow> HistoryFact list \<Rightarrow> SessionID \<Rightarrow> HistoryFact \<Rightarrow> ActorIdentity \<Rightarrow>
    string + HistoryFact list" where
  "appendHistoryFact clock history sessionID source actor =
     guardE (check (hasHistoryEnvelope source) ''session: appended history fact contains store-owned metadata'')
       (guardE (validatePayload source sessionID)
         (let f = stamped clock history sessionID source actor in
          guardE (HistoryFact_Validate f sessionID) (Inr (history @ [f]))))"

definition clearEnvelope :: "HistoryFact \<Rightarrow> HistoryFact" where
  "clearEnvelope f = f\<lparr>fact_FactID := '''', fact_Sequence := 0, fact_SessionID := '''', fact_RunID := '''',
     fact_StepID := '''', fact_At := 0, fact_Actor := zero_actor, fact_Kind := HistoryFactKind_other ''''\<rparr>"

definition prepareInitialHistory :: "clock \<Rightarrow> SessionID \<Rightarrow> HistoryFact list \<Rightarrow> ClassifiedError + HistoryFact list" where
  "prepareInitialHistory clock sessionID source =
     foldE (\<lambda>history f. map_error (invalid ''session.create'')
              (appendHistoryFact clock history sessionID (clearEnvelope f) zero_actor)) [] source"

section \<open>The page query\<close>

abbreviation (input) "historyPageLimit \<equiv> (100 :: int)"

text \<open>The upper end: the facts before the cursor, moved back to the start of a step it would cut.\<close>

definition pageEnd :: "HistoryFact list \<Rightarrow> HistorySequence \<Rightarrow> nat" where
  "pageEnd history before =
     (if before = 0 then length history
      else
        let end = length (takeWhile (\<lambda>f. fact_Sequence f < before) history) in
        if 0 < end \<and> end < length history \<and> validID (fact_StepID (history ! end)) \<and>
           fact_StepID (history ! (end - 1)) = fact_StepID (history ! end)
        then end - length (takeWhile (\<lambda>f. fact_StepID f = fact_StepID (history ! end)) (rev (take end history)))
        else end)"

text \<open>
  The backward scan: \<open>index\<close> is one past the fact it looks at, and the result is the start of the page,
  the number of steps and the runs that own a step of the page.
\<close>

fun pageScan :: "HistoryFact list \<Rightarrow> int \<Rightarrow> nat \<Rightarrow> nat \<Rightarrow> int \<Rightarrow> StepID list \<Rightarrow> RunID list \<Rightarrow> nat \<times> int \<times> RunID list" where
  "pageScan history limit 0 start steps seen runs = (start, steps, runs)"
| "pageScan history limit (Suc index) start steps seen runs =
     (let f = history ! index; stepID = fact_StepID f;
          fresh = validID stepID \<and> stepID \<notin> set seen in
      if fresh \<and> steps = limit then (start, steps, runs)
      else pageScan history limit index index
             (if fresh then steps + 1 else steps) (if fresh then stepID # seen else seen)
             (if validID stepID \<and> validID (fact_RunID f) then fact_RunID f # runs else runs))"

definition skipOlderRuns :: "HistoryFact list \<Rightarrow> int \<Rightarrow> RunID list \<Rightarrow> nat \<Rightarrow> nat \<Rightarrow> nat" where
  "skipOlderRuns history steps runs start end =
     (if steps > 0 then
        start + length (takeWhile (\<lambda>f. validID (fact_RunID f) \<and> fact_RunID f \<notin> set runs) (drop start (take end history)))
      else start)"

definition historyPage :: "HistoryFact list \<Rightarrow> HistoryPageRequest \<Rightarrow> ClassifiedError + HistoryPage" where
  "historyPage history request =
     (let op = ''session.history_page'';
          limit = (if hpr_StepLimit request = 0 then historyPageLimit else hpr_StepLimit request) in
      if \<not> validID (hpr_SessionID request) then Inl (invalid op ''session ID is required'')
      else if limit < 0 \<or> limit > historyPageLimit then Inl (invalid op ''step limit must be between 1 and 100'')
      else
        let end = pageEnd history (hpr_BeforeHistorySequence request) in
        if end = 0 then Inr zero_history_page
        else
          let (start, steps, runs) = pageScan history limit end end 0 [] [];
              start' = skipOlderRuns history steps runs start end;
              start'' = (if steps = 0 \<and> int end > limit then nat (int end - limit) else start') in
          Inr (zero_history_page\<lparr>hp_Facts := drop start'' (take end history), hp_HasMore := start'' > 0\<rparr>))"

section \<open>Facts about appending\<close>

definition envelope_ok :: "SessionID \<Rightarrow> HistoryFact list \<Rightarrow> bool" where
  "envelope_ok sid history \<longleftrightarrow>
     (\<forall>i < length history. fact_Sequence (history ! i) = Suc i \<and> fact_FactID (history ! i) = factID sid (Suc i)) \<and>
     (\<forall>f \<in> set history. fact_SessionID f = sid \<and> HistoryFact_Validate f sid = None \<and> \<not> IsZero (fact_At f) \<and>
        ActorIdentity_Valid (fact_Actor f) \<and> fact_Kind f = payloadKind f)"

lemma envelope_ok_Nil [simp]: "envelope_ok sid []"
  by (simp add: envelope_ok_def)

lemma normalizedActor_Valid [simp]: "ActorIdentity_Valid (normalizedActor a)"
proof -
  have "validID ''agentslot''" by (rule validID_graphic) (simp_all add: graphic_def)
  then show ?thesis by (simp add: normalizedActor_def ActorIdentity_Valid_def ActorKind_Valid_def)
qed

lemma stamped_envelope [simp]:
  "fact_Sequence (stamped clock history sid f a) = Suc (length history)"
  "fact_FactID (stamped clock history sid f a) = factID sid (Suc (length history))"
  "fact_SessionID (stamped clock history sid f a) = sid"
  "fact_At (stamped clock history sid f a) = clock (Suc (length history))"
  "fact_Actor (stamped clock history sid f a) = normalizedActor a"
  "fact_Kind (stamped clock history sid f a) = payloadKind f"
  "fact_OriginFactID (stamped clock history sid f a) = fact_OriginFactID f"
  by (simp_all add: stamped_def Let_def split: prod.splits)

lemma stamped_payload [simp]:
  "fact_Message (stamped clock history sid f a) = fact_Message f"
  "fact_ToolCall (stamped clock history sid f a) = fact_ToolCall f"
  "fact_ToolResult (stamped clock history sid f a) = fact_ToolResult f"
  "fact_Run (stamped clock history sid f a) = fact_Run f"
  "fact_ModelAttempt (stamped clock history sid f a) = fact_ModelAttempt f"
  "fact_ModelConfigChanged (stamped clock history sid f a) = fact_ModelConfigChanged f"
  "fact_ContextContribution (stamped clock history sid f a) = fact_ContextContribution f"
  "fact_RunBudgetExceeded (stamped clock history sid f a) = fact_RunBudgetExceeded f"
  "fact_RunLimitExceeded (stamped clock history sid f a) = fact_RunLimitExceeded f"
  by (simp_all add: stamped_def Let_def split: prod.splits)

lemma payloadKind_stamped [simp]: "payloadKind (stamped clock history sid f a) = payloadKind f"
  by (simp add: payloadKind_def)

lemma validatePayload_stamped [simp]: "validatePayload (stamped clock history sid f a) s = validatePayload f s"
  unfolding validatePayload_def fact_payloads_def stamped_payload ..

lemma appendHistoryFact_Inr:
  "appendHistoryFact clock history sid f a = Inr h \<Longrightarrow>
     h = history @ [stamped clock history sid f a] \<and> validatePayload f sid = None \<and>
     HistoryFact_Validate (stamped clock history sid f a) sid = None"
  by (auto simp: appendHistoryFact_def Let_def)

lemma appendHistoryFact_envelope:
  assumes "appendHistoryFact clock history sid f a = Inr h" and "envelope_ok sid history"
  shows "envelope_ok sid h"
proof -
  let ?f = "stamped clock history sid f a"
  have h: "h = history @ [?f]" and v: "HistoryFact_Validate ?f sid = None"
    using appendHistoryFact_Inr [OF assms(1)] by auto
  have at: "\<not> IsZero (clock (Suc (length history)))"
    using v by (auto simp: HistoryFact_Validate_def)
  show ?thesis
    using assms(2) v at by (auto simp: h envelope_ok_def nth_append less_Suc_eq)
qed

lemma validID_factID: "validID sid \<Longrightarrow> validID (factID sid n)"
proof -
  assume sid: "validID sid"
  have "is_digit (last (dec n))" using dec_digits [of n] last_in_set [OF dec_nonempty] by blast
  then have "graphic (last (dec n))" unfolding graphic_def by linarith
  then have "TrimSpace (sid @ ('':fact:'' @ dec n)) = sid @ ('':fact:'' @ dec n)"
    using sid by (intro TrimSpace_append) (auto simp: validID_def graphic_def)
  then show "validID (factID sid n)" by (simp add: validID_def factID_def)
qed

lemma factID_inject: "factID sid m = factID sid n \<longleftrightarrow> m = n"
  by (simp add: factID_def)

text \<open>An append of a valid payload succeeds whenever the clock gives a non-zero instant.\<close>

lemma appendHistoryFact_succeeds:
  assumes "validID sid" "\<not> hasHistoryEnvelope f" "validatePayload f sid = None" "clock (Suc (length history)) \<noteq> 0"
    "fact_OriginFactID f = ''''"
  shows "appendHistoryFact clock history sid f a = Inr (history @ [stamped clock history sid f a])"
  using assms validID_factID [OF assms(1), of "Suc (length history)"]
  by (simp add: appendHistoryFact_def Let_def HistoryFact_Validate_def IsZero_def)

lemma envelope_ok_FactIDs: "envelope_ok sid history \<Longrightarrow> map fact_FactID history = map (\<lambda>i. factID sid (Suc i)) [0..<length history]"
  by (intro nth_equalityI) (auto simp: envelope_ok_def)

lemma envelope_ok_distinct: "envelope_ok sid history \<Longrightarrow> distinct (map fact_FactID history)"
  by (simp add: envelope_ok_FactIDs distinct_map inj_on_def factID_inject)

lemma prepareInitialHistory_envelope: "prepareInitialHistory clock sid source = Inr h \<Longrightarrow> envelope_ok sid h"
proof -
  have "foldE (\<lambda>history f. map_error (invalid ''session.create'')
          (appendHistoryFact clock history sid (clearEnvelope f) zero_actor)) h0 fs = Inr h \<Longrightarrow>
        envelope_ok sid h0 \<Longrightarrow> envelope_ok sid h" for h0 fs
    by (induction fs arbitrary: h0) (auto intro: appendHistoryFact_envelope)
  then show "prepareInitialHistory clock sid source = Inr h \<Longrightarrow> envelope_ok sid h"
    by (auto simp: prepareInitialHistory_def)
qed

end
