(* ===== verification/Session_Changes.thy ===== *)
theory Session_Changes
  imports Session_History
begin

text \<open>
  The transaction body of \<^verbatim>\<open>session/memory_store.go\<close>: \<^verbatim>\<open>applyChanges\<close> with one definition per change
  kind, the two checks over the whole transaction (\<^verbatim>\<open>validateToolTransactions\<close> and
  \<^verbatim>\<open>validateModelConfigTransaction\<close>), and the equality helpers. The working copy of the snapshot is
  passed along explicitly, so an error discards it. A payload pointer is only dereferenced (\<^term>\<open>the\<close>)
  after \<^verbatim>\<open>Change.Validate\<close> has shown it non-nil, as in the source. A plain error that a helper
  returns unclassified is \<open>plain_error\<close>.
\<close>

definition plain_error :: "string \<Rightarrow> ClassifiedError" where
  "plain_error message = ClassifiedError (ErrorKind_other '''') '''' '''' message"

definition historyConflict :: "string \<Rightarrow> ClassifiedError" where
  "historyConflict message = NewCodedError ErrorConflict CodeHistoryInvariant ''session.commit'' message"

definition queueNotFound :: "string \<Rightarrow> ClassifiedError" where
  "queueNotFound message = NewCodedError ErrorNotFound CodeQueueItemNotFound ''session.commit'' message"

definition journalConflict :: "string \<Rightarrow> ClassifiedError" where
  "journalConflict message = NewCodedError ErrorConflict CodeJournalInvariant ''session.commit'' message"

abbreviation (input) commit_conflict :: "ErrorCode \<Rightarrow> string \<Rightarrow> ClassifiedError" where
  "commit_conflict code message \<equiv> NewCodedError ErrorConflict code ''session.commit'' message"

section \<open>Equality helpers\<close>

definition sameFloat :: "float64 option \<Rightarrow> float64 option \<Rightarrow> bool" where
  "sameFloat l r = (case (l, r) of (None, None) \<Rightarrow> True | (Some x, Some y) \<Rightarrow> f64_eq x y | _ \<Rightarrow> False)"

definition sameInt :: "int option \<Rightarrow> int option \<Rightarrow> bool" where
  "sameInt l r \<longleftrightarrow> l = r"

definition sameModelConfig :: "Config \<Rightarrow> Config \<Rightarrow> bool" where
  "sameModelConfig l r \<longleftrightarrow> cfg_ProviderKey l = cfg_ProviderKey r \<and> cfg_ModelID l = cfg_ModelID r \<and>
     cfg_Reasoning l = cfg_Reasoning r \<and>
     sameFloat (par_Temperature (cfg_Parameters l)) (par_Temperature (cfg_Parameters r)) \<and>
     sameInt (par_MaxTokens (cfg_Parameters l)) (par_MaxTokens (cfg_Parameters r))"

definition sameToolCall :: "ToolCall \<Rightarrow> ToolCall \<Rightarrow> bool" where
  "sameToolCall l r \<longleftrightarrow> call_ID l = call_ID r \<and> call_CorrelationID l = call_CorrelationID r \<and>
     call_MessageID l = call_MessageID r \<and> call_SessionID l = call_SessionID r \<and> call_RunID l = call_RunID r \<and>
     call_StepID l = call_StepID r \<and> call_Name l = call_Name r \<and> jsonvalue_Equal (call_Arguments l) (call_Arguments r)"

definition sameToolResult :: "ToolResult \<Rightarrow> ToolResult \<Rightarrow> bool" where
  "sameToolResult l r \<longleftrightarrow> res_CallID l = res_CallID r \<and> res_Status l = res_Status r \<and> res_Output l = res_Output r \<and>
     res_Artifacts l = res_Artifacts r \<and> res_Error l = res_Error r"

section \<open>Queue and journal helpers\<close>

fun queueIndex :: "QueueItem list \<Rightarrow> MessageID \<Rightarrow> nat option" where
  "queueIndex [] i = None"
| "queueIndex (q # qs) i = (if msg_ID (qi_Message q) = i then Some 0 else map_option Suc (queueIndex qs i))"

definition remove_at :: "nat \<Rightarrow> 'a list \<Rightarrow> 'a list" where
  "remove_at n xs = take n xs @ drop (n + 1) xs"

definition validQueueItem :: "QueueItem \<Rightarrow> SessionID \<Rightarrow> bool" where
  "validQueueItem q sessionID \<longleftrightarrow> Message_Valid (qi_Message q) \<and> msg_SessionID (qi_Message q) = sessionID \<and>
     msg_Role (qi_Message q) = RoleUser \<and> msg_RunID (qi_Message q) = '''' \<and> msg_StepID (qi_Message q) = '''' \<and>
     Delivery_Valid (qi_Delivery q)"

definition duplicateQueueMessage :: "QueueItem list \<Rightarrow> bool" where
  "duplicateQueueMessage queue \<longleftrightarrow> \<not> distinct (map (msg_ID \<circ> qi_Message) queue)"

definition validateQueueClaims :: "QueueItem list \<Rightarrow> RunState \<Rightarrow> RunID \<Rightarrow> ClassifiedError option" where
  "validateQueueClaims queue state activeRunID = check
     (\<exists>q \<in> set queue. qi_ClaimedBy q \<noteq> '''' \<and> (state \<noteq> RunRunning \<or> qi_ClaimedBy q \<noteq> activeRunID))
     (commit_conflict CodeQueueItemClaimed ''claimed queue item must belong to the active run'')"

definition unfinishedJournal :: "JournalStatus \<Rightarrow> bool" where
  "unfinishedJournal s \<longleftrightarrow> s = JournalPrepared \<or> s = JournalPending"

definition hasUnfinishedJournal :: "JournalEntry list \<Rightarrow> bool" where
  "hasUnfinishedJournal entries \<longleftrightarrow> (\<exists>e \<in> set entries. unfinishedJournal (jrn_Status e))"

definition sameJournalKey :: "JournalEntry \<Rightarrow> JournalEntry \<Rightarrow> bool" where
  "sameJournalKey target entry = (case (jrn_ToolCall target, jrn_ToolCall entry) of
      (Some t, Some e) \<Rightarrow> call_ID t = call_ID e
    | (None, None) \<Rightarrow> jrn_RunID entry = jrn_RunID target \<and> jrn_StepID entry = jrn_StepID target
    | _ \<Rightarrow> False)"

fun journalIndex :: "JournalEntry list \<Rightarrow> JournalEntry \<Rightarrow> nat option" where
  "journalIndex [] target = None"
| "journalIndex (e # es) target = (if sameJournalKey target e then Some 0 else map_option Suc (journalIndex es target))"

section \<open>Whole-transaction checks\<close>

definition appended_calls :: "Change list \<Rightarrow> ToolCall list" where
  "appended_calls changes = List.map_filter (\<lambda>c. if chg_Kind c = AppendToolCall then chg_ToolCall c else None) changes"

definition appended_results :: "Change list \<Rightarrow> ToolResult list" where
  "appended_results changes = List.map_filter (\<lambda>c. if chg_Kind c = AppendToolResult then chg_ToolResult c else None) changes"

definition journal_updates :: "Change list \<Rightarrow> JournalEntry list" where
  "journal_updates changes = List.map_filter (\<lambda>c. if chg_Kind c = UpdateRunJournal then chg_Journal c else None) changes"

definition jrn_callID :: "JournalEntry \<Rightarrow> ToolCallID" where
  "jrn_callID j = call_ID (the (jrn_ToolCall j))"

text \<open>The source's maps keep the last update per call: \<open>prepared\<close>, \<open>pending\<close> and \<open>terminal\<close>.\<close>

definition update_with :: "(JournalStatus \<Rightarrow> bool) \<Rightarrow> Change list \<Rightarrow> ToolCallID \<Rightarrow> JournalEntry option" where
  "update_with P changes i = last_such (\<lambda>j. P (jrn_Status j) \<and> jrn_callID j = i) (journal_updates changes)"

definition last_appended_call :: "Change list \<Rightarrow> ToolCallID \<Rightarrow> ToolCall option" where
  "last_appended_call changes i = last_such (\<lambda>c. call_ID c = i) (appended_calls changes)"

definition last_appended_result :: "Change list \<Rightarrow> ToolCallID \<Rightarrow> ToolResult option" where
  "last_appended_result changes i = last_such (\<lambda>r. res_CallID r = i) (appended_results changes)"

definition emptyMessageCheck :: "Change list \<Rightarrow> Change \<Rightarrow> ClassifiedError option" where
  "emptyMessageCheck changes c = check
     (chg_Kind c = AppendMessage \<and> msg_Parts (the (chg_Message c)) = [] \<and>
      \<not> (\<exists>t \<in> set (appended_calls changes). call_MessageID t = msg_ID (the (chg_Message c))))
     (historyConflict ''empty assistant message requires a tool call in the same transaction'')"

definition toolTransactionCheck :: "HistoryFact list \<Rightarrow> Change list \<Rightarrow> Change \<Rightarrow> ClassifiedError option" where
  "toolTransactionCheck history changes c =
     (if chg_Kind c = AppendToolCall then
        let call = the (chg_ToolCall c);
            entry = (case update_with (\<lambda>s. s = JournalPrepared) changes (call_ID call) of
                       Some e \<Rightarrow> Some e | None \<Rightarrow> update_with (\<lambda>s. s = JournalPending) changes (call_ID call)) in
        (case entry of
           None \<Rightarrow> Some (journalConflict ''tool call and unfinished journal must be committed together'')
         | Some e \<Rightarrow> check (\<not> sameToolCall call (the (jrn_ToolCall e)))
             (journalConflict ''prepared journal does not match the appended tool call''))
      else if chg_Kind c = AppendToolResult then
        let result = the (chg_ToolResult c) in
        (case update_with (\<lambda>s. \<not> unfinishedJournal s) changes (res_CallID result) of
           None \<Rightarrow> Some (journalConflict ''tool result and terminal journal must be committed together'')
         | Some e \<Rightarrow> check (\<not> sameToolResult result (the (jrn_ToolResult e)))
             (journalConflict ''terminal journal does not match the appended tool result''))
      else if chg_Kind c = UpdateRunJournal then
        let j = the (chg_Journal c); callID = jrn_callID j; call = last_appended_call changes callID in
        if jrn_Status j = JournalPrepared \<or> jrn_Status j = JournalPending \<and> call \<noteq> None then
          (case call of
             None \<Rightarrow> Some (journalConflict ''prepared journal has no committed tool call'')
           | Some t \<Rightarrow> check (\<not> sameToolCall t (the (jrn_ToolCall j)))
               (journalConflict ''prepared journal changed the appended tool identity''))
        else if jrn_Status j \<noteq> JournalPending then
          (case last_appended_result changes callID of
             None \<Rightarrow> Some (journalConflict ''terminal journal has no committed tool result'')
           | Some r \<Rightarrow> first_error
               [check (case findToolCall history callID of None \<Rightarrow> True | Some t \<Rightarrow> \<not> sameToolCall t (the (jrn_ToolCall j)))
                  (journalConflict ''terminal journal changed the history tool identity''),
                check (\<not> sameToolResult r (the (jrn_ToolResult j)))
                  (journalConflict ''terminal journal changed the history tool result'')])
        else None
      else None)"

definition validateToolTransactions :: "HistoryFact list \<Rightarrow> Change list \<Rightarrow> ClassifiedError option" where
  "validateToolTransactions history changes = first_error
     (map (emptyMessageCheck changes) changes @ map (toolTransactionCheck history changes) changes)"

fun configSelection :: "Config option \<Rightarrow> SessionEvent option \<Rightarrow> Change list \<Rightarrow>
    ClassifiedError + Config option \<times> SessionEvent option" where
  "configSelection selected event [] = Inr (selected, event)"
| "configSelection selected event (c # cs) =
     (if chg_Kind c = SetModelConfig then
        if selected \<noteq> None then Inl (invalid ''session.commit'' ''model config can change at most once per transaction'')
        else configSelection (chg_ModelConfig c) event cs
      else if chg_Kind c = AppendSessionEvent then
        if event \<noteq> None \<or> sev_Kind (the (chg_SessionEvent c)) \<noteq> EventModelConfigChanged then
          Inl (invalid ''session.commit'' ''model config transaction requires one change event'')
        else configSelection selected (chg_SessionEvent c) cs
      else configSelection selected event cs)"

definition validateModelConfigTransaction :: "Config \<Rightarrow> Change list \<Rightarrow> ClassifiedError option" where
  "validateModelConfigTransaction current changes = (case configSelection None None changes of
      Inl e \<Rightarrow> Some e
    | Inr (None, None) \<Rightarrow> None
    | Inr (Some selected, Some event) \<Rightarrow> (case sev_ModelConfigChanged event of
        None \<Rightarrow> Some (invalid ''session.commit'' ''model config and ModelConfigChanged event must be committed together'')
      | Some c \<Rightarrow> check (\<not> sameModelConfig current (mcc_Previous c) \<or> \<not> sameModelConfig selected (mcc_Current c))
          (invalid ''session.commit'' ''ModelConfigChanged event does not match the atomic transition''))
    | Inr _ \<Rightarrow> Some (invalid ''session.commit'' ''model config and ModelConfigChanged event must be committed together''))"

section \<open>History changes\<close>

text \<open>Append one payload to the working snapshot; \<open>wrap\<close> classifies the append's plain error.\<close>

definition append_payload :: "clock \<Rightarrow> (string \<Rightarrow> ClassifiedError) \<Rightarrow> SessionID \<Rightarrow> ActorIdentity \<Rightarrow> Snapshot \<Rightarrow>
    HistoryFact \<Rightarrow> ClassifiedError + Snapshot" where
  "append_payload clock wrap sessionID actor s f =
     (case appendHistoryFact clock (snap_History s) sessionID f actor of
        Inl e \<Rightarrow> Inl (wrap e)
      | Inr h \<Rightarrow> Inr (s\<lparr>snap_History := h\<rparr>))"

definition appendMessage :: "clock \<Rightarrow> CommitRequest \<Rightarrow> Snapshot \<Rightarrow> Message \<Rightarrow> ClassifiedError + Snapshot" where
  "appendMessage clock request s m =
     guardE (check (containsMessage (snap_History s) (msg_ID m)) (historyConflict ''message ID already exists''))
       (append_payload clock historyConflict (creq_SessionID request) (creq_Actor request) s (zero_fact\<lparr>fact_Message := Some m\<rparr>))"

definition appendToolCall :: "clock \<Rightarrow> CommitRequest \<Rightarrow> Snapshot \<Rightarrow> ToolCall \<Rightarrow> ClassifiedError + Snapshot" where
  "appendToolCall clock request s call =
     guardE (first_error
       [check (containsToolCall (snap_History s) (call_ID call)) (historyConflict ''tool call ID already exists''),
        (case findMessage (snap_History s) (call_MessageID call) of
           None \<Rightarrow> Some (historyConflict ''tool call references an unknown assistant message'')
         | Some p \<Rightarrow> check (msg_Role p \<noteq> RoleAssistant \<or> msg_RunID p \<noteq> call_RunID call \<or> msg_StepID p \<noteq> call_StepID call)
             (historyConflict ''tool call containment differs from its assistant message''))])
       (append_payload clock historyConflict (creq_SessionID request) (creq_Actor request) s (zero_fact\<lparr>fact_ToolCall := Some call\<rparr>))"

definition appendToolResult :: "clock \<Rightarrow> CommitRequest \<Rightarrow> Snapshot \<Rightarrow> ToolResult \<Rightarrow> ClassifiedError + Snapshot" where
  "appendToolResult clock request s result =
     guardE (first_error
       [check (findToolCall (snap_History s) (res_CallID result) = None) (historyConflict ''tool result has no preceding tool call''),
        check (hasToolResult (snap_History s) (res_CallID result)) (historyConflict ''tool call already has a terminal result'')])
       (append_payload clock historyConflict (creq_SessionID request) (creq_Actor request) s (zero_fact\<lparr>fact_ToolResult := Some result\<rparr>))"

definition is_active :: "Snapshot \<Rightarrow> RunID \<Rightarrow> bool" where
  "is_active s runID \<longleftrightarrow> snap_RunState s = RunRunning \<and> snap_ActiveRunID s = runID"

definition runFactCheck :: "Snapshot \<Rightarrow> RunFact \<Rightarrow> ClassifiedError option" where
  "runFactCheck s f =
     (case runFacts (snap_History s) (run_RunID f) of (started, terminal) \<Rightarrow>
      if run_Kind f = RunStarted then first_error
        [check (started \<noteq> None) (historyConflict ''run already has a start fact''),
         check (\<not> is_active s (run_RunID f)) (historyConflict ''run start fact requires the active run'')]
      else if run_Kind f \<in> {RunCompleted, RunCanceled, RunFailed, RunInterrupted} then first_error
        [check (started = None \<or> terminal \<noteq> None) (historyConflict ''run terminal fact requires one unterminated start fact''),
         check (\<not> is_active s (run_RunID f)) (historyConflict ''run terminal fact requires the active run''),
         check (run_ConfigRevision (the started) \<noteq> run_ConfigRevision f \<or>
                \<not> sameModelConfig (run_ModelConfig (the started)) (run_ModelConfig f))
           (historyConflict ''run terminal fact changed the frozen model config''),
         check (run_Kind f \<noteq> RunCompleted \<and> run_Termination f = None)
           (historyConflict ''non-successful run terminal requires a termination'')]
      else None)"

definition appendRunFact :: "clock \<Rightarrow> Snapshot \<Rightarrow> RunFact \<Rightarrow> ActorIdentity \<Rightarrow> ClassifiedError + Snapshot" where
  "appendRunFact clock s f actor = guardE (runFactCheck s f)
     (append_payload clock plain_error (ses_ID (snap_Session s)) actor s (zero_fact\<lparr>fact_Run := Some f\<rparr>))"

definition attemptFacts :: "HistoryFact list \<Rightarrow> AttemptID \<Rightarrow> ModelAttemptFact option \<times> ModelAttemptFact option" where
  "attemptFacts history i =
     (let attempts = filter (\<lambda>a. att_AttemptID a = i) (List.map_filter fact_ModelAttempt history) in
      (last_such (\<lambda>a. att_Kind a = Attempt_Started) attempts, last_such (\<lambda>a. att_Kind a \<noteq> Attempt_Started) attempts))"

definition sameAttemptIdentity :: "ModelAttemptFact \<Rightarrow> ModelAttemptFact \<Rightarrow> bool" where
  "sameAttemptIdentity a b \<longleftrightarrow> att_RunID a = att_RunID b \<and> att_StepID a = att_StepID b \<and>
     att_ProviderKey a = att_ProviderKey b \<and> att_ModelID a = att_ModelID b"

definition attemptCheck :: "Snapshot \<Rightarrow> ModelAttemptFact \<Rightarrow> ClassifiedError option" where
  "attemptCheck s f =
     (case attemptFacts (snap_History s) (att_AttemptID f) of (started, terminal) \<Rightarrow>
      if att_Kind f = Attempt_Started then first_error
        [check (started \<noteq> None \<or> terminal \<noteq> None) (historyConflict ''model attempt already started''),
         check (\<not> is_active s (att_RunID f)) (historyConflict ''model attempt requires the active run''),
         check (case fst (runFacts (snap_History s) (att_RunID f)) of None \<Rightarrow> True
                | Some r \<Rightarrow> cfg_ProviderKey (run_ModelConfig r) \<noteq> att_ProviderKey f \<or> cfg_ModelID (run_ModelConfig r) \<noteq> att_ModelID f)
           (historyConflict ''model attempt does not match the frozen run model'')]
      else first_error
        [check (started = None \<or> terminal \<noteq> None) (historyConflict ''model attempt terminal requires one unterminated start''),
         check (\<not> sameAttemptIdentity (the started) f) (historyConflict ''model attempt terminal changed identity'')])"

definition appendModelAttemptFact :: "clock \<Rightarrow> Snapshot \<Rightarrow> ModelAttemptFact \<Rightarrow> ActorIdentity \<Rightarrow> ClassifiedError + Snapshot" where
  "appendModelAttemptFact clock s f actor = guardE (attemptCheck s f)
     (append_payload clock plain_error (ses_ID (snap_Session s)) actor s (zero_fact\<lparr>fact_ModelAttempt := Some f\<rparr>))"

definition budget_of :: "RunID \<Rightarrow> HistoryFact \<Rightarrow> bool" where
  "budget_of runID h = (case fact_RunBudgetExceeded h of None \<Rightarrow> False | Some b \<Rightarrow> bex_RunID b = runID)"

definition limit_of :: "RunID \<Rightarrow> HistoryFact \<Rightarrow> bool" where
  "limit_of runID h = (case fact_RunLimitExceeded h of None \<Rightarrow> False | Some l \<Rightarrow> lim_RunID l = runID)"

fun usedTokens :: "RunID \<Rightarrow> int64 \<Rightarrow> HistoryFact list \<Rightarrow> ClassifiedError + int64" where
  "usedTokens runID used [] = Inr used"
| "usedTokens runID used (h # hs) =
     (if budget_of runID h then Inl (historyConflict ''run budget was already exceeded'')
      else if limit_of runID h then Inl (historyConflict ''run limit was already exceeded'')
      else case fact_ModelAttempt h of
        None \<Rightarrow> usedTokens runID used hs
      | Some a \<Rightarrow>
          if att_RunID a \<noteq> runID \<or> att_Kind a = Attempt_Started then usedTokens runID used hs
          else if slt (used + use_TotalTokens (att_Usage a)) used then Inl (historyConflict ''run token usage overflow'')
          else usedTokens runID (used + use_TotalTokens (att_Usage a)) hs)"

definition appendRunBudgetExceededFact ::
    "clock \<Rightarrow> Snapshot \<Rightarrow> RunBudgetExceededFact \<Rightarrow> ActorIdentity \<Rightarrow> ClassifiedError + Snapshot" where
  "appendRunBudgetExceededFact clock s f actor =
     guardE (map_option historyConflict (RunBudgetExceededFact_Validate f))
       (guardE (check (\<not> is_active s (bex_RunID f)) (historyConflict ''run budget fact requires the active run''))
         (bindE (usedTokens (bex_RunID f) 0 (snap_History s)) (\<lambda>used.
            guardE (check (used \<noteq> bex_UsedTokens f) (historyConflict ''run budget usage differs from durable model attempts''))
              (append_payload clock plain_error (ses_ID (snap_Session s)) actor s (zero_fact\<lparr>fact_RunBudgetExceeded := Some f\<rparr>)))))"

definition started_for :: "RunID \<Rightarrow> HistoryFact \<Rightarrow> ModelAttemptFact option" where
  "started_for runID h = (case fact_ModelAttempt h of None \<Rightarrow> None
    | Some a \<Rightarrow> if att_RunID a = runID \<and> att_Kind a = Attempt_Started then Some a else None)"

definition call_for :: "RunID \<Rightarrow> HistoryFact \<Rightarrow> ToolCall option" where
  "call_for runID h = (case fact_ToolCall h of None \<Rightarrow> None | Some c \<Rightarrow> if call_RunID c = runID then Some c else None)"

fun limitCounts :: "RunLimitExceededFact \<Rightarrow> int64 \<Rightarrow> int64 \<Rightarrow> HistoryFact list \<Rightarrow> ClassifiedError + int64 \<times> int64" where
  "limitCounts f attempts calls [] = Inr (attempts, calls)"
| "limitCounts f attempts calls (h # hs) =
     (let attempt = started_for (lim_RunID f) h; call = call_for (lim_RunID f) h in
      if limit_of (lim_RunID f) h then Inl (historyConflict ''run limit was already exceeded'')
      else if budget_of (lim_RunID f) h then Inl (historyConflict ''run budget was already exceeded'')
      else if map_option att_AttemptID attempt = Some (lim_TriggerAttemptID f) then
        Inl (historyConflict ''rejected model attempt was already started'')
      else if map_option call_ID call = Some (lim_TriggerToolCallID f) then
        Inl (historyConflict ''rejected tool call was already admitted'')
      else limitCounts f (if attempt = None then attempts else attempts + 1) (if call = None then calls else calls + 1) hs)"

definition appendRunLimitExceededFact ::
    "clock \<Rightarrow> Snapshot \<Rightarrow> RunLimitExceededFact \<Rightarrow> ActorIdentity \<Rightarrow> ClassifiedError + Snapshot" where
  "appendRunLimitExceededFact clock s f actor =
     guardE (map_option historyConflict (RunLimitExceededFact_Validate f))
       (guardE (check (\<not> is_active s (lim_RunID f)) (historyConflict ''run limit fact requires the active run''))
         (bindE (limitCounts f 0 0 (snap_History s)) (\<lambda>(attempts, calls).
            guardE (check ((if lim_Kind f = RunLimitToolCalls then calls else attempts) \<noteq> lim_Used f)
                     (historyConflict ''run limit usage differs from durable history''))
              (append_payload clock plain_error (ses_ID (snap_Session s)) actor s (zero_fact\<lparr>fact_RunLimitExceeded := Some f\<rparr>)))))"

definition appendContextContributionFact ::
    "clock \<Rightarrow> Snapshot \<Rightarrow> ContextContributionFact \<Rightarrow> ActorIdentity \<Rightarrow> ClassifiedError + Snapshot" where
  "appendContextContributionFact clock s f actor =
     guardE (first_error
       [check (\<not> is_active s (ctr_RunID f)) (historyConflict ''context contribution requires the active run''),
        check (\<exists>c \<in> set (List.map_filter fact_ContextContribution (snap_History s)).
                 ctr_RunID c = ctr_RunID f \<and> ctr_StepID c = ctr_StepID f \<and> ctr_SourceKey c = ctr_SourceKey f)
          (historyConflict ''context source already contributed to this step'')])
       (append_payload clock historyConflict (ses_ID (snap_Session s)) actor s (zero_fact\<lparr>fact_ContextContribution := Some f\<rparr>))"

definition appendSessionEvent :: "clock \<Rightarrow> CommitRequest \<Rightarrow> Snapshot \<Rightarrow> SessionEvent \<Rightarrow> ClassifiedError + Snapshot" where
  "appendSessionEvent clock request s event =
     append_payload clock historyConflict (creq_SessionID request) (creq_Actor request)
       (s\<lparr>snap_Events := snap_Events s @ [event\<lparr>sev_Revision := Revision_Next (snap_Revision s)\<rparr>]\<rparr>)
       (zero_fact\<lparr>fact_ModelConfigChanged := sev_ModelConfigChanged event\<rparr>)"

section \<open>Queue changes\<close>

definition enqueueMessage :: "Snapshot \<Rightarrow> QueueItem \<Rightarrow> ClassifiedError + Snapshot" where
  "enqueueMessage s q = guardE (first_error
     [check (Claimed q) (invalid ''session.commit'' ''new queue item cannot already be claimed''),
      check (queueIndex (snap_Queue s) (msg_ID (qi_Message q)) \<noteq> None)
        (commit_conflict CodeQueueItemAlreadyExists ''queue message ID already exists'')])
     (Inr (s\<lparr>snap_Queue := snap_Queue s @ [q]\<rparr>))"

definition with_item :: "Snapshot \<Rightarrow> MessageID \<Rightarrow> (nat \<Rightarrow> QueueItem \<Rightarrow> ClassifiedError + Snapshot) \<Rightarrow> ClassifiedError + Snapshot" where
  "with_item s i f = (case queueIndex (snap_Queue s) i of
      None \<Rightarrow> Inl (queueNotFound ''queue item not found'')
    | Some n \<Rightarrow> f n (snap_Queue s ! n))"

definition claimQueue :: "Snapshot \<Rightarrow> QueueClaim \<Rightarrow> ClassifiedError + Snapshot" where
  "claimQueue s c = with_item s (qc_MessageID c) (\<lambda>n q. guardE (first_error
     [check (Claimed q) (commit_conflict CodeQueueItemClaimed ''queue item is already claimed''),
      check (\<not> is_active s (qc_RunID c)) (commit_conflict CodeNoActiveRun ''queue claim must belong to the active run'')])
     (Inr (s\<lparr>snap_Queue := (snap_Queue s)[n := q\<lparr>qi_ClaimedBy := qc_RunID c\<rparr>]\<rparr>)))"

definition consumeQueue :: "Snapshot \<Rightarrow> QueueConsume \<Rightarrow> ClassifiedError + Snapshot" where
  "consumeQueue s c = with_item s (qn_MessageID c) (\<lambda>n q. guardE
     (check (qi_ClaimedBy q \<noteq> qn_RunID c) (commit_conflict CodeQueueItemClaimed ''queue item is not claimed by this run''))
     (Inr (s\<lparr>snap_Queue := remove_at n (snap_Queue s)\<rparr>)))"

definition editQueue :: "Snapshot \<Rightarrow> QueueEdit \<Rightarrow> ClassifiedError + Snapshot" where
  "editQueue s e = with_item s (qe_MessageID e) (\<lambda>n q. guardE
     (check (Claimed q) (commit_conflict CodeQueueItemClaimed ''claimed queue item cannot be edited''))
     (Inr (s\<lparr>snap_Queue := (snap_Queue s)[n := q\<lparr>qi_Message := (qi_Message q)\<lparr>msg_Parts := input_Parts (qe_Input e)\<rparr>,
        qi_Delivery := qe_Delivery e\<rparr>]\<rparr>)))"

definition deleteQueue :: "Snapshot \<Rightarrow> MessageID \<Rightarrow> ClassifiedError + Snapshot" where
  "deleteQueue s i = with_item s i (\<lambda>n q. guardE
     (check (Claimed q) (commit_conflict CodeQueueItemClaimed ''claimed queue item cannot be deleted''))
     (Inr (s\<lparr>snap_Queue := remove_at n (snap_Queue s)\<rparr>)))"

definition reclassifyQueue :: "Snapshot \<Rightarrow> QueueReclassify \<Rightarrow> ClassifiedError + Snapshot" where
  "reclassifyQueue s r = with_item s (qr_MessageID r) (\<lambda>n q. guardE
     (check (Claimed q) (commit_conflict CodeQueueItemClaimed ''claimed queue item cannot be reclassified''))
     (Inr (s\<lparr>snap_Queue := (snap_Queue s)[n := q\<lparr>qi_Delivery := qr_Delivery r\<rparr>]\<rparr>)))"

section \<open>Context, configuration, run state and journals\<close>

definition validateContext :: "ContextView \<Rightarrow> SessionID \<Rightarrow> ClassifiedError option" where
  "validateContext v sessionID =
     (let op = ''session.context''; request = ctx_Request v in
      if ctx_Version v = 0 then
        check (ctx_SourceRevision v \<noteq> 0 \<or> ctx_SourceHistorySequence v \<noteq> 0 \<or> ctx_TokenCount v \<noteq> 0 \<or> mreq_SessionID request \<noteq> '''')
          (invalid op ''empty context contains versioned data'')
      else first_error
        ([check (ctx_SourceRevision v = 0 \<or> ctx_TokenCount v < 0) (invalid op ''versioned context metadata is invalid''),
          check (mreq_SessionID request \<noteq> sessionID \<or> \<not> validID (mreq_RunID request) \<or> \<not> validID (mreq_StepID request))
            (invalid op ''context request containment is invalid''),
          map_option (invalid op) (Config_Validate (mreq_Config request))] @
         map (\<lambda>i. first_error
           [check (case inp_Message i of None \<Rightarrow> False | Some m \<Rightarrow> msg_SessionID m \<noteq> sessionID)
              (invalid op ''context message does not belong to session''),
            check (case inp_ToolCall i of None \<Rightarrow> False | Some c \<Rightarrow> call_SessionID c \<noteq> sessionID)
              (invalid op ''context tool call does not belong to session'')]) (mreq_Inputs request) @
         [map_option (invalid op) (ValidateInputs (mreq_Inputs request))] @
         map (\<lambda>d. map_option (invalid op) (Definition_Validate d)) (mreq_Tools request)))"

definition validateContextRun :: "HistoryFact list \<Rightarrow> ContextView \<Rightarrow> ClassifiedError option" where
  "validateContextRun history v =
     (if ctx_Version v = 0 then None
      else case fst (runFacts history (mreq_RunID (ctx_Request v))) of
        None \<Rightarrow> Some (historyConflict ''context request has no RunStarted fact'')
      | Some r \<Rightarrow> check (mreq_ConfigRevision (ctx_Request v) \<noteq> run_ConfigRevision r \<or>
            \<not> sameModelConfig (mreq_Config (ctx_Request v)) (run_ModelConfig r))
          (historyConflict ''context request changed the frozen run model''))"

definition latestSequence :: "HistoryFact list \<Rightarrow> HistorySequence" where
  "latestSequence history = (if history = [] then 0 else fact_Sequence (last history))"

definition setContext :: "CommitRequest \<Rightarrow> Snapshot \<Rightarrow> ContextView \<Rightarrow> bool \<Rightarrow> ClassifiedError + Snapshot" where
  "setContext request s v retain = guardE (first_error
     [check (ctx_SourceRevision v \<noteq> creq_ExpectedRevision request)
        (commit_conflict CodeRevisionConflict ''context source revision must match the committed aggregate''),
      check (ctx_Version v \<noteq> ctx_Version (snap_Context s) + 1)
        (commit_conflict CodeRevisionConflict ''context version must advance exactly once''),
      check (ctx_SourceHistorySequence v \<noteq> latestSequence (snap_History s))
        (commit_conflict CodeRevisionConflict ''context history sequence must match the latest durable fact''),
      validateContext v (creq_SessionID request),
      validateContextRun (snap_History s) v])
     (Inr (s\<lparr>snap_RetainedContexts :=
               (if retain \<and> ctx_Version (snap_Context s) \<noteq> 0 then snap_RetainedContexts s @ [snap_Context s]
                else if \<not> retain then [] else snap_RetainedContexts s),
             snap_Context := v\<rparr>))"

definition setModelConfig :: "Snapshot \<Rightarrow> Config \<Rightarrow> ClassifiedError + Snapshot" where
  "setModelConfig s c = guardE
     (check (snap_RunState s = RunRunning) (commit_conflict CodeActiveRun ''model config cannot change while a run is active''))
     (Inr (s\<lparr>snap_ModelConfig := c\<rparr>))"

definition applyRunState :: "Snapshot \<Rightarrow> RunStateChange \<Rightarrow> ClassifiedError + Snapshot" where
  "applyRunState s change = (case rsc_State change of
      RunRunning \<Rightarrow> guardE
        (check (snap_RunState s = RunRunning) (commit_conflict CodeActiveRun ''session already has an active run''))
        (Inr (s\<lparr>snap_RunState := RunRunning, snap_ActiveRunID := rsc_RunID change\<rparr>))
    | RunIdle \<Rightarrow> guardE
        (check (\<not> is_active s (rsc_RunID change)) (commit_conflict CodeNoActiveRun ''run is not active''))
        (Inr (s\<lparr>snap_RunState := RunIdle, snap_ActiveRunID := ''''\<rparr>))
    | RunState_other _ \<Rightarrow> Inl (invalid ''session.commit'' ''invalid run state''))"

definition identity_changed :: "JournalEntry \<Rightarrow> JournalEntry \<Rightarrow> bool" where
  "identity_changed current entry \<longleftrightarrow> jrn_RunID current \<noteq> jrn_RunID entry \<or> jrn_StepID current \<noteq> jrn_StepID entry \<or>
     (case jrn_ToolCall current of None \<Rightarrow> True | Some c \<Rightarrow> \<not> sameToolCall c (the (jrn_ToolCall entry)))"

definition advanceJournal :: "JournalEntry \<Rightarrow> JournalEntry \<Rightarrow> ClassifiedError + JournalEntry" where
  "advanceJournal current entry =
     (if \<not> unfinishedJournal (jrn_Status current) then Inl (journalConflict ''journal entry already has a terminal outcome'')
      else if jrn_Status entry = JournalPrepared then Inl (journalConflict ''journal entry is already prepared'')
      else if jrn_Status entry = JournalPending then
        (if jrn_Status current \<noteq> JournalPrepared then Inl (journalConflict ''journal entry is already pending'')
         else if identity_changed current entry then Inl (journalConflict ''journal update changed the prepared tool identity'')
         else Inr (current\<lparr>jrn_Status := JournalPending\<rparr>))
      else case jrn_ToolResult entry of
        None \<Rightarrow> Inl (journalConflict ''terminal journal requires a result'')
      | Some r \<Rightarrow>
          if (case jrn_ToolCall current of None \<Rightarrow> False | Some c \<Rightarrow> res_CallID r \<noteq> call_ID c) then
            Inl (journalConflict ''journal result does not match tool call'')
          else if identity_changed current entry then
            Inl (journalConflict ''journal update changed the pending tool identity'')
          else Inr (current\<lparr>jrn_ToolResult := Some r, jrn_Status := jrn_Status entry\<rparr>))"

definition applyJournal :: "Snapshot \<Rightarrow> JournalEntry \<Rightarrow> SessionID \<Rightarrow> ClassifiedError + Snapshot" where
  "applyJournal s entry sessionID =
     guardE (map_option journalConflict (JournalEntry_Validate entry sessionID))
       (case journalIndex (snap_RunJournal s) entry of
          None \<Rightarrow> guardE (first_error
            [check (\<not> unfinishedJournal (jrn_Status entry) \<or> jrn_ToolCall entry = None)
               (journalConflict ''journal must begin in an unfinished state''),
             check (\<not> is_active s (jrn_RunID entry)) (journalConflict ''prepared tool call must belong to the active run'')])
            (Inr (s\<lparr>snap_RunJournal := snap_RunJournal s @ [entry]\<rparr>))
        | Some n \<Rightarrow> bindE (advanceJournal (snap_RunJournal s ! n) entry) (\<lambda>e.
            Inr (s\<lparr>snap_RunJournal := (snap_RunJournal s)[n := e]\<rparr>)))"

section \<open>The transaction\<close>

definition applyChange :: "typed_fingerprint \<Rightarrow> clock \<Rightarrow> CommitRequest \<Rightarrow> Snapshot \<Rightarrow> Change \<Rightarrow> ClassifiedError + Snapshot" where
  "applyChange fpt clock request s c = (case chg_Kind c of
      AppendMessage \<Rightarrow> appendMessage clock request s (the (chg_Message c))
    | AppendToolCall \<Rightarrow> appendToolCall clock request s (the (chg_ToolCall c))
    | AppendToolResult \<Rightarrow> appendToolResult clock request s (the (chg_ToolResult c))
    | AppendRunFact \<Rightarrow> appendRunFact clock s (the (chg_RunFact c)) (creq_Actor request)
    | AppendModelAttempt \<Rightarrow> appendModelAttemptFact clock s (the (chg_ModelAttempt c)) (creq_Actor request)
    | AppendContextContribution \<Rightarrow> appendContextContributionFact clock s (the (chg_ContextContribution c)) (creq_Actor request)
    | AppendRunBudgetExceeded \<Rightarrow> appendRunBudgetExceededFact clock s (the (chg_RunBudgetExceeded c)) (creq_Actor request)
    | AppendRunLimitExceeded \<Rightarrow> appendRunLimitExceededFact clock s (the (chg_RunLimitExceeded c)) (creq_Actor request)
    | AppendSessionEvent \<Rightarrow> appendSessionEvent clock request s (the (chg_SessionEvent c))
    | EnqueueMessage \<Rightarrow> enqueueMessage s (the (chg_QueueItem c))
    | ClaimQueue \<Rightarrow> claimQueue s (the (chg_QueueClaim c))
    | ConsumeQueue \<Rightarrow> consumeQueue s (the (chg_QueueConsume c))
    | EditQueue \<Rightarrow> editQueue s (the (chg_QueueEdit c))
    | DeleteQueue \<Rightarrow> deleteQueue s (the (chg_QueueDelete c))
    | ReclassifyQueue \<Rightarrow> reclassifyQueue s (the (chg_QueueReclassification c))
    | SetContext \<Rightarrow> setContext request s (the (chg_Context c)) (chg_RetainPreviousContext c)
    | SetModelConfig \<Rightarrow> setModelConfig s (the (chg_ModelConfig c))
    | SetRunState \<Rightarrow> applyRunState s (the (chg_RunState c))
    | UpdateRunJournal \<Rightarrow> applyJournal s (the (chg_Journal c)) (creq_SessionID request)
    | UpdateExtensionJournal \<Rightarrow>
        bindE (applyExtensionJournal fpt (ses_ID (snap_Session s)) (snap_ExtensionJournal s) (the (chg_Extension c)))
          (\<lambda>j. Inr (s\<lparr>snap_ExtensionJournal := j\<rparr>))
    | ChangeKind_other _ \<Rightarrow> Inr s)"

definition finalChecks :: "Snapshot \<Rightarrow> ClassifiedError option" where
  "finalChecks s = first_error
     [check (snap_RunState s = RunIdle \<and> hasUnfinishedJournal (snap_RunJournal s))
        (journalConflict ''idle session cannot retain unfinished tool execution''),
      validateQueueClaims (snap_Queue s) (snap_RunState s) (snap_ActiveRunID s)]"

definition applyChanges :: "typed_fingerprint \<Rightarrow> clock \<Rightarrow> Snapshot \<Rightarrow> CommitRequest \<Rightarrow> ClassifiedError + Snapshot" where
  "applyChanges fpt clock s request =
     guardE (first_error (map (\<lambda>c. map_option (invalid ''session.commit'') (Change_Validate fpt c (creq_SessionID request)))
               (creq_Changes request)))
       (guardE (validateToolTransactions (snap_History s) (creq_Changes request))
         (guardE (validateModelConfigTransaction (snap_ModelConfig s) (creq_Changes request))
           (bindE (foldE (applyChange fpt clock request) s (creq_Changes request)) (\<lambda>t. guardE (finalChecks t) (Inr t)))))"

end
