(* ===== verification/Session_Recovery.thy ===== *)
theory Session_Recovery
  imports Session_Changes
begin

text \<open>
  \<^verbatim>\<open>recoverAggregate\<close> of \<^verbatim>\<open>session/memory_store.go\<close>: the crash recovery of one aggregate. The source
  mutates the aggregate in place, so the model returns the snapshot reached together with either the
  error or the \<^verbatim>\<open>changed\<close> flag. Two things of the environment are parameters: the readings of the
  clock (\<open>clock\<close> for appended facts, \<open>xclock\<close> for the extension entry at an index), and \<open>ord\<close>, the
  order in which Go's \<^verbatim>\<open>range\<close> visits the map of started attempts, which the language leaves open.
\<close>

section \<open>Extension journal\<close>

definition recoverExtension :: "time \<Rightarrow> ExtensionJournalEntry \<Rightarrow> ExtensionJournalEntry" where
  "recoverExtension now e =
     (if xj_Status e \<noteq> InvocationPending then e
      else e\<lparr>xj_Status := InvocationOutcomeUnknown,
             xj_FinishedAt := (if now < xj_PendingAt e then xj_PendingAt e else now),
             xj_ErrorCode := ''hook_outcome_unknown'',
             xj_ErrorReason := ''extension outcome is unknown after process recovery'',
             xj_EffectDisposition := EffectPending\<rparr>)"

definition recoverExtensions :: "(nat \<Rightarrow> time) \<Rightarrow> ExtensionJournalEntry list \<Rightarrow> ExtensionJournalEntry list" where
  "recoverExtensions xclock entries = map (\<lambda>(i, e). recoverExtension (xclock i) e) (enumerate 0 entries)"

section \<open>Model attempts\<close>

definition attempts_of :: "HistoryFact list \<Rightarrow> ModelAttemptFact list" where
  "attempts_of history = List.map_filter fact_ModelAttempt history"

definition startedAttempts :: "HistoryFact list \<Rightarrow> AttemptID list" where
  "startedAttempts history = remdups (map att_AttemptID (filter (\<lambda>a. att_Kind a = Attempt_Started) (attempts_of history)))"

definition terminalAttempts :: "HistoryFact list \<Rightarrow> AttemptID list" where
  "terminalAttempts history = map att_AttemptID (filter (\<lambda>a. att_Kind a \<noteq> Attempt_Started) (attempts_of history))"

definition startOf :: "HistoryFact list \<Rightarrow> AttemptID \<Rightarrow> ModelAttemptFact" where
  "startOf history i = the (last_such (\<lambda>a. att_Kind a = Attempt_Started \<and> att_AttemptID a = i) (attempts_of history))"

definition orphaned :: "ModelAttemptFact \<Rightarrow> ModelAttemptFact" where
  "orphaned a = a\<lparr>att_Kind := Attempt_OutcomeUnknown, att_ErrorCode := ''process_interrupted''\<rparr>"

definition recover_error :: "string \<Rightarrow> ClassifiedError" where
  "recover_error message = NewError ErrorInternal ''session.recover'' message"

definition recover_append :: "clock \<Rightarrow> string \<Rightarrow> Snapshot \<Rightarrow> HistoryFact \<Rightarrow> ClassifiedError option \<times> Snapshot" where
  "recover_append clock message s f =
     (case append_payload clock (\<lambda>_. recover_error message) (ses_ID (snap_Session s)) zero_actor s f of
        Inl e \<Rightarrow> (Some e, s) | Inr t \<Rightarrow> (None, t))"

definition terminateAttempt :: "clock \<Rightarrow> HistoryFact list \<Rightarrow> Snapshot \<times> bool \<Rightarrow> AttemptID \<Rightarrow>
    ClassifiedError option \<times> Snapshot \<times> bool" where
  "terminateAttempt clock history st i =
     (if i \<in> set (terminalAttempts history) then (None, st)
      else case recover_append clock ''cannot terminate orphaned model attempt'' (fst st)
                  (zero_fact\<lparr>fact_ModelAttempt := Some (orphaned (startOf history i))\<rparr>) of
             (Some e, t) \<Rightarrow> (Some e, t, snd st) | (None, t) \<Rightarrow> (None, t, True))"

section \<open>The tool journal\<close>

definition recoverJournalEntry :: "clock \<Rightarrow> RunID \<Rightarrow> Snapshot \<times> bool \<times> bool \<Rightarrow> nat \<Rightarrow>
    ClassifiedError option \<times> Snapshot \<times> bool \<times> bool" where
  "recoverJournalEntry clock interrupted st i = (case st of (s, hasPrepared, changed) \<Rightarrow>
     (let e = snap_RunJournal s ! i in
      case jrn_ToolCall e of
        None \<Rightarrow> (None, st)
      | Some call \<Rightarrow>
          if jrn_Status e = JournalPrepared \<and> jrn_RunID e = interrupted then (None, s, True, changed)
          else if jrn_Status e \<noteq> JournalPending then (None, st)
          else
            let result = toolUnknown (call_ID call);
                (err, t) = (if hasToolResult (snap_History s) (call_ID call) then (None, s)
                            else recover_append clock ''cannot append unknown tool result'' s
                                   (zero_fact\<lparr>fact_ToolResult := Some result\<rparr>)) in
            (case err of
               Some x \<Rightarrow> (Some x, t, hasPrepared, changed)
             | None \<Rightarrow> (None, t\<lparr>snap_RunJournal := (snap_RunJournal t)
                 [i := e\<lparr>jrn_ToolResult := Some result, jrn_Status := JournalOutcomeUnknown\<rparr>]\<rparr>, hasPrepared, True))))"

section \<open>The interrupted run and its queue\<close>

definition recoveredRunTermination :: "HistoryFact list \<Rightarrow> RunID \<Rightarrow> RunTermination" where
  "recoveredRunTermination history runID =
     (case List.find (\<lambda>f. limit_of runID f \<or> budget_of runID f) (rev history) of
        None \<Rightarrow> \<lparr>term_Source = TerminationRuntime, term_Kind = ErrorUnavailable, term_Code = CodeRuntimeInterrupted, term_SafeMessage = ''''\<rparr>
      | Some f \<Rightarrow> \<lparr>term_Source = TerminationBudget, term_Kind = ErrorUnavailable,
          term_Code = (if limit_of runID f then
              (if lim_Kind (the (fact_RunLimitExceeded f)) = RunLimitToolCalls then CodeRunToolCallLimitExceeded
               else CodeRunModelAttemptLimitExceeded)
            else CodeRunTokenBudgetExceeded),
          term_SafeMessage = ''''\<rparr>)"

definition pendingCompletion :: "RunID \<Rightarrow> ExtensionJournalEntry \<Rightarrow> bool" where
  "pendingCompletion interrupted e \<longleftrightarrow> xj_Boundary e = BoundaryCompletion \<and> xj_RunID e = interrupted \<and>
     (xj_Status e = InvocationPrepared \<or> InvocationStatus_Terminal (xj_Status e) \<and> xj_EffectDisposition e = EffectPending)"

definition interruptRun :: "clock \<Rightarrow> RunID \<Rightarrow> Snapshot \<Rightarrow> ClassifiedError option \<times> Snapshot" where
  "interruptRun clock interrupted s =
     (let (err, t) = (case runFacts (snap_History s) interrupted of
            (Some started, None) \<Rightarrow> recover_append clock ''cannot append interrupted run'' s
              (zero_fact\<lparr>fact_Run := Some (started\<lparr>run_Kind := RunInterrupted,
                 run_Termination := Some (recoveredRunTermination (snap_History s) interrupted)\<rparr>)\<rparr>)
          | _ \<Rightarrow> (None, s)) in
      case err of Some e \<Rightarrow> (Some e, t) | None \<Rightarrow> (None, t\<lparr>snap_RunState := RunIdle, snap_ActiveRunID := ''''\<rparr>))"

definition recoverQueueItem :: "RunID \<Rightarrow> QueueItem \<Rightarrow> QueueItem" where
  "recoverQueueItem interrupted q = q
     \<lparr>qi_ClaimedBy := (if qi_ClaimedBy q = interrupted then '''' else qi_ClaimedBy q),
      qi_Delivery := (if qi_Delivery q = DeliverySteer then DeliveryHeld else qi_Delivery q)\<rparr>"

definition recoverQueue :: "RunID \<Rightarrow> bool \<Rightarrow> QueueItem list \<Rightarrow> QueueItem list" where
  "recoverQueue interrupted hasRecoverableWork queue =
     (if \<not> validID interrupted \<or> hasRecoverableWork then queue else map (recoverQueueItem interrupted) queue)"

definition queue_touched :: "RunID \<Rightarrow> bool \<Rightarrow> QueueItem list \<Rightarrow> bool" where
  "queue_touched interrupted hasRecoverableWork queue \<longleftrightarrow> validID interrupted \<and> \<not> hasRecoverableWork \<and>
     (\<exists>q \<in> set queue. qi_ClaimedBy q = interrupted \<or> qi_Delivery q = DeliverySteer)"

section \<open>The whole recovery\<close>

definition finishRecovery :: "clock \<Rightarrow> RunID \<Rightarrow> bool \<Rightarrow> bool \<Rightarrow> Snapshot \<Rightarrow> (ClassifiedError + bool) \<times> Snapshot" where
  "finishRecovery clock interrupted hasPrepared changed s =
     (let hasPreparedCompletion = (\<exists>e \<in> set (snap_ExtensionJournal s). pendingCompletion interrupted e);
          hasRecoverableWork = (hasPrepared \<or> hasPreparedCompletion);
          goesIdle = (snap_RunState s = RunRunning \<and> \<not> hasRecoverableWork) in
      case (if goesIdle then interruptRun clock interrupted s else (None, s)) of
        (Some e, t) \<Rightarrow> (Inl e, t)
      | (None, t) \<Rightarrow>
          (Inr (changed \<or> goesIdle \<or> queue_touched interrupted hasRecoverableWork (snap_Queue t)),
           t\<lparr>snap_Queue := recoverQueue interrupted hasRecoverableWork (snap_Queue t)\<rparr>))"

definition recoverAggregate :: "clock \<Rightarrow> (nat \<Rightarrow> time) \<Rightarrow> (AttemptID list \<Rightarrow> AttemptID list) \<Rightarrow> Snapshot \<Rightarrow>
    (ClassifiedError + bool) \<times> Snapshot" where
  "recoverAggregate clock xclock ord s0 =
     (let s1 = s0\<lparr>snap_ExtensionJournal := recoverExtensions xclock (snap_ExtensionJournal s0)\<rparr>;
          changed1 = (\<exists>e \<in> set (snap_ExtensionJournal s0). xj_Status e = InvocationPending);
          interrupted = snap_ActiveRunID s0 in
      case foldS (terminateAttempt clock (snap_History s0)) (s1, changed1) (ord (startedAttempts (snap_History s0))) of
        (Some e, s2, _) \<Rightarrow> (Inl e, s2)
      | (None, s2, changed2) \<Rightarrow>
         (case foldS (recoverJournalEntry clock interrupted) (s2, False, changed2) [0..<length (snap_RunJournal s2)] of
            (Some e, s3, _) \<Rightarrow> (Inl e, s3)
          | (None, s3, hasPrepared, changed3) \<Rightarrow> finishRecovery clock interrupted hasPrepared changed3 s3))"

end
