(* ===== verification/Session_Store.thy ===== *)
theory Session_Store
  imports Session_Recovery "HOL-Library.AList" "HOL-Library.List_Lexorder" "HOL-Library.Char_ord" "HOL-Library.Product_Lexorder"
begin

text \<open>
  \<^verbatim>\<open>MemoryStore\<close> of \<^verbatim>\<open>session/memory_store.go\<close> and the list index of \<^verbatim>\<open>session/list.go\<close>. The store is a
  record whose session map is an association list (Go's map iteration order is open, and the only query
  that iterates sorts by a total key). Every operation returns its result and the store after it, so
  that atomicity is a statement about the model. The mutex makes each operation one step.

  The environment of an operation is a record: the clock readings, the map order of recovery, the two
  fingerprints (\<^verbatim>\<open>json.Marshal\<close> with SHA-256) and the list cursor codec (signed JSON in base64), which the
  standard library provides and the store only uses through its round trip.
\<close>

section \<open>Environment\<close>

record sessionListCursor =
  cur_Version :: int
  cur_Epoch :: string
  cur_AgentID :: AgentID
  cur_WorkspaceID :: WorkspaceID
  cur_CreationCutoff :: uint64
  cur_UpdatedAt :: time
  cur_SessionID :: SessionID

record Env =
  env_fpt :: typed_fingerprint
  env_fp :: "CommitRequest \<Rightarrow> string option"
  env_clock :: clock
  env_xclock :: "nat \<Rightarrow> time"
  env_ord :: "AttemptID list \<Rightarrow> AttemptID list"
  env_now :: time
  env_epoch :: string
  env_sign :: "sessionListCursor \<Rightarrow> string option"
  env_open :: "string \<Rightarrow> string + sessionListCursor"

datatype Ctx = CtxLive | CtxDeadline | CtxCanceled

definition contextErr :: "Ctx \<Rightarrow> string \<Rightarrow> ClassifiedError option" where
  "contextErr ctx op = (case ctx of
      CtxLive \<Rightarrow> None
    | CtxDeadline \<Rightarrow> Some (NewError ErrorDeadline op ''operation deadline exceeded'')
    | CtxCanceled \<Rightarrow> Some (NewCodedError ErrorCanceled CodeCanceled op ''operation canceled''))"

section \<open>The list index\<close>

record sessionListIndex =
  idx_epoch :: string
  idx_generation :: uint64
  idx_created :: "SessionID \<rightharpoonup> uint64"
  idx_lastUpdatedAt :: time

definition index_init :: sessionListIndex where
  "index_init = \<lparr>idx_epoch = '''', idx_generation = 0, idx_created = Map.empty, idx_lastUpdatedAt = 0\<rparr>"

definition ensure :: "Env \<Rightarrow> sessionListIndex \<Rightarrow> sessionListIndex" where
  "ensure env ix = (if idx_epoch ix = '''' then
     \<lparr>idx_epoch = env_epoch env, idx_generation = 0, idx_created = Map.empty, idx_lastUpdatedAt = 0\<rparr> else ix)"

definition nextUpdatedAt :: "Env \<Rightarrow> sessionListIndex \<Rightarrow> time \<Rightarrow> time \<times> sessionListIndex" where
  "nextUpdatedAt env ix previous =
     (let ix1 = ensure env ix;
          n1 = (if env_now env > previous then env_now env else previous + 1);
          n2 = (if n1 > idx_lastUpdatedAt ix1 then n1 else idx_lastUpdatedAt ix1 + 1) in
      (n2, ix1\<lparr>idx_lastUpdatedAt := n2\<rparr>))"

definition recordCreate :: "Env \<Rightarrow> sessionListIndex \<Rightarrow> SessionID \<Rightarrow> time \<times> sessionListIndex" where
  "recordCreate env ix i =
     (let ix1 = ensure env ix; g = idx_generation ix1 + 1 in
      nextUpdatedAt env (ix1\<lparr>idx_generation := g, idx_created := (idx_created ix1)(i \<mapsto> g)\<rparr>) 0)"

definition generationFor :: "sessionListIndex \<Rightarrow> SessionID \<Rightarrow> uint64" where
  "generationFor ix i = (case idx_created ix i of None \<Rightarrow> 0 | Some g \<Rightarrow> g)"

record listedSession =
  ls_summary :: SessionSummary
  ls_generation :: uint64

definition afterSessionListPosition :: "SessionSummary \<Rightarrow> sessionListCursor \<Rightarrow> bool" where
  "afterSessionListPosition s c \<longleftrightarrow> sum_UpdatedAt s < cur_UpdatedAt c \<or>
     sum_UpdatedAt s = cur_UpdatedAt c \<and> sum_SessionID s > cur_SessionID c"

definition summary_key :: "SessionSummary \<Rightarrow> int \<times> string" where
  "summary_key s = (- sum_UpdatedAt s, sum_SessionID s)"

definition sortSessionSummaries :: "SessionSummary list \<Rightarrow> SessionSummary list" where
  "sortSessionSummaries ss = sort_key summary_key ss"

definition encodeCursor :: "Env \<Rightarrow> sessionListCursor \<Rightarrow> string + string" where
  "encodeCursor env c = (case env_sign env c of
      None \<Rightarrow> Inl ''encode cursor''
    | Some encoded \<Rightarrow> guardE (check (length encoded > MaxSessionListCursorBytes)
        ''encoded cursor exceeds the portable size limit'') (Inr encoded))"

definition decodeCursor :: "Env \<Rightarrow> string \<Rightarrow> string + sessionListCursor" where
  "decodeCursor env encoded = bindE (env_open env encoded) (\<lambda>c.
     guardE (check (cur_Version c \<noteq> 1 \<or> cur_Epoch c = '''' \<or> \<not> validID (cur_AgentID c) \<or>
         \<not> validID (cur_WorkspaceID c) \<or> IsZero (cur_UpdatedAt c) \<or> \<not> validID (cur_SessionID c))
       ''cursor payload is invalid'') (Inr c))"

definition startCursor :: "sessionListIndex \<Rightarrow> ListRequest \<Rightarrow> sessionListCursor" where
  "startCursor ix request = \<lparr>cur_Version = 1, cur_Epoch = idx_epoch ix, cur_AgentID = lreq_AgentID request,
     cur_WorkspaceID = lreq_WorkspaceID request, cur_CreationCutoff = idx_generation ix, cur_UpdatedAt = 0, cur_SessionID = ''''\<rparr>"

definition requestCursor :: "Env \<Rightarrow> sessionListIndex \<Rightarrow> ListRequest \<Rightarrow> string + sessionListCursor" where
  "requestCursor env ix request =
     (if lreq_Cursor request = '''' then Inr (startCursor ix request)
      else bindE (decodeCursor env (lreq_Cursor request)) (\<lambda>c.
        guardE (check (cur_Epoch c \<noteq> idx_epoch ix \<or> cur_AgentID c \<noteq> lreq_AgentID request \<or>
                  cur_WorkspaceID c \<noteq> lreq_WorkspaceID request \<or> cur_CreationCutoff c > idx_generation ix)
          ''cursor does not belong to this Store lifecycle and scope'') (Inr c)))"

definition eligible :: "sessionListCursor \<Rightarrow> listedSession list \<Rightarrow> SessionSummary list" where
  "eligible c sessions = map ls_summary (filter (\<lambda>s. ls_generation s \<le> cur_CreationCutoff c \<and>
     (IsZero (cur_UpdatedAt c) \<or> afterSessionListPosition (ls_summary s) c)) sessions)"

definition paginate :: "Env \<Rightarrow> sessionListIndex \<Rightarrow> ListRequest \<Rightarrow> listedSession list \<Rightarrow> string + ListResult" where
  "paginate env ix0 request sessions =
     (let ix = ensure env ix0;
          limit = nat (if lreq_Limit request = 0 then DefaultSessionListLimit else lreq_Limit request) in
      bindE (requestCursor env ix request) (\<lambda>c.
        let sorted = sortSessionSummaries (eligible c sessions) in
        if length sorted \<le> limit then Inr \<lparr>lres_Sessions = sorted, lres_NextCursor = ''''\<rparr>
        else
          let page = take limit sorted; l = last page in
          bindE (encodeCursor env (c\<lparr>cur_UpdatedAt := sum_UpdatedAt l, cur_SessionID := sum_SessionID l\<rparr>)) (\<lambda>next.
            Inr \<lparr>lres_Sessions = page, lres_NextCursor = next\<rparr>)))"

section \<open>The store\<close>

record memoryCommit =
  mcm_fingerprint :: string
  mcm_commit :: Commit

record memoryAggregate =
  agg_snapshot :: Snapshot
  agg_idempotency :: "string \<rightharpoonup> memoryCommit"
  agg_updatedAt :: time

record MemoryStore =
  ms_sessions :: "(SessionID \<times> memoryAggregate) list"
  ms_list :: sessionListIndex

definition NewMemoryStore :: MemoryStore where
  "NewMemoryStore = \<lparr>ms_sessions = [], ms_list = index_init\<rparr>"

abbreviation aggregate_of :: "MemoryStore \<Rightarrow> SessionID \<Rightarrow> memoryAggregate option" where
  "aggregate_of st i \<equiv> map_of (ms_sessions st) i"

definition put_aggregate :: "SessionID \<Rightarrow> memoryAggregate \<Rightarrow> MemoryStore \<Rightarrow> MemoryStore" where
  "put_aggregate i a st = st\<lparr>ms_sessions := AList.update i a (ms_sessions st)\<rparr>"

definition session_not_found :: "string \<Rightarrow> ClassifiedError" where
  "session_not_found op = NewCodedError ErrorNotFound CodeSessionNotFound op ''session not found''"

section \<open>Consistency of an initial History\<close>

record HistoryScan =
  hs_messages :: "Message list"
  hs_calls :: "ToolCallID list"
  hs_results :: "ToolCallID list"
  hs_runStarts :: "RunFact list"
  hs_runTerminals :: "RunID list"
  hs_attemptStarts :: "ModelAttemptFact list"
  hs_attemptTerminals :: "AttemptID list"
  hs_attemptUsage :: "RunID \<Rightarrow> int64"
  hs_budgetSeen :: "RunID list"
  hs_limitSeen :: "RunID list"
  hs_attemptCounts :: "RunID \<Rightarrow> int64"
  hs_toolCallCounts :: "RunID \<Rightarrow> int64"
  hs_contributions :: "string list"

definition scan_init :: HistoryScan where
  "scan_init = \<lparr>hs_messages = [], hs_calls = [], hs_results = [], hs_runStarts = [], hs_runTerminals = [],
     hs_attemptStarts = [], hs_attemptTerminals = [], hs_attemptUsage = (\<lambda>_. 0), hs_budgetSeen = [], hs_limitSeen = [],
     hs_attemptCounts = (\<lambda>_. 0), hs_toolCallCounts = (\<lambda>_. 0), hs_contributions = []\<rparr>"

definition scan_run :: "HistoryScan \<Rightarrow> RunID \<Rightarrow> RunFact option" where
  "scan_run st i = List.find (\<lambda>r. run_RunID r = i) (hs_runStarts st)"

definition scan_attempt :: "HistoryScan \<Rightarrow> AttemptID \<Rightarrow> ModelAttemptFact option" where
  "scan_attempt st i = List.find (\<lambda>a. att_AttemptID a = i) (hs_attemptStarts st)"

definition scanMessage :: "HistoryScan \<Rightarrow> Message \<Rightarrow> ClassifiedError + HistoryScan" where
  "scanMessage st m = guardE
     (check (msg_ID m \<in> msg_ID ` set (hs_messages st)) (historyConflict ''duplicate message in initial history''))
     (Inr (st\<lparr>hs_messages := m # hs_messages st\<rparr>))"

definition scanCall :: "HistoryScan \<Rightarrow> ToolCall \<Rightarrow> ClassifiedError + HistoryScan" where
  "scanCall st c = guardE (first_error
     [check (call_ID c \<in> set (hs_calls st)) (historyConflict ''duplicate tool call in initial history''),
      (case List.find (\<lambda>m. msg_ID m = call_MessageID c) (hs_messages st) of
         None \<Rightarrow> Some (historyConflict ''initial tool call references an unknown assistant message'')
       | Some p \<Rightarrow> check (msg_Role p \<noteq> RoleAssistant \<or> msg_RunID p \<noteq> call_RunID c \<or> msg_StepID p \<noteq> call_StepID c)
           (historyConflict ''initial tool call containment differs from its assistant message''))])
     (Inr (st\<lparr>hs_calls := call_ID c # hs_calls st,
              hs_toolCallCounts := (hs_toolCallCounts st)(call_RunID c := hs_toolCallCounts st (call_RunID c) + 1)\<rparr>))"

definition scanResult :: "HistoryScan \<Rightarrow> ToolResult \<Rightarrow> ClassifiedError + HistoryScan" where
  "scanResult st r = guardE
     (check (res_CallID r \<notin> set (hs_calls st) \<or> res_CallID r \<in> set (hs_results st))
        (historyConflict ''unpaired or duplicate tool result in initial history''))
     (Inr (st\<lparr>hs_results := res_CallID r # hs_results st\<rparr>))"

definition scanRun :: "HistoryScan \<Rightarrow> RunFact \<Rightarrow> ClassifiedError + HistoryScan" where
  "scanRun st r =
     (if run_Kind r = RunStarted then guardE
        (check (scan_run st (run_RunID r) \<noteq> None) (historyConflict ''duplicate initial run start fact''))
        (Inr (st\<lparr>hs_runStarts := r # hs_runStarts st\<rparr>))
      else guardE (case scan_run st (run_RunID r) of
          None \<Rightarrow> Some (historyConflict ''initial run terminal has no unique start'')
        | Some started \<Rightarrow> first_error
            [check (run_RunID r \<in> set (hs_runTerminals st)) (historyConflict ''initial run terminal has no unique start''),
             check (run_ConfigRevision started \<noteq> run_ConfigRevision r \<or> \<not> sameModelConfig (run_ModelConfig started) (run_ModelConfig r))
               (historyConflict ''initial run terminal changed frozen model config'')])
        (Inr (st\<lparr>hs_runTerminals := run_RunID r # hs_runTerminals st\<rparr>)))"

definition scanAttempt :: "HistoryScan \<Rightarrow> ModelAttemptFact \<Rightarrow> ClassifiedError + HistoryScan" where
  "scanAttempt st a =
     (if att_Kind a = Attempt_Started then guardE (first_error
        [check (scan_attempt st (att_AttemptID a) \<noteq> None \<or> att_AttemptID a \<in> set (hs_attemptTerminals st))
           (historyConflict ''duplicate initial model attempt start''),
         check (case scan_run st (att_RunID a) of None \<Rightarrow> True
                | Some r \<Rightarrow> att_RunID a \<in> set (hs_runTerminals st) \<or> cfg_ProviderKey (run_ModelConfig r) \<noteq> att_ProviderKey a \<or>
                    cfg_ModelID (run_ModelConfig r) \<noteq> att_ModelID a)
           (historyConflict ''initial model attempt does not match an active frozen run'')])
        (Inr (st\<lparr>hs_attemptStarts := a # hs_attemptStarts st,
                 hs_attemptCounts := (hs_attemptCounts st)(att_RunID a := hs_attemptCounts st (att_RunID a) + 1)\<rparr>))
      else guardE (case scan_attempt st (att_AttemptID a) of
          None \<Rightarrow> Some (historyConflict ''initial model attempt terminal has no unique start'')
        | Some started \<Rightarrow> first_error
            [check (att_AttemptID a \<in> set (hs_attemptTerminals st)) (historyConflict ''initial model attempt terminal has no unique start''),
             check (\<not> sameAttemptIdentity started a) (historyConflict ''initial model attempt terminal changed identity''),
             check (slt (hs_attemptUsage st (att_RunID a) + use_TotalTokens (att_Usage a)) (hs_attemptUsage st (att_RunID a)))
               (historyConflict ''initial run token usage overflow'')])
        (Inr (st\<lparr>hs_attemptTerminals := att_AttemptID a # hs_attemptTerminals st,
                 hs_attemptUsage := (hs_attemptUsage st)(att_RunID a := hs_attemptUsage st (att_RunID a) + use_TotalTokens (att_Usage a))\<rparr>)))"

definition inactive_run :: "HistoryScan \<Rightarrow> RunID \<Rightarrow> bool" where
  "inactive_run st i \<longleftrightarrow> scan_run st i = None \<or> i \<in> set (hs_runTerminals st)"

definition scanContribution :: "HistoryScan \<Rightarrow> ContextContributionFact \<Rightarrow> ClassifiedError + HistoryScan" where
  "scanContribution st c =
     (let key = ctr_RunID c @ CHR 0x00 # ctr_StepID c @ CHR 0x00 # ctr_SourceKey c in
      guardE (first_error
        [check (inactive_run st (ctr_RunID c)) (historyConflict ''initial context contribution does not belong to an active run''),
         check (key \<in> set (hs_contributions st)) (historyConflict ''duplicate initial context source contribution'')])
        (Inr (st\<lparr>hs_contributions := key # hs_contributions st\<rparr>)))"

definition scanBudget :: "HistoryScan \<Rightarrow> RunBudgetExceededFact \<Rightarrow> ClassifiedError + HistoryScan" where
  "scanBudget st b = guardE
     (check (inactive_run st (bex_RunID b) \<or> bex_RunID b \<in> set (hs_budgetSeen st) \<or> bex_RunID b \<in> set (hs_limitSeen st) \<or>
             hs_attemptUsage st (bex_RunID b) \<noteq> bex_UsedTokens b)
        (historyConflict ''initial run budget fact is inconsistent with durable attempts''))
     (Inr (st\<lparr>hs_budgetSeen := bex_RunID b # hs_budgetSeen st\<rparr>))"

definition scanLimit :: "HistoryScan \<Rightarrow> RunLimitExceededFact \<Rightarrow> ClassifiedError + HistoryScan" where
  "scanLimit st l =
     (let used = (if lim_Kind l = RunLimitToolCalls then hs_toolCallCounts st (lim_RunID l) else hs_attemptCounts st (lim_RunID l)) in
      guardE (check (inactive_run st (lim_RunID l) \<or> lim_RunID l \<in> set (hs_budgetSeen st) \<or> lim_RunID l \<in> set (hs_limitSeen st) \<or>
                     scan_attempt st (lim_TriggerAttemptID l) \<noteq> None \<or> lim_TriggerToolCallID l \<in> set (hs_calls st) \<or> used \<noteq> lim_Used l)
                (historyConflict ''initial run limit fact is inconsistent with durable history''))
        (Inr (st\<lparr>hs_limitSeen := lim_RunID l # hs_limitSeen st\<rparr>)))"

definition scan_opt :: "('s \<Rightarrow> 'a \<Rightarrow> 'e + 's) \<Rightarrow> 'a option \<Rightarrow> 's \<Rightarrow> 'e + 's" where
  "scan_opt f x st = (case x of None \<Rightarrow> Inr st | Some y \<Rightarrow> f st y)"

definition scanFact :: "SessionID \<Rightarrow> HistoryScan \<Rightarrow> HistoryFact \<Rightarrow> ClassifiedError + HistoryScan" where
  "scanFact sessionID st f =
     guardE (map_option historyConflict (validatePayload f sessionID))
       (bindE (scan_opt scanMessage (fact_Message f) st)
         (\<lambda>s. bindE (scan_opt scanCall (fact_ToolCall f) s)
         (\<lambda>s. bindE (scan_opt scanResult (fact_ToolResult f) s)
         (\<lambda>s. bindE (scan_opt scanRun (fact_Run f) s)
         (\<lambda>s. bindE (scan_opt scanAttempt (fact_ModelAttempt f) s)
         (\<lambda>s. bindE (scan_opt scanContribution (fact_ContextContribution f) s)
         (\<lambda>s. bindE (scan_opt scanBudget (fact_RunBudgetExceeded f) s)
         (\<lambda>s. scan_opt scanLimit (fact_RunLimitExceeded f) s))))))))"

definition scanJournalEntry :: "HistoryScan \<Rightarrow> HistoryFact list \<Rightarrow> ToolCallID list \<Rightarrow> JournalEntry \<Rightarrow> ClassifiedError + ToolCallID list" where
  "scanJournalEntry st history seen e =
     (let i = jrn_callID e; unfinished = unfinishedJournal (jrn_Status e) in
      guardE (first_error
        [check (i \<in> set seen) (journalConflict ''duplicate initial journal entry''),
         check (i \<notin> set (hs_calls st)) (journalConflict ''initial journal has no history tool call''),
         check (unfinished \<and> i \<in> set (hs_results st)) (journalConflict ''unfinished journal already has a history result''),
         check (\<not> unfinished \<and> i \<notin> set (hs_results st)) (journalConflict ''terminal journal has no history result''),
         check (\<not> unfinished \<and> (case findToolResult history i of None \<Rightarrow> True | Some r \<Rightarrow> \<not> sameToolResult r (the (jrn_ToolResult e))))
           (journalConflict ''terminal journal result differs from initial history'')])
        (Inr (i # seen)))"

definition validateHistoryConsistency :: "SessionID \<Rightarrow> HistoryFact list \<Rightarrow> JournalEntry list \<Rightarrow> ClassifiedError option" where
  "validateHistoryConsistency sessionID history journal =
     (case foldE (scanFact sessionID) scan_init history of
        Inl e \<Rightarrow> Some e
      | Inr st \<Rightarrow> (case foldE (scanJournalEntry st history) [] journal of
          Inl e \<Rightarrow> Some e
        | Inr _ \<Rightarrow> check (\<exists>i \<in> set (hs_calls st). i \<notin> set (hs_results st) \<and>
              \<not> (\<exists>e \<in> set journal. unfinishedJournal (jrn_Status e) \<and> jrn_callID e = i))
            (journalConflict ''unpaired initial tool call has no pending journal'')))"

section \<open>Creating a session\<close>

definition effective_state :: "RunState \<Rightarrow> RunState" where
  "effective_state s = (if s = RunState_other '''' then RunIdle else s)"

definition forkCheck :: "NewSession \<Rightarrow> ClassifiedError option" where
  "forkCheck n = (case new_Fork n of
      None \<Rightarrow> None
    | Some f \<Rightarrow> first_error
        [check (fork_ParentSessionID f \<noteq> ses_ParentSessionID (new_Session n) \<or> \<not> validID (fork_ParentSessionID f))
           (invalid ''session.create'' ''fork provenance does not match parent session''),
         check (fork_CutoffSequence f \<noteq> length (new_History n))
           (invalid ''session.create'' ''fork cutoff must match the complete copied History prefix''),
         check (\<exists>h \<in> set (new_History n). \<not> validID (fact_OriginFactID h))
           (invalid ''session.create'' ''forked history fact requires source identity'')])"

definition newQueueItemCheck :: "NewSession \<Rightarrow> QueueItem \<Rightarrow> ClassifiedError option" where
  "newQueueItemCheck n q = first_error
     [check (\<not> validQueueItem q (ses_ID (new_Session n))) (invalid ''session.create'' ''invalid queue item''),
      check (qi_ClaimedBy q \<noteq> '''' \<and> \<not> validID (qi_ClaimedBy q)) (invalid ''session.create'' ''queue item has an invalid claiming run''),
      check (Claimed q \<and> (effective_state (new_RunState n) \<noteq> RunRunning \<or> qi_ClaimedBy q \<noteq> new_ActiveRunID n))
        (invalid ''session.create'' ''claimed queue item must belong to the active run'')]"

definition newJournalCheck :: "NewSession \<Rightarrow> JournalEntry \<Rightarrow> ClassifiedError option" where
  "newJournalCheck n e = first_error
     [map_option (invalid ''session.create'') (JournalEntry_Validate e (ses_ID (new_Session n))),
      check (unfinishedJournal (jrn_Status e) \<and> (effective_state (new_RunState n) \<noteq> RunRunning \<or> jrn_RunID e \<noteq> new_ActiveRunID n))
        (invalid ''session.create'' ''unfinished journal must belong to the active run'')]"

definition validateNewSession :: "NewSession \<Rightarrow> ClassifiedError option" where
  "validateNewSession n =
     (let s = new_Session n; op = ''session.create''; state = effective_state (new_RunState n); c = new_Context n in
      first_error
       ([check (\<not> validID (ses_ID s) \<or> \<not> validID (ses_AgentID s) \<or> \<not> validID (ses_WorkspaceID s)) (invalid op ''session identity is incomplete''),
         check (ses_Revision s \<noteq> 0) (invalid op ''new session revision must be zero''),
         check (ses_ParentSessionID s = ses_ID s) (invalid op ''session cannot be its own parent''),
         check (ses_ParentSessionID s \<noteq> '''' \<and> \<not> validID (ses_ParentSessionID s)) (invalid op ''parent session ID is invalid''),
         check (ses_ParentSessionID s = '''' \<and> ses_ParentRevision s \<noteq> 0) (invalid op ''parent revision requires a parent session''),
         check (ses_ParentSessionID s \<noteq> '''' \<and> ses_ParentRevision s = 0) (invalid op ''derived session requires a parent revision''),
         forkCheck n,
         map_option (\<lambda>e. invalid op (''invalid model config: '' @ e)) (Config_Validate (new_ModelConfig n)),
         check (\<not> RunState_Valid state) (invalid op ''invalid run state''),
         check (state = RunRunning \<and> \<not> validID (new_ActiveRunID n)) (invalid op ''running session requires an active run''),
         check (state = RunIdle \<and> new_ActiveRunID n \<noteq> '''') (invalid op ''idle session cannot have an active run'')] @
        map (\<lambda>f. map_option (invalid op) (validatePayload f (ses_ID s))) (new_History n) @
        map (newQueueItemCheck n) (new_Queue n) @
        [check (duplicateQueueMessage (new_Queue n)) (invalid op ''queue contains duplicate message IDs'')] @
        map (newJournalCheck n) (new_RunJournal n) @
        [validateContext c (ses_ID s),
         check (ctx_Version c \<noteq> 0 \<or> ctx_SourceRevision c \<noteq> 0 \<or> ctx_SourceHistorySequence c \<noteq> 0 \<or> ctx_TokenCount c \<noteq> 0 \<or>
                mreq_SessionID (ctx_Request c) \<noteq> '''') (invalid op ''new session context must be empty and unversioned''),
         map_option (\<lambda>e. invalid op (ClassifiedError_Error e)) (validateHistoryConsistency (ses_ID s) (new_History n) (new_RunJournal n))]))"

definition newSnapshot :: "NewSession \<Rightarrow> HistoryFact list \<Rightarrow> Snapshot" where
  "newSnapshot n history = \<lparr>snap_Session = (new_Session n)\<lparr>ses_Revision := 1\<rparr>, snap_Revision = 1, snap_History = history,
     snap_Context = new_Context n, snap_RetainedContexts = [], snap_Queue = new_Queue n, snap_RunJournal = new_RunJournal n,
     snap_ExtensionJournal = [], snap_Events = [], snap_ModelConfig = new_ModelConfig n,
     snap_RunState = effective_state (new_RunState n), snap_ActiveRunID = new_ActiveRunID n, snap_Fork = new_Fork n\<rparr>"

definition Create :: "Env \<Rightarrow> Ctx \<Rightarrow> NewSession \<Rightarrow> MemoryStore \<Rightarrow> (ClassifiedError + Snapshot) \<times> MemoryStore" where
  "Create env ctx n st =
     (let sid = ses_ID (new_Session n) in
      case guardE (contextErr ctx ''session.create'') (guardE (validateNewSession n)
             (prepareInitialHistory (env_clock env) sid (new_History n))) of
        Inl e \<Rightarrow> (Inl e, st)
      | Inr history \<Rightarrow>
          if aggregate_of st sid \<noteq> None then
            (Inl (NewCodedError ErrorConflict CodeSessionAlreadyExists ''session.create'' ''session already exists''), st)
          else
            let snap = newSnapshot n history; (updatedAt, ix) = recordCreate env (ms_list st) sid in
            (Inr snap, put_aggregate sid \<lparr>agg_snapshot = snap, agg_idempotency = Map.empty, agg_updatedAt = updatedAt\<rparr>
               (st\<lparr>ms_list := ix\<rparr>)))"

section \<open>Reading\<close>

definition with_session :: "Ctx \<Rightarrow> string \<Rightarrow> SessionID \<Rightarrow> MemoryStore \<Rightarrow> (memoryAggregate \<Rightarrow> ClassifiedError + 'a) \<Rightarrow> ClassifiedError + 'a" where
  "with_session ctx op sid st f =
     guardE (contextErr ctx op) (guardE (check (\<not> validID sid) (invalid op ''session ID is required''))
       (case aggregate_of st sid of None \<Rightarrow> Inl (session_not_found op) | Some a \<Rightarrow> f a))"

definition Load :: "Ctx \<Rightarrow> SessionID \<Rightarrow> MemoryStore \<Rightarrow> ClassifiedError + Snapshot" where
  "Load ctx sid st = with_session ctx ''session.load'' sid st (\<lambda>a. Inr (agg_snapshot a))"

definition HistoryPage_of :: "Ctx \<Rightarrow> HistoryPageRequest \<Rightarrow> MemoryStore \<Rightarrow> ClassifiedError + HistoryPage" where
  "HistoryPage_of ctx request st = with_session ctx ''session.history_page'' (hpr_SessionID request) st (\<lambda>a.
     bindE (historyPage (snap_History (agg_snapshot a)) request) (\<lambda>page. Inr (page
       \<lparr>hp_AgentID := ses_AgentID (snap_Session (agg_snapshot a)), hp_WorkspaceID := ses_WorkspaceID (snap_Session (agg_snapshot a)),
        hp_Revision := snap_Revision (agg_snapshot a)\<rparr>)))"

definition ExtensionDiagnostics :: "Ctx \<Rightarrow> ExtensionPageRequest \<Rightarrow> MemoryStore \<Rightarrow> ClassifiedError + ExtensionPage" where
  "ExtensionDiagnostics ctx request st = with_session ctx ''session.extension_diagnostics'' (xpr_SessionID request) st (\<lambda>a.
     bindE (extensionPage (snap_ExtensionJournal (agg_snapshot a)) request) (\<lambda>page. Inr (page
       \<lparr>xp_AgentID := ses_AgentID (snap_Session (agg_snapshot a)), xp_WorkspaceID := ses_WorkspaceID (snap_Session (agg_snapshot a)),
        xp_Revision := snap_Revision (agg_snapshot a)\<rparr>)))"

definition listed :: "ListRequest \<Rightarrow> MemoryStore \<Rightarrow> listedSession list" where
  "listed request st = map (\<lambda>(i, a). let s = agg_snapshot a in
       \<lparr>ls_summary = \<lparr>sum_SessionID = ses_ID (snap_Session s), sum_AgentID = ses_AgentID (snap_Session s),
           sum_WorkspaceID = ses_WorkspaceID (snap_Session s), sum_Revision = snap_Revision s, sum_UpdatedAt = agg_updatedAt a\<rparr>,
        ls_generation = generationFor (ms_list st) (ses_ID (snap_Session s))\<rparr>)
     (filter (\<lambda>(i, a). ses_AgentID (snap_Session (agg_snapshot a)) = lreq_AgentID request \<and>
        ses_WorkspaceID (snap_Session (agg_snapshot a)) = lreq_WorkspaceID request) (ms_sessions st))"

definition ListSessions :: "Env \<Rightarrow> Ctx \<Rightarrow> ListRequest \<Rightarrow> MemoryStore \<Rightarrow> (ClassifiedError + ListResult) \<times> MemoryStore" where
  "ListSessions env ctx request st =
     (case guardE (contextErr ctx ''session.list'')
             (guardE (map_option (invalid ''session.list'') (ListRequest_Validate request)) (Inr ())) of
        Inl e \<Rightarrow> (Inl e, st)
      | Inr _ \<Rightarrow> (map_error (invalid ''session.list'') (paginate env (ms_list st) request (listed request st)),
                  st\<lparr>ms_list := ensure env (ms_list st)\<rparr>))"

section \<open>Recovering and committing\<close>

definition bump :: "Snapshot \<Rightarrow> Snapshot" where
  "bump s = s\<lparr>snap_Revision := snap_Revision s + 1, snap_Session := (snap_Session s)\<lparr>ses_Revision := snap_Revision s + 1\<rparr>\<rparr>"

definition Recover :: "Env \<Rightarrow> Ctx \<Rightarrow> SessionID \<Rightarrow> MemoryStore \<Rightarrow> (ClassifiedError + Snapshot) \<times> MemoryStore" where
  "Recover env ctx sid st =
     (case with_session ctx ''session.recover'' sid st Inr of
        Inl e \<Rightarrow> (Inl e, st)
      | Inr a \<Rightarrow>
          (case recoverAggregate (env_clock env) (env_xclock env) (env_ord env) (agg_snapshot a) of
             (Inl e, s) \<Rightarrow> (Inl e, put_aggregate sid (a\<lparr>agg_snapshot := s\<rparr>) st)
           | (Inr changed, s) \<Rightarrow>
               if changed then
                 let (updatedAt, ix) = nextUpdatedAt env (ms_list st) (agg_updatedAt a) in
                 (Inr (bump s), put_aggregate sid (a\<lparr>agg_snapshot := bump s, agg_updatedAt := updatedAt\<rparr>) (st\<lparr>ms_list := ix\<rparr>))
               else (Inr s, put_aggregate sid (a\<lparr>agg_snapshot := s\<rparr>) st)))"

definition appendedHistoryRange :: "nat \<Rightarrow> nat \<Rightarrow> HistorySequence \<times> HistorySequence" where
  "appendedHistoryRange previousLength currentLength =
     (if currentLength \<le> previousLength then (0, 0) else (previousLength + 1, currentLength))"

definition Commit_op :: "Env \<Rightarrow> Ctx \<Rightarrow> CommitRequest \<Rightarrow> MemoryStore \<Rightarrow> (ClassifiedError + Commit) \<times> MemoryStore" where
  "Commit_op env ctx request st =
     (let sid = creq_SessionID request; key = creq_IdempotencyKey request in
      case guardE (contextErr ctx ''session.commit'')
             (guardE (map_option (invalid ''session.commit'') (CommitRequest_Validate (env_fpt env) request))
               (case aggregate_of st sid of None \<Rightarrow> Inl (session_not_found ''session.commit'')
                | Some a \<Rightarrow> (case env_fp env request of
                      None \<Rightarrow> Inl (NewError ErrorInternal ''session.commit'' ''cannot fingerprint idempotent request'')
                    | Some fingerprint \<Rightarrow> Inr (a, fingerprint)))) of
        Inl e \<Rightarrow> (Inl e, st)
      | Inr (a, fingerprint) \<Rightarrow>
         (case agg_idempotency a key of
            Some previous \<Rightarrow>
              if mcm_fingerprint previous \<noteq> fingerprint then
                (Inl (commit_conflict CodeRevisionConflict ''idempotency key was already used for another request''), st)
              else (Inr ((mcm_commit previous)\<lparr>com_Applied := False\<rparr>), st)
          | None \<Rightarrow>
              if creq_ExpectedRevision request \<noteq> snap_Revision (agg_snapshot a) then
                (Inl (commit_conflict CodeRevisionConflict ''expected revision does not match''), st)
              else (case applyChanges (env_fpt env) (env_clock env) (agg_snapshot a) request of
                  Inl e \<Rightarrow> (Inl e, st)
                | Inr working \<Rightarrow>
                    let next = bump working;
                        (updatedAt, ix) = nextUpdatedAt env (ms_list st) (agg_updatedAt a);
                        (first, l) = appendedHistoryRange (length (snap_History (agg_snapshot a))) (length (snap_History next));
                        result = \<lparr>com_SessionID = sid, com_Revision = snap_Revision next, com_FirstHistorySequence = first,
                                  com_LastHistorySequence = l, com_Applied = True\<rparr> in
                    (Inr result, put_aggregate sid
                       \<lparr>agg_snapshot = next,
                        agg_idempotency = (agg_idempotency a)(key \<mapsto> \<lparr>mcm_fingerprint = fingerprint, mcm_commit = result\<rparr>),
                        agg_updatedAt = updatedAt\<rparr>
                       (st\<lparr>ms_list := ix\<rparr>)))))"

end
