(* ===== verification/Session_Invariant.thy ===== *)
theory Session_Invariant
  imports Session_Store
begin

text \<open>
  The invariant of a Session aggregate and the proof that every change of a transaction keeps it: the
  History envelope, unique identities and pairing of the History facts, the queue, the run journal, the
  extension journal and the run state. The transaction loop is an instance of the loop contract of the
  prelude, so its lemmas follow from the single-change lemma.
\<close>

section \<open>What every aggregate keeps\<close>

text \<open>\<open>fact_fits pre f\<close>: the fact \<open>f\<close> may follow the History \<open>pre\<close>.\<close>

definition message_fits :: "HistoryFact list \<Rightarrow> Message \<Rightarrow> bool" where
  "message_fits pre m \<longleftrightarrow> \<not> containsMessage pre (msg_ID m)"

definition call_fits :: "HistoryFact list \<Rightarrow> ToolCall \<Rightarrow> bool" where
  "call_fits pre c \<longleftrightarrow> \<not> containsToolCall pre (call_ID c) \<and>
     (\<exists>p. findMessage pre (call_MessageID c) = Some p \<and> msg_Role p = RoleAssistant \<and> msg_RunID p = call_RunID c \<and>
          msg_StepID p = call_StepID c)"

definition result_fits :: "HistoryFact list \<Rightarrow> ToolResult \<Rightarrow> bool" where
  "result_fits pre r \<longleftrightarrow> \<not> hasToolResult pre (res_CallID r)"

definition run_fits :: "HistoryFact list \<Rightarrow> RunFact \<Rightarrow> bool" where
  "run_fits pre r \<longleftrightarrow>
     (if run_Kind r = RunStarted then fst (runFacts pre (run_RunID r)) = None
      else \<exists>s. runFacts pre (run_RunID r) = (Some s, None) \<and> run_ConfigRevision s = run_ConfigRevision r \<and>
               sameModelConfig (run_ModelConfig s) (run_ModelConfig r))"

definition attempt_fits :: "HistoryFact list \<Rightarrow> ModelAttemptFact \<Rightarrow> bool" where
  "attempt_fits pre a \<longleftrightarrow>
     (if att_Kind a = Attempt_Started then attemptFacts pre (att_AttemptID a) = (None, None)
      else \<exists>s. attemptFacts pre (att_AttemptID a) = (Some s, None) \<and> sameAttemptIdentity s a)"

definition opt_all :: "('a \<Rightarrow> bool) \<Rightarrow> 'a option \<Rightarrow> bool" where
  "opt_all P x = (case x of None \<Rightarrow> True | Some y \<Rightarrow> P y)"

lemma opt_all_simps [simp]: "opt_all P None" "opt_all P (Some x) = P x"
  by (simp_all add: opt_all_def)

definition fact_fits :: "HistoryFact list \<Rightarrow> HistoryFact \<Rightarrow> bool" where
  "fact_fits pre f \<longleftrightarrow> opt_all (message_fits pre) (fact_Message f) \<and> opt_all (call_fits pre) (fact_ToolCall f) \<and>
     opt_all (result_fits pre) (fact_ToolResult f) \<and> opt_all (run_fits pre) (fact_Run f) \<and>
     opt_all (attempt_fits pre) (fact_ModelAttempt f)"

definition history_ok :: "HistoryFact list \<Rightarrow> bool" where
  "history_ok h \<longleftrightarrow> (\<forall>i < length h. fact_fits (take i h) (h ! i))"

definition queue_ok :: "SessionID \<Rightarrow> QueueItem list \<Rightarrow> bool" where
  "queue_ok sid q \<longleftrightarrow> distinct (map (msg_ID \<circ> qi_Message) q) \<and> (\<forall>i \<in> set q. validQueueItem i sid)"

definition claims_ok :: "Snapshot \<Rightarrow> bool" where
  "claims_ok s \<longleftrightarrow> (\<forall>q \<in> set (snap_Queue s). qi_ClaimedBy q \<noteq> '''' \<longrightarrow> is_active s (qi_ClaimedBy q))"

definition journal_ok :: "SessionID \<Rightarrow> JournalEntry list \<Rightarrow> bool" where
  "journal_ok sid j \<longleftrightarrow> (\<forall>e \<in> set j. JournalEntry_Validate e sid = None) \<and> distinct (map jrn_callID j)"

definition ext_ok :: "typed_fingerprint \<Rightarrow> SessionID \<Rightarrow> ExtensionJournalEntry list \<Rightarrow> bool" where
  "ext_ok fpt sid j \<longleftrightarrow> (\<forall>i < length j. xj_Sequence (j ! i) = word_of_nat (Suc i)) \<and> distinct (map xj_InvocationID j) \<and>
     (\<forall>e \<in> set j. ExtensionJournalEntry_Validate fpt e sid = None)"

definition run_ok :: "Snapshot \<Rightarrow> bool" where
  "run_ok s \<longleftrightarrow> snap_RunState s = RunRunning \<and> validID (snap_ActiveRunID s) \<or>
     snap_RunState s = RunIdle \<and> snap_ActiveRunID s = ''''"

definition ident_ok :: "SessionID \<Rightarrow> Snapshot \<Rightarrow> bool" where
  "ident_ok sid s \<longleftrightarrow> ses_ID (snap_Session s) = sid \<and> validID sid \<and> ses_Revision (snap_Session s) = snap_Revision s"

definition working_ok :: "typed_fingerprint \<Rightarrow> SessionID \<Rightarrow> Snapshot \<Rightarrow> bool" where
  "working_ok fpt sid s \<longleftrightarrow> ident_ok sid s \<and> envelope_ok sid (snap_History s) \<and> history_ok (snap_History s) \<and>
     queue_ok sid (snap_Queue s) \<and> journal_ok sid (snap_RunJournal s) \<and> ext_ok fpt sid (snap_ExtensionJournal s) \<and>
     run_ok s \<and> Config_Validate (snap_ModelConfig s) = None"

definition aggregate_ok :: "typed_fingerprint \<Rightarrow> SessionID \<Rightarrow> Snapshot \<Rightarrow> bool" where
  "aggregate_ok fpt sid s \<longleftrightarrow> working_ok fpt sid s \<and> claims_ok s"

text \<open>How a transaction relates the aggregate before and after: History only grows, identity stays.\<close>

definition extends :: "Snapshot \<Rightarrow> Snapshot \<Rightarrow> bool" where
  "extends s t \<longleftrightarrow> (\<exists>fs. snap_History t = snap_History s @ fs) \<and> snap_Session t = snap_Session s \<and>
     snap_Revision t = snap_Revision s \<and> snap_Fork t = snap_Fork s"

text \<open>What one change and a whole transaction guarantee of the working copy.\<close>

definition keeps :: "typed_fingerprint \<Rightarrow> SessionID \<Rightarrow> Snapshot \<Rightarrow> Snapshot \<Rightarrow> bool" where
  "keeps fpt sid s t \<longleftrightarrow> working_ok fpt sid t \<and> extends s t"

lemma extends_refl [simp]: "extends s s"
  by (simp add: extends_def)

lemma extends_trans: "extends s t \<Longrightarrow> extends t u \<Longrightarrow> extends s u"
  by (auto simp: extends_def)

section \<open>Histories\<close>

lemma history_ok_Nil [simp]: "history_ok []"
  by (simp add: history_ok_def)

lemma history_ok_snoc [simp]: "history_ok (h @ [f]) \<longleftrightarrow> history_ok h \<and> fact_fits h f"
  by (auto simp: history_ok_def nth_append less_Suc_eq)

lemma fact_fits_stamped [simp]: "fact_fits pre (stamped clock history sid f a) = fact_fits pre f"
  by (simp add: fact_fits_def)

lemma zero_fact_fields [simp]:
  "fact_Message zero_fact = None" "fact_ToolCall zero_fact = None" "fact_ToolResult zero_fact = None"
  "fact_Run zero_fact = None" "fact_ModelAttempt zero_fact = None" "fact_ModelConfigChanged zero_fact = None"
  "fact_ContextContribution zero_fact = None" "fact_RunBudgetExceeded zero_fact = None"
  "fact_RunLimitExceeded zero_fact = None" "fact_OriginFactID zero_fact = ''''"
  by (simp_all add: zero_fact_def)

lemma append_payload_Inr:
  assumes "append_payload clock wrap sid actor s f = Inr t"
  shows "t = s\<lparr>snap_History := snap_History s @ [stamped clock (snap_History s) sid f actor]\<rparr>"
    and "envelope_ok sid (snap_History s) \<Longrightarrow> envelope_ok sid (snap_History t)"
  using assms appendHistoryFact_Inr [of clock "snap_History s" sid f actor] appendHistoryFact_envelope [of clock "snap_History s" sid f actor]
  by (auto simp: append_payload_def split: sum.splits)

lemma append_payload_keeps:
  assumes "append_payload clock wrap sid actor s f = Inr t" "working_ok fpt sid s" "fact_fits (snap_History s) f"
  shows "keeps fpt sid s t"
  using append_payload_Inr [OF assms(1)] assms(2,3)
  by (auto simp: keeps_def working_ok_def ident_ok_def run_ok_def extends_def)

lemma working_ok_sid: "working_ok fpt sid s \<Longrightarrow> ses_ID (snap_Session s) = sid"
  by (simp add: working_ok_def ident_ok_def)

section \<open>Each change keeps the aggregate\<close>

lemma appendMessage_keeps:
  "appendMessage clock request s m = Inr t \<Longrightarrow> working_ok fpt (creq_SessionID request) s \<Longrightarrow>
     keeps fpt (creq_SessionID request) s t"
  by (auto simp: appendMessage_def fact_fits_def message_fits_def elim!: append_payload_keeps)

lemma appendToolCall_keeps:
  "appendToolCall clock request s c = Inr t \<Longrightarrow> working_ok fpt (creq_SessionID request) s \<Longrightarrow>
     keeps fpt (creq_SessionID request) s t"
  by (auto simp: appendToolCall_def fact_fits_def call_fits_def elim!: append_payload_keeps split: option.splits)

lemma appendToolResult_keeps:
  "appendToolResult clock request s r = Inr t \<Longrightarrow> working_ok fpt (creq_SessionID request) s \<Longrightarrow>
     keeps fpt (creq_SessionID request) s t"
  by (auto simp: appendToolResult_def fact_fits_def result_fits_def elim!: append_payload_keeps)

lemma appendRunFact_keeps:
  assumes "appendRunFact clock s r a = Inr t" "working_ok fpt sid s" "RunFactKind_Valid (run_Kind r)"
  shows "keeps fpt sid s t"
proof -
  have chk: "runFactCheck s r = None" and app: "append_payload clock plain_error sid a s (zero_fact\<lparr>fact_Run := Some r\<rparr>) = Inr t"
    using assms working_ok_sid [OF assms(2)] by (auto simp: appendRunFact_def)
  have "run_fits (snap_History s) r"
    using chk assms(3) by (cases "run_Kind r")
      (auto simp: runFactCheck_def run_fits_def RunFactKind_Valid_def split: prod.splits)
  then show ?thesis by (intro append_payload_keeps [OF app assms(2)]) (simp add: fact_fits_def)
qed

lemma appendModelAttemptFact_keeps:
  assumes "appendModelAttemptFact clock s f a = Inr t" "working_ok fpt sid s"
  shows "keeps fpt sid s t"
proof -
  have chk: "attemptCheck s f = None" and app: "append_payload clock plain_error sid a s (zero_fact\<lparr>fact_ModelAttempt := Some f\<rparr>) = Inr t"
    using assms working_ok_sid [OF assms(2)] by (auto simp: appendModelAttemptFact_def)
  have "attempt_fits (snap_History s) f"
    using chk by (auto simp: attemptCheck_def attempt_fits_def split: prod.splits if_splits)
  then show ?thesis by (intro append_payload_keeps [OF app assms(2)]) (simp add: fact_fits_def)
qed

lemma appendContextContributionFact_keeps:
  "appendContextContributionFact clock s f a = Inr t \<Longrightarrow> working_ok fpt sid s \<Longrightarrow> keeps fpt sid s t"
  by (auto simp: appendContextContributionFact_def fact_fits_def working_ok_sid elim!: append_payload_keeps)

lemma appendRunBudgetExceededFact_keeps:
  "appendRunBudgetExceededFact clock s f a = Inr t \<Longrightarrow> working_ok fpt sid s \<Longrightarrow> keeps fpt sid s t"
  by (auto simp: appendRunBudgetExceededFact_def fact_fits_def working_ok_sid elim!: append_payload_keeps)

lemma appendRunLimitExceededFact_keeps:
  "appendRunLimitExceededFact clock s f a = Inr t \<Longrightarrow> working_ok fpt sid s \<Longrightarrow> keeps fpt sid s t"
  by (auto simp: appendRunLimitExceededFact_def fact_fits_def working_ok_sid elim!: append_payload_keeps)

lemma appendSessionEvent_keeps:
  assumes "appendSessionEvent clock request s e = Inr t" "working_ok fpt (creq_SessionID request) s"
  shows "keeps fpt (creq_SessionID request) s t"
proof -
  let ?s = "s\<lparr>snap_Events := snap_Events s @ [e\<lparr>sev_Revision := Revision_Next (snap_Revision s)\<rparr>]\<rparr>"
  have "working_ok fpt (creq_SessionID request) ?s" using assms(2) by (simp add: working_ok_def ident_ok_def run_ok_def)
  moreover have "extends s ?s" by (simp add: extends_def)
  ultimately show ?thesis
    using append_payload_keeps [of clock historyConflict "creq_SessionID request" "creq_Actor request" ?s
        "zero_fact\<lparr>fact_ModelConfigChanged := sev_ModelConfigChanged e\<rparr>" t fpt] assms(1)
    by (auto simp: appendSessionEvent_def fact_fits_def keeps_def intro: extends_trans)
qed

lemma working_ok_queue:
  "working_ok fpt sid s \<Longrightarrow> queue_ok sid q \<Longrightarrow> keeps fpt sid s (s\<lparr>snap_Queue := q\<rparr>)"
  by (simp add: keeps_def working_ok_def ident_ok_def run_ok_def extends_def)

lemma queueIndex_Some: "queueIndex q i = Some n \<Longrightarrow> n < length q \<and> msg_ID (qi_Message (q ! n)) = i"
  by (induction q arbitrary: n) (auto split: if_splits)

lemma queueIndex_None: "queueIndex q i = None \<longleftrightarrow> i \<notin> set (map (msg_ID \<circ> qi_Message) q)"
  by (induction q) (auto split: if_splits)

lemma queue_ok_append: "queue_ok sid q \<Longrightarrow> queueIndex q (msg_ID (qi_Message x)) = None \<Longrightarrow> validQueueItem x sid \<Longrightarrow> queue_ok sid (q @ [x])"
  by (auto simp: queue_ok_def queueIndex_None)

lemma map_update_same: "f y = f (xs ! n) \<Longrightarrow> map f (xs[n := y]) = map f xs"
  by (metis list_update_id map_update)

lemma set_update_P: "\<forall>x \<in> set xs. P x \<Longrightarrow> P y \<Longrightarrow> \<forall>x \<in> set (xs[n := y]). P x"
  using set_update_subset_insert [of xs n y] by auto

lemma queue_ok_update:
  "queue_ok sid q \<Longrightarrow> n < length q \<Longrightarrow> validQueueItem x sid \<Longrightarrow> msg_ID (qi_Message x) = msg_ID (qi_Message (q ! n)) \<Longrightarrow>
     queue_ok sid (q[n := x])"
  by (auto simp: queue_ok_def map_update_same [where f = "msg_ID \<circ> qi_Message"] dest: set_update_P [where P = "\<lambda>i. validQueueItem i sid"])

lemma set_remove_at: "set (remove_at n xs) \<subseteq> set xs"
  by (auto simp: remove_at_def dest: in_set_takeD in_set_dropD)

lemma distinct_map_remove_at: "distinct (map f xs) \<Longrightarrow> distinct (map f (remove_at n xs))"
proof -
  assume d: "distinct (map f xs)"
  have "map f xs = map f (take n xs) @ map f (drop n xs)" by (metis append_take_drop_id map_append)
  with d have "distinct (map f (take n xs) @ map f (drop n xs))" by simp
  moreover have "set (map f (drop (n + 1) xs)) \<subseteq> set (map f (drop n xs))"
    using set_drop_subset_set_drop [of n "n + 1" xs] by auto
  moreover have "distinct (map f (drop (n + 1) xs))" using d by (simp add: distinct_map distinct_drop inj_on_subset [OF _ set_drop_subset])
  ultimately show "distinct (map f (remove_at n xs))" by (auto simp: remove_at_def)
qed

lemma queue_ok_remove: "queue_ok sid q \<Longrightarrow> queue_ok sid (remove_at n q)"
  using set_remove_at [of n q] distinct_map_remove_at [of "msg_ID \<circ> qi_Message" q n] by (auto simp: queue_ok_def)

lemma Message_Valid_conj: "Message_Valid m \<longleftrightarrow>
   (validID (msg_ID m) \<and> validID (msg_SessionID m) \<and> Role_Valid (msg_Role m) \<and>
         (msg_ClientMessageID m = '''' \<or> validID (msg_ClientMessageID m))) \<and>
   (case msg_ModelContinuation m of None \<Rightarrow> True
               | Some c \<Rightarrow> msg_Role m = RoleAssistant \<and> validID (msg_RunID m) \<and> validID (msg_StepID m) \<and>
                   ModelContinuation_Valid c) \<and>
   (if msg_Parts m = [] then
        msg_Role m = RoleAssistant \<and> validID (msg_RunID m) \<and> validID (msg_StepID m)
      else (\<forall>p \<in> set (msg_Parts m). MessagePart_Valid p))"
  unfolding Message_Valid_def by (cases "msg_ModelContinuation m") (simp_all only: option.case if_False simp_thms if_True split: if_split, blast+)

lemma Message_Valid_parts:
  "Message_Valid m \<Longrightarrow> ps \<noteq> [] \<Longrightarrow> \<forall>p \<in> set ps. MessagePart_Valid p \<Longrightarrow> Message_Valid (m\<lparr>msg_Parts := ps\<rparr>)"
  unfolding Message_Valid_conj by (cases "msg_ModelContinuation m") (simp_all add: Role_Valid_def)

lemma working_ok_queue_ok: "working_ok fpt sid s \<Longrightarrow> queue_ok sid (snap_Queue s)"
  by (simp add: working_ok_def)

lemma with_item_Inr:
  "with_item s i f = Inr t \<Longrightarrow> \<exists>n. n < length (snap_Queue s) \<and> msg_ID (qi_Message (snap_Queue s ! n)) = i \<and> f n (snap_Queue s ! n) = Inr t"
  by (cases "queueIndex (snap_Queue s) i") (auto simp: with_item_def dest: queueIndex_Some)

lemma queue_item_valid: "working_ok fpt sid s \<Longrightarrow> n < length (snap_Queue s) \<Longrightarrow> validQueueItem (snap_Queue s ! n) sid"
  by (simp add: working_ok_def queue_ok_def)

lemma validQueueItem_update:
  "validQueueItem (q\<lparr>qi_ClaimedBy := r\<rparr>) sid = validQueueItem q sid"
  "validQueueItem q sid \<Longrightarrow> Delivery_Valid d \<Longrightarrow> validQueueItem (q\<lparr>qi_Delivery := d\<rparr>) sid"
  by (simp_all add: validQueueItem_def)

lemma enqueueMessage_keeps:
  "enqueueMessage s q = Inr t \<Longrightarrow> validQueueItem q sid \<Longrightarrow> working_ok fpt sid s \<Longrightarrow> keeps fpt sid s t"
  by (auto simp: enqueueMessage_def intro!: working_ok_queue queue_ok_append working_ok_queue_ok)

lemma claimQueue_keeps:
  "claimQueue s c = Inr t \<Longrightarrow> working_ok fpt sid s \<Longrightarrow> keeps fpt sid s t"
  by (auto simp: claimQueue_def validQueueItem_update dest!: with_item_Inr
      intro!: working_ok_queue queue_ok_update working_ok_queue_ok queue_item_valid [of fpt])

lemma consumeQueue_keeps:
  "consumeQueue s c = Inr t \<Longrightarrow> working_ok fpt sid s \<Longrightarrow> keeps fpt sid s t"
  by (auto simp: consumeQueue_def dest!: with_item_Inr intro!: working_ok_queue queue_ok_remove working_ok_queue_ok)

lemma deleteQueue_keeps:
  "deleteQueue s i = Inr t \<Longrightarrow> working_ok fpt sid s \<Longrightarrow> keeps fpt sid s t"
  by (auto simp: deleteQueue_def dest!: with_item_Inr intro!: working_ok_queue queue_ok_remove working_ok_queue_ok)

lemma editQueue_keeps:
  assumes "editQueue s e = Inr t" "MessageInput_Valid (qe_Input e)" "Delivery_Valid (qe_Delivery e)" "working_ok fpt sid s"
  shows "keeps fpt sid s t"
proof -
  obtain n where n: "n < length (snap_Queue s)"
    and t: "t = s\<lparr>snap_Queue := (snap_Queue s)[n := (snap_Queue s ! n)\<lparr>qi_Message := (qi_Message (snap_Queue s ! n))
      \<lparr>msg_Parts := input_Parts (qe_Input e)\<rparr>, qi_Delivery := qe_Delivery e\<rparr>]\<rparr>"
    using assms(1) by (auto simp: editQueue_def dest!: with_item_Inr)
  have "validQueueItem (snap_Queue s ! n) sid" by (rule queue_item_valid [OF assms(4) n])
  then show ?thesis unfolding t using assms n
    by (intro working_ok_queue queue_ok_update working_ok_queue_ok)
       (auto simp: validQueueItem_def MessageInput_Valid_def intro: Message_Valid_parts)
qed

lemma reclassifyQueue_keeps:
  "reclassifyQueue s r = Inr t \<Longrightarrow> Delivery_Valid (qr_Delivery r) \<Longrightarrow> working_ok fpt sid s \<Longrightarrow> keeps fpt sid s t"
  by (auto simp: reclassifyQueue_def dest!: with_item_Inr
      intro!: working_ok_queue queue_ok_update working_ok_queue_ok validQueueItem_update(2) queue_item_valid [of fpt])

lemma setContext_keeps:
  "setContext request s v b = Inr t \<Longrightarrow> working_ok fpt sid s \<Longrightarrow> keeps fpt sid s t"
  by (auto simp: setContext_def keeps_def working_ok_def ident_ok_def run_ok_def extends_def)

lemma setModelConfig_keeps:
  "setModelConfig s c = Inr t \<Longrightarrow> Config_Validate c = None \<Longrightarrow> working_ok fpt sid s \<Longrightarrow> keeps fpt sid s t"
  by (auto simp: setModelConfig_def keeps_def working_ok_def ident_ok_def run_ok_def extends_def)

lemma applyRunState_keeps:
  "applyRunState s c = Inr t \<Longrightarrow> validID (rsc_RunID c) \<Longrightarrow> working_ok fpt sid s \<Longrightarrow> keeps fpt sid s t"
  by (auto simp: applyRunState_def keeps_def working_ok_def ident_ok_def run_ok_def extends_def split: RunState.splits)

section \<open>The run journal\<close>

lemma journalIndex_Some: "journalIndex j e = Some n \<Longrightarrow> n < length j \<and> sameJournalKey e (j ! n)"
  by (induction j arbitrary: n) (auto split: if_splits)

lemma journalIndex_None: "journalIndex j e = None \<longleftrightarrow> (\<forall>x \<in> set j. \<not> sameJournalKey e x)"
  by (induction j) (auto split: if_splits)

lemma JournalEntry_Validate_call: "JournalEntry_Validate e sid = None \<Longrightarrow> \<exists>c. jrn_ToolCall e = Some c"
  by (cases "jrn_ToolCall e") (simp_all add: JournalEntry_Validate_def)

lemma sameJournalKey_valid:
  "JournalEntry_Validate e sid = None \<Longrightarrow> JournalEntry_Validate x sid = None \<Longrightarrow> sameJournalKey e x \<longleftrightarrow> jrn_callID e = jrn_callID x"
  by (auto simp: sameJournalKey_def jrn_callID_def dest!: JournalEntry_Validate_call)

lemma journal_ok_append:
  assumes "journal_ok sid j" "JournalEntry_Validate e sid = None" "journalIndex j e = None"
  shows "journal_ok sid (j @ [e])"
proof -
  have "jrn_callID e \<noteq> jrn_callID x" if "x \<in> set j" for x
    using assms that sameJournalKey_valid [of e sid x] by (auto simp: journal_ok_def journalIndex_None)
  with assms show ?thesis by (auto simp: journal_ok_def)
qed

lemma sameToolCall_ID: "sameToolCall c d \<Longrightarrow> call_ID c = call_ID d"
  by (simp add: sameToolCall_def)

lemma advanceJournal_valid:
  assumes "advanceJournal c e = Inr c'" "JournalEntry_Validate c sid = None" "JournalEntry_Validate e sid = None"
  shows "JournalEntry_Validate c' sid = None \<and> jrn_callID c' = jrn_callID c"
proof -
  obtain cc ce where cc: "jrn_ToolCall c = Some cc" and ce: "jrn_ToolCall e = Some ce"
    using assms(2,3) by (blast dest: JournalEntry_Validate_call)
  consider (pend) "jrn_Status e = JournalPending" "jrn_Status c = JournalPrepared" "c' = c\<lparr>jrn_Status := JournalPending\<rparr>"
    | (fin) r where "\<not> unfinishedJournal (jrn_Status e)" "unfinishedJournal (jrn_Status c)" "jrn_ToolResult e = Some r"
        "res_CallID r = call_ID cc" "c' = c\<lparr>jrn_ToolResult := Some r, jrn_Status := jrn_Status e\<rparr>"
    using assms(1) cc by (auto simp: advanceJournal_def unfinishedJournal_def split: if_splits option.splits)
  then show ?thesis
  proof cases
    case pend
    with assms(2) cc show ?thesis by (auto simp: JournalEntry_Validate_def jrn_callID_def JournalStatus_Valid_def)
  next
    case (fin r)
    with assms(2,3) cc ce show ?thesis
      by (cases "jrn_Status e") (auto simp: JournalEntry_Validate_def jrn_callID_def JournalStatus_Valid_def unfinishedJournal_def)
  qed
qed

lemma journal_ok_update:
  assumes "journal_ok sid j" "n < length j" "JournalEntry_Validate e sid = None" "jrn_callID e = jrn_callID (j ! n)"
  shows "journal_ok sid (j[n := e])"
  using assms set_update_P [of j "\<lambda>e. JournalEntry_Validate e sid = None" e n]
  by (auto simp: journal_ok_def map_update_same)

lemma applyJournal_keeps:
  assumes "applyJournal s e sid = Inr t" "working_ok fpt sid s"
  shows "keeps fpt sid s t"
proof -
  have v: "JournalEntry_Validate e sid = None" and j: "journal_ok sid (snap_RunJournal s)"
    using assms by (auto simp: applyJournal_def working_ok_def)
  have "\<exists>j'. t = s\<lparr>snap_RunJournal := j'\<rparr> \<and> journal_ok sid j'"
  proof (cases "journalIndex (snap_RunJournal s) e")
    case None
    then show ?thesis using assms(1) journal_ok_append [OF j v] by (auto simp: applyJournal_def)
  next
    case (Some n)
    then obtain c' where c': "advanceJournal (snap_RunJournal s ! n) e = Inr c'" "t = s\<lparr>snap_RunJournal := (snap_RunJournal s)[n := c']\<rparr>"
      using assms(1) by (auto simp: applyJournal_def)
    have n: "n < length (snap_RunJournal s)" using journalIndex_Some [OF Some] by simp
    then have "JournalEntry_Validate (snap_RunJournal s ! n) sid = None" using j by (simp add: journal_ok_def)
    from advanceJournal_valid [OF c'(1) this v] show ?thesis using c'(2) journal_ok_update [OF j n] by auto
  qed
  then show ?thesis using assms(2) by (auto simp: keeps_def working_ok_def ident_ok_def run_ok_def extends_def)
qed

section \<open>The extension journal\<close>

lemma applyExtensionJournal_cases:
  assumes "applyExtensionJournal fpt sid j x = Inr j'"
  obtains (new) "ExtensionJournalEntry_Validate fpt x sid = None" "j' = j @ [x]" "xj_Status x = InvocationPrepared"
      "xj_Sequence x = word_of_nat (Suc (length j))" "xj_InvocationID x \<notin> set (map xj_InvocationID j)"
    | (update) n where "ExtensionJournalEntry_Validate fpt x sid = None" "n < length j" "int n = sint (xj_Sequence x - 1)"
      "sameExtensionIdentity (j ! n) x" "validateExtensionTransition (j ! n) x = None" "j' = j[n := x]"
proof -
  have v: "ExtensionJournalEntry_Validate fpt x sid = None"
    using assms by (auto simp: applyExtensionJournal_def split: option.splits)
  show thesis
  proof (cases "sint (xj_Sequence x - 1) = int (length j)")
    case True
    then show thesis using assms v by (intro new) (auto simp: applyExtensionJournal_def Let_def split: if_splits)
  next
    case False
    let ?n = "nat (sint (xj_Sequence x - 1))"
    have "0 \<le> sint (xj_Sequence x - 1)" "sint (xj_Sequence x - 1) < int (length j)"
      using assms v False by (auto simp: applyExtensionJournal_def Let_def split: if_splits)
    then show thesis using assms v False
      by (intro update [of ?n]) (auto simp: applyExtensionJournal_def Let_def split: if_splits)
  qed
qed

lemma applyExtensionJournal_ok:
  assumes "applyExtensionJournal fpt sid j x = Inr j'" "ext_ok fpt sid j"
  shows "ext_ok fpt sid j'"
  using assms(1)
proof (cases rule: applyExtensionJournal_cases)
  case new
  with assms(2) show ?thesis by (auto simp: ext_ok_def nth_append less_Suc_eq)
next
  case (update n)
  then have same: "xj_InvocationID x = xj_InvocationID (j ! n)" "xj_Sequence x = xj_Sequence (j ! n)"
    by (simp_all add: sameExtensionIdentity_def)
  have "map xj_InvocationID j' = map xj_InvocationID j" using update(6) same(1) by (simp add: map_update_same)
  moreover have "xj_Sequence (j' ! i) = xj_Sequence (j ! i)" if "i < length j" for i
    using that update(2,6) same(2) by (cases "i = n") auto
  moreover have "\<forall>e \<in> set j'. ExtensionJournalEntry_Validate fpt e sid = None"
    unfolding update(6) using assms(2) update(1) by (intro set_update_P) (simp_all add: ext_ok_def)
  ultimately show ?thesis using assms(2) update(6) by (simp add: ext_ok_def)
qed

section \<open>One change and a whole transaction\<close>

lemma required_None [simp]: "required m v x = None \<longleftrightarrow> (\<exists>y. x = Some y \<and> v y = None)"
  by (auto simp: required_def split: option.splits)

lemma applyChange_keeps:
  assumes app: "applyChange fpt clock request s c = Inr t" and v: "Change_Validate fpt c (creq_SessionID request) = None"
    and ok: "working_ok fpt (creq_SessionID request) s"
  shows "keeps fpt (creq_SessionID request) s t"
proof (cases "chg_Kind c")
  case AppendMessage
  with app ok show ?thesis by (simp add: applyChange_def appendMessage_keeps)
next
  case AppendToolCall
  with app ok show ?thesis by (simp add: applyChange_def appendToolCall_keeps)
next
  case AppendToolResult
  with app ok show ?thesis by (simp add: applyChange_def appendToolResult_keeps)
next
  case AppendRunFact
  with v have "RunFactKind_Valid (run_Kind (the (chg_RunFact c)))" by (auto simp: Change_Validate_def RunFact_Validate_def)
  with AppendRunFact app ok show ?thesis by (simp add: applyChange_def appendRunFact_keeps)
next
  case AppendModelAttempt
  with app ok show ?thesis by (simp add: applyChange_def appendModelAttemptFact_keeps)
next
  case AppendContextContribution
  with app ok show ?thesis by (simp add: applyChange_def appendContextContributionFact_keeps)
next
  case AppendRunBudgetExceeded
  with app ok show ?thesis by (simp add: applyChange_def appendRunBudgetExceededFact_keeps)
next
  case AppendRunLimitExceeded
  with app ok show ?thesis by (simp add: applyChange_def appendRunLimitExceededFact_keeps)
next
  case AppendSessionEvent
  with app ok show ?thesis by (simp add: applyChange_def appendSessionEvent_keeps)
next
  case EnqueueMessage
  with v have "validQueueItem (the (chg_QueueItem c)) (creq_SessionID request)"
    by (auto simp: Change_Validate_def validQueueItem_def Let_def)
  with EnqueueMessage app ok show ?thesis by (simp add: applyChange_def enqueueMessage_keeps)
next
  case ClaimQueue
  with app ok show ?thesis by (simp add: applyChange_def claimQueue_keeps)
next
  case ConsumeQueue
  with app ok show ?thesis by (simp add: applyChange_def consumeQueue_keeps)
next
  case EditQueue
  with v have "MessageInput_Valid (qe_Input (the (chg_QueueEdit c)))" "Delivery_Valid (qe_Delivery (the (chg_QueueEdit c)))"
    by (auto simp: Change_Validate_def Let_def)
  with EditQueue app ok show ?thesis by (simp add: applyChange_def editQueue_keeps)
next
  case DeleteQueue
  with app ok show ?thesis by (simp add: applyChange_def deleteQueue_keeps)
next
  case ReclassifyQueue
  with v have "Delivery_Valid (qr_Delivery (the (chg_QueueReclassification c)))"
    by (auto simp: Change_Validate_def Let_def)
  with ReclassifyQueue app ok show ?thesis by (simp add: applyChange_def reclassifyQueue_keeps)
next
  case SetContext
  with app ok show ?thesis by (simp add: applyChange_def setContext_keeps)
next
  case SetModelConfig
  with v have "Config_Validate (the (chg_ModelConfig c)) = None" by (auto simp: Change_Validate_def)
  with SetModelConfig app ok show ?thesis by (simp add: applyChange_def setModelConfig_keeps)
next
  case SetRunState
  with v have "validID (rsc_RunID (the (chg_RunState c)))" by (auto simp: Change_Validate_def Let_def)
  with SetRunState app ok show ?thesis by (simp add: applyChange_def applyRunState_keeps)
next
  case UpdateRunJournal
  with app ok show ?thesis by (simp add: applyChange_def applyJournal_keeps)
next
  case UpdateExtensionJournal
  with app ok show ?thesis
    by (auto simp: applyChange_def keeps_def working_ok_def ident_ok_def run_ok_def extends_def dest: applyExtensionJournal_ok)
next
  case (ChangeKind_other k)
  with v show ?thesis by (simp add: Change_Validate_def)
qed

interpretation tx: loop_step "applyChange fpt clock request" "\<lambda>c. Change_Validate fpt c (creq_SessionID request) = None"
  "working_ok fpt (creq_SessionID request)" extends for fpt clock request
  by unfold_locales (auto dest: applyChange_keeps intro: extends_trans simp: keeps_def)

lemma applyChanges_keeps:
  assumes "applyChanges fpt clock s request = Inr t" "working_ok fpt (creq_SessionID request) s"
  shows "aggregate_ok fpt (creq_SessionID request) t \<and> extends s t \<and>
    (snap_RunState t = RunIdle \<longrightarrow> \<not> hasUnfinishedJournal (snap_RunJournal t))"
proof -
  have vs: "\<forall>c \<in> set (creq_Changes request). Change_Validate fpt c (creq_SessionID request) = None"
    and loop: "foldE (applyChange fpt clock request) s (creq_Changes request) = Inr t" and fin: "finalChecks t = None"
    using assms(1) by (auto simp: applyChanges_def)
  have "working_ok fpt (creq_SessionID request) t \<and> extends s t" using tx.loop_both [OF loop vs assms(2)] .
  with fin show ?thesis by (auto simp: aggregate_ok_def claims_ok_def finalChecks_def validateQueueClaims_def is_active_def)
qed

end
