(* ===== verification/Recovery_Invariant.thy ===== *)
theory Recovery_Invariant
  imports Session_Invariant
begin

text \<open>
  What crash recovery does to a well-formed aggregate: it never fails, it keeps the aggregate invariant,
  it resolves everything that may have crossed the execution boundary, and a second recovery changes
  nothing. The three loops (attempts, tool journal, queue) have one lemma each.
\<close>

section \<open>Lookups after an append\<close>

lemma last_such_append: "last_such P (xs @ ys) = (case last_such P ys of Some y \<Rightarrow> Some y | None \<Rightarrow> last_such P xs)"
  by (induction xs) (auto split: option.splits)

lemma last_such_filter: "last_such P (filter Q xs) = last_such (\<lambda>x. P x \<and> Q x) xs"
  by (induction xs) (auto split: option.splits)

lemma last_such_SomeD: "last_such P xs = Some x \<Longrightarrow> x \<in> set xs \<and> P x"
  by (induction xs) (auto split: option.splits if_splits)

lemma last_such_None: "last_such P xs = None \<longleftrightarrow> (\<forall>x \<in> set xs. \<not> P x)"
  by (induction xs) (auto split: option.splits)

lemma map_filter_append [simp]: "List.map_filter f (xs @ ys) = List.map_filter f xs @ List.map_filter f ys"
  by (simp add: List.map_filter_def)

lemma map_filter_single [simp]: "List.map_filter f [x] = (case f x of None \<Rightarrow> [] | Some y \<Rightarrow> [y])"
  by (simp add: List.map_filter_def split: option.splits)

lemma set_map_filter_iff: "y \<in> set (List.map_filter f xs) \<longleftrightarrow> (\<exists>x \<in> set xs. f x = Some y)"
  by (force simp: List.map_filter_def)

lemma attemptFacts_no_attempt: "fact_ModelAttempt f = None \<Longrightarrow> attemptFacts (h @ [f]) i = attemptFacts h i"
  by (simp add: attemptFacts_def)

lemma attemptFacts_append:
  "fact_ModelAttempt f = Some a \<Longrightarrow> att_Kind a \<noteq> Attempt_Started \<Longrightarrow>
     attemptFacts (h @ [f]) i = (if att_AttemptID a = i then (fst (attemptFacts h i), Some a) else attemptFacts h i)"
  by (simp add: attemptFacts_def Let_def last_such_append)

lemma attemptFacts_startOf:
  "fst (attemptFacts h i) \<noteq> None \<Longrightarrow> fst (attemptFacts h i) = Some (startOf h i)"
  by (auto simp: attemptFacts_def startOf_def Let_def last_such_filter attempts_of_def)

lemma startedAttempts_iff: "i \<in> set (startedAttempts h) \<longleftrightarrow> fst (attemptFacts h i) \<noteq> None"
  by (force simp: startedAttempts_def attempts_of_def attemptFacts_def Let_def last_such_None)

lemma terminalAttempts_iff: "i \<in> set (terminalAttempts h) \<longleftrightarrow> snd (attemptFacts h i) \<noteq> None"
  by (force simp: terminalAttempts_def attempts_of_def attemptFacts_def Let_def last_such_None)

lemma attemptFacts_in_history:
  assumes "fst (attemptFacts h i) = Some a"
  shows "\<exists>f \<in> set h. fact_ModelAttempt f = Some a" and "att_Kind a = Attempt_Started" and "att_AttemptID a = i"
  using assms by (auto simp: attemptFacts_def Let_def set_map_filter_iff dest!: last_such_SomeD)

lemma runFacts_in_history:
  assumes "fst (runFacts h i) = Some r"
  shows "\<exists>f \<in> set h. fact_Run f = Some r" and "run_Kind r = RunStarted" and "run_RunID r = i"
  using assms by (auto simp: runFacts_def Let_def set_map_filter_iff dest!: last_such_SomeD)

section \<open>Payloads of stored facts\<close>

lemma stored_payload: "envelope_ok sid h \<Longrightarrow> f \<in> set h \<Longrightarrow> validatePayload f sid = None"
  by (auto simp: envelope_ok_def HistoryFact_Validate_def)

lemma present_simps [simp]: "present None = 0" "present (Some x) = 1"
  by (simp_all add: present_def)

lemma one_payload:
  assumes "fact_payloads f = 1"
  shows "fact_ModelAttempt f = Some a \<Longrightarrow> fact_Message f = None \<and> fact_ToolCall f = None \<and> fact_ToolResult f = None \<and> fact_Run f = None"
    and "fact_Run f = Some r \<Longrightarrow> fact_Message f = None \<and> fact_ToolCall f = None \<and> fact_ToolResult f = None"
    and "fact_ToolCall f = Some c \<Longrightarrow> fact_Message f = None"
  using assms by (auto simp: fact_payloads_def present_def split: if_splits)

lemma validatePayload_attempt: "fact_ModelAttempt f = Some a \<Longrightarrow> validatePayload f sid = None \<Longrightarrow> ModelAttemptFact_Validate a = None"
  using one_payload(1) [of f a] by (auto simp: validatePayload_def split: if_splits)

lemma validatePayload_run: "fact_Run f = Some r \<Longrightarrow> validatePayload f sid = None \<Longrightarrow> RunFact_Validate r sid = None"
  using one_payload(2) [of f r] by (auto simp: validatePayload_def split: if_splits)

lemma zero_fact_no_envelope [simp]:
  "\<not> hasHistoryEnvelope (zero_fact\<lparr>fact_ModelAttempt := a\<rparr>)" "\<not> hasHistoryEnvelope (zero_fact\<lparr>fact_Run := r\<rparr>)"
  "\<not> hasHistoryEnvelope (zero_fact\<lparr>fact_ToolResult := t\<rparr>)" "\<not> hasHistoryEnvelope (zero_fact\<lparr>fact_Message := m\<rparr>)"
  "\<not> hasHistoryEnvelope (zero_fact\<lparr>fact_ToolCall := c\<rparr>)"
  by (simp_all add: hasHistoryEnvelope_def zero_fact_def zero_actor_def IsZero_def)

lemma zero_fact_payload [simp]:
  "validatePayload (zero_fact\<lparr>fact_ModelAttempt := Some a\<rparr>) sid = ModelAttemptFact_Validate a"
  "validatePayload (zero_fact\<lparr>fact_Run := Some r\<rparr>) sid = RunFact_Validate r sid"
  "validatePayload (zero_fact\<lparr>fact_ToolResult := Some t\<rparr>) sid = ToolResult_Validate t"
  by (simp_all add: validatePayload_def fact_payloads_def)

section \<open>Appending during recovery\<close>

lemma recover_append_keeps:
  assumes "working_ok fpt sid s" "fact_fits (snap_History s) f" "recover_append clock m s f = (r, t)"
  shows "keeps fpt sid s t" and "t = s\<lparr>snap_History := snap_History t\<rparr>"
    and "r = None \<Longrightarrow> snap_History t = snap_History s @ [stamped clock (snap_History s) sid f zero_actor]"
proof -
  have sid: "ses_ID (snap_Session s) = sid" using assms(1) by (rule working_ok_sid)
  have "keeps fpt sid s t \<and> t = s\<lparr>snap_History := snap_History t\<rparr> \<and>
     (r = None \<longrightarrow> snap_History t = snap_History s @ [stamped clock (snap_History s) sid f zero_actor])"
  proof (cases "append_payload clock (\<lambda>_. recover_error m) sid zero_actor s f")
    case (Inl e)
    then show ?thesis using assms sid by (auto simp: recover_append_def keeps_def)
  next
    case (Inr u)
    then show ?thesis using assms sid append_payload_keeps [OF Inr assms(1,2)] append_payload_Inr(1) [OF Inr]
      by (auto simp: recover_append_def)
  qed
  then show "keeps fpt sid s t" "t = s\<lparr>snap_History := snap_History t\<rparr>"
    "r = None \<Longrightarrow> snap_History t = snap_History s @ [stamped clock (snap_History s) sid f zero_actor]" by auto
qed

lemma recover_append_succeeds:
  assumes "working_ok fpt sid s" "\<not> hasHistoryEnvelope f" "validatePayload f sid = None" "fact_OriginFactID f = ''''" "\<forall>n. clock n \<noteq> 0"
  shows "fst (recover_append clock m s f) = None"
proof -
  have sid: "ses_ID (snap_Session s) = sid" "validID sid" using assms(1) by (auto simp: working_ok_def ident_ok_def)
  have "appendHistoryFact clock (snap_History s) sid f zero_actor = Inr (snap_History s @ [stamped clock (snap_History s) sid f zero_actor])"
    using assms sid by (intro appendHistoryFact_succeeds) auto
  then show ?thesis using sid by (simp add: recover_append_def append_payload_def)
qed

section \<open>Orphaned attempts\<close>

lemma orphaned_valid: "ModelAttemptFact_Validate a = None \<Longrightarrow> att_Kind a = Attempt_Started \<Longrightarrow> ModelAttemptFact_Validate (orphaned a) = None"
  by (auto simp: ModelAttemptFact_Validate_def orphaned_def ModelAttemptKind_Valid_def)

lemma start_valid:
  assumes "working_ok fpt sid s" "fst (attemptFacts (snap_History s) i) = Some a"
  shows "ModelAttemptFact_Validate a = None" "att_Kind a = Attempt_Started" "att_AttemptID a = i"
proof -
  obtain f where f: "f \<in> set (snap_History s)" "fact_ModelAttempt f = Some a" using attemptFacts_in_history(1) [OF assms(2)] by blast
  have "envelope_ok sid (snap_History s)" using assms(1) by (simp add: working_ok_def)
  from stored_payload [OF this f(1)] show "ModelAttemptFact_Validate a = None" by (rule validatePayload_attempt [OF f(2)])
  show "att_Kind a = Attempt_Started" "att_AttemptID a = i" using attemptFacts_in_history(2,3) [OF assms(2)] .
qed

text \<open>The loop invariant: attempts still to visit are as they were in the History at the start.\<close>

definition attempts_left :: "HistoryFact list \<Rightarrow> AttemptID list \<Rightarrow> Snapshot \<Rightarrow> bool" where
  "attempts_left h0 ids s \<longleftrightarrow> (\<forall>i \<in> set ids. attemptFacts (snap_History s) i = attemptFacts h0 i)"

lemma terminateAttempt_step:
  assumes ok: "working_ok fpt sid s" and left: "attempts_left h0 (i # ids) s" "i \<notin> set ids" and st: "i \<in> set (startedAttempts h0)"
    and run: "terminateAttempt clock h0 (s, b) i = (r, t, c)"
  shows "keeps fpt sid s t \<and> t = s\<lparr>snap_History := snap_History t\<rparr> \<and> attempts_left h0 ids t \<and>
    ((\<forall>n. clock n \<noteq> 0) \<longrightarrow> r = None) \<and> (r = None \<longrightarrow> snd (attemptFacts (snap_History t) i) \<noteq> None) \<and>
    (\<forall>j. j \<noteq> i \<longrightarrow> attemptFacts (snap_History t) j = attemptFacts (snap_History s) j) \<and> (r = None \<longrightarrow> t = s \<or> c)"
proof (cases "i \<in> set (terminalAttempts h0)")
  case True
  then show ?thesis using run left ok
    by (auto simp: terminateAttempt_def keeps_def attempts_left_def terminalAttempts_iff)
next
  case False
  let ?a = "startOf h0 i" and ?f = "zero_fact\<lparr>fact_ModelAttempt := Some (orphaned (startOf h0 i))\<rparr>"
  have start: "attemptFacts (snap_History s) i = (Some ?a, None)"
    using left st False attemptFacts_startOf [of h0 i]
    by (auto simp: attempts_left_def startedAttempts_iff terminalAttempts_iff prod_eq_iff)
  have a: "ModelAttemptFact_Validate ?a = None" "att_Kind ?a = Attempt_Started" "att_AttemptID ?a = i"
    using start_valid [OF ok, of i ?a] start by auto
  have fits: "fact_fits (snap_History s) ?f"
    using start a by (simp add: fact_fits_def attempt_fits_def orphaned_def sameAttemptIdentity_def)
  obtain r' where app: "recover_append clock ''cannot terminate orphaned model attempt'' s ?f = (r', t)" and r: "r = r'" "r' = None \<longrightarrow> c"
    using run False by (auto simp: terminateAttempt_def split: prod.splits option.splits)
  note keep = recover_append_keeps [OF ok fits app]
  have ok_run: "(\<forall>n. clock n \<noteq> 0) \<longrightarrow> r = None"
    using recover_append_succeeds [OF ok, of ?f clock "''cannot terminate orphaned model attempt''"] app r orphaned_valid [OF a(1,2)] by auto
  have facts: "attemptFacts (snap_History t) j = (if j = i \<and> r = None then (Some ?a, Some (orphaned ?a)) else attemptFacts (snap_History s) j)" for j
  proof (cases "r = None")
    case True
    then show ?thesis using keep(3) r a start
      by (simp add: attemptFacts_append [where a = "orphaned ?a"] orphaned_def)
  next
    case False
    then have "t = s" using app r by (auto simp: recover_append_def split: sum.splits)
    with False show ?thesis by auto
  qed
  show ?thesis using keep(1,2) ok_run facts left r
    by (auto simp: attempts_left_def)
qed

lemma terminateAttempts_loop:
  assumes "working_ok fpt sid s" "attempts_left h0 ids s" "distinct ids" "set ids \<subseteq> set (startedAttempts h0)"
    "foldS (terminateAttempt clock h0) (s, b) ids = (r, t, c)"
  shows "keeps fpt sid s t \<and> t = s\<lparr>snap_History := snap_History t\<rparr> \<and> ((\<forall>n. clock n \<noteq> 0) \<longrightarrow> r = None) \<and>
    (r = None \<longrightarrow> (\<forall>i \<in> set ids. snd (attemptFacts (snap_History t) i) \<noteq> None)) \<and>
    (\<forall>j. j \<notin> set ids \<longrightarrow> attemptFacts (snap_History t) j = attemptFacts (snap_History s) j) \<and> (r = None \<longrightarrow> (t = s \<and> c = b) \<or> c)"
  using assms
proof (induction ids arbitrary: s b)
  case Nil
  then show ?case by (simp add: keeps_def)
next
  case (Cons i ids)
  obtain r1 t1 c1 where step: "terminateAttempt clock h0 (s, b) i = (r1, t1, c1)" by (metis prod_cases3)
  have one: "keeps fpt sid s t1 \<and> t1 = s\<lparr>snap_History := snap_History t1\<rparr> \<and> attempts_left h0 ids t1 \<and>
    ((\<forall>n. clock n \<noteq> 0) \<longrightarrow> r1 = None) \<and> (r1 = None \<longrightarrow> snd (attemptFacts (snap_History t1) i) \<noteq> None) \<and>
    (\<forall>j. j \<noteq> i \<longrightarrow> attemptFacts (snap_History t1) j = attemptFacts (snap_History s) j) \<and> (r1 = None \<longrightarrow> t1 = s \<or> c1)"
    using terminateAttempt_step [OF Cons.prems(1,2) _ _ step] Cons.prems(3,4) by auto
  show ?case
  proof (cases r1)
    case (Some e)
    then have "(r, t, c) = (Some e, t1, c1)" using Cons.prems(5) step by simp
    with one Some show ?thesis by auto
  next
    case None
    then have rest: "foldS (terminateAttempt clock h0) (t1, c1) ids = (r, t, c)" using Cons.prems(5) step by simp
    have b: "(t1 = s \<and> c1 = b) \<or> c1"
      using step one None by (auto simp: terminateAttempt_def split: if_splits prod.splits option.splits)
    have IH: "keeps fpt sid t1 t \<and> t = t1\<lparr>snap_History := snap_History t\<rparr> \<and> ((\<forall>n. clock n \<noteq> 0) \<longrightarrow> r = None) \<and>
      (r = None \<longrightarrow> (\<forall>i \<in> set ids. snd (attemptFacts (snap_History t) i) \<noteq> None)) \<and>
      (\<forall>j. j \<notin> set ids \<longrightarrow> attemptFacts (snap_History t) j = attemptFacts (snap_History t1) j) \<and> (r = None \<longrightarrow> (t = t1 \<and> c = c1) \<or> c)"
      using Cons.IH [OF _ _ _ _ rest] one Cons.prems(3,4) by (auto simp: keeps_def)
    have "t = s\<lparr>snap_History := snap_History t\<rparr>" using one IH by (metis Snapshot.update_convs(3) Snapshot.surjective)
    with one IH None b Cons.prems(3) show ?thesis by (auto simp: keeps_def intro: extends_trans)
  qed
qed

section \<open>Pending tool executions\<close>

definition only_journal_history :: "Snapshot \<Rightarrow> Snapshot \<Rightarrow> bool" where
  "only_journal_history s t \<longleftrightarrow> snap_Session t = snap_Session s \<and> snap_Revision t = snap_Revision s \<and>
     snap_Context t = snap_Context s \<and> snap_RetainedContexts t = snap_RetainedContexts s \<and> snap_Queue t = snap_Queue s \<and>
     snap_ExtensionJournal t = snap_ExtensionJournal s \<and> snap_Events t = snap_Events s \<and> snap_ModelConfig t = snap_ModelConfig s \<and>
     snap_RunState t = snap_RunState s \<and> snap_ActiveRunID t = snap_ActiveRunID s \<and> snap_Fork t = snap_Fork s"

lemma only_journal_history_trans: "only_journal_history s t \<Longrightarrow> only_journal_history t u \<Longrightarrow> only_journal_history s u"
  by (simp add: only_journal_history_def)

lemma only_journal_history_append: "t = s\<lparr>snap_History := h\<rparr> \<Longrightarrow> only_journal_history s t"
  by (simp add: only_journal_history_def)

lemma working_ok_journal:
  "working_ok fpt sid s \<Longrightarrow> journal_ok sid j \<Longrightarrow> keeps fpt sid s (s\<lparr>snap_RunJournal := j\<rparr>)"
  by (simp add: keeps_def working_ok_def ident_ok_def run_ok_def extends_def)

lemma keeps_trans: "keeps fpt sid s t \<Longrightarrow> keeps fpt sid t u \<Longrightarrow> keeps fpt sid s u"
  by (auto simp: keeps_def intro: extends_trans)

lemma unknown_entry_valid:
  assumes "JournalEntry_Validate e sid = None" "jrn_ToolCall e = Some call"
  shows "JournalEntry_Validate (e\<lparr>jrn_ToolResult := Some (toolUnknown (call_ID call)), jrn_Status := JournalOutcomeUnknown\<rparr>) sid = None"
    and "validID (call_ID call)"
  using assms by (auto simp: JournalEntry_Validate_def JournalStatus_Valid_def ToolCall_Valid_def toolUnknown_def ToolResult_Validate_def)

definition attempts_same :: "Snapshot \<Rightarrow> Snapshot \<Rightarrow> bool" where
  "attempts_same s t \<longleftrightarrow> (\<forall>i. attemptFacts (snap_History t) i = attemptFacts (snap_History s) i) \<and>
     (\<forall>i. runFacts (snap_History t) i = runFacts (snap_History s) i)"

lemma runFacts_no_run: "fact_Run f = None \<Longrightarrow> runFacts (h @ [f]) i = runFacts h i"
  by (simp add: runFacts_def)

lemma recoverJournalEntry_step:
  assumes ok: "working_ok fpt sid s" and i: "i < length (snap_RunJournal s)"
    and run: "recoverJournalEntry clock interrupted (s, p, c) i = (r, t, p', c')"
  shows "keeps fpt sid s t \<and> only_journal_history s t \<and> attempts_same s t \<and> length (snap_RunJournal t) = length (snap_RunJournal s) \<and>
    (\<forall>k. k \<noteq> i \<longrightarrow> snap_RunJournal t ! k = snap_RunJournal s ! k) \<and> ((\<forall>n. clock n \<noteq> 0) \<longrightarrow> r = None) \<and>
    (r = None \<longrightarrow> jrn_Status (snap_RunJournal t ! i) \<noteq> JournalPending \<and> ((t = s \<and> c' = c) \<or> c') \<and>
       p' = (p \<or> jrn_Status (snap_RunJournal t ! i) = JournalPrepared \<and> jrn_RunID (snap_RunJournal t ! i) = interrupted))"
proof -
  let ?e = "snap_RunJournal s ! i"
  have j: "journal_ok sid (snap_RunJournal s)" using ok by (simp add: working_ok_def)
  then have v: "JournalEntry_Validate ?e sid = None" using i by (simp add: journal_ok_def)
  then obtain call where call: "jrn_ToolCall ?e = Some call" by (blast dest: JournalEntry_Validate_call)
  show ?thesis
  proof (cases "jrn_Status ?e = JournalPending")
    case False
    then have "r = None \<and> t = s \<and> c' = c \<and> p' = (p \<or> jrn_Status ?e = JournalPrepared \<and> jrn_RunID ?e = interrupted)"
      using run call by (auto simp: recoverJournalEntry_def Let_def split: if_splits)
    with ok False show ?thesis by (auto simp: keeps_def only_journal_history_def attempts_same_def)
  next
    case True
    let ?f = "zero_fact\<lparr>fact_ToolResult := Some (toolUnknown (call_ID call))\<rparr>"
    let ?u = "?e\<lparr>jrn_ToolResult := Some (toolUnknown (call_ID call)), jrn_Status := JournalOutcomeUnknown\<rparr>"
    obtain r1 s1 where s1: "(r1, s1) = (if hasToolResult (snap_History s) (call_ID call) then (None, s)
        else recover_append clock ''cannot append unknown tool result'' s ?f)" by (metis surj_pair)
    have res: "case r1 of Some x \<Rightarrow> r = Some x \<and> t = s1 | None \<Rightarrow> r = None \<and> c' \<and> p' = p \<and> t = s1\<lparr>snap_RunJournal := (snap_RunJournal s1)[i := ?u]\<rparr>"
      using run call True s1 by (auto simp: recoverJournalEntry_def Let_def split: prod.splits option.splits)
    have s1_ok: "keeps fpt sid s s1 \<and> s1 = s\<lparr>snap_History := snap_History s1\<rparr> \<and> attempts_same s s1 \<and> ((\<forall>n. clock n \<noteq> 0) \<longrightarrow> r1 = None)"
    proof (cases "hasToolResult (snap_History s) (call_ID call)")
      case True
      with s1 ok show ?thesis by (simp add: keeps_def attempts_same_def)
    next
      case False
      then have app: "recover_append clock ''cannot append unknown tool result'' s ?f = (r1, s1)" using s1 by simp
      have fits: "fact_fits (snap_History s) ?f" using False by (simp add: fact_fits_def result_fits_def)
      note keep = recover_append_keeps [OF ok fits app]
      have "attempts_same s s1"
      proof (cases r1)
        case None
        then show ?thesis using keep(3) by (simp add: attempts_same_def attemptFacts_no_attempt runFacts_no_run)
      next
        case (Some e)
        then have "s1 = s" using app by (auto simp: recover_append_def split: sum.splits)
        then show ?thesis by (simp add: attempts_same_def)
      qed
      moreover have "(\<forall>n. clock n \<noteq> 0) \<longrightarrow> r1 = None"
        using recover_append_succeeds [OF ok, of ?f clock "''cannot append unknown tool result''"] app unknown_entry_valid(2) [OF v call] by auto
      ultimately show ?thesis using keep(1,2) by simp
    qed
    then have j1: "snap_RunJournal s1 = snap_RunJournal s" by (metis Snapshot.select_convs(7) Snapshot.surjective Snapshot.update_convs(3))
    have ok1: "working_ok fpt sid s1" using s1_ok by (simp add: keeps_def)
    have "journal_ok sid ((snap_RunJournal s1)[i := ?u])"
      unfolding j1 using unknown_entry_valid(1) [OF v call] call by (intro journal_ok_update [OF j i]) (simp_all add: jrn_callID_def)
    then have k2: "keeps fpt sid s1 (s1\<lparr>snap_RunJournal := (snap_RunJournal s1)[i := ?u]\<rparr>)" by (rule working_ok_journal [OF ok1])
    have frame: "only_journal_history s s1" "only_journal_history s1 (s1\<lparr>snap_RunJournal := x\<rparr>)" for x
      using s1_ok only_journal_history_append by (blast, simp add: only_journal_history_def)
    show ?thesis
    proof (cases r1)
      case None
      then have t: "r = None" "c'" "p' = p" "t = s1\<lparr>snap_RunJournal := (snap_RunJournal s1)[i := ?u]\<rparr>" using res by auto
      then have "keeps fpt sid s t" "only_journal_history s t" "attempts_same s t"
        using s1_ok k2 keeps_trans frame only_journal_history_trans by (auto simp: attempts_same_def)
      with t j1 i show ?thesis by simp
    next
      case (Some e)
      with res s1_ok frame j1 show ?thesis by auto
    qed
  qed
qed

lemma recoverJournal_loop:
  assumes "working_ok fpt sid s" "k \<le> length (snap_RunJournal s)"
    "foldS (recoverJournalEntry clock interrupted) (s, p, c) [k..<length (snap_RunJournal s)] = (r, t, p', c')"
  shows "keeps fpt sid s t \<and> only_journal_history s t \<and> attempts_same s t \<and> length (snap_RunJournal t) = length (snap_RunJournal s) \<and>
    (\<forall>i < k. snap_RunJournal t ! i = snap_RunJournal s ! i) \<and> ((\<forall>n. clock n \<noteq> 0) \<longrightarrow> r = None) \<and>
    (r = None \<longrightarrow> (\<forall>i < length (snap_RunJournal t). k \<le> i \<longrightarrow> jrn_Status (snap_RunJournal t ! i) \<noteq> JournalPending) \<and> ((t = s \<and> c' = c) \<or> c') \<and>
       p' = (p \<or> (\<exists>i < length (snap_RunJournal t). k \<le> i \<and> jrn_Status (snap_RunJournal t ! i) = JournalPrepared \<and>
                   jrn_RunID (snap_RunJournal t ! i) = interrupted)))"
  using assms
proof (induction "length (snap_RunJournal s) - k" arbitrary: s p c k)
  case 0
  then show ?case by (auto simp: keeps_def only_journal_history_def attempts_same_def)
next
  case (Suc n)
  then have k: "k < length (snap_RunJournal s)" by simp
  obtain r1 t1 p1 c1 where step: "recoverJournalEntry clock interrupted (s, p, c) k = (r1, t1, p1, c1)" by (metis prod_cases4)
  note one = recoverJournalEntry_step [OF Suc.prems(1) k step]
  have fold: "foldS (recoverJournalEntry clock interrupted) (s, p, c) [k..<length (snap_RunJournal s)] =
      (case r1 of None \<Rightarrow> foldS (recoverJournalEntry clock interrupted) (t1, p1, c1) [Suc k..<length (snap_RunJournal t1)] | Some e \<Rightarrow> (Some e, t1, p1, c1))"
    using one step k by (simp add: upt_rec [of k] split: option.splits)
  show ?case
  proof (cases r1)
    case (Some e)
    with fold Suc.prems(3) one show ?thesis by auto
  next
    case None
    have "n = length (snap_RunJournal t1) - Suc k" "working_ok fpt sid t1" "Suc k \<le> length (snap_RunJournal t1)"
      using Suc.hyps(2) one k by (auto simp: keeps_def)
    note IH = Suc.hyps(1) [OF this(1,2,3)]
    from fold None Suc.prems(3) have "foldS (recoverJournalEntry clock interrupted) (t1, p1, c1) [Suc k..<length (snap_RunJournal t1)] = (r, t, p', c')"
      by simp
    note rest = IH [OF this]
    have tk: "snap_RunJournal t ! k = snap_RunJournal t1 ! k" using rest by auto
    have split_k: "(\<exists>i < length (snap_RunJournal t). k \<le> i \<and> P i) \<longleftrightarrow> P k \<or> (\<exists>i < length (snap_RunJournal t). Suc k \<le> i \<and> P i)" for P
      using rest one k by (metis Suc_leI le_Suc_eq le_antisym le_refl not_less_eq_eq order.strict_iff_order Suc_le_lessD)
    have all_k: "(\<forall>i < length (snap_RunJournal t). k \<le> i \<longrightarrow> Q i) \<longleftrightarrow> Q k \<and> (\<forall>i < length (snap_RunJournal t). Suc k \<le> i \<longrightarrow> Q i)" for Q
      using split_k [of "\<lambda>i. \<not> Q i"] by auto
    have "keeps fpt sid s t" using one rest keeps_trans by blast
    moreover have "only_journal_history s t" using one rest only_journal_history_trans by blast
    moreover have "attempts_same s t" using one rest by (simp add: attempts_same_def)
    moreover have "length (snap_RunJournal t) = length (snap_RunJournal s)" using one rest by simp
    moreover have "\<forall>i < k. snap_RunJournal t ! i = snap_RunJournal s ! i" using one rest by simp
    moreover have "(\<forall>n. clock n \<noteq> 0) \<longrightarrow> r = None" using rest by simp
    moreover have "r = None \<longrightarrow> (\<forall>i < length (snap_RunJournal t). k \<le> i \<longrightarrow> jrn_Status (snap_RunJournal t ! i) \<noteq> JournalPending)"
      unfolding all_k using one rest None tk by simp
    moreover have "r = None \<longrightarrow> (t = s \<and> c' = c) \<or> c'" using one rest None by auto
    moreover have "r = None \<longrightarrow> p' = (p \<or> (\<exists>i < length (snap_RunJournal t). k \<le> i \<and> jrn_Status (snap_RunJournal t ! i) = JournalPrepared \<and>
                   jrn_RunID (snap_RunJournal t ! i) = interrupted))"
      unfolding split_k using one rest None tk by simp
    ultimately show ?thesis by blast
  qed
qed

section \<open>Pending extension invocations\<close>

lemma recovery_reason_safe: "ValidateSafeReason ''extension outcome is unknown after process recovery'' = None"
proof -
  let ?s = "''extension outcome is unknown after process recovery''"
  have a: "\<forall>c \<in> set ?s. (of_char c :: nat) < 128" by simp
  have t: "TrimSpace ?s = ?s" by (rule TrimSpace_graphic) (simp_all add: graphic_def)
  have "\<not> (\<exists>r \<in> set (runes ?s). unsafe_rune r)"
    unfolding runes_ascii [OF a] by (simp add: unsafe_rune_def unicode_IsControl_def unicode_In_CfZlZp_def format_ranges_def)
  with a t utf8_ascii [OF a] show ?thesis by (simp add: ValidateSafeReason_def del: TrimSpace_graphic)
qed

lemma recovery_code_safe: "validExtensionErrorCode ''hook_outcome_unknown''"
proof -
  let ?s = "''hook_outcome_unknown''"
  have a: "\<forall>c \<in> set ?s. (of_char c :: nat) < 128" by simp
  have t: "TrimSpace ?s = ?s" by (rule TrimSpace_graphic) (simp_all add: graphic_def)
  have "\<not> (\<exists>r \<in> set (runes ?s). unicode_IsControl r \<or> unicode_IsSpace r \<or> unicode_In_CfZlZp r)"
    unfolding runes_ascii [OF a]
    by (simp add: unicode_IsSpace_def space_runes_def unicode_IsControl_def unicode_In_CfZlZp_def format_ranges_def)
  with a t utf8_ascii [OF a] show ?thesis by (simp add: validExtensionErrorCode_def)
qed

text \<open>A valid pending entry carries no context, so the recovered entry is valid again.\<close>

lemma pending_no_context:
  assumes "ExtensionJournalEntry_Validate fpt e sid = None" "xj_Status e = InvocationPending"
  shows "xj_ContextDisposition e = ContextNone"
  using assms
  by (cases "xj_ContextDisposition e")
     (auto simp: ExtensionJournalEntry_Validate_def validateContext_x_def validateStatusShape_def ContextDisposition_Valid_def)

lemma validateSubject_recovered:
  "validateSubject (e\<lparr>xj_Status := a, xj_FinishedAt := b, xj_ErrorCode := c, xj_ErrorReason := d, xj_EffectDisposition := f\<rparr>) = validateSubject e"
  by (simp add: validateSubject_def split: BoundaryKind.splits)

lemma recoverExtension_valid:
  assumes v: "ExtensionJournalEntry_Validate fpt e sid = None" and now: "now \<noteq> 0"
  shows "ExtensionJournalEntry_Validate fpt (recoverExtension now e) sid = None"
proof (cases "xj_Status e = InvocationPending")
  case True
  have c: "xj_ContextDisposition e = ContextNone" by (rule pending_no_context [OF v True])
  have pend: "\<not> IsZero (xj_PendingAt e)" "xj_PreparedAt e \<le> xj_PendingAt e" "xj_Result e = None"
    using v True by (auto simp: ExtensionJournalEntry_Validate_def validateStatusShape_def)
  have shape: "validateStatusShape (recoverExtension now e) = None"
    using True pend now recovery_code_safe by (auto simp: validateStatusShape_def recoverExtension_def IsZero_def)
  have ctx: "validateContext_x fpt (recoverExtension now e) sid = None"
    using v c True by (simp add: ExtensionJournalEntry_Validate_def validateContext_x_def recoverExtension_def)
  have vocab: "InvocationStatus_Valid InvocationOutcomeUnknown" "EffectDisposition_Valid EffectPending"
    by (simp_all add: InvocationStatus_Valid_def EffectDisposition_Valid_def)
  have subj: "validateSubject (recoverExtension now e) = None"
    using v True by (simp add: recoverExtension_def validateSubject_recovered ExtensionJournalEntry_Validate_def)
  show ?thesis
    unfolding ExtensionJournalEntry_Validate_def first_error_Cons_None subj shape ctx
    using v True pend vocab recovery_reason_safe
    by (auto simp: ExtensionJournalEntry_Validate_def recoverExtension_def)
qed (use v in \<open>simp add: recoverExtension_def\<close>)

lemma recoverExtension_same [simp]:
  "xj_Sequence (recoverExtension now e) = xj_Sequence e" "xj_InvocationID (recoverExtension now e) = xj_InvocationID e"
  "xj_Status (recoverExtension now e) \<noteq> InvocationPending"
  by (simp_all add: recoverExtension_def)

lemma recoverExtensions_nth: "i < length xs \<Longrightarrow> recoverExtensions xclock xs ! i = recoverExtension (xclock i) (xs ! i)"
  by (simp add: recoverExtensions_def nth_enumerate_eq)

lemma recoverExtensions_length [simp]: "length (recoverExtensions xclock xs) = length xs"
  by (simp add: recoverExtensions_def)

lemma recoverExtensions_ok: "ext_ok fpt sid xs \<Longrightarrow> \<forall>i. xclock i \<noteq> 0 \<Longrightarrow> ext_ok fpt sid (recoverExtensions xclock xs)"
proof -
  assume ok: "ext_ok fpt sid xs" and clk: "\<forall>i. xclock i \<noteq> 0"
  have "map xj_InvocationID (recoverExtensions xclock xs) = map xj_InvocationID xs"
    by (intro nth_equalityI) (simp_all add: recoverExtensions_nth)
  moreover have "\<forall>e \<in> set (recoverExtensions xclock xs). ExtensionJournalEntry_Validate fpt e sid = None"
  proof
    fix e assume "e \<in> set (recoverExtensions xclock xs)"
    then obtain i where i: "i < length xs" "e = recoverExtension (xclock i) (xs ! i)"
      by (auto simp: in_set_conv_nth recoverExtensions_nth)
    then show "ExtensionJournalEntry_Validate fpt e sid = None"
      using ok clk nth_mem [OF i(1)] by (auto simp: ext_ok_def intro!: recoverExtension_valid)
  qed
  ultimately show ?thesis using ok by (simp add: ext_ok_def recoverExtensions_nth)
qed

lemma recoverExtensions_idle: "\<forall>e \<in> set xs. xj_Status e \<noteq> InvocationPending \<Longrightarrow> recoverExtensions xclock xs = xs"
  by (intro nth_equalityI) (simp_all add: recoverExtensions_nth recoverExtension_def)

lemma recoverExtensions_no_pending: "\<forall>e \<in> set (recoverExtensions xclock xs). xj_Status e \<noteq> InvocationPending"
  by (auto simp: in_set_conv_nth recoverExtensions_nth)

section \<open>The interrupted run\<close>

lemma sameModelConfig_refl: "Config_Validate c = None \<Longrightarrow> sameModelConfig c c"
  by (auto simp: Config_Validate_def sameModelConfig_def sameFloat_def sameInt_def f64_eq_def split: option.splits)

lemma recoveredRunTermination_valid: "RunTermination_Validate (recoveredRunTermination h i) = None"
  by (auto simp: recoveredRunTermination_def RunTermination_Validate_def TerminationSource_Valid_def ErrorKind_Valid_def split: option.splits)

lemma interrupted_run_valid:
  assumes "RunFact_Validate r sid = None" "run_Kind r = RunStarted"
  shows "RunFact_Validate (r\<lparr>run_Kind := RunInterrupted, run_Termination := Some (recoveredRunTermination h i)\<rparr>) sid = None"
  using assms recoveredRunTermination_valid [of h i] by (auto simp: RunFact_Validate_def RunFactKind_Valid_def)

lemma working_ok_idle: "working_ok fpt sid s \<Longrightarrow> keeps fpt sid s (s\<lparr>snap_RunState := RunIdle, snap_ActiveRunID := ''''\<rparr>)"
  by (simp add: keeps_def working_ok_def ident_ok_def run_ok_def extends_def)

definition only_run_history :: "Snapshot \<Rightarrow> Snapshot \<Rightarrow> bool" where
  "only_run_history s t \<longleftrightarrow> snap_Queue t = snap_Queue s \<and> snap_RunJournal t = snap_RunJournal s \<and>
     snap_ExtensionJournal t = snap_ExtensionJournal s \<and> (\<forall>i. attemptFacts (snap_History t) i = attemptFacts (snap_History s) i)"

lemma interruptRun_keeps:
  assumes ok: "working_ok fpt sid s" and run: "interruptRun clock i s = (r, t)"
  shows "keeps fpt sid s t \<and> only_run_history s t \<and> ((\<forall>n. clock n \<noteq> 0) \<longrightarrow> r = None) \<and>
    (r = None \<longrightarrow> snap_RunState t = RunIdle \<and> snap_ActiveRunID t = '''' \<and>
       (fst (runFacts (snap_History s) i) \<noteq> None \<longrightarrow> snd (runFacts (snap_History t) i) \<noteq> None))"
proof (cases "\<exists>started. runFacts (snap_History s) i = (Some started, None)")
  case False
  then have "r = None \<and> t = s\<lparr>snap_RunState := RunIdle, snap_ActiveRunID := ''''\<rparr>"
    using run by (auto simp: interruptRun_def split: prod.splits option.splits)
  moreover have "fst (runFacts (snap_History s) i) \<noteq> None \<longrightarrow> snd (runFacts (snap_History s) i) \<noteq> None"
    using False by (metis option.exhaust prod.collapse)
  ultimately show ?thesis using working_ok_idle [OF ok] by (simp add: only_run_history_def)
next
  case True
  then obtain st where st: "runFacts (snap_History s) i = (Some st, None)" by blast
  let ?x = "st\<lparr>run_Kind := RunInterrupted, run_Termination := Some (recoveredRunTermination (snap_History s) i)\<rparr>"
  let ?f = "zero_fact\<lparr>fact_Run := Some ?x\<rparr>"
  have in_h: "run_Kind st = RunStarted" "run_RunID st = i" "\<exists>f \<in> set (snap_History s). fact_Run f = Some st"
    using runFacts_in_history [of "snap_History s" i st] st by auto
  then have v: "RunFact_Validate st sid = None"
    using ok stored_payload validatePayload_run by (fastforce simp: working_ok_def)
  then have "sameModelConfig (run_ModelConfig st) (run_ModelConfig st)" by (intro sameModelConfig_refl) (auto simp: RunFact_Validate_def)
  then have fits: "fact_fits (snap_History s) ?f" using st in_h by (simp add: fact_fits_def run_fits_def)
  obtain r1 s1 where app: "recover_append clock ''cannot append interrupted run'' s ?f = (r1, s1)" by (metis surj_pair)
  have res: "case r1 of Some e \<Rightarrow> r = Some e \<and> t = s1 | None \<Rightarrow> r = None \<and> t = s1\<lparr>snap_RunState := RunIdle, snap_ActiveRunID := ''''\<rparr>"
    using run st app by (auto simp: interruptRun_def split: option.splits)
  note keep = recover_append_keeps [OF ok fits app]
  have succ: "(\<forall>n. clock n \<noteq> 0) \<longrightarrow> r1 = None"
    using recover_append_succeeds [OF ok, of ?f clock "''cannot append interrupted run''"] app interrupted_run_valid [OF v in_h(1)] by auto
  have same: "only_run_history s s1"
  proof (cases r1)
    case None
    then have h: "snap_History s1 = snap_History s @ [stamped clock (snap_History s) sid ?f zero_actor]" using keep(3) by simp
    have "snap_Queue s1 = snap_Queue s" "snap_RunJournal s1 = snap_RunJournal s" "snap_ExtensionJournal s1 = snap_ExtensionJournal s"
      by (subst keep(2), simp)+
    with h show ?thesis by (simp add: only_run_history_def attemptFacts_no_attempt)
  next
    case (Some e)
    then have "s1 = s" using app by (auto simp: recover_append_def split: sum.splits)
    then show ?thesis by (simp add: only_run_history_def)
  qed
  show ?thesis
  proof (cases r1)
    case None
    then have t: "r = None" "t = s1\<lparr>snap_RunState := RunIdle, snap_ActiveRunID := ''''\<rparr>" using res by auto
    have "keeps fpt sid s t" unfolding t(2) using keep(1) working_ok_idle keeps_trans by (metis keeps_def)
    moreover have "snd (runFacts (snap_History t) i) \<noteq> None"
      using keep(3) None in_h(2) t(2) by (simp add: runFacts_def Let_def last_such_append)
    ultimately show ?thesis using t same succ by (simp add: only_run_history_def)
  next
    case (Some e)
    with res keep(1) same succ show ?thesis by simp
  qed
qed

section \<open>The whole recovery\<close>

definition recoverable_work :: "RunID \<Rightarrow> Snapshot \<Rightarrow> bool" where
  "recoverable_work interrupted s \<longleftrightarrow>
     (\<exists>e \<in> set (snap_RunJournal s). jrn_Status e = JournalPrepared \<and> jrn_RunID e = interrupted) \<or>
     (\<exists>e \<in> set (snap_ExtensionJournal s). pendingCompletion interrupted e)"

definition recovered :: "Snapshot \<Rightarrow> bool" where
  "recovered t \<longleftrightarrow> (\<forall>e \<in> set (snap_ExtensionJournal t). xj_Status e \<noteq> InvocationPending) \<and>
     set (startedAttempts (snap_History t)) \<subseteq> set (terminalAttempts (snap_History t)) \<and>
     (\<forall>e \<in> set (snap_RunJournal t). jrn_Status e \<noteq> JournalPending)"

definition settled :: "Snapshot \<Rightarrow> bool" where
  "settled t \<longleftrightarrow> recovered t \<and> (snap_RunState t = RunRunning \<or> validID (snap_ActiveRunID t) \<longrightarrow> recoverable_work (snap_ActiveRunID t) t)"

lemma foldS_stay: "\<forall>x \<in> set xs. f s x = (None, s) \<Longrightarrow> foldS f s xs = (None, s)"
  by (induction xs) auto

lemma journal_loop_stay:
  assumes "journal_ok sid (snap_RunJournal s)" "\<forall>e \<in> set (snap_RunJournal s). jrn_Status e \<noteq> JournalPending"
    "set ks \<subseteq> {..<length (snap_RunJournal s)}"
  shows "foldS (recoverJournalEntry clock i) (s, p, c) ks =
    (None, s, p \<or> (\<exists>k \<in> set ks. jrn_Status (snap_RunJournal s ! k) = JournalPrepared \<and> jrn_RunID (snap_RunJournal s ! k) = i), c)"
  using assms(3)
proof (induction ks arbitrary: p)
  case (Cons k ks)
  then have k: "snap_RunJournal s ! k \<in> set (snap_RunJournal s)" by simp
  then obtain call where "jrn_ToolCall (snap_RunJournal s ! k) = Some call"
    using assms(1) JournalEntry_Validate_call by (metis journal_ok_def)
  then have "recoverJournalEntry clock i (s, p, c) k =
      (None, s, p \<or> jrn_Status (snap_RunJournal s ! k) = JournalPrepared \<and> jrn_RunID (snap_RunJournal s ! k) = i, c)"
    using k assms(2) by (auto simp: recoverJournalEntry_def Let_def)
  with Cons show ?case by auto
qed simp

lemma finishRecovery_work:
  assumes "recoverable_work i t" "p \<longleftrightarrow> (\<exists>e \<in> set (snap_RunJournal t). jrn_Status e = JournalPrepared \<and> jrn_RunID e = i)"
  shows "finishRecovery clock i p c t = (Inr c, t)"
proof -
  have w: "(p \<or> (\<exists>e \<in> set (snap_ExtensionJournal t). pendingCompletion i e)) = True"
    using assms by (auto simp: recoverable_work_def)
  show ?thesis unfolding finishRecovery_def Let_def w by (simp add: recoverQueue_def queue_touched_def)
qed

lemma prepared_index:
  "(\<exists>k \<in> set [0..<length xs]. P (xs ! k)) \<longleftrightarrow> (\<exists>e \<in> set xs. P e)"
  by (metis atLeast_upt in_set_conv_nth lessThan_iff)

text \<open>Recovering a settled aggregate changes nothing.\<close>

lemma recoverAggregate_settled:
  assumes "settled t" "journal_ok sid (snap_RunJournal t)" "\<forall>xs. set (ord xs) = set xs"
  shows "recoverAggregate clock xclock ord t = (Inr False, t)"
proof -
  have ext: "t\<lparr>snap_ExtensionJournal := recoverExtensions xclock (snap_ExtensionJournal t)\<rparr> = t"
    "\<not> (\<exists>e \<in> set (snap_ExtensionJournal t). xj_Status e = InvocationPending)"
    using assms(1) by (auto simp: settled_def recovered_def recoverExtensions_idle)
  have att: "foldS (terminateAttempt clock (snap_History t)) (t, b) (ord (startedAttempts (snap_History t))) = (None, t, b)" for b
    using assms by (intro foldS_stay) (auto simp: settled_def recovered_def terminateAttempt_def)
  have jrn: "foldS (recoverJournalEntry clock i) (t, False, b) [0..<length (snap_RunJournal t)] =
      (None, t, \<exists>e \<in> set (snap_RunJournal t). jrn_Status e = JournalPrepared \<and> jrn_RunID e = i, b)" for i b
    using journal_loop_stay [OF assms(2), of "[0..<length (snap_RunJournal t)]" clock i False b] assms(1)
      prepared_index [of "snap_RunJournal t" "\<lambda>e. jrn_Status e = JournalPrepared \<and> jrn_RunID e = i"]
    by (auto simp: settled_def recovered_def lessThan_atLeast0)
  let ?p = "\<exists>e \<in> set (snap_RunJournal t). jrn_Status e = JournalPrepared \<and> jrn_RunID e = snap_ActiveRunID t"
  have "finishRecovery clock (snap_ActiveRunID t) ?p False t = (Inr False, t)"
  proof (cases "recoverable_work (snap_ActiveRunID t) t")
    case True
    then show ?thesis by (rule finishRecovery_work) simp
  next
    case False
    then have "snap_RunState t \<noteq> RunRunning" "\<not> validID (snap_ActiveRunID t)" using assms(1) by (auto simp: settled_def)
    then show ?thesis by (simp add: finishRecovery_def Let_def recoverQueue_def queue_touched_def)
  qed
  with ext att jrn show ?thesis by (simp add: recoverAggregate_def)
qed

lemma working_ok_ext: "working_ok fpt sid s \<Longrightarrow> ext_ok fpt sid x \<Longrightarrow> keeps fpt sid s (s\<lparr>snap_ExtensionJournal := x\<rparr>)"
  by (simp add: keeps_def working_ok_def ident_ok_def run_ok_def extends_def)

lemma recoverQueue_ok: "queue_ok sid q \<Longrightarrow> queue_ok sid (recoverQueue i w q)"
proof -
  assume ok: "queue_ok sid q"
  have "(msg_ID \<circ> qi_Message) \<circ> recoverQueueItem i = msg_ID \<circ> qi_Message" by (auto simp: recoverQueueItem_def)
  then have "map (msg_ID \<circ> qi_Message) (map (recoverQueueItem i) q) = map (msg_ID \<circ> qi_Message) q"
    by (metis map_map)
  moreover have "validQueueItem (recoverQueueItem i x) sid" if "validQueueItem x sid" for x
    using that by (auto simp: recoverQueueItem_def validQueueItem_def Delivery_Valid_def)
  ultimately show ?thesis using ok by (auto simp: recoverQueue_def queue_ok_def simp del: map_map)
qed

text \<open>After the two loops: the run goes idle unless prepared work is left, and the queue is released.\<close>

lemma finishRecovery_result:
  assumes ok: "working_ok fpt sid s" "claims_ok s" and clk: "\<forall>n. clock n \<noteq> 0" and rec: "recovered s"
    and i: "i = snap_ActiveRunID s" and p: "p \<longleftrightarrow> (\<exists>e \<in> set (snap_RunJournal s). jrn_Status e = JournalPrepared \<and> jrn_RunID e = i)"
  shows "\<exists>c' t. finishRecovery clock i p c s = (Inr c', t) \<and> aggregate_ok fpt sid t \<and> extends s t \<and> settled t \<and>
    (\<not> c' \<longrightarrow> t = s \<and> \<not> c) \<and> recoverable_work i t = recoverable_work i s \<and>
    (\<not> recoverable_work i s \<longrightarrow> snap_RunState t = RunIdle \<and> (\<forall>q \<in> set (snap_Queue t). qi_ClaimedBy q = '''') \<and>
       (snap_RunState s = RunRunning \<longrightarrow> (\<forall>q \<in> set (snap_Queue t). qi_Delivery q \<noteq> DeliverySteer) \<and>
          (fst (runFacts (snap_History s) i) \<noteq> None \<longrightarrow> snd (runFacts (snap_History t) i) \<noteq> None)))"
proof (cases "recoverable_work i s")
  case True
  then show ?thesis using ok rec finishRecovery_work [OF True p] i by (auto simp: aggregate_ok_def settled_def)
next
  case False
  then have w: "(p \<or> (\<exists>e \<in> set (snap_ExtensionJournal s). pendingCompletion i e)) = False"
    using p by (auto simp: recoverable_work_def)
  have run: "run_ok s" using ok(1) by (simp add: working_ok_def)
  show ?thesis
  proof (cases "snap_RunState s = RunRunning")
    case True
    obtain r t where int: "interruptRun clock i s = (r, t)" by (metis surj_pair)
    note keep = interruptRun_keeps [OF ok(1) int]
    have r: "r = None" using keep clk by simp
    let ?q = "recoverQueue i False (snap_Queue t)"
    have vi: "validID i" using run True i by (auto simp: run_ok_def)
    have fin: "finishRecovery clock i p c s = (Inr True, t\<lparr>snap_Queue := ?q\<rparr>)"
      unfolding finishRecovery_def Let_def w using True int r by simp
    have claims: "\<forall>q \<in> set ?q. qi_ClaimedBy q = '''' \<and> qi_Delivery q \<noteq> DeliverySteer"
      using ok(2) keep i vi by (auto simp: recoverQueue_def recoverQueueItem_def claims_ok_def is_active_def only_run_history_def)
    have wok: "keeps fpt sid s (t\<lparr>snap_Queue := ?q\<rparr>)"
      using keep working_ok_queue [of fpt sid t ?q] recoverQueue_ok keeps_trans
      by (metis keeps_def working_ok_queue_ok)
    have "recovered (t\<lparr>snap_Queue := ?q\<rparr>)"
      using rec keep by (simp add: recovered_def only_run_history_def startedAttempts_iff terminalAttempts_iff subset_iff)
    then have "settled (t\<lparr>snap_Queue := ?q\<rparr>)" using keep r by (simp add: settled_def)
    moreover have "recoverable_work i (t\<lparr>snap_Queue := ?q\<rparr>) = recoverable_work i s"
      using keep by (simp add: recoverable_work_def only_run_history_def)
    ultimately show ?thesis using fin wok claims keep r True
      by (auto simp: keeps_def aggregate_ok_def claims_ok_def)
  next
    case False
    then have idle: "snap_RunState s = RunIdle" "i = ''''" using run i by (auto simp: run_ok_def)
    then have "finishRecovery clock i p c s = (Inr c, s)"
      unfolding finishRecovery_def Let_def w by (simp add: recoverQueue_def queue_touched_def)
    moreover have "settled s" using rec idle i by (simp add: settled_def)
    moreover have "\<forall>q \<in> set (snap_Queue s). qi_ClaimedBy q = ''''" using ok(2) idle by (auto simp: claims_ok_def is_active_def)
    ultimately show ?thesis using ok idle by (auto simp: aggregate_ok_def)
  qed
qed

lemma extends_started: "extends s t \<Longrightarrow> fst (runFacts (snap_History s) i) \<noteq> None \<Longrightarrow> fst (runFacts (snap_History t) i) \<noteq> None"
  by (auto simp: extends_def runFacts_def Let_def last_such_append split: option.splits)

lemma recoverAggregate_result:
  assumes ok: "aggregate_ok fpt sid s" and clk: "\<forall>n. clock n \<noteq> 0" "\<forall>n. xclock n \<noteq> 0" and ord: "\<forall>xs. mset (ord xs) = mset xs"
  shows "\<exists>c t. recoverAggregate clock xclock ord s = (Inr c, t) \<and> aggregate_ok fpt sid t \<and> extends s t \<and> settled t \<and>
    (\<not> c \<longrightarrow> t = s) \<and>
    (\<not> recoverable_work (snap_ActiveRunID s) t \<longrightarrow> snap_RunState t = RunIdle \<and> (\<forall>q \<in> set (snap_Queue t). qi_ClaimedBy q = '''') \<and>
       (snap_RunState s = RunRunning \<longrightarrow> (\<forall>q \<in> set (snap_Queue t). qi_Delivery q \<noteq> DeliverySteer) \<and>
          (fst (runFacts (snap_History s) (snap_ActiveRunID s)) \<noteq> None \<longrightarrow>
             snd (runFacts (snap_History t) (snap_ActiveRunID s)) \<noteq> None)))"
proof -
  let ?i = "snap_ActiveRunID s" and ?ids = "ord (startedAttempts (snap_History s))"
  let ?x = "recoverExtensions xclock (snap_ExtensionJournal s)" and ?c1 = "\<exists>e \<in> set (snap_ExtensionJournal s). xj_Status e = InvocationPending"
  define s1 where "s1 = s\<lparr>snap_ExtensionJournal := ?x\<rparr>"
  have w: "working_ok fpt sid s" using ok by (simp add: aggregate_ok_def)
  have k1: "keeps fpt sid s s1"
    unfolding s1_def using w clk(2) by (intro working_ok_ext recoverExtensions_ok) (simp_all add: working_ok_def)
  have ids: "distinct ?ids" "set ?ids = set (startedAttempts (snap_History s))"
    using ord mset_eq_setD [of ?ids] mset_eq_imp_distinct_iff [of ?ids "startedAttempts (snap_History s)"]
    by (simp add: startedAttempts_def, metis)
  obtain r2 s2 c2 where loop1: "foldS (terminateAttempt clock (snap_History s)) (s1, ?c1) ?ids = (r2, s2, c2)" by (metis prod_cases3)
  note L1 = terminateAttempts_loop [OF _ _ ids(1) _ loop1, of fpt sid]
  have L1': "keeps fpt sid s1 s2 \<and> s2 = s1\<lparr>snap_History := snap_History s2\<rparr> \<and> r2 = None \<and>
    (\<forall>i \<in> set ?ids. snd (attemptFacts (snap_History s2) i) \<noteq> None) \<and>
    (\<forall>j. j \<notin> set ?ids \<longrightarrow> attemptFacts (snap_History s2) j = attemptFacts (snap_History s1) j) \<and> ((s2 = s1 \<and> c2 = ?c1) \<or> c2)"
    using L1 k1 clk(1) ids by (auto simp: keeps_def attempts_left_def s1_def)
  then have frame2: "only_journal_history s1 s2" "snap_RunJournal s2 = snap_RunJournal s1"
    using only_journal_history_append by (blast, metis Snapshot.select_convs(7) Snapshot.surjective Snapshot.update_convs(3))
  obtain r3 s3 p c3 where loop2: "foldS (recoverJournalEntry clock ?i) (s2, False, c2) [0..<length (snap_RunJournal s2)] = (r3, s3, p, c3)"
    by (metis prod_cases4)
  have w2: "working_ok fpt sid s2" using L1' by (simp add: keeps_def)
  note L2 = recoverJournal_loop [OF w2 _ loop2, simplified]
  have frame: "only_journal_history s1 s3" using frame2 L2 only_journal_history_trans by blast
  have k3: "keeps fpt sid s s3" using k1 L1' L2 keeps_trans by blast
  have claims: "claims_ok s3"
    using ok frame by (simp add: aggregate_ok_def claims_ok_def is_active_def only_journal_history_def s1_def)
  have "set (startedAttempts (snap_History s3)) \<subseteq> set (terminalAttempts (snap_History s3))"
  proof
    fix j assume "j \<in> set (startedAttempts (snap_History s3))"
    then have "fst (attemptFacts (snap_History s2) j) \<noteq> None" using L2 by (simp add: startedAttempts_iff attempts_same_def)
    then have "j \<in> set ?ids" using L1' ids by (auto simp: startedAttempts_iff s1_def)
    then show "j \<in> set (terminalAttempts (snap_History s3))" using L1' L2 by (simp add: terminalAttempts_iff attempts_same_def)
  qed
  then have rec: "recovered s3"
    using L2 clk(1) frame recoverExtensions_no_pending [of xclock "snap_ExtensionJournal s"]
    by (auto simp: recovered_def only_journal_history_def s1_def in_set_conv_nth)
  have p: "p \<longleftrightarrow> (\<exists>e \<in> set (snap_RunJournal s3). jrn_Status e = JournalPrepared \<and> jrn_RunID e = ?i)"
    using L2 clk(1) prepared_index [of "snap_RunJournal s3" "\<lambda>e. jrn_Status e = JournalPrepared \<and> jrn_RunID e = ?i"] by auto
  have i: "?i = snap_ActiveRunID s3" "snap_RunState s3 = snap_RunState s" using frame by (simp_all add: only_journal_history_def s1_def)
  have "recoverAggregate clock xclock ord s = finishRecovery clock ?i p c3 s3"
    using loop1 loop2 L1' L2 clk(1) by (simp add: recoverAggregate_def Let_def s1_def)
  moreover obtain c' t where fin: "finishRecovery clock ?i p c3 s3 = (Inr c', t)" and
    T: "aggregate_ok fpt sid t" "extends s3 t" "settled t" "\<not> c' \<longrightarrow> t = s3 \<and> \<not> c3" "recoverable_work ?i t = recoverable_work ?i s3"
    "\<not> recoverable_work ?i s3 \<longrightarrow> snap_RunState t = RunIdle \<and> (\<forall>q \<in> set (snap_Queue t). qi_ClaimedBy q = '''') \<and>
       (snap_RunState s3 = RunRunning \<longrightarrow> (\<forall>q \<in> set (snap_Queue t). qi_Delivery q \<noteq> DeliverySteer) \<and>
          (fst (runFacts (snap_History s3) ?i) \<noteq> None \<longrightarrow> snd (runFacts (snap_History t) ?i) \<noteq> None))"
    using finishRecovery_result [OF _ claims clk(1) rec i(1) p, of fpt sid c3] k3 by (auto simp: keeps_def)
  moreover have "extends s t" using k3 T(2) extends_trans by (auto simp: keeps_def)
  moreover have "\<not> c' \<longrightarrow> t = s"
    using T(4) L1' L2 clk(1) recoverExtensions_idle [of "snap_ExtensionJournal s" xclock] by (auto simp: s1_def)
  moreover have "fst (runFacts (snap_History s) ?i) \<noteq> None \<longrightarrow> fst (runFacts (snap_History s3) ?i) \<noteq> None"
    using k3 extends_started by (auto simp: keeps_def)
  ultimately show ?thesis using i(2) by auto
qed

end
