(* ===== verification/Store_Invariant.thy ===== *)
theory Store_Invariant
  imports Recovery_Invariant
begin

text \<open>
  Invariants of \<^verbatim>\<open>MemoryStore\<close>: a new session that passes \<^verbatim>\<open>validateNewSession\<close> starts with a well-formed
  aggregate, every operation of the store keeps all aggregates well formed, and so does every reachable
  store (rule induction over the operations).
\<close>

section \<open>Histories up to their envelope\<close>

text \<open>What a fact must satisfy depends on payloads only, so clearing the envelopes changes nothing.\<close>

lemma clearEnvelope_payload [simp]:
  "fact_Message (clearEnvelope f) = fact_Message f" "fact_ToolCall (clearEnvelope f) = fact_ToolCall f"
  "fact_ToolResult (clearEnvelope f) = fact_ToolResult f" "fact_Run (clearEnvelope f) = fact_Run f"
  "fact_ModelAttempt (clearEnvelope f) = fact_ModelAttempt f"
  by (simp_all add: clearEnvelope_def)

lemma map_filter_map: "List.map_filter f (map g xs) = List.map_filter (f \<circ> g) xs"
  by (simp add: List.map_filter_def filter_map comp_def)

lemma fact_fits_clear: "fact_fits (map clearEnvelope pre) (clearEnvelope f) = fact_fits pre f"
proof -
  have "fact_Message \<circ> clearEnvelope = fact_Message" "fact_ToolCall \<circ> clearEnvelope = fact_ToolCall"
    "fact_ToolResult \<circ> clearEnvelope = fact_ToolResult" "fact_Run \<circ> clearEnvelope = fact_Run"
    "fact_ModelAttempt \<circ> clearEnvelope = fact_ModelAttempt" by auto
  then show ?thesis
    by (simp add: fact_fits_def message_fits_def [abs_def] call_fits_def [abs_def] result_fits_def [abs_def] run_fits_def [abs_def]
        attempt_fits_def [abs_def] containsMessage_def containsToolCall_def findToolCall_def findMessage_def hasToolResult_def
        runFacts_def attemptFacts_def map_filter_map)
qed

lemma history_ok_clear: "history_ok (map clearEnvelope h) = history_ok h"
  by (simp add: history_ok_def take_map fact_fits_clear)

lemma clearEnvelope_stamped: "clearEnvelope (stamped clock h sid (clearEnvelope f) a) = clearEnvelope f"
  by (simp add: clearEnvelope_def stamped_def Let_def split: prod.splits)

lemma prepareInitialHistory_payloads:
  "prepareInitialHistory clock sid source = Inr h \<Longrightarrow> map clearEnvelope h = map clearEnvelope source"
proof -
  have "foldE (\<lambda>history f. map_error (invalid ''session.create'')
          (appendHistoryFact clock history sid (clearEnvelope f) zero_actor)) h0 fs = Inr h \<Longrightarrow>
        map clearEnvelope h = map clearEnvelope h0 @ map clearEnvelope fs" for h0 fs
    by (induction fs arbitrary: h0) (auto dest!: appendHistoryFact_Inr simp: clearEnvelope_stamped)
  then show "prepareInitialHistory clock sid source = Inr h \<Longrightarrow> map clearEnvelope h = map clearEnvelope source"
    by (auto simp: prepareInitialHistory_def)
qed

section \<open>The consistency scan accepts only well-formed histories\<close>

lemma last_such_find: "last_such P xs = List.find P (rev xs)"
  by (induction xs) (auto simp: find_append split: option.splits)

lemma find_rev_unique: "distinct (map k xs) \<Longrightarrow> List.find (\<lambda>x. k x = i) (rev xs) = List.find (\<lambda>x. k x = i) xs"
proof (induction xs)
  case (Cons x xs)
  show ?case
  proof (cases "k x = i")
    case True
    have "\<forall>y \<in> set xs. k y \<noteq> k x" using Cons.prems by (metis distinct.simps(2) image_eqI list.simps(9) set_map)
    with True have "List.find (\<lambda>x. k x = i) (rev xs) = None" by (simp add: find_None_iff_all)
    with True show ?thesis by (simp add: find_append)
  next
    case False
    with Cons show ?thesis by (simp add: find_append split: option.splits)
  qed
qed simp

definition scan_matches :: "HistoryFact list \<Rightarrow> HistoryScan \<Rightarrow> bool" where
  "scan_matches pre st \<longleftrightarrow>
     hs_messages st = rev (List.map_filter fact_Message pre) \<and> distinct (map msg_ID (List.map_filter fact_Message pre)) \<and>
     hs_calls st = rev (map call_ID (List.map_filter fact_ToolCall pre)) \<and>
     hs_results st = rev (map res_CallID (List.map_filter fact_ToolResult pre)) \<and>
     hs_runStarts st = rev (filter (\<lambda>r. run_Kind r = RunStarted) (List.map_filter fact_Run pre)) \<and>
     hs_runTerminals st = rev (map run_RunID (filter (\<lambda>r. run_Kind r \<noteq> RunStarted) (List.map_filter fact_Run pre))) \<and>
     hs_attemptStarts st = rev (filter (\<lambda>a. att_Kind a = Attempt_Started) (List.map_filter fact_ModelAttempt pre)) \<and>
     hs_attemptTerminals st = rev (map att_AttemptID (filter (\<lambda>a. att_Kind a \<noteq> Attempt_Started) (List.map_filter fact_ModelAttempt pre)))"

lemma scan_run_facts: "scan_matches pre st \<Longrightarrow> scan_run st i = fst (runFacts pre i)"
  by (auto simp: scan_matches_def scan_run_def runFacts_def Let_def simp flip: last_such_find) (simp add: last_such_filter conj_commute)

lemma scan_run_terminal: "scan_matches pre st \<Longrightarrow> i \<in> set (hs_runTerminals st) \<longleftrightarrow> snd (runFacts pre i) \<noteq> None"
  by (force simp: scan_matches_def runFacts_def Let_def last_such_None)

lemma scan_attempt_facts: "scan_matches pre st \<Longrightarrow> scan_attempt st i = fst (attemptFacts pre i)"
  by (auto simp: scan_matches_def scan_attempt_def attemptFacts_def Let_def simp flip: last_such_find) (simp add: last_such_filter conj_commute)

lemma scan_attempt_terminal: "scan_matches pre st \<Longrightarrow> i \<in> set (hs_attemptTerminals st) \<longleftrightarrow> snd (attemptFacts pre i) \<noteq> None"
  by (force simp: scan_matches_def attemptFacts_def Let_def last_such_None)

lemma scan_message: "scan_matches pre st \<Longrightarrow> List.find (\<lambda>m. msg_ID m = i) (hs_messages st) = findMessage pre i"
  by (simp add: scan_matches_def findMessage_def find_rev_unique)

lemma scan_call: "scan_matches pre st \<Longrightarrow> i \<in> set (hs_calls st) \<longleftrightarrow> containsToolCall pre i"
  by (auto simp: scan_matches_def containsToolCall_def findToolCall_def find_None_iff_all image_iff simp flip: not_None_eq)

lemma scan_result: "scan_matches pre st \<Longrightarrow> i \<in> set (hs_results st) \<longleftrightarrow> hasToolResult pre i"
  by (auto simp: scan_matches_def hasToolResult_def)


lemma one_payload_cases:
  assumes "fact_payloads f = 1"
  obtains (message) m where "fact_Message f = Some m" "fact_ToolCall f = None" "fact_ToolResult f = None" "fact_Run f = None"
      "fact_ModelAttempt f = None"
  | (call) c where "fact_Message f = None" "fact_ToolCall f = Some c" "fact_ToolResult f = None" "fact_Run f = None"
      "fact_ModelAttempt f = None"
  | (result) r where "fact_Message f = None" "fact_ToolCall f = None" "fact_ToolResult f = Some r" "fact_Run f = None"
      "fact_ModelAttempt f = None"
  | (run) r where "fact_Message f = None" "fact_ToolCall f = None" "fact_ToolResult f = None" "fact_Run f = Some r"
      "fact_ModelAttempt f = None"
  | (attempt) a where "fact_Message f = None" "fact_ToolCall f = None" "fact_ToolResult f = None" "fact_Run f = None"
      "fact_ModelAttempt f = Some a"
  | (other) "fact_Message f = None" "fact_ToolCall f = None" "fact_ToolResult f = None" "fact_Run f = None"
      "fact_ModelAttempt f = None"
  using assms by (cases "fact_Message f"; cases "fact_ToolCall f"; cases "fact_ToolResult f"; cases "fact_Run f"; cases "fact_ModelAttempt f")
    (auto simp: fact_payloads_def)

lemma scan_opt_simps [simp]: "scan_opt g None st = Inr st" "scan_opt g (Some x) st = g st x"
  by (simp_all add: scan_opt_def)

lemma scanContribution_frame: "scanContribution st c = Inr st' \<Longrightarrow> scan_matches pre st' = scan_matches pre st"
  by (auto simp: scanContribution_def scan_matches_def Let_def)

lemma scanBudget_frame: "scanBudget st b = Inr st' \<Longrightarrow> scan_matches pre st' = scan_matches pre st"
  by (auto simp: scanBudget_def scan_matches_def)

lemma scanLimit_frame: "scanLimit st l = Inr st' \<Longrightarrow> scan_matches pre st' = scan_matches pre st"
  by (auto simp: scanLimit_def scan_matches_def Let_def)

lemma scan_opt_frame:
  "scan_opt g x st = Inr st' \<Longrightarrow> (\<And>y st'. g st y = Inr st' \<Longrightarrow> scan_matches pre st' = scan_matches pre st) \<Longrightarrow>
     scan_matches pre st' = scan_matches pre st"
  by (cases x) auto

lemma scanMessage_fits:
  assumes "scanMessage st m = Inr st'" "scan_matches pre st" "fact_Message f = Some m" "fact_ToolCall f = None" "fact_ToolResult f = None"
    "fact_Run f = None" "fact_ModelAttempt f = None"
  shows "fact_fits pre f \<and> scan_matches (pre @ [f]) st'"
  using assms by (auto simp: scanMessage_def fact_fits_def message_fits_def containsMessage_def scan_matches_def findMessage_def
      find_None_iff_all image_iff)

lemma scanCall_fits:
  assumes "scanCall st c = Inr st'" "scan_matches pre st" "fact_Message f = None" "fact_ToolCall f = Some c" "fact_ToolResult f = None"
    "fact_Run f = None" "fact_ModelAttempt f = None"
  shows "fact_fits pre f \<and> scan_matches (pre @ [f]) st'"
proof
  show "fact_fits pre f"
    using assms scan_call [OF assms(2)] scan_message [OF assms(2)]
    by (auto simp: scanCall_def fact_fits_def call_fits_def split: option.splits)
  show "scan_matches (pre @ [f]) st'" using assms by (auto simp: scanCall_def scan_matches_def)
qed

lemma scanResult_fits:
  assumes "scanResult st r = Inr st'" "scan_matches pre st" "fact_Message f = None" "fact_ToolCall f = None" "fact_ToolResult f = Some r"
    "fact_Run f = None" "fact_ModelAttempt f = None"
  shows "fact_fits pre f \<and> scan_matches (pre @ [f]) st'"
proof
  show "fact_fits pre f"
    using assms scan_result [OF assms(2)] by (auto simp: scanResult_def fact_fits_def result_fits_def)
  show "scan_matches (pre @ [f]) st'" using assms by (auto simp: scanResult_def scan_matches_def)
qed

lemma scanRun_fits:
  assumes "scanRun st r = Inr st'" "scan_matches pre st" "fact_Message f = None" "fact_ToolCall f = None" "fact_ToolResult f = None"
    "fact_Run f = Some r" "fact_ModelAttempt f = None"
  shows "fact_fits pre f \<and> scan_matches (pre @ [f]) st'"
proof
  show "fact_fits pre f"
    using assms scan_run_facts [OF assms(2)] scan_run_terminal [OF assms(2)]
    by (cases "runFacts pre (run_RunID r)") (auto simp: scanRun_def fact_fits_def run_fits_def split: option.splits if_splits)
  show "scan_matches (pre @ [f]) st'" using assms by (auto simp: scanRun_def scan_matches_def split: if_splits)
qed

lemma scanAttempt_fits:
  assumes "scanAttempt st a = Inr st'" "scan_matches pre st" "fact_Message f = None" "fact_ToolCall f = None" "fact_ToolResult f = None"
    "fact_Run f = None" "fact_ModelAttempt f = Some a"
  shows "fact_fits pre f \<and> scan_matches (pre @ [f]) st'"
proof
  show "fact_fits pre f"
    using assms scan_attempt_facts [OF assms(2)] scan_attempt_terminal [OF assms(2)]
    by (cases "attemptFacts pre (att_AttemptID a)")
      (auto simp: scanAttempt_def fact_fits_def attempt_fits_def split: option.splits if_splits)
  show "scan_matches (pre @ [f]) st'" using assms by (auto simp: scanAttempt_def scan_matches_def split: if_splits)
qed

lemma scanFact_fits:
  assumes "scanFact sid st f = Inr st'" "scan_matches pre st"
  shows "fact_fits pre f \<and> scan_matches (pre @ [f]) st'"
proof -
  have one: "fact_payloads f = 1" using assms(1) by (auto simp: scanFact_def validatePayload_def split: if_splits)
  obtain s1 s2 s3 s4 s5 s6 s7 where steps: "scan_opt scanMessage (fact_Message f) st = Inr s1" "scan_opt scanCall (fact_ToolCall f) s1 = Inr s2"
    "scan_opt scanResult (fact_ToolResult f) s2 = Inr s3" "scan_opt scanRun (fact_Run f) s3 = Inr s4"
    "scan_opt scanAttempt (fact_ModelAttempt f) s4 = Inr s5" "scan_opt scanContribution (fact_ContextContribution f) s5 = Inr s6"
    "scan_opt scanBudget (fact_RunBudgetExceeded f) s6 = Inr s7" "scan_opt scanLimit (fact_RunLimitExceeded f) s7 = Inr st'"
    using assms(1) by (auto simp: scanFact_def)
  have rest: "scan_matches (pre @ [f]) st' = scan_matches (pre @ [f]) s5"
    using scan_opt_frame [OF steps(6)] scanContribution_frame scan_opt_frame [OF steps(7)] scanBudget_frame
      scan_opt_frame [OF steps(8)] scanLimit_frame by metis
  have "fact_fits pre f \<and> scan_matches (pre @ [f]) s5"
    using one
  proof (cases rule: one_payload_cases)
    case (message m) then show ?thesis using steps scanMessage_fits [of st m s5 pre f] assms(2) by simp
  next
    case (call c) then show ?thesis using steps scanCall_fits [of st c s5 pre f] assms(2) by simp
  next
    case (result r) then show ?thesis using steps scanResult_fits [of st r s5 pre f] assms(2) by simp
  next
    case (run r) then show ?thesis using steps scanRun_fits [of st r s5 pre f] assms(2) by simp
  next
    case (attempt a) then show ?thesis using steps scanAttempt_fits [of st a s5 pre f] assms(2) by simp
  next
    case other then show ?thesis using steps assms(2) by (simp add: fact_fits_def scan_matches_def)
  qed
  with rest show ?thesis by simp
qed

lemma scan_init_matches: "scan_matches [] scan_init"
  by (simp add: scan_matches_def scan_init_def List.map_filter_def)

lemma scan_history_ok:
  "foldE (scanFact sid) st fs = Inr st' \<Longrightarrow> scan_matches pre st \<Longrightarrow> history_ok pre \<Longrightarrow> history_ok (pre @ fs) \<and> scan_matches (pre @ fs) st'"
proof (induction fs arbitrary: pre st)
  case (Cons f fs)
  then obtain u where u: "scanFact sid st f = Inr u" and rest: "foldE (scanFact sid) u fs = Inr st'" by auto
  from scanFact_fits [OF u Cons.prems(2)] Cons.prems(3) have "scan_matches (pre @ [f]) u" "history_ok (pre @ [f])" by auto
  from Cons.IH [OF rest this] show ?case by simp
qed simp

lemma scanJournal_distinct:
  "foldE (scanJournalEntry st h) seen js = Inr seen' \<Longrightarrow> distinct seen \<Longrightarrow> distinct (map jrn_callID js) \<and> set (map jrn_callID js) \<inter> set seen = {}"
proof (induction js arbitrary: seen)
  case (Cons j js)
  then obtain u where u: "scanJournalEntry st h seen j = Inr u" and rest: "foldE (scanJournalEntry st h) u js = Inr seen'" by auto
  then have "u = jrn_callID j # seen" "jrn_callID j \<notin> set seen" by (auto simp: scanJournalEntry_def Let_def)
  with Cons.IH [OF rest] Cons.prems(2) show ?case by auto
qed simp

lemma validateHistoryConsistency_ok:
  assumes "validateHistoryConsistency sid h js = None"
  shows "history_ok h" "distinct (map jrn_callID js)"
proof -
  obtain st seen where *: "foldE (scanFact sid) scan_init h = Inr st" "foldE (scanJournalEntry st h) [] js = Inr seen"
    using assms by (auto simp: validateHistoryConsistency_def split: sum.splits)
  show "history_ok h" using scan_history_ok [OF *(1) scan_init_matches] by simp
  show "distinct (map jrn_callID js)" using scanJournal_distinct [OF *(2)] by simp
qed

section \<open>A new session is well formed\<close>

lemma validateNewSession_parts:
  assumes "validateNewSession n = None"
  shows "validID (ses_ID (new_Session n))" "Config_Validate (new_ModelConfig n) = None" "history_ok (new_History n)"
    "queue_ok (ses_ID (new_Session n)) (new_Queue n)" "journal_ok (ses_ID (new_Session n)) (new_RunJournal n)"
    "\<forall>q \<in> set (new_Queue n). qi_ClaimedBy q \<noteq> '''' \<longrightarrow> effective_state (new_RunState n) = RunRunning \<and> qi_ClaimedBy q = new_ActiveRunID n"
    "effective_state (new_RunState n) = RunRunning \<and> validID (new_ActiveRunID n) \<or> effective_state (new_RunState n) = RunIdle \<and> new_ActiveRunID n = ''''"
    "effective_state (new_RunState n) = RunIdle \<longrightarrow> \<not> hasUnfinishedJournal (new_RunJournal n)"
proof -
  note parts = assms [unfolded validateNewSession_def Let_def, simplified]
  have c: "validateHistoryConsistency (ses_ID (new_Session n)) (new_History n) (new_RunJournal n) = None" using parts by (auto split: option.splits)
  show "validID (ses_ID (new_Session n))" "Config_Validate (new_ModelConfig n) = None" using parts by (auto split: option.splits)
  show "history_ok (new_History n)" using validateHistoryConsistency_ok [OF c] by simp
  show "queue_ok (ses_ID (new_Session n)) (new_Queue n)"
    using parts by (auto simp: queue_ok_def newQueueItemCheck_def duplicateQueueMessage_def split: option.splits)
  have j: "\<forall>e \<in> set (new_RunJournal n). newJournalCheck n e = None" using parts by (auto split: option.splits)
  then show "journal_ok (ses_ID (new_Session n)) (new_RunJournal n)"
    using validateHistoryConsistency_ok [OF c] by (auto simp: journal_ok_def newJournalCheck_def)
  show "effective_state (new_RunState n) = RunIdle \<longrightarrow> \<not> hasUnfinishedJournal (new_RunJournal n)"
    using j by (auto simp: newJournalCheck_def hasUnfinishedJournal_def)
  have q: "\<forall>q \<in> set (new_Queue n). newQueueItemCheck n q = None" using parts by (auto split: option.splits)
  then show "\<forall>q \<in> set (new_Queue n). qi_ClaimedBy q \<noteq> '''' \<longrightarrow> effective_state (new_RunState n) = RunRunning \<and> qi_ClaimedBy q = new_ActiveRunID n"
    by (auto simp: newQueueItemCheck_def Claimed_def)
  show "effective_state (new_RunState n) = RunRunning \<and> validID (new_ActiveRunID n) \<or> effective_state (new_RunState n) = RunIdle \<and> new_ActiveRunID n = ''''"
    using parts by (auto simp: RunState_Valid_def split: option.splits)
qed

lemma newSnapshot_ok:
  assumes "validateNewSession n = None" "prepareInitialHistory clock (ses_ID (new_Session n)) (new_History n) = Inr h"
  shows "aggregate_ok fpt (ses_ID (new_Session n)) (newSnapshot n h)"
proof -
  have "history_ok h"
    using prepareInitialHistory_payloads [OF assms(2)] validateNewSession_parts(3) [OF assms(1)] history_ok_clear by metis
  then show ?thesis
    using validateNewSession_parts [OF assms(1)] prepareInitialHistory_envelope [OF assms(2)]
    by (auto simp: aggregate_ok_def working_ok_def claims_ok_def newSnapshot_def ident_ok_def run_ok_def is_active_def ext_ok_def)
qed

section \<open>The store invariant\<close>

definition receipt_ok :: "SessionID \<Rightarrow> Snapshot \<Rightarrow> memoryCommit \<Rightarrow> bool" where
  "receipt_ok sid s r \<longleftrightarrow> com_SessionID (mcm_commit r) = sid \<and> com_Applied (mcm_commit r) \<and>
     com_LastHistorySequence (mcm_commit r) \<le> length (snap_History s) \<and>
     com_FirstHistorySequence (mcm_commit r) \<le> com_LastHistorySequence (mcm_commit r)"

definition stored_ok :: "typed_fingerprint \<Rightarrow> SessionID \<Rightarrow> memoryAggregate \<Rightarrow> bool" where
  "stored_ok fpt sid a \<longleftrightarrow> aggregate_ok fpt sid (agg_snapshot a) \<and>
     (\<forall>key r. agg_idempotency a key = Some r \<longrightarrow> receipt_ok sid (agg_snapshot a) r)"

definition times_ok :: "MemoryStore \<Rightarrow> bool" where
  "times_ok st \<longleftrightarrow> (ms_sessions st \<noteq> [] \<longrightarrow> idx_epoch (ms_list st) \<noteq> '''') \<and>
     (\<forall>i a. aggregate_of st i = Some a \<longrightarrow> agg_updatedAt a \<le> idx_lastUpdatedAt (ms_list st)) \<and>
     (\<forall>i j a b. aggregate_of st i = Some a \<longrightarrow> aggregate_of st j = Some b \<longrightarrow> agg_updatedAt a = agg_updatedAt b \<longrightarrow> i = j)"

definition store_ok :: "typed_fingerprint \<Rightarrow> MemoryStore \<Rightarrow> bool" where
  "store_ok fpt st \<longleftrightarrow> distinct (map fst (ms_sessions st)) \<and> (\<forall>i a. aggregate_of st i = Some a \<longrightarrow> stored_ok fpt i a) \<and> times_ok st"

text \<open>What the store relies on in its environment: clocks never read the zero instant, ranging over a map
  visits every key once, and a fresh list epoch is not empty.\<close>

definition env_ok :: "typed_fingerprint \<Rightarrow> Env \<Rightarrow> bool" where
  "env_ok fpt env \<longleftrightarrow> env_fpt env = fpt \<and> (\<forall>n. env_clock env n \<noteq> 0) \<and> (\<forall>n. env_xclock env n \<noteq> 0) \<and>
     (\<forall>xs. mset (env_ord env xs) = mset xs) \<and> env_epoch env \<noteq> ''''"

lemma put_aggregate_simps [simp]:
  "aggregate_of (put_aggregate i a st) j = (if j = i then Some a else aggregate_of st j)" "ms_list (put_aggregate i a st) = ms_list st"
  by (simp_all add: put_aggregate_def update_conv')

lemma put_aggregate_distinct [simp]:
  "distinct (map fst (ms_sessions st)) \<Longrightarrow> distinct (map fst (ms_sessions (put_aggregate i a st)))"
  by (simp add: put_aggregate_def distinct_update)

lemma put_same: "aggregate_of st i = Some a \<Longrightarrow> put_aggregate i a st = st"
  by (simp add: put_aggregate_def update_triv)

lemma map_of_Nil_iff: "xs \<noteq> [] \<longleftrightarrow> (\<exists>i a. map_of xs i = Some a)"
  by (metis list.exhaust map_of.simps(1) map_of_Cons_code(2) option.distinct(1) surj_pair)

lemma times_ok_alt: "times_ok st \<longleftrightarrow> (\<forall>i a. aggregate_of st i = Some a \<longrightarrow> idx_epoch (ms_list st) \<noteq> '''' \<and>
      agg_updatedAt a \<le> idx_lastUpdatedAt (ms_list st)) \<and>
     (\<forall>i j a b. aggregate_of st i = Some a \<longrightarrow> aggregate_of st j = Some b \<longrightarrow> agg_updatedAt a = agg_updatedAt b \<longrightarrow> i = j)"
  unfolding times_ok_def map_of_Nil_iff by blast

lemma nextUpdatedAt_later:
  assumes "nextUpdatedAt env ix p = (t, ix')"
  shows "idx_lastUpdatedAt ix' = t" "p < t" "env_epoch env \<noteq> '''' \<Longrightarrow> idx_epoch ix' \<noteq> ''''" "idx_epoch ix \<noteq> '''' \<Longrightarrow> idx_lastUpdatedAt ix < t"
    "idx_created ix' = idx_created (ensure env ix)" "idx_generation ix' = idx_generation (ensure env ix)"
  using assms by (auto simp: nextUpdatedAt_def Let_def ensure_def split: if_splits)

text \<open>Writing one aggregate with a fresh update time keeps the times in order.\<close>

lemma times_ok_write:
  assumes "times_ok st" "idx_lastUpdatedAt ix = t" "idx_epoch ix \<noteq> ''''" "idx_epoch (ms_list st) \<noteq> '''' \<longrightarrow> idx_lastUpdatedAt (ms_list st) < t"
    "agg_updatedAt a = t"
  shows "times_ok (put_aggregate i a (st\<lparr>ms_list := ix\<rparr>))"
proof -
  have old: "aggregate_of st j = Some b \<Longrightarrow> agg_updatedAt b < t" for j b using assms(1,4) by (auto simp: times_ok_alt) force
  then have "aggregate_of st j = Some b \<Longrightarrow> agg_updatedAt b \<noteq> t \<and> agg_updatedAt b \<le> t" for j b by force
  with assms show ?thesis by (auto simp: times_ok_alt split: if_splits) metis
qed

lemma times_ok_rewrite:
  "times_ok st \<Longrightarrow> aggregate_of st i = Some a \<Longrightarrow> agg_updatedAt b = agg_updatedAt a \<Longrightarrow> times_ok (put_aggregate i b st)"
  by (auto simp: times_ok_alt)

lemma times_ok_empty: "idx_epoch (ms_list st) = '''' \<Longrightarrow> times_ok st \<Longrightarrow> ms_sessions st = []"
  by (auto simp: times_ok_def)

lemma store_ok_write:
  assumes "store_ok fpt st" "stored_ok fpt i a" "times_ok (put_aggregate i a (st\<lparr>ms_list := ix\<rparr>))"
  shows "store_ok fpt (put_aggregate i a (st\<lparr>ms_list := ix\<rparr>))"
  using assms by (auto simp: store_ok_def)

lemma aggregate_ok_bump [simp]: "aggregate_ok fpt sid (bump s) = aggregate_ok fpt sid s" if "ses_Revision (snap_Session s) = snap_Revision s"
  using that by (auto simp: aggregate_ok_def working_ok_def claims_ok_def is_active_def bump_def ident_ok_def run_ok_def)

lemma bump_simps [simp]:
  "snap_History (bump s) = snap_History s" "snap_Revision (bump s) = snap_Revision s + 1" "snap_RunState (bump s) = snap_RunState s"
  "snap_Queue (bump s) = snap_Queue s" "snap_RunJournal (bump s) = snap_RunJournal s" "snap_ActiveRunID (bump s) = snap_ActiveRunID s"
  "snap_ExtensionJournal (bump s) = snap_ExtensionJournal s" "snap_ModelConfig (bump s) = snap_ModelConfig s"
  "snap_Fork (bump s) = snap_Fork s"
  by (simp_all add: bump_def)

lemma aggregate_ok_revision: "aggregate_ok fpt sid s \<Longrightarrow> ses_Revision (snap_Session s) = snap_Revision s"
  by (simp add: aggregate_ok_def working_ok_def ident_ok_def)

lemma receipt_ok_extends: "receipt_ok sid s r \<Longrightarrow> extends s t \<Longrightarrow> receipt_ok sid t r"
  by (auto simp: receipt_ok_def extends_def)

section \<open>Each operation keeps the store\<close>

lemma Create_Inr:
  assumes "Create env ctx n st = (Inr snap, st')"
  shows "\<exists>h u ix. contextErr ctx ''session.create'' = None \<and> validateNewSession n = None \<and>
    prepareInitialHistory (env_clock env) (ses_ID (new_Session n)) (new_History n) = Inr h \<and>
    aggregate_of st (ses_ID (new_Session n)) = None \<and> snap = newSnapshot n h \<and>
    recordCreate env (ms_list st) (ses_ID (new_Session n)) = (u, ix) \<and>
    st' = put_aggregate (ses_ID (new_Session n)) \<lparr>agg_snapshot = snap, agg_idempotency = Map.empty, agg_updatedAt = u\<rparr> (st\<lparr>ms_list := ix\<rparr>)"
  using assms by (auto simp: Create_def Let_def split: sum.splits if_splits prod.splits)

lemma Create_Inl: "Create env ctx n st = (Inl e, st') \<Longrightarrow> st' = st"
  by (auto simp: Create_def Let_def split: sum.splits if_splits prod.splits)

lemma recordCreate_later:
  assumes "recordCreate env ix i = (t, ix')" "env_epoch env \<noteq> ''''"
  shows "idx_lastUpdatedAt ix' = t" "idx_epoch ix' \<noteq> ''''" "idx_epoch ix \<noteq> '''' \<Longrightarrow> idx_lastUpdatedAt ix < t"
  using nextUpdatedAt_later [OF assms(1) [unfolded recordCreate_def Let_def]] assms(2) by (auto simp: ensure_def)

lemma Create_store_ok:
  assumes "Create env ctx n st = (r, st')" "store_ok fpt st" "env_ok fpt env"
  shows "store_ok fpt st'"
proof (cases r)
  case (Inl e) then show ?thesis using Create_Inl assms by blast
next
  case (Inr snap)
  from Create_Inr [OF assms(1) [unfolded Inr]] obtain h u ix where *: "validateNewSession n = None"
    "prepareInitialHistory (env_clock env) (ses_ID (new_Session n)) (new_History n) = Inr h" "snap = newSnapshot n h"
    "recordCreate env (ms_list st) (ses_ID (new_Session n)) = (u, ix)"
    "st' = put_aggregate (ses_ID (new_Session n)) \<lparr>agg_snapshot = snap, agg_idempotency = Map.empty, agg_updatedAt = u\<rparr> (st\<lparr>ms_list := ix\<rparr>)"
    by blast
  have e: "env_epoch env \<noteq> ''''" using assms(3) by (simp add: env_ok_def)
  show ?thesis unfolding *(5)
    using assms(2) newSnapshot_ok [OF *(1,2), of fpt] *(3) recordCreate_later [OF *(4) e]
    by (intro store_ok_write times_ok_write) (auto simp: store_ok_def stored_ok_def)
qed

lemma with_session_Inr:
  "with_session ctx op sid st f = Inr x \<longleftrightarrow> contextErr ctx op = None \<and> validID sid \<and> (\<exists>a. aggregate_of st sid = Some a \<and> f a = Inr x)"
  by (auto simp: with_session_def split: option.splits)

lemma Recover_cases:
  assumes "Recover env ctx sid st = (r, st')"
  obtains (missing) e where "r = Inl e" "st' = st" "with_session ctx ''session.recover'' sid st Inr = Inl e"
  | (failed) a e s where "aggregate_of st sid = Some a" "recoverAggregate (env_clock env) (env_xclock env) (env_ord env) (agg_snapshot a) = (Inl e, s)"
      "r = Inl e" "st' = put_aggregate sid (a\<lparr>agg_snapshot := s\<rparr>) st"
  | (changed) a s u ix where "aggregate_of st sid = Some a" "recoverAggregate (env_clock env) (env_xclock env) (env_ord env) (agg_snapshot a) = (Inr True, s)"
      "nextUpdatedAt env (ms_list st) (agg_updatedAt a) = (u, ix)" "r = Inr (bump s)"
      "st' = put_aggregate sid (a\<lparr>agg_snapshot := bump s, agg_updatedAt := u\<rparr>) (st\<lparr>ms_list := ix\<rparr>)"
  | (unchanged) a s where "aggregate_of st sid = Some a" "recoverAggregate (env_clock env) (env_xclock env) (env_ord env) (agg_snapshot a) = (Inr False, s)"
      "r = Inr s" "st' = put_aggregate sid (a\<lparr>agg_snapshot := s\<rparr>) st"
proof (cases "with_session ctx ''session.recover'' sid st Inr")
  case (Inl e)
  then show ?thesis using assms missing by (auto simp: Recover_def)
next
  case (Inr a)
  then have a: "aggregate_of st sid = Some a" by (simp add: with_session_Inr)
  obtain q s where q: "recoverAggregate (env_clock env) (env_xclock env) (env_ord env) (agg_snapshot a) = (q, s)" by fastforce
  obtain u ix where n: "nextUpdatedAt env (ms_list st) (agg_updatedAt a) = (u, ix)" by fastforce
  note R = assms [unfolded Recover_def, simplified Inr sum.case q prod.case Let_def n]
  show ?thesis
  proof (cases q)
    case (Inl e) then show ?thesis using failed [of a e s] a q R by simp
  next
    case (Inr c) then show ?thesis using changed [of a s u ix] unchanged [of a s] a q n R by (cases c) simp_all
  qed
qed

lemma store_aggregate_ok: "store_ok fpt st \<Longrightarrow> aggregate_of st sid = Some a \<Longrightarrow> aggregate_ok fpt sid (agg_snapshot a)"
  by (simp add: store_ok_def stored_ok_def)

lemma Recover_store_ok:
  assumes "Recover env ctx sid st = (r, st')" "store_ok fpt st" "env_ok fpt env"
  shows "store_ok fpt st'"
  using assms(1)
proof (cases rule: Recover_cases)
  case (missing e) then show ?thesis using assms(2) by simp
next
  case (failed a e s)
  with recoverAggregate_result [OF store_aggregate_ok [OF assms(2) failed(1)], of "env_clock env" "env_xclock env" "env_ord env"] assms(3)
  show ?thesis by (auto simp: env_ok_def)
next
  case (changed a s u ix)
  note R = recoverAggregate_result [OF store_aggregate_ok [OF assms(2) changed(1)], of "env_clock env" "env_xclock env" "env_ord env"]
  have s: "aggregate_ok fpt sid s" "extends (agg_snapshot a) s" using R changed(2) assms(3) by (auto simp: env_ok_def)
  have "extends (agg_snapshot a) s \<Longrightarrow> receipt_ok sid (agg_snapshot a) x \<Longrightarrow> receipt_ok sid (bump s) x" for x
    by (auto simp: receipt_ok_def extends_def)
  then have "stored_ok fpt sid (a\<lparr>agg_snapshot := bump s, agg_updatedAt := u\<rparr>)"
    using s assms(2) changed(1) aggregate_ok_revision [OF s(1)] by (auto simp: stored_ok_def store_ok_def)
  moreover have "times_ok (put_aggregate sid (a\<lparr>agg_snapshot := bump s, agg_updatedAt := u\<rparr>) (st\<lparr>ms_list := ix\<rparr>))"
    using assms(2,3) nextUpdatedAt_later [OF changed(3)] by (intro times_ok_write) (auto simp: store_ok_def env_ok_def)
  ultimately show ?thesis unfolding changed(5) using assms(2) store_ok_write by blast
next
  case (unchanged a s)
  with recoverAggregate_result [OF store_aggregate_ok [OF assms(2) unchanged(1)], of "env_clock env" "env_xclock env" "env_ord env"] assms(3)
  have "s = agg_snapshot a" by (auto simp: env_ok_def)
  then show ?thesis using unchanged assms(2) put_same [of st sid a] by simp
qed

text \<open>The outcomes of a commit: an error that changes nothing, a replayed receipt, or one applied transaction.\<close>

lemma Commit_cases:
  assumes "Commit_op env ctx request st = (r, st')"
  obtains (failed) e where "r = Inl e" "st' = st"
  | (replayed) a previous where "aggregate_of st (creq_SessionID request) = Some a"
      "agg_idempotency a (creq_IdempotencyKey request) = Some previous" "env_fp env request = Some (mcm_fingerprint previous)"
      "r = Inr ((mcm_commit previous)\<lparr>com_Applied := False\<rparr>)" "st' = st"
  | (applied) a fingerprint working u ix c where "aggregate_of st (creq_SessionID request) = Some a"
      "agg_idempotency a (creq_IdempotencyKey request) = None" "env_fp env request = Some fingerprint"
      "creq_ExpectedRevision request = snap_Revision (agg_snapshot a)"
      "applyChanges (env_fpt env) (env_clock env) (agg_snapshot a) request = Inr working"
      "nextUpdatedAt env (ms_list st) (agg_updatedAt a) = (u, ix)"
      "c = \<lparr>com_SessionID = creq_SessionID request, com_Revision = snap_Revision working + 1,
            com_FirstHistorySequence = fst (appendedHistoryRange (length (snap_History (agg_snapshot a))) (length (snap_History working))),
            com_LastHistorySequence = snd (appendedHistoryRange (length (snap_History (agg_snapshot a))) (length (snap_History working))),
            com_Applied = True\<rparr>"
      "r = Inr c"
      "st' = put_aggregate (creq_SessionID request) \<lparr>agg_snapshot = bump working,
          agg_idempotency = (agg_idempotency a)(creq_IdempotencyKey request \<mapsto> \<lparr>mcm_fingerprint = fingerprint, mcm_commit = c\<rparr>),
          agg_updatedAt = u\<rparr> (st\<lparr>ms_list := ix\<rparr>)"
proof -
  let ?pre = "guardE (contextErr ctx ''session.commit'')
     (guardE (map_option (invalid ''session.commit'') (CommitRequest_Validate (env_fpt env) request))
       (case aggregate_of st (creq_SessionID request) of None \<Rightarrow> Inl (session_not_found ''session.commit'')
        | Some a \<Rightarrow> (case env_fp env request of
              None \<Rightarrow> Inl (NewError ErrorInternal ''session.commit'' ''cannot fingerprint idempotent request'')
            | Some fingerprint \<Rightarrow> Inr (a, fingerprint))))"
  show ?thesis
  proof (cases ?pre)
    case (Inl e)
    then show ?thesis using assms failed by (auto simp: Commit_op_def)
  next
    case (Inr p)
    obtain a fingerprint where p: "p = (a, fingerprint)" by fastforce
    with Inr have a: "aggregate_of st (creq_SessionID request) = Some a" "env_fp env request = Some fingerprint"
      by (auto split: option.splits)
    obtain u ix where n: "nextUpdatedAt env (ms_list st) (agg_updatedAt a) = (u, ix)" by fastforce
    note C = assms [unfolded Commit_op_def Let_def, simplified Inr sum.case p prod.case n, unfolded case_prod_beta]
    show ?thesis
    proof (cases "agg_idempotency a (creq_IdempotencyKey request)")
      case (Some previous)
      then show ?thesis using C failed replayed [OF a(1) Some] a(2) by (auto split: if_splits)
    next
      case None
      show ?thesis
      proof (cases "creq_ExpectedRevision request = snap_Revision (agg_snapshot a)")
        case False then show ?thesis using C failed None by auto
      next
        case True
        show ?thesis
        proof (cases "applyChanges (env_fpt env) (env_clock env) (agg_snapshot a) request")
          case (Inl e) then show ?thesis using C failed None True by auto
        next
          case (Inr w) then show ?thesis using C applied [OF a(1) None a(2) True Inr n refl] None True by simp
        qed
      qed
    qed
  qed
qed


lemma appendedHistoryRange_bounds:
  "m \<le> n \<Longrightarrow> snd (appendedHistoryRange m n) \<le> n \<and> fst (appendedHistoryRange m n) \<le> snd (appendedHistoryRange m n)"
  by (simp add: appendedHistoryRange_def)

lemma Commit_applied_ok:
  assumes "applyChanges fpt clock (agg_snapshot a) request = Inr w" "stored_ok fpt (creq_SessionID request) a"
  shows "aggregate_ok fpt (creq_SessionID request) (bump w)" "extends (agg_snapshot a) w"
    "snap_RunState w = RunIdle \<longrightarrow> \<not> hasUnfinishedJournal (snap_RunJournal w)"
proof -
  have "working_ok fpt (creq_SessionID request) (agg_snapshot a)" using assms(2) by (simp add: stored_ok_def aggregate_ok_def)
  note W = applyChanges_keeps [OF assms(1) this]
  show "aggregate_ok fpt (creq_SessionID request) (bump w)" using W aggregate_ok_revision [of fpt "creq_SessionID request" w] by simp
  show "extends (agg_snapshot a) w" "snap_RunState w = RunIdle \<longrightarrow> \<not> hasUnfinishedJournal (snap_RunJournal w)" using W by auto
qed

lemma Commit_store_ok:
  assumes "Commit_op env ctx request st = (r, st')" "store_ok fpt st" "env_ok fpt env"
  shows "store_ok fpt st'"
  using assms(1)
proof (cases rule: Commit_cases)
  case failed then show ?thesis using assms(2) by simp
next
  case replayed then show ?thesis using assms(2) by simp
next
  case (applied a fingerprint w u ix c)
  have a: "stored_ok fpt (creq_SessionID request) a" using assms(2) applied(1) by (simp add: store_ok_def)
  have "env_fpt env = fpt" using assms(3) by (simp add: env_ok_def)
  note W = Commit_applied_ok [OF applied(5) [unfolded this] a]
  have len: "length (snap_History (agg_snapshot a)) \<le> length (snap_History w)" using W(2) by (auto simp: extends_def)
  have "receipt_ok (creq_SessionID request) (bump w) \<lparr>mcm_fingerprint = fingerprint, mcm_commit = c\<rparr>"
    using appendedHistoryRange_bounds [OF len] by (simp add: receipt_ok_def applied(7))
  moreover have "receipt_ok (creq_SessionID request) (agg_snapshot a) x \<Longrightarrow> receipt_ok (creq_SessionID request) (bump w) x" for x
    using len by (auto simp: receipt_ok_def)
  ultimately have "stored_ok fpt (creq_SessionID request) \<lparr>agg_snapshot = bump w,
      agg_idempotency = (agg_idempotency a)(creq_IdempotencyKey request \<mapsto> \<lparr>mcm_fingerprint = fingerprint, mcm_commit = c\<rparr>), agg_updatedAt = u\<rparr>"
    using W(1) a by (auto simp: stored_ok_def)
  moreover have "env_epoch env \<noteq> ''''" "times_ok st" using assms(2,3) by (auto simp: env_ok_def store_ok_def)
  ultimately show ?thesis
    unfolding applied(9) using assms(2) nextUpdatedAt_later [OF applied(6)]
    by (intro store_ok_write times_ok_write) auto
qed

lemma ListSessions_store_ok:
  assumes "ListSessions env ctx request st = (r, st')" "store_ok fpt st" "env_ok fpt env"
  shows "store_ok fpt st'"
proof -
  have "st' = st \<or> st' = st\<lparr>ms_list := ensure env (ms_list st)\<rparr>" using assms(1) by (auto simp: ListSessions_def split: sum.splits)
  moreover have "times_ok (st\<lparr>ms_list := ensure env (ms_list st)\<rparr>)"
    using assms(2,3) by (auto simp: store_ok_def times_ok_alt ensure_def)
  ultimately show ?thesis using assms(2) by (auto simp: store_ok_def)
qed

section \<open>Reachable stores\<close>

text \<open>One public operation of the store under some environment and context.\<close>

inductive store_step :: "typed_fingerprint \<Rightarrow> MemoryStore \<Rightarrow> MemoryStore \<Rightarrow> bool" for fpt where
  step_create: "env_ok fpt env \<Longrightarrow> Create env ctx n st = (r, st') \<Longrightarrow> store_step fpt st st'"
| step_commit: "env_ok fpt env \<Longrightarrow> Commit_op env ctx request st = (r, st') \<Longrightarrow> store_step fpt st st'"
| step_recover: "env_ok fpt env \<Longrightarrow> Recover env ctx sid st = (r, st') \<Longrightarrow> store_step fpt st st'"
| step_list: "env_ok fpt env \<Longrightarrow> ListSessions env ctx query st = (r, st') \<Longrightarrow> store_step fpt st st'"

inductive reachable :: "typed_fingerprint \<Rightarrow> MemoryStore \<Rightarrow> bool" for fpt where
  reachable_new: "reachable fpt NewMemoryStore"
| reachable_step: "reachable fpt st \<Longrightarrow> store_step fpt st st' \<Longrightarrow> reachable fpt st'"

inductive_cases store_stepE: "store_step fpt st st'"

lemma store_step_ok: "store_step fpt st st' \<Longrightarrow> store_ok fpt st \<Longrightarrow> store_ok fpt st'"
  by (erule store_stepE) (blast intro: Create_store_ok Commit_store_ok Recover_store_ok ListSessions_store_ok)+

lemma NewMemoryStore_ok: "store_ok fpt NewMemoryStore"
  by (simp add: store_ok_def NewMemoryStore_def times_ok_def)

lemma reachable_store_ok: "reachable fpt st \<Longrightarrow> store_ok fpt st"
  by (induction rule: reachable.induct) (auto intro: NewMemoryStore_ok store_step_ok)

end
