(* ===== verification/Store_Steps.thy ===== *)
theory Store_Steps
  imports Store_Invariant
begin

text \<open>
  What well-formedness means for the identities in a History, and how one aggregate moves through the
  operations of the store: its History and its commit receipts only grow and its identity is fixed.
\<close>

section \<open>What a well-formed History says about identities\<close>

abbreviation messages_of :: "HistoryFact list \<Rightarrow> Message list" where
  "messages_of h \<equiv> List.map_filter fact_Message h"

abbreviation calls_of :: "HistoryFact list \<Rightarrow> ToolCall list" where
  "calls_of h \<equiv> List.map_filter fact_ToolCall h"

abbreviation results_of :: "HistoryFact list \<Rightarrow> ToolResult list" where
  "results_of h \<equiv> List.map_filter fact_ToolResult h"

abbreviation runs_of :: "HistoryFact list \<Rightarrow> RunFact list" where
  "runs_of h \<equiv> List.map_filter fact_Run h"

lemma map_filter_Nil [simp]: "List.map_filter f [] = []"
  by (simp add: List.map_filter_def)

lemma runFacts_None:
  "fst (runFacts h i) = None \<longleftrightarrow> (\<forall>r \<in> set (runs_of h). run_Kind r = RunStarted \<longrightarrow> run_RunID r \<noteq> i)"
  "snd (runFacts h i) = None \<longleftrightarrow> (\<forall>r \<in> set (runs_of h). run_Kind r \<noteq> RunStarted \<longrightarrow> run_RunID r \<noteq> i)"
  by (auto simp: runFacts_def Let_def last_such_None)

lemma attemptFacts_None:
  "fst (attemptFacts h i) = None \<longleftrightarrow> (\<forall>a \<in> set (attempts_of h). att_Kind a = Attempt_Started \<longrightarrow> att_AttemptID a \<noteq> i)"
  "snd (attemptFacts h i) = None \<longleftrightarrow> (\<forall>a \<in> set (attempts_of h). att_Kind a \<noteq> Attempt_Started \<longrightarrow> att_AttemptID a \<noteq> i)"
  by (auto simp: attemptFacts_def attempts_of_def Let_def last_such_None)

text \<open>One step of the five uniqueness claims: what \<open>fact_fits\<close> says of the payload of the new fact.\<close>

lemma fact_fits_fresh:
  assumes "fact_fits h f"
  shows "fact_Message f = Some m \<Longrightarrow> msg_ID m \<notin> msg_ID ` set (messages_of h)"
    and "fact_ToolCall f = Some c \<Longrightarrow> call_ID c \<notin> call_ID ` set (calls_of h)"
    and "fact_ToolResult f = Some t \<Longrightarrow> res_CallID t \<notin> res_CallID ` set (results_of h)"
    and "fact_Run f = Some r \<Longrightarrow> run_Kind r = RunStarted \<Longrightarrow> \<forall>x \<in> set (runs_of h). run_Kind x = RunStarted \<longrightarrow> run_RunID x \<noteq> run_RunID r"
    and "fact_Run f = Some r \<Longrightarrow> run_Kind r \<noteq> RunStarted \<Longrightarrow> \<forall>x \<in> set (runs_of h). run_Kind x \<noteq> RunStarted \<longrightarrow> run_RunID x \<noteq> run_RunID r"
    and "fact_ModelAttempt f = Some a \<Longrightarrow> att_Kind a = Attempt_Started \<Longrightarrow>
           \<forall>x \<in> set (attempts_of h). att_Kind x = Attempt_Started \<longrightarrow> att_AttemptID x \<noteq> att_AttemptID a"
    and "fact_ModelAttempt f = Some a \<Longrightarrow> att_Kind a \<noteq> Attempt_Started \<Longrightarrow>
           \<forall>x \<in> set (attempts_of h). att_Kind x \<noteq> Attempt_Started \<longrightarrow> att_AttemptID x \<noteq> att_AttemptID a"
proof -
  note fits = assms [unfolded fact_fits_def]
  show "fact_Message f = Some m \<Longrightarrow> msg_ID m \<notin> msg_ID ` set (messages_of h)"
    using fits by (force simp: message_fits_def containsMessage_def findMessage_def find_None_iff_all)
  show "fact_ToolCall f = Some c \<Longrightarrow> call_ID c \<notin> call_ID ` set (calls_of h)"
    using fits by (force simp: call_fits_def containsToolCall_def findToolCall_def find_None_iff_all)
  show "fact_ToolResult f = Some t \<Longrightarrow> res_CallID t \<notin> res_CallID ` set (results_of h)"
    using fits by (auto simp: result_fits_def hasToolResult_def)
  show "fact_Run f = Some r \<Longrightarrow> run_Kind r = RunStarted \<Longrightarrow> \<forall>x \<in> set (runs_of h). run_Kind x = RunStarted \<longrightarrow> run_RunID x \<noteq> run_RunID r"
    using fits runFacts_None(1) by (simp add: run_fits_def)
  show "fact_Run f = Some r \<Longrightarrow> run_Kind r \<noteq> RunStarted \<Longrightarrow> \<forall>x \<in> set (runs_of h). run_Kind x \<noteq> RunStarted \<longrightarrow> run_RunID x \<noteq> run_RunID r"
    using fits runFacts_None(2) by (auto simp: run_fits_def) (metis snd_conv)
  show "fact_ModelAttempt f = Some a \<Longrightarrow> att_Kind a = Attempt_Started \<Longrightarrow>
           \<forall>x \<in> set (attempts_of h). att_Kind x = Attempt_Started \<longrightarrow> att_AttemptID x \<noteq> att_AttemptID a"
    using fits attemptFacts_None(1) by (auto simp: attempt_fits_def) (metis fst_conv)
  show "fact_ModelAttempt f = Some a \<Longrightarrow> att_Kind a \<noteq> Attempt_Started \<Longrightarrow>
           \<forall>x \<in> set (attempts_of h). att_Kind x \<noteq> Attempt_Started \<longrightarrow> att_AttemptID x \<noteq> att_AttemptID a"
    using fits attemptFacts_None(2) by (auto simp: attempt_fits_def) (metis snd_conv)
qed

definition unique_identities :: "HistoryFact list \<Rightarrow> bool" where
  "unique_identities h \<longleftrightarrow> distinct (map msg_ID (messages_of h)) \<and> distinct (map call_ID (calls_of h)) \<and>
     distinct (map res_CallID (results_of h)) \<and>
     distinct (map run_RunID (filter (\<lambda>r. run_Kind r = RunStarted) (runs_of h))) \<and>
     distinct (map run_RunID (filter (\<lambda>r. run_Kind r \<noteq> RunStarted) (runs_of h))) \<and>
     distinct (map att_AttemptID (filter (\<lambda>a. att_Kind a = Attempt_Started) (attempts_of h))) \<and>
     distinct (map att_AttemptID (filter (\<lambda>a. att_Kind a \<noteq> Attempt_Started) (attempts_of h)))"

lemma history_ok_unique: "history_ok h \<Longrightarrow> unique_identities h"
proof (induction h rule: rev_induct)
  case Nil
  then show ?case by (simp add: unique_identities_def attempts_of_def)
next
  case (snoc f h)
  then have "unique_identities h" and "fact_fits h f" by simp_all
  from this(1) fact_fits_fresh [OF this(2)] show ?case
    unfolding unique_identities_def attempts_of_def
    by (intro conjI) (auto split: option.splits)
qed

lemma history_ok_nth: "history_ok h \<Longrightarrow> k < length h \<Longrightarrow> fact_fits (take k h) (h ! k)"
  by (simp add: history_ok_def)

lemma in_take: "x \<in> set (take k h) \<Longrightarrow> \<exists>j < k. j < length h \<and> h ! j = x"
  by (auto simp: in_set_conv_nth)

lemma findMessage_take: "findMessage (take k h) i = Some m \<Longrightarrow> \<exists>j < k. j < length h \<and> fact_Message (h ! j) = Some m \<and> msg_ID m = i"
  unfolding findMessage_def by (drule find_SomeD) (auto simp: set_map_filter_iff dest!: in_take)

lemma runFacts_take:
  "fst (runFacts (take k h) i) = Some r \<Longrightarrow> \<exists>j < k. j < length h \<and> fact_Run (h ! j) = Some r \<and> run_Kind r = RunStarted \<and> run_RunID r = i"
  by (auto simp: runFacts_def Let_def set_map_filter_iff dest!: last_such_SomeD in_take)

lemma attemptFacts_take:
  "fst (attemptFacts (take k h) i) = Some a \<Longrightarrow>
     \<exists>j < k. j < length h \<and> fact_ModelAttempt (h ! j) = Some a \<and> att_Kind a = Attempt_Started \<and> att_AttemptID a = i"
  by (auto simp: attemptFacts_def Let_def set_map_filter_iff dest!: last_such_SomeD in_take)

section \<open>How an aggregate moves through operations\<close>

definition advances :: "memoryAggregate \<Rightarrow> memoryAggregate \<Rightarrow> bool" where
  "advances a b \<longleftrightarrow> (\<exists>fs. snap_History (agg_snapshot b) = snap_History (agg_snapshot a) @ fs) \<and>
     agg_idempotency a \<subseteq>\<^sub>m agg_idempotency b \<and> agg_updatedAt a \<le> agg_updatedAt b \<and>
     snap_Session (agg_snapshot b) = (snap_Session (agg_snapshot a))\<lparr>ses_Revision := snap_Revision (agg_snapshot b)\<rparr>"

lemma advances_refl: "aggregate_ok fpt sid (agg_snapshot a) \<Longrightarrow> advances a a"
  using aggregate_ok_revision [of fpt sid "agg_snapshot a"] by (cases "snap_Session (agg_snapshot a)") (simp add: advances_def)

lemma advances_trans: "advances a b \<Longrightarrow> advances b c \<Longrightarrow> advances a c"
  unfolding advances_def by (auto intro: map_le_trans)

lemma extends_session: "extends s t \<Longrightarrow> snap_Session (bump t) = (snap_Session s)\<lparr>ses_Revision := snap_Revision t + 1\<rparr>"
  by (simp add: extends_def bump_def)

lemma Commit_advances:
  assumes "Commit_op env ctx request st = (r, st')" "store_ok fpt st" "env_ok fpt env" "aggregate_of st i = Some a"
  shows "\<exists>b. aggregate_of st' i = Some b \<and> advances a b"
  using assms(1)
proof (cases rule: Commit_cases)
  case failed then show ?thesis using assms advances_refl store_aggregate_ok by blast
next
  case replayed then show ?thesis using assms advances_refl store_aggregate_ok by blast
next
  case (applied a' fingerprint w u ix c)
  have "env_fpt env = fpt" using assms(3) by (simp add: env_ok_def)
  note W = Commit_applied_ok [OF applied(5) [unfolded this]]
  show ?thesis
  proof (cases "i = creq_SessionID request")
    case True
    with applied(1) assms(2,4) have a: "a' = a" "stored_ok fpt (creq_SessionID request) a" by (auto simp: store_ok_def)
    have "extends (agg_snapshot a) w" using W(2) a by simp
    moreover have "agg_updatedAt a < u" using nextUpdatedAt_later(2) [OF applied(6)] a by simp
    moreover have "agg_idempotency a \<subseteq>\<^sub>m (agg_idempotency a)(creq_IdempotencyKey request \<mapsto> x)" for x
      using applied(2) a by (auto simp: map_le_def)
    ultimately show ?thesis using True applied(9) a extends_session [of "agg_snapshot a" w]
      by (auto simp: advances_def extends_def)
  next
    case False
    then have "aggregate_of st' i = Some a" using applied(9) assms(4) by simp
    then show ?thesis using advances_refl store_aggregate_ok assms(2,4) by blast
  qed
qed

lemma Recover_advances:
  assumes "Recover env ctx sid st = (r, st')" "store_ok fpt st" "env_ok fpt env" "aggregate_of st i = Some a"
  shows "\<exists>b. aggregate_of st' i = Some b \<and> advances a b"
proof (cases "i = sid")
  case False
  from assms(1) have "aggregate_of st' i = Some a" by (cases rule: Recover_cases) (use False assms(4) in simp_all)
  then show ?thesis using advances_refl store_aggregate_ok assms(2,4) by blast
next
  case True
  note R = recoverAggregate_result [OF store_aggregate_ok [OF assms(2,4)], of "env_clock env" "env_xclock env" "env_ord env"]
  from assms(1) show ?thesis
  proof (cases rule: Recover_cases)
    case missing then show ?thesis using advances_refl store_aggregate_ok assms(2,4) by blast
  next
    case (failed a' e s) then show ?thesis using R assms(3,4) True by (auto simp: env_ok_def)
  next
    case (changed a' s u ix)
    then have "a' = a" using assms(4) True by simp
    moreover have "extends (agg_snapshot a) s" using R changed(2) assms(3) \<open>a' = a\<close> by (auto simp: env_ok_def)
    moreover have "agg_updatedAt a < u" using nextUpdatedAt_later(2) [OF changed(3)] \<open>a' = a\<close> by simp
    ultimately show ?thesis using True changed(5) extends_session [of "agg_snapshot a" s]
      by (auto simp: advances_def extends_def)
  next
    case (unchanged a' s)
    with R assms(3,4) True have "aggregate_of st' i = Some a" by (auto simp: env_ok_def)
    then show ?thesis using advances_refl store_aggregate_ok assms(2,4) by blast
  qed
qed

lemma Create_other: "Create env ctx n st = (r, st') \<Longrightarrow> aggregate_of st i = Some a \<Longrightarrow> aggregate_of st' i = Some a"
  by (cases r) (auto dest!: Create_Inr dest: Create_Inl)

lemma ListSessions_sessions: "ListSessions env ctx query st = (r, st') \<Longrightarrow> ms_sessions st' = ms_sessions st"
  by (auto simp: ListSessions_def split: sum.splits)

lemma step_advances:
  assumes "store_step fpt st st'" "store_ok fpt st" "aggregate_of st i = Some a"
  shows "\<exists>b. aggregate_of st' i = Some b \<and> advances a b"
  using assms(1)
proof (rule store_stepE)
  fix env ctx n r assume "Create env ctx n st = (r, st')"
  then have "aggregate_of st' i = Some a" using Create_other assms(3) by blast
  then show ?thesis using advances_refl store_aggregate_ok assms(2,3) by blast
next
  fix env ctx query r assume "ListSessions env ctx query st = (r, st')"
  then have "aggregate_of st' i = Some a" using ListSessions_sessions assms(3) by metis
  then show ?thesis using advances_refl store_aggregate_ok assms(2,3) by blast
qed (use Commit_advances Recover_advances assms(2,3) in blast)+

lemma steps_advance:
  "(store_step fpt)\<^sup>*\<^sup>* st st' \<Longrightarrow> store_ok fpt st \<Longrightarrow> aggregate_of st i = Some a \<Longrightarrow>
     store_ok fpt st' \<and> (\<exists>b. aggregate_of st' i = Some b \<and> advances a b)"
proof (induction rule: rtranclp_induct)
  case base then show ?case using advances_refl store_aggregate_ok by blast
next
  case (step y z)
  then obtain b where b: "store_ok fpt y" "aggregate_of y i = Some b" "advances a b" by auto
  with step_advances [OF step.hyps(2)] obtain c where "aggregate_of z i = Some c" "advances b c" by blast
  with b step show ?case using advances_trans store_step_ok by blast
qed

end
