(* ===== verification/Store_Example.thy ===== *)
theory Store_Example
  imports Store_Steps
begin

text \<open>
  A concrete execution of the store, used by the witnesses: a Session is created with an active run, a
  message is committed, or a run is started and then interrupted by recovery. The environment is a
  concrete one: a counting clock, the identity as map order, and simple fingerprints.
\<close>

definition demo_fpt :: typed_fingerprint where
  "demo_fpt xs = Some (''fp'', int (length xs))"

definition demo_env :: Env where
  "demo_env = \<lparr>env_fpt = demo_fpt, env_fp = (\<lambda>r. Some (creq_IdempotencyKey r @ replicate (length (creq_Changes r)) CHR ''x'')),
     env_clock = (\<lambda>n. int n + 1), env_xclock = (\<lambda>n. int n + 1), env_ord = id, env_now = 1, env_epoch = ''epoch'',
     env_sign = (\<lambda>c. None), env_open = (\<lambda>s. Inl ''cursor is malformed'')\<rparr>"

definition demo_config :: Config where
  "demo_config = zero_config\<lparr>cfg_ProviderKey := ''p'', cfg_ModelID := ''m'', cfg_Reasoning := ReasoningLow\<rparr>"

definition demo_session :: "SessionID \<Rightarrow> RunState \<Rightarrow> RunID \<Rightarrow> NewSession" where
  "demo_session i state run = \<lparr>new_Session = \<lparr>ses_ID = i, ses_AgentID = ''a'', ses_WorkspaceID = ''w'', ses_ParentSessionID = '''',
       ses_ParentRevision = 0, ses_Revision = 0\<rparr>,
     new_History = [], new_Context = zero_context, new_Queue = [], new_RunJournal = [], new_ModelConfig = demo_config,
     new_RunState = state, new_ActiveRunID = run, new_Fork = None\<rparr>"

definition demo_aggregate :: memoryAggregate where
  "demo_aggregate = \<lparr>agg_snapshot = newSnapshot (demo_session ''s1'' RunRunning ''r1'') [], agg_idempotency = Map.empty, agg_updatedAt = 1\<rparr>"

definition demo_store :: MemoryStore where
  "demo_store = \<lparr>ms_sessions = [(''s1'', demo_aggregate)],
     ms_list = \<lparr>idx_epoch = ''epoch'', idx_generation = 1, idx_created = [''s1'' \<mapsto> 1], idx_lastUpdatedAt = 1\<rparr>\<rparr>"

lemma demo_validID [simp]: "validID ''s1''" "validID ''r1''" "validID ''r2''" "validID ''a''" "validID ''w''" "validID ''m1''" "validID ''k1''" "validID ''c1''" "validID ''st1''"
  by (simp_all add: validID_graphic graphic_def)

lemma demo_config_valid: "Config_Validate demo_config = None"
  by (simp add: Config_Validate_def demo_config_def zero_config_def Reasoning_Valid_def)

lemma zero_context_valid: "validateContext zero_context sid = None"
  by (simp add: validateContext_def zero_context_def)

lemma demo_new_valid: "validateNewSession (demo_session ''s1'' RunRunning ''r1'') = None"
  using demo_config_valid zero_context_valid [of "''s1''"]
  by (simp add: validateNewSession_def demo_session_def forkCheck_def effective_state_def RunState_Valid_def duplicateQueueMessage_def
      zero_context_def validateHistoryConsistency_def scan_init_def Let_def)

lemma demo_env_ok: "env_ok demo_fpt demo_env"
  by (simp add: env_ok_def demo_env_def)

lemma demo_create: "Create demo_env CtxLive (demo_session ''s1'' RunRunning ''r1'') NewMemoryStore =
    (Inr (newSnapshot (demo_session ''s1'' RunRunning ''r1'') []), demo_store)"
  using demo_new_valid
  by (simp add: Create_def contextErr_def prepareInitialHistory_def NewMemoryStore_def demo_store_def demo_aggregate_def
      put_aggregate_def recordCreate_def nextUpdatedAt_def ensure_def index_init_def demo_env_def demo_session_def Let_def)

lemma demo_reachable: "reachable demo_fpt demo_store"
  by (rule reachable_step [OF reachable_new step_create [OF demo_env_ok demo_create]])

definition no_change :: Change where
  "no_change = \<lparr>chg_Kind = ChangeKind_other '''', chg_Message = None, chg_ToolCall = None, chg_ToolResult = None, chg_RunFact = None,
     chg_ModelAttempt = None, chg_ContextContribution = None, chg_RunBudgetExceeded = None, chg_RunLimitExceeded = None,
     chg_SessionEvent = None, chg_QueueItem = None, chg_QueueClaim = None, chg_QueueConsume = None, chg_QueueEdit = None,
     chg_QueueDelete = None, chg_QueueReclassification = None, chg_Context = None, chg_RetainPreviousContext = False,
     chg_ModelConfig = None, chg_RunState = None, chg_Journal = None, chg_Extension = None\<rparr>"

definition demo_message :: Message where
  "demo_message = \<lparr>msg_ID = ''m1'', msg_ClientMessageID = '''', msg_SessionID = ''s1'', msg_RunID = '''', msg_StepID = '''', msg_Role = RoleUser,
     msg_Parts = [\<lparr>part_Kind = PartText, part_Text = ''hi'', part_AttachmentID = '''', part_MediaType = '''', part_Name = ''''\<rparr>],
     msg_ModelContinuation = None, msg_CreatedAt = 1\<rparr>"

definition demo_append :: CommitRequest where
  "demo_append = \<lparr>creq_SessionID = ''s1'', creq_ExpectedRevision = 1, creq_IdempotencyKey = ''k1'', creq_Actor = zero_actor,
     creq_Changes = [no_change\<lparr>chg_Kind := AppendMessage, chg_Message := Some demo_message\<rparr>]\<rparr>"

definition demo_fact :: HistoryFact where
  "demo_fact = stamped (env_clock demo_env) [] ''s1'' (zero_fact\<lparr>fact_Message := Some demo_message\<rparr>) zero_actor"

definition demo_receipt :: Commit where
  "demo_receipt = \<lparr>com_SessionID = ''s1'', com_Revision = 2, com_FirstHistorySequence = 1, com_LastHistorySequence = 1, com_Applied = True\<rparr>"

definition demo_store2 :: MemoryStore where
  "demo_store2 = \<lparr>ms_sessions = [(''s1'', \<lparr>agg_snapshot = bump ((agg_snapshot demo_aggregate)\<lparr>snap_History := [demo_fact]\<rparr>),
       agg_idempotency = [''k1'' \<mapsto> \<lparr>mcm_fingerprint = ''k1x'', mcm_commit = demo_receipt\<rparr>], agg_updatedAt = 2\<rparr>)],
     ms_list = \<lparr>idx_epoch = ''epoch'', idx_generation = 1, idx_created = [''s1'' \<mapsto> 1], idx_lastUpdatedAt = 2\<rparr>\<rparr>"

lemma no_change_simps [simp]: "chg_RetainPreviousContext no_change = False" "chg_ToolCall no_change = None" "chg_Journal no_change = None"
  by (simp_all add: no_change_def)

lemma demo_message_valid: "Message_Valid demo_message"
  by (simp add: Message_Valid_def demo_message_def Role_Valid_def MessagePart_Valid_def)

lemma demo_history: "appendHistoryFact (env_clock demo_env) [] ''s1'' (zero_fact\<lparr>fact_Message := Some demo_message\<rparr>) zero_actor = Inr [demo_fact]"
  using appendHistoryFact_succeeds [of "''s1''" "zero_fact\<lparr>fact_Message := Some demo_message\<rparr>" "env_clock demo_env" "[]" zero_actor] demo_message_valid
  by (simp add: demo_fact_def demo_env_def validatePayload_def fact_payloads_def demo_message_def)

lemma demo_apply: "applyChanges demo_fpt (env_clock demo_env) (agg_snapshot demo_aggregate) demo_append =
    Inr ((agg_snapshot demo_aggregate)\<lparr>snap_History := [demo_fact]\<rparr>)"
proof -
  let ?c = "no_change\<lparr>chg_Kind := AppendMessage, chg_Message := Some demo_message\<rparr>"
  have v: "Change_Validate demo_fpt ?c ''s1'' = None"
    using demo_message_valid by (simp add: Change_Validate_def payloadCount_def no_change_def Let_def required_def demo_message_def)
  have t: "validateToolTransactions h [?c] = None" for h
    by (simp add: validateToolTransactions_def toolTransactionCheck_def emptyMessageCheck_def demo_message_def)
  have m: "validateModelConfigTransaction cfg [?c] = None" for cfg
    by (simp add: validateModelConfigTransaction_def)
  have h: "snap_History (agg_snapshot demo_aggregate) = []" by (simp add: demo_aggregate_def newSnapshot_def)
  show ?thesis
    using v t m demo_history h
    by (simp add: applyChanges_def demo_append_def applyChange_def appendMessage_def append_payload_def containsMessage_def findMessage_def
        List.map_filter_def finalChecks_def validateQueueClaims_def demo_aggregate_def newSnapshot_def demo_session_def
        effective_state_def)
qed

lemma demo_commit: "Commit_op demo_env CtxLive demo_append demo_store = (Inr demo_receipt, demo_store2)"
proof -
  have v: "CommitRequest_Validate demo_fpt demo_append = None"
    using demo_message_valid
    by (simp add: CommitRequest_Validate_def demo_append_def Change_Validate_def payloadCount_def no_change_def Let_def required_def
        demo_message_def zero_actor_def)
  have e: "env_fpt demo_env = demo_fpt" by (simp add: demo_env_def)
  show ?thesis
    unfolding Commit_op_def e using v demo_apply
    by (simp add: contextErr_def demo_store_def demo_append_def demo_store2_def demo_receipt_def demo_aggregate_def demo_env_def
        newSnapshot_def bump_def nextUpdatedAt_def ensure_def appendedHistoryRange_def put_aggregate_def Let_def)
qed

lemma demo_reachable2: "reachable demo_fpt demo_store2"
  by (rule reachable_step [OF demo_reachable step_commit [OF demo_env_ok demo_commit]])

text \<open>A run starts, and recovery interrupts it.\<close>

definition demo_start :: RunFact where
  "demo_start = \<lparr>run_SessionID = ''s1'', run_RunID = ''r1'', run_Kind = RunStarted, run_ModelConfig = demo_config, run_ConfigRevision = 1,
     run_LegacyCompletionMode = '''', run_Termination = None\<rparr>"

definition demo_end :: RunFact where
  "demo_end = demo_start\<lparr>run_Kind := RunInterrupted, run_Termination := Some (recoveredRunTermination [] ''r1'')\<rparr>"

definition demo_run_facts :: "HistoryFact list" where
  "demo_run_facts = (let f = stamped (env_clock demo_env) [] ''s1'' (zero_fact\<lparr>fact_Run := Some demo_start\<rparr>) zero_actor in
     [f, stamped (env_clock demo_env) [f] ''s1'' (zero_fact\<lparr>fact_Run := Some demo_end\<rparr>) zero_actor])"

definition demo_run :: CommitRequest where
  "demo_run = \<lparr>creq_SessionID = ''s1'', creq_ExpectedRevision = 1, creq_IdempotencyKey = ''k2'', creq_Actor = zero_actor,
     creq_Changes = [no_change\<lparr>chg_Kind := AppendRunFact, chg_RunFact := Some demo_start\<rparr>]\<rparr>"

definition demo_running :: MemoryStore where
  "demo_running = \<lparr>ms_sessions = [(''s1'', \<lparr>agg_snapshot = bump ((agg_snapshot demo_aggregate)\<lparr>snap_History := take 1 demo_run_facts\<rparr>),
       agg_idempotency = [''k2'' \<mapsto> \<lparr>mcm_fingerprint = ''k2x'', mcm_commit = demo_receipt\<rparr>], agg_updatedAt = 2\<rparr>)],
     ms_list = \<lparr>idx_epoch = ''epoch'', idx_generation = 1, idx_created = [''s1'' \<mapsto> 1], idx_lastUpdatedAt = 2\<rparr>\<rparr>"

definition demo_recovered_snapshot :: Snapshot where
  "demo_recovered_snapshot = bump (bump ((agg_snapshot demo_aggregate)\<lparr>snap_History := demo_run_facts, snap_RunState := RunIdle, snap_ActiveRunID := ''''\<rparr>))"

definition demo_recovered :: MemoryStore where
  "demo_recovered = \<lparr>ms_sessions = [(''s1'', \<lparr>agg_snapshot = demo_recovered_snapshot,
       agg_idempotency = [''k2'' \<mapsto> \<lparr>mcm_fingerprint = ''k2x'', mcm_commit = demo_receipt\<rparr>], agg_updatedAt = 3\<rparr>)],
     ms_list = \<lparr>idx_epoch = ''epoch'', idx_generation = 1, idx_created = [''s1'' \<mapsto> 1], idx_lastUpdatedAt = 3\<rparr>\<rparr>"

lemma demo_clock [simp]: "env_clock demo_env n = int n + 1"
  by (simp add: demo_env_def)

lemma demo_snapshot_fields [simp]:
  "snap_History (agg_snapshot demo_aggregate) = []" "snap_RunState (agg_snapshot demo_aggregate) = RunRunning"
  "snap_ActiveRunID (agg_snapshot demo_aggregate) = ''r1''" "ses_ID (snap_Session (agg_snapshot demo_aggregate)) = ''s1''"
  "snap_Queue (agg_snapshot demo_aggregate) = []" "snap_RunJournal (agg_snapshot demo_aggregate) = []"
  "snap_ExtensionJournal (agg_snapshot demo_aggregate) = []" "snap_Revision (agg_snapshot demo_aggregate) = 1"
  by (simp_all add: demo_aggregate_def newSnapshot_def demo_session_def effective_state_def)

lemma demo_start_valid: "RunFact_Validate demo_start ''s1'' = None"
  using demo_config_valid by (simp add: RunFact_Validate_def demo_start_def RunFactKind_Valid_def)

lemma demo_end_valid: "RunFact_Validate demo_end ''s1'' = None"
  using demo_config_valid recoveredRunTermination_valid [of "[]" "''r1''"]
  by (simp add: RunFact_Validate_def demo_end_def demo_start_def RunFactKind_Valid_def)

lemma demo_run_appends:
  "appendHistoryFact (env_clock demo_env) [] ''s1'' (zero_fact\<lparr>fact_Run := Some demo_start\<rparr>) zero_actor = Inr (take 1 demo_run_facts)"
  "appendHistoryFact (env_clock demo_env) (take 1 demo_run_facts) ''s1'' (zero_fact\<lparr>fact_Run := Some demo_end\<rparr>) zero_actor = Inr demo_run_facts"
  using appendHistoryFact_succeeds [of "''s1''" "zero_fact\<lparr>fact_Run := Some demo_start\<rparr>" "env_clock demo_env" "[]" zero_actor]
    appendHistoryFact_succeeds [of "''s1''" "zero_fact\<lparr>fact_Run := Some demo_end\<rparr>" "env_clock demo_env" "take 1 demo_run_facts" zero_actor]
    demo_start_valid demo_end_valid
  by (simp_all add: demo_run_facts_def Let_def)

lemma demo_run_apply: "applyChanges demo_fpt (env_clock demo_env) (agg_snapshot demo_aggregate) demo_run =
    Inr ((agg_snapshot demo_aggregate)\<lparr>snap_History := take 1 demo_run_facts\<rparr>)"
proof -
  let ?c = "no_change\<lparr>chg_Kind := AppendRunFact, chg_RunFact := Some demo_start\<rparr>"
  have v: "Change_Validate demo_fpt ?c ''s1'' = None"
    using demo_start_valid by (simp add: Change_Validate_def payloadCount_def no_change_def Let_def required_def demo_start_def)
  have t: "validateToolTransactions h [?c] = None" for h
    by (simp add: validateToolTransactions_def toolTransactionCheck_def emptyMessageCheck_def)
  have m: "validateModelConfigTransaction cfg [?c] = None" for cfg
    by (simp add: validateModelConfigTransaction_def)
  have r: "runFactCheck (agg_snapshot demo_aggregate) demo_start = None"
    by (simp add: runFactCheck_def runFacts_def demo_start_def is_active_def)
  show ?thesis
    using v t m r demo_run_appends
    by (simp add: applyChanges_def demo_run_def applyChange_def appendRunFact_def append_payload_def finalChecks_def validateQueueClaims_def)
qed

lemma demo_run_commit: "Commit_op demo_env CtxLive demo_run demo_store = (Inr demo_receipt, demo_running)"
proof -
  have v: "CommitRequest_Validate demo_fpt demo_run = None"
    using demo_start_valid
    by (simp add: CommitRequest_Validate_def demo_run_def Change_Validate_def payloadCount_def no_change_def Let_def required_def
        zero_actor_def demo_start_def)
  have e: "env_fpt demo_env = demo_fpt" by (simp add: demo_env_def)
  have l: "length demo_run_facts = 2" "demo_run_facts \<noteq> []" by (simp_all add: demo_run_facts_def Let_def)
  show ?thesis
    unfolding Commit_op_def e using v demo_run_apply l
    by (simp add: contextErr_def demo_store_def demo_run_def demo_running_def demo_receipt_def demo_env_def
        bump_def nextUpdatedAt_def ensure_def appendedHistoryRange_def put_aggregate_def Let_def demo_aggregate_def newSnapshot_def)
qed

lemma demo_running_reachable: "reachable demo_fpt demo_running"
  by (rule reachable_step [OF demo_reachable step_commit [OF demo_env_ok demo_run_commit]])

lemma demo_recover_aggregate:
  "recoverAggregate (env_clock demo_env) (env_xclock demo_env) (env_ord demo_env) (bump ((agg_snapshot demo_aggregate)\<lparr>snap_History := take 1 demo_run_facts\<rparr>)) =
     (Inr True, bump ((agg_snapshot demo_aggregate)\<lparr>snap_History := demo_run_facts, snap_RunState := RunIdle, snap_ActiveRunID := ''''\<rparr>))"
proof -
  have rf: "runFacts (take 1 demo_run_facts) ''r1'' = (Some demo_start, None)"
    by (simp add: demo_run_facts_def Let_def runFacts_def demo_start_def)
  have sa: "startedAttempts (take 1 demo_run_facts) = []"
    by (simp add: demo_run_facts_def Let_def startedAttempts_def attempts_of_def)
  have rt: "recoveredRunTermination (take 1 demo_run_facts) ''r1'' = recoveredRunTermination [] ''r1''"
    by (simp add: recoveredRunTermination_def demo_run_facts_def Let_def limit_of_def budget_of_def)
  have ext: "snap_ExtensionJournal (agg_snapshot demo_aggregate) = []" "env_ord demo_env [] = []" by (simp_all add: demo_env_def)
  show ?thesis
    using rf sa rt ext demo_run_appends(2)
    by (simp add: recoverAggregate_def Let_def recoverExtensions_def finishRecovery_def interruptRun_def recover_append_def append_payload_def
        recoverQueue_def queue_touched_def bump_def demo_end_def)
qed

lemma demo_recover: "Recover demo_env CtxLive ''s1'' demo_running = (Inr demo_recovered_snapshot, demo_recovered)"
  using demo_recover_aggregate
  by (simp add: Recover_def with_session_def contextErr_def demo_running_def demo_recovered_def demo_recovered_snapshot_def
      put_aggregate_def nextUpdatedAt_def ensure_def Let_def check_def) (simp add: demo_env_def)

lemma demo_recovered_reachable: "reachable demo_fpt demo_recovered"
  by (rule reachable_step [OF demo_running_reachable step_recover [OF demo_env_ok demo_recover]])

end
