(* ===== verification/Session_Guarantees.thy ===== *)
theory Session_Guarantees
  imports Store_Example
begin

text \<open>
  The guarantees of the Session store (\<^verbatim>\<open>session/memory_store.go\<close>) over all reachable stores: the History
  is a gapless causally ordered log without duplicates, commits are atomic, exactly-once compare-and-swap
  steps, and recovery always succeeds, settles the aggregate and is idempotent.
\<close>

section \<open>Every reachable History\<close>

lemma reachable_parts:
  assumes "reachable fpt st" "aggregate_of st i = Some a"
  shows "validID i" "ident_ok i (agg_snapshot a)" "envelope_ok i (snap_History (agg_snapshot a))" "history_ok (snap_History (agg_snapshot a))"
    "queue_ok i (snap_Queue (agg_snapshot a))" "journal_ok i (snap_RunJournal (agg_snapshot a))" "ext_ok fpt i (snap_ExtensionJournal (agg_snapshot a))"
    "run_ok (agg_snapshot a)" "claims_ok (agg_snapshot a)" "Config_Validate (snap_ModelConfig (agg_snapshot a)) = None"
  using store_aggregate_ok [OF reachable_store_ok [OF assms(1)] assms(2)]
  by (auto simp: aggregate_ok_def working_ok_def ident_ok_def)

text \<open>
  C6. In every store that the operations can reach, the History of every Session is a gapless log: the
  fact at index k has sequence number k+1 and the FactID built from it, all FactIDs differ, and every
  fact belongs to the Session, has a non-zero time, a valid actor, a Kind that names its payload, and a
  payload that passes validation.
\<close>

theorem reachable_history_log:
  assumes "reachable fpt st" "aggregate_of st i = Some a"
  shows "map fact_Sequence (snap_History (agg_snapshot a)) = [1..<Suc (length (snap_History (agg_snapshot a)))] \<and>
    map fact_FactID (snap_History (agg_snapshot a)) = map (factID i) [1..<Suc (length (snap_History (agg_snapshot a)))] \<and>
    distinct (map fact_FactID (snap_History (agg_snapshot a))) \<and>
    (\<forall>f \<in> set (snap_History (agg_snapshot a)). fact_SessionID f = i \<and> fact_At f \<noteq> 0 \<and> ActorIdentity_Valid (fact_Actor f) \<and>
       fact_Kind f = payloadKind f \<and> validatePayload f i = None)"
proof -
  let ?h = "snap_History (agg_snapshot a)"
  have e: "envelope_ok i ?h" using reachable_parts [OF assms] by simp
  then have "map fact_Sequence ?h = [1..<Suc (length ?h)]" "map fact_FactID ?h = map (factID i) [1..<Suc (length ?h)]"
    by (auto intro!: nth_equalityI simp: envelope_ok_def simp del: upt_Suc)
  with e envelope_ok_distinct [OF e] show ?thesis
    by (auto simp: envelope_ok_def HistoryFact_Validate_def IsZero_def)
qed

lemma demo_aggregate2: "aggregate_of demo_store2 ''s1'' = Some \<lparr>agg_snapshot = bump ((agg_snapshot demo_aggregate)\<lparr>snap_History := [demo_fact]\<rparr>),
    agg_idempotency = [''k1'' \<mapsto> \<lparr>mcm_fingerprint = ''k1x'', mcm_commit = demo_receipt\<rparr>], agg_updatedAt = 2\<rparr>"
  by (simp add: demo_store2_def)

theorem reachable_history_log_witness:
  "reachable demo_fpt demo_store2 \<and> map fact_FactID [demo_fact] = [factID ''s1'' 1] \<and> fact_SessionID demo_fact = ''s1'' \<and>
     fact_Kind demo_fact = FactMessage"
  using reachable_history_log [OF demo_reachable2 demo_aggregate2] demo_reachable2
  by (simp add: payloadKind_def demo_fact_def)

text \<open>
  C4. In every reachable store each History is free of duplicates: message IDs, tool call IDs, the calls
  answered by tool results, run starts, run terminals, attempt starts and attempt terminals are each
  distinct, so a call has at most one result and a run or an attempt ends at most once.
\<close>

theorem reachable_unique_identities:
  assumes "reachable fpt st" "aggregate_of st i = Some a" "h = snap_History (agg_snapshot a)"
  shows "distinct (map msg_ID (messages_of h)) \<and> distinct (map call_ID (calls_of h)) \<and>
     distinct (map res_CallID (results_of h)) \<and>
     distinct (map run_RunID (filter (\<lambda>r. run_Kind r = RunStarted) (runs_of h))) \<and>
     distinct (map run_RunID (filter (\<lambda>r. run_Kind r \<noteq> RunStarted) (runs_of h))) \<and>
     distinct (map att_AttemptID (filter (\<lambda>a. att_Kind a = Attempt_Started) (attempts_of h))) \<and>
     distinct (map att_AttemptID (filter (\<lambda>a. att_Kind a \<noteq> Attempt_Started) (attempts_of h)))"
  using history_ok_unique [OF reachable_parts(4) [OF assms(1,2)]] assms(3) by (simp add: unique_identities_def)

theorem reachable_unique_identities_witness:
  "reachable demo_fpt demo_store2 \<and> distinct (map msg_ID (messages_of [demo_fact]))"
  using reachable_unique_identities [OF demo_reachable2 demo_aggregate2 refl] demo_reachable2 by simp

text \<open>
  C5. In every reachable History, causes come before effects: a tool call follows the assistant message
  it names, with the same run and step; a run terminal follows the start of its run and carries the
  configuration frozen there; an attempt terminal follows the start of its attempt with the same identity.
\<close>

theorem reachable_causal_order:
  assumes "reachable fpt st" "aggregate_of st i = Some a" "h = snap_History (agg_snapshot a)" "k < length h"
  shows "(\<forall>c. fact_ToolCall (h ! k) = Some c \<longrightarrow> (\<exists>j < k. \<exists>m. fact_Message (h ! j) = Some m \<and> msg_ID m = call_MessageID c \<and>
       msg_Role m = RoleAssistant \<and> msg_RunID m = call_RunID c \<and> msg_StepID m = call_StepID c)) \<and>
    (\<forall>r. fact_Run (h ! k) = Some r \<and> run_Kind r \<noteq> RunStarted \<longrightarrow> (\<exists>j < k. \<exists>s. fact_Run (h ! j) = Some s \<and> run_Kind s = RunStarted \<and>
       run_RunID s = run_RunID r \<and> run_ConfigRevision s = run_ConfigRevision r \<and> sameModelConfig (run_ModelConfig s) (run_ModelConfig r))) \<and>
    (\<forall>x. fact_ModelAttempt (h ! k) = Some x \<and> att_Kind x \<noteq> Attempt_Started \<longrightarrow> (\<exists>j < k. \<exists>s. fact_ModelAttempt (h ! j) = Some s \<and>
       att_Kind s = Attempt_Started \<and> att_AttemptID s = att_AttemptID x \<and> sameAttemptIdentity s x))"
proof -
  have fits: "fact_fits (take k h) (h ! k)" using history_ok_nth reachable_parts(4) [OF assms(1,2)] assms(3,4) by blast
  have "\<exists>j < k. \<exists>m. fact_Message (h ! j) = Some m \<and> msg_ID m = call_MessageID c \<and>
       msg_Role m = RoleAssistant \<and> msg_RunID m = call_RunID c \<and> msg_StepID m = call_StepID c"
    if "fact_ToolCall (h ! k) = Some c" for c
    using fits that by (auto simp: fact_fits_def call_fits_def dest!: findMessage_take)
  moreover have "\<exists>j < k. \<exists>s. fact_Run (h ! j) = Some s \<and> run_Kind s = RunStarted \<and>
       run_RunID s = run_RunID r \<and> run_ConfigRevision s = run_ConfigRevision r \<and> sameModelConfig (run_ModelConfig s) (run_ModelConfig r)"
    if r: "fact_Run (h ! k) = Some r" "run_Kind r \<noteq> RunStarted" for r
  proof -
    obtain s where s: "runFacts (take k h) (run_RunID r) = (Some s, None)" "run_ConfigRevision s = run_ConfigRevision r"
      "sameModelConfig (run_ModelConfig s) (run_ModelConfig r)" using fits r by (auto simp: fact_fits_def run_fits_def)
    with runFacts_take [of k h "run_RunID r" s] show ?thesis by fastforce
  qed
  moreover have "\<exists>j < k. \<exists>s. fact_ModelAttempt (h ! j) = Some s \<and>
       att_Kind s = Attempt_Started \<and> att_AttemptID s = att_AttemptID x \<and> sameAttemptIdentity s x"
    if x: "fact_ModelAttempt (h ! k) = Some x" "att_Kind x \<noteq> Attempt_Started" for x
  proof -
    obtain s where s: "attemptFacts (take k h) (att_AttemptID x) = (Some s, None)" "sameAttemptIdentity s x"
      using fits x by (auto simp: fact_fits_def attempt_fits_def)
    with attemptFacts_take [of k h "att_AttemptID x" s] show ?thesis by fastforce
  qed
  ultimately show ?thesis by blast
qed

lemma demo_recovered_aggregate: "aggregate_of demo_recovered ''s1'' = Some \<lparr>agg_snapshot = demo_recovered_snapshot,
    agg_idempotency = [''k2'' \<mapsto> \<lparr>mcm_fingerprint = ''k2x'', mcm_commit = demo_receipt\<rparr>], agg_updatedAt = 3\<rparr>"
  by (simp add: demo_recovered_def)

theorem reachable_causal_order_witness:
  "reachable demo_fpt demo_recovered \<and> fact_Run (demo_run_facts ! 1) = Some demo_end \<and>
     (\<exists>j < 1. \<exists>s. fact_Run (demo_run_facts ! j) = Some s \<and> run_Kind s = RunStarted \<and> run_RunID s = run_RunID demo_end)"
proof -
  have h: "demo_run_facts = snap_History (agg_snapshot (the (aggregate_of demo_recovered ''s1'')))"
    by (simp add: demo_recovered_aggregate demo_recovered_snapshot_def)
  have "1 < length demo_run_facts" "fact_Run (demo_run_facts ! 1) = Some demo_end" "run_Kind demo_end \<noteq> RunStarted"
    by (simp_all add: demo_run_facts_def Let_def demo_end_def)
  with reachable_causal_order [OF demo_recovered_reachable demo_recovered_aggregate, of demo_run_facts 1] h demo_recovered_reachable
  show ?thesis by (simp add: demo_recovered_aggregate) blast
qed

text \<open>
  C7. In every reachable store the rest of each aggregate is consistent: the Session record and the
  snapshot carry one revision; a running Session has a valid active run and an idle one has none; queue
  items are valid and distinct, and a claimed item is claimed by the active run; journal entries are valid
  with distinct calls; the extension journal is numbered from one with distinct valid invocations.
\<close>

theorem reachable_aggregate_state:
  assumes "reachable fpt st" "aggregate_of st i = Some a" "s = agg_snapshot a"
  shows "ses_ID (snap_Session s) = i \<and> validID i \<and> ses_Revision (snap_Session s) = snap_Revision s \<and>
    (snap_RunState s = RunRunning \<and> validID (snap_ActiveRunID s) \<or> snap_RunState s = RunIdle \<and> snap_ActiveRunID s = '''') \<and>
    distinct (map (msg_ID \<circ> qi_Message) (snap_Queue s)) \<and>
    (\<forall>q \<in> set (snap_Queue s). validQueueItem q i \<and>
       (qi_ClaimedBy q \<noteq> '''' \<longrightarrow> snap_RunState s = RunRunning \<and> qi_ClaimedBy q = snap_ActiveRunID s)) \<and>
    distinct (map jrn_callID (snap_RunJournal s)) \<and> (\<forall>e \<in> set (snap_RunJournal s). JournalEntry_Validate e i = None) \<and>
    map xj_Sequence (snap_ExtensionJournal s) = map word_of_nat [1..<Suc (length (snap_ExtensionJournal s))] \<and>
    distinct (map xj_InvocationID (snap_ExtensionJournal s)) \<and>
    (\<forall>e \<in> set (snap_ExtensionJournal s). ExtensionJournalEntry_Validate fpt e i = None) \<and>
    Config_Validate (snap_ModelConfig s) = None"
proof -
  note P = reachable_parts [OF assms(1,2), folded assms(3)]
  have "map xj_Sequence (snap_ExtensionJournal s) = map word_of_nat [1..<Suc (length (snap_ExtensionJournal s))]"
    using P(7) by (auto intro!: nth_equalityI simp: ext_ok_def simp del: upt_Suc)
  with P show ?thesis
    by (simp add: ident_ok_def queue_ok_def claims_ok_def journal_ok_def ext_ok_def run_ok_def is_active_def)
qed

theorem reachable_aggregate_state_witness:
  "reachable demo_fpt demo_store2 \<and> validID ''s1'' \<and> Config_Validate demo_config = None"
  using reachable_aggregate_state [OF demo_reachable2 demo_aggregate2 refl] demo_reachable2
  by (simp add: demo_aggregate_def newSnapshot_def demo_session_def bump_def)

text \<open>
  C8. Durability: whatever operations follow, a Session never disappears, its History only grows at the
  end, its recorded commit receipts are kept unchanged, its update time never goes back, and its
  identity (agent, workspace, parent) never changes.
\<close>

theorem history_append_only:
  assumes "reachable fpt st" "(store_step fpt)\<^sup>*\<^sup>* st st'" "aggregate_of st i = Some a"
  shows "\<exists>b. aggregate_of st' i = Some b \<and>
    take (length (snap_History (agg_snapshot a))) (snap_History (agg_snapshot b)) = snap_History (agg_snapshot a) \<and>
    agg_idempotency a \<subseteq>\<^sub>m agg_idempotency b \<and> agg_updatedAt a \<le> agg_updatedAt b \<and>
    (snap_Session (agg_snapshot b))\<lparr>ses_Revision := 0\<rparr> = (snap_Session (agg_snapshot a))\<lparr>ses_Revision := 0\<rparr>"
  using steps_advance [OF assms(2) reachable_store_ok [OF assms(1)] assms(3)] by (auto simp: advances_def)

lemma demo_aggregate1: "aggregate_of demo_store ''s1'' = Some demo_aggregate"
  by (simp add: demo_store_def)

theorem history_append_only_witness:
  "reachable demo_fpt demo_store \<and> (store_step demo_fpt)\<^sup>*\<^sup>* demo_store demo_store2 \<and> (\<exists>b. aggregate_of demo_store2 ''s1'' = Some b \<and>
     agg_updatedAt demo_aggregate \<le> agg_updatedAt b)"
  using history_append_only [OF demo_reachable r_into_rtranclp [of "store_step demo_fpt", OF step_commit [OF demo_env_ok demo_commit]] demo_aggregate1]
    demo_reachable r_into_rtranclp [of "store_step demo_fpt", OF step_commit [OF demo_env_ok demo_commit]] by blast

section \<open>Commits\<close>

text \<open>
  C2. An applied commit is a compare-and-swap: it only applies when the expected revision is the current
  one, it raises the revision by one, appends its facts to the History and reports exactly their sequence
  range (zero when there are none), leaves no unfinished tool execution in an idle Session, gives the
  Session a later update time, and touches no other Session.
\<close>

theorem commit_applied:
  assumes "reachable fpt st" "env_ok fpt env" "Commit_op env ctx request st = (Inr c, st')" "com_Applied c"
  shows "\<exists>a b fs. aggregate_of st (creq_SessionID request) = Some a \<and> aggregate_of st' (creq_SessionID request) = Some b \<and>
    creq_ExpectedRevision request = snap_Revision (agg_snapshot a) \<and> com_Revision c = snap_Revision (agg_snapshot a) + 1 \<and>
    snap_Revision (agg_snapshot b) = com_Revision c \<and> snap_History (agg_snapshot b) = snap_History (agg_snapshot a) @ fs \<and>
    (com_FirstHistorySequence c, com_LastHistorySequence c) =
      (if fs = [] then (0, 0) else (fact_Sequence (hd fs), fact_Sequence (last fs))) \<and>
    (snap_RunState (agg_snapshot b) = RunIdle \<longrightarrow> \<not> hasUnfinishedJournal (snap_RunJournal (agg_snapshot b))) \<and>
    agg_updatedAt a < agg_updatedAt b \<and> (\<forall>j. j \<noteq> creq_SessionID request \<longrightarrow> aggregate_of st' j = aggregate_of st j)"
  using assms(3)
proof (cases rule: Commit_cases)
  case failed then show ?thesis by simp
next
  case replayed then show ?thesis using assms(4) by simp
next
  case (applied a fingerprint w u ix d)
  let ?sid = "creq_SessionID request"
  have ok: "store_ok fpt st" "stored_ok fpt ?sid a" "env_fpt env = fpt"
    using reachable_store_ok [OF assms(1)] applied(1) assms(2) by (auto simp: store_ok_def env_ok_def)
  note W = Commit_applied_ok [OF applied(5) [unfolded ok(3)] ok(2)]
  obtain fs where fs: "snap_History w = snap_History (agg_snapshot a) @ fs" "snap_Revision w = snap_Revision (agg_snapshot a)"
    using W(2) by (auto simp: extends_def)
  have e: "envelope_ok ?sid (snap_History (agg_snapshot a) @ fs)" using W(1) fs by (simp add: aggregate_ok_def working_ok_def)
  let ?m = "length (snap_History (agg_snapshot a))"
  have sq: "k < length fs \<Longrightarrow> fact_Sequence (fs ! k) = Suc (?m + k)" for k
    using e unfolding envelope_ok_def by (auto dest!: spec [of _ "?m + k"] simp: nth_append)
  have "(fst (appendedHistoryRange ?m (?m + length fs)), snd (appendedHistoryRange ?m (?m + length fs))) =
      (if fs = [] then (0, 0) else (fact_Sequence (hd fs), fact_Sequence (last fs)))"
    using sq [of 0] sq [of "length fs - 1"] by (simp add: appendedHistoryRange_def hd_conv_nth last_conv_nth)
  moreover have "agg_updatedAt a < u" using nextUpdatedAt_later(2) [OF applied(6)] .
  ultimately show ?thesis using applied(1,4,7,8) W(3) fs unfolding applied(9) by auto
qed

theorem commit_applied_witness:
  "Commit_op demo_env CtxLive demo_append demo_store = (Inr demo_receipt, demo_store2) \<and>
   (\<exists>a. aggregate_of demo_store ''s1'' = Some a \<and> creq_ExpectedRevision demo_append = snap_Revision (agg_snapshot a) \<and>
        com_Revision demo_receipt = snap_Revision (agg_snapshot a) + 1)"
proof -
  have "com_Applied demo_receipt" "creq_SessionID demo_append = ''s1''" by (simp_all add: demo_receipt_def demo_append_def)
  with commit_applied [OF demo_reachable demo_env_ok demo_commit] show ?thesis using demo_commit by auto
qed

text \<open>
  C9. A failed operation changes nothing: when creating, committing or recovering returns an error, the
  store is exactly the one before the call.
\<close>

theorem failed_operation_changes_nothing:
  assumes "reachable fpt st" "env_ok fpt env"
  shows "(\<forall>e st'. Create env ctx n st = (Inl e, st') \<longrightarrow> st' = st) \<and> (\<forall>e st'. Commit_op env ctx request st = (Inl e, st') \<longrightarrow> st' = st) \<and>
    (\<forall>e st'. Recover env ctx sid st = (Inl e, st') \<longrightarrow> st' = st)"
proof (intro conjI allI impI)
  fix e st' assume "Create env ctx n st = (Inl e, st')" then show "st' = st" by (rule Create_Inl)
next
  fix e st' assume "Commit_op env ctx request st = (Inl e, st')" then show "st' = st" by (cases rule: Commit_cases) auto
next
  fix e st' assume "Recover env ctx sid st = (Inl e, st')"
  then show "st' = st"
  proof (cases rule: Recover_cases)
    case (failed a x s)
    with recoverAggregate_result [OF store_aggregate_ok [OF reachable_store_ok [OF assms(1)] failed(1)], of "env_clock env" "env_xclock env" "env_ord env"] assms(2)
    show ?thesis by (auto simp: env_ok_def)
  qed auto
qed

theorem failed_operation_changes_nothing_witness:
  "reachable demo_fpt demo_store \<and> Commit_op demo_env CtxCanceled demo_append demo_store = (Inl (NewCodedError ErrorCanceled CodeCanceled
     ''session.commit'' ''operation canceled''), demo_store)"
proof -
  have "fst (Commit_op demo_env CtxCanceled demo_append demo_store) = Inl (NewCodedError ErrorCanceled CodeCanceled ''session.commit'' ''operation canceled'')"
    by (simp add: Commit_op_def contextErr_def)
  then show ?thesis
    using failed_operation_changes_nothing [OF demo_reachable demo_env_ok, where ctx = CtxCanceled and request = demo_append] demo_reachable
    by (cases "Commit_op demo_env CtxCanceled demo_append demo_store") auto
qed

text \<open>A commit that was answered once leaves a receipt under its key, for the fingerprint of the request.\<close>

lemma Commit_receipt:
  assumes "Commit_op env ctx request st = (Inr c, st')" "store_ok fpt st"
  shows "\<exists>a r. aggregate_of st' (creq_SessionID request) = Some a \<and> agg_idempotency a (creq_IdempotencyKey request) = Some r \<and>
    env_fp env request = Some (mcm_fingerprint r) \<and> c\<lparr>com_Applied := False\<rparr> = (mcm_commit r)\<lparr>com_Applied := False\<rparr>"
  using assms(1) by (cases rule: Commit_cases) auto

lemma Commit_valid:
  assumes "Commit_op env ctx request st = (Inr c, st')"
  shows "CommitRequest_Validate (env_fpt env) request = None"
proof (rule ccontr)
  assume "CommitRequest_Validate (env_fpt env) request \<noteq> None"
  then obtain m where "CommitRequest_Validate (env_fpt env) request = Some m" by auto
  then have "\<exists>e. fst (Commit_op env ctx request st) = Inl e" by (cases "contextErr ctx ''session.commit''") (auto simp: Commit_op_def)
  with assms show False by simp
qed

lemma Commit_on_receipt:
  assumes "aggregate_of st (creq_SessionID request) = Some a" "agg_idempotency a (creq_IdempotencyKey request) = Some r"
    "CommitRequest_Validate (env_fpt env) request = None" "env_fp env request = Some f"
  shows "Commit_op env CtxLive request st = (if mcm_fingerprint r = f then Inr ((mcm_commit r)\<lparr>com_Applied := False\<rparr>)
      else Inl (commit_conflict CodeRevisionConflict ''idempotency key was already used for another request''), st)"
  using assms by (simp add: Commit_op_def contextErr_def)

text \<open>
  C1. Commits are exactly-once: once a request has been answered, repeating it after any further
  operations returns the original receipt marked as not applied and changes nothing.
\<close>

theorem commit_exactly_once:
  assumes "reachable fpt st" "env_ok fpt env" "Commit_op env ctx request st = (Inr c, st')" "(store_step fpt)\<^sup>*\<^sup>* st' st''"
    "env_ok fpt env'" "env_fp env' request = env_fp env request"
  shows "Commit_op env' CtxLive request st'' = (Inr (c\<lparr>com_Applied := False\<rparr>), st'')"
proof -
  have ok: "store_ok fpt st" "store_ok fpt st'" using reachable_store_ok [OF assms(1)] Commit_store_ok [OF assms(3) _ assms(2)] by auto
  obtain a r where a: "aggregate_of st' (creq_SessionID request) = Some a" "agg_idempotency a (creq_IdempotencyKey request) = Some r"
    "env_fp env request = Some (mcm_fingerprint r)" "c\<lparr>com_Applied := False\<rparr> = (mcm_commit r)\<lparr>com_Applied := False\<rparr>"
    using Commit_receipt [OF assms(3) ok(1)] by blast
  obtain b where b: "aggregate_of st'' (creq_SessionID request) = Some b" "advances a b" using steps_advance [OF assms(4) ok(2) a(1)] by blast
  then have "agg_idempotency b (creq_IdempotencyKey request) = Some r" using a(2) by (metis advances_def domI map_le_def)
  moreover have "CommitRequest_Validate (env_fpt env') request = None" using Commit_valid [OF assms(3)] assms(2,5) by (simp add: env_ok_def)
  ultimately show ?thesis using Commit_on_receipt [OF b(1)] a(3,4) assms(6) by simp
qed

theorem commit_exactly_once_witness:
  "Commit_op demo_env CtxLive demo_append demo_store2 = (Inr (demo_receipt\<lparr>com_Applied := False\<rparr>), demo_store2)"
  by (rule commit_exactly_once [OF demo_reachable demo_env_ok demo_commit rtranclp.rtrancl_refl demo_env_ok refl])

text \<open>
  An idempotency key is bound to its request: another valid request under a used key is refused with
  a revision conflict after any further operations, and nothing changes.
\<close>

theorem idempotency_key_reuse:
  assumes "reachable fpt st" "env_ok fpt env" "Commit_op env ctx request st = (Inr c, st')" "(store_step fpt)\<^sup>*\<^sup>* st' st''"
    "env_ok fpt env'" "creq_SessionID other = creq_SessionID request" "creq_IdempotencyKey other = creq_IdempotencyKey request"
    "env_fp env' other = Some f" "env_fp env request \<noteq> Some f" "CommitRequest_Validate fpt other = None"
  shows "Commit_op env' CtxLive other st'' = (Inl (NewCodedError ErrorConflict CodeRevisionConflict ''session.commit''
    ''idempotency key was already used for another request''), st'')"
proof -
  have ok: "store_ok fpt st" "store_ok fpt st'" using reachable_store_ok [OF assms(1)] Commit_store_ok [OF assms(3) _ assms(2)] by auto
  obtain a r where a: "aggregate_of st' (creq_SessionID other) = Some a" "agg_idempotency a (creq_IdempotencyKey other) = Some r"
    "env_fp env request = Some (mcm_fingerprint r)"
    using Commit_receipt [OF assms(3) ok(1)] assms(6,7) by metis
  obtain b where b: "aggregate_of st'' (creq_SessionID other) = Some b" "advances a b" using steps_advance [OF assms(4) ok(2) a(1)] by blast
  then have "agg_idempotency b (creq_IdempotencyKey other) = Some r" using a(2) by (metis advances_def domI map_le_def)
  with Commit_on_receipt [OF b(1) _ _ assms(8)] a(3) assms(5,9,10) show ?thesis by (simp add: env_ok_def)
qed

definition demo_other :: CommitRequest where
  "demo_other = demo_append\<lparr>creq_Changes := creq_Changes demo_append @ creq_Changes demo_append\<rparr>"

theorem idempotency_key_reuse_witness:
  "Commit_op demo_env CtxLive demo_other demo_store2 = (Inl (NewCodedError ErrorConflict CodeRevisionConflict ''session.commit''
     ''idempotency key was already used for another request''), demo_store2)"
proof -
  have "CommitRequest_Validate demo_fpt demo_other = None"
    using demo_message_valid
    by (simp add: CommitRequest_Validate_def demo_other_def demo_append_def Change_Validate_def payloadCount_def no_change_def Let_def required_def
        demo_message_def zero_actor_def)
  then show ?thesis
    by (intro idempotency_key_reuse [OF demo_reachable demo_env_ok demo_commit rtranclp.rtrancl_refl demo_env_ok, where f = "''k1xx''"])
      (simp_all add: demo_other_def demo_append_def demo_env_def)
qed

text \<open>
  No update is lost: after a commit has applied, a commit that still expects the old revision of the
  same Session applies nothing, whatever its key and context: it fails or replays an older receipt, and
  the store is unchanged.
\<close>

theorem no_lost_update:
  assumes "reachable fpt st" "env_ok fpt env" "Commit_op env ctx request st = (Inr c, st')" "com_Applied c"
    "creq_SessionID other = creq_SessionID request" "creq_ExpectedRevision other = creq_ExpectedRevision request"
    "Commit_op env' ctx' other st' = (r, st'')"
  shows "st'' = st' \<and> (\<forall>d. r = Inr d \<longrightarrow> \<not> com_Applied d)"
proof -
  from assms(3) obtain b where 1: "aggregate_of st' (creq_SessionID request) = Some b"
    "snap_Revision (agg_snapshot b) = creq_ExpectedRevision request + 1"
  proof (cases rule: Commit_cases)
    case (applied a fingerprint w u ix x)
    have "env_fpt env = fpt" "stored_ok fpt (creq_SessionID request) a"
      using assms(2) reachable_store_ok [OF assms(1)] applied(1) by (auto simp: env_ok_def store_ok_def)
    then have "extends (agg_snapshot a) w" using Commit_applied_ok(2) applied(5) by metis
    then show ?thesis using applied(4,9) that by (simp add: extends_def)
  qed (use assms(4) in auto)
  from assms(7) show ?thesis
  proof (cases rule: Commit_cases)
    case (applied a' fingerprint w u ix x)
    then have "creq_ExpectedRevision other = creq_ExpectedRevision request + 1" using 1 assms(5) by simp
    with assms(6) show ?thesis by simp
  qed auto
qed

theorem no_lost_update_witness:
  "com_Applied demo_receipt \<and> creq_ExpectedRevision demo_run = creq_ExpectedRevision demo_append \<and>
     snd (Commit_op demo_env CtxLive demo_run demo_store2) = demo_store2"
proof -
  have c: "com_Applied demo_receipt" "creq_SessionID demo_run = creq_SessionID demo_append"
    "creq_ExpectedRevision demo_run = creq_ExpectedRevision demo_append"
    by (simp_all add: demo_receipt_def demo_run_def demo_append_def)
  obtain r st'' where "Commit_op demo_env CtxLive demo_run demo_store2 = (r, st'')" by fastforce
  with no_lost_update [OF demo_reachable demo_env_ok demo_commit c this] c show ?thesis by simp
qed

section \<open>Recovery\<close>

lemma Recover_live:
  assumes "store_ok fpt st" "env_ok fpt env" "aggregate_of st sid = Some a"
  shows "\<exists>c t st' b. recoverAggregate (env_clock env) (env_xclock env) (env_ord env) (agg_snapshot a) = (Inr c, t) \<and>
    Recover env CtxLive sid st = (Inr (if c then bump t else t), st') \<and> aggregate_of st' sid = Some b \<and>
    agg_snapshot b = (if c then bump t else t) \<and> (\<not> c \<longrightarrow> st' = st) \<and> (\<forall>j. j \<noteq> sid \<longrightarrow> aggregate_of st' j = aggregate_of st j)"
proof -
  have ok: "aggregate_ok fpt sid (agg_snapshot a)" using store_aggregate_ok [OF assms(1,3)] .
  then have sid: "validID sid" by (simp add: aggregate_ok_def working_ok_def ident_ok_def)
  obtain c t where R: "recoverAggregate (env_clock env) (env_xclock env) (env_ord env) (agg_snapshot a) = (Inr c, t)" "\<not> c \<longrightarrow> t = agg_snapshot a"
    using recoverAggregate_result [OF ok, of "env_clock env" "env_xclock env" "env_ord env"] assms(2) by (auto simp: env_ok_def)
  obtain u ix where n: "nextUpdatedAt env (ms_list st) (agg_updatedAt a) = (u, ix)" by fastforce
  have w: "with_session CtxLive ''session.recover'' sid st Inr = Inr a" using sid assms(3) by (simp add: with_session_Inr contextErr_def)
  show ?thesis
  proof (cases c)
    case True
    then show ?thesis using R n w by (intro exI [of _ True] exI [of _ t]) (simp add: Recover_def Let_def)
  next
    case False
    then have "t = agg_snapshot a" using R by simp
    then show ?thesis using R False w assms(3) put_same [of st sid a]
      by (intro exI [of _ False] exI [of _ "agg_snapshot a"]) (simp add: Recover_def)
  qed
qed

lemma settled_bump [simp]: "settled (bump t) = settled t"
  by (simp add: settled_def recovered_def recoverable_work_def)

text \<open>
  C3. Recovery always succeeds on an existing Session of a reachable store and settles its unfinished work:
  afterwards no extension invocation and no tool journal entry is pending and every started model attempt has a terminal
  fact. Unless prepared work of the interrupted run remains, the Session is idle with no claimed queue
  item, and if it was running no item is left for steering and a started run has its terminal fact. The
  History before recovery is a prefix of the one after it, and other Sessions are untouched.
\<close>

theorem recover_settles:
  assumes "reachable fpt st" "env_ok fpt env" "aggregate_of st sid = Some a"
  shows "\<exists>s st' b. Recover env CtxLive sid st = (Inr s, st') \<and> aggregate_of st' sid = Some b \<and> agg_snapshot b = s \<and>
    (\<forall>j. j \<noteq> sid \<longrightarrow> aggregate_of st' j = aggregate_of st j) \<and> (\<exists>fs. snap_History s = snap_History (agg_snapshot a) @ fs) \<and>
    (\<forall>e \<in> set (snap_ExtensionJournal s). xj_Status e \<noteq> InvocationPending) \<and>
    (\<forall>e \<in> set (snap_RunJournal s). jrn_Status e \<noteq> JournalPending) \<and>
    set (startedAttempts (snap_History s)) \<subseteq> set (terminalAttempts (snap_History s)) \<and>
    (\<not> recoverable_work (snap_ActiveRunID (agg_snapshot a)) s \<longrightarrow>
       snap_RunState s = RunIdle \<and> (\<forall>q \<in> set (snap_Queue s). qi_ClaimedBy q = '''') \<and>
       (snap_RunState (agg_snapshot a) = RunRunning \<longrightarrow> (\<forall>q \<in> set (snap_Queue s). qi_Delivery q \<noteq> DeliverySteer) \<and>
          (fst (runFacts (snap_History (agg_snapshot a)) (snap_ActiveRunID (agg_snapshot a))) \<noteq> None \<longrightarrow>
             snd (runFacts (snap_History s) (snap_ActiveRunID (agg_snapshot a))) \<noteq> None)))"
proof -
  have ok: "store_ok fpt st" using reachable_store_ok [OF assms(1)] .
  obtain c t st' b where L: "recoverAggregate (env_clock env) (env_xclock env) (env_ord env) (agg_snapshot a) = (Inr c, t)"
    "Recover env CtxLive sid st = (Inr (if c then bump t else t), st')" "aggregate_of st' sid = Some b"
    "agg_snapshot b = (if c then bump t else t)" "\<forall>j. j \<noteq> sid \<longrightarrow> aggregate_of st' j = aggregate_of st j"
    using Recover_live [OF ok assms(2,3)] by blast
  let ?s = "if c then bump t else t"
  have same: "snap_History ?s = snap_History t" "snap_ExtensionJournal ?s = snap_ExtensionJournal t" "snap_RunJournal ?s = snap_RunJournal t"
    "snap_RunState ?s = snap_RunState t" "snap_Queue ?s = snap_Queue t" "recoverable_work i ?s = recoverable_work i t" for i
    by (simp_all add: recoverable_work_def)
  note R = recoverAggregate_result [OF store_aggregate_ok [OF ok assms(3)], of "env_clock env" "env_xclock env" "env_ord env"]
  show ?thesis
    apply (rule exI [of _ ?s], rule exI [of _ st'], rule exI [of _ b])
    unfolding same using L R assms(2) by (auto simp: env_ok_def settled_def recovered_def extends_def)
qed

lemma demo_running_aggregate: "aggregate_of demo_running ''s1'' = Some \<lparr>agg_snapshot = bump ((agg_snapshot demo_aggregate)\<lparr>snap_History := take 1 demo_run_facts\<rparr>),
    agg_idempotency = [''k2'' \<mapsto> \<lparr>mcm_fingerprint = ''k2x'', mcm_commit = demo_receipt\<rparr>], agg_updatedAt = 2\<rparr>"
  by (simp add: demo_running_def)

theorem recover_settles_witness:
  "Recover demo_env CtxLive ''s1'' demo_running = (Inr demo_recovered_snapshot, demo_recovered) \<and>
   (\<exists>fs. snap_History demo_recovered_snapshot = take 1 demo_run_facts @ fs)"
  using recover_settles [OF demo_running_reachable demo_env_ok demo_running_aggregate] demo_recover by auto

text \<open>
  C12. Recovery is idempotent: recovering again right away, in any later environment, returns the same
  snapshot and changes nothing.
\<close>

theorem recover_idempotent:
  assumes "reachable fpt st" "env_ok fpt env" "Recover env ctx sid st = (Inr s, st')" "env_ok fpt env'"
  shows "Recover env' CtxLive sid st' = (Inr s, st')"
proof -
  have ok: "store_ok fpt st" "store_ok fpt st'" using reachable_store_ok [OF assms(1)] Recover_store_ok [OF assms(3) _ assms(2)] by auto
  have "\<exists>b. aggregate_of st' sid = Some b \<and> agg_snapshot b = s \<and> settled s"
    using assms(3)
  proof (cases rule: Recover_cases)
    case (changed a t u ix)
    with recoverAggregate_result [OF store_aggregate_ok [OF ok(1) changed(1)], of "env_clock env" "env_xclock env" "env_ord env"] assms(2)
    show ?thesis by (auto simp: env_ok_def)
  next
    case (unchanged a t)
    with recoverAggregate_result [OF store_aggregate_ok [OF ok(1) unchanged(1)], of "env_clock env" "env_xclock env" "env_ord env"] assms(2)
    show ?thesis by (auto simp: env_ok_def)
  qed auto
  then obtain b where b: "aggregate_of st' sid = Some b" "agg_snapshot b = s" "settled s" by blast
  obtain c t st'' where L: "recoverAggregate (env_clock env') (env_xclock env') (env_ord env') s = (Inr c, t)"
    "Recover env' CtxLive sid st' = (Inr (if c then bump t else t), st'')" "\<not> c \<longrightarrow> st'' = st'"
    using Recover_live [OF ok(2) assms(4) b(1)] b(2) by blast
  have "\<forall>xs. set (env_ord env' xs) = set xs" using assms(4) mset_eq_setD unfolding env_ok_def by blast
  then have "c = False \<and> t = s"
    using recoverAggregate_settled [OF b(3), of sid "env_ord env'" "env_clock env'" "env_xclock env'"] L(1) assms(4)
      store_aggregate_ok [OF ok(2) b(1), unfolded b(2)]
    by (auto simp: env_ok_def aggregate_ok_def working_ok_def)
  with L show ?thesis by simp
qed

theorem recover_idempotent_witness:
  "Recover demo_env CtxLive ''s1'' demo_recovered = (Inr demo_recovered_snapshot, demo_recovered)"
  by (rule recover_idempotent [OF demo_running_reachable demo_env_ok demo_recover demo_env_ok])

end
