(* ===== verification/Session_Gaps.thy ===== *)
theory Session_Gaps
  imports Session_Guarantees
begin

text \<open>
  Two executions that the store accepts although its own consistency rules forbid the result: a pending
  tool execution for a call that no History fact records, and a run that is replaced inside one
  transaction while it still has a prepared tool execution. Both are concrete runs of the model.
\<close>

section \<open>A pending entry without a call\<close>

definition demo_call :: ToolCall where
  "demo_call = \<lparr>call_ID = ''c1'', call_CorrelationID = '''', call_MessageID = ''m1'', call_SessionID = ''s1'', call_RunID = ''r1'',
     call_StepID = ''st1'', call_Name = ''tool'', call_Arguments = ''{}''\<rparr>"

definition demo_entry :: "JournalStatus \<Rightarrow> JournalEntry" where
  "demo_entry status = \<lparr>jrn_RunID = ''r1'', jrn_StepID = ''st1'', jrn_ToolCall = Some demo_call, jrn_ToolResult = None, jrn_Status = status\<rparr>"

definition demo_pending :: CommitRequest where
  "demo_pending = \<lparr>creq_SessionID = ''s1'', creq_ExpectedRevision = 1, creq_IdempotencyKey = ''k3'', creq_Actor = zero_actor,
     creq_Changes = [no_change\<lparr>chg_Kind := UpdateRunJournal, chg_Journal := Some (demo_entry JournalPending)\<rparr>]\<rparr>"

definition demo_pending_snapshot :: Snapshot where
  "demo_pending_snapshot = bump ((agg_snapshot demo_aggregate)\<lparr>snap_RunJournal := [demo_entry JournalPending]\<rparr>)"

definition demo_pending_aggregate :: memoryAggregate where
  "demo_pending_aggregate = \<lparr>agg_snapshot = demo_pending_snapshot,
     agg_idempotency = [''k3'' \<mapsto> \<lparr>mcm_fingerprint = ''k3x'', mcm_commit = demo_receipt\<lparr>com_FirstHistorySequence := 0, com_LastHistorySequence := 0\<rparr>\<rparr>],
     agg_updatedAt = 2\<rparr>"

definition demo_pending_store :: MemoryStore where
  "demo_pending_store = \<lparr>ms_sessions = [(''s1'', demo_pending_aggregate)],
     ms_list = \<lparr>idx_epoch = ''epoch'', idx_generation = 1, idx_created = [''s1'' \<mapsto> 1], idx_lastUpdatedAt = 2\<rparr>\<rparr>"

lemma demo_call_valid: "ToolCall_Valid demo_call"
proof -
  have "jsonvalue_Valid ''{}''" by code_simp
  then show ?thesis by (simp add: ToolCall_Valid_def demo_call_def)
qed

lemma demo_entry_valid: "status = JournalPrepared \<or> status = JournalPending \<Longrightarrow> JournalEntry_Validate (demo_entry status) ''s1'' = None"
  using demo_call_valid by (auto simp: JournalEntry_Validate_def demo_entry_def JournalStatus_Valid_def demo_call_def)

lemma demo_pending_apply: "applyChanges demo_fpt (env_clock demo_env) (agg_snapshot demo_aggregate) demo_pending =
    Inr ((agg_snapshot demo_aggregate)\<lparr>snap_RunJournal := [demo_entry JournalPending]\<rparr>)"
proof -
  let ?c = "no_change\<lparr>chg_Kind := UpdateRunJournal, chg_Journal := Some (demo_entry JournalPending)\<rparr>"
  have v: "Change_Validate demo_fpt ?c ''s1'' = None"
    using demo_entry_valid by (simp add: Change_Validate_def payloadCount_def no_change_def Let_def required_def)
  have t: "validateToolTransactions h [?c] = None" for h
    by (simp add: validateToolTransactions_def toolTransactionCheck_def emptyMessageCheck_def Let_def demo_entry_def
        last_appended_call_def List.map_filter_def appended_calls_def)
  have m: "validateModelConfigTransaction cfg [?c] = None" for cfg
    by (simp add: validateModelConfigTransaction_def)
  show ?thesis
    using v t m demo_entry_valid [of JournalPending]
    by (simp add: applyChanges_def demo_pending_def applyChange_def applyJournal_def is_active_def
        demo_entry_def unfinishedJournal_def finalChecks_def validateQueueClaims_def)
qed

lemma demo_pending_commit: "Commit_op demo_env CtxLive demo_pending demo_store =
    (Inr (demo_receipt\<lparr>com_FirstHistorySequence := 0, com_LastHistorySequence := 0\<rparr>), demo_pending_store)"
proof -
  have v: "CommitRequest_Validate demo_fpt demo_pending = None"
    using demo_entry_valid
    by (simp add: CommitRequest_Validate_def demo_pending_def Change_Validate_def payloadCount_def no_change_def Let_def required_def
        zero_actor_def)
  have e: "env_fpt demo_env = demo_fpt" by (simp add: demo_env_def)
  show ?thesis
    unfolding Commit_op_def e using v demo_pending_apply
    by (simp add: contextErr_def demo_store_def demo_pending_def demo_pending_store_def demo_pending_aggregate_def demo_pending_snapshot_def
        demo_receipt_def demo_env_def bump_def nextUpdatedAt_def ensure_def appendedHistoryRange_def put_aggregate_def Let_def
        demo_aggregate_def newSnapshot_def)
qed

lemma demo_pending_reachable: "reachable demo_fpt demo_pending_store"
  by (rule reachable_step [OF demo_reachable step_commit [OF demo_env_ok demo_pending_commit]])

definition demo_orphan :: HistoryFact where
  "demo_orphan = stamped (env_clock demo_env) [] ''s1'' (zero_fact\<lparr>fact_ToolResult := Some (toolUnknown ''c1'')\<rparr>) zero_actor"

definition demo_orphan_snapshot :: Snapshot where
  "demo_orphan_snapshot = bump (demo_pending_snapshot\<lparr>snap_History := [demo_orphan], snap_RunState := RunIdle, snap_ActiveRunID := '''',
     snap_RunJournal := [(demo_entry JournalPending)\<lparr>jrn_ToolResult := Some (toolUnknown ''c1''), jrn_Status := JournalOutcomeUnknown\<rparr>]\<rparr>)"

lemma demo_orphan_append: "appendHistoryFact (env_clock demo_env) [] ''s1'' (zero_fact\<lparr>fact_ToolResult := Some (toolUnknown ''c1'')\<rparr>) zero_actor = Inr [demo_orphan]"
proof -
  have "ToolResult_Validate (toolUnknown ''c1'') = None" by (simp add: ToolResult_Validate_def toolUnknown_def)
  then show ?thesis
    using appendHistoryFact_succeeds [of "''s1''" "zero_fact\<lparr>fact_ToolResult := Some (toolUnknown ''c1'')\<rparr>" "env_clock demo_env" "[]" zero_actor]
    by (simp add: demo_orphan_def)
qed

lemma demo_orphan_recover: "\<exists>st. Recover demo_env CtxLive ''s1'' demo_pending_store = (Inr demo_orphan_snapshot, st)"
proof -
  have s: "startedAttempts [] = []" "env_ord demo_env [] = []" by (simp_all add: startedAttempts_def attempts_of_def demo_env_def)
  have r: "runFacts [demo_orphan] ''r1'' = (None, None)" by (simp add: runFacts_def demo_orphan_def)
  have h: "\<not> hasToolResult [] ''c1''" by (simp add: hasToolResult_def)
  have R: "recoverAggregate (env_clock demo_env) (env_xclock demo_env) (env_ord demo_env) demo_pending_snapshot =
      (Inr True, demo_pending_snapshot\<lparr>snap_History := [demo_orphan], snap_RunState := RunIdle, snap_ActiveRunID := '''',
        snap_RunJournal := [(demo_entry JournalPending)\<lparr>jrn_ToolResult := Some (toolUnknown ''c1''), jrn_Status := JournalOutcomeUnknown\<rparr>]\<rparr>)"
    using s r h demo_orphan_append
    by (simp add: recoverAggregate_def Let_def recoverExtensions_def finishRecovery_def interruptRun_def recover_append_def append_payload_def
        recoverQueue_def queue_touched_def bump_def demo_pending_snapshot_def recoverJournalEntry_def demo_entry_def demo_call_def)
  then show ?thesis
    by (simp add: Recover_def with_session_def contextErr_def demo_pending_store_def demo_pending_aggregate_def demo_orphan_snapshot_def
        check_def Let_def case_prod_unfold)
qed

text \<open>
  C15. The store accepts a journal update that starts a pending tool execution for a call that was never
  appended to the History. Recovery of that reachable store then appends a tool result without any tool
  call, and the History it produces is one that the consistency scan for new Sessions refuses.
\<close>

theorem orphan_tool_result:
  "reachable demo_fpt demo_pending_store \<and> (\<exists>st. Recover demo_env CtxLive ''s1'' demo_pending_store = (Inr demo_orphan_snapshot, st)) \<and>
   results_of (snap_History demo_orphan_snapshot) = [toolUnknown ''c1''] \<and> calls_of (snap_History demo_orphan_snapshot) = [] \<and>
   validateHistoryConsistency ''s1'' (snap_History demo_orphan_snapshot) (snap_RunJournal demo_orphan_snapshot) \<noteq> None"
proof -
  have p: "validatePayload demo_orphan ''s1'' = None"
    by (simp add: demo_orphan_def ToolResult_Validate_def toolUnknown_def)
  have "validateHistoryConsistency ''s1'' [demo_orphan] js \<noteq> None" for js
  proof -
    have "scanFact ''s1'' scan_init demo_orphan = Inl (historyConflict ''unpaired or duplicate tool result in initial history'')"
      using p by (simp add: scanFact_def scanResult_def scan_init_def demo_orphan_def toolUnknown_def check_def)
    then show ?thesis by (simp add: validateHistoryConsistency_def)
  qed
  then show ?thesis
    using demo_pending_reachable demo_orphan_recover
    by (simp add: demo_orphan_snapshot_def) (simp add: demo_orphan_def)
qed

section \<open>A run replaced within one transaction\<close>

definition demo_assistant :: Message where
  "demo_assistant = demo_message\<lparr>msg_RunID := ''r1'', msg_StepID := ''st1'', msg_Role := RoleAssistant\<rparr>"

definition demo_payloads :: "HistoryFact list" where
  "demo_payloads = [zero_fact\<lparr>fact_Message := Some demo_assistant\<rparr>, zero_fact\<lparr>fact_ToolCall := Some demo_call\<rparr>]"

definition demo_prepared :: NewSession where
  "demo_prepared = (demo_session ''s1'' RunRunning ''r1'')\<lparr>new_History := demo_payloads, new_RunJournal := [demo_entry JournalPrepared]\<rparr>"

definition demo_prepared_history :: "HistoryFact list" where
  "demo_prepared_history = (let f = stamped (env_clock demo_env) [] ''s1'' (demo_payloads ! 0) zero_actor in
     [f, stamped (env_clock demo_env) [f] ''s1'' (demo_payloads ! 1) zero_actor])"

definition demo_prepared_snapshot :: Snapshot where
  "demo_prepared_snapshot = (agg_snapshot demo_aggregate)\<lparr>snap_History := demo_prepared_history, snap_RunJournal := [demo_entry JournalPrepared]\<rparr>"

definition demo_prepared_store :: MemoryStore where
  "demo_prepared_store = \<lparr>ms_sessions = [(''s1'', \<lparr>agg_snapshot = demo_prepared_snapshot, agg_idempotency = Map.empty, agg_updatedAt = 1\<rparr>)],
     ms_list = \<lparr>idx_epoch = ''epoch'', idx_generation = 1, idx_created = [''s1'' \<mapsto> 1], idx_lastUpdatedAt = 1\<rparr>\<rparr>"

lemma demo_assistant_valid: "Message_Valid demo_assistant"
  by (simp add: Message_Valid_def demo_assistant_def demo_message_def Role_Valid_def MessagePart_Valid_def)

lemma demo_payloads_valid:
  "validatePayload (zero_fact\<lparr>fact_Message := Some demo_assistant\<rparr>) ''s1'' = None"
  "validatePayload (zero_fact\<lparr>fact_ToolCall := Some demo_call\<rparr>) ''s1'' = None"
  using demo_assistant_valid demo_call_valid
  by (simp_all add: validatePayload_def fact_payloads_def demo_assistant_def demo_message_def demo_call_def)

lemma demo_prepared_scan: "validateHistoryConsistency ''s1'' demo_payloads [demo_entry JournalPrepared] = None"
  using demo_payloads_valid
  by (simp add: validateHistoryConsistency_def demo_payloads_def scanFact_def scanMessage_def scanCall_def scan_init_def scanJournalEntry_def
      Let_def demo_entry_def demo_call_def demo_assistant_def demo_message_def check_def unfinishedJournal_def jrn_callID_def)

lemma demo_prepared_valid: "validateNewSession demo_prepared = None"
proof -
  have j: "newJournalCheck demo_prepared (demo_entry JournalPrepared) = None"
    using demo_entry_valid by (simp add: newJournalCheck_def demo_prepared_def demo_session_def effective_state_def demo_entry_def)
  then show ?thesis
    using demo_config_valid zero_context_valid [of "''s1''"] demo_prepared_scan demo_payloads_valid
    by (simp add: validateNewSession_def demo_prepared_def demo_session_def forkCheck_def effective_state_def RunState_Valid_def
        duplicateQueueMessage_def zero_context_def Let_def demo_payloads_def)
qed

lemma demo_prepared_appends:
  "prepareInitialHistory (env_clock demo_env) ''s1'' demo_payloads = Inr demo_prepared_history"
proof -
  let ?m = "zero_fact\<lparr>fact_Message := Some demo_assistant\<rparr>" and ?c = "zero_fact\<lparr>fact_ToolCall := Some demo_call\<rparr>"
  have c: "clearEnvelope ?m = ?m" "clearEnvelope ?c = ?c" by (simp_all add: clearEnvelope_def zero_fact_def zero_actor_def)
  show ?thesis
    using appendHistoryFact_succeeds [of "''s1''" ?m "env_clock demo_env" "[]" zero_actor]
      appendHistoryFact_succeeds [of "''s1''" ?c "env_clock demo_env" "[stamped (env_clock demo_env) [] ''s1'' ?m zero_actor]" zero_actor]
      demo_payloads_valid
    by (simp add: prepareInitialHistory_def demo_payloads_def demo_prepared_history_def c Let_def map_error_def)
qed

lemma demo_prepared_create: "Create demo_env CtxLive demo_prepared NewMemoryStore = (Inr demo_prepared_snapshot, demo_prepared_store)"
proof -
  have n: "newSnapshot demo_prepared demo_prepared_history = demo_prepared_snapshot"
    by (simp add: newSnapshot_def demo_prepared_def demo_prepared_snapshot_def demo_aggregate_def demo_session_def)
  have f: "ses_ID (new_Session demo_prepared) = ''s1''" "new_History demo_prepared = demo_payloads"
    by (simp_all add: demo_prepared_def demo_session_def)
  show ?thesis
    using demo_prepared_valid demo_prepared_appends n f
    by (simp add: Create_def contextErr_def NewMemoryStore_def demo_prepared_store_def put_aggregate_def recordCreate_def
        nextUpdatedAt_def ensure_def index_init_def Let_def) (simp add: demo_env_def)
qed

lemma demo_prepared_reachable: "reachable demo_fpt demo_prepared_store"
  by (rule reachable_step [OF reachable_new step_create [OF demo_env_ok demo_prepared_create]])

definition demo_swap :: CommitRequest where
  "demo_swap = \<lparr>creq_SessionID = ''s1'', creq_ExpectedRevision = 1, creq_IdempotencyKey = ''k4'', creq_Actor = zero_actor,
     creq_Changes = [no_change\<lparr>chg_Kind := SetRunState, chg_RunState := Some \<lparr>rsc_RunID = ''r1'', rsc_State = RunIdle\<rparr>\<rparr>,
                     no_change\<lparr>chg_Kind := SetRunState, chg_RunState := Some \<lparr>rsc_RunID = ''r2'', rsc_State = RunRunning\<rparr>\<rparr>]\<rparr>"

definition demo_swapped_aggregate :: memoryAggregate where
  "demo_swapped_aggregate = \<lparr>agg_snapshot = bump (demo_prepared_snapshot\<lparr>snap_ActiveRunID := ''r2''\<rparr>),
     agg_idempotency = [''k4'' \<mapsto> \<lparr>mcm_fingerprint = ''k4xx'', mcm_commit = demo_receipt\<lparr>com_FirstHistorySequence := 0, com_LastHistorySequence := 0\<rparr>\<rparr>],
     agg_updatedAt = 2\<rparr>"

definition demo_swapped_store :: MemoryStore where
  "demo_swapped_store = \<lparr>ms_sessions = [(''s1'', demo_swapped_aggregate)],
     ms_list = \<lparr>idx_epoch = ''epoch'', idx_generation = 1, idx_created = [''s1'' \<mapsto> 1], idx_lastUpdatedAt = 2\<rparr>\<rparr>"

definition demo_stuck_snapshot :: Snapshot where
  "demo_stuck_snapshot = bump (bump (demo_prepared_snapshot\<lparr>snap_RunState := RunIdle, snap_ActiveRunID := ''''\<rparr>))"

lemma demo_prepared_fields [simp]:
  "snap_RunState demo_prepared_snapshot = RunRunning" "snap_ActiveRunID demo_prepared_snapshot = ''r1''" "snap_Queue demo_prepared_snapshot = []"
  "snap_RunJournal demo_prepared_snapshot = [demo_entry JournalPrepared]" "snap_History demo_prepared_snapshot = demo_prepared_history"
  "snap_ExtensionJournal demo_prepared_snapshot = []" "ses_ID (snap_Session demo_prepared_snapshot) = ''s1''"
  "snap_Revision demo_prepared_snapshot = 1"
  by (simp_all add: demo_prepared_snapshot_def)

lemma demo_swap_valid:
  "Change_Validate demo_fpt (no_change\<lparr>chg_Kind := SetRunState, chg_RunState := Some \<lparr>rsc_RunID = ''r1'', rsc_State = RunIdle\<rparr>\<rparr>) ''s1'' = None"
  "Change_Validate demo_fpt (no_change\<lparr>chg_Kind := SetRunState, chg_RunState := Some \<lparr>rsc_RunID = ''r2'', rsc_State = RunRunning\<rparr>\<rparr>) ''s1'' = None"
  by (simp_all add: Change_Validate_def payloadCount_def no_change_def Let_def required_def RunState_Valid_def)

lemma demo_swap_apply: "applyChanges demo_fpt (env_clock demo_env) demo_prepared_snapshot demo_swap =
    Inr (demo_prepared_snapshot\<lparr>snap_ActiveRunID := ''r2''\<rparr>)"
proof -
  have t: "validateToolTransactions h (creq_Changes demo_swap) = None" for h
    by (simp add: validateToolTransactions_def toolTransactionCheck_def emptyMessageCheck_def demo_swap_def)
  have m: "validateModelConfigTransaction cfg (creq_Changes demo_swap) = None" for cfg
    by (simp add: validateModelConfigTransaction_def demo_swap_def)
  have u: "demo_prepared_snapshot\<lparr>snap_RunState := RunRunning, snap_ActiveRunID := ''r2''\<rparr> = demo_prepared_snapshot\<lparr>snap_ActiveRunID := ''r2''\<rparr>"
    by (simp add: demo_prepared_snapshot_def demo_aggregate_def newSnapshot_def demo_session_def effective_state_def)
  show ?thesis
    using demo_swap_valid t m u
    by (simp add: applyChanges_def) (simp add: demo_swap_def applyChange_def applyRunState_def is_active_def finalChecks_def validateQueueClaims_def)
qed

lemma demo_swap_commit: "Commit_op demo_env CtxLive demo_swap demo_prepared_store =
    (Inr (demo_receipt\<lparr>com_FirstHistorySequence := 0, com_LastHistorySequence := 0\<rparr>), demo_swapped_store)"
proof -
  have v: "CommitRequest_Validate demo_fpt demo_swap = None"
    using demo_swap_valid by (simp add: CommitRequest_Validate_def demo_swap_def zero_actor_def)
  have e: "env_fpt demo_env = demo_fpt" by (simp add: demo_env_def)
  have r: "creq_SessionID demo_swap = ''s1''" "creq_IdempotencyKey demo_swap = ''k4''" "creq_ExpectedRevision demo_swap = 1"
    "env_fp demo_env demo_swap = Some ''k4xx''"
    by (simp_all add: demo_swap_def demo_env_def)
  show ?thesis
    unfolding Commit_op_def e using v demo_swap_apply r
    by (simp add: contextErr_def demo_prepared_store_def demo_swapped_store_def demo_swapped_aggregate_def
        demo_receipt_def bump_def nextUpdatedAt_def ensure_def appendedHistoryRange_def put_aggregate_def Let_def) (simp add: demo_env_def)
qed

lemma demo_swapped_reachable: "reachable demo_fpt demo_swapped_store"
  by (rule reachable_step [OF demo_prepared_reachable step_commit [OF demo_env_ok demo_swap_commit]])

lemma demo_stuck_recover: "\<exists>st. Recover demo_env CtxLive ''s1'' demo_swapped_store = (Inr demo_stuck_snapshot, st)"
proof -
  have s: "startedAttempts demo_prepared_history = []" "env_ord demo_env [] = []"
    by (simp_all add: startedAttempts_def attempts_of_def demo_env_def demo_prepared_history_def demo_payloads_def Let_def)
  have r: "runFacts demo_prepared_history ''r2'' = (None, None)" by (simp add: runFacts_def demo_prepared_history_def demo_payloads_def Let_def)
  have R: "recoverAggregate (env_clock demo_env) (env_xclock demo_env) (env_ord demo_env) (agg_snapshot demo_swapped_aggregate) =
      (Inr True, bump (demo_prepared_snapshot\<lparr>snap_RunState := RunIdle, snap_ActiveRunID := ''''\<rparr>))"
    using s r
    by (simp add: recoverAggregate_def Let_def recoverExtensions_def finishRecovery_def interruptRun_def
        recoverQueue_def queue_touched_def demo_swapped_aggregate_def recoverJournalEntry_def demo_entry_def)
      (simp add: bump_def demo_prepared_snapshot_def demo_aggregate_def newSnapshot_def demo_entry_def demo_session_def)
  then show ?thesis
    by (simp add: Recover_def with_session_def contextErr_def demo_swapped_store_def demo_stuck_snapshot_def check_def Let_def case_prod_unfold)
qed

text \<open>
  The rule that an idle Session retains no unfinished tool execution is checked by commits only on the
  final state of a transaction: a transaction that ends one run and starts another leaves the prepared
  entry of the first run, recovery then makes the Session idle with that entry still unfinished, and every
  later commit that leaves the Session idle is refused, so the entry can never be settled while idle.
\<close>

theorem recovered_idle_with_unfinished_journal:
  "reachable demo_fpt demo_swapped_store \<and> (\<exists>st. Recover demo_env CtxLive ''s1'' demo_swapped_store = (Inr demo_stuck_snapshot, st)) \<and>
   snap_RunState demo_stuck_snapshot = RunIdle \<and> hasUnfinishedJournal (snap_RunJournal demo_stuck_snapshot) \<and>
   (\<nexists>fpt clock s request t. applyChanges fpt clock s request = Inr t \<and> snap_RunState t = RunIdle \<and> hasUnfinishedJournal (snap_RunJournal t))"
  using demo_swapped_reachable demo_stuck_recover
  by (auto simp: demo_stuck_snapshot_def hasUnfinishedJournal_def demo_entry_def unfinishedJournal_def applyChanges_def finalChecks_def)

end
