(* ===== verification/Journal_Progress.thy ===== *)
theory Journal_Progress
  imports Session_Guarantees
begin

text \<open>
  Progress of the two journals of a Session (\<^verbatim>\<open>applyJournal\<close>, \<^verbatim>\<open>applyExtensionJournal\<close> and the recovery of
  both): every accepted update is a forward move in a preorder, so entries are never lost, reopened or
  changed after the fact, and an invocation is updated a bounded number of times.
\<close>

section \<open>Forward moves of one entry\<close>

text \<open>A tool execution: its identity is fixed, it goes from prepared to pending to a terminal outcome, and a
  terminal entry never changes.\<close>

definition journal_rank :: "JournalStatus \<Rightarrow> nat" where
  "journal_rank st = (if st = JournalPrepared then 0 else if st = JournalPending then 1 else 2)"

definition entry_moves :: "JournalEntry \<Rightarrow> JournalEntry \<Rightarrow> bool" where
  "entry_moves e f \<longleftrightarrow> jrn_RunID f = jrn_RunID e \<and> jrn_StepID f = jrn_StepID e \<and> jrn_ToolCall f = jrn_ToolCall e \<and>
     journal_rank (jrn_Status e) \<le> journal_rank (jrn_Status f) \<and> (journal_rank (jrn_Status e) = 2 \<longrightarrow> f = e)"

text \<open>An extension invocation: the rank counts status, applied or discarded effect, and consumed or discarded context.\<close>

definition invocation_rank :: "ExtensionJournalEntry \<Rightarrow> nat" where
  "invocation_rank e = (if xj_Status e = InvocationPrepared then 0 else if xj_Status e = InvocationPending then 1
     else 2 + (if xj_EffectDisposition e = EffectPending then 0 else 1) + (if xj_ContextDisposition e = ContextPending then 0 else 1))"

definition invocation_moves :: "ExtensionJournalEntry \<Rightarrow> ExtensionJournalEntry \<Rightarrow> bool" where
  "invocation_moves e f \<longleftrightarrow> sameExtensionIdentity e f \<and> (f = e \<or> invocation_rank e < invocation_rank f) \<and>
     (InvocationStatus_Terminal (xj_Status e) \<longrightarrow> xj_Status f = xj_Status e \<and> sameExtensionTerminalOutcome e f) \<and>
     (InvocationStatus_Terminal (xj_Status e) \<and> xj_EffectDisposition e \<noteq> EffectPending \<longrightarrow> xj_EffectDisposition f = xj_EffectDisposition e) \<and>
     (InvocationStatus_Terminal (xj_Status e) \<and> xj_ContextDisposition e \<noteq> ContextPending \<longrightarrow> xj_ContextDisposition f = xj_ContextDisposition e)"

definition list_moves :: "('a \<Rightarrow> 'a \<Rightarrow> bool) \<Rightarrow> 'a list \<Rightarrow> 'a list \<Rightarrow> bool" where
  "list_moves R xs ys \<longleftrightarrow> length xs \<le> length ys \<and> (\<forall>i < length xs. R (xs ! i) (ys ! i))"

text \<open>Both relations are preorders; their lists inherit that, which the loops below use.\<close>

locale move_order =
  fixes moves :: "'a \<Rightarrow> 'a \<Rightarrow> bool"
  assumes moves_refl: "moves x x"
    and moves_trans: "moves x y \<Longrightarrow> moves y z \<Longrightarrow> moves x z"
begin

lemma list_refl: "list_moves moves xs xs"
  by (simp add: list_moves_def moves_refl)

lemma list_trans: "list_moves moves xs ys \<Longrightarrow> list_moves moves ys zs \<Longrightarrow> list_moves moves xs zs"
  unfolding list_moves_def by (meson le_trans less_le_trans moves_trans)

lemma list_append: "list_moves moves xs (xs @ ys)"
  by (simp add: list_moves_def nth_append moves_refl)

lemma list_update: "moves (xs ! n) y \<Longrightarrow> list_moves moves xs (xs[n := y])"
  by (cases "n < length xs") (auto simp: list_moves_def nth_list_update moves_refl)

end

lemma sameExtensionIdentity_trans: "sameExtensionIdentity a b \<Longrightarrow> sameExtensionIdentity b c \<Longrightarrow> sameExtensionIdentity a c"
  by (simp add: sameExtensionIdentity_def)

lemma sameExtensionTerminalOutcome_trans:
  "sameExtensionTerminalOutcome a b \<Longrightarrow> sameExtensionTerminalOutcome b c \<Longrightarrow> sameExtensionTerminalOutcome a c"
  by (simp add: sameExtensionTerminalOutcome_def)

interpretation entry_order: move_order entry_moves
proof
  fix x show "entry_moves x x" by (simp add: entry_moves_def)
next
  fix x y z assume xy: "entry_moves x y" and yz: "entry_moves y z"
  then have "journal_rank (jrn_Status x) = 2 \<longrightarrow> z = x" by (auto simp: entry_moves_def)
  with xy yz show "entry_moves x z" by (simp add: entry_moves_def)
qed

interpretation invocation_order: move_order invocation_moves
proof
  fix x show "invocation_moves x x"
    by (simp add: invocation_moves_def sameExtensionIdentity_def sameExtensionTerminalOutcome_def)
next
  fix x y z assume xy: "invocation_moves x y" and yz: "invocation_moves y z"
  note m = xy [unfolded invocation_moves_def] yz [unfolded invocation_moves_def]
  have r: "z = x \<or> invocation_rank x < invocation_rank z" using m by (elim conjE disjE) simp_all
  have st: "xj_Status z = xj_Status x" "sameExtensionTerminalOutcome x z" if "InvocationStatus_Terminal (xj_Status x)"
    using m that sameExtensionTerminalOutcome_trans [of x y z] by simp_all
  have e: "xj_EffectDisposition z = xj_EffectDisposition x" if "InvocationStatus_Terminal (xj_Status x)" "xj_EffectDisposition x \<noteq> EffectPending"
    using m that by simp
  have c: "xj_ContextDisposition z = xj_ContextDisposition x" if "InvocationStatus_Terminal (xj_Status x)" "xj_ContextDisposition x \<noteq> ContextPending"
    using m that by simp
  have "sameExtensionIdentity x z" using m sameExtensionIdentity_trans by blast
  with r st e c show "invocation_moves x z" unfolding invocation_moves_def by blast
qed

section \<open>Updates are moves\<close>

lemma JournalEntry_call_same: "\<not> identity_changed current entry \<Longrightarrow> jrn_RunID entry = jrn_RunID current \<and> jrn_StepID entry = jrn_StepID current"
  by (simp add: identity_changed_def)

lemma advanceJournal_moves:
  assumes "advanceJournal current entry = Inr e"
  shows "entry_moves current e"
  using assms by (auto simp: advanceJournal_def entry_moves_def journal_rank_def unfinishedJournal_def split: if_splits option.splits)

lemma applyJournal_moves:
  "applyJournal s entry sid = Inr t \<Longrightarrow> list_moves entry_moves (snap_RunJournal s) (snap_RunJournal t)"
  by (auto simp: applyJournal_def split: option.splits intro!: entry_order.list_append entry_order.list_update advanceJournal_moves)

lemma status_terminal: "InvocationStatus_Valid st \<Longrightarrow> InvocationStatus_Terminal st \<longleftrightarrow> st \<noteq> InvocationPrepared \<and> st \<noteq> InvocationPending"
  by (cases st) (auto simp: InvocationStatus_Valid_def InvocationStatus_Terminal_def)

lemma transition_moves:
  assumes "validateExtensionTransition e f = None" "sameExtensionIdentity e f" "InvocationStatus_Valid (xj_Status e)"
    "ContextDisposition_Valid (xj_ContextDisposition e)"
  shows "invocation_moves e f \<and> invocation_rank e < invocation_rank f"
proof (cases "xj_Status e = InvocationPrepared \<or> xj_Status e = InvocationPending")
  case True
  then show ?thesis using assms
    by (auto simp: validateExtensionTransition_def invocation_moves_def invocation_rank_def InvocationStatus_Terminal_def split: if_splits InvocationStatus.splits)
next
  case False
  then have t: "InvocationStatus_Terminal (xj_Status e)" using status_terminal assms(3) by blast
  have tr: "xj_Status f = xj_Status e" "sameExtensionTerminalOutcome e f" "effectTransition (xj_EffectDisposition e) (xj_EffectDisposition f) = None"
    "contextTransition e f = None" "xj_EffectDisposition e = xj_EffectDisposition f \<longrightarrow> xj_ContextDisposition e \<noteq> xj_ContextDisposition f"
    using False assms(1) by (auto simp: validateExtensionTransition_def)
  have eff: "xj_EffectDisposition e \<noteq> EffectPending \<longrightarrow> xj_EffectDisposition f = xj_EffectDisposition e"
    using tr(3) by (cases "xj_EffectDisposition e") (auto simp: effectTransition_def)
  have ctx: "xj_ContextDisposition e \<noteq> ContextPending \<longrightarrow> xj_ContextDisposition f = xj_ContextDisposition e"
    using tr(4) assms(4) by (cases "xj_ContextDisposition e") (auto simp: contextTransition_def ContextDisposition_Valid_def)
  have "invocation_rank e < invocation_rank f" using False tr(1,5) eff ctx by (cases "xj_ContextDisposition e = ContextPending") (auto simp: invocation_rank_def)
  then show ?thesis using assms(2) tr(1,2) eff ctx by (simp add: invocation_moves_def)
qed

lemma applyExtensionJournal_moves:
  assumes "applyExtensionJournal fpt sid j x = Inr j'" "ext_ok fpt sid j"
  shows "list_moves invocation_moves j j'"
  using assms(1)
proof (cases rule: applyExtensionJournal_cases)
  case new then show ?thesis using invocation_order.list_append by simp
next
  case (update n)
  have "ExtensionJournalEntry_Validate fpt (j ! n) sid = None" using assms(2) update(2) by (simp add: ext_ok_def)
  then have "InvocationStatus_Valid (xj_Status (j ! n))" "ContextDisposition_Valid (xj_ContextDisposition (j ! n))"
    by (auto simp: ExtensionJournalEntry_Validate_def)
  then show ?thesis using transition_moves update(4,5,6) invocation_order.list_update by blast
qed

section \<open>Transactions and recovery are moves\<close>

definition journals_move :: "Snapshot \<Rightarrow> Snapshot \<Rightarrow> bool" where
  "journals_move s t \<longleftrightarrow> list_moves entry_moves (snap_RunJournal s) (snap_RunJournal t) \<and>
     list_moves invocation_moves (snap_ExtensionJournal s) (snap_ExtensionJournal t)"

lemma journals_move_refl [simp]: "journals_move s s"
  by (simp add: journals_move_def entry_order.list_refl invocation_order.list_refl)

lemma journals_move_trans: "journals_move s t \<Longrightarrow> journals_move t u \<Longrightarrow> journals_move s u"
  unfolding journals_move_def using entry_order.list_trans invocation_order.list_trans by blast

lemma journals_move_same:
  "snap_RunJournal t = snap_RunJournal s \<Longrightarrow> snap_ExtensionJournal t = snap_ExtensionJournal s \<Longrightarrow> journals_move s t"
  by (simp add: journals_move_def entry_order.list_refl invocation_order.list_refl)

lemma append_payload_journals:
  "append_payload clock wrap sid actor s f = Inr t \<Longrightarrow> snap_RunJournal t = snap_RunJournal s \<and> snap_ExtensionJournal t = snap_ExtensionJournal s"
  by (auto simp: append_payload_def split: sum.splits)

text \<open>Every change except the two journal updates leaves both journals as they are.\<close>

lemma applyChange_same_journals:
  assumes "applyChange fpt clock request s c = Inr t" "chg_Kind c \<noteq> UpdateRunJournal" "chg_Kind c \<noteq> UpdateExtensionJournal"
  shows "snap_RunJournal t = snap_RunJournal s \<and> snap_ExtensionJournal t = snap_ExtensionJournal s"
  using assms unfolding applyChange_def
  by (cases "chg_Kind c") (auto simp: appendMessage_def appendToolCall_def appendToolResult_def appendRunFact_def appendModelAttemptFact_def
      appendContextContributionFact_def appendRunBudgetExceededFact_def appendRunLimitExceededFact_def appendSessionEvent_def
      enqueueMessage_def claimQueue_def consumeQueue_def editQueue_def deleteQueue_def reclassifyQueue_def with_item_def
      setContext_def setModelConfig_def applyRunState_def split: option.splits RunState.splits prod.splits dest!: append_payload_journals)

lemma applyChange_moves:
  assumes "applyChange fpt clock request s c = Inr t" "working_ok fpt (creq_SessionID request) s"
  shows "journals_move s t"
proof (cases "chg_Kind c = UpdateRunJournal \<or> chg_Kind c = UpdateExtensionJournal")
  case False
  then show ?thesis using applyChange_same_journals [OF assms(1)] journals_move_same by blast
next
  case True
  then show ?thesis
  proof
    assume u: "chg_Kind c = UpdateRunJournal"
    with assms(1) have a: "applyJournal s (the (chg_Journal c)) (creq_SessionID request) = Inr t" by (simp add: applyChange_def)
    then have "snap_ExtensionJournal t = snap_ExtensionJournal s" by (auto simp: applyJournal_def split: option.splits)
    with applyJournal_moves [OF a] show ?thesis by (simp add: journals_move_def invocation_order.list_refl)
  next
    assume u: "chg_Kind c = UpdateExtensionJournal"
    have "ext_ok fpt (ses_ID (snap_Session s)) (snap_ExtensionJournal s)" using assms(2) by (simp add: working_ok_def ident_ok_def)
    with u assms(1) show ?thesis
      by (auto simp: applyChange_def journals_move_def entry_order.list_refl intro: applyExtensionJournal_moves)
  qed
qed

interpretation jx: loop_step "applyChange fpt clock request" "\<lambda>c. Change_Validate fpt c (creq_SessionID request) = None"
  "working_ok fpt (creq_SessionID request)" journals_move for fpt clock request
  by unfold_locales (auto dest: applyChange_keeps applyChange_moves intro: journals_move_trans simp: keeps_def)

lemma applyChanges_moves:
  assumes "applyChanges fpt clock s request = Inr t" "working_ok fpt (creq_SessionID request) s"
  shows "journals_move s t"
  using assms by (intro jx.loop_rel [of fpt clock request s "creq_Changes request" t]) (auto simp: applyChanges_def)

text \<open>Recovery: pending invocations and pending tool executions get their unknown outcome.\<close>

lemma recoverExtension_moves: "InvocationStatus_Valid (xj_Status e) \<Longrightarrow> ContextDisposition_Valid (xj_ContextDisposition e) \<Longrightarrow>
    invocation_moves e (recoverExtension now e)"
proof (cases "xj_Status e = InvocationPending")
  case True
  assume "InvocationStatus_Valid (xj_Status e)" "ContextDisposition_Valid (xj_ContextDisposition e)"
  then show ?thesis using True
    by (intro conjunct1 [OF transition_moves]) (auto simp: recoverExtension_def validateExtensionTransition_def sameExtensionIdentity_def InvocationStatus_Terminal_def)
next
  case False
  then show ?thesis by (simp add: recoverExtension_def invocation_order.moves_refl)
qed

lemma recoverExtensions_moves: "ext_ok fpt sid xs \<Longrightarrow> list_moves invocation_moves xs (recoverExtensions xclock xs)"
  by (auto simp: list_moves_def recoverExtensions_nth ext_ok_def ExtensionJournalEntry_Validate_def intro!: recoverExtension_moves)

lemma recover_append_journals:
  "recover_append clock m s f = (r, t) \<Longrightarrow> snap_RunJournal t = snap_RunJournal s \<and> snap_ExtensionJournal t = snap_ExtensionJournal s"
  by (auto simp: recover_append_def split: sum.splits dest: append_payload_journals)

lemma foldS_rel:
  assumes "\<And>s x r t. f s x = (r, t) \<Longrightarrow> R s t" "\<And>s. R s s" "\<And>s t u. R s t \<Longrightarrow> R t u \<Longrightarrow> R s u"
  shows "foldS f s xs = (r, t) \<Longrightarrow> R s t"
proof (induction xs arbitrary: s)
  case Nil then show ?case using assms(2) by simp
next
  case (Cons x xs)
  obtain q u where q: "f s x = (q, u)" by fastforce
  then show ?case using Cons assms(1) [OF q] assms(3) by (cases q) auto
qed

lemma terminateAttempt_moves: "terminateAttempt clock h st i = (r, st') \<Longrightarrow> journals_move (fst st) (fst st')"
  by (auto simp: terminateAttempt_def split: if_splits prod.splits option.splits dest: recover_append_journals intro!: journals_move_same)

lemma recoverJournalEntry_moves: "recoverJournalEntry clock run st i = (r, st') \<Longrightarrow> journals_move (fst st) (fst st')"
proof (cases st)
  case (fields s p c)
  assume run: "recoverJournalEntry clock run st i = (r, st')"
  show ?thesis
  proof (cases "jrn_ToolCall (snap_RunJournal s ! i) = None \<or> jrn_Status (snap_RunJournal s ! i) \<noteq> JournalPending")
    case True
    then have "fst st' = s" using run fields by (auto simp: recoverJournalEntry_def Let_def split: option.splits if_splits)
    then show ?thesis using fields by simp
  next
    case False
    then obtain call where call: "jrn_ToolCall (snap_RunJournal s ! i) = Some call" "jrn_Status (snap_RunJournal s ! i) = JournalPending" by auto
    let ?e = "snap_RunJournal s ! i"
    let ?f = "?e\<lparr>jrn_ToolResult := Some (toolUnknown (call_ID call)), jrn_Status := JournalOutcomeUnknown\<rparr>"
    have m: "entry_moves ?e ?f" using call by (simp add: entry_moves_def journal_rank_def)
    have "snap_ExtensionJournal (fst st') = snap_ExtensionJournal s \<and>
        (snap_RunJournal (fst st') = snap_RunJournal s \<or> snap_RunJournal (fst st') = (snap_RunJournal s)[i := ?f])"
      using run fields call by (auto simp: recoverJournalEntry_def Let_def split: option.splits if_splits prod.splits dest!: recover_append_journals)
    then show ?thesis using fields m by (auto simp: journals_move_def entry_order.list_refl invocation_order.list_refl intro: entry_order.list_update)
  qed
qed

lemma interruptRun_journals: "interruptRun clock i s = (r, t) \<Longrightarrow> snap_RunJournal t = snap_RunJournal s \<and> snap_ExtensionJournal t = snap_ExtensionJournal s"
  by (auto simp: interruptRun_def Let_def split: prod.splits option.splits dest!: recover_append_journals)

lemma finishRecovery_moves: "finishRecovery clock i p c s = (r, t) \<Longrightarrow> journals_move s t"
  by (auto simp: finishRecovery_def Let_def split: prod.splits option.splits if_splits dest!: interruptRun_journals intro!: journals_move_same)

text \<open>A reflexive and transitive relation that every part of the recovery respects holds of the whole recovery.\<close>

lemma recoverAggregate_rel:
  assumes run: "recoverAggregate clock xclock ord s = (r, t)"
    and ext: "R s (s\<lparr>snap_ExtensionJournal := recoverExtensions xclock (snap_ExtensionJournal s)\<rparr>)"
    and attempt: "\<And>h st i r st'. terminateAttempt clock h st i = (r, st') \<Longrightarrow> R (fst st) (fst st')"
    and journal: "\<And>run st i r st'. recoverJournalEntry clock run st i = (r, st') \<Longrightarrow> R (fst st) (fst st')"
    and finish: "\<And>i p c s r t. finishRecovery clock i p c s = (r, t) \<Longrightarrow> R s t"
    and refl: "\<And>s. R s s" and trans: "\<And>s t u. R s t \<Longrightarrow> R t u \<Longrightarrow> R s u"
  shows "R s t"
proof -
  let ?s1 = "s\<lparr>snap_ExtensionJournal := recoverExtensions xclock (snap_ExtensionJournal s)\<rparr>"
  let ?c = "\<exists>e \<in> set (snap_ExtensionJournal s). xj_Status e = InvocationPending"
  obtain r2 s2 c2 where l1: "foldS (terminateAttempt clock (snap_History s)) (?s1, ?c) (ord (startedAttempts (snap_History s))) = (r2, s2, c2)"
    by (metis prod_cases3)
  have "R (fst (?s1, ?c)) (fst (s2, c2))" by (rule foldS_rel [where R = "\<lambda>x y. R (fst x) (fst y)", OF _ _ _ l1]) (auto dest: attempt intro: refl trans)
  then have 2: "R s s2" using ext trans by auto
  obtain r3 s3 p c3 where l2: "foldS (recoverJournalEntry clock (snap_ActiveRunID s)) (s2, False, c2) [0..<length (snap_RunJournal s2)] = (r3, s3, p, c3)"
    by (metis prod_cases4)
  have "R (fst (s2, False, c2)) (fst (s3, p, c3))" by (rule foldS_rel [where R = "\<lambda>x y. R (fst x) (fst y)", OF _ _ _ l2]) (auto dest: journal intro: refl trans)
  then have 3: "R s s3" using 2 trans by auto
  have "recoverAggregate clock xclock ord s = (case r2 of Some e \<Rightarrow> (Inl e, s2)
      | None \<Rightarrow> (case r3 of Some e \<Rightarrow> (Inl e, s3) | None \<Rightarrow> finishRecovery clock (snap_ActiveRunID s) p c3 s3))"
    by (simp only: recoverAggregate_def Let_def l1 l2 prod.case)
  then show ?thesis using run 2 3 finish [of "snap_ActiveRunID s" p c3 s3 r t] trans by (auto split: option.splits)
qed

lemma recoverAggregate_moves:
  assumes "recoverAggregate clock xclock ord s = (r, t)" "ext_ok fpt sid (snap_ExtensionJournal s)"
  shows "journals_move s t"
proof (rule recoverAggregate_rel [where R = journals_move, OF assms(1)])
  show "journals_move s (s\<lparr>snap_ExtensionJournal := recoverExtensions xclock (snap_ExtensionJournal s)\<rparr>)"
    using recoverExtensions_moves [OF assms(2)] by (simp add: journals_move_def entry_order.list_refl)
qed (auto dest: terminateAttempt_moves recoverJournalEntry_moves finishRecovery_moves intro: journals_move_trans)

section \<open>Executions in the store\<close>

lemma journals_move_bump [simp]: "journals_move s (bump t) = journals_move s t"
  by (simp add: journals_move_def)

lemma step_moves:
  assumes "store_step fpt st st'" "store_ok fpt st" "aggregate_of st i = Some a"
  shows "\<exists>b. aggregate_of st' i = Some b \<and> journals_move (agg_snapshot a) (agg_snapshot b)"
  using assms(1)
proof (rule store_stepE)
  fix env ctx n r assume "Create env ctx n st = (r, st')"
  then show ?thesis using Create_other assms(3) journals_move_refl by blast
next
  fix env ctx query r assume "ListSessions env ctx query st = (r, st')"
  then show ?thesis using ListSessions_sessions assms(3) journals_move_refl by metis
next
  fix env ctx request r assume env: "env_ok fpt env" and c: "Commit_op env ctx request st = (r, st')"
  from c show ?thesis
  proof (cases rule: Commit_cases)
    case (applied a' fingerprint w u ix d)
    have "env_fpt env = fpt" using env by (simp add: env_ok_def)
    moreover have "working_ok fpt (creq_SessionID request) (agg_snapshot a')"
      using store_aggregate_ok [OF assms(2) applied(1)] by (simp add: aggregate_ok_def)
    ultimately have "journals_move (agg_snapshot a') w" using applyChanges_moves applied(5) by metis
    then show ?thesis using applied(1,9) assms(3) by auto
  qed (use assms(3) journals_move_refl in auto)
next
  fix env ctx sid r assume "Recover env ctx sid st = (r, st')"
  then show ?thesis
  proof (cases rule: Recover_cases)
    case missing then show ?thesis using assms(3) journals_move_refl by blast
  next
    case (failed a' e s)
    have "ext_ok fpt sid (snap_ExtensionJournal (agg_snapshot a'))"
      using store_aggregate_ok [OF assms(2) failed(1)] by (simp add: aggregate_ok_def working_ok_def)
    from recoverAggregate_moves [OF failed(2) this] show ?thesis using failed(1,4) assms(3) by auto
  next
    case (changed a' s u ix)
    have "ext_ok fpt sid (snap_ExtensionJournal (agg_snapshot a'))"
      using store_aggregate_ok [OF assms(2) changed(1)] by (simp add: aggregate_ok_def working_ok_def)
    from recoverAggregate_moves [OF changed(2) this] show ?thesis using changed(1,5) assms(3) by auto
  next
    case (unchanged a' s)
    have "ext_ok fpt sid (snap_ExtensionJournal (agg_snapshot a'))"
      using store_aggregate_ok [OF assms(2) unchanged(1)] by (simp add: aggregate_ok_def working_ok_def)
    from recoverAggregate_moves [OF unchanged(2) this] show ?thesis using unchanged(1,4) assms(3) by auto
  qed
qed

lemma steps_move:
  "(store_step fpt)\<^sup>*\<^sup>* st st' \<Longrightarrow> store_ok fpt st \<Longrightarrow> aggregate_of st i = Some a \<Longrightarrow>
     store_ok fpt st' \<and> (\<exists>b. aggregate_of st' i = Some b \<and> journals_move (agg_snapshot a) (agg_snapshot b))"
proof (induction rule: rtranclp_induct)
  case base then show ?case using journals_move_refl by blast
next
  case (step y z)
  then obtain b where b: "store_ok fpt y" "aggregate_of y i = Some b" "journals_move (agg_snapshot a) (agg_snapshot b)" by auto
  with step_moves [OF step.hyps(2)] obtain c where "aggregate_of z i = Some c" "journals_move (agg_snapshot b) (agg_snapshot c)" by blast
  with b step show ?case using journals_move_trans store_step_ok by blast
qed

text \<open>
  C29. Work recorded in the journals only moves forward, whatever operations follow: no entry disappears;
  a tool execution keeps its run, step and call, never falls back in status and never changes once it is
  terminal; an extension invocation keeps its identity, either stays as it is or moves to a higher rank,
  and its terminal outcome, its finalized effect and its finalized context never change.
\<close>

theorem executions_only_advance:
  assumes "reachable fpt st" "(store_step fpt)\<^sup>*\<^sup>* st st'" "aggregate_of st i = Some a"
  shows "\<exists>b. aggregate_of st' i = Some b \<and>
    list_moves entry_moves (snap_RunJournal (agg_snapshot a)) (snap_RunJournal (agg_snapshot b)) \<and>
    list_moves invocation_moves (snap_ExtensionJournal (agg_snapshot a)) (snap_ExtensionJournal (agg_snapshot b))"
  using steps_move [OF assms(2) reachable_store_ok [OF assms(1)] assms(3)] by (auto simp: journals_move_def)

theorem executions_only_advance_witness:
  "reachable demo_fpt demo_running \<and> (store_step demo_fpt)\<^sup>*\<^sup>* demo_running demo_recovered \<and> (\<exists>a b. aggregate_of demo_running ''s1'' = Some a \<and>
     aggregate_of demo_recovered ''s1'' = Some b \<and> list_moves entry_moves (snap_RunJournal (agg_snapshot a)) (snap_RunJournal (agg_snapshot b)))"
proof -
  have "(store_step demo_fpt)\<^sup>*\<^sup>* demo_running demo_recovered"
    by (rule r_into_rtranclp) (rule step_recover [OF demo_env_ok demo_recover])
  with executions_only_advance [OF demo_running_reachable this demo_running_aggregate] demo_running_reachable demo_running_aggregate
  show ?thesis by blast
qed

text \<open>The weight of a journal: one for each entry and its rank.\<close>

definition journal_weight :: "ExtensionJournalEntry list \<Rightarrow> nat" where
  "journal_weight j = sum_list (map (\<lambda>e. Suc (invocation_rank e)) j)"

lemma invocation_rank_le: "invocation_rank e \<le> 4"
  by (simp add: invocation_rank_def)

lemma journal_weight_le: "journal_weight j \<le> 5 * length j"
proof (induction j)
  case (Cons e j)
  then show ?case using invocation_rank_le [of e] by (simp add: journal_weight_def)
qed (simp add: journal_weight_def)

lemma journal_weight_update: "n < length j \<Longrightarrow> invocation_rank (j ! n) < invocation_rank x \<Longrightarrow> journal_weight j < journal_weight (j[n := x])"
  by (induction j arbitrary: n) (auto simp: journal_weight_def nth_Cons split: nat.splits)

lemma applyExtensionJournal_weight:
  assumes "applyExtensionJournal fpt sid j x = Inr j'" "ext_ok fpt sid j"
  shows "journal_weight j < journal_weight j'"
  using assms(1)
proof (cases rule: applyExtensionJournal_cases)
  case new then show ?thesis by (simp add: journal_weight_def)
next
  case (update n)
  have "ExtensionJournalEntry_Validate fpt (j ! n) sid = None" using assms(2) update(2) by (simp add: ext_ok_def)
  then have "InvocationStatus_Valid (xj_Status (j ! n))" "ContextDisposition_Valid (xj_ContextDisposition (j ! n))"
    by (auto simp: ExtensionJournalEntry_Validate_def)
  then show ?thesis using transition_moves update(2,4,5,6) journal_weight_update by blast
qed

text \<open>
  Extension invocations cannot be updated forever: a sequence of accepted journal updates that ends in a
  journal of n invocations has at most five times n updates, because every accepted update is a new
  invocation or moves an existing one to a strictly higher rank.
\<close>

theorem extension_updates_bounded:
  assumes "foldE (applyExtensionJournal fpt sid) [] updates = Inr j"
  shows "length updates \<le> 5 * length j"
proof -
  have "foldE (applyExtensionJournal fpt sid) j0 updates = Inr j \<Longrightarrow> ext_ok fpt sid j0 \<Longrightarrow> length updates + journal_weight j0 \<le> journal_weight j" for j0
  proof (induction updates arbitrary: j0)
    case (Cons x xs)
    then obtain u where u: "applyExtensionJournal fpt sid j0 x = Inr u" "foldE (applyExtensionJournal fpt sid) u xs = Inr j" by auto
    with Cons.IH [OF u(2)] applyExtensionJournal_ok [OF u(1)] applyExtensionJournal_weight [OF u(1)] Cons.prems(2) show ?case by simp
  qed simp
  from this [OF assms] show ?thesis using journal_weight_le [of j] by (simp add: ext_ok_def journal_weight_def)
qed

definition demo_digest :: string where
  "demo_digest = ''sha256:'' @ replicate 64 CHR ''a''"

definition demo_invocation :: ExtensionJournalEntry where
  "demo_invocation = \<lparr>xj_InvocationID = ''i1'', xj_Sequence = 1, xj_Descriptor = \<lparr>ext_Key = ''gate'', ext_DefinitionDigest = demo_digest\<rparr>,
     xj_Boundary = BoundaryInputGate, xj_SessionID = ''s1'', xj_RunID = '''', xj_StepID = '''', xj_TargetStepID = '''', xj_MessageID = ''m1'',
     xj_ToolCallID = '''', xj_GoalID = '''', xj_GoalVersion = 0, xj_LifecyclePhase = LifecyclePhase_other '''', xj_LifecycleOpenKind = OpenKind_other '''',
     xj_InputDigest = demo_digest, xj_PreparedRevision = 1, xj_PreparedAt = 1, xj_PendingAt = 0, xj_FinishedAt = 0, xj_Status = InvocationPrepared,
     xj_Result = None, xj_ErrorCode = '''', xj_ErrorReason = '''', xj_EffectDisposition = EffectNone, xj_ContextDisposition = ContextNone,
     xj_ContextInputs = [], xj_ContextDigest = '''', xj_ContextBytes = 0\<rparr>"

lemma safe_ascii_identity:
  assumes "\<forall>c \<in> set s. (of_char c :: nat) < 128 \<and> graphic c" "s \<noteq> []" "length s \<le> n"
    "\<not> (\<exists>r \<in> set (runes s). unsafe_rune r)"
  shows "validSafeIdentity s n"
proof -
  have a: "\<forall>c \<in> set s. (of_char c :: nat) < 128" using assms(1) by blast
  have "TrimSpace s = s" using assms(1,2) by (intro TrimSpace_graphic) auto
  then show ?thesis using assms(2,3,4) utf8_ascii [OF a] by (auto simp: validSafeIdentity_def)
qed

lemma demo_digest_valid: "ValidDigest demo_digest"
  by (simp add: ValidDigest_def demo_digest_def lower_hex_def)

lemma demo_invocation_valid: "ExtensionJournalEntry_Validate fpt demo_invocation ''s1'' = None"
proof -
  have r: "runes ''i1'' = map of_char ''i1''" "runes ''gate'' = map of_char ''gate''" by (rule runes_ascii; simp)+
  have i: "validSafeIdentity ''i1'' 128" "validSafeIdentity ''gate'' 128"
    by (rule safe_ascii_identity; simp add: r graphic_def unsafe_rune_def unicode_IsControl_def unicode_In_CfZlZp_def format_ranges_def)+
  then show ?thesis using demo_digest_valid
    by (simp add: ExtensionJournalEntry_Validate_def demo_invocation_def InvocationID_Valid_def ExtensionDescriptor_Validate_def BoundaryKind_Valid_def
        InvocationStatus_Valid_def EffectDisposition_Valid_def ContextDisposition_Valid_def validateSubject_def IsZero_def ValidateSafeReason_def
        validateStatusShape_def validateContext_x_def)
qed

theorem extension_updates_bounded_witness:
  "foldE (applyExtensionJournal demo_fpt ''s1'') [] [demo_invocation] = Inr [demo_invocation] \<and> length [demo_invocation] \<le> 5 * length [demo_invocation]"
proof -
  have "foldE (applyExtensionJournal demo_fpt ''s1'') [] [demo_invocation] = Inr [demo_invocation]"
    using demo_invocation_valid [of demo_fpt] by (simp add: applyExtensionJournal_def) (simp add: demo_invocation_def)
  with extension_updates_bounded [OF this] show ?thesis by blast
qed

text \<open>
  The rule that only lifecycle invocations carry a lifecycle identity is never enforced: for every entry
  of another valid boundary, validation gives the same answer whatever lifecycle phase and open kind the
  entry carries, because the check stands in an arm that only an invalid boundary could reach.
\<close>

theorem lifecycle_identity_unchecked:
  assumes "xj_Boundary e \<in> {BoundaryInputGate, BoundaryToolPreflight, BoundaryToolResult, BoundaryCompletion}"
  shows "ExtensionJournalEntry_Validate fpt (e\<lparr>xj_LifecyclePhase := p, xj_LifecycleOpenKind := k\<rparr>) sid = ExtensionJournalEntry_Validate fpt e sid"
proof -
  have "validateSubject (e\<lparr>xj_LifecyclePhase := p, xj_LifecycleOpenKind := k\<rparr>) = validateSubject e"
    using assms by (auto simp: validateSubject_def)
  moreover have "validateStatusShape (e\<lparr>xj_LifecyclePhase := p, xj_LifecycleOpenKind := k\<rparr>) = validateStatusShape e"
    by (auto simp: validateStatusShape_def validateBoundaryResult_def split: option.splits)
  moreover have "validateContext_x fpt (e\<lparr>xj_LifecyclePhase := p, xj_LifecycleOpenKind := k\<rparr>) sid = validateContext_x fpt e sid"
  proof -
    have "unbound_target_input (e\<lparr>xj_LifecyclePhase := p, xj_LifecycleOpenKind := k\<rparr>) i = unbound_target_input e i" for i
      by (cases "inp_Message i") (simp_all add: unbound_target_input_def)
    then show ?thesis
      by (cases "xj_ContextDisposition e"; cases "fpt (xj_ContextInputs e)") (simp_all add: validateContext_x_def split: prod.splits)
  qed
  ultimately show ?thesis by (simp add: ExtensionJournalEntry_Validate_def)
qed

theorem lifecycle_identity_unchecked_witness:
  "xj_Boundary demo_invocation = BoundaryInputGate \<and>
     ExtensionJournalEntry_Validate demo_fpt (demo_invocation\<lparr>xj_LifecyclePhase := LifecycleOpen, xj_LifecycleOpenKind := OpenKind_other ''x''\<rparr>) ''s1'' = None"
proof -
  have "xj_Boundary demo_invocation = BoundaryInputGate" by (simp add: demo_invocation_def)
  with lifecycle_identity_unchecked [of demo_invocation, where fpt = demo_fpt and p = LifecycleOpen and k = "OpenKind_other ''x''" and sid = "''s1''"] demo_invocation_valid show ?thesis by simp
qed

end
