(* ===== verification/History_Pages.thy ===== *)
theory History_Pages
  imports Session_Guarantees
begin

text \<open>
  The History page query (\<^verbatim>\<open>historyPage\<close> of \<^verbatim>\<open>session/history.go\<close>): each page is a window of the History that
  starts at a clean cut between steps, so that reading the pages backwards tiles the whole History.
\<close>

section \<open>The backward scan\<close>

abbreviation step_at :: "HistoryFact list \<Rightarrow> nat \<Rightarrow> StepID" where
  "step_at h i \<equiv> fact_StepID (h ! i)"

abbreviation run_at :: "HistoryFact list \<Rightarrow> nat \<Rightarrow> RunID" where
  "run_at h i \<equiv> fact_RunID (h ! i)"

text \<open>What the scan from \<open>idx\<close> down to \<open>s\<close> has seen, counted and collected.\<close>

lemma pageScan_result:
  assumes "pageScan h limit idx idx steps seen runs = (s, k, rs)" "steps \<le> limit" "\<forall>x \<in> set seen. validID x"
  shows "s \<le> idx \<and> steps \<le> k \<and> k \<le> limit \<and> set runs \<subseteq> set rs \<and>
    (\<forall>i. s \<le> i \<and> i < idx \<and> validID (step_at h i) \<and> validID (run_at h i) \<longrightarrow> run_at h i \<in> set rs) \<and>
    (k = steps \<longrightarrow> (\<forall>i. s \<le> i \<and> i < idx \<and> validID (step_at h i) \<longrightarrow> step_at h i \<in> set seen)) \<and>
    (k \<noteq> steps \<longrightarrow> (\<exists>i. s \<le> i \<and> i < idx \<and> validID (step_at h i))) \<and>
    (0 < s \<longrightarrow> k = limit \<and> validID (step_at h (s - 1)) \<and> step_at h (s - 1) \<notin> set seen \<and> (\<forall>i. s \<le> i \<and> i < idx \<longrightarrow> step_at h i \<noteq> step_at h (s - 1))) \<and>
    int (card (step_at h ` {i. s \<le> i \<and> i < idx \<and> validID (step_at h i) \<and> step_at h i \<notin> set seen})) = k - steps"
  using assms
proof (induction idx arbitrary: steps seen runs)
  case 0
  then show ?case by auto
next
  case (Suc idx)
  let ?x = "step_at h idx"
  let ?fresh = "validID ?x \<and> ?x \<notin> set seen"
  show ?case
  proof (cases "?fresh \<and> steps = limit")
    case True
    then have "s = Suc idx" "k = steps" "rs = runs" using Suc.prems(1) by (simp_all add: Let_def)
    moreover have "{i. Suc idx \<le> i \<and> i < Suc idx \<and> P i} = {}" for P by auto
    ultimately show ?thesis using True Suc.prems(2) by auto
  next
    case False
    let ?steps = "if ?fresh then steps + 1 else steps" and ?seen = "if ?fresh then ?x # seen else seen"
    let ?runs = "if validID ?x \<and> validID (run_at h idx) then run_at h idx # runs else runs"
    have scan: "pageScan h limit idx idx ?steps ?seen ?runs = (s, k, rs)" using Suc.prems(1) by (simp only: pageScan.simps Let_def False if_False)
    have le: "?steps \<le> limit" using False Suc.prems(2) by auto
    have vs: "\<forall>x \<in> set ?seen. validID x" using Suc.prems(3) by auto
    note IH = Suc.IH [OF scan le vs]
    have split: "s \<le> i \<and> i < Suc idx \<longleftrightarrow> s \<le> i \<and> i < idx \<or> i = idx" for i using IH by auto
    let ?A = "step_at h ` {i. s \<le> i \<and> i < idx \<and> validID (step_at h i) \<and> step_at h i \<notin> set ?seen}"
    let ?B = "step_at h ` {i. s \<le> i \<and> i < Suc idx \<and> validID (step_at h i) \<and> step_at h i \<notin> set seen}"
    have "?B = (if ?fresh then insert ?x ?A else ?A)" using IH by (auto simp: less_Suc_eq)
    moreover have "finite ?A" by simp
    moreover have "?x \<notin> ?A" if ?fresh using that by auto
    ultimately have card: "int (card ?B) = int (card ?A) + (if ?fresh then 1 else 0)" by (simp add: card_insert_if)
    show ?thesis using IH card False Suc.prems(2) unfolding less_Suc_eq by (auto split: if_splits)
  qed
qed

section \<open>One page\<close>

definition page_request :: "SessionID \<Rightarrow> HistorySequence \<Rightarrow> int \<Rightarrow> HistoryPageRequest" where
  "page_request sid before limit = \<lparr>hpr_SessionID = sid, hpr_BeforeHistorySequence = before, hpr_StepLimit = limit\<rparr>"

definition steps_of :: "HistoryFact list \<Rightarrow> StepID set" where
  "steps_of fs = {x \<in> fact_StepID ` set fs. validID x}"

text \<open>A clean cut: not inside a run of facts of one step.\<close>

definition clean_cut :: "HistoryFact list \<Rightarrow> nat \<Rightarrow> bool" where
  "clean_cut h n \<longleftrightarrow> \<not> (0 < n \<and> n < length h \<and> validID (step_at h n) \<and> step_at h (n - 1) = step_at h n)"

lemma pageEnd_le: "pageEnd h before \<le> length h"
proof (cases "before = 0")
  case False
  let ?e = "length (takeWhile (\<lambda>f. fact_Sequence f < before) h)"
  have "?e \<le> length h" by (rule length_takeWhile_le)
  then show ?thesis using False by (auto simp: pageEnd_def Let_def)
qed (simp add: pageEnd_def)

lemma takeWhile_sequence:
  assumes "envelope_ok sid h" "n \<le> length h"
  shows "length (takeWhile (\<lambda>f. fact_Sequence f < Suc n) h) = n"
proof -
  have seq: "fact_Sequence (h ! i) = Suc i" if "i < length h" for i using assms(1) that by (simp add: envelope_ok_def)
  have "takeWhile (\<lambda>f. fact_Sequence f < Suc n) h = take n h"
    using assms(2) seq by (intro takeWhile_eq_take_P_nth) auto
  then show ?thesis using assms(2) by simp
qed

lemma pageEnd_clean: "envelope_ok sid h \<Longrightarrow> n < length h \<Longrightarrow> clean_cut h n \<Longrightarrow> pageEnd h (Suc n) = n"
  using takeWhile_sequence [of sid h n] by (auto simp: pageEnd_def clean_cut_def Let_def)

lemma skip_le:
  assumes "s \<le> i" "i < e" "e \<le> length h" "\<not> (validID (run_at h i) \<and> run_at h i \<notin> set rs)"
  shows "s + length (takeWhile (\<lambda>f. validID (fact_RunID f) \<and> fact_RunID f \<notin> set rs) (drop s (take e h))) \<le> i"
proof -
  let ?P = "\<lambda>f. validID (fact_RunID f) \<and> fact_RunID f \<notin> set rs"
  let ?xs = "drop s (take e h)"
  have "?xs ! (i - s) = h ! i" "i - s < length ?xs" using assms(1,2,3) by auto
  then have "\<not> length (takeWhile ?P ?xs) > i - s" using assms(4) nth_length_takeWhile takeWhile_nth [of "i - s" ?P ?xs]
    by (metis (mono_tags, lifting) nth_mem set_takeWhileD)
  then show ?thesis using assms(1) by linarith
qed

lemma skip_before:
  assumes "s < s'" "s' = s + length (takeWhile (\<lambda>f. validID (fact_RunID f) \<and> fact_RunID f \<notin> set rs) (drop s (take e h)))" "e \<le> length h"
  shows "validID (run_at h (s' - 1)) \<and> run_at h (s' - 1) \<notin> set rs"
proof -
  let ?P = "\<lambda>f. validID (fact_RunID f) \<and> fact_RunID f \<notin> set rs"
  let ?xs = "drop s (take e h)"
  let ?n = "length (takeWhile ?P ?xs)"
  have n: "0 < ?n" using assms(1,2) by simp
  have nl: "?n \<le> length ?xs" by (rule length_takeWhile_le)
  from n have "?P (takeWhile ?P ?xs ! (?n - 1))" by (metis (mono_tags, lifting) diff_less nth_mem set_takeWhileD zero_less_one)
  moreover have "takeWhile ?P ?xs ! (?n - 1) = ?xs ! (?n - 1)" using n by (simp add: takeWhile_nth)
  moreover have "?xs ! (?n - 1) = h ! (s' - 1)"
  proof -
    have i: "s' - 1 = s + (?n - 1)" using n assms(2) by linarith
    have "length ?xs = e - s" using assms(3) by simp
    then have "s + (?n - 1) < e" "s \<le> e" using n nl by linarith+
    then have "s + (?n - 1) < e" "s \<le> length (take e h)" using assms(3) by simp_all
    then show ?thesis unfolding i by simp
  qed
  ultimately show ?thesis by simp
qed

lemma historyPage_window:
  assumes ok: "envelope_ok sid h" and sid: "validID sid" and lim: "0 \<le> limit" "limit \<le> 100"
  shows "\<exists>s e page. historyPage h (page_request sid before limit) = Inr page \<and> e = pageEnd h before \<and> (e = 0 \<or> s < e) \<and> s \<le> e \<and>
    hp_Facts page = drop s (take e h) \<and> hp_HasMore page = (0 < s) \<and> clean_cut h s \<and>
    int (card (steps_of (hp_Facts page))) \<le> (if limit = 0 then 100 else limit)"
proof (cases "pageEnd h before = 0")
  case True
  have z: "hp_Facts zero_history_page = []" "\<not> hp_HasMore zero_history_page" by (simp_all add: zero_history_page_def)
  show ?thesis
    using True sid lim z by (intro exI [of _ 0] exI [of _ zero_history_page]) (auto simp: historyPage_def page_request_def Let_def clean_cut_def steps_of_def)
next
  case False
  let ?l = "if limit = 0 then 100 else limit" and ?e = "pageEnd h before"
  have e: "0 < ?e" "?e \<le> length h" using False pageEnd_le by auto
  obtain s k rs where scan: "pageScan h ?l ?e ?e 0 [] [] = (s, k, rs)" by (metis prod_cases3)
  have l: "(0::int) \<le> ?l" "0 < ?l" using lim by auto
  note S = pageScan_result [OF scan l(1)]
  let ?s1 = "skipOlderRuns h k rs s ?e"
  define s2 where "s2 = (if k = 0 \<and> int ?e > ?l then nat (int ?e - ?l) else ?s1)"
  have page: "historyPage h (page_request sid before limit) = Inr (zero_history_page\<lparr>hp_Facts := drop s2 (take ?e h), hp_HasMore := 0 < s2\<rparr>)"
    using sid lim scan False by (cases "limit = 0") (simp_all add: historyPage_def page_request_def Let_def s2_def)
  have facts: "s \<le> ?e" "0 \<le> k" "k \<le> ?l"
    "\<And>i. s \<le> i \<Longrightarrow> i < ?e \<Longrightarrow> validID (step_at h i) \<Longrightarrow> validID (run_at h i) \<Longrightarrow> run_at h i \<in> set rs"
    "k = 0 \<Longrightarrow> s \<le> i \<Longrightarrow> i < ?e \<Longrightarrow> \<not> validID (step_at h i)"
    "k \<noteq> 0 \<Longrightarrow> \<exists>i. s \<le> i \<and> i < ?e \<and> validID (step_at h i)"
    "0 < s \<Longrightarrow> k = ?l \<and> (\<forall>i. s \<le> i \<and> i < ?e \<longrightarrow> step_at h i \<noteq> step_at h (s - 1))"
    "int (card (step_at h ` {i. s \<le> i \<and> i < ?e \<and> validID (step_at h i)})) = k" for i
    using S by auto
  have s0: "s = 0" if "k = 0" using facts(7) that l by auto
  have range: "s \<le> s2 \<and> s2 < ?e \<and> clean_cut h s2"
  proof (cases "k = 0")
    case True
    have "\<not> validID (step_at h i)" if "i < ?e" for i using facts(5) [OF True] s0 [OF True] that by simp
    then show ?thesis using True s0 [OF True] e l by (auto simp: s2_def skipOlderRuns_def clean_cut_def)
  next
    case False
    then have eq: "s2 = s + length (takeWhile (\<lambda>f. validID (fact_RunID f) \<and> fact_RunID f \<notin> set rs) (drop s (take ?e h)))"
      using facts(2) by (simp add: s2_def skipOlderRuns_def)
    obtain i where i: "s \<le> i" "i < ?e" "validID (step_at h i)" using facts(6) [OF False] by blast
    then have le: "s2 \<le> i" using skip_le [OF i(1,2) e(2)] facts(4) [OF i(1,2,3)] eq by auto
    have "clean_cut h s2"
    proof (cases "s2 = s")
      case True
      have "s < ?e" using i by simp
      then have "0 < s \<longrightarrow> step_at h s \<noteq> step_at h (s - 1)" using facts(7) by blast
      then show ?thesis unfolding True clean_cut_def by auto
    next
      case False
      then have "s < s2" using eq by simp
      from skip_before [OF this eq e(2)] have b: "validID (run_at h (s2 - 1))" "run_at h (s2 - 1) \<notin> set rs" by auto
      have "s \<le> s2 - 1" "s2 - 1 < ?e" using \<open>s < s2\<close> le i(2) by linarith+
      then have "\<not> validID (step_at h (s2 - 1))" using facts(4) b by blast
      then show ?thesis by (auto simp: clean_cut_def)
    qed
    with le i(2) eq show ?thesis by simp
  qed
  have sub: "steps_of (drop s2 (take ?e h)) \<subseteq> step_at h ` {i. s \<le> i \<and> i < ?e \<and> validID (step_at h i)}"
  proof
    fix x assume "x \<in> steps_of (drop s2 (take ?e h))"
    then obtain f where f: "f \<in> set (drop s2 (take ?e h))" "x = fact_StepID f" "validID x" by (auto simp: steps_of_def)
    then obtain j where j: "j < length (drop s2 (take ?e h))" "drop s2 (take ?e h) ! j = f" by (metis in_set_conv_nth)
    then have "f = h ! (s2 + j)" "s \<le> s2 + j" "s2 + j < ?e" using e range by auto
    with f show "x \<in> step_at h ` {i. s \<le> i \<and> i < ?e \<and> validID (step_at h i)}" by blast
  qed
  have "finite (step_at h ` {i. s \<le> i \<and> i < ?e \<and> validID (step_at h i)})" by simp
  then have "int (card (steps_of (drop s2 (take ?e h)))) \<le> ?l" using card_mono [OF _ sub] facts(3,8) by fastforce
  then show ?thesis
    using page range by (intro exI [of _ s2] exI [of _ ?e] exI) (auto simp: zero_history_page_def)
qed

section \<open>Walking the pages\<close>

text \<open>A client that reads backwards: it asks for the page before the first fact it has, until there is no more.\<close>

fun walkPages :: "nat \<Rightarrow> HistoryFact list \<Rightarrow> SessionID \<Rightarrow> int \<Rightarrow> HistorySequence \<Rightarrow> HistoryFact list option" where
  "walkPages 0 h sid limit before = None"
| "walkPages (Suc n) h sid limit before = (case historyPage h (page_request sid before limit) of
      Inl _ \<Rightarrow> None
    | Inr page \<Rightarrow> if hp_HasMore page
        then map_option (\<lambda>older. older @ hp_Facts page) (walkPages n h sid limit (fact_Sequence (hd (hp_Facts page))))
        else Some (hp_Facts page))"

lemma walkPages_from:
  assumes ok: "envelope_ok sid h" and sid: "validID sid" and lim: "0 \<le> limit" "limit \<le> 100"
  shows "pageEnd h before < n \<Longrightarrow> walkPages n h sid limit before = Some (take (pageEnd h before) h)"
proof (induction n arbitrary: before)
  case (Suc n)
  let ?e = "pageEnd h before"
  obtain s page where p: "historyPage h (page_request sid before limit) = Inr page" "?e = 0 \<or> s < ?e" "s \<le> ?e"
    "hp_Facts page = drop s (take ?e h)" "hp_HasMore page = (0 < s)" "clean_cut h s"
    using historyPage_window [OF ok sid lim, of before] by blast
  show ?case
  proof (cases "0 < s")
    case False
    then show ?thesis using p by simp
  next
    case True
    then have s: "s < ?e" "s < length h" using p(2,3) pageEnd_le [of h before] by auto
    have "hd (hp_Facts page) = h ! s" using p(4) s by (simp add: hd_drop_conv_nth)
    then have before: "fact_Sequence (hd (hp_Facts page)) = Suc s" using ok s(2) by (simp add: envelope_ok_def)
    have "pageEnd h (Suc s) = s" using pageEnd_clean [OF ok s(2) p(6)] .
    then have "walkPages n h sid limit (Suc s) = Some (take s h)" using Suc.IH [of "Suc s"] Suc.prems s(1) by simp
    moreover have "take s h @ drop s (take ?e h) = take ?e h" using s(1) by (metis append_take_drop_id less_imp_le min.absorb1 take_take)
    ultimately show ?thesis using p True before by simp
  qed
qed simp

text \<open>
  History pages are complete and bounded: in a reachable store a client that reads the pages of a Session
  backwards with any valid limit gets every fact exactly once and in order, and no page holds more steps
  than the limit.
\<close>

theorem history_pages_complete:
  assumes "reachable fpt st" "aggregate_of st i = Some a" "0 \<le> limit" "limit \<le> 100"
  shows "walkPages (Suc (length (snap_History (agg_snapshot a)))) (snap_History (agg_snapshot a)) i limit 0 = Some (snap_History (agg_snapshot a)) \<and>
    (\<forall>before. \<exists>page. historyPage (snap_History (agg_snapshot a)) (page_request i before limit) = Inr page \<and>
       int (card (steps_of (hp_Facts page))) \<le> (if limit = 0 then 100 else limit))"
proof -
  note ok = reachable_parts(3,1) [OF assms(1,2)]
  have e: "pageEnd (snap_History (agg_snapshot a)) 0 = length (snap_History (agg_snapshot a))" by (simp add: pageEnd_def)
  have "walkPages (Suc (length (snap_History (agg_snapshot a)))) (snap_History (agg_snapshot a)) i limit 0 = Some (snap_History (agg_snapshot a))"
    using walkPages_from [OF ok assms(3,4), of 0 "Suc (length (snap_History (agg_snapshot a)))"] unfolding e by (simp del: walkPages.simps)
  moreover have "\<exists>page. historyPage (snap_History (agg_snapshot a)) (page_request i before limit) = Inr page \<and>
       int (card (steps_of (hp_Facts page))) \<le> (if limit = 0 then 100 else limit)" for before
    using historyPage_window [OF ok assms(3,4), of before] by blast
  ultimately show ?thesis by blast
qed

theorem history_pages_complete_witness:
  "reachable demo_fpt demo_recovered \<and> walkPages 3 demo_run_facts ''s1'' 1 0 = Some demo_run_facts"
proof -
  have "Suc (length demo_run_facts) = 3" by (simp add: demo_run_facts_def Let_def)
  with history_pages_complete [OF demo_recovered_reachable demo_recovered_aggregate, of 1] demo_recovered_reachable show ?thesis
    by (simp add: demo_recovered_snapshot_def)
qed

end
