(* ===== verification/List_Pages.thy ===== *)
theory List_Pages
  imports Session_Guarantees
begin

text \<open>
  Listing the Sessions of a store (\<^verbatim>\<open>session/list.go\<close>): creation generations count the Sessions, a page
  continues the sorted list where the previous one ended, and following the cursors visits every Session
  of the requested scope once.
\<close>

section \<open>Generations and update times\<close>

definition list_ok :: "MemoryStore \<Rightarrow> bool" where
  "list_ok st \<longleftrightarrow> idx_generation (ms_list st) = word_of_nat (length (ms_sessions st)) \<and>
     (\<forall>i a. aggregate_of st i = Some a \<longrightarrow> 0 < agg_updatedAt a \<and>
        (\<exists>k \<le> length (ms_sessions st). idx_created (ms_list st) i = Some (word_of_nat k)))"

lemma length_update: "length (AList.update k v al) = (if k \<in> fst ` set al then length al else Suc (length al))"
  by (induction al) auto

lemma put_aggregate_length: "length (ms_sessions (put_aggregate i a st)) =
    (if aggregate_of st i = None then Suc (length (ms_sessions st)) else length (ms_sessions st))"
  by (auto simp: put_aggregate_def length_update map_of_eq_None_iff image_iff)

lemma ensure_live: "idx_epoch ix \<noteq> '''' \<Longrightarrow> ensure env ix = ix"
  by (simp add: ensure_def)

lemma list_ok_rewrite:
  assumes "list_ok st" "store_ok fpt st" "aggregate_of st i = Some a" "nextUpdatedAt env (ms_list st) (agg_updatedAt a) = (u, ix)" "agg_updatedAt b = u"
  shows "list_ok (put_aggregate i b (st\<lparr>ms_list := ix\<rparr>))"
proof -
  have "idx_epoch (ms_list st) \<noteq> ''''" using assms(2,3) by (auto simp: store_ok_def times_ok_alt)
  then have "idx_created ix = idx_created (ms_list st)" "idx_generation ix = idx_generation (ms_list st)" "agg_updatedAt a < u"
    using nextUpdatedAt_later [OF assms(4)] ensure_live by auto
  moreover have "0 < agg_updatedAt a" using assms(1,3) by (simp add: list_ok_def)
  ultimately have "0 < agg_updatedAt b" "idx_created ix = idx_created (ms_list st)" "idx_generation ix = idx_generation (ms_list st)"
    using assms(5) by auto
  then show ?thesis using assms(1,3) by (auto simp: list_ok_def put_aggregate_length)
qed

lemma list_ok_Create:
  assumes "Create env ctx n st = (r, st')" "list_ok st" "store_ok fpt st" "env_epoch env \<noteq> []"
  shows "list_ok st'"
proof (cases r)
  case (Inl e) then show ?thesis using Create_Inl assms by blast
next
  case (Inr snap)
  let ?i = "ses_ID (new_Session n)"
  from Create_Inr [OF assms(1) [unfolded Inr]] obtain u ix where *: "aggregate_of st ?i = None"
    "recordCreate env (ms_list st) ?i = (u, ix)"
    "st' = put_aggregate ?i \<lparr>agg_snapshot = snap, agg_idempotency = Map.empty, agg_updatedAt = u\<rparr> (st\<lparr>ms_list := ix\<rparr>)"
    by blast
  let ?x = "ensure env (ms_list st)"
  note later = nextUpdatedAt_later [OF *(2) [unfolded recordCreate_def Let_def]]
  have u: "0 < u" using later(2) .
  show ?thesis
  proof (cases "idx_epoch (ms_list st) = ''''")
    case True
    then have "ms_sessions st = []" using times_ok_empty assms(3) by (auto simp: store_ok_def)
    then show ?thesis using True *(3) u later(5,6) assms(4)
      by (auto simp: list_ok_def put_aggregate_length ensure_def split: if_splits intro!: exI [of _ "Suc 0"])
  next
    case False
    let ?g = "word_of_nat (Suc (length (ms_sessions st))) :: uint64"
    have "idx_generation (ms_list st) = word_of_nat (length (ms_sessions st))" using assms(2) by (simp add: list_ok_def)
    then have ix: "idx_created ix = (idx_created (ms_list st))(?i \<mapsto> ?g)" "idx_generation ix = ?g"
      using later(5,6) False by (simp_all add: ensure_def add.commute)
    have len: "length (ms_sessions st') = Suc (length (ms_sessions st))" using *(1,3) by (simp add: put_aggregate_length)
    have "0 < agg_updatedAt b \<and> (\<exists>k \<le> length (ms_sessions st'). idx_created (ms_list st') j = Some (word_of_nat k))"
      if j: "aggregate_of st' j = Some b" for j b
    proof (cases "j = ?i")
      case True
      then show ?thesis using j *(3) u ix len by (intro conjI exI [of _ "length (ms_sessions st')"]) auto
    next
      case False
      then have "aggregate_of st j = Some b" using j *(3) by simp
      then obtain k where "k \<le> length (ms_sessions st)" "idx_created (ms_list st) j = Some (word_of_nat k)" "0 < agg_updatedAt b"
        using assms(2) by (auto simp: list_ok_def)
      then show ?thesis using False *(3) ix len by (intro conjI exI [of _ k]) auto
    qed
    moreover have "idx_generation (ms_list st') = word_of_nat (length (ms_sessions st'))" using *(3) ix(2) len by simp
    ultimately show ?thesis unfolding list_ok_def by blast
  qed
qed

lemma list_ok_step:
  assumes "store_step fpt st st'" "list_ok st" "store_ok fpt st"
  shows "list_ok st'"
  using assms(1)
proof (rule store_stepE)
  fix env ctx n r assume "env_ok fpt env" "Create env ctx n st = (r, st')"
  then show ?thesis using list_ok_Create assms(2,3) by (metis env_ok_def)
next
  fix env ctx request r assume "Commit_op env ctx request st = (r, st')"
  then show ?thesis
  proof (cases rule: Commit_cases)
    case (applied a fingerprint w u ix c)
    then show ?thesis using list_ok_rewrite [OF assms(2,3) applied(1,6)] by simp
  qed (use assms(2) in auto)
next
  fix env ctx sid r assume env: "env_ok fpt env" and "Recover env ctx sid st = (r, st')"
  from this(2) show ?thesis
  proof (cases rule: Recover_cases)
    case (changed a s u ix)
    then show ?thesis using list_ok_rewrite [OF assms(2,3) changed(1,3)] by simp
  next
    case (failed a e s)
    then show ?thesis using assms(2) by (auto simp: list_ok_def put_aggregate_length)
  next
    case (unchanged a s)
    then show ?thesis using assms(2) by (auto simp: list_ok_def put_aggregate_length)
  qed (use assms(2) in auto)
next
  fix env ctx query r assume "ListSessions env ctx query st = (r, st')"
  then have "st' = st \<or> st' = st\<lparr>ms_list := ensure env (ms_list st)\<rparr>" by (auto simp: ListSessions_def split: sum.splits)
  moreover have "list_ok (st\<lparr>ms_list := ensure env (ms_list st)\<rparr>)"
  proof (cases "idx_epoch (ms_list st) = ''''")
    case True
    then have "ms_sessions st = []" using times_ok_empty assms(3) by (auto simp: store_ok_def)
    then show ?thesis using True by (simp add: list_ok_def ensure_def)
  next
    case False
    then show ?thesis using assms(2) by (simp add: ensure_live list_ok_def)
  qed
  ultimately show ?thesis using assms(2) by auto
qed

lemma reachable_list_ok: "reachable fpt st \<Longrightarrow> list_ok st"
proof (induction rule: reachable.induct)
  case reachable_new
  then show ?case by (simp add: list_ok_def NewMemoryStore_def index_init_def)
next
  case (reachable_step st st')
  then show ?case using list_ok_step reachable_store_ok by blast
qed

section \<open>One page of the list\<close>

definition at_position :: "sessionListCursor \<Rightarrow> SessionSummary \<Rightarrow> sessionListCursor" where
  "at_position c s = c\<lparr>cur_UpdatedAt := sum_UpdatedAt s, cur_SessionID := sum_SessionID s\<rparr>"

definition position_key :: "sessionListCursor \<Rightarrow> int \<times> string" where
  "position_key c = (- cur_UpdatedAt c, cur_SessionID c)"

lemma after_key: "afterSessionListPosition s c \<longleftrightarrow> position_key c < summary_key s"
  unfolding afterSessionListPosition_def position_key_def summary_key_def less_prod_simp by auto

lemma position_key_at [simp]: "position_key (at_position c s) = summary_key s"
  by (simp add: position_key_def at_position_def summary_key_def)

lemma at_position_simps [simp]:
  "cur_CreationCutoff (at_position c s) = cur_CreationCutoff c" "cur_UpdatedAt (at_position c s) = sum_UpdatedAt s"
  "at_position (at_position c s) t = at_position c t"
  by (simp_all add: at_position_def)

lemma filter_greater_sorted:
  fixes k :: "'a \<Rightarrow> 'b :: linorder"
  assumes "sorted_wrt (\<lambda>x y. k x < k y) xs" "n < length xs"
  shows "filter (\<lambda>x. k (xs ! n) < k x) xs = drop (Suc n) xs"
  using assms
proof (induction xs arbitrary: n)
  case (Cons x xs)
  show ?case
  proof (cases n)
    case 0
    then show ?thesis using Cons.prems(1) by simp
  next
    case (Suc m)
    then have "k x < k (xs ! m)" using Cons.prems by simp
    then have "\<not> k (xs ! m) < k x" by simp
    then show ?thesis using Cons.IH [of m] Cons.prems Suc by simp
  qed
qed simp

lemma strictly_sorted_key:
  fixes k :: "'a \<Rightarrow> 'b :: linorder"
  assumes "distinct (map k xs)"
  shows "sorted_wrt (\<lambda>x y. k x < k y) (sort_key k xs)"
proof -
  have "distinct (map k (sort_key k xs))" using assms by (simp add: distinct_map)
  then have "sorted_wrt (<) (map k (sort_key k xs))" by (simp add: strict_sorted_iff)
  then show ?thesis by (simp add: sorted_wrt_map)
qed

lemma distinct_keys: "distinct (map sum_SessionID xs) \<Longrightarrow> distinct (map summary_key xs)"
  by (induction xs) (auto simp: summary_key_def)

lemma eligible_distinct:
  assumes "distinct (map (sum_SessionID \<circ> ls_summary) sessions)"
  shows "distinct (map summary_key (eligible c sessions))"
proof (rule distinct_keys)
  show "distinct (map sum_SessionID (eligible c sessions))"
    using assms unfolding eligible_def map_map by (rule distinct_map_filter)
qed

text \<open>After the page that ends at index \<open>n\<close>, what is left is the rest of the same sorted list.\<close>

lemma eligible_rest:
  assumes d: "distinct (map (sum_SessionID \<circ> ls_summary) sessions)"
    and S: "S = sortSessionSummaries (eligible c sessions)" and n: "n < length S" and t: "sum_UpdatedAt (S ! n) \<noteq> 0"
  shows "sortSessionSummaries (eligible (at_position c (S ! n)) sessions) = drop (Suc n) S"
proof -
  have "S ! n \<in> set (eligible c sessions)" using n unfolding S sortSessionSummaries_def by (metis nth_mem set_sort)
  then have l: "IsZero (cur_UpdatedAt c) \<or> position_key c < summary_key (S ! n)" by (auto simp: eligible_def after_key)
  have keep: "(IsZero (cur_UpdatedAt (at_position c (S ! n))) \<or> afterSessionListPosition x (at_position c (S ! n))) \<longleftrightarrow>
      (IsZero (cur_UpdatedAt c) \<or> afterSessionListPosition x c) \<and> summary_key (S ! n) < summary_key x" for x
    using l t order_less_trans by (auto simp: after_key IsZero_def)
  have "eligible (at_position c (S ! n)) sessions = filter (\<lambda>s. summary_key (S ! n) < summary_key s) (eligible c sessions)"
    unfolding eligible_def filter_map filter_filter keep comp_def
    by (rule arg_cong [where f = "map ls_summary"], rule filter_cong) auto
  then have "sortSessionSummaries (eligible (at_position c (S ! n)) sessions) = filter (\<lambda>s. summary_key (S ! n) < summary_key s) S"
    by (simp add: sortSessionSummaries_def S filter_sort)
  also have "\<dots> = drop (Suc n) S"
    unfolding S sortSessionSummaries_def
    by (rule filter_greater_sorted [OF strictly_sorted_key [OF eligible_distinct [OF d]]]) (use n in \<open>simp add: S sortSessionSummaries_def\<close>)
  finally show ?thesis .
qed

section \<open>Walking the list\<close>

text \<open>
  A client that follows the cursors: the pages it gets, from the request it starts with. What it needs of the
  codec is that the cursor of each listed position survives the round trip and fits the size limit.
\<close>

fun walkList :: "nat \<Rightarrow> Env \<Rightarrow> ListRequest \<Rightarrow> MemoryStore \<Rightarrow> SessionSummary list list option" where
  "walkList 0 env request st = None"
| "walkList (Suc n) env request st = (case ListSessions env CtxLive request st of
      (Inl _, _) \<Rightarrow> None
    | (Inr r, st') \<Rightarrow> if lres_NextCursor r = '''' then Some [lres_Sessions r]
        else map_option ((#) (lres_Sessions r)) (walkList n env (request\<lparr>lreq_Cursor := lres_NextCursor r\<rparr>) st'))"

definition codec_ok :: "Env \<Rightarrow> ListRequest \<Rightarrow> MemoryStore \<Rightarrow> bool" where
  "codec_ok env request st \<longleftrightarrow> (\<forall>s \<in> set (listed request st).
     \<exists>e. env_sign env (at_position (startCursor (ms_list st) request) (ls_summary s)) = Some e \<and> e \<noteq> '''' \<and>
         length e \<le> MaxSessionListCursorBytes \<and> env_open env e = Inr (at_position (startCursor (ms_list st) request) (ls_summary s)))"

definition page_limit :: "ListRequest \<Rightarrow> nat" where
  "page_limit request = nat (if lreq_Limit request = 0 then DefaultSessionListLimit else lreq_Limit request)"

lemma page_limit_pos: "ListRequest_Validate request = None \<Longrightarrow> 0 < page_limit request"
  by (auto simp: ListRequest_Validate_def page_limit_def)

lemma listed_cursor [simp]: "listed (request\<lparr>lreq_Cursor := c\<rparr>) st = listed request st" "page_limit (request\<lparr>lreq_Cursor := c\<rparr>) = page_limit request"
  by (simp_all add: listed_def page_limit_def)

lemma listed_member:
  assumes "reachable fpt st" "s \<in> set (listed request st)"
  obtains i a where "aggregate_of st i = Some a" "sum_SessionID (ls_summary s) = i" "sum_UpdatedAt (ls_summary s) = agg_updatedAt a"
    "ls_generation s = generationFor (ms_list st) i" "validID i"
proof -
  from assms(2) obtain i a where m: "(i, a) \<in> set (ms_sessions st)"
    and s: "sum_SessionID (ls_summary s) = ses_ID (snap_Session (agg_snapshot a))" "sum_UpdatedAt (ls_summary s) = agg_updatedAt a"
      "ls_generation s = generationFor (ms_list st) (ses_ID (snap_Session (agg_snapshot a)))"
    by (auto simp: listed_def Let_def)
  then have "aggregate_of st i = Some a" using reachable_store_ok [OF assms(1)] by (simp add: store_ok_def)
  with s reachable_parts(1,2) [OF assms(1)] that show ?thesis by (auto simp: ident_ok_def)
qed

lemma listed_distinct:
  assumes "reachable fpt st" shows "distinct (map (sum_SessionID \<circ> ls_summary) (listed request st))"
proof -
  have ok: "store_ok fpt st" by (rule reachable_store_ok [OF assms])
  have "ses_ID (snap_Session (agg_snapshot a)) = i" if "(i, a) \<in> set (ms_sessions st)" for i a
  proof -
    from that ok have "aggregate_of st i = Some a" by (simp add: store_ok_def)
    then show ?thesis using reachable_parts(2) [OF assms] by (auto simp: ident_ok_def)
  qed
  then have "map (sum_SessionID \<circ> ls_summary) (listed request st) =
      map fst (filter (\<lambda>(i, a). ses_AgentID (snap_Session (agg_snapshot a)) = lreq_AgentID request \<and>
        ses_WorkspaceID (snap_Session (agg_snapshot a)) = lreq_WorkspaceID request) (ms_sessions st))"
    unfolding listed_def map_map by (intro map_cong) (auto simp: Let_def)
  then show ?thesis using ok by (simp add: store_ok_def distinct_map_filter)
qed

lemma listed_position:
  assumes "reachable fpt st" "length (ms_sessions st) < 2 ^ 64" "s \<in> set (listed request st)"
  shows "ls_generation s \<le> idx_generation (ms_list st)" "sum_UpdatedAt (ls_summary s) \<noteq> 0" "validID (sum_SessionID (ls_summary s))"
proof -
  obtain i a where m: "aggregate_of st i = Some a" "sum_SessionID (ls_summary s) = i" "sum_UpdatedAt (ls_summary s) = agg_updatedAt a"
    "ls_generation s = generationFor (ms_list st) i" "validID i" using listed_member [OF assms(1,3)] by blast
  with reachable_list_ok [OF assms(1)] obtain k where k: "k \<le> length (ms_sessions st)" "generationFor (ms_list st) i = word_of_nat k"
    "idx_generation (ms_list st) = word_of_nat (length (ms_sessions st))" "0 < agg_updatedAt a"
    by (fastforce simp: list_ok_def generationFor_def)
  then have "(word_of_nat k :: uint64) \<le> word_of_nat (length (ms_sessions st))"
    using assms(2) by (simp add: word_le_nat_alt unat_of_nat)
  with m k show "ls_generation s \<le> idx_generation (ms_list st)" "sum_UpdatedAt (ls_summary s) \<noteq> 0" "validID (sum_SessionID (ls_summary s))"
    by auto
qed

lemma eligible_start:
  assumes "reachable fpt st" "length (ms_sessions st) < 2 ^ 64"
  shows "eligible (startCursor (ms_list st) request) (listed request st) = map ls_summary (listed request st)"
  using listed_position(1) [OF assms] by (auto simp: eligible_def startCursor_def IsZero_def intro!: filter_True)

text \<open>One request of the walk, at a position where the rest of the sorted list is \<open>drop m S\<close>.\<close>

lemma walk_request:
  assumes epoch: "idx_epoch (ms_list st) \<noteq> ''''" and valid: "ListRequest_Validate r = None" and c: "requestCursor env (ms_list st) r = Inr c"
    and R: "R = sortSessionSummaries (eligible c (listed r st))"
  shows "ListSessions env CtxLive r st = (map_error (invalid ''session.list'') (if length R \<le> page_limit r then Inr \<lparr>lres_Sessions = R, lres_NextCursor = ''''\<rparr>
     else bindE (encodeCursor env (at_position c (R ! (page_limit r - 1)))) (\<lambda>next. Inr \<lparr>lres_Sessions = take (page_limit r) R, lres_NextCursor = next\<rparr>)), st)"
proof -
  have "last (take (page_limit r) R) = R ! (page_limit r - 1)" if "\<not> length R \<le> page_limit r"
    using that page_limit_pos [OF valid] by (subst last_conv_nth) auto
  then have "paginate env (ms_list st) r (listed r st) = (if length R \<le> page_limit r then Inr \<lparr>lres_Sessions = R, lres_NextCursor = ''''\<rparr>
     else bindE (encodeCursor env (at_position c (R ! (page_limit r - 1)))) (\<lambda>next. Inr \<lparr>lres_Sessions = take (page_limit r) R, lres_NextCursor = next\<rparr>))"
    using c by (simp add: paginate_def Let_def ensure_live [OF epoch] bindE_def R page_limit_def at_position_def split del: if_split cong: if_cong)
  then show ?thesis using epoch valid by (simp add: ListSessions_def contextErr_def guardE_def ensure_live [OF epoch] split del: if_split)
qed

lemma walk_from:
  assumes reach: "reachable fpt st" and few: "length (ms_sessions st) < 2 ^ 64" and epoch: "idx_epoch (ms_list st) \<noteq> ''''"
    and codec: "codec_ok env request st" and valid: "ListRequest_Validate request = None"
    and c0: "c0 = startCursor (ms_list st) request" and S: "S = sortSessionSummaries (map ls_summary (listed request st))"
  shows "r = request\<lparr>lreq_Cursor := e\<rparr> \<Longrightarrow> length e \<le> MaxSessionListCursorBytes \<Longrightarrow> requestCursor env (ms_list st) r = Inr c \<Longrightarrow>
     c = c0 \<or> (\<exists>s. c = at_position c0 s) \<Longrightarrow> sortSessionSummaries (eligible c (listed request st)) = drop m S \<Longrightarrow> length S - m < n \<Longrightarrow>
     \<exists>pages. walkList n env r st = Some pages \<and> concat pages = drop m S \<and> (\<forall>p \<in> set pages. length p \<le> page_limit request)"
proof (induction n arbitrary: r e c m)
  case (Suc n)
  let ?l = "page_limit request" and ?R = "drop m S"
  have v: "ListRequest_Validate r = None" using valid Suc.prems(1,2) by (simp add: ListRequest_Validate_def)
  have l: "page_limit r = ?l" "listed r st = listed request st" "0 < ?l" using Suc.prems(1) page_limit_pos [OF valid] by simp_all
  note req = walk_request [OF epoch v Suc.prems(3) refl, unfolded l Suc.prems(5)]
  show ?case
  proof (cases "length ?R \<le> ?l")
    case True
    then show ?thesis using req by (auto simp: map_error_def)
  next
    case False
    let ?s = "S ! (m + ?l - 1)"
    have i: "?R ! (?l - 1) = ?s" "m + ?l - 1 < length S" "?l - 1 < length ?R" using False l(3) by auto
    have "?s \<in> ls_summary ` set (listed request st)" using i(2) unfolding S sortSessionSummaries_def by (metis nth_mem set_map set_sort)
    then obtain t where t: "t \<in> set (listed request st)" "?s = ls_summary t" by blast
    note pos = listed_position(2,3) [OF reach few t(1)]
    have at: "at_position c ?s = at_position c0 ?s" using Suc.prems(4) by auto
    obtain x where x: "env_sign env (at_position c0 ?s) = Some x" "x \<noteq> ''''" "length x \<le> MaxSessionListCursorBytes" "env_open env x = Inr (at_position c0 ?s)"
      using codec t by (auto simp: codec_ok_def c0)
    have "validID (lreq_AgentID request)" "validID (lreq_WorkspaceID request)" using valid by (auto simp: ListRequest_Validate_def)
    then have "requestCursor env (ms_list st) (request\<lparr>lreq_Cursor := x\<rparr>) = Inr (at_position c0 ?s)"
      using x pos epoch t(2)
      by (simp add: requestCursor_def decodeCursor_def bindE_def guardE_def c0 startCursor_def at_position_def IsZero_def check_def)
    moreover have "sortSessionSummaries (eligible (at_position c0 ?s) (listed request st)) = drop (m + ?l) S"
      using eligible_rest [OF listed_distinct [OF reach] Suc.prems(5) [symmetric] i(3)] pos(1) t(2) l(3) i(1) at by (simp add: add.commute)
    moreover have less: "length S - (m + ?l) < n" using Suc.prems(6) l(3) False by simp
    ultimately obtain pages where "walkList n env (request\<lparr>lreq_Cursor := x\<rparr>) st = Some pages" "concat pages = drop (m + ?l) S"
      "\<forall>p \<in> set pages. length p \<le> ?l"
      using Suc.IH [OF refl x(3), of "at_position c0 ?s" "m + ?l"] less by blast
    moreover have "encodeCursor env (at_position c (?R ! (?l - 1))) = Inr x" using x at i(1) by (simp add: encodeCursor_def guardE_def check_def)
    moreover have "take ?l ?R @ drop (m + ?l) S = ?R" by (metis append_take_drop_id drop_drop add.commute)
    ultimately show ?thesis using req False x(2) Suc.prems(1) by (auto simp: bindE_def map_error_def)
  qed
qed simp

text \<open>
  C30. Listing is complete: in a reachable store with fewer than $2^{64}$ Sessions, a client that follows the
  cursors of a valid first request gets every Session of the Agent and Workspace exactly once, the latest
  update first and equal times by identifier, in pages no longer than the limit, whenever the codec gives
  back the cursors it signed for the listed positions.
\<close>

theorem session_list_complete:
  assumes "reachable fpt st" "length (ms_sessions st) < 2 ^ 64" "ListRequest_Validate request = None" "lreq_Cursor request = ''''"
    "codec_ok env request st" "ms_sessions st \<noteq> []"
  shows "\<exists>pages. walkList (Suc (length (ms_sessions st))) env request st = Some pages \<and>
     concat pages = sort_key summary_key (map ls_summary (listed request st)) \<and> (\<forall>p \<in> set pages. length p \<le> page_limit request)"
proof -
  let ?S = "sortSessionSummaries (map ls_summary (listed request st))"
  have epoch: "idx_epoch (ms_list st) \<noteq> ''''" using reachable_store_ok [OF assms(1)] assms(6) by (simp add: store_ok_def times_ok_def)
  have "length ?S \<le> length (ms_sessions st)" by (simp add: sortSessionSummaries_def listed_def)
  then show ?thesis
    using walk_from [OF assms(1,2) epoch assms(5,3) refl refl, of request "''''" "startCursor (ms_list st) request" 0 "Suc (length (ms_sessions st))"]
      assms(4) eligible_start [OF assms(1,2), of request]
    by (simp add: requestCursor_def sortSessionSummaries_def del: walkList.simps)
qed

definition demo_query :: ListRequest where
  "demo_query = \<lparr>lreq_AgentID = ''a'', lreq_WorkspaceID = ''w'', lreq_Limit = 1, lreq_Cursor = ''''\<rparr>"

definition demo_codec :: Env where
  "demo_codec = demo_env\<lparr>env_sign := \<lambda>c. Some ''c1'',
     env_open := \<lambda>e. Inr (at_position (startCursor (ms_list demo_store) demo_query) (ls_summary (hd (listed demo_query demo_store))))\<rparr>"

lemma demo_listed: "length (listed demo_query demo_store) = 1"
  by (simp add: listed_def demo_query_def demo_store_def demo_aggregate_def newSnapshot_def demo_session_def Let_def)

theorem session_list_complete_witness:
  "codec_ok demo_codec demo_query demo_store \<and> (\<exists>pages. walkList (Suc 1) demo_codec demo_query demo_store = Some pages \<and>
     concat pages = sort_key summary_key (map ls_summary (listed demo_query demo_store)) \<and> (\<forall>p \<in> set pages. length p \<le> 1))"
proof -
  obtain s where s: "listed demo_query demo_store = [s]" using demo_listed by (auto simp: length_Suc_conv)
  have codec: "codec_ok demo_codec demo_query demo_store" by (simp add: codec_ok_def demo_codec_def s)
  have sessions: "length (ms_sessions demo_store) = 1" "ms_sessions demo_store \<noteq> []" by (simp_all add: demo_store_def)
  have "ListRequest_Validate demo_query = None" "lreq_Cursor demo_query = ''''" "page_limit demo_query = 1"
    by (simp_all add: ListRequest_Validate_def demo_query_def page_limit_def)
  with session_list_complete [OF demo_reachable _ _ _ codec sessions(2), unfolded sessions(1)] codec show ?thesis
    by (simp del: walkList.simps)
qed

end
