(* ===== verification/Slot_Registry.thy ===== *)
theory Slot_Registry
  imports Go_Text "HOL-Library.AList"
begin

text \<open>
  The slot kernel, registration half (\<^verbatim>\<open>slot.go\<close>, \<^verbatim>\<open>builder.go\<close>): slot specifications, contributions,
  the registry, and the transactional installation of modules.

  Go code that the kernel calls back is an argument: a component constructor is a tree of the questions it
  asks its \<^verbatim>\<open>Resolver\<close>, and a module's \<^verbatim>\<open>Register\<close> is a tree of its \<^verbatim>\<open>Contribute\<close> calls, each
  continuing with the answer it gets. A value of type \<^verbatim>\<open>any\<close> carries its dynamic type and whether it is
  a nil pointer, map, slice, channel or function. Errors keep their sentinel and their arguments; the text
  that \<^verbatim>\<open>fmt.Errorf\<close> builds around them is left out.
\<close>

section \<open>Slots and values\<close>

datatype slotKind = oneKind | manyKind | chainKind | slotKind_other nat

definition slotKind_String :: "slotKind \<Rightarrow> string" where
  "slotKind_String k = (case k of oneKind \<Rightarrow> ''one'' | manyKind \<Rightarrow> ''many'' | chainKind \<Rightarrow> ''chain'' | slotKind_other _ \<Rightarrow> ''unknown'')"

text \<open>A \<^verbatim>\<open>reflect.Type\<close>: types are compared by identity and print as a string.\<close>

record Type =
  typ_id :: nat
  typ_String :: string

record slotSpec =
  spec_id :: string
  spec_kind :: slotKind
  spec_valueType :: "Type option"

datatype 'v any = NilAny | Any (any_type: Type) (any_nil: bool) (any_value: 'v)

fun isNil :: "'v any \<Rightarrow> bool" where
  "isNil NilAny = True"
| "isNil (Any _ n _) = n"

definition badName :: "string \<Rightarrow> bool" where
  "badName s \<longleftrightarrow> s = '''' \<or> TrimSpace s \<noteq> s"

text \<open>Declaring a slot: \<^term>\<open>Inl\<close> is the panic.\<close>

definition newSlotSpec :: "Type \<Rightarrow> string \<Rightarrow> slotKind \<Rightarrow> string + slotSpec" where
  "newSlotSpec T i k = (if badName i then Inl ''agentslot: slot ID must be non-empty without surrounding whitespace''
     else Inr \<lparr>spec_id = i, spec_kind = k, spec_valueType = Some T\<rparr>)"

definition One :: "Type \<Rightarrow> string \<Rightarrow> string + slotSpec" where "One T i = newSlotSpec T i oneKind"
definition Many :: "Type \<Rightarrow> string \<Rightarrow> string + slotSpec" where "Many T i = newSlotSpec T i manyKind"
definition Chain :: "Type \<Rightarrow> string \<Rightarrow> string + slotSpec" where "Chain T i = newSlotSpec T i chainKind"

section \<open>Errors\<close>

datatype KernelError =
    ErrBuilderFrozen
  | ErrInvalidModule string
  | ErrDuplicateModule string
  | ErrRegistrationClosed
  | ErrInvalidContribution string
  | ErrInvalidKey string string
  | ErrSlotConflict string
  | ErrSlotOccupied string "string list"
  | ErrDuplicateKey string string
  | ErrInvalidRequirement string
  | ErrRequirementUnsatisfied string string
  | ErrDependencyCycle "string list"
  | ErrDependencyUndeclared string
  | ErrResolverClosed
  | ErrDependencyNotReady string string
  | ErrAssemblyStarted
  | ErrInvalidApplication string
  | UnknownProvider string string
  | ModuleError string
  | InModule string KernelError
  | InSlot string string KernelError
  | Joined "KernelError list"

section \<open>Contributions\<close>

text \<open>What a resolver answers: the owner, key and value of each contribution.\<close>

type_synonym 'v resolved = "KernelError + (string \<times> string \<times> 'v any) list"

datatype 'v constructorFunc =
    Done "KernelError + 'v any"
  | Ask slotSpec string bool "'v resolved \<Rightarrow> 'v constructorFunc"

record 'v contributionData =
  con_spec :: slotSpec
  con_key :: string
  con_value :: "'v any"
  con_constructor :: "'v constructorFunc option"
  con_defaulted :: bool

definition Set :: "slotSpec \<Rightarrow> 'v any \<Rightarrow> 'v contributionData" where
  "Set slot v = \<lparr>con_spec = slot, con_key = '''', con_value = v, con_constructor = None, con_defaulted = False\<rparr>"

definition Add :: "slotSpec \<Rightarrow> string \<Rightarrow> 'v any \<Rightarrow> 'v contributionData" where
  "Add slot key v = \<lparr>con_spec = slot, con_key = key, con_value = v, con_constructor = None, con_defaulted = False\<rparr>"

definition Append :: "slotSpec \<Rightarrow> 'v any \<Rightarrow> 'v contributionData" where
  "Append slot v = \<lparr>con_spec = slot, con_key = '''', con_value = v, con_constructor = None, con_defaulted = False\<rparr>"

definition SetDefault :: "slotSpec \<Rightarrow> 'v any \<Rightarrow> 'v contributionData" where
  "SetDefault slot v = \<lparr>con_spec = slot, con_key = '''', con_value = v, con_constructor = None, con_defaulted = True\<rparr>"

definition AddDefault :: "slotSpec \<Rightarrow> string \<Rightarrow> 'v any \<Rightarrow> 'v contributionData" where
  "AddDefault slot key v = \<lparr>con_spec = slot, con_key = key, con_value = v, con_constructor = None, con_defaulted = True\<rparr>"

definition AppendDefault :: "slotSpec \<Rightarrow> 'v any \<Rightarrow> 'v contributionData" where
  "AppendDefault slot v = \<lparr>con_spec = slot, con_key = '''', con_value = v, con_constructor = None, con_defaulted = True\<rparr>"

text \<open>The constructing variants; a nil constructor (\<^term>\<open>None\<close>) stays nil in \<^verbatim>\<open>wrapConstructor\<close>.\<close>

definition SetWith :: "slotSpec \<Rightarrow> 'v constructorFunc option \<Rightarrow> 'v contributionData" where
  "SetWith slot f = \<lparr>con_spec = slot, con_key = '''', con_value = NilAny, con_constructor = f, con_defaulted = False\<rparr>"

definition AddWith :: "slotSpec \<Rightarrow> string \<Rightarrow> 'v constructorFunc option \<Rightarrow> 'v contributionData" where
  "AddWith slot key f = \<lparr>con_spec = slot, con_key = key, con_value = NilAny, con_constructor = f, con_defaulted = False\<rparr>"

definition AppendWith :: "slotSpec \<Rightarrow> 'v constructorFunc option \<Rightarrow> 'v contributionData" where
  "AppendWith slot f = \<lparr>con_spec = slot, con_key = '''', con_value = NilAny, con_constructor = f, con_defaulted = False\<rparr>"

definition SetDefaultWith :: "slotSpec \<Rightarrow> 'v constructorFunc option \<Rightarrow> 'v contributionData" where
  "SetDefaultWith slot f = (SetWith slot f)\<lparr>con_defaulted := True\<rparr>"

definition AddDefaultWith :: "slotSpec \<Rightarrow> string \<Rightarrow> 'v constructorFunc option \<Rightarrow> 'v contributionData" where
  "AddDefaultWith slot key f = (AddWith slot key f)\<lparr>con_defaulted := True\<rparr>"

definition AppendDefaultWith :: "slotSpec \<Rightarrow> 'v constructorFunc option \<Rightarrow> 'v contributionData" where
  "AppendDefaultWith slot f = (AppendWith slot f)\<lparr>con_defaulted := True\<rparr>"

section \<open>The registry\<close>

record 'v registeredValue =
  rv_owner :: string
  rv_key :: string
  rv_value :: "'v any"
  rv_constructor :: "'v constructorFunc option"
  rv_ordinal :: uint64
  rv_defaulted :: bool

record 'v slotRecord =
  rec_spec :: slotSpec
  rec_values :: "'v registeredValue list"

record 'v registryState =
  reg_byID :: "(string \<times> 'v slotRecord) list"
  reg_nextOrdinal :: uint64

definition newRegistryState :: "'v registryState" where
  "newRegistryState = \<lparr>reg_byID = [], reg_nextOrdinal = 0\<rparr>"

abbreviation slot_of :: "'v registryState \<Rightarrow> string \<Rightarrow> 'v slotRecord option" where
  "slot_of st i \<equiv> map_of (reg_byID st) i"

definition put_slot :: "string \<Rightarrow> 'v slotRecord \<Rightarrow> 'v registryState \<Rightarrow> 'v registryState" where
  "put_slot i r st = st\<lparr>reg_byID := AList.update i r (reg_byID st)\<rparr>"

definition contributionCheck :: "'v contributionData \<Rightarrow> KernelError option" where
  "contributionCheck d = first_error
     [check (con_constructor d = None \<and> isNil (con_value d)) (ErrInvalidContribution (spec_id (con_spec d))),
      check (con_constructor d \<noteq> None \<and> \<not> isNil (con_value d)) (ErrInvalidContribution (spec_id (con_spec d))),
      check (spec_kind (con_spec d) = manyKind \<and> badName (con_key d)) (ErrInvalidKey (spec_id (con_spec d)) (con_key d))]"

definition sameDefinition :: "slotSpec \<Rightarrow> slotSpec \<Rightarrow> bool" where
  "sameDefinition a b \<longleftrightarrow> spec_kind a = spec_kind b \<and> spec_valueType a = spec_valueType b"

text \<open>The cardinality check of \<^verbatim>\<open>apply\<close>: an explicit contribution may not meet another explicit one.\<close>

definition occupied :: "'v contributionData \<Rightarrow> 'v registeredValue list \<Rightarrow> KernelError option" where
  "occupied d vs = (case spec_kind (con_spec d) of
      oneKind \<Rightarrow> (case List.find (\<lambda>v. \<not> rv_defaulted v \<and> \<not> con_defaulted d) vs of
          None \<Rightarrow> None | Some v \<Rightarrow> Some (ErrSlotOccupied (spec_id (con_spec d)) [rv_owner v]))
    | manyKind \<Rightarrow> check (\<exists>v \<in> set vs. rv_key v = con_key d \<and> \<not> rv_defaulted v \<and> \<not> con_defaulted d)
        (ErrDuplicateKey (spec_id (con_spec d)) (con_key d))
    | chainKind \<Rightarrow> None
    | slotKind_other _ \<Rightarrow> Some (ErrInvalidContribution (spec_id (con_spec d))))"

definition registered :: "string \<Rightarrow> 'v contributionData \<Rightarrow> uint64 \<Rightarrow> 'v registeredValue" where
  "registered owner d n = \<lparr>rv_owner = owner, rv_key = con_key d, rv_value = con_value d, rv_constructor = con_constructor d,
     rv_ordinal = n, rv_defaulted = con_defaulted d\<rparr>"

definition apply_contribution :: "string \<Rightarrow> 'v registryState \<Rightarrow> 'v contributionData option \<Rightarrow> KernelError option \<times> 'v registryState" where
  "apply_contribution owner st c = (case c of
      None \<Rightarrow> (Some (ErrInvalidContribution ''''), st)
    | Some d \<Rightarrow> (case contributionCheck d of
        Some e \<Rightarrow> (Some e, st)
      | None \<Rightarrow>
          (let i = spec_id (con_spec d);
               r = (case slot_of st i of None \<Rightarrow> \<lparr>rec_spec = con_spec d, rec_values = []\<rparr> | Some r \<Rightarrow> r) in
           if \<not> sameDefinition (rec_spec r) (con_spec d) then (Some (ErrSlotConflict i), st)
           else case occupied d (rec_values r) of
               Some e \<Rightarrow> (Some e, put_slot i r st)
             | None \<Rightarrow>
                 let n = reg_nextOrdinal st + 1 in
                 (None, put_slot i (r\<lparr>rec_values := rec_values r @ [registered owner d n]\<rparr>) (st\<lparr>reg_nextOrdinal := n\<rparr>)))))"

section \<open>Registration\<close>

record 'v registration =
  rgn_owner :: string
  rgn_state :: "'v registryState"
  rgn_open :: bool
  rgn_failed :: "KernelError option"

definition Contribute :: "'v contributionData option list \<Rightarrow> 'v registration \<Rightarrow> KernelError option \<times> 'v registration" where
  "Contribute cs r =
     (if \<not> rgn_open r then (Some ErrRegistrationClosed, r)
      else case rgn_failed r of
          Some e \<Rightarrow> (Some e, r)
        | None \<Rightarrow> (case foldS (apply_contribution (rgn_owner r)) (rgn_state r) cs of
              (Some e, st) \<Rightarrow> (Some e, r\<lparr>rgn_state := st, rgn_failed := Some e\<rparr>)
            | (None, st) \<Rightarrow> (None, r\<lparr>rgn_state := st\<rparr>)))"

datatype 'v registerFunc =
    Finish "KernelError option"
  | Call "'v contributionData option list" "KernelError option \<Rightarrow> 'v registerFunc"

primrec runRegister :: "'v registerFunc \<Rightarrow> 'v registration \<Rightarrow> KernelError option \<times> 'v registration" where
  "runRegister (Finish e) r = (e, r)"
| "runRegister (Call cs k) r = (case Contribute cs r of (e, r') \<Rightarrow> runRegister (k e) r')"

record Requirement =
  req_spec :: slotSpec
  req_key :: string
  req_keyed :: bool
  req_minimum :: int
  req_optional :: bool

text \<open>A module: its optional capabilities are \<^verbatim>\<open>SlotRequirer\<close> and \<^verbatim>\<open>Lifecycle\<close>.\<close>

record 'v Module =
  mod_ID :: string
  mod_Register :: "'v registerFunc"
  mod_RequiredSlots :: "Requirement list option"
  mod_Lifecycle :: bool

record 'v installedModule =
  im_id :: string
  im_module :: "'v Module"
  im_requirements :: "Requirement list"
  im_contributes :: bool

record 'v Builder =
  bld_state :: "'v registryState"
  bld_modules :: "'v installedModule list"
  bld_frozen :: bool

definition NewBuilder :: "'v Builder" where
  "NewBuilder = \<lparr>bld_state = newRegistryState, bld_modules = [], bld_frozen = False\<rparr>"

definition installCheck :: "'v Module \<Rightarrow> 'v Builder \<Rightarrow> KernelError option" where
  "installCheck m b = first_error
     [check (badName (mod_ID m)) (ErrInvalidModule (mod_ID m)),
      check (bld_frozen b) ErrBuilderFrozen,
      check (mod_ID m \<in> set (map im_id (bld_modules b))) (ErrDuplicateModule (mod_ID m))]"

definition Install :: "'v Module option \<Rightarrow> 'v Builder \<Rightarrow> KernelError option \<times> 'v Builder" where
  "Install module b = (case module of
      None \<Rightarrow> (Some (ErrInvalidModule ''''), b)
    | Some m \<Rightarrow> (case installCheck m b of
        Some e \<Rightarrow> (Some e, b)
      | None \<Rightarrow>
          (case runRegister (mod_Register m) \<lparr>rgn_owner = mod_ID m, rgn_state = bld_state b, rgn_open = True, rgn_failed = None\<rparr> of
            (err, r) \<Rightarrow>
              (case (case err of None \<Rightarrow> rgn_failed r | Some e \<Rightarrow> Some e) of
                 Some e \<Rightarrow> (Some (InModule (mod_ID m) e), b)
               | None \<Rightarrow> (None, b\<lparr>bld_state := rgn_state r, bld_modules := bld_modules b @
                   [\<lparr>im_id = mod_ID m, im_module = m, im_requirements = [],
                     im_contributes = reg_nextOrdinal (rgn_state r) > reg_nextOrdinal (bld_state b)\<rparr>]\<rparr>)))))"

section \<open>Requirements\<close>

definition RequireOne :: "slotSpec \<Rightarrow> Requirement" where
  "RequireOne slot = \<lparr>req_spec = slot, req_key = '''', req_keyed = False, req_minimum = 1, req_optional = False\<rparr>"

definition OptionalOne :: "slotSpec \<Rightarrow> Requirement" where
  "OptionalOne slot = \<lparr>req_spec = slot, req_key = '''', req_keyed = False, req_minimum = 0, req_optional = True\<rparr>"

definition RequireMany :: "slotSpec \<Rightarrow> int \<Rightarrow> Requirement" where
  "RequireMany slot n = \<lparr>req_spec = slot, req_key = '''', req_keyed = False, req_minimum = n, req_optional = False\<rparr>"

definition OptionalMany :: "slotSpec \<Rightarrow> Requirement" where
  "OptionalMany slot = \<lparr>req_spec = slot, req_key = '''', req_keyed = False, req_minimum = 0, req_optional = True\<rparr>"

definition RequireKey :: "slotSpec \<Rightarrow> string \<Rightarrow> Requirement" where
  "RequireKey slot key = \<lparr>req_spec = slot, req_key = key, req_keyed = True, req_minimum = 1, req_optional = False\<rparr>"

definition RequireChain :: "slotSpec \<Rightarrow> int \<Rightarrow> Requirement" where
  "RequireChain slot n = \<lparr>req_spec = slot, req_key = '''', req_keyed = False, req_minimum = n, req_optional = False\<rparr>"

definition OptionalChain :: "slotSpec \<Rightarrow> Requirement" where
  "OptionalChain slot = \<lparr>req_spec = slot, req_key = '''', req_keyed = False, req_minimum = 0, req_optional = True\<rparr>"

end
