(* ===== verification/Slot_Resolution.thy ===== *)
theory Slot_Resolution
  imports Slot_Registry "HOL-Library.List_Lexorder" "HOL-Library.Char_ord"
begin

text \<open>
  The slot kernel, resolution half (\<^verbatim>\<open>defaults.go\<close>, \<^verbatim>\<open>dependency.go\<close>): default contributions, slot
  requirements, active modules and the dependency order of modules. Go's map iteration order is the
  argument \<open>ord\<close> where the result depends on it (which of several duplicate keys an error names).
\<close>

section \<open>Defaults\<close>

definition valuesByDefault :: "'v registeredValue list \<Rightarrow> bool \<Rightarrow> 'v registeredValue list" where
  "valuesByDefault vs d = filter (\<lambda>v. rv_defaulted v = d) vs"

definition explicitKeys :: "'v registeredValue list \<Rightarrow> string list" where
  "explicitKeys vs = map rv_key (filter (\<lambda>v. \<not> rv_defaulted v) vs)"

definition defaultKeys :: "'v registeredValue list \<Rightarrow> string list" where
  "defaultKeys vs = map rv_key (filter rv_defaulted vs)"

definition resolveManyDefaults :: "(string list \<Rightarrow> string list) \<Rightarrow> 'v slotRecord \<Rightarrow> KernelError + 'v registeredValue list" where
  "resolveManyDefaults ord r =
     (let vs = rec_values r in
      case List.find (\<lambda>key. count_list (defaultKeys vs) key > 1 \<and> key \<notin> set (explicitKeys vs)) (ord (remdups (defaultKeys vs))) of
        Some key \<Rightarrow> Inl (ErrDuplicateKey (spec_id (rec_spec r)) key)
      | None \<Rightarrow> Inr (filter (\<lambda>v. \<not> (rv_defaulted v \<and> rv_key v \<in> set (explicitKeys vs))) vs))"

definition resolveRecordDefaults :: "(string list \<Rightarrow> string list) \<Rightarrow> 'v slotRecord \<Rightarrow> KernelError + 'v registeredValue list" where
  "resolveRecordDefaults ord r =
     (let explicit = valuesByDefault (rec_values r) False; defaults = valuesByDefault (rec_values r) True in
      case spec_kind (rec_spec r) of
        oneKind \<Rightarrow> (if explicit \<noteq> [] then Inr explicit
          else if length defaults > 1 then Inl (ErrSlotOccupied (spec_id (rec_spec r)) [rv_owner (defaults ! 0), rv_owner (defaults ! 1)])
          else Inr defaults)
      | manyKind \<Rightarrow> resolveManyDefaults ord r
      | chainKind \<Rightarrow> Inr (if explicit \<noteq> [] then explicit else defaults)
      | slotKind_other _ \<Rightarrow> Inl (ErrInvalidContribution (spec_id (rec_spec r))))"

definition resolveDefaultContributions :: "(string list \<Rightarrow> string list) \<Rightarrow> 'v registryState \<Rightarrow> KernelError + 'v registryState" where
  "resolveDefaultContributions ord source =
     foldE (\<lambda>resolved i. bindE (resolveRecordDefaults ord (the (slot_of source i))) (\<lambda>vs.
         Inr (put_slot i \<lparr>rec_spec = rec_spec (the (slot_of source i)), rec_values = vs\<rparr> resolved)))
       \<lparr>reg_byID = [], reg_nextOrdinal = reg_nextOrdinal source\<rparr> (sort (map fst (reg_byID source)))"

definition activeModules :: "'v registryState \<Rightarrow> 'v installedModule list \<Rightarrow> 'v installedModule list" where
  "activeModules st installed =
     (let owners = concat (map (\<lambda>(_, r). map rv_owner (rec_values r)) (reg_byID st)) in
      filter (\<lambda>m. \<not> im_contributes m \<or> im_id m \<in> set owners) installed)"

section \<open>Requirements\<close>

definition validateRequirement :: "Requirement \<Rightarrow> KernelError option" where
  "validateRequirement r =
     (let i = spec_id (req_spec r); bad = ErrInvalidRequirement i in
      if i = '''' \<or> spec_valueType (req_spec r) = None then Some bad
      else case spec_kind (req_spec r) of
        oneKind \<Rightarrow>
          (let validMinimum = (req_minimum r = 1 \<and> \<not> req_optional r); validOptional = (req_minimum r = 0 \<and> req_optional r) in
           check (req_keyed r \<or> req_key r \<noteq> '''' \<or> \<not> validMinimum \<and> \<not> validOptional) bad)
      | manyKind \<Rightarrow> first_error
          [check (req_minimum r < 1 \<and> \<not> req_optional r) bad,
           check (req_optional r \<and> req_minimum r \<noteq> 0) bad,
           check (req_keyed r \<and> badName (req_key r)) bad,
           check (\<not> req_keyed r \<and> req_key r \<noteq> '''') bad]
      | chainKind \<Rightarrow> check (req_keyed r \<or> req_key r \<noteq> '''' \<or> req_minimum r < 1 \<and> \<not> req_optional r \<or> req_optional r \<and> req_minimum r \<noteq> 0) bad
      | slotKind_other _ \<Rightarrow> Some bad)"

definition resolveRequirement :: "'v registryState \<Rightarrow> Requirement \<Rightarrow> KernelError + 'v registeredValue list" where
  "resolveRequirement st r = guardE (validateRequirement r)
     (let i = spec_id (req_spec r) in
      case slot_of st i of
        None \<Rightarrow> (if req_optional r then Inr [] else Inl (ErrRequirementUnsatisfied i ''''))
      | Some rec \<Rightarrow>
          if \<not> sameDefinition (rec_spec rec) (req_spec r) then Inl (ErrSlotConflict i)
          else if req_keyed r then
            (case List.find (\<lambda>v. rv_key v = req_key r) (rec_values rec) of
               Some v \<Rightarrow> Inr [v] | None \<Rightarrow> Inl (ErrRequirementUnsatisfied i (req_key r)))
          else if int (length (rec_values rec)) < req_minimum r then Inl (ErrRequirementUnsatisfied i '''')
          else Inr (rec_values rec))"

section \<open>The order of modules\<close>

text \<open>
  Modules are numbered by their position. The graph has an edge from a provider to its consumer, and
  \<open>indegree\<close> counts the edges into each module.
\<close>

record graph =
  g_edges :: "(nat \<times> nat) list"
  g_indegree :: "int list"

definition ownerIndex :: "'v installedModule list \<Rightarrow> string \<Rightarrow> nat option" where
  "ownerIndex ms i = List.find (\<lambda>k. im_id (ms ! k) = i) (rev [0..<length ms])"

definition linkProvider :: "'v installedModule list \<Rightarrow> nat \<Rightarrow> graph \<Rightarrow> 'v registeredValue \<Rightarrow> KernelError + graph" where
  "linkProvider ms c g v = (case ownerIndex ms (rv_owner v) of
      None \<Rightarrow> Inl (UnknownProvider (im_id (ms ! c)) (rv_owner v))
    | Some p \<Rightarrow>
        if p = c then Inr g
        else if (p, c) \<in> set (g_edges g) then Inr g
        else Inr \<lparr>g_edges = g_edges g @ [(p, c)], g_indegree = (g_indegree g)[c := g_indegree g ! c + 1]\<rparr>)"

definition linkRequirement :: "'v registryState \<Rightarrow> 'v installedModule list \<Rightarrow> nat \<Rightarrow> graph \<Rightarrow> Requirement \<Rightarrow> KernelError + graph" where
  "linkRequirement st ms c g r =
     bindE (map_error (InModule (im_id (ms ! c))) (resolveRequirement st r)) (foldE (linkProvider ms c) g)"

definition declared :: "'v installedModule \<Rightarrow> Requirement list" where
  "declared m = (case mod_RequiredSlots (im_module m) of None \<Rightarrow> [] | Some rs \<Rightarrow> rs)"

definition withRequirements :: "'v installedModule \<Rightarrow> 'v installedModule" where
  "withRequirements m = (case mod_RequiredSlots (im_module m) of None \<Rightarrow> m | Some rs \<Rightarrow> m\<lparr>im_requirements := rs\<rparr>)"

definition dependencyGraph :: "'v registryState \<Rightarrow> 'v installedModule list \<Rightarrow> KernelError + graph" where
  "dependencyGraph st ms = foldE (\<lambda>g c. foldE (linkRequirement st ms c) g (declared (ms ! c)))
     \<lparr>g_edges = [], g_indegree = replicate (length ms) 0\<rparr> [0..<length ms]"

definition release :: "(nat \<times> nat) list \<Rightarrow> nat \<Rightarrow> int list \<Rightarrow> int list" where
  "release edges c indegree = fold (\<lambda>(p, x) d. if p = c then d[x := d ! x - 1] else d) edges indegree"

text \<open>The loop that emits the first module without an unemitted provider; \<^term>\<open>Inl\<close> lists what is left in a cycle.\<close>

function emitLoop :: "nat \<Rightarrow> (nat \<times> nat) list \<Rightarrow> bool list \<Rightarrow> int list \<Rightarrow> nat list \<Rightarrow> nat list + nat list" where
  "emitLoop n edges emitted indegree ordered =
     (if length ordered < n then
        (case List.find (\<lambda>i. \<not> emitted ! i \<and> indegree ! i = 0) [0..<n] of
           None \<Rightarrow> Inl (filter (\<lambda>i. \<not> emitted ! i) [0..<n])
         | Some c \<Rightarrow> emitLoop n edges (emitted[c := True]) (release edges c indegree) (ordered @ [c]))
      else Inr ordered)"
  by pat_completeness auto
termination by (relation "measure (\<lambda>(n, edges, emitted, indegree, ordered). n - length ordered)") auto

declare emitLoop.simps [simp del]

definition orderModules :: "'v registryState \<Rightarrow> 'v installedModule list \<Rightarrow> KernelError + 'v installedModule list" where
  "orderModules st installed =
     bindE (dependencyGraph st installed) (\<lambda>g.
       let ms = map withRequirements installed in
       case emitLoop (length ms) (g_edges g) (replicate (length ms) False) (g_indegree g) [] of
         Inl rest \<Rightarrow> Inl (ErrDependencyCycle (map (\<lambda>i. im_id (ms ! i)) rest))
       | Inr ordered \<Rightarrow> Inr (map ((!) ms) ordered))"

end
