(* ===== verification/Slot_Build.thy ===== *)
theory Slot_Build
  imports Slot_Resolution "HOL-Library.Product_Lexorder"
begin

text \<open>
  The slot kernel, construction half (\<^verbatim>\<open>resolver.go\<close>, \<^verbatim>\<open>builder.go\<close> Build, \<^verbatim>\<open>slot.go\<close> queries,
  \<^verbatim>\<open>description.go\<close>, \<^verbatim>\<open>lifecycle.go\<close>, \<^verbatim>\<open>application.go\<close>). The argument \<open>impl\<close> is Go's type
  assertion: \<open>impl t T\<close> when a value of dynamic type \<open>t\<close> asserts to \<open>T\<close>. The outcomes of the modules'
  lifecycle methods and of \<^verbatim>\<open>ctx.Err()\<close> are functions of the calls made so far, and those calls are the
  trace that starting and stopping return.
\<close>

section \<open>The resolver\<close>

record 'v resolverScope =
  scp_state :: "'v registryState"
  scp_requirements :: "Requirement list"
  scp_open :: bool

definition declaredRequirement :: "Requirement list \<Rightarrow> slotSpec \<Rightarrow> string \<Rightarrow> bool \<Rightarrow> Requirement option" where
  "declaredRequirement rs spec key keyed =
     List.find (\<lambda>r. req_spec r = spec \<and> req_keyed r = keyed \<and> (keyed \<longrightarrow> req_key r = key)) rs"

definition pendingValue :: "'v registeredValue \<Rightarrow> bool" where
  "pendingValue v \<longleftrightarrow> rv_constructor v \<noteq> None \<or> isNil (rv_value v)"

definition resolve :: "'v resolverScope option \<Rightarrow> slotSpec \<Rightarrow> string \<Rightarrow> bool \<Rightarrow> KernelError + 'v registeredValue list" where
  "resolve scope spec key keyed = (case scope of
      None \<Rightarrow> Inl ErrResolverClosed
    | Some s \<Rightarrow> guardE (check (\<not> scp_open s) ErrResolverClosed)
        (case declaredRequirement (scp_requirements s) spec key keyed of
           None \<Rightarrow> Inl (ErrDependencyUndeclared (spec_id spec))
         | Some r \<Rightarrow> bindE (resolveRequirement (scp_state s) r) (\<lambda>vs.
             case List.find pendingValue vs of
               Some v \<Rightarrow> Inl (ErrDependencyNotReady (spec_id spec) (rv_owner v))
             | None \<Rightarrow> Inr vs)))"

definition view :: "'v registeredValue \<Rightarrow> string \<times> string \<times> 'v any" where
  "view v = (rv_owner v, rv_key v, rv_value v)"

primrec runConstructor :: "'v resolverScope \<Rightarrow> 'v constructorFunc \<Rightarrow> KernelError + 'v any" where
  "runConstructor scope (Done r) = r"
| "runConstructor scope (Ask spec key keyed k) =
     runConstructor scope (k (bindE (resolve (Some scope) spec key keyed) (\<lambda>vs. Inr (map view vs))))"

text \<open>The typed queries a constructor asks. The slot's value type is the type that the values assert to.\<close>

fun assertsTo :: "(Type \<Rightarrow> Type \<Rightarrow> bool) \<Rightarrow> slotSpec \<Rightarrow> 'v any \<Rightarrow> bool" where
  "assertsTo impl slot NilAny = False"
| "assertsTo impl slot (Any t n v) = (case spec_valueType slot of None \<Rightarrow> False | Some T \<Rightarrow> impl t T)"

definition resolvedValue :: "(Type \<Rightarrow> Type \<Rightarrow> bool) \<Rightarrow> slotSpec \<Rightarrow> string \<times> string \<times> 'v any \<Rightarrow> KernelError + 'v any" where
  "resolvedValue impl slot r = (case r of (owner, key, v) \<Rightarrow> if assertsTo impl slot v then Inr v else Inl (ErrInvalidContribution owner))"

definition ResolveOne :: "(Type \<Rightarrow> Type \<Rightarrow> bool) \<Rightarrow> slotSpec \<Rightarrow> (KernelError + 'v any \<Rightarrow> 'v constructorFunc) \<Rightarrow> 'v constructorFunc" where
  "ResolveOne impl slot k = Ask slot '''' False (\<lambda>r. k (bindE r (\<lambda>vs. case vs of
      [] \<Rightarrow> Inl (ErrRequirementUnsatisfied (spec_id slot) '''') | v # _ \<Rightarrow> resolvedValue impl slot v)))"

definition ResolveOptionalOne :: "(Type \<Rightarrow> Type \<Rightarrow> bool) \<Rightarrow> slotSpec \<Rightarrow> (KernelError + 'v any option \<Rightarrow> 'v constructorFunc) \<Rightarrow> 'v constructorFunc" where
  "ResolveOptionalOne impl slot k = Ask slot '''' False (\<lambda>r. k (bindE r (\<lambda>vs. case vs of
      [] \<Rightarrow> Inr None | v # _ \<Rightarrow> bindE (resolvedValue impl slot v) (\<lambda>x. Inr (Some x)))))"

text \<open>An empty answer to a keyed question would be an index panic; \<open>keyed_resolves_one\<close> shows there is none.\<close>

definition ResolveKey :: "(Type \<Rightarrow> Type \<Rightarrow> bool) \<Rightarrow> slotSpec \<Rightarrow> string \<Rightarrow> (KernelError + 'v any \<Rightarrow> 'v constructorFunc) \<Rightarrow> 'v constructorFunc" where
  "ResolveKey impl slot key k = Ask slot key True (\<lambda>r. case r of
      Inl e \<Rightarrow> k (Inl e)
    | Inr [] \<Rightarrow> Done (Inl (ModuleError ''index out of range''))
    | Inr (v # _) \<Rightarrow> k (resolvedValue impl slot v))"

definition ResolveMany :: "(Type \<Rightarrow> Type \<Rightarrow> bool) \<Rightarrow> slotSpec \<Rightarrow> (KernelError + (string \<times> 'v any) list \<Rightarrow> 'v constructorFunc) \<Rightarrow> 'v constructorFunc" where
  "ResolveMany impl slot k = Ask slot '''' False (\<lambda>r. k (bindE r (\<lambda>vs.
      foldE (\<lambda>named v. bindE (resolvedValue impl slot v) (\<lambda>x. Inr (named @ [(fst (snd v), x)]))) [] vs)))"

definition ResolveChain :: "(Type \<Rightarrow> Type \<Rightarrow> bool) \<Rightarrow> slotSpec \<Rightarrow> (KernelError + 'v any list \<Rightarrow> 'v constructorFunc) \<Rightarrow> 'v constructorFunc" where
  "ResolveChain impl slot k = Ask slot '''' False (\<lambda>r. k (bindE r (\<lambda>vs.
      foldE (\<lambda>xs v. bindE (resolvedValue impl slot v) (\<lambda>x. Inr (xs @ [x]))) [] vs)))"

section \<open>Materialization\<close>

record materializationTarget =
  tgt_slot :: string
  tgt_index :: nat
  tgt_ordinal :: uint64

definition slotTargets :: "string \<Rightarrow> string \<times> 'v slotRecord \<Rightarrow> materializationTarget list" where
  "slotTargets owner s = (case s of (i, r) \<Rightarrow>
     map (\<lambda>(k, v). \<lparr>tgt_slot = i, tgt_index = k, tgt_ordinal = rv_ordinal v\<rparr>)
       (filter (\<lambda>(k, v). rv_owner v = owner \<and> rv_constructor v \<noteq> None) (enumerate 0 (rec_values r))))"

definition constructorTargetsForOwner :: "'v registryState \<Rightarrow> string \<Rightarrow> materializationTarget list" where
  "constructorTargetsForOwner st owner = sort_key tgt_ordinal (concat (map (slotTargets owner) (reg_byID st)))"

definition materializeTarget :: "'v installedModule \<Rightarrow> 'v registryState \<Rightarrow> materializationTarget \<Rightarrow> KernelError + 'v registryState" where
  "materializeTarget m st t =
     (let r = the (slot_of st (tgt_slot t)); v = rec_values r ! tgt_index t;
          scope = \<lparr>scp_state = st, scp_requirements = im_requirements m, scp_open = True\<rparr> in
      bindE (map_error (InSlot (im_id m) (spec_id (rec_spec r))) (runConstructor scope (the (rv_constructor v)))) (\<lambda>x.
        if isNil x then Inl (InSlot (im_id m) (spec_id (rec_spec r)) (ErrInvalidContribution ''''))
        else Inr (put_slot (tgt_slot t) (r\<lparr>rec_values := (rec_values r)[tgt_index t := v\<lparr>rv_value := x, rv_constructor := None\<rparr>]\<rparr>) st)))"

definition materializeModule :: "'v registryState \<Rightarrow> 'v installedModule \<Rightarrow> KernelError + 'v registryState" where
  "materializeModule st m = foldE (materializeTarget m) st (constructorTargetsForOwner st (im_id m))"

definition materializeConstructors :: "'v registryState \<Rightarrow> 'v installedModule list \<Rightarrow> KernelError + 'v registryState" where
  "materializeConstructors st ms = foldE materializeModule st ms"

section \<open>Building\<close>

record 'v Assembly =
  asm_state :: "'v registryState"
  asm_modules :: "'v installedModule list"
  asm_profile :: "Requirement list"
  asm_startAttempted :: bool

definition buildState :: "(string list \<Rightarrow> string list) \<Rightarrow> Requirement list \<Rightarrow> 'v Builder \<Rightarrow> KernelError + 'v Assembly" where
  "buildState ord profile b =
     bindE (resolveDefaultContributions ord (bld_state b)) (\<lambda>st.
     bindE (foldE (\<lambda>u r. bindE (resolveRequirement st r) (\<lambda>_. Inr ())) () profile) (\<lambda>_.
     bindE (orderModules st (activeModules st (bld_modules b))) (\<lambda>ms.
     bindE (materializeConstructors st ms) (\<lambda>st'.
       Inr \<lparr>asm_state = st', asm_modules = ms, asm_profile = profile, asm_startAttempted = False\<rparr>))))"

definition Build :: "(string list \<Rightarrow> string list) \<Rightarrow> Requirement list \<Rightarrow> 'v Builder \<Rightarrow> (KernelError + 'v Assembly) \<times> 'v Builder" where
  "Build ord profile b =
     (if bld_frozen b then (Inl ErrBuilderFrozen, b)
      else case buildState ord profile b of
          Inl e \<Rightarrow> (Inl e, b)
        | Inr asm \<Rightarrow> (Inr asm, b\<lparr>bld_frozen := True\<rparr>))"

section \<open>Queries\<close>

text \<open>\<^term>\<open>Inl\<close> is a panic.\<close>

definition find_slot :: "'v Assembly \<Rightarrow> slotSpec \<Rightarrow> string + 'v slotRecord option" where
  "find_slot asm spec = (case slot_of (asm_state asm) (spec_id spec) of
      None \<Rightarrow> Inr None
    | Some r \<Rightarrow> if \<not> sameDefinition (rec_spec r) spec then Inl ''agentslot: slot was resolved with a conflicting definition'' else Inr (Some r))"

definition asserted :: "(Type \<Rightarrow> Type \<Rightarrow> bool) \<Rightarrow> slotSpec \<Rightarrow> string \<Rightarrow> 'v registeredValue \<Rightarrow> string + 'v any" where
  "asserted impl slot message v = (if assertsTo impl slot (rv_value v) then Inr (rv_value v) else Inl message)"

definition Get :: "(Type \<Rightarrow> Type \<Rightarrow> bool) \<Rightarrow> 'v Assembly \<Rightarrow> slotSpec \<Rightarrow> string + 'v any option" where
  "Get impl asm slot = bindE (find_slot asm slot) (\<lambda>r. case r of
      None \<Rightarrow> Inr None
    | Some rec \<Rightarrow> (case rec_values rec of [] \<Rightarrow> Inr None
        | v # _ \<Rightarrow> bindE (asserted impl slot ''agentslot: internal OneSlot value type invariant violated'' v) (\<lambda>x. Inr (Some x))))"

definition Lookup :: "(Type \<Rightarrow> Type \<Rightarrow> bool) \<Rightarrow> 'v Assembly \<Rightarrow> slotSpec \<Rightarrow> string \<Rightarrow> string + 'v any option" where
  "Lookup impl asm slot key = bindE (find_slot asm slot) (\<lambda>r. case r of
      None \<Rightarrow> Inr None
    | Some rec \<Rightarrow> (case List.find (\<lambda>v. rv_key v = key) (rec_values rec) of None \<Rightarrow> Inr None
        | Some v \<Rightarrow> bindE (asserted impl slot ''agentslot: internal ManySlot value type invariant violated'' v) (\<lambda>x. Inr (Some x))))"

definition All :: "(Type \<Rightarrow> Type \<Rightarrow> bool) \<Rightarrow> 'v Assembly \<Rightarrow> slotSpec \<Rightarrow> string + (string \<times> 'v any) list" where
  "All impl asm slot = bindE (find_slot asm slot) (\<lambda>r. case r of
      None \<Rightarrow> Inr []
    | Some rec \<Rightarrow> foldE (\<lambda>xs v. bindE (asserted impl slot ''agentslot: internal ManySlot value type invariant violated'' v)
        (\<lambda>x. Inr (xs @ [(rv_key v, x)]))) [] (rec_values rec))"

definition Ordered :: "(Type \<Rightarrow> Type \<Rightarrow> bool) \<Rightarrow> 'v Assembly \<Rightarrow> slotSpec \<Rightarrow> string + 'v any list" where
  "Ordered impl asm slot = bindE (find_slot asm slot) (\<lambda>r. case r of
      None \<Rightarrow> Inr []
    | Some rec \<Rightarrow> foldE (\<lambda>xs v. bindE (asserted impl slot ''agentslot: internal ChainSlot value type invariant violated'' v)
        (\<lambda>x. Inr (xs @ [x]))) [] (rec_values rec))"

section \<open>Description\<close>

record RequirementDescription =
  rd_Slot :: string
  rd_Kind :: string
  rd_Key :: string
  rd_Minimum :: int
  rd_Optional :: bool

record ContributionDescription =
  cd_Module :: string
  cd_Key :: string
  cd_Source :: string

record SlotDescription =
  sd_ID :: string
  sd_Kind :: string
  sd_ValueType :: string
  sd_Contributions :: "ContributionDescription list"

record ModuleDescription =
  md_ID :: string
  md_Requires :: "RequirementDescription list"

record AssemblyDescription =
  ad_Schema :: string
  ad_Modules :: "ModuleDescription list"
  ad_Slots :: "SlotDescription list"
  ad_Profile :: "RequirementDescription list"

definition describeRequirement :: "Requirement \<Rightarrow> RequirementDescription" where
  "describeRequirement r = \<lparr>rd_Slot = spec_id (req_spec r), rd_Kind = slotKind_String (spec_kind (req_spec r)), rd_Key = req_key r,
     rd_Minimum = req_minimum r, rd_Optional = req_optional r\<rparr>"

definition requirement_key :: "RequirementDescription \<Rightarrow> string \<times> string \<times> string \<times> int" where
  "requirement_key d = (rd_Slot d, rd_Kind d, rd_Key d, rd_Minimum d)"

definition describeRequirements :: "Requirement list \<Rightarrow> RequirementDescription list" where
  "describeRequirements rs = sort_key requirement_key (map describeRequirement rs)"

definition describeContribution :: "'v registeredValue \<Rightarrow> ContributionDescription" where
  "describeContribution v = \<lparr>cd_Module = rv_owner v, cd_Key = rv_key v, cd_Source = (if rv_defaulted v then ''default'' else ''explicit'')\<rparr>"

definition describeSlot :: "string \<Rightarrow> 'v slotRecord \<Rightarrow> SlotDescription" where
  "describeSlot i r = \<lparr>sd_ID = i, sd_Kind = slotKind_String (spec_kind (rec_spec r)),
     sd_ValueType = (case spec_valueType (rec_spec r) of Some T \<Rightarrow> typ_String T | None \<Rightarrow> ''''),
     sd_Contributions = map describeContribution (rec_values r)\<rparr>"

definition Describe :: "'v Assembly \<Rightarrow> AssemblyDescription" where
  "Describe asm = \<lparr>ad_Schema = ''agentslot.assembly/v0'',
     ad_Modules = map (\<lambda>m. \<lparr>md_ID = im_id m, md_Requires = describeRequirements (im_requirements m)\<rparr>) (asm_modules asm),
     ad_Slots = map (\<lambda>i. describeSlot i (the (slot_of (asm_state asm) i))) (sort (map fst (reg_byID (asm_state asm)))),
     ad_Profile = describeRequirements (asm_profile asm)\<rparr>"

section \<open>Lifecycle\<close>

datatype lifeEvent = StartCall string | StopCall string

record lifeEnv =
  life_ctxErr :: "lifeEvent list \<Rightarrow> KernelError option"
  life_Start :: "lifeEvent list \<Rightarrow> string \<Rightarrow> KernelError option"
  life_Stop :: "lifeEvent list \<Rightarrow> string \<Rightarrow> KernelError option"

record Runtime =
  rt_active :: "string list"
  rt_stopped :: bool
  rt_stopErr :: "KernelError option"

text \<open>Stopping the modules of a list in its order, collecting every error.\<close>

fun stopEach :: "lifeEnv \<Rightarrow> lifeEvent list \<Rightarrow> string list \<Rightarrow> KernelError list \<times> lifeEvent list" where
  "stopEach env log [] = ([], log)"
| "stopEach env log (i # is) =
     (case stopEach env (log @ [StopCall i]) is of (errs, log') \<Rightarrow>
        ((case life_Stop env log i of Some e \<Rightarrow> InModule i e # errs | None \<Rightarrow> errs), log'))"

definition errors_Join :: "KernelError list \<Rightarrow> KernelError option" where
  "errors_Join es = (if es = [] then None else Some (Joined es))"

definition rollbackStart :: "lifeEnv \<Rightarrow> lifeEvent list \<Rightarrow> string list \<Rightarrow> string \<Rightarrow> KernelError \<Rightarrow> KernelError \<times> lifeEvent list" where
  "rollbackStart env log active failed e =
     (case stopEach env log (rev active) of (errs, log') \<Rightarrow> (Joined (InModule failed e # errs), log'))"

fun startLoop :: "lifeEnv \<Rightarrow> lifeEvent list \<Rightarrow> string list \<Rightarrow> 'v installedModule list \<Rightarrow> (KernelError + string list) \<times> lifeEvent list" where
  "startLoop env log active [] = (Inr active, log)"
| "startLoop env log active (m # ms) =
     (if \<not> mod_Lifecycle (im_module m) then startLoop env log active ms
      else case life_ctxErr env log of
          Some e \<Rightarrow> (case rollbackStart env log active (im_id m) e of (err, log') \<Rightarrow> (Inl err, log'))
        | None \<Rightarrow> (case life_Start env log (im_id m) of
              Some e \<Rightarrow> (case rollbackStart env (log @ [StartCall (im_id m)]) active (im_id m) e of (err, log') \<Rightarrow> (Inl err, log'))
            | None \<Rightarrow> startLoop env (log @ [StartCall (im_id m)]) (active @ [im_id m]) ms))"

definition Assembly_Start :: "lifeEnv \<Rightarrow> lifeEvent list \<Rightarrow> 'v Assembly \<Rightarrow> (KernelError + Runtime) \<times> lifeEvent list \<times> 'v Assembly" where
  "Assembly_Start env log asm =
     (if asm_startAttempted asm then (Inl ErrAssemblyStarted, log, asm)
      else case startLoop env log [] (asm_modules asm) of (r, log') \<Rightarrow>
        (bindE r (\<lambda>active. Inr \<lparr>rt_active = active, rt_stopped = False, rt_stopErr = None\<rparr>), log', asm\<lparr>asm_startAttempted := True\<rparr>))"

definition Runtime_Stop :: "lifeEnv \<Rightarrow> lifeEvent list \<Rightarrow> Runtime \<Rightarrow> KernelError option \<times> lifeEvent list \<times> Runtime" where
  "Runtime_Stop env log rt =
     (if rt_stopped rt then (rt_stopErr rt, log, rt)
      else case stopEach env log (rev (rt_active rt)) of (errs, log') \<Rightarrow>
        (errors_Join errs, log', rt\<lparr>rt_stopped := True, rt_stopErr := errors_Join errs\<rparr>))"

section \<open>Application\<close>

record 'v Application =
  app_name :: string
  app_modules :: "'v Module option list"
  app_mounted :: nat
  app_builder :: "'v Builder"
  app_profile :: "Requirement list"
  app_assembly :: "'v Assembly option"

definition NewApplication :: "string \<Rightarrow> 'v Module option list \<Rightarrow> Requirement list \<Rightarrow> 'v Application" where
  "NewApplication name ms rs = \<lparr>app_name = name, app_modules = ms, app_mounted = 0, app_builder = NewBuilder, app_profile = rs, app_assembly = None\<rparr>"

fun mountAll :: "'v Module option list \<Rightarrow> 'v Application \<Rightarrow> KernelError option \<times> 'v Application" where
  "mountAll [] a = (None, a)"
| "mountAll (m # ms) a = (case Install m (app_builder a) of
      (Some e, b) \<Rightarrow> (Some (InModule (app_name a) e), a\<lparr>app_builder := b\<rparr>)
    | (None, b) \<Rightarrow> mountAll ms (a\<lparr>app_builder := b, app_mounted := app_mounted a + 1\<rparr>))"

definition Application_Build :: "(string list \<Rightarrow> string list) \<Rightarrow> 'v Application \<Rightarrow> (KernelError + 'v Assembly) \<times> 'v Application" where
  "Application_Build ord a = (case app_assembly a of
      Some asm \<Rightarrow> (Inr asm, a)
    | None \<Rightarrow>
        if badName (app_name a) then (Inl (ErrInvalidApplication (app_name a)), a)
        else case mountAll (drop (app_mounted a) (app_modules a)) a of
            (Some e, a') \<Rightarrow> (Inl e, a')
          | (None, a') \<Rightarrow> (case Build ord (app_profile a') (app_builder a') of
                (Inl e, b) \<Rightarrow> (Inl (InModule (app_name a) e), a'\<lparr>app_builder := b\<rparr>)
              | (Inr asm, b) \<Rightarrow> (Inr asm, a'\<lparr>app_builder := b, app_assembly := Some asm\<rparr>)))"

definition Application_Start :: "(string list \<Rightarrow> string list) \<Rightarrow> lifeEnv \<Rightarrow> lifeEvent list \<Rightarrow> 'v Application \<Rightarrow>
    (KernelError + Runtime) \<times> lifeEvent list \<times> 'v Application" where
  "Application_Start ord env log a = (case Application_Build ord a of
      (Inl e, a') \<Rightarrow> (Inl e, log, a')
    | (Inr asm, a') \<Rightarrow> (case Assembly_Start env log asm of (r, log', asm') \<Rightarrow>
        (map_error (InModule (app_name a)) r, log', a'\<lparr>app_assembly := Some asm'\<rparr>)))"

text \<open>Running: start, wait for the cancellation of the context, stop.\<close>

definition Application_Run :: "(string list \<Rightarrow> string list) \<Rightarrow> lifeEnv \<Rightarrow> lifeEvent list \<Rightarrow> 'v Application \<Rightarrow>
    KernelError option \<times> lifeEvent list \<times> 'v Application" where
  "Application_Run ord env log a = (case Application_Start ord env log a of
      (Inl e, log', a') \<Rightarrow> (Some e, log', a')
    | (Inr rt, log', a') \<Rightarrow> (case Runtime_Stop env log' rt of (e, log'', _) \<Rightarrow> (map_option (InModule (app_name a)) e, log'', a')))"

end
