(* ===== verification/Slot_Order.thy ===== *)
theory Slot_Order
  imports Slot_Build "HOL-Library.Multiset"
begin

text \<open>
  The dependency order of modules: the loop of \<^verbatim>\<open>orderModules\<close> is a topological sort. The graph it walks
  holds exactly the provider relation of the declared requirements, an order is found exactly when that
  relation has no cycle, and every module comes after the modules it depends on.
\<close>

section \<open>Releasing the consumers of a module\<close>

lemma release_length [simp]: "length (release edges c d) = length d"
  unfolding release_def by (induction edges arbitrary: d) (auto split: prod.splits)

lemma release_nth:
  "distinct edges \<Longrightarrow> x < length d \<Longrightarrow> release edges c d ! x = (if (c, x) \<in> set edges then d ! x - 1 else d ! x)"
  unfolding release_def
proof (induction edges arbitrary: d)
  case (Cons e edges)
  obtain p b where e: "e = (p, b)" by (cases e)
  show ?case
  proof (cases "p = c \<and> b = x")
    case True
    then show ?thesis using Cons e by simp
  next
    case False
    then have "(if p = c then d[b := d ! b - 1] else d) ! x = d ! x" by auto
    then show ?thesis using Cons False e by auto
  qed
qed simp

section \<open>The loop\<close>

definition before_in :: "(nat \<times> nat) list \<Rightarrow> nat list \<Rightarrow> bool" where
  "before_in edges ordered \<longleftrightarrow> (\<forall>i < length ordered. \<forall>p. (p, ordered ! i) \<in> set edges \<longrightarrow> p \<in> set (take i ordered))"

definition graph_ok :: "nat \<Rightarrow> (nat \<times> nat) list \<Rightarrow> bool" where
  "graph_ok n edges \<longleftrightarrow> distinct edges \<and> set edges \<subseteq> {..<n} \<times> {..<n}"

definition waiting :: "(nat \<times> nat) list \<Rightarrow> bool list \<Rightarrow> nat \<Rightarrow> nat set" where
  "waiting edges emitted x = {p. (p, x) \<in> set edges \<and> \<not> emitted ! p}"

definition loop_ok :: "nat \<Rightarrow> (nat \<times> nat) list \<Rightarrow> bool list \<Rightarrow> int list \<Rightarrow> nat list \<Rightarrow> bool" where
  "loop_ok n edges emitted indegree ordered \<longleftrightarrow> length emitted = n \<and> length indegree = n \<and> distinct ordered \<and>
     set ordered = {i. i < n \<and> emitted ! i} \<and> (\<forall>x < n. indegree ! x = int (card (waiting edges emitted x))) \<and> before_in edges ordered"

lemma waiting_finite: "finite (waiting edges emitted x)"
proof (rule finite_subset)
  show "waiting edges emitted x \<subseteq> fst ` set edges" unfolding waiting_def by force
qed simp

lemma waiting_step:
  assumes "c < length emitted" "\<not> emitted ! c" "set edges \<subseteq> {..<length emitted} \<times> {..<length emitted}"
  shows "waiting edges (emitted[c := True]) x = waiting edges emitted x - {c}"
  using assms by (auto simp: waiting_def nth_list_update)

lemma card_remove: "finite A \<Longrightarrow> int (card (A - {c})) = (if c \<in> A then int (card A) - 1 else int (card A))"
  using card_Suc_Diff1 [of A c] by (cases "c \<in> A") simp_all

lemma loop_ok_step:
  assumes ok: "loop_ok n edges emitted indegree ordered" and g: "graph_ok n edges"
    and c: "c < n" "\<not> emitted ! c" "indegree ! c = 0"
  shows "loop_ok n edges (emitted[c := True]) (release edges c indegree) (ordered @ [c])"
proof -
  have l: "length emitted = n" "length indegree = n" "set ordered = {i. i < n \<and> emitted ! i}" "distinct ordered"
    "\<And>x. x < n \<Longrightarrow> indegree ! x = int (card (waiting edges emitted x))" "before_in edges ordered"
    using ok by (auto simp: loop_ok_def)
  have empty: "waiting edges emitted c = {}" using l(5) [OF c(1)] c(3) waiting_finite [of edges emitted c] by simp
  have "release edges c indegree ! x = int (card (waiting edges (emitted[c := True]) x))" if "x < n" for x
  proof -
    have "(c, x) \<in> set edges \<longleftrightarrow> c \<in> waiting edges emitted x" using c(2) by (simp add: waiting_def)
    moreover have "release edges c indegree ! x = (if (c, x) \<in> set edges then indegree ! x - 1 else indegree ! x)"
      using g l(2) that by (intro release_nth) (auto simp: graph_ok_def)
    moreover have "waiting edges (emitted[c := True]) x = waiting edges emitted x - {c}"
      using waiting_step c l(1) g by (simp add: graph_ok_def)
    ultimately show ?thesis using l(5) [OF that] card_remove [OF waiting_finite, of edges emitted x c] by simp
  qed
  moreover have "before_in edges (ordered @ [c])"
  proof -
    have "p \<in> set ordered" if "(p, c) \<in> set edges" for p
      using that empty g l(3) by (auto simp: waiting_def graph_ok_def)
    then show ?thesis using l(6) by (auto simp: before_in_def nth_append less_Suc_eq)
  qed
  moreover have "set (ordered @ [c]) = {i. i < n \<and> emitted[c := True] ! i}" using l c(1) by (auto simp: nth_list_update)
  ultimately show ?thesis using l c by (simp add: loop_ok_def)
qed

lemma loop_ok_length: "loop_ok n edges emitted indegree ordered \<Longrightarrow> length ordered = card {i. i < n \<and> emitted ! i}"
  unfolding loop_ok_def by (metis distinct_card)

lemma find_upt_Some: "List.find P [0..<n] = Some c \<Longrightarrow> c < n \<and> P c"
  by (auto simp: find_Some_iff)

lemma rest_cyclic:
  assumes "R \<noteq> {}" "finite R" "\<forall>x \<in> R. \<exists>p \<in> R. (p, x) \<in> r"
  shows "\<not> acyclic r"
proof
  assume "acyclic r"
  then have "acyclic (r \<inter> R \<times> R)" by (rule acyclic_subset) simp
  then have wf: "wf (r \<inter> R \<times> R)" using assms(2) by (intro finite_acyclic_wf) simp_all
  obtain x where "x \<in> R" using assms(1) by blast
  then obtain z where "z \<in> R" "\<And>y. (y, z) \<in> r \<inter> R \<times> R \<Longrightarrow> y \<notin> R" by (rule wfE_min [OF wf]) blast
  then show False using assms(3) by blast
qed

text \<open>A module is stuck when it is on a cycle or behind one.\<close>

definition behind_cycle :: "('a \<times> 'a) set \<Rightarrow> 'a \<Rightarrow> bool" where
  "behind_cycle r x \<longleftrightarrow> (\<exists>c. (c, c) \<in> r\<^sup>+ \<and> (c, x) \<in> r\<^sup>*)"

lemma rest_behind_cycle:
  assumes "finite R" "\<forall>x \<in> R. \<exists>p \<in> R. (p, x) \<in> r" "x \<in> R"
  shows "behind_cycle r x"
proof -
  let ?A = "{y \<in> R. (y, x) \<in> r\<^sup>*}"
  have "\<forall>y \<in> ?A. \<exists>p \<in> ?A. (p, y) \<in> r \<inter> ?A \<times> ?A" using assms(2) by (blast intro: converse_rtrancl_into_rtrancl)
  then have "\<not> acyclic (r \<inter> ?A \<times> ?A)" using assms(1,3) by (intro rest_cyclic [of ?A]) auto
  then obtain c where c: "(c, c) \<in> (r \<inter> ?A \<times> ?A)\<^sup>+" by (auto simp: acyclic_def)
  then have "c \<in> ?A" by (auto elim: tranclE)
  moreover have "(c, c) \<in> r\<^sup>+" using c by (rule trancl_mono) simp
  ultimately show ?thesis by (auto simp: behind_cycle_def)
qed

lemma before_in_trancl:
  assumes "before_in edges ordered" "(p, x) \<in> (set edges)\<^sup>+"
  shows "i < length ordered \<Longrightarrow> ordered ! i = x \<Longrightarrow> \<exists>j < i. ordered ! j = p"
  using assms(2)
proof (induction arbitrary: i rule: trancl_induct)
  case (base y)
  then have "p \<in> set (take i ordered)" using assms(1) by (auto simp: before_in_def)
  then show ?case using base(2) by (auto simp: in_set_conv_nth)
next
  case (step y z)
  then have "y \<in> set (take i ordered)" using assms(1) by (auto simp: before_in_def)
  then obtain k where "k < i" "ordered ! k = y" using step(4) by (auto simp: in_set_conv_nth)
  then show ?case using step.IH [of k] step(4) by (meson less_trans)
qed

lemma before_in_not_behind:
  assumes "before_in edges ordered" "x \<in> set ordered"
  shows "\<not> behind_cycle (set edges) x"
proof
  assume "behind_cycle (set edges) x"
  then obtain c where c: "(c, c) \<in> (set edges)\<^sup>+" "(c, x) \<in> (set edges)\<^sup>*" by (auto simp: behind_cycle_def)
  obtain k where "k < length ordered" "ordered ! k = x" using assms(2) by (auto simp: in_set_conv_nth)
  then have "\<exists>i. i < length ordered \<and> ordered ! i = c"
    using c(2) before_in_trancl [OF assms(1), of c x k] by (metis less_trans rtrancl_eq_or_trancl)
  then have least: "(LEAST i. i < length ordered \<and> ordered ! i = c) < length ordered \<and> ordered ! (LEAST i. i < length ordered \<and> ordered ! i = c) = c"
    by (rule LeastI_ex)
  then show False using before_in_trancl [OF assms(1) c(1)] not_less_Least by (metis (mono_tags, lifting) order.strict_trans)
qed

lemma emitLoop_result:
  assumes "loop_ok n edges emitted indegree ordered" "graph_ok n edges"
  shows "case emitLoop n edges emitted indegree ordered of
      Inr order \<Rightarrow> distinct order \<and> set order = {..<n} \<and> before_in edges order
    | Inl rest \<Rightarrow> rest \<noteq> [] \<and> rest = filter (behind_cycle (set edges)) [0..<n] \<and> (\<forall>x \<in> set rest. \<exists>p \<in> set rest. (p, x) \<in> set edges)"
  using assms
proof (induction n edges emitted indegree ordered rule: emitLoop.induct)
  case (1 n edges emitted indegree ordered)
  note l = 1(2) [unfolded loop_ok_def]
  show ?case
  proof (cases "length ordered < n")
    case False
    have sub: "set ordered \<subseteq> {..<n}" using l by auto
    moreover have "card (set ordered) = length ordered" using l distinct_card by blast
    ultimately have "set ordered = {..<n}" using False by (intro card_subset_eq) (auto dest: card_mono [OF finite_lessThan])
    then show ?thesis using l False by (subst emitLoop.simps) simp
  next
    case True
    show ?thesis
    proof (cases "List.find (\<lambda>i. \<not> emitted ! i \<and> indegree ! i = 0) [0..<n]")
      case (Some c)
      then have c: "c < n" "\<not> emitted ! c" "indegree ! c = 0" using find_upt_Some by blast+
      show ?thesis using 1(1) [OF True Some loop_ok_step [OF 1(2,3) c] 1(3)] True Some by (subst emitLoop.simps) simp
    next
      case None
      let ?rest = "filter (\<lambda>i. \<not> emitted ! i) [0..<n]"
      have ex: "\<exists>i < n. \<not> emitted ! i"
      proof (rule ccontr)
        assume "\<not> (\<exists>i < n. \<not> emitted ! i)"
        then have "{i. i < n \<and> emitted ! i} = {..<n}" by auto
        then show False using loop_ok_length [OF 1(2)] True by simp
      qed
      have pred: "\<exists>p \<in> set ?rest. (p, x) \<in> set edges" if "x \<in> set ?rest" for x
      proof -
        have "indegree ! x \<noteq> 0" using None that by (auto simp: find_None_iff)
        then have "waiting edges emitted x \<noteq> {}" using l that by auto
        then show ?thesis using 1(3) by (auto simp: waiting_def graph_ok_def)
      qed
      have "?rest = filter (behind_cycle (set edges)) [0..<n]"
      proof (rule filter_cong)
        fix x assume x: "x \<in> set [0..<n]"
        show "(\<not> emitted ! x) = behind_cycle (set edges) x"
          using rest_behind_cycle [of "set ?rest" "set edges" x] before_in_not_behind [of edges ordered x] pred l x by auto
      qed simp
      moreover have "?rest \<noteq> []" using ex by (auto simp: filter_empty_conv)
      moreover have "emitLoop n edges emitted indegree ordered = Inl ?rest" using True None by (subst emitLoop.simps) simp
      ultimately show ?thesis using pred by (simp only: sum.case) blast
    qed
  qed
qed

section \<open>Order and cycles\<close>

lemma before_in_acyclic:
  assumes "before_in edges order" "distinct order" "set order = {..<n}" "graph_ok n edges"
  shows "acyclic (set edges)"
proof -
  define pos where "pos x = (THE i. i < length order \<and> order ! i = x)" for x
  have pos: "pos (order ! i) = i" if "i < length order" for i
    unfolding pos_def using that assms(2) by (auto simp: nth_eq_iff_index_eq)
  have "pos p < pos x" if "(p, x) \<in> set edges" for p x
  proof -
    have "x \<in> set order" using that assms(3,4) by (auto simp: graph_ok_def)
    then obtain i where i: "i < length order" "order ! i = x" by (auto simp: in_set_conv_nth)
    then have "p \<in> set (take i order)" using that assms(1) by (auto simp: before_in_def)
    then obtain j where "j < i" "order ! j = p" using i(1) by (auto simp: in_set_conv_nth)
    then show ?thesis using pos i by auto
  qed
  then have "set edges \<subseteq> measure pos" by auto
  then show ?thesis by (metis acyclic_subset wf_acyclic wf_measure)
qed

section \<open>The graph\<close>

text \<open>The specification: module \<open>p\<close> provides a value that a requirement of module \<open>c\<close> resolves to.\<close>

definition provider_of :: "'v installedModule list \<Rightarrow> nat \<Rightarrow> 'v registeredValue \<Rightarrow> (nat \<times> nat) set" where
  "provider_of ms c v = {(p, x). x = c \<and> p \<noteq> c \<and> ownerIndex ms (rv_owner v) = Some p}"

definition provides :: "'v registryState \<Rightarrow> 'v installedModule list \<Rightarrow> (nat \<times> nat) set" where
  "provides st ms = (\<Union>c \<in> {..<length ms}. \<Union>r \<in> set (declared (ms ! c)). \<Union>v \<in> (case resolveRequirement st r of Inl _ \<Rightarrow> {} | Inr vs \<Rightarrow> set vs).
     provider_of ms c v)"

definition counted :: "nat \<Rightarrow> graph \<Rightarrow> bool" where
  "counted n g \<longleftrightarrow> graph_ok n (g_edges g) \<and> length (g_indegree g) = n \<and> (\<forall>x < n. g_indegree g ! x = int (card {p. (p, x) \<in> set (g_edges g)}))"

lemma ownerIndex_Some: "ownerIndex ms i = Some k \<Longrightarrow> k < length ms \<and> im_id (ms ! k) = i"
  by (auto simp: ownerIndex_def find_Some_iff rev_nth)

lemma ownerIndex_None: "ownerIndex ms i = None \<longleftrightarrow> i \<notin> set (map im_id ms)"
proof -
  have "set (map im_id ms) = (\<lambda>k. im_id (ms ! k)) ` {..<length ms}"
    unfolding set_conv_nth by (auto intro: exI [of "\<lambda>i. im_id (ms ! k) = map im_id ms ! i \<and> i < length ms" k for k])
  then show ?thesis by (auto simp: ownerIndex_def find_None_iff)
qed

lemma foldE_collect:
  assumes "\<And>g x g'. x \<in> set xs \<Longrightarrow> P g \<Longrightarrow> f g x = Inr g' \<Longrightarrow> P g' \<and> S g' = S g \<union> E x"
  shows "P g \<Longrightarrow> foldE f g xs = Inr g' \<Longrightarrow> P g' \<and> S g' = S g \<union> (\<Union>x \<in> set xs. E x)"
  using assms
proof (induction xs arbitrary: g)
  case (Cons x xs)
  from Cons.prems(2) obtain h where h: "f g x = Inr h" "foldE f h xs = Inr g'" by auto
  have "P h \<and> S h = S g \<union> E x" using Cons.prems(3) [of x g h] Cons.prems(1) h(1) by simp
  then show ?case using Cons.IH [of h] Cons.prems(3) h(2) by auto
qed simp

lemma linkProvider_collect:
  assumes "counted (length ms) g" "linkProvider ms c g v = Inr g'" "c < length ms"
  shows "counted (length ms) g' \<and> set (g_edges g') = set (g_edges g) \<union> provider_of ms c v"
proof -
  obtain p where p: "ownerIndex ms (rv_owner v) = Some p" using assms(2) by (cases "ownerIndex ms (rv_owner v)") (auto simp: linkProvider_def)
  then have b: "p < length ms" using ownerIndex_Some by blast
  show ?thesis
  proof (cases "p = c \<or> (p, c) \<in> set (g_edges g)")
    case True
    then have "g' = g" using assms(2) p by (auto simp: linkProvider_def split: if_splits)
    then show ?thesis using True assms(1) p by (auto simp: provider_of_def)
  next
    case False
    then have g': "g' = \<lparr>g_edges = g_edges g @ [(p, c)], g_indegree = (g_indegree g)[c := g_indegree g ! c + 1]\<rparr>"
      using assms(2) p by (simp add: linkProvider_def)
    have fin: "finite {q. (q, c) \<in> set (g_edges g)}" by (rule finite_subset [of _ "fst ` set (g_edges g)"]) force+
    have "{q. (q, x) \<in> set (g_edges g')} = (if x = c then insert p {q. (q, c) \<in> set (g_edges g)} else {q. (q, x) \<in> set (g_edges g)})" for x
      using g' by auto
    then have "\<forall>x < length ms. g_indegree g' ! x = int (card {q. (q, x) \<in> set (g_edges g')})"
      using assms(1,3) g' False fin by (auto simp: counted_def nth_list_update)
    then show ?thesis using assms(1,3) False b p g' by (auto simp: counted_def graph_ok_def provider_of_def)
  qed
qed

lemma linkRequirement_collect:
  assumes "counted (length ms) g" "linkRequirement st ms c g r = Inr g'" "c < length ms"
  shows "counted (length ms) g' \<and> set (g_edges g') = set (g_edges g) \<union>
     (\<Union>v \<in> (case resolveRequirement st r of Inl _ \<Rightarrow> {} | Inr vs \<Rightarrow> set vs). provider_of ms c v)"
proof -
  obtain vs where vs: "resolveRequirement st r = Inr vs" "foldE (linkProvider ms c) g vs = Inr g'"
    using assms(2) by (auto simp: linkRequirement_def)
  show ?thesis
    using foldE_collect [of vs "counted (length ms)" "linkProvider ms c" "\<lambda>g. set (g_edges g)" "provider_of ms c" g g']
      linkProvider_collect [OF _ _ assms(3)] assms(1) vs by auto
qed

lemma dependencyGraph_provides:
  assumes "dependencyGraph st ms = Inr g"
  shows "counted (length ms) g" "set (g_edges g) = provides st ms"
proof -
  let ?E = "\<lambda>c. \<Union>r \<in> set (declared (ms ! c)). \<Union>v \<in> (case resolveRequirement st r of Inl _ \<Rightarrow> {} | Inr vs \<Rightarrow> set vs). provider_of ms c v"
  have step: "counted (length ms) h' \<and> set (g_edges h') = set (g_edges h) \<union> ?E c"
    if c: "c \<in> set [0..<length ms]" and "counted (length ms) h" "foldE (linkRequirement st ms c) h (declared (ms ! c)) = Inr h'" for c h h'
  proof (rule foldE_collect [where f = "linkRequirement st ms c" and xs = "declared (ms ! c)"])
    fix k r k' assume "counted (length ms) k" "linkRequirement st ms c k r = Inr k'"
    then show "counted (length ms) k' \<and> set (g_edges k') = set (g_edges k) \<union>
        (\<Union>v \<in> (case resolveRequirement st r of Inl _ \<Rightarrow> {} | Inr vs \<Rightarrow> set vs). provider_of ms c v)"
      using linkRequirement_collect c by simp
  qed (use that in auto)
  have "counted (length ms) g \<and> set (g_edges g) = set (g_edges \<lparr>g_edges = [], g_indegree = replicate (length ms) 0\<rparr>) \<union> (\<Union>c \<in> set [0..<length ms]. ?E c)"
    by (rule foldE_collect [OF step _ assms [unfolded dependencyGraph_def]]) (simp_all add: counted_def graph_ok_def)
  then show "counted (length ms) g" "set (g_edges g) = provides st ms" by (auto simp: provides_def lessThan_atLeast0)
qed

lemma foldE_each: "foldE f g xs = Inr g' \<Longrightarrow> x \<in> set xs \<Longrightarrow> \<exists>h h'. f h x = Inr h'"
  by (induction xs arbitrary: g) auto

lemma dependencyGraph_resolves:
  assumes "dependencyGraph st ms = Inr g" "c < length ms" "r \<in> set (declared (ms ! c))"
  obtains vs where "resolveRequirement st r = Inr vs" "\<forall>v \<in> set vs. rv_owner v \<in> set (map im_id ms)"
proof -
  obtain h h' where "foldE (linkRequirement st ms c) h (declared (ms ! c)) = Inr h'"
    using foldE_each [OF assms(1) [unfolded dependencyGraph_def], of c] assms(2) by auto
  from foldE_each [OF this assms(3)] obtain k k' where "linkRequirement st ms c k r = Inr k'" by blast
  then obtain vs where vs: "resolveRequirement st r = Inr vs" "foldE (linkProvider ms c) k vs = Inr k'" by (auto simp: linkRequirement_def)
  have "rv_owner v \<in> set (map im_id ms)" if v: "v \<in> set vs" for v
  proof -
    obtain a b where "linkProvider ms c a v = Inr b" using foldE_each [OF vs(2) v] by blast
    then have "ownerIndex ms (rv_owner v) \<noteq> None" by (simp add: linkProvider_def split: option.splits)
    then show ?thesis by (simp add: ownerIndex_None)
  qed
  with vs(1) that show ?thesis by blast
qed

lemma counted_loop_ok:
  assumes "counted n g" shows "loop_ok n (g_edges g) (replicate n False) (g_indegree g) []"
proof -
  have "waiting (g_edges g) (replicate n False) x = {p. (p, x) \<in> set (g_edges g)}" for x
    using assms by (auto simp: waiting_def counted_def graph_ok_def)
  then show ?thesis using assms by (auto simp: loop_ok_def counted_def before_in_def)
qed

lemmas counted_result = emitLoop_result [OF counted_loop_ok]


section \<open>The ordered modules\<close>

lemma withRequirements_simps [simp]: "im_id (withRequirements m) = im_id m" "im_module (withRequirements m) = im_module m"
  "declared (withRequirements m) = declared m" "im_contributes (withRequirements m) = im_contributes m"
  by (auto simp: withRequirements_def declared_def split: option.splits)

lemma orderModules_Inr:
  assumes "orderModules st ms = Inr out"
  obtains g order where "dependencyGraph st ms = Inr g" "counted (length ms) g" "set (g_edges g) = provides st ms"
    "distinct order" "set order = {..<length ms}" "before_in (g_edges g) order" "out = map (\<lambda>i. withRequirements (ms ! i)) order"
proof -
  from assms obtain g where g: "dependencyGraph st ms = Inr g" by (auto simp: orderModules_def)
  with assms obtain order where o: "emitLoop (length ms) (g_edges g) (replicate (length ms) False) (g_indegree g) [] = Inr order"
    "out = map ((!) (map withRequirements ms)) order"
    by (auto simp: orderModules_def Let_def split: sum.splits)
  note d = dependencyGraph_provides [OF g]
  have "distinct order \<and> set order = {..<length ms} \<and> before_in (g_edges g) order"
    using counted_result [OF d(1)] d(1) o(1) by (simp add: counted_def)
  moreover from this o(2) have "out = map (\<lambda>i. withRequirements (ms ! i)) order" by auto
  ultimately show ?thesis using that g d by blast
qed

lemma orderModules_mset:
  assumes "orderModules st ms = Inr out" shows "mset out = mset (map withRequirements ms)"
proof -
  from assms obtain order where o: "distinct order" "set order = {..<length ms}" "out = map (\<lambda>i. withRequirements (ms ! i)) order"
    by (rule orderModules_Inr)
  then have "mset order = mset [0..<length ms]" using set_eq_iff_mset_eq_distinct [of order "[0..<length ms]"] by (simp add: lessThan_atLeast0)
  then have "mset out = mset (map (\<lambda>i. withRequirements (ms ! i)) [0..<length ms])" using o(3) by (metis mset_map)
  also have "map (\<lambda>i. withRequirements (ms ! i)) [0..<length ms] = map withRequirements ms" by (rule nth_equalityI) simp_all
  finally show ?thesis .
qed

lemma orderModules_before:
  assumes "orderModules st ms = Inr out" "distinct (map im_id ms)" "j < length out" "r \<in> set (declared (out ! j))"
  shows "\<exists>vs. resolveRequirement st r = Inr vs \<and> (\<forall>v \<in> set vs. rv_owner v = im_id (out ! j) \<or> (\<exists>k < j. im_id (out ! k) = rv_owner v))"
proof -
  from assms(1) obtain g order where o: "dependencyGraph st ms = Inr g" "counted (length ms) g" "set (g_edges g) = provides st ms"
    "distinct order" "set order = {..<length ms}" "before_in (g_edges g) order" "out = map (\<lambda>i. withRequirements (ms ! i)) order"
    by (rule orderModules_Inr)
  let ?c = "order ! j"
  have j: "j < length order" "?c < length ms" using assms(3) o(5,7) nth_mem by (auto simp: set_conv_nth)
  have r: "r \<in> set (declared (ms ! ?c))" "im_id (out ! j) = im_id (ms ! ?c)" using assms(4) o(7) j by simp_all
  from dependencyGraph_resolves [OF o(1) j(2) r(1)] obtain vs where
    vs: "resolveRequirement st r = Inr vs" "\<forall>v \<in> set vs. rv_owner v \<in> set (map im_id ms)" by blast
  have "rv_owner v = im_id (out ! j) \<or> (\<exists>k < j. im_id (out ! k) = rv_owner v)" if v: "v \<in> set vs" for v
  proof -
    obtain p where p: "ownerIndex ms (rv_owner v) = Some p" using vs(2) v ownerIndex_None [of ms "rv_owner v"] by fastforce
    note id = ownerIndex_Some [OF p]
    show ?thesis
    proof (cases "p = ?c")
      case True
      then show ?thesis using id r(2) by simp
    next
      case False
      then have "(p, ?c) \<in> provides st ms" using p v vs(1) r(1) j(2) by (force simp: provides_def provider_of_def)
      then have "p \<in> set (take j order)" using o(3,6) j(1) by (auto simp: before_in_def)
      then obtain k where "k < j" "order ! k = p" using j(1) by (auto simp: in_set_conv_nth)
      then show ?thesis using o(7) id j(1) by auto
    qed
  qed
  with vs(1) show ?thesis by blast
qed

lemma orderModules_cycle:
  assumes "dependencyGraph st ms = Inr g"
  shows "(case orderModules st ms of
      Inr _ \<Rightarrow> acyclic (provides st ms)
    | Inl e \<Rightarrow> \<not> acyclic (provides st ms) \<and> (\<exists>rest. e = ErrDependencyCycle (map (\<lambda>i. im_id (ms ! i)) rest) \<and> rest \<noteq> [] \<and>
        rest = filter (behind_cycle (provides st ms)) [0..<length ms] \<and> (\<forall>x \<in> set rest. \<exists>p \<in> set rest. (p, x) \<in> provides st ms)))"
proof -
  note d = dependencyGraph_provides [OF assms]
  note res = counted_result [OF d(1)]
  have ok: "graph_ok (length ms) (g_edges g)" using d(1) by (simp add: counted_def)
  show ?thesis
  proof (cases "emitLoop (length ms) (g_edges g) (replicate (length ms) False) (g_indegree g) []")
    case (Inr order)
    with res ok have "acyclic (set (g_edges g))" using before_in_acyclic [OF _ _ _ ok, of order] by simp
    then show ?thesis using assms Inr d(2) by (simp add: orderModules_def)
  next
    case (Inl rest)
    have rest: "rest \<noteq> []" "rest = filter (behind_cycle (set (g_edges g))) [0..<length ms]"
      "\<forall>x \<in> set rest. \<exists>p \<in> set rest. (p, x) \<in> set (g_edges g)" using res [unfolded Inl sum.case, OF ok] by blast+
    have "\<not> acyclic (set (g_edges g))" using rest(1,3) by (intro rest_cyclic [of "set rest"]) simp_all
    moreover have "orderModules st ms = Inl (ErrDependencyCycle (map (\<lambda>i. im_id (map withRequirements ms ! i)) rest))"
      using assms Inl by (simp add: orderModules_def)
    moreover have "map (\<lambda>i. im_id (map withRequirements ms ! i)) rest = map (\<lambda>i. im_id (ms ! i)) rest"
      using arg_cong [OF rest(2), of set] by (intro map_cong) auto
    ultimately show ?thesis using d(2) rest by auto
  qed
qed

end
