(* ===== verification/Slot_Invariant.thy ===== *)
theory Slot_Invariant
  imports Slot_Order
begin

text \<open>
  Invariants of the slot kernel: what every reachable builder keeps, what the resolution of defaults
  selects, and what construction leaves behind.
\<close>


section \<open>The registry invariant\<close>

definition value_ok :: "string set \<Rightarrow> slotKind \<Rightarrow> 'v registeredValue \<Rightarrow> bool" where
  "value_ok owners k v \<longleftrightarrow> rv_owner v \<in> owners \<and> isNil (rv_value v) = (rv_constructor v \<noteq> None) \<and> (k = manyKind \<longrightarrow> \<not> badName (rv_key v))"

text \<open>A slot holds explicit values up to its cardinality: one in a OneSlot, one per key in a ManySlot.\<close>

definition record_ok :: "string set \<Rightarrow> string \<Rightarrow> 'v slotRecord \<Rightarrow> bool" where
  "record_ok owners i r \<longleftrightarrow> spec_id (rec_spec r) = i \<and> (\<forall>v \<in> set (rec_values r). value_ok owners (spec_kind (rec_spec r)) v) \<and>
     (case spec_kind (rec_spec r) of
        oneKind \<Rightarrow> length (valuesByDefault (rec_values r) False) \<le> 1
      | manyKind \<Rightarrow> distinct (explicitKeys (rec_values r))
      | chainKind \<Rightarrow> True
      | slotKind_other _ \<Rightarrow> False)"

definition registry_ok :: "string set \<Rightarrow> 'v registryState \<Rightarrow> bool" where
  "registry_ok owners st \<longleftrightarrow> distinct (map fst (reg_byID st)) \<and> (\<forall>i r. slot_of st i = Some r \<longrightarrow> record_ok owners i r)"

lemma slot_of_put [simp]: "slot_of (put_slot i r st) = (slot_of st)(i \<mapsto> r)"
  by (simp add: put_slot_def update_conv' fun_upd_def)

lemma put_slot_distinct [simp]: "distinct (map fst (reg_byID st)) \<Longrightarrow> distinct (map fst (reg_byID (put_slot i r st)))"
  by (simp add: put_slot_def distinct_update)

lemma record_ok_mono: "record_ok owners i r \<Longrightarrow> owners \<subseteq> owners' \<Longrightarrow> record_ok owners' i r"
  unfolding record_ok_def value_ok_def by blast

lemma registry_ok_mono: "registry_ok owners st \<Longrightarrow> owners \<subseteq> owners' \<Longrightarrow> registry_ok owners' st"
  unfolding registry_ok_def using record_ok_mono by blast

lemma registry_ok_put: "registry_ok owners st \<Longrightarrow> record_ok owners i r \<Longrightarrow> registry_ok owners (put_slot i r st)"
  by (auto simp: registry_ok_def)

lemma record_ok_add:
  assumes "r = \<lparr>rec_spec = con_spec d, rec_values = []\<rparr> \<or> record_ok owners (spec_id (con_spec d)) r" "sameDefinition (rec_spec r) (con_spec d)"
    "spec_id (rec_spec r) = spec_id (con_spec d)"
    "occupied d (rec_values r) = None" "contributionCheck d = None" "owner \<in> owners"
  shows "record_ok owners (spec_id (con_spec d)) (r\<lparr>rec_values := rec_values r @ [registered owner d n]\<rparr>)"
proof -
  have v: "value_ok owners (spec_kind (con_spec d)) (registered owner d n)"
    using assms(5,6) by (auto simp: value_ok_def registered_def contributionCheck_def)
  have old: "\<forall>v \<in> set (rec_values r). value_ok owners (spec_kind (con_spec d)) v"
    using assms(1,2) by (auto simp: record_ok_def sameDefinition_def)
  show ?thesis
  proof (cases "spec_kind (con_spec d)")
    case oneKind
    have "length (valuesByDefault (rec_values r) False) \<le> 1" using assms(1,2) oneKind by (auto simp: record_ok_def sameDefinition_def valuesByDefault_def)
    moreover have "con_defaulted d \<or> valuesByDefault (rec_values r) False = []"
      using assms(4) oneKind by (auto simp: occupied_def valuesByDefault_def filter_empty_conv find_None_iff split: option.splits)
    ultimately show ?thesis using v old assms(2,3) oneKind
      by (auto simp: record_ok_def sameDefinition_def valuesByDefault_def registered_def)
  next
    case manyKind
    have "distinct (explicitKeys (rec_values r))" using assms(1,2) manyKind by (auto simp: record_ok_def sameDefinition_def explicitKeys_def)
    moreover have "con_defaulted d \<or> con_key d \<notin> set (explicitKeys (rec_values r))"
      using assms(4) manyKind by (auto simp: occupied_def explicitKeys_def)
    ultimately show ?thesis using v old assms(2,3) manyKind
      by (auto simp: record_ok_def sameDefinition_def explicitKeys_def registered_def)
  next
    case chainKind
    then show ?thesis using v old assms(2,3) by (auto simp: record_ok_def sameDefinition_def)
  next
    case (slotKind_other x)
    then show ?thesis using assms(4) by (simp add: occupied_def)
  qed
qed

lemma apply_contribution_ok:
  assumes "apply_contribution owner st c = (None, st')" "registry_ok owners st" "owner \<in> owners"
  shows "registry_ok owners st'"
proof -
  from assms(1) obtain d where d: "c = Some d" "contributionCheck d = None" by (auto simp: apply_contribution_def split: option.splits)
  define i where "i = spec_id (con_spec d)"
  define r where "r = (case slot_of st i of None \<Rightarrow> \<lparr>rec_spec = con_spec d, rec_values = []\<rparr> | Some r \<Rightarrow> r)"
  from assms(1) d have *: "sameDefinition (rec_spec r) (con_spec d)" "occupied d (rec_values r) = None"
    "st' = put_slot i (r\<lparr>rec_values := rec_values r @ [registered owner d (reg_nextOrdinal st + 1)]\<rparr>) (st\<lparr>reg_nextOrdinal := reg_nextOrdinal st + 1\<rparr>)"
    by (auto simp: apply_contribution_def Let_def i_def r_def split: if_splits option.splits)
  have "r = \<lparr>rec_spec = con_spec d, rec_values = []\<rparr> \<or> record_ok owners i r"
    using assms(2) by (auto simp: r_def registry_ok_def split: option.splits)
  moreover from this have "spec_id (rec_spec r) = spec_id (con_spec d)" by (auto simp: record_ok_def i_def)
  ultimately have "record_ok owners i (r\<lparr>rec_values := rec_values r @ [registered owner d (reg_nextOrdinal st + 1)]\<rparr>)"
    unfolding i_def using record_ok_add [OF _ *(1) _ *(2) d(2) assms(3)] by simp
  moreover have "registry_ok owners (st\<lparr>reg_nextOrdinal := reg_nextOrdinal st + 1\<rparr>)" using assms(2) by (simp add: registry_ok_def)
  ultimately show ?thesis unfolding *(3) by (rule registry_ok_put [rotated])
qed

lemma foldS_None:
  assumes "foldS f s xs = (None, t)" "P s" "\<And>s x t. P s \<Longrightarrow> f s x = (None, t) \<Longrightarrow> P t"
  shows "P t"
  using assms(1,2)
proof (induction xs arbitrary: s)
  case (Cons x xs)
  then obtain u where "f s x = (None, u)" "foldS f u xs = (None, t)" by (auto split: prod.splits option.splits)
  then show ?case using Cons.IH assms(3) Cons.prems(2) by blast
qed simp

lemma runRegister_ok:
  assumes "registry_ok owners (rgn_state r) \<or> rgn_failed r \<noteq> None" "rgn_owner r \<in> owners" "runRegister p r = (e, r')"
  shows "registry_ok owners (rgn_state r') \<or> rgn_failed r' \<noteq> None"
  using assms
proof (induction p arbitrary: r)
  case (Call cs k)
  obtain e1 r1 where c: "Contribute cs r = (e1, r1)" by fastforce
  have "rgn_owner r1 = rgn_owner r" using c by (auto simp: Contribute_def split: if_splits option.splits prod.splits)
  moreover have "registry_ok owners (rgn_state r1) \<or> rgn_failed r1 \<noteq> None"
  proof (cases "rgn_open r \<and> rgn_failed r = None")
    case False
    then show ?thesis using c Call.prems(1) by (auto simp: Contribute_def split: if_splits option.splits)
  next
    case True
    obtain e2 st where f: "foldS (apply_contribution (rgn_owner r)) (rgn_state r) cs = (e2, st)" by fastforce
    show ?thesis
    proof (cases e2)
      case None
      have "registry_ok owners st"
        by (rule foldS_None [OF f [unfolded None]]) (use True Call.prems(1,2) apply_contribution_ok in blast)+
      then show ?thesis using c True f None by (auto simp: Contribute_def)
    qed (use c True f in \<open>auto simp: Contribute_def\<close>)
  qed
  ultimately show ?case using Call.IH [of "k e1" r1] Call.prems(2,3) c by auto
qed auto


section \<open>Reachable builders\<close>

inductive reachable_builder :: "(string list \<Rightarrow> string list) \<Rightarrow> 'v Builder \<Rightarrow> bool" for ord where
  builder_new: "reachable_builder ord NewBuilder"
| builder_install: "reachable_builder ord b \<Longrightarrow> Install m b = (e, b') \<Longrightarrow> reachable_builder ord b'"
| builder_build: "reachable_builder ord b \<Longrightarrow> Build ord profile b = (r, b') \<Longrightarrow> reachable_builder ord b'"

definition builder_ok :: "'v Builder \<Rightarrow> bool" where
  "builder_ok b \<longleftrightarrow> registry_ok (set (map im_id (bld_modules b))) (bld_state b) \<and> distinct (map im_id (bld_modules b)) \<and>
     (\<forall>m \<in> set (bld_modules b). im_id m = mod_ID (im_module m) \<and> \<not> badName (im_id m) \<and> im_requirements m = [])"

lemma Install_None:
  assumes "Install m b = (None, b')"
  obtains x r where "m = Some x" "installCheck x b = None"
    "runRegister (mod_Register x) \<lparr>rgn_owner = mod_ID x, rgn_state = bld_state b, rgn_open = True, rgn_failed = None\<rparr> = (None, r)" "rgn_failed r = None"
    "b' = b\<lparr>bld_state := rgn_state r, bld_modules := bld_modules b @ [\<lparr>im_id = mod_ID x, im_module = x, im_requirements = [],
        im_contributes = reg_nextOrdinal (rgn_state r) > reg_nextOrdinal (bld_state b)\<rparr>]\<rparr>"
  using assms by (auto simp: Install_def split: option.splits prod.splits)

lemma Install_Some: "Install m b = (Some e, b') \<Longrightarrow> b' = b"
  by (auto simp: Install_def split: option.splits prod.splits)

lemma builder_ok_Install:
  assumes "Install m b = (e, b')" "builder_ok b"
  shows "builder_ok b'"
proof (cases e)
  case None
  let ?r0 = "\<lambda>x. \<lparr>rgn_owner = mod_ID x, rgn_state = bld_state b, rgn_open = True, rgn_failed = None\<rparr>"
  obtain x r where x: "installCheck x b = None" "runRegister (mod_Register x) (?r0 x) = (None, r)" "rgn_failed r = None"
    "b' = b\<lparr>bld_state := rgn_state r, bld_modules := bld_modules b @ [\<lparr>im_id = mod_ID x, im_module = x, im_requirements = [],
        im_contributes = reg_nextOrdinal (rgn_state r) > reg_nextOrdinal (bld_state b)\<rparr>]\<rparr>"
    using assms(1) unfolding None by (rule Install_None)
  let ?o = "insert (mod_ID x) (set (map im_id (bld_modules b)))"
  have "registry_ok ?o (bld_state b)" using assms(2) by (auto simp: builder_ok_def intro: registry_ok_mono)
  then have "registry_ok ?o (rgn_state r)" using runRegister_ok [of ?o "?r0 x" _ None r] x(2,3) by simp
  then show ?thesis using assms(2) x(1,4) by (auto simp: builder_ok_def installCheck_def)
next
  case (Some x)
  then show ?thesis using Install_Some assms by blast
qed

lemma Build_builder: "Build ord profile b = (r, b') \<Longrightarrow> b' = b \<or> b' = b\<lparr>bld_frozen := True\<rparr>"
  by (auto simp: Build_def split: if_splits sum.splits)

lemma reachable_builder_ok: "reachable_builder ord b \<Longrightarrow> builder_ok b"
proof (induction rule: reachable_builder.induct)
  case builder_new
  then show ?case by (simp add: builder_ok_def NewBuilder_def newRegistryState_def registry_ok_def)
next
  case (builder_install b m e b')
  then show ?case using builder_ok_Install by blast
next
  case (builder_build b profile r b')
  then show ?case using Build_builder by (fastforce simp: builder_ok_def)
qed

section \<open>Resolved defaults\<close>

definition unique_values :: "slotKind \<Rightarrow> 'v registeredValue list \<Rightarrow> bool" where
  "unique_values k vs \<longleftrightarrow> (k = oneKind \<longrightarrow> length vs \<le> 1) \<and> (k = manyKind \<longrightarrow> distinct (map rv_key vs))"

text \<open>What is kept of the registered values: explicit ones, and the defaults that no explicit value replaces.\<close>

definition kept :: "slotKind \<Rightarrow> 'v registeredValue list \<Rightarrow> 'v registeredValue \<Rightarrow> bool" where
  "kept k vs v \<longleftrightarrow> \<not> rv_defaulted v \<or> (if k = manyKind then rv_key v \<notin> set (explicitKeys vs) else (\<forall>w \<in> set vs. rv_defaulted w))"

lemma count_list_le_one: "(\<forall>x. count_list xs x \<le> 1) \<longleftrightarrow> distinct xs"
proof (induction xs)
  case (Cons a xs)
  have "count_list xs x = 0 \<longleftrightarrow> x \<notin> set xs" for x by (simp add: count_list_0_iff)
  then show ?case using Cons by (auto simp: le_Suc_eq)
qed simp

lemma resolveManyDefaults_Inr:
  assumes "resolveManyDefaults ord r = Inr vs" "\<And>ks. set (ord ks) = set ks" "distinct (explicitKeys (rec_values r))"
  shows "vs = filter (kept manyKind (rec_values r)) (rec_values r)" "distinct (map rv_key vs)"
proof -
  let ?v = "rec_values r" let ?d = "filter (\<lambda>v. rv_defaulted v \<and> rv_key v \<notin> set (explicitKeys ?v)) ?v"
  from assms(1) have vs: "vs = filter (\<lambda>v. \<not> (rv_defaulted v \<and> rv_key v \<in> set (explicitKeys ?v))) ?v"
    and none: "\<forall>k \<in> set (defaultKeys ?v). \<not> (count_list (defaultKeys ?v) k > 1 \<and> k \<notin> set (explicitKeys ?v))"
    using assms(2) by (auto simp: resolveManyDefaults_def Let_def find_None_iff split: option.splits)
  show "vs = filter (kept manyKind ?v) ?v" unfolding vs by (rule filter_cong) (auto simp: kept_def)
  have one: "length (filter (\<lambda>v. rv_key v = k) vs) \<le> 1" for k
  proof (cases "k \<in> set (explicitKeys ?v)")
    case True
    then have "filter (\<lambda>v. rv_key v = k) vs = filter (\<lambda>v. rv_key v = k) (filter (\<lambda>v. \<not> rv_defaulted v) ?v)"
      unfolding vs filter_filter by (intro filter_cong) auto
    moreover have "length (filter (\<lambda>v. rv_key v = k) (filter (\<lambda>v. \<not> rv_defaulted v) ?v)) = count_list (explicitKeys ?v) k"
      by (simp add: explicitKeys_def count_list_eq_length_filter filter_map comp_def eq_commute)
    ultimately show ?thesis using assms(3) count_list_le_one [of "explicitKeys ?v"] by simp
  next
    case False
    then have "\<not> rv_defaulted v \<longrightarrow> rv_key v \<noteq> k" if "v \<in> set ?v" for v using that by (auto simp: explicitKeys_def)
    then have "filter (\<lambda>v. rv_key v = k) vs = filter (\<lambda>v. rv_key v = k) (filter rv_defaulted ?v)"
      unfolding vs filter_filter by (intro filter_cong) (use False in auto)
    then have "length (filter (\<lambda>v. rv_key v = k) vs) = count_list (defaultKeys ?v) k"
      by (simp add: defaultKeys_def count_list_eq_length_filter filter_map comp_def eq_commute)
    moreover have "count_list (defaultKeys ?v) k \<le> 1" using none False by (cases "k \<in> set (defaultKeys ?v)") (auto simp: not_less)
    ultimately show ?thesis by simp
  qed
  have "count_list (map rv_key vs) k \<le> 1" for k
    using one [of k] by (simp add: count_list_eq_length_filter filter_map comp_def eq_commute)
  then show "distinct (map rv_key vs)" using count_list_le_one by blast
qed

lemma resolveRecordDefaults_Inr:
  assumes "resolveRecordDefaults ord r = Inr vs" "\<And>ks. set (ord ks) = set ks" "record_ok owners i r"
  shows "vs = filter (kept (spec_kind (rec_spec r)) (rec_values r)) (rec_values r)" "unique_values (spec_kind (rec_spec r)) vs"
proof -
  let ?k = "spec_kind (rec_spec r)" and ?v = "rec_values r"
  have pick: "(if valuesByDefault ?v False \<noteq> [] then valuesByDefault ?v False else valuesByDefault ?v True) = filter (kept ?k ?v) ?v" if "?k \<noteq> manyKind"
    using that by (auto simp: valuesByDefault_def kept_def filter_empty_conv intro!: filter_cong)
  have "vs = filter (kept ?k ?v) ?v \<and> unique_values ?k vs"
  proof (cases ?k)
    case oneKind
    then show ?thesis using assms(1,3) pick by (auto simp: resolveRecordDefaults_def Let_def unique_values_def record_ok_def split: if_splits)
  next
    case manyKind
    then show ?thesis using assms resolveManyDefaults_Inr [of ord r vs] by (simp add: resolveRecordDefaults_def unique_values_def record_ok_def Let_def)
  next
    case chainKind
    then show ?thesis using assms(1) pick by (auto simp: resolveRecordDefaults_def Let_def unique_values_def)
  qed (use assms(1) in \<open>simp add: resolveRecordDefaults_def\<close>)
  then show "vs = filter (kept ?k ?v) ?v" "unique_values ?k vs" by blast+
qed


definition keep_values :: "'v slotRecord \<Rightarrow> 'v slotRecord" where
  "keep_values r = r\<lparr>rec_values := filter (kept (spec_kind (rec_spec r)) (rec_values r)) (rec_values r)\<rparr>"

lemma keep_values_spec [simp]: "rec_spec (keep_values r) = rec_spec r"
  by (simp add: keep_values_def)

lemma resolveDefaultContributions_Inr:
  assumes "resolveDefaultContributions ord st = Inr st'" "\<And>ks. set (ord ks) = set ks" "registry_ok owners st"
  shows "slot_of st' i = map_option keep_values (slot_of st i)" "distinct (map fst (reg_byID st'))"
    "slot_of st' i = Some r \<Longrightarrow> unique_values (spec_kind (rec_spec r)) (rec_values r)"
proof -
  define step where "step = (\<lambda>resolved i. bindE (resolveRecordDefaults ord (the (slot_of st i))) (\<lambda>vs.
         Inr (put_slot i \<lparr>rec_spec = rec_spec (the (slot_of st i)), rec_values = vs\<rparr> resolved)))"
  have fold: "(\<forall>i. slot_of t' i = (if i \<in> set ids then map_option keep_values (slot_of st i) else slot_of t i)) \<and> distinct (map fst (reg_byID t')) \<and>
      (\<forall>i \<in> set ids. \<forall>r. slot_of t' i = Some r \<longrightarrow> unique_values (spec_kind (rec_spec r)) (rec_values r))"
    if "foldE step t ids = Inr t'" "set ids \<subseteq> dom (slot_of st)" "distinct (map fst (reg_byID t))" "distinct ids" for ids t t'
    using that
  proof (induction ids arbitrary: t)
    case (Cons j js)
    obtain r where r: "slot_of st j = Some r" using Cons.prems(2) by auto
    obtain u where u: "step t j = Inr u" "foldE step u js = Inr t'" using Cons.prems(1) by auto
    obtain vs where vs: "resolveRecordDefaults ord r = Inr vs" "u = put_slot j \<lparr>rec_spec = rec_spec r, rec_values = vs\<rparr> t"
      using u(1) r by (auto simp: step_def)
    have "record_ok owners j r" using assms(3) r by (simp add: registry_ok_def)
    note v = resolveRecordDefaults_Inr [OF vs(1) assms(2) this]
    have keep: "\<lparr>rec_spec = rec_spec r, rec_values = vs\<rparr> = keep_values r" using v(1) by (simp add: keep_values_def)
    have "j \<notin> set js" using Cons.prems(4) by simp
    then show ?case using Cons.IH [OF u(2)] Cons.prems(2,3,4) vs(2) keep r v(2) by (auto simp: keep_values_def v(1) [symmetric])
  qed simp
  let ?ids = "sort (map fst (reg_byID st))" and ?t = "\<lparr>reg_byID = [], reg_nextOrdinal = reg_nextOrdinal st\<rparr>"
  have "foldE step ?t ?ids = Inr st'" using assms(1) by (simp add: resolveDefaultContributions_def step_def)
  moreover have "set ?ids = dom (slot_of st)" "distinct ?ids" using assms(3) by (simp_all add: dom_map_of_conv_image_fst registry_ok_def)
  ultimately have f: "\<forall>i. slot_of st' i = (if i \<in> dom (slot_of st) then map_option keep_values (slot_of st i) else slot_of ?t i)"
      "distinct (map fst (reg_byID st'))" "\<forall>i \<in> dom (slot_of st). \<forall>r. slot_of st' i = Some r \<longrightarrow> unique_values (spec_kind (rec_spec r)) (rec_values r)"
    using fold [of ?t ?ids st'] by simp_all
  show s: "slot_of st' i = map_option keep_values (slot_of st i)" using f(1) by (cases "slot_of st i") (auto simp: domIff)
  show "distinct (map fst (reg_byID st'))" by (rule f(2))
  show "unique_values (spec_kind (rec_spec r)) (rec_values r)" if "slot_of st' i = Some r"
    using f(3) s that by (cases "slot_of st i") (auto simp: dom_def)
qed

lemma explicit_kept: "filter (\<lambda>x. kept k vs x \<and> \<not> rv_defaulted x) vs = filter (\<lambda>x. \<not> rv_defaulted x) vs"
  by (rule filter_cong) (auto simp: kept_def)

lemma registry_ok_resolved:
  assumes "resolveDefaultContributions ord st = Inr st'" "\<And>ks. set (ord ks) = set ks" "registry_ok owners st"
  shows "registry_ok owners st'"
proof -
  have "record_ok owners i (keep_values r)" if "record_ok owners i r" for i r
    using that by (auto simp: record_ok_def keep_values_def valuesByDefault_def explicitKeys_def filter_filter explicit_kept split: slotKind.splits)
  moreover have "record_ok owners i r" if "slot_of st i = Some r" for i r using assms(3) that by (simp add: registry_ok_def)
  ultimately have "record_ok owners i r" if "slot_of st' i = Some r" for i r
    using that resolveDefaultContributions_Inr(1) [OF assms, of i] by (cases "slot_of st i") auto
  then show ?thesis using resolveDefaultContributions_Inr(2) [OF assms] unfolding registry_ok_def by blast
qed

section \<open>Shape\<close>

text \<open>Construction changes values only: which module registered what, under which key, stays.\<close>

definition tag :: "'v registeredValue \<Rightarrow> string \<times> string \<times> uint64 \<times> bool" where
  "tag v = (rv_owner v, rv_key v, rv_ordinal v, rv_defaulted v)"

definition outline :: "'v slotRecord \<Rightarrow> slotSpec \<times> (string \<times> string \<times> uint64 \<times> bool) list" where
  "outline r = (rec_spec r, map tag (rec_values r))"

definition shape :: "'v registryState \<Rightarrow> (string \<times> slotSpec \<times> (string \<times> string \<times> uint64 \<times> bool) list) list" where
  "shape st = map (\<lambda>(i, r). (i, outline r)) (reg_byID st)"

lemma map_of_shape: "map_of (shape st) i = map_option outline (slot_of st i)"
  by (simp add: shape_def map_of_map)

lemma shape_slot: "shape st = shape st' \<Longrightarrow> map_option outline (slot_of st i) = map_option outline (slot_of st' i)"
  using map_of_shape [of st i] map_of_shape [of st' i] by simp

lemma shape_keys: "shape st = shape st' \<Longrightarrow> map fst (reg_byID st) = map fst (reg_byID st')"
proof -
  assume "shape st = shape st'"
  then have "map fst (shape st) = map fst (shape st')" by simp
  then show ?thesis by (simp add: shape_def comp_def split_beta)
qed

lemma shape_put:
  assumes "slot_of st i = Some r" "outline r' = outline r"
  shows "shape (put_slot i r' st) = shape st"
proof -
  have "map (\<lambda>(i, r). (i, outline r)) (AList.update i r' xs) = map (\<lambda>(i, r). (i, outline r)) xs" if "map_of xs i = Some r" for xs
    using that assms(2) by (induction xs) (auto split: if_splits)
  then show ?thesis using assms(1) by (simp add: shape_def put_slot_def)
qed

lemma tag_owner: "map tag vs = map tag ws \<Longrightarrow> map rv_owner vs = map rv_owner ws \<and> map rv_key vs = map rv_key ws \<and> length vs = length ws"
  by (induction vs arbitrary: ws) (auto simp: tag_def Cons_eq_map_conv)

lemma find_tag: "map tag vs = map tag ws \<Longrightarrow>
    map_option tag (List.find (\<lambda>v. rv_key v = key) vs) = map_option tag (List.find (\<lambda>v. rv_key v = key) ws)"
  by (induction vs arbitrary: ws) (auto simp: Cons_eq_map_conv tag_def)

lemma resolveRequirement_shape:
  assumes "shape st = shape st'" "resolveRequirement st r = Inr vs"
  shows "\<exists>ws. resolveRequirement st' r = Inr ws \<and> map tag ws = map tag vs"
proof (cases "slot_of st (spec_id (req_spec r))")
  case None
  then have "slot_of st' (spec_id (req_spec r)) = None" using shape_slot [OF assms(1), of "spec_id (req_spec r)"] by simp
  then show ?thesis using assms(2) None by (auto simp: resolveRequirement_def Let_def split: if_splits)
next
  case (Some a)
  then obtain b where b: "slot_of st' (spec_id (req_spec r)) = Some b" "rec_spec b = rec_spec a" "map tag (rec_values a) = map tag (rec_values b)"
    using shape_slot [OF assms(1), of "spec_id (req_spec r)"] by (cases "slot_of st' (spec_id (req_spec r))") (auto simp: outline_def)
  note find_tag [OF b(3), of "req_key r"]
  then show ?thesis using assms(2) Some b tag_owner [OF b(3)]
    by (cases "List.find (\<lambda>v. rv_key v = req_key r) (rec_values b)")
      (auto simp: resolveRequirement_def Let_def split: if_splits option.splits)
qed


section \<open>Construction\<close>

definition value_at :: "'v registryState \<Rightarrow> string \<times> nat \<Rightarrow> 'v registeredValue option" where
  "value_at st pos = (case slot_of st (fst pos) of None \<Rightarrow> None
     | Some r \<Rightarrow> if snd pos < length (rec_values r) then Some (rec_values r ! snd pos) else None)"

definition pending_at :: "'v registryState \<Rightarrow> (string \<times> nat) set" where
  "pending_at st = {pos. \<exists>v. value_at st pos = Some v \<and> rv_constructor v \<noteq> None}"

definition nil_ok :: "'v registryState \<Rightarrow> bool" where
  "nil_ok st \<longleftrightarrow> (\<forall>pos v. value_at st pos = Some v \<longrightarrow> isNil (rv_value v) = (rv_constructor v \<noteq> None))"

definition position :: "materializationTarget \<Rightarrow> string \<times> nat" where
  "position t = (tgt_slot t, tgt_index t)"

lemma shape_tag_at:
  assumes "shape st = shape st'" shows "map_option tag (value_at st pos) = map_option tag (value_at st' pos)"
proof -
  have "map_option outline (slot_of st (fst pos)) = map_option outline (slot_of st' (fst pos))" by (rule shape_slot [OF assms])
  then consider "slot_of st (fst pos) = None" "slot_of st' (fst pos) = None"
    | a b where "slot_of st (fst pos) = Some a" "slot_of st' (fst pos) = Some b" "map tag (rec_values a) = map tag (rec_values b)"
    by (cases "slot_of st (fst pos)"; cases "slot_of st' (fst pos)") (auto simp: outline_def)
  then show ?thesis
  proof cases
    case 2
    then have "length (rec_values a) = length (rec_values b)" using tag_owner by blast
    then show ?thesis using 2 by (auto simp: value_at_def) (metis nth_map)
  qed (simp add: value_at_def)
qed

lemma shape_owner_at:
  assumes "shape st = shape st'" "value_at st pos = Some v"
  obtains w where "value_at st' pos = Some w" "rv_owner w = rv_owner v"
  using shape_tag_at [OF assms(1), of pos] assms(2) that by (cases "value_at st' pos") (auto simp: tag_def)

lemma materializeTarget_Inr:
  assumes "materializeTarget m st t = Inr st'" "value_at st (position t) = Some v" "nil_ok st"
  shows "shape st' = shape st" "pending_at st' = pending_at st - {position t}" "nil_ok st'"
proof -
  obtain r where r: "slot_of st (tgt_slot t) = Some r" "tgt_index t < length (rec_values r)" "v = rec_values r ! tgt_index t"
    using assms(2) by (auto simp: value_at_def position_def split: option.splits if_splits)
  define w where "w x = v\<lparr>rv_value := x, rv_constructor := None\<rparr>" for x
  obtain x where x: "\<not> isNil x" "st' = put_slot (tgt_slot t) (r\<lparr>rec_values := (rec_values r)[tgt_index t := w x]\<rparr>) st"
    using assms(1) r by (auto simp: materializeTarget_def Let_def w_def split: if_splits)
  have "map tag ((rec_values r)[tgt_index t := w x]) = map tag (rec_values r)"
    using r(2,3) by (intro nth_equalityI) (auto simp: nth_list_update w_def tag_def)
  then show "shape st' = shape st" unfolding x(2) by (intro shape_put [OF r(1)]) (simp add: outline_def)
  have at: "value_at st' pos = (if pos = position t then Some (w x) else value_at st pos)" for pos
    using r(1,2) unfolding x(2) by (cases pos) (auto simp: value_at_def position_def nth_list_update)
  show "pending_at st' = pending_at st - {position t}" by (auto simp: pending_at_def at w_def)
  show "nil_ok st'" using assms(3) x(1) by (auto simp: nil_ok_def at w_def)
qed

lemma targets_value: "t \<in> set (constructorTargetsForOwner st owner) \<Longrightarrow> distinct (map fst (reg_byID st)) \<Longrightarrow> \<exists>v. value_at st (position t) = Some v"
  by (auto simp: constructorTargetsForOwner_def slotTargets_def value_at_def position_def in_set_enumerate_eq split: prod.splits)

lemma targets_positions:
  assumes "distinct (map fst (reg_byID st))"
  shows "position ` set (constructorTargetsForOwner st owner) = {pos \<in> pending_at st. \<exists>v. value_at st pos = Some v \<and> rv_owner v = owner}"
proof (intro set_eqI iffI)
  fix pos assume "pos \<in> position ` set (constructorTargetsForOwner st owner)"
  then show "pos \<in> {pos \<in> pending_at st. \<exists>v. value_at st pos = Some v \<and> rv_owner v = owner}"
    using assms by (auto simp: constructorTargetsForOwner_def slotTargets_def value_at_def position_def pending_at_def in_set_enumerate_eq)
next
  fix pos assume "pos \<in> {pos \<in> pending_at st. \<exists>v. value_at st pos = Some v \<and> rv_owner v = owner}"
  then obtain r where r: "(fst pos, r) \<in> set (reg_byID st)" "snd pos < length (rec_values r)"
    "rv_owner (rec_values r ! snd pos) = owner" "rv_constructor (rec_values r ! snd pos) \<noteq> None"
    by (auto simp: pending_at_def value_at_def dest: map_of_SomeD split: option.splits if_splits)
  let ?t = "\<lparr>tgt_slot = fst pos, tgt_index = snd pos, tgt_ordinal = rv_ordinal (rec_values r ! snd pos)\<rparr>"
  have "(snd pos, rec_values r ! snd pos) \<in> set (enumerate 0 (rec_values r))" using r(2) by (simp add: in_set_enumerate_eq)
  then have "?t \<in> set (slotTargets owner (fst pos, r))" using r(3,4) by (force simp: slotTargets_def)
  then have "?t \<in> set (constructorTargetsForOwner st owner)" using r(1) by (auto simp: constructorTargetsForOwner_def)
  then show "pos \<in> position ` set (constructorTargetsForOwner st owner)" by (force simp: position_def)
qed

text \<open>The targets of one module, one after the other.\<close>

lemma materialize_targets:
  assumes "foldE (materializeTarget m) st ts = Inr st'" "nil_ok st" "\<forall>t \<in> set ts. value_at st (position t) \<noteq> None"
  shows "shape st' = shape st" "pending_at st' = pending_at st - position ` set ts" "nil_ok st'"
proof -
  have "shape st' = shape st \<and> pending_at st' = pending_at st - position ` set ts \<and> nil_ok st'"
    using assms
  proof (induction ts arbitrary: st)
    case (Cons t ts)
    then obtain u v where u: "materializeTarget m st t = Inr u" "foldE (materializeTarget m) u ts = Inr st'" "value_at st (position t) = Some v" by auto
    note s = materializeTarget_Inr [OF u(1,3) Cons.prems(2)]
    have "\<forall>t \<in> set ts. value_at u (position t) \<noteq> None"
      using Cons.prems(3) shape_tag_at [OF s(1)] by (metis list.set_intros(2) option.map_disc_iff)
    from Cons.IH [OF u(2) s(3) this] s show ?case by auto
  qed simp
  then show "shape st' = shape st" "pending_at st' = pending_at st - position ` set ts" "nil_ok st'" by blast+
qed

lemma materializeModule_Inr:
  assumes "materializeModule st m = Inr st'" "nil_ok st" "distinct (map fst (reg_byID st))"
  shows "shape st' = shape st" "nil_ok st'" "pending_at st' = {pos \<in> pending_at st. \<forall>v. value_at st pos = Some v \<longrightarrow> rv_owner v \<noteq> im_id m}"
    "distinct (map fst (reg_byID st'))"
proof -
  note s = materialize_targets [OF assms(1) [unfolded materializeModule_def] assms(2)]
  have t: "\<forall>t \<in> set (constructorTargetsForOwner st (im_id m)). value_at st (position t) \<noteq> None" using targets_value assms(3) by fastforce
  show "shape st' = shape st" "nil_ok st'" using s t by blast+
  then show "distinct (map fst (reg_byID st'))" using assms(3) shape_keys by metis
  show "pending_at st' = {pos \<in> pending_at st. \<forall>v. value_at st pos = Some v \<longrightarrow> rv_owner v \<noteq> im_id m}"
    unfolding s(2) [OF t] targets_positions [OF assms(3)] by (auto simp: pending_at_def)
qed

lemma materialize_Inr:
  assumes "foldE materializeModule st ms = Inr st'" "nil_ok st" "distinct (map fst (reg_byID st))"
  shows "shape st' = shape st \<and> nil_ok st' \<and> distinct (map fst (reg_byID st')) \<and>
     pending_at st' = {pos \<in> pending_at st. \<forall>v. value_at st pos = Some v \<longrightarrow> rv_owner v \<notin> im_id ` set ms}"
  using assms
proof (induction ms arbitrary: st)
  case Nil
  then show ?case by auto
next
  case (Cons m ms)
  then obtain u where u: "materializeModule st m = Inr u" "foldE materializeModule u ms = Inr st'" by auto
  note s = materializeModule_Inr [OF u(1) Cons.prems(2,3)]
  note t = Cons.IH [OF u(2) s(2,4)]
  have owner: "value_at st pos = Some v \<Longrightarrow> value_at u pos = Some w \<Longrightarrow> rv_owner w = rv_owner v" for pos v w
    using shape_tag_at [OF s(1), of pos] by (simp add: tag_def)
  have "pos \<in> pending_at st' \<longleftrightarrow> pos \<in> pending_at st \<and> (\<forall>v. value_at st pos = Some v \<longrightarrow> rv_owner v \<notin> im_id ` set (m # ms))" for pos
  proof (cases "value_at st pos")
    case None
    then have "pos \<notin> pending_at st" by (simp add: pending_at_def)
    then show ?thesis using t s(3) by blast
  next
    case (Some v)
    then obtain w where w: "value_at u pos = Some w" using shape_tag_at [OF s(1), of pos] by auto
    then have "pos \<in> pending_at st' \<longleftrightarrow> pos \<in> pending_at u \<and> rv_owner v \<notin> im_id ` set ms" using t owner [OF Some w] by simp
    also have "\<dots> \<longleftrightarrow> pos \<in> pending_at st \<and> rv_owner v \<noteq> im_id m \<and> rv_owner v \<notin> im_id ` set ms" using s(3) Some by simp
    finally show ?thesis using Some by auto
  qed
  then have "pending_at st' = {pos \<in> pending_at st. \<forall>v. value_at st pos = Some v \<longrightarrow> rv_owner v \<notin> im_id ` set (m # ms)}" by blast
  then show ?case using s t by simp
qed

end
