(* ===== verification/Slot_Guarantees.thy ===== *)
theory Slot_Guarantees
  imports Slot_Invariant
begin

text \<open>
  What the slot kernel guarantees: the invariant of builders, the properties of a successful build, of the
  dependency order, of construction, of the lifecycle and of applications. A small application, whose
  consumer is installed before its provider, witnesses them.
\<close>

section \<open>A successful build\<close>

lemma Build_Inr:
  assumes "Build ord profile b = (Inr asm, b')"
  obtains st where "resolveDefaultContributions ord (bld_state b) = Inr st" "\<forall>r \<in> set profile. \<exists>vs. resolveRequirement st r = Inr vs"
    "orderModules st (activeModules st (bld_modules b)) = Inr (asm_modules asm)"
    "foldE materializeModule st (asm_modules asm) = Inr (asm_state asm)" "asm_profile asm = profile"
    "b' = b\<lparr>bld_frozen := True\<rparr>" "asm_startAttempted asm = False" "\<not> bld_frozen b"
proof -
  have all: "\<forall>r \<in> set rs. \<exists>vs. resolveRequirement st r = Inr vs" if "foldE (\<lambda>u r. bindE (resolveRequirement st r) (\<lambda>_. Inr ())) u rs = Inr u'" for st rs u u'
    using that by (induction rs arbitrary: u) auto
  from assms have b: "\<not> bld_frozen b" "b' = b\<lparr>bld_frozen := True\<rparr>" "buildState ord profile b = Inr asm"
    by (auto simp: Build_def split: if_splits sum.splits)
  from b(3) obtain st u ms st' where s: "resolveDefaultContributions ord (bld_state b) = Inr st"
    "foldE (\<lambda>u r. bindE (resolveRequirement st r) (\<lambda>_. Inr ())) () profile = Inr u"
    "orderModules st (activeModules st (bld_modules b)) = Inr ms" "foldE materializeModule st ms = Inr st'"
    "asm = \<lparr>asm_state = st', asm_modules = ms, asm_profile = profile, asm_startAttempted = False\<rparr>"
    unfolding buildState_def materializeConstructors_def bindE_Inr by blast
  show ?thesis using that [OF s(1) all [OF s(2)]] s(3,4,5) b by simp
qed

lemma registry_ok_nil: "registry_ok owners st \<Longrightarrow> nil_ok st"
  by (fastforce simp: nil_ok_def registry_ok_def record_ok_def value_ok_def value_at_def split: option.splits if_splits)

lemma reachable_registry: "reachable_builder ord b \<Longrightarrow> registry_ok (set (map im_id (bld_modules b))) (bld_state b)"
  using reachable_builder_ok unfolding builder_ok_def by blast

lemma active_owner:
  assumes "registry_ok (set (map im_id ms)) st" "value_at st pos = Some v"
  shows "rv_owner v \<in> set (map im_id (activeModules st ms))"
proof -
  obtain r where r: "slot_of st (fst pos) = Some r" "v \<in> set (rec_values r)"
    using assms(2) by (auto simp: value_at_def split: option.splits if_splits)
  then have "rv_owner v \<in> set (map im_id ms)" using assms(1) by (auto simp: registry_ok_def record_ok_def value_ok_def)
  moreover have "rv_owner v \<in> set (concat (map (\<lambda>(_, r). map rv_owner (rec_values r)) (reg_byID st)))"
    using r map_of_SomeD by (fastforce simp: image_iff)
  ultimately obtain m where "m \<in> set ms" "im_id m = rv_owner v" "im_id m \<in> set (concat (map (\<lambda>(_, r). map rv_owner (rec_values r)) (reg_byID st)))" by auto
  then have "m \<in> set (activeModules st ms)" unfolding activeModules_def Let_def by simp
  then show ?thesis using \<open>im_id m = rv_owner v\<close> by force
qed

lemma built_facts:
  assumes "reachable_builder ord b" "\<And>ks. set (ord ks) = set ks" "Build ord profile b = (Inr asm, b')"
  obtains st where "resolveDefaultContributions ord (bld_state b) = Inr st" "registry_ok (set (map im_id (bld_modules b))) st"
    "orderModules st (activeModules st (bld_modules b)) = Inr (asm_modules asm)" "shape (asm_state asm) = shape st"
    "nil_ok (asm_state asm)" "pending_at (asm_state asm) = {}" "distinct (map fst (reg_byID (asm_state asm)))"
proof -
  obtain st where st: "resolveDefaultContributions ord (bld_state b) = Inr st"
    "orderModules st (activeModules st (bld_modules b)) = Inr (asm_modules asm)"
    "foldE materializeModule st (asm_modules asm) = Inr (asm_state asm)" using assms(3) by (rule Build_Inr)
  have ok: "registry_ok (set (map im_id (bld_modules b))) st"
    using registry_ok_resolved [OF st(1) assms(2)] reachable_registry [OF assms(1)] by blast
  then have d: "distinct (map fst (reg_byID st))" by (simp add: registry_ok_def)
  note m = materialize_Inr [OF st(3) registry_ok_nil [OF ok] d]
  have "set_mset (mset (asm_modules asm)) = set_mset (mset (map withRequirements (activeModules st (bld_modules b))))"
    using orderModules_mset [OF st(2)] by simp
  then have ids: "im_id ` set (asm_modules asm) = set (map im_id (activeModules st (bld_modules b)))" by (simp add: image_image)
  have "pending_at (asm_state asm) = {}"
    using m active_owner [OF ok] unfolding ids by (auto simp: pending_at_def) 
  then show ?thesis using that st ok m by blast
qed

text \<open>
  C31. Building constructs everything: after a successful build every registered value is constructed and not
  nil and belongs to a module of the assembly; a OneSlot holds at most one value and a ManySlot one per
  key; and each slot holds, in registration order, its explicit contributions and those defaults that no
  explicit contribution replaces.
\<close>

theorem build_constructs_everything:
  assumes "reachable_builder ord b" "\<And>ks. set (ord ks) = set ks" "Build ord profile b = (Inr asm, b')" "slot_of (asm_state asm) i = Some r"
  shows "(\<forall>v \<in> set (rec_values r). rv_constructor v = None \<and> \<not> isNil (rv_value v) \<and> rv_owner v \<in> set (map im_id (asm_modules asm))) \<and>
    (spec_kind (rec_spec r) = oneKind \<longrightarrow> length (rec_values r) \<le> 1) \<and>
    (spec_kind (rec_spec r) = manyKind \<longrightarrow> distinct (map rv_key (rec_values r))) \<and>
    (\<exists>s. slot_of (bld_state b) i = Some s \<and> rec_spec r = rec_spec s \<and>
       map tag (rec_values r) = map tag (filter (kept (spec_kind (rec_spec s)) (rec_values s)) (rec_values s)))"
proof -
  obtain st where st: "resolveDefaultContributions ord (bld_state b) = Inr st" "registry_ok (set (map im_id (bld_modules b))) st"
    "orderModules st (activeModules st (bld_modules b)) = Inr (asm_modules asm)" "shape (asm_state asm) = shape st"
    "nil_ok (asm_state asm)" "pending_at (asm_state asm) = {}" using assms(1,2,3) by (rule built_facts)
  have reg: "registry_ok (set (map im_id (bld_modules b))) (bld_state b)" by (rule reachable_registry [OF assms(1)])
  note res = resolveDefaultContributions_Inr [OF st(1) assms(2) reg]
  obtain q where q: "slot_of st i = Some q" "rec_spec q = rec_spec r" "map tag (rec_values q) = map tag (rec_values r)"
    using shape_slot [OF st(4), of i] assms(4) by (cases "slot_of st i") (auto simp: outline_def)
  obtain s where s: "slot_of (bld_state b) i = Some s" "q = keep_values s" using res(1) [of i] q(1) by (cases "slot_of (bld_state b) i") auto
  have "rv_constructor v = None \<and> \<not> isNil (rv_value v) \<and> rv_owner v \<in> set (map im_id (asm_modules asm))" if v: "v \<in> set (rec_values r)" for v
  proof -
    obtain k where k: "k < length (rec_values r)" "rec_values r ! k = v" using v by (auto simp: in_set_conv_nth)
    then have at: "value_at (asm_state asm) (i, k) = Some v" using assms(4) by (simp add: value_at_def)
    obtain w where "value_at st (i, k) = Some w" "rv_owner w = rv_owner v" using shape_owner_at [OF st(4) at] by metis
    then have "rv_owner v \<in> set (map im_id (activeModules st (bld_modules b)))" using active_owner [OF st(2)] by metis
    moreover have "im_id ` set (asm_modules asm) = set (map im_id (activeModules st (bld_modules b)))"
      using arg_cong [OF orderModules_mset [OF st(3)], of set_mset] by (simp add: image_image)
    ultimately show ?thesis using at st(5,6) by (auto simp: pending_at_def nil_ok_def)
  qed
  moreover have "unique_values (spec_kind (rec_spec r)) (rec_values q)" using res(3) [OF q(1)] q(2) by simp
  then have "(spec_kind (rec_spec r) = oneKind \<longrightarrow> length (rec_values r) \<le> 1) \<and> (spec_kind (rec_spec r) = manyKind \<longrightarrow> distinct (map rv_key (rec_values r)))"
    using tag_owner [OF q(3)] by (simp add: unique_values_def)
  moreover have "rec_spec r = rec_spec s \<and> map tag (rec_values r) = map tag (filter (kept (spec_kind (rec_spec s)) (rec_values s)) (rec_values s))"
    using q(2,3) s(2) by (simp add: keep_values_def)
  ultimately show ?thesis using s(1) by blast
qed

text \<open>
  C32. The assembly is in dependency order: its modules are exactly the active ones, without duplicates, and
  every requirement that a module declares is satisfied in the assembly by values of the module itself or
  of modules that come before it.
\<close>

theorem build_dependency_order:
  assumes "reachable_builder ord b" "\<And>ks. set (ord ks) = set ks" "Build ord profile b = (Inr asm, b')"
  shows "distinct (map im_id (asm_modules asm)) \<and> set (map im_id (asm_modules asm)) \<subseteq> set (map im_id (bld_modules b)) \<and>
    (\<forall>j < length (asm_modules asm). im_requirements (asm_modules asm ! j) = declared (asm_modules asm ! j) \<and>
       (\<forall>r \<in> set (declared (asm_modules asm ! j)). \<exists>vs. resolveRequirement (asm_state asm) r = Inr vs \<and>
          (\<forall>v \<in> set vs. rv_owner v = im_id (asm_modules asm ! j) \<or> (\<exists>k < j. im_id (asm_modules asm ! k) = rv_owner v))))"
proof -
  obtain st where st: "registry_ok (set (map im_id (bld_modules b))) st"
    "orderModules st (activeModules st (bld_modules b)) = Inr (asm_modules asm)" "shape (asm_state asm) = shape st" using assms by (rule built_facts)
  let ?act = "activeModules st (bld_modules b)" and ?ms = "asm_modules asm"
  have b: "distinct (map im_id (bld_modules b))" "\<forall>m \<in> set (bld_modules b). im_requirements m = []"
    using reachable_builder_ok [OF assms(1)] by (auto simp: builder_ok_def)
  then have act: "distinct (map im_id ?act)" "set ?act \<subseteq> set (bld_modules b)" by (auto simp: activeModules_def Let_def distinct_map_filter)
  note ms = orderModules_mset [OF st(2)]
  have ids: "mset (map im_id ?ms) = mset (map im_id ?act)" using arg_cong [OF ms, of "image_mset im_id"] by (simp add: image_mset.compositionality comp_def)
  have d: "distinct (map im_id ?ms)" "set (map im_id ?ms) \<subseteq> set (map im_id (bld_modules b))"
    using act(1) mset_eq_imp_distinct_iff [OF ids] mset_eq_setD [OF ids] act(2) by auto
  have req: "im_requirements (?ms ! j) = declared (?ms ! j)" if "j < length ?ms" for j
  proof -
    have "?ms ! j \<in> set (map withRequirements ?act)" using that ms by (metis mset_eq_setD nth_mem)
    then show ?thesis using b(2) act(2) by (auto simp: withRequirements_def declared_def split: option.splits)
  qed
  have "\<exists>vs. resolveRequirement (asm_state asm) r = Inr vs \<and> (\<forall>v \<in> set vs. rv_owner v = im_id (?ms ! j) \<or> (\<exists>k < j. im_id (?ms ! k) = rv_owner v))"
    if j: "j < length ?ms" "r \<in> set (declared (?ms ! j))" for j r
  proof -
    obtain vs where vs: "resolveRequirement st r = Inr vs" "\<forall>v \<in> set vs. rv_owner v = im_id (?ms ! j) \<or> (\<exists>k < j. im_id (?ms ! k) = rv_owner v)"
      using orderModules_before [OF st(2) act(1) j] by blast
    obtain ws where ws: "resolveRequirement (asm_state asm) r = Inr ws" "map tag ws = map tag vs"
      using resolveRequirement_shape [OF st(3) [symmetric] vs(1)] by blast
    have eq: "set (map rv_owner ws) = set (map rv_owner vs)" using tag_owner [OF ws(2)] by simp
    have "\<exists>u \<in> set vs. rv_owner u = rv_owner v" if "v \<in> set ws" for v
    proof -
      have "rv_owner v \<in> set (map rv_owner vs)" unfolding eq [symmetric] using that by simp
      then show ?thesis by auto
    qed
    then have "\<forall>v \<in> set ws. rv_owner v = im_id (?ms ! j) \<or> (\<exists>k < j. im_id (?ms ! k) = rv_owner v)" using vs(2) by fastforce
    then show ?thesis using ws(1) by blast
  qed
  then show ?thesis using d req by blast
qed


text \<open>
  C33. Ordering fails exactly on cycles: when every declared requirement resolves, the modules are ordered if
  and only if the provider relation between different modules has no cycle.  Otherwise the error names, in
  the order of installation, exactly the modules that are on a cycle or depend, through any number of
  providers, on one that is; each of them waits for another one it names.
\<close>

theorem order_iff_acyclic:
  assumes "dependencyGraph st ms = Inr g"
  shows "((\<exists>out. orderModules st ms = Inr out) \<longleftrightarrow> acyclic (provides st ms)) \<and>
    (\<forall>e. orderModules st ms = Inl e \<longrightarrow> (\<exists>rest. e = ErrDependencyCycle (map (\<lambda>i. im_id (ms ! i)) rest) \<and> rest \<noteq> [] \<and>
       rest = filter (\<lambda>x. \<exists>c. (c, c) \<in> (provides st ms)\<^sup>+ \<and> (c, x) \<in> (provides st ms)\<^sup>*) [0..<length ms] \<and>
       (\<forall>x \<in> set rest. \<exists>p \<in> set rest. (p, x) \<in> provides st ms)))"
  unfolding behind_cycle_def [symmetric] using orderModules_cycle [OF assms] by (cases "orderModules st ms") auto

lemma validateRequirement_error: "validateRequirement r = Some e \<Longrightarrow> \<exists>i. e = ErrInvalidRequirement i"
  by (auto simp: validateRequirement_def Let_def first_error_Cons split: if_splits slotKind.splits option.splits)

lemma resolveRequirement_not_NotReady: "resolveRequirement st r \<noteq> Inl (ErrDependencyNotReady i owner)"
  using validateRequirement_error [of r] by (auto simp: resolveRequirement_def guardE_def Let_def split: option.splits)

lemma find_in: "List.find P xs = Some x \<Longrightarrow> x \<in> set xs \<and> P x"
  by (induction xs) (auto split: if_splits)

lemma resolve_NotReady:
  assumes "resolve (Some s) spec key keyed = Inl (ErrDependencyNotReady i owner)"
  obtains r vs v where "r \<in> set (scp_requirements s)" "resolveRequirement (scp_state s) r = Inr vs" "v \<in> set vs" "pendingValue v" "rv_owner v = owner"
proof -
  obtain r where r: "declaredRequirement (scp_requirements s) spec key keyed = Some r"
    "bindE (resolveRequirement (scp_state s) r) (\<lambda>vs. case List.find pendingValue vs of
       Some v \<Rightarrow> Inl (ErrDependencyNotReady (spec_id spec) (rv_owner v)) | None \<Rightarrow> Inr vs) = Inl (ErrDependencyNotReady i owner)"
    using assms by (auto simp: resolve_def guardE_def check_def split: option.splits if_splits)
  obtain vs where vs: "resolveRequirement (scp_state s) r = Inr vs"
    using r(2) resolveRequirement_not_NotReady [of "scp_state s" r i owner] by (cases "resolveRequirement (scp_state s) r") auto
  then obtain v where v: "List.find pendingValue vs = Some v" "rv_owner v = owner" using r(2) by (auto split: option.splits)
  show ?thesis using that [OF _ vs] v(2) find_in [OF v(1)] find_in [OF r(1) [unfolded declaredRequirement_def]] by blast
qed

lemma resolved_at:
  assumes "resolveRequirement st r = Inr vs" "v \<in> set vs"
  obtains pos where "value_at st pos = Some v"
proof -
  obtain rec where rec: "slot_of st (spec_id (req_spec r)) = Some rec" "v \<in> set (rec_values rec)"
    using assms by (auto simp: resolveRequirement_def Let_def find_Some_iff split: option.splits if_splits)
  then obtain k where "k < length (rec_values rec)" "rec_values rec ! k = v" by (auto simp: in_set_conv_nth)
  then show ?thesis using that [of "(spec_id (req_spec r), k)"] rec by (simp add: value_at_def)
qed

text \<open>
  Constructors find their dependencies ready: while the constructors of a module run, in the order that
  building uses, a declared dependency is reported as not ready only when the module itself provides the
  value it waits for.
\<close>

theorem dependencies_ready:
  assumes "reachable_builder ord b" "\<And>ks. set (ord ks) = set ks" "resolveDefaultContributions ord (bld_state b) = Inr st"
    "orderModules st (activeModules st (bld_modules b)) = Inr ms" "j < length ms"
    "foldE materializeModule st (take j ms) = Inr u" "foldE (materializeTarget (ms ! j)) u (take k (constructorTargetsForOwner u (im_id (ms ! j)))) = Inr u'"
    "resolve (Some \<lparr>scp_state = u', scp_requirements = im_requirements (ms ! j), scp_open = True\<rparr>) spec key keyed = Inl (ErrDependencyNotReady i owner)"
  shows "owner = im_id (ms ! j)"
proof -
  have ok: "registry_ok (set (map im_id (bld_modules b))) st" using registry_ok_resolved [OF assms(3,2)] reachable_registry [OF assms(1)] by blast
  then have d: "distinct (map fst (reg_byID st))" by (simp add: registry_ok_def)
  have b: "distinct (map im_id (bld_modules b))" "\<forall>m \<in> set (bld_modules b). im_requirements m = []"
    using reachable_builder_ok [OF assms(1)] unfolding builder_ok_def by blast+
  let ?act = "activeModules st (bld_modules b)" and ?m = "ms ! j"
  have act: "distinct (map im_id ?act)" "set ?act \<subseteq> set (bld_modules b)" using b(1) by (auto simp: activeModules_def Let_def distinct_map_filter)
  have "?m \<in> set (map withRequirements ?act)" using assms(5) mset_eq_setD [OF orderModules_mset [OF assms(4)]] nth_mem by metis
  then have req: "im_requirements ?m = declared ?m" using b(2) act(2) by (auto simp: withRequirements_def declared_def split: option.splits)
  note m = materialize_Inr [OF assms(6) registry_ok_nil [OF ok] d]
  let ?ts = "take k (constructorTargetsForOwner u (im_id ?m))"
  have "\<forall>t \<in> set ?ts. value_at u (position t) \<noteq> None" using targets_value m by (metis in_set_takeD option.distinct(1))
  note n = materialize_targets [OF assms(7) _ this]
  have shape: "shape u' = shape st" and nil: "nil_ok u'" using m n by auto
  obtain r vs v where r: "r \<in> set (declared ?m)" "resolveRequirement u' r = Inr vs" "v \<in> set vs" "pendingValue v" "rv_owner v = owner"
    using resolve_NotReady [OF assms(8)] req by auto
  obtain pos where pos: "value_at u' pos = Some v" using resolved_at [OF r(2,3)] .
  have "pos \<in> pending_at u'" using pos nil r(4) unfolding pending_at_def nil_ok_def pendingValue_def by blast
  then have "pos \<in> pending_at u" using n m by blast
  moreover obtain w where w: "value_at st pos = Some w" "rv_owner w = owner" using shape_owner_at [OF shape pos] r(5) by metis
  ultimately have late: "owner \<notin> im_id ` set (take j ms)" using m by auto
  obtain vs0 where vs0: "resolveRequirement st r = Inr vs0" "\<forall>v \<in> set vs0. rv_owner v = im_id ?m \<or> (\<exists>k < j. im_id (ms ! k) = rv_owner v)"
    using orderModules_before [OF assms(4) act(1) assms(5) r(1)] by blast
  obtain ws where "resolveRequirement u' r = Inr ws" "map tag ws = map tag vs0" using resolveRequirement_shape [OF shape [symmetric] vs0(1)] by blast
  then have "map tag vs = map tag vs0" using r(2) by simp
  then have "map rv_owner vs = map rv_owner vs0" using tag_owner by blast
  then have "owner \<in> set (map rv_owner vs0)" using r(3,5) by (metis image_eqI list.set_map)
  then have "owner = im_id ?m \<or> (\<exists>k < j. im_id (ms ! k) = owner)" using vs0(2) by auto
  moreover have "im_id (ms ! k) \<in> im_id ` set (take j ms)" if "k < j" for k
    using that assms(5) by (intro imageI) (auto simp: in_set_conv_nth intro!: exI [of _ k])
  ultimately show ?thesis using late by blast
qed


definition well_typed :: "(Type \<Rightarrow> Type \<Rightarrow> bool) \<Rightarrow> 'v Assembly \<Rightarrow> bool" where
  "well_typed impl asm \<longleftrightarrow> (\<forall>i r. slot_of (asm_state asm) i = Some r \<longrightarrow> (\<forall>v \<in> set (rec_values r). assertsTo impl (rec_spec r) (rv_value v)))"

lemma assertsTo_same: "sameDefinition s s' \<Longrightarrow> assertsTo impl s v = assertsTo impl s' v"
  by (cases v) (auto simp: sameDefinition_def)

text \<open>
  A satisfied profile is usable: when a build with a required OneSlot succeeds and the registered values
  have the types of their slots, reading the slot from the assembly returns a value that is not nil; the
  same holds for a required key of a ManySlot.
\<close>

theorem profile_usable:
  assumes "reachable_builder ord b" "\<And>ks. set (ord ks) = set ks" "Build ord profile b = (Inr asm, b')" "well_typed impl asm"
  shows "(RequireOne slot \<in> set profile \<longrightarrow> (\<exists>x. Get impl asm slot = Inr (Some x) \<and> \<not> isNil x)) \<and>
    (RequireKey slot key \<in> set profile \<longrightarrow> (\<exists>x. Lookup impl asm slot key = Inr (Some x) \<and> \<not> isNil x))"
proof -
  obtain st where st: "shape (asm_state asm) = shape st" "nil_ok (asm_state asm)" "pending_at (asm_state asm) = {}"
    "resolveDefaultContributions ord (bld_state b) = Inr st" using assms(1,2,3) by (rule built_facts)
  obtain st' where st': "resolveDefaultContributions ord (bld_state b) = Inr st'" "\<forall>r \<in> set profile. \<exists>vs. resolveRequirement st' r = Inr vs"
    using assms(3) by (rule Build_Inr)
  have sat: "\<exists>vs. resolveRequirement (asm_state asm) r = Inr vs" if "r \<in> set profile" for r
    using st' st(4) that resolveRequirement_shape [OF st(1) [symmetric]] by fastforce
  have live: "\<not> isNil (rv_value v)" if "slot_of (asm_state asm) i = Some r" and v: "v \<in> set (rec_values r)" for i r v
  proof -
    obtain k where "k < length (rec_values r)" "rec_values r ! k = v" using v by (auto simp: in_set_conv_nth)
    then have "value_at (asm_state asm) (i, k) = Some v" using that(1) by (simp add: value_at_def)
    then show ?thesis using st(2,3) unfolding nil_ok_def pending_at_def by blast
  qed
  have typed: "asserted impl slot msg v = Inr (rv_value v)" if "slot_of (asm_state asm) (spec_id slot) = Some r" "sameDefinition (rec_spec r) slot" "v \<in> set (rec_values r)" for msg r v
    using assms(4) that(1,3) assertsTo_same [OF that(2), of impl "rv_value v"] unfolding well_typed_def asserted_def by auto
  have "\<exists>x. Get impl asm slot = Inr (Some x) \<and> \<not> isNil x" if p: "RequireOne slot \<in> set profile"
  proof -
    obtain r where r: "slot_of (asm_state asm) (spec_id slot) = Some r" "sameDefinition (rec_spec r) slot" "rec_values r \<noteq> []"
      using sat [OF p] by (auto simp: resolveRequirement_def RequireOne_def Let_def split: option.splits if_splits)
    then obtain v vs where v: "rec_values r = v # vs" by (cases "rec_values r") auto
    then show ?thesis using typed [OF r(1,2), of v] live [OF r(1), of v] r by (simp add: Get_def find_slot_def)
  qed
  moreover have "\<exists>x. Lookup impl asm slot key = Inr (Some x) \<and> \<not> isNil x" if p: "RequireKey slot key \<in> set profile"
  proof -
    obtain r v where r: "slot_of (asm_state asm) (spec_id slot) = Some r" "sameDefinition (rec_spec r) slot" "List.find (\<lambda>v. rv_key v = key) (rec_values r) = Some v"
      using sat [OF p] by (auto simp: resolveRequirement_def RequireKey_def Let_def split: option.splits if_splits)
    then show ?thesis using typed [OF r(1,2), of v] live [OF r(1), of v] find_in [OF r(3)] by (simp add: Lookup_def find_slot_def)
  qed
  ultimately show ?thesis by blast
qed

text \<open>
  C34. What every builder keeps, whatever modules were installed or refused and whatever builds were tried:
  module identifiers are distinct; every slot record has its own identifier, at most one explicit value in
  a OneSlot and one per key in a ManySlot; every value belongs to an installed module and is nil exactly
  while it waits for its constructor; and a refused module leaves no trace.
\<close>

theorem builder_invariant:
  assumes "reachable_builder ord b"
  shows "distinct (map im_id (bld_modules b)) \<and>
    (\<forall>i r. slot_of (bld_state b) i = Some r \<longrightarrow> spec_id (rec_spec r) = i \<and>
       (spec_kind (rec_spec r) = oneKind \<longrightarrow> length (valuesByDefault (rec_values r) False) \<le> 1) \<and>
       (spec_kind (rec_spec r) = manyKind \<longrightarrow> distinct (explicitKeys (rec_values r))) \<and>
       (\<forall>v \<in> set (rec_values r). rv_owner v \<in> set (map im_id (bld_modules b)) \<and> isNil (rv_value v) = (rv_constructor v \<noteq> None))) \<and>
    (\<forall>m e b'. Install m b = (Some e, b') \<longrightarrow> b' = b)"
proof -
  have "record_ok (set (map im_id (bld_modules b))) i r" if "slot_of (bld_state b) i = Some r" for i r
    using reachable_registry [OF assms] that unfolding registry_ok_def by blast
  moreover have "distinct (map im_id (bld_modules b))" using reachable_builder_ok [OF assms] unfolding builder_ok_def by blast
  ultimately show ?thesis using Install_Some by (fastforce simp: record_ok_def value_ok_def)
qed

section \<open>Lifecycle\<close>

definition lifecycle_ids :: "'v installedModule list \<Rightarrow> string list" where
  "lifecycle_ids ms = map im_id (filter (\<lambda>m. mod_Lifecycle (im_module m)) ms)"

lemma stopEach_log: "\<exists>errs. stopEach env log ids = (errs, log @ map StopCall ids)"
proof (induction ids arbitrary: log)
  case (Cons i ids)
  from Cons [of "log @ [StopCall i]"] show ?case by auto
qed simp

lemma startLoop_trace:
  "case startLoop env log active ms of
     (Inr active', log') \<Rightarrow> active' = active @ lifecycle_ids ms \<and> log' = log @ map StartCall (lifecycle_ids ms)
   | (Inl e, log') \<Rightarrow> \<exists>k < length (lifecycle_ids ms). \<exists>failed \<in> {[], [StartCall (lifecycle_ids ms ! k)]}.
       log' = log @ map StartCall (take k (lifecycle_ids ms)) @ failed @ map StopCall (rev (active @ take k (lifecycle_ids ms)))"
proof (induction env log active ms rule: startLoop.induct)
  case (1 env log active)
  then show ?case by (simp add: lifecycle_ids_def)
next
  case (2 env log active m ms)
  show ?case
  proof (cases "mod_Lifecycle (im_module m)")
    case False
    then have ids: "lifecycle_ids (m # ms) = lifecycle_ids ms" by (simp add: lifecycle_ids_def)
    show ?thesis unfolding ids using 2(1) [OF False] False by simp
  next
    case True
    then have ids: "lifecycle_ids (m # ms) = im_id m # lifecycle_ids ms" by (simp add: lifecycle_ids_def)
    show ?thesis
    proof (cases "life_ctxErr env log")
      case (Some e)
      then show ?thesis using True stopEach_log [of env log "rev active"]
        by (auto simp: ids rollbackStart_def split: prod.splits intro!: exI [of _ 0])
    next
      case None
      show ?thesis
      proof (cases "life_Start env log (im_id m)")
        case (Some e)
        then show ?thesis using True None stopEach_log [of env "log @ [StartCall (im_id m)]" "rev active"]
          by (auto simp: ids rollbackStart_def split: prod.splits intro!: exI [of _ 0])
      next
        case N: None
        note IH = 2(2) [OF _ None N]
        show ?thesis
        proof (cases "startLoop env (log @ [StartCall (im_id m)]) (active @ [im_id m]) ms")
          case (Pair r log')
          show ?thesis
          proof (cases r)
            case (Inr a)
            then show ?thesis using IH True None N Pair by (simp add: ids)
          next
            case (Inl e)
            have "\<exists>k < length (lifecycle_ids ms). \<exists>f \<in> {[], [StartCall (lifecycle_ids ms ! k)]}.
                log' = (log @ [StartCall (im_id m)]) @ map StartCall (take k (lifecycle_ids ms)) @ f @ map StopCall (rev ((active @ [im_id m]) @ take k (lifecycle_ids ms)))"
              using IH True by (simp only: Pair Inl) simp
            then obtain k f where k: "k < length (lifecycle_ids ms)" "f \<in> {[], [StartCall (lifecycle_ids ms ! k)]}"
              "log' = (log @ [StartCall (im_id m)]) @ map StartCall (take k (lifecycle_ids ms)) @ f @ map StopCall (rev ((active @ [im_id m]) @ take k (lifecycle_ids ms)))"
              by blast
            then show ?thesis using True None N Pair Inl
              by (auto simp: ids intro!: exI [of _ "Suc k"])
          qed
        qed
      qed
    qed
  qed
qed


text \<open>
  C35. Starting and stopping are balanced: a successful start calls \<^verbatim>\<open>Start\<close> of the lifecycle modules in
  assembly order, stopping its runtime calls \<^verbatim>\<open>Stop\<close> of exactly those in reverse order, and a second
  stop calls nothing and returns the first result; a failed start has started a prefix, called at most the
  failing module's \<^verbatim>\<open>Start\<close> after it, and stopped the prefix in reverse order; and an assembly starts
  at most once.
\<close>

theorem lifecycle_balanced:
  "case Assembly_Start env log asm of (r, log', asm') \<Rightarrow>
     asm_startAttempted asm' \<and> Assembly_Start env2 log2 asm' = (Inl ErrAssemblyStarted, log2, asm') \<and>
     (case r of
        Inr rt \<Rightarrow> log' = log @ map StartCall (lifecycle_ids (asm_modules asm)) \<and>
          (case Runtime_Stop env2 log2 rt of (e, log3, rt') \<Rightarrow>
             log3 = log2 @ map StopCall (rev (lifecycle_ids (asm_modules asm))) \<and> Runtime_Stop env3 log4 rt' = (e, log4, rt'))
      | Inl e \<Rightarrow> e = ErrAssemblyStarted \<and> log' = log \<or>
          (\<exists>k < length (lifecycle_ids (asm_modules asm)). \<exists>failed \<in> {[], [StartCall (lifecycle_ids (asm_modules asm) ! k)]}.
             log' = log @ map StartCall (take k (lifecycle_ids (asm_modules asm))) @ failed @ map StopCall (rev (take k (lifecycle_ids (asm_modules asm))))))"
proof (cases "asm_startAttempted asm")
  case True
  then show ?thesis by (simp add: Assembly_Start_def)
next
  case False
  obtain r log' where s: "startLoop env log [] (asm_modules asm) = (r, log')" by fastforce
  note trace = startLoop_trace [where env = env and log = log and active = "[]" and ms = "asm_modules asm", unfolded s]
  show ?thesis
  proof (cases r)
    case (Inl e)
    then show ?thesis using trace False s by (simp add: Assembly_Start_def)
  next
    case (Inr active)
    obtain errs where "stopEach env2 log2 (rev active) = (errs, log2 @ map StopCall (rev active))" using stopEach_log by blast
    then show ?thesis using trace False s Inr by (simp add: Assembly_Start_def Runtime_Stop_def)
  qed
qed

section \<open>Applications\<close>

inductive reachable_application :: "(string list \<Rightarrow> string list) \<Rightarrow> 'v Application \<Rightarrow> bool" for ord where
  application_new: "reachable_application ord (NewApplication name ms rs)"
| application_build: "reachable_application ord a \<Longrightarrow> Application_Build ord a = (r, a') \<Longrightarrow> reachable_application ord a'"
| application_start: "reachable_application ord a \<Longrightarrow> Application_Start ord env log a = (r, log', a') \<Longrightarrow> reachable_application ord a'"

definition mounted_ok :: "'v Application \<Rightarrow> bool" where
  "mounted_ok a \<longleftrightarrow> app_mounted a \<le> length (app_modules a) \<and> map (Some \<circ> im_module) (bld_modules (app_builder a)) = take (app_mounted a) (app_modules a) \<and>
     (app_assembly a \<noteq> None \<longrightarrow> bld_frozen (app_builder a) \<and> app_mounted a = length (app_modules a))"

lemma mountAll_ok:
  assumes "mountAll ms a = (e, a')" "mounted_ok a" "app_assembly a = None" "ms = drop (app_mounted a) (app_modules a)"
  shows "mounted_ok a' \<and> app_assembly a' = None \<and> app_modules a' = app_modules a \<and> app_name a' = app_name a \<and> app_profile a' = app_profile a \<and>
    (e = None \<longrightarrow> app_mounted a' = length (app_modules a))"
  using assms
proof (induction ms a rule: mountAll.induct)
  case (1 a)
  then show ?case by (auto simp: mounted_ok_def)
next
  case (2 m ms a)
  have lt: "app_mounted a < length (app_modules a)" using 2(5) by (metis drop_eq_Nil list.distinct(1) not_le)
  then have m: "app_modules a ! app_mounted a = m" "ms = drop (Suc (app_mounted a)) (app_modules a)"
    using 2(5) by (metis Cons_nth_drop_Suc list.inject)+
  show ?case
  proof (cases "Install m (app_builder a)")
    case (Pair f b)
    show ?thesis
    proof (cases f)
      case (Some x)
      then have "b = app_builder a" using Install_Some Pair by blast
      then show ?thesis using 2(2,3,4) Pair Some by (auto simp: mounted_ok_def)
    next
      case None
      let ?a = "a\<lparr>app_builder := b, app_mounted := app_mounted a + 1\<rparr>"
      obtain x where x: "m = Some x" "map im_module (bld_modules b) = map im_module (bld_modules (app_builder a)) @ [x]"
        using Pair unfolding None by (rule Install_None) simp
      have "map (Some \<circ> im_module) (bld_modules b) = map (Some \<circ> im_module) (bld_modules (app_builder a)) @ [m]"
        using arg_cong [OF x(2), of "map Some"] x(1) by simp
      then have "mounted_ok ?a" using 2(3,4) lt m(1) by (simp add: mounted_ok_def take_Suc_conv_app_nth)
      then show ?thesis using 2(1) [OF Pair [symmetric] None] 2(2,4) Pair None m(2) by simp
    qed
  qed
qed

lemma Application_Build_ok:
  assumes "Application_Build ord a = (r, a')" "mounted_ok a"
  shows "mounted_ok a' \<and> app_modules a' = app_modules a \<and> (\<forall>asm. r = Inr asm \<longrightarrow> app_assembly a' = Some asm)"
proof (cases "app_assembly a")
  case (Some asm)
  then show ?thesis using assms by (auto simp: Application_Build_def)
next
  case None
  show ?thesis
  proof (cases "badName (app_name a)")
    case True
    then show ?thesis using assms None by (auto simp: Application_Build_def)
  next
    case False
    obtain e a1 where m: "mountAll (drop (app_mounted a) (app_modules a)) a = (e, a1)" by fastforce
    note ok = mountAll_ok [OF m assms(2) None refl]
    obtain s b where b: "Build ord (app_profile a1) (app_builder a1) = (s, b)" by fastforce
    show ?thesis
    proof (cases e)
      case (Some x)
      then show ?thesis using assms(1) None False m ok by (auto simp: Application_Build_def)
    next
      case N: None
      show ?thesis
      proof (cases s)
        case (Inl x)
        then have "b = app_builder a1" using b by (auto simp: Build_def split: if_splits sum.splits)
        then show ?thesis using assms(1) None False m ok b N Inl by (auto simp: Application_Build_def mounted_ok_def)
      next
        case (Inr asm)
        then have "b = (app_builder a1)\<lparr>bld_frozen := True\<rparr>" using b by (auto simp: Build_def split: if_splits sum.splits)
        then show ?thesis using assms(1) None False m ok b N Inr by (auto simp: Application_Build_def mounted_ok_def)
      qed
    qed
  qed
qed

lemma reachable_mounted_ok: "reachable_application ord a \<Longrightarrow> mounted_ok a"
proof (induction rule: reachable_application.induct)
  case (application_new name ms rs)
  then show ?case by (simp add: mounted_ok_def NewApplication_def NewBuilder_def)
next
  case (application_build a r a')
  then show ?case using Application_Build_ok by blast
next
  case (application_start a env log r log' a')
  obtain s a1 where b: "Application_Build ord a = (s, a1)" by fastforce
  then show ?case using Application_Build_ok [OF b application_start.IH] application_start.hyps(2)
    by (auto simp: Application_Start_def mounted_ok_def split: sum.splits prod.splits)
qed

text \<open>
  Every declared module is mounted once, in order: whatever build and start attempts an application has
  seen, its builder holds exactly the first mounted modules of its list, all of them once it is built;
  and after a successful build every further build returns the same assembly without changing anything.
\<close>

theorem application_mounts_once:
  assumes "reachable_application ord a"
  shows "map (Some \<circ> im_module) (bld_modules (app_builder a)) = take (app_mounted a) (app_modules a) \<and>
    (app_assembly a \<noteq> None \<longrightarrow> app_mounted a = length (app_modules a) \<and> bld_frozen (app_builder a)) \<and>
    (\<forall>asm a'. Application_Build ord a = (Inr asm, a') \<longrightarrow> Application_Build ord a' = (Inr asm, a'))"
proof -
  have ok: "mounted_ok a" by (rule reachable_mounted_ok [OF assms])
  have "Application_Build ord a' = (Inr asm, a')" if "Application_Build ord a = (Inr asm, a')" for asm a'
    using Application_Build_ok [OF that ok] by (simp add: Application_Build_def)
  with ok show ?thesis unfolding mounted_ok_def by blast
qed

section \<open>A concrete application\<close>

definition demo_type :: Type where "demo_type = \<lparr>typ_id = 1, typ_String = ''T''\<rparr>"
definition demo_s :: slotSpec where "demo_s = \<lparr>spec_id = ''s'', spec_kind = oneKind, spec_valueType = Some demo_type\<rparr>"
definition demo_t :: slotSpec where "demo_t = \<lparr>spec_id = ''t'', spec_kind = oneKind, spec_valueType = Some demo_type\<rparr>"

definition demo_impl :: "Type \<Rightarrow> Type \<Rightarrow> bool" where "demo_impl a b \<longleftrightarrow> a = b"

text \<open>A provider of slot \<open>s\<close>, and a consumer that builds slot \<open>t\<close> from it and is installed first.\<close>

definition demo_provider :: "nat Module" where
  "demo_provider = \<lparr>mod_ID = ''p'', mod_Register = Call [Some (Set demo_s (Any demo_type False 7))] Finish,
     mod_RequiredSlots = None, mod_Lifecycle = True\<rparr>"

definition demo_consumer :: "nat Module" where
  "demo_consumer = \<lparr>mod_ID = ''c'', mod_Register = Call [Some (SetWith demo_t (Some (ResolveOne demo_impl demo_s Done)))] Finish,
     mod_RequiredSlots = Some [RequireOne demo_s], mod_Lifecycle = True\<rparr>"

definition demo_builder :: "nat Builder" where
  "demo_builder = snd (Install (Some demo_provider) (snd (Install (Some demo_consumer) NewBuilder)))"

definition demo_profile :: "Requirement list" where "demo_profile = [RequireOne demo_t]"

lemma demo_names [simp]: "\<not> badName ''p''" "\<not> badName ''c''" "\<not> badName ''d''"
  by (simp_all add: badName_def TrimSpace_graphic graphic_def)

lemmas demo_simps = demo_provider_def demo_consumer_def demo_type_def demo_s_def demo_t_def demo_impl_def

lemma demo_builder_reachable: "reachable_builder id demo_builder"
  unfolding demo_builder_def by (meson builder_install builder_new surjective_pairing)

lemma demo_builder_eval:
  "demo_builder = \<lparr>bld_state = \<lparr>reg_byID = [(''t'', \<lparr>rec_spec = demo_t, rec_values = [registered ''c'' (SetWith demo_t (Some (ResolveOne demo_impl demo_s Done))) 1]\<rparr>),
      (''s'', \<lparr>rec_spec = demo_s, rec_values = [registered ''p'' (Set demo_s (Any demo_type False 7)) 2]\<rparr>)], reg_nextOrdinal = 2\<rparr>,
    bld_modules = [\<lparr>im_id = ''c'', im_module = demo_consumer, im_requirements = [], im_contributes = True\<rparr>,
      \<lparr>im_id = ''p'', im_module = demo_provider, im_requirements = [], im_contributes = True\<rparr>], bld_frozen = False\<rparr>"
  by (simp add: demo_builder_def NewBuilder_def newRegistryState_def Install_def installCheck_def demo_provider_def demo_consumer_def
      Contribute_def apply_contribution_def contributionCheck_def occupied_def sameDefinition_def put_slot_def Set_def SetWith_def demo_s_def demo_t_def registered_def Let_def check_def)

definition demo_assembly :: "nat Assembly" where
  "demo_assembly = \<lparr>asm_state = \<lparr>reg_byID = [(''s'', \<lparr>rec_spec = demo_s, rec_values = [registered ''p'' (Set demo_s (Any demo_type False 7)) 2]\<rparr>),
      (''t'', \<lparr>rec_spec = demo_t, rec_values = [registered ''c'' (Set demo_t (Any demo_type False 7)) 1]\<rparr>)], reg_nextOrdinal = 2\<rparr>,
    asm_modules = [\<lparr>im_id = ''p'', im_module = demo_provider, im_requirements = [], im_contributes = True\<rparr>,
      \<lparr>im_id = ''c'', im_module = demo_consumer, im_requirements = [RequireOne demo_s], im_contributes = True\<rparr>],
    asm_profile = demo_profile, asm_startAttempted = False\<rparr>"

definition demo_resolved :: "nat registryState" where
  "demo_resolved = \<lparr>reg_byID = [(''s'', \<lparr>rec_spec = demo_s, rec_values = [registered ''p'' (Set demo_s (Any demo_type False 7)) 2]\<rparr>),
      (''t'', \<lparr>rec_spec = demo_t, rec_values = [registered ''c'' (SetWith demo_t (Some (ResolveOne demo_impl demo_s Done))) 1]\<rparr>)], reg_nextOrdinal = 2\<rparr>"

lemma demo_resolve: "resolveDefaultContributions id (bld_state demo_builder) = Inr demo_resolved"
  by (simp add: demo_builder_eval resolveDefaultContributions_def resolveRecordDefaults_def valuesByDefault_def demo_resolved_def put_slot_def
      registered_def Set_def SetWith_def demo_s_def demo_t_def Let_def)

lemma demo_active: "activeModules demo_resolved (bld_modules demo_builder) = bld_modules demo_builder"
  by (simp add: activeModules_def demo_builder_eval demo_resolved_def registered_def)

lemma demo_graph: "dependencyGraph demo_resolved (bld_modules demo_builder) = Inr \<lparr>g_edges = [(1, 0)], g_indegree = [1, 0]\<rparr>"
  by (simp add: dependencyGraph_def demo_builder_eval declared_def demo_consumer_def demo_provider_def linkRequirement_def linkProvider_def
      resolveRequirement_def validateRequirement_def RequireOne_def demo_resolved_def demo_s_def sameDefinition_def registered_def ownerIndex_def Let_def upt_rec)

lemma demo_order: "orderModules demo_resolved (bld_modules demo_builder) = Inr (asm_modules demo_assembly)"
  unfolding orderModules_def demo_graph
  by (simp add: demo_builder_eval emitLoop.simps release_def upt_rec demo_assembly_def withRequirements_def demo_consumer_def demo_provider_def)

lemma demo_materialize: "foldE materializeModule demo_resolved (asm_modules demo_assembly) = Inr (asm_state demo_assembly)"
  by (simp add: demo_assembly_def materializeModule_def constructorTargetsForOwner_def slotTargets_def demo_resolved_def registered_def Set_def SetWith_def
      materializeTarget_def ResolveOne_def resolve_def declaredRequirement_def RequireOne_def demo_s_def demo_t_def resolveRequirement_def validateRequirement_def
      sameDefinition_def pendingValue_def view_def resolvedValue_def demo_impl_def demo_type_def put_slot_def Let_def check_def)

lemma demo_build: "Build id demo_profile demo_builder = (Inr demo_assembly, demo_builder\<lparr>bld_frozen := True\<rparr>)"
proof -
  have "resolveRequirement demo_resolved (RequireOne demo_t) = Inr [registered ''c'' (SetWith demo_t (Some (ResolveOne demo_impl demo_s Done))) 1]"
    by (simp add: resolveRequirement_def validateRequirement_def RequireOne_def demo_t_def demo_resolved_def sameDefinition_def Let_def)
  then have "buildState id demo_profile demo_builder = Inr demo_assembly"
    by (simp add: buildState_def demo_resolve demo_active demo_order materializeConstructors_def demo_materialize demo_profile_def)
      (simp add: demo_assembly_def demo_profile_def)
  then show ?thesis by (simp add: Build_def demo_builder_eval)
qed


theorem build_constructs_everything_witness:
  "reachable_builder id demo_builder \<and> Build id demo_profile demo_builder = (Inr demo_assembly, demo_builder\<lparr>bld_frozen := True\<rparr>) \<and>
   (\<exists>r. slot_of (asm_state demo_assembly) ''t'' = Some r \<and> length (rec_values r) = 1 \<and> (\<forall>v \<in> set (rec_values r). rv_constructor v = None \<and> \<not> isNil (rv_value v)))"
proof -
  obtain r where r: "slot_of (asm_state demo_assembly) ''t'' = Some r" "length (rec_values r) = 1" by (simp add: demo_assembly_def)
  from build_constructs_everything [OF demo_builder_reachable _ demo_build r(1)] r demo_builder_reachable demo_build show ?thesis by simp
qed

theorem build_dependency_order_witness:
  "reachable_builder id demo_builder \<and> map im_id (bld_modules demo_builder) = [''c'', ''p''] \<and> map im_id (asm_modules demo_assembly) = [''p'', ''c''] \<and>
   (\<exists>vs. resolveRequirement (asm_state demo_assembly) (RequireOne demo_s) = Inr vs \<and>
      (\<forall>v \<in> set vs. rv_owner v = ''c'' \<or> (\<exists>k < 1. im_id (asm_modules demo_assembly ! k) = rv_owner v)))"
proof -
  have m: "length (asm_modules demo_assembly) = 2" "map im_id (asm_modules demo_assembly) = [''p'', ''c'']" "im_id (asm_modules demo_assembly ! 1) = ''c''"
    "declared (asm_modules demo_assembly ! 1) = [RequireOne demo_s]"
    by (simp_all add: demo_assembly_def declared_def demo_consumer_def)
  have "map im_id (bld_modules demo_builder) = [''c'', ''p'']" by (simp add: demo_builder_eval)
  moreover have "\<forall>j < length (asm_modules demo_assembly). \<forall>r \<in> set (declared (asm_modules demo_assembly ! j)). \<exists>vs. resolveRequirement (asm_state demo_assembly) r = Inr vs \<and>
      (\<forall>v \<in> set vs. rv_owner v = im_id (asm_modules demo_assembly ! j) \<or> (\<exists>k < j. im_id (asm_modules demo_assembly ! k) = rv_owner v))"
    using build_dependency_order [OF demo_builder_reachable _ demo_build] by simp
  then have "\<forall>r \<in> set (declared (asm_modules demo_assembly ! 1)). \<exists>vs. resolveRequirement (asm_state demo_assembly) r = Inr vs \<and>
      (\<forall>v \<in> set vs. rv_owner v = im_id (asm_modules demo_assembly ! 1) \<or> (\<exists>k < 1. im_id (asm_modules demo_assembly ! k) = rv_owner v))"
    using m(1) by (metis one_less_numeral_iff semiring_norm(76))
  ultimately show ?thesis using demo_builder_reachable m(2,3,4) by simp
qed

text \<open>Two modules that need each other, and a third one, on no cycle, that needs the second.\<close>

definition demo_needy :: "string \<Rightarrow> slotSpec \<Rightarrow> nat installedModule" where
  "demo_needy i spec = \<lparr>im_id = i, im_module = \<lparr>mod_ID = i, mod_Register = Finish None, mod_RequiredSlots = Some [RequireOne spec],
     mod_Lifecycle = False\<rparr>, im_requirements = [], im_contributes = True\<rparr>"

definition demo_cyclic :: "nat installedModule list" where
  "demo_cyclic = [demo_needy ''c'' demo_s, demo_needy ''p'' demo_t, demo_needy ''x'' demo_s]"

lemma demo_cyclic_graph:
  "dependencyGraph demo_resolved demo_cyclic = Inr \<lparr>g_edges = [(1, 0), (0, 1), (1, 2)], g_indegree = [1, 1, 1]\<rparr>"
  by (simp add: dependencyGraph_def demo_cyclic_def demo_needy_def declared_def linkRequirement_def linkProvider_def
      resolveRequirement_def validateRequirement_def RequireOne_def demo_resolved_def demo_s_def demo_t_def sameDefinition_def
      registered_def ownerIndex_def Let_def upt_rec)

lemma demo_cyclic_order: "orderModules demo_resolved demo_cyclic = Inl (ErrDependencyCycle [''c'', ''p'', ''x''])"
proof -
  have "emitLoop (length demo_cyclic) [(1, 0), (0, 1), (1, 2)] (replicate (length demo_cyclic) False) [1, 1, 1] [] = Inl [0, 1, 2]"
    by (subst emitLoop.simps) (simp add: demo_cyclic_def upt_rec)
  then show ?thesis unfolding orderModules_def demo_cyclic_graph by (simp add: demo_cyclic_def demo_needy_def withRequirements_def)
qed

theorem order_iff_acyclic_witness:
  "dependencyGraph demo_resolved (bld_modules demo_builder) = Inr \<lparr>g_edges = [(1, 0)], g_indegree = [1, 0]\<rparr> \<and>
   acyclic (provides demo_resolved (bld_modules demo_builder)) \<and>
   (\<exists>g. dependencyGraph demo_resolved demo_cyclic = Inr g) \<and> \<not> acyclic (provides demo_resolved demo_cyclic) \<and>
   orderModules demo_resolved demo_cyclic = Inl (ErrDependencyCycle [''c'', ''p'', ''x''])"
  using order_iff_acyclic [OF demo_graph] demo_graph demo_order order_iff_acyclic [OF demo_cyclic_graph] demo_cyclic_graph demo_cyclic_order
  by simp

theorem profile_usable_witness:
  "well_typed demo_impl demo_assembly \<and> (\<exists>x. Get demo_impl demo_assembly demo_t = Inr (Some x) \<and> \<not> isNil x)"
proof -
  have typed: "well_typed demo_impl demo_assembly"
    by (auto simp: well_typed_def demo_assembly_def registered_def Set_def demo_impl_def demo_s_def demo_t_def split: if_splits)
  have "RequireOne demo_t \<in> set demo_profile" by (simp add: demo_profile_def)
  then show ?thesis using profile_usable [OF demo_builder_reachable _ demo_build typed, of demo_t "''''"] typed by simp
qed

text \<open>A module that needs its own slot: its constructor is told that the dependency is not ready.\<close>

definition demo_self :: "nat Module" where
  "demo_self = \<lparr>mod_ID = ''d'', mod_Register = Call [Some (SetWith demo_t (Some (ResolveOne demo_impl demo_t Done)))] Finish,
     mod_RequiredSlots = Some [RequireOne demo_t], mod_Lifecycle = False\<rparr>"

definition demo_self_builder :: "nat Builder" where "demo_self_builder = snd (Install (Some demo_self) NewBuilder)"

definition demo_self_state :: "nat registryState" where
  "demo_self_state = \<lparr>reg_byID = [(''t'', \<lparr>rec_spec = demo_t, rec_values = [registered ''d'' (SetWith demo_t (Some (ResolveOne demo_impl demo_t Done))) 1]\<rparr>)], reg_nextOrdinal = 1\<rparr>"

definition demo_self_module :: "nat installedModule" where
  "demo_self_module = \<lparr>im_id = ''d'', im_module = demo_self, im_requirements = [], im_contributes = True\<rparr>"

lemma demo_self_eval: "demo_self_builder = \<lparr>bld_state = demo_self_state, bld_modules = [demo_self_module], bld_frozen = False\<rparr>"
  by (simp add: demo_self_builder_def demo_self_module_def demo_self_state_def NewBuilder_def newRegistryState_def Install_def installCheck_def demo_self_def
      Contribute_def apply_contribution_def contributionCheck_def occupied_def sameDefinition_def put_slot_def SetWith_def demo_t_def registered_def Let_def check_def)

lemma demo_self_resolve: "resolveDefaultContributions id (bld_state demo_self_builder) = Inr demo_self_state"
  by (simp add: demo_self_eval demo_self_state_def resolveDefaultContributions_def resolveRecordDefaults_def valuesByDefault_def put_slot_def
      registered_def SetWith_def demo_t_def Let_def)

lemma demo_self_order: "orderModules demo_self_state (activeModules demo_self_state (bld_modules demo_self_builder)) = Inr [withRequirements demo_self_module]"
proof -
  have "activeModules demo_self_state (bld_modules demo_self_builder) = [demo_self_module]"
    by (simp add: activeModules_def demo_self_eval demo_self_state_def demo_self_module_def registered_def)
  moreover have "dependencyGraph demo_self_state [demo_self_module] = Inr \<lparr>g_edges = [], g_indegree = [0]\<rparr>"
    by (simp add: dependencyGraph_def declared_def demo_self_module_def demo_self_def linkRequirement_def linkProvider_def
      resolveRequirement_def validateRequirement_def RequireOne_def demo_self_state_def demo_t_def sameDefinition_def registered_def ownerIndex_def Let_def)
  ultimately show ?thesis by (simp add: orderModules_def emitLoop.simps release_def)
qed

theorem dependencies_ready_witness:
  "resolve (Some \<lparr>scp_state = demo_self_state, scp_requirements = [RequireOne demo_t], scp_open = True\<rparr>) demo_t '''' False = Inl (ErrDependencyNotReady ''t'' ''d'') \<and>
   ''d'' = im_id (withRequirements demo_self_module)"
proof -
  have reach: "reachable_builder id demo_self_builder" unfolding demo_self_builder_def by (meson builder_install builder_new surjective_pairing)
  have req: "im_requirements (withRequirements demo_self_module) = [RequireOne demo_t]" by (simp add: withRequirements_def demo_self_module_def demo_self_def)
  have wait: "resolve (Some \<lparr>scp_state = demo_self_state, scp_requirements = [RequireOne demo_t], scp_open = True\<rparr>) demo_t '''' False = Inl (ErrDependencyNotReady ''t'' ''d'')"
    by (simp add: resolve_def declaredRequirement_def RequireOne_def demo_t_def resolveRequirement_def validateRequirement_def demo_self_state_def sameDefinition_def
        pendingValue_def registered_def SetWith_def Let_def check_def)
  have "''d'' = im_id ([withRequirements demo_self_module] ! 0)"
    by (rule dependencies_ready [OF reach _ demo_self_resolve demo_self_order, where j = 0 and k = 0 and u = demo_self_state and u' = demo_self_state and spec = demo_t and key = "''''" and keyed = False and i = "''t''"])
      (simp_all add: req wait)
  with wait show ?thesis by simp
qed

definition demo_application :: "nat Application" where
  "demo_application = NewApplication ''d'' [Some demo_consumer, Some demo_provider] demo_profile"

lemma demo_installs:
  "fst (Install (Some demo_consumer) NewBuilder) = None" "fst (Install (Some demo_provider) (snd (Install (Some demo_consumer) NewBuilder))) = None"
  by (simp_all add: NewBuilder_def newRegistryState_def Install_def installCheck_def demo_provider_def demo_consumer_def Contribute_def apply_contribution_def
      contributionCheck_def occupied_def sameDefinition_def put_slot_def Set_def SetWith_def demo_s_def demo_t_def registered_def Let_def check_def)

lemma demo_application_build: "Application_Build id demo_application = (Inr demo_assembly,
    demo_application\<lparr>app_mounted := 2, app_builder := demo_builder\<lparr>bld_frozen := True\<rparr>, app_assembly := Some demo_assembly\<rparr>)"
proof -
  obtain b where b: "Install (Some demo_consumer) NewBuilder = (None, b)" "Install (Some demo_provider) b = (None, demo_builder)"
    using demo_installs by (cases "Install (Some demo_consumer) NewBuilder") (auto simp: demo_builder_def prod_eq_iff)
  then show ?thesis by (simp add: Application_Build_def demo_application_def NewApplication_def demo_build)
qed

theorem application_mounts_once_witness:
  "reachable_application id (snd (Application_Build id demo_application)) \<and> app_assembly (snd (Application_Build id demo_application)) = Some demo_assembly \<and>
   app_mounted (snd (Application_Build id demo_application)) = 2"
proof -
  let ?a = "demo_application\<lparr>app_mounted := 2, app_builder := demo_builder\<lparr>bld_frozen := True\<rparr>, app_assembly := Some demo_assembly\<rparr>"
  have new: "reachable_application id demo_application" unfolding demo_application_def by (rule application_new)
  have reach: "reachable_application id ?a" by (rule application_build [OF new demo_application_build])
  from application_mounts_once [OF reach] have "app_mounted ?a = length (app_modules ?a)" by simp
  then show ?thesis unfolding demo_application_build using reach by (simp add: demo_application_def NewApplication_def)
qed

theorem builder_invariant_witness:
  "reachable_builder id demo_builder \<and> (\<exists>r. slot_of (bld_state demo_builder) ''t'' = Some r \<and> length (valuesByDefault (rec_values r) False) = 1 \<and>
     (\<forall>v \<in> set (rec_values r). rv_owner v \<in> {''c'', ''p''} \<and> isNil (rv_value v) = (rv_constructor v \<noteq> None)))"
proof -
  obtain r where r: "slot_of (bld_state demo_builder) ''t'' = Some r" "length (valuesByDefault (rec_values r) False) = 1"
    by (simp add: demo_builder_eval valuesByDefault_def registered_def SetWith_def)
  have "set (map im_id (bld_modules demo_builder)) = {''c'', ''p''}" by (simp add: demo_builder_eval)
  with builder_invariant [OF demo_builder_reachable] r demo_builder_reachable show ?thesis by auto
qed

end
