(* ===== verification/Versioned_Store.thy ===== *)
theory Versioned_Store
  imports Prelude "HOL-Library.Word"
begin

text \<open>
  The contract of stores with optimistic concurrency: an update names the version it expects, applies only
  to that version, raises it by one, and otherwise leaves the store alone. The goal store and the job store
  promise it; what follows for their clients is proved here once.
\<close>

locale versioned_store =
  fixes inv :: "'s \<Rightarrow> bool" and get :: "'s \<Rightarrow> 'k \<Rightarrow> 'v option" and ver :: "'v \<Rightarrow> 64 word"
    and upd :: "'r \<Rightarrow> 's \<Rightarrow> ('e + 'v) \<times> 's" and key :: "'r \<Rightarrow> 'k" and expected :: "'r \<Rightarrow> 64 word"
  assumes guarded: "upd r s = (Inr v, s') \<Longrightarrow> (case get s (key r) of Some w \<Rightarrow> ver w = expected r | None \<Rightarrow> expected r = 0)"
    and applied: "inv s \<Longrightarrow> upd r s = (Inr v, s') \<Longrightarrow> s' \<noteq> s \<Longrightarrow> get s' (key r) = Some v \<and> ver v = expected r + 1"
    and others: "inv s \<Longrightarrow> upd r s = (x, s') \<Longrightarrow> k \<noteq> key r \<Longrightarrow> get s' k = get s k"
    and keeps: "inv s \<Longrightarrow> upd r s = (x, s') \<Longrightarrow> inv s'"
    and failed: "upd r s = (Inl e, s') \<Longrightarrow> s' = s"
begin

text \<open>Of two updates that expect the same version, the second is refused.\<close>

lemma stale_refused:
  assumes "inv s" "upd r s = (Inr v, s')" "s' \<noteq> s" "key q = key r" "expected q = expected r" "upd q s' = (x, s'')"
  shows "\<exists>e. x = Inl e \<and> s'' = s'"
proof (cases x)
  case (Inl e)
  then show ?thesis using failed assms(6) by blast
next
  case (Inr w)
  have a: "get s' (key q) = Some v" "ver v = expected q + 1" using applied [OF assms(1-3)] assms(4,5) by simp_all
  then have "ver v = expected q" using guarded [OF assms(6) [unfolded Inr]] by simp
  then show ?thesis using a(2) by simp
qed

text \<open>A retry that reads the current version and updates that one is not refused for its version.\<close>

lemma version_after:
  assumes "inv s" "upd r s = (Inr v, s')" "s' \<noteq> s"
  shows "map_option ver (get s' (key r)) = Some (expected r + 1)"
  using applied [OF assms] by simp

end

end
