(* ===== verification/Goal_Store.thy ===== *)
theory Goal_Store
  imports Agent_Types Versioned_Store
begin

text \<open>
  Goals (\<^verbatim>\<open>goal/contracts.go\<close>, \<^verbatim>\<open>goal/memory_store.go\<close>): the contracts and the in-memory store. The clock
  reading of an operation is its argument \<open>now\<close>.
\<close>

section \<open>Contracts\<close>

datatype Status = StatusActive | StatusPaused | StatusCompleted | StatusCanceled | Status_other string

definition Status_Valid :: "Status \<Rightarrow> bool" where
  "Status_Valid s \<longleftrightarrow> s = StatusActive \<or> s = StatusPaused \<or> s = StatusCompleted \<or> s = StatusCanceled"

record Goal =
  goal_ID :: string
  goal_SessionID :: SessionID
  goal_Objective :: string
  goal_Status :: Status
  goal_Version :: uint64
  goal_FollowOns :: int
  goal_MaxFollowOns :: int
  goal_UpdatedAt :: time

definition badObjective :: "string \<Rightarrow> bool" where
  "badObjective s \<longleftrightarrow> TrimSpace s = '''' \<or> TrimSpace s \<noteq> s"

definition Goal_Validate :: "Goal \<Rightarrow> string option" where
  "Goal_Validate g = check (goal_ID g = '''' \<or> \<not> validID (goal_SessionID g) \<or> badObjective (goal_Objective g) \<or> \<not> Status_Valid (goal_Status g) \<or>
     goal_Version g = 0 \<or> goal_FollowOns g < 0 \<or> goal_MaxFollowOns g \<le> 0 \<or> goal_FollowOns g > goal_MaxFollowOns g \<or> IsZero (goal_UpdatedAt g))
     ''goal: invalid goal''"

record SetRequest =
  set_SessionID :: SessionID
  set_Objective :: string
  set_ExpectedVersion :: uint64
  set_MaxFollowOns :: int

record StateChangeRequest =
  sch_SessionID :: SessionID
  sch_ExpectedVersion :: uint64
  sch_Status :: Status

datatype Decision = DecisionContinue | DecisionBlocked | DecisionDone | Decision_other string

definition Decision_Valid :: "Decision \<Rightarrow> bool" where
  "Decision_Valid d \<longleftrightarrow> d = DecisionContinue \<or> d = DecisionBlocked \<or> d = DecisionDone"

datatype ReasonCode = ReasonProgressPossible | ReasonObjectiveMet | ReasonNeedsInput | ReasonExternalBlocker
  | ReasonFollowOnLimit | ReasonEvaluatorFailure | ReasonCode_other string

definition ReasonCode_Valid :: "ReasonCode \<Rightarrow> bool" where
  "ReasonCode_Valid r = (case r of ReasonCode_other _ \<Rightarrow> False | _ \<Rightarrow> True)"

record Evaluation =
  ev_Decision :: Decision
  ev_Reason :: ReasonCode
  ev_NextInstruction :: MessageInput

definition Evaluation_Validate :: "Evaluation \<Rightarrow> string option" where
  "Evaluation_Validate e =
     (if \<not> Decision_Valid (ev_Decision e) \<or> \<not> ReasonCode_Valid (ev_Reason e) then Some ''goal: invalid evaluation decision''
      else if ev_Decision e = DecisionContinue then
        check (ev_Reason e \<noteq> ReasonProgressPossible \<or> \<not> MessageInput_Valid (ev_NextInstruction e)) ''goal: continue requires a valid next instruction''
      else first_error
        [check (ev_Decision e = DecisionDone \<and> ev_Reason e \<noteq> ReasonObjectiveMet) ''goal: done requires objective_met'',
         check (ev_Decision e = DecisionBlocked \<and> ev_Reason e \<noteq> ReasonNeedsInput \<and> ev_Reason e \<noteq> ReasonExternalBlocker \<and>
           ev_Reason e \<noteq> ReasonFollowOnLimit \<and> ev_Reason e \<noteq> ReasonEvaluatorFailure) ''goal: blocked requires a blocking reason'',
         check (MessageInput_Valid (ev_NextInstruction e)) ''goal: terminal evaluation cannot carry next instruction''])"

record DecisionRecord =
  dr_ID :: string
  dr_GoalID :: string
  dr_SessionID :: SessionID
  dr_RunID :: RunID
  dr_StepID :: StepID
  dr_ExpectedVersion :: uint64
  dr_Evaluation :: Evaluation
  dr_RecordedAt :: time

section \<open>The store\<close>

record GoalStore =
  gs_sequence :: uint64
  gs_goals :: "SessionID \<rightharpoonup> Goal"
  gs_decisions :: "string \<rightharpoonup> DecisionRecord \<times> Goal"

definition NewGoalStore :: GoalStore where
  "NewGoalStore = \<lparr>gs_sequence = 0, gs_goals = Map.empty, gs_decisions = Map.empty\<rparr>"

abbreviation (input) "ErrVersionConflict \<equiv> ''goal: version conflict''"

definition Current :: "SessionID \<Rightarrow> GoalStore \<Rightarrow> string + Goal option" where
  "Current i s = (if \<not> validID i then Inl ''goal: invalid SessionID'' else Inr (gs_goals s i))"

definition Set_goal :: "time \<Rightarrow> SetRequest \<Rightarrow> GoalStore \<Rightarrow> (string + Goal) \<times> GoalStore" where
  "Set_goal now r s =
     (if \<not> validID (set_SessionID r) \<or> badObjective (set_Objective r) \<or> set_MaxFollowOns r \<le> 0 then (Inl ''goal: invalid set request'', s)
      else if (case gs_goals s (set_SessionID r) of None \<Rightarrow> set_ExpectedVersion r \<noteq> 0 | Some g \<Rightarrow> goal_Version g \<noteq> set_ExpectedVersion r)
        then (Inl ErrVersionConflict, s)
      else
        let n = gs_sequence s + 1;
            g = \<lparr>goal_ID = ''goal-'' @ dec (unat n), goal_SessionID = set_SessionID r, goal_Objective = set_Objective r, goal_Status = StatusActive,
                 goal_Version = set_ExpectedVersion r + 1, goal_FollowOns = 0, goal_MaxFollowOns = set_MaxFollowOns r, goal_UpdatedAt = now\<rparr> in
        (Inr g, s\<lparr>gs_sequence := n, gs_goals := (gs_goals s)(set_SessionID r \<mapsto> g)\<rparr>))"

definition validStatusTransition :: "Status \<Rightarrow> Status \<Rightarrow> bool" where
  "validStatusTransition from to \<longleftrightarrow>
     from = StatusActive \<and> (to = StatusPaused \<or> to = StatusCompleted \<or> to = StatusCanceled) \<or>
     from = StatusPaused \<and> (to = StatusActive \<or> to = StatusCanceled)"

definition ChangeStatus :: "time \<Rightarrow> StateChangeRequest \<Rightarrow> GoalStore \<Rightarrow> (string + Goal) \<times> GoalStore" where
  "ChangeStatus now r s =
     (if \<not> validID (sch_SessionID r) \<or> \<not> Status_Valid (sch_Status r) then (Inl ''goal: invalid state change'', s)
      else case gs_goals s (sch_SessionID r) of
          None \<Rightarrow> (Inl ''goal: not found'', s)
        | Some g \<Rightarrow>
            if goal_Version g \<noteq> sch_ExpectedVersion r then (Inl ErrVersionConflict, s)
            else if goal_Status g = sch_Status r then (Inr g, s)
            else if \<not> validStatusTransition (goal_Status g) (sch_Status r) then (Inl ''goal: invalid status transition'', s)
            else
              let g' = g\<lparr>goal_Status := sch_Status r, goal_Version := goal_Version g + 1, goal_UpdatedAt := now\<rparr> in
              (Inr g', s\<lparr>gs_goals := (gs_goals s)(sch_SessionID r \<mapsto> g')\<rparr>))"

text \<open>What a decision does to the goal.\<close>

definition decide :: "DecisionRecord \<Rightarrow> Goal \<Rightarrow> string + Goal" where
  "decide r g = (case ev_Decision (dr_Evaluation r) of
      DecisionContinue \<Rightarrow> (if goal_FollowOns g \<ge> goal_MaxFollowOns g then Inl ''goal: follow-on limit reached'' else Inr (g\<lparr>goal_FollowOns := goal_FollowOns g + 1\<rparr>))
    | DecisionBlocked \<Rightarrow> Inr (g\<lparr>goal_Status := StatusPaused\<rparr>)
    | DecisionDone \<Rightarrow> Inr (g\<lparr>goal_Status := StatusCompleted\<rparr>)
    | Decision_other _ \<Rightarrow> Inr g)"

definition decisionCheck :: "DecisionRecord \<Rightarrow> string option" where
  "decisionCheck r = check (dr_ID r = '''' \<or> dr_GoalID r = '''' \<or> \<not> validID (dr_SessionID r) \<or> \<not> validID (dr_RunID r) \<or> \<not> validID (dr_StepID r) \<or>
     dr_ExpectedVersion r = 0 \<or> IsZero (dr_RecordedAt r) \<or> Evaluation_Validate (dr_Evaluation r) \<noteq> None) ''goal: invalid decision record''"

definition goalCheck :: "DecisionRecord \<Rightarrow> Goal option \<Rightarrow> string + Goal" where
  "goalCheck r current = (case current of
      None \<Rightarrow> Inl ''goal: not found''
    | Some g \<Rightarrow> guardE (first_error
        [check (goal_ID g \<noteq> dr_GoalID r) ''goal: not found'',
         check (goal_Version g \<noteq> dr_ExpectedVersion r) ErrVersionConflict,
         check (goal_Status g \<noteq> StatusActive) ''goal: only an active goal may accept a decision'',
         check (dr_RecordedAt r < goal_UpdatedAt g) ''goal: decision time precedes current state'']) (Inr g))"

definition RecordDecision :: "DecisionRecord \<Rightarrow> GoalStore \<Rightarrow> (string + Goal) \<times> GoalStore" where
  "RecordDecision r s = (case decisionCheck r of
      Some e \<Rightarrow> (Inl e, s)
    | None \<Rightarrow> (case gs_decisions s (dr_ID r) of
        Some (old, result) \<Rightarrow> (if old = r then Inr result else Inl ''goal: decision idempotency conflict'', s)
      | None \<Rightarrow> (case bindE (goalCheck r (gs_goals s (dr_SessionID r))) (decide r) of
          Inl e \<Rightarrow> (Inl e, s)
        | Inr g \<Rightarrow>
            let g' = g\<lparr>goal_Version := goal_Version g + 1, goal_UpdatedAt := dr_RecordedAt r\<rparr> in
            (Inr g', s\<lparr>gs_goals := (gs_goals s)(dr_SessionID r \<mapsto> g'), gs_decisions := (gs_decisions s)(dr_ID r \<mapsto> (r, g'))\<rparr>))))"

section \<open>Optimistic concurrency\<close>

lemma Set_goal_Inr:
  assumes "Set_goal now r s = (Inr g, s')"
  shows "(case gs_goals s (set_SessionID r) of Some w \<Rightarrow> goal_Version w = set_ExpectedVersion r | None \<Rightarrow> set_ExpectedVersion r = 0)"
    "gs_goals s' = (gs_goals s)(set_SessionID r \<mapsto> g)" "gs_decisions s' = gs_decisions s"
    "g = \<lparr>goal_ID = ''goal-'' @ dec (unat (gs_sequence s + 1)), goal_SessionID = set_SessionID r, goal_Objective = set_Objective r, goal_Status = StatusActive,
       goal_Version = set_ExpectedVersion r + 1, goal_FollowOns = 0, goal_MaxFollowOns = set_MaxFollowOns r, goal_UpdatedAt = now\<rparr>"
    "validID (set_SessionID r)" "\<not> badObjective (set_Objective r)" "0 < set_MaxFollowOns r"
  using assms by (auto simp: Set_goal_def Let_def split: if_splits option.splits)

lemma Set_goal_Inl: "Set_goal now r s = (Inl e, s') \<Longrightarrow> s' = s"
  by (auto simp: Set_goal_def Let_def split: if_splits)

lemma ChangeStatus_Inr:
  assumes "ChangeStatus now r s = (Inr g, s')"
  obtains w where "gs_goals s (sch_SessionID r) = Some w" "goal_Version w = sch_ExpectedVersion r" "s' = s" "g = w"
  | w where "gs_goals s (sch_SessionID r) = Some w" "goal_Version w = sch_ExpectedVersion r" "validStatusTransition (goal_Status w) (sch_Status r)"
      "g = w\<lparr>goal_Status := sch_Status r, goal_Version := goal_Version w + 1, goal_UpdatedAt := now\<rparr>"
      "s' = s\<lparr>gs_goals := (gs_goals s)(sch_SessionID r \<mapsto> g)\<rparr>"
  using assms by (auto simp: ChangeStatus_def Let_def split: if_splits option.splits)

lemma ChangeStatus_Inl: "ChangeStatus now r s = (Inl e, s') \<Longrightarrow> s' = s"
  by (auto simp: ChangeStatus_def Let_def split: if_splits option.splits)

interpretation goal_set: versioned_store "\<lambda>_. True" gs_goals goal_Version "Set_goal now" set_SessionID set_ExpectedVersion for now
proof unfold_locales
  fix r s g s' assume "Set_goal now r s = (Inr g, s')"
  from Set_goal_Inr [OF this] show "case gs_goals s (set_SessionID r) of Some w \<Rightarrow> goal_Version w = set_ExpectedVersion r | None \<Rightarrow> set_ExpectedVersion r = 0"
    "gs_goals s' (set_SessionID r) = Some g \<and> goal_Version g = set_ExpectedVersion r + 1" by simp_all
next
  fix r s x s' k assume "Set_goal now r s = (x, s')" "k \<noteq> set_SessionID r"
  then show "gs_goals s' k = gs_goals s k" by (cases x) (auto dest: Set_goal_Inl Set_goal_Inr(2))
qed (auto dest: Set_goal_Inl)

interpretation goal_status: versioned_store "\<lambda>_. True" gs_goals goal_Version "ChangeStatus now" sch_SessionID sch_ExpectedVersion for now
proof unfold_locales
  fix r s g s' assume c: "ChangeStatus now r s = (Inr g, s')"
  then show "case gs_goals s (sch_SessionID r) of Some w \<Rightarrow> goal_Version w = sch_ExpectedVersion r | None \<Rightarrow> sch_ExpectedVersion r = 0"
    by (cases rule: ChangeStatus_Inr) simp_all
  show "gs_goals s' (sch_SessionID r) = Some g \<and> goal_Version g = sch_ExpectedVersion r + 1" if "s' \<noteq> s"
    using c that by (cases rule: ChangeStatus_Inr) simp_all
next
  fix r s x s' k assume c: "ChangeStatus now r s = (x, s')" "k \<noteq> sch_SessionID r"
  show "gs_goals s' k = gs_goals s k"
  proof (cases x)
    case (Inr g)
    from c(1) [unfolded Inr] show ?thesis by (cases rule: ChangeStatus_Inr) (use c(2) in auto)
  next
    case (Inl e)
    then have "s' = s" using c(1) ChangeStatus_Inl by blast
    then show ?thesis by simp
  qed
qed (auto dest: ChangeStatus_Inl)


section \<open>Reachable goal stores\<close>

inductive goal_step :: "GoalStore \<Rightarrow> GoalStore \<Rightarrow> bool" where
  goal_set: "now \<noteq> 0 \<Longrightarrow> Set_goal now r s = (x, s') \<Longrightarrow> goal_step s s'"
| goal_change: "now \<noteq> 0 \<Longrightarrow> ChangeStatus now c s = (x, s') \<Longrightarrow> goal_step s s'"
| goal_decide: "RecordDecision d s = (x, s') \<Longrightarrow> goal_step s s'"

inductive_cases goal_stepE: "goal_step s s'"

text \<open>A stored goal is valid for its Session; only a version that wrapped around to zero can break its validity.\<close>

definition goal_ok :: "SessionID \<Rightarrow> Goal \<Rightarrow> bool" where
  "goal_ok i g \<longleftrightarrow> goal_SessionID g = i \<and> (Goal_Validate (g\<lparr>goal_Version := 1\<rparr>) = None)"

definition goals_ok :: "GoalStore \<Rightarrow> bool" where
  "goals_ok s \<longleftrightarrow> (\<forall>i g. gs_goals s i = Some g \<longrightarrow> goal_ok i g) \<and>
     (\<forall>i r g. gs_decisions s i = Some (r, g) \<longrightarrow> dr_ID r = i \<and> goal_ok (dr_SessionID r) g \<and> goal_ID g = dr_GoalID r \<and> goal_Version g = dr_ExpectedVersion r + 1)"

lemma RecordDecision_Inr:
  assumes "RecordDecision r s = (Inr g, s')"
  obtains "gs_decisions s (dr_ID r) = Some (r, g)" "s' = s"
  | w h where "gs_decisions s (dr_ID r) = None" "decisionCheck r = None" "gs_goals s (dr_SessionID r) = Some w" "goal_ID w = dr_GoalID r"
      "goal_Version w = dr_ExpectedVersion r" "goal_Status w = StatusActive" "decide r w = Inr h"
      "g = h\<lparr>goal_Version := goal_Version h + 1, goal_UpdatedAt := dr_RecordedAt r\<rparr>"
      "s' = s\<lparr>gs_goals := (gs_goals s)(dr_SessionID r \<mapsto> g), gs_decisions := (gs_decisions s)(dr_ID r \<mapsto> (r, g))\<rparr>"
  using assms by (auto simp: RecordDecision_def goalCheck_def Let_def split: option.splits if_splits sum.splits)

lemma RecordDecision_Inl: "RecordDecision r s = (Inl e, s') \<Longrightarrow> s' = s"
  by (auto simp: RecordDecision_def Let_def split: option.splits if_splits sum.splits)

lemma decide_ok: "decide r w = Inr h \<Longrightarrow> goal_ok i w \<Longrightarrow> dr_RecordedAt r \<noteq> 0 \<Longrightarrow>
    goal_ok i (h\<lparr>goal_Version := v, goal_UpdatedAt := dr_RecordedAt r\<rparr>) \<and> goal_ID h = goal_ID w \<and> goal_Version h = goal_Version w"
  by (auto simp: decide_def goal_ok_def Goal_Validate_def Status_Valid_def IsZero_def split: Decision.splits if_splits)

lemma goal_step_ok:
  assumes "goal_step s s'" "goals_ok s"
  shows "goals_ok s'"
  using assms(1)
proof (rule goal_stepE)
  fix now r x assume now: "now \<noteq> 0" and st: "Set_goal now r s = (x, s')"
  show ?thesis
  proof (cases x)
    case (Inl e)
    then show ?thesis using st Set_goal_Inl assms(2) by blast
  next
    case (Inr g)
    note f = Set_goal_Inr [OF st [unfolded Inr]]
    have "goal_ok (set_SessionID r) g" using f(4,5,6,7) now by (simp add: goal_ok_def Goal_Validate_def Status_Valid_def IsZero_def)
    then show ?thesis using assms(2) f(2,3) by (auto simp: goals_ok_def)
  qed
next
  fix now c x assume now: "now \<noteq> 0" and st: "ChangeStatus now c s = (x, s')"
  show ?thesis
  proof (cases x)
    case (Inl e)
    then show ?thesis using st ChangeStatus_Inl assms(2) by blast
  next
    case (Inr g)
    from st [unfolded Inr] show ?thesis
    proof (cases rule: ChangeStatus_Inr)
      case (2 w)
      have "goal_ok (sch_SessionID c) w" using assms(2) 2(1) by (simp add: goals_ok_def)
      then have "goal_ok (sch_SessionID c) g" using 2(3,4) now by (auto simp: goal_ok_def Goal_Validate_def validStatusTransition_def Status_Valid_def IsZero_def)
      then show ?thesis using assms(2) 2(5) by (auto simp: goals_ok_def)
    qed (use assms(2) in simp)
  qed
next
  fix d x assume st: "RecordDecision d s = (x, s')"
  show ?thesis
  proof (cases x)
    case (Inl e)
    then show ?thesis using st RecordDecision_Inl assms(2) by blast
  next
    case (Inr g)
    from st [unfolded Inr] show ?thesis
    proof (cases rule: RecordDecision_Inr)
      case (2 w h)
      have "goal_ok (dr_SessionID d) w" using assms(2) 2(3) by (simp add: goals_ok_def)
      moreover have "dr_RecordedAt d \<noteq> 0" using 2(2) by (simp add: decisionCheck_def IsZero_def)
      ultimately have "goal_ok (dr_SessionID d) g" "goal_ID g = dr_GoalID d" "goal_Version g = dr_ExpectedVersion d + 1"
        using decide_ok [OF 2(7)] 2(4,5,8) by auto
      then show ?thesis using assms(2) 2(9) by (auto simp: goals_ok_def)
    qed (use assms(2) in simp)
  qed
qed

lemma reachable_goals_ok: "goal_step\<^sup>*\<^sup>* NewGoalStore s \<Longrightarrow> goals_ok s"
proof (induction rule: rtranclp_induct)
  case base
  show ?case by (simp add: goals_ok_def NewGoalStore_def)
next
  case (step y z)
  then show ?case using goal_step_ok by blast
qed

lemma goal_step_decisions:
  assumes "goal_step s s'" shows "gs_decisions s \<subseteq>\<^sub>m gs_decisions s'"
  using assms
proof (rule goal_stepE)
  fix now r x assume "Set_goal now r s = (x, s')"
  then show ?thesis by (cases x) (auto dest: Set_goal_Inl Set_goal_Inr(3))
next
  fix now c x assume "ChangeStatus now c s = (x, s')"
  then show ?thesis by (cases x) (auto dest: ChangeStatus_Inl elim: ChangeStatus_Inr)
next
  fix d x assume "RecordDecision d s = (x, s')"
  then show ?thesis by (cases x) (auto dest: RecordDecision_Inl elim!: RecordDecision_Inr simp: map_le_def)
qed

lemma goal_steps_decisions: "goal_step\<^sup>*\<^sup>* s s' \<Longrightarrow> gs_decisions s \<subseteq>\<^sub>m gs_decisions s'"
  by (induction rule: rtranclp_induct) (auto intro: map_le_trans goal_step_decisions)

text \<open>
  C36. Every goal in a reachable goal store belongs to its Session and is valid, except that a version may
  have wrapped around to zero: it has an objective, a known status, and never more follow-ons than its
  limit; and every recorded decision keeps the result for exactly the goal and version it was made for.
\<close>

theorem goal_store_invariant:
  assumes "goal_step\<^sup>*\<^sup>* NewGoalStore s"
  shows "(\<forall>i g. gs_goals s i = Some g \<longrightarrow> goal_SessionID g = i \<and> (goal_Version g \<noteq> 0 \<longrightarrow> Goal_Validate g = None) \<and> goal_FollowOns g \<le> goal_MaxFollowOns g) \<and>
    (\<forall>i r g. gs_decisions s i = Some (r, g) \<longrightarrow> dr_ID r = i \<and> goal_ID g = dr_GoalID r \<and> goal_SessionID g = dr_SessionID r \<and> goal_Version g = dr_ExpectedVersion r + 1)"
proof -
  have "goal_ok i g \<Longrightarrow> goal_SessionID g = i \<and> (goal_Version g \<noteq> 0 \<longrightarrow> Goal_Validate g = None) \<and> goal_FollowOns g \<le> goal_MaxFollowOns g" for i g
    by (auto simp: goal_ok_def Goal_Validate_def)
  moreover note ok = reachable_goals_ok [OF assms, unfolded goals_ok_def]
  moreover have "dr_ID r = i \<and> goal_ID g = dr_GoalID r \<and> goal_SessionID g = dr_SessionID r \<and> goal_Version g = dr_ExpectedVersion r + 1"
    if "gs_decisions s i = Some (r, g)" for i r g using ok that by (simp add: goal_ok_def)
  ultimately show ?thesis by blast
qed

definition demo_set :: SetRequest where
  "demo_set = \<lparr>set_SessionID = ''s1'', set_Objective = ''o1'', set_ExpectedVersion = 0, set_MaxFollowOns = 2\<rparr>"

definition demo_goal :: Goal where
  "demo_goal = \<lparr>goal_ID = ''goal-1'', goal_SessionID = ''s1'', goal_Objective = ''o1'', goal_Status = StatusActive, goal_Version = 1,
     goal_FollowOns = 0, goal_MaxFollowOns = 2, goal_UpdatedAt = 1\<rparr>"

definition demo_goals :: GoalStore where
  "demo_goals = \<lparr>gs_sequence = 1, gs_goals = [''s1'' \<mapsto> demo_goal], gs_decisions = Map.empty\<rparr>"

lemma demo_ids: "validID ''s1''" "validID ''r1''" "validID ''t1''" "TrimSpace ''o1'' = ''o1''"
  by (simp_all add: validID_graphic TrimSpace_graphic graphic_def)

lemma dec_one: "dec (Suc 0) = ''1''"
  by code_simp

lemma demo_goal_set: "Set_goal 1 demo_set NewGoalStore = (Inr demo_goal, demo_goals)"
  using demo_ids by (simp add: Set_goal_def demo_set_def NewGoalStore_def demo_goals_def demo_goal_def badObjective_def Let_def dec_one)

lemma demo_goals_reachable: "goal_step\<^sup>*\<^sup>* NewGoalStore demo_goals"
  using goal_set [OF _ demo_goal_set] by (rule r_into_rtranclp) simp

theorem goal_store_invariant_witness:
  "goal_step\<^sup>*\<^sup>* NewGoalStore demo_goals \<and> gs_goals demo_goals ''s1'' = Some demo_goal \<and> Goal_Validate demo_goal = None"
  using goal_store_invariant [OF demo_goals_reachable] demo_goals_reachable by (simp add: demo_goals_def demo_goal_def)

definition demo_decision :: DecisionRecord where
  "demo_decision = \<lparr>dr_ID = ''d1'', dr_GoalID = ''goal-1'', dr_SessionID = ''s1'', dr_RunID = ''r1'', dr_StepID = ''t1'', dr_ExpectedVersion = 1,
     dr_Evaluation = \<lparr>ev_Decision = DecisionDone, ev_Reason = ReasonObjectiveMet, ev_NextInstruction = \<lparr>input_Parts = []\<rparr>\<rparr>, dr_RecordedAt = 2\<rparr>"

text \<open>
  C37. Decisions are recorded exactly once: after a decision was accepted, whatever operations follow,
  repeating the same record returns the original result and changes nothing, and another record under the
  same identifier is refused.
\<close>

theorem decision_exactly_once:
  assumes "RecordDecision r s = (Inr g, s1)" "goal_step\<^sup>*\<^sup>* s1 s2"
  shows "RecordDecision r s2 = (Inr g, s2) \<and> (\<forall>q. dr_ID q = dr_ID r \<and> q \<noteq> r \<longrightarrow> (\<exists>e. RecordDecision q s2 = (Inl e, s2)))"
proof -
  have "gs_decisions s1 (dr_ID r) = Some (r, g)" using assms(1) by (cases rule: RecordDecision_Inr) auto
  then have d: "gs_decisions s2 (dr_ID r) = Some (r, g)" using goal_steps_decisions [OF assms(2)] by (auto simp: map_le_def dom_def)
  have "decisionCheck r = None" using assms(1) by (auto simp: RecordDecision_def split: option.splits)
  then show ?thesis using d by (auto simp: RecordDecision_def split: option.splits)
qed

theorem decision_exactly_once_witness:
  "\<exists>g s. RecordDecision demo_decision demo_goals = (Inr g, s) \<and> goal_Status g = StatusCompleted \<and> RecordDecision demo_decision s = (Inr g, s)"
proof -
  obtain g s where d: "RecordDecision demo_decision demo_goals = (Inr g, s)" "goal_Status g = StatusCompleted"
    using demo_ids by (simp add: RecordDecision_def demo_decision_def decisionCheck_def Evaluation_Validate_def Decision_Valid_def ReasonCode_Valid_def
        MessageInput_Valid_def IsZero_def demo_goals_def demo_goal_def goalCheck_def decide_def Let_def check_def)
  with decision_exactly_once [OF d(1)] show ?thesis by blast
qed

end
