(* ===== verification/Context_Compaction.thy ===== *)
theory Context_Compaction
  imports Model_Protocol "HOL-Library.Sublist"
begin

text \<open>
  Context compaction (\<^verbatim>\<open>context/contracts.go\<close>, \<^verbatim>\<open>context/tail_compactor.go\<close>): the contract of a compactor as
  a locale, and the tail compactor, which keeps the most recent protocol groups. The error of the Go
  context is an argument.
\<close>

section \<open>The tail compactor\<close>

record CompactionInput =
  cin_SessionID :: SessionID
  cin_Revision :: Revision
  cin_Inputs :: "Input list"
  cin_Config :: Config

record CompactionOutput =
  cout_SourceRevision :: Revision
  cout_Inputs :: "Input list"

definition NewTailCompactor :: "int \<Rightarrow> string + int" where
  "NewTailCompactor maxInputs = (if maxInputs \<le> 0 then Inl ''context: max inputs must be positive'' else Inr maxInputs)"

definition toolItem :: "Input \<Rightarrow> bool" where
  "toolItem i \<longleftrightarrow> inp_ToolCall i \<noteq> None \<or> inp_ToolResult i \<noteq> None"

definition assistantItem :: "Input \<Rightarrow> bool" where
  "assistantItem i \<longleftrightarrow> (case inp_Message i of None \<Rightarrow> False | Some m \<Rightarrow> msg_Role m = RoleAssistant)"

definition groupEnd :: "Input list \<Rightarrow> nat \<Rightarrow> nat" where
  "groupEnd inputs start = (if assistantItem (inputs ! start) then start + 1 + length (takeWhile toolItem (drop (start + 1) inputs)) else start + 1)"

function protocolGroups_from :: "Input list \<Rightarrow> nat \<Rightarrow> (nat \<times> nat) list" where
  "protocolGroups_from inputs start =
     (if start < length inputs then (start, groupEnd inputs start) # protocolGroups_from inputs (groupEnd inputs start) else [])"
  by pat_completeness auto
termination by (relation "measure (\<lambda>(inputs, start). length inputs - start)") (auto simp: groupEnd_def)

declare protocolGroups_from.simps [simp del]

definition protocolGroups :: "Input list \<Rightarrow> (nat \<times> nat) list" where
  "protocolGroups inputs = protocolGroups_from inputs 0"

definition latestRunID :: "Input list \<Rightarrow> RunID" where
  "latestRunID inputs = (case List.find (\<lambda>r. r \<noteq> '''') (concat (map (\<lambda>i.
       (case inp_Message i of Some m \<Rightarrow> [msg_RunID m] | None \<Rightarrow> []) @ (case inp_ToolCall i of Some c \<Rightarrow> [call_RunID c] | None \<Rightarrow> [])) (rev inputs))) of
     Some r \<Rightarrow> r | None \<Rightarrow> '''')"

text \<open>Growing the kept tail from the end; \<open>start\<close> and \<open>held\<close> (the source's \<^verbatim>\<open>count\<close>) are the loop's variables.\<close>

fun keepTail :: "(nat \<times> nat) list \<Rightarrow> int \<Rightarrow> nat \<Rightarrow> int \<Rightarrow> nat \<times> int" where
  "keepTail groups maxInputs 0 held = (0, held)"
| "keepTail groups maxInputs (Suc start) held =
     (let size = int (snd (groups ! start)) - int (fst (groups ! start)) in
      if held > 0 \<and> held + size > maxInputs then (Suc start, held) else keepTail groups maxInputs start (held + size))"

definition continues :: "Input list \<Rightarrow> RunID \<Rightarrow> nat \<times> nat \<Rightarrow> bool" where
  "continues inputs run g \<longleftrightarrow> (case inp_Message (inputs ! fst g) of None \<Rightarrow> False
     | Some m \<Rightarrow> msg_RunID m = run \<and> msg_ModelContinuation m \<noteq> None)"

definition requiredGroup :: "Input list \<Rightarrow> (nat \<times> nat) list \<Rightarrow> nat option" where
  "requiredGroup inputs groups = List.find (\<lambda>k. continues inputs (latestRunID inputs) (groups ! k)) (rev [0..<length groups])"

definition compactStart :: "int \<Rightarrow> Input list \<Rightarrow> nat" where
  "compactStart maxInputs inputs =
     (let groups = protocolGroups inputs; start = fst (keepTail groups maxInputs (length groups) 0) in
      case requiredGroup inputs groups of Some k \<Rightarrow> if k < start then k else start | None \<Rightarrow> start)"

definition Compact :: "int \<Rightarrow> string option \<Rightarrow> CompactionInput \<Rightarrow> string + CompactionOutput" where
  "Compact maxInputs ctxErr input = guardE ctxErr (guardE (ValidateInputs (cin_Inputs input))
     (let groups = protocolGroups (cin_Inputs input); start = compactStart maxInputs (cin_Inputs input);
          first = (if start < length groups then fst (groups ! start) else 0) in
      Inr \<lparr>cout_SourceRevision = cin_Revision input, cout_Inputs = drop first (cin_Inputs input)\<rparr>))"

section \<open>The contract of a compactor\<close>

locale context_compactor =
  fixes compact :: "string option \<Rightarrow> CompactionInput \<Rightarrow> string + CompactionOutput"
  assumes legal: "compact ctxErr i = Inr x \<Longrightarrow> ValidateInputs (cout_Inputs x) = None"
    and recent: "compact ctxErr i = Inr x \<Longrightarrow> suffix (cout_Inputs x) (cin_Inputs i)"
    and revision: "compact ctxErr i = Inr x \<Longrightarrow> cout_SourceRevision x = cin_Revision i"
    and total: "ValidateInputs (cin_Inputs i) = None \<Longrightarrow> \<exists>x. compact None i = Inr x"
begin

text \<open>Compacting again always succeeds and only shortens.\<close>

lemma compact_again:
  assumes "compact e i = Inr x"
  shows "\<exists>y. compact None (i\<lparr>cin_Inputs := cout_Inputs x\<rparr>) = Inr y \<and> ValidateInputs (cout_Inputs y) = None \<and> length (cout_Inputs y) \<le> length (cout_Inputs x)"
proof -
  obtain y where y: "compact None (i\<lparr>cin_Inputs := cout_Inputs x\<rparr>) = Inr y" using total [of "i\<lparr>cin_Inputs := cout_Inputs x\<rparr>"] legal [OF assms] by auto
  then show ?thesis using legal [OF y] recent [OF y] by (auto dest: suffix_length_le)
qed

end

section \<open>Groups are exchanges\<close>

lemma exchange_tools:
  assumes "exchange_ok x"
  shows "takeWhile toolItem (map call_input (x_calls x) @ map result_input (x_results x) @ concat (map exchange_inputs xs)) =
    map call_input (x_calls x) @ map result_input (x_results x)"
proof -
  have a: "\<forall>i \<in> set (map call_input (x_calls x) @ map result_input (x_results x)). toolItem i" by (auto simp: toolItem_def)
  have b: "takeWhile toolItem (concat (map exchange_inputs xs)) = []" by (cases xs) (simp_all add: exchange_inputs_def toolItem_def)
  show ?thesis using a b by (metis append.assoc append_Nil2 takeWhile_append2)
qed

lemma exchange_alone: "exchange_ok x \<Longrightarrow> msg_Role (x_message x) \<noteq> RoleAssistant \<Longrightarrow> x_calls x = [] \<and> x_results x = []"
  by (auto simp: exchange_ok_def)

lemma groupEnd_exchange:
  assumes "exchange_ok x" "inputs = pre @ exchange_inputs x @ concat (map exchange_inputs xs)"
  shows "groupEnd inputs (length pre) = length pre + length (exchange_inputs x)"
proof (cases "msg_Role (x_message x) = RoleAssistant")
  case True
  have "drop (length pre + 1) inputs = map call_input (x_calls x) @ map result_input (x_results x) @ concat (map exchange_inputs xs)"
    using assms(2) by (simp add: exchange_inputs_def)
  then show ?thesis using True exchange_tools [OF assms(1), of xs] assms(2) by (simp add: groupEnd_def exchange_inputs_def assistantItem_def)
next
  case False
  then show ?thesis using exchange_alone [OF assms(1)] assms(2) by (simp add: groupEnd_def exchange_inputs_def assistantItem_def)
qed

text \<open>The boundaries of a sequence of exchanges after a prefix of length \<open>n\<close>.\<close>

primrec segments :: "nat \<Rightarrow> exchange list \<Rightarrow> (nat \<times> nat) list" where
  "segments n [] = []"
| "segments n (x # xs) = (n, n + length (exchange_inputs x)) # segments (n + length (exchange_inputs x)) xs"

lemma groups_segments:
  assumes "\<forall>x \<in> set xs. exchange_ok x" "inputs = pre @ concat (map exchange_inputs xs)"
  shows "protocolGroups_from inputs (length pre) = segments (length pre) xs"
  using assms
proof (induction xs arbitrary: pre)
  case Nil
  then show ?case by (subst protocolGroups_from.simps) simp
next
  case (Cons x xs)
  let ?e = "exchange_inputs x"
  have e: "groupEnd inputs (length pre) = length (pre @ ?e)" using groupEnd_exchange [of x inputs pre xs] Cons.prems by simp
  have lt: "length pre < length inputs" using Cons.prems(2) by (simp add: exchange_inputs_def)
  have "protocolGroups_from inputs (length (pre @ ?e)) = segments (length (pre @ ?e)) xs" using Cons.IH [of "pre @ ?e"] Cons.prems by simp
  then show ?case using e lt by (subst protocolGroups_from.simps) simp
qed

lemma segments_length [simp]: "length (segments n xs) = length xs"
  by (induction xs arbitrary: n) simp_all

lemma segments_nth: "k < length xs \<Longrightarrow> segments n xs ! k =
    (n + length (concat (map exchange_inputs (take k xs))), n + length (concat (map exchange_inputs (take (Suc k) xs))))"
proof (induction xs arbitrary: n k)
  case (Cons x xs)
  then show ?case by (cases k) simp_all
qed simp

text \<open>Legal inputs are an optional prompt and a sequence of exchanges; the prompt is a group of its own.\<close>

lemma legal_shape:
  assumes "ValidateInputs inputs = None"
  obtains pre xs where "inputs = pre @ concat (map exchange_inputs xs)" "exchanges_ok xs" "pre = [] \<or> (\<exists>p. p \<noteq> '''' \<and> pre = [prompt_input p])"
proof (cases "inputs \<noteq> [] \<and> inp_SystemPrompt (hd inputs) \<noteq> None")
  case True
  then obtain p i rest where i: "inputs = i # rest" "inp_SystemPrompt i = Some p" by (cases inputs) auto
  then have "i = prompt_input p" "p \<noteq> ''''" "validateInputs_from [] [] rest = None" using assms ValidateInputs_prompt by simp_all
  then show ?thesis using that [of "[i]"] i(1) validateInputs_from_iff [of rest] by auto
next
  case False
  then have "validateInputs_from [] [] inputs = None" using assms by (auto simp: ValidateInputs_def split: if_splits)
  then show ?thesis using that [of "[]"] validateInputs_from_iff [of inputs] by auto
qed

lemma exchanges_legal: "exchanges_ok xs \<Longrightarrow> ValidateInputs (concat (map exchange_inputs xs)) = None"
proof -
  assume ok: "exchanges_ok xs"
  then have "validateInputs_from [] [] (concat (map exchange_inputs xs)) = None" using validateInputs_from_iff by blast
  moreover have "concat (map exchange_inputs xs) = [] \<or> inp_SystemPrompt (hd (concat (map exchange_inputs xs))) = None"
    by (cases xs) (simp_all add: exchange_inputs_def)
  ultimately show ?thesis by (auto simp: ValidateInputs_def)
qed

lemma exchanges_ok_drop: "exchanges_ok xs \<Longrightarrow> exchanges_ok (drop k xs)"
proof -
  assume "exchanges_ok xs"
  then have "exchanges_ok (take k xs @ drop k xs)" by simp
  then show ?thesis unfolding exchanges_ok_def by (auto simp del: append_take_drop_id)
qed

text \<open>The groups of legal inputs, and the cut at each of them.\<close>

lemma legal_groups:
  assumes "inputs = pre @ concat (map exchange_inputs xs)" "exchanges_ok xs" "pre = [] \<or> (\<exists>p. p \<noteq> '''' \<and> pre = [prompt_input p])"
  shows "protocolGroups inputs = (if pre = [] then [] else [(0, 1)]) @ segments (length pre) xs"
proof -
  have g: "protocolGroups_from inputs (length pre) = segments (length pre) xs"
    using groups_segments [OF _ assms(1)] assms(2) by (simp add: exchanges_ok_def)
  show ?thesis
  proof (cases "pre = []")
    case True
    then show ?thesis using g by (simp add: protocolGroups_def)
  next
    case False
    then obtain p where p: "pre = [prompt_input p]" using assms(3) by blast
    then have "groupEnd inputs 0 = length pre" "0 < length inputs" using assms(1) by (simp_all add: groupEnd_def assistantItem_def)
    then show ?thesis using g p by (subst protocolGroups_def, subst protocolGroups_from.simps) simp
  qed
qed

lemma legal_cut:
  assumes "ValidateInputs inputs = None" "k < length (protocolGroups inputs)"
  shows "ValidateInputs (drop (fst (protocolGroups inputs ! k)) inputs) = None"
proof -
  obtain pre xs where s: "inputs = pre @ concat (map exchange_inputs xs)" "exchanges_ok xs" "pre = [] \<or> (\<exists>p. p \<noteq> '''' \<and> pre = [prompt_input p])"
    using assms(1) by (rule legal_shape)
  note g = legal_groups [OF s]
  define j where "j = (if pre = [] then k else k - 1)"
  show ?thesis
  proof (cases "pre \<noteq> [] \<and> k = 0")
    case True
    then show ?thesis using g assms(1) by simp
  next
    case False
    then have j: "j < length xs" "protocolGroups inputs ! k = segments (length pre) xs ! j"
      using assms(2) unfolding g by (auto simp: j_def nth_append nth_Cons')
    have "concat (map exchange_inputs xs) = concat (map exchange_inputs (take j xs)) @ concat (map exchange_inputs (drop j xs))"
      by (metis append_take_drop_id concat_append map_append)
    moreover have "fst (protocolGroups inputs ! k) = length pre + length (concat (map exchange_inputs (take j xs)))"
      unfolding j(2) segments_nth [OF j(1)] by simp
    ultimately have "drop (fst (protocolGroups inputs ! k)) inputs = concat (map exchange_inputs (drop j xs))" using s(1) by simp
    then show ?thesis using exchanges_legal [OF exchanges_ok_drop [OF s(2)]] by simp
  qed
qed

lemma Compact_cut:
  assumes "Compact n e i = Inr x"
  shows "ValidateInputs (cin_Inputs i) = None" "cout_SourceRevision x = cin_Revision i"
    "cout_Inputs x = drop (if compactStart n (cin_Inputs i) < length (protocolGroups (cin_Inputs i)) then fst (protocolGroups (cin_Inputs i) ! compactStart n (cin_Inputs i)) else 0) (cin_Inputs i)"
  using assms by (auto simp: Compact_def Let_def)

interpretation tail: context_compactor "Compact n" for n
proof unfold_locales
  fix e i x assume c: "Compact n e i = Inr x"
  show "ValidateInputs (cout_Inputs x) = None" using Compact_cut [OF c] legal_cut by auto
  show "suffix (cout_Inputs x) (cin_Inputs i)" unfolding Compact_cut(3) [OF c] by (rule suffix_drop)
  show "cout_SourceRevision x = cin_Revision i" by (rule Compact_cut(2) [OF c])
next
  fix i :: CompactionInput assume "ValidateInputs (cin_Inputs i) = None"
  then show "\<exists>x. Compact n None i = Inr x" by (simp add: Compact_def Let_def)
qed


section \<open>What is kept\<close>

lemma groups_from:
  assumes "start \<le> length inputs" "g = protocolGroups_from inputs start"
  shows "(g \<noteq> [] \<longrightarrow> fst (hd g) = start) \<and> (g = [] \<longrightarrow> start = length inputs) \<and>
    (\<forall>k < length g. fst (g ! k) < snd (g ! k) \<and> snd (g ! k) = (if Suc k < length g then fst (g ! Suc k) else length inputs))"
  using assms
proof (induction inputs start arbitrary: g rule: protocolGroups_from.induct)
  case (1 inputs start)
  show ?case
  proof (cases "start < length inputs")
    case False
    then show ?thesis using 1(2,3) by (simp add: protocolGroups_from.simps)
  next
    case True
    define h where "h = protocolGroups_from inputs (groupEnd inputs start)"
    have g: "g = (start, groupEnd inputs start) # h" using 1(3) True by (simp add: protocolGroups_from.simps h_def)
    have e: "start < groupEnd inputs start" "groupEnd inputs start \<le> length inputs"
      using True length_takeWhile_le [of toolItem "drop (start + 1) inputs"] by (auto simp: groupEnd_def)
    note IH = 1(1) [OF True e(2) h_def]
    show ?thesis
    proof (intro conjI allI impI)
      fix k assume k: "k < length g"
      show "fst (g ! k) < snd (g ! k)" using k g e(1) IH by (cases k) auto
      show "snd (g ! k) = (if Suc k < length g then fst (g ! Suc k) else length inputs)"
        using k g IH by (cases k; cases h) (auto simp: nth_Cons')
    qed (use g in auto)
  qed
qed

definition group_start :: "Input list \<Rightarrow> nat \<Rightarrow> nat" where
  "group_start inputs k = (if k < length (protocolGroups inputs) then fst (protocolGroups inputs ! k) else length inputs)"

lemma group_size:
  assumes "k < length (protocolGroups inputs)"
  shows "int (snd (protocolGroups inputs ! k)) - int (fst (protocolGroups inputs ! k)) = int (group_start inputs (Suc k)) - int (group_start inputs k)"
    "group_start inputs k < group_start inputs (Suc k)"
  using groups_from [of 0 inputs "protocolGroups inputs"] assms by (auto simp: protocolGroups_def group_start_def)

lemma group_start_mono: "j \<le> k \<Longrightarrow> k \<le> length (protocolGroups inputs) \<Longrightarrow> group_start inputs j \<le> group_start inputs k"
proof (induction k)
  case (Suc k)
  then show ?case using group_size(2) [of k inputs] by (cases "j = Suc k") (auto simp: le_Suc_eq)
qed simp

lemma keepTail_more:
  assumes "keepTail (protocolGroups inputs) n k c = (s, c')" "k \<le> length (protocolGroups inputs)" "0 < c"
  shows "s \<le> k \<and> c' = c + int (group_start inputs k) - int (group_start inputs s) \<and> (s = k \<or> c' \<le> n)"
  using assms
proof (induction k arbitrary: c)
  case (Suc k)
  define size where "size = int (snd (protocolGroups inputs ! k)) - int (fst (protocolGroups inputs ! k))"
  have z: "size = int (group_start inputs (Suc k)) - int (group_start inputs k)" "0 < size"
    using group_size [of k inputs] Suc.prems(2) by (simp_all add: size_def)
  show ?case
  proof (cases "c + size > n")
    case True
    then show ?thesis using Suc.prems by (simp add: size_def)
  next
    case False
    then have "keepTail (protocolGroups inputs) n k (c + size) = (s, c')" using Suc.prems(1) by (simp add: size_def)
    from Suc.IH [OF this] Suc.prems(2,3) z show ?thesis using False by auto
  qed
qed simp

lemma keepTail_result:
  assumes "keepTail (protocolGroups inputs) n (length (protocolGroups inputs)) 0 = (s, c')" "protocolGroups inputs \<noteq> []"
  shows "s < length (protocolGroups inputs)" "int (length inputs) - int (group_start inputs s) = c'" "Suc s = length (protocolGroups inputs) \<or> c' \<le> n"
proof -
  obtain k where k: "length (protocolGroups inputs) = Suc k" using assms(2) by (cases "length (protocolGroups inputs)") auto
  define size where "size = int (snd (protocolGroups inputs ! k)) - int (fst (protocolGroups inputs ! k))"
  have z: "size = int (group_start inputs (Suc k)) - int (group_start inputs k)" "0 < size"
    using group_size [of k inputs] k by (simp_all add: size_def)
  have "keepTail (protocolGroups inputs) n k size = (s, c')" using assms(1) k by (simp add: size_def)
  have le: "k \<le> length (protocolGroups inputs)" using k by simp
  note r = keepTail_more [OF \<open>keepTail _ n k size = _\<close> le z(2)]
  have "group_start inputs (Suc k) = length inputs" using k by (simp add: group_start_def)
  then show "s < length (protocolGroups inputs)" "int (length inputs) - int (group_start inputs s) = c'" "Suc s = length (protocolGroups inputs) \<or> c' \<le> n"
    using r z k by auto
qed

lemma suffix_drop_le: "a \<le> b \<Longrightarrow> suffix (drop b xs) (drop a xs)"
  by (metis le_add_diff_inverse2 drop_drop suffix_drop)

section \<open>The active continuation\<close>

text \<open>
  The active run, independently of the search for it: the run named by the last input that names one, or
  no run when none does.  The active continuation is the part of the inputs from the last message of the
  active run that carries a model continuation.
\<close>

definition names_run :: "Input \<Rightarrow> RunID \<Rightarrow> bool" where
  "names_run i r \<longleftrightarrow> r \<noteq> '''' \<and> ((\<exists>m. inp_Message i = Some m \<and> msg_RunID m = r) \<or> (\<exists>c. inp_ToolCall i = Some c \<and> call_RunID c = r))"

definition active_run :: "Input list \<Rightarrow> RunID \<Rightarrow> bool" where
  "active_run inputs r \<longleftrightarrow>
     (\<exists>older i newer. inputs = older @ i # newer \<and> names_run i r \<and> (\<forall>j \<in> set newer. \<forall>q. \<not> names_run j q)) \<or>
     r = '''' \<and> (\<forall>j \<in> set inputs. \<forall>q. \<not> names_run j q)"

definition continuation_of :: "RunID \<Rightarrow> Input \<Rightarrow> bool" where
  "continuation_of r i \<longleftrightarrow> (\<exists>m. inp_Message i = Some m \<and> msg_RunID m = r \<and> msg_ModelContinuation m \<noteq> None)"

definition active_continuation :: "Input list \<Rightarrow> Input list \<Rightarrow> bool" where
  "active_continuation inputs rest \<longleftrightarrow> (\<exists>r older i newer. inputs = older @ i # newer \<and> rest = i # newer \<and> active_run inputs r \<and>
     continuation_of r i \<and> (\<forall>j \<in> set newer. \<not> continuation_of r j))"

lemma active_run_snoc:
  "active_run (inputs @ [i]) r \<longleftrightarrow> names_run i r \<or> (\<forall>q. \<not> names_run i q) \<and> active_run inputs r"
proof
  assume "active_run (inputs @ [i]) r"
  then consider (at) older j newer where "inputs @ [i] = older @ j # newer" "names_run j r" "\<forall>j \<in> set newer. \<forall>q. \<not> names_run j q"
    | (none) "r = ''''" "\<forall>j \<in> set (inputs @ [i]). \<forall>q. \<not> names_run j q" unfolding active_run_def by blast
  then show "names_run i r \<or> (\<forall>q. \<not> names_run i q) \<and> active_run inputs r"
  proof cases
    case at
    show ?thesis
    proof (cases newer rule: rev_cases)
      case Nil
      then show ?thesis using at by simp
    next
      case (snoc ys y)
      then have "inputs = older @ j # ys" "i = y" using at(1) by simp_all
      then have "active_run inputs r" unfolding active_run_def using at snoc by (intro disjI1 exI [of _ older] exI [of _ j] exI [of _ ys]) auto
      then show ?thesis using at(3) snoc \<open>i = y\<close> by simp
    qed
  qed (auto simp: active_run_def)
next
  assume "names_run i r \<or> (\<forall>q. \<not> names_run i q) \<and> active_run inputs r"
  then consider (here) "names_run i r" | (older) older j newer where "\<forall>q. \<not> names_run i q" "inputs = older @ j # newer" "names_run j r"
      "\<forall>j \<in> set newer. \<forall>q. \<not> names_run j q"
    | (none) "\<forall>q. \<not> names_run i q" "r = ''''" "\<forall>j \<in> set inputs. \<forall>q. \<not> names_run j q"
    unfolding active_run_def by blast
  then show "active_run (inputs @ [i]) r"
  proof cases
    case here
    then show ?thesis unfolding active_run_def by (intro disjI1 exI [of _ inputs] exI [of _ i] exI [of _ "[]"]) simp
  next
    case older
    then show ?thesis unfolding active_run_def by (intro disjI1 exI [of _ older] exI [of _ j] exI [of _ "newer @ [i]"]) auto
  qed (auto simp: active_run_def)
qed

lemma latestRunID_snoc:
  assumes "inp_Message i = None \<or> inp_ToolCall i = None"
  shows "(names_run i r \<longrightarrow> latestRunID (inputs @ [i]) = r) \<and> ((\<forall>q. \<not> names_run i q) \<longrightarrow> latestRunID (inputs @ [i]) = latestRunID inputs)"
  using assms by (cases "inp_Message i"; cases "inp_ToolCall i") (auto simp: latestRunID_def names_run_def)

lemma active_run_latest:
  "\<forall>i \<in> set inputs. inp_Message i = None \<or> inp_ToolCall i = None \<Longrightarrow> active_run inputs r \<longleftrightarrow> r = latestRunID inputs"
proof (induction inputs rule: rev_induct)
  case Nil
  then show ?case by (simp add: active_run_def latestRunID_def)
next
  case (snoc i inputs)
  then show ?case using latestRunID_snoc [of i _ inputs] by (auto simp: active_run_snoc)
qed

lemma legal_single:
  assumes "ValidateInputs inputs = None" "i \<in> set inputs"
  shows "inp_Message i = None \<or> inp_ToolCall i = None"
proof -
  obtain pre xs where "inputs = pre @ concat (map exchange_inputs xs)" "pre = [] \<or> (\<exists>p. p \<noteq> '''' \<and> pre = [prompt_input p])"
    using assms(1) by (rule legal_shape)
  then show ?thesis using assms(2) by (auto simp: exchange_inputs_def)
qed

lemma segments_message:
  "p < length (concat (map exchange_inputs xs)) \<Longrightarrow> inp_Message (concat (map exchange_inputs xs) ! p) \<noteq> None \<Longrightarrow>
     \<exists>k < length xs. fst (segments n xs ! k) = n + p"
proof (induction xs arbitrary: n p)
  case (Cons x xs)
  let ?l = "length (exchange_inputs x)"
  show ?case
  proof (cases "p < ?l")
    case True
    have "p = 0"
    proof (rule ccontr)
      assume "p \<noteq> 0"
      then have "exchange_inputs x ! p \<in> set (map call_input (x_calls x) @ map result_input (x_results x))"
        using True by (auto simp: exchange_inputs_def nth_Cons' intro!: nth_mem simp flip: set_append)
      then show False using Cons.prems(2) True by (auto simp: nth_append)
    qed
    then show ?thesis by (intro exI [of _ 0]) simp
  next
    case False
    then have "p - ?l < length (concat (map exchange_inputs xs))" using Cons.prems(1) by (simp del: length_concat)
    then obtain k where "k < length xs" "fst (segments (n + ?l) xs ! k) = n + ?l + (p - ?l)"
      using Cons.IH [of "p - ?l" "n + ?l"] Cons.prems(2) False by (auto simp: nth_append simp del: length_concat)
    then show ?thesis using False by (intro exI [of _ "Suc k"]) simp
  qed
qed simp

text \<open>In legal inputs every message is the first input of a protocol group.\<close>

lemma message_starts_group:
  assumes "ValidateInputs inputs = None" "p < length inputs" "inp_Message (inputs ! p) \<noteq> None"
  obtains k where "k < length (protocolGroups inputs)" "fst (protocolGroups inputs ! k) = p"
proof -
  obtain pre xs where s: "inputs = pre @ concat (map exchange_inputs xs)" "exchanges_ok xs" "pre = [] \<or> (\<exists>p. p \<noteq> '''' \<and> pre = [prompt_input p])"
    using assms(1) by (rule legal_shape)
  note g = legal_groups [OF s]
  have p: "\<not> p < length pre" using assms(3) s(1,3) by (auto simp: nth_append)
  have "p - length pre < length (concat (map exchange_inputs xs))" using p assms(2) s(1) by (simp del: length_concat)
  then obtain k where k: "k < length xs" "fst (segments (length pre) xs ! k) = p"
    using p segments_message [of "p - length pre" xs "length pre"] assms(2,3) s(1)
    by (auto simp: nth_append simp del: length_concat)
  show ?thesis using that [of "if pre = [] then k else Suc k"] k unfolding g by (auto simp: nth_append)
qed

lemma group_starts_less: "j < k \<Longrightarrow> k < length (protocolGroups inputs) \<Longrightarrow> fst (protocolGroups inputs ! j) < fst (protocolGroups inputs ! k)"
  using group_size(2) [of j inputs] group_start_mono [of "Suc j" k inputs] by (simp add: group_start_def split: if_splits)

lemma find_last: "List.find P (rev [0..<n]) = Some k \<longleftrightarrow> k < n \<and> P k \<and> (\<forall>j. k < j \<and> j < n \<longrightarrow> \<not> P j)"
  by (induction n) (auto simp: less_Suc_eq)

lemma continues_iff: "continues inputs r g \<longleftrightarrow> continuation_of r (inputs ! fst g)"
  by (auto simp: continues_def continuation_of_def split: option.splits)

lemma active_continuation_unique:
  assumes "\<And>r. active_run inputs r \<longleftrightarrow> r = a" "active_continuation inputs xs" "active_continuation inputs ys"
  shows "xs = ys"
proof -
  obtain p i q p' i' q' where *: "inputs = p @ i # q" "xs = i # q" "continuation_of a i" "\<forall>j \<in> set q. \<not> continuation_of a j"
    "inputs = p' @ i' # q'" "ys = i' # q'" "continuation_of a i'" "\<forall>j \<in> set q'. \<not> continuation_of a j"
    using assms(2,3) unfolding active_continuation_def assms(1) by blast
  then have "p @ i # q = p' @ i' # q'" by simp
  then show ?thesis using * by (auto simp: append_eq_append_conv2 append_eq_Cons_conv Cons_eq_append_conv)
qed

text \<open>The group that the compactor must keep is the active continuation.\<close>

lemma requiredGroup_active:
  assumes legal: "ValidateInputs inputs = None" and k: "requiredGroup inputs (protocolGroups inputs) = Some k"
  shows "active_continuation inputs (drop (fst (protocolGroups inputs ! k)) inputs)"
proof -
  let ?g = "protocolGroups inputs" let ?r = "latestRunID inputs" let ?p = "fst (?g ! k)"
  have kk: "k < length ?g" "continuation_of ?r (inputs ! ?p)" "\<And>j. k < j \<Longrightarrow> j < length ?g \<Longrightarrow> \<not> continuation_of ?r (inputs ! fst (?g ! j))"
    using k by (auto simp: requiredGroup_def find_last continues_iff)
  have p: "?p < length inputs" using group_size(2) [OF kk(1)] group_start_mono [of "Suc k" "length ?g" inputs] kk(1) by (simp add: group_start_def)
  have "\<not> continuation_of ?r (inputs ! q)" if q: "?p < q" "q < length inputs" for q
  proof
    assume c: "continuation_of ?r (inputs ! q)"
    then have "inp_Message (inputs ! q) \<noteq> None" by (auto simp: continuation_of_def)
    with legal q(2) obtain j where j: "j < length ?g" "fst (?g ! j) = q" by (rule message_starts_group)
    then have "k < j" using group_starts_less [of j k inputs] kk(1) q(1) by (metis less_irrefl less_trans linorder_neqE_nat)
    then show False using kk(3) j c by auto
  qed
  then have later: "\<forall>j \<in> set (drop (Suc ?p) inputs). \<not> continuation_of ?r j" by (auto simp: in_set_conv_nth)
  have run: "active_run inputs ?r" using active_run_latest [of inputs] legal_single [OF legal] by simp
  have "inputs = take ?p inputs @ inputs ! ?p # drop (Suc ?p) inputs" "drop ?p inputs = inputs ! ?p # drop (Suc ?p) inputs"
    using p by (simp_all add: id_take_nth_drop Cons_nth_drop_Suc)
  then show ?thesis unfolding active_continuation_def using later run kk(2) by blast
qed

lemma active_requiredGroup:
  assumes legal: "ValidateInputs inputs = None" and act: "active_continuation inputs xs"
  obtains k where "requiredGroup inputs (protocolGroups inputs) = Some k" "xs = drop (fst (protocolGroups inputs ! k)) inputs"
proof -
  let ?g = "protocolGroups inputs"
  have run: "active_run inputs r \<longleftrightarrow> r = latestRunID inputs" for r using active_run_latest [of inputs] legal_single [OF legal] by simp
  obtain older i newer where x: "inputs = older @ i # newer" "continuation_of (latestRunID inputs) i"
    using act unfolding active_continuation_def run by blast
  then have i: "inputs ! length older = i" "length older < length inputs" by (metis nth_append_length, simp)
  then have "inp_Message (inputs ! length older) \<noteq> None" using x(2) by (auto simp: continuation_of_def)
  with legal i(2) obtain j where "j < length ?g" "fst (?g ! j) = length older" by (rule message_starts_group)
  then have "\<exists>k. requiredGroup inputs ?g = Some k"
    using x(2) i(1) unfolding requiredGroup_def by (auto simp: find_None_iff continues_iff simp flip: not_None_eq)
  then obtain k where k: "requiredGroup inputs ?g = Some k" by blast
  show ?thesis using that [OF k] active_continuation_unique [OF run act requiredGroup_active [OF legal k]] by blast
qed

lemma last_group_alone:
  assumes "ValidateInputs inputs = None" "inputs \<noteq> []"
  shows "\<forall>j \<in> set (tl (drop (fst (last (protocolGroups inputs))) inputs)). inp_Message j = None"
proof -
  let ?g = "protocolGroups inputs" let ?p = "fst (last ?g)"
  have g: "?g \<noteq> []" using groups_from [of 0 inputs ?g] assms(2) by (auto simp: protocolGroups_def)
  have "inp_Message (inputs ! q) = None" if q: "?p < q" "q < length inputs" for q
  proof (rule ccontr)
    assume "inp_Message (inputs ! q) \<noteq> None"
    with assms(1) q(2) obtain j where j: "j < length ?g" "fst (?g ! j) = q" by (rule message_starts_group)
    then have "j \<le> length ?g - 1" by simp
    then show False using group_starts_less [of j "length ?g - 1" inputs] j q(1) g by (cases "j = length ?g - 1") (auto simp: last_conv_nth)
  qed
  then show ?thesis by (auto simp: in_set_conv_nth tl_drop drop_Suc [symmetric] simp flip: drop_Suc)
qed

text \<open>
  C38. The tail compactor keeps a legal, recent and bounded context: on legal inputs it succeeds, returns a
  non-empty suffix that is legal again and carries the source revision.  The active continuation (the
  inputs from the last message with a model continuation of the run that the last input to name a run
  names) is always kept whole.  The suffix is no longer than the limit unless it holds no message after
  its first input, or is exactly the active continuation.
\<close>

theorem tail_compaction:
  assumes "ValidateInputs (cin_Inputs i) = None" "cin_Inputs i \<noteq> []"
  shows "\<exists>x. Compact n None i = Inr x \<and> ValidateInputs (cout_Inputs x) = None \<and> suffix (cout_Inputs x) (cin_Inputs i) \<and> cout_Inputs x \<noteq> [] \<and>
    cout_SourceRevision x = cin_Revision i \<and>
    (\<forall>c. active_continuation (cin_Inputs i) c \<longrightarrow> suffix c (cout_Inputs x)) \<and>
    (int (length (cout_Inputs x)) \<le> n \<or> (\<forall>j \<in> set (tl (cout_Inputs x)). inp_Message j = None) \<or>
       active_continuation (cin_Inputs i) (cout_Inputs x))"
proof -
  let ?in = "cin_Inputs i" let ?g = "protocolGroups ?in" let ?c = "compactStart n ?in"
  obtain x where x: "Compact n None i = Inr x" using tail.total [OF assms(1)] by blast
  have g: "?g \<noteq> []" using groups_from [of 0 ?in ?g] assms(2) by (auto simp: protocolGroups_def)
  obtain s c' where t: "keepTail ?g n (length ?g) 0 = (s, c')" by fastforce
  note r = keepTail_result [OF t g]
  have req: "k < length ?g" if "requiredGroup ?in ?g = Some k" for k
    using that by (auto simp: requiredGroup_def find_Some_iff rev_nth)
  have c: "?c < length ?g" "?c = s \<or> requiredGroup ?in ?g = Some ?c" "\<And>k. requiredGroup ?in ?g = Some k \<Longrightarrow> ?c \<le> k"
    using r(1) req t by (auto simp: compactStart_def Let_def split: option.splits)
  have start: "group_start ?in k = fst (?g ! k)" if "k < length ?g" for k using that by (simp add: group_start_def)
  have out: "cout_Inputs x = drop (fst (?g ! ?c)) ?in" using Compact_cut(3) [OF x] c(1) by simp
  have "fst (?g ! ?c) < length ?in" using group_size(2) [OF c(1)] group_start_mono [of "Suc ?c" "length ?g" ?in] c(1) start [OF c(1)] by (simp add: group_start_def)
  then have lt: "fst (?g ! ?c) < length ?in" and "cout_Inputs x \<noteq> []" using out by simp_all
  moreover have "int (length (cout_Inputs x)) \<le> n \<or> (\<forall>j \<in> set (tl (cout_Inputs x)). inp_Message j = None) \<or> active_continuation ?in (cout_Inputs x)"
  proof (cases "?c = s")
    case True
    show ?thesis
    proof (cases "Suc s = length ?g")
      case True
      then have "last ?g = ?g ! ?c" using \<open>?c = s\<close> g by (metis diff_Suc_1 last_conv_nth)
      then show ?thesis using out last_group_alone [OF assms] by simp
    next
      case False
      have "int (length ?in) - int (fst (?g ! s)) \<le> n" using r(2,3) False start [OF r(1)] by simp
      then show ?thesis using out True lt by (simp add: of_nat_diff)
    qed
  next
    case False
    then show ?thesis using c(2) out requiredGroup_active [OF assms(1), of ?c] by simp
  qed
  moreover have "suffix a (cout_Inputs x)" if a: "active_continuation ?in a" for a
  proof -
    obtain k where k: "requiredGroup ?in ?g = Some k" "a = drop (fst (?g ! k)) ?in" using assms(1) a by (rule active_requiredGroup)
    show ?thesis unfolding out k(2)
      using group_start_mono [OF c(3) [OF k(1)], of ?in] req [OF k(1)] start [OF c(1)] start [OF req [OF k(1)]] by (intro suffix_drop_le) simp
  qed
  ultimately show ?thesis using x tail.legal [OF x] tail.recent [OF x] tail.revision [OF x] by blast
qed

definition demo_user :: "string \<Rightarrow> Message" where
  "demo_user i = \<lparr>msg_ID = i, msg_ClientMessageID = '''', msg_SessionID = ''s1'', msg_RunID = '''', msg_StepID = '''', msg_Role = RoleUser,
     msg_Parts = [\<lparr>part_Kind = PartText, part_Text = ''hi'', part_AttachmentID = '''', part_MediaType = '''', part_Name = ''''\<rparr>],
     msg_ModelContinuation = None, msg_CreatedAt = 1\<rparr>"

definition demo_answer :: "string \<Rightarrow> Message" where
  "demo_answer i = (demo_user i)\<lparr>msg_RunID := ''r1'', msg_StepID := ''t1'', msg_Role := RoleAssistant,
     msg_ModelContinuation := Some \<lparr>mc_ProviderKey = ''p'', mc_ModelID = ''m'', mc_State = ''{}''\<rparr>\<rparr>"

definition demo_compaction :: CompactionInput where
  "demo_compaction = \<lparr>cin_SessionID = ''s1'', cin_Revision = 1, cin_Inputs = map message_input
     [demo_user ''m1'', demo_answer ''m2'', demo_user ''m3'', demo_user ''m4''], cin_Config = zero_config\<rparr>"

text \<open>With room for one input, the two last messages stay because the continuation before them does.\<close>

theorem tail_compaction_witness:
  "\<exists>x. Compact 1 None demo_compaction = Inr x \<and> ValidateInputs (cout_Inputs x) = None \<and>
     suffix (map message_input [demo_answer ''m2'', demo_user ''m3'', demo_user ''m4'']) (cout_Inputs x)"
proof -
  have j: "json_Valid ''{}''" by code_simp
  have "validID ''m1''" "validID ''m2''" "validID ''m3''" "validID ''m4''" "validID ''s1''" "validID ''r1''" "validID ''t1''"
    by (simp_all add: validID_graphic graphic_def)
  then have legal: "ValidateInputs (cin_Inputs demo_compaction) = None"
    by (simp add: demo_compaction_def ValidateInputs_def demo_user_def demo_answer_def Message_Valid_def Role_Valid_def
        MessagePart_Valid_def ModelContinuation_Valid_def j)
  let ?newer = "map message_input [demo_user ''m3'', demo_user ''m4'']"
  have run: "active_run (cin_Inputs demo_compaction) ''r1''"
    unfolding active_run_def
    by (intro disjI1 exI [of _ "[message_input (demo_user ''m1'')]"] exI [of _ "message_input (demo_answer ''m2'')"] exI [of _ ?newer])
      (auto simp: demo_compaction_def names_run_def demo_answer_def demo_user_def)
  have "active_continuation (cin_Inputs demo_compaction) (message_input (demo_answer ''m2'') # ?newer)"
    unfolding active_continuation_def
    by (intro exI [of _ "''r1''"] exI [of _ "[message_input (demo_user ''m1'')]"] exI [of _ "message_input (demo_answer ''m2'')"] exI [of _ ?newer] conjI run)
      (simp_all add: demo_compaction_def continuation_of_def demo_answer_def demo_user_def)
  then show ?thesis using tail_compaction [OF legal, of 1] by (auto simp: demo_compaction_def)
qed

end
