(* ===== verification/Workflow_Store.thy ===== *)
theory Workflow_Store
  imports Agent_Types Versioned_Store
begin

text \<open>
  Workflow jobs and mailboxes (\<^verbatim>\<open>workflow/contracts.go\<close>, \<^verbatim>\<open>workflow/memory.go\<close>, \<^verbatim>\<open>workflow/wait.go\<close>). The
  channels that waiters block on are numbered: a notifier keeps the open channel of each key and the set
  of closed ones, and a blocked waiter is woken when its channel is closed. One critical section of the
  source is one operation here.
\<close>

section \<open>Notifiers\<close>

record 'k notifier =
  nt_changed :: "'k \<rightharpoonup> nat"
  nt_closed :: "nat set"
  nt_next :: nat

definition notifier_init :: "'k notifier" where
  "notifier_init = \<lparr>nt_changed = Map.empty, nt_closed = {}, nt_next = 0\<rparr>"

definition signal :: "'k \<Rightarrow> 'k notifier \<Rightarrow> 'k notifier" where
  "signal k n = \<lparr>nt_changed = (nt_changed n)(k \<mapsto> nt_next n),
     nt_closed = nt_closed n \<union> set_option (nt_changed n k), nt_next = nt_next n + 1\<rparr>"

definition subscribe :: "'k \<Rightarrow> 'k notifier \<Rightarrow> nat \<times> 'k notifier" where
  "subscribe k n = (case nt_changed n k of
      Some ch \<Rightarrow> (ch, n)
    | None \<Rightarrow> (nt_next n, n\<lparr>nt_changed := (nt_changed n)(k \<mapsto> nt_next n), nt_next := nt_next n + 1\<rparr>))"

section \<open>Jobs\<close>

datatype JobStatus = JobQueued | JobRunning | JobCompleted | JobFailed | JobCanceled | JobStatus_other string

definition JobStatus_Valid :: "JobStatus \<Rightarrow> bool" where
  "JobStatus_Valid s \<longleftrightarrow> s = JobQueued \<or> s = JobRunning \<or> s = JobCompleted \<or> s = JobFailed \<or> s = JobCanceled"

definition JobStatus_Terminal :: "JobStatus \<Rightarrow> bool" where
  "JobStatus_Terminal s \<longleftrightarrow> s = JobCompleted \<or> s = JobFailed \<or> s = JobCanceled"

record Parent =
  par_SessionID :: SessionID
  par_RunID :: RunID
  par_StepID :: StepID

definition Parent_Valid :: "Parent \<Rightarrow> bool" where
  "Parent_Valid p \<longleftrightarrow> validID (par_SessionID p) \<and> validID (par_RunID p) \<and> validID (par_StepID p)"

record Task =
  task_JobID :: string
  task_ProviderKey :: string
  task_Parent :: Parent
  task_Instruction :: string
  task_Metadata :: "string \<rightharpoonup> string"

definition Task_Validate :: "Task \<Rightarrow> string option" where
  "Task_Validate t = check (task_JobID t = '''' \<or> task_ProviderKey t = '''' \<or> \<not> Parent_Valid (task_Parent t) \<or> task_Instruction t = '''') ''workflow: invalid task''"

record JobResult =
  jr_Summary :: string
  jr_Artifacts :: "string list"

record Job =
  job_ID :: string
  job_ProviderKey :: string
  job_Parent :: Parent
  job_Instruction :: string
  job_Status :: JobStatus
  job_Version :: uint64
  job_Result :: JobResult
  job_ErrorCode :: string
  job_TerminalReason :: string
  job_CreatedAt :: time
  job_UpdatedAt :: time

definition Job_Validate :: "Job \<Rightarrow> string option" where
  "Job_Validate j = first_error
     [check (job_ID j = '''' \<or> job_ProviderKey j = '''' \<or> \<not> Parent_Valid (job_Parent j) \<or> job_Instruction j = '''' \<or> \<not> JobStatus_Valid (job_Status j) \<or>
        job_Version j = 0 \<or> IsZero (job_CreatedAt j) \<or> IsZero (job_UpdatedAt j)) ''workflow: invalid job'',
      check (job_Status j = JobFailed \<and> job_ErrorCode j = '''') ''workflow: failed job requires an error code'',
      check (job_Status j \<noteq> JobFailed \<and> job_ErrorCode j \<noteq> '''') ''workflow: only failed jobs may contain an error code'',
      check (job_Status j = JobCanceled \<and> job_TerminalReason j = '''') ''workflow: canceled job requires a terminal reason'',
      check (job_Status j \<noteq> JobCanceled \<and> job_TerminalReason j \<noteq> '''') ''workflow: only canceled jobs may contain a terminal reason'']"

record JobQuery =
  jq_ParentSessionID :: SessionID
  jq_Status :: JobStatus

record JobUpdate =
  ju_JobID :: string
  ju_ExpectedVersion :: uint64
  ju_Status :: JobStatus
  ju_Result :: JobResult
  ju_ErrorCode :: string
  ju_TerminalReason :: string

record JobStore =
  js_jobs :: "string \<rightharpoonup> Job"
  js_notify :: "string notifier"

definition NewMemoryJobStore :: JobStore where
  "NewMemoryJobStore = \<lparr>js_jobs = Map.empty, js_notify = notifier_init\<rparr>"

definition put_job :: "Job \<Rightarrow> JobStore \<Rightarrow> JobStore" where
  "put_job j s = \<lparr>js_jobs = (js_jobs s)(job_ID j \<mapsto> j), js_notify = signal (job_ID j) (js_notify s)\<rparr>"

definition Job_Create :: "Job \<Rightarrow> JobStore \<Rightarrow> string option \<times> JobStore" where
  "Job_Create j s = (case Job_Validate j of
      Some e \<Rightarrow> (Some e, s)
    | None \<Rightarrow> if js_jobs s (job_ID j) \<noteq> None then (Some ''workflow: duplicate job'', s) else (None, put_job j s))"

definition Job_Get :: "string \<Rightarrow> JobStore \<Rightarrow> string + Job option" where
  "Job_Get i s = (if i = '''' then Inl ''workflow: JobID is required'' else Inr (js_jobs s i))"

text \<open>Listing: \<open>jobs\<close> is Go's iteration over the map, in whatever order.\<close>

definition Job_List :: "Job list \<Rightarrow> JobQuery \<Rightarrow> string + Job list" where
  "Job_List jobs q =
     (if jq_ParentSessionID q \<noteq> '''' \<and> \<not> validID (jq_ParentSessionID q) then Inl ''workflow: invalid parent SessionID''
      else if jq_Status q \<noteq> JobStatus_other '''' \<and> \<not> JobStatus_Valid (jq_Status q) then Inl ''workflow: invalid JobStatus''
      else Inr (sort_key job_CreatedAt (filter (\<lambda>j.
        \<not> (jq_ParentSessionID q \<noteq> '''' \<and> par_SessionID (job_Parent j) \<noteq> jq_ParentSessionID q \<or>
           jq_Status q \<noteq> JobStatus_other '''' \<and> job_Status j \<noteq> jq_Status q)) jobs)))"

definition validJobTransition :: "JobStatus \<Rightarrow> JobStatus \<Rightarrow> bool" where
  "validJobTransition from to \<longleftrightarrow> from = JobQueued \<and> (to = JobRunning \<or> to = JobCanceled) \<or>
     from = JobRunning \<and> (to = JobCompleted \<or> to = JobFailed \<or> to = JobCanceled)"

definition updated :: "time \<Rightarrow> JobUpdate \<Rightarrow> Job \<Rightarrow> Job" where
  "updated now u j = j\<lparr>job_Status := ju_Status u, job_Result := ju_Result u, job_ErrorCode := ju_ErrorCode u,
     job_TerminalReason := ju_TerminalReason u, job_Version := job_Version j + 1, job_UpdatedAt := now\<rparr>"

definition Job_Update :: "time \<Rightarrow> JobUpdate \<Rightarrow> JobStore \<Rightarrow> (string + Job) \<times> JobStore" where
  "Job_Update now u s =
     (if ju_JobID u = '''' \<or> ju_ExpectedVersion u = 0 \<or> \<not> JobStatus_Valid (ju_Status u) then (Inl ''workflow: invalid job update'', s)
      else case js_jobs s (ju_JobID u) of
          None \<Rightarrow> (Inl ''workflow: job not found'', s)
        | Some j \<Rightarrow>
            if job_Version j \<noteq> ju_ExpectedVersion u then (Inl ''workflow: job version conflict'', s)
            else if JobStatus_Terminal (job_Status j) then
              (if job_Status j = ju_Status u then (Inr j, s) else (Inl ''workflow: terminal job cannot transition'', s))
            else if \<not> validJobTransition (job_Status j) (ju_Status u) then (Inl ''workflow: invalid job transition'', s)
            else (case Job_Validate (updated now u j) of
                Some e \<Rightarrow> (Inl e, s)
              | None \<Rightarrow> (Inr (updated now u j), put_job (updated now u j) s)))"

text \<open>One iteration of a wait: an answer, or the channel to block on.\<close>

definition job_ready :: "string \<times> uint64 \<Rightarrow> JobStore \<Rightarrow> (string + Job) option" where
  "job_ready q s = (case js_jobs s (fst q) of
      None \<Rightarrow> Some (Inl ''workflow: job not found'')
    | Some j \<Rightarrow> if job_Version j > snd q \<or> JobStatus_Terminal (job_Status j) then Some (Inr j) else None)"

definition Job_Wait :: "string \<times> uint64 \<Rightarrow> JobStore \<Rightarrow> ((string + Job) + nat) \<times> JobStore" where
  "Job_Wait q s = (case job_ready q s of
      Some r \<Rightarrow> (Inl r, s)
    | None \<Rightarrow> (case subscribe (fst q) (js_notify s) of (ch, n) \<Rightarrow> (Inr ch, s\<lparr>js_notify := n\<rparr>)))"

section \<open>Mailboxes\<close>

datatype AddressKind = AddressSession | AddressJob | AddressKind_other string

definition AddressKind_Valid :: "AddressKind \<Rightarrow> bool" where
  "AddressKind_Valid k \<longleftrightarrow> k = AddressSession \<or> k = AddressJob"

record Address =
  adr_Kind :: AddressKind
  adr_ID :: string

definition Address_Valid :: "Address \<Rightarrow> bool" where
  "Address_Valid a \<longleftrightarrow> AddressKind_Valid (adr_Kind a) \<and> adr_ID a \<noteq> ''''"

record MailMessage =
  mail_ID :: string
  mail_Sequence :: uint64
  mail_From :: Address
  mail_To :: Address
  mail_Body :: string
  mail_CreatedAt :: time

definition MailMessage_Validate :: "MailMessage \<Rightarrow> string option" where
  "MailMessage_Validate m = check (mail_ID m = '''' \<or> mail_Sequence m = 0 \<or> \<not> Address_Valid (mail_From m) \<or> \<not> Address_Valid (mail_To m) \<or>
     mail_Body m = '''' \<or> IsZero (mail_CreatedAt m)) ''workflow: invalid mailbox message''"

record Mailbox =
  mb_sequence :: uint64
  mb_messages :: "Address \<Rightarrow> MailMessage list"
  mb_notify :: "Address notifier"

definition NewMemoryMailbox :: Mailbox where
  "NewMemoryMailbox = \<lparr>mb_sequence = 0, mb_messages = (\<lambda>_. []), mb_notify = notifier_init\<rparr>"

definition Publish :: "time \<Rightarrow> MailMessage \<Rightarrow> Mailbox \<Rightarrow> (string + MailMessage) \<times> Mailbox" where
  "Publish now m b =
     (if mail_ID m = '''' \<or> \<not> Address_Valid (mail_From m) \<or> \<not> Address_Valid (mail_To m) \<or> mail_Body m = '''' then (Inl ''workflow: invalid mailbox publish'', b)
      else case List.find (\<lambda>x. mail_ID x = mail_ID m) (mb_messages b (mail_To m)) of
          Some x \<Rightarrow> (if mail_From x = mail_From m \<and> mail_To x = mail_To m \<and> mail_Body x = mail_Body m then Inr x
                     else Inl ''workflow: mailbox idempotency conflict'', b)
        | None \<Rightarrow>
            let n = mb_sequence b + 1; m' = m\<lparr>mail_Sequence := n, mail_CreatedAt := now\<rparr> in
            (Inr m', \<lparr>mb_sequence = n, mb_messages = (mb_messages b)(mail_To m := mb_messages b (mail_To m) @ [m']), mb_notify = signal (mail_To m) (mb_notify b)\<rparr>))"

definition messagesAfter :: "MailMessage list \<Rightarrow> uint64 \<Rightarrow> MailMessage list" where
  "messagesAfter source after = filter (\<lambda>m. mail_Sequence m > after) source"

definition Mail_List :: "Address \<Rightarrow> uint64 \<Rightarrow> Mailbox \<Rightarrow> string + MailMessage list" where
  "Mail_List a after b = (if \<not> Address_Valid a then Inl ''workflow: invalid mailbox address'' else Inr (messagesAfter (mb_messages b a) after))"

definition mail_ready :: "Address \<times> uint64 \<Rightarrow> Mailbox \<Rightarrow> (string + MailMessage list) option" where
  "mail_ready q b = (if \<not> Address_Valid (fst q) then Some (Inl ''workflow: invalid mailbox address'')
     else if messagesAfter (mb_messages b (fst q)) (snd q) \<noteq> [] then Some (Inr (messagesAfter (mb_messages b (fst q)) (snd q))) else None)"

definition Mail_Wait :: "Address \<times> uint64 \<Rightarrow> Mailbox \<Rightarrow> ((string + MailMessage list) + nat) \<times> Mailbox" where
  "Mail_Wait q b = (case mail_ready q b of
      Some r \<Rightarrow> (Inl r, b)
    | None \<Rightarrow> (case subscribe (fst q) (mb_notify b) of (ch, n) \<Rightarrow> (Inr ch, b\<lparr>mb_notify := n\<rparr>)))"

section \<open>Waiting for a terminal job\<close>

text \<open>
  The loop over \<^verbatim>\<open>Scheduler.Wait\<close>, whose \<open>k\<close>-th answer is \<open>wait k after\<close>. It ends because a version that
  does not advance is refused and versions are 64-bit numbers.
\<close>

function waitTerminal_loop :: "(nat \<Rightarrow> uint64 \<Rightarrow> string + Job) \<Rightarrow> nat \<Rightarrow> uint64 \<Rightarrow> string + Job" where
  "waitTerminal_loop wait k after = (case wait k after of
      Inl e \<Rightarrow> Inl e
    | Inr j \<Rightarrow> if JobStatus_Terminal (job_Status j) then Inr j
        else if job_Version j \<le> after then Inl ''workflow: scheduler returned a non-advancing job version''
        else waitTerminal_loop wait (Suc k) (job_Version j))"
  by pat_completeness auto
termination
proof (relation "measure (\<lambda>(wait, k, after). 2 ^ 64 - unat after)")
  fix wait :: "nat \<Rightarrow> uint64 \<Rightarrow> string + Job" and k after j
  assume "\<not> job_Version j \<le> after"
  moreover have "unat (job_Version j) < 2 ^ 64" by (rule order_less_le_trans [OF unsigned_less]) simp
  ultimately show "((wait, Suc k, job_Version j), wait, k, after) \<in> measure (\<lambda>(wait, k, after). 2 ^ 64 - unat after)"
    by (simp add: word_le_nat_alt not_le)
qed simp

declare waitTerminal_loop.simps [simp del]

definition WaitTerminal :: "(nat \<Rightarrow> uint64 \<Rightarrow> string + Job) option \<Rightarrow> uint64 \<Rightarrow> string + Job" where
  "WaitTerminal scheduler after = (case scheduler of None \<Rightarrow> Inl ''workflow: scheduler is required'' | Some wait \<Rightarrow> waitTerminal_loop wait 0 after)"

end
