(* ===== verification/Workflow_Guarantees.thy ===== *)
theory Workflow_Guarantees
  imports Workflow_Store Goal_Store
begin

text \<open>
  What the workflow stores guarantee: optimistic job updates, the life of a job, ordered and idempotent
  mailboxes, and that no waiter misses a change.
\<close>

section \<open>Notified stores\<close>

text \<open>Closing never reopens, and an open channel stays the channel of its key until it is closed.\<close>

definition notifies :: "'k notifier \<Rightarrow> 'k notifier \<Rightarrow> bool" where
  "notifies n n' \<longleftrightarrow> n' = n \<or> (\<exists>k ch. subscribe k n = (ch, n')) \<or> (\<exists>k. n' = signal k n)"

lemma signal_closed: "nt_changed n k = Some ch \<Longrightarrow> ch \<in> nt_closed (signal k n)"
  by (simp add: signal_def)

lemma subscribe_result: "subscribe k n = (ch, n') \<Longrightarrow> nt_changed n' k = Some ch"
  by (auto simp: subscribe_def split: option.splits)

lemma notifies_keeps:
  assumes "notifies n n'"
  shows "ch \<in> nt_closed n \<or> nt_changed n k = Some ch \<Longrightarrow> ch \<in> nt_closed n' \<or> nt_changed n' k = Some ch" and "nt_closed n \<subseteq> nt_closed n'"
  using assms by (auto simp: notifies_def signal_def subscribe_def split: option.splits if_splits)

text \<open>Channels are fresh: an open channel belongs to one key and is not closed.\<close>

definition notifier_ok :: "'k notifier \<Rightarrow> bool" where
  "notifier_ok n \<longleftrightarrow> (\<forall>ch\<in>nt_closed n. ch < nt_next n) \<and> (\<forall>k ch. nt_changed n k = Some ch \<longrightarrow> ch < nt_next n \<and> ch \<notin> nt_closed n) \<and>
     (\<forall>k j ch. nt_changed n k = Some ch \<and> nt_changed n j = Some ch \<longrightarrow> j = k)"

lemma notifier_ok_init: "notifier_ok notifier_init"
  by (simp add: notifier_ok_def notifier_init_def)

lemma notifier_ok_signal: "notifier_ok n \<Longrightarrow> notifier_ok (signal k n)"
  unfolding notifier_ok_def signal_def by (auto simp: less_Suc_eq)

lemma notifier_ok_subscribe: "notifier_ok n \<Longrightarrow> subscribe k n = (ch, n') \<Longrightarrow> notifier_ok n'"
  unfolding notifier_ok_def subscribe_def by (fastforce simp: less_Suc_eq split: option.splits if_splits)

lemma notifier_ok_notifies: "notifies n n' \<Longrightarrow> notifier_ok n \<Longrightarrow> notifier_ok n'"
  by (auto simp: notifies_def intro: notifier_ok_signal notifier_ok_subscribe)

text \<open>
  The contract between a store and its waiters: a step subscribes or signals, and a step that makes a query
  ready signals the key of that query.
\<close>

locale notified_store =
  fixes inv :: "'s \<Rightarrow> bool" and step :: "'s \<Rightarrow> 's \<Rightarrow> bool" and ready :: "'q \<Rightarrow> 's \<Rightarrow> 'r option" and notify :: "'s \<Rightarrow> 'k notifier" and key :: "'q \<Rightarrow> 'k"
  assumes preserved: "inv s \<Longrightarrow> step s s' \<Longrightarrow> inv s'"
    and moves: "inv s \<Longrightarrow> step s s' \<Longrightarrow> notifies (notify s) (notify s')"
    and signals: "inv s \<Longrightarrow> step s s' \<Longrightarrow> ready q s = None \<Longrightarrow> ready q s' \<noteq> None \<Longrightarrow> notify s' = signal (key q) (notify s)"
begin

lemma invariant:
  assumes "step\<^sup>*\<^sup>* s s'" "inv s" "notifier_ok (notify s)"
  shows "inv s' \<and> notifier_ok (notify s')"
  using assms
proof (induction rule: rtranclp_induct)
  case (step y z)
  then have y: "inv y" "notifier_ok (notify y)" by simp_all
  show ?case using preserved [OF y(1) step.hyps(2)] notifier_ok_notifies [OF moves [OF y(1) step.hyps(2)] y(2)] by simp
qed simp

lemma wakes:
  assumes "inv s" "step\<^sup>*\<^sup>* s s'" "ready q s = None" "nt_changed (notify s) (key q) = Some ch" "ready q s' \<noteq> None"
  shows "ch \<in> nt_closed (notify s')"
proof -
  have "inv s' \<and> (ch \<in> nt_closed (notify s') \<or> nt_changed (notify s') (key q) = Some ch) \<and> (ready q s' = None \<or> ch \<in> nt_closed (notify s'))"
    using assms(2)
  proof (induction rule: rtranclp_induct)
    case base
    show ?case using assms(1,3,4) by simp
  next
    case (step y z)
    have y: "inv y" using step.IH by simp
    note n = moves [OF y step.hyps(2)]
    have k: "ch \<in> nt_closed (notify z) \<or> nt_changed (notify z) (key q) = Some ch"
      using step.IH by (intro notifies_keeps(1) [OF n]) simp
    have "ready q z = None \<or> ch \<in> nt_closed (notify z)"
    proof (cases "ch \<in> nt_closed (notify y)")
      case True
      then show ?thesis using notifies_keeps(2) [OF n] by (intro disjI2) (rule subsetD)
    next
      case False
      then have "nt_changed (notify y) (key q) = Some ch" "ready q y = None" using step.IH by simp_all
      then show ?thesis using signals [OF y step.hyps(2), of q] by (cases "ready q z = None") (auto intro: signal_closed)
    qed
    with k show ?case using preserved [OF y step.hyps(2)] by simp
  qed
  then show ?thesis using assms(5) by simp
qed

end

section \<open>Jobs\<close>

lemma Job_Update_Inr:
  assumes "Job_Update now u s = (Inr j, s')"
  obtains "js_jobs s (ju_JobID u) = Some j" "job_Version j = ju_ExpectedVersion u" "s' = s"
  | w where "js_jobs s (ju_JobID u) = Some w" "job_Version w = ju_ExpectedVersion u" "\<not> JobStatus_Terminal (job_Status w)"
      "validJobTransition (job_Status w) (ju_Status u)" "j = updated now u w" "Job_Validate j = None" "s' = put_job j s"
  using assms by (auto simp: Job_Update_def split: if_splits option.splits)

lemma Job_Update_Inl: "Job_Update now u s = (Inl e, s') \<Longrightarrow> s' = s"
  by (auto simp: Job_Update_def split: if_splits option.splits)

lemma updated_simps [simp]: "job_ID (updated now u j) = job_ID j" "job_Version (updated now u j) = job_Version j + 1" "job_Status (updated now u j) = ju_Status u"
  by (simp_all add: updated_def)

inductive job_step :: "JobStore \<Rightarrow> JobStore \<Rightarrow> bool" where
  job_create: "Job_Create j s = (e, s') \<Longrightarrow> job_step s s'"
| job_update: "Job_Update now u s = (r, s') \<Longrightarrow> job_step s s'"
| job_wait: "Job_Wait q s = (w, s') \<Longrightarrow> job_step s s'"

inductive_cases job_stepE: "job_step s s'"

definition jobs_ok :: "JobStore \<Rightarrow> bool" where
  "jobs_ok s \<longleftrightarrow> (\<forall>i j. js_jobs s i = Some j \<longrightarrow> job_ID j = i \<and> Job_Validate j = None)"

text \<open>What a step does: nothing to the jobs, one new job, or one update along a valid transition.\<close>

lemma job_step_cases:
  assumes "job_step s s'" "jobs_ok s"
  obtains (same) "js_jobs s' = js_jobs s" "notifies (js_notify s) (js_notify s')"
  | (created) j where "js_jobs s (job_ID j) = None" "Job_Validate j = None" "s' = put_job j s"
  | (moved) w j where "js_jobs s (job_ID j) = Some w" "job_ID w = job_ID j" "\<not> JobStatus_Terminal (job_Status w)"
      "validJobTransition (job_Status w) (job_Status j)" "job_Version j = job_Version w + 1" "Job_Validate j = None" "s' = put_job j s"
  using assms(1)
proof (rule job_stepE)
  fix j e assume "Job_Create j s = (e, s')"
  then have "s' = s \<or> js_jobs s (job_ID j) = None \<and> Job_Validate j = None \<and> s' = put_job j s" by (auto simp: Job_Create_def split: option.splits if_splits)
  then show ?thesis using same created by (auto simp: notifies_def)
next
  fix now u r assume u: "Job_Update now u s = (r, s')"
  show ?thesis
  proof (cases r)
    case (Inl e)
    then have "s' = s" using u Job_Update_Inl by blast
    then show ?thesis using same by (simp add: notifies_def)
  next
    case (Inr j)
    from u [unfolded Inr] show ?thesis
    proof (cases rule: Job_Update_Inr)
      case (2 w)
      have "job_ID w = ju_JobID u" using assms(2) 2(1) by (simp add: jobs_ok_def)
      then show ?thesis using moved [of j w] 2 by simp
    qed (use same in \<open>simp add: notifies_def\<close>)
  qed
next
  fix q w assume "Job_Wait q s = (w, s')"
  then have "js_jobs s' = js_jobs s \<and> notifies (js_notify s) (js_notify s')"
    by (auto simp: Job_Wait_def notifies_def split: option.splits prod.splits)
  then show ?thesis using same by blast
qed

lemma jobs_ok_step: "job_step s s' \<Longrightarrow> jobs_ok s \<Longrightarrow> jobs_ok s'"
  by (erule job_step_cases, assumption) (auto simp: jobs_ok_def put_job_def)

lemma reachable_jobs_ok: "job_step\<^sup>*\<^sup>* NewMemoryJobStore s \<Longrightarrow> jobs_ok s"
proof (induction rule: rtranclp_induct)
  case base
  show ?case by (simp add: jobs_ok_def NewMemoryJobStore_def)
next
  case (step y z)
  then show ?case using jobs_ok_step by blast
qed

interpretation jobs: versioned_store jobs_ok js_jobs job_Version "Job_Update now" ju_JobID ju_ExpectedVersion for now
proof unfold_locales
  fix u s j s' assume u: "Job_Update now u s = (Inr j, s')"
  show "case js_jobs s (ju_JobID u) of Some w \<Rightarrow> job_Version w = ju_ExpectedVersion u | None \<Rightarrow> ju_ExpectedVersion u = 0"
    using u by (cases rule: Job_Update_Inr) simp_all
  show "js_jobs s' (ju_JobID u) = Some j \<and> job_Version j = ju_ExpectedVersion u + 1" if "jobs_ok s" "s' \<noteq> s"
    using u by (cases rule: Job_Update_Inr) (use that in \<open>auto simp: jobs_ok_def put_job_def\<close>)
next
  fix u s r s' k assume a: "jobs_ok s" "Job_Update now u s = (r, s')" "k \<noteq> ju_JobID u"
  show "js_jobs s' k = js_jobs s k"
  proof (cases r)
    case (Inr j)
    from a(2) [unfolded Inr] show ?thesis by (cases rule: Job_Update_Inr) (use a(1,3) in \<open>auto simp: jobs_ok_def put_job_def\<close>)
  qed (use a(2) Job_Update_Inl in blast)
qed (auto dest: Job_Update_Inl intro: jobs_ok_step job_update)

text \<open>The notifier follows the jobs: whatever changes a job signals its channel.\<close>

lemma job_step_notifies:
  assumes "job_step s s'" "jobs_ok s"
  shows "notifies (js_notify s) (js_notify s') \<and> (js_jobs s' k \<noteq> js_jobs s k \<longrightarrow> js_notify s' = signal k (js_notify s))"
  using assms by (cases rule: job_step_cases) (auto simp: put_job_def notifies_def)

interpretation job_notify: notified_store jobs_ok job_step job_ready js_notify fst
proof unfold_locales
  fix s s' q assume a: "jobs_ok s" "job_step s s'" "job_ready q s = None" "job_ready q s' \<noteq> None"
  have "js_jobs s' (fst q) \<noteq> js_jobs s (fst q)" using a(3,4) by (auto simp: job_ready_def)
  then show "js_notify s' = signal (fst q) (js_notify s)" using job_step_notifies [OF a(2,1)] by blast
qed (use jobs_ok_step job_step_notifies in blast)+

section \<open>Mailbox steps\<close>

inductive mail_step :: "Mailbox \<Rightarrow> Mailbox \<Rightarrow> bool" where
  mail_publish: "\<not> IsZero now \<Longrightarrow> Publish now m b = (r, b') \<Longrightarrow> mail_step b b'"
| mail_wait: "Mail_Wait q b = (w, b') \<Longrightarrow> mail_step b b'"

inductive_cases mail_stepE: "mail_step b b'"

definition delivered :: "time \<Rightarrow> MailMessage \<Rightarrow> Mailbox \<Rightarrow> MailMessage" where
  "delivered now m b = m\<lparr>mail_Sequence := mb_sequence b + 1, mail_CreatedAt := now\<rparr>"

definition post :: "MailMessage \<Rightarrow> Mailbox \<Rightarrow> Mailbox" where
  "post m b = \<lparr>mb_sequence = mail_Sequence m, mb_messages = (mb_messages b)(mail_To m := mb_messages b (mail_To m) @ [m]), mb_notify = signal (mail_To m) (mb_notify b)\<rparr>"

lemma Publish_cases:
  assumes "Publish now m b = (r, b')"
  obtains e where "r = Inl e" "b' = b"
  | (again) x where "r = Inr x" "b' = b" "List.find (\<lambda>x. mail_ID x = mail_ID m) (mb_messages b (mail_To m)) = Some x" "mail_From x = mail_From m" "mail_To x = mail_To m" "mail_Body x = mail_Body m"
  | (fresh) "r = Inr (delivered now m b)" "b' = post (delivered now m b) b" "mail_ID m \<noteq> ''''" "Address_Valid (mail_From m)" "Address_Valid (mail_To m)" "mail_Body m \<noteq> ''''"
      "List.find (\<lambda>x. mail_ID x = mail_ID m) (mb_messages b (mail_To m)) = None"
proof (cases "mail_ID m = '''' \<or> \<not> Address_Valid (mail_From m) \<or> \<not> Address_Valid (mail_To m) \<or> mail_Body m = ''''")
  case True
  then show ?thesis using assms that(1) by (auto simp: Publish_def)
next
  case False
  show ?thesis
  proof (cases "List.find (\<lambda>x. mail_ID x = mail_ID m) (mb_messages b (mail_To m))")
    case None
    then show ?thesis using assms False fresh by (auto simp: Publish_def Let_def delivered_def post_def)
  next
    case (Some x)
    then show ?thesis using assms False that(1) again [of x] by (auto simp: Publish_def split: if_splits)
  qed
qed

lemma mail_step_cases:
  assumes "mail_step b b'"
  obtains (same) "mb_messages b' = mb_messages b" "mb_sequence b' = mb_sequence b" "notifies (mb_notify b) (mb_notify b')"
  | (posted) m where "b' = post m b" "mail_ID m \<noteq> ''''" "Address_Valid (mail_From m)" "Address_Valid (mail_To m)" "mail_Body m \<noteq> ''''" "\<not> IsZero (mail_CreatedAt m)"
      "mail_Sequence m = mb_sequence b + 1" "\<forall>x\<in>set (mb_messages b (mail_To m)). mail_ID x \<noteq> mail_ID m"
  using assms
proof (rule mail_stepE)
  fix now m r assume now: "\<not> IsZero now" and p: "Publish now m b = (r, b')"
  from p show ?thesis
  proof (cases rule: Publish_cases)
    case fresh
    then show ?thesis using now posted [of "delivered now m b"] by (simp add: delivered_def find_None_iff)
  qed (use same in \<open>simp_all add: notifies_def\<close>)
next
  fix q w assume "Mail_Wait q b = (w, b')"
  then have "mb_messages b' = mb_messages b \<and> mb_sequence b' = mb_sequence b \<and> notifies (mb_notify b) (mb_notify b')"
    by (auto simp: Mail_Wait_def notifies_def split: option.splits prod.splits)
  then show ?thesis using same by blast
qed

interpretation mail_notify: notified_store "\<lambda>_. True" mail_step mail_ready mb_notify fst
proof unfold_locales
  fix b b' assume "mail_step b b'"
  then show "notifies (mb_notify b) (mb_notify b')" by (cases rule: mail_step_cases) (auto simp: post_def notifies_def)
next
  fix b b' q assume a: "mail_step b b'" "mail_ready q b = None" "mail_ready q b' \<noteq> None"
  then have d: "mb_messages b' (fst q) \<noteq> mb_messages b (fst q)" by (auto simp: mail_ready_def split: if_splits)
  from a(1) show "mb_notify b' = signal (fst q) (mb_notify b)" by (cases rule: mail_step_cases) (use d in \<open>auto simp: post_def split: if_splits\<close>)
qed simp

section \<open>Properties\<close>

subsection \<open>The life of a job\<close>

definition job_advances :: "Job \<Rightarrow> Job \<Rightarrow> bool" where
  "job_advances j j' \<longleftrightarrow> j' = j \<or> job_Version j < job_Version j' \<and> \<not> JobStatus_Terminal (job_Status j) \<and> validJobTransition\<^sup>*\<^sup>* (job_Status j) (job_Status j')"

lemma job_advances_trans: "job_advances i j \<Longrightarrow> job_advances j k \<Longrightarrow> job_advances i k"
  unfolding job_advances_def by (auto elim: rtranclp_trans less_trans)

lemma Job_Validate_Version: "Job_Validate j = None \<Longrightarrow> job_Version j \<noteq> 0"
  by (auto simp: Job_Validate_def check_def)

lemma word_less_plus1: "(w :: 64 word) + 1 \<noteq> 0 \<Longrightarrow> w < w + 1"
  using unatSuc [of w] by (simp add: add.commute word_less_nat_alt)

lemma job_step_advances:
  assumes "job_step s s'" "jobs_ok s" "js_jobs s i = Some j"
  shows "\<exists>j'. js_jobs s' i = Some j' \<and> job_advances j j'"
  using assms(1,2)
proof (cases rule: job_step_cases)
  case (moved w j')
  have "job_Version w < job_Version j'" using moved(5,6) Job_Validate_Version word_less_plus1 by metis
  then have "job_advances w j'" using moved(3,4) by (auto simp: job_advances_def)
  then show ?thesis using moved(1,7) assms(3) by (auto simp: put_job_def job_advances_def)
qed (use assms(3) in \<open>auto simp: put_job_def job_advances_def\<close>)

lemma job_steps_advance:
  assumes "job_step\<^sup>*\<^sup>* s s'" "jobs_ok s" "js_jobs s i = Some j"
  shows "jobs_ok s' \<and> (\<exists>j'. js_jobs s' i = Some j' \<and> job_advances j j')"
  using assms(1)
proof (induction rule: rtranclp_induct)
  case base
  show ?case using assms(2,3) by (simp add: job_advances_def)
next
  case (step y z)
  then obtain j1 where y: "jobs_ok y" "js_jobs y i = Some j1" "job_advances j j1" by blast
  then show ?case using job_step_advances [OF step.hyps(2) y(1,2)] job_advances_trans [OF y(3)] jobs_ok_step [OF step.hyps(2)] by blast
qed

text \<open>
  C39. A job lives forward only: whatever operations follow, a stored job keeps its identity and is always a
  valid job; its version never goes back and identifies its content; its status moves along the valid
  transitions; and a job that has reached a terminal status never changes again.
\<close>

theorem job_lives_forward:
  assumes "job_step\<^sup>*\<^sup>* NewMemoryJobStore s" "job_step\<^sup>*\<^sup>* s s'" "js_jobs s i = Some j"
  shows "\<exists>j'. js_jobs s' i = Some j' \<and> job_ID j' = i \<and> Job_Validate j' = None \<and> job_Version j \<le> job_Version j' \<and> (job_Version j' = job_Version j \<longrightarrow> j' = j) \<and>
    validJobTransition\<^sup>*\<^sup>* (job_Status j) (job_Status j') \<and> (JobStatus_Terminal (job_Status j) \<longrightarrow> j' = j)"
proof -
  obtain j' where j: "jobs_ok s'" "js_jobs s' i = Some j'" "job_advances j j'"
    using job_steps_advance [OF assms(2) reachable_jobs_ok [OF assms(1)] assms(3)] by blast
  have "job_ID j' = i \<and> Job_Validate j' = None" using j(1,2) by (simp add: jobs_ok_def)
  then show ?thesis using j(2,3) by (auto simp: job_advances_def)
qed

definition demo_parent :: Parent where
  "demo_parent = \<lparr>par_SessionID = ''s1'', par_RunID = ''r1'', par_StepID = ''t1''\<rparr>"

definition demo_job :: Job where
  "demo_job = \<lparr>job_ID = ''j1'', job_ProviderKey = ''p1'', job_Parent = demo_parent, job_Instruction = ''x'', job_Status = JobQueued, job_Version = 1,
     job_Result = \<lparr>jr_Summary = '''', jr_Artifacts = []\<rparr>, job_ErrorCode = '''', job_TerminalReason = '''', job_CreatedAt = 1, job_UpdatedAt = 1\<rparr>"

definition demo_update :: JobUpdate where
  "demo_update = \<lparr>ju_JobID = ''j1'', ju_ExpectedVersion = 1, ju_Status = JobRunning, ju_Result = \<lparr>jr_Summary = '''', jr_Artifacts = []\<rparr>, ju_ErrorCode = '''', ju_TerminalReason = ''''\<rparr>"

definition demo_jobs :: JobStore where
  "demo_jobs = put_job demo_job NewMemoryJobStore"

definition demo_running_jobs :: JobStore where
  "demo_running_jobs = put_job (updated 2 demo_update demo_job) demo_jobs"

lemma demo_parent_valid: "Parent_Valid demo_parent"
  by (simp add: Parent_Valid_def demo_parent_def validID_graphic graphic_def)

lemma demo_job_valid: "Job_Validate demo_job = None" "Job_Validate (updated 2 demo_update demo_job) = None"
  using demo_parent_valid by (simp_all add: Job_Validate_def demo_job_def updated_def demo_update_def JobStatus_Valid_def check_def IsZero_def)

lemma demo_job_created: "Job_Create demo_job NewMemoryJobStore = (None, demo_jobs)"
  by (simp add: Job_Create_def demo_job_valid demo_jobs_def NewMemoryJobStore_def)

lemma demo_job_stored: "js_jobs demo_jobs ''j1'' = Some demo_job" "js_jobs demo_running_jobs ''j1'' = Some (updated 2 demo_update demo_job)"
  by (simp_all add: demo_jobs_def demo_running_jobs_def put_job_def demo_job_def updated_def)

lemma demo_update_applies:
  assumes "js_jobs s ''j1'' = Some demo_job"
  shows "Job_Update 2 demo_update s = (Inr (updated 2 demo_update demo_job), put_job (updated 2 demo_update demo_job) s)"
  using assms demo_job_valid(2)
  by (simp add: Job_Update_def demo_update_def JobStatus_Valid_def) (simp add: demo_job_def JobStatus_Terminal_def validJobTransition_def)

lemma demo_job_updated: "Job_Update 2 demo_update demo_jobs = (Inr (updated 2 demo_update demo_job), demo_running_jobs)"
  unfolding demo_running_jobs_def by (rule demo_update_applies [OF demo_job_stored(1)])

lemma demo_jobs_reachable: "job_step\<^sup>*\<^sup>* NewMemoryJobStore demo_jobs" "job_step\<^sup>*\<^sup>* demo_jobs demo_running_jobs"
  using job_create [OF demo_job_created] job_update [OF demo_job_updated] by blast+

theorem job_lives_forward_witness:
  "\<exists>j'. js_jobs demo_running_jobs ''j1'' = Some j' \<and> job_Status j' = JobRunning \<and> job_Version demo_job \<le> job_Version j'"
  using job_lives_forward [OF demo_jobs_reachable demo_job_stored(1)] demo_job_stored(2) by (simp add: updated_def demo_update_def)

subsection \<open>Optimistic updates\<close>

text \<open>
  No update is lost: after a job update, a goal setting or a goal status change was applied, any other
  one of its kind that still expects the earlier version is refused and changes nothing.
\<close>

theorem optimistic_updates:
  "(jobs_ok s \<and> Job_Update now u s = (Inr j, s') \<and> s' \<noteq> s \<and> ju_JobID v = ju_JobID u \<and> ju_ExpectedVersion v = ju_ExpectedVersion u \<longrightarrow>
      (\<exists>e. Job_Update now v s' = (Inl e, s'))) \<and>
   (Set_goal now r g = (Inr x, g') \<and> g' \<noteq> g \<and> set_SessionID q = set_SessionID r \<and> set_ExpectedVersion q = set_ExpectedVersion r \<longrightarrow>
      (\<exists>e. Set_goal now q g' = (Inl e, g'))) \<and>
   (ChangeStatus now c g = (Inr x, g') \<and> g' \<noteq> g \<and> sch_SessionID d = sch_SessionID c \<and> sch_ExpectedVersion d = sch_ExpectedVersion c \<longrightarrow>
      (\<exists>e. ChangeStatus now d g' = (Inl e, g')))"
proof (intro conjI impI)
  assume "jobs_ok s \<and> Job_Update now u s = (Inr j, s') \<and> s' \<noteq> s \<and> ju_JobID v = ju_JobID u \<and> ju_ExpectedVersion v = ju_ExpectedVersion u"
  then show "\<exists>e. Job_Update now v s' = (Inl e, s')"
    using jobs.stale_refused [where now = now, of s u j s' v "fst (Job_Update now v s')" "snd (Job_Update now v s')"] by (metis prod.collapse)
next
  assume "Set_goal now r g = (Inr x, g') \<and> g' \<noteq> g \<and> set_SessionID q = set_SessionID r \<and> set_ExpectedVersion q = set_ExpectedVersion r"
  then show "\<exists>e. Set_goal now q g' = (Inl e, g')"
    using goal_set.stale_refused [where now = now and s = g and r = r and s' = g' and q = q and x = "fst (Set_goal now q g')" and s'' = "snd (Set_goal now q g')"] by (metis prod.collapse)
next
  assume "ChangeStatus now c g = (Inr x, g') \<and> g' \<noteq> g \<and> sch_SessionID d = sch_SessionID c \<and> sch_ExpectedVersion d = sch_ExpectedVersion c"
  then show "\<exists>e. ChangeStatus now d g' = (Inl e, g')"
    using goal_status.stale_refused [where now = now and s = g and r = c and s' = g' and q = d and x = "fst (ChangeStatus now d g')" and s'' = "snd (ChangeStatus now d g')"] by (metis prod.collapse)
qed

lemma demo_running_differs: "demo_running_jobs \<noteq> demo_jobs"
  using demo_job_stored by (auto simp: updated_def demo_update_def demo_job_def)

theorem optimistic_updates_witness: "\<exists>e. Job_Update 2 (demo_update\<lparr>ju_Status := JobCanceled, ju_TerminalReason := ''x''\<rparr>) demo_running_jobs = (Inl e, demo_running_jobs)"
  using optimistic_updates [of demo_jobs 2 demo_update _ demo_running_jobs "demo_update\<lparr>ju_Status := JobCanceled, ju_TerminalReason := ''x''\<rparr>"]
    reachable_jobs_ok [OF demo_jobs_reachable(1)] demo_job_updated demo_running_differs by simp

subsection \<open>Waiters\<close>

text \<open>
  C40. No waiter sleeps through a change: when a wait on a job or on a mailbox blocks, its channel is open,
  and in every later state in which the wait would be answered that channel has been closed.
\<close>

theorem waiters_wake:
  "(job_step\<^sup>*\<^sup>* NewMemoryJobStore s \<and> Job_Wait q s = (Inr ch, s1) \<and> job_step\<^sup>*\<^sup>* s1 s2 \<longrightarrow>
      ch \<notin> nt_closed (js_notify s1) \<and> (job_ready q s2 \<noteq> None \<longrightarrow> ch \<in> nt_closed (js_notify s2))) \<and>
   (mail_step\<^sup>*\<^sup>* NewMemoryMailbox b \<and> Mail_Wait p b = (Inr c, b1) \<and> mail_step\<^sup>*\<^sup>* b1 b2 \<longrightarrow>
      c \<notin> nt_closed (mb_notify b1) \<and> (mail_ready p b2 \<noteq> None \<longrightarrow> c \<in> nt_closed (mb_notify b2)))"
proof (rule conjI; rule impI)
  assume "job_step\<^sup>*\<^sup>* NewMemoryJobStore s \<and> Job_Wait q s = (Inr ch, s1) \<and> job_step\<^sup>*\<^sup>* s1 s2"
  then have a: "job_step\<^sup>*\<^sup>* NewMemoryJobStore s" "Job_Wait q s = (Inr ch, s1)" "job_step\<^sup>*\<^sup>* s1 s2" by simp_all
  have r: "job_step\<^sup>*\<^sup>* NewMemoryJobStore s1" using a(1) job_wait [OF a(2)] by (rule rtranclp.rtrancl_into_rtrancl)
  have w: "job_ready q s1 = None" "nt_changed (js_notify s1) (fst q) = Some ch"
    using a(2) subscribe_result [of "fst q" "js_notify s" ch] by (auto simp: Job_Wait_def job_ready_def split: option.splits prod.splits)
  have "notifier_ok (js_notify s1)" using job_notify.invariant [OF r reachable_jobs_ok [OF rtranclp.rtrancl_refl]] notifier_ok_init by (auto simp: NewMemoryJobStore_def)
  then show "ch \<notin> nt_closed (js_notify s1) \<and> (job_ready q s2 \<noteq> None \<longrightarrow> ch \<in> nt_closed (js_notify s2))"
    using w(2) job_notify.wakes [OF reachable_jobs_ok [OF r] a(3) w] by (auto simp: notifier_ok_def)
next
  assume "mail_step\<^sup>*\<^sup>* NewMemoryMailbox b \<and> Mail_Wait p b = (Inr c, b1) \<and> mail_step\<^sup>*\<^sup>* b1 b2"
  then have a: "mail_step\<^sup>*\<^sup>* NewMemoryMailbox b" "Mail_Wait p b = (Inr c, b1)" "mail_step\<^sup>*\<^sup>* b1 b2" by simp_all
  have r: "mail_step\<^sup>*\<^sup>* NewMemoryMailbox b1" using a(1) mail_wait [OF a(2)] by (rule rtranclp.rtrancl_into_rtrancl)
  have w: "mail_ready p b1 = None" "nt_changed (mb_notify b1) (fst p) = Some c"
    using a(2) subscribe_result [of "fst p" "mb_notify b" c] by (auto simp: Mail_Wait_def mail_ready_def split: option.splits prod.splits if_splits)
  have "notifier_ok (mb_notify b1)" using mail_notify.invariant [OF r] notifier_ok_init by (auto simp: NewMemoryMailbox_def)
  then show "c \<notin> nt_closed (mb_notify b1) \<and> (mail_ready p b2 \<noteq> None \<longrightarrow> c \<in> nt_closed (mb_notify b2))"
    using w(2) mail_notify.wakes [OF TrueI a(3) w] by (auto simp: notifier_ok_def)
qed

theorem waiters_wake_witness:
  "\<exists>ch s1 j s2. Job_Wait (''j1'', 1) demo_jobs = (Inr ch, s1) \<and> Job_Update 2 demo_update s1 = (Inr j, s2) \<and> job_ready (''j1'', 1) s2 = Some (Inr j) \<and> ch \<in> nt_closed (js_notify s2)"
proof -
  have "job_ready (''j1'', 1) demo_jobs = None"
    using demo_job_stored(1) by (simp add: job_ready_def) (simp add: demo_job_def JobStatus_Terminal_def)
  then obtain ch s1 where w: "Job_Wait (''j1'', 1) demo_jobs = (Inr ch, s1)" "js_jobs s1 = js_jobs demo_jobs"
    by (cases "subscribe ''j1'' (js_notify demo_jobs)") (auto simp: Job_Wait_def)
  define s2 where "s2 = put_job (updated 2 demo_update demo_job) s1"
  have u: "Job_Update 2 demo_update s1 = (Inr (updated 2 demo_update demo_job), s2)"
    unfolding s2_def by (rule demo_update_applies) (simp add: w(2) demo_job_stored(1))
  have r: "job_ready (''j1'', 1) s2 = Some (Inr (updated 2 demo_update demo_job))"
    by (simp add: s2_def put_job_def job_ready_def) (simp add: demo_job_def)
  have "ch \<in> nt_closed (js_notify s2)"
    using waiters_wake [of demo_jobs "(''j1'', 1)" ch s1 s2] demo_jobs_reachable(1) w(1) job_update [OF u] r by blast
  with w(1) u r show ?thesis by blast
qed

subsection \<open>Mailboxes\<close>

definition box_ok :: "nat \<Rightarrow> Mailbox \<Rightarrow> bool" where
  "box_ok n b \<longleftrightarrow> unat (mb_sequence b) \<le> n \<and> (\<forall>a. sorted_wrt (<) (map mail_Sequence (mb_messages b a)) \<and> distinct (map mail_ID (mb_messages b a)) \<and>
     (\<forall>m\<in>set (mb_messages b a). mail_To m = a \<and> MailMessage_Validate m = None \<and> mail_Sequence m \<le> mb_sequence b)) \<and>
     (\<forall>a a' m m'. m \<in> set (mb_messages b a) \<and> m' \<in> set (mb_messages b a') \<and> mail_Sequence m = mail_Sequence m' \<longrightarrow> m = m')"

lemma unat_Suc_le: "unat (w :: 64 word) \<le> n \<Longrightarrow> n + 1 < 2 ^ 64 \<Longrightarrow> w + 1 \<noteq> 0 \<and> unat (w + 1) \<le> n + 1 \<and> w < w + 1"
proof -
  assume a: "unat w \<le> n" "n + 1 < 2 ^ 64"
  then have "unat (w + 1) = unat w + 1" by (subst unat_plus_if') (simp add: unat_of_nat)
  then show ?thesis using a by (auto simp: word_less_nat_alt)
qed

lemma box_ok_step:
  assumes "mail_step b b'" "box_ok n b" "n + 1 < 2 ^ 64"
  shows "box_ok (n + 1) b'"
  using assms(1)
proof (cases rule: mail_step_cases)
  case same
  then show ?thesis using assms(2) unfolding box_ok_def by (metis trans_le_add1)
next
  case (posted m)
  have w: "mail_Sequence m \<noteq> 0" "unat (mail_Sequence m) \<le> n + 1" "mb_sequence b < mail_Sequence m"
    using unat_Suc_le [of "mb_sequence b" n] assms(2,3) posted(7) by (simp_all add: box_ok_def)
  have v: "MailMessage_Validate m = None" using posted(2-6) w(1) by (simp add: MailMessage_Validate_def check_def)
  have older: "mail_Sequence x \<le> mb_sequence b \<and> mail_Sequence x < mail_Sequence m" if "x \<in> set (mb_messages b a)" for x a
    using that assms(2) w(3) by (auto simp: box_ok_def intro: le_less_trans)
  show ?thesis using assms(2) v w older posted(8)
    by (auto simp: box_ok_def posted(1) post_def sorted_wrt_append intro: less_imp_le dest: older)
qed

lemma reachable_box_ok: "(mail_step ^^ n) NewMemoryMailbox b \<Longrightarrow> n < 2 ^ 64 \<Longrightarrow> box_ok n b"
proof (induction n arbitrary: b)
  case 0
  then show ?case by (auto simp: box_ok_def NewMemoryMailbox_def)
next
  case (Suc n)
  then obtain b0 where "(mail_step ^^ n) NewMemoryMailbox b0" "mail_step b0 b" by auto
  then show ?case using Suc.IH [of b0] Suc.prems(2) box_ok_step [of b0 b n] by simp
qed

text \<open>
  A mailbox is an ordered log: within the first \<open>2^64\<close> operations, the messages of an address are valid,
  addressed to it, in strictly increasing sequence with distinct identifiers, and no two messages of the
  mailbox share a sequence number; so a reader that continues after the last sequence it saw misses and
  repeats nothing.
\<close>

theorem mailbox_order:
  assumes "(mail_step ^^ n) NewMemoryMailbox b" "n < 2 ^ 64"
  shows "sorted_wrt (<) (map mail_Sequence (mb_messages b a)) \<and> distinct (map mail_ID (mb_messages b a)) \<and>
    (\<forall>m\<in>set (mb_messages b a). mail_To m = a \<and> MailMessage_Validate m = None) \<and>
    (\<forall>a' m m'. m \<in> set (mb_messages b a) \<and> m' \<in> set (mb_messages b a') \<and> mail_Sequence m = mail_Sequence m' \<longrightarrow> m = m') \<and>
    (\<forall>xs m ys. mb_messages b a = xs @ m # ys \<longrightarrow> messagesAfter (mb_messages b a) (mail_Sequence m) = ys)"
proof -
  have ok: "box_ok n b" using assms by (rule reachable_box_ok)
  have "messagesAfter (mb_messages b a) (mail_Sequence m) = ys" if "mb_messages b a = xs @ m # ys" for xs m ys
  proof -
    have "\<forall>x\<in>set xs. mail_Sequence x < mail_Sequence m" "\<forall>y\<in>set ys. mail_Sequence m < mail_Sequence y"
      using ok that by (auto simp: box_ok_def sorted_wrt_append dest!: spec [where x = a])
    then show ?thesis using that by (auto simp: messagesAfter_def filter_empty_conv not_less less_imp_le)
  qed
  with ok show ?thesis unfolding box_ok_def by blast
qed

definition demo_mail :: MailMessage where
  "demo_mail = \<lparr>mail_ID = ''m1'', mail_Sequence = 0, mail_From = \<lparr>adr_Kind = AddressSession, adr_ID = ''s1''\<rparr>, mail_To = \<lparr>adr_Kind = AddressJob, adr_ID = ''j1''\<rparr>,
     mail_Body = ''hi'', mail_CreatedAt = 0\<rparr>"

definition demo_box :: Mailbox where
  "demo_box = post (delivered 1 demo_mail NewMemoryMailbox) NewMemoryMailbox"

lemma demo_published: "Publish 1 demo_mail NewMemoryMailbox = (Inr (delivered 1 demo_mail NewMemoryMailbox), demo_box)"
  by (simp add: Publish_def demo_mail_def Address_Valid_def AddressKind_Valid_def NewMemoryMailbox_def demo_box_def post_def delivered_def Let_def)

theorem mailbox_order_witness:
  "(mail_step ^^ 1) NewMemoryMailbox demo_box \<and> map mail_Sequence (mb_messages demo_box (mail_To demo_mail)) = [1] \<and>
   map MailMessage_Validate (mb_messages demo_box (mail_To demo_mail)) = [None]"
proof -
  have s: "(mail_step ^^ 1) NewMemoryMailbox demo_box" using mail_publish [OF _ demo_published] by (simp only: relpowp_1) (simp add: IsZero_def)
  have "mb_messages demo_box (mail_To demo_mail) = [delivered 1 demo_mail NewMemoryMailbox]" by (simp add: demo_box_def post_def delivered_def NewMemoryMailbox_def)
  moreover have "mail_Sequence (delivered 1 demo_mail NewMemoryMailbox) = 1" by (simp add: delivered_def NewMemoryMailbox_def)
  ultimately show ?thesis using s mailbox_order [OF s, of "mail_To demo_mail"] by (simp del: One_nat_def)
qed

lemma mail_step_append: "mail_step b b' \<Longrightarrow> \<exists>new. mb_messages b' a = mb_messages b a @ new"
  by (erule mail_step_cases) (auto simp: post_def)

lemma mail_steps_append: "mail_step\<^sup>*\<^sup>* b b' \<Longrightarrow> \<exists>new. mb_messages b' a = mb_messages b a @ new"
proof (induction rule: rtranclp_induct)
  case (step y z)
  then show ?case using mail_step_append [OF step.hyps(2), of a] by auto
qed simp

lemma find_append_None: "List.find P xs = None \<Longrightarrow> P x \<Longrightarrow> List.find P (xs @ [x]) = Some x"
  by (induction xs) (auto split: if_splits)

text \<open>
  Publishing is exactly-once and nothing delivered is lost: after a publication succeeded, whatever
  follows, the delivered message stays in the mailbox of its address, repeating the publication returns it and
  changes nothing, and other content under the same identifier is refused.
\<close>

theorem publish_exactly_once:
  assumes "Publish now m b = (Inr x, b1)" "mail_step\<^sup>*\<^sup>* b1 b2"
  shows "x \<in> set (mb_messages b2 (mail_To m)) \<and> mail_Body x = mail_Body m \<and> mail_From x = mail_From m \<and> Publish now' m b2 = (Inr x, b2) \<and>
    (\<forall>q. mail_ID q = mail_ID m \<and> mail_To q = mail_To m \<and> (mail_Body q \<noteq> mail_Body m \<or> mail_From q \<noteq> mail_From m) \<longrightarrow> (\<exists>e. Publish now' q b2 = (Inl e, b2)))"
proof -
  have f: "List.find (\<lambda>y. mail_ID y = mail_ID m) (mb_messages b1 (mail_To m)) = Some x \<and> mail_From x = mail_From m \<and> mail_To x = mail_To m \<and> mail_Body x = mail_Body m"
    using assms(1) by (cases rule: Publish_cases) (auto simp: post_def delivered_def intro: find_append_None)
  obtain new where n: "mb_messages b2 (mail_To m) = mb_messages b1 (mail_To m) @ new" using mail_steps_append [OF assms(2)] by blast
  have g: "List.find (\<lambda>y. mail_ID y = mail_ID m) (mb_messages b2 (mail_To m)) = Some x" using f n by (simp add: find_append)
  have "\<not> (mail_ID m = '''' \<or> \<not> Address_Valid (mail_From m) \<or> \<not> Address_Valid (mail_To m) \<or> mail_Body m = '''')"
    using assms(1) by (auto simp: Publish_def split: if_splits)
  moreover have "x \<in> set (mb_messages b2 (mail_To m))" using g by (auto simp: find_Some_iff)
  ultimately show ?thesis using f g by (auto simp: Publish_def)
qed

theorem publish_exactly_once_witness:
  "Publish 5 demo_mail demo_box = (Inr (delivered 1 demo_mail NewMemoryMailbox), demo_box) \<and> (\<exists>e. Publish 5 (demo_mail\<lparr>mail_Body := ''ho''\<rparr>) demo_box = (Inl e, demo_box))"
  using publish_exactly_once [OF demo_published rtranclp.rtrancl_refl, of 5] by (simp add: demo_mail_def)

subsection \<open>Waiting for the end of a job\<close>

lemma waitTerminal_loop_ends:
  assumes "\<And>k after. \<exists>s j. js_jobs s i = Some j \<and> job_ready (i, after) s = Some (wait k after)"
  shows "\<exists>j. waitTerminal_loop wait k after = Inr j \<and> JobStatus_Terminal (job_Status j)"
  using assms
proof (induction wait k after rule: waitTerminal_loop.induct)
  case (1 wait k after)
  obtain s j where "js_jobs s i = Some j" "job_ready (i, after) s = Some (wait k after)" using "1.prems" by blast
  then have j: "wait k after = Inr j" "job_Version j > after \<or> JobStatus_Terminal (job_Status j)" by (auto simp: job_ready_def split: if_splits)
  show ?case
  proof (cases "JobStatus_Terminal (job_Status j)")
    case True
    then show ?thesis using j(1) by (subst waitTerminal_loop.simps) simp
  next
    case False
    then have v: "\<not> job_Version j \<le> after" using j(2) by (simp add: not_le)
    have "\<exists>j'. waitTerminal_loop wait (Suc k) (job_Version j) = Inr j' \<and> JobStatus_Terminal (job_Status j')"
      using "1.IH" [OF j(1) False v] "1.prems" by blast
    then show ?thesis using False v j(1) by (subst waitTerminal_loop.simps) simp
  qed
qed

text \<open>
  Waiting for a terminal job ends: when every answer of the scheduler is what the job store answers in a
  state that has the job, however the job changes in between, \<^verbatim>\<open>WaitTerminal\<close> returns, without an
  error, a job that is terminal.
\<close>

theorem wait_terminal_ends:
  assumes "\<And>k after. \<exists>s j. js_jobs s i = Some j \<and> job_ready (i, after) s = Some (wait k after)"
  shows "\<exists>j. WaitTerminal (Some wait) after = Inr j \<and> JobStatus_Terminal (job_Status j)"
  using waitTerminal_loop_ends [OF assms] by (simp add: WaitTerminal_def)

definition demo_done :: Job where
  "demo_done = demo_job\<lparr>job_Status := JobCompleted, job_Version := 3\<rparr>"

theorem wait_terminal_ends_witness:
  "\<exists>j. WaitTerminal (Some (\<lambda>k after. Inr (if k = 0 \<and> after < 2 then demo_job\<lparr>job_Status := JobRunning, job_Version := 2\<rparr> else demo_done))) 0 = Inr j \<and> JobStatus_Terminal (job_Status j)"
proof (rule wait_terminal_ends [where i = "''j1''"])
  fix k :: nat and after :: uint64
  let ?j = "if k = 0 \<and> after < 2 then demo_job\<lparr>job_Status := JobRunning, job_Version := 2\<rparr> else demo_done"
  have "js_jobs (NewMemoryJobStore\<lparr>js_jobs := [''j1'' \<mapsto> ?j]\<rparr>) ''j1'' = Some ?j" by simp
  moreover have "job_ready (''j1'', after) (NewMemoryJobStore\<lparr>js_jobs := [''j1'' \<mapsto> ?j]\<rparr>) = Some (Inr ?j)"
    by (simp add: job_ready_def demo_done_def JobStatus_Terminal_def)
  ultimately show "\<exists>s j. js_jobs s ''j1'' = Some j \<and> job_ready (''j1'', after) s = Some (Inr ?j)" by blast
qed

end
