(* ===== verification/Session_Manager.thy ===== *)
theory Session_Manager
  imports Session_Store "HOL-Library.State_Monad"
begin

text \<open>
  The Session manager (\<^verbatim>\<open>session/memory_manager.go\<close>): creation, resumption, forks and summary starts on
  top of the store. Identifiers come from a counter of the manager, kept here as the number of identifiers
  issued, with the 64-bit wrap-around where it is printed. The fork rewriting threads its identifier maps
  through the History in the state monad; the five maps of the source are one family indexed by the kind
  of identifier. The random prefix of \<^verbatim>\<open>randomIDPrefix\<close> is an argument.
\<close>

section \<open>Requests\<close>

record CreateRequest =
  cr_AgentID :: AgentID
  cr_WorkspaceID :: WorkspaceID
  cr_ModelConfig :: "Config option"

datatype ForkMode = ForkFullHistory | ForkHistoryPrefix | ForkMode_other string

definition ForkMode_Valid :: "ForkMode \<Rightarrow> bool" where
  "ForkMode_Valid m \<longleftrightarrow> m = ForkFullHistory \<or> m = ForkHistoryPrefix"

record ForkRequest =
  fr_SourceSessionID :: SessionID
  fr_Mode :: ForkMode
  fr_CutoffSequence :: HistorySequence
  fr_AgentID :: AgentID
  fr_WorkspaceID :: WorkspaceID
  fr_ModelConfig :: "Config option"

record SummaryRequest =
  sr_SourceSessionID :: SessionID
  sr_AgentID :: AgentID
  sr_WorkspaceID :: WorkspaceID
  sr_Messages :: "MessageInput list"
  sr_ModelConfig :: "Config option"

section \<open>The manager\<close>

record Manager =
  mgr_defaultConfig :: Config
  mgr_idPrefix :: string
  mgr_sequence :: nat

definition NewManager :: "MemoryStore option \<Rightarrow> Config \<Rightarrow> string option \<Rightarrow> ClassifiedError + Manager" where
  "NewManager store defaultConfig prefix =
     guardE (check (store = None) (invalid ''session.manager'' ''store is required''))
       (guardE (map_option (\<lambda>e. invalid ''session.manager'' (''invalid default model config: '' @ e)) (Config_Validate defaultConfig))
       (case prefix of
          None \<Rightarrow> Inl (NewError ErrorInternal ''session.manager'' ''cannot initialize ID allocator'')
        | Some p \<Rightarrow> Inr \<lparr>mgr_defaultConfig = defaultConfig, mgr_idPrefix = p, mgr_sequence = 0\<rparr>))"

definition idText :: "string \<Rightarrow> string \<Rightarrow> nat \<Rightarrow> string" where
  "idText kind prefix n = kind @ ''-'' @ prefix @ ''-'' @ dec (n mod 2 ^ 64)"

definition nextID :: "string \<Rightarrow> Manager \<Rightarrow> string \<times> Manager" where
  "nextID kind m = (let n = mgr_sequence m + 1 in (idText kind (mgr_idPrefix m) n, m\<lparr>mgr_sequence := n\<rparr>))"

definition validateScope :: "AgentID \<Rightarrow> WorkspaceID \<Rightarrow> string option" where
  "validateScope agentID workspaceID = check (\<not> validID agentID \<or> \<not> validID workspaceID) ''agent and workspace IDs are required''"

definition chooseConfig :: "Config option \<Rightarrow> Config \<Rightarrow> ClassifiedError + Config" where
  "chooseConfig explicit fallback = (case explicit of
      None \<Rightarrow> Inr fallback
    | Some c \<Rightarrow> guardE (map_option (invalid ''session.model_config'') (Config_Validate c)) (Inr c))"

text \<open>The handle a client holds: the Session and the last revision it saw.\<close>

record memorySession =
  mses_id :: SessionID
  mses_revision :: Revision

definition newMemorySession :: "Snapshot \<Rightarrow> memorySession" where
  "newMemorySession s = \<lparr>mses_id = ses_ID (snap_Session s), mses_revision = snap_Revision s\<rparr>"

definition View :: "Ctx \<Rightarrow> memorySession \<Rightarrow> MemoryStore \<Rightarrow> (ClassifiedError + Snapshot) \<times> memorySession" where
  "View ctx h st = (case Load ctx (mses_id h) st of Inl e \<Rightarrow> (Inl e, h) | Inr s \<Rightarrow> (Inr s, h\<lparr>mses_revision := snap_Revision s\<rparr>))"

text \<open>What every operation does with the outcome of the store.\<close>

definition opened :: "(ClassifiedError + Snapshot) \<times> MemoryStore \<Rightarrow> Manager \<Rightarrow> (ClassifiedError + memorySession) \<times> Manager \<times> MemoryStore" where
  "opened r m = (case r of (Inl e, st) \<Rightarrow> (Inl e, m, st) | (Inr s, st) \<Rightarrow> (Inr (newMemorySession s), m, st))"

definition emptySession :: "SessionID \<Rightarrow> AgentID \<Rightarrow> WorkspaceID \<Rightarrow> Session" where
  "emptySession i agentID workspaceID =
     \<lparr>ses_ID = i, ses_AgentID = agentID, ses_WorkspaceID = workspaceID, ses_ParentSessionID = '''', ses_ParentRevision = 0, ses_Revision = 0\<rparr>"

definition idleSession :: "Session \<Rightarrow> HistoryFact list \<Rightarrow> Config \<Rightarrow> NewSession" where
  "idleSession s history config = \<lparr>new_Session = s, new_History = history, new_Context = zero_context, new_Queue = [], new_RunJournal = [],
     new_ModelConfig = config, new_RunState = RunIdle, new_ActiveRunID = '''', new_Fork = None\<rparr>"

definition Manager_Create :: "Env \<Rightarrow> Ctx \<Rightarrow> CreateRequest \<Rightarrow> Manager \<Rightarrow> MemoryStore \<Rightarrow> (ClassifiedError + memorySession) \<times> Manager \<times> MemoryStore" where
  "Manager_Create env ctx request m st =
     (case guardE (map_option (invalid ''session.manager.create'') (validateScope (cr_AgentID request) (cr_WorkspaceID request)))
             (chooseConfig (cr_ModelConfig request) (mgr_defaultConfig m)) of
        Inl e \<Rightarrow> (Inl e, m, st)
      | Inr config \<Rightarrow>
          let (i, m1) = nextID ''session'' m in
          opened (Create env ctx (idleSession (emptySession i (cr_AgentID request) (cr_WorkspaceID request)) [] config) st) m1)"

definition Manager_Resume :: "Env \<Rightarrow> Ctx \<Rightarrow> SessionID \<Rightarrow> Manager \<Rightarrow> MemoryStore \<Rightarrow> (ClassifiedError + memorySession) \<times> Manager \<times> MemoryStore" where
  "Manager_Resume env ctx i m st =
     (if \<not> validID i then (Inl (invalid ''session.manager.resume'' ''session ID is required''), m, st)
      else opened (Recover env ctx i st) m)"

section \<open>Forking\<close>

text \<open>
  Which facts a fork copies. The Go maps of \<^verbatim>\<open>validateForkProtocol\<close> are iterated in an open order; the first
  offending identifier in History order stands for the one the error names.
\<close>

definition completedForkBoundary :: "HistoryFact list \<Rightarrow> nat \<Rightarrow> RunID \<Rightarrow> bool" where
  "completedForkBoundary history index activeRunID =
     (let f = history ! index in
      if index = length history - 1 \<and> validID activeRunID \<and> fact_RunID f = activeRunID then False
      else if validID (fact_StepID f) then index = length history - 1 \<or> fact_StepID (history ! (index + 1)) \<noteq> fact_StepID f
      else (case fact_Run f of None \<Rightarrow> False | Some r \<Rightarrow> run_Kind r \<noteq> RunStarted))"

definition validateForkProtocol :: "HistoryFact list \<Rightarrow> string option" where
  "validateForkProtocol history =
     (let calls = map call_ID (List.map_filter fact_ToolCall history); results = map res_CallID (List.map_filter fact_ToolResult history);
          facts = List.map_filter fact_ModelAttempt history;
          attempts = map att_AttemptID (filter (\<lambda>a. att_Kind a = Attempt_Started) facts);
          terminals = map att_AttemptID (filter (\<lambda>a. att_Kind a \<noteq> Attempt_Started) facts) in
      case List.find (\<lambda>i. i \<notin> set results) calls of
        Some i \<Rightarrow> Some (''fork cutoff leaves tool call '' @ i @ '' unpaired'')
      | None \<Rightarrow> (case List.find (\<lambda>i. i \<notin> set terminals) attempts of
          Some i \<Rightarrow> Some (''fork cutoff leaves model attempt '' @ i @ '' unterminated'')
        | None \<Rightarrow> None))"

definition indexOfSequence :: "HistoryFact list \<Rightarrow> HistorySequence \<Rightarrow> nat option" where
  "indexOfSequence history n = List.find (\<lambda>i. fact_Sequence (history ! i) = n) [0..<length history]"

definition selectForkHistory :: "HistoryFact list \<Rightarrow> RunID \<Rightarrow> ForkMode \<Rightarrow> HistorySequence \<Rightarrow> ClassifiedError + HistorySequence \<times> HistoryFact list" where
  "selectForkHistory history activeRunID mode requested =
     (let op = ''session.manager.fork'' in
      if mode = ForkHistoryPrefix \<and> requested = 0 then Inr (0, [])
      else if history = [] then
        (if mode = ForkFullHistory then Inr (0, []) else Inl (invalid op ''fork cutoff does not exist''))
      else
        let cutoff = (if mode = ForkFullHistory then fact_Sequence (last history) else requested) in
        case indexOfSequence history cutoff of
          None \<Rightarrow> Inl (invalid op ''fork cutoff does not exist'')
        | Some end \<Rightarrow>
            if mode = ForkHistoryPrefix \<and> \<not> completedForkBoundary history end activeRunID
            then Inl (invalid op ''fork cutoff is not a completed Step boundary'')
            else guardE (map_option (invalid op) (validateForkProtocol (take (end + 1) history))) (Inr (cutoff, take (end + 1) history)))"

text \<open>New identifiers for the copied facts.\<close>

datatype IDKind = MessageIDs | CallIDs | RunIDs | StepIDs | AttemptIDs

definition kindText :: "IDKind \<Rightarrow> string" where
  "kindText k = (case k of MessageIDs \<Rightarrow> ''message'' | CallIDs \<Rightarrow> ''call'' | RunIDs \<Rightarrow> ''run'' | StepIDs \<Rightarrow> ''step'' | AttemptIDs \<Rightarrow> ''attempt'')"

definition keepsEmpty :: "IDKind \<Rightarrow> bool" where
  "keepsEmpty k \<longleftrightarrow> k = MessageIDs \<or> k = RunIDs \<or> k = StepIDs"

record ForkIDs =
  fk_ids :: "IDKind \<Rightarrow> string \<rightharpoonup> string"
  fk_manager :: Manager

definition mappedID :: "IDKind \<Rightarrow> string \<Rightarrow> (ForkIDs, string) state" where
  "mappedID k old =
     (if keepsEmpty k \<and> old = '''' then State_Monad.return ''''
      else State (\<lambda>s. case fk_ids s k old of
          Some i \<Rightarrow> (i, s)
        | None \<Rightarrow> let (i, m) = nextID (kindText k) (fk_manager s) in
            (i, \<lparr>fk_ids = (fk_ids s)(k := (fk_ids s k)(old \<mapsto> i)), fk_manager = m\<rparr>)))"

definition rewriteOpt :: "('a \<Rightarrow> (ForkIDs, 'a) state) \<Rightarrow> 'a option \<Rightarrow> (ForkIDs, 'a option) state" where
  "rewriteOpt f x = (case x of None \<Rightarrow> State_Monad.return None | Some y \<Rightarrow> do { z \<leftarrow> f y; State_Monad.return (Some z) })"

definition rewriteMessage :: "SessionID \<Rightarrow> Message \<Rightarrow> (ForkIDs, Message) state" where
  "rewriteMessage sid m = do {
     i \<leftarrow> mappedID MessageIDs (msg_ID m);
     r \<leftarrow> mappedID RunIDs (msg_RunID m);
     s \<leftarrow> mappedID StepIDs (msg_StepID m);
     State_Monad.return (m\<lparr>msg_ID := i, msg_SessionID := sid, msg_RunID := r, msg_StepID := s\<rparr>) }"

definition rewriteCall :: "SessionID \<Rightarrow> ToolCall \<Rightarrow> (ForkIDs, ToolCall) state" where
  "rewriteCall sid c = do {
     i \<leftarrow> mappedID CallIDs (call_ID c);
     m \<leftarrow> mappedID MessageIDs (call_MessageID c);
     r \<leftarrow> mappedID RunIDs (call_RunID c);
     s \<leftarrow> mappedID StepIDs (call_StepID c);
     State_Monad.return (c\<lparr>call_ID := i, call_SessionID := sid, call_MessageID := m, call_RunID := r, call_StepID := s\<rparr>) }"

definition rewriteResult :: "ToolResult \<Rightarrow> (ForkIDs, ToolResult) state" where
  "rewriteResult r = do { i \<leftarrow> mappedID CallIDs (res_CallID r); State_Monad.return (r\<lparr>res_CallID := i\<rparr>) }"

definition rewriteRun :: "SessionID \<Rightarrow> RunFact \<Rightarrow> (ForkIDs, RunFact) state" where
  "rewriteRun sid r = do { i \<leftarrow> mappedID RunIDs (run_RunID r); State_Monad.return (r\<lparr>run_SessionID := sid, run_RunID := i\<rparr>) }"

definition rewriteAttempt :: "ModelAttemptFact \<Rightarrow> (ForkIDs, ModelAttemptFact) state" where
  "rewriteAttempt a = do {
     i \<leftarrow> mappedID AttemptIDs (att_AttemptID a);
     r \<leftarrow> mappedID RunIDs (att_RunID a);
     s \<leftarrow> mappedID StepIDs (att_StepID a);
     State_Monad.return (a\<lparr>att_AttemptID := i, att_RunID := r, att_StepID := s\<rparr>) }"

definition rewriteForkInput :: "SessionID \<Rightarrow> Input \<Rightarrow> (ForkIDs, Input) state" where
  "rewriteForkInput sid x = do {
     m \<leftarrow> rewriteOpt (rewriteMessage sid) (inp_Message x);
     c \<leftarrow> rewriteOpt (rewriteCall sid) (inp_ToolCall x);
     r \<leftarrow> rewriteOpt rewriteResult (inp_ToolResult x);
     State_Monad.return (x\<lparr>inp_Message := m, inp_ToolCall := c, inp_ToolResult := r\<rparr>) }"

definition rewriteContribution :: "SessionID \<Rightarrow> ContextContributionFact \<Rightarrow> (ForkIDs, ContextContributionFact) state" where
  "rewriteContribution sid c = do {
     r \<leftarrow> mappedID RunIDs (ctr_RunID c);
     s \<leftarrow> mappedID StepIDs (ctr_StepID c);
     xs \<leftarrow> State_Monad.traverse_list (rewriteForkInput sid) (ctr_Inputs c);
     State_Monad.return (c\<lparr>ctr_RunID := r, ctr_StepID := s, ctr_Inputs := xs\<rparr>) }"

definition rewriteBudget :: "RunBudgetExceededFact \<Rightarrow> (ForkIDs, RunBudgetExceededFact) state" where
  "rewriteBudget b = do { r \<leftarrow> mappedID RunIDs (bex_RunID b); State_Monad.return (b\<lparr>bex_RunID := r\<rparr>) }"

definition triggerID :: "IDKind \<Rightarrow> string \<Rightarrow> (ForkIDs, string) state" where
  "triggerID k old = (if old = '''' then State_Monad.return '''' else mappedID k old)"

definition rewriteLimit :: "RunLimitExceededFact \<Rightarrow> (ForkIDs, RunLimitExceededFact) state" where
  "rewriteLimit l = do {
     r \<leftarrow> mappedID RunIDs (lim_RunID l);
     s \<leftarrow> mappedID StepIDs (lim_StepID l);
     a \<leftarrow> triggerID AttemptIDs (lim_TriggerAttemptID l);
     c \<leftarrow> triggerID CallIDs (lim_TriggerToolCallID l);
     State_Monad.return (l\<lparr>lim_RunID := r, lim_StepID := s, lim_TriggerAttemptID := a, lim_TriggerToolCallID := c\<rparr>) }"

definition rewriteFact :: "SessionID \<Rightarrow> HistoryFact \<Rightarrow> (ForkIDs, HistoryFact) state" where
  "rewriteFact sid f = do {
     m \<leftarrow> rewriteOpt (rewriteMessage sid) (fact_Message f);
     c \<leftarrow> rewriteOpt (rewriteCall sid) (fact_ToolCall f);
     r \<leftarrow> rewriteOpt rewriteResult (fact_ToolResult f);
     u \<leftarrow> rewriteOpt (rewriteRun sid) (fact_Run f);
     a \<leftarrow> rewriteOpt rewriteAttempt (fact_ModelAttempt f);
     x \<leftarrow> rewriteOpt (rewriteContribution sid) (fact_ContextContribution f);
     b \<leftarrow> rewriteOpt rewriteBudget (fact_RunBudgetExceeded f);
     l \<leftarrow> rewriteOpt rewriteLimit (fact_RunLimitExceeded f);
     State_Monad.return (f\<lparr>fact_OriginFactID := fact_FactID f, fact_Message := m, fact_ToolCall := c, fact_ToolResult := r, fact_Run := u,
       fact_ModelAttempt := a, fact_ContextContribution := x, fact_RunBudgetExceeded := b, fact_RunLimitExceeded := l\<rparr>) }"

definition rewriteHistory :: "SessionID \<Rightarrow> HistoryFact list \<Rightarrow> Manager \<Rightarrow> HistoryFact list \<times> Manager" where
  "rewriteHistory sid history m =
     (case run_state (State_Monad.traverse_list (rewriteFact sid) history) \<lparr>fk_ids = (\<lambda>_. Map.empty), fk_manager = m\<rparr> of
        (history', s) \<Rightarrow> (history', fk_manager s))"

definition rewriteForFork :: "Snapshot \<Rightarrow> SessionID \<Rightarrow> AgentID \<Rightarrow> WorkspaceID \<Rightarrow> Manager \<Rightarrow> Snapshot \<times> Manager" where
  "rewriteForFork source sid agentID workspaceID m =
     (case rewriteHistory sid (snap_History source) m of (history, m') \<Rightarrow>
        (source\<lparr>snap_History := history, snap_Context := zero_context, snap_RetainedContexts := [], snap_Queue := [], snap_RunJournal := [],
                snap_Events := [], snap_Session := emptySession sid agentID workspaceID, snap_Revision := 0, snap_RunState := RunIdle,
                snap_ActiveRunID := ''''\<rparr>, m'))"

definition forkRequestCheck :: "ForkRequest \<Rightarrow> ClassifiedError option" where
  "forkRequestCheck r =
     (let op = ''session.manager.fork'' in first_error
       [check (\<not> validID (fr_SourceSessionID r) \<or> \<not> validID (fr_AgentID r) \<or> \<not> validID (fr_WorkspaceID r)) (invalid op ''source session, agent, and workspace are required''),
        check (\<not> ForkMode_Valid (fr_Mode r)) (invalid op ''fork mode is required''),
        check (fr_Mode r = ForkFullHistory \<and> fr_CutoffSequence r \<noteq> 0) (invalid op ''full-history fork cannot specify a cutoff'')])"

definition forkSource :: "Ctx \<Rightarrow> ForkRequest \<Rightarrow> MemoryStore \<Rightarrow> ClassifiedError + Snapshot \<times> HistorySequence \<times> HistoryFact list \<times> Config" where
  "forkSource ctx r st = guardE (forkRequestCheck r) (bindE (Load ctx (fr_SourceSessionID r) st) (\<lambda>source.
     guardE (check (fr_Mode r = ForkFullHistory \<and> snap_RunState source = RunRunning)
         (NewCodedError ErrorConflict CodeActiveRun ''session.manager.fork'' ''cannot fork a session while a run is active''))
       (bindE (selectForkHistory (snap_History source) (snap_ActiveRunID source) (fr_Mode r) (fr_CutoffSequence r)) (\<lambda>(cutoff, history).
         bindE (chooseConfig (fr_ModelConfig r) (snap_ModelConfig source)) (\<lambda>config. Inr (source, cutoff, history, config))))))"

definition forkedSession :: "Snapshot \<Rightarrow> Snapshot \<Rightarrow> HistorySequence \<Rightarrow> Config \<Rightarrow> NewSession" where
  "forkedSession source derived cutoff config =
     \<lparr>new_Session = (snap_Session derived)\<lparr>ses_ParentSessionID := ses_ID (snap_Session source), ses_ParentRevision := snap_Revision source, ses_Revision := 0\<rparr>,
      new_History = snap_History derived, new_Context = snap_Context derived, new_Queue = snap_Queue derived, new_RunJournal = snap_RunJournal derived,
      new_ModelConfig = config, new_RunState = RunIdle, new_ActiveRunID = '''',
      new_Fork = Some \<lparr>fork_ParentSessionID = ses_ID (snap_Session source), fork_CutoffSequence = cutoff\<rparr>\<rparr>"

definition Manager_Fork :: "Env \<Rightarrow> Ctx \<Rightarrow> ForkRequest \<Rightarrow> Manager \<Rightarrow> MemoryStore \<Rightarrow> (ClassifiedError + memorySession) \<times> Manager \<times> MemoryStore" where
  "Manager_Fork env ctx r m st =
     (case forkSource ctx r st of
        Inl e \<Rightarrow> (Inl e, m, st)
      | Inr (source, cutoff, history, config) \<Rightarrow>
          let (i, m1) = nextID ''session'' m;
              (derived, m2) = rewriteForFork (source\<lparr>snap_History := history\<rparr>) i (fr_AgentID r) (fr_WorkspaceID r) m1 in
          opened (Create env ctx (forkedSession source derived cutoff config) st) m2)"

section \<open>Starting from a summary\<close>

record summaryParent =
  sp_fallback :: Config
  sp_parentID :: SessionID
  sp_parentRevision :: Revision

definition summaryParent_of :: "Ctx \<Rightarrow> SummaryRequest \<Rightarrow> Manager \<Rightarrow> MemoryStore \<Rightarrow> ClassifiedError + summaryParent" where
  "summaryParent_of ctx r m st =
     (if sr_SourceSessionID r = '''' then Inr \<lparr>sp_fallback = mgr_defaultConfig m, sp_parentID = '''', sp_parentRevision = 0\<rparr>
      else guardE (check (\<not> validID (sr_SourceSessionID r)) (invalid ''session.manager.summary'' ''source session ID is invalid''))
        (bindE (Load ctx (sr_SourceSessionID r) st) (\<lambda>source.
          Inr \<lparr>sp_fallback = snap_ModelConfig source, sp_parentID = ses_ID (snap_Session source), sp_parentRevision = snap_Revision source\<rparr>)))"

definition summaryMessage :: "SessionID \<Rightarrow> MessageID \<Rightarrow> MessageInput \<Rightarrow> HistoryFact" where
  "summaryMessage sid i x = zero_fact\<lparr>fact_Message := Some \<lparr>msg_ID = i, msg_ClientMessageID = '''', msg_SessionID = sid, msg_RunID = '''', msg_StepID = '''',
     msg_Role = RoleUser, msg_Parts = input_Parts x, msg_ModelContinuation = None, msg_CreatedAt = 0\<rparr>\<rparr>"

fun summaryHistory :: "SessionID \<Rightarrow> MessageInput list \<Rightarrow> Manager \<Rightarrow> (ClassifiedError + HistoryFact list) \<times> Manager" where
  "summaryHistory sid [] m = (Inr [], m)"
| "summaryHistory sid (x # xs) m =
     (if \<not> MessageInput_Valid x then (Inl (invalid ''session.manager.summary'' ''summary contains invalid message input''), m)
      else let (i, m1) = nextID ''message'' m in
        (case summaryHistory sid xs m1 of
           (Inl e, m2) \<Rightarrow> (Inl e, m2)
         | (Inr history, m2) \<Rightarrow> (Inr (summaryMessage sid i x # history), m2)))"

definition StartFromSummary :: "Env \<Rightarrow> Ctx \<Rightarrow> SummaryRequest \<Rightarrow> Manager \<Rightarrow> MemoryStore \<Rightarrow> (ClassifiedError + memorySession) \<times> Manager \<times> MemoryStore" where
  "StartFromSummary env ctx r m st =
     (case guardE (map_option (invalid ''session.manager.summary'') (validateScope (sr_AgentID r) (sr_WorkspaceID r)))
             (guardE (check (sr_Messages r = []) (invalid ''session.manager.summary'' ''at least one summary message is required''))
               (bindE (summaryParent_of ctx r m st) (\<lambda>p. bindE (chooseConfig (sr_ModelConfig r) (sp_fallback p)) (\<lambda>config. Inr (p, config))))) of
        Inl e \<Rightarrow> (Inl e, m, st)
      | Inr (p, config) \<Rightarrow>
          let (i, m1) = nextID ''session'' m in
          (case summaryHistory i (sr_Messages r) m1 of
             (Inl e, m2) \<Rightarrow> (Inl e, m2, st)
           | (Inr history, m2) \<Rightarrow>
               opened (Create env ctx (idleSession ((emptySession i (sr_AgentID r) (sr_WorkspaceID r))
                   \<lparr>ses_ParentSessionID := sp_parentID p, ses_ParentRevision := sp_parentRevision p\<rparr>) history config) st) m2))"

end
