(* ===== verification/Fork_Rename.thy ===== *)
theory Fork_Rename
  imports Session_Manager
begin

text \<open>
  The fork rewriting is a renaming. Each rewriting step of \<^verbatim>\<open>rewriteForFork\<close> is related to a pure function
  of a renaming, once and for all by rules for the state monad; the identifier maps only grow, hold one
  fresh identifier for every old one, and so rename injectively.
\<close>

section \<open>Growing identifier maps\<close>

text \<open>Every mapped identifier is a text of its own number, issued after number \<open>b\<close>.\<close>

definition ids_ok :: "nat \<Rightarrow> ForkIDs \<Rightarrow> bool" where
  "ids_ok b s \<longleftrightarrow> b \<le> mgr_sequence (fk_manager s) \<and> (\<exists>num. inj_on (case_prod num) {(k, i). i \<in> dom (fk_ids s k)} \<and>
     (\<forall>k i x. fk_ids s k i = Some x \<longrightarrow> x = idText (kindText k) (mgr_idPrefix (fk_manager s)) (num k i) \<and> b < num k i \<and> num k i \<le> mgr_sequence (fk_manager s)))"

definition grows :: "ForkIDs \<Rightarrow> ForkIDs \<Rightarrow> bool" where
  "grows s s' \<longleftrightarrow> (\<forall>k. fk_ids s k \<subseteq>\<^sub>m fk_ids s' k) \<and> (\<forall>b. ids_ok b s \<longrightarrow> ids_ok b s') \<and> mgr_idPrefix (fk_manager s') = mgr_idPrefix (fk_manager s) \<and>
     mgr_sequence (fk_manager s) \<le> mgr_sequence (fk_manager s')"

lemma grows_refl: "grows s s"
  by (simp add: grows_def)

lemma grows_trans: "grows s t \<Longrightarrow> grows t u \<Longrightarrow> grows s u"
  unfolding grows_def by (metis map_le_trans order_trans)

type_synonym renaming = "IDKind \<Rightarrow> string \<Rightarrow> string"

definition renaming_of :: "ForkIDs \<Rightarrow> renaming" where
  "renaming_of s k i = (if keepsEmpty k \<and> i = '''' then '''' else case fk_ids s k i of Some x \<Rightarrow> x | None \<Rightarrow> i)"

definition renames :: "(ForkIDs, 'a) state \<Rightarrow> (renaming \<Rightarrow> 'a) \<Rightarrow> (IDKind \<times> string) list \<Rightarrow> bool" where
  "renames A P D \<longleftrightarrow> (\<forall>s x s'. run_state A s = (x, s') \<longrightarrow> grows s s' \<and>
     (\<forall>t. grows s' t \<longrightarrow> x = P (renaming_of t) \<and> (\<forall>(k, i) \<in> set D. i \<noteq> '''' \<longrightarrow> i \<in> dom (fk_ids t k))))"

named_theorems renames_rules

lemma renames_return [renames_rules]: "renames (State_Monad.return x) (\<lambda>\<rho>. x) []"
  by (simp add: renames_def State_Monad.return_def grows_refl)

lemma renames_bind [renames_rules]:
  assumes "renames A P D" "\<And>x. renames (B x) (Q x) E"
  shows "renames (A \<bind> B) (\<lambda>\<rho>. Q (P \<rho>) \<rho>) (D @ E)"
  unfolding renames_def
proof (intro allI impI)
  fix s y s' assume "run_state (A \<bind> B) s = (y, s')"
  then obtain x s1 where r: "run_state A s = (x, s1)" "run_state (B x) s1 = (y, s')" by (auto simp: State_Monad.bind_def split: prod.splits)
  have a: "grows s s1" "\<And>t. grows s1 t \<Longrightarrow> x = P (renaming_of t)" "\<And>t. grows s1 t \<Longrightarrow> \<forall>(k, i)\<in>set D. i \<noteq> '''' \<longrightarrow> i \<in> dom (fk_ids t k)"
    using assms(1) r(1) unfolding renames_def by blast+
  have b: "grows s1 s'" "\<And>t. grows s' t \<Longrightarrow> y = Q x (renaming_of t)" "\<And>t. grows s' t \<Longrightarrow> \<forall>(k, i)\<in>set E. i \<noteq> '''' \<longrightarrow> i \<in> dom (fk_ids t k)"
    using assms(2) r(2) unfolding renames_def by blast+
  have "y = Q (P (renaming_of t)) (renaming_of t) \<and> (\<forall>(k, i)\<in>set (D @ E). i \<noteq> '''' \<longrightarrow> i \<in> dom (fk_ids t k))" if "grows s' t" for t
  proof -
    have g: "grows s1 t" using b(1) that by (rule grows_trans)
    show ?thesis using a(2) [OF g] b(2) [OF that] a(3) [OF g] b(3) [OF that] by (simp add: ball_Un)
  qed
  then show "grows s s' \<and> (\<forall>t. grows s' t \<longrightarrow> y = Q (P (renaming_of t)) (renaming_of t) \<and> (\<forall>(k, i)\<in>set (D @ E). i \<noteq> '''' \<longrightarrow> i \<in> dom (fk_ids t k)))"
    using grows_trans [OF a(1) b(1)] by blast
qed

lemma renames_cong: "renames A P D \<Longrightarrow> P = P' \<Longrightarrow> D = D' \<Longrightarrow> renames A P' D'"
  by simp

lemma ids_ok_fresh:
  assumes "ids_ok b s" "fk_ids s k old = None" "nextID (kindText k) (fk_manager s) = (x, m)"
  shows "ids_ok b \<lparr>fk_ids = (fk_ids s)(k := (fk_ids s k)(old \<mapsto> x)), fk_manager = m\<rparr>"
proof -
  let ?n = "mgr_sequence (fk_manager s) + 1"
  from assms(1) obtain num where num: "inj_on (case_prod num) {(k, i). i \<in> dom (fk_ids s k)}" "b \<le> mgr_sequence (fk_manager s)"
    "\<And>k i x. fk_ids s k i = Some x \<Longrightarrow> x = idText (kindText k) (mgr_idPrefix (fk_manager s)) (num k i) \<and> b < num k i \<and> num k i < ?n"
    unfolding ids_ok_def by (metis add.commute le_imp_less_Suc plus_1_eq_Suc)
  define num' where "num' = num(k := (num k)(old := ?n))"
  have d: "{(k', i). i \<in> dom (((fk_ids s)(k := (fk_ids s k)(old \<mapsto> x))) k')} = insert (k, old) {(k, i). i \<in> dom (fk_ids s k)}"
    by (auto split: if_splits)
  have same: "case_prod num' p = case_prod num p" if "p \<in> {(k, i). i \<in> dom (fk_ids s k)}" for p using that assms(2) by (auto simp: num'_def)
  have "inj_on (case_prod num') {(k, i). i \<in> dom (fk_ids s k)}" using num(1) same by (simp add: inj_on_def)
  moreover have "case_prod num' (k, old) \<notin> case_prod num' ` {(k, i). i \<in> dom (fk_ids s k)}"
    using num(3) same by (fastforce simp: num'_def)
  ultimately have "inj_on (case_prod num') (insert (k, old) {(k, i). i \<in> dom (fk_ids s k)})" unfolding inj_on_insert by blast
  then show ?thesis unfolding ids_ok_def using num(2,3) assms(3) d
    by (intro conjI exI [where x = num']) (auto simp: nextID_def Let_def num'_def split: if_splits dest!: num(3))
qed

lemma renames_mappedID [renames_rules]: "renames (mappedID k old) (\<lambda>\<rho>. \<rho> k old) [(k, old)]"
  unfolding renames_def
proof (intro allI impI)
  fix s x s' assume r: "run_state (mappedID k old) s = (x, s')"
  show "grows s s' \<and> (\<forall>t. grows s' t \<longrightarrow> x = renaming_of t k old \<and> (\<forall>(k, i)\<in>set [(k, old)]. i \<noteq> '''' \<longrightarrow> i \<in> dom (fk_ids t k)))"
  proof (cases "keepsEmpty k \<and> old = ''''")
    case True
    then show ?thesis using r by (auto simp: mappedID_def State_Monad.return_def grows_refl renaming_of_def)
  next
    case False
    have "grows s s' \<and> fk_ids s' k old = Some x"
    proof (cases "fk_ids s k old")
      case (Some i)
      then show ?thesis using r False by (auto simp: mappedID_def grows_refl)
    next
      case None
      obtain i m where n: "nextID (kindText k) (fk_manager s) = (i, m)" by fastforce
      have s': "s' = \<lparr>fk_ids = (fk_ids s)(k := (fk_ids s k)(old \<mapsto> i)), fk_manager = m\<rparr>" "x = i" using r False None n by (auto simp: mappedID_def)
      moreover have "fk_ids s k \<subseteq>\<^sub>m (fk_ids s k)(old \<mapsto> i)" using None by (auto simp: map_le_def)
      ultimately show ?thesis using ids_ok_fresh [OF _ None n] n by (auto simp: grows_def nextID_def Let_def)
    qed
    then have "fk_ids t k old = Some x" if "grows s' t" for t using that unfolding grows_def by (metis domI map_le_def)
    then show ?thesis using False \<open>grows s s' \<and> _\<close> by (auto simp: renaming_of_def)
  qed
qed

section \<open>The rewriting as a pure function\<close>

definition renameMessage :: "SessionID \<Rightarrow> renaming \<Rightarrow> Message \<Rightarrow> Message" where
  "renameMessage sid \<rho> m = m\<lparr>msg_ID := \<rho> MessageIDs (msg_ID m), msg_SessionID := sid, msg_RunID := \<rho> RunIDs (msg_RunID m), msg_StepID := \<rho> StepIDs (msg_StepID m)\<rparr>"

definition renameCall :: "SessionID \<Rightarrow> renaming \<Rightarrow> ToolCall \<Rightarrow> ToolCall" where
  "renameCall sid \<rho> c = c\<lparr>call_ID := \<rho> CallIDs (call_ID c), call_SessionID := sid, call_MessageID := \<rho> MessageIDs (call_MessageID c),
     call_RunID := \<rho> RunIDs (call_RunID c), call_StepID := \<rho> StepIDs (call_StepID c)\<rparr>"

definition renameResult :: "renaming \<Rightarrow> ToolResult \<Rightarrow> ToolResult" where
  "renameResult \<rho> r = r\<lparr>res_CallID := \<rho> CallIDs (res_CallID r)\<rparr>"

definition renameRun :: "SessionID \<Rightarrow> renaming \<Rightarrow> RunFact \<Rightarrow> RunFact" where
  "renameRun sid \<rho> r = r\<lparr>run_SessionID := sid, run_RunID := \<rho> RunIDs (run_RunID r)\<rparr>"

definition renameAttempt :: "renaming \<Rightarrow> ModelAttemptFact \<Rightarrow> ModelAttemptFact" where
  "renameAttempt \<rho> a = a\<lparr>att_AttemptID := \<rho> AttemptIDs (att_AttemptID a), att_RunID := \<rho> RunIDs (att_RunID a), att_StepID := \<rho> StepIDs (att_StepID a)\<rparr>"

definition renameInput :: "SessionID \<Rightarrow> renaming \<Rightarrow> Input \<Rightarrow> Input" where
  "renameInput sid \<rho> x = x\<lparr>inp_Message := map_option (renameMessage sid \<rho>) (inp_Message x), inp_ToolCall := map_option (renameCall sid \<rho>) (inp_ToolCall x),
     inp_ToolResult := map_option (renameResult \<rho>) (inp_ToolResult x)\<rparr>"

definition renameContribution :: "SessionID \<Rightarrow> renaming \<Rightarrow> ContextContributionFact \<Rightarrow> ContextContributionFact" where
  "renameContribution sid \<rho> c = c\<lparr>ctr_RunID := \<rho> RunIDs (ctr_RunID c), ctr_StepID := \<rho> StepIDs (ctr_StepID c), ctr_Inputs := map (renameInput sid \<rho>) (ctr_Inputs c)\<rparr>"

definition renameBudget :: "renaming \<Rightarrow> RunBudgetExceededFact \<Rightarrow> RunBudgetExceededFact" where
  "renameBudget \<rho> b = b\<lparr>bex_RunID := \<rho> RunIDs (bex_RunID b)\<rparr>"

definition renameTrigger :: "renaming \<Rightarrow> IDKind \<Rightarrow> string \<Rightarrow> string" where
  "renameTrigger \<rho> k i = (if i = '''' then '''' else \<rho> k i)"

definition renameLimit :: "renaming \<Rightarrow> RunLimitExceededFact \<Rightarrow> RunLimitExceededFact" where
  "renameLimit \<rho> l = l\<lparr>lim_RunID := \<rho> RunIDs (lim_RunID l), lim_StepID := \<rho> StepIDs (lim_StepID l),
     lim_TriggerAttemptID := renameTrigger \<rho> AttemptIDs (lim_TriggerAttemptID l), lim_TriggerToolCallID := renameTrigger \<rho> CallIDs (lim_TriggerToolCallID l)\<rparr>"

definition renameFact :: "SessionID \<Rightarrow> renaming \<Rightarrow> HistoryFact \<Rightarrow> HistoryFact" where
  "renameFact sid \<rho> f = f\<lparr>fact_OriginFactID := fact_FactID f, fact_Message := map_option (renameMessage sid \<rho>) (fact_Message f),
     fact_ToolCall := map_option (renameCall sid \<rho>) (fact_ToolCall f), fact_ToolResult := map_option (renameResult \<rho>) (fact_ToolResult f),
     fact_Run := map_option (renameRun sid \<rho>) (fact_Run f), fact_ModelAttempt := map_option (renameAttempt \<rho>) (fact_ModelAttempt f),
     fact_ContextContribution := map_option (renameContribution sid \<rho>) (fact_ContextContribution f),
     fact_RunBudgetExceeded := map_option (renameBudget \<rho>) (fact_RunBudgetExceeded f), fact_RunLimitExceeded := map_option (renameLimit \<rho>) (fact_RunLimitExceeded f)\<rparr>"

text \<open>The identifiers that occur, by kind.\<close>

definition messageOcc :: "Message \<Rightarrow> (IDKind \<times> string) list" where
  "messageOcc m = [(MessageIDs, msg_ID m), (RunIDs, msg_RunID m), (StepIDs, msg_StepID m)]"

definition callOcc :: "ToolCall \<Rightarrow> (IDKind \<times> string) list" where
  "callOcc c = [(CallIDs, call_ID c), (MessageIDs, call_MessageID c), (RunIDs, call_RunID c), (StepIDs, call_StepID c)]"

definition optOcc :: "('a \<Rightarrow> (IDKind \<times> string) list) \<Rightarrow> 'a option \<Rightarrow> (IDKind \<times> string) list" where
  "optOcc f x = (case x of None \<Rightarrow> [] | Some y \<Rightarrow> f y)"

definition inputOcc :: "Input \<Rightarrow> (IDKind \<times> string) list" where
  "inputOcc x = optOcc messageOcc (inp_Message x) @ optOcc callOcc (inp_ToolCall x) @ optOcc (\<lambda>r. [(CallIDs, res_CallID r)]) (inp_ToolResult x)"

definition factOcc :: "HistoryFact \<Rightarrow> (IDKind \<times> string) list" where
  "factOcc f = optOcc messageOcc (fact_Message f) @ optOcc callOcc (fact_ToolCall f) @ optOcc (\<lambda>r. [(CallIDs, res_CallID r)]) (fact_ToolResult f) @
     optOcc (\<lambda>r. [(RunIDs, run_RunID r)]) (fact_Run f) @
     optOcc (\<lambda>a. [(AttemptIDs, att_AttemptID a), (RunIDs, att_RunID a), (StepIDs, att_StepID a)]) (fact_ModelAttempt f) @
     optOcc (\<lambda>c. (RunIDs, ctr_RunID c) # (StepIDs, ctr_StepID c) # concat (map inputOcc (ctr_Inputs c))) (fact_ContextContribution f) @
     optOcc (\<lambda>b. [(RunIDs, bex_RunID b)]) (fact_RunBudgetExceeded f) @
     optOcc (\<lambda>l. [(RunIDs, lim_RunID l), (StepIDs, lim_StepID l), (AttemptIDs, lim_TriggerAttemptID l), (CallIDs, lim_TriggerToolCallID l)]) (fact_RunLimitExceeded f)"

lemma renames_opt [renames_rules]:
  assumes "\<And>y. renames (f y) (\<lambda>\<rho>. g \<rho> y) (D y)"
  shows "renames (rewriteOpt f x) (\<lambda>\<rho>. map_option (g \<rho>) x) (optOcc D x)"
proof (cases x)
  case None
  then show ?thesis using renames_return [of "None :: 'a option"] by (simp add: rewriteOpt_def optOcc_def)
next
  case (Some y)
  then show ?thesis using renames_bind [OF assms [of y] renames_return [of "Some z" for z]] by (simp add: rewriteOpt_def optOcc_def)
qed

lemma renames_traverse [renames_rules]:
  assumes "\<And>y. renames (f y) (\<lambda>\<rho>. g \<rho> y) (D y)"
  shows "renames (State_Monad.traverse_list f xs) (\<lambda>\<rho>. map (g \<rho>) xs) (concat (map D xs))"
proof (induction xs)
  case Nil
  show ?case using renames_return [of "[]"] by simp
next
  case (Cons y ys)
  have "renames (State_Monad.traverse_list f (y # ys)) (\<lambda>\<rho>. g \<rho> y # map (g \<rho>) ys) (D y @ (concat (map D ys) @ []))"
    unfolding traverse_list.simps by (rule renames_bind [OF assms]) (rule renames_bind [OF Cons.IH], rule renames_return)
  then show ?case by simp
qed

lemma renames_triggerID [renames_rules]: "renames (triggerID k i) (\<lambda>\<rho>. renameTrigger \<rho> k i) [(k, i)]"
  using renames_mappedID [of k i] renames_return [of "''''"] by (auto simp: triggerID_def renameTrigger_def renames_def)

lemma renames_message [renames_rules]: "renames (rewriteMessage sid m) (\<lambda>\<rho>. renameMessage sid \<rho> m) (messageOcc m)"
  unfolding rewriteMessage_def by (rule renames_cong, (rule renames_rules)+) (simp_all add: renameMessage_def messageOcc_def)

lemma renames_call [renames_rules]: "renames (rewriteCall sid c) (\<lambda>\<rho>. renameCall sid \<rho> c) (callOcc c)"
  unfolding rewriteCall_def by (rule renames_cong, (rule renames_rules)+) (simp_all add: renameCall_def callOcc_def)

lemma renames_result [renames_rules]: "renames (rewriteResult r) (\<lambda>\<rho>. renameResult \<rho> r) [(CallIDs, res_CallID r)]"
  unfolding rewriteResult_def by (rule renames_cong, (rule renames_rules)+) (simp_all add: renameResult_def)

lemma renames_run [renames_rules]: "renames (rewriteRun sid r) (\<lambda>\<rho>. renameRun sid \<rho> r) [(RunIDs, run_RunID r)]"
  unfolding rewriteRun_def by (rule renames_cong, (rule renames_rules)+) (simp_all add: renameRun_def)

lemma renames_attempt [renames_rules]:
  "renames (rewriteAttempt a) (\<lambda>\<rho>. renameAttempt \<rho> a) [(AttemptIDs, att_AttemptID a), (RunIDs, att_RunID a), (StepIDs, att_StepID a)]"
  unfolding rewriteAttempt_def by (rule renames_cong, (rule renames_rules)+) (simp_all add: renameAttempt_def)

lemma renames_input [renames_rules]: "renames (rewriteForkInput sid x) (\<lambda>\<rho>. renameInput sid \<rho> x) (inputOcc x)"
  unfolding rewriteForkInput_def by (rule renames_cong, (rule renames_rules)+) (simp_all add: renameInput_def inputOcc_def)

lemma renames_contribution [renames_rules]:
  "renames (rewriteContribution sid c) (\<lambda>\<rho>. renameContribution sid \<rho> c) ((RunIDs, ctr_RunID c) # (StepIDs, ctr_StepID c) # concat (map inputOcc (ctr_Inputs c)))"
  unfolding rewriteContribution_def by (rule renames_cong, (rule renames_rules)+) (simp_all add: renameContribution_def)

lemma renames_budget [renames_rules]: "renames (rewriteBudget b) (\<lambda>\<rho>. renameBudget \<rho> b) [(RunIDs, bex_RunID b)]"
  unfolding rewriteBudget_def by (rule renames_cong, (rule renames_rules)+) (simp_all add: renameBudget_def)

lemma renames_limit [renames_rules]:
  "renames (rewriteLimit l) (\<lambda>\<rho>. renameLimit \<rho> l)
     [(RunIDs, lim_RunID l), (StepIDs, lim_StepID l), (AttemptIDs, lim_TriggerAttemptID l), (CallIDs, lim_TriggerToolCallID l)]"
  unfolding rewriteLimit_def by (rule renames_cong, (rule renames_rules)+) (simp_all add: renameLimit_def)

lemma renames_fact [renames_rules]: "renames (rewriteFact sid f) (\<lambda>\<rho>. renameFact sid \<rho> f) (factOcc f)"
  unfolding rewriteFact_def by (rule renames_cong, (rule renames_rules)+) (simp_all add: renameFact_def factOcc_def)

section \<open>The rewritten History\<close>

text \<open>The renaming of a rewriting: what it does to the identifiers that occur.\<close>

definition fresh_renaming :: "Manager \<Rightarrow> Manager \<Rightarrow> (IDKind \<times> string) set \<Rightarrow> renaming \<Rightarrow> bool" where
  "fresh_renaming m m' occ \<rho> \<longleftrightarrow> (\<forall>k. keepsEmpty k \<longrightarrow> \<rho> k '''' = '''') \<and> (\<forall>k. inj_on (\<rho> k) {i. i \<noteq> '''' \<and> (k, i) \<in> occ}) \<and>
     (\<forall>k i. i \<noteq> '''' \<and> (k, i) \<in> occ \<longrightarrow> (\<exists>n. \<rho> k i = idText (kindText k) (mgr_idPrefix m) n \<and> mgr_sequence m < n \<and> n \<le> mgr_sequence m'))"

lemma idText_inject: "m < 2 ^ 64 \<Longrightarrow> n < 2 ^ 64 \<Longrightarrow> idText k p m = idText k p n \<Longrightarrow> m = n"
  by (simp add: idText_def)

lemma ids_ok_fresh_renaming:
  assumes "ids_ok (mgr_sequence m) s" "mgr_idPrefix (fk_manager s) = mgr_idPrefix m" "mgr_sequence (fk_manager s) < 2 ^ 64"
    "\<forall>(k, i)\<in>occ. i \<noteq> '''' \<longrightarrow> i \<in> dom (fk_ids s k)"
  shows "fresh_renaming m (fk_manager s) occ (renaming_of s)"
proof -
  from assms(1,2) obtain num where num: "inj_on (case_prod num) {(k, i). i \<in> dom (fk_ids s k)}"
    "\<And>k i x. fk_ids s k i = Some x \<Longrightarrow> x = idText (kindText k) (mgr_idPrefix m) (num k i) \<and> mgr_sequence m < num k i \<and> num k i \<le> mgr_sequence (fk_manager s)"
    unfolding ids_ok_def by auto
  have r: "renaming_of s k i = idText (kindText k) (mgr_idPrefix m) (num k i) \<and> mgr_sequence m < num k i \<and> num k i \<le> mgr_sequence (fk_manager s) \<and> i \<in> dom (fk_ids s k)"
    if occ: "i \<noteq> ''''" "(k, i) \<in> occ" for k i
  proof -
    obtain x where "fk_ids s k i = Some x" using bspec [OF assms(4) occ(2)] occ(1) by auto
    then show ?thesis using num(2) [of k i x] occ(1) by (auto simp: renaming_of_def)
  qed
  have "i = j" if a: "i \<noteq> ''''" "(k, i) \<in> occ" "j \<noteq> ''''" "(k, j) \<in> occ" "renaming_of s k i = renaming_of s k j" for k i j
  proof -
    have "num k i < 2 ^ 64" "num k j < 2 ^ 64" using r [OF a(1,2)] r [OF a(3,4)] assms(3) by linarith+
    moreover have "idText (kindText k) (mgr_idPrefix m) (num k i) = idText (kindText k) (mgr_idPrefix m) (num k j)" using r [OF a(1,2)] r [OF a(3,4)] a(5) by simp
    ultimately have "num k i = num k j" by (rule idText_inject)
    then show ?thesis using inj_onD [OF num(1), of "(k, i)" "(k, j)"] r [OF a(1,2)] r [OF a(3,4)] by simp
  qed
  then have "inj_on (renaming_of s k) {i. i \<noteq> '''' \<and> (k, i) \<in> occ}" for k by (auto simp: inj_on_def)
  moreover have "\<forall>k. keepsEmpty k \<longrightarrow> renaming_of s k '''' = ''''" by (simp add: renaming_of_def)
  moreover have "\<exists>n. renaming_of s k i = idText (kindText k) (mgr_idPrefix m) n \<and> mgr_sequence m < n \<and> n \<le> mgr_sequence (fk_manager s)"
    if "i \<noteq> '''' \<and> (k, i) \<in> occ" for k i using r [of i k] that by (intro exI [of _ "num k i"]) simp
  ultimately show ?thesis by (simp add: fresh_renaming_def)
qed

lemma rewriteHistory_renames:
  assumes "rewriteHistory sid history m = (history', m')" "mgr_sequence m' < 2 ^ 64"
  shows "\<exists>\<rho>. history' = map (renameFact sid \<rho>) history \<and> fresh_renaming m m' (set (concat (map factOcc history))) \<rho>"
proof -
  let ?s = "\<lparr>fk_ids = (\<lambda>_. Map.empty), fk_manager = m\<rparr>"
  obtain s' where r: "run_state (State_Monad.traverse_list (rewriteFact sid) history) ?s = (history', s')" "m' = fk_manager s'"
    using assms(1) by (auto simp: rewriteHistory_def split: prod.splits)
  have "renames (State_Monad.traverse_list (rewriteFact sid) history) (\<lambda>\<rho>. map (renameFact sid \<rho>) history) (concat (map factOcc history))"
    by (rule renames_traverse) (rule renames_fact)
  then have g: "grows ?s s'" "history' = map (renameFact sid (renaming_of s')) history"
    "\<forall>(k, i)\<in>set (concat (map factOcc history)). i \<noteq> '''' \<longrightarrow> i \<in> dom (fk_ids s' k)"
    using r(1) grows_refl [of s'] unfolding renames_def by blast+
  have "ids_ok (mgr_sequence m) ?s" by (simp add: ids_ok_def)
  then have "ids_ok (mgr_sequence m) s'" using g(1) by (simp add: grows_def)
  moreover have "mgr_idPrefix (fk_manager s') = mgr_idPrefix m" using g(1) by (simp add: grows_def)
  ultimately show ?thesis using ids_ok_fresh_renaming [of m s'] g(2,3) assms(2) r(2) by blast
qed

lemma rewriteHistory_length: "rewriteHistory sid history m = (history', m') \<Longrightarrow> length history' = length history"
proof -
  have "renames (State_Monad.traverse_list (rewriteFact sid) history) (\<lambda>\<rho>. map (renameFact sid \<rho>) history) (concat (map factOcc history))"
    by (rule renames_traverse) (rule renames_fact)
  then show "length history' = length history" if "rewriteHistory sid history m = (history', m')"
    using that grows_refl unfolding renames_def by (fastforce simp: rewriteHistory_def split: prod.splits)
qed

end
