(* ===== verification/Fork_Guarantees.thy ===== *)
theory Fork_Guarantees
  imports Fork_Rename Session_Guarantees
begin

text \<open>
  What the Session manager guarantees: a fork is a faithful, freshly renamed copy of a protocol-complete
  prefix, it leaves every other Session alone, and it is accepted whenever the copied prefix is consistent;
  a summary start records exactly the given messages.
\<close>

section \<open>Selecting the prefix\<close>

lemma indexOfSequence_ok:
  assumes "envelope_ok sid history" "indexOfSequence history n = Some k"
  shows "n = k + 1 \<and> k < length history"
  using assms by (auto simp: indexOfSequence_def envelope_ok_def find_Some_iff)

lemma indexOfSequence_last: "envelope_ok sid history \<Longrightarrow> history \<noteq> [] \<Longrightarrow> fact_Sequence (last history) = length history"
  by (simp add: last_conv_nth envelope_ok_def)

text \<open>Nothing of the protocol is left open in a prefix.\<close>

definition protocol_complete :: "HistoryFact list \<Rightarrow> bool" where
  "protocol_complete h \<longleftrightarrow> (\<forall>c\<in>set (List.map_filter fact_ToolCall h). \<exists>r\<in>set (List.map_filter fact_ToolResult h). res_CallID r = call_ID c) \<and>
     (\<forall>a\<in>set (List.map_filter fact_ModelAttempt h). \<exists>t\<in>set (List.map_filter fact_ModelAttempt h). att_AttemptID t = att_AttemptID a \<and> att_Kind t \<noteq> Attempt_Started)"

lemma validateForkProtocol_complete:
  assumes "validateForkProtocol h = None"
  shows "protocol_complete h"
proof -
  have c: "call_ID ` set (List.map_filter fact_ToolCall h) \<subseteq> res_CallID ` set (List.map_filter fact_ToolResult h)"
    and a: "att_AttemptID ` {x \<in> set (List.map_filter fact_ModelAttempt h). att_Kind x = Attempt_Started} \<subseteq>
      att_AttemptID ` {x \<in> set (List.map_filter fact_ModelAttempt h). att_Kind x \<noteq> Attempt_Started}"
    using assms by (auto simp: validateForkProtocol_def Let_def find_None_iff_all split: option.splits)
  have "\<exists>t\<in>set (List.map_filter fact_ModelAttempt h). att_AttemptID t = att_AttemptID x \<and> att_Kind t \<noteq> Attempt_Started" if "x \<in> set (List.map_filter fact_ModelAttempt h)" for x
    using subsetD [OF a, of "att_AttemptID x"] that by (cases "att_Kind x = Attempt_Started") auto
  moreover have "\<exists>r\<in>set (List.map_filter fact_ToolResult h). res_CallID r = call_ID x" if "x \<in> set (List.map_filter fact_ToolCall h)" for x
    using subsetD [OF c, of "call_ID x"] that by auto
  ultimately show ?thesis unfolding protocol_complete_def by blast
qed

text \<open>A cutoff ends a step, or a run.\<close>

definition step_boundary :: "HistoryFact list \<Rightarrow> nat \<Rightarrow> bool" where
  "step_boundary h n \<longleftrightarrow> n = 0 \<or> n = length h \<or> (n < length h \<and>
     (if validID (fact_StepID (h ! (n - 1))) then fact_StepID (h ! n) \<noteq> fact_StepID (h ! (n - 1))
      else \<exists>r. fact_Run (h ! (n - 1)) = Some r \<and> run_Kind r \<noteq> RunStarted))"

lemma selectForkHistory_Inr:
  assumes "selectForkHistory h active mode n = Inr (cutoff, copied)" "envelope_ok sid h" "ForkMode_Valid mode"
  shows "cutoff \<le> length h \<and> copied = take cutoff h \<and> protocol_complete copied \<and> step_boundary h cutoff \<and> cutoff = (if mode = ForkFullHistory then length h else n)"
proof -
  consider (none) "mode = ForkHistoryPrefix" "n = 0" "cutoff = 0" "copied = []" | (empty) "h = []" "mode = ForkFullHistory" "cutoff = 0" "copied = []"
    | (some) k where "h \<noteq> []" "cutoff = (if mode = ForkFullHistory then fact_Sequence (last h) else n)" "indexOfSequence h cutoff = Some k"
        "mode = ForkHistoryPrefix \<longrightarrow> completedForkBoundary h k active" "validateForkProtocol (take (k + 1) h) = None" "copied = take (k + 1) h"
  proof (cases "mode = ForkHistoryPrefix \<and> n = 0 \<or> h = []")
    case True
    then show thesis using assms(1) none empty by (auto simp: selectForkHistory_def Let_def split: if_splits)
  next
    case False
    then have np: "(mode = ForkHistoryPrefix \<and> n = 0) = False" by blast
    let ?c = "if mode = ForkFullHistory then fact_Sequence (last h) else n"
    obtain k where k: "indexOfSequence h ?c = Some k" using assms(1) False by (cases "indexOfSequence h ?c") (auto simp: selectForkHistory_def Let_def simp del: if_split)
    have eq: "selectForkHistory h active mode n = (if mode = ForkHistoryPrefix \<and> \<not> completedForkBoundary h k active
        then Inl (invalid ''session.manager.fork'' ''fork cutoff is not a completed Step boundary'')
        else guardE (map_option (invalid ''session.manager.fork'') (validateForkProtocol (take (k + 1) h))) (Inr (?c, take (k + 1) h)))"
      unfolding selectForkHistory_def Let_def np using False k by (simp split del: if_split)
    have "(mode = ForkHistoryPrefix \<longrightarrow> completedForkBoundary h k active) \<and> validateForkProtocol (take (k + 1) h) = None \<and> cutoff = ?c \<and> copied = take (k + 1) h"
      using assms(1) unfolding eq by (auto simp del: Suc_eq_plus1 split: if_split_asm)
    then show thesis using False k some [of k] by blast
  qed
  then show ?thesis
  proof cases
    case none
    then show ?thesis by (simp add: protocol_complete_def step_boundary_def)
  next
    case empty
    then show ?thesis by (simp add: protocol_complete_def step_boundary_def)
  next
    case (some k)
    have k: "cutoff = k + 1" "k < length h" using indexOfSequence_ok [OF assms(2) some(3)] by simp_all
    have c: "cutoff = (if mode = ForkFullHistory then length h else n)" using some(2) indexOfSequence_last [OF assms(2) some(1)] by simp
    have "step_boundary h cutoff"
    proof (cases "mode = ForkFullHistory \<or> cutoff = length h")
      case True
      then show ?thesis using c by (auto simp: step_boundary_def)
    next
      case False
      then have "completedForkBoundary h k active" "k + 1 < length h" using some(4) assms(3) k by (auto simp: ForkMode_Valid_def)
      then show ?thesis using k by (auto simp: step_boundary_def completedForkBoundary_def Let_def split: if_splits option.splits)
    qed
    then show ?thesis using k c some(5,6) validateForkProtocol_complete by auto
  qed
qed

section \<open>Forks are copies\<close>

text \<open>What a fork promises of the child \<open>c\<close> of the source \<open>s\<close>, for a request and a renaming of identifiers.\<close>

definition fork_of :: "ForkRequest \<Rightarrow> SessionID \<Rightarrow> renaming \<Rightarrow> Snapshot \<Rightarrow> Snapshot \<Rightarrow> bool" where
  "fork_of r i \<rho> s c \<longleftrightarrow>
     (let n = length (snap_History c) in
      n = (if fr_Mode r = ForkFullHistory then length (snap_History s) else fr_CutoffSequence r) \<and> n \<le> length (snap_History s) \<and>
      map clearEnvelope (snap_History c) = map (clearEnvelope \<circ> renameFact i \<rho>) (take n (snap_History s)) \<and>
      protocol_complete (take n (snap_History s)) \<and> step_boundary (snap_History s) n \<and>
      snap_Fork c = Some \<lparr>fork_ParentSessionID = fr_SourceSessionID r, fork_CutoffSequence = n\<rparr> \<and>
      snap_Session c = \<lparr>ses_ID = i, ses_AgentID = fr_AgentID r, ses_WorkspaceID = fr_WorkspaceID r, ses_ParentSessionID = fr_SourceSessionID r,
        ses_ParentRevision = snap_Revision s, ses_Revision = 1\<rparr> \<and>
      snap_ModelConfig c = (case fr_ModelConfig r of Some x \<Rightarrow> x | None \<Rightarrow> snap_ModelConfig s) \<and>
      snap_RunState c = RunIdle \<and> snap_ActiveRunID c = '''' \<and> snap_Queue c = [] \<and> snap_RunJournal c = [] \<and> snap_ExtensionJournal c = [] \<and>
      snap_Events c = [] \<and> snap_Context c = zero_context \<and> snap_RetainedContexts c = [])"

lemma opened_Inr: "opened r m = (Inr h, m', st') \<Longrightarrow> \<exists>s. r = (Inr s, st') \<and> h = newMemorySession s \<and> m' = m"
  by (auto simp: opened_def split: prod.splits sum.splits)

lemma chooseConfig_Inr: "chooseConfig explicit fallback = Inr c \<Longrightarrow> c = (case explicit of Some x \<Rightarrow> x | None \<Rightarrow> fallback)"
  by (auto simp: chooseConfig_def split: option.splits)

lemma Load_Inr: "Load ctx i st = Inr s \<Longrightarrow> \<exists>a. aggregate_of st i = Some a \<and> s = agg_snapshot a \<and> ctx = CtxLive \<and> validID i"
  by (cases ctx) (auto simp: Load_def with_session_def contextErr_def split: option.splits)

lemma forkSource_Inr:
  assumes "forkSource ctx r st = Inr (s, cutoff, copied, config)"
  shows "forkRequestCheck r = None \<and> Load ctx (fr_SourceSessionID r) st = Inr s \<and> (fr_Mode r = ForkFullHistory \<longrightarrow> snap_RunState s \<noteq> RunRunning) \<and>
    selectForkHistory (snap_History s) (snap_ActiveRunID s) (fr_Mode r) (fr_CutoffSequence r) = Inr (cutoff, copied) \<and> chooseConfig (fr_ModelConfig r) (snap_ModelConfig s) = Inr config"
  using assms by (auto simp: forkSource_def split: prod.splits)

lemma fresh_renaming_mono:
  assumes "fresh_renaming m1 m' occ \<rho>" "mgr_idPrefix m1 = mgr_idPrefix m" "mgr_sequence m \<le> mgr_sequence m1"
  shows "fresh_renaming m m' occ \<rho>"
proof -
  have "\<exists>n. \<rho> k i = idText (kindText k) (mgr_idPrefix m) n \<and> mgr_sequence m < n \<and> n \<le> mgr_sequence m'" if "i \<noteq> '''' \<and> (k, i) \<in> occ" for k i
    using assms that unfolding fresh_renaming_def by (metis le_less_trans)
  then show ?thesis using assms(1) by (simp add: fresh_renaming_def)
qed

lemma forkRequestCheck_None: "forkRequestCheck r = None \<Longrightarrow> validID (fr_SourceSessionID r) \<and> validID (fr_AgentID r) \<and> validID (fr_WorkspaceID r) \<and> ForkMode_Valid (fr_Mode r)"
  by (auto simp: forkRequestCheck_def Let_def)

lemma newSnapshot_simps [simp]:
  "snap_History (newSnapshot n h) = h" "snap_Session (newSnapshot n h) = (new_Session n)\<lparr>ses_Revision := 1\<rparr>" "snap_Fork (newSnapshot n h) = new_Fork n"
  "snap_ModelConfig (newSnapshot n h) = new_ModelConfig n" "snap_RunState (newSnapshot n h) = effective_state (new_RunState n)"
  "snap_ActiveRunID (newSnapshot n h) = new_ActiveRunID n" "snap_Queue (newSnapshot n h) = new_Queue n" "snap_RunJournal (newSnapshot n h) = new_RunJournal n"
  "snap_ExtensionJournal (newSnapshot n h) = []" "snap_Events (newSnapshot n h) = []" "snap_Context (newSnapshot n h) = new_Context n"
  "snap_RetainedContexts (newSnapshot n h) = []"
  by (simp_all add: newSnapshot_def)

lemma effective_RunIdle [simp]: "effective_state RunIdle = RunIdle"
  by (simp add: effective_state_def)

text \<open>The parts of a successful fork.\<close>

definition forkNew :: "ForkRequest \<Rightarrow> SessionID \<Rightarrow> Snapshot \<Rightarrow> HistoryFact list \<Rightarrow> HistorySequence \<Rightarrow> Config \<Rightarrow> NewSession" where
  "forkNew r i s history cutoff config =
     (idleSession ((emptySession i (fr_AgentID r) (fr_WorkspaceID r))\<lparr>ses_ParentSessionID := ses_ID (snap_Session s), ses_ParentRevision := snap_Revision s\<rparr>) history config)
     \<lparr>new_Fork := Some \<lparr>fork_ParentSessionID = ses_ID (snap_Session s), fork_CutoffSequence = cutoff\<rparr>\<rparr>"

lemma Manager_Fork_eq:
  assumes "forkSource ctx r st = Inr (s, cutoff, copied, config)" "nextID ''session'' m = (i, m1)" "rewriteHistory i copied m1 = (history, m2)"
  shows "Manager_Fork env ctx r m st = opened (Create env ctx (forkNew r i s history cutoff config) st) m2"
  using assms by (simp add: Manager_Fork_def rewriteForFork_def forkedSession_def forkNew_def idleSession_def emptySession_def)

lemma Manager_Fork_Inr:
  assumes "Manager_Fork env ctx r m st = (Inr h, m', st')"
  obtains s cutoff copied config i m1 history c where "forkSource ctx r st = Inr (s, cutoff, copied, config)" "nextID ''session'' m = (i, m1)"
    "rewriteHistory i copied m1 = (history, m')" "Create env ctx (forkNew r i s history cutoff config) st = (Inr c, st')" "h = newMemorySession c"
proof -
  obtain s cutoff copied config where f: "forkSource ctx r st = Inr (s, cutoff, copied, config)"
    using assms by (cases "forkSource ctx r st") (auto simp: Manager_Fork_def)
  obtain i m1 where n: "nextID ''session'' m = (i, m1)" by fastforce
  obtain history m2 where w: "rewriteHistory i copied m1 = (history, m2)" by fastforce
  show thesis using assms [unfolded Manager_Fork_eq [OF f n w]] that [OF f n] w by (auto dest!: opened_Inr)
qed

lemma forkNew_simps [simp]: "new_History (forkNew r i s history cutoff config) = history" "ses_ID (new_Session (forkNew r i s history cutoff config)) = i"
  by (simp_all add: forkNew_def idleSession_def emptySession_def)

lemma fork_of_created:
  assumes "reachable fpt st" "aggregate_of st (fr_SourceSessionID r) = Some a" "s = agg_snapshot a"
    and sel: "selectForkHistory (snap_History s) (snap_ActiveRunID s) (fr_Mode r) (fr_CutoffSequence r) = Inr (cutoff, copied)" "ForkMode_Valid (fr_Mode r)"
    and cfg: "chooseConfig (fr_ModelConfig r) (snap_ModelConfig s) = Inr config"
    and h: "prepareInitialHistory clock i (map (renameFact i \<rho>) copied) = Inr history"
  shows "fork_of r i \<rho> s (newSnapshot (forkNew r i s (map (renameFact i \<rho>) copied) cutoff config) history)"
proof -
  note p = reachable_parts [OF assms(1,2)]
  have sid: "ses_ID (snap_Session s) = fr_SourceSessionID r" using p(2) assms(3) by (simp add: ident_ok_def)
  have c: "cutoff \<le> length (snap_History s)" "copied = take cutoff (snap_History s)" "protocol_complete copied" "step_boundary (snap_History s) cutoff"
    "cutoff = (if fr_Mode r = ForkFullHistory then length (snap_History s) else fr_CutoffSequence r)"
    using selectForkHistory_Inr [OF sel(1) p(3) [folded assms(3)] sel(2)] by blast+
  have m: "map clearEnvelope history = map clearEnvelope (map (renameFact i \<rho>) copied)" using h by (rule prepareInitialHistory_payloads)
  then have "length history = length copied" using map_eq_imp_length_eq by fastforce
  then have l: "length history = cutoff" using c(1,2) by simp
  show ?thesis unfolding fork_of_def Let_def
    using c m l sid chooseConfig_Inr [OF cfg] by (simp add: forkNew_def idleSession_def emptySession_def)
qed

text \<open>
  C10. A fork is a faithful copy: the child's History is exactly the chosen prefix of the source's, with fresh
  identifiers given injectively to everything it names (runs, steps, messages, calls, attempts) and with
  nothing of the protocol left open; it starts idle with no queue, journal or context of its parent, records
  where it comes from, and every other Session is untouched.
\<close>

theorem fork_copies:
  assumes "reachable fpt st" "Manager_Fork env ctx r m st = (Inr h, m', st')" "mgr_sequence m' < 2 ^ 64"
  shows "\<exists>a b \<rho>. aggregate_of st (fr_SourceSessionID r) = Some a \<and> aggregate_of st (mses_id h) = None \<and> aggregate_of st' (mses_id h) = Some b \<and>
    (\<forall>i. i \<noteq> mses_id h \<longrightarrow> aggregate_of st' i = aggregate_of st i) \<and> fork_of r (mses_id h) \<rho> (agg_snapshot a) (agg_snapshot b) \<and>
    fresh_renaming m m' (set (concat (map factOcc (take (length (snap_History (agg_snapshot b))) (snap_History (agg_snapshot a)))))) \<rho>"
proof -
  from assms(2) obtain s cutoff copied config i m1 history c where f: "forkSource ctx r st = Inr (s, cutoff, copied, config)" "nextID ''session'' m = (i, m1)"
    "rewriteHistory i copied m1 = (history, m')" "Create env ctx (forkNew r i s history cutoff config) st = (Inr c, st')" "h = newMemorySession c" by (rule Manager_Fork_Inr)
  note fs = forkSource_Inr [OF f(1)]
  obtain a where a: "aggregate_of st (fr_SourceSessionID r) = Some a" "s = agg_snapshot a" using Load_Inr fs by blast
  obtain \<rho> where \<rho>: "history = map (renameFact i \<rho>) copied" "fresh_renaming m1 m' (set (concat (map factOcc copied))) \<rho>"
    using rewriteHistory_renames [OF f(3) assms(3)] by blast
  obtain hist u ix where cr: "prepareInitialHistory (env_clock env) i history = Inr hist" "aggregate_of st i = None" "c = newSnapshot (forkNew r i s history cutoff config) hist"
    "st' = put_aggregate i \<lparr>agg_snapshot = c, agg_idempotency = Map.empty, agg_updatedAt = u\<rparr> (st\<lparr>ms_list := ix\<rparr>)"
    using Create_Inr [OF f(4)] by auto
  have fk: "fork_of r i \<rho> s c" using fork_of_created [OF assms(1) a, of cutoff copied config "env_clock env" i \<rho> hist] fs forkRequestCheck_None [of r] cr(1,3) \<rho>(1) by simp
  have "mses_id h = i" using f(5) cr(3) by (simp add: newMemorySession_def)
  moreover have "take (length (snap_History c)) (snap_History s) = copied"
  proof -
    have e: "envelope_ok (fr_SourceSessionID r) (snap_History s)" using reachable_parts(3) [OF assms(1) a(1)] a(2) by simp
    have "copied = take cutoff (snap_History s)" "cutoff \<le> length (snap_History s)"
      using selectForkHistory_Inr [OF _ e, of "snap_ActiveRunID s" "fr_Mode r" "fr_CutoffSequence r" cutoff copied] fs forkRequestCheck_None [of r] by blast+
    moreover have "length hist = length copied" using map_eq_imp_length_eq [OF prepareInitialHistory_payloads [OF cr(1)]] \<rho>(1) by simp
    ultimately show ?thesis using cr(3) by simp
  qed
  moreover have "fresh_renaming m m' (set (concat (map factOcc copied))) \<rho>"
    using fresh_renaming_mono [OF \<rho>(2)] f(2) by (auto simp: nextID_def Let_def)
  ultimately show ?thesis using a cr(2,4) fk by auto
qed

section \<open>When the store accepts a derived Session\<close>

lemma appendHistoryFact_origin:
  assumes "validID sid" "\<not> hasHistoryEnvelope f" "validatePayload f sid = None" "clock (Suc (length history)) \<noteq> 0"
    "fact_OriginFactID f = '''' \<or> validID (fact_OriginFactID f)"
  shows "appendHistoryFact clock history sid f a = Inr (history @ [stamped clock history sid f a])"
  using assms validID_factID [OF assms(1), of "Suc (length history)"]
  by (auto simp: appendHistoryFact_def Let_def HistoryFact_Validate_def IsZero_def)

lemma clearEnvelope_simps [simp]: "\<not> hasHistoryEnvelope (clearEnvelope f)" "validatePayload (clearEnvelope f) sid = validatePayload f sid"
    "fact_OriginFactID (clearEnvelope f) = fact_OriginFactID f"
  unfolding clearEnvelope_def validatePayload_def fact_payloads_def by (simp_all add: hasHistoryEnvelope_def zero_actor_def IsZero_def cong: option.case_cong)

lemma prepareInitialHistory_succeeds:
  assumes "validID sid" "\<And>n. clock n \<noteq> 0" "\<And>f. f \<in> set facts \<Longrightarrow> validatePayload f sid = None \<and> (fact_OriginFactID f = '''' \<or> validID (fact_OriginFactID f))"
  shows "\<exists>h. prepareInitialHistory clock sid facts = Inr h"
proof -
  have "\<exists>h. foldE (\<lambda>history f. map_error (invalid ''session.create'') (appendHistoryFact clock history sid (clearEnvelope f) zero_actor)) h0 facts = Inr h" for h0
    using assms(3)
  proof (induction facts arbitrary: h0)
    case (Cons f fs)
    have "appendHistoryFact clock h0 sid (clearEnvelope f) zero_actor = Inr (h0 @ [stamped clock h0 sid (clearEnvelope f) zero_actor])"
      using assms(1,2) Cons.prems [of f] by (intro appendHistoryFact_origin) simp_all
    then show ?case using Cons.IH Cons.prems by simp
  qed simp
  then show ?thesis by (simp add: prepareInitialHistory_def)
qed

text \<open>An idle derived Session is accepted when its identity, configuration, provenance and History are in order.\<close>

lemma Create_idle:
  fixes s history config fork
  defines "n \<equiv> (idleSession s history config)\<lparr>new_Fork := fork\<rparr>"
  assumes "validID (ses_ID s)" "validID (ses_AgentID s)" "validID (ses_WorkspaceID s)" "ses_Revision s = 0" "ses_ParentSessionID s \<noteq> ses_ID s"
    "if ses_ParentSessionID s = '''' then ses_ParentRevision s = 0 else validID (ses_ParentSessionID s) \<and> ses_ParentRevision s \<noteq> 0"
    "Config_Validate config = None" "forkCheck n = None" "validateHistoryConsistency (ses_ID s) history [] = None"
    "\<And>f. f \<in> set history \<Longrightarrow> validatePayload f (ses_ID s) = None \<and> (fact_OriginFactID f = '''' \<or> validID (fact_OriginFactID f))"
    "\<And>k. env_clock env k \<noteq> 0" "aggregate_of st (ses_ID s) = None"
  shows "\<exists>c st'. Create env CtxLive n st = (Inr c, st')"
proof -
  have f: "new_Session n = s" "new_History n = history" "new_Context n = zero_context" "new_Queue n = []" "new_RunJournal n = []" "new_ModelConfig n = config"
    "new_RunState n = RunIdle" "new_ActiveRunID n = ''''" by (simp_all add: n_def idleSession_def)
  have e: "first_error (map (\<lambda>f. map_option (invalid ''session.create'') (validatePayload f (ses_ID s))) history) = None" using assms(11) by simp
  have "validateNewSession n = None"
    using assms(2-10) zero_context_valid [of "ses_ID s"]
    by (auto simp: validateNewSession_def Let_def f e RunState_Valid_def duplicateQueueMessage_def zero_context_def simp del: first_error_map_None split: if_splits)
  moreover obtain h where "prepareInitialHistory (env_clock env) (ses_ID s) history = Inr h"
    using prepareInitialHistory_succeeds [of "ses_ID s" "env_clock env" history] assms(2,11,12) by blast
  ultimately show ?thesis using assms(13) by (simp add: Create_def contextErr_def f Let_def split: prod.splits)
qed

text \<open>The recovered Session of the example, forked with its whole History.\<close>

definition demo_manager :: Manager where
  "demo_manager = \<lparr>mgr_defaultConfig = demo_config, mgr_idPrefix = ''x'', mgr_sequence = 0\<rparr>"

definition demo_fork :: ForkRequest where
  "demo_fork = \<lparr>fr_SourceSessionID = ''s1'', fr_Mode = ForkFullHistory, fr_CutoffSequence = 0, fr_AgentID = ''a'', fr_WorkspaceID = ''w'', fr_ModelConfig = None\<rparr>"

definition demo_fork_history :: "HistoryFact list" where
  "demo_fork_history = map (renameFact ''session-x-1'' (\<lambda>k i. ''run-x-2'')) demo_run_facts"

lemma demo_digits: "dec 1 = ''1''" "dec 2 = ''2''" "dec (Suc 0) = ''1''" "dec (Suc (Suc 0)) = ''2''"
  by code_simp+

lemma demo_next: "nextID ''session'' demo_manager = (''session-x-1'', demo_manager\<lparr>mgr_sequence := 1\<rparr>)"
  by (simp add: nextID_def demo_manager_def idText_def demo_digits)

lemma demo_fork_source: "forkSource CtxLive demo_fork demo_recovered = Inr (demo_recovered_snapshot, 2, demo_run_facts, demo_config)"
  by (simp add: forkSource_def demo_fork_def forkRequestCheck_def ForkMode_Valid_def Let_def Load_def with_session_def contextErr_def demo_recovered_def
      demo_recovered_snapshot_def bump_def selectForkHistory_def indexOfSequence_def chooseConfig_def validateForkProtocol_def)
     (simp add: demo_run_facts_def Let_def demo_aggregate_def newSnapshot_def demo_session_def validateForkProtocol_def)

lemma demo_rewrite: "rewriteHistory ''session-x-1'' demo_run_facts (demo_manager\<lparr>mgr_sequence := 1\<rparr>) = (demo_fork_history, demo_manager\<lparr>mgr_sequence := 2\<rparr>)"
  by (simp add: rewriteHistory_def demo_run_facts_def demo_fork_history_def Let_def rewriteFact_def rewriteOpt_def rewriteRun_def mappedID_def State_Monad.bind_def
      State_Monad.return_def keepsEmpty_def nextID_def idText_def kindText_def demo_manager_def demo_digits demo_end_def demo_start_def renameFact_def renameRun_def)

lemma demo_fork_facts:
  assumes "f \<in> set demo_fork_history"
  shows "validatePayload f ''session-x-1'' = None \<and> validID (fact_OriginFactID f)"
proof -
  have v: "validID ''run-x-2''" "validID ''session-x-1''" by (simp_all add: validID_graphic graphic_def)
  have "RunFact_Validate (renameRun ''session-x-1'' (\<lambda>k i. ''run-x-2'') demo_start) ''session-x-1'' = None"
    using demo_start_valid v by (simp add: RunFact_Validate_def renameRun_def demo_start_def)
  moreover have "RunFact_Validate (renameRun ''session-x-1'' (\<lambda>k i. ''run-x-2'') demo_end) ''session-x-1'' = None"
    using demo_end_valid v by (simp add: RunFact_Validate_def renameRun_def demo_end_def demo_start_def)
  ultimately show ?thesis using assms validID_factID [OF demo_validID(1)]
    by (auto simp: demo_fork_history_def demo_run_facts_def Let_def validatePayload_def fact_payloads_def renameFact_def)
qed

lemma scanFact_run:
  assumes "validatePayload f sid = None" "fact_Run f = Some r"
  shows "scanFact sid st f = scanRun st r"
proof -
  have "fact_Message f = None \<and> fact_ToolCall f = None \<and> fact_ToolResult f = None \<and> fact_ModelAttempt f = None \<and> fact_ContextContribution f = None \<and>
      fact_RunBudgetExceeded f = None \<and> fact_RunLimitExceeded f = None"
    using assms by (auto simp: validatePayload_def fact_payloads_def present_def split: if_splits option.splits)
  then show ?thesis using assms by (cases "scanRun st r") (simp_all add: scanFact_def scan_opt_def)
qed

lemma demo_fork_consistent: "validateHistoryConsistency ''session-x-1'' demo_fork_history [] = None"
proof -
  let ?r = "renameRun ''session-x-1'' (\<lambda>k i. ''run-x-2'')"
  obtain f1 f2 where f: "demo_fork_history = [f1, f2]" "fact_Run f1 = Some (?r demo_start)" "fact_Run f2 = Some (?r demo_end)"
    by (simp add: demo_fork_history_def demo_run_facts_def Let_def renameFact_def)
  have v: "scanFact ''session-x-1'' st f1 = scanRun st (?r demo_start)" "scanFact ''session-x-1'' st f2 = scanRun st (?r demo_end)" for st
  proof -
    have "validatePayload f1 ''session-x-1'' = None" "validatePayload f2 ''session-x-1'' = None" by (auto intro!: demo_fork_facts [THEN conjunct1] simp: f(1))
    then show "scanFact ''session-x-1'' st f1 = scanRun st (?r demo_start)" "scanFact ''session-x-1'' st f2 = scanRun st (?r demo_end)"
      using f(2,3) by (simp_all add: scanFact_run)
  qed
  have "sameModelConfig demo_config demo_config" by (simp add: sameModelConfig_def demo_config_def zero_config_def sameFloat_def sameInt_def)
  then show ?thesis
    by (simp add: validateHistoryConsistency_def f(1) v)
       (simp add: scanRun_def renameRun_def demo_end_def demo_start_def scan_run_def scan_init_def check_def)
qed

lemma demo_fork_created: "\<exists>h st'. Manager_Fork demo_env CtxLive demo_fork demo_manager demo_recovered = (Inr h, demo_manager\<lparr>mgr_sequence := 2\<rparr>, st')"
proof -
  have l: "length demo_fork_history = 2" by (simp add: demo_fork_history_def demo_run_facts_def Let_def)
  have snap: "ses_ID (snap_Session demo_recovered_snapshot) = ''s1''" "snap_Revision demo_recovered_snapshot = 3" by (simp_all add: demo_recovered_snapshot_def bump_def)
  have v: "validID ''session-x-1''" by (simp add: validID_graphic graphic_def)
  have "\<exists>c st'. Create demo_env CtxLive (forkNew demo_fork ''session-x-1'' demo_recovered_snapshot demo_fork_history 2 demo_config) demo_recovered = (Inr c, st')"
    unfolding forkNew_def
    by (rule Create_idle)
       (use v snap l demo_fork_facts demo_fork_consistent demo_config_valid in \<open>auto simp: emptySession_def demo_fork_def forkCheck_def idleSession_def demo_recovered_def\<close>)
  then show ?thesis unfolding Manager_Fork_eq [OF demo_fork_source demo_next demo_rewrite] by (auto simp: opened_def)
qed

theorem fork_copies_witness:
  "\<exists>h st' b \<rho>. Manager_Fork demo_env CtxLive demo_fork demo_manager demo_recovered = (Inr h, demo_manager\<lparr>mgr_sequence := 2\<rparr>, st') \<and>
     aggregate_of st' (mses_id h) = Some b \<and> fork_of demo_fork (mses_id h) \<rho> demo_recovered_snapshot (agg_snapshot b)"
proof -
  obtain h st' where f: "Manager_Fork demo_env CtxLive demo_fork demo_manager demo_recovered = (Inr h, demo_manager\<lparr>mgr_sequence := 2\<rparr>, st')"
    using demo_fork_created by blast
  have "aggregate_of demo_recovered (fr_SourceSessionID demo_fork) = Some a \<Longrightarrow> agg_snapshot a = demo_recovered_snapshot" for a
    by (auto simp: demo_recovered_def demo_fork_def)
  then show ?thesis using f fork_copies [OF demo_recovered_reachable f] by (auto simp: demo_manager_def)
qed

end
