(* ===== verification/Loop_Contracts.thy ===== *)
theory Loop_Contracts
  imports Agent_Types
begin

text \<open>
  \<^verbatim>\<open>loop/contracts.go\<close>: the vocabulary between the fixed runtime and a replaceable agent loop: outcomes, the
  actions a loop may submit, and the states the runtime answers.
\<close>

datatype Outcome =
    OutcomeContinue | OutcomeCompleted | OutcomeFailed | OutcomeCanceled | OutcomeBudgetExceeded | OutcomeWaiting | Outcome_other string

definition Outcome_Valid :: "Outcome \<Rightarrow> bool" where
  "Outcome_Valid o1 \<longleftrightarrow> o1 = OutcomeContinue \<or> o1 = OutcomeCompleted \<or> o1 = OutcomeFailed \<or> o1 = OutcomeCanceled \<or>
     o1 = OutcomeBudgetExceeded \<or> o1 = OutcomeWaiting"

definition Outcome_Terminal :: "Outcome \<Rightarrow> bool" where
  "Outcome_Terminal o1 \<longleftrightarrow> Outcome_Valid o1 \<and> o1 \<noteq> OutcomeContinue"

datatype ActionKind = ActionRequestModel | ActionExecuteTools | ActionContinue | ActionFinish | ActionWait | LoopAction_other string

record Action =
  la_Kind :: ActionKind
  la_Outcome :: Outcome

definition Action_Validate :: "Action \<Rightarrow> string option" where
  "Action_Validate a = (case la_Kind a of
      ActionFinish \<Rightarrow> check (\<not> Outcome_Terminal (la_Outcome a) \<or> la_Outcome a = OutcomeWaiting) ''loop: finish requires a non-waiting terminal outcome''
    | LoopAction_other _ \<Rightarrow> Some ''loop: unknown action''
    | _ \<Rightarrow> check (la_Outcome a \<noteq> Outcome_other '''') ''loop: only finish actions carry an outcome'')"

datatype State =
    StateReadyForModel | StateToolsReady | StateContinueReady | StateCompleted | StateFailed | StateCanceled | StateBudgetExceeded | StateWaiting
  | State_other string

definition State_Valid :: "State \<Rightarrow> bool" where
  "State_Valid s = (case s of State_other _ \<Rightarrow> False | _ \<Rightarrow> True)"

text \<open>An action other than finish, and finish with an outcome.\<close>

definition action :: "ActionKind \<Rightarrow> Action" where
  "action k = \<lparr>la_Kind = k, la_Outcome = Outcome_other ''''\<rparr>"

definition finish :: "Outcome \<Rightarrow> Action" where
  "finish o1 = \<lparr>la_Kind = ActionFinish, la_Outcome = o1\<rparr>"

end
