(* ===== verification/Tool_Policy.thy ===== *)
theory Tool_Policy
  imports Tool_Contracts
begin

text \<open>
  \<^verbatim>\<open>policy/contracts.go\<close>, the workspace scope of \<^verbatim>\<open>workspace/contracts.go\<close> and the invocation values of
  \<^verbatim>\<open>tool/contracts.go\<close>: the proposals that policy guards see, their decisions, the approval requests, and
  the reference guard that decides by exact tool key. A component of the application (a guard, an approval
  service, a tool) is a function from what it is given to what it answers, a panic included.
\<close>

section \<open>Answers of components\<close>

datatype 'a answer = Returned 'a | Panicked

section \<open>Proposals and decisions\<close>

datatype ActionKind = ActionTool | ActionKind_other string

text \<open>\<^verbatim>\<open>tool.Call\<close>, the part of a tool call that a component may see.\<close>

record Call =
  tc_ID :: ToolCallID
  tc_Name :: string
  tc_Arguments :: string

record ToolAction =
  ta_ToolKey :: string
  ta_Call :: Call
  ta_SessionID :: SessionID
  ta_AgentID :: AgentID
  ta_WorkspaceID :: WorkspaceID
  ta_RunID :: RunID
  ta_StepID :: StepID

record Action =
  act_Kind :: ActionKind
  act_Tool :: "ToolAction option"

definition Action_Validate :: "Action \<Rightarrow> string option" where
  "Action_Validate a = (case act_Tool a of
      None \<Rightarrow> Some ''policy: action must contain one tool proposal''
    | Some t \<Rightarrow> first_error
        [check (act_Kind a \<noteq> ActionTool) ''policy: action must contain one tool proposal'',
         check (ta_ToolKey t = '''' \<or> tc_Name (ta_Call t) \<noteq> ta_ToolKey t \<or> \<not> validID (tc_ID (ta_Call t)) \<or> \<not> validID (ta_SessionID t) \<or>
             \<not> validID (ta_AgentID t) \<or> \<not> validID (ta_WorkspaceID t) \<or> \<not> validID (ta_RunID t) \<or> \<not> validID (ta_StepID t))
           ''policy: tool proposal identity is incomplete''])"

datatype Effect = Allow | Deny | RequireApproval | Effect_other string

record Decision =
  dec_Effect :: Effect
  dec_Reason :: string

definition Decision_Validate :: "Decision \<Rightarrow> string option" where
  "Decision_Validate d = (case dec_Effect d of
      Allow \<Rightarrow> None
    | Deny \<Rightarrow> check (dec_Reason d = '''') ''policy: deny and approval decisions require a reason''
    | RequireApproval \<Rightarrow> check (dec_Reason d = '''') ''policy: deny and approval decisions require a reason''
    | Effect_other s \<Rightarrow> Some (''policy: unknown effect '' @ s))"

type_synonym PolicyGuard = "Action \<Rightarrow> (string + Decision) answer"

text \<open>\<^verbatim>\<open>GuardFunc\<close> and \<^verbatim>\<open>ApprovalFunc\<close> adapt a function that may be \<^verbatim>\<open>nil\<close>.\<close>

definition GuardFunc_Evaluate :: "PolicyGuard option \<Rightarrow> PolicyGuard" where
  "GuardFunc_Evaluate f action = (case f of None \<Rightarrow> Returned (Inl ''policy: nil guard function'') | Some g \<Rightarrow> g action)"

record ApprovalRequest =
  ar_Action :: Action
  ar_Reason :: string

record ApprovalDecision =
  ad_Approved :: bool
  ad_Reason :: string

type_synonym ApprovalService = "ApprovalRequest \<Rightarrow> (string + ApprovalDecision) answer"

definition ApprovalFunc_Decide :: "ApprovalService option \<Rightarrow> ApprovalService" where
  "ApprovalFunc_Decide f request = (case f of None \<Rightarrow> Returned (Inl ''policy: nil approval function'') | Some g \<Rightarrow> g request)"

section \<open>The reference guard\<close>

record ToolRule =
  rule_ToolKey :: string
  rule_Decision :: Decision

record ToolRuleGuard =
  trg_fallback :: Decision
  trg_decisions :: "string \<rightharpoonup> Decision"

definition addRule :: "(string \<rightharpoonup> Decision) \<Rightarrow> ToolRule \<Rightarrow> string + (string \<rightharpoonup> Decision)" where
  "addRule decisions rule =
     guardE (check (rule_ToolKey rule = '''') ''policy: tool rule key is required'')
      (guardE (Decision_Validate (rule_Decision rule))
        (guardE (check (decisions (rule_ToolKey rule) \<noteq> None) (''policy: duplicate rule for '' @ rule_ToolKey rule))
          (Inr (decisions(rule_ToolKey rule \<mapsto> rule_Decision rule)))))"

definition NewToolRuleGuard :: "Decision \<Rightarrow> ToolRule list \<Rightarrow> string + ToolRuleGuard" where
  "NewToolRuleGuard fallback rules =
     guardE (Decision_Validate fallback)
      (bindE (foldE addRule Map.empty rules) (\<lambda>d. Inr \<lparr>trg_fallback = fallback, trg_decisions = d\<rparr>))"

text \<open>\<open>ctx_error\<close> is \<^verbatim>\<open>ctx.Err()\<close>.\<close>

definition toolRuleGuard_Evaluate :: "string option \<Rightarrow> ToolRuleGuard \<Rightarrow> PolicyGuard" where
  "toolRuleGuard_Evaluate ctx_error g action = Returned
     (guardE ctx_error (case act_Tool action of
        None \<Rightarrow> Inl ''policy: tool rule guard received a non-tool action''
      | Some t \<Rightarrow> (case trg_decisions g (ta_ToolKey t) of Some d \<Rightarrow> Inr d | None \<Rightarrow> Inr (trg_fallback g))))"

section \<open>Workspace scope and invocations\<close>

record Scope =
  scope_AgentID :: AgentID
  scope_WorkspaceID :: WorkspaceID

definition Scope_Validate :: "Scope \<Rightarrow> string option" where
  "Scope_Validate s = check (\<not> validID (scope_AgentID s) \<or> \<not> validID (scope_WorkspaceID s)) ''workspace: AgentID and WorkspaceID are required''"

datatype ParallelSafety = ParallelSafe | Serial | ParallelSafety_other string

definition ParallelSafety_Valid :: "ParallelSafety \<Rightarrow> bool" where
  "ParallelSafety_Valid s \<longleftrightarrow> s = ParallelSafe \<or> s = Serial"

text \<open>A workspace boundary is opaque; \<open>'b\<close> is the manager's type of boundaries, and \<^term>\<open>None\<close> the absent manager.\<close>

record 'b ToolInvocation =
  inv_Call :: Call
  inv_SessionID :: SessionID
  inv_AgentID :: AgentID
  inv_WorkspaceID :: WorkspaceID
  inv_Actor :: ActorIdentity
  inv_WorkspaceBoundary :: "'b option"
  inv_MaxInlineOutputBytes :: int
  inv_RunID :: RunID
  inv_StepID :: StepID

section \<open>Facts\<close>

lemma foldE_addRule:
  "foldE addRule m rules = Inr d \<Longrightarrow>
   d = m ++ map_of (map (\<lambda>r. (rule_ToolKey r, rule_Decision r)) rules) \<and> distinct (map rule_ToolKey rules) \<and>
   (\<forall>r \<in> set rules. Decision_Validate (rule_Decision r) = None \<and> rule_ToolKey r \<noteq> '''' \<and> m (rule_ToolKey r) = None)"
proof (induction rules arbitrary: m)
  case (Cons r rules)
  then obtain n where n: "addRule m r = Inr n" "foldE addRule n rules = Inr d" by auto
  have a: "n = m(rule_ToolKey r \<mapsto> rule_Decision r)" "m (rule_ToolKey r) = None" "rule_ToolKey r \<noteq> ''''" "Decision_Validate (rule_Decision r) = None"
    using n(1) by (auto simp: addRule_def)
  note ih = Cons.IH [OF n(2)]
  have fresh: "rule_ToolKey r \<notin> rule_ToolKey ` set rules" using ih a(1) by (auto split: if_splits)
  then have none: "map_of (map (\<lambda>r. (rule_ToolKey r, rule_Decision r)) rules) (rule_ToolKey r) = None" by (auto simp: map_of_eq_None_iff)
  have "d = m ++ map_of (map (\<lambda>r. (rule_ToolKey r, rule_Decision r)) (r # rules))"
    using ih a(1) none by (auto simp: map_add_def fun_eq_iff split: option.splits if_splits)
  moreover have "\<forall>r' \<in> set (r # rules). Decision_Validate (rule_Decision r') = None \<and> rule_ToolKey r' \<noteq> '''' \<and> m (rule_ToolKey r') = None"
    using ih a by (auto split: if_splits)
  moreover have "distinct (map rule_ToolKey (r # rules))" using ih fresh by simp
  ultimately show ?case by blast
qed simp

end
