(* ===== verification/Tool_Dispatch.thy ===== *)
theory Tool_Dispatch
  imports Tool_Policy Hook_Invocation "HOL-Library.List_Lexorder" "HOL-Library.Char_ord"
begin

text \<open>
  \<^verbatim>\<open>standardagent/tool_dispatcher.go\<close>: the fixed dispatcher that authorizes and executes a batch of tool
  calls. What an operation does beyond its result is a list of events, in order: the records it publishes,
  the approval it asks for, the durable mark before execution and the invocation of the tool. Calls of one
  parallel group run in their own goroutines, so a group keeps one list of events per call and a trace of
  the batch is any interleaving of each group, group after group. The JSON schema check is the parameter
  \<open>accepts\<close> (schema document, arguments), the durable mark is the callback \<open>before\<close>.
\<close>

section \<open>The dispatcher\<close>

record 'b Tool =
  tool_Definition :: Definition
  tool_ParallelSafety :: ParallelSafety
  tool_Invoke :: "'b ToolInvocation \<Rightarrow> ToolResult answer"

record 'b installedTool =
  it_value :: "'b Tool"
  it_definition :: Definition
  it_safety :: ParallelSafety

record 'b toolDispatcher =
  td_tools :: "string \<rightharpoonup> 'b installedTool"
  td_orderedDefinitions :: "Definition list"
  td_guards :: "PolicyGuard list"
  td_approval :: "ApprovalService option"
  td_maxInlineOutputBytes :: int

definition invalidInput :: "string \<Rightarrow> string \<Rightarrow> ClassifiedError" where
  "invalidInput op message = NewError ErrorInvalidInput op message"

definition installTool :: "'b toolDispatcher \<Rightarrow> string \<times> 'b Tool \<Rightarrow> ClassifiedError + 'b toolDispatcher" where
  "installTool d named = (let (key, t) = named; definition = tool_Definition t; safety = tool_ParallelSafety t in
     case Definition_Validate definition of
       Some e \<Rightarrow> Inl (invalidInput ''standardagent.tools'' e)
     | None \<Rightarrow>
         guardE (check (def_Name definition \<noteq> key) (invalidInput ''standardagent.tools'' ''Tool Slot key must match Definition name''))
          (guardE (check (\<not> ParallelSafety_Valid safety) (invalidInput ''standardagent.tools'' ''Tool must declare Serial or ParallelSafe''))
            (Inr (d\<lparr>td_tools := (td_tools d)(key \<mapsto> \<lparr>it_value = t, it_definition = definition, it_safety = safety\<rparr>),
                    td_orderedDefinitions := td_orderedDefinitions d @ [definition]\<rparr>))))"

definition newToolDispatcher ::
    "(string \<times> 'b Tool) list \<Rightarrow> PolicyGuard list \<Rightarrow> ApprovalService option \<Rightarrow> int \<Rightarrow> ClassifiedError + 'b toolDispatcher" where
  "newToolDispatcher installed guards approval maxInlineOutputBytes =
     foldE installTool
       \<lparr>td_tools = Map.empty, td_orderedDefinitions = [], td_guards = guards, td_approval = approval, td_maxInlineOutputBytes = maxInlineOutputBytes\<rparr>
       (sort_key fst installed)"

definition definitions :: "'b toolDispatcher \<Rightarrow> Definition list" where
  "definitions d = td_orderedDefinitions d"

record toolPreflightAuthorization =
  tpa_denied :: bool
  tpa_approvalReasons :: "string list"

definition no_preflight :: toolPreflightAuthorization where
  "no_preflight = \<lparr>tpa_denied = False, tpa_approvalReasons = []\<rparr>"

definition merge_result :: "toolPreflightAuthorization \<Rightarrow> InvocationResult option \<Rightarrow> toolPreflightAuthorization" where
  "merge_result a result = (case result of None \<Rightarrow> a
    | Some r \<Rightarrow> (case ires_Decision r of
        DecisionDeny \<Rightarrow> a\<lparr>tpa_denied := True\<rparr>
      | DecisionRequireApproval \<Rightarrow> a\<lparr>tpa_approvalReasons := tpa_approvalReasons a @ [ires_Reason r]\<rparr>
      | _ \<Rightarrow> a))"

definition authorizationAt :: "toolPreflightAuthorization list \<Rightarrow> nat \<Rightarrow> toolPreflightAuthorization" where
  "authorizationAt authorizations index = (if index \<ge> length authorizations then no_preflight else authorizations ! index)"

definition failedToolResult :: "ToolCallID \<Rightarrow> string \<Rightarrow> string \<Rightarrow> ToolResult" where
  "failedToolResult i code message =
     \<lparr>res_CallID = i, res_Status = ResultFailed, res_Output = [], res_Error = Some \<lparr>serr_Code = code, serr_Message = message\<rparr>, res_Artifacts = []\<rparr>"

section \<open>Authorization\<close>

datatype 'b event =
    Audited ToolCall string
  | Asked ApprovalRequest
  | Marked ToolCall "string option"
  | Started ToolCall
  | Invoked "'b ToolInvocation"
  | Completed ToolCall ToolResult

definition proposal :: "ToolCall \<Rightarrow> Scope \<Rightarrow> Action" where
  "proposal call scope = \<lparr>act_Kind = ActionTool, act_Tool = Some
     \<lparr>ta_ToolKey = call_Name call, ta_Call = \<lparr>tc_ID = call_ID call, tc_Name = call_Name call, tc_Arguments = call_Arguments call\<rparr>,
      ta_SessionID = call_SessionID call, ta_AgentID = scope_AgentID scope, ta_WorkspaceID = scope_WorkspaceID scope,
      ta_RunID = call_RunID call, ta_StepID = call_StepID call\<rparr>\<rparr>"

definition evaluateGuard :: "PolicyGuard \<Rightarrow> Action \<Rightarrow> string + Tool_Policy.Decision" where
  "evaluateGuard guard action = (case guard action of Returned r \<Rightarrow> r | Panicked \<Rightarrow> Inl ''policy guard panicked'')"

definition decideApproval :: "ApprovalService \<Rightarrow> ApprovalRequest \<Rightarrow> string + ApprovalDecision" where
  "decideApproval approval request = (case approval request of Returned r \<Rightarrow> r | Panicked \<Rightarrow> Inl ''approval service panicked'')"

text \<open>The loop over the guards: a refusal with the audited decision, or the reasons for approval.\<close>

fun consultGuards :: "ToolCall \<Rightarrow> Action \<Rightarrow> PolicyGuard list \<Rightarrow> string list \<Rightarrow> (string \<times> ToolResult) + string list" where
  "consultGuards call action [] reasons = Inr reasons"
| "consultGuards call action (g # gs) reasons = (case evaluateGuard g action of
      Inl e \<Rightarrow> Inl (''error'', failedToolResult (call_ID call) ''policy_error'' ''tool authorization failed'')
    | Inr d \<Rightarrow>
        if Decision_Validate d \<noteq> None then Inl (''error'', failedToolResult (call_ID call) ''policy_error'' ''tool authorization failed'')
        else (case dec_Effect d of
            Deny \<Rightarrow> Inl (''deny'', failedToolResult (call_ID call) ''policy_denied'' ''tool execution was denied by policy'')
          | RequireApproval \<Rightarrow> consultGuards call action gs (reasons @ [dec_Reason d])
          | _ \<Rightarrow> consultGuards call action gs reasons))"

definition join_reasons :: "string list \<Rightarrow> string" where
  "join_reasons rs = (case rs of [] \<Rightarrow> '''' | r # rest \<Rightarrow> r @ concat (map (\<lambda>s. ''; '' @ s) rest))"

definition authorize :: "'b toolDispatcher \<Rightarrow> ToolCall \<Rightarrow> Scope \<Rightarrow> toolPreflightAuthorization \<Rightarrow> ToolResult option \<times> 'b event list" where
  "authorize d call scope preflight = (let action = proposal call scope; failed = failedToolResult (call_ID call) in
     if Action_Validate action \<noteq> None then (Some (failed ''policy_error'' ''tool authorization failed''), [Audited call ''error''])
     else if tpa_denied preflight then
       (Some (failed ''preflight_denied'' ''tool execution was denied by preflight policy''), [Audited call ''preflight_deny''])
     else (case consultGuards call action (td_guards d) (tpa_approvalReasons preflight) of
         Inl (decision, r) \<Rightarrow> (Some r, [Audited call decision])
       | Inr [] \<Rightarrow> (None, [Audited call ''allow''])
       | Inr reasons \<Rightarrow> (case td_approval d of
             None \<Rightarrow> (Some (failed ''approval_required'' ''tool execution requires approval''), [Audited call ''approval_required''])
           | Some approval \<Rightarrow> (let request = \<lparr>ar_Action = action, ar_Reason = join_reasons reasons\<rparr> in
               case decideApproval approval request of
                 Inl e \<Rightarrow> (Some (failed ''approval_error'' ''tool approval failed''), [Asked request, Audited call ''approval_error''])
               | Inr a \<Rightarrow>
                   if \<not> ad_Approved a
                   then (Some (failed ''approval_denied'' ''tool execution approval was denied''), [Asked request, Audited call ''approval_denied''])
                   else (None, [Asked request, Audited call ''approved''])))))"

section \<open>Execution of one call\<close>

definition ValidateArguments :: "(string \<Rightarrow> string \<Rightarrow> bool) \<Rightarrow> Definition \<Rightarrow> string \<Rightarrow> string option" where
  "ValidateArguments accepts d raw = first_error
     [check (\<not> def_SchemaCompiled d) ''tool: invalid input schema: uninitialized schema'',
      check (\<not> accepts (def_InputSchema d) raw) ''tool: arguments do not satisfy input schema'']"

definition validateCall :: "(string \<Rightarrow> string \<Rightarrow> bool) \<Rightarrow> 'b toolDispatcher \<Rightarrow> ToolCall \<Rightarrow> ToolResult option" where
  "validateCall accepts d call = (case td_tools d (call_Name call) of
      None \<Rightarrow> Some (failedToolResult (call_ID call) ''tool_not_found'' ''requested tool is not installed'')
    | Some installed \<Rightarrow>
        if ValidateArguments accepts (it_definition installed) (call_Arguments call) \<noteq> None
        then Some (failedToolResult (call_ID call) ''invalid_arguments'' ''tool arguments do not match the declared schema'')
        else None)"

definition invocation :: "'b toolDispatcher \<Rightarrow> ToolCall \<Rightarrow> Scope \<Rightarrow> 'b option \<Rightarrow> 'b ToolInvocation" where
  "invocation d call scope boundary =
     \<lparr>inv_Call = \<lparr>tc_ID = call_ID call, tc_Name = call_Name call, tc_Arguments = call_Arguments call\<rparr>,
      inv_SessionID = call_SessionID call, inv_AgentID = scope_AgentID scope, inv_WorkspaceID = scope_WorkspaceID scope,
      inv_Actor = \<lparr>actor_Kind = ActorAgent, actor_ID = scope_AgentID scope\<rparr>,
      inv_WorkspaceBoundary = boundary, inv_MaxInlineOutputBytes = td_maxInlineOutputBytes d, inv_RunID = call_RunID call, inv_StepID = call_StepID call\<rparr>"

text \<open>The result of a tool that ran, and whether it broke its contract (the deferred recovery included).\<close>

definition settleResult :: "'b toolDispatcher \<Rightarrow> ToolCall \<Rightarrow> ToolResult answer \<Rightarrow> ToolResult \<times> bool" where
  "settleResult d call a = (case a of
      Panicked \<Rightarrow> (failedToolResult (call_ID call) ''tool_internal'' ''tool execution failed'', True)
    | Returned r \<Rightarrow>
        if res_Status r = ResultUnknown
        then (failedToolResult (call_ID call) ''invalid_tool_result'' ''outcome_unknown is reserved for crash recovery'', True)
        else if res_CallID r \<noteq> call_ID call \<or> ToolResult_ValidateWithin r (td_maxInlineOutputBytes d) \<noteq> None
        then (failedToolResult (call_ID call) ''invalid_tool_result'' ''tool returned an invalid or oversized result'', True)
        else (r, False))"

definition invoke ::
    "(string \<Rightarrow> string \<Rightarrow> bool) \<Rightarrow> 'b toolDispatcher \<Rightarrow> (ToolCall \<Rightarrow> string option) option \<Rightarrow> Scope \<Rightarrow> 'b option \<Rightarrow>
     ToolCall \<Rightarrow> toolPreflightAuthorization \<Rightarrow> ToolResult \<times> bool \<times> 'b event list" where
  "invoke accepts d before scope boundary call preflight = (case validateCall accepts d call of
      Some r \<Rightarrow> (r, False, [])
    | None \<Rightarrow> (case authorize d call scope preflight of
        (Some r, events) \<Rightarrow> (r, False, events)
      | (None, events) \<Rightarrow> (let marked = (case before of None \<Rightarrow> None | Some f \<Rightarrow> f call); marks = (case before of None \<Rightarrow> [] | Some f \<Rightarrow> [Marked call (f call)]) in
          if marked \<noteq> None
          then (failedToolResult (call_ID call) ''execution_state_error'' ''tool execution could not be started safely'', False, events @ marks)
          else (let i = invocation d call scope boundary;
                    (r, violation) = settleResult d call (tool_Invoke (it_value (the (td_tools d (call_Name call)))) i) in
                (r, violation, events @ marks @ [Started call, Invoked i, Completed call r])))))"

section \<open>Batches\<close>

record 'b toolDispatchOutcome =
  out_results :: "ToolResult list"
  out_contractViolation :: bool
  out_groups :: "'b event list list list"

definition parallelSafe :: "'b toolDispatcher \<Rightarrow> ToolCall \<Rightarrow> bool" where
  "parallelSafe d call = (case td_tools d (call_Name call) of None \<Rightarrow> False | Some t \<Rightarrow> it_safety t = ParallelSafe)"

definition runsAlone :: "'b toolDispatcher \<Rightarrow> ToolCall \<Rightarrow> bool" where
  "runsAlone d call = (case td_tools d (call_Name call) of None \<Rightarrow> True | Some t \<Rightarrow> it_safety t = Serial)"

definition aborted :: "ToolCall \<Rightarrow> ToolResult" where
  "aborted call = failedToolResult (call_ID call) ''tool_batch_aborted'' ''tool batch stopped after a component contract violation''"

text \<open>
  The loop of \<^verbatim>\<open>dispatchPreparedAuthorized\<close> from position \<open>index\<close> with the calls that are left. Its next
  group is one call, or the calls up to the first that is not declared parallel-safe; a tool with neither
  declaration would leave the group empty and the loop would not end.
\<close>

partial_function (option) dispatchLoop ::
    "(ToolCall \<Rightarrow> nat \<Rightarrow> ToolResult \<times> bool \<times> 'b event list) \<Rightarrow> 'b toolDispatcher \<Rightarrow> nat \<Rightarrow> ToolCall list \<Rightarrow> bool \<Rightarrow> 'b toolDispatchOutcome option" where
  "dispatchLoop run d index calls violated =
     (if calls = [] then Some \<lparr>out_results = [], out_contractViolation = violated, out_groups = []\<rparr>
      else if violated then Some \<lparr>out_results = map aborted calls, out_contractViolation = True, out_groups = []\<rparr>
      else let size = (if runsAlone d (hd calls) then 1 else length (takeWhile (parallelSafe d) calls));
               group = map (\<lambda>i. run (calls ! i) (index + i)) [0..<size] in
        Option.bind (dispatchLoop run d (index + size) (drop size calls) (\<exists>g \<in> set group. fst (snd g)))
          (\<lambda>rest. Some \<lparr>out_results = map fst group @ out_results rest, out_contractViolation = out_contractViolation rest,
                        out_groups = map (snd \<circ> snd) group # out_groups rest\<rparr>))"

definition dispatchPreparedAuthorized ::
    "(string \<Rightarrow> string \<Rightarrow> bool) \<Rightarrow> 'b toolDispatcher \<Rightarrow> ToolCall list \<Rightarrow> toolPreflightAuthorization list \<Rightarrow>
     (ToolCall \<Rightarrow> string option) option \<Rightarrow> Scope \<Rightarrow> 'b option \<Rightarrow> 'b toolDispatchOutcome option" where
  "dispatchPreparedAuthorized accepts d calls preflight before scope boundary =
     dispatchLoop (\<lambda>call i. invoke accepts d before scope boundary call (authorizationAt preflight i)) d 0 calls False"

definition dispatchPrepared ::
    "(string \<Rightarrow> string \<Rightarrow> bool) \<Rightarrow> 'b toolDispatcher \<Rightarrow> ToolCall list \<Rightarrow> (ToolCall \<Rightarrow> string option) option \<Rightarrow> Scope \<Rightarrow> 'b option \<Rightarrow>
     'b toolDispatchOutcome option" where
  "dispatchPrepared accepts d calls before scope boundary = dispatchPreparedAuthorized accepts d calls [] before scope boundary"

text \<open>The traces of a batch.\<close>

primrec interleavings :: "'a list list \<Rightarrow> 'a list set" where
  "interleavings [] = {[]}"
| "interleavings (xs # xss) = (\<Union>ys \<in> interleavings xss. shuffles xs ys)"

primrec group_traces :: "'a list list list \<Rightarrow> 'a list set" where
  "group_traces [] = {[]}"
| "group_traces (g # gs) = {u @ v | u v. u \<in> interleavings g \<and> v \<in> group_traces gs}"

definition traces :: "'b toolDispatchOutcome \<Rightarrow> 'b event list set" where
  "traces out = group_traces (out_groups out)"

end
