(* ===== verification/Loop_Driver.thy ===== *)
theory Loop_Driver
  imports Loop_Contracts Tool_Dispatch Session_Contracts
begin

text \<open>
  \<^verbatim>\<open>standardagent/loop_module.go\<close> and the loop driver of \<^verbatim>\<open>standardagent/runtime_execution.go\<close>: the handle
  through which an agent loop advances one Run (\<^verbatim>\<open>runtimeLoopRun\<close>), the standard loop, and how the runtime
  concludes a Run from what a loop did and returned. The runtime operations behind an action (request the
  model, evaluate preflights, dispatch tools, commit results) are functions of a world \<open>'w\<close> that they also
  change; a loop is arbitrary code, so it is any sequence of the steps of the driver, from any goroutine.
\<close>

section \<open>Errors and terminations\<close>

text \<open>What the runtime observes of a Go error: \<^verbatim>\<open>errors.Is\<close> for the sentinels it tests, and \<^verbatim>\<open>errors.As\<close>.\<close>

record RunError =
  re_canceled :: bool
  re_deadline :: bool
  re_budget :: bool
  re_classified :: "ClassifiedError option"

definition plainError :: RunError where
  "plainError = \<lparr>re_canceled = False, re_deadline = False, re_budget = False, re_classified = None\<rparr>"

definition error_KindOf :: "RunError \<Rightarrow> ErrorKind" where
  "error_KindOf e = (case re_classified e of Some c \<Rightarrow> KindOf c | None \<Rightarrow> ErrorInternal)"

definition error_CodeOf :: "RunError \<Rightarrow> ErrorCode" where
  "error_CodeOf e = (case re_classified e of Some c \<Rightarrow> err_Code c | None \<Rightarrow> '''')"

definition fixedRunTermination :: "TerminationSource \<Rightarrow> ErrorKind \<Rightarrow> ErrorCode \<Rightarrow> RunTermination" where
  "fixedRunTermination source kind code = \<lparr>term_Source = source, term_Kind = kind, term_Code = code, term_SafeMessage = ''''\<rparr>"

definition canceledRunTermination :: RunTermination where
  "canceledRunTermination = fixedRunTermination TerminationRuntime ErrorCanceled CodeCanceled"

definition budgetRunTermination :: RunTermination where
  "budgetRunTermination = fixedRunTermination TerminationBudget ErrorUnavailable CodeRunTokenBudgetExceeded"

definition runLimitTermination :: "ErrorCode \<Rightarrow> RunTermination" where
  "runLimitTermination code = fixedRunTermination TerminationBudget ErrorUnavailable code"

definition loopProtocolViolation :: RunTermination where
  "loopProtocolViolation = fixedRunTermination TerminationLoop ErrorInternal ''loop_protocol_violation''"

definition terminationFromError :: "TerminationSource \<Rightarrow> ErrorCode \<Rightarrow> RunError \<Rightarrow> RunTermination" where
  "terminationFromError source fallback e =
     (if re_canceled e then canceledRunTermination
      else let kind1 = (if re_deadline e then ErrorDeadline else error_KindOf e);
               kind = (if ErrorKind_Valid kind1 then kind1 else ErrorInternal);
               code = (if error_CodeOf e = '''' then fallback else error_CodeOf e);
               termination = fixedRunTermination source kind code in
        (case re_classified e of
           Some c \<Rightarrow> if err_Message c \<noteq> '''' \<and> RunTermination_Validate (termination\<lparr>term_SafeMessage := err_Message c\<rparr>) = None
                     then termination\<lparr>term_SafeMessage := err_Message c\<rparr> else termination
         | None \<Rightarrow> termination))"

text \<open>\<^verbatim>\<open>toolPreflightBatchFailure\<close> and \<^verbatim>\<open>toolResultHookFailure\<close> have the same shape and the same termination.\<close>

record HookFailure =
  hf_code :: ErrorCode
  hf_reason :: string

definition hookTermination :: "HookFailure \<Rightarrow> RunTermination" where
  "hookTermination f = (let t = \<lparr>term_Source = TerminationExtension, term_Kind = ErrorUnavailable, term_Code = hf_code f, term_SafeMessage = hf_reason f\<rparr> in
     if RunTermination_Validate t \<noteq> None then t\<lparr>term_SafeMessage := ''''\<rparr> else t)"

section \<open>States, steps and outcomes\<close>

datatype stepOutcome = stepNatural | stepContinue | stepFailed | stepCanceled | stepBudgetExceeded | stepWaiting | stepToolsReady

definition loopOutcomeFromState :: "State \<Rightarrow> Outcome" where
  "loopOutcomeFromState state = (case state of
      StateCompleted \<Rightarrow> OutcomeCompleted | StateCanceled \<Rightarrow> OutcomeCanceled | StateBudgetExceeded \<Rightarrow> OutcomeBudgetExceeded
    | StateWaiting \<Rightarrow> OutcomeWaiting | StateFailed \<Rightarrow> OutcomeFailed | _ \<Rightarrow> OutcomeContinue)"

definition loopStateFromStep :: "stepOutcome \<Rightarrow> State" where
  "loopStateFromStep s = (case s of
      stepContinue \<Rightarrow> StateContinueReady | stepNatural \<Rightarrow> StateCompleted | stepCanceled \<Rightarrow> StateCanceled
    | stepBudgetExceeded \<Rightarrow> StateBudgetExceeded | stepWaiting \<Rightarrow> StateWaiting | stepToolsReady \<Rightarrow> StateToolsReady | _ \<Rightarrow> StateFailed)"

definition stepOutcomeFromLoop :: "Outcome \<Rightarrow> stepOutcome" where
  "stepOutcomeFromLoop o1 = (case o1 of
      OutcomeCompleted \<Rightarrow> stepNatural | OutcomeCanceled \<Rightarrow> stepCanceled | OutcomeBudgetExceeded \<Rightarrow> stepBudgetExceeded
    | OutcomeWaiting \<Rightarrow> stepWaiting | _ \<Rightarrow> stepFailed)"

definition finishAllowed :: "State \<Rightarrow> Outcome \<Rightarrow> bool" where
  "finishAllowed state o1 =
     (if state = StateReadyForModel \<or> state = StateContinueReady then o1 = OutcomeCompleted \<or> o1 = OutcomeFailed
      else loopOutcomeFromState state = o1)"

section \<open>The driver\<close>

record runtimeLoopRun =
  lr_step :: StepID
  lr_closed :: bool
  lr_active :: bool
  lr_terminal :: bool
  lr_outcome :: Outcome
  lr_state :: State
  lr_nextStep :: StepID
  lr_pendingTools :: "ToolCall list"
  lr_termination :: "RunTermination option"

definition newLoopRun :: "StepID \<Rightarrow> ToolCall list \<Rightarrow> runtimeLoopRun" where
  "newLoopRun step prepared = \<lparr>lr_step = step, lr_closed = False, lr_active = False, lr_terminal = False, lr_outcome = Outcome_other '''',
     lr_state = (if prepared = [] then State_other '''' else StateToolsReady), lr_nextStep = '''', lr_pendingTools = prepared, lr_termination = None\<rparr>"

definition driver_State :: "runtimeLoopRun \<Rightarrow> State" where
  "driver_State r = (if lr_state r = State_other '''' then StateReadyForModel else lr_state r)"

definition beginAction :: "runtimeLoopRun \<Rightarrow> string + runtimeLoopRun" where
  "beginAction r =
     guardE (check (lr_closed r) ''standardagent: AgentLoop submitted an action after Run returned'')
      (guardE (check (lr_active r) ''standardagent: AgentLoop submitted concurrent actions'') (Inr (r\<lparr>lr_active := True\<rparr>)))"

definition endAction :: "runtimeLoopRun \<Rightarrow> runtimeLoopRun" where
  "endAction r = r\<lparr>lr_active := False\<rparr>"

text \<open>The runtime operations an action uses, over a world that also holds the two contexts.\<close>

record 'w RunOps =
  op_ctxErr :: "'w \<Rightarrow> RunError option"
  op_runErr :: "'w \<Rightarrow> RunError option"
  op_requestModel :: "StepID \<Rightarrow> 'w \<Rightarrow> (stepOutcome \<times> StepID \<times> ToolCall list \<times> RunTermination option) \<times> 'w"
  op_preflights :: "ToolCall list \<Rightarrow> 'w \<Rightarrow> (toolPreflightAuthorization list \<times> HookFailure option \<times> RunError option) \<times> 'w"
  op_dispatch :: "ToolCall list \<Rightarrow> toolPreflightAuthorization list \<Rightarrow> 'w \<Rightarrow> (ToolResult list \<times> bool) \<times> 'w"
  op_commitToolResults :: "ToolCall list \<Rightarrow> ToolResult list \<Rightarrow> 'w \<Rightarrow> (StepID \<times> HookFailure option \<times> bool \<times> RunError option) \<times> 'w"

definition preflightFailedResults :: "ToolCall list \<Rightarrow> ToolResult list" where
  "preflightFailedResults calls =
     map (\<lambda>c. failedToolResult (call_ID c) ''tool_preflight_failed'' ''tool batch stopped because authorization advice failed'') calls"

type_synonym 'w acted = "(State \<times> RunError option) \<times> runtimeLoopRun \<times> 'w"

definition refuse :: "runtimeLoopRun \<Rightarrow> 'w \<Rightarrow> 'w acted" where
  "refuse r w = ((StateFailed, Some plainError), r, w)"

definition actRequestModel :: "'w RunOps \<Rightarrow> runtimeLoopRun \<Rightarrow> 'w \<Rightarrow> 'w acted" where
  "actRequestModel ops r w =
     (if lr_state r \<noteq> StateReadyForModel then refuse r w
      else let ((step, next, calls, termination), w') = op_requestModel ops (lr_step r) w in
        ((loopStateFromStep step, None),
         r\<lparr>lr_nextStep := next, lr_pendingTools := calls, lr_termination := termination, lr_state := loopStateFromStep step\<rparr>, w'))"

definition actContinue :: "runtimeLoopRun \<Rightarrow> 'w \<Rightarrow> 'w acted" where
  "actContinue r w =
     (if lr_state r \<noteq> StateContinueReady \<or> \<not> validID (lr_nextStep r) then refuse r w
      else ((StateReadyForModel, None), r\<lparr>lr_step := lr_nextStep r, lr_nextStep := '''', lr_state := StateReadyForModel\<rparr>, w))"

definition settleTools ::
    "runtimeLoopRun \<Rightarrow> HookFailure option \<Rightarrow> bool \<Rightarrow> StepID \<Rightarrow> HookFailure option \<Rightarrow> bool \<Rightarrow> RunError option \<Rightarrow> runtimeLoopRun" where
  "settleTools r preflightFailure violation next postFailure canceled e =
     (case (e, preflightFailure, postFailure, violation) of
        (Some x, _) \<Rightarrow> r\<lparr>lr_pendingTools := [], lr_state := StateFailed, lr_termination := Some (terminationFromError TerminationSession ''session_operation_failed'' x)\<rparr>
      | (None, Some f, _) \<Rightarrow> r\<lparr>lr_pendingTools := [], lr_state := StateFailed, lr_termination := Some (hookTermination f)\<rparr>
      | (None, None, Some f, _) \<Rightarrow> r\<lparr>lr_pendingTools := [], lr_state := StateFailed, lr_termination := Some (hookTermination f)\<rparr>
      | (None, None, None, True) \<Rightarrow> r\<lparr>lr_pendingTools := [], lr_state := StateFailed,
            lr_termination := Some (fixedRunTermination TerminationTool ErrorInternal ''tool_execution_failed'')\<rparr>
      | (None, None, None, False) \<Rightarrow>
          if canceled then r\<lparr>lr_pendingTools := [], lr_state := StateCanceled, lr_termination := Some canceledRunTermination\<rparr>
          else r\<lparr>lr_pendingTools := [], lr_nextStep := next, lr_state := StateContinueReady\<rparr>)"

definition actExecuteTools :: "'w RunOps \<Rightarrow> runtimeLoopRun \<Rightarrow> 'w \<Rightarrow> 'w acted" where
  "actExecuteTools ops r w =
     (if lr_state r \<noteq> StateToolsReady \<or> lr_pendingTools r = [] then refuse r w
      else let calls = lr_pendingTools r; ((preflight, preflightFailure, preflightErr), w1) = op_preflights ops calls w;
               ((results, violation), w2) =
                 (if preflightErr = None \<and> preflightFailure = None then op_dispatch ops calls preflight w1
                  else ((if preflightFailure = None then [] else preflightFailedResults calls, False), w1)) in
        (case preflightErr of
           Some e \<Rightarrow> ((StateFailed, Some e), r\<lparr>lr_pendingTools := [], lr_state := StateFailed,
             lr_termination := Some (terminationFromError TerminationSession ''session_operation_failed'' e)\<rparr>, w2)
         | None \<Rightarrow>
             let ((next, postFailure, canceled, e), w3) = op_commitToolResults ops calls results w2;
                 r' = settleTools r preflightFailure violation next postFailure canceled e in
             ((lr_state r', e), r', w3)))"

definition actWait :: "runtimeLoopRun \<Rightarrow> 'w \<Rightarrow> 'w acted" where
  "actWait r w =
     (if lr_state r \<noteq> StateReadyForModel \<and> lr_state r \<noteq> StateContinueReady then refuse r w
      else ((StateWaiting, None), r\<lparr>lr_state := StateWaiting, lr_terminal := True, lr_outcome := OutcomeWaiting,
             lr_termination := Some (fixedRunTermination TerminationLoop ErrorUnavailable ''run_waiting'')\<rparr>, w))"

definition finishTermination :: "Outcome \<Rightarrow> RunTermination option \<Rightarrow> RunTermination option" where
  "finishTermination o1 t =
     (if o1 = OutcomeFailed \<and> t = None then Some (fixedRunTermination TerminationLoop ErrorInternal ''loop_failed'')
      else if o1 = OutcomeCanceled then Some canceledRunTermination
      else if o1 = OutcomeBudgetExceeded \<and> t = None then Some budgetRunTermination else t)"

definition actFinish :: "Outcome \<Rightarrow> runtimeLoopRun \<Rightarrow> 'w \<Rightarrow> 'w acted" where
  "actFinish o1 r w =
     (if \<not> finishAllowed (lr_state r) o1 then refuse r w
      else ((lr_state r, None), r\<lparr>lr_terminal := True, lr_outcome := o1, lr_termination := finishTermination o1 (lr_termination r)\<rparr>, w))"

text \<open>What an admitted action does, between \<^verbatim>\<open>beginAction\<close> and \<^verbatim>\<open>endAction\<close>.\<close>

definition perform :: "'w RunOps \<Rightarrow> Loop_Contracts.Action \<Rightarrow> runtimeLoopRun \<Rightarrow> 'w \<Rightarrow> 'w acted" where
  "perform ops a r w =
     (if lr_terminal r then refuse r w
      else let r0 = r\<lparr>lr_state := driver_State r\<rparr> in
        (case la_Kind a of
           ActionRequestModel \<Rightarrow> actRequestModel ops r0 w
         | ActionContinue \<Rightarrow> actContinue r0 w
         | ActionExecuteTools \<Rightarrow> actExecuteTools ops r0 w
         | ActionWait \<Rightarrow> actWait r0 w
         | ActionFinish \<Rightarrow> actFinish (la_Outcome a) r0 w
         | LoopAction_other _ \<Rightarrow> refuse r0 w))"

definition Act :: "'w RunOps \<Rightarrow> Loop_Contracts.Action \<Rightarrow> runtimeLoopRun \<Rightarrow> 'w \<Rightarrow> 'w acted" where
  "Act ops a r w =
     (case op_ctxErr ops w of Some e \<Rightarrow> ((StateCanceled, Some e), r, w)
    | None \<Rightarrow> (case op_runErr ops w of Some e \<Rightarrow> ((StateCanceled, Some e), r, w)
    | None \<Rightarrow> if Loop_Contracts.Action_Validate a \<noteq> None then refuse r w
        else (case beginAction r of
            Inl e \<Rightarrow> refuse r w
          | Inr r1 \<Rightarrow> (let (answer, r2, w2) = perform ops a r1 w in (answer, endAction r2, w2)))))"

section \<open>Step and the standard loop\<close>

text \<open>
  \<^verbatim>\<open>Step\<close>, called from one goroutine: up to three actions, then the finish. Each submits its action when
  the state asks for it, and an error of an action ends the step.
\<close>

definition actWhen :: "'w RunOps \<Rightarrow> State \<Rightarrow> Loop_Contracts.ActionKind \<Rightarrow> 'w acted \<Rightarrow> 'w acted" where
  "actWhen ops wanted k cur = (case cur of
      ((s, None), r, w) \<Rightarrow> if s = wanted then Act ops (action k) r w else cur
    | _ \<Rightarrow> cur)"

definition driver_Step :: "'w RunOps \<Rightarrow> runtimeLoopRun \<Rightarrow> 'w \<Rightarrow> (Outcome \<times> RunError option) \<times> runtimeLoopRun \<times> 'w" where
  "driver_Step ops r w =
     (case actWhen ops StateToolsReady ActionExecuteTools (actWhen ops StateReadyForModel ActionRequestModel
             (actWhen ops StateContinueReady ActionContinue ((driver_State r, None), r, w))) of
        ((s, Some e), r', w') \<Rightarrow> ((OutcomeFailed, Some e), r', w')
      | ((s, None), r', w') \<Rightarrow>
          if s = StateContinueReady then ((OutcomeContinue, None), r', w')
          else let o1 = loopOutcomeFromState s in
            if \<not> Outcome_Terminal o1 then ((OutcomeFailed, Some plainError), r', w')
            else if o1 = OutcomeWaiting then ((o1, None), r', w')
            else (case Act ops (finish o1) r' w' of
                ((_, Some e), r2, w2) \<Rightarrow> ((OutcomeFailed, Some e), r2, w2)
              | ((_, None), r2, w2) \<Rightarrow> ((o1, None), r2, w2)))"

definition standardAction :: "State \<Rightarrow> Loop_Contracts.ActionKind option" where
  "standardAction state = (case state of
      StateToolsReady \<Rightarrow> Some ActionExecuteTools | StateContinueReady \<Rightarrow> Some ActionContinue | StateReadyForModel \<Rightarrow> Some ActionRequestModel | _ \<Rightarrow> None)"

partial_function (option) standardLoop ::
    "'w RunOps \<Rightarrow> State \<Rightarrow> runtimeLoopRun \<Rightarrow> 'w \<Rightarrow> ((Outcome \<times> RunError option) \<times> runtimeLoopRun \<times> 'w) option" where
  "standardLoop ops state r w = (case standardAction state of
      Some k \<Rightarrow> (case Act ops (action k) r w of
          ((s, Some e), r', w') \<Rightarrow> Some ((OutcomeFailed, Some e), r', w')
        | ((s, None), r', w') \<Rightarrow> standardLoop ops s r' w')
    | None \<Rightarrow> (let o1 = loopOutcomeFromState state in
        if Outcome_Terminal o1 then (case Act ops (finish o1) r w of
            ((s, Some e), r', w') \<Rightarrow> Some ((OutcomeFailed, Some e), r', w')
          | ((s, None), r', w') \<Rightarrow> Some ((o1, None), r', w'))
        else Some ((OutcomeFailed, Some plainError), r, w)))"

definition standardLoop_Run :: "'w RunOps \<Rightarrow> runtimeLoopRun \<Rightarrow> 'w \<Rightarrow> ((Outcome \<times> RunError option) \<times> runtimeLoopRun \<times> 'w) option" where
  "standardLoop_Run ops r w = standardLoop ops (driver_State r) r w"

section \<open>The conclusion of a Run\<close>

definition invokeAgentLoop :: "(Outcome \<times> RunError option) answer \<Rightarrow> Outcome \<times> RunError option" where
  "invokeAgentLoop a = (case a of Returned x \<Rightarrow> x | Panicked \<Rightarrow> (OutcomeFailed, Some plainError))"

text \<open>
  The body of \<^verbatim>\<open>runLoopWithPrepared\<close> between the return of the loop and \<^verbatim>\<open>finishRun\<close>: \<open>escaped\<close> is what
  \<^verbatim>\<open>closeActions\<close> returns, \<open>ctxDone\<close> whether the context of the Run has ended.
\<close>

definition conclude :: "runtimeLoopRun \<Rightarrow> bool \<Rightarrow> bool \<Rightarrow> (Outcome \<times> RunError option) answer \<Rightarrow> Outcome \<times> RunTermination option" where
  "conclude r escaped ctxDone a =
     (let (returned, e) = invokeAgentLoop a;
          (o1, termination) = (case e of
             None \<Rightarrow> (returned, lr_termination r)
           | Some x \<Rightarrow> if re_canceled x \<or> ctxDone then (OutcomeCanceled, Some canceledRunTermination)
                       else (OutcomeFailed, Some (terminationFromError TerminationLoop ''loop_failed'' x))) in
      if escaped \<or> \<not> Outcome_Terminal o1 \<or> \<not> lr_terminal r \<or> lr_outcome r \<noteq> o1
      then (OutcomeFailed, Some loopProtocolViolation) else (o1, termination))"

section \<open>Any loop\<close>

text \<open>
  The driver under an arbitrary loop: actions may be submitted from any goroutine at any time, the one that is
  admitted is in flight until it ends, the runtime may close the driver while it is, and the world may change
  on its own. Refused submissions change nothing.
\<close>

datatype flight = Idle | Submitted Loop_Contracts.Action | Done

type_synonym 'w driver = "runtimeLoopRun \<times> flight \<times> 'w"

text \<open>The runtime operations that an action performs are logged with their results.\<close>

datatype runtime_op =
    Requested StepID stepOutcome StepID "ToolCall list"
  | Executed "ToolCall list" State StepID

definition performed :: "'w RunOps \<Rightarrow> Loop_Contracts.Action \<Rightarrow> runtimeLoopRun \<Rightarrow> 'w \<Rightarrow> runtime_op list" where
  "performed ops a r w =
     (if lr_terminal r then []
      else if la_Kind a = ActionRequestModel \<and> driver_State r = StateReadyForModel then
        (let ((step, next, calls, termination), w') = op_requestModel ops (lr_step r) w in [Requested (lr_step r) step next calls])
      else if la_Kind a = ActionExecuteTools \<and> driver_State r = StateToolsReady \<and> lr_pendingTools r \<noteq> [] then
        (let (answer, r', w') = perform ops a r w in [Executed (lr_pendingTools r) (lr_state r') (lr_nextStep r')])
      else [])"

inductive driver_step :: "'w RunOps \<Rightarrow> 'w driver \<Rightarrow> runtime_op list \<Rightarrow> 'w driver \<Rightarrow> bool" for ops :: "'w RunOps" where
  admit: "Loop_Contracts.Action_Validate a = None \<Longrightarrow> beginAction r = Inr r' \<Longrightarrow> driver_step ops (r, p, w) [] (r', Submitted a, w)"
| work: "perform ops a r w = (answer, r', w') \<Longrightarrow> driver_step ops (r, Submitted a, w) (performed ops a r w) (r', Done, w')"
| complete: "driver_step ops (r, Done, w) [] (endAction r, Idle, w)"
| close: "driver_step ops (r, p, w) [] (r\<lparr>lr_closed := True\<rparr>, p, w)"
| world: "driver_step ops (r, p, w) [] (r, p, w')"

inductive driver_run :: "'w RunOps \<Rightarrow> 'w driver \<Rightarrow> runtime_op list \<Rightarrow> 'w driver \<Rightarrow> bool" for ops :: "'w RunOps" where
  start: "driver_run ops d [] d"
| extend: "driver_run ops d log d' \<Longrightarrow> driver_step ops d' l d'' \<Longrightarrow> driver_run ops d (log @ l) d''"

inductive_cases driver_stepE: "driver_step ops d l d'"

end
