(* ===== verification/Dispatch_Guarantees.thy ===== *)
theory Dispatch_Guarantees
  imports Tool_Dispatch "HOL-Library.Sublist" "HOL-Library.Multiset"
begin

text \<open>
  What the tool dispatcher guarantees whatever its components answer: the exact condition under which a call is
  authorized, one valid result per call, execution only of authorized and durably marked calls, exclusive
  execution of serial tools and the stop after a broken contract. The theorems about order hold for every
  interleaving of the goroutines of a parallel group.
\<close>

section \<open>Authorization\<close>

definition guard_allows :: "Action \<Rightarrow> PolicyGuard \<Rightarrow> bool" where
  "guard_allows action g = (case g action of Returned (Inr d) \<Rightarrow> Decision_Validate d = None \<and> dec_Effect d \<noteq> Deny | _ \<Rightarrow> False)"

definition guard_reason :: "Action \<Rightarrow> PolicyGuard \<Rightarrow> string list" where
  "guard_reason action g = (case g action of Returned (Inr d) \<Rightarrow> if dec_Effect d = RequireApproval then [dec_Reason d] else [] | _ \<Rightarrow> [])"

definition approved :: "ApprovalService option \<Rightarrow> ApprovalRequest \<Rightarrow> bool" where
  "approved service request = (case service of None \<Rightarrow> False | Some s \<Rightarrow> (case s request of Returned (Inr a) \<Rightarrow> ad_Approved a | _ \<Rightarrow> False))"

lemma consultGuards_Inr:
  "consultGuards call action gs rs = Inr rs' \<longleftrightarrow> list_all (guard_allows action) gs \<and> rs' = rs @ concat (map (guard_reason action) gs)"
proof (induction gs arbitrary: rs)
  case (Cons g gs)
  then show ?case
    by (cases "g action") (auto simp: evaluateGuard_def guard_allows_def guard_reason_def Decision_Validate_def split: sum.splits Effect.splits)
qed auto

text \<open>
  C21. The dispatcher lets a tool run exactly when the proposal is complete, no preflight denied it, every guard
  answers with a well-formed decision other than a denial, and, when the preflights or the guards ask for
  approval, an installed approval service approves the request that lists all their reasons in order. A
  guard or approval service that panics, fails or answers nonsense refuses the call.
\<close>

theorem authorize_exact:
  "fst (authorize d call scope preflight) = None \<longleftrightarrow>
   (let action = proposal call scope;
        reasons = tpa_approvalReasons preflight @ concat (map (guard_reason action) (td_guards d)) in
    Action_Validate action = None \<and> \<not> tpa_denied preflight \<and> list_all (guard_allows action) (td_guards d) \<and>
    (reasons = [] \<or> approved (td_approval d) \<lparr>ar_Action = action, ar_Reason = join_reasons reasons\<rparr>))"
proof -
  let ?a = "proposal call scope"
  let ?rs = "tpa_approvalReasons preflight @ concat (map (guard_reason ?a) (td_guards d))"
  show ?thesis
  proof (cases "consultGuards call ?a (td_guards d) (tpa_approvalReasons preflight)")
    case (Inl e)
    then have "\<not> list_all (guard_allows ?a) (td_guards d)" using consultGuards_Inr [of call ?a "td_guards d" "tpa_approvalReasons preflight" ?rs] by simp
    with Inl show ?thesis by (cases e) (simp add: authorize_def Let_def)
  next
    case (Inr rs)
    then have rs: "list_all (guard_allows ?a) (td_guards d)" "rs = ?rs" by (auto simp: consultGuards_Inr)
    have "fst (authorize d call scope preflight) = None \<longleftrightarrow> Action_Validate ?a = None \<and> \<not> tpa_denied preflight \<and>
        (rs = [] \<or> approved (td_approval d) \<lparr>ar_Action = ?a, ar_Reason = join_reasons rs\<rparr>)"
      using Inr by (cases rs) (simp_all add: authorize_def Let_def approved_def decideApproval_def split: option.split answer.split sum.split)
    with rs show ?thesis by (simp add: Let_def)
  qed
qed

section \<open>One call\<close>

lemma failedToolResult_simps [simp]:
  "res_CallID (failedToolResult i c m) = i" "res_Status (failedToolResult i c m) = ResultFailed"
  by (simp_all add: failedToolResult_def)

lemma failedToolResult_valid: "validID i \<Longrightarrow> 0 < n \<Longrightarrow> c \<noteq> '''' \<Longrightarrow> m \<noteq> '''' \<Longrightarrow> ToolResult_ValidateWithin (failedToolResult i c m) n = None"
  by (simp add: failedToolResult_def ToolResult_ValidateWithin_def ToolResult_Validate_def)

definition result_ok :: "'b toolDispatcher \<Rightarrow> ToolCall \<Rightarrow> ToolResult \<Rightarrow> bool" where
  "result_ok d call r \<longleftrightarrow> res_CallID r = call_ID call \<and> res_Status r \<noteq> ResultUnknown \<and>
     (validID (call_ID call) \<longrightarrow> 0 < td_maxInlineOutputBytes d \<longrightarrow> ToolResult_ValidateWithin r (td_maxInlineOutputBytes d) = None)"

lemma result_ok_failed: "c \<noteq> '''' \<Longrightarrow> m \<noteq> '''' \<Longrightarrow> result_ok d call (failedToolResult (call_ID call) c m)"
  by (simp add: result_ok_def failedToolResult_valid)

lemma consultGuards_Inl: "consultGuards call action gs rs = Inl (s, r) \<Longrightarrow> result_ok d call r"
  by (induction gs arbitrary: rs) (auto simp: result_ok_failed split: sum.splits if_splits Effect.splits)

lemma authorize_events: "authorize d call scope p = (r, es) \<Longrightarrow> set es \<subseteq> range (Audited call) \<union> range Asked"
  by (auto simp: authorize_def Let_def split: if_splits sum.splits list.splits option.splits)

lemma authorize_result: "authorize d call scope p = (Some r, es) \<Longrightarrow> result_ok d call r"
  by (auto simp: authorize_def Let_def result_ok_failed consultGuards_Inl split: if_splits sum.splits list.splits option.splits)

lemma settleResult_ok: "settleResult d call a = (r, v) \<Longrightarrow> result_ok d call r"
  by (auto simp: settleResult_def result_ok_failed result_ok_def failedToolResult_valid split: answer.splits if_splits)

lemma invoke_result: "result_ok d call (fst (invoke accepts d before scope boundary call p))"
  by (auto simp: invoke_def validateCall_def Let_def result_ok_failed authorize_result settleResult_ok split: option.splits prod.splits if_splits)

text \<open>What the events of one call are: refused calls leave only audit records, executed calls are marked first.\<close>

lemma invoke_events:
  assumes "invoke accepts d before scope boundary call p = (r, v, es)"
  shows "(\<exists>as ms. es = as @ ms \<and> set as \<subseteq> range (Audited call) \<union> range Asked \<and> set ms \<subseteq> range (Marked call) \<and> \<not> v) \<or>
     (\<exists>as. es = as @ (if before = None then [] else [Marked call None]) @ [Started call, Invoked (invocation d call scope boundary), Completed call r] \<and>
        set as \<subseteq> range (Audited call) \<union> range Asked \<and> validateCall accepts d call = None \<and> fst (authorize d call scope p) = None \<and>
        (\<forall>f. before = Some f \<longrightarrow> f call = None))"
proof (cases "validateCall accepts d call")
  case (Some x)
  then show ?thesis using assms by (auto simp: invoke_def)
next
  case None
  obtain a as where a: "authorize d call scope p = (a, as)" by fastforce
  note as = authorize_events [OF a]
  show ?thesis
  proof (cases a)
    case (Some x)
    then have "es = as \<and> \<not> v" using assms None a by (auto simp: invoke_def)
    then show ?thesis using as by (intro disjI1 exI [of _ as] exI [of _ "[]"]) simp
  next
    case no: None
    show ?thesis
    proof (cases "\<exists>f. before = Some f \<and> f call \<noteq> None")
      case True
      then obtain f e where "before = Some f" "f call = Some e" by blast
      then have "es = as @ [Marked call (Some e)] \<and> \<not> v" using assms None a no by (auto simp: invoke_def Let_def)
      then show ?thesis using as by (intro disjI1 exI [of _ as] exI [of _ "[Marked call (Some e)]"]) simp
    next
      case False
      then show ?thesis using assms None a as no by (cases before) (auto simp: invoke_def Let_def split: prod.splits)
    qed
  qed
qed

lemma surjective_pairings: "x = (fst x, fst (snd x), snd (snd x))"
  by simp

lemma invoked_call:
  assumes "invoke accepts d (Some mark) scope boundary call p = (r, v, es)" "Invoked x \<in> set es"
  shows "\<exists>as. es = as @ [Marked call None, Started call, Invoked x, Completed call r] \<and> set as \<subseteq> range (Audited call) \<union> range Asked \<and>
     x = invocation d call scope boundary \<and> validateCall accepts d call = None \<and> fst (authorize d call scope p) = None \<and> mark call = None"
  using invoke_events [OF assms(1)] assms(2) by auto

section \<open>Batches\<close>

text \<open>The outcomes of the calls, as the loop would compute them all, and the events of an outcome.\<close>

definition runsFrom :: "(ToolCall \<Rightarrow> nat \<Rightarrow> ToolResult \<times> bool \<times> 'b event list) \<Rightarrow> nat \<Rightarrow> ToolCall list \<Rightarrow> (ToolResult \<times> bool \<times> 'b event list) list" where
  "runsFrom run index calls = map2 run calls [index..<index + length calls]"

abbreviation events_of :: "ToolResult \<times> bool \<times> 'b event list \<Rightarrow> 'b event list" where
  "events_of x \<equiv> snd (snd x)"

lemma runsFrom_simps [simp]:
  "length (runsFrom run index calls) = length calls" "runsFrom run index [] = []"
  "i < length calls \<Longrightarrow> runsFrom run index calls ! i = run (calls ! i) (index + i)"
  by (simp_all add: runsFrom_def)

lemma runsFrom_drop: "s \<le> length calls \<Longrightarrow> drop s (runsFrom run index calls) = runsFrom run (index + s) (drop s calls)"
  by (rule nth_equalityI) (auto simp: add.assoc)

text \<open>
  \<open>batch d run index calls violated n out\<close>: the outcome of a loop that started \<open>n\<close> calls. The first \<open>n\<close>
  results and events are theirs, the rest are aborted; a call that runs alone has a group of its own; after a
  violation only the rest of the same parallel group is started.
\<close>

definition batch :: "'b toolDispatcher \<Rightarrow> (ToolResult \<times> bool \<times> 'b event list) list \<Rightarrow> ToolCall list \<Rightarrow> bool \<Rightarrow> nat \<Rightarrow> 'b toolDispatchOutcome \<Rightarrow> bool" where
  "batch d rs calls violated n out \<longleftrightarrow> n \<le> length calls \<and>
     out_results out = map fst (take n rs) @ map aborted (drop n calls) \<and>
     concat (out_groups out) = map events_of (take n rs) \<and>
     (out_contractViolation out \<longleftrightarrow> violated \<or> (\<exists>x \<in> set (take n rs). fst (snd x))) \<and>
     (n < length calls \<longrightarrow> out_contractViolation out) \<and> (violated \<longrightarrow> n = 0) \<and>
     (\<forall>i < n. runsAlone d (calls ! i) \<longrightarrow> (\<exists>gs hs. out_groups out = gs @ [events_of (rs ! i)] # hs \<and>
        concat gs = map events_of (take i rs) \<and> concat hs = map events_of (drop (Suc i) (take n rs)))) \<and>
     (\<forall>i < n. fst (snd (rs ! i)) \<longrightarrow> (\<forall>j. i < j \<longrightarrow> j < n \<longrightarrow> parallelSafe d (calls ! j) \<and> parallelSafe d (calls ! i)))"

lemma batch_alone:
  "batch d rs calls violated n out \<Longrightarrow> i < n \<Longrightarrow> runsAlone d (calls ! i) \<Longrightarrow> \<exists>gs hs. out_groups out = gs @ [events_of (rs ! i)] # hs \<and>
     concat gs = map events_of (take i rs) \<and> concat hs = map events_of (drop (Suc i) (take n rs))"
  unfolding batch_def by blast

lemma batch_stop:
  "batch d rs calls violated n out \<Longrightarrow> i < j \<Longrightarrow> j < n \<Longrightarrow> fst (snd (rs ! i)) \<Longrightarrow> parallelSafe d (calls ! j) \<and> parallelSafe d (calls ! i)"
  unfolding batch_def by (meson order_less_trans)

definition tools_declared :: "'b toolDispatcher \<Rightarrow> bool" where
  "tools_declared d \<longleftrightarrow> (\<forall>k t. td_tools d k = Some t \<longrightarrow> ParallelSafety_Valid (it_safety t))"

lemma alone_or_parallel: "tools_declared d \<Longrightarrow> runsAlone d c \<noteq> parallelSafe d c"
  by (auto simp: tools_declared_def runsAlone_def parallelSafe_def ParallelSafety_Valid_def split: option.splits)

definition groupSize :: "'b toolDispatcher \<Rightarrow> ToolCall list \<Rightarrow> nat" where
  "groupSize d calls = (if runsAlone d (hd calls) then 1 else length (takeWhile (parallelSafe d) calls))"

lemma groupSize_bounds:
  assumes "tools_declared d" "calls \<noteq> []"
  shows "0 < groupSize d calls" "groupSize d calls \<le> length calls"
proof -
  obtain c cs where c: "calls = c # cs" using assms(2) by (cases calls) auto
  show "0 < groupSize d calls" using alone_or_parallel [OF assms(1), of c] by (simp add: groupSize_def c)
  show "groupSize d calls \<le> length calls" using length_takeWhile_le [of "parallelSafe d" calls] assms(2) by (simp add: groupSize_def Suc_le_eq)
qed

lemma groupSize_members:
  assumes "i < groupSize d calls"
  shows "if runsAlone d (hd calls) then i = 0 else parallelSafe d (calls ! i)"
  using assms nth_mem [of i "takeWhile (parallelSafe d) calls"] set_takeWhileD [of "takeWhile (parallelSafe d) calls ! i" "parallelSafe d" calls]
  by (auto simp: groupSize_def takeWhile_nth split: if_splits)

lemma dispatchLoop_step:
  assumes "calls \<noteq> []" "tools_declared d"
  shows "dispatchLoop run d index calls False = (let s = groupSize d calls; g = take s (runsFrom run index calls) in
     Option.bind (dispatchLoop run d (index + s) (drop s calls) (\<exists>x \<in> set g. fst (snd x)))
       (\<lambda>rest. Some \<lparr>out_results = map fst g @ out_results rest, out_contractViolation = out_contractViolation rest, out_groups = map events_of g # out_groups rest\<rparr>))"
proof -
  have g: "map (\<lambda>i. run (calls ! i) (index + i)) [0..<groupSize d calls] = take (groupSize d calls) (runsFrom run index calls)"
    using groupSize_bounds(2) [OF assms(2,1)] by (intro nth_equalityI) auto
  show ?thesis by (subst dispatchLoop.simps) (simp only: assms(1) if_False Let_def groupSize_def [symmetric] g comp_def)
qed

lemma batch_extend:
  assumes out: "batch d (drop s rs) (drop s calls) (\<exists>x \<in> set (take s rs). fst (snd x)) m rest"
    and s: "s = groupSize d calls" "calls \<noteq> []" "tools_declared d" and len: "length rs = length calls"
  shows "batch d rs calls False (s + m) \<lparr>out_results = map fst (take s rs) @ out_results rest, out_contractViolation = out_contractViolation rest,
    out_groups = map events_of (take s rs) # out_groups rest\<rparr>" (is "batch d rs calls False ?n ?out")
proof -
  note b = groupSize_bounds [OF s(3,2), folded s(1)] and mem = groupSize_members [of _ d calls, folded s(1)]
  have split: "take ?n rs = take s rs @ take m (drop s rs)" by (rule take_add)
  have alone: "\<exists>gs hs. out_groups ?out = gs @ [events_of (rs ! i)] # hs \<and> concat gs = map events_of (take i rs) \<and>
      concat hs = map events_of (drop (Suc i) (take ?n rs))" if i: "i < ?n" "runsAlone d (calls ! i)" for i
  proof (cases "i < s")
    case True
    have i0: "i = 0" "runsAlone d (hd calls)"
      using mem [OF True] i(2) alone_or_parallel [OF s(3), of "calls ! i"] s(2) by (auto split: if_splits simp: hd_conv_nth)
    then have "s = 1" by (simp add: s(1) groupSize_def)
    moreover have "rs \<noteq> []" using len s(2) by auto
    ultimately show ?thesis using i0 out split by (intro exI [of _ "[]"] exI [of _ "out_groups rest"]) (auto simp: batch_def take_Suc hd_conv_nth)
  next
    case False
    define k where "k = i - s"
    have k: "i = s + k" "k < m" using False i(1) by (auto simp: k_def)
    have l: "k < length (drop s calls)" using k out by (auto simp: batch_def)
    then obtain gs hs where g: "out_groups rest = gs @ [events_of (drop s rs ! k)] # hs" "concat gs = map events_of (take k (drop s rs))"
        "concat hs = map events_of (drop (Suc k) (take m (drop s rs)))"
      using batch_alone [OF out k(2)] i(2) k(1) l by auto
    have "take i rs = take s rs @ take k (drop s rs)" using k(1) take_add by metis
    moreover have "drop (Suc i) (take ?n rs) = drop (Suc k) (take m (drop s rs))" using k(1) b(2) len by (simp add: split)
    ultimately show ?thesis using g k l b(2) len by (intro exI [of _ "map events_of (take s rs) # gs"] exI [of _ hs]) simp
  qed
  have stop: "parallelSafe d (calls ! j) \<and> parallelSafe d (calls ! i)" if v: "fst (snd (rs ! i))" "i < j" "j < ?n" for i j
  proof (cases "i < s")
    case True
    then have "\<exists>x \<in> set (take s rs). fst (snd x)" using v b(2) len by (force simp: in_set_conv_nth)
    then have "m = 0" using out by (simp add: batch_def)
    then show ?thesis using mem [OF True] mem [of j] v(2,3) by (auto split: if_splits)
  next
    case False
    then obtain k l where kl: "i = s + k" "j = s + l" "k < l" "l < m" using v(2,3) that [of "i - s" "j - s"] by auto
    have "m \<le> length calls - s" using out by (simp add: batch_def)
    then show ?thesis using batch_stop [OF out kl(3,4)] v(1) kl b(2) len by simp
  qed
  have parts: "m \<le> length calls - s" "out_results rest = map fst (take m (drop s rs)) @ map aborted (drop m (drop s calls))"
    "concat (out_groups rest) = map events_of (take m (drop s rs))"
    "out_contractViolation rest \<longleftrightarrow> (\<exists>x \<in> set (take s rs). fst (snd x)) \<or> (\<exists>x \<in> set (take m (drop s rs)). fst (snd x))"
    using out unfolding batch_def by simp_all
  have left: "m < length calls - s \<longrightarrow> out_contractViolation rest" using out unfolding batch_def length_drop by blast
  show ?thesis unfolding batch_def
  proof (intro conjI allI impI)
    show "?n \<le> length calls" using parts(1) b(2) by simp
    show "out_results ?out = map fst (take ?n rs) @ map aborted (drop ?n calls)" unfolding split using parts(2) by (simp add: add.commute)
    show "concat (out_groups ?out) = map events_of (take ?n rs)" using parts(3) by (simp add: split)
    show "out_contractViolation ?out = (False \<or> (\<exists>x \<in> set (take ?n rs). fst (snd x)))" using parts(4) by (auto simp: split)
    show "out_contractViolation ?out" if "?n < length calls" using that left by simp
  qed (use alone stop in simp_all)
qed

lemma dispatchLoop_batch:
  assumes "tools_declared d"
  shows "\<exists>out n. dispatchLoop run d index calls violated = Some out \<and> batch d (runsFrom run index calls) calls violated n out"
proof (induction calls arbitrary: index violated rule: length_induct)
  case (1 calls)
  consider "calls = []" | "calls \<noteq> []" "violated" | "calls \<noteq> []" "\<not> violated" by blast
  then show ?case
  proof cases
    case 3
    let ?s = "groupSize d calls" and ?rs = "runsFrom run index calls"
    note b = groupSize_bounds [OF assms 3(1)]
    have "length (drop ?s calls) < length calls" using b 3(1) by simp
    then obtain rest m where r: "dispatchLoop run d (index + ?s) (drop ?s calls) (\<exists>x \<in> set (take ?s ?rs). fst (snd x)) = Some rest"
      "batch d (runsFrom run (index + ?s) (drop ?s calls)) (drop ?s calls) (\<exists>x \<in> set (take ?s ?rs). fst (snd x)) m rest"
      using 1 by blast
    then show ?thesis using 3 dispatchLoop_step [OF 3(1) assms, of run index] batch_extend [OF _ refl 3(1) assms, of ?rs m rest] b
      by (auto simp: runsFrom_drop Let_def)
  next
    case 1
    then show ?thesis by (subst dispatchLoop.simps) (simp add: batch_def)
  next
    case 2
    then show ?thesis by (subst dispatchLoop.simps) (simp add: batch_def)
  qed
qed

lemma newToolDispatcher_declared:
  assumes "newToolDispatcher installed guards approval budget = Inr d"
  shows "tools_declared d" "td_maxInlineOutputBytes d = budget"
proof -
  have "foldE installTool e ts = Inr d \<Longrightarrow> tools_declared e \<Longrightarrow> tools_declared d \<and> td_maxInlineOutputBytes d = td_maxInlineOutputBytes e" for e ts
  proof (induction ts arbitrary: e)
    case (Cons t ts)
    then obtain e' where e: "installTool e t = Inr e'" "foldE installTool e' ts = Inr d" by auto
    have "tools_declared e'" "td_maxInlineOutputBytes e' = td_maxInlineOutputBytes e"
      using e(1) Cons.prems(2) by (auto simp: installTool_def Let_def tools_declared_def split: prod.splits option.splits if_splits)
    then show ?case using Cons.IH [OF e(2)] by simp
  qed simp
  from this [OF assms [unfolded newToolDispatcher_def]] show "tools_declared d" "td_maxInlineOutputBytes d = budget" by (simp_all add: tools_declared_def)
qed

section \<open>Traces\<close>

lemma subseq_shuffles: "zs \<in> shuffles xs ys \<Longrightarrow> subseq xs zs \<and> subseq ys zs"
  by (induction xs ys arbitrary: zs rule: shuffles.induct) auto

lemma interleavings_mset: "t \<in> interleavings g \<Longrightarrow> mset t = mset (concat g)"
  by (induction g arbitrary: t) (auto simp: mset_shuffles)

lemma interleavings_subseq: "t \<in> interleavings g \<Longrightarrow> es \<in> set g \<Longrightarrow> subseq es t"
proof (induction g arbitrary: t)
  case (Cons x g)
  then obtain ys where ys: "ys \<in> interleavings g" "t \<in> shuffles x ys" by auto
  then have "subseq x t" "subseq ys t" using subseq_shuffles by blast+
  then show ?case using Cons ys(1) subseq_order.trans by auto
qed simp

lemma interleavings_single: "interleavings [es] = {es}"
  by simp

lemma group_traces_mset: "t \<in> group_traces gs \<Longrightarrow> mset t = mset (concat (concat gs))"
  by (induction gs arbitrary: t) (auto simp: interleavings_mset)

lemma group_traces_append: "t \<in> group_traces (gs @ hs) \<longleftrightarrow> (\<exists>u v. t = u @ v \<and> u \<in> group_traces gs \<and> v \<in> group_traces hs)"
proof (induction gs arbitrary: t)
  case (Cons g gs)
  then show ?case by (auto simp: Cons) (metis append.assoc)+
qed simp

lemma group_traces_subseq: "t \<in> group_traces gs \<Longrightarrow> es \<in> set (concat gs) \<Longrightarrow> subseq es t"
proof (induction gs arbitrary: t)
  case (Cons g gs)
  then obtain u v where t: "t = u @ v" "u \<in> interleavings g" "v \<in> group_traces gs" by auto
  then consider "subseq es u" | "subseq es v" using Cons.IH [OF t(3)] Cons.prems(2) interleavings_subseq [OF t(2)] by auto
  then show ?case using t(1) by cases (auto intro: subseq_rev_drop_many subseq_drop_many)
qed simp

section \<open>What a batch guarantees\<close>

text \<open>The outcome of a batch on a dispatcher of the constructor, in terms of the outcomes of the single calls.\<close>

lemma dispatch_batch:
  assumes "newToolDispatcher installed guards approval budget = Inr d"
  obtains out n where "dispatchPreparedAuthorized accepts d calls preflight before scope boundary = Some out"
    "batch d (runsFrom (\<lambda>call i. invoke accepts d before scope boundary call (authorizationAt preflight i)) 0 calls) calls False n out"
  using dispatchLoop_batch [OF newToolDispatcher_declared(1) [OF assms]] unfolding dispatchPreparedAuthorized_def by blast

lemma dispatch_batch_of:
  assumes "newToolDispatcher installed guards approval budget = Inr d" "dispatchPreparedAuthorized accepts d calls preflight before scope boundary = Some out"
  shows "\<exists>n. batch d (runsFrom (\<lambda>call i. invoke accepts d before scope boundary call (authorizationAt preflight i)) 0 calls) calls False n out"
  using dispatch_batch [OF assms(1), of accepts calls preflight before scope boundary] assms(2) by (metis option.inject)

text \<open>
  C22. A batch always ends, with exactly one result per call, in the order of the calls: each result names its
  call, is valid within the inline budget and never claims the outcome reserved for crash recovery, whatever
  the tools, guards and approval service answer.
\<close>

theorem dispatch_answers_every_call:
  assumes "newToolDispatcher installed guards approval budget = Inr d" "0 < budget" "list_all (\<lambda>c. validID (call_ID c)) calls"
  shows "\<exists>out. dispatchPreparedAuthorized accepts d calls preflight before scope boundary = Some out \<and>
     list_all2 (\<lambda>c r. res_CallID r = call_ID c \<and> res_Status r \<noteq> ResultUnknown \<and> ToolResult_ValidateWithin r budget = None) calls (out_results out)"
proof -
  let ?rs = "runsFrom (\<lambda>call i. invoke accepts d before scope boundary call (authorizationAt preflight i)) 0 calls"
  obtain out n where out: "dispatchPreparedAuthorized accepts d calls preflight before scope boundary = Some out" "batch d ?rs calls False n out"
    by (rule dispatch_batch [OF assms(1)])
  have b: "td_maxInlineOutputBytes d = budget" by (rule newToolDispatcher_declared(2) [OF assms(1)])
  have r: "out_results out = map fst (take n ?rs) @ map aborted (drop n calls)" "n \<le> length calls" using out(2) by (simp_all add: batch_def)
  have "list_all2 (result_ok d) calls (out_results out)"
    unfolding list_all2_conv_all_nth using r by (auto simp: nth_append invoke_result aborted_def result_ok_failed)
  then have "list_all2 (\<lambda>c r. res_CallID r = call_ID c \<and> res_Status r \<noteq> ResultUnknown \<and> ToolResult_ValidateWithin r budget = None) calls (out_results out)"
    unfolding list_all2_conv_all_nth using assms(2,3) b by (auto simp: result_ok_def list_all_length)
  then show ?thesis using out(1) by blast
qed

text \<open>
  C23. In every interleaving of a batch, a tool is entered only for a call of the batch whose arguments the tool's
  schema accepts, that was authorized, and whose execution mark was durably written before; the tool sees the
  call under the trusted identity of the Session, and when the call identifiers differ, it is entered once.
\<close>

theorem tools_run_only_authorized:
  assumes "newToolDispatcher installed guards approval budget = Inr d"
    "dispatchPreparedAuthorized accepts d calls preflight (Some mark) scope boundary = Some out"
    "t \<in> traces out" "Invoked x \<in> set t"
  shows "\<exists>i. i < length calls \<and> x = invocation d (calls ! i) scope boundary \<and> validateCall accepts d (calls ! i) = None \<and>
     fst (authorize d (calls ! i) scope (authorizationAt preflight i)) = None \<and> mark (calls ! i) = None \<and>
     subseq [Marked (calls ! i) None, Started (calls ! i), Invoked x, Completed (calls ! i) (out_results out ! i)] t \<and>
     (distinct (map call_ID calls) \<longrightarrow> count_list t (Invoked x) = 1)"
proof -
  let ?run = "\<lambda>call i. invoke accepts d (Some mark) scope boundary call (authorizationAt preflight i)"
  let ?rs = "runsFrom ?run 0 calls" and ?ev = "\<lambda>i. events_of (?run (calls ! i) i)"
  obtain n where b: "batch d ?rs calls False n out" using dispatch_batch_of [OF assms(1,2)] by blast
  have parts: "n \<le> length calls" "out_results out = map fst (take n ?rs) @ map aborted (drop n calls)" "concat (out_groups out) = map ?ev [0..<n]"
    using b by (auto simp: batch_def intro!: nth_equalityI)
  have ms: "mset t = mset (concat (map ?ev [0..<n]))" using group_traces_mset assms(3) parts(3) by (metis traces_def)
  then have "Invoked x \<in> set (concat (map ?ev [0..<n]))" using assms(4) by (metis set_mset_mset)
  then obtain i where i: "i < n" "Invoked x \<in> set (?ev i)" by auto
  obtain as where a: "?ev i = as @ [Marked (calls ! i) None, Started (calls ! i), Invoked x, Completed (calls ! i) (fst (?run (calls ! i) i))]"
      "set as \<subseteq> range (Audited (calls ! i)) \<union> range Asked" "x = invocation d (calls ! i) scope boundary" "validateCall accepts d (calls ! i) = None"
      "fst (authorize d (calls ! i) scope (authorizationAt preflight i)) = None" "mark (calls ! i) = None"
    using invoked_call [OF surjective_pairings i(2)] by blast
  have r: "out_results out ! i = fst (?run (calls ! i) i)" using parts i(1) by (simp add: nth_append)
  have "subseq (?ev i) t" using group_traces_subseq [of t "out_groups out" "?ev i"] assms(3) parts(3) i(1) by (simp add: traces_def)
  then have sub: "subseq [Marked (calls ! i) None, Started (calls ! i), Invoked x, Completed (calls ! i) (out_results out ! i)] t"
    unfolding a(1) r using subseq_order.trans list_emb_append2 by blast
  have once: "count_list t (Invoked x) = 1" if "distinct (map call_ID calls)"
  proof -
    have other: "Invoked x \<notin> set (?ev j)" if "j < n" "j \<noteq> i" for j
    proof
      assume "Invoked x \<in> set (?ev j)"
      from invoked_call [OF surjective_pairings this] have "invocation d (calls ! j) scope boundary = invocation d (calls ! i) scope boundary" using a(3) by blast
      then have "map call_ID calls ! j = map call_ID calls ! i" using that parts(1) i(1) by (simp add: invocation_def)
      then show False using that i(1) parts(1) nth_eq_iff_index_eq [OF \<open>distinct (map call_ID calls)\<close>, of j i] by simp
    qed
    have "[0..<n] = [0..<i] @ i # [Suc i..<n]" using i(1) upt_add_eq_append [of 0 i "n - i"] by (simp add: upt_conv_Cons)
    then have "count_list (concat (map ?ev [0..<n])) (Invoked x) = count_list (?ev i) (Invoked x)"
      using other i(1) by (auto simp: count_list_0_iff)
    also have "... = 1" unfolding a(1) using a(2) by (auto simp: count_list_0_iff)
    finally show ?thesis using ms by (metis count_mset)
  qed
  show ?thesis using i(1) parts(1) a(3-6) sub once by (intro exI [of _ i]) simp
qed

text \<open>
  C24. In every interleaving of a batch, a tool that is not declared parallel-safe runs alone: the events of its
  call stand together, after those of all earlier calls and before those of all later ones. The batch stops
  after a component broke its contract: beyond the calls of the same parallel group no further call is
  started, and each of them is answered as aborted.
\<close>

theorem serial_runs_alone:
  assumes "newToolDispatcher installed guards approval budget = Inr d"
    "dispatchPreparedAuthorized accepts d calls preflight before scope boundary = Some out" "t \<in> traces out"
  shows "let run = (\<lambda>i. invoke accepts d before scope boundary (calls ! i) (authorizationAt preflight i)) in \<exists>n \<le> length calls. mset t = mset (concat (map (\<lambda>i. snd (snd (run i))) [0..<n])) \<and>
     (\<forall>i < n. \<not> parallelSafe d (calls ! i) \<longrightarrow> (\<exists>u v. t = u @ snd (snd (run i)) @ v \<and>
        mset u = mset (concat (map (\<lambda>i. snd (snd (run i))) [0..<i])) \<and> mset v = mset (concat (map (\<lambda>i. snd (snd (run i))) [Suc i..<n])))) \<and>
     (\<forall>i < n. fst (snd (run i)) \<longrightarrow> (\<forall>j. i < j \<and> j < n \<longrightarrow> parallelSafe d (calls ! i) \<and> parallelSafe d (calls ! j))) \<and>
     (n < length calls \<longrightarrow> (\<exists>i < n. fst (snd (run i)))) \<and> (\<forall>i. n \<le> i \<and> i < length calls \<longrightarrow> out_results out ! i = aborted (calls ! i))"
proof -
  define run where "run = (\<lambda>call i. invoke accepts d before scope boundary call (authorizationAt preflight i))"
  let ?rs = "runsFrom run 0 calls" and ?ev = "\<lambda>i. snd (snd (run (calls ! i) i))"
  obtain n where b: "batch d ?rs calls False n out" using dispatch_batch_of [OF assms(1,2)] unfolding run_def by blast
  have n: "n \<le> length calls" "length (take n ?rs) = n" using b by (simp_all add: batch_def)
  have evs: "map events_of (take k ?rs) = map ?ev [0..<k]" "map events_of (drop (Suc i) (take n ?rs)) = map ?ev [Suc i..<n]" if "k \<le> n" for k i
    using n that by (auto intro!: nth_equalityI)
  have d: "tools_declared d" by (rule newToolDispatcher_declared(1) [OF assms(1)])
  have groups: "concat (out_groups out) = map ?ev [0..<n]" using b evs(1) [of n] unfolding batch_def by simp
  have all: "mset t = mset (concat (map ?ev [0..<n]))" using group_traces_mset [of t "out_groups out"] assms(3) groups by (simp add: traces_def)
  have alone: "\<exists>u v. t = u @ ?ev i @ v \<and> mset u = mset (concat (map ?ev [0..<i])) \<and> mset v = mset (concat (map ?ev [Suc i..<n]))"
    if i: "i < n" "\<not> parallelSafe d (calls ! i)" for i
  proof -
    obtain gs hs where g: "out_groups out = gs @ [events_of (?rs ! i)] # hs" "concat gs = map events_of (take i ?rs)" "concat hs = map events_of (drop (Suc i) (take n ?rs))"
      using batch_alone [OF b i(1)] alone_or_parallel [OF d] i(2) by blast
    then obtain u v where "t = u @ ?ev i @ v" "u \<in> group_traces gs" "v \<in> group_traces hs"
      using assms(3) i(1) n by (auto simp: traces_def group_traces_append)
    moreover from this have "mset u = mset (concat (map ?ev [0..<i]))" "mset v = mset (concat (map ?ev [Suc i..<n]))"
      using group_traces_mset [of u gs] group_traces_mset [of v hs] g(2,3) evs(1) [of i] evs(2) [of i i] i(1) by simp_all
    ultimately show ?thesis by blast
  qed
  have stop: "parallelSafe d (calls ! i) \<and> parallelSafe d (calls ! j)" if "fst (snd (run (calls ! i) i))" "i < j" "j < n" for i j
    using batch_stop [OF b that(2,3)] that n by simp
  have "\<exists>i < n. fst (snd (run (calls ! i) i))" if "n < length calls"
  proof -
    have "\<exists>x \<in> set (take n ?rs). fst (snd x)" using b that unfolding batch_def by blast
    then obtain x where x: "x \<in> set (take n ?rs)" "fst (snd x)" by blast
    then obtain k where "k < n" "take n ?rs ! k = x" using n(2) by (metis in_set_conv_nth)
    then show ?thesis using n(1) x(2) by (intro exI [of _ k]) auto
  qed
  moreover have "out_results out ! i = aborted (calls ! i)" if "n \<le> i" "i < length calls" for i
    using b that n by (simp add: batch_def nth_append)
  ultimately have "\<exists>n \<le> length calls. mset t = mset (concat (map ?ev [0..<n])) \<and>
     (\<forall>i < n. \<not> parallelSafe d (calls ! i) \<longrightarrow> (\<exists>u v. t = u @ ?ev i @ v \<and> mset u = mset (concat (map ?ev [0..<i])) \<and> mset v = mset (concat (map ?ev [Suc i..<n])))) \<and>
     (\<forall>i < n. fst (snd (run (calls ! i) i)) \<longrightarrow> (\<forall>j. i < j \<and> j < n \<longrightarrow> parallelSafe d (calls ! i) \<and> parallelSafe d (calls ! j))) \<and>
     (n < length calls \<longrightarrow> (\<exists>i < n. fst (snd (run (calls ! i) i)))) \<and> (\<forall>i. n \<le> i \<and> i < length calls \<longrightarrow> out_results out ! i = aborted (calls ! i))"
    using n(1) all alone stop by (intro exI [of _ n]) blast
  then show ?thesis by (simp add: run_def Let_def)
qed

section \<open>Example\<close>

definition demo_tool :: "unit Tool" where
  "demo_tool = \<lparr>tool_Definition = \<lparr>def_Name = ''echo'', def_Description = '''', def_InputSchema = ''{}'', def_SchemaCompiled = True\<rparr>,
     tool_ParallelSafety = Serial,
     tool_Invoke = (\<lambda>v. Returned \<lparr>res_CallID = tc_ID (inv_Call v), res_Status = ResultSucceeded, res_Output = [], res_Error = None, res_Artifacts = []\<rparr>)\<rparr>"

definition demo_guard :: ToolRuleGuard where
  "demo_guard = \<lparr>trg_fallback = \<lparr>dec_Effect = Deny, dec_Reason = ''closed''\<rparr>,
     trg_decisions = [''echo'' \<mapsto> \<lparr>dec_Effect = RequireApproval, dec_Reason = ''ask''\<rparr>]\<rparr>"

definition demo_dispatcher :: "unit toolDispatcher" where
  "demo_dispatcher = \<lparr>td_tools = [''echo'' \<mapsto> \<lparr>it_value = demo_tool, it_definition = tool_Definition demo_tool, it_safety = Serial\<rparr>],
     td_orderedDefinitions = [tool_Definition demo_tool], td_guards = [toolRuleGuard_Evaluate None demo_guard],
     td_approval = Some (\<lambda>r. Returned (Inr \<lparr>ad_Approved = (ar_Reason r = ''ask''), ad_Reason = ''''\<rparr>)), td_maxInlineOutputBytes = 16\<rparr>"

definition demo_tool_call :: "string \<Rightarrow> ToolCall" where
  "demo_tool_call name = \<lparr>call_ID = ''c1'', call_CorrelationID = '''', call_MessageID = ''m1'', call_SessionID = ''s1'', call_RunID = ''r1'', call_StepID = ''p1'',
     call_Name = name, call_Arguments = ''{}''\<rparr>"

definition demo_scope :: Scope where
  "demo_scope = \<lparr>scope_AgentID = ''a1'', scope_WorkspaceID = ''w1''\<rparr>"

lemma demo_dispatcher_new:
  "newToolDispatcher [(''echo'', demo_tool)] [toolRuleGuard_Evaluate None demo_guard] (td_approval demo_dispatcher) 16 = Inr demo_dispatcher"
  by (simp add: check_def Let_def newToolDispatcher_def installTool_def demo_tool_def Definition_Validate_def ParallelSafety_Valid_def demo_dispatcher_def)

lemma demo_short_ids: "validID ''c1''" "validID ''m1''" "validID ''s1''" "validID ''r1''" "validID ''p1''" "validID ''a1''" "validID ''w1''"
  by (simp_all add: validID_graphic graphic_def)

definition demo_result :: ToolResult where
  "demo_result = \<lparr>res_CallID = ''c1'', res_Status = ResultSucceeded, res_Output = [], res_Error = None, res_Artifacts = []\<rparr>"

definition demo_events :: "unit event list" where
  "demo_events = (let c = demo_tool_call ''echo'' in
     [Asked \<lparr>ar_Action = proposal c demo_scope, ar_Reason = ''ask''\<rparr>, Audited c ''approved'', Marked c None, Started c,
      Invoked (invocation demo_dispatcher c demo_scope None), Completed c demo_result])"

lemma demo_authorize:
  "authorize demo_dispatcher (demo_tool_call ''echo'') demo_scope no_preflight =
     (None, [Asked \<lparr>ar_Action = proposal (demo_tool_call ''echo'') demo_scope, ar_Reason = ''ask''\<rparr>, Audited (demo_tool_call ''echo'') ''approved''])"
  by (simp add: authorize_def Action_Validate_def proposal_def demo_tool_call_def demo_scope_def demo_short_ids demo_dispatcher_def evaluateGuard_def
      toolRuleGuard_Evaluate_def demo_guard_def Decision_Validate_def decideApproval_def join_reasons_def Let_def no_preflight_def)

lemma demo_invoke:
  "invoke (\<lambda>_ _. True) demo_dispatcher (Some (\<lambda>_. None)) demo_scope None (demo_tool_call ''echo'') no_preflight = (demo_result, False, demo_events)"
  unfolding invoke_def demo_authorize
  by (simp add: validateCall_def demo_dispatcher_def ValidateArguments_def demo_tool_def demo_tool_call_def Let_def settleResult_def
      invocation_def demo_result_def demo_events_def demo_short_ids ToolResult_ValidateWithin_def ToolResult_Validate_def)

lemma demo_dispatch:
  "dispatchPreparedAuthorized (\<lambda>_ _. True) demo_dispatcher [demo_tool_call ''echo''] [] (Some (\<lambda>_. None)) demo_scope None =
     Some \<lparr>out_results = [demo_result], out_contractViolation = False, out_groups = [[demo_events]]\<rparr>"
proof -
  have "runsAlone demo_dispatcher (demo_tool_call ''echo'')" by (simp add: runsAlone_def demo_dispatcher_def demo_tool_call_def)
  then show ?thesis unfolding dispatchPreparedAuthorized_def authorizationAt_def
    by (subst dispatchLoop.simps, subst dispatchLoop.simps) (simp add: demo_invoke)
qed

lemma demo_trace: "demo_events \<in> traces \<lparr>out_results = [demo_result], out_contractViolation = False, out_groups = [[demo_events]]\<rparr>"
  by (simp add: traces_def)

theorem dispatch_answers_every_call_witness:
  "\<exists>out. dispatchPreparedAuthorized (\<lambda>_ _. True) demo_dispatcher [demo_tool_call ''missing'', demo_tool_call ''echo''] [] None demo_scope None = Some out \<and>
     length (out_results out) = 2"
  using dispatch_answers_every_call [OF demo_dispatcher_new, of "[demo_tool_call ''missing'', demo_tool_call ''echo'']" "\<lambda>_ _. True" "[]" None demo_scope None]
  by (auto simp: demo_tool_call_def demo_short_ids dest!: list_all2_lengthD)

theorem tools_run_only_authorized_witness:
  "\<exists>i < 1. invocation demo_dispatcher (demo_tool_call ''echo'') demo_scope None = invocation demo_dispatcher ([demo_tool_call ''echo''] ! i) demo_scope None \<and>
     subseq [Marked (demo_tool_call ''echo'') None, Started (demo_tool_call ''echo'')] demo_events \<and>
     count_list demo_events (Invoked (invocation demo_dispatcher (demo_tool_call ''echo'') demo_scope None)) = 1"
proof -
  have "Invoked (invocation demo_dispatcher (demo_tool_call ''echo'') demo_scope None) \<in> set demo_events" by (simp add: demo_events_def Let_def)
  from tools_run_only_authorized [OF demo_dispatcher_new demo_dispatch demo_trace this] show ?thesis by (auto simp: demo_events_def Let_def)
qed

theorem serial_runs_alone_witness:
  "\<exists>n \<le> 1. mset demo_events = mset (concat (map (\<lambda>i. snd (snd (invoke (\<lambda>_ _. True) demo_dispatcher (Some (\<lambda>_. None)) demo_scope None
     ([demo_tool_call ''echo''] ! i) (authorizationAt [] i)))) [0..<n]))"
  using serial_runs_alone [OF demo_dispatcher_new demo_dispatch demo_trace] by (auto simp: Let_def)

end
