(* ===== verification/Loop_Guarantees.thy ===== *)
theory Loop_Guarantees
  imports Loop_Driver Dispatch_Guarantees
begin

text \<open>
  What the loop driver guarantees against any loop: the runtime operations follow the Run protocol, a Run is
  concluded as its loop committed it or as a protocol violation, and the standard loop follows the protocol
  and ends when the model does.
\<close>

section \<open>The protocol of a Run\<close>

datatype phase = Ready StepID | Tools "ToolCall list" | Halted

fun advance :: "phase \<Rightarrow> runtime_op \<Rightarrow> phase option" where
  "advance (Ready s) (Requested s' o1 next calls) =
     (if s = s' then Some (case o1 of stepToolsReady \<Rightarrow> Tools calls | stepContinue \<Rightarrow> Ready next | _ \<Rightarrow> Halted) else None)"
| "advance (Tools cs) (Executed cs' st next) =
     (if cs = cs' \<and> cs \<noteq> [] then Some (if st = StateContinueReady then Ready next else Halted) else None)"
| "advance _ _ = None"

primrec follows :: "phase \<Rightarrow> runtime_op list \<Rightarrow> phase option" where
  "follows p [] = Some p"
| "follows p (x # xs) = Option.bind (advance p x) (\<lambda>q. follows q xs)"

lemma follows_append: "follows p (xs @ ys) = Option.bind (follows p xs) (\<lambda>q. follows q ys)"
  by (induction xs arbitrary: p) (auto split: bind_splits)

definition phase_of :: "runtimeLoopRun \<Rightarrow> phase" where
  "phase_of r = (case driver_State r of
      StateReadyForModel \<Rightarrow> Ready (lr_step r) | StateContinueReady \<Rightarrow> Ready (lr_nextStep r) | StateToolsReady \<Rightarrow> Tools (lr_pendingTools r) | _ \<Rightarrow> Halted)"

lemma driver_State_set [simp]: "driver_State (r\<lparr>lr_state := driver_State r\<rparr>) = driver_State r"
  by (simp add: driver_State_def)

lemma driver_State_known [simp]: "lr_state r \<noteq> State_other '''' \<Longrightarrow> driver_State r = lr_state r"
  by (simp add: driver_State_def)

lemma phase_of_set [simp]: "phase_of (r\<lparr>lr_state := driver_State r\<rparr>) = phase_of r"
  by (simp add: phase_of_def split: State.split)

lemma phase_of_frame [simp]: "phase_of (r\<lparr>lr_active := x\<rparr>) = phase_of r" "phase_of (r\<lparr>lr_closed := y\<rparr>) = phase_of r"
  by (simp_all add: phase_of_def driver_State_def split: State.split)

lemma loopStateFromStep_known [simp]: "loopStateFromStep s \<noteq> State_other x"
  by (cases s) (simp_all add: loopStateFromStep_def)

lemma settleTools_state: "lr_state (settleTools r pf v n q c e) \<in> {StateFailed, StateCanceled, StateContinueReady}"
  by (auto simp: settleTools_def split: option.split bool.split)

lemma settleTools_terminal [simp]: "lr_terminal (settleTools r pf v n q c e) = lr_terminal r" "lr_active (settleTools r pf v n q c e) = lr_active r"
  "lr_closed (settleTools r pf v n q c e) = lr_closed r" "lr_outcome (settleTools r pf v n q c e) = lr_outcome r"
  by (auto simp: settleTools_def split: option.split bool.split)

lemma actExecuteTools_state:
  assumes "lr_state r = StateToolsReady \<and> lr_pendingTools r \<noteq> []" "actExecuteTools ops r w = (answer, r', w')"
  shows "lr_state r' \<in> {StateFailed, StateCanceled, StateContinueReady}"
proof -
  have "lr_state r' = StateFailed \<or> (\<exists>pf v n q c e. r' = settleTools r pf v n q c e)"
    using assms by (auto simp: actExecuteTools_def Let_def split: prod.splits if_splits option.splits) blast+
  then show ?thesis using settleTools_state by blast
qed

text \<open>What an admitted action leaves, by its kind.\<close>

lemma perform_terminal: "lr_terminal r \<Longrightarrow> perform ops a r w = refuse r w"
  by (simp add: perform_def)

lemma perform_phase:
  assumes "perform ops a r w = (answer, r', w')" "\<not> lr_terminal r"
  shows "\<exists>q. follows (phase_of r) (performed ops a r w) = Some q \<and> (lr_terminal r' \<or> q = phase_of r')"
proof (cases "la_Kind a")
  case ActionRequestModel
  show ?thesis
  proof (cases "driver_State r = StateReadyForModel")
    case True
    then show ?thesis using assms ActionRequestModel
      by (auto simp: perform_def actRequestModel_def performed_def phase_of_def loopStateFromStep_def Let_def split: prod.splits stepOutcome.split)
  next
    case False
    then show ?thesis using assms ActionRequestModel by (auto simp: perform_def actRequestModel_def performed_def refuse_def)
  qed
next
  case ActionExecuteTools
  show ?thesis
  proof (cases "driver_State r = StateToolsReady \<and> lr_pendingTools r \<noteq> []")
    case True
    have "lr_state r' \<in> {StateFailed, StateCanceled, StateContinueReady}"
      using assms True ActionExecuteTools actExecuteTools_state [of "r\<lparr>lr_state := driver_State r\<rparr>"] by (simp add: perform_def)
    then show ?thesis using assms True ActionExecuteTools by (auto simp: performed_def phase_of_def)
  next
    case False
    then show ?thesis using assms ActionExecuteTools by (auto simp: perform_def actExecuteTools_def performed_def refuse_def)
  qed
next
  case ActionContinue
  show ?thesis
  proof (cases "driver_State r = StateContinueReady \<and> validID (lr_nextStep r)")
    case True
    then show ?thesis using assms ActionContinue by (auto simp: perform_def actContinue_def performed_def phase_of_def)
  next
    case False
    then show ?thesis using assms ActionContinue by (auto simp: perform_def actContinue_def performed_def refuse_def)
  qed
next
  case ActionFinish
  then show ?thesis using assms by (auto simp: perform_def actFinish_def performed_def refuse_def Let_def split: if_splits)
next
  case ActionWait
  then show ?thesis using assms by (auto simp: perform_def actWait_def performed_def refuse_def Let_def split: if_splits)
next
  case (LoopAction_other x)
  then show ?thesis using assms by (auto simp: perform_def performed_def refuse_def)
qed

text \<open>The simulation: as long as the driver has no terminal outcome, its log leads to the phase of its state.\<close>

definition simulated :: "phase \<Rightarrow> runtime_op list \<Rightarrow> runtimeLoopRun \<Rightarrow> bool" where
  "simulated p log r \<longleftrightarrow> (\<exists>q. follows p log = Some q \<and> (lr_terminal r \<or> q = phase_of r))"

lemma simulated_step:
  assumes "driver_step ops (r, f, w) l (r', f', w')" "simulated p log r"
  shows "simulated p (log @ l) r'"
  using assms(1)
proof cases
  case (work a answer)
  show ?thesis
  proof (cases "lr_terminal r")
    case True
    then show ?thesis using assms(2) work by (auto simp: simulated_def perform_terminal refuse_def performed_def)
  next
    case False
    then have "follows p log = Some (phase_of r)" using assms(2) by (auto simp: simulated_def)
    then show ?thesis using perform_phase [OF work(4) False] work by (auto simp: simulated_def follows_append)
  qed
qed (use assms(2) in \<open>auto simp: simulated_def beginAction_def endAction_def\<close>)

lemma simulated_run: "driver_run ops d log d' \<Longrightarrow> simulated p [] (fst d) \<Longrightarrow> simulated p log (fst d')"
proof (induction rule: driver_run.induct)
  case (extend d log d' l d'')
  then show ?case using simulated_step [of ops "fst d'" "fst (snd d')" "snd (snd d')" l "fst d''" "fst (snd d'')" "snd (snd d'')"] by simp
qed simp

text \<open>
  C25. Whatever a loop does, from however many goroutines, the runtime operations of its Run follow the protocol:
  the model is asked for the current step only, a batch of tools is executed exactly as the model call that
  prepared it returned it (or as recovery handed it over) and at most once, and after a call that ended the
  Run, or a failed or canceled batch, nothing more is executed.
\<close>

theorem loop_ops_follow_protocol:
  assumes "driver_run ops (newLoopRun step prepared, Idle, w) log (r, f, w')"
  shows "follows (if prepared = [] then Ready step else Tools prepared) log \<noteq> None"
proof -
  let ?p = "if prepared = [] then Ready step else Tools prepared"
  have "simulated ?p [] (newLoopRun step prepared)" by (simp add: simulated_def newLoopRun_def phase_of_def driver_State_def)
  then have "simulated ?p log r" using simulated_run [OF assms, of ?p] by simp
  then show ?thesis by (auto simp: simulated_def)
qed

section \<open>Conclusions\<close>

definition driver_ok :: "runtimeLoopRun \<Rightarrow> flight \<Rightarrow> bool" where
  "driver_ok r f \<longleftrightarrow> (lr_active r \<longleftrightarrow> f \<noteq> Idle) \<and>
     (lr_terminal r \<longrightarrow> Outcome_Terminal (lr_outcome r) \<and> (lr_state r = StateWaiting \<and> lr_outcome r = OutcomeWaiting \<or> finishAllowed (lr_state r) (lr_outcome r))) \<and>
     (case f of Submitted a \<Rightarrow> Loop_Contracts.Action_Validate a = None | _ \<Rightarrow> True)"

lemma actExecuteTools_frame: "actExecuteTools ops r w = (answer, r', w') \<Longrightarrow> lr_terminal r' = lr_terminal r \<and> lr_active r' = lr_active r"
  by (auto simp: actExecuteTools_def refuse_def Let_def split: prod.splits if_splits option.splits)

lemma perform_ok:
  assumes "perform ops a r w = (answer, r', w')" "driver_ok r (Submitted a)"
  shows "driver_ok r' Done \<and> (lr_terminal r \<longrightarrow> r' = r)"
proof (cases "lr_terminal r")
  case True
  then show ?thesis using assms by (auto simp: perform_terminal refuse_def driver_ok_def)
next
  case False
  have a: "lr_active r" "Loop_Contracts.Action_Validate a = None" using assms(2) by (auto simp: driver_ok_def)
  show ?thesis
  proof (cases "la_Kind a")
    case ActionExecuteTools
    then have "lr_terminal r' = lr_terminal r \<and> lr_active r' = lr_active r"
      using assms False actExecuteTools_frame [of ops "r\<lparr>lr_state := driver_State r\<rparr>"] by (simp add: perform_def)
    then show ?thesis using False a by (simp add: driver_ok_def)
  next
    case ActionFinish
    then have "Outcome_Terminal (la_Outcome a)" using a(2) by (simp add: Loop_Contracts.Action_Validate_def)
    then show ?thesis using assms False a ActionFinish by (auto simp: perform_def actFinish_def refuse_def driver_ok_def Let_def split: if_splits)
  next
    case ActionRequestModel
    then show ?thesis using assms False a by (auto simp: perform_def actRequestModel_def refuse_def driver_ok_def Let_def split: prod.splits if_splits)
  qed (use assms False a in \<open>auto simp: perform_def actContinue_def actWait_def refuse_def driver_ok_def Outcome_Terminal_def Outcome_Valid_def Let_def split: if_splits\<close>)
qed

lemma driver_step_ok:
  assumes "driver_step ops (r, f, w) l (r', f', w')" "driver_ok r f"
  shows "driver_ok r' f' \<and> (lr_terminal r \<longrightarrow> l = [] \<and> lr_terminal r' \<and> lr_outcome r' = lr_outcome r)"
  using assms(1)
proof cases
  case (work a answer)
  then show ?thesis using perform_ok [OF work(4)] assms(2) by (auto simp: performed_def)
qed (use assms(2) in \<open>auto simp: driver_ok_def beginAction_def endAction_def split: flight.splits\<close>)

lemma driver_run_ok:
  "driver_run ops d log d' \<Longrightarrow> driver_ok (fst d) (fst (snd d)) \<Longrightarrow>
   driver_ok (fst d') (fst (snd d')) \<and> (lr_terminal (fst d) \<longrightarrow> log = [] \<and> lr_terminal (fst d') \<and> lr_outcome (fst d') = lr_outcome (fst d))"
proof (induction rule: driver_run.induct)
  case (extend d log d' l d'')
  then show ?case
    using driver_step_ok [of ops "fst d'" "fst (snd d')" "snd (snd d')" l "fst d''" "fst (snd d'')" "snd (snd d'')"] by auto
qed simp

text \<open>
  C26. However a loop ends, the Run gets a terminal outcome. Unless that is the failure that reports a violation of
  the loop protocol, it is the outcome that the loop committed through the driver while no action was in
  flight, it agrees with the state the runtime was in (a Run is completed only where the model completed it
  or at a step boundary, never with tools waiting or after a failure), and it was final: no operation ran and
  no other outcome was accepted after it.
\<close>

theorem loop_conclusion_sound:
  assumes "driver_run ops (newLoopRun step prepared, Idle, w) log (r, f, w')" "conclude r (lr_active r) ctxDone a = (o1, t)"
  shows "Outcome_Terminal o1 \<and>
     (o1 = OutcomeFailed \<and> t = Some loopProtocolViolation \<or>
      f = Idle \<and> lr_terminal r \<and> lr_outcome r = o1 \<and>
      (o1 = OutcomeCompleted \<longrightarrow> lr_state r \<in> {StateCompleted, StateReadyForModel, StateContinueReady}) \<and>
      (\<forall>log' r' f' w''. driver_run ops (r, f, w') log' (r', f', w'') \<longrightarrow> log' = [] \<and> lr_terminal r' \<and> lr_outcome r' = o1))"
proof -
  have "driver_ok (newLoopRun step prepared) Idle" by (simp add: driver_ok_def newLoopRun_def)
  then have ok: "driver_ok r f" using driver_run_ok [OF assms(1)] by simp
  have later: "log' = [] \<and> lr_terminal r' \<and> lr_outcome r' = lr_outcome r" if "driver_run ops (r, f, w') log' (r', f', w'')" "lr_terminal r" for log' r' f' w''
    using driver_run_ok [OF that(1)] ok that(2) by simp
  show ?thesis
  proof (cases "(o1, t) = (OutcomeFailed, Some loopProtocolViolation)")
    case True
    then show ?thesis by (simp add: Outcome_Terminal_def Outcome_Valid_def)
  next
    case False
    then have c: "\<not> lr_active r" "lr_terminal r" "lr_outcome r = o1" "Outcome_Terminal o1"
      using assms(2) by (auto simp: conclude_def Let_def split: prod.splits if_splits)
    moreover have "f = Idle" using ok c(1) by (simp add: driver_ok_def)
    moreover have "lr_state r \<in> {StateCompleted, StateReadyForModel, StateContinueReady}" if "o1 = OutcomeCompleted"
      using ok c that by (auto simp: driver_ok_def finishAllowed_def loopOutcomeFromState_def split: if_splits State.splits)
    ultimately show ?thesis using later by blast
  qed
qed

section \<open>The standard loop\<close>

text \<open>
  The only thing asked of the operations: \<open>m\<close> bounds the model calls that a Run has left, so a model call
  that asks for tools or for another step uses some of it up and nothing else puts it back (a limit on the
  model attempts of a Run is such a bound). Contexts may end at any moment, and preflights, tools, hooks and
  the Session may answer anything, errors and malformed answers included.
\<close>

definition model_budget :: "'w RunOps \<Rightarrow> ('w \<Rightarrow> nat) \<Rightarrow> bool" where
  "model_budget ops m \<longleftrightarrow>
     (\<forall>s w o1 nx calls t w'. op_requestModel ops s w = ((o1, nx, calls, t), w') \<longrightarrow> o1 = stepToolsReady \<or> o1 = stepContinue \<longrightarrow> m w' < m w) \<and>
     (\<forall>calls w x w'. op_preflights ops calls w = (x, w') \<longrightarrow> m w' \<le> m w) \<and>
     (\<forall>calls p w x w'. op_dispatch ops calls p w = (x, w') \<longrightarrow> m w' \<le> m w) \<and>
     (\<forall>calls rs w x w'. op_commitToolResults ops calls rs w = (x, w') \<longrightarrow> m w' \<le> m w)"

definition driver_free :: "runtimeLoopRun \<Rightarrow> bool" where
  "driver_free r \<longleftrightarrow> \<not> lr_terminal r \<and> \<not> lr_closed r \<and> \<not> lr_active r"

definition state_rank :: "State \<Rightarrow> nat" where
  "state_rank s = (case s of StateToolsReady \<Rightarrow> 2 | StateContinueReady \<Rightarrow> 1 | _ \<Rightarrow> 0)"

lemma driver_State_frame [simp]: "driver_State (r\<lparr>lr_active := x\<rparr>) = driver_State r"
  by (simp add: driver_State_def)

text \<open>An action that passes the checks of \<^verbatim>\<open>Act\<close> is performed; one that does not leaves the driver alone.\<close>

lemma Act_cases:
  assumes "Act ops a r w = ((s, err), r', w')" "driver_free r"
  obtains (refused) "err \<noteq> None" "r' = r" "w' = w"
    | (performed) r2 where "perform ops a (r\<lparr>lr_active := True\<rparr>) w = ((s, err), r2, w')" "r' = endAction r2" "Loop_Contracts.Action_Validate a = None"
proof (cases "op_ctxErr ops w = None \<and> op_runErr ops w = None \<and> Loop_Contracts.Action_Validate a = None")
  case True
  then show ?thesis using assms performed by (auto simp: Act_def driver_free_def beginAction_def check_def Let_def split: prod.splits)
next
  case False
  then have "err \<noteq> None \<and> r' = r \<and> w' = w"
    using assms(1) by (cases err; cases "op_ctxErr ops w"; cases "op_runErr ops w") (auto simp: Act_def refuse_def)
  then show ?thesis using refused by blast
qed

lemma requestModel_step:
  assumes "model_budget ops m" "driver_free r" "Act ops (action ActionRequestModel) r w = ((s, err), r', w')"
  shows "driver_free r' \<and> (err = None \<longrightarrow> s = driver_State r' \<and> (standardAction s \<noteq> None \<longrightarrow> m w' < m w))"
  using assms(3,2)
proof (cases rule: Act_cases)
  case (performed r2)
  obtain o1 nx calls t w1 where q: "op_requestModel ops (lr_step r) w = ((o1, nx, calls, t), w1)" by (metis prod.collapse)
  have "standardAction (loopStateFromStep o1) \<noteq> None \<Longrightarrow> m w1 < m w"
    using assms(1) q by (cases o1) (auto simp: model_budget_def loopStateFromStep_def standardAction_def)
  then show ?thesis using performed q assms(2)
    by (auto simp: perform_def action_def actRequestModel_def refuse_def driver_free_def endAction_def driver_State_def Let_def split: if_splits)
qed (use assms(2) in auto)

lemma continue_step:
  assumes "driver_free r" "Act ops (action ActionContinue) r w = ((s, err), r', w')"
  shows "driver_free r' \<and> (err = None \<longrightarrow> s = driver_State r' \<and> s = StateReadyForModel \<and> w' = w)"
  using assms(2,1)
proof (cases rule: Act_cases)
  case (performed r2)
  then show ?thesis using assms(1)
    by (auto simp: perform_def action_def actContinue_def refuse_def driver_free_def endAction_def driver_State_def Let_def split: if_splits)
qed (use assms(1) in auto)

lemma settleTools_frame:
  "lr_closed (settleTools r pf v nx q c e) = lr_closed r"
  by (auto simp: settleTools_def split: option.split bool.split)

lemma actExecuteTools_step:
  assumes "model_budget ops m" "actExecuteTools ops r w = ((s, err), r', w')"
  shows "m w' \<le> m w \<and> lr_closed r' = lr_closed r \<and> (err = None \<longrightarrow> s = lr_state r' \<and> s \<in> {StateFailed, StateCanceled, StateContinueReady})"
proof (cases "lr_state r \<noteq> StateToolsReady \<or> lr_pendingTools r = []")
  case True
  then show ?thesis using assms(2) by (auto simp: actExecuteTools_def refuse_def)
next
  case False
  let ?calls = "lr_pendingTools r"
  obtain p pf e w1 where p: "op_preflights ops ?calls w = ((p, pf, e), w1)" by (metis prod.collapse)
  define d where "d = (if e = None \<and> pf = None then op_dispatch ops ?calls p w1 else ((if pf = None then [] else preflightFailedResults ?calls, False), w1))"
  obtain rs v w2 where d: "d = ((rs, v), w2)" by (metis prod.collapse)
  obtain nx q c f w3 where c: "op_commitToolResults ops ?calls rs w2 = ((nx, q, c, f), w3)" by (metis prod.collapse)
  have "m w1 \<le> m w" "m w3 \<le> m w2" using assms(1) p c by (auto simp: model_budget_def)
  moreover have "m w2 \<le> m w1" using assms(1) d unfolding d_def by (auto simp: model_budget_def split: if_splits)
  moreover have "actExecuteTools ops r w = (case e of
      Some x \<Rightarrow> ((StateFailed, Some x), r\<lparr>lr_pendingTools := [], lr_state := StateFailed,
        lr_termination := Some (terminationFromError TerminationSession ''session_operation_failed'' x)\<rparr>, w2)
    | None \<Rightarrow> ((lr_state (settleTools r pf v nx q c f), f), settleTools r pf v nx q c f, w3))"
    using False p c d unfolding d_def actExecuteTools_def by (auto simp: Let_def split: option.splits)
  ultimately show ?thesis using assms(2) settleTools_state [of r pf v nx q c f] settleTools_frame [of r pf v nx q c f] by (auto split: option.splits)
qed

lemma executeTools_step:
  assumes "model_budget ops m" "driver_free r" "Act ops (action ActionExecuteTools) r w = ((s, err), r', w')"
  shows "driver_free r' \<and> (err = None \<longrightarrow> s = driver_State r' \<and> m w' \<le> m w \<and> s \<in> {StateFailed, StateCanceled, StateContinueReady})"
  using assms(3,2)
proof (cases rule: Act_cases)
  case (performed r2)
  let ?r = "r\<lparr>lr_active := True, lr_state := driver_State r\<rparr>"
  have act: "actExecuteTools ops ?r w = ((s, err), r2, w')" using performed(1) assms(2) by (simp add: perform_def action_def driver_free_def)
  have "driver_free r'" using actExecuteTools_step [OF assms(1) act] actExecuteTools_frame [OF act] assms(2) performed(2) by (simp add: driver_free_def endAction_def)
  moreover have "s = driver_State r'" if "err = None"
    using actExecuteTools_step [OF assms(1) act] that performed(2) by (auto simp: driver_State_def endAction_def)
  ultimately show ?thesis using actExecuteTools_step [OF assms(1) act] by blast
qed (use assms(2) in auto)

lemma finish_step:
  assumes "driver_free r" "Act ops (finish o1) r w = ((s, err), r', w')"
  shows "\<not> lr_active r' \<and> (if err = None then lr_terminal r' \<and> lr_outcome r' = o1 else \<not> lr_terminal r')"
  using assms(2,1)
proof (cases rule: Act_cases)
  case (performed r2)
  then show ?thesis using assms(1)
    by (auto simp: perform_def finish_def actFinish_def refuse_def driver_free_def endAction_def driver_State_def Let_def split: if_splits)
qed (use assms(1) in \<open>auto simp: driver_free_def\<close>)

text \<open>How the standard loop may leave the driver: with its outcome committed, or with an error and nothing committed.\<close>

definition ended :: "Outcome \<Rightarrow> RunError option \<Rightarrow> runtimeLoopRun \<Rightarrow> bool" where
  "ended o1 err r \<longleftrightarrow> \<not> lr_active r \<and>
     (if err = None then Outcome_Terminal o1 \<and> lr_terminal r \<and> lr_outcome r = o1 else o1 = OutcomeFailed \<and> \<not> lr_terminal r)"

lemma standardLoop_finishes:
  assumes "driver_free r" "standardAction st = None"
  shows "\<exists>o1 err r' w'. standardLoop ops st r w = Some ((o1, err), r', w') \<and> ended o1 err r'"
proof (cases "Outcome_Terminal (loopOutcomeFromState st)")
  case True
  obtain s err r' w' where a: "Act ops (finish (loopOutcomeFromState st)) r w = ((s, err), r', w')" by (metis prod.collapse)
  show ?thesis using finish_step [OF assms(1) a] a True assms(2) by (subst standardLoop.simps) (auto simp: ended_def Let_def split: option.split if_splits)
next
  case False
  then show ?thesis using assms by (subst standardLoop.simps) (auto simp: ended_def driver_free_def Let_def)
qed

lemma standardAction_step:
  assumes "model_budget ops m" "driver_free r" "standardAction (driver_State r) = Some k" "Act ops (action k) r w = ((s, err), r', w')"
  shows "driver_free r' \<and> (err = None \<longrightarrow> s = driver_State r' \<and>
     (standardAction s \<noteq> None \<longrightarrow> 3 * m w' + state_rank s < 3 * m w + state_rank (driver_State r)))"
proof -
  have rank: "state_rank s \<le> 2" by (simp add: state_rank_def split: State.split)
  consider "driver_State r = StateReadyForModel" "k = ActionRequestModel" | "driver_State r = StateContinueReady" "k = ActionContinue"
      | "driver_State r = StateToolsReady" "k = ActionExecuteTools"
    using assms(3) by (auto simp: standardAction_def split: State.splits)
  then show ?thesis
  proof cases
    case 1
    note q = requestModel_step [OF assms(1,2), of w s err r' w']
    have "3 * m w' + state_rank s < 3 * m w" if "m w' < m w" using that rank by linarith
    then show ?thesis using q 1 assms(4) by (auto simp: state_rank_def)
  next
    case 2
    then show ?thesis using continue_step [OF assms(2), of ops w s err r' w'] assms(4) by (auto simp: state_rank_def)
  next
    case 3
    have "3 * m w' + state_rank s < 3 * m w + 2" if "m w' \<le> m w" "s \<in> {StateFailed, StateCanceled, StateContinueReady}"
      using that by (auto simp: state_rank_def)
    then show ?thesis using executeTools_step [OF assms(1,2), of w s err r' w'] 3 assms(4) by (auto simp: state_rank_def)
  qed
qed

lemma standardLoop_ends:
  assumes "model_budget ops m" "driver_free r"
  shows "\<exists>o1 err r' w'. standardLoop ops (driver_State r) r w = Some ((o1, err), r', w') \<and> ended o1 err r'"
  using assms(2)
proof (induction "3 * m w + state_rank (driver_State r)" arbitrary: r w rule: less_induct)
  case less
  show ?case
  proof (cases "standardAction (driver_State r)")
    case None
    show ?thesis by (rule standardLoop_finishes [OF less.prems None])
  next
    case (Some k)
    obtain s err r' w' where a: "Act ops (action k) r w = ((s, err), r', w')" by (metis prod.collapse)
    have step: "driver_free r' \<and> (err = None \<longrightarrow> s = driver_State r' \<and>
        (standardAction s \<noteq> None \<longrightarrow> 3 * m w' + state_rank s < 3 * m w + state_rank (driver_State r)))"
      by (rule standardAction_step [OF assms(1) less.prems Some a])
    show ?thesis
    proof (cases err)
      case None
      then have next_: "standardLoop ops (driver_State r) r w = standardLoop ops s r' w'"
        using a Some by (subst standardLoop.simps) simp
      show ?thesis
      proof (cases "standardAction s")
        case None
        show ?thesis unfolding next_ by (rule standardLoop_finishes [OF conjunct1 [OF step] None])
      next
        case (Some k')
        then show ?thesis unfolding next_ using less.hyps [OF _ conjunct1 [OF step], of w'] step \<open>err = None\<close> by auto
      qed
    next
      case (Some e)
      then show ?thesis using a \<open>standardAction _ = Some k\<close> step by (subst standardLoop.simps) (auto simp: ended_def driver_free_def)
    qed
  qed
qed

text \<open>
  C27. The standard loop always returns when the model calls of the Run are bounded, whatever the contexts, the
  preflights, the tools and the Session answer. Either it returns a terminal outcome without an error: then
  the driver has committed exactly that outcome, and the Run is concluded with it and with the termination
  the driver recorded. Or it returns the failed outcome with an error: then no outcome was committed, and
  the Run is concluded as a violation of the loop protocol, whatever the error was.
\<close>

theorem standard_loop_concludes:
  assumes "model_budget ops m"
  shows "\<exists>o1 err r w'. standardLoop_Run ops (newLoopRun step prepared) w = Some ((o1, err), r, w') \<and>
     (case err of
        None \<Rightarrow> Outcome_Terminal o1 \<and> lr_terminal r \<and> lr_outcome r = o1 \<and>
          conclude r (lr_active r) ctxDone (Returned (o1, err)) = (o1, lr_termination r)
      | Some e \<Rightarrow> o1 = OutcomeFailed \<and> \<not> lr_terminal r \<and>
          conclude r (lr_active r) ctxDone (Returned (o1, err)) = (OutcomeFailed, Some loopProtocolViolation))"
proof -
  have "driver_free (newLoopRun step prepared)" by (simp add: driver_free_def newLoopRun_def)
  from standardLoop_ends [OF assms this, of w] obtain o1 err r w' where
    "standardLoop_Run ops (newLoopRun step prepared) w = Some ((o1, err), r, w')" "ended o1 err r"
    by (auto simp: standardLoop_Run_def)
  then show ?thesis by (intro exI [of _ o1] exI [of _ err] exI [of _ r] exI [of _ w'])
      (auto simp: ended_def conclude_def invokeAgentLoop_def split: option.split)
qed

text \<open>
  What is lost when the standard loop returns an error: when the Session refuses the commit of tool results
  of a restored batch, the driver records that failure as the termination of the Run, and the Run is
  nevertheless concluded as a violation of the loop protocol.
\<close>

lemma session_error_reported_as_violation:
  assumes "op_ctxErr ops w = None" "op_runErr ops w = None" "calls \<noteq> []"
    "op_preflights ops calls w = ((p, None, None), w1)" "op_dispatch ops calls p w1 = ((rs, False), w2)"
    "op_commitToolResults ops calls rs w2 = ((nx, None, False, Some e), w3)" "\<not> re_canceled e"
  shows "\<exists>r. standardLoop_Run ops (newLoopRun step calls) w = Some ((OutcomeFailed, Some e), r, w3) \<and>
     lr_termination r = Some (terminationFromError TerminationSession ''session_operation_failed'' e) \<and>
     conclude r (lr_active r) False (Returned (OutcomeFailed, Some e)) = (OutcomeFailed, Some loopProtocolViolation)"
proof -
  let ?r = "(newLoopRun step calls)\<lparr>lr_pendingTools := [], lr_state := StateFailed,
      lr_termination := Some (terminationFromError TerminationSession ''session_operation_failed'' e)\<rparr>"
  have "Act ops (action ActionExecuteTools) (newLoopRun step calls) w = ((StateFailed, Some e), ?r, w3)"
    using assms by (simp add: Act_def action_def Loop_Contracts.Action_Validate_def beginAction_def check_def newLoopRun_def perform_def actExecuteTools_def
        driver_State_def settleTools_def endAction_def Let_def)
  then have "standardLoop_Run ops (newLoopRun step calls) w = Some ((OutcomeFailed, Some e), ?r, w3)"
    using assms(3) unfolding standardLoop_Run_def by (subst standardLoop.simps) (simp add: newLoopRun_def driver_State_def standardAction_def)
  then show ?thesis using assms(7) by (intro exI [of _ ?r]) (simp add: conclude_def invokeAgentLoop_def newLoopRun_def)
qed

section \<open>Example\<close>

text \<open>A world that counts the model calls left before the model completes; commits may be refused.\<close>

definition demo_ops :: "RunError option \<Rightarrow> nat RunOps" where
  "demo_ops refused = \<lparr>op_ctxErr = (\<lambda>_. None), op_runErr = (\<lambda>_. None),
     op_requestModel = (\<lambda>s n. if n = 0 then ((stepNatural, '''', [], None), 0) else ((stepToolsReady, '''', [demo_tool_call ''echo''], None), n - 1)),
     op_preflights = (\<lambda>calls n. (([], None, None), n)), op_dispatch = (\<lambda>calls p n. (([], False), n)),
     op_commitToolResults = (\<lambda>calls rs n. ((''p2'', None, False, refused), n))\<rparr>"

lemma demo_budget: "model_budget (demo_ops refused) (\<lambda>n. n)"
  by (auto simp: model_budget_def demo_ops_def split: if_splits)

definition demo_done :: runtimeLoopRun where
  "demo_done = (newLoopRun ''p1'' [])\<lparr>lr_state := StateCompleted, lr_terminal := True, lr_outcome := OutcomeCompleted\<rparr>"

lemma demo_driver_run:
  "driver_run (demo_ops None) (newLoopRun ''p1'' [], Idle, 0) [Requested ''p1'' stepNatural '''' []] (demo_done, Idle, 0)"
proof -
  let ?ops = "demo_ops None" and ?r0 = "newLoopRun ''p1'' []"
  let ?r1 = "?r0\<lparr>lr_active := True\<rparr>"
  let ?r2 = "?r1\<lparr>lr_state := StateCompleted\<rparr>"
  let ?r3 = "?r0\<lparr>lr_state := StateCompleted\<rparr>"
  note d = newLoopRun_def action_def finish_def perform_def performed_def actRequestModel_def actFinish_def driver_State_def demo_ops_def loopStateFromStep_def
    finishAllowed_def loopOutcomeFromState_def finishTermination_def Let_def
  have s: "driver_run ?ops (?r0, Idle, 0) [] (?r0, Idle, 0)" by (rule driver_run.start)
  have s: "driver_run ?ops (?r0, Idle, 0) [] (?r1, Submitted (action ActionRequestModel), 0)"
    using driver_run.extend [OF s driver_step.admit [of "action ActionRequestModel" ?r0 ?r1]] by (simp add: beginAction_def check_def newLoopRun_def action_def Loop_Contracts.Action_Validate_def)
  have s: "driver_run ?ops (?r0, Idle, 0) [Requested ''p1'' stepNatural '''' []] (?r2, Done, 0)"
    using driver_run.extend [OF s driver_step.work [of ?ops "action ActionRequestModel" ?r1 0 "(StateCompleted, None)" ?r2 0]] by (simp add: d)
  have s: "driver_run ?ops (?r0, Idle, 0) [Requested ''p1'' stepNatural '''' []] (?r3, Idle, 0)"
    using driver_run.extend [OF s driver_step.complete] by (simp add: endAction_def newLoopRun_def)
  have s: "driver_run ?ops (?r0, Idle, 0) [Requested ''p1'' stepNatural '''' []] (?r2, Submitted (finish OutcomeCompleted), 0)"
    using driver_run.extend [OF s driver_step.admit [of "finish OutcomeCompleted" ?r3 ?r2]]
    by (simp add: beginAction_def check_def newLoopRun_def finish_def Loop_Contracts.Action_Validate_def Outcome_Terminal_def Outcome_Valid_def)
  have s: "driver_run ?ops (?r0, Idle, 0) [Requested ''p1'' stepNatural '''' []] (?r2\<lparr>lr_terminal := True, lr_outcome := OutcomeCompleted\<rparr>, Done, 0)"
    using driver_run.extend [OF s driver_step.work [of ?ops "finish OutcomeCompleted" ?r2 0 "(StateCompleted, None)" "?r2\<lparr>lr_terminal := True, lr_outcome := OutcomeCompleted\<rparr>" 0]]
    by (simp add: d)
  show ?thesis using driver_run.extend [OF s driver_step.complete] by (simp add: endAction_def newLoopRun_def demo_done_def)
qed

theorem loop_ops_follow_protocol_witness: "follows (Ready ''p1'') [Requested ''p1'' stepNatural '''' []] \<noteq> None"
  using loop_ops_follow_protocol [OF demo_driver_run] by simp

lemma demo_conclude: "conclude demo_done (lr_active demo_done) False (Returned (OutcomeCompleted, None)) = (OutcomeCompleted, None)"
  by (simp add: conclude_def invokeAgentLoop_def demo_done_def newLoopRun_def Outcome_Terminal_def Outcome_Valid_def)

theorem loop_conclusion_sound_witness: "lr_terminal demo_done \<and> lr_state demo_done \<in> {StateCompleted, StateReadyForModel, StateContinueReady}"
  using loop_conclusion_sound [OF demo_driver_run demo_conclude] by simp

theorem standard_loop_concludes_witness:
  "(\<exists>o1 err r w'. standardLoop_Run (demo_ops None) (newLoopRun ''p1'' []) 2 = Some ((o1, err), r, w') \<and>
      (case err of None \<Rightarrow> lr_outcome r = o1 \<and> conclude r (lr_active r) False (Returned (o1, err)) = (o1, lr_termination r)
       | Some e \<Rightarrow> o1 = OutcomeFailed)) \<and>
   (\<exists>r. standardLoop_Run (demo_ops (Some plainError)) (newLoopRun ''p1'' [demo_tool_call ''echo'']) 1 = Some ((OutcomeFailed, Some plainError), r, 1) \<and>
      \<not> lr_terminal r \<and> conclude r (lr_active r) True (Returned (OutcomeFailed, Some plainError)) = (OutcomeFailed, Some loopProtocolViolation))"
proof (rule conjI)
  obtain o1 err r w' where "standardLoop_Run (demo_ops None) (newLoopRun ''p1'' []) 2 = Some ((o1, err), r, w')"
      "case err of None \<Rightarrow> Outcome_Terminal o1 \<and> lr_terminal r \<and> lr_outcome r = o1 \<and> conclude r (lr_active r) False (Returned (o1, err)) = (o1, lr_termination r)
       | Some e \<Rightarrow> o1 = OutcomeFailed \<and> \<not> lr_terminal r \<and> conclude r (lr_active r) False (Returned (o1, err)) = (OutcomeFailed, Some loopProtocolViolation)"
    using standard_loop_concludes [OF demo_budget [of None], of "''p1''" "[]" 2 False] by blast
  then show "\<exists>o1 err r w'. standardLoop_Run (demo_ops None) (newLoopRun ''p1'' []) 2 = Some ((o1, err), r, w') \<and>
      (case err of None \<Rightarrow> lr_outcome r = o1 \<and> conclude r (lr_active r) False (Returned (o1, err)) = (o1, lr_termination r)
       | Some e \<Rightarrow> o1 = OutcomeFailed)"
    by (intro exI [of _ o1] exI [of _ err] exI [of _ r] exI [of _ w']) (simp split: option.splits)
next
  let ?e = "[demo_tool_call ''echo'']"
  obtain r where r: "standardLoop_Run (demo_ops (Some plainError)) (newLoopRun ''p1'' ?e) 1 = Some ((OutcomeFailed, Some plainError), r, 1)"
    using session_error_reported_as_violation [of "demo_ops (Some plainError)" 1 ?e "[]" 1 "[]" 1 "''p2''" plainError 1 "''p1''"]
    by (auto simp: demo_ops_def plainError_def)
  then show "\<exists>r. standardLoop_Run (demo_ops (Some plainError)) (newLoopRun ''p1'' ?e) 1 = Some ((OutcomeFailed, Some plainError), r, 1) \<and>
      \<not> lr_terminal r \<and> conclude r (lr_active r) True (Returned (OutcomeFailed, Some plainError)) = (OutcomeFailed, Some loopProtocolViolation)"
    using standard_loop_concludes [OF demo_budget [of "Some plainError"], of "''p1''" ?e 1 True] by auto
qed

end
