(* ===== verification/Runtime_State.thy ===== *)
theory Runtime_State
  imports Session_Manager Loop_Driver
begin

text \<open>
  The state of one Session runtime (\<^verbatim>\<open>standardagent/runtime.go\<close>, \<^verbatim>\<open>runtime_execution.go\<close>) with the store it
  writes to, its identifiers, its view and its commits, and the change lists it builds. The runtime mutex makes
  each locked section one step; an operation with several sections is several definitions. \<^verbatim>\<open>r.active != run\<close>
  compares Runs by identifier. Counters of attempts and calls are integers (each counts durable facts); the
  token counter is a 64-bit word. The fingerprints of hook views are parameters of the components.
\<close>

section \<open>State\<close>

datatype runtimeLifecycle = runtimeOpening | runtimeIdle | runtimeRunning | runtimeClosed

record activeRun =
  ar_id :: RunID
  ar_config :: Config
  ar_configRevision :: Revision
  ar_cancelRequested :: bool
  ar_usedTokens :: int64
  ar_modelAttempts :: int
  ar_toolCalls :: int
  ar_controlActor :: ActorIdentity

record toolPreflightBinding =
  tpb_descriptor :: ExtensionDescriptor
  tpb_scope :: ToolScope

record toolResultHookBinding =
  trb_descriptor :: ExtensionDescriptor
  trb_scope :: ToolResultScope

record runtimeComponents =
  rc_MaxTokensPerRun :: int64
  rc_MaxModelAttemptsPerRun :: int
  rc_MaxToolCallsPerRun :: int
  rc_toolPreflights :: "toolPreflightBinding list"
  rc_toolResultHooks :: "toolResultHookBinding list"
  rc_preflightFingerprint :: "ToolPreflightView \<Rightarrow> string option"
  rc_resultFingerprint :: "ToolResultView \<Rightarrow> string option"

record runtimeInstance =
  rt_id :: SessionID
  rt_agentID :: AgentID
  rt_workspaceID :: WorkspaceID
  rt_prefix :: string
  rt_sequence :: nat
  rt_state :: runtimeLifecycle
  rt_closing :: bool
  rt_active :: "activeRun option"
  rt_revision :: Revision
  rt_components :: runtimeComponents
  rt_store :: MemoryStore

text \<open>Errors of the runtime; \<open>RtPanicked\<close> is a run-time panic, which ends the operation the same way.\<close>

datatype rtError = RtCanceled | RtPanicked | RtError ClassifiedError | RtRevisionConflict Revision ClassifiedError

type_synonym 'a rt = "runtimeInstance \<Rightarrow> (rtError + 'a) \<times> runtimeInstance"

text \<open>\<open>bindR m f\<close> is \<^verbatim>\<open>x, err := m; if err != nil { return err }\<close> followed by \<open>f x\<close>; the state is kept on every path.\<close>

definition bindR :: "'a rt \<Rightarrow> ('a \<Rightarrow> 'b rt) \<Rightarrow> 'b rt" where
  "bindR m f r = (case m r of (Inl e, r') \<Rightarrow> (Inl e, r') | (Inr x, r') \<Rightarrow> f x r')"

definition failR :: "rtError \<Rightarrow> 'a rt" where
  "failR e r = (Inl e, r)"

definition returnR :: "'a \<Rightarrow> 'a rt" where
  "returnR x r = (Inr x, r)"

definition guardR :: "bool \<Rightarrow> rtError \<Rightarrow> 'a rt \<Rightarrow> 'a rt" where
  "guardR bad e m r = (if bad then (Inl e, r) else m r)"

section \<open>Identifiers, views and commits\<close>

definition rt_nextID :: "string \<Rightarrow> runtimeInstance \<Rightarrow> string \<times> runtimeInstance" where
  "rt_nextID kind r = (let n = rt_sequence r + 1 in (idText kind (rt_prefix r) n, r\<lparr>rt_sequence := n\<rparr>))"

definition newID :: "string \<Rightarrow> string rt" where
  "newID kind r = (let (i, r') = rt_nextID kind r in (Inr i, r'))"

definition owns :: "runtimeInstance \<Rightarrow> RunID \<Rightarrow> bool" where
  "owns r i = (case rt_active r of None \<Rightarrow> False | Some a \<Rightarrow> ar_id a = i)"

text \<open>\<^verbatim>\<open>r.active != run || run.cancelRequested || r.closing\<close>, negated.\<close>

definition live :: "runtimeInstance \<Rightarrow> RunID \<Rightarrow> bool" where
  "live r i = (case rt_active r of None \<Rightarrow> False | Some a \<Rightarrow> ar_id a = i \<and> \<not> ar_cancelRequested a \<and> \<not> rt_closing r)"

definition viewLocked :: "Ctx \<Rightarrow> Snapshot rt" where
  "viewLocked ctx r = (case Load ctx (rt_id r) (rt_store r) of
      Inl e \<Rightarrow> (Inl (RtError e), r)
    | Inr s \<Rightarrow> (Inr s, r\<lparr>rt_revision := snap_Revision s\<rparr>))"

definition commitKey :: "string \<Rightarrow> string \<Rightarrow> string" where
  "commitKey operation i = ''runtime-'' @ operation @ ''-'' @ i"

definition commitLockedAs :: "Env \<Rightarrow> Ctx \<Rightarrow> Revision \<Rightarrow> string \<Rightarrow> ActorIdentity \<Rightarrow> Change list \<Rightarrow> Commit rt" where
  "commitLockedAs env ctx expected operation actor changes r =
     (let (i, r1) = rt_nextID ''commit'' r;
          (result, st) = Commit_op env ctx \<lparr>creq_SessionID = rt_id r, creq_ExpectedRevision = expected, creq_IdempotencyKey = commitKey operation i,
            creq_Actor = actor, creq_Changes = changes\<rparr> (rt_store r);
          r2 = r1\<lparr>rt_store := st\<rparr> in
      case result of Inl e \<Rightarrow> (Inl (RtError e), r2) | Inr c \<Rightarrow> (Inr c, r2\<lparr>rt_revision := com_Revision c\<rparr>))"

definition commitLocked :: "Env \<Rightarrow> Revision \<Rightarrow> string \<Rightarrow> Change list \<Rightarrow> Commit rt" where
  "commitLocked env expected operation changes = commitLockedAs env CtxLive expected operation zero_actor changes"

definition commitExternalLocked :: "Env \<Rightarrow> Ctx \<Rightarrow> Revision \<Rightarrow> string \<Rightarrow> ActorIdentity \<Rightarrow> Change list \<Rightarrow> Commit rt" where
  "commitExternalLocked env ctx expected operation actor changes r =
     (case commitLockedAs env ctx expected operation actor changes r of
        (Inl (RtError e), r1) \<Rightarrow>
          if err_Code e \<noteq> CodeRevisionConflict then (Inl (RtError e), r1)
          else (case Load ctx (rt_id r1) (rt_store r1) of
              Inl _ \<Rightarrow> (Inl (RtRevisionConflict (rt_revision r1) e), r1)
            | Inr s \<Rightarrow> (Inl (RtRevisionConflict (snap_Revision s) e), r1\<lparr>rt_revision := snap_Revision s\<rparr>))
      | other \<Rightarrow> other)"

text \<open>View and commit on the revision just seen.\<close>

definition commitSeen :: "Env \<Rightarrow> string \<Rightarrow> (Snapshot \<Rightarrow> Change list) \<Rightarrow> Commit rt" where
  "commitSeen env operation changes = bindR (viewLocked CtxLive) (\<lambda>s. commitLocked env (snap_Revision s) operation (changes s))"

section \<open>Change lists\<close>

definition zero_change :: Change where
  "zero_change = \<lparr>chg_Kind = ChangeKind_other '''', chg_Message = None, chg_ToolCall = None, chg_ToolResult = None, chg_RunFact = None,
     chg_ModelAttempt = None, chg_ContextContribution = None, chg_RunBudgetExceeded = None, chg_RunLimitExceeded = None, chg_SessionEvent = None,
     chg_QueueItem = None, chg_QueueClaim = None, chg_QueueConsume = None, chg_QueueEdit = None, chg_QueueDelete = None,
     chg_QueueReclassification = None, chg_Context = None, chg_RetainPreviousContext = False, chg_ModelConfig = None, chg_RunState = None,
     chg_Journal = None, chg_Extension = None\<rparr>"

abbreviation "ch_message m \<equiv> zero_change\<lparr>chg_Kind := AppendMessage, chg_Message := Some m\<rparr>"
abbreviation "ch_call c \<equiv> zero_change\<lparr>chg_Kind := AppendToolCall, chg_ToolCall := Some c\<rparr>"
abbreviation "ch_result x \<equiv> zero_change\<lparr>chg_Kind := AppendToolResult, chg_ToolResult := Some x\<rparr>"
abbreviation "ch_run f \<equiv> zero_change\<lparr>chg_Kind := AppendRunFact, chg_RunFact := Some f\<rparr>"
abbreviation "ch_attempt f \<equiv> zero_change\<lparr>chg_Kind := AppendModelAttempt, chg_ModelAttempt := Some f\<rparr>"
abbreviation "ch_context f \<equiv> zero_change\<lparr>chg_Kind := AppendContextContribution, chg_ContextContribution := Some f\<rparr>"
abbreviation "ch_budget f \<equiv> zero_change\<lparr>chg_Kind := AppendRunBudgetExceeded, chg_RunBudgetExceeded := Some f\<rparr>"
abbreviation "ch_limit f \<equiv> zero_change\<lparr>chg_Kind := AppendRunLimitExceeded, chg_RunLimitExceeded := Some f\<rparr>"
abbreviation "ch_event e \<equiv> zero_change\<lparr>chg_Kind := AppendSessionEvent, chg_SessionEvent := Some e\<rparr>"
abbreviation "ch_enqueue i \<equiv> zero_change\<lparr>chg_Kind := EnqueueMessage, chg_QueueItem := Some i\<rparr>"
abbreviation "ch_claim c \<equiv> zero_change\<lparr>chg_Kind := ClaimQueue, chg_QueueClaim := Some c\<rparr>"
abbreviation "ch_consume c \<equiv> zero_change\<lparr>chg_Kind := ConsumeQueue, chg_QueueConsume := Some c\<rparr>"
abbreviation "ch_edit e \<equiv> zero_change\<lparr>chg_Kind := EditQueue, chg_QueueEdit := Some e\<rparr>"
abbreviation "ch_delete i \<equiv> zero_change\<lparr>chg_Kind := DeleteQueue, chg_QueueDelete := Some i\<rparr>"
abbreviation "ch_reclassify x \<equiv> zero_change\<lparr>chg_Kind := ReclassifyQueue, chg_QueueReclassification := Some x\<rparr>"
abbreviation "ch_config c \<equiv> zero_change\<lparr>chg_Kind := SetModelConfig, chg_ModelConfig := Some c\<rparr>"
abbreviation "ch_state x \<equiv> zero_change\<lparr>chg_Kind := SetRunState, chg_RunState := Some x\<rparr>"
abbreviation "ch_journal e \<equiv> zero_change\<lparr>chg_Kind := UpdateRunJournal, chg_Journal := Some e\<rparr>"
abbreviation "ch_extension e \<equiv> zero_change\<lparr>chg_Kind := UpdateExtensionJournal, chg_Extension := Some e\<rparr>"

definition firstPending :: "QueueItem list \<Rightarrow> Delivery \<Rightarrow> QueueItem option" where
  "firstPending queue delivery = List.find (\<lambda>i. \<not> Claimed i \<and> qi_Delivery i = delivery) queue"

definition pendingByDelivery :: "QueueItem list \<Rightarrow> Delivery \<Rightarrow> QueueItem list" where
  "pendingByDelivery queue delivery = filter (\<lambda>i. \<not> Claimed i \<and> qi_Delivery i = delivery) queue"

definition queueByID :: "QueueItem list \<Rightarrow> MessageID \<Rightarrow> QueueItem option" where
  "queueByID queue i = List.find (\<lambda>x. msg_ID (qi_Message x) = i) queue"

definition contextSource :: "ExtensionJournalEntry \<Rightarrow> string" where
  "contextSource e = ''hook:'' @ ext_Key (xj_Descriptor e) @ '':'' @ xj_InvocationID e"

definition consumed :: "ExtensionJournalEntry \<Rightarrow> ExtensionJournalEntry" where
  "consumed e = e\<lparr>xj_ContextDisposition := ContextConsumed, xj_ContextInputs := []\<rparr>"

definition pendingInputContext :: "MessageID \<Rightarrow> ExtensionJournalEntry \<Rightarrow> bool" where
  "pendingInputContext i e \<longleftrightarrow> xj_Boundary e = BoundaryInputGate \<and> xj_MessageID e = i \<and> xj_Status e = InvocationSucceeded \<and>
     (case xj_Result e of None \<Rightarrow> False | Some x \<Rightarrow> ires_Decision x = DecisionAccept) \<and>
     xj_EffectDisposition e = EffectApplied \<and> xj_ContextDisposition e = ContextPending"

definition consumePendingInputContexts :: "Snapshot \<Rightarrow> MessageID \<Rightarrow> RunID \<Rightarrow> StepID \<Rightarrow> Change list" where
  "consumePendingInputContexts s messageID runID stepID = concat (map
     (\<lambda>e. [ch_context \<lparr>ctr_RunID = runID, ctr_StepID = stepID, ctr_SourceKey = contextSource e, ctr_Inputs = xj_ContextInputs e\<rparr>, ch_extension (consumed e)])
     (filter (pendingInputContext messageID) (snap_ExtensionJournal s)))"

definition discardPendingInputContexts :: "Snapshot \<Rightarrow> MessageID \<Rightarrow> Change list" where
  "discardPendingInputContexts s messageID = map
     (\<lambda>e. ch_extension (e\<lparr>xj_ContextDisposition := ContextDiscarded, xj_ContextInputs := []\<rparr>))
     (filter (\<lambda>e. xj_Boundary e = BoundaryInputGate \<and> xj_MessageID e = messageID \<and> xj_EffectDisposition e = EffectApplied \<and>
        xj_ContextDisposition e = ContextPending) (snap_ExtensionJournal s))"

definition bindLifecycleContext :: "Input list \<Rightarrow> RunID \<Rightarrow> StepID \<Rightarrow> Input list" where
  "bindLifecycleContext inputs runID stepID =
     map (\<lambda>i. i\<lparr>inp_Message := map_option (\<lambda>m. m\<lparr>msg_RunID := runID, msg_StepID := stepID\<rparr>) (inp_Message i)\<rparr>) inputs"

definition consumePendingLifecycleContexts :: "Snapshot \<Rightarrow> RunID \<Rightarrow> StepID \<Rightarrow> Change list" where
  "consumePendingLifecycleContexts s runID stepID = concat (map
     (\<lambda>e. [ch_context \<lparr>ctr_RunID = runID, ctr_StepID = stepID, ctr_SourceKey = contextSource e,
              ctr_Inputs = bindLifecycleContext (xj_ContextInputs e) runID stepID\<rparr>, ch_extension (consumed e)])
     (filter (\<lambda>e. xj_Boundary e = BoundarySessionLifecycle \<and> xj_LifecyclePhase e = LifecycleOpen \<and> xj_Status e = InvocationSucceeded \<and>
        xj_EffectDisposition e = EffectApplied \<and> xj_ContextDisposition e = ContextPending) (snap_ExtensionJournal s)))"

definition appendInputConsumption :: "Snapshot \<Rightarrow> QueueItem \<Rightarrow> RunID \<Rightarrow> StepID \<Rightarrow> Change list" where
  "appendInputConsumption s item runID stepID = (let i = msg_ID (qi_Message item) in
     [ch_claim \<lparr>qc_MessageID = i, qc_RunID = runID\<rparr>, ch_consume \<lparr>qn_MessageID = i, qn_RunID = runID\<rparr>,
      ch_message ((qi_Message item)\<lparr>msg_RunID := runID, msg_StepID := stepID\<rparr>)] @ consumePendingInputContexts s i runID stepID)"

definition startChangesLocked :: "Snapshot \<Rightarrow> QueueItem \<Rightarrow> bool \<Rightarrow> runtimeInstance \<Rightarrow> (activeRun \<times> StepID \<times> Change list) \<times> runtimeInstance" where
  "startChangesLocked s item enqueue r =
     (let (runID, r1) = rt_nextID ''run'' r; (stepID, r2) = rt_nextID ''step'' r1;
          run = \<lparr>ar_id = runID, ar_config = snap_ModelConfig s, ar_configRevision = snap_Revision s, ar_cancelRequested = False, ar_usedTokens = 0,
                 ar_modelAttempts = 0, ar_toolCalls = 0, ar_controlActor = zero_actor\<rparr>;
          started = \<lparr>run_SessionID = rt_id r, run_RunID = runID, run_Kind = RunStarted, run_ModelConfig = snap_ModelConfig s,
                     run_ConfigRevision = snap_Revision s, run_LegacyCompletionMode = '''', run_Termination = None\<rparr> in
      ((run, stepID,
        (if enqueue then [ch_enqueue item] else []) @ [ch_state \<lparr>rsc_RunID = runID, rsc_State = RunRunning\<rparr>, ch_run started] @
        consumePendingLifecycleContexts s runID stepID @ appendInputConsumption s item runID stepID), r2))"

definition activateLocked :: "activeRun \<Rightarrow> runtimeInstance \<Rightarrow> runtimeInstance" where
  "activateLocked run r = r\<lparr>rt_state := runtimeRunning, rt_active := Some run\<rparr>"

definition ensureOpenLocked :: "string \<Rightarrow> runtimeInstance \<Rightarrow> rtError option" where
  "ensureOpenLocked operation r =
     (if rt_state r = runtimeClosed \<or> rt_closing r
      then Some (RtError (NewCodedError ErrorConflict ''runtime_closed'' operation ''Session Runtime is closed''))
      else if rt_state r = runtimeOpening
      then Some (RtError (NewCodedError ErrorUnavailable ''runtime_unavailable'' operation ''Session Runtime is still opening''))
      else None)"

definition whenOpen :: "string \<Rightarrow> 'a rt \<Rightarrow> 'a rt" where
  "whenOpen operation m r = (case ensureOpenLocked operation r of Some e \<Rightarrow> (Inl e, r) | None \<Rightarrow> m r)"

definition update_run :: "(activeRun \<Rightarrow> activeRun) \<Rightarrow> runtimeInstance \<Rightarrow> runtimeInstance" where
  "update_run f r = r\<lparr>rt_active := map_option f (rt_active r)\<rparr>"

end
