(* ===== verification/Runtime_Steps.thy ===== *)
theory Runtime_Steps
  imports Runtime_State
begin

text \<open>
  The durable steps of a Run (\<^verbatim>\<open>standardagent/runtime_execution.go\<close>) and the commands on a Session runtime
  (\<^verbatim>\<open>runtime_commands.go\<close>), each a locked section of the runtime. The commands are modelled without input
  gates; \<open>now\<close> is the time of a message, and the observers of model attempts are outside.
\<close>

section \<open>Model attempts\<close>

definition recordRunLimitExceededLocked :: "Env \<Rightarrow> Snapshot \<Rightarrow> RunLimitExceededFact \<Rightarrow> Commit rt" where
  "recordRunLimitExceededLocked env s f = commitLocked env (snap_Revision s) ''run-limit'' [ch_limit f]"

text \<open>\<^term>\<open>True\<close>: the limit is reached and recorded.\<close>

definition recordModelAttemptLimitLocked :: "Env \<Rightarrow> activeRun \<Rightarrow> StepID \<Rightarrow> AttemptID \<Rightarrow> bool rt" where
  "recordModelAttemptLimitLocked env run step attemptID r =
     (let maximum = rc_MaxModelAttemptsPerRun (rt_components r) in
      if maximum \<le> 0 \<or> ar_modelAttempts run < maximum then (Inr False, r)
      else bindR (viewLocked CtxLive) (\<lambda>s. bindR (recordRunLimitExceededLocked env s
             \<lparr>lim_RunID = ar_id run, lim_StepID = step, lim_Kind = RunLimitModelAttempts, lim_Used = word_of_int (ar_modelAttempts run),
              lim_Max = word_of_int maximum, lim_Requested = 1, lim_TriggerAttemptID = attemptID, lim_TriggerToolCallID = ''''\<rparr>)
             (\<lambda>_. returnR True)) r)"

definition modelAttemptLimitError :: rtError where
  "modelAttemptLimitError = RtError (NewCodedError ErrorUnavailable CodeRunModelAttemptLimitExceeded ''standardagent.model_attempt'' ''Run model attempt limit exceeded'')"

definition attemptFact :: "activeRun \<Rightarrow> StepID \<Rightarrow> AttemptStart \<Rightarrow> ModelAttemptFact" where
  "attemptFact run step a = \<lparr>att_AttemptID = ast_AttemptID a, att_RunID = ar_id run, att_StepID = step, att_Kind = Attempt_Started,
     att_ProviderKey = ast_ProviderKey a, att_ModelID = ast_ModelID a, att_ProviderRequestID = '''', att_Usage = zero_usage, att_ErrorCode = '''', att_ErrorMessage = ''''\<rparr>"

text \<open>The two locked sections of \<^verbatim>\<open>Started\<close>: before and after the observers are asked.\<close>

definition Started_admit :: "Env \<Rightarrow> RunID \<Rightarrow> StepID \<Rightarrow> AttemptStart \<Rightarrow> unit rt" where
  "Started_admit env i step a r =
     (if AttemptStart_Validate a \<noteq> None then (Inl (RtError (plain_error ''model: invalid attempt start'')), r)
      else if \<not> live r i then (Inl RtCanceled, r)
      else let run = the (rt_active r) in
        if ast_ProviderKey a \<noteq> cfg_ProviderKey (ar_config run) \<or> ast_ModelID a \<noteq> cfg_ModelID (ar_config run)
        then (Inl (RtError (NewError ErrorInvalidInput ''standardagent.model_attempt'' ''Executor attempt does not match the frozen Run model'')), r)
        else bindR (recordModelAttemptLimitLocked env run step (ast_AttemptID a))
               (\<lambda>exceeded. if exceeded then failR modelAttemptLimitError else returnR ()) r)"

definition Started_commit :: "Env \<Rightarrow> RunID \<Rightarrow> StepID \<Rightarrow> AttemptStart \<Rightarrow> unit rt" where
  "Started_commit env i step a r =
     (if \<not> live r i then (Inl RtCanceled, r)
      else let run = the (rt_active r) in
        bindR (recordModelAttemptLimitLocked env run step (ast_AttemptID a)) (\<lambda>exceeded.
          if exceeded then failR modelAttemptLimitError
          else bindR (commitSeen env ''attempt-start'' (\<lambda>_. [ch_attempt (attemptFact run step a)]))
            (\<lambda>_ r'. (Inr (), update_run (\<lambda>x. x\<lparr>ar_modelAttempts := ar_modelAttempts x + 1\<rparr>) r'))) r)"

definition finishKind :: "AttemptOutcome \<Rightarrow> ModelAttemptKind" where
  "finishKind o1 = (case o1 of AttemptSucceeded \<Rightarrow> Attempt_Succeeded | AttemptCanceled \<Rightarrow> Attempt_Canceled | _ \<Rightarrow> Attempt_Failed)"

text \<open>The last locked section of \<^verbatim>\<open>Finished\<close>.\<close>

definition Finished_commit :: "Env \<Rightarrow> RunID \<Rightarrow> StepID \<Rightarrow> AttemptFinish \<Rightarrow> unit rt" where
  "Finished_commit env i step f r =
     (if AttemptFinish_Validate f \<noteq> None then (Inl (RtError (plain_error ''model: invalid attempt finish'')), r)
      else if \<not> owns r i then (Inl RtCanceled, r)
      else let run = the (rt_active r) in
        bindR (commitSeen env ''attempt-finish'' (\<lambda>_. [ch_attempt
            \<lparr>att_AttemptID = afi_AttemptID f, att_RunID = ar_id run, att_StepID = step, att_Kind = finishKind (afi_Outcome f),
             att_ProviderKey = cfg_ProviderKey (ar_config run), att_ModelID = cfg_ModelID (ar_config run), att_ProviderRequestID = afi_ProviderRequestID f,
             att_Usage = afi_Usage f, att_ErrorCode = afi_ErrorCode f, att_ErrorMessage = afi_ErrorMessage f\<rparr>]))
          (\<lambda>_ r'. (Inr (), update_run (\<lambda>x. x\<lparr>ar_usedTokens := ar_usedTokens x + use_TotalTokens (afi_Usage f)\<rparr>) r')) r)"

definition runBudget :: "activeRun \<Rightarrow> runtimeInstance \<Rightarrow> TokenBudget" where
  "runBudget run r = \<lparr>bud_MaxTokens = rc_MaxTokensPerRun (rt_components r), bud_UsedTokens = ar_usedTokens run\<rparr>"

definition recordBudgetExceeded :: "Env \<Rightarrow> RunID \<Rightarrow> Commit rt" where
  "recordBudgetExceeded env i r =
     (if \<not> owns r i then (Inl RtCanceled, r)
      else let run = the (rt_active r); maximum = rc_MaxTokensPerRun (rt_components r) in
        if sle maximum 0 \<or> slt (ar_usedTokens run) maximum
        then (Inl (RtError (NewError ErrorInternal ''standardagent.run_budget'' ''Executor reported an unexhausted Run budget'')), r)
        else commitSeen env ''run-budget'' (\<lambda>_. [ch_budget \<lparr>bex_RunID = ar_id run, bex_UsedTokens = ar_usedTokens run, bex_MaxTokens = maximum\<rparr>]) r)"

section \<open>Completions and tools\<close>

definition toolCallOf :: "SessionID \<Rightarrow> RunID \<Rightarrow> StepID \<Rightarrow> MessageID \<Rightarrow> ToolCallRequest \<Rightarrow> ToolCallID \<Rightarrow> ToolCall" where
  "toolCallOf sid runID step messageID q i = \<lparr>call_ID = i, call_CorrelationID = tcr_CorrelationID q, call_MessageID = messageID, call_SessionID = sid,
     call_RunID = runID, call_StepID = step, call_Name = tcr_Name q, call_Arguments = tcr_Arguments q\<rparr>"

primrec newToolCalls :: "RunID \<Rightarrow> StepID \<Rightarrow> MessageID \<Rightarrow> ToolCallRequest list \<Rightarrow> runtimeInstance \<Rightarrow> ToolCall list \<times> runtimeInstance" where
  "newToolCalls runID step messageID [] r = ([], r)"
| "newToolCalls runID step messageID (q # qs) r =
     (let (i, r1) = rt_nextID ''call'' r; (cs, r2) = newToolCalls runID step messageID qs r1 in
      (toolCallOf (rt_id r) runID step messageID q i # cs, r2))"

definition preflightEntry :: "runtimeInstance \<Rightarrow> time \<Rightarrow> ToolCall \<Rightarrow> Revision \<Rightarrow> ExtensionSequence \<Rightarrow> toolPreflightBinding \<Rightarrow> string \<Rightarrow> string \<Rightarrow> ExtensionJournalEntry" where
  "preflightEntry r now call revision n b i digest =
     \<lparr>xj_InvocationID = i, xj_Sequence = n, xj_Descriptor = tpb_descriptor b, xj_Boundary = BoundaryToolPreflight, xj_SessionID = rt_id r,
      xj_RunID = call_RunID call, xj_StepID = call_StepID call, xj_TargetStepID = '''', xj_MessageID = call_MessageID call, xj_ToolCallID = call_ID call,
      xj_GoalID = '''', xj_GoalVersion = 0, xj_LifecyclePhase = LifecyclePhase_other '''', xj_LifecycleOpenKind = OpenKind_other '''', xj_InputDigest = digest,
      xj_PreparedRevision = revision, xj_PreparedAt = now, xj_PendingAt = 0, xj_FinishedAt = 0, xj_Status = InvocationPrepared, xj_Result = None,
      xj_ErrorCode = '''', xj_ErrorReason = '''', xj_EffectDisposition = EffectNone, xj_ContextDisposition = ContextNone, xj_ContextInputs = [],
      xj_ContextDigest = '''', xj_ContextBytes = 0\<rparr>"

definition preflightView :: "runtimeInstance \<Rightarrow> ToolCall \<Rightarrow> Revision \<Rightarrow> string \<Rightarrow> ToolPreflightView" where
  "preflightView r call revision i = \<lparr>tpv_InvocationID = i, tpv_SessionID = rt_id r, tpv_AgentID = rt_agentID r, tpv_WorkspaceID = rt_workspaceID r,
     tpv_Revision = revision, tpv_RunID = call_RunID call, tpv_StepID = call_StepID call, tpv_MessageID = call_MessageID call, tpv_ToolCallID = call_ID call,
     tpv_ToolKey = call_Name call, tpv_Arguments = call_Arguments call\<rparr>"

text \<open>One pass over the bindings that match the call; the sequence number of the extension journal is threaded.\<close>

primrec reservePreflights :: "time \<Rightarrow> ToolCall \<Rightarrow> Revision \<Rightarrow> toolPreflightBinding list \<Rightarrow> ExtensionSequence \<Rightarrow> (Change list \<times> ExtensionSequence) rt" where
  "reservePreflights now call revision [] n = returnR ([], n)"
| "reservePreflights now call revision (b # bs) n =
     (if \<not> ToolScope_Matches (tpb_scope b) (call_Name call) then reservePreflights now call revision bs n
      else bindR (newID ''preflight'') (\<lambda>i r. case rc_preflightFingerprint (rt_components r) (preflightView r call revision i) of
          None \<Rightarrow> (Inl (RtError (plain_error ''hook: typed input fingerprint failed'')), r)
        | Some digest \<Rightarrow> bindR (reservePreflights now call revision bs (n + 1))
            (\<lambda>(cs, m). returnR (ch_extension (preflightEntry r now call revision n b i digest) # cs, m)) r))"

definition appendToolPreflightReservations :: "time \<Rightarrow> ToolCall \<Rightarrow> Revision \<Rightarrow> ExtensionSequence \<Rightarrow> (Change list \<times> ExtensionSequence) rt" where
  "appendToolPreflightReservations now call revision n r =
     (if rc_toolPreflights (rt_components r) = [] then (Inr ([], n), r)
      else if n = 0 then (Inl (RtError (NewError ErrorInternal ''standardagent.tool_preflight'' ''extension sequence allocator is invalid'')), r)
      else reservePreflights now call revision (rc_toolPreflights (rt_components r)) n r)"

primrec completionCallChanges :: "time \<Rightarrow> Revision \<Rightarrow> ToolCall list \<Rightarrow> ExtensionSequence \<Rightarrow> (Change list) rt" where
  "completionCallChanges now revision [] n = returnR []"
| "completionCallChanges now revision (c # cs) n =
     bindR (appendToolPreflightReservations now c revision n) (\<lambda>(xs, m).
       bindR (completionCallChanges now revision cs m) (\<lambda>rest. returnR
         (ch_call c # ch_journal \<lparr>jrn_RunID = call_RunID c, jrn_StepID = call_StepID c, jrn_ToolCall = Some c, jrn_ToolResult = None, jrn_Status = JournalPrepared\<rparr> # xs @ rest)))"

definition assistantMessage :: "runtimeInstance \<Rightarrow> time \<Rightarrow> activeRun \<Rightarrow> StepID \<Rightarrow> MessageID \<Rightarrow> Completion \<Rightarrow> Message" where
  "assistantMessage r now run step messageID output =
     \<lparr>msg_ID = messageID, msg_ClientMessageID = '''', msg_SessionID = rt_id r, msg_RunID = ar_id run, msg_StepID = step, msg_Role = RoleAssistant,
      msg_Parts = cmp_Parts output, msg_ModelContinuation = (if cmp_Continuation output = [] then None
        else Some \<lparr>mc_ProviderKey = cfg_ProviderKey (ar_config run), mc_ModelID = cfg_ModelID (ar_config run), mc_State = cmp_Continuation output\<rparr>),
      msg_CreatedAt = now\<rparr>"

text \<open>
  \<^verbatim>\<open>commitCompletion\<close>: \<^term>\<open>None\<close> is the canceled result. The fact that records an exceeded limit names the
  first call, so the index panics when the limit is exceeded and the completion has no call.
\<close>

definition commitCompletion :: "Env \<Rightarrow> time \<Rightarrow> RunID \<Rightarrow> StepID \<Rightarrow> MessageID \<Rightarrow> Completion \<Rightarrow> (ToolCall list option) rt" where
  "commitCompletion env now i step messageID output r =
     (if \<not> live r i then (Inr None, r)
      else let run = the (rt_active r); maximum = rc_MaxToolCallsPerRun (rt_components r) in
        bindR (viewLocked CtxLive) (\<lambda>s r1. let (calls, r2) = newToolCalls (ar_id run) step messageID (cmp_ToolCalls output) r1 in
          if 0 < maximum \<and> int (length calls) > maximum - ar_toolCalls run then
            if calls = [] then (Inl RtPanicked, r2)
            else bindR (recordRunLimitExceededLocked env s
              \<lparr>lim_RunID = ar_id run, lim_StepID = step, lim_Kind = RunLimitToolCalls, lim_Used = word_of_int (ar_toolCalls run), lim_Max = word_of_int maximum,
               lim_Requested = of_nat (length calls), lim_TriggerAttemptID = '''', lim_TriggerToolCallID = call_ID (hd calls)\<rparr>)
              (\<lambda>_. failR (RtError (NewCodedError ErrorUnavailable CodeRunToolCallLimitExceeded ''standardagent.tool_calls'' ''Run tool call limit exceeded''))) r2
          else bindR (completionCallChanges now (snap_Revision s + 1) calls (of_nat (length (snap_ExtensionJournal s) + 1)))
            (\<lambda>changes. bindR (commitLocked env (snap_Revision s) ''model-complete'' (ch_message (assistantMessage r now run step messageID output) # changes))
              (\<lambda>_ r3. (Inr (Some calls), update_run (\<lambda>x. x\<lparr>ar_toolCalls := ar_toolCalls x + int (length calls)\<rparr>) r3))) r2) r)"

definition markToolExecuting :: "Env \<Rightarrow> RunID \<Rightarrow> ToolCall \<Rightarrow> Commit rt" where
  "markToolExecuting env i call r =
     (if \<not> live r i then (Inl RtCanceled, r)
      else commitSeen env ''tool-executing'' (\<lambda>_. [ch_journal
        \<lparr>jrn_RunID = call_RunID call, jrn_StepID = call_StepID call, jrn_ToolCall = Some call, jrn_ToolResult = None, jrn_Status = JournalPending\<rparr>]) r)"

definition resultStatus :: "ResultStatus \<Rightarrow> JournalStatus" where
  "resultStatus s = (case s of ResultSucceeded \<Rightarrow> JournalSucceeded | ResultUnknown \<Rightarrow> JournalOutcomeUnknown | _ \<Rightarrow> JournalFailed)"

definition resultChanges :: "ToolCall list \<Rightarrow> ToolResult list \<Rightarrow> Change list" where
  "resultChanges calls results = concat (map (\<lambda>(c, x). [ch_result x, ch_journal
     \<lparr>jrn_RunID = call_RunID c, jrn_StepID = call_StepID c, jrn_ToolCall = Some c, jrn_ToolResult = Some x, jrn_Status = resultStatus (res_Status x)\<rparr>]) (zip calls results))"

definition resultView :: "runtimeInstance \<Rightarrow> string \<Rightarrow> Revision \<Rightarrow> ToolCall \<Rightarrow> ToolResult \<Rightarrow> StepID \<Rightarrow> ToolResultView" where
  "resultView r i revision call result nextStep = \<lparr>trv_InvocationID = i, trv_SessionID = rt_id r, trv_AgentID = rt_agentID r, trv_WorkspaceID = rt_workspaceID r,
     trv_Revision = revision, trv_RunID = call_RunID call, trv_StepID = call_StepID call, trv_NextStepID = nextStep, trv_MessageID = call_MessageID call,
     trv_ToolCallID = call_ID call, trv_ToolKey = call_Name call, trv_Arguments = call_Arguments call, trv_Result = result\<rparr>"

definition resultEntry :: "runtimeInstance \<Rightarrow> time \<Rightarrow> ToolCall \<Rightarrow> StepID \<Rightarrow> Revision \<Rightarrow> ExtensionSequence \<Rightarrow> toolResultHookBinding \<Rightarrow> string \<Rightarrow> string \<Rightarrow> ExtensionJournalEntry" where
  "resultEntry r now call nextStep revision n b i digest =
     (preflightEntry r now call revision n \<lparr>tpb_descriptor = trb_descriptor b, tpb_scope = \<lparr>tsc_All = False, tsc_ToolKeys = []\<rparr>\<rparr> i digest)
       \<lparr>xj_Boundary := BoundaryToolResult, xj_TargetStepID := nextStep\<rparr>"

primrec reserveResultHooks :: "time \<Rightarrow> ToolCall \<Rightarrow> ToolResult \<Rightarrow> StepID \<Rightarrow> Revision \<Rightarrow> toolResultHookBinding list \<Rightarrow> ExtensionSequence \<Rightarrow>
    (ExtensionJournalEntry list \<times> ExtensionSequence) rt" where
  "reserveResultHooks now call result nextStep revision [] n = returnR ([], n)"
| "reserveResultHooks now call result nextStep revision (b # bs) n =
     bindR (newID ''post-result'') (\<lambda>i r. case rc_resultFingerprint (rt_components r) (resultView r i revision call result nextStep) of
         None \<Rightarrow> (Inl (RtError (plain_error ''hook: typed input fingerprint failed'')), r)
       | Some digest \<Rightarrow> bindR (reserveResultHooks now call result nextStep revision bs (n + 1))
           (\<lambda>(es, m). returnR (resultEntry r now call nextStep revision n b i digest # es, m)) r)"

definition matchingToolResultHooks :: "toolResultHookBinding list \<Rightarrow> string \<Rightarrow> ResultStatus \<Rightarrow> toolResultHookBinding list" where
  "matchingToolResultHooks bindings key status = filter (\<lambda>b. ToolResultScope_Matches (trb_scope b) key status) bindings"

text \<open>The occurrences: the pending calls whose result has hooks, with the reserved entries.\<close>

primrec reserveResults :: "time \<Rightarrow> ToolCallID set \<Rightarrow> StepID \<Rightarrow> Revision \<Rightarrow> (ToolCall \<times> ToolResult) list \<Rightarrow> ExtensionSequence \<Rightarrow>
    ((ToolCall \<times> ToolResult \<times> ExtensionJournalEntry list) list) rt" where
  "reserveResults now pending nextStep revision [] n = returnR []"
| "reserveResults now pending nextStep revision (p # ps) n r =
     (let (c, x) = p; bs = matchingToolResultHooks (rc_toolResultHooks (rt_components r)) (call_Name c) (res_Status x) in
      if call_ID c \<notin> pending \<or> res_CallID x \<noteq> call_ID c \<or> (res_Status x \<noteq> ResultSucceeded \<and> res_Status x \<noteq> ResultFailed) \<or> bs = []
      then reserveResults now pending nextStep revision ps n r
      else bindR (reserveResultHooks now c x nextStep revision bs n) (\<lambda>(es, m).
             bindR (reserveResults now pending nextStep revision ps m) (\<lambda>os. returnR ((c, x, es) # os))) r)"

definition appendToolResultReservations :: "time \<Rightarrow> Snapshot \<Rightarrow> ToolCall list \<Rightarrow> ToolResult list \<Rightarrow> StepID \<Rightarrow> Revision \<Rightarrow>
    ((ToolCall \<times> ToolResult \<times> ExtensionJournalEntry list) list) rt" where
  "appendToolResultReservations now s calls results nextStep revision r =
     (if rc_toolResultHooks (rt_components r) = [] then (Inr [], r)
      else if length calls \<noteq> length results \<or> \<not> validID nextStep \<or> revision = 0
      then (Inl (RtError (NewError ErrorInternal ''standardagent.tool_result_hook'' ''tool result reservation input is invalid'')), r)
      else reserveResults now
        {call_ID c | c e. e \<in> set (snap_RunJournal s) \<and> jrn_Status e = JournalPending \<and> jrn_ToolCall e = Some c}
        nextStep revision (zip calls results) (of_nat (length (snap_ExtensionJournal s) + 1)) r)"

text \<open>The locked section of \<^verbatim>\<open>commitToolResults\<close>: the next step and the occurrences, \<^term>\<open>None\<close> when the Run was replaced.\<close>

definition commitToolResults_locked :: "Env \<Rightarrow> time \<Rightarrow> RunID \<Rightarrow> ToolCall list \<Rightarrow> ToolResult list \<Rightarrow>
    ((StepID \<times> (ToolCall \<times> ToolResult \<times> ExtensionJournalEntry list) list \<times> bool) option) rt" where
  "commitToolResults_locked env now i calls results r =
     (if \<not> owns r i then (Inr None, r)
      else bindR (viewLocked CtxLive) (\<lambda>s. bindR (newID ''step'') (\<lambda>nextStep.
        bindR (appendToolResultReservations now s calls results nextStep (snap_Revision s + 1)) (\<lambda>os.
          bindR (commitLocked env (snap_Revision s) ''tool-results''
              (resultChanges calls results @ map ch_extension (concat (map (snd \<circ> snd) os)) @
               concat (map (\<lambda>item. appendInputConsumption s item i nextStep) (pendingByDelivery (snap_Queue s) DeliverySteer))))
            (\<lambda>_ r'. (Inr (Some (nextStep, os, \<not> live r' i)), r'))))) r)"

section \<open>Follow-on steps and the end of a Run\<close>

text \<open>The locked section of \<^verbatim>\<open>continueAfterCompletionOnce\<close> with the accepted proposals: the next step, if there is one.\<close>

primrec followOnChanges :: "time \<Rightarrow> Snapshot \<Rightarrow> RunID \<Rightarrow> StepID \<Rightarrow> MessageInput list \<Rightarrow> runtimeInstance \<Rightarrow> Change list \<times> runtimeInstance" where
  "followOnChanges now s i step [] r = ([], r)"
| "followOnChanges now s i step (p # ps) r =
     (let (mid, r1) = rt_nextID ''message'' r;
          message = \<lparr>msg_ID = mid, msg_ClientMessageID = '''', msg_SessionID = rt_id r, msg_RunID = '''', msg_StepID = '''', msg_Role = RoleUser,
            msg_Parts = input_Parts p, msg_ModelContinuation = None, msg_CreatedAt = now\<rparr>;
          item = \<lparr>qi_Message = message, qi_Delivery = DeliverySteer, qi_ClaimedBy = ''''\<rparr>; (rest, r2) = followOnChanges now s i step ps r1 in
      (ch_enqueue item # appendInputConsumption s item i step @ rest, r2))"

definition followOn :: "Env \<Rightarrow> time \<Rightarrow> RunID \<Rightarrow> MessageInput list \<Rightarrow> (StepID option) rt" where
  "followOn env now i proposals r =
     (if \<not> live r i then (Inl RtCanceled, r)
      else bindR (viewLocked CtxLive) (\<lambda>s r1.
        let steers = pendingByDelivery (snap_Queue s) DeliverySteer; accepted = (if steers \<noteq> [] then [] else proposals) in
        if steers = [] \<and> accepted = [] then (Inr None, r1)
        else let (step, r2) = rt_nextID ''step'' r1; (changes, r3) = followOnChanges now s i step accepted r2 in
          bindR (commitLocked env (snap_Revision s) ''follow-on'' (concat (map (\<lambda>item. appendInputConsumption s item i step) steers) @ changes))
            (\<lambda>_. returnR (Some step)) r3) r)"

definition terminalKind :: "stepOutcome \<Rightarrow> RunTermination option \<Rightarrow> RunFactKind" where
  "terminalKind o1 t = (case o1 of
      stepNatural \<Rightarrow> RunCompleted | stepCanceled \<Rightarrow> RunCanceled | stepBudgetExceeded \<Rightarrow> RunInterrupted | stepWaiting \<Rightarrow> RunInterrupted
    | stepFailed \<Rightarrow> (case t of Some x \<Rightarrow> if term_Source x = TerminationExtension then RunInterrupted else RunFailed | None \<Rightarrow> RunFailed)
    | _ \<Rightarrow> RunFailed)"

definition finalTermination :: "RunFactKind \<Rightarrow> RunTermination option \<Rightarrow> RunTermination option" where
  "finalTermination k t = (if k = RunCompleted then None else case t of Some x \<Rightarrow> Some x | None \<Rightarrow> Some (case k of
      RunCanceled \<Rightarrow> canceledRunTermination
    | RunInterrupted \<Rightarrow> fixedRunTermination TerminationRuntime ErrorUnavailable CodeRuntimeInterrupted
    | _ \<Rightarrow> fixedRunTermination TerminationRuntime ErrorInternal ''runtime_failed''))"

definition sameRuntimeConfig :: "Config \<Rightarrow> Config \<Rightarrow> bool" where
  "sameRuntimeConfig a b \<longleftrightarrow> cfg_ProviderKey a = cfg_ProviderKey b \<and> cfg_ModelID a = cfg_ModelID b \<and> cfg_Reasoning a = cfg_Reasoning b \<and>
     sameFloat (par_Temperature (cfg_Parameters a)) (par_Temperature (cfg_Parameters b)) \<and>
     sameInt (par_MaxTokens (cfg_Parameters a)) (par_MaxTokens (cfg_Parameters b))"

definition recoveredRunIsSettled :: "Snapshot \<Rightarrow> SessionID \<Rightarrow> activeRun \<Rightarrow> bool" where
  "recoveredRunIsSettled s sid run =
     (let runs = filter (\<lambda>f. run_RunID f = ar_id run) (List.map_filter fact_Run (snap_History s)) in
      ses_ID (snap_Session s) = sid \<and> snap_RunState s = RunIdle \<and> \<not> validID (snap_ActiveRunID s) \<and>
      list_all (\<lambda>f. HistoryFact_Validate f sid = None) (snap_History s) \<and>
      list_all (\<lambda>f. run_ConfigRevision f = ar_configRevision run \<and> sameRuntimeConfig (run_ModelConfig f) (ar_config run)) runs \<and>
      length (filter (\<lambda>f. run_Kind f = RunStarted) runs) = 1 \<and> length (filter (\<lambda>f. run_Kind f \<noteq> RunStarted) runs) = 1 \<and>
      list_all (\<lambda>e. JournalEntry_Validate e sid = None \<and> jrn_Status e \<noteq> JournalPrepared \<and> jrn_Status e \<noteq> JournalPending) (snap_RunJournal s))"

definition recoverAfterRunFailureLocked :: "Env \<Rightarrow> activeRun \<Rightarrow> runtimeInstance \<Rightarrow> runtimeInstance" where
  "recoverAfterRunFailureLocked env run r =
     (let (result, st) = Recover env CtxLive (rt_id r) (rt_store r); r1 = r\<lparr>rt_store := st, rt_active := None\<rparr> in
      case result of
        Inr s \<Rightarrow> if recoveredRunIsSettled s (rt_id r) run then r1\<lparr>rt_revision := snap_Revision s, rt_state := runtimeIdle\<rparr>
                 else r1\<lparr>rt_state := runtimeClosed, rt_closing := True\<rparr>
      | Inl e \<Rightarrow> r1\<lparr>rt_state := runtimeClosed, rt_closing := True\<rparr>)"

definition terminalFact :: "SessionID \<Rightarrow> activeRun \<Rightarrow> RunFactKind \<Rightarrow> RunTermination option \<Rightarrow> RunFact" where
  "terminalFact sid run k t = \<lparr>run_SessionID = sid, run_RunID = ar_id run, run_Kind = k, run_ModelConfig = ar_config run,
     run_ConfigRevision = ar_configRevision run, run_LegacyCompletionMode = '''', run_Termination = t\<rparr>"

definition finishActor :: "RunFactKind \<Rightarrow> activeRun \<Rightarrow> Snapshot \<Rightarrow> ActorIdentity" where
  "finishActor k run s = (if k = RunCanceled \<and> ActorIdentity_Valid (ar_controlActor run) then ar_controlActor run
     else if k = RunCompleted then \<lparr>actor_Kind = ActorAgent, actor_ID = ses_AgentID (snap_Session s)\<rparr> else zero_actor)"

text \<open>The result is the next Run with its first step, when one is started in the same commit.\<close>

definition finishRun :: "Env \<Rightarrow> RunID \<Rightarrow> stepOutcome \<Rightarrow> RunTermination option \<Rightarrow> runtimeInstance \<Rightarrow> (activeRun \<times> StepID) option \<times> runtimeInstance" where
  "finishRun env i o0 t0 r =
     (if \<not> owns r i then (None, r)
      else let run = the (rt_active r); canceled = ar_cancelRequested run \<or> rt_closing r;
               o1 = (if canceled then stepCanceled else o0); t1 = (if canceled then Some canceledRunTermination else t0) in
        (case viewLocked CtxLive r of
           (Inl e, r1) \<Rightarrow> (None, recoverAfterRunFailureLocked env run r1)
         | (Inr s, r1) \<Rightarrow>
             let k = terminalKind o1 t1;
                 held = (if o1 = stepNatural then [] else map (\<lambda>item. ch_reclassify \<lparr>qr_MessageID = msg_ID (qi_Message item), qr_Delivery = DeliveryHeld\<rparr>)
                   (pendingByDelivery (snap_Queue s) DeliverySteer));
                 changes = held @ [ch_run (terminalFact (rt_id r) run k (finalTermination k t1)), ch_state \<lparr>rsc_RunID = ar_id run, rsc_State = RunIdle\<rparr>];
                 (next, more, r2) = (if o1 = stepNatural \<and> \<not> rt_closing r then (case firstPending (snap_Queue s) DeliveryNormal of
                      Some item \<Rightarrow> let ((run', step, start), r2) = startChangesLocked s item False r1 in (Some (run', step), start, r2)
                    | None \<Rightarrow> (None, [], r1)) else (None, [], r1)) in
             (case commitLockedAs env CtxLive (snap_Revision s) ''run-finish'' (finishActor k run s) (changes @ more) r2 of
                (Inl e, r3) \<Rightarrow> (None, recoverAfterRunFailureLocked env run r3)
              | (Inr c, r3) \<Rightarrow> (case next of
                    Some (run', step) \<Rightarrow> (next, r3\<lparr>rt_active := Some run', rt_state := runtimeRunning\<rparr>)
                  | None \<Rightarrow> (None, r3\<lparr>rt_active := None, rt_state := runtimeIdle\<rparr>)))))"

end
