(* ===== verification/Runtime_Commands.thy ===== *)
theory Runtime_Commands
  imports Runtime_Steps "HOL-Library.Sublist"
begin

text \<open>
  The commands on a Session runtime (\<^verbatim>\<open>standardagent/runtime_commands.go\<close>) with the requests of
  \<^verbatim>\<open>interaction/contracts.go\<close>, and the restoration of an interrupted Run (\<^verbatim>\<open>restorePreparedRun\<close>). The locked
  section of a command is its definition; the wait for the first model attempt after it is outside. These are
  the sections without installed gates; the ones for input that gates have accepted are in \<^verbatim>\<open>Runtime_Gates\<close>.
\<close>

section \<open>Requests\<close>

text \<open>\<^verbatim>\<open>SendRequest\<close> and \<^verbatim>\<open>SteerRequest\<close> have the same fields.\<close>

record SendRequest =
  snd_SessionID :: SessionID
  snd_ExpectedRevision :: Revision
  snd_Actor :: ActorIdentity
  snd_ClientMessageID :: ClientMessageID
  snd_Input :: MessageInput

record CancelRequest =
  can_SessionID :: SessionID
  can_ExpectedRevision :: Revision
  can_Actor :: ActorIdentity

record EditQueuedRequest =
  eqr_SessionID :: SessionID
  eqr_MessageID :: MessageID
  eqr_ExpectedRevision :: Revision
  eqr_Actor :: ActorIdentity
  eqr_Input :: MessageInput

record ReclassifyQueuedRequest =
  rqr_SessionID :: SessionID
  rqr_MessageID :: MessageID
  rqr_ExpectedRevision :: Revision
  rqr_Actor :: ActorIdentity
  rqr_Delivery :: Delivery

record UpdateModelConfigRequest =
  umr_SessionID :: SessionID
  umr_ExpectedRevision :: Revision
  umr_Actor :: ActorIdentity
  umr_Config :: Config
  umr_AcceptCompatibilityLoss :: bool

abbreviation bad_input :: "string \<Rightarrow> string \<Rightarrow> rtError" where
  "bad_input op m \<equiv> RtError (invalidInput op m)"

section \<open>Input\<close>

definition userMessage :: "SessionID \<Rightarrow> MessageID \<Rightarrow> time \<Rightarrow> SendRequest \<Rightarrow> Message" where
  "userMessage sid i now q = \<lparr>msg_ID = i, msg_ClientMessageID = snd_ClientMessageID q, msg_SessionID = sid, msg_RunID = '''', msg_StepID = '''',
     msg_Role = RoleUser, msg_Parts = input_Parts (snd_Input q), msg_ModelContinuation = None, msg_CreatedAt = now\<rparr>"

definition badSend :: "SendRequest \<Rightarrow> runtimeInstance \<Rightarrow> bool" where
  "badSend q r \<longleftrightarrow> snd_SessionID q \<noteq> rt_id r \<or> \<not> MessageInput_Valid (snd_Input q) \<or> (snd_ClientMessageID q \<noteq> '''' \<and> \<not> validID (snd_ClientMessageID q))"

datatype sent = Enqueued MessageID Revision | RunStartedFor MessageID RunID StepID

definition send :: "Env \<Rightarrow> Ctx \<Rightarrow> time \<Rightarrow> SendRequest \<Rightarrow> sent rt" where
  "send env ctx now q r =
     (if badSend q r then (Inl (bad_input ''gateway.send'' ''SessionID, valid optional ClientMessageID, and message input are required''), r)
      else whenOpen ''gateway.send'' (bindR (viewLocked ctx) (\<lambda>s. bindR (newID ''message'') (\<lambda>i r1.
        let item = \<lparr>qi_Message = userMessage (rt_id r) i now q, qi_Delivery = DeliveryNormal, qi_ClaimedBy = ''''\<rparr> in
        if rt_state r1 = runtimeRunning then
          bindR (commitExternalLocked env ctx (snd_ExpectedRevision q) ''send'' (snd_Actor q) [ch_enqueue item]) (\<lambda>c. returnR (Enqueued i (com_Revision c))) r1
        else let ((run, step, changes), r2) = startChangesLocked s item True r1 in
          bindR (commitExternalLocked env ctx (snd_ExpectedRevision q) ''send-start'' (snd_Actor q) changes)
            (\<lambda>_ r3. (Inr (RunStartedFor i (ar_id run) step), activateLocked run r3)) r2))) r)"

definition steer :: "Env \<Rightarrow> Ctx \<Rightarrow> time \<Rightarrow> SendRequest \<Rightarrow> sent rt" where
  "steer env ctx now q r =
     (if badSend q r then (Inl (bad_input ''gateway.steer'' ''SessionID, valid optional ClientMessageID, and message input are required''), r)
      else whenOpen ''gateway.steer'' (\<lambda>r. if rt_state r \<noteq> runtimeRunning \<or> rt_active r = None
        then (Inl (RtError (NewCodedError ErrorConflict CodeNoActiveRun ''gateway.steer'' ''session has no active Run'')), r)
        else bindR (newID ''message'') (\<lambda>i. bindR (commitExternalLocked env ctx (snd_ExpectedRevision q) ''steer'' (snd_Actor q)
            [ch_enqueue \<lparr>qi_Message = userMessage (rt_id r) i now q, qi_Delivery = DeliverySteer, qi_ClaimedBy = ''''\<rparr>])
            (\<lambda>c. returnR (Enqueued i (com_Revision c)))) r) r)"

definition pending :: "Env \<Rightarrow> Ctx \<Rightarrow> CancelRequest \<Rightarrow> (RunID \<times> StepID) rt" where
  "pending env ctx q r =
     (if can_SessionID q \<noteq> rt_id r then (Inl (bad_input ''gateway.run_pending'' ''SessionID is required''), r)
      else whenOpen ''gateway.run_pending'' (\<lambda>r. if rt_state r = runtimeRunning
        then (Inl (RtError (NewCodedError ErrorConflict CodeActiveRun ''gateway.run_pending'' ''session already has an active Run'')), r)
        else bindR (viewLocked ctx) (\<lambda>s r1. case firstPending (snap_Queue s) DeliveryNormal of
            None \<Rightarrow> (Inl (RtError (NewCodedError ErrorConflict ''no_pending_work'' ''gateway.run_pending'' ''session has no pending normal input'')), r1)
          | Some item \<Rightarrow> let ((run, step, changes), r2) = startChangesLocked s item False r1 in
              bindR (commitExternalLocked env ctx (can_ExpectedRevision q) ''run-pending'' (can_Actor q) changes)
                (\<lambda>_ r3. (Inr (ar_id run, step), activateLocked run r3)) r2) r) r)"

section \<open>Control\<close>

definition cancel :: "Ctx \<Rightarrow> CancelRequest \<Rightarrow> unit rt" where
  "cancel ctx q r =
     (if can_SessionID q \<noteq> rt_id r then (Inl (bad_input ''gateway.cancel'' ''SessionID is required''), r)
      else whenOpen ''gateway.cancel'' (bindR (viewLocked ctx) (\<lambda>s r1.
        if can_ExpectedRevision q \<noteq> snap_Revision s then
          (Inl (RtRevisionConflict (snap_Revision s) (NewCodedError ErrorConflict CodeRevisionConflict ''gateway.cancel'' ''expected revision does not match'')), r1)
        else if rt_state r1 = runtimeIdle \<or> rt_active r1 = None then (Inr (), r1)
        else (Inr (), update_run (\<lambda>x. x\<lparr>ar_cancelRequested := True,
          ar_controlActor := (if ActorIdentity_Valid (can_Actor q) then can_Actor q else ar_controlActor x)\<rparr>) r1))) r)"

definition startCloseLocked :: "runtimeInstance \<Rightarrow> runtimeInstance" where
  "startCloseLocked r = update_run (\<lambda>x. x\<lparr>ar_cancelRequested := True\<rparr>) (r\<lparr>rt_closing := True\<rparr>)"

text \<open>The last locked section of \<^verbatim>\<open>finishClose\<close>, after the active Run is done.\<close>

definition finishClose_locked :: "runtimeInstance \<Rightarrow> runtimeInstance" where
  "finishClose_locked r = (if rt_state r \<noteq> runtimeClosed then r\<lparr>rt_state := runtimeClosed, rt_active := None\<rparr> else r)"

section \<open>The queue and the model configuration\<close>

definition editQueued :: "Env \<Rightarrow> Ctx \<Rightarrow> EditQueuedRequest \<Rightarrow> Revision rt" where
  "editQueued env ctx q r =
     (if eqr_SessionID q \<noteq> rt_id r \<or> \<not> validID (eqr_MessageID q) \<or> \<not> MessageInput_Valid (eqr_Input q)
      then (Inl (bad_input ''gateway.edit_queued'' ''SessionID, MessageID, and input are required''), r)
      else whenOpen ''gateway.edit_queued'' (bindR (viewLocked ctx) (\<lambda>s. case queueByID (snap_Queue s) (eqr_MessageID q) of
          None \<Rightarrow> failR (RtError (NewCodedError ErrorNotFound CodeQueueItemNotFound ''gateway.edit_queued'' ''queue item was not found''))
        | Some item \<Rightarrow> bindR (commitExternalLocked env ctx (eqr_ExpectedRevision q) ''queue-edit'' (eqr_Actor q)
            (ch_edit \<lparr>qe_MessageID = eqr_MessageID q, qe_Input = eqr_Input q, qe_Delivery = qi_Delivery item\<rparr> # discardPendingInputContexts s (eqr_MessageID q)))
            (\<lambda>c. returnR (com_Revision c)))) r)"

text \<open>\<open>gateJournal\<close> is \<^verbatim>\<open>hasInputGateJournal\<close>: whether the Session has ever had an input gate.\<close>

definition deleteQueued :: "Env \<Rightarrow> Ctx \<Rightarrow> bool \<Rightarrow> ReclassifyQueuedRequest \<Rightarrow> Revision rt" where
  "deleteQueued env ctx gateJournal q r =
     (if rqr_SessionID q \<noteq> rt_id r \<or> \<not> validID (rqr_MessageID q)
      then (Inl (bad_input ''gateway.delete_queued'' ''SessionID and MessageID are required''), r)
      else whenOpen ''gateway.delete_queued'' (bindR
        (if gateJournal then bindR (viewLocked ctx) (\<lambda>s. returnR (discardPendingInputContexts s (rqr_MessageID q))) else returnR [])
        (\<lambda>more. bindR (commitExternalLocked env ctx (rqr_ExpectedRevision q) ''queue-delete'' (rqr_Actor q) (ch_delete (rqr_MessageID q) # more))
          (\<lambda>c. returnR (com_Revision c)))) r)"

definition reclassifyQueued :: "Env \<Rightarrow> Ctx \<Rightarrow> ReclassifyQueuedRequest \<Rightarrow> Revision rt" where
  "reclassifyQueued env ctx q r =
     (if rqr_SessionID q \<noteq> rt_id r \<or> \<not> validID (rqr_MessageID q) \<or> \<not> Delivery_Valid (rqr_Delivery q)
      then (Inl (bad_input ''gateway.reclassify_queued'' ''SessionID, MessageID, and delivery are required''), r)
      else whenOpen ''gateway.reclassify_queued'' (bindR (commitExternalLocked env ctx (rqr_ExpectedRevision q) ''queue-reclassify'' (rqr_Actor q)
        [ch_reclassify \<lparr>qr_MessageID = rqr_MessageID q, qr_Delivery = rqr_Delivery q\<rparr>]) (\<lambda>c. returnR (com_Revision c))) r)"

text \<open>
  \<^verbatim>\<open>strings.ToLower\<close> for the ASCII prefixes it is tested against: besides the ASCII letters, only U+0130 has
  an ASCII letter (\<open>i\<close>) among these prefixes as its lower case.
\<close>

fun undotted :: "string \<Rightarrow> string" where
  "undotted (a # b # s) = (if a = CHR 0xC4 \<and> b = CHR 0xB0 then CHR ''i'' # undotted s else a # undotted (b # s))"
| "undotted s = s"

definition attachmentModality :: "string \<Rightarrow> Modality" where
  "attachmentModality mediaType = (let m = to_lower (undotted mediaType) in
     if prefix ''image/'' m then ModalityImage else if prefix ''audio/'' m then ModalityAudio else 0)"

definition attachmentParts :: "HistoryFact list \<Rightarrow> MessagePart list" where
  "attachmentParts history = filter (\<lambda>p. part_Kind p = PartAttachment) (concat (map msg_Parts (List.map_filter fact_Message history)))"

definition modelCompatibilityWarnings :: "HistoryFact list \<Rightarrow> Capabilities \<Rightarrow> (Modality \<times> nat) list" where
  "modelCompatibilityWarnings history capabilities =
     (let lost = filter (\<lambda>m. Modality_Valid m \<and> \<not> SupportsInput capabilities m) (map (attachmentModality \<circ> part_MediaType) (attachmentParts history)) in
      filter (\<lambda>(m, n). 0 < n) (map (\<lambda>m. (m, count_list lost m)) AllModalities))"

definition idleCheck :: "string \<Rightarrow> runtimeInstance \<Rightarrow> rtError option" where
  "idleCheck op r = (if rt_state r = runtimeRunning
     then Some (RtError (NewCodedError ErrorConflict CodeActiveRun op ''model config cannot change while a Run is active'')) else None)"

text \<open>The second locked section of \<^verbatim>\<open>updateModelConfig\<close>; \<open>capabilities\<close> is what the executor reported in between.\<close>

definition updateModelConfig_locked :: "Env \<Rightarrow> Ctx \<Rightarrow> UpdateModelConfigRequest \<Rightarrow> Capabilities \<Rightarrow> Revision rt" where
  "updateModelConfig_locked env ctx q capabilities =
     whenOpen ''gateway.update_model_config'' (\<lambda>r. case idleCheck ''gateway.update_model_config'' r of Some e \<Rightarrow> (Inl e, r)
       | None \<Rightarrow> bindR (viewLocked ctx) (\<lambda>s.
           if modelCompatibilityWarnings (snap_History s) capabilities \<noteq> [] \<and> \<not> umr_AcceptCompatibilityLoss q
           then failR (RtError (NewCodedError ErrorConflict ''compatibility_confirmation_required'' ''gateway.update_model_config'' ''target model cannot directly consume all persisted attachments''))
           else bindR (commitExternalLocked env ctx (umr_ExpectedRevision q) ''model-config'' (umr_Actor q)
               [ch_config (umr_Config q), ch_event \<lparr>sev_Kind = EventModelConfigChanged, sev_Revision = 0,
                  sev_ModelConfigChanged = Some \<lparr>mcc_Previous = snap_ModelConfig s, mcc_Current = umr_Config q\<rparr>\<rparr>])
             (\<lambda>c. returnR (com_Revision c))) r)"

section \<open>Restoration\<close>

definition runTokens :: "RunID \<Rightarrow> HistoryFact list \<Rightarrow> int64" where
  "runTokens i history = sum_list (map (use_TotalTokens \<circ> att_Usage) (filter (\<lambda>a. att_RunID a = i \<and> att_Kind a \<noteq> Attempt_Started) (List.map_filter fact_ModelAttempt history)))"

definition runAttempts :: "RunID \<Rightarrow> HistoryFact list \<Rightarrow> nat" where
  "runAttempts i history = length (filter (\<lambda>a. att_RunID a = i \<and> att_Kind a = Attempt_Started) (List.map_filter fact_ModelAttempt history))"

definition runToolCalls :: "RunID \<Rightarrow> HistoryFact list \<Rightarrow> nat" where
  "runToolCalls i history = length (filter (\<lambda>c. call_RunID c = i) (List.map_filter fact_ToolCall history))"

definition preparedCalls :: "Snapshot \<Rightarrow> (StepID \<times> ToolCall) list" where
  "preparedCalls s = List.map_filter (\<lambda>e. if jrn_Status e = JournalPrepared \<and> jrn_RunID e = snap_ActiveRunID s
     then map_option (\<lambda>c. (jrn_StepID e, c)) (jrn_ToolCall e) else None) (snap_RunJournal s)"

fun spansSteps :: "StepID \<Rightarrow> StepID list \<Rightarrow> bool" where
  "spansSteps step [] = False"
| "spansSteps step (s # ss) = (if validID step \<and> step \<noteq> s then True else spansSteps s ss)"

definition persistedTermination :: "RunID \<Rightarrow> HistoryFact list \<Rightarrow> RunTermination option" where
  "persistedTermination i history = foldl (\<lambda>t f.
     let t1 = (case fact_RunBudgetExceeded f of Some b \<Rightarrow> if bex_RunID b = i then Some budgetRunTermination else t | None \<Rightarrow> t) in
     (case fact_RunLimitExceeded f of Some l \<Rightarrow> if lim_RunID l = i
        then Some (runLimitTermination (if lim_Kind l = RunLimitToolCalls then CodeRunToolCallLimitExceeded else CodeRunModelAttemptLimitExceeded)) else t1 | None \<Rightarrow> t1)) None history"

text \<open>The plan that classifies the extension journal when a runtime opens, and the completion work that is left to resume.\<close>

record extensionRecoveryPlan =
  erp_lifecycle :: "ExtensionJournalEntry list"
  erp_inputGate :: "ExtensionJournalEntry list"
  erp_toolPreflight :: "ExtensionJournalEntry list"
  erp_toolResult :: "ExtensionJournalEntry list"
  erp_completion :: "ExtensionJournalEntry list"

definition planExtensionRecovery :: "Snapshot \<Rightarrow> extensionRecoveryPlan" where
  "planExtensionRecovery s = (let at = (\<lambda>b. filter (\<lambda>e. xj_Boundary e = b) (snap_ExtensionJournal s)) in
     \<lparr>erp_lifecycle = at BoundarySessionLifecycle, erp_inputGate = at BoundaryInputGate, erp_toolPreflight = at BoundaryToolPreflight,
      erp_toolResult = at BoundaryToolResult, erp_completion = at BoundaryCompletion\<rparr>)"

definition unsettledCompletionEntries :: "ExtensionJournalEntry list \<Rightarrow> RunID \<Rightarrow> ExtensionJournalEntry list" where
  "unsettledCompletionEntries entries i = filter (\<lambda>e. xj_Boundary e = BoundaryCompletion \<and> xj_RunID e = i \<and>
     (xj_Status e = InvocationPrepared \<or> InvocationStatus_Terminal (xj_Status e) \<and> xj_EffectDisposition e = EffectPending)) entries"

datatype restored = NothingToRestore | FinishLimited RunTermination | ResumeTools StepID "ToolCall list" | ResumeCompletion "ExtensionJournalEntry list"

definition restoreError :: "string \<Rightarrow> rtError" where
  "restoreError m = RtError (NewError ErrorInternal ''standardagent.restore'' m)"

text \<open>
  The result is the goroutine that is started. \<^verbatim>\<open>restoreCompletionOccurrence\<close> only decides what that goroutine
  finds (the gates, or a failure to report), so the entries stand for it.
\<close>

definition restorePreparedRun :: "Snapshot \<Rightarrow> extensionRecoveryPlan \<Rightarrow> restored rt" where
  "restorePreparedRun s plan r =
     (if snap_RunState s \<noteq> RunRunning then (Inr NothingToRestore, r)
      else let calls = preparedCalls s; i = snap_ActiveRunID s; completion = unsettledCompletionEntries (erp_completion plan) i in
        if spansSteps '''' (map fst calls) then (Inl (restoreError ''prepared ToolCalls span multiple steps''), r)
        else if calls \<noteq> [] \<and> completion \<noteq> [] then (Inl (restoreError ''running Session has conflicting resumable work''), r)
        else (case last_such (\<lambda>f. run_RunID f = i \<and> run_Kind f = RunStarted) (List.map_filter fact_Run (snap_History s)) of
            None \<Rightarrow> (Inl (restoreError ''prepared Run has no RunStarted fact''), r)
          | Some f \<Rightarrow> let run = \<lparr>ar_id = i, ar_config = run_ModelConfig f, ar_configRevision = run_ConfigRevision f, ar_cancelRequested = False,
                ar_usedTokens = runTokens i (snap_History s), ar_modelAttempts = int (runAttempts i (snap_History s)),
                ar_toolCalls = int (runToolCalls i (snap_History s)), ar_controlActor = zero_actor\<rparr> in
              (case persistedTermination i (snap_History s) of
                 Some t \<Rightarrow> if calls \<noteq> [] \<or> completion \<noteq> [] then (Inl (restoreError ''limited Run still has resumable work''), r) else (Inr (FinishLimited t), activateLocked run r)
               | None \<Rightarrow>
                   if completion \<noteq> [] then (Inr (ResumeCompletion completion), activateLocked run r)
                   else if calls = [] \<or> \<not> validID (fst (last calls)) then (Inl (restoreError ''running Session has no resumable prepared ToolCall''), r)
                   else (Inr (ResumeTools (fst (last calls)) (map snd calls)), activateLocked run r))))"

end
