(* ===== verification/Run_Counts.thy ===== *)
theory Run_Counts
  imports Runtime_Commands Journal_Progress
begin

text \<open>
  What a commit and a recovery do to the numbers that a runtime keeps of its Run: the model attempts and tool
  calls in the History, and the durable state of the Run. Each change list contributes a fixed amount, and
  recovery contributes nothing.
\<close>

section \<open>What a change contributes\<close>

definition started_in :: "RunID \<Rightarrow> Change \<Rightarrow> nat" where
  "started_in i c = (if chg_Kind c = AppendModelAttempt \<and> att_RunID (the (chg_ModelAttempt c)) = i \<and> att_Kind (the (chg_ModelAttempt c)) = Attempt_Started then 1 else 0)"

definition called_in :: "RunID \<Rightarrow> Change \<Rightarrow> nat" where
  "called_in i c = (if chg_Kind c = AppendToolCall \<and> call_RunID (the (chg_ToolCall c)) = i then 1 else 0)"

definition tokens_in :: "RunID \<Rightarrow> Change \<Rightarrow> int64" where
  "tokens_in i c = (if chg_Kind c = AppendModelAttempt \<and> att_RunID (the (chg_ModelAttempt c)) = i \<and> att_Kind (the (chg_ModelAttempt c)) \<noteq> Attempt_Started
     then use_TotalTokens (att_Usage (the (chg_ModelAttempt c))) else 0)"

definition run_after :: "Change \<Rightarrow> RunState \<times> RunID \<Rightarrow> RunState \<times> RunID" where
  "run_after c p = (if chg_Kind c = SetRunState then (case rsc_State (the (chg_RunState c)) of
      RunRunning \<Rightarrow> (RunRunning, rsc_RunID (the (chg_RunState c))) | RunIdle \<Rightarrow> (RunIdle, '''') | _ \<Rightarrow> p) else p)"

abbreviation run_of :: "Snapshot \<Rightarrow> RunState \<times> RunID" where
  "run_of s \<equiv> (snap_RunState s, snap_ActiveRunID s)"

lemma counts_append [simp]:
  "runAttempts i (h @ g) = runAttempts i h + runAttempts i g" "runToolCalls i (h @ g) = runToolCalls i h + runToolCalls i g"
  "runTokens i (h @ g) = runTokens i h + runTokens i g"
  by (simp_all add: runAttempts_def runToolCalls_def runTokens_def)

lemma counts_single:
  "runAttempts i [f] = (case fact_ModelAttempt f of Some a \<Rightarrow> if att_RunID a = i \<and> att_Kind a = Attempt_Started then 1 else 0 | None \<Rightarrow> 0)"
  "runToolCalls i [f] = (case fact_ToolCall f of Some c \<Rightarrow> if call_RunID c = i then 1 else 0 | None \<Rightarrow> 0)"
  "runTokens i [f] = (case fact_ModelAttempt f of Some a \<Rightarrow> if att_RunID a = i \<and> att_Kind a \<noteq> Attempt_Started then use_TotalTokens (att_Usage a) else 0 | None \<Rightarrow> 0)"
  by (simp_all add: runAttempts_def runToolCalls_def runTokens_def split: option.split)

definition counted_change :: "Change \<Rightarrow> Snapshot \<Rightarrow> Snapshot \<Rightarrow> bool" where
  "counted_change c s t \<longleftrightarrow> run_of t = run_after c (run_of s) \<and>
     (\<forall>i. runAttempts i (snap_History t) = runAttempts i (snap_History s) + started_in i c \<and>
          runToolCalls i (snap_History t) = runToolCalls i (snap_History s) + called_in i c \<and>
          runTokens i (snap_History t) = runTokens i (snap_History s) + tokens_in i c)"

lemma append_payload_counted:
  assumes "append_payload clock wrap sid actor s f = Inr t" "fact_ModelAttempt f = None" "fact_ToolCall f = None"
  shows "run_of t = run_of s \<and> (\<forall>i. runAttempts i (snap_History t) = runAttempts i (snap_History s) \<and>
    runToolCalls i (snap_History t) = runToolCalls i (snap_History s) \<and> runTokens i (snap_History t) = runTokens i (snap_History s))"
  using append_payload_Inr(1) [OF assms(1)] assms(2,3) by (simp add: counts_single)

lemma applyChange_counted:
  assumes "applyChange fpt clock request s c = Inr t"
  shows "counted_change c s t"
proof (cases "chg_Kind c \<in> {AppendModelAttempt, AppendToolCall, SetRunState}")
  case True
  then show ?thesis using assms
    by (auto simp: counted_change_def applyChange_def appendModelAttemptFact_def appendToolCall_def applyRunState_def started_in_def called_in_def tokens_in_def
        run_after_def counts_single split: RunState.splits dest!: append_payload_Inr(1))
next
  case False
  then have z: "started_in i c = 0" "called_in i c = 0" "tokens_in i c = 0" "run_after c p = p" for i p
    by (auto simp: started_in_def called_in_def tokens_in_def run_after_def)
  show ?thesis using False assms unfolding counted_change_def z applyChange_def
    by (cases "chg_Kind c") (auto simp: appendMessage_def appendToolResult_def appendRunFact_def
      appendContextContributionFact_def appendRunBudgetExceededFact_def appendRunLimitExceededFact_def appendSessionEvent_def
      enqueueMessage_def claimQueue_def consumeQueue_def editQueue_def deleteQueue_def reclassifyQueue_def with_item_def
      setContext_def setModelConfig_def applyJournal_def split: option.splits prod.splits dest!: append_payload_counted)
qed

lemma foldE_counted:
  "foldE (applyChange fpt clock request) s cs = Inr t \<Longrightarrow> run_of t = fold run_after cs (run_of s) \<and>
     runAttempts i (snap_History t) = runAttempts i (snap_History s) + sum_list (map (started_in i) cs) \<and>
     runToolCalls i (snap_History t) = runToolCalls i (snap_History s) + sum_list (map (called_in i) cs) \<and>
     runTokens i (snap_History t) = runTokens i (snap_History s) + sum_list (map (tokens_in i) cs)"
proof (induction cs arbitrary: s)
  case (Cons c cs)
  then obtain u where "applyChange fpt clock request s c = Inr u" "foldE (applyChange fpt clock request) u cs = Inr t" by auto
  with Cons.IH [of u] applyChange_counted [of fpt clock request s c u] show ?case by (simp add: counted_change_def)
qed simp

lemma applyChanges_counted:
  assumes "applyChanges fpt clock s request = Inr t"
  shows "run_of t = fold run_after (creq_Changes request) (run_of s) \<and>
     runAttempts i (snap_History t) = runAttempts i (snap_History s) + sum_list (map (started_in i) (creq_Changes request)) \<and>
     runToolCalls i (snap_History t) = runToolCalls i (snap_History s) + sum_list (map (called_in i) (creq_Changes request)) \<and>
     runTokens i (snap_History t) = runTokens i (snap_History s) + sum_list (map (tokens_in i) (creq_Changes request))"
  using assms by (intro foldE_counted) (auto simp: applyChanges_def)

section \<open>Recovery contributes nothing\<close>

definition same_counts :: "Snapshot \<Rightarrow> Snapshot \<Rightarrow> bool" where
  "same_counts s t \<longleftrightarrow> (\<forall>i. runAttempts i (snap_History t) = runAttempts i (snap_History s) \<and> runToolCalls i (snap_History t) = runToolCalls i (snap_History s))"

lemma same_counts_history: "snap_History t = snap_History s \<Longrightarrow> same_counts s t"
  by (simp add: same_counts_def)

lemma recover_append_counts:
  "recover_append clock m s f = (r, t) \<Longrightarrow> fact_ToolCall f = None \<Longrightarrow> (\<forall>a. fact_ModelAttempt f = Some a \<longrightarrow> att_Kind a \<noteq> Attempt_Started) \<Longrightarrow> same_counts s t"
  by (auto simp: recover_append_def same_counts_def counts_single split: sum.splits option.split dest!: append_payload_Inr(1))

lemma terminateAttempt_counts: "terminateAttempt clock h st i = (r, st') \<Longrightarrow> same_counts (fst st) (fst st')"
  by (auto simp: terminateAttempt_def same_counts_history orphaned_def split: if_splits prod.splits option.splits dest!: recover_append_counts)

lemma recoverJournalEntry_counts: "recoverJournalEntry clock run st i = (r, st') \<Longrightarrow> same_counts (fst st) (fst st')"
  by (auto simp: recoverJournalEntry_def same_counts_history Let_def split: option.splits if_splits prod.splits dest!: recover_append_counts)
    (simp_all add: same_counts_def)

lemma interruptRun_counts: "interruptRun clock i s = (r, t) \<Longrightarrow> same_counts s t"
  by (auto simp: interruptRun_def same_counts_history Let_def split: prod.splits option.splits dest!: recover_append_counts) (simp_all add: same_counts_def)

lemma finishRecovery_counts: "finishRecovery clock i p c s = (r, t) \<Longrightarrow> same_counts s t"
  by (auto simp: finishRecovery_def same_counts_history Let_def split: prod.splits option.splits if_splits dest!: interruptRun_counts) (simp_all add: same_counts_def)


lemma recoverAggregate_counts: "recoverAggregate clock xclock ord s = (r, t) \<Longrightarrow> same_counts s t"
  by (erule recoverAggregate_rel [where R = same_counts])
    (auto intro: same_counts_history dest: terminateAttempt_counts recoverJournalEntry_counts finishRecovery_counts simp: same_counts_def)

end
