(* ===== verification/Runtime_Invariant.thy ===== *)
theory Runtime_Invariant
  imports Run_Counts Fork_Rename
begin

text \<open>
  The invariant that a Session runtime keeps between itself and the durable Session: the identifiers it has not
  drawn yet are unused, its active Run is the Run that the Session records as running, its counters agree with
  the History, and the limits per Run hold. The operations of the runtime are shown to keep it, part by part.
\<close>

section \<open>The invariant\<close>

definition stored :: "runtimeInstance \<Rightarrow> memoryAggregate" where
  "stored r = the (aggregate_of (rt_store r) (rt_id r))"

definition durable :: "runtimeInstance \<Rightarrow> Snapshot" where
  "durable r = agg_snapshot (stored r)"

abbreviation facts :: "runtimeInstance \<Rightarrow> HistoryFact list" where
  "facts r \<equiv> snap_History (durable r)"

definition undrawn :: "runtimeInstance \<Rightarrow> nat \<Rightarrow> bool" where
  "undrawn r n \<longleftrightarrow> rt_sequence r < n \<and> n < 2 ^ 64"

definition unused :: "runtimeInstance \<Rightarrow> bool" where
  "unused r \<longleftrightarrow> (\<forall>n. undrawn r n \<longrightarrow> (\<forall>op. agg_idempotency (stored r) (commitKey op (idText ''commit'' (rt_prefix r) n)) = None) \<and>
     runAttempts (idText ''run'' (rt_prefix r) n) (facts r) = 0 \<and> runToolCalls (idText ''run'' (rt_prefix r) n) (facts r) = 0 \<and>
     snap_ActiveRunID (durable r) \<noteq> idText ''run'' (rt_prefix r) n)"

definition agrees :: "runtimeInstance \<Rightarrow> bool" where
  "agrees r \<longleftrightarrow> (case rt_active r of
      Some a \<Rightarrow> rt_state r = runtimeRunning \<and> run_of (durable r) = (RunRunning, ar_id a) \<and> ar_modelAttempts a = int (runAttempts (ar_id a) (facts r)) \<and>
        ar_toolCalls a = int (runToolCalls (ar_id a) (facts r)) \<and> ar_usedTokens a = runTokens (ar_id a) (facts r)
    | None \<Rightarrow> rt_state r \<noteq> runtimeRunning \<and> (rt_state r = runtimeIdle \<longrightarrow> snap_RunState (durable r) = RunIdle))"

definition within :: "int \<Rightarrow> nat \<Rightarrow> nat \<Rightarrow> bool" where
  "within maximum n0 n \<longleftrightarrow> (0 < maximum \<longrightarrow> int n \<le> max maximum (int n0))"

definition limited :: "runtimeInstance \<Rightarrow> runtimeInstance \<Rightarrow> bool" where
  "limited r0 r \<longleftrightarrow> (\<forall>i. within (rc_MaxModelAttemptsPerRun (rt_components r)) (runAttempts i (facts r0)) (runAttempts i (facts r)) \<and>
     within (rc_MaxToolCallsPerRun (rt_components r)) (runToolCalls i (facts r0)) (runToolCalls i (facts r)))"

definition rt_fixed :: "runtimeInstance \<Rightarrow> runtimeInstance \<Rightarrow> bool" where
  "rt_fixed r0 r \<longleftrightarrow> rt_id r = rt_id r0 \<and> rt_prefix r = rt_prefix r0 \<and> rt_components r = rt_components r0"

definition stored_in :: "typed_fingerprint \<Rightarrow> runtimeInstance \<Rightarrow> bool" where
  "stored_in fpt r \<longleftrightarrow> store_ok fpt (rt_store r) \<and> aggregate_of (rt_store r) (rt_id r) = Some (stored r)"

definition rt_ok :: "typed_fingerprint \<Rightarrow> runtimeInstance \<Rightarrow> runtimeInstance \<Rightarrow> bool" where
  "rt_ok fpt r0 r \<longleftrightarrow> rt_fixed r0 r \<and> stored_in fpt r \<and> unused r \<and> agrees r \<and> limited r0 r"

section \<open>Keeping it\<close>

text \<open>Two states that differ in the sequence and the revision seen; the sequence only grows.\<close>

definition drifts :: "runtimeInstance \<Rightarrow> runtimeInstance \<Rightarrow> bool" where
  "drifts r r' \<longleftrightarrow> rt_sequence r \<le> rt_sequence r' \<and> r' = r\<lparr>rt_sequence := rt_sequence r', rt_revision := rt_revision r'\<rparr>"

text \<open>As long as the sequence does not wrap around, the invariant is kept.\<close>

definition kept :: "typed_fingerprint \<Rightarrow> runtimeInstance \<Rightarrow> runtimeInstance \<Rightarrow> runtimeInstance \<Rightarrow> bool" where
  "kept fpt r0 r r' \<longleftrightarrow> rt_sequence r \<le> rt_sequence r' \<and> (rt_ok fpt r0 r \<longrightarrow> rt_sequence r' < 2 ^ 64 \<longrightarrow> rt_ok fpt r0 r')"

definition safe :: "typed_fingerprint \<Rightarrow> runtimeInstance \<Rightarrow> 'a rt \<Rightarrow> bool" where
  "safe fpt r0 m \<longleftrightarrow> (\<forall>r. kept fpt r0 r (snd (m r)))"

named_theorems safe_intros

lemma drifts_refl [simp]: "drifts r r"
  by (simp add: drifts_def)

lemma drifts_trans: "drifts r s \<Longrightarrow> drifts s t \<Longrightarrow> drifts r t"
  by (cases r; cases s; cases t) (simp add: drifts_def)

lemma drifts_view:
  assumes "drifts r r'"
  shows "stored r' = stored r" "durable r' = durable r" "rt_active r' = rt_active r" "rt_state r' = rt_state r" "rt_closing r' = rt_closing r"
    "rt_id r' = rt_id r" "rt_prefix r' = rt_prefix r" "rt_components r' = rt_components r" "rt_store r' = rt_store r" "rt_sequence r \<le> rt_sequence r'"
  using assms by (cases r; cases r'; simp add: drifts_def durable_def stored_def)+

lemma drifts_ok: "drifts r r' \<Longrightarrow> rt_ok fpt r0 r \<Longrightarrow> rt_ok fpt r0 r'"
  by (auto simp: rt_ok_def rt_fixed_def stored_in_def unused_def undrawn_def agrees_def limited_def drifts_view dest: order.strict_trans1 [OF drifts_view(10)] split: option.splits)

lemma kept_refl: "kept fpt r0 r r"
  by (simp add: kept_def)

lemma kept_trans: "kept fpt r0 r s \<Longrightarrow> kept fpt r0 s t \<Longrightarrow> kept fpt r0 r t"
  by (auto simp: kept_def)

lemma drifts_kept: "drifts r r' \<Longrightarrow> kept fpt r0 r r'"
  by (auto simp: kept_def drifts_view dest: drifts_ok)

lemma safe_bindR [safe_intros]: "safe fpt r0 m \<Longrightarrow> (\<And>x. safe fpt r0 (f x)) \<Longrightarrow> safe fpt r0 (bindR m f)"
  unfolding safe_def
proof
  fix r assume m: "\<forall>r. kept fpt r0 r (snd (m r))" and f: "\<And>x. \<forall>r. kept fpt r0 r (snd (f x r))"
  obtain y r1 where y: "m r = (y, r1)" by fastforce
  then have 1: "kept fpt r0 r r1" using m by (metis snd_conv)
  show "kept fpt r0 r (snd (bindR m f r))" using y 1 f kept_trans [OF 1] by (cases y) (simp_all add: bindR_def)
qed

lemma safe_failR [safe_intros]: "safe fpt r0 (failR e)"
  by (simp add: safe_def failR_def kept_refl)

lemma safe_returnR [safe_intros]: "safe fpt r0 (returnR x)"
  by (simp add: safe_def returnR_def kept_refl)

lemma safe_whenOpen [safe_intros]: "safe fpt r0 m \<Longrightarrow> safe fpt r0 (whenOpen op m)"
  by (auto simp: safe_def whenOpen_def kept_refl split: option.split)

lemma viewLocked_drifts: "viewLocked ctx r = (x, r') \<Longrightarrow> drifts r r'"
  by (auto simp: viewLocked_def drifts_def split: sum.splits)

lemma newID_drifts: "newID k r = (x, r') \<Longrightarrow> drifts r r'"
  by (auto simp: newID_def rt_nextID_def Let_def drifts_def)

lemma safe_drifts: "(\<And>r x r'. m r = (x, r') \<Longrightarrow> drifts r r') \<Longrightarrow> safe fpt r0 m"
  by (simp add: safe_def) (metis drifts_kept prod.collapse)

lemma safe_viewLocked [safe_intros]: "safe fpt r0 (viewLocked ctx)"
  by (rule safe_drifts) (rule viewLocked_drifts)

lemma safe_newID [safe_intros]: "safe fpt r0 (newID k)"
  by (rule safe_drifts) (rule newID_drifts)

section \<open>Commits\<close>

lemma last_segment: "takeWhile (\<lambda>c. c \<noteq> CHR ''-'') (rev (s @ CHR ''-'' # dec n)) = rev (dec n)"
proof -
  have "\<forall>c \<in> set (dec n). c \<noteq> CHR ''-''" using dec_digits [of n] by fastforce
  then show ?thesis using takeWhile_append2 [of "rev (dec n)" "\<lambda>c. c \<noteq> CHR ''-''" "CHR ''-'' # rev s"] by simp
qed

lemma commitKey_inject:
  assumes "commitKey op (idText k p m) = commitKey op' (idText k p n)" "m < 2 ^ 64" "n < 2 ^ 64"
  shows "m = n"
proof -
  have key: "takeWhile (\<lambda>c. c \<noteq> CHR ''-'') (rev (commitKey o1 (idText k p l))) = rev (dec l)" if "l < 2 ^ 64" for o1 l
    using last_segment [of "''runtime-'' @ o1 @ ''-'' @ k @ ''-'' @ p" l] that by (simp add: commitKey_def idText_def)
  have "rev (dec m) = rev (dec n)" using key [OF assms(2), of op] key [OF assms(3), of op'] assms(1) by simp
  then show ?thesis by simp
qed

definition commit_of :: "runtimeInstance \<Rightarrow> Revision \<Rightarrow> string \<Rightarrow> ActorIdentity \<Rightarrow> Change list \<Rightarrow> CommitRequest" where
  "commit_of r expected operation actor changes = \<lparr>creq_SessionID = rt_id r, creq_ExpectedRevision = expected,
     creq_IdempotencyKey = commitKey operation (idText ''commit'' (rt_prefix r) (rt_sequence r + 1)), creq_Actor = actor, creq_Changes = changes\<rparr>"

lemma commit_cases:
  assumes "commitLockedAs env ctx expected operation actor changes r = (x, r')" "rt_ok fpt r0 r" "env_ok fpt env" "rt_sequence r + 1 < 2 ^ 64"
  obtains (refused) e where "x = Inl (RtError e)" "r' = r\<lparr>rt_sequence := rt_sequence r + 1\<rparr>"
  | (applied) c w st where "x = Inr c" "r' = r\<lparr>rt_sequence := rt_sequence r + 1, rt_store := st, rt_revision := com_Revision c\<rparr>"
      "stored_in fpt r'" "durable r' = bump w" "expected = snap_Revision (durable r)"
      "applyChanges fpt (env_clock env) (durable r) (commit_of r expected operation actor changes) = Inr w"
      "\<And>n op. undrawn r' n \<Longrightarrow> agg_idempotency (stored r') (commitKey op (idText ''commit'' (rt_prefix r) n)) = None"
proof -
  let ?q = "commit_of r expected operation actor changes"
  have ok: "store_ok fpt (rt_store r)" "aggregate_of (rt_store r) (rt_id r) = Some (stored r)" "unused r" using assms(2) by (simp_all add: rt_ok_def stored_in_def)
  have fpt: "env_fpt env = fpt" using assms(3) by (simp add: env_ok_def)
  have key: "agg_idempotency (stored r) (creq_IdempotencyKey ?q) = None" using ok(3) assms(4) by (simp add: unused_def undrawn_def commit_of_def)
  obtain y st where st: "Commit_op env ctx ?q (rt_store r) = (y, st)" by fastforce
  have r': "(x, r') = (case y of Inl e \<Rightarrow> (Inl (RtError e), r\<lparr>rt_sequence := rt_sequence r + 1, rt_store := st\<rparr>)
      | Inr c \<Rightarrow> (Inr c, r\<lparr>rt_sequence := rt_sequence r + 1, rt_store := st, rt_revision := com_Revision c\<rparr>))"
    using assms(1) st by (simp add: commitLockedAs_def rt_nextID_def commit_of_def Let_def split: sum.splits)
  have "store_ok fpt st" by (rule Commit_store_ok [OF st ok(1) assms(3)])
  from st show ?thesis
  proof (cases rule: Commit_cases)
    case (failed e) with r' refused show ?thesis by simp
  next
    case (replayed a previous) with key ok(2) show ?thesis by (simp add: commit_of_def)
  next
    case (applied a f w u ix c)
    have a: "a = stored r" using applied(1) ok(2) by (simp add: commit_of_def)
    let ?a = "\<lparr>agg_snapshot = bump w, agg_idempotency = (agg_idempotency a)(creq_IdempotencyKey ?q \<mapsto> \<lparr>mcm_fingerprint = f, mcm_commit = c\<rparr>), agg_updatedAt = u\<rparr>"
    have r2: "r' = r\<lparr>rt_sequence := rt_sequence r + 1, rt_store := st, rt_revision := com_Revision c\<rparr>" "x = Inr c" using r' applied(8) by simp_all
    have s: "aggregate_of (rt_store r') (rt_id r') = Some ?a" using applied(9) r2 by (simp add: commit_of_def)
    then have st': "stored r' = ?a" by (simp add: stored_def)
    have keys: "agg_idempotency (stored r') (commitKey op (idText ''commit'' (rt_prefix r) n)) = None" if "undrawn r' n" for n op
    proof -
      have n: "rt_sequence r + 1 < n" "n < 2 ^ 64" using that r2(1) by (simp_all add: undrawn_def)
      then have "commitKey op (idText ''commit'' (rt_prefix r) n) \<noteq> creq_IdempotencyKey ?q"
        using commitKey_inject [of op "''commit''" "rt_prefix r" n operation "rt_sequence r + 1"] assms(4) by (auto simp: commit_of_def)
      then show ?thesis unfolding st' using n ok(3) a by (simp add: unused_def undrawn_def)
    qed
    show ?thesis
      by (rule that(2) [OF r2(2,1) _ _ _ _ keys]) (use s st' \<open>store_ok fpt st\<close> r2 applied(4,5) fpt a in
          \<open>simp_all add: stored_in_def durable_def commit_of_def\<close>)
  qed
qed

text \<open>Changes that concern neither the counts nor the state of a Run.\<close>

definition quiet :: "Change \<Rightarrow> bool" where
  "quiet c \<longleftrightarrow> chg_Kind c \<noteq> AppendModelAttempt \<and> chg_Kind c \<noteq> AppendToolCall \<and> chg_Kind c \<noteq> SetRunState"

lemma quiet_in [simp]: "quiet c \<Longrightarrow> started_in i c = 0" "quiet c \<Longrightarrow> called_in i c = 0" "quiet c \<Longrightarrow> tokens_in i c = 0" "quiet c \<Longrightarrow> run_after c p = p"
  by (simp_all add: quiet_def started_in_def called_in_def tokens_in_def run_after_def)

lemma quiet_sums:
  assumes "list_all quiet cs"
  shows "sum_list (map (started_in i) cs) = 0" "sum_list (map (called_in i) cs) = 0" "sum_list (map (tokens_in i) cs) = 0" "fold run_after cs p = p"
  using assms by (induction cs) auto

lemma bump_view [simp]: "snap_History (bump w) = snap_History w" "snap_RunJournal (bump w) = snap_RunJournal w" "snap_RunState (bump w) = snap_RunState w" "snap_ActiveRunID (bump w) = snap_ActiveRunID w"
  by (simp_all add: bump_def)

lemma quiet_commit_kept:
  assumes "commitLockedAs env ctx expected operation actor changes r = (x, r')" "env_ok fpt env" "list_all quiet changes"
  shows "kept fpt r0 r r'"
proof -
  have seq: "rt_sequence r' = rt_sequence r + 1" using assms(1) by (auto simp: commitLockedAs_def rt_nextID_def Let_def split: prod.splits sum.splits)
  have "rt_ok fpt r0 r'" if ok: "rt_ok fpt r0 r" and b: "rt_sequence r' < 2 ^ 64"
    using assms(1) ok assms(2) b [unfolded seq]
  proof (cases rule: commit_cases)
    case (refused e)
    then have "drifts r r'" by (simp add: drifts_def)
    then show ?thesis using ok drifts_ok by blast
  next
    case (applied c w st)
    from applyChanges_counted [OF applied(6)]
    have n: "run_of (durable r') = run_of (durable r) \<and> (\<forall>i. runAttempts i (facts r') = runAttempts i (facts r) \<and>
        runToolCalls i (facts r') = runToolCalls i (facts r) \<and> runTokens i (facts r') = runTokens i (facts r))"
      using quiet_sums [OF assms(3)] applied(4) by (simp add: commit_of_def)
    moreover have "unused r'" using ok n applied(2,7) by (auto simp: rt_ok_def unused_def undrawn_def)
    ultimately show ?thesis using ok applied(2,3) by (auto simp: rt_ok_def rt_fixed_def agrees_def limited_def split: option.splits)
  qed
  then show ?thesis by (simp add: kept_def seq)
qed

lemma safe_commitLockedAs [safe_intros]: "env_ok fpt env \<Longrightarrow> list_all quiet changes \<Longrightarrow> safe fpt r0 (commitLockedAs env ctx expected operation actor changes)"
  by (simp add: safe_def) (metis prod.collapse quiet_commit_kept)

lemma safe_commitLocked [safe_intros]: "env_ok fpt env \<Longrightarrow> list_all quiet changes \<Longrightarrow> safe fpt r0 (commitLocked env expected operation changes)"
  by (simp add: commitLocked_def safe_commitLockedAs)

text \<open>An external commit is the commit, apart from the revision that a conflict reports.\<close>

lemma commitExternalLocked_cases:
  assumes "commitExternalLocked env ctx expected operation actor changes r = (x, r')"
  obtains (applied) c where "commitLockedAs env ctx expected operation actor changes r = (Inr c, r')" "x = Inr c"
  | (refused) e e' r1 where "commitLockedAs env ctx expected operation actor changes r = (Inl e, r1)" "x = Inl e'" "drifts r1 r'"
proof -
  obtain y r1 where c: "commitLockedAs env ctx expected operation actor changes r = (y, r1)" by fastforce
  show ?thesis
  proof (cases y)
    case (Inr k) then show ?thesis using assms c applied by (auto simp: commitExternalLocked_def)
  next
    case (Inl e)
    have "\<exists>e'. x = Inl e' \<and> drifts r1 r'" using assms c Inl
      by (auto simp: commitExternalLocked_def drifts_def split: sum.splits if_splits rtError.splits)
    then show ?thesis using c Inl refused by blast
  qed
qed

lemma safe_commitExternalLocked [safe_intros]:
  assumes "env_ok fpt env" "list_all quiet changes"
  shows "safe fpt r0 (commitExternalLocked env ctx expected operation actor changes)"
  unfolding safe_def
proof
  fix r
  obtain x r' where c: "commitExternalLocked env ctx expected operation actor changes r = (x, r')" by fastforce
  from c have "kept fpt r0 r r'"
    by (cases rule: commitExternalLocked_cases) (use quiet_commit_kept [OF _ assms] drifts_kept kept_trans in blast)+
  then show "kept fpt r0 r (snd (commitExternalLocked env ctx expected operation actor changes r))" using c by simp
qed

lemma safe_commitSeen [safe_intros]: "env_ok fpt env \<Longrightarrow> (\<And>s. list_all quiet (changes s)) \<Longrightarrow> safe fpt r0 (commitSeen env operation changes)"
  unfolding commitSeen_def by (intro safe_intros)


text \<open>The Run facts of a commit are in the History afterwards.\<close>

lemma append_payload_runs: "append_payload clock wrap sid actor s f = Inr t \<Longrightarrow> runs_of (snap_History t) = runs_of (snap_History s) @ (case fact_Run f of None \<Rightarrow> [] | Some x \<Rightarrow> [x])"
  by (drule append_payload_Inr(1)) (simp add: List.map_filter_def split: option.split)

lemma applyChange_runs:
  assumes "applyChange fpt clock request s c = Inr t"
  shows "set (runs_of (snap_History s)) \<subseteq> set (runs_of (snap_History t)) \<and> (chg_Kind c = AppendRunFact \<longrightarrow> the (chg_RunFact c) \<in> set (runs_of (snap_History t)))"
  using assms unfolding applyChange_def
  by (cases "chg_Kind c") (auto simp: appendMessage_def appendToolCall_def appendToolResult_def appendRunFact_def appendModelAttemptFact_def
      appendContextContributionFact_def appendRunBudgetExceededFact_def appendRunLimitExceededFact_def appendSessionEvent_def
      enqueueMessage_def claimQueue_def consumeQueue_def editQueue_def deleteQueue_def reclassifyQueue_def with_item_def
      setContext_def setModelConfig_def applyRunState_def applyJournal_def split: option.splits RunState.splits prod.splits dest!: append_payload_runs)

lemma foldE_runs:
  "foldE (applyChange fpt clock request) s cs = Inr t \<Longrightarrow> set (runs_of (snap_History s)) \<subseteq> set (runs_of (snap_History t)) \<and>
     (\<forall>f. ch_run f \<in> set cs \<longrightarrow> f \<in> set (runs_of (snap_History t)))"
proof (induction cs arbitrary: s)
  case (Cons c cs)
  then obtain u where u: "applyChange fpt clock request s c = Inr u" "foldE (applyChange fpt clock request) u cs = Inr t" by auto
  show ?case using Cons.IH [OF u(2)] applyChange_runs [OF u(1)] by auto
qed simp

lemma applyChanges_runs: "applyChanges fpt clock s request = Inr t \<Longrightarrow> ch_run f \<in> set (creq_Changes request) \<Longrightarrow> f \<in> set (runs_of (snap_History t))"
  using foldE_runs [of fpt clock request s "creq_Changes request" t] by (auto simp: applyChanges_def)

lemma applyChanges_same_journal:
  assumes "applyChanges fpt clock s request = Inr t" "list_all (\<lambda>c. chg_Kind c \<noteq> UpdateRunJournal \<and> chg_Kind c \<noteq> UpdateExtensionJournal) (creq_Changes request)"
  shows "snap_RunJournal t = snap_RunJournal s"
proof -
  have "foldE (applyChange fpt clock request) s cs = Inr t \<Longrightarrow> list_all (\<lambda>c. chg_Kind c \<noteq> UpdateRunJournal \<and> chg_Kind c \<noteq> UpdateExtensionJournal) cs \<Longrightarrow>
      snap_RunJournal t = snap_RunJournal s" for cs
    by (induction cs arbitrary: s) (auto dest!: applyChange_same_journals)
  then show ?thesis using assms by (auto simp: applyChanges_def)
qed

text \<open>What an applied commit leaves, for lists that are not quiet.\<close>

definition committed :: "typed_fingerprint \<Rightarrow> runtimeInstance \<Rightarrow> Change list \<Rightarrow> runtimeInstance \<Rightarrow> bool" where
  "committed fpt r cs r' \<longleftrightarrow> stored_in fpt r' \<and> (\<exists>v st. r' = r\<lparr>rt_sequence := rt_sequence r + 1, rt_store := st, rt_revision := v\<rparr>) \<and>
     run_of (durable r') = fold run_after cs (run_of (durable r)) \<and>
     (\<forall>i. runAttempts i (facts r') = runAttempts i (facts r) + sum_list (map (started_in i) cs) \<and>
          runToolCalls i (facts r') = runToolCalls i (facts r) + sum_list (map (called_in i) cs) \<and>
          runTokens i (facts r') = runTokens i (facts r) + sum_list (map (tokens_in i) cs)) \<and>
     (\<forall>f. ch_run f \<in> set cs \<longrightarrow> f \<in> set (runs_of (facts r'))) \<and>
     (list_all (\<lambda>c. chg_Kind c \<noteq> UpdateRunJournal \<and> chg_Kind c \<noteq> UpdateExtensionJournal) cs \<longrightarrow> snap_RunJournal (durable r') = snap_RunJournal (durable r)) \<and>
     (snap_RunState (durable r') = RunIdle \<longrightarrow> \<not> hasUnfinishedJournal (snap_RunJournal (durable r'))) \<and>
     (\<forall>n op. undrawn r' n \<longrightarrow> agg_idempotency (stored r') (commitKey op (idText ''commit'' (rt_prefix r) n)) = None)"

lemma commit_effect:
  assumes "commitLockedAs env ctx expected operation actor changes r = (x, r')" "rt_ok fpt r0 r" "env_ok fpt env" "rt_sequence r + 1 < 2 ^ 64"
  obtains (refused) e where "x = Inl (RtError e)" "drifts r r'"
  | (applied) c where "x = Inr c" "committed fpt r changes r'"
  using assms
proof (cases rule: commit_cases)
  case (refused e)
  then show ?thesis using that(1) by (simp add: drifts_def)
next
  case (applied c w st)
  have "run_of (durable r') = fold run_after changes (run_of (durable r)) \<and>
     (\<forall>i. runAttempts i (facts r') = runAttempts i (facts r) + sum_list (map (started_in i) changes) \<and>
          runToolCalls i (facts r') = runToolCalls i (facts r) + sum_list (map (called_in i) changes) \<and>
          runTokens i (facts r') = runTokens i (facts r) + sum_list (map (tokens_in i) changes))"
    using applyChanges_counted [OF applied(6)] applied(4) by (simp add: commit_of_def)
  moreover have "f \<in> set (runs_of (facts r'))" if "ch_run f \<in> set changes" for f
    using applyChanges_runs [OF applied(6), of f] that applied(4) by (simp add: commit_of_def)
  moreover have "snap_RunJournal (durable r') = snap_RunJournal (durable r)" if "list_all (\<lambda>c. chg_Kind c \<noteq> UpdateRunJournal \<and> chg_Kind c \<noteq> UpdateExtensionJournal) changes"
    using applyChanges_same_journal [OF applied(6)] that applied(4) by (simp add: commit_of_def)
  moreover have "snap_RunState (durable r') = RunIdle \<longrightarrow> \<not> hasUnfinishedJournal (snap_RunJournal (durable r'))"
    using applied(4,6) by (auto simp: applyChanges_def finalChecks_def)
  ultimately have "committed fpt r changes r'" unfolding committed_def using applied(2,3,7) by blast
  then show ?thesis using that(2) applied(1) by blast
qed

lemma committed_frame:
  assumes "committed fpt r cs r'"
  shows "rt_id r' = rt_id r" "rt_prefix r' = rt_prefix r" "rt_components r' = rt_components r" "rt_active r' = rt_active r" "rt_state r' = rt_state r"
    "rt_closing r' = rt_closing r" "rt_sequence r' = rt_sequence r + 1"
  using assms by (auto simp: committed_def)

lemma commit_sequence: "commitLockedAs env ctx expected operation actor changes r = (x, r') \<Longrightarrow> rt_sequence r' = rt_sequence r + 1"
  by (auto simp: commitLockedAs_def rt_nextID_def Let_def split: prod.splits sum.splits)

text \<open>The state after an applied commit and an update of the runtime itself.\<close>

lemma committed_ok:
  assumes "committed fpt r cs r1" "rt_ok fpt r0 r"
    and r': "stored r' = stored r1" "rt_store r' = rt_store r1" "rt_id r' = rt_id r1" "rt_prefix r' = rt_prefix r1" "rt_components r' = rt_components r1" "rt_sequence r' = rt_sequence r1"
    and ids: "\<And>n. undrawn r1 n \<Longrightarrow> sum_list (map (started_in (idText ''run'' (rt_prefix r) n)) cs) = 0 \<and>
      sum_list (map (called_in (idText ''run'' (rt_prefix r) n)) cs) = 0 \<and> snd (fold run_after cs (run_of (durable r))) \<noteq> idText ''run'' (rt_prefix r) n"
    and "agrees r'" "limited r0 r'"
  shows "rt_ok fpt r0 r'"
proof -
  have d: "durable r' = durable r1" using r'(1) by (simp add: durable_def)
  have "unused r'"
    unfolding unused_def
  proof (intro allI impI)
    fix n assume "undrawn r' n"
    then have n: "undrawn r1 n" "undrawn r n" using r'(6) committed_frame(7) [OF assms(1)] by (auto simp: undrawn_def)
    have c: "run_of (durable r1) = fold run_after cs (run_of (durable r))" "\<And>i. runAttempts i (facts r1) = runAttempts i (facts r) + sum_list (map (started_in i) cs)"
      "\<And>i. runToolCalls i (facts r1) = runToolCalls i (facts r) + sum_list (map (called_in i) cs)"
      "\<And>op. agg_idempotency (stored r1) (commitKey op (idText ''commit'' (rt_prefix r) n)) = None"
      using assms(1) n(1) by (simp_all add: committed_def)
    have p: "rt_prefix r' = rt_prefix r" using r'(4) committed_frame(2) [OF assms(1)] by simp
    have "unused r" using assms(2) by (simp add: rt_ok_def)
    then show "(\<forall>op. agg_idempotency (stored r') (commitKey op (idText ''commit'' (rt_prefix r') n)) = None) \<and>
        runAttempts (idText ''run'' (rt_prefix r') n) (facts r') = 0 \<and> runToolCalls (idText ''run'' (rt_prefix r') n) (facts r') = 0 \<and>
        snap_ActiveRunID (durable r') \<noteq> idText ''run'' (rt_prefix r') n"
      using ids [OF n(1)] c n(2) p d r'(1) by (metis (no_types, lifting) add.right_neutral snd_conv unused_def)
  qed
  moreover have "rt_fixed r0 r'" using assms(2) r' committed_frame [OF assms(1)] by (simp add: rt_ok_def rt_fixed_def)
  moreover have "stored_in fpt r'" using assms(1) r' by (simp add: committed_def stored_in_def)
  ultimately show ?thesis using assms(10,11) by (simp add: rt_ok_def)
qed

end
