(* ===== verification/Runtime_Kept.thy ===== *)
theory Runtime_Kept
  imports Runtime_Invariant
begin

text \<open>Every operation of a Session runtime keeps the invariant.\<close>

section \<open>Quiet change lists\<close>

lemma quiet_changes [simp]:
  "quiet (ch_message m)" "quiet (ch_result x)" "quiet (ch_run f)" "quiet (ch_context c)" "quiet (ch_budget b)" "quiet (ch_limit l)" "quiet (ch_event e)"
  "quiet (ch_enqueue q)" "quiet (ch_claim k)" "quiet (ch_consume n)" "quiet (ch_edit d)" "quiet (ch_delete i)" "quiet (ch_reclassify y)" "quiet (ch_config z)"
  "quiet (ch_journal j)" "quiet (ch_extension v)"
  by (simp_all add: quiet_def)

lemma list_all_concat_map: "(\<And>x. list_all P (f x)) \<Longrightarrow> list_all P (concat (map f xs))"
  by (auto simp: list_all_iff)

lemma quiet_lists [simp]:
  "list_all quiet (consumePendingInputContexts s m i p)" "list_all quiet (discardPendingInputContexts s m)"
  "list_all quiet (consumePendingLifecycleContexts s i p)" "list_all quiet (appendInputConsumption s item i p)" "list_all quiet (resultChanges calls results)"
  "list_all quiet (map ch_extension es)"
  by (auto simp: list_all_iff quiet_def consumePendingInputContexts_def discardPendingInputContexts_def consumePendingLifecycleContexts_def
      appendInputConsumption_def resultChanges_def Let_def)

section \<open>Operations that only draw identifiers\<close>

definition drifting :: "'a rt \<Rightarrow> bool" where
  "drifting m \<longleftrightarrow> (\<forall>r. drifts r (snd (m r)))"

named_theorems drift_intros

lemma driftingD: "drifting m \<Longrightarrow> m r = (x, r') \<Longrightarrow> drifts r r'"
  by (metis drifting_def snd_conv)

lemma drifting_bindR [drift_intros]: "drifting m \<Longrightarrow> (\<And>x. drifting (f x)) \<Longrightarrow> drifting (bindR m f)"
  unfolding drifting_def
proof
  fix r assume m: "\<forall>r. drifts r (snd (m r))" and f: "\<And>x. \<forall>r. drifts r (snd (f x r))"
  obtain y r1 where y: "m r = (y, r1)" by fastforce
  then have 1: "drifts r r1" using m by (metis snd_conv)
  show "drifts r (snd (bindR m f r))" using y 1 f drifts_trans [OF 1] by (cases y) (simp_all add: bindR_def)
qed

lemma drifting_basic [drift_intros]: "drifting (returnR x)" "drifting (failR e)" "drifting (newID k)" "drifting (viewLocked ctx)"
  by (simp_all add: drifting_def returnR_def failR_def) (metis newID_drifts prod.collapse, metis viewLocked_drifts prod.collapse)

lemma drifting_if [drift_intros]: "drifting m \<Longrightarrow> drifting m' \<Longrightarrow> drifting (if b then m else m')"
  by simp

lemma drifting_case_prod [drift_intros]: "(\<And>a b. drifting (f a b)) \<Longrightarrow> drifting (case p of (a, b) \<Rightarrow> f a b)"
  by (simp split: prod.split)

lemma driftingI: "(\<And>r. drifts r (snd (m r))) \<Longrightarrow> drifting m"
  by (simp add: drifting_def)

lemma drifting_at: "drifting m \<Longrightarrow> drifts r (snd (m r))"
  by (simp add: drifting_def)

lemmas drifts_bindR = drifting_at [OF drifting_bindR]

lemma drifting_reservePreflights [drift_intros]: "drifting (reservePreflights now c v bs n)"
proof (induction bs arbitrary: n)
  case (Cons b bs)
  have "drifting (\<lambda>r. case rc_preflightFingerprint (rt_components r) (preflightView r c v i) of
          None \<Rightarrow> (Inl (RtError (plain_error ''hook: typed input fingerprint failed'')), r)
        | Some digest \<Rightarrow> bindR (reservePreflights now c v bs (n + 1)) (\<lambda>(cs, m). returnR (ch_extension (preflightEntry r now c v n b i digest) # cs, m)) r)" for i
    by (rule driftingI) (auto split: option.split intro!: drifts_bindR drift_intros Cons.IH)
  then show ?case using Cons.IH by (auto intro!: drift_intros)
qed (simp add: drift_intros)

lemma drifting_appendToolPreflightReservations [drift_intros]: "drifting (appendToolPreflightReservations now c v n)"
  by (rule driftingI) (auto simp: appendToolPreflightReservations_def intro!: drifting_at [OF drifting_reservePreflights])

lemma drifting_completionCallChanges [drift_intros]: "drifting (completionCallChanges now v cs n)"
  by (induction cs arbitrary: n) (auto intro!: drift_intros)

lemma drifting_reserveResultHooks [drift_intros]: "drifting (reserveResultHooks now c x p v bs n)"
proof (induction bs arbitrary: n)
  case (Cons b bs)
  have "drifting (\<lambda>r. case rc_resultFingerprint (rt_components r) (resultView r i v c x p) of
          None \<Rightarrow> (Inl (RtError (plain_error ''hook: typed input fingerprint failed'')), r)
        | Some digest \<Rightarrow> bindR (reserveResultHooks now c x p v bs (n + 1)) (\<lambda>(es, m). returnR (resultEntry r now c p v n b i digest # es, m)) r)" for i
    by (rule driftingI) (auto split: option.split intro!: drifts_bindR drift_intros Cons.IH)
  then show ?case by (auto intro!: drift_intros)
qed (simp add: drift_intros)

lemma drifting_reserveResults [drift_intros]: "drifting (reserveResults now pend p v ps n)"
proof (induction ps arbitrary: n)
  case (Cons q ps)
  show ?case by (rule driftingI) (auto simp: Let_def split: prod.split intro!: drifts_bindR drift_intros Cons.IH drifting_at [OF Cons.IH])
qed (simp add: drift_intros)

lemma drifting_appendToolResultReservations [drift_intros]: "drifting (appendToolResultReservations now s calls results p v)"
  by (rule driftingI) (auto simp: appendToolResultReservations_def intro!: drifting_at [OF drifting_reserveResults])

lemma newToolCalls_drifts: "newToolCalls i p m qs r = (cs, r') \<Longrightarrow> drifts r r' \<and> length cs = length qs \<and> (\<forall>c \<in> set cs. call_RunID c = i)"
proof (induction qs arbitrary: r cs r')
  case (Cons q qs)
  obtain k r1 where k: "rt_nextID ''call'' r = (k, r1)" by fastforce
  obtain cs1 r2 where n: "newToolCalls i p m qs r1 = (cs1, r2)" by fastforce
  have "drifts r r1" using k by (auto simp: rt_nextID_def Let_def drifts_def)
  then show ?case using Cons.IH [OF n] Cons.prems k n drifts_trans by (auto simp: Let_def toolCallOf_def)
qed simp

lemma quiet_followOnChanges: "followOnChanges now s i step ps r = (cs, r') \<Longrightarrow> list_all quiet cs \<and> drifts r r'"
proof (induction ps arbitrary: r cs r')
  case (Cons p ps)
  obtain k r1 where k: "rt_nextID ''message'' r = (k, r1)" by fastforce
  obtain cs1 r2 where n: "followOnChanges now s i step ps r1 = (cs1, r2)" by fastforce
  have "drifts r r1" using k by (auto simp: rt_nextID_def Let_def drifts_def)
  then show ?case using Cons.IH [OF n] Cons.prems k n drifts_trans by (auto simp: Let_def)
qed simp

section \<open>Operations with quiet commits\<close>

lemma safe_drifting: "drifting m \<Longrightarrow> safe fpt r0 m"
  by (rule safe_drifts) (rule driftingD)

lemma safeI: "(\<And>r. kept fpt r0 r (snd (m r))) \<Longrightarrow> safe fpt r0 m"
  by (simp add: safe_def)

lemma safeD: "safe fpt r0 m \<Longrightarrow> kept fpt r0 r (snd (m r))"
  by (simp add: safe_def)

lemma safe_if [safe_intros]: "safe fpt r0 m \<Longrightarrow> safe fpt r0 m' \<Longrightarrow> safe fpt r0 (if b then m else m')"
  by simp

lemma safe_case_prod [safe_intros]: "(\<And>a b. safe fpt r0 (f a b)) \<Longrightarrow> safe fpt r0 (case p of (a, b) \<Rightarrow> f a b)"
  by (simp split: prod.split)

lemmas kept_parts = safeD [OF safe_bindR] safeD [OF safe_whenOpen] safeD [OF safe_commitSeen] safeD [OF safe_commitExternalLocked]

text \<open>Updates of the active Run outside its identity and counters.\<close>

lemma update_run_view [simp]:
  "stored (update_run f r) = stored r" "durable (update_run f r) = durable r" "rt_id (update_run f r) = rt_id r" "rt_prefix (update_run f r) = rt_prefix r"
  "rt_components (update_run f r) = rt_components r" "rt_store (update_run f r) = rt_store r" "rt_sequence (update_run f r) = rt_sequence r"
  "rt_state (update_run f r) = rt_state r" "rt_closing (update_run f r) = rt_closing r" "rt_active (update_run f r) = map_option f (rt_active r)"
  by (simp_all add: update_run_def stored_def durable_def)

lemma update_run_kept:
  assumes "\<And>a. ar_id (f a) = ar_id a \<and> ar_modelAttempts (f a) = ar_modelAttempts a \<and> ar_toolCalls (f a) = ar_toolCalls a \<and> ar_usedTokens (f a) = ar_usedTokens a"
  shows "kept fpt r0 r (update_run f r)"
  using assms by (auto simp: kept_def rt_ok_def rt_fixed_def stored_in_def unused_def undrawn_def agrees_def limited_def split: option.splits)

lemma safe_recordRunLimitExceededLocked [safe_intros]: "env_ok fpt env \<Longrightarrow> safe fpt r0 (recordRunLimitExceededLocked env s f)"
  by (simp add: recordRunLimitExceededLocked_def safe_intros)

lemma safe_recordModelAttemptLimitLocked [safe_intros]: "env_ok fpt env \<Longrightarrow> safe fpt r0 (recordModelAttemptLimitLocked env run step i)"
  by (rule safeI) (auto simp: recordModelAttemptLimitLocked_def Let_def kept_refl intro!: kept_parts safe_intros)

lemma safe_Started_admit: "env_ok fpt env \<Longrightarrow> safe fpt r0 (Started_admit env i step a)"
  by (rule safeI) (auto simp: Started_admit_def Let_def kept_refl intro!: kept_parts safe_intros)

lemma safe_recordBudgetExceeded: "env_ok fpt env \<Longrightarrow> safe fpt r0 (recordBudgetExceeded env i)"
  by (rule safeI) (auto simp: recordBudgetExceeded_def Let_def kept_refl intro!: kept_parts safe_intros)

lemma safe_markToolExecuting: "env_ok fpt env \<Longrightarrow> safe fpt r0 (markToolExecuting env i call)"
  by (rule safeI) (auto simp: markToolExecuting_def Let_def kept_refl intro!: kept_parts safe_intros)

lemma safe_commitToolResults: "env_ok fpt env \<Longrightarrow> safe fpt r0 (commitToolResults_locked env now i calls results)"
  by (rule safeI) (auto simp: commitToolResults_locked_def kept_refl list_all_concat_map intro!: kept_parts safe_intros safe_drifting [OF drifting_appendToolResultReservations]
      safeI [where m = "\<lambda>r'. (Inr (f r'), r')" for f])

lemma safe_steer: "env_ok fpt env \<Longrightarrow> safe fpt r0 (steer env ctx now q)"
  by (rule safeI) (auto simp: steer_def kept_refl intro!: kept_parts safe_intros safeI)

lemma safe_editQueued: "env_ok fpt env \<Longrightarrow> safe fpt r0 (editQueued env ctx q)"
  by (rule safeI) (auto simp: editQueued_def kept_refl split: option.split intro!: kept_parts safe_intros)

lemma bindR_assoc: "bindR (bindR m f) g = bindR m (\<lambda>x. bindR (f x) g)"
  by (rule ext) (simp add: bindR_def split: prod.split sum.split)

lemma bindR_returnR: "bindR (returnR x) f = f x"
  by (rule ext) (simp add: bindR_def returnR_def)

lemma safe_deleteQueued: "env_ok fpt env \<Longrightarrow> safe fpt r0 (deleteQueued env ctx g q)"
  by (rule safeI) (auto simp: deleteQueued_def bindR_assoc bindR_returnR kept_refl intro!: kept_parts safe_intros)

lemma safe_reclassifyQueued: "env_ok fpt env \<Longrightarrow> safe fpt r0 (reclassifyQueued env ctx q)"
  by (rule safeI) (auto simp: reclassifyQueued_def kept_refl intro!: kept_parts safe_intros)

lemma safe_updateModelConfig: "env_ok fpt env \<Longrightarrow> safe fpt r0 (updateModelConfig_locked env ctx q c)"
  unfolding updateModelConfig_locked_def by (intro safe_intros safeI) (auto simp: kept_refl split: option.split intro!: kept_parts safe_intros)


lemma safe_followOn:
  assumes "env_ok fpt env"
  shows "safe fpt r0 (followOn env now i proposals)"
proof (rule safeI)
  fix r
  have "safe fpt r0 (\<lambda>r1. let steers = pendingByDelivery (snap_Queue s) DeliverySteer; accepted = (if steers \<noteq> [] then [] else proposals) in
        if steers = [] \<and> accepted = [] then (Inr None, r1)
        else let (step, r2) = rt_nextID ''step'' r1; (changes, r3) = followOnChanges now s i step accepted r2 in
          bindR (commitLocked env (snap_Revision s) ''follow-on'' (concat (map (\<lambda>item. appendInputConsumption s item i step) steers) @ changes))
            (\<lambda>_. returnR (Some step)) r3)" for s
  proof (rule safeI)
    fix r1
    let ?steers = "pendingByDelivery (snap_Queue s) DeliverySteer" let ?accepted = "if ?steers \<noteq> [] then [] else proposals"
    obtain step r2 where 2: "rt_nextID ''step'' r1 = (step, r2)" by fastforce
    obtain cs r3 where 3: "followOnChanges now s i step ?accepted r2 = (cs, r3)" by fastforce
    have q: "list_all quiet cs" "drifts r2 r3" using quiet_followOnChanges [OF 3] by auto
    have "drifts r1 r2" using 2 by (auto simp: rt_nextID_def Let_def drifts_def)
    then have "kept fpt r0 r1 r3" using q(2) drifts_trans drifts_kept by blast
    moreover have "kept fpt r0 r3 (snd (bindR (commitLocked env (snap_Revision s) ''follow-on'' (concat (map (\<lambda>item. appendInputConsumption s item i step) ?steers) @ cs))
            (\<lambda>_. returnR (Some step)) r3))"
      by (intro kept_parts safe_intros) (use assms q(1) in \<open>simp_all add: list_all_concat_map\<close>)
    ultimately show "kept fpt r0 r1 (snd (let steers = ?steers; accepted = (if steers \<noteq> [] then [] else proposals) in
        if steers = [] \<and> accepted = [] then (Inr None, r1)
        else let (step, r2) = rt_nextID ''step'' r1; (changes, r3) = followOnChanges now s i step accepted r2 in
          bindR (commitLocked env (snap_Revision s) ''follow-on'' (concat (map (\<lambda>item. appendInputConsumption s item i step) steers) @ changes))
            (\<lambda>_. returnR (Some step)) r3))"
      using 2 3 kept_trans kept_refl by (auto simp: Let_def)
  qed
  then show "kept fpt r0 r (snd (followOn env now i proposals r))" by (auto simp: followOn_def kept_refl intro!: kept_parts safe_intros)
qed

lemma kept_cancel: "kept fpt r0 r (snd (cancel ctx q r))"
proof -
  have "safe fpt r0 (\<lambda>r1. if can_ExpectedRevision q \<noteq> snap_Revision s then
          (Inl (RtRevisionConflict (snap_Revision s) (NewCodedError ErrorConflict CodeRevisionConflict ''gateway.cancel'' ''expected revision does not match'')), r1)
        else if rt_state r1 = runtimeIdle \<or> rt_active r1 = None then (Inr (), r1)
        else (Inr (), update_run (\<lambda>x. x\<lparr>ar_cancelRequested := True,
          ar_controlActor := (if ActorIdentity_Valid (can_Actor q) then can_Actor q else ar_controlActor x)\<rparr>) r1))" for s
    by (rule safeI) (auto simp: kept_refl intro!: update_run_kept)
  then show ?thesis by (auto simp: cancel_def kept_refl intro!: kept_parts safe_intros)
qed

lemma kept_startClose: "kept fpt r0 r (startCloseLocked r)"
proof -
  have "kept fpt r0 r (r\<lparr>rt_closing := True\<rparr>)"
    by (auto simp: kept_def rt_ok_def rt_fixed_def stored_in_def stored_def durable_def unused_def undrawn_def agrees_def limited_def split: option.splits)
  then show ?thesis unfolding startCloseLocked_def by (rule kept_trans) (rule update_run_kept, simp)
qed

lemma kept_finishClose:
  assumes "rt_active r = None"
  shows "kept fpt r0 r (finishClose_locked r)"
  using assms by (auto simp: finishClose_locked_def kept_def rt_ok_def rt_fixed_def stored_in_def stored_def durable_def unused_def undrawn_def agrees_def limited_def)

end
