(* ===== verification/Runtime_Counted.thy ===== *)
theory Runtime_Counted
  imports Runtime_Kept
begin

text \<open>The operations that change the counters or the state of a Run keep the invariant.\<close>

lemma live_run: "live r i \<Longrightarrow> \<exists>a. rt_active r = Some a \<and> ar_id a = i"
  by (auto simp: live_def split: option.splits)

lemma owns_run: "owns r i \<Longrightarrow> \<exists>a. rt_active r = Some a \<and> ar_id a = i"
  by (auto simp: owns_def split: option.splits)

lemma rt_ok_active:
  assumes "rt_ok fpt r0 r" "rt_active r = Some a"
  shows "rt_state r = runtimeRunning" "run_of (durable r) = (RunRunning, ar_id a)" "ar_modelAttempts a = int (runAttempts (ar_id a) (facts r))"
    "ar_toolCalls a = int (runToolCalls (ar_id a) (facts r))" "ar_usedTokens a = runTokens (ar_id a) (facts r)"
    "undrawn r n \<Longrightarrow> ar_id a \<noteq> idText ''run'' (rt_prefix r) n"
  using assms by (auto simp: rt_ok_def agrees_def unused_def)

lemma drifts_undrawn: "drifts r r' \<Longrightarrow> undrawn r' n \<Longrightarrow> undrawn r n"
  using drifts_view(10) [of r r'] by (auto simp: undrawn_def)

lemma within_add: "within m n0 n \<Longrightarrow> k = 0 \<or> within m 0 (n + k) \<Longrightarrow> within m n0 (n + k)"
  by (auto simp: within_def)

text \<open>An update of the counters of the active Run together with the commit that counts.\<close>

lemma counting_kept:
  assumes "committed fpt r cs r1" "rt_ok fpt r0 r" "rt_active r = Some a"
    and f: "ar_id (f a) = ar_id a" "ar_modelAttempts (f a) = ar_modelAttempts a + int (sum_list (map (started_in (ar_id a)) cs))"
      "ar_toolCalls (f a) = ar_toolCalls a + int (sum_list (map (called_in (ar_id a)) cs))" "ar_usedTokens (f a) = ar_usedTokens a + sum_list (map (tokens_in (ar_id a)) cs)"
    and others: "\<And>i. i \<noteq> ar_id a \<Longrightarrow> sum_list (map (started_in i) cs) = 0 \<and> sum_list (map (called_in i) cs) = 0"
    and run: "\<And>p. fold run_after cs p = p"
    and limits: "sum_list (map (started_in (ar_id a)) cs) = 0 \<or> within (rc_MaxModelAttemptsPerRun (rt_components r)) 0 (nat (ar_modelAttempts (f a)))"
      "sum_list (map (called_in (ar_id a)) cs) = 0 \<or> within (rc_MaxToolCallsPerRun (rt_components r)) 0 (nat (ar_toolCalls (f a)))"
  shows "rt_ok fpt r0 (update_run f r1)"
proof -
  note A = rt_ok_active [OF assms(2,3)]
  note F = committed_frame [OF assms(1)]
  have n: "run_of (durable r1) = run_of (durable r)" "\<And>i. runAttempts i (facts r1) = runAttempts i (facts r) + sum_list (map (started_in i) cs)"
    "\<And>i. runToolCalls i (facts r1) = runToolCalls i (facts r) + sum_list (map (called_in i) cs)"
    "\<And>i. runTokens i (facts r1) = runTokens i (facts r) + sum_list (map (tokens_in i) cs)"
    using assms(1) run by (simp_all add: committed_def)
  show ?thesis
  proof (rule committed_ok [OF assms(1,2)])
    fix k assume "undrawn r1 k"
    then have "undrawn r k" using F(7) by (simp add: undrawn_def)
    then have k: "idText ''run'' (rt_prefix r) k \<noteq> ar_id a" using A(6) by metis
    show "sum_list (map (started_in (idText ''run'' (rt_prefix r) k)) cs) = 0 \<and> sum_list (map (called_in (idText ''run'' (rt_prefix r) k)) cs) = 0 \<and>
        snd (fold run_after cs (run_of (durable r))) \<noteq> idText ''run'' (rt_prefix r) k"
      using others [OF k] k A(2) run by simp
  next
    show "agrees (update_run f r1)" using A n F assms(3) f by (simp add: agrees_def)
    show "limited r0 (update_run f r1)"
      unfolding limited_def
    proof (intro allI conjI)
      fix i
      have l: "limited r0 r" using assms(2) by (simp add: rt_ok_def)
      have k: "sum_list (map (started_in i) cs) = 0 \<or> within (rc_MaxModelAttemptsPerRun (rt_components r)) 0 (runAttempts i (facts r) + sum_list (map (started_in i) cs))"
        "sum_list (map (called_in i) cs) = 0 \<or> within (rc_MaxToolCallsPerRun (rt_components r)) 0 (runToolCalls i (facts r) + sum_list (map (called_in i) cs))"
        using limits others [of i] f(2,3) A(3,4) by (cases "i = ar_id a", simp_all only: nat_int_add simp_thms)+
      show "within (rc_MaxModelAttemptsPerRun (rt_components (update_run f r1))) (runAttempts i (facts r0)) (runAttempts i (facts (update_run f r1)))"
        using within_add [OF _ k(1)] l n(2) [of i] F(3) by (simp add: limited_def)
      show "within (rc_MaxToolCallsPerRun (rt_components (update_run f r1))) (runToolCalls i (facts r0)) (runToolCalls i (facts (update_run f r1)))"
        using within_add [OF _ k(2)] l n(3) [of i] F(3) by (simp add: limited_def)
    qed
  qed simp_all
qed

text \<open>A commit and, when it is applied, an update \<open>g\<close> of the runtime.\<close>

lemma commit_counting:
  assumes "drifts r r1" "commitLockedAs env ctx expected operation actor cs r1 = (y, r2)" "env_ok fpt env"
    and step: "rt_ok fpt r0 r \<Longrightarrow> rt_ok fpt r0 r1 \<Longrightarrow> committed fpt r1 cs r2 \<Longrightarrow> rt_sequence r1 + 1 < 2 ^ 64 \<Longrightarrow> rt_ok fpt r0 (g r2)" and g: "rt_sequence (g r2) = rt_sequence r2"
  shows "kept fpt r0 r (case y of Inl e \<Rightarrow> r2 | Inr _ \<Rightarrow> g r2)" (is "kept fpt r0 r ?r'")
proof -
  have seq: "rt_sequence ?r' = rt_sequence r1 + 1" using g commit_sequence [OF assms(2)] by (simp split: sum.split)
  have "rt_ok fpt r0 ?r'" if ok: "rt_ok fpt r0 r" "rt_sequence ?r' < 2 ^ 64"
  proof -
    have ok1: "rt_ok fpt r0 r1" by (rule drifts_ok [OF assms(1) ok(1)])
    from assms(2) ok1 assms(3) ok(2) [unfolded seq] show ?thesis
    proof (cases rule: commit_effect)
      case (refused e) then show ?thesis using ok1 drifts_ok by simp
    next
      case (applied k) then show ?thesis using step [OF ok(1) ok1 applied(2)] ok(2) [unfolded seq] by simp
    qed
  qed
  then show ?thesis using seq drifts_view(10) [OF assms(1)] by (simp add: kept_def)
qed

text \<open>View, commit and count: the shape of \<^term>\<open>Started_commit\<close> and \<^term>\<open>Finished_commit\<close>.\<close>

lemma commitSeen_counting:
  assumes "bindR (commitSeen env operation (\<lambda>_. cs)) (\<lambda>_ r'. (Inr (), update_run f r')) r = (x, r')" "env_ok fpt env"
    and step: "\<And>r1 r2. rt_ok fpt r0 r1 \<Longrightarrow> drifts r r1 \<Longrightarrow> committed fpt r1 cs r2 \<Longrightarrow> rt_ok fpt r0 (update_run f r2)"
  shows "kept fpt r0 r r'"
proof (cases "viewLocked CtxLive r")
  case (Pair v r1)
  have d: "drifts r r1" using viewLocked_drifts [OF Pair] .
  show ?thesis
  proof (cases v)
    case (Inl e)
    then have "r' = r1" using assms(1) Pair by (simp add: bindR_def commitSeen_def)
    then show ?thesis using d drifts_kept by simp
  next
    case (Inr s)
    obtain y r2 where c: "commitLockedAs env CtxLive (snap_Revision s) operation zero_actor cs r1 = (y, r2)" by fastforce
    have r': "r' = (case y of Inl e \<Rightarrow> r2 | Inr _ \<Rightarrow> update_run f r2)"
      using assms(1) Pair Inr c by (auto simp: bindR_def commitSeen_def commitLocked_def split: sum.splits)
    show ?thesis unfolding r' by (rule commit_counting [OF d c assms(2)]) (use step d in simp_all)
  qed
qed

lemma kept_Started_commit:
  assumes "env_ok fpt env"
  shows "kept fpt r0 r (snd (Started_commit env i step a r))"
proof (cases "live r i")
  case False
  then show ?thesis by (simp add: Started_commit_def kept_refl)
next
  case True
  then obtain run where run: "rt_active r = Some run" "ar_id run = i" using live_run by blast
  let ?max = "rc_MaxModelAttemptsPerRun (rt_components r)" and ?cs = "[ch_attempt (attemptFact run step a)]"
  let ?f = "\<lambda>x. x\<lparr>ar_modelAttempts := ar_modelAttempts x + 1\<rparr>"
  let ?k = "bindR (commitSeen env ''attempt-start'' (\<lambda>_. ?cs)) (\<lambda>_ r'. (Inr (), update_run ?f r'))"
  show ?thesis
  proof (cases "?max \<le> 0 \<or> ar_modelAttempts run < ?max")
    case True2: True
    then have "Started_commit env i step a r = ?k r" using True run by (simp add: Started_commit_def recordModelAttemptLimitLocked_def bindR_def Let_def)
    moreover have "kept fpt r0 r r'" if "?k r = (x, r')" for x r'
    proof (rule commitSeen_counting [OF that assms])
      fix r1 r2 assume ok: "rt_ok fpt r0 r1" and d: "drifts r r1" and c: "committed fpt r1 ?cs r2"
      have act: "rt_active r1 = Some run" "rt_components r1 = rt_components r" using run d by (simp_all add: drifts_view)
      show "rt_ok fpt r0 (update_run ?f r2)"
        using c ok act(1)
      proof (rule counting_kept)
        show "sum_list (map (started_in (ar_id run)) ?cs) = 0 \<or> within (rc_MaxModelAttemptsPerRun (rt_components r1)) 0 (nat (ar_modelAttempts (?f run)))"
          using True2 act(2) by (auto simp: within_def)
      qed (auto simp: started_in_def called_in_def tokens_in_def run_after_def attemptFact_def)
    qed
    ultimately show ?thesis by (metis prod.collapse)
  next
    case False
    have "Started_commit env i step a r = bindR (recordModelAttemptLimitLocked env run step (ast_AttemptID a)) (\<lambda>_. failR modelAttemptLimitError) r"
    proof -
      have "recordModelAttemptLimitLocked env run step (ast_AttemptID a) r \<noteq> (Inr False, r1)" for r1
        using False by (auto simp: recordModelAttemptLimitLocked_def Let_def bindR_def returnR_def split: prod.splits sum.splits)
      then show ?thesis using True run by (auto simp: Started_commit_def Let_def bindR_def split: prod.split sum.split)
    qed
    then show ?thesis using assms by (auto intro!: kept_parts safe_intros)
  qed
qed

lemma kept_Finished_commit:
  assumes "env_ok fpt env"
  shows "kept fpt r0 r (snd (Finished_commit env i step f r))"
proof (cases "AttemptFinish_Validate f = None \<and> owns r i")
  case False
  then show ?thesis by (auto simp: Finished_commit_def kept_refl)
next
  case True
  then obtain run where run: "rt_active r = Some run" "ar_id run = i" using owns_run by blast
  let ?g = "\<lambda>x. x\<lparr>ar_usedTokens := ar_usedTokens x + use_TotalTokens (afi_Usage f)\<rparr>"
  let ?cs = "[ch_attempt \<lparr>att_AttemptID = afi_AttemptID f, att_RunID = ar_id run, att_StepID = step, att_Kind = finishKind (afi_Outcome f),
             att_ProviderKey = cfg_ProviderKey (ar_config run), att_ModelID = cfg_ModelID (ar_config run), att_ProviderRequestID = afi_ProviderRequestID f,
             att_Usage = afi_Usage f, att_ErrorCode = afi_ErrorCode f, att_ErrorMessage = afi_ErrorMessage f\<rparr>]"
  let ?k = "bindR (commitSeen env ''attempt-finish'' (\<lambda>_. ?cs)) (\<lambda>_ r'. (Inr (), update_run ?g r'))"
  have fk: "finishKind o1 \<noteq> Attempt_Started" for o1 by (simp add: finishKind_def split: AttemptOutcome.split)
  have "Finished_commit env i step f r = ?k r" using True run by (simp add: Finished_commit_def Let_def)
  moreover have "kept fpt r0 r r'" if "?k r = (x, r')" for x r'
  proof (rule commitSeen_counting [OF that assms])
    fix r1 r2 assume ok: "rt_ok fpt r0 r1" and d: "drifts r r1" and c: "committed fpt r1 ?cs r2"
    have act: "rt_active r1 = Some run" using run d by (simp add: drifts_view)
    show "rt_ok fpt r0 (update_run ?g r2)"
      using c ok act by (rule counting_kept) (auto simp: started_in_def called_in_def tokens_in_def run_after_def fk)
  qed
  ultimately show ?thesis by (metis prod.collapse)
qed


section \<open>Completions\<close>

lemma bindR_Inr: "bindR m f r = (Inr y, r') \<longleftrightarrow> (\<exists>x r1. m r = (Inr x, r1) \<and> f x r1 = (Inr y, r'))"
  by (auto simp: bindR_def split: prod.splits sum.splits)

lemma quiet_reservePreflights: "reservePreflights now c v bs n r = (Inr (xs, m), r') \<Longrightarrow> list_all quiet xs"
proof (induction bs arbitrary: n r xs m r')
  case (Cons b bs)
  then show ?case
    by (auto simp: bindR_Inr returnR_def split: if_splits option.splits)
qed (simp add: returnR_def)

lemma quiet_preflightReservations: "appendToolPreflightReservations now c v n r = (Inr (xs, m), r') \<Longrightarrow> list_all quiet xs"
  by (auto simp: appendToolPreflightReservations_def split: if_splits dest: quiet_reservePreflights)

lemma completion_sums:
  "completionCallChanges now v calls n r = (Inr cs, r') \<Longrightarrow>
   sum_list (map (started_in i) cs) = 0 \<and> sum_list (map (called_in i) cs) = length (filter (\<lambda>c. call_RunID c = i) calls) \<and>
   sum_list (map (tokens_in i) cs) = 0 \<and> fold run_after cs p = p"
proof (induction calls arbitrary: n r cs r')
  case Nil
  then show ?case by (simp add: returnR_def)
next
  case (Cons c calls)
  from Cons.prems obtain xs m r1 rest where
    x: "appendToolPreflightReservations now c v n r = (Inr (xs, m), r1)" "completionCallChanges now v calls m r1 = (Inr rest, r')"
      "cs = ch_call c # ch_journal \<lparr>jrn_RunID = call_RunID c, jrn_StepID = call_StepID c, jrn_ToolCall = Some c, jrn_ToolResult = None, jrn_Status = JournalPrepared\<rparr> # xs @ rest"
    by (auto simp: bindR_Inr returnR_def)
  have "started_in i (ch_call c) = 0" "called_in i (ch_call c) = (if call_RunID c = i then 1 else 0)" "tokens_in i (ch_call c) = 0" "run_after (ch_call c) p = p"
    by (simp_all add: started_in_def called_in_def tokens_in_def run_after_def)
  then show ?case unfolding x(3) using quiet_sums [OF quiet_preflightReservations [OF x(1)]] Cons.IH [OF x(2)] by simp
qed

lemma kept_commitCompletion:
  assumes "env_ok fpt env"
  shows "kept fpt r0 r (snd (commitCompletion env now i step messageID output r))"
proof (cases "live r i")
  case False
  then show ?thesis by (simp add: commitCompletion_def kept_refl)
next
  case True
  then obtain run where run: "rt_active r = Some run" "ar_id run = i" using live_run by blast
  let ?max = "rc_MaxToolCallsPerRun (rt_components r)"
  obtain v r1 where v: "viewLocked CtxLive r = (v, r1)" by fastforce
  have d1: "drifts r r1" by (rule viewLocked_drifts [OF v])
  show ?thesis
  proof (cases v)
    case (Inl e)
    then have "snd (commitCompletion env now i step messageID output r) = r1" using True v by (simp add: commitCompletion_def bindR_def Let_def)
    then show ?thesis using d1 drifts_kept by metis
  next
    case (Inr s)
    obtain calls r2 where n: "newToolCalls (ar_id run) step messageID (cmp_ToolCalls output) r1 = (calls, r2)" by fastforce
    note N = newToolCalls_drifts [OF n]
    have d2: "drifts r r2" using d1 N drifts_trans by blast
    show ?thesis
    proof (cases "0 < ?max \<and> int (length calls) > ?max - ar_toolCalls run")
      case exceeded: True
      then have "snd (commitCompletion env now i step messageID output r) = (if calls = [] then r2 else snd (bindR (recordRunLimitExceededLocked env s
              \<lparr>lim_RunID = ar_id run, lim_StepID = step, lim_Kind = RunLimitToolCalls, lim_Used = word_of_int (ar_toolCalls run), lim_Max = word_of_int ?max,
               lim_Requested = of_nat (length calls), lim_TriggerAttemptID = '''', lim_TriggerToolCallID = call_ID (hd calls)\<rparr>)
              (\<lambda>_. failR (RtError (NewCodedError ErrorUnavailable CodeRunToolCallLimitExceeded ''standardagent.tool_calls'' ''Run tool call limit exceeded'')) :: (ToolCall list option) rt) r2))"
        using True run v Inr n by (simp add: commitCompletion_def bindR_def Let_def)
      also have "kept fpt r0 r2 \<dots>" using assms by (auto simp: kept_refl intro!: kept_parts safe_intros)
      finally show ?thesis using drifts_kept [OF d2] kept_trans by blast
    next
      case False
      let ?m = "assistantMessage r now run step messageID output"
      obtain k r3 where k: "completionCallChanges now (snap_Revision s + 1) calls (of_nat (length (snap_ExtensionJournal s) + 1)) r2 = (k, r3)" by fastforce
      have d3: "drifts r r3" using d2 driftingD [OF drifting_completionCallChanges k] drifts_trans by blast
      show ?thesis
      proof (cases k)
        case (Inl e)
        then have "snd (commitCompletion env now i step messageID output r) = r3" using True run v Inr n k False by (auto simp: commitCompletion_def bindR_def Let_def)
        then show ?thesis using d3 drifts_kept by metis
      next
        case c: (Inr cs)
        note S = completion_sums [OF k [unfolded c]]
        let ?f = "\<lambda>x. x\<lparr>ar_toolCalls := ar_toolCalls x + int (length calls)\<rparr>"
        obtain y r4 where y: "commitLockedAs env CtxLive (snap_Revision s) ''model-complete'' zero_actor (ch_message ?m # cs) r3 = (y, r4)" by fastforce
        have fin: "snd (commitCompletion env now i step messageID output r) = (case y of Inl e \<Rightarrow> r4 | Inr _ \<Rightarrow> update_run ?f r4)" (is "?r' = _")
          using True run v Inr n k c y False by (auto simp: commitCompletion_def commitLocked_def bindR_def Let_def split: sum.split)
        have act: "rt_active r3 = Some run" "rt_components r3 = rt_components r" using run d3 by (simp_all add: drifts_view)
        have all: "filter (\<lambda>c. call_RunID c = ar_id run) calls = calls" "\<And>j. j \<noteq> ar_id run \<Longrightarrow> filter (\<lambda>c. call_RunID c = j) calls = []"
          using N by (auto simp: filter_empty_conv)
        show ?thesis unfolding fin
        proof (rule commit_counting [OF d3 y assms])
          assume ok: "rt_ok fpt r0 r3" and c: "committed fpt r3 (ch_message ?m # cs) r4"
          show "rt_ok fpt r0 (update_run ?f r4)" using c ok act(1) by (rule counting_kept) (use S all False act(2) in \<open>auto simp: within_def\<close>)
        qed simp
      qed
    qed
  qed
qed


section \<open>Starting a Run\<close>

lemma no_attempts_no_tokens: "history_ok h \<Longrightarrow> runAttempts i h = 0 \<Longrightarrow> runTokens i h = 0"
proof (induction h rule: rev_induct)
  case Nil
  then show ?case by (simp add: runTokens_def)
next
  case (snoc f h)
  then have ih: "runTokens i h = 0" "runAttempts i h = 0" "fact_fits h f" by auto
  have "runTokens i [f] = 0"
  proof (cases "fact_ModelAttempt f")
    case (Some a)
    have "att_RunID a \<noteq> i \<or> att_Kind a = Attempt_Started"
    proof (rule ccontr)
      assume "\<not> ?thesis"
      then obtain b where b: "fst (attemptFacts h (att_AttemptID a)) = Some b" "att_RunID b = i"
        using ih(3) Some by (auto simp: fact_fits_def attempt_fits_def sameAttemptIdentity_def)
      then have "b \<in> set (filter (\<lambda>a. att_RunID a = i \<and> att_Kind a = Attempt_Started) (List.map_filter fact_ModelAttempt h))"
        by (auto simp: attemptFacts_def Let_def dest!: last_such_SomeD)
      then show False using ih(2) by (auto simp: runAttempts_def filter_empty_conv)
    qed
    then show ?thesis using Some by (auto simp: counts_single)
  qed (simp add: counts_single)
  then show ?case using ih by simp
qed

lemma fold_run_after_quiet: "list_all quiet cs \<Longrightarrow> fold run_after cs p = p"
  by (rule quiet_sums)

lemma startChangesLocked_parts:
  assumes "startChangesLocked s item enqueue r = ((run, step, cs), r1)"
  shows "drifts r r1" "rt_sequence r1 = rt_sequence r + 2" "ar_id run = idText ''run'' (rt_prefix r) (rt_sequence r + 1)"
    "ar_modelAttempts run = 0" "ar_toolCalls run = 0" "ar_usedTokens run = 0"
    "sum_list (map (started_in i) cs) = 0" "sum_list (map (called_in i) cs) = 0" "fold run_after cs p = (RunRunning, ar_id run)"
proof -
  let ?step = "idText ''step'' (rt_prefix r) (rt_sequence r + 2)"
  obtain f where run: "drifts r r1" "rt_sequence r1 = rt_sequence r + 2" "ar_id run = idText ''run'' (rt_prefix r) (rt_sequence r + 1)"
    "ar_modelAttempts run = 0" "ar_toolCalls run = 0" "ar_usedTokens run = 0"
    and cs: "cs = (if enqueue then [ch_enqueue item] else []) @ ch_state \<lparr>rsc_RunID = ar_id run, rsc_State = RunRunning\<rparr> # ch_run f #
        consumePendingLifecycleContexts s (ar_id run) ?step @ appendInputConsumption s item (ar_id run) ?step"
    using assms by (auto simp: startChangesLocked_def rt_nextID_def Let_def drifts_def)
  show "drifts r r1" "rt_sequence r1 = rt_sequence r + 2" "ar_id run = idText ''run'' (rt_prefix r) (rt_sequence r + 1)"
    "ar_modelAttempts run = 0" "ar_toolCalls run = 0" "ar_usedTokens run = 0" by (fact run)+
  have z: "started_in i (ch_state x) = 0" "called_in i (ch_state x) = 0" for x by (simp_all add: started_in_def called_in_def)
  have ra: "run_after (ch_state \<lparr>rsc_RunID = ar_id run, rsc_State = RunRunning\<rparr>) p = (RunRunning, ar_id run)" for p by (simp add: run_after_def)
  note q = quiet_lists(3) [THEN quiet_sums(1)] quiet_lists(3) [THEN quiet_sums(2)] quiet_lists(4) [THEN quiet_sums(1)] quiet_lists(4) [THEN quiet_sums(2)]
    quiet_lists(3) [THEN quiet_sums(4)] quiet_lists(4) [THEN quiet_sums(4)]
  show "sum_list (map (started_in i) cs) = 0" "sum_list (map (called_in i) cs) = 0" "fold run_after cs p = (RunRunning, ar_id run)"
    unfolding cs by (cases enqueue; simp only: if_True if_False append.simps map_append sum_list_append sum_list.Cons sum_list.Nil list.map fold_append fold.simps
        z ra q quiet_in quiet_changes comp_apply id_apply add_0)+
qed

lemma activate_view [simp]:
  "stored (activateLocked run r) = stored r" "durable (activateLocked run r) = durable r" "rt_active (activateLocked run r) = Some run"
  "rt_state (activateLocked run r) = runtimeRunning" "rt_components (activateLocked run r) = rt_components r" "rt_id (activateLocked run r) = rt_id r"
  "rt_prefix (activateLocked run r) = rt_prefix r" "rt_sequence (activateLocked run r) = rt_sequence r" "rt_store (activateLocked run r) = rt_store r"
  by (simp_all add: activateLocked_def stored_def durable_def)

lemma start_with_ok:
  assumes "startChangesLocked s item enqueue r = ((run, step, start), r1)" "rt_ok fpt r0 r" "committed fpt r1 (pre @ start @ post) r2" "rt_sequence r1 + 1 < 2 ^ 64"
    and pre: "\<And>i. sum_list (map (started_in i) pre) = 0 \<and> sum_list (map (called_in i) pre) = 0" and post: "list_all quiet post"
  shows "rt_ok fpt r0 (activateLocked run r2)"
proof -
  note P = startChangesLocked_parts [OF assms(1)]
  let ?r = "activateLocked run r2" and ?i = "ar_id run"
  have ok1: "rt_ok fpt r0 r1" by (rule drifts_ok [OF P(1) assms(2)])
  have n: "run_of (durable r2) = (RunRunning, ?i)" "\<And>i. runAttempts i (facts r2) = runAttempts i (facts r)" "\<And>i. runToolCalls i (facts r2) = runToolCalls i (facts r)"
    using assms(3) pre quiet_sums [OF post] P(7-9) drifts_view(2) [OF P(1)] by (simp_all add: committed_def)
  have "undrawn r (rt_sequence r + 1)" using assms(4) P(2) by (simp add: undrawn_def)
  then have zero: "runAttempts ?i (facts r) = 0" "runToolCalls ?i (facts r) = 0" using assms(2) P(3) by (simp_all add: rt_ok_def unused_def)
  have "stored_in fpt r2" using assms(3) by (simp add: committed_def)
  then have "history_ok (facts r2)" using store_aggregate_ok by (auto simp: stored_in_def durable_def aggregate_ok_def working_ok_def)
  then have tok: "runTokens ?i (facts r2) = 0" using no_attempts_no_tokens n(2) zero by simp
  show ?thesis
  proof (rule committed_ok [OF assms(3) ok1])
    fix k assume k: "undrawn r2 k"
    then have "k \<noteq> rt_sequence r + 1" "k < 2 ^ 64" using committed_frame(7) [OF assms(3)] P(2) by (auto simp: undrawn_def)
    then have "?i \<noteq> idText ''run'' (rt_prefix r) k" using P(3) idText_inject [of "rt_sequence r + 1" k] assms(4) P(2) by auto
    then show "sum_list (map (started_in (idText ''run'' (rt_prefix r1) k)) (pre @ start @ post)) = 0 \<and>
        sum_list (map (called_in (idText ''run'' (rt_prefix r1) k)) (pre @ start @ post)) = 0 \<and> snd (fold run_after (pre @ start @ post) (run_of (durable r1))) \<noteq> idText ''run'' (rt_prefix r1) k"
      using pre quiet_sums [OF post] P(7-9) drifts_view(7) [OF P(1)] by simp
  next
    show "agrees ?r" using n zero tok P(4-6) by (simp add: agrees_def)
    show "limited r0 ?r" using assms(2) n committed_frame(3) [OF assms(3)] drifts_view(8) [OF P(1)] by (simp add: rt_ok_def limited_def)
  qed simp_all
qed

lemma start_ok:
  assumes "startChangesLocked s item enqueue r = ((run, step, start), r1)" "rt_ok fpt r0 r" "committed fpt r1 (pre @ start) r2" "rt_sequence r1 + 1 < 2 ^ 64"
    and "\<And>i. sum_list (map (started_in i) pre) = 0 \<and> sum_list (map (called_in i) pre) = 0"
  shows "rt_ok fpt r0 (activateLocked run r2)"
  using start_with_ok [OF assms(1,2) _ assms(4,5), of "[]" r2] assms(3) by simp

lemma kept_start:
  assumes "startChangesLocked s item enqueue r = ((run, step, start), r1)" "env_ok fpt env"
    "commitExternalLocked env ctx expected operation actor start r1 = (y, r2)"
  shows "kept fpt r0 r (case y of Inl e \<Rightarrow> r2 | Inr _ \<Rightarrow> activateLocked run r2)"
proof -
  note P = startChangesLocked_parts [OF assms(1)]
  have k: "kept fpt r0 r (case z of Inl e \<Rightarrow> r3 | Inr _ \<Rightarrow> activateLocked run r3)"
    if z: "commitLockedAs env ctx expected operation actor start r1 = (z, r3)" for z r3
  proof (rule commit_counting [OF P(1) z assms(2)])
    assume "rt_ok fpt r0 r" "committed fpt r1 start r3" "rt_sequence r1 + 1 < 2 ^ 64"
    then show "rt_ok fpt r0 (activateLocked run r3)" using start_ok [OF assms(1), of fpt r0 "[]" r3] by simp
  qed (simp add: activateLocked_def)
  from assms(3) show ?thesis
  proof (cases rule: commitExternalLocked_cases)
    case (applied c) then show ?thesis using k [OF applied(1)] by simp
  next
    case (refused e e' r3) then show ?thesis using kept_trans [OF k [OF refused(1), unfolded sum.case] drifts_kept] by simp
  qed
qed


lemma activate_order: "r\<lparr>rt_active := Some run, rt_state := runtimeRunning\<rparr> = activateLocked run r"
  by (simp add: activateLocked_def)

lemma kept_send:
  assumes "env_ok fpt env"
  shows "kept fpt r0 r (snd (send env ctx now q r))"
proof -
  have "safe fpt r0 (\<lambda>r1.
        let item = \<lparr>qi_Message = userMessage (rt_id r) i now q, qi_Delivery = DeliveryNormal, qi_ClaimedBy = ''''\<rparr> in
        if rt_state r1 = runtimeRunning then
          bindR (commitExternalLocked env ctx (snd_ExpectedRevision q) ''send'' (snd_Actor q) [ch_enqueue item]) (\<lambda>c. returnR (Enqueued i (com_Revision c))) r1
        else let ((run, step, changes), r2) = startChangesLocked s item True r1 in
          bindR (commitExternalLocked env ctx (snd_ExpectedRevision q) ''send-start'' (snd_Actor q) changes)
            (\<lambda>_ r3. (Inr (RunStartedFor i (ar_id run) step), activateLocked run r3)) r2)" (is "safe fpt r0 ?m") for i s
  proof (rule safeI)
    fix r1
    let ?item = "\<lparr>qi_Message = userMessage (rt_id r) i now q, qi_Delivery = DeliveryNormal, qi_ClaimedBy = ''''\<rparr>"
    obtain run step cs r2 where st: "startChangesLocked s ?item True r1 = ((run, step, cs), r2)" by (metis prod_cases3 surj_pair)
    obtain y r3 where y: "commitExternalLocked env ctx (snd_ExpectedRevision q) ''send-start'' (snd_Actor q) cs r2 = (y, r3)" by fastforce
    show "kept fpt r0 r1 (snd (?m r1))"
    proof (cases "rt_state r1 = runtimeRunning")
      case True then show ?thesis using assms by (auto simp: Let_def intro!: kept_parts safe_intros)
    next
      case False then show ?thesis using kept_start [OF st assms y, of r0] st y by (cases y) (simp_all add: bindR_def)
    qed
  qed
  then show ?thesis by (auto simp: send_def kept_refl intro!: kept_parts safe_intros)
qed

lemma kept_pending:
  assumes "env_ok fpt env"
  shows "kept fpt r0 r (snd (pending env ctx q r))"
proof -
  have start: "safe fpt r0 (\<lambda>r1. case firstPending (snap_Queue s) DeliveryNormal of
            None \<Rightarrow> (Inl (RtError (NewCodedError ErrorConflict ''no_pending_work'' ''gateway.run_pending'' ''session has no pending normal input'')), r1)
          | Some item \<Rightarrow> let ((run, step, changes), r2) = startChangesLocked s item False r1 in
              bindR (commitExternalLocked env ctx (can_ExpectedRevision q) ''run-pending'' (can_Actor q) changes)
                (\<lambda>_ r3. (Inr (ar_id run, step), activateLocked run r3)) r2)" (is "safe fpt r0 ?m") for s
  proof (rule safeI)
    fix r1
    show "kept fpt r0 r1 (snd (?m r1))"
    proof (cases "firstPending (snap_Queue s) DeliveryNormal")
      case (Some item)
      obtain run step cs r2 where st: "startChangesLocked s item False r1 = ((run, step, cs), r2)" by (metis prod_cases3 surj_pair)
      obtain y r3 where y: "commitExternalLocked env ctx (can_ExpectedRevision q) ''run-pending'' (can_Actor q) cs r2 = (y, r3)" by fastforce
      show ?thesis using kept_start [OF st assms y, of r0] Some st y by (cases y) (simp_all add: bindR_def)
    qed (simp add: kept_refl)
  qed
  have "safe fpt r0 (\<lambda>r. if rt_state r = runtimeRunning
        then (Inl (RtError (NewCodedError ErrorConflict CodeActiveRun ''gateway.run_pending'' ''session already has an active Run'')), r)
        else bindR (viewLocked ctx) (\<lambda>s r1. case firstPending (snap_Queue s) DeliveryNormal of
            None \<Rightarrow> (Inl (RtError (NewCodedError ErrorConflict ''no_pending_work'' ''gateway.run_pending'' ''session has no pending normal input'')), r1)
          | Some item \<Rightarrow> let ((run, step, changes), r2) = startChangesLocked s item False r1 in
              bindR (commitExternalLocked env ctx (can_ExpectedRevision q) ''run-pending'' (can_Actor q) changes)
                (\<lambda>_ r3. (Inr (ar_id run, step), activateLocked run r3)) r2) r)"
    by (rule safeI) (auto simp: kept_refl intro!: kept_parts safe_intros start)
  then show ?thesis by (auto simp: pending_def kept_refl intro!: kept_parts safe_intros)
qed

end
