(* ===== verification/Runtime_Finish.thy ===== *)
theory Runtime_Finish
  imports Runtime_Counted
begin

text \<open>The end of a Run: the terminal commit, or the recovery of the Session when it is refused.\<close>

section \<open>Recovery\<close>

definition recovers_run :: "Snapshot \<Rightarrow> Snapshot \<Rightarrow> bool" where
  "recovers_run s t \<longleftrightarrow> run_of t = run_of s \<or> run_of t = (RunIdle, '''')"

lemma recovers_run_same: "run_of t = run_of s \<Longrightarrow> recovers_run s t"
  by (simp add: recovers_run_def)

lemma recover_append_run: "recover_append clock m s f = (r, t) \<Longrightarrow> run_of t = run_of s"
  by (auto simp: recover_append_def split: sum.splits dest!: append_payload_Inr(1))

lemma recoverAggregate_run: "recoverAggregate clock xclock ord s = (r, t) \<Longrightarrow> recovers_run s t"
proof (erule recoverAggregate_rel [where R = recovers_run])
  fix h st i r st' assume "terminateAttempt clock h st i = (r, st')"
  then show "recovers_run (fst st) (fst st')"
    by (auto simp: terminateAttempt_def split: if_splits prod.splits option.splits dest!: recover_append_run intro!: recovers_run_same)
next
  fix run st i r st' assume "recoverJournalEntry clock run st i = (r, st')"
  then show "recovers_run (fst st) (fst st')"
    by (auto simp: recoverJournalEntry_def Let_def split: option.splits if_splits prod.splits dest!: recover_append_run intro!: recovers_run_same)
next
  fix i p c s r t assume "finishRecovery clock i p c s = (r, t)"
  then show "recovers_run s t"
    by (auto simp: finishRecovery_def interruptRun_def recovers_run_def Let_def split: prod.splits option.splits if_splits dest!: recover_append_run)
qed (auto simp: recovers_run_def)

lemma rt_ok_aggregate:
  assumes "rt_ok fpt r0 r"
  shows "aggregate_of (rt_store r) (rt_id r) = Some (stored r)" "aggregate_ok fpt (rt_id r) (durable r)" "validID (rt_id r)" "store_ok fpt (rt_store r)"
  using assms store_aggregate_ok [of fpt "rt_store r" "rt_id r" "stored r"]
  by (auto simp: rt_ok_def stored_in_def durable_def aggregate_ok_def working_ok_def ident_ok_def)

lemma viewLocked_live: "rt_ok fpt r0 r \<Longrightarrow> viewLocked CtxLive r = (Inr (durable r), r\<lparr>rt_revision := snap_Revision (durable r)\<rparr>)"
  using rt_ok_aggregate [of fpt r0 r] by (simp add: viewLocked_def Load_def with_session_def contextErr_def check_def durable_def)

lemma recover_effect:
  assumes "Recover env CtxLive (rt_id r) (rt_store r) = (y, st)" "rt_ok fpt r0 r" "env_ok fpt env"
  shows "stored_in fpt (r\<lparr>rt_store := st\<rparr>) \<and> y = Inr (durable (r\<lparr>rt_store := st\<rparr>)) \<and> same_counts (durable r) (durable (r\<lparr>rt_store := st\<rparr>)) \<and>
    recovers_run (durable r) (durable (r\<lparr>rt_store := st\<rparr>)) \<and> agg_idempotency (stored (r\<lparr>rt_store := st\<rparr>)) = agg_idempotency (stored r)"
proof -
  note A = rt_ok_aggregate [OF assms(2)]
  have st: "store_ok fpt st" by (rule Recover_store_ok [OF assms(1) A(4) assms(3)])
  from recoverAggregate_result [OF A(2), of "env_clock env" "env_xclock env" "env_ord env"] assms(3) obtain c t where
    t: "recoverAggregate (env_clock env) (env_xclock env) (env_ord env) (durable r) = (Inr c, t)" by (auto simp: env_ok_def)
  note k = recoverAggregate_counts [OF t] recoverAggregate_run [OF t]
  have bump: "same_counts (durable r) (bump t) = same_counts (durable r) t" "recovers_run (durable r) (bump t) = recovers_run (durable r) t"
    by (simp_all add: same_counts_def recovers_run_def)
  have fin: ?thesis if "aggregate_of st (rt_id r) = Some a" "y = Inr (agg_snapshot a)" "agg_snapshot a = t \<or> agg_snapshot a = bump t" "agg_idempotency a = agg_idempotency (stored r)" for a
  proof -
    have v: "stored (r\<lparr>rt_store := st\<rparr>) = a" "durable (r\<lparr>rt_store := st\<rparr>) = agg_snapshot a" using that(1) by (simp_all add: stored_def durable_def)
    show ?thesis using st that k bump unfolding stored_in_def v by auto
  qed
  from assms(1) show ?thesis
  proof (cases rule: Recover_cases)
    case (missing e) then show ?thesis using A(1,3) by (simp add: with_session_def contextErr_def check_def)
  next
    case (failed a e s)
    then have "a = stored r" using A(1) by simp
    then show ?thesis using failed(2) t by (simp add: durable_def)
  next
    case (changed a s u ix)
    then have a: "a = stored r" using A(1) by simp
    then have "s = t" using changed(2) t by (simp add: durable_def)
    then show ?thesis using changed(4,5) a by (intro fin [of "a\<lparr>agg_snapshot := bump s, agg_updatedAt := u\<rparr>"]) simp_all
  next
    case (unchanged a s)
    then have a: "a = stored r" using A(1) by simp
    then have "s = t" using unchanged(2) t by (simp add: durable_def)
    then show ?thesis using unchanged(3,4) a by (intro fin [of "a\<lparr>agg_snapshot := s\<rparr>"]) simp_all
  qed
qed

lemma idText_nonempty [simp]: "idText k p n \<noteq> ''''" "[] \<noteq> idText k p n"
  by (simp_all add: idText_def)

lemma recoverAfterRunFailure_ok:
  assumes "rt_ok fpt r0 r" "env_ok fpt env"
  shows "rt_ok fpt r0 (recoverAfterRunFailureLocked env run r)"
proof -
  obtain y st where y: "Recover env CtxLive (rt_id r) (rt_store r) = (y, st)" by fastforce
  let ?r = "r\<lparr>rt_store := st\<rparr>" and ?r' = "recoverAfterRunFailureLocked env run r"
  note E = recover_effect [OF y assms]
  have view: "stored ?r' = stored ?r" "durable ?r' = durable ?r" "rt_store ?r' = st" "rt_id ?r' = rt_id r" "rt_prefix ?r' = rt_prefix r" "rt_components ?r' = rt_components r"
    "rt_sequence ?r' = rt_sequence r" "rt_active ?r' = None" "rt_state ?r' \<noteq> runtimeRunning"
    using y E by (auto simp: recoverAfterRunFailureLocked_def stored_def durable_def Let_def)
  have "rt_state ?r' = runtimeIdle \<longrightarrow> snap_RunState (durable ?r') = RunIdle"
    unfolding view(2) using y E by (auto simp: recoverAfterRunFailureLocked_def recoveredRunIsSettled_def Let_def)
  moreover have "unused ?r'"
    using assms(1) E idText_nonempty unfolding rt_ok_def unused_def undrawn_def view by (auto simp: same_counts_def recovers_run_def)
  moreover have "stored_in fpt ?r'" using E unfolding stored_in_def view by simp
  moreover have "limited r0 ?r'" using assms(1) E unfolding limited_def view by (simp add: rt_ok_def limited_def same_counts_def)
  moreover have "rt_fixed r0 ?r'" using assms(1) unfolding rt_fixed_def view by (simp add: rt_ok_def rt_fixed_def)
  ultimately show ?thesis using view(8,9) by (simp add: rt_ok_def agrees_def)
qed


section \<open>The terminal commit\<close>

lemma terminalKind_terminal [simp]: "terminalKind o1 t \<noteq> RunStarted"
  by (auto simp: terminalKind_def split: stepOutcome.splits option.splits)

text \<open>What \<^term>\<open>finishRun\<close> commits before a next Run: held steers, the terminal fact and the idle state.\<close>

definition finishing :: "runtimeInstance \<Rightarrow> activeRun \<Rightarrow> Change list \<Rightarrow> RunFactKind \<Rightarrow> RunTermination option \<Rightarrow> Change list" where
  "finishing r run held k t = held @ [ch_run (terminalFact (rt_id r) run k t), ch_state \<lparr>rsc_RunID = ar_id run, rsc_State = RunIdle\<rparr>]"

lemma finishing_sums:
  assumes "list_all quiet held"
  shows "sum_list (map (started_in i) (finishing r run held k t)) = 0" "sum_list (map (called_in i) (finishing r run held k t)) = 0"
    "fold run_after (finishing r run held k t) p = (RunIdle, '''')"
proof -
  have z: "started_in i (ch_state x) = 0" "called_in i (ch_state x) = 0" for x by (simp_all add: started_in_def called_in_def)
  have ra: "run_after (ch_state \<lparr>rsc_RunID = ar_id run, rsc_State = RunIdle\<rparr>) p = (RunIdle, '''')" for p by (simp add: run_after_def)
  show "sum_list (map (started_in i) (finishing r run held k t)) = 0" "sum_list (map (called_in i) (finishing r run held k t)) = 0"
    "fold run_after (finishing r run held k t) p = (RunIdle, '''')"
    unfolding finishing_def using quiet_sums [OF assms]
    by (simp_all only: append.simps map_append sum_list_append sum_list.Cons sum_list.Nil list.map fold_append fold.simps z ra quiet_in quiet_changes comp_apply id_apply add_0)
qed

lemma finishRun_cases:
  assumes ok: "rt_ok fpt r0 r" and run: "rt_active r = Some run" "ar_id run = i" and env: "env_ok fpt env"
    and fin: "finishRun env i o0 t0 r = (nx, r')" and seq: "rt_sequence r' < 2 ^ 64"
  obtains (failed) r3 where "nx = None" "drifts r r3" "r' = recoverAfterRunFailureLocked env run r3"
  | (idle) r3 held k t where "nx = None" "list_all quiet held" "k \<noteq> RunStarted" "committed fpt (r\<lparr>rt_revision := snap_Revision (durable r)\<rparr>) (finishing r run held k t) r3"
      "r' = r3\<lparr>rt_active := None, rt_state := runtimeIdle\<rparr>" "list_all (\<lambda>c. chg_Kind c = ReclassifyQueue) held"
  | (continued) r2 r3 held k t item run' step start where "nx = Some (run', step)" "list_all quiet held" "k \<noteq> RunStarted"
      "startChangesLocked (durable r) item False (r\<lparr>rt_revision := snap_Revision (durable r)\<rparr>) = ((run', step, start), r2)"
      "committed fpt r2 (finishing r run held k t @ start) r3" "rt_sequence r2 + 1 < 2 ^ 64" "r' = activateLocked run' r3" "\<not> ar_cancelRequested run" "\<not> rt_closing r"
proof -
  define canceled where "canceled \<longleftrightarrow> ar_cancelRequested run \<or> rt_closing r"
  define o1 where "o1 = (if canceled then stepCanceled else o0)"
  define t1 where "t1 = (if canceled then Some canceledRunTermination else t0)"
  define k where "k = terminalKind o1 t1"
  define held where "held = (if o1 = stepNatural then [] else map (\<lambda>item. ch_reclassify \<lparr>qr_MessageID = msg_ID (qi_Message item), qr_Delivery = DeliveryHeld\<rparr>)
                   (pendingByDelivery (snap_Queue (durable r)) DeliverySteer))"
  define r1 where "r1 = r\<lparr>rt_revision := snap_Revision (durable r)\<rparr>"
  define cs where "cs = finishing r run held k (finalTermination k t1)"
  have owns: "owns r i" using run by (simp add: owns_def)
  have d1: "drifts r r1" by (simp add: r1_def drifts_def)
  have q: "list_all quiet held" "list_all (\<lambda>c. chg_Kind c = ReclassifyQueue) held" by (auto simp: held_def list_all_iff)
  define commit where "commit more r2 = commitLockedAs env CtxLive (snap_Revision (durable r)) ''run-finish'' (finishActor k run (durable r)) (cs @ more) r2" for more r2
  define settle :: "(activeRun \<times> StepID) option \<Rightarrow> Change list \<Rightarrow> runtimeInstance \<Rightarrow> (activeRun \<times> StepID) option \<times> runtimeInstance"
    where "settle nx more r2 = (case commit more r2 of (Inl e, r3) \<Rightarrow> (None, recoverAfterRunFailureLocked env run r3)
      | (Inr c, r3) \<Rightarrow> (case nx of Some (run', step) \<Rightarrow> (nx, activateLocked run' r3) | None \<Rightarrow> (None, r3\<lparr>rt_active := None, rt_state := runtimeIdle\<rparr>)))" for nx more r2
  have f: "finishRun env i o0 t0 r = (if o1 = stepNatural \<and> \<not> rt_closing r then (case firstPending (snap_Queue (durable r)) DeliveryNormal of
         Some item \<Rightarrow> let ((run', step, start), r2) = startChangesLocked (durable r) item False r1 in settle (Some (run', step)) start r2
       | None \<Rightarrow> settle None [] r1) else settle None [] r1)"
    unfolding finishRun_def settle_def commit_def cs_def finishing_def held_def k_def t1_def o1_def canceled_def r1_def activate_order [symmetric]
    using owns run viewLocked_live [OF ok] by (simp add: Let_def split: option.split prod.split)
  have settled: thesis if s: "settle n more r2 = (nx, r')" and d2: "drifts r r2"
    and go: "\<And>c r3. commit more r2 = (Inr c, r3) \<Longrightarrow> committed fpt r2 (cs @ more) r3 \<Longrightarrow> rt_sequence r2 + 1 < 2 ^ 64 \<Longrightarrow> thesis" for n more r2
  proof -
    obtain y r3 where y: "commit more r2 = (y, r3)" by fastforce
    have seq3: "rt_sequence r3 = rt_sequence r2 + 1" using y by (auto simp: commit_def dest: commit_sequence)
    have "rt_sequence r3 = rt_sequence r'" using s y by (auto simp: settle_def recoverAfterRunFailureLocked_def Let_def split: sum.splits option.splits prod.splits if_splits)
    then have b: "rt_sequence r2 + 1 < 2 ^ 64" using seq seq3 by simp
    from y [unfolded commit_def] drifts_ok [OF d2 ok] env b show ?thesis
    proof (cases rule: commit_effect)
      case (refused e)
      then show ?thesis using failed [of r3] s y d2 drifts_trans by (auto simp: settle_def)
    next
      case (applied c)
      then show ?thesis using go y b by blast
    qed
  qed
  consider (goes) item run' step start r2 where "o1 = stepNatural" "\<not> rt_closing r" "startChangesLocked (durable r) item False r1 = ((run', step, start), r2)" "settle (Some (run', step)) start r2 = (nx, r')"
    | (none) "settle None [] r1 = (nx, r')"
    using fin unfolding f by (auto simp: Let_def split: if_splits option.splits prod.splits)
  then show thesis
  proof cases
    case goes
    note P = startChangesLocked_parts [OF goes(3)]
    have c: "\<not> ar_cancelRequested run" using goes(1) by (auto simp: o1_def canceled_def)
    show thesis
    proof (rule settled [OF goes(4)])
      show "drifts r r2" using d1 P(1) drifts_trans by blast
      fix c2 r3 assume "commit start r2 = (Inr c2, r3)" "committed fpt r2 (cs @ start) r3" "rt_sequence r2 + 1 < 2 ^ 64"
      then show thesis using continued [OF _ q(1) _ goes(3) [unfolded r1_def], of k "finalTermination k t1" r3] goes(2,4) c by (simp add: settle_def cs_def k_def)
    qed
  next
    case none
    show thesis
    proof (rule settled [OF none d1])
      fix c r3 assume "commit [] r1 = (Inr c, r3)" "committed fpt r1 (cs @ []) r3"
      then show thesis using idle [OF _ q(1), of k "finalTermination k t1" r3] none q(2) by (simp add: settle_def cs_def k_def r1_def)
    qed
  qed
qed

end
