(* ===== verification/Runtime_Gates.thy ===== *)
theory Runtime_Gates
  imports Runtime_Counted
begin

text \<open>
  Input that was accepted by the input gates (\<^verbatim>\<open>standardagent/runtime_input_gate.go\<close>,
  \<^verbatim>\<open>runtime_input_gate_context.go\<close>): the locked sections that turn an accepted occurrence into queued input, an
  edit or a new Run, or discard it when the Session moved on while the gates ran. \<^verbatim>\<open>context.WithoutCancel\<close> is
  the live context, and \<open>inputDigest\<close> is \<^verbatim>\<open>hook.FingerprintTypedInput\<close>. The \<^verbatim>\<open>InputGateError\<close> around a conflict,
  which adds diagnostics for the caller, is left out.
\<close>

section \<open>The occurrence\<close>

text \<open>The evaluated views of the gates play no part after the evaluation.\<close>

record inputGateOccurrence =
  oc_message :: Message
  oc_input :: MessageInput
  oc_previousInputDigest :: string
  oc_originalRunID :: RunID
  oc_originalDelivery :: Delivery
  oc_actor :: ActorIdentity
  oc_entries :: "ExtensionJournalEntry list"

definition applied_entry :: "ExtensionJournalEntry \<Rightarrow> ExtensionJournalEntry" where
  "applied_entry e = e\<lparr>xj_EffectDisposition := EffectApplied\<rparr>"

definition dropped_context :: "ExtensionJournalEntry \<Rightarrow> ExtensionJournalEntry" where
  "dropped_context e = e\<lparr>xj_ContextDisposition := ContextDiscarded, xj_ContextInputs := []\<rparr>"

definition finalizeAcceptedInputEntries :: "inputGateOccurrence \<Rightarrow> Change list" where
  "finalizeAcceptedInputEntries oc = map (\<lambda>e. ch_extension (applied_entry e)) (oc_entries oc)"

definition consumeAcceptedInputEntries :: "inputGateOccurrence \<Rightarrow> RunID \<Rightarrow> StepID \<Rightarrow> Change list" where
  "consumeAcceptedInputEntries oc runID stepID = concat (map (\<lambda>e.
     if xj_ContextDisposition e = ContextPending then
       [ch_context \<lparr>ctr_RunID = runID, ctr_StepID = stepID, ctr_SourceKey = contextSource e, ctr_Inputs = xj_ContextInputs e\<rparr>,
        ch_extension (consumed (applied_entry e))]
     else [ch_extension (applied_entry e)]) (oc_entries oc))"

definition discardAcceptedInputEntries :: "inputGateOccurrence \<Rightarrow> Change list" where
  "discardAcceptedInputEntries oc = map
     (\<lambda>e. let e1 = e\<lparr>xj_EffectDisposition := EffectDiscarded\<rparr> in
        ch_extension (if xj_ContextDisposition e = ContextPending then dropped_context e1 else e1))
     (filter (\<lambda>e. xj_EffectDisposition e = EffectPending) (oc_entries oc))"

definition discardOlderInputContexts :: "Snapshot \<Rightarrow> inputGateOccurrence \<Rightarrow> Change list" where
  "discardOlderInputContexts s oc = map (\<lambda>e. ch_extension (dropped_context e))
     (filter (\<lambda>e. xj_Boundary e = BoundaryInputGate \<and> xj_MessageID e = msg_ID (oc_message oc) \<and> xj_ContextDisposition e = ContextPending \<and>
        xj_InvocationID e \<notin> xj_InvocationID ` set (oc_entries oc)) (snap_ExtensionJournal s))"

section \<open>The locked sections\<close>

definition gateConflict :: "Revision \<Rightarrow> rtError \<Rightarrow> rtError" where
  "gateConflict revision cause = (case cause of RtError e \<Rightarrow> RtRevisionConflict revision e | _ \<Rightarrow> cause)"

definition discardAcceptedInputLocked :: "Env \<Rightarrow> inputGateOccurrence \<Rightarrow> rtError \<Rightarrow> 'a rt" where
  "discardAcceptedInputLocked env oc cause r =
     (case viewLocked CtxLive r of
        (Inl _, r1) \<Rightarrow> (Inl cause, r1)
      | (Inr s, r1) \<Rightarrow>
          let changes = discardAcceptedInputEntries oc in
          if changes = [] then (Inl (gateConflict (snap_Revision s) cause), r1)
          else bindR (commitLockedAs env CtxLive (snap_Revision s) ''input-gate-discard'' (oc_actor oc) changes)
            (\<lambda>c. failR (gateConflict (com_Revision c) cause)) r1)"

definition finalizeAcceptedSend :: "Env \<Rightarrow> inputGateOccurrence \<Rightarrow> sent rt" where
  "finalizeAcceptedSend env oc r =
     (case ensureOpenLocked ''gateway.send'' r of
        Some e \<Rightarrow> discardAcceptedInputLocked env oc e r
      | None \<Rightarrow> bindR (viewLocked CtxLive) (\<lambda>s r1.
          let item = \<lparr>qi_Message = oc_message oc, qi_Delivery = DeliveryNormal, qi_ClaimedBy = ''''\<rparr> in
          if rt_state r1 = runtimeRunning then
            bindR (commitLockedAs env CtxLive (snap_Revision s) ''input-gate-send'' (oc_actor oc) (ch_enqueue item # finalizeAcceptedInputEntries oc))
              (\<lambda>c. returnR (Enqueued (msg_ID (oc_message oc)) (com_Revision c))) r1
          else let ((run, step, changes), r2) = startChangesLocked s item True r1 in
            bindR (commitLockedAs env CtxLive (snap_Revision s) ''input-gate-send-start'' (oc_actor oc)
                (changes @ consumeAcceptedInputEntries oc (ar_id run) step))
              (\<lambda>_ r3. (Inr (RunStartedFor (msg_ID (oc_message oc)) (ar_id run) step), activateLocked run r3)) r2) r)"

definition finalizeAcceptedSteer :: "Env \<Rightarrow> inputGateOccurrence \<Rightarrow> sent rt" where
  "finalizeAcceptedSteer env oc r =
     (case ensureOpenLocked ''gateway.steer'' r of
        Some e \<Rightarrow> discardAcceptedInputLocked env oc e r
      | None \<Rightarrow> bindR (viewLocked CtxLive) (\<lambda>s r1.
          if rt_state r1 \<noteq> runtimeRunning \<or> (case rt_active r1 of None \<Rightarrow> True | Some a \<Rightarrow> ar_id a \<noteq> oc_originalRunID oc) then
            discardAcceptedInputLocked env oc (RtError (NewCodedError ErrorConflict CodeNoActiveRun ''gateway.steer''
              ''the active Run changed while input gates executed'')) r1
          else bindR (commitLockedAs env CtxLive (snap_Revision s) ''input-gate-steer'' (oc_actor oc)
              (ch_enqueue \<lparr>qi_Message = oc_message oc, qi_Delivery = DeliverySteer, qi_ClaimedBy = ''''\<rparr> # finalizeAcceptedInputEntries oc))
            (\<lambda>c. returnR (Enqueued (msg_ID (oc_message oc)) (com_Revision c))) r1) r)"

definition finalizeAcceptedEdit :: "(MessageInput \<Rightarrow> string option) \<Rightarrow> Env \<Rightarrow> inputGateOccurrence \<Rightarrow> Revision rt" where
  "finalizeAcceptedEdit inputDigest env oc r =
     (case ensureOpenLocked ''gateway.edit_queued'' r of
        Some e \<Rightarrow> discardAcceptedInputLocked env oc e r
      | None \<Rightarrow> bindR (viewLocked CtxLive) (\<lambda>s r1.
          case queueByID (snap_Queue s) (msg_ID (oc_message oc)) of
            None \<Rightarrow> discardAcceptedInputLocked env oc (RtError (NewCodedError ErrorConflict CodeQueueItemClaimed ''gateway.edit_queued''
              ''queued input changed while input gates executed'')) r1
          | Some item \<Rightarrow>
              if Claimed item then
                discardAcceptedInputLocked env oc (RtError (NewCodedError ErrorConflict CodeQueueItemClaimed ''gateway.edit_queued''
                  ''queued input changed while input gates executed'')) r1
              else if inputDigest \<lparr>input_Parts = msg_Parts (qi_Message item)\<rparr> \<noteq> Some (oc_previousInputDigest oc) \<or> qi_Delivery item \<noteq> oc_originalDelivery oc then
                discardAcceptedInputLocked env oc (RtError (NewCodedError ErrorConflict CodeRevisionConflict ''gateway.edit_queued''
                  ''queued input changed while input gates executed'')) r1
              else bindR (commitLockedAs env CtxLive (snap_Revision s) ''input-gate-edit'' (oc_actor oc)
                  (ch_edit \<lparr>qe_MessageID = msg_ID (oc_message oc), qe_Input = oc_input oc, qe_Delivery = qi_Delivery item\<rparr> #
                   discardOlderInputContexts s oc @ finalizeAcceptedInputEntries oc))
                (\<lambda>c. returnR (com_Revision c)) r1) r)"

section \<open>They keep the invariant\<close>

lemma quiet_gate_lists [simp]:
  "list_all quiet (finalizeAcceptedInputEntries oc)" "list_all quiet (discardAcceptedInputEntries oc)"
  "list_all quiet (discardOlderInputContexts s oc)" "list_all quiet (consumeAcceptedInputEntries oc i p)"
  by (auto simp: list_all_iff finalizeAcceptedInputEntries_def discardAcceptedInputEntries_def discardOlderInputContexts_def
      consumeAcceptedInputEntries_def Let_def)

lemma safe_discardAcceptedInput [safe_intros]:
  assumes "env_ok fpt env"
  shows "safe fpt r0 (discardAcceptedInputLocked env oc cause)"
proof (rule safeI)
  fix r
  obtain v r1 where v: "viewLocked CtxLive r = (v, r1)" by fastforce
  have k: "kept fpt r0 r r1" using safeD [OF safe_viewLocked, of fpt r0 r CtxLive] v by simp
  have "kept fpt r0 r1 (snd (bindR (commitLockedAs env CtxLive w ''input-gate-discard'' (oc_actor oc) (discardAcceptedInputEntries oc))
      (\<lambda>c. failR (gateConflict (com_Revision c) cause)) r1))" for w
    using assms by (auto intro!: kept_parts safe_intros)
  then have "kept fpt r0 r (snd (bindR (commitLockedAs env CtxLive w ''input-gate-discard'' (oc_actor oc) (discardAcceptedInputEntries oc))
      (\<lambda>c. failR (gateConflict (com_Revision c) cause)) r1))" for w by (rule kept_trans [OF k])
  then show "kept fpt r0 r (snd (discardAcceptedInputLocked env oc cause r))"
    using k by (auto simp: discardAcceptedInputLocked_def v Let_def split: sum.split)
qed

lemma kept_finalizeAcceptedSend:
  assumes "env_ok fpt env"
  shows "kept fpt r0 r (snd (finalizeAcceptedSend env oc r))"
proof -
  let ?item = "\<lparr>qi_Message = oc_message oc, qi_Delivery = DeliveryNormal, qi_ClaimedBy = ''''\<rparr>"
  have "safe fpt r0 (\<lambda>r1. if rt_state r1 = runtimeRunning then
            bindR (commitLockedAs env CtxLive (snap_Revision s) ''input-gate-send'' (oc_actor oc) (ch_enqueue ?item # finalizeAcceptedInputEntries oc))
              (\<lambda>c. returnR (Enqueued (msg_ID (oc_message oc)) (com_Revision c))) r1
          else let ((run, step, changes), r2) = startChangesLocked s ?item True r1 in
            bindR (commitLockedAs env CtxLive (snap_Revision s) ''input-gate-send-start'' (oc_actor oc)
                (changes @ consumeAcceptedInputEntries oc (ar_id run) step))
              (\<lambda>_ r3. (Inr (RunStartedFor (msg_ID (oc_message oc)) (ar_id run) step), activateLocked run r3)) r2)" (is "safe fpt r0 ?m") for s
  proof (rule safeI)
    fix r1
    obtain run step cs r2 where st: "startChangesLocked s ?item True r1 = ((run, step, cs), r2)" by (metis prod_cases3 surj_pair)
    let ?cs = "cs @ consumeAcceptedInputEntries oc (ar_id run) step"
    obtain y r3 where y: "commitLockedAs env CtxLive (snap_Revision s) ''input-gate-send-start'' (oc_actor oc) ?cs r2 = (y, r3)" by fastforce
    have start: "kept fpt r0 r1 (case y of Inl e \<Rightarrow> r3 | Inr _ \<Rightarrow> activateLocked run r3)"
    proof (rule commit_counting [OF startChangesLocked_parts(1) [OF st] y assms])
      assume "rt_ok fpt r0 r1" "committed fpt r2 ?cs r3" "rt_sequence r2 + 1 < 2 ^ 64"
      then show "rt_ok fpt r0 (activateLocked run r3)"
        using start_with_ok [OF st, of fpt r0 "[]" "consumeAcceptedInputEntries oc (ar_id run) step" r3] by simp
    qed (simp add: activateLocked_def)
    show "kept fpt r0 r1 (snd (?m r1))"
    proof (cases "rt_state r1 = runtimeRunning")
      case True then show ?thesis using assms by (auto intro!: kept_parts safe_intros)
    next
      case False then show ?thesis using start st y by (cases y) (simp_all add: bindR_def)
    qed
  qed
  then show ?thesis using safeD [OF safe_discardAcceptedInput [OF assms]]
    by (auto simp: finalizeAcceptedSend_def Let_def intro!: kept_parts safe_intros split: option.split)
qed

lemma kept_finalizeAcceptedSteer:
  assumes "env_ok fpt env"
  shows "kept fpt r0 r (snd (finalizeAcceptedSteer env oc r))"
proof -
  have "safe fpt r0 (\<lambda>r1.
          if rt_state r1 \<noteq> runtimeRunning \<or> (case rt_active r1 of None \<Rightarrow> True | Some a \<Rightarrow> ar_id a \<noteq> oc_originalRunID oc) then
            discardAcceptedInputLocked env oc (RtError (NewCodedError ErrorConflict CodeNoActiveRun ''gateway.steer''
              ''the active Run changed while input gates executed'')) r1
          else bindR (commitLockedAs env CtxLive (snap_Revision s) ''input-gate-steer'' (oc_actor oc)
              (ch_enqueue \<lparr>qi_Message = oc_message oc, qi_Delivery = DeliverySteer, qi_ClaimedBy = ''''\<rparr> # finalizeAcceptedInputEntries oc))
            (\<lambda>c. returnR (Enqueued (msg_ID (oc_message oc)) (com_Revision c))) r1)" for s
    using assms safeD [OF safe_discardAcceptedInput [OF assms]] by (intro safeI) (auto intro!: kept_parts safe_intros)
  then show ?thesis using safeD [OF safe_discardAcceptedInput [OF assms]]
    by (auto simp: finalizeAcceptedSteer_def intro!: kept_parts safe_intros split: option.split)
qed

lemma kept_finalizeAcceptedEdit:
  assumes "env_ok fpt env"
  shows "kept fpt r0 r (snd (finalizeAcceptedEdit inputDigest env oc r))"
  using assms safeD [OF safe_discardAcceptedInput [OF assms]]
  by (auto simp: finalizeAcceptedEdit_def intro!: kept_parts safeD [OF safe_commitLockedAs] safe_intros safeI split: option.split)

end
