(* ===== verification/Runtime_Machine.thy ===== *)
theory Runtime_Machine
  imports Runtime_Finish Runtime_Gates
begin

text \<open>
  A Session runtime as a state machine: it opens on a Session of a store, then its operations run in any order,
  interleaved with each other between their locked sections and with operations of the store on other
  Sessions. A runtime with input gates takes the steps of \<^verbatim>\<open>Runtime_Gates\<close> for accepted input in place of the
  direct commands. The parts of the runtime that are not modelled (hooks, the evaluation of gates, context)
  only draw identifiers and commit changes that concern neither the Run nor its attempts and calls; they are
  one step for any such commit.
\<close>

section \<open>Opening\<close>

text \<open>
  The end of \<^verbatim>\<open>finishOpen\<close>: \<open>plan\<close> is the plan made from the Session at the start, \<open>s\<close> the Session after the
  lifecycle hooks and the recovery of the other extensions.
\<close>

definition finishOpen :: "extensionRecoveryPlan \<Rightarrow> Snapshot \<Rightarrow> restored rt" where
  "finishOpen plan s r = (case restorePreparedRun s plan r of
      (Inl e, r') \<Rightarrow> (Inl e, r')
    | (Inr x, r') \<Rightarrow> (Inr x, if rt_state r' = runtimeOpening then r'\<lparr>rt_state := runtimeIdle\<rparr> else r'))"

inductive rt_step :: "typed_fingerprint \<Rightarrow> runtimeInstance \<Rightarrow> runtimeInstance \<Rightarrow> bool" for fpt :: typed_fingerprint where
  opens: "rt_state r = runtimeOpening \<Longrightarrow> rt_active r = None \<Longrightarrow> rt_step fpt r (snd (bindR (viewLocked CtxLive) (finishOpen plan) r))"
| admits: "env_ok fpt env \<Longrightarrow> rt_step fpt r (snd (Started_admit env i step a r))"
| starts: "env_ok fpt env \<Longrightarrow> rt_step fpt r (snd (Started_commit env i step a r))"
| finishes: "env_ok fpt env \<Longrightarrow> rt_step fpt r (snd (Finished_commit env i step f r))"
| budgets: "env_ok fpt env \<Longrightarrow> rt_step fpt r (snd (recordBudgetExceeded env i r))"
| completes: "env_ok fpt env \<Longrightarrow> rt_step fpt r (snd (commitCompletion env now i step m output r))"
| executes: "env_ok fpt env \<Longrightarrow> rt_step fpt r (snd (markToolExecuting env i call r))"
| answers: "env_ok fpt env \<Longrightarrow> rt_step fpt r (snd (commitToolResults_locked env now i calls results r))"
| follows: "env_ok fpt env \<Longrightarrow> rt_step fpt r (snd (followOn env now i proposals r))"
| ends: "env_ok fpt env \<Longrightarrow> rt_step fpt r (snd (finishRun env i o0 t r))"
| sends: "env_ok fpt env \<Longrightarrow> rt_step fpt r (snd (send env ctx now q r))"
| steers: "env_ok fpt env \<Longrightarrow> rt_step fpt r (snd (steer env ctx now q r))"
| gate_sends: "env_ok fpt env \<Longrightarrow> rt_step fpt r (snd (finalizeAcceptedSend env oc r))"
| gate_steers: "env_ok fpt env \<Longrightarrow> rt_step fpt r (snd (finalizeAcceptedSteer env oc r))"
| gate_edits: "env_ok fpt env \<Longrightarrow> rt_step fpt r (snd (finalizeAcceptedEdit inputDigest env oc r))"
| runs_pending: "env_ok fpt env \<Longrightarrow> rt_step fpt r (snd (pending env ctx c r))"
| cancels: "rt_step fpt r (snd (cancel ctx c r))"
| edits: "env_ok fpt env \<Longrightarrow> rt_step fpt r (snd (editQueued env ctx e r))"
| deletes: "env_ok fpt env \<Longrightarrow> rt_step fpt r (snd (deleteQueued env ctx g d r))"
| reclassifies: "env_ok fpt env \<Longrightarrow> rt_step fpt r (snd (reclassifyQueued env ctx d r))"
| configures: "env_ok fpt env \<Longrightarrow> rt_step fpt r (snd (updateModelConfig_locked env ctx u cap r))"
| closes: "rt_step fpt r (startCloseLocked r)"
| closed: "rt_active r = None \<Longrightarrow> rt_step fpt r (finishClose_locked r)"
| draws: "rt_step fpt r (snd (rt_nextID kind r))"
| commits: "env_ok fpt env \<Longrightarrow> list_all quiet changes \<Longrightarrow> rt_step fpt r (snd (commitLockedAs env ctx v op actor changes r))"
| others: "store_step fpt (rt_store r) st \<Longrightarrow> aggregate_of st (rt_id r) = aggregate_of (rt_store r) (rt_id r) \<Longrightarrow> rt_step fpt r (r\<lparr>rt_store := st\<rparr>)"

text \<open>A runtime that has just been created on a Session of a reachable store, with a prefix that is not in use.\<close>

definition created :: "typed_fingerprint \<Rightarrow> runtimeInstance \<Rightarrow> bool" where
  "created fpt r \<longleftrightarrow> reachable fpt (rt_store r) \<and> aggregate_of (rt_store r) (rt_id r) \<noteq> None \<and> rt_state r = runtimeOpening \<and> rt_active r = None \<and> unused r"

section \<open>Every step keeps the invariant\<close>

lemma finishRun_sequence: "rt_sequence r \<le> rt_sequence (snd (finishRun env i o0 t0 r))"
proof -
  have rec: "rt_sequence (recoverAfterRunFailureLocked env run r1) = rt_sequence r1" for run r1
    by (simp add: recoverAfterRunFailureLocked_def Let_def split: prod.split sum.split)
  have start: "rt_sequence r1 \<le> rt_sequence (snd (startChangesLocked s item e r1))" for s item e r1
    by (simp add: startChangesLocked_def rt_nextID_def Let_def)
  obtain v r1 where v: "viewLocked CtxLive r = (v, r1)" by fastforce
  have 1: "rt_sequence r = rt_sequence r1" using v by (auto simp: viewLocked_def split: sum.splits)
  show ?thesis
    unfolding finishRun_def v Let_def
    by (auto simp: rec 1 split: sum.split prod.split option.split dest!: commit_sequence)
      (metis start snd_conv le_SucI)+
qed

lemma kept_finishRun:
  assumes "env_ok fpt env"
  shows "kept fpt r0 r (snd (finishRun env i o0 t0 r))"
proof (cases "owns r i")
  case False
  then show ?thesis by (simp add: finishRun_def kept_refl)
next
  case True
  then obtain run where run: "rt_active r = Some run" "ar_id run = i" using owns_run by blast
  obtain nx r' where fin: "finishRun env i o0 t0 r = (nx, r')" by fastforce
  have "rt_ok fpt r0 r'" if ok: "rt_ok fpt r0 r" and seq: "rt_sequence r' < 2 ^ 64"
    using ok run assms fin seq
  proof (cases rule: finishRun_cases)
    case (failed r3)
    then show ?thesis using recoverAfterRunFailure_ok [OF drifts_ok [OF failed(2) ok] assms] by simp
  next
    case (idle r3 held k t)
    let ?r1 = "r\<lparr>rt_revision := snap_Revision (durable r)\<rparr>"
    have d: "drifts r ?r1" by (simp add: drifts_def)
    note F = finishing_sums [OF idle(2)]
    have n: "run_of (durable r3) = (RunIdle, '''')" "\<And>i. runAttempts i (facts r3) = runAttempts i (facts r)" "\<And>i. runToolCalls i (facts r3) = runToolCalls i (facts r)"
      using idle(4) F drifts_view(2) [OF d] by (simp_all add: committed_def)
    have view: "stored r' = stored r3" "durable r' = durable r3" "rt_active r' = None" "rt_state r' = runtimeIdle" "rt_components r' = rt_components r3"
      using idle(5) by (simp_all add: stored_def durable_def)
    show ?thesis
    proof (rule committed_ok [OF idle(4) drifts_ok [OF d ok]])
      show "agrees r'" using n by (simp add: agrees_def view)
      show "limited r0 r'" using ok n committed_frame(3) [OF idle(4)] by (simp add: rt_ok_def limited_def view)
    qed (use F in \<open>simp_all add: stored_def idle(5)\<close>)
  next
    case (continued r2 r3 held k t item run' step start)
    have "rt_ok fpt r0 (r\<lparr>rt_revision := snap_Revision (durable r)\<rparr>)" by (rule drifts_ok [OF _ ok]) (simp add: drifts_def)
    then show ?thesis unfolding continued(7)
      by (rule start_ok [OF continued(4) _ continued(5,6)]) (use finishing_sums [OF continued(2)] in simp)
  qed
  then show ?thesis using finishRun_sequence [of r env i o0 t0] fin by (simp add: kept_def)
qed

lemma kept_open:
  assumes "rt_state r = runtimeOpening" "rt_active r = None"
  shows "kept fpt r0 r (snd (bindR (viewLocked CtxLive) (finishOpen plan) r))" (is "kept fpt r0 r ?r'")
proof -
  have seq: "rt_sequence ?r' = rt_sequence r"
    by (auto simp: bindR_def viewLocked_def finishOpen_def restorePreparedRun_def activateLocked_def Let_def split: sum.split option.split prod.split)
  have "rt_ok fpt r0 ?r'" if ok: "rt_ok fpt r0 r"
  proof -
    let ?r1 = "r\<lparr>rt_revision := snap_Revision (durable r)\<rparr>" and ?s = "durable r"
    have ok1: "rt_ok fpt r0 ?r1" by (rule drifts_ok [OF _ ok]) (simp add: drifts_def)
    have r': "?r' = snd (finishOpen plan ?s ?r1)" using viewLocked_live [OF ok] by (simp add: bindR_def)
    have d: "durable ?r1 = ?s" by (simp add: durable_def stored_def)
    have run: "run_ok ?s" using rt_ok_aggregate(2) [OF ok] by (simp add: aggregate_ok_def working_ok_def)
    have idle: "rt_ok fpt r0 (?r1\<lparr>rt_state := runtimeIdle\<rparr>)" if "snap_RunState ?s \<noteq> RunRunning"
      using ok1 run that assms(2) d by (auto simp: rt_ok_def rt_fixed_def stored_in_def stored_def durable_def unused_def undrawn_def agrees_def limited_def run_ok_def)
    have act: "rt_ok fpt r0 (activateLocked run ?r1)" if "snap_RunState ?s = RunRunning" "ar_id run = snap_ActiveRunID ?s" "ar_modelAttempts run = int (runAttempts (ar_id run) (snap_History ?s))"
      "ar_toolCalls run = int (runToolCalls (ar_id run) (snap_History ?s))" "ar_usedTokens run = runTokens (ar_id run) (snap_History ?s)" for run
      using ok1 that d unfolding rt_ok_def rt_fixed_def stored_in_def unused_def undrawn_def limited_def by (auto simp: agrees_def)
    show ?thesis unfolding r' using ok1 idle act assms(1)
      by (auto simp: finishOpen_def restorePreparedRun_def Let_def split: option.split)
  qed
  then show ?thesis using seq by (simp add: kept_def)
qed

lemma kept_others:
  assumes "store_step fpt (rt_store r) st" "aggregate_of st (rt_id r) = aggregate_of (rt_store r) (rt_id r)"
  shows "kept fpt r0 r (r\<lparr>rt_store := st\<rparr>)"
proof -
  have s: "stored (r\<lparr>rt_store := st\<rparr>) = stored r" "durable (r\<lparr>rt_store := st\<rparr>) = durable r" using assms(2) by (simp_all add: stored_def durable_def)
  then show ?thesis using assms store_step_ok
    by (auto simp: kept_def rt_ok_def rt_fixed_def stored_in_def s unused_def undrawn_def agrees_def limited_def split: option.splits)
qed

lemmas kept_steps = kept_open kept_others kept_Started_commit kept_Finished_commit kept_commitCompletion kept_finishRun kept_send kept_finalizeAcceptedSend kept_finalizeAcceptedSteer kept_finalizeAcceptedEdit kept_pending kept_cancel kept_startClose kept_finishClose
  safeD [OF safe_Started_admit] safeD [OF safe_recordBudgetExceeded] safeD [OF safe_markToolExecuting] safeD [OF safe_commitToolResults] safeD [OF safe_followOn]
  safeD [OF safe_steer] safeD [OF safe_editQueued] safeD [OF safe_deleteQueued] safeD [OF safe_reclassifyQueued] safeD [OF safe_updateModelConfig] safeD [OF safe_commitLockedAs]

lemma rt_step_kept: "rt_step fpt r r' \<Longrightarrow> kept fpt r0 r r'"
proof (induction rule: rt_step.induct)
  case (draws r kind)
  then show ?case by (intro drifts_kept) (simp add: rt_nextID_def Let_def drifts_def)
qed (auto intro: kept_steps)

lemma created_ok: "created fpt r \<Longrightarrow> rt_ok fpt r r"
  by (auto simp: created_def rt_ok_def rt_fixed_def stored_in_def stored_def agrees_def limited_def within_def dest: reachable_store_ok)

lemma rt_run_ok:
  assumes "(rt_step fpt)\<^sup>*\<^sup>* r0 r" "created fpt r0" "rt_sequence r < 2 ^ 64"
  shows "rt_ok fpt r0 r"
proof -
  from assms(1) have "kept fpt r0 r0 r"
    by (induction rule: rtranclp_induct) (auto intro: kept_refl kept_trans rt_step_kept)
  then show ?thesis using created_ok [OF assms(2)] assms(3) by (simp add: kept_def)
qed

end
