(* ===== verification/Runtime_Guarantees.thy ===== *)
theory Runtime_Guarantees
  imports Runtime_Machine Session_Gaps
begin

text \<open>
  The guarantees of a Session runtime: what it believes about its Run is what the store has, the limits per
  Run hold over the durable History, a Run that ends is durably ended or the runtime fails closed, and what
  happens to a Run that is canceled between the preparation of its tools and their execution.
\<close>

section \<open>Recovery with a prepared tool call\<close>

definition prepared_at :: "RunID \<Rightarrow> nat \<Rightarrow> Snapshot \<Rightarrow> bool" where
  "prepared_at i j s \<longleftrightarrow> jrn_Status (snap_RunJournal s ! j) = JournalPrepared \<and> jrn_RunID (snap_RunJournal s ! j) = i \<and> jrn_ToolCall (snap_RunJournal s ! j) \<noteq> None"

lemma recover_append_journal: "recover_append clock m s f = (r, t) \<Longrightarrow> snap_RunJournal t = snap_RunJournal s \<and> run_of t = run_of s"
  by (auto simp: recover_append_def split: sum.splits dest!: append_payload_Inr(1))

lemma recoverJournalEntry_prepared:
  assumes "recoverJournalEntry clock i (s, p, c) k = (None, s', p', c')" "prepared_at i j s"
  shows "prepared_at i j s' \<and> snap_RunJournal s' ! j = snap_RunJournal s ! j \<and> length (snap_RunJournal s') = length (snap_RunJournal s) \<and> (p \<or> k = j \<longrightarrow> p')"
  using assms unfolding prepared_at_def
  by (cases "k = j") (auto simp: recoverJournalEntry_def Let_def split: option.splits if_splits prod.splits dest!: recover_append_journal)

lemma recoverJournal_prepared:
  "foldS (recoverJournalEntry clock i) (s, p, c) ks = (None, s', p', c') \<Longrightarrow> prepared_at i j s \<Longrightarrow> p \<or> j \<in> set ks \<Longrightarrow>
     p' \<and> snap_RunJournal s' ! j = snap_RunJournal s ! j \<and> length (snap_RunJournal s') = length (snap_RunJournal s)"
proof (induction ks arbitrary: s p c)
  case (Cons k ks)
  obtain x s1 p1 c1 where 1: "recoverJournalEntry clock i (s, p, c) k = (x, s1, p1, c1)" by (metis prod_cases4)
  with Cons.prems(1) have "x = None" by (cases x) simp_all
  note J = recoverJournalEntry_prepared [OF 1 [unfolded this] Cons.prems(2)]
  then show ?case using Cons.IH [of s1 p1 c1] Cons.prems 1 \<open>x = None\<close> by auto
qed simp

lemma terminateAttempt_journal: "terminateAttempt clock h st i = (r, st') \<Longrightarrow> run_of (fst st') = run_of (fst st) \<and> snap_RunJournal (fst st') = snap_RunJournal (fst st)"
  by (auto simp: terminateAttempt_def split: if_splits prod.splits option.splits dest!: recover_append_journal)

lemma recoverJournalEntry_run: "recoverJournalEntry clock run st i = (r, st') \<Longrightarrow> run_of (fst st') = run_of (fst st)"
  by (auto simp: recoverJournalEntry_def Let_def split: option.splits if_splits prod.splits dest!: recover_append_run)

text \<open>A prepared call of the active Run is work to resume: recovery keeps the Run and the call.\<close>

lemma recoverAggregate_prepared:
  assumes "recoverAggregate clock xclock ord s = (Inr c, t)" "j < length (snap_RunJournal s)" "prepared_at (snap_ActiveRunID s) j s"
  shows "run_of t = run_of s \<and> snap_RunJournal s ! j \<in> set (snap_RunJournal t)"
proof -
  let ?s1 = "s\<lparr>snap_ExtensionJournal := recoverExtensions xclock (snap_ExtensionJournal s)\<rparr>" and ?i = "snap_ActiveRunID s"
  let ?c = "\<exists>e \<in> set (snap_ExtensionJournal s). xj_Status e = InvocationPending"
  obtain r2 s2 c2 where l1: "foldS (terminateAttempt clock (snap_History s)) (?s1, ?c) (ord (startedAttempts (snap_History s))) = (r2, s2, c2)"
    by (metis prod_cases3)
  have "run_of (fst (s2, c2)) = run_of (fst (?s1, ?c)) \<and> snap_RunJournal (fst (s2, c2)) = snap_RunJournal (fst (?s1, ?c))"
    by (rule foldS_rel [where R = "\<lambda>x y. run_of (fst y) = run_of (fst x) \<and> snap_RunJournal (fst y) = snap_RunJournal (fst x)", OF _ _ _ l1]) (auto dest: terminateAttempt_journal)
  then have 2: "run_of s2 = run_of s" "snap_RunJournal s2 = snap_RunJournal s" by simp_all
  obtain r3 s3 p c3 where l2: "foldS (recoverJournalEntry clock ?i) (s2, False, c2) [0..<length (snap_RunJournal s2)] = (r3, s3, p, c3)"
    by (metis prod_cases4)
  have "run_of (fst (s3, p, c3)) = run_of (fst (s2, False, c2))"
    by (rule foldS_rel [where R = "\<lambda>x y. run_of (fst y) = run_of (fst x)", OF _ _ _ l2]) (auto dest: recoverJournalEntry_run)
  then have 3: "run_of s3 = run_of s" using 2 by simp
  have fin: "r3 = None" "finishRecovery clock ?i p c3 s3 = (Inr c, t)"
    using assms(1) by (simp_all only: recoverAggregate_def Let_def l1 l2 prod.case) (auto split: option.splits)
  have "prepared_at ?i j s2" using assms(3) 2 by (simp add: prepared_at_def)
  then have "p \<and> snap_RunJournal s3 ! j = snap_RunJournal s2 ! j \<and> length (snap_RunJournal s3) = length (snap_RunJournal s2)"
    by (rule recoverJournal_prepared [OF l2 [unfolded fin(1)]]) (use assms(2) 2 in simp)
  moreover from this have "run_of t = run_of s3 \<and> snap_RunJournal t = snap_RunJournal s3" using fin(2) by (auto simp: finishRecovery_def Let_def)
  ultimately show ?thesis using 2 3 assms(2) by (metis nth_mem)
qed

text \<open>The recovery of a runtime whose active Run has a prepared call: the Run stays, the runtime is closed.\<close>

lemma recoverAfter_prepared:
  assumes ok: "rt_ok fpt r0 r" and env: "env_ok fpt env" and run: "run_of (durable r) = (RunRunning, i)"
    and e: "e \<in> set (snap_RunJournal (durable r))" "jrn_Status e = JournalPrepared" "jrn_RunID e = i" "jrn_ToolCall e \<noteq> None"
  and r': "r' = recoverAfterRunFailureLocked env x r"
  shows "rt_state r' = runtimeClosed \<and> rt_active r' = None \<and> run_of (durable r') = (RunRunning, i) \<and> e \<in> set (snap_RunJournal (durable r'))"
proof -
  note A = rt_ok_aggregate [OF ok]
  obtain y st where y: "Recover env CtxLive (rt_id r) (rt_store r) = (y, st)" by fastforce
  note E = recover_effect [OF y ok env]
  from recoverAggregate_result [OF A(2), of "env_clock env" "env_xclock env" "env_ord env"] env obtain c t where
    t: "recoverAggregate (env_clock env) (env_xclock env) (env_ord env) (durable r) = (Inr c, t)" by (auto simp: env_ok_def)
  obtain j where j: "j < length (snap_RunJournal (durable r))" "snap_RunJournal (durable r) ! j = e" using e(1) by (metis in_set_conv_nth)
  have P: "run_of t = (RunRunning, i)" "e \<in> set (snap_RunJournal t)"
    using recoverAggregate_prepared [OF t j(1)] j(2) e run by (simp_all add: prepared_at_def)
  have w: "with_session CtxLive ''session.recover'' (rt_id r) (rt_store r) Inr = Inr (stored r)" using A by (simp add: with_session_def contextErr_def check_def)
  from y have "durable (r\<lparr>rt_store := st\<rparr>) = t \<or> durable (r\<lparr>rt_store := st\<rparr>) = bump t"
    using A(1) w t [unfolded durable_def] by (cases rule: Recover_cases) (auto simp: durable_def stored_def)
  then have d: "run_of (durable (r\<lparr>rt_store := st\<rparr>)) = (RunRunning, i)" "e \<in> set (snap_RunJournal (durable (r\<lparr>rt_store := st\<rparr>)))" using P by auto
  have "\<not> recoveredRunIsSettled (durable (r\<lparr>rt_store := st\<rparr>)) (rt_id r) run'" for run' using d(1) by (simp add: recoveredRunIsSettled_def)
  then show ?thesis using y E d by (simp add: r' recoverAfterRunFailureLocked_def Let_def durable_def stored_def)
qed

section \<open>Examples\<close>

text \<open>A Session with a Run that has a prepared call and a start fact, and the runtime that opens on it.\<close>

definition demo_started :: HistoryFact where
  "demo_started = stamped (env_clock demo_env) demo_prepared_history ''s1'' (zero_fact\<lparr>fact_Run := Some demo_start\<rparr>) zero_actor"

definition demo_resumable :: Snapshot where
  "demo_resumable = bump (demo_prepared_snapshot\<lparr>snap_History := demo_prepared_history @ [demo_started]\<rparr>)"

definition demo_resumable_receipt :: Commit where
  "demo_resumable_receipt = demo_receipt\<lparr>com_FirstHistorySequence := 3, com_LastHistorySequence := 3\<rparr>"

definition demo_resumable_store :: MemoryStore where
  "demo_resumable_store = \<lparr>ms_sessions = [(''s1'', \<lparr>agg_snapshot = demo_resumable,
       agg_idempotency = [''k2'' \<mapsto> \<lparr>mcm_fingerprint = ''k2x'', mcm_commit = demo_resumable_receipt\<rparr>], agg_updatedAt = 2\<rparr>)],
     ms_list = \<lparr>idx_epoch = ''epoch'', idx_generation = 1, idx_created = [''s1'' \<mapsto> 1], idx_lastUpdatedAt = 2\<rparr>\<rparr>"

lemma demo_prepared_payloads [simp]: "length demo_prepared_history = 2" "demo_prepared_history \<noteq> []" "runs_of demo_prepared_history = []"
  "List.map_filter fact_ModelAttempt demo_prepared_history = []" "calls_of demo_prepared_history = [demo_call]"
  "List.map_filter fact_RunBudgetExceeded demo_prepared_history = []" "List.map_filter fact_RunLimitExceeded demo_prepared_history = []"
  by (simp_all add: demo_prepared_history_def demo_payloads_def Let_def)

lemma demo_started_fields [simp]: "fact_Run demo_started = Some demo_start" "fact_ModelAttempt demo_started = None" "fact_ToolCall demo_started = None"
  "fact_RunBudgetExceeded demo_started = None" "fact_RunLimitExceeded demo_started = None"
  by (simp_all add: demo_started_def)

lemma demo_resumable_commit: "Commit_op demo_env CtxLive demo_run demo_prepared_store = (Inr demo_resumable_receipt, demo_resumable_store)"
proof -
  let ?c = "no_change\<lparr>chg_Kind := AppendRunFact, chg_RunFact := Some demo_start\<rparr>"
  have v: "CommitRequest_Validate demo_fpt demo_run = None"
    using demo_start_valid
    by (simp add: CommitRequest_Validate_def demo_run_def Change_Validate_def payloadCount_def no_change_def Let_def required_def zero_actor_def demo_start_def)
  have t: "validateToolTransactions h [?c] = None" for h
    by (simp add: validateToolTransactions_def toolTransactionCheck_def emptyMessageCheck_def)
  have m: "validateModelConfigTransaction cfg [?c] = None" for cfg
    by (simp add: validateModelConfigTransaction_def)
  have r: "runFactCheck demo_prepared_snapshot demo_start = None"
    by (simp add: runFactCheck_def runFacts_def is_active_def) (simp add: demo_start_def)
  have h: "appendHistoryFact (env_clock demo_env) demo_prepared_history ''s1'' (zero_fact\<lparr>fact_Run := Some demo_start\<rparr>) zero_actor = Inr (demo_prepared_history @ [demo_started])"
    using appendHistoryFact_succeeds [of "''s1''" "zero_fact\<lparr>fact_Run := Some demo_start\<rparr>" "env_clock demo_env" demo_prepared_history zero_actor] demo_start_valid
    by (simp add: demo_started_def)
  have cv: "Change_Validate demo_fpt ?c ''s1'' = None"
    using demo_start_valid by (simp add: Change_Validate_def payloadCount_def no_change_def Let_def required_def demo_start_def)
  have a: "applyChanges demo_fpt (env_clock demo_env) demo_prepared_snapshot demo_run = Inr (demo_prepared_snapshot\<lparr>snap_History := demo_prepared_history @ [demo_started]\<rparr>)"
    using t m r h cv
    by (simp add: applyChanges_def demo_run_def applyChange_def appendRunFact_def append_payload_def finalChecks_def validateQueueClaims_def)
  have e: "env_fpt demo_env = demo_fpt" by (simp add: demo_env_def)
  show ?thesis
    unfolding Commit_op_def e using v a
    by (simp add: contextErr_def demo_prepared_store_def demo_run_def demo_resumable_store_def demo_resumable_def demo_resumable_receipt_def
        demo_receipt_def demo_env_def bump_def nextUpdatedAt_def ensure_def appendedHistoryRange_def put_aggregate_def Let_def)
qed

lemma demo_resumable_reachable: "reachable demo_fpt demo_resumable_store"
  by (rule reachable_step [OF demo_prepared_reachable step_commit [OF demo_env_ok demo_resumable_commit]])

lemma demo_resumable_fields [simp]:
  "snap_RunState demo_resumable = RunRunning" "snap_ActiveRunID demo_resumable = ''r1''" "snap_RunJournal demo_resumable = [demo_entry JournalPrepared]"
  "snap_History demo_resumable = demo_prepared_history @ [demo_started]" "snap_Revision demo_resumable = 2" "snap_ExtensionJournal demo_resumable = []"
  by (simp_all add: demo_resumable_def bump_def)

definition demo_components :: runtimeComponents where
  "demo_components = \<lparr>rc_MaxTokensPerRun = 0, rc_MaxModelAttemptsPerRun = 3, rc_MaxToolCallsPerRun = 3, rc_toolPreflights = [], rc_toolResultHooks = [],
     rc_preflightFingerprint = (\<lambda>_. None), rc_resultFingerprint = (\<lambda>_. None)\<rparr>"

definition demo_runtime :: runtimeInstance where
  "demo_runtime = \<lparr>rt_id = ''s1'', rt_agentID = ''a'', rt_workspaceID = ''w'', rt_prefix = ''x'', rt_sequence = 0, rt_state = runtimeOpening, rt_closing = False,
     rt_active = None, rt_revision = 0, rt_components = demo_components, rt_store = demo_resumable_store\<rparr>"

definition demo_restored :: runtimeInstance where
  "demo_restored = demo_runtime\<lparr>rt_state := runtimeRunning, rt_revision := 2, rt_active := Some \<lparr>ar_id = ''r1'', ar_config = demo_config, ar_configRevision = 1,
     ar_cancelRequested = False, ar_usedTokens = 0, ar_modelAttempts = 0, ar_toolCalls = 1, ar_controlActor = zero_actor\<rparr>\<rparr>"

lemma demo_durable: "durable demo_runtime = demo_resumable" "aggregate_of demo_resumable_store ''s1'' = Some (stored demo_runtime)"
  "agg_idempotency (stored demo_runtime) = [''k2'' \<mapsto> \<lparr>mcm_fingerprint = ''k2x'', mcm_commit = demo_resumable_receipt\<rparr>]"
  by (simp_all add: durable_def stored_def demo_runtime_def demo_resumable_store_def)

lemma demo_created: "created demo_fpt demo_runtime"
proof -
  have "unused demo_runtime"
    by (simp add: unused_def demo_durable commitKey_def idText_def runAttempts_def runToolCalls_def demo_call_def)
  then show ?thesis using demo_resumable_reachable demo_durable(2) by (simp add: created_def demo_runtime_def)
qed

lemma demo_terminations: "persistedTermination ''r1'' (demo_prepared_history @ [demo_started]) = None"
  by (simp add: persistedTermination_def demo_prepared_history_def demo_payloads_def Let_def)

lemma demo_restores: "rt_step demo_fpt demo_runtime demo_restored"
proof -
  have v: "viewLocked CtxLive demo_runtime = (Inr demo_resumable, demo_runtime\<lparr>rt_revision := 2\<rparr>)"
    by (simp add: viewLocked_def Load_def with_session_def contextErr_def check_def demo_runtime_def demo_resumable_store_def)
  have c: "preparedCalls demo_resumable = [(''st1'', demo_call)]" by (simp add: preparedCalls_def demo_entry_def)
  have r: "finishOpen (planExtensionRecovery demo_resumable) demo_resumable (demo_runtime\<lparr>rt_revision := 2\<rparr>) = (Inr (ResumeTools ''st1'' [demo_call]), demo_restored)"
    using demo_terminations
    by (simp add: finishOpen_def restorePreparedRun_def c planExtensionRecovery_def unsettledCompletionEntries_def Let_def activateLocked_def demo_restored_def runTokens_def runAttempts_def runToolCalls_def)
      (simp add: demo_start_def demo_call_def demo_runtime_def)
  show ?thesis using rt_step.opens [of demo_runtime demo_fpt "planExtensionRecovery demo_resumable"] v r by (simp add: demo_runtime_def bindR_def)
qed

lemma demo_restored_run: "(rt_step demo_fpt)\<^sup>*\<^sup>* demo_runtime demo_restored"
  using demo_restores by (rule r_into_rtranclp)

lemma demo_restored_fields [simp]: "rt_sequence demo_restored = 0" "rt_components demo_restored = demo_components" "rt_id demo_restored = ''s1''" "rt_closing demo_restored = False"
  "durable demo_restored = demo_resumable" "ar_id (the (rt_active demo_restored)) = ''r1''" "rt_active demo_restored \<noteq> None" "ar_toolCalls (the (rt_active demo_restored)) = 1"
  using demo_durable(1) by (simp_all add: demo_restored_def demo_runtime_def durable_def stored_def)

section \<open>The end of a Run\<close>

lemma rt_ok_history: "rt_ok fpt r0 r \<Longrightarrow> history_ok (facts r)"
  using rt_ok_aggregate(2) by (auto simp: aggregate_ok_def working_ok_def)

lemma rt_ok_terminal:
  assumes "rt_ok fpt r0 r" "f \<in> set (runs_of (facts r))" "run_RunID f = i" "run_Kind f \<noteq> RunStarted"
  shows "\<exists>!f. f \<in> set (runs_of (facts r)) \<and> run_RunID f = i \<and> run_Kind f \<noteq> RunStarted"
proof -
  have "distinct (map run_RunID (filter (\<lambda>f. run_Kind f \<noteq> RunStarted) (runs_of (facts r))))"
    using history_ok_unique [OF rt_ok_history [OF assms(1)]] by (simp add: unique_identities_def)
  then have "inj_on run_RunID (set (filter (\<lambda>f. run_Kind f \<noteq> RunStarted) (runs_of (facts r))))" by (simp add: distinct_map)
  then show ?thesis using assms(2-4) by (auto simp: inj_on_def)
qed

lemma recoverAfter_settled:
  assumes "rt_ok fpt r0 r" "env_ok fpt env" and r': "r' = recoverAfterRunFailureLocked env run r"
  shows "rt_active r' = None \<and> (rt_state r' = runtimeClosed \<and> rt_closing r' \<or> rt_state r' = runtimeIdle \<and> snap_RunState (durable r') = RunIdle \<and>
    (\<exists>f \<in> set (runs_of (facts r')). run_RunID f = ar_id run \<and> run_Kind f \<noteq> RunStarted))"
proof -
  obtain y st where y: "Recover env CtxLive (rt_id r) (rt_store r) = (y, st)" by fastforce
  let ?d = "durable (r\<lparr>rt_store := st\<rparr>)"
  have E: "y = Inr ?d" using recover_effect [OF y assms(1,2)] by blast
  have d: "durable r' = ?d" using y E by (simp add: r' recoverAfterRunFailureLocked_def Let_def durable_def stored_def)
  have "snap_RunState ?d = RunIdle \<and> (\<exists>f \<in> set (runs_of (snap_History ?d)). run_RunID f = ar_id run \<and> run_Kind f \<noteq> RunStarted)" if "recoveredRunIsSettled ?d (rt_id r) run"
  proof -
    have "length (filter (\<lambda>f. run_Kind f \<noteq> RunStarted) (filter (\<lambda>f. run_RunID f = ar_id run) (runs_of (snap_History ?d)))) = 1"
      using that by (simp add: recoveredRunIsSettled_def Let_def)
    then obtain f where "f \<in> set (filter (\<lambda>f. run_Kind f \<noteq> RunStarted) (filter (\<lambda>f. run_RunID f = ar_id run) (runs_of (snap_History ?d))))"
      by (metis length_0_conv list.set_intros(1) neq_Nil_conv zero_neq_one)
    then show ?thesis using that by (auto simp: recoveredRunIsSettled_def Let_def)
  qed
  then show ?thesis unfolding d using y E by (simp add: r' recoverAfterRunFailureLocked_def Let_def)
qed

lemma finishRun_sequence_bound: "rt_sequence (snd (finishRun env i o0 t0 r)) \<le> rt_sequence r + 3"
proof -
  have rec: "rt_sequence (recoverAfterRunFailureLocked env run r1) = rt_sequence r1" for run r1
    by (simp add: recoverAfterRunFailureLocked_def Let_def split: prod.split sum.split)
  have start: "rt_sequence r2 = rt_sequence r1 + 2" if "startChangesLocked s item e r1 = (x, r2)" for s item e r1 x r2
    using that by (auto simp: startChangesLocked_def rt_nextID_def Let_def)
  have view: "rt_sequence r1 = rt_sequence r" if "viewLocked ctx r = (v, r1)" for ctx v r1 using that by (auto simp: viewLocked_def split: sum.splits)
  show ?thesis
    unfolding finishRun_def Let_def
    by (auto simp: rec split: sum.split prod.split option.split dest!: commit_sequence start view)
qed

definition demo_cancel :: CancelRequest where
  "demo_cancel = \<lparr>can_SessionID = ''s1'', can_ExpectedRevision = 2, can_Actor = zero_actor\<rparr>"

definition demo_canceled :: runtimeInstance where
  "demo_canceled = snd (cancel CtxLive demo_cancel demo_restored)"

lemma demo_canceled_run: "(rt_step demo_fpt)\<^sup>*\<^sup>* demo_runtime demo_canceled"
  unfolding demo_canceled_def by (rule rtranclp.rtrancl_into_rtrancl [OF demo_restored_run rt_step.cancels])

lemma demo_canceled_fields: "rt_sequence demo_canceled = 0" "durable demo_canceled = demo_resumable"
  "\<exists>run. rt_active demo_canceled = Some run \<and> ar_id run = ''r1'' \<and> ar_cancelRequested run"
proof -
  have v: "viewLocked CtxLive demo_restored = (Inr demo_resumable, demo_restored)"
    by (simp add: viewLocked_def Load_def with_session_def contextErr_def check_def demo_restored_def demo_runtime_def demo_resumable_store_def)
  have c: "demo_canceled = update_run (\<lambda>x. x\<lparr>ar_cancelRequested := True\<rparr>) demo_restored"
    unfolding demo_canceled_def cancel_def demo_cancel_def
    using v by (simp add: whenOpen_def ensureOpenLocked_def bindR_def) (simp add: demo_restored_def demo_runtime_def ActorIdentity_Valid_def zero_actor_def update_run_def)
  show "rt_sequence demo_canceled = 0" "durable demo_canceled = demo_resumable" "\<exists>run. rt_active demo_canceled = Some run \<and> ar_id run = ''r1'' \<and> ar_cancelRequested run"
    using demo_restored_fields(5) by (simp_all add: c update_run_def demo_restored_def demo_runtime_def durable_def stored_def)
qed

section \<open>The guarantees\<close>

text \<open>
  C16. A Session runtime and the durable Session agree, whatever the order of operations, other work on the
  store included, as long as the 64-bit sequence of identifiers has not wrapped around: an active Run is the
  Run that the store records as running, its counters of attempts, tool calls and tokens are the counts of
  the durable History, and an idle runtime has an idle Session.
\<close>

theorem runtime_agrees_with_session:
  assumes "(rt_step fpt)\<^sup>*\<^sup>* r0 r" "created fpt r0" "rt_sequence r < 2 ^ 64"
  shows "(case rt_active r of
      Some a \<Rightarrow> rt_state r = runtimeRunning \<and> snap_RunState (durable r) = RunRunning \<and> snap_ActiveRunID (durable r) = ar_id a \<and>
        ar_modelAttempts a = int (runAttempts (ar_id a) (facts r)) \<and> ar_toolCalls a = int (runToolCalls (ar_id a) (facts r)) \<and>
        ar_usedTokens a = runTokens (ar_id a) (facts r)
    | None \<Rightarrow> rt_state r \<noteq> runtimeRunning \<and> (rt_state r = runtimeIdle \<longrightarrow> snap_RunState (durable r) = RunIdle))"
  using rt_run_ok [OF assms] by (simp add: rt_ok_def agrees_def split: option.splits)

theorem runtime_agrees_with_session_witness:
  "(rt_step demo_fpt)\<^sup>*\<^sup>* demo_runtime demo_restored \<and> created demo_fpt demo_runtime \<and> ar_toolCalls (the (rt_active demo_restored)) = int (runToolCalls ''r1'' (facts demo_restored))"
  using runtime_agrees_with_session [OF demo_restored_run demo_created] demo_restored_run demo_created
  by (cases "rt_active demo_restored") (use demo_restored_fields(6) in auto)

text \<open>
  C17. The limits per Run hold over the durable History: when the runtime has a positive limit of model
  attempts or tool calls, no Run ever has more of them than the limit, unless it already had them when the
  runtime was created.
\<close>

theorem run_limits_hold:
  assumes "(rt_step fpt)\<^sup>*\<^sup>* r0 r" "created fpt r0" "rt_sequence r < 2 ^ 64"
  shows "(0 < rc_MaxModelAttemptsPerRun (rt_components r) \<longrightarrow>
      int (runAttempts i (facts r)) \<le> max (rc_MaxModelAttemptsPerRun (rt_components r)) (int (runAttempts i (facts r0)))) \<and>
    (0 < rc_MaxToolCallsPerRun (rt_components r) \<longrightarrow>
      int (runToolCalls i (facts r)) \<le> max (rc_MaxToolCallsPerRun (rt_components r)) (int (runToolCalls i (facts r0))))"
  using rt_run_ok [OF assms] by (simp add: rt_ok_def limited_def within_def)

theorem run_limits_hold_witness:
  "(rt_step demo_fpt)\<^sup>*\<^sup>* demo_runtime demo_restored \<and> created demo_fpt demo_runtime \<and> int (runToolCalls ''r1'' (facts demo_restored)) \<le> 3"
  using run_limits_hold [OF demo_restored_run demo_created, of "''r1''"] demo_restored_run demo_created
  by (simp add: demo_components_def demo_durable runToolCalls_def demo_call_def)

text \<open>
  C18. The end of a Run is durable or the runtime fails closed: when an active Run is finished, with whatever
  outcome and however the terminal commit goes, either the runtime is closed without an active Run, or the
  History has exactly one terminal fact of that Run and the runtime is idle on an idle Session or runs the
  next Run, a different one that the store records as running.
\<close>

theorem finished_run_is_durable:
  assumes "(rt_step fpt)\<^sup>*\<^sup>* r0 r" "created fpt r0" "env_ok fpt env" "rt_active r = Some run"
    and "finishRun env (ar_id run) o0 t0 r = (nx, r')" "rt_sequence r' < 2 ^ 64"
  shows "(nx = None \<and> rt_active r' = None \<and> rt_state r' = runtimeClosed \<and> rt_closing r') \<or>
    ((\<exists>!f. f \<in> set (runs_of (facts r')) \<and> run_RunID f = ar_id run \<and> run_Kind f \<noteq> RunStarted) \<and>
     (case nx of None \<Rightarrow> rt_active r' = None \<and> rt_state r' = runtimeIdle \<and> snap_RunState (durable r') = RunIdle
      | Some (run', step) \<Rightarrow> rt_active r' = Some run' \<and> rt_state r' = runtimeRunning \<and> snap_RunState (durable r') = RunRunning \<and>
          snap_ActiveRunID (durable r') = ar_id run' \<and> ar_id run' \<noteq> ar_id run))"
proof -
  have "rt_sequence r \<le> rt_sequence r'" using finishRun_sequence [of r env "ar_id run" o0 t0] assms(5) by simp
  then have ok: "rt_ok fpt r0 r" using rt_run_ok [OF assms(1,2)] assms(6) by simp
  have ok': "rt_ok fpt r0 r'" using kept_finishRun [OF assms(3), of r0 r "ar_id run" o0 t0] ok assms(5,6) by (simp add: kept_def)
  define ended where "ended \<longleftrightarrow> (\<exists>!f. f \<in> set (runs_of (facts r')) \<and> run_RunID f = ar_id run \<and> run_Kind f \<noteq> RunStarted)"
  have unique: "(\<exists>f \<in> set (runs_of (facts r')). run_RunID f = ar_id run \<and> run_Kind f \<noteq> RunStarted) \<Longrightarrow> ended"
    unfolding ended_def using rt_ok_terminal [OF ok'] by blast
  have terminal: "ended" if "terminalFact (rt_id r) run k t \<in> set (runs_of (facts r'))" "k \<noteq> RunStarted" for k t
    by (rule unique, rule bexI [OF _ that(1)]) (simp add: terminalFact_def that(2))
  let ?r1 = "r\<lparr>rt_revision := snap_Revision (durable r)\<rparr>"
  from ok assms(4) refl assms(3,5,6) show ?thesis
  proof (cases rule: finishRun_cases)
    case (failed r3)
    from recoverAfter_settled [OF drifts_ok [OF failed(2) ok] assms(3) failed(3)]
    show ?thesis unfolding ended_def [symmetric] failed(1) option.case using unique by blast
  next
    case (idle r3 held k t)
    have d: "durable r' = durable r3" using idle(5) by (simp add: durable_def stored_def)
    have "terminalFact (rt_id r) run k t \<in> set (runs_of (facts r3))" using idle(4) by (simp add: committed_def finishing_def)
    moreover have "run_of (durable r3) = (RunIdle, '''')" using idle(4) finishing_sums(3) [OF idle(2)] by (simp add: committed_def)
    ultimately show ?thesis unfolding ended_def [symmetric] using terminal idle d by simp
  next
    case (continued r2 r3 held k t item run' step start)
    note P = startChangesLocked_parts [OF continued(4)]
    have d: "durable r' = durable r3" using continued(7) by simp
    have "terminalFact (rt_id r) run k t \<in> set (runs_of (facts r3))" using continued(5) by (simp add: committed_def finishing_def)
    moreover have "run_of (durable r3) = (RunRunning, ar_id run')" using continued(5) P(9) by (simp add: committed_def)
    moreover have "undrawn r (rt_sequence r + 1)" using continued(6) P(2) by (simp add: undrawn_def)
    then have "ar_id run' \<noteq> ar_id run" using ok assms(4) P(3) by (auto simp: rt_ok_def unused_def agrees_def)
    ultimately show ?thesis unfolding ended_def [symmetric] using terminal continued d by (simp add: activateLocked_def)
  qed
qed

theorem finished_run_is_durable_witness:
  "\<exists>nx r'. finishRun demo_env ''r1'' stepNatural None demo_restored = (nx, r') \<and> rt_sequence r' < 2 ^ 64 \<and>
    (rt_state r' = runtimeClosed \<or> (\<exists>f. f \<in> set (runs_of (facts r')) \<and> run_RunID f = ''r1'' \<and> run_Kind f \<noteq> RunStarted))"
proof -
  obtain nx r' where fin: "finishRun demo_env ''r1'' stepNatural None demo_restored = (nx, r')" by fastforce
  have seq: "rt_sequence r' < 2 ^ 64" using finishRun_sequence_bound [of demo_env "''r1''" stepNatural None demo_restored] fin by simp
  obtain run where run: "rt_active demo_restored = Some run" "ar_id run = ''r1''" using demo_restored_fields(6,7) by (metis option.collapse)
  show ?thesis
    using finished_run_is_durable [OF demo_restored_run demo_created demo_env_ok run(1) fin [folded run(2)] seq] fin seq run(2) by auto
qed

text \<open>
  C19. A Run that is canceled, or whose Session is closed, after its tool calls were prepared and before they
  are executed is not ended: the terminal commit is refused because the Session would be idle with an
  unfinished journal, recovery keeps the Run for its prepared calls, and so the runtime fails closed while the
  store still records the canceled Run as running, with the prepared call that the next opening resumes.
\<close>

theorem canceled_prepared_run_resumes:
  assumes "(rt_step fpt)\<^sup>*\<^sup>* r0 r" "created fpt r0" "env_ok fpt env" "rt_active r = Some run" "ar_cancelRequested run \<or> rt_closing r"
    and e: "e \<in> set (snap_RunJournal (durable r))" "jrn_Status e = JournalPrepared" "jrn_RunID e = ar_id run" "jrn_ToolCall e = Some call"
    and fin: "finishRun env (ar_id run) o0 t0 r = (nx, r')" "rt_sequence r' < 2 ^ 64"
  shows "nx = None \<and> rt_active r' = None \<and> rt_state r' = runtimeClosed \<and> snap_RunState (durable r') = RunRunning \<and>
    snap_ActiveRunID (durable r') = ar_id run \<and> (jrn_StepID e, call) \<in> set (preparedCalls (durable r'))"
proof -
  have "rt_sequence r \<le> rt_sequence r'" using finishRun_sequence [of r env "ar_id run" o0 t0] fin(1) by simp
  then have ok: "rt_ok fpt r0 r" using rt_run_ok [OF assms(1,2)] fin(2) by simp
  then have run: "run_of (durable r) = (RunRunning, ar_id run)" using assms(4) by (simp add: rt_ok_def agrees_def)
  from ok assms(4) refl assms(3) fin show ?thesis
  proof (cases rule: finishRun_cases)
    case (failed r3)
    have d: "durable r3 = durable r" using drifts_view(2) [OF failed(2)] .
    have "e \<in> set (snap_RunJournal (durable r'))" "run_of (durable r') = (RunRunning, ar_id run)" "rt_state r' = runtimeClosed" "rt_active r' = None"
      using recoverAfter_prepared [OF drifts_ok [OF failed(2) ok] assms(3) _ _ e(2,3) _ failed(3)] e run d by simp_all
    then show ?thesis using failed(1) e by (auto simp: preparedCalls_def List.map_filter_def intro!: image_eqI [of _ _ e])
  next
    case (idle r3 held k t)
    have "snap_RunState (durable r3) = RunIdle" using idle(4) finishing_sums(3) [OF idle(2)] by (simp add: committed_def)
    moreover have "snap_RunJournal (durable r3) = snap_RunJournal (durable r)"
      using idle(4,6) by (simp add: committed_def finishing_def list_all_iff) (auto simp: durable_def stored_def)
    ultimately show ?thesis using idle(4) e by (auto simp: committed_def hasUnfinishedJournal_def unfinishedJournal_def)
  qed (use assms(5) in simp)
qed

theorem canceled_prepared_run_resumes_witness:
  "\<exists>nx r'. finishRun demo_env ''r1'' stepCanceled None demo_canceled = (nx, r') \<and> rt_state r' = runtimeClosed \<and> snap_RunState (durable r') = RunRunning \<and>
    (''st1'', demo_call) \<in> set (preparedCalls (durable r'))"
proof -
  obtain nx r' where fin: "finishRun demo_env ''r1'' stepCanceled None demo_canceled = (nx, r')" by fastforce
  have seq: "rt_sequence r' < 2 ^ 64" using finishRun_sequence_bound [of demo_env "''r1''" stepCanceled None demo_canceled] fin demo_canceled_fields(1) by simp
  obtain run where run: "rt_active demo_canceled = Some run" "ar_id run = ''r1''" "ar_cancelRequested run" using demo_canceled_fields(3) by auto
  have e: "demo_entry JournalPrepared \<in> set (snap_RunJournal (durable demo_canceled))" "jrn_Status (demo_entry JournalPrepared) = JournalPrepared"
    "jrn_RunID (demo_entry JournalPrepared) = ar_id run" "jrn_ToolCall (demo_entry JournalPrepared) = Some demo_call" "jrn_StepID (demo_entry JournalPrepared) = ''st1''"
    using demo_canceled_fields(2) run(2) by (simp_all add: demo_entry_def)
  show ?thesis
    using canceled_prepared_run_resumes [OF demo_canceled_run demo_created demo_env_ok run(1) disjI1 [OF run(3)] e(1-4) fin [folded run(2)] seq] fin e(5) by auto
qed

section \<open>A limit that is lowered\<close>

text \<open>The Session of the example with a second prepared call, opened by a runtime that allows one call per Run.\<close>

definition demo_call2 :: ToolCall where
  "demo_call2 = demo_call\<lparr>call_ID := ''c2''\<rparr>"

definition demo_entry2 :: JournalEntry where
  "demo_entry2 = (demo_entry JournalPrepared)\<lparr>jrn_ToolCall := Some demo_call2\<rparr>"

definition demo_second :: CommitRequest where
  "demo_second = \<lparr>creq_SessionID = ''s1'', creq_ExpectedRevision = 2, creq_IdempotencyKey = ''k5'', creq_Actor = zero_actor,
     creq_Changes = [no_change\<lparr>chg_Kind := AppendToolCall, chg_ToolCall := Some demo_call2\<rparr>, no_change\<lparr>chg_Kind := UpdateRunJournal, chg_Journal := Some demo_entry2\<rparr>]\<rparr>"

definition demo_called2 :: HistoryFact where
  "demo_called2 = stamped (env_clock demo_env) (demo_prepared_history @ [demo_started]) ''s1'' (zero_fact\<lparr>fact_ToolCall := Some demo_call2\<rparr>) zero_actor"

definition demo_over :: Snapshot where
  "demo_over = bump (demo_resumable\<lparr>snap_History := demo_prepared_history @ [demo_started, demo_called2], snap_RunJournal := [demo_entry JournalPrepared, demo_entry2]\<rparr>)"

definition demo_over_receipt :: Commit where
  "demo_over_receipt = demo_receipt\<lparr>com_Revision := 3, com_FirstHistorySequence := 4, com_LastHistorySequence := 4\<rparr>"

definition demo_over_store :: MemoryStore where
  "demo_over_store = \<lparr>ms_sessions = [(''s1'', \<lparr>agg_snapshot = demo_over,
       agg_idempotency = [''k2'' \<mapsto> \<lparr>mcm_fingerprint = ''k2x'', mcm_commit = demo_resumable_receipt\<rparr>, ''k5'' \<mapsto> \<lparr>mcm_fingerprint = ''k5xx'', mcm_commit = demo_over_receipt\<rparr>],
       agg_updatedAt = 3\<rparr>)],
     ms_list = \<lparr>idx_epoch = ''epoch'', idx_generation = 1, idx_created = [''s1'' \<mapsto> 1], idx_lastUpdatedAt = 3\<rparr>\<rparr>"

lemma demo_call2_valid: "ToolCall_Valid demo_call2" "JournalEntry_Validate demo_entry2 ''s1'' = None" "validID ''c2''"
proof -
  show c: "validID ''c2''" by (simp add: validID_graphic graphic_def)
  show t: "ToolCall_Valid demo_call2" using demo_call_valid c by (simp add: ToolCall_Valid_def demo_call2_def demo_call_def)
  show "JournalEntry_Validate demo_entry2 ''s1'' = None"
    using t c by (simp add: JournalEntry_Validate_def demo_entry2_def demo_entry_def JournalStatus_Valid_def demo_call_def demo_call2_def)
qed

lemma demo_same_call: "sameToolCall demo_call2 demo_call2"
proof -
  have "jsonvalue_Equal ''{}'' ''{}''" by code_simp
  then show ?thesis by (simp add: sameToolCall_def demo_call2_def demo_call_def)
qed

lemma demo_second_checks:
  "Change_Validate demo_fpt (no_change\<lparr>chg_Kind := AppendToolCall, chg_ToolCall := Some demo_call2\<rparr>) ''s1'' = None"
  "Change_Validate demo_fpt (no_change\<lparr>chg_Kind := UpdateRunJournal, chg_Journal := Some demo_entry2\<rparr>) ''s1'' = None"
  "validateToolTransactions h (creq_Changes demo_second) = None" "validateModelConfigTransaction cfg (creq_Changes demo_second) = None"
proof -
  show "Change_Validate demo_fpt (no_change\<lparr>chg_Kind := AppendToolCall, chg_ToolCall := Some demo_call2\<rparr>) ''s1'' = None"
    "Change_Validate demo_fpt (no_change\<lparr>chg_Kind := UpdateRunJournal, chg_Journal := Some demo_entry2\<rparr>) ''s1'' = None"
    using demo_call2_valid by (simp_all add: Change_Validate_def payloadCount_def no_change_def Let_def required_def demo_call2_def demo_call_def)
  have u: "update_with P (creq_Changes demo_second) ''c2'' = (if P JournalPrepared then Some demo_entry2 else None)" for P
    by (simp add: update_with_def journal_updates_def demo_second_def List.map_filter_def jrn_callID_def demo_entry2_def demo_entry_def demo_call2_def)
  have l: "last_appended_call (creq_Changes demo_second) ''c2'' = Some demo_call2"
    by (simp add: last_appended_call_def appended_calls_def demo_second_def List.map_filter_def demo_call2_def)
  have f: "call_ID demo_call2 = ''c2''" "jrn_callID demo_entry2 = ''c2''" "jrn_ToolCall demo_entry2 = Some demo_call2" "jrn_Status demo_entry2 = JournalPrepared"
    by (simp_all add: demo_call2_def demo_entry2_def demo_entry_def jrn_callID_def)
  let ?c = "no_change\<lparr>chg_Kind := AppendToolCall, chg_ToolCall := Some demo_call2\<rparr>" and ?j = "no_change\<lparr>chg_Kind := UpdateRunJournal, chg_Journal := Some demo_entry2\<rparr>"
  have cs: "creq_Changes demo_second = [?c, ?j]" by (simp add: demo_second_def)
  have t: "toolTransactionCheck h (creq_Changes demo_second) ?c = None" "toolTransactionCheck h (creq_Changes demo_second) ?j = None"
    using u l f demo_same_call by (simp_all add: toolTransactionCheck_def Let_def)
  show "validateToolTransactions h (creq_Changes demo_second) = None"
    unfolding validateToolTransactions_def using t by (simp add: cs emptyMessageCheck_def)
  show "validateModelConfigTransaction cfg (creq_Changes demo_second) = None"
    by (simp add: validateModelConfigTransaction_def demo_second_def)
qed

lemma demo_over_commit: "Commit_op demo_env CtxLive demo_second demo_resumable_store = (Inr demo_over_receipt, demo_over_store)"
proof -
  note C = demo_second_checks
  let ?h = "demo_prepared_history @ [demo_started]"
  have v: "CommitRequest_Validate demo_fpt demo_second = None"
    using C(1,2) by (simp add: CommitRequest_Validate_def demo_second_def zero_actor_def)
  have h: "appendHistoryFact (env_clock demo_env) ?h ''s1'' (zero_fact\<lparr>fact_ToolCall := Some demo_call2\<rparr>) zero_actor = Inr (?h @ [demo_called2])"
    using appendHistoryFact_succeeds [of "''s1''" "zero_fact\<lparr>fact_ToolCall := Some demo_call2\<rparr>" "env_clock demo_env" ?h zero_actor] demo_call2_valid
    by (simp add: demo_called2_def validatePayload_def fact_payloads_def demo_call2_def demo_call_def)
  have m: "findMessage ?h ''m1'' = Some demo_assistant" "\<not> containsToolCall ?h ''c2''"
    by (simp_all add: findMessage_def containsToolCall_def findToolCall_def demo_prepared_history_def demo_payloads_def Let_def demo_started_def demo_assistant_def demo_message_def demo_call_def)
  have a: "applyChanges demo_fpt (env_clock demo_env) demo_resumable demo_second =
      Inr (demo_resumable\<lparr>snap_History := ?h @ [demo_called2], snap_RunJournal := [demo_entry JournalPrepared, demo_entry2]\<rparr>)"
    using C h m demo_call2_valid(2)
    by (simp add: applyChanges_def demo_second_def) 
      (simp add: applyChange_def appendToolCall_def append_payload_def finalChecks_def validateQueueClaims_def applyJournal_def sameJournalKey_def is_active_def
        demo_call2_def demo_call_def demo_assistant_def demo_entry2_def demo_entry_def unfinishedJournal_def demo_resumable_def bump_def)
  have e: "env_fpt demo_env = demo_fpt" by (simp add: demo_env_def)
  show ?thesis
    unfolding Commit_op_def e using v a
    by (simp add: contextErr_def demo_resumable_store_def demo_second_def demo_over_store_def demo_over_def demo_over_receipt_def
        demo_receipt_def demo_env_def bump_def nextUpdatedAt_def ensure_def appendedHistoryRange_def put_aggregate_def Let_def)
qed

lemma demo_over_reachable: "reachable demo_fpt demo_over_store"
  by (rule reachable_step [OF demo_resumable_reachable step_commit [OF demo_env_ok demo_over_commit]])

definition demo_strict :: runtimeInstance where
  "demo_strict = demo_runtime\<lparr>rt_components := demo_components\<lparr>rc_MaxToolCallsPerRun := 1\<rparr>, rt_store := demo_over_store\<rparr>"

lemma demo_over_fields [simp]: "snap_RunState demo_over = RunRunning" "snap_ActiveRunID demo_over = ''r1''" "snap_RunJournal demo_over = [demo_entry JournalPrepared, demo_entry2]"
  "snap_History demo_over = demo_prepared_history @ [demo_started, demo_called2]" "snap_Revision demo_over = 3" "snap_ExtensionJournal demo_over = []"
  by (simp_all add: demo_over_def bump_def)

lemma demo_called2_fields [simp]: "fact_Run demo_called2 = None" "fact_ModelAttempt demo_called2 = None" "fact_ToolCall demo_called2 = Some demo_call2"
  "fact_RunBudgetExceeded demo_called2 = None" "fact_RunLimitExceeded demo_called2 = None"
  by (simp_all add: demo_called2_def)

lemma demo_strict_durable: "durable demo_strict = demo_over" "aggregate_of demo_over_store ''s1'' = Some (stored demo_strict)"
  "agg_idempotency (stored demo_strict) = [''k2'' \<mapsto> \<lparr>mcm_fingerprint = ''k2x'', mcm_commit = demo_resumable_receipt\<rparr>, ''k5'' \<mapsto> \<lparr>mcm_fingerprint = ''k5xx'', mcm_commit = demo_over_receipt\<rparr>]"
  by (simp_all add: durable_def stored_def demo_strict_def demo_runtime_def demo_over_store_def)

lemma demo_strict_created: "created demo_fpt demo_strict"
proof -
  have "unused demo_strict"
    by (simp add: unused_def demo_strict_durable commitKey_def idText_def runAttempts_def runToolCalls_def demo_call_def demo_call2_def)
  then show ?thesis using demo_over_reachable demo_strict_durable(2) by (simp add: created_def) (simp add: demo_strict_def demo_runtime_def)
qed

definition demo_strict_restored :: runtimeInstance where
  "demo_strict_restored = snd (bindR (viewLocked CtxLive) (finishOpen (planExtensionRecovery demo_over)) demo_strict)"

lemma demo_strict_run: "(rt_step demo_fpt)\<^sup>*\<^sup>* demo_strict demo_strict_restored"
  unfolding demo_strict_restored_def by (rule r_into_rtranclp, rule rt_step.opens) (simp_all add: demo_strict_def demo_runtime_def)

lemma demo_strict_fields: "rt_sequence demo_strict_restored = 0" "durable demo_strict_restored = demo_over" "rc_MaxToolCallsPerRun (rt_components demo_strict_restored) = 1"
  "\<exists>run. rt_active demo_strict_restored = Some run \<and> ar_id run = ''r1''" "live demo_strict_restored ''r1''"
proof -
  have v: "viewLocked CtxLive demo_strict = (Inr demo_over, demo_strict\<lparr>rt_revision := 3\<rparr>)"
    by (simp add: viewLocked_def Load_def with_session_def contextErr_def check_def demo_strict_def demo_runtime_def demo_over_store_def)
  have c: "preparedCalls demo_over = [(''st1'', demo_call), (''st1'', demo_call2)]" by (simp add: preparedCalls_def demo_entry_def demo_entry2_def)
  have t: "persistedTermination ''r1'' (demo_prepared_history @ [demo_started, demo_called2]) = None"
    by (simp add: persistedTermination_def demo_prepared_history_def demo_payloads_def Let_def)
  obtain run where r: "demo_strict_restored = activateLocked run (demo_strict\<lparr>rt_revision := 3\<rparr>)" "ar_id run = ''r1''" "\<not> ar_cancelRequested run"
    using t by (simp add: demo_strict_restored_def bindR_def v finishOpen_def restorePreparedRun_def c planExtensionRecovery_def unsettledCompletionEntries_def Let_def) (simp add: activateLocked_def demo_start_def demo_strict_def demo_runtime_def)
  show "rt_sequence demo_strict_restored = 0" "durable demo_strict_restored = demo_over" "rc_MaxToolCallsPerRun (rt_components demo_strict_restored) = 1"
    "\<exists>run. rt_active demo_strict_restored = Some run \<and> ar_id run = ''r1''" "live demo_strict_restored ''r1''"
    unfolding r(1) using r(2,3) demo_strict_durable(1) by (simp_all add: live_def activateLocked_def durable_def stored_def demo_strict_def demo_runtime_def)
qed

definition demo_final :: Completion where
  "demo_final = \<lparr>cmp_Parts = msg_Parts demo_message, cmp_ToolCalls = [], cmp_Continuation = ''''\<rparr>"

text \<open>
  C20. A final answer of the model panics the runtime when the Run already has more tool calls than the limit:
  on a runtime that restores a Run with more durable calls than its limit of tool calls per Run allows, which
  takes only a lower limit after a restart, the completion that asks for no tool counts as exceeding the limit
  and the record of the exceeded limit reads the first of no calls.
\<close>

theorem final_completion_panics_over_limit:
  assumes "(rt_step fpt)\<^sup>*\<^sup>* r0 r" "created fpt r0" "rt_sequence r < 2 ^ 64" "live r i"
    and "0 < rc_MaxToolCallsPerRun (rt_components r)" "rc_MaxToolCallsPerRun (rt_components r) < int (runToolCalls i (facts r))" "cmp_ToolCalls output = []"
  shows "fst (commitCompletion env now i step messageID output r) = Inl RtPanicked"
proof -
  have ok: "rt_ok fpt r0 r" by (rule rt_run_ok [OF assms(1-3)])
  obtain run where run: "rt_active r = Some run" "ar_id run = i" using assms(4) by (auto simp: live_def split: option.splits)
  then have "ar_toolCalls run = int (runToolCalls i (facts r))" using ok by (simp add: rt_ok_def agrees_def)
  then show ?thesis using assms(4-7) run viewLocked_live [OF ok] by (simp add: commitCompletion_def bindR_def Let_def)
qed

theorem final_completion_panics_over_limit_witness:
  "(rt_step demo_fpt)\<^sup>*\<^sup>* demo_strict demo_strict_restored \<and> created demo_fpt demo_strict \<and>
   fst (commitCompletion demo_env 1 ''r1'' ''st2'' ''m2'' demo_final demo_strict_restored) = Inl RtPanicked"
  using final_completion_panics_over_limit [OF demo_strict_run demo_strict_created _ demo_strict_fields(5), of demo_final demo_env 1 "''st2''" "''m2''"]
    demo_strict_run demo_strict_created demo_strict_fields
  by (simp add: runToolCalls_def demo_final_def) (simp add: demo_call_def demo_call2_def)

end
