(* ===== verification/Json_Canonical.thy ===== *)
theory Json_Canonical
  imports Json_Value "HOL-Library.List_Lexorder" "HOL-Library.Char_ord"
begin

text \<open>
  The canonical encoding of JSON values (\<^verbatim>\<open>Canonical\<close>, \<^verbatim>\<open>writeCanonical\<close> of \<^verbatim>\<open>internal/jsonvalue\<close>), on which the
  digests of hook inputs rest. Strings are written by \<^verbatim>\<open>json.Marshal\<close>, with HTML characters, control
  characters and the line separators escaped; exponents by \<^verbatim>\<open>big.Int.String\<close>. Reading the encoding back gives
  the value, and two documents have the same encoding exactly when they are equal.
\<close>

section \<open>Writing\<close>

definition hex_char :: "nat \<Rightarrow> char" where
  "hex_char n = ''0123456789abcdef'' ! n"

definition html_safe :: "char \<Rightarrow> bool" where
  "html_safe c \<longleftrightarrow> 32 \<le> (of_char c :: nat) \<and> c \<noteq> CHR 0x22 \<and> c \<noteq> CHR ''&'' \<and> c \<noteq> CHR ''<'' \<and> c \<noteq> CHR ''>'' \<and> c \<noteq> CHR 0x5C"

definition escape_byte :: "char \<Rightarrow> string" where
  "escape_byte c =
     (if c = CHR 0x22 \<or> c = CHR 0x5C then [CHR 0x5C, c]
      else if c = CHR 0x08 then [CHR 0x5C, CHR ''b''] else if c = CHR 0x0C then [CHR 0x5C, CHR ''f'']
      else if c = CHR 0x0A then [CHR 0x5C, CHR ''n''] else if c = CHR 0x0D then [CHR 0x5C, CHR ''r'']
      else if c = CHR 0x09 then [CHR 0x5C, CHR ''t'']
      else [CHR 0x5C, CHR ''u'', CHR ''0'', CHR ''0'', hex_char (of_char c div 16), hex_char (of_char c mod 16)])"

text \<open>One step of \<^verbatim>\<open>appendString\<close>: what is written for the first character, and the rest.\<close>

definition marshal_step :: "string \<Rightarrow> string \<times> string" where
  "marshal_step s = (let c = hd s in
     if (of_char c :: nat) < 128 then (if html_safe c then [c] else escape_byte c, tl s)
     else case decodeRune s of
        None \<Rightarrow> ([CHR 0x5C, CHR ''u'', CHR ''f'', CHR ''f'', CHR ''f'', CHR ''d''], tl s)
      | Some (u, n) \<Rightarrow> (if u = 8232 \<or> u = 8233 then [CHR 0x5C, CHR ''u'', CHR ''2'', CHR ''0'', CHR ''2'', hex_char (u mod 16)] else take n s, drop n s))"

function marshal_chars :: "string \<Rightarrow> string" where
  "marshal_chars s = (if s = [] then [] else fst (marshal_step s) @ marshal_chars (snd (marshal_step s)))"
  by pat_completeness auto
termination
  by (relation "measure length") (auto simp: marshal_step_def Let_def split: option.split dest: decodeRune_width)

declare marshal_chars.simps [simp del]

definition marshal_string :: "string \<Rightarrow> string" where
  "marshal_string s = CHR 0x22 # marshal_chars s @ [CHR 0x22]"

definition int_text :: "int \<Rightarrow> string" where
  "int_text i = (if i < 0 then CHR ''-'' # dec (nat (- i)) else dec (nat i))"

definition write_number :: "number \<Rightarrow> string" where
  "write_number n = (if num_negative n then ''-'' else []) @ num_digits n @ (if num_exponent n \<noteq> 0 then CHR ''e'' # int_text (num_exponent n) else [])"

fun comma_separated :: "string list \<Rightarrow> string" where
  "comma_separated [] = []"
| "comma_separated [x] = x"
| "comma_separated (x # y # xs) = x @ CHR '','' # comma_separated (y # xs)"

fun writeCanonical :: "json \<Rightarrow> string" where
  "writeCanonical JNull = ''null''"
| "writeCanonical (JBool b) = (if b then ''true'' else ''false'')"
| "writeCanonical (JNumber n) = write_number n"
| "writeCanonical (JString s) = marshal_string s"
| "writeCanonical (JArray xs) = CHR ''['' # comma_separated (map writeCanonical xs) @ '']''"
| "writeCanonical (JObject ms) = CHR ''{'' # comma_separated (map (\<lambda>(n, t). marshal_string n @ CHR '':'' # t)
     (sort_key fst (map (\<lambda>(n, v). (n, writeCanonical v)) ms))) @ ''}''"

definition Canonical :: "string \<Rightarrow> string option" where
  "Canonical raw = map_option writeCanonical (json_parse raw)"

section \<open>Strings\<close>

lemma decodeRune_append: "decodeRune s = Some p \<Longrightarrow> decodeRune (s @ t) = Some p"
  by (cases s) (auto simp: decodeRune.simps Let_def split: if_splits list.splits)

lemma decodeRune_length: "decodeRune s = Some (u, n) \<Longrightarrow> n \<le> length s"
  by (cases s) (auto simp: decodeRune.simps Let_def split: if_splits list.splits)

lemma decodeRune_take: "decodeRune s = Some (u, n) \<Longrightarrow> decodeRune (take n s) = Some (u, n)"
  by (cases s) (auto simp: decodeRune.simps Let_def split: if_splits list.splits)

lemma decodeAll_append: "utf8_ValidString s \<Longrightarrow> decodeAll (s @ t) = decodeAll s @ decodeAll t"
proof (induction s rule: decodeAll.induct)
  case (1 s)
  show ?case
  proof (cases "s = []")
    case False
    with "1.prems" obtain u n where d: "decodeRune s = Some (u, n)"
      by (auto simp: utf8_ValidString_def decodeAll.simps [of s] split: option.splits)
    then have "utf8_ValidString (drop n s)" using "1.prems" False by (auto simp: utf8_ValidString_def decodeAll.simps [of s])
    then show ?thesis using "1.IH"(2) [OF False d refl] False d decodeRune_append [OF d, of t] decodeRune_length [OF d]
      by (simp add: decodeAll.simps [of s] decodeAll.simps [of "s @ t"])
  qed (simp add: decodeAll.simps [of "[]"])
qed

lemma valid_append: "utf8_ValidString s \<Longrightarrow> utf8_ValidString t \<Longrightarrow> utf8_ValidString (s @ t)"
  by (auto simp: utf8_ValidString_def decodeAll_append)

lemma valid_Nil [simp]: "utf8_ValidString []"
  by (simp add: utf8_ValidString_def decodeAll.simps)

lemma valid_one: "decodeRune s = Some (u, length s) \<Longrightarrow> utf8_ValidString s"
  by (cases "s = []") (auto simp: utf8_ValidString_def decodeAll.simps [of s] decodeAll.simps [of "[]"])

lemma valid_encode:
  assumes "u < 55296 \<or> 57344 \<le> u" "u < 1114112"
  shows "utf8_ValidString (utf8_encode u)"
proof (rule valid_one)
  define x y a b c where "x = u div 64" "y = x div 64" "a = y mod 64" "b = x mod 64" "c = u mod 64"
  have u: "u = x * 64 + c" "x = y * 64 + b" "y = y div 64 * 64 + a" "c < 64" "b < 64" "a < 64" by (simp_all add: x_y_a_b_c_def(1,2) x_y_a_b_c_def(3-))
  have d: "u div 64 = x" "u div 4096 = y" "u div 262144 = y div 64" "u mod 64 = c" "x mod 64 = b" "y mod 64 = a"
    using div_mult2_eq [of u 64 64] div_mult2_eq [of u 4096 64] by (simp_all add: x_y_a_b_c_def)
  consider "u < 128" | "128 \<le> u" "u < 2048" | "2048 \<le> u" "u < 65536" | "65536 \<le> u" by linarith
  then show "decodeRune (utf8_encode u) = Some (u, length (utf8_encode u))"
  proof cases
    case 1 then show ?thesis by (simp add: utf8_encode_def decodeRune.simps)
  next
    case 2
    then have "2 \<le> x" "x < 32" using u by linarith+
    then show ?thesis using 2 u(1) [symmetric] u(4) by (simp add: utf8_encode_def decodeRune.simps Let_def d)
  next
    case 3
    have "y < 16" "y = 0 \<longrightarrow> 32 \<le> b" "y = 13 \<longrightarrow> b \<le> 31" "y * 4096 + b * 64 + c = u" using 3 u assms(1) by linarith+
    then show ?thesis using 3 u(4,5) by (simp add: utf8_encode_def decodeRune.simps Let_def d)
  next
    case 4
    have "y div 64 < 5" "y div 64 = 0 \<longrightarrow> 16 \<le> a" "y div 64 = 4 \<longrightarrow> a \<le> 15" "y div 64 * 262144 + a * 4096 + b * 64 + c = u" using 4 u assms(2) by linarith+
    then show ?thesis using 4 u(4-6) by (simp add: utf8_encode_def decodeRune.simps Let_def d)
  qed
qed

text \<open>What the lexer returns is valid.\<close>

lemma hex4_bound: "hex4 a b c d = Some u \<Longrightarrow> u < 65536"
  by (auto simp: hex4_def hex_digit_def Let_def split: option.splits if_splits)

lemma low_surrogate_bound: "low_surrogate s = Some (v, r) \<Longrightarrow> 56320 \<le> v \<and> v < 57344"
  by (auto simp: low_surrogate_def split: list.splits if_splits option.splits)

lemma valid_pair:
  assumes "\<not> 56320 \<le> u" "55296 \<le> u" "low_surrogate s = Some (v, r)"
  shows "utf8_ValidString (utf8_encode (65536 + (u - 55296) * 1024 + (v - 56320)))"
proof (rule valid_encode)
  have "u - 55296 < 1024" "v - 56320 < 1024" using assms(1,2) low_surrogate_bound [OF assms(3)] by auto
  then show "65536 + (u - 55296) * 1024 + (v - 56320) < 55296 \<or> 57344 \<le> 65536 + (u - 55296) * 1024 + (v - 56320)"
    "65536 + (u - 55296) * 1024 + (v - 56320) < 1114112" by linarith+
qed

lemma valid_hex: "hex4 a b c d = Some u \<Longrightarrow> \<not> u < 57344 \<or> u < 55296 \<or> \<not> 55296 \<le> u \<Longrightarrow> utf8_ValidString (utf8_encode u)"
  by (rule valid_encode) (auto dest: hex4_bound)

lemma lex_escape_u_valid: "lex_escape_u s = StrChar t r \<Longrightarrow> utf8_ValidString t"
  by (auto simp: lex_escape_u_def split: list.splits option.splits if_splits intro: valid_pair valid_hex valid_encode)

lemma simple_escape_ascii: "simple_escape c = Some x \<Longrightarrow> (of_char x :: nat) < 128"
  by (auto simp: simple_escape_def split: if_splits)

lemma lex_char_valid: "lex_char s = StrChar t r \<Longrightarrow> utf8_ValidString t"
proof -
  assume l: "lex_char s = StrChar t r"
  have one: "utf8_ValidString [c]" if "(of_char c :: nat) < 128" for c using that by (intro utf8_ascii) simp
  have esc: "utf8_ValidString t" if "lex_escape q = StrChar t r" for q
    using that one simple_escape_ascii by (auto simp: lex_escape_def split: list.splits if_splits option.splits dest: lex_escape_u_valid)
  have rune: "utf8_ValidString (take n q)" if "decodeRune q = Some (u, n)" for q u n
    using valid_one [of "take n q" u] decodeRune_take [OF that] decodeRune_length [OF that] by simp
  show ?thesis using l one esc rune valid_encode [of 65533] by (cases s) (auto simp: lex_char_def split: if_splits option.splits)
qed

lemma lex_string_valid: "lex_string s = Some (t, r) \<Longrightarrow> utf8_ValidString t"
proof (induction s arbitrary: t r rule: lex_string.induct)
  case (1 s)
  show ?case
  proof (cases "lex_char s")
    case (StrChar u r')
    with "1.prems" obtain t' where "lex_string r' = Some (t', r)" "t = u @ t'" by (auto simp: lex_string.simps [of s])
    with "1.IH" [OF StrChar] lex_char_valid [OF StrChar] valid_append show ?thesis by blast
  qed (use "1.prems" in \<open>auto simp: lex_string.simps [of s]\<close>)
qed

text \<open>Reading back what \<^verbatim>\<open>appendString\<close> wrote, character by character.\<close>

lemma hex_digit_char: "n < 16 \<Longrightarrow> hex_digit (hex_char n) = Some n"
proof -
  assume "n < 16"
  then have "n \<in> set [0..<16]" by simp
  then show ?thesis by (simp add: upt_rec hex_char_def hex_digit_def) (elim disjE; simp add: hex_digit_def)
qed

lemma lex_escape_byte:
  assumes "(of_char c :: nat) < 128" "\<not> html_safe c"
  shows "lex_char (escape_byte c @ r) = StrChar [c] r"
proof -
  let ?n = "of_char c :: nat"
  have "hex4 CHR ''0'' CHR ''0'' (hex_char (?n div 16)) (hex_char (?n mod 16)) = Some ?n"
    using assms(1) by (simp add: hex4_def hex_digit_char) (simp add: hex_digit_def)
  moreover have "utf8_encode ?n = [c]" using assms(1) by (simp add: utf8_encode_def)
  ultimately have u: "lex_escape_u (CHR ''0'' # CHR ''0'' # hex_char (?n div 16) # hex_char (?n mod 16) # r) = StrChar [c] r"
    using assms(1) by (simp add: lex_escape_u_def)
  show ?thesis using u by (auto simp: escape_byte_def lex_char_def lex_escape_def simple_escape_def)
qed

lemma decodeRune_separator:
  assumes "decodeRune s = Some (u, n)" "u = 8232 \<or> u = 8233"
  shows "take n s = utf8_encode u"
proof (cases s)
  case (Cons c0 s')
  let ?b0 = "of_char c0 :: nat"
  consider "?b0 < 224" | "240 \<le> ?b0" | "224 \<le> ?b0" "?b0 < 240" by linarith
  then show ?thesis
  proof cases
    case 3
    then obtain c1 c2 s2 where c: "s' = c1 # c2 # s2" "n = 3" "u = (?b0 - 224) * 4096 + (of_char c1 - 128) * 64 + (of_char c2 - 128)"
      "128 \<le> (of_char c1 :: nat)" "(of_char c1 :: nat) \<le> 191" "128 \<le> (of_char c2 :: nat)" "(of_char c2 :: nat) \<le> 191"
      using assms(1) Cons by (auto simp: decodeRune.simps Let_def split: if_splits list.splits)
    from le_Suc_ex [OF 3(1)] le_Suc_ex [OF c(4)] le_Suc_ex [OF c(6)] obtain p q w :: nat where p: "?b0 = 224 + p" "of_char c1 = 128 + q" "of_char c2 = 128 + w" by blast
    then have "u = p * 4096 + q * 64 + w" "q < 64" "w < 64" using c by simp_all
    moreover from this assms(2) have "p < 3" "1 < p" by linarith+
    ultimately have p2: "p = 2" "q * 64 + w = u - 8192" by simp_all
    moreover from this(2) assms(2) have "q < 1" by linarith
    ultimately have "p = 2 \<and> q = 0 \<and> w = 40 + (u - 8232)" using assms(2) by auto
    then have "?b0 = 226 \<and> (of_char c1 :: nat) = 128 \<and> (of_char c2 :: nat) = 168 + (u - 8232)" using p by simp
    then have "c0 = char_of (226 :: nat)" "c1 = char_of (128 :: nat)" "c2 = char_of (168 + (u - 8232))" by (metis char_of_char)+
    then show ?thesis using assms(2) Cons c by (auto simp: utf8_encode_def)
  qed (use assms Cons in \<open>auto simp: decodeRune.simps Let_def split: if_splits list.splits\<close>)
qed (use assms in \<open>simp add: decodeRune.simps\<close>)

lemma lex_marshal_step:
  assumes "s \<noteq> []" "utf8_ValidString s" "marshal_step s = (e, r)"
  shows "\<exists>t. s = t @ r \<and> utf8_ValidString r \<and> lex_char (e @ x) = StrChar t x"
proof (cases "(of_char (hd s) :: nat) < 128")
  case True
  then have d: "decodeRune s = Some (of_char (hd s), 1)" using assms(1) by (cases s) (simp_all add: decodeRune.simps)
  then have v: "utf8_ValidString (tl s)" using assms(1,2) by (auto simp: utf8_ValidString_def decodeAll.simps [of s] drop_Suc)
  have "lex_char (e @ x) = StrChar [hd s] x"
    using assms(3) True lex_escape_byte [OF True, of x] by (auto simp: marshal_step_def Let_def lex_char_def html_safe_def split: if_splits)
  moreover have "r = tl s" using assms(3) True by (auto simp: marshal_step_def Let_def)
  ultimately show ?thesis using v assms(1) by (metis append_Cons append_Nil list.collapse)
next
  case False
  then obtain u n where d: "decodeRune s = Some (u, n)" using assms(1,2)
    by (auto simp: utf8_ValidString_def decodeAll.simps [of s] split: option.splits)
  have r: "r = drop n s" and e: "e = (if u = 8232 \<or> u = 8233 then [CHR 0x5C, CHR ''u'', CHR ''2'', CHR ''0'', CHR ''2'', hex_char (u mod 16)] else take n s)"
    using assms(3) False d by (auto simp: marshal_step_def Let_def)
  have "utf8_ValidString r" using assms(1,2) d r by (auto simp: utf8_ValidString_def decodeAll.simps [of s])
  moreover have "lex_char (e @ x) = StrChar (take n s) x"
  proof (cases "u = 8232 \<or> u = 8233")
    case True
    have "hex_digit CHR ''2'' = Some 2" "hex_digit CHR ''0'' = Some 0" "hex_digit (hex_char (u mod 16)) = Some (u mod 16)" by (simp_all add: hex_digit_char) (simp_all add: hex_digit_def)
    then have "hex4 CHR ''2'' CHR ''0'' CHR ''2'' (hex_char (u mod 16)) = Some u" using True by (auto simp: hex4_def)
    then show ?thesis using True e decodeRune_separator [OF d True] by (auto simp: lex_char_def lex_escape_def lex_escape_u_def)
  next
    case False
    have t: "decodeRune (take n s @ x) = Some (u, n)" by (rule decodeRune_append [OF decodeRune_take [OF d]])
    obtain c q where c: "take n s = c # q" "c = hd s" using d decodeRune_width [OF d] assms(1) by (cases s; cases n) auto
    have ge: "\<not> (of_char c :: nat) < 128" using \<open>\<not> (of_char (hd s) :: nat) < 128\<close> c(2) by simp
    then have ne: "c \<noteq> CHR 0x22" "c \<noteq> CHR 0x5C" by auto
    have len: "length (take n s) = n" using decodeRune_length [OF d] by simp
    have "lex_char (c # q @ x) = StrChar (take n (c # q @ x)) (drop n (c # q @ x))" using t ge ne c(1) by (simp add: lex_char_def)
    then show ?thesis using False e c(1) len by (metis append_Cons append_eq_conv_conj)
  qed
  ultimately show ?thesis using r by (metis append_take_drop_id)
qed

lemma lex_marshal: "utf8_ValidString s \<Longrightarrow> lex_string (marshal_chars s @ CHR 0x22 # x) = Some (s, x)"
proof (induction s rule: marshal_chars.induct)
  case (1 s)
  show ?case
  proof (cases "s = []")
    case True
    then show ?thesis by (simp add: marshal_chars.simps [of "[]"] lex_string.simps [of "CHR 0x22 # x"] lex_char_def)
  next
    case False
    obtain e r where m: "marshal_step s = (e, r)" by fastforce
    from lex_marshal_step [OF False "1.prems" m, of "marshal_chars r @ CHR 0x22 # x"] obtain t where
      t: "s = t @ r" "utf8_ValidString r" "lex_char (e @ marshal_chars r @ CHR 0x22 # x) = StrChar t (marshal_chars r @ CHR 0x22 # x)" by blast
    have "marshal_chars s = e @ marshal_chars r" using m False by (simp add: marshal_chars.simps [of s])
    moreover have "lex_string (marshal_chars r @ CHR 0x22 # x) = Some (r, x)" using "1.IH" [OF False] m t(2) by simp
    ultimately show ?thesis using t(1,3) by (simp add: lex_string.simps [of "e @ marshal_chars r @ CHR 0x22 # x"])
  qed
qed

section \<open>Numbers\<close>

definition digit_text :: "string \<Rightarrow> bool" where
  "digit_text s \<longleftrightarrow> s \<noteq> [] \<and> (\<forall>c \<in> set s. is_digit c)"

text \<open>The normal form: zero, or digits without zeros at either end.\<close>

definition normal_number :: "number \<Rightarrow> bool" where
  "normal_number n \<longleftrightarrow> n = \<lparr>num_negative = False, num_digits = ''0'', num_exponent = 0\<rparr> \<or>
     digit_text (num_digits n) \<and> hd (num_digits n) \<noteq> CHR ''0'' \<and> last (num_digits n) \<noteq> CHR ''0''"

definition stops :: "string \<Rightarrow> bool" where
  "stops r \<longleftrightarrow> r = [] \<or> hd r = CHR '','' \<or> hd r = CHR '']'' \<or> hd r = CHR ''}''"

lemma digit_text_dec: "digit_text (dec n)"
  using dec_digits [of n] by (simp add: digit_text_def)

lemma split_at:
  assumes "\<forall>c \<in> set m. P c" "r = [] \<or> \<not> P (hd r)"
  shows "takeWhile P (m @ r) = m" "dropWhile P (m @ r) = r"
proof -
  have "takeWhile P r = []" "dropWhile P r = r" using assms(2) by (cases r; simp)+
  with assms(1) show "takeWhile P (m @ r) = m" "dropWhile P (m @ r) = r" by (induction m) auto
qed

lemma lex_digits_text: "digit_text d \<Longrightarrow> r = [] \<or> \<not> is_digit (hd r) \<Longrightarrow> lex_digits (d @ r) = Some (d, r)"
  using split_at [of d is_digit r] by (simp add: lex_digits_def digit_text_def Let_def)

lemma lex_digits_digits: "lex_digits s = Some (d, r) \<Longrightarrow> digit_text d"
  by (auto simp: lex_digits_def digit_text_def Let_def split: if_splits dest: set_takeWhileD)

text \<open>The shape of a lexed number: sign, digits, fraction, exponent.\<close>

definition number_parts :: "string \<Rightarrow> bool \<Rightarrow> string \<Rightarrow> string \<Rightarrow> string \<Rightarrow> bool" where
  "number_parts t neg whole fraction ex \<longleftrightarrow> t = (if neg then ''-'' else []) @ whole @ (if fraction = [] then [] else CHR ''.'' # fraction) @ ex \<and>
     digit_text whole \<and> (\<forall>c \<in> set fraction. is_digit c) \<and> (ex = [] \<or> hd ex = CHR ''e'' \<or> hd ex = CHR ''E'')"

lemma lex_number_parts:
  assumes "lex_number s = Some (t, r)"
  shows "\<exists>neg whole fraction ex. number_parts t neg whole fraction ex"
proof -
  let ?neg = "s \<noteq> [] \<and> hd s = CHR ''-''"
  from assms obtain i r1 f r2 e where l: "lex_int (if ?neg then tl s else s) = Some (i, r1)" "lex_fraction r1 = Some (f, r2)" "lex_exponent r2 = Some (e, r)"
    and t: "t = (if ?neg then ''-'' else []) @ i @ f @ e"
    by (auto simp: lex_number_def Let_def split: option.splits if_splits)
  have i: "digit_text i" using l(1) lex_digits_digits by (auto simp: lex_int_def digit_text_def split: list.splits if_splits)
  have f: "\<exists>fr. f = (if fr = [] then [] else CHR ''.'' # fr) \<and> (\<forall>c \<in> set fr. is_digit c)"
  proof (cases "r1 \<noteq> [] \<and> hd r1 = CHR ''.''")
    case True
    then obtain d where "f = CHR ''.'' # d" "lex_digits (tl r1) = Some (d, r2)" using l(2) by (cases r1) (auto simp: lex_fraction_def)
    moreover from this(2) have "digit_text d" by (rule lex_digits_digits)
    ultimately show ?thesis by (intro exI [of _ d]) (simp add: digit_text_def)
  next
    case False
    then have "f = []" using l(2) by (cases r1) (auto simp: lex_fraction_def)
    then show ?thesis by (intro exI [of _ "[]"]) simp
  qed
  have e: "e = [] \<or> hd e = CHR ''e'' \<or> hd e = CHR ''E''" using l(3) by (auto simp: lex_exponent_def split: list.splits if_splits)
  from f obtain fr where fr: "f = (if fr = [] then [] else CHR ''.'' # fr)" "\<forall>c \<in> set fr. is_digit c" by blast
  have "number_parts t ?neg i fr e" unfolding number_parts_def t fr(1) using i e fr(2) by blast
  then show ?thesis by blast
qed

lemma digit_plain: "is_digit c \<Longrightarrow> c \<noteq> CHR ''e'' \<and> c \<noteq> CHR ''E'' \<and> c \<noteq> CHR ''.'' \<and> c \<noteq> CHR ''-''"
  by auto

lemma normalize_parts:
  assumes "number_parts t neg whole fraction ex"
  defines "digits \<equiv> dropWhile (\<lambda>c. c = CHR ''0'') (whole @ fraction)"
  defines "trimmed \<equiv> rev (dropWhile (\<lambda>c. c = CHR ''0'') (rev digits))"
  defines "exText \<equiv> if ex = [] then ''0'' else if tl ex \<noteq> [] \<and> hd (tl ex) = CHR ''+'' then tl (tl ex) else tl ex"
  shows "normalizeNumber t = (if digits = [] then \<lparr>num_negative = False, num_digits = ''0'', num_exponent = 0\<rparr>
    else \<lparr>num_negative = neg, num_digits = trimmed, num_exponent = exponent_value exText - int (length fraction) + int (length digits - length trimmed)\<rparr>)"
proof -
  have p: "t = (if neg then ''-'' else []) @ whole @ (if fraction = [] then [] else CHR ''.'' # fraction) @ ex" "digit_text whole" "\<forall>c \<in> set fraction. is_digit c"
    "ex = [] \<or> hd ex = CHR ''e'' \<or> hd ex = CHR ''E''" using assms(1) by (simp_all add: number_parts_def)
  let ?m = "whole @ (if fraction = [] then [] else CHR ''.'' # fraction)" and ?E = "\<lambda>c. c = CHR ''e'' \<or> c = CHR ''E''"
  have w: "\<forall>c \<in> set whole. c \<noteq> CHR ''e'' \<and> c \<noteq> CHR ''E'' \<and> c \<noteq> CHR ''.'' \<and> c \<noteq> CHR ''-''" "whole \<noteq> []" using p(2) digit_plain by (auto simp: digit_text_def)
  have fr: "\<forall>c \<in> set fraction. c \<noteq> CHR ''e'' \<and> c \<noteq> CHR ''E''" using p(3) digit_plain by blast
  have neg: "(t \<noteq> [] \<and> hd t = CHR ''-'') = neg" using w p(1) by (cases whole) auto
  have raw: "(if neg then tl t else t) = ?m @ ex" using p(1) by auto
  have mE: "\<forall>c \<in> set ?m. \<not> ?E c" using w fr by auto
  have tm: "takeWhile (\<lambda>c. \<not> ?E c) (?m @ ex) = ?m" "dropWhile (\<lambda>c. \<not> ?E c) (?m @ ex) = ex"
    using split_at [OF mE, of ex] p(4) by blast+
  have wd: "takeWhile (\<lambda>c. c \<noteq> CHR ''.'') ?m = whole" "dropWhile (\<lambda>c. c \<noteq> CHR ''.'') ?m = (if fraction = [] then [] else CHR ''.'' # fraction)"
    using split_at [of whole "\<lambda>c. c \<noteq> CHR ''.''" "if fraction = [] then [] else CHR ''.'' # fraction"] w(1) by simp_all
  show ?thesis
    unfolding normalizeNumber_def Let_def neg raw tm wd exText_def trimmed_def digits_def
    using p(4) by (auto simp: Let_def)
qed

lemma normalize_normal:
  assumes "lex_number s = Some (t, r)"
  shows "normal_number (normalizeNumber t)"
proof -
  from lex_number_parts [OF assms] obtain neg whole fraction ex where p: "number_parts t neg whole fraction ex" by blast
  let ?d = "dropWhile (\<lambda>c. c = CHR ''0'') (whole @ fraction)"
  let ?t = "rev (dropWhile (\<lambda>c. c = CHR ''0'') (rev ?d))"
  have "digit_text ?t \<and> hd ?t \<noteq> CHR ''0'' \<and> last ?t \<noteq> CHR ''0''" if ne: "?d \<noteq> []"
  proof -
    have hd: "hd ?d \<noteq> CHR ''0''" using hd_dropWhile [OF ne] .
    have "hd ?d \<in> set (rev ?d)" using ne by simp
    then have nt: "dropWhile (\<lambda>c. c = CHR ''0'') (rev ?d) \<noteq> []" using hd by (simp only: dropWhile_eq_Nil_conv) blast
    have "last ?t \<noteq> CHR ''0''" using hd_dropWhile [OF nt] nt by (simp add: last_rev)
    moreover obtain k where k: "?d = ?t @ k" by (metis rev_append rev_rev_ident takeWhile_dropWhile_id)
    then have "hd ?t = hd ?d" using nt by (metis hd_append2 rev_is_Nil_conv)
    moreover have "\<forall>c \<in> set ?t. is_digit c"
    proof
      fix c assume "c \<in> set ?t"
      then have "c \<in> set (whole @ fraction)" by (metis set_dropWhileD set_rev)
      then show "is_digit c" using p by (auto simp: number_parts_def digit_text_def)
    qed
    ultimately show ?thesis using hd nt by (simp add: digit_text_def)
  qed
  then show ?thesis unfolding normalize_parts [OF p] by (auto simp: normal_number_def)
qed

lemma dec_Cons: "\<exists>c cs. dec n = c # cs \<and> is_digit c"
  using dec_digits [of n] dec_nonempty [of n] by (cases "dec n") auto

lemma exponent_int_text: "exponent_value (int_text i) = i"
proof -
  obtain c cs where c: "dec (nat i) = c # cs" "is_digit c" using dec_Cons by blast
  then show ?thesis using undec_dec [of "nat i"] undec_dec [of "nat (- i)"] by (auto simp: exponent_value_def int_text_def digits_value_def simp del: undec.simps)
qed

lemma stops_plain: "stops r \<Longrightarrow> r = [] \<or> \<not> is_digit (hd r) \<and> hd r \<noteq> CHR ''.'' \<and> hd r \<noteq> CHR ''e'' \<and> hd r \<noteq> CHR ''E''"
  by (auto simp: stops_def)

lemma lex_exponent_text:
  assumes "stops r"
  shows "lex_exponent ((if i \<noteq> 0 then CHR ''e'' # int_text i else []) @ r) = Some (if i \<noteq> 0 then CHR ''e'' # int_text i else [], r)"
proof (cases "i = 0")
  case True
  then show ?thesis using stops_plain [OF assms] by (cases r) (auto simp: lex_exponent_def)
next
  case False
  have nd: "r = [] \<or> \<not> is_digit (hd r)" using stops_plain [OF assms] by blast
  obtain c cs where c: "dec (nat i) = c # cs" "is_digit c" using dec_Cons by blast
  have "c \<noteq> CHR ''+''" "c \<noteq> CHR ''-''" using c(2) by auto
  then show ?thesis using False lex_digits_text [OF digit_text_dec nd, of "nat i"] lex_digits_text [OF digit_text_dec nd, of "nat (- i)"] c(1)
    by (auto simp: lex_exponent_def int_text_def)
qed

lemma write_number_parts:
  assumes "normal_number n"
  shows "number_parts (write_number n) (num_negative n) (num_digits n) [] (if num_exponent n \<noteq> 0 then CHR ''e'' # int_text (num_exponent n) else [])"
  using assms by (auto simp: number_parts_def write_number_def normal_number_def digit_text_def)

lemma lex_write_number:
  assumes "normal_number n" "stops r"
  shows "lex_number (write_number n @ r) = Some (write_number n, r)"
proof -
  let ?e = "if num_exponent n \<noteq> 0 then CHR ''e'' # int_text (num_exponent n) else []"
  have rest: "?e @ r = [] \<or> \<not> is_digit (hd (?e @ r)) \<and> hd (?e @ r) \<noteq> CHR ''.''" using stops_plain [OF assms(2)] by auto
  have d: "digit_text (num_digits n)" using assms(1) by (auto simp: normal_number_def digit_text_def)
  have nz: "num_digits n = ''0'' \<or> hd (num_digits n) \<noteq> CHR ''0''" using assms(1) by (auto simp: normal_number_def)
  have i: "lex_int (num_digits n @ ?e @ r) = Some (num_digits n, ?e @ r)"
    using lex_digits_text [OF d, of "?e @ r"] rest nz d by (cases "num_digits n") (auto simp: lex_int_def digit_text_def)
  have f: "lex_fraction (?e @ r) = Some ([], ?e @ r)" using rest by (cases "?e @ r") (auto simp: lex_fraction_def)
  have m: "hd (num_digits n @ x) \<noteq> CHR ''-''" for x using d by (cases "num_digits n") (auto simp: digit_text_def)
  have ne: "num_digits n \<noteq> []" using d by (simp add: digit_text_def)
  show ?thesis
  proof (cases "num_negative n")
    case True
    then show ?thesis using i f lex_exponent_text [OF assms(2), of "num_exponent n"] by (simp add: lex_number_def write_number_def Let_def)
  next
    case False
    then show ?thesis using i f lex_exponent_text [OF assms(2), of "num_exponent n"] m ne by (simp add: lex_number_def write_number_def Let_def)
  qed
qed

lemma normalize_write_number:
  assumes "normal_number n"
  shows "normalizeNumber (write_number n) = n"
proof -
  note N = normalize_parts [OF write_number_parts [OF assms]]
  show ?thesis
  proof (cases "n = \<lparr>num_negative = False, num_digits = ''0'', num_exponent = 0\<rparr>")
    case True
    then show ?thesis unfolding N by simp
  next
    case False
    then have d: "num_digits n \<noteq> []" "hd (num_digits n) \<noteq> CHR ''0''" "last (num_digits n) \<noteq> CHR ''0''" using assms by (auto simp: normal_number_def digit_text_def)
    have 1: "dropWhile (\<lambda>c. c = CHR ''0'') (num_digits n) = num_digits n" using d(1,2) by (cases "num_digits n") auto
    have 2: "dropWhile (\<lambda>c. c = CHR ''0'') (rev (num_digits n)) = rev (num_digits n)" using d(1,3) by (cases "num_digits n" rule: rev_cases) auto
    have 3: "hd (int_text i) \<noteq> CHR ''+''" "int_text i \<noteq> []" for i using dec_Cons [of "nat i"] by (auto simp: int_text_def)
    have 4: "exponent_value ''0'' = 0" by (simp add: exponent_value_def digits_value_def)
    show ?thesis unfolding N using 1 2 3 4 d(1) exponent_int_text by simp
  qed
qed

section \<open>Documents\<close>

text \<open>What the parser returns, and the value that the canonical text reads back as.\<close>

fun json_ok :: "json \<Rightarrow> bool" where
  "json_ok (JNumber n) = normal_number n"
| "json_ok (JString s) = utf8_ValidString s"
| "json_ok (JArray xs) = (\<forall>x \<in> set xs. json_ok x)"
| "json_ok (JObject ms) = (distinct (map fst ms) \<and> (\<forall>(n, v) \<in> set ms. utf8_ValidString n \<and> json_ok v))"
| "json_ok _ = True"

fun json_sorted :: "json \<Rightarrow> json" where
  "json_sorted (JArray xs) = JArray (map json_sorted xs)"
| "json_sorted (JObject ms) = JObject (sort_key fst (map (\<lambda>(n, v). (n, json_sorted v)) ms))"
| "json_sorted v = v"

lemma json_name_valid: "json_name s = Some (n, r) \<Longrightarrow> utf8_ValidString n"
  by (auto simp: json_name_def split: list.splits if_splits option.splits dest: lex_string_valid)

lemma json_scalar_ok: "json_scalar c r = Some (v, r') \<Longrightarrow> json_ok v"
  by (auto simp: json_scalar_def split: if_splits dest: lex_string_valid normalize_normal)

lemma json_decode_ok:
  "\<forall>v r. json_decode s = Some (v, r) \<longrightarrow> json_ok v"
  "\<forall>vs r. json_items s = Some (vs, r) \<longrightarrow> (\<forall>v \<in> set vs. json_ok v)"
  "\<forall>ms r. json_members s seen = Some (ms, r) \<longrightarrow> json_ok (JObject seen) \<longrightarrow> json_ok (JObject ms)"
proof (induction s and s and s seen rule: json_decode_json_items_json_members.induct)
  case (1 s0)
  then show ?case
    by (subst json_decode.simps) (fastforce split: list.splits if_splits dest: json_scalar_ok)
next
  case (2 s)
  then show ?case
    by (subst json_items.simps) (fastforce split: list.splits if_splits option.splits)
next
  case (3 s seen)
  then show ?case
    by (subst json_members.simps) (fastforce split: list.splits if_splits option.splits dest: json_name_valid)
qed

lemma json_parse_ok: "json_parse raw = Some v \<Longrightarrow> json_ok v"
  using json_decode_ok(1) [of raw] by (auto simp: json_parse_def split: option.splits if_splits)

lemma json_ok_wf: "json_ok v \<Longrightarrow> json_wf v"
  by (induction v) auto

text \<open>Sorting the members commutes with mapping their values.\<close>

lemma insort_members: "insort_key fst (n, f v) (map (\<lambda>(n, v). (n, f v)) ms) = map (\<lambda>(n, v). (n, f v)) (insort_key fst (n, v) ms)"
  by (induction ms) auto

lemma sort_members: "sort_key fst (map (\<lambda>(n, v). (n, f v)) ms) = map (\<lambda>(n, v). (n, f v)) (sort_key fst ms)"
proof (induction ms)
  case (Cons m ms)
  then show ?case using insort_members [of "fst m" f "snd m" "sort_key fst ms"] by (cases m) simp
qed simp

lemma write_object: "writeCanonical (JObject ms) = CHR ''{'' # comma_separated (map (\<lambda>(n, v). marshal_string n @ CHR '':'' # writeCanonical v) (sort_key fst ms)) @ ''}''"
  by (simp only: writeCanonical.simps sort_members map_map) (simp add: comp_def case_prod_unfold)

definition plain_head :: "string \<Rightarrow> bool" where
  "plain_head s \<longleftrightarrow> s \<noteq> [] \<and> hd s \<notin> {CHR '' '', CHR 0x09, CHR 0x0A, CHR 0x0D, CHR '']'', CHR ''}''}"

lemma plain_head_skip: "plain_head s \<Longrightarrow> skip_ws (s @ r) = s @ r"
  by (cases s) (auto simp: plain_head_def skip_ws_def)

lemma plain_headI: "c \<notin> {CHR '' '', CHR 0x09, CHR 0x0A, CHR 0x0D, CHR '']'', CHR ''}''} \<Longrightarrow> plain_head (c # s)"
  by (simp add: plain_head_def)

lemma write_number_head: "normal_number n \<Longrightarrow> \<exists>c s. write_number n = c # s \<and> (c = CHR ''-'' \<or> is_digit c)"
  by (cases "num_digits n") (auto simp: write_number_def normal_number_def digit_text_def)

lemma write_head: "json_ok v \<Longrightarrow> plain_head (writeCanonical v)"
  using write_number_head by (cases v) (force simp: marshal_string_def write_object intro!: plain_headI simp del: writeCanonical.simps(6))+

lemma skip_ws_stop: "skip_ws (CHR '','' # r) = CHR '','' # r" "skip_ws (CHR '']'' # r) = CHR '']'' # r" "skip_ws (CHR ''}'' # r) = CHR ''}'' # r" "skip_ws (CHR '':'' # r) = CHR '':'' # r"
  "skip_ws (CHR 0x22 # r) = CHR 0x22 # r"
  by (simp_all add: skip_ws_def)

lemma skip_ws_open: "skip_ws (CHR ''['' # r) = CHR ''['' # r" "skip_ws (CHR ''{'' # r) = CHR ''{'' # r"
  by (simp_all add: skip_ws_def)

definition reads :: "json \<Rightarrow> bool" where
  "reads v \<longleftrightarrow> (\<forall>r. stops r \<longrightarrow> json_decode (writeCanonical v @ r) = Some (json_sorted v, r))"

lemma reads_items:
  "\<forall>v \<in> set (x # xs). reads v \<Longrightarrow> json_items (comma_separated (map writeCanonical (x # xs)) @ CHR '']'' # r) = Some (map json_sorted (x # xs), r)"
proof (induction xs arbitrary: x)
  case Nil
  then have "json_decode (writeCanonical x @ CHR '']'' # r) = Some (json_sorted x, CHR '']'' # r)" by (simp add: reads_def stops_def)
  then show ?case by (simp add: json_items.simps [of "writeCanonical x @ CHR '']'' # r"] skip_ws_stop)
next
  case (Cons y ys)
  let ?rest = "comma_separated (map writeCanonical (y # ys)) @ CHR '']'' # r"
  let ?s = "writeCanonical x @ CHR '','' # ?rest"
  have d: "json_decode ?s = Some (json_sorted x, CHR '','' # ?rest)" using Cons.prems by (simp add: reads_def stops_def)
  then have "shorter (CHR '','' # ?rest) ?s" using json_decode_shorter(1) by blast
  then have "shorter ?rest ?s" by (simp add: shorter_def)
  then have "json_items ?s = Some (map json_sorted (x # y # ys), r)" unfolding json_items.simps [of ?s] d using Cons.IH [of y] Cons.prems by (simp add: skip_ws_stop)
  then show ?case by simp
qed

lemma name_marshal: "utf8_ValidString n \<Longrightarrow> json_name (marshal_string n @ CHR '':'' # r) = Some (n, r)"
  using lex_marshal [of n "CHR '':'' # r"] by (simp add: json_name_def marshal_string_def skip_ws_stop)

lemma reads_members:
  "\<forall>(n, v) \<in> set ms. reads v \<and> utf8_ValidString n \<Longrightarrow> ms \<noteq> [] \<Longrightarrow> distinct (map fst (seen @ ms)) \<Longrightarrow>
     json_members (comma_separated (map (\<lambda>(n, v). marshal_string n @ CHR '':'' # writeCanonical v) ms) @ CHR ''}'' # r) seen =
       Some (seen @ map (\<lambda>(n, v). (n, json_sorted v)) ms, r)"
proof (induction ms arbitrary: seen)
  case (Cons m ms)
  obtain n v where m: "m = (n, v)" by fastforce
  let ?W = "map (\<lambda>(n, v). marshal_string n @ CHR '':'' # writeCanonical v)"
  have v: "reads v" "utf8_ValidString n" "n \<notin> fst ` set seen" using Cons.prems m by auto
  show ?case
  proof (cases "ms = []")
    case True
    let ?s = "marshal_string n @ CHR '':'' # writeCanonical v @ CHR ''}'' # r"
    have a: "json_name ?s = Some (n, writeCanonical v @ CHR ''}'' # r)" using name_marshal [OF v(2)] by simp
    have "json_decode (writeCanonical v @ CHR ''}'' # r) = Some (json_sorted v, CHR ''}'' # r)" using v(1) by (simp add: reads_def stops_def)
    then have "json_members ?s seen = Some (seen @ [(n, json_sorted v)], r)" using a v(3) json_name_shorter [OF a] by (simp add: json_members.simps [of ?s] skip_ws_stop)
    then show ?thesis using True m by simp
  next
    case False
    let ?rest = "comma_separated (?W ms) @ CHR ''}'' # r"
    let ?b = "writeCanonical v @ CHR '','' # ?rest"
    let ?s = "marshal_string n @ CHR '':'' # ?b"
    have a: "json_name ?s = Some (n, ?b)" using name_marshal [OF v(2)] by simp
    have d: "json_decode ?b = Some (json_sorted v, CHR '','' # ?rest)" using v(1) by (simp add: reads_def stops_def)
    have "shorter ?b ?s" "shorter (CHR '','' # ?rest) ?b" using json_name_shorter [OF a] json_decode_shorter(1) d by blast+
    then have sh: "shorter ?rest ?s" "shorter ?b ?s" by (simp_all add: shorter_def)
    have "distinct (map fst ((seen @ [(n, json_sorted v)]) @ ms))" using Cons.prems(3) m by auto
    then have "json_members ?rest (seen @ [(n, json_sorted v)]) = Some ((seen @ [(n, json_sorted v)]) @ map (\<lambda>(n, v). (n, json_sorted v)) ms, r)"
      using Cons.IH [OF _ False] Cons.prems(1) by auto
    then have "json_members ?s seen = Some (seen @ (n, json_sorted v) # map (\<lambda>(n, v). (n, json_sorted v)) ms, r)"
      using a d v(3) sh by (simp add: json_members.simps [of ?s] skip_ws_stop)
    moreover have "comma_separated (?W (m # ms)) @ CHR ''}'' # r = ?s" using False m by (cases ms) simp_all
    ultimately show ?thesis using m by simp
  qed
qed simp

lemma reads_ok: "json_ok v \<Longrightarrow> reads v"
proof (induction v)
  case (JArray xs)
  show ?case unfolding reads_def
  proof (intro allI impI)
    fix r
    show "json_decode (writeCanonical (JArray xs) @ r) = Some (json_sorted (JArray xs), r)"
    proof (cases xs)
      case Nil
      then show ?thesis by (simp add: json_decode.simps skip_ws_def)
    next
      case (Cons y ys)
      let ?t = "comma_separated (map writeCanonical (y # ys)) @ CHR '']'' # r"
      have "plain_head (writeCanonical y)" using JArray.prems Cons by (intro write_head) simp
      then have "plain_head (comma_separated (map writeCanonical (y # ys)))" by (cases ys) (auto simp: plain_head_def)
      then obtain d q where q: "skip_ws ?t = d # q" "d \<noteq> CHR '']''" using plain_head_skip [of "comma_separated (map writeCanonical (y # ys))" "CHR '']'' # r"]
        by (cases "comma_separated (map writeCanonical (y # ys))") (auto simp: plain_head_def)
      have "json_items ?t = Some (map json_sorted (y # ys), r)" using JArray.IH JArray.prems Cons by (intro reads_items) auto
      then have "json_decode (CHR ''['' # ?t) = Some (JArray (map json_sorted (y # ys)), r)"
        unfolding json_decode.simps [of "CHR ''['' # ?t"] skip_ws_open using q by simp
      then show ?thesis using Cons by simp
    qed
  qed
next
  case (JObject ms)
  show ?case unfolding reads_def
  proof (intro allI impI)
    fix r
    let ?ms = "sort_key fst ms"
    show "json_decode (writeCanonical (JObject ms) @ r) = Some (json_sorted (JObject ms), r)"
    proof (cases "ms = []")
      case True
      then show ?thesis by (simp add: json_decode.simps skip_ws_def)
    next
      case False
      let ?t = "comma_separated (map (\<lambda>(n, v). marshal_string n @ CHR '':'' # writeCanonical v) ?ms) @ CHR ''}'' # r"
      have ne: "?ms \<noteq> []" using False by (metis length_0_conv length_sort)
      then obtain q where q: "?t = CHR 0x22 # q" by (cases ?ms; cases "tl ?ms") (auto simp: marshal_string_def)
      have "json_members ?t [] = Some ([] @ map (\<lambda>(n, v). (n, json_sorted v)) ?ms, r)"
      proof (rule reads_members [OF _ ne])
        show "\<forall>(n, v) \<in> set ?ms. reads v \<and> utf8_ValidString n" using JObject.IH JObject.prems by fastforce
        show "distinct (map fst ([] @ ?ms))" using JObject.prems by (simp add: distinct_map)
      qed
      then have "json_decode (CHR ''{'' # ?t) = Some (JObject (map (\<lambda>(n, v). (n, json_sorted v)) ?ms), r)"
        unfolding json_decode.simps [of "CHR ''{'' # ?t"] skip_ws_open using q by (simp add: skip_ws_stop)
      then show ?thesis by (simp add: write_object sort_members del: writeCanonical.simps(6))
    qed
  qed
next
  case (JNumber n)
  then have n: "normal_number n" by simp
  obtain c s where c: "write_number n = c # s" "c = CHR ''-'' \<or> is_digit c" using write_number_head [OF n] by blast
  have ne: "c \<noteq> CHR ''n''" "c \<noteq> CHR ''t''" "c \<noteq> CHR ''f''" "c \<noteq> CHR 0x22" "c \<noteq> CHR ''[''" "c \<noteq> CHR ''{''" using c(2) by auto
  have "json_decode (write_number n @ r) = Some (JNumber n, r)" if r: "stops r" for r
  proof -
    have sk: "skip_ws (write_number n @ r) = c # s @ r" using plain_head_skip [OF write_head [OF JNumber.prems]] c(1) by simp
    have "json_scalar c (s @ r) = Some (JNumber n, r)" using lex_write_number [OF n r] normalize_write_number [OF n] c ne by (auto simp: json_scalar_def)
    then show ?thesis unfolding json_decode.simps [of "write_number n @ r"] sk using ne by (cases "skip_ws (s @ r)") simp_all
  qed
  then show ?case by (simp add: reads_def)
next
  case (JString s)
  have "json_decode (marshal_string s @ r) = Some (JString s, r)" for r
    using lex_marshal [of s r] JString unfolding json_decode.simps [of "marshal_string s @ r"] by (simp add: marshal_string_def skip_ws_stop json_scalar_def)
  then show ?case by (simp add: reads_def)
qed (auto simp: reads_def json_decode.simps skip_ws_def json_scalar_def)

section \<open>The canonical form\<close>

lemma members_unique:
  assumes "map_of xs = map_of ys" "distinct (map fst xs)" "distinct (map fst ys)"
  shows "sort_key fst xs = sort_key fst (ys :: (string \<times> 'a) list)"
proof (rule map_sorted_distinct_set_unique [of fst])
  have "set xs = set ys" using assms by (simp add: map_of_inject_set)
  then show "inj_on fst (set (sort_key fst xs) \<union> set (sort_key fst ys))" "set (sort_key fst xs) = set (sort_key fst ys)"
    using assms(2) by (simp_all add: distinct_map)
qed (use assms(2,3) in \<open>simp_all add: distinct_map\<close>)

lemma map_members_fst [simp]: "map fst (map (\<lambda>(n, v). (n, f v)) ms) = map fst ms"
  by (induction ms) auto

lemma write_abs: "json_wf v \<Longrightarrow> json_wf w \<Longrightarrow> json_abs v = json_abs w \<Longrightarrow> writeCanonical v = writeCanonical w"
proof (induction v arbitrary: w)
  case (JArray xs)
  then obtain ys where w: "w = JArray ys" "map json_abs xs = map json_abs ys" by (cases w) auto
  have len: "length xs = length ys" using w(2) by (rule map_eq_imp_length_eq)
  have "map writeCanonical xs = map writeCanonical ys"
  proof (rule nth_equalityI)
    fix k assume "k < length (map writeCanonical xs)"
    then have k: "k < length xs" "k < length ys" using len by simp_all
    have "json_abs (xs ! k) = json_abs (ys ! k)" using w(2) k by (metis nth_map)
    then show "map writeCanonical xs ! k = map writeCanonical ys ! k" using JArray.IH [of "xs ! k" "ys ! k"] JArray.prems(1,2) w(1) k by simp
  qed (use len in simp)
  then show ?case using w(1) by simp
next
  case (JObject ms)
  then obtain ms' where w: "w = JObject ms'" "map_of (map (\<lambda>(n, v). (n, json_abs v)) ms) = map_of (map (\<lambda>(n, v). (n, json_abs v)) ms')" by (cases w) auto
  have eq: "map_option json_abs (map_of ms n) = map_option json_abs (map_of ms' n)" for n using w(2) by (simp add: map_of_map_abs fun_eq_iff)
  have "map_option writeCanonical (map_of ms n) = map_option writeCanonical (map_of ms' n)" for n
  proof (cases "map_of ms n")
    case None then show ?thesis using eq [of n] by simp
  next
    case (Some v)
    then obtain v' where v': "map_of ms' n = Some v'" "json_abs v = json_abs v'" using eq [of n] by (cases "map_of ms' n") auto
    have "(n, v) \<in> set ms" "(n, v') \<in> set ms'" using Some v'(1) by (auto dest: map_of_SomeD)
    then have "writeCanonical v = writeCanonical v'" using JObject.IH [of "(n, v)" v v'] JObject.prems(1,2) w(1) v'(2) by auto
    then show ?thesis using Some v'(1) by simp
  qed
  then have "map_of (map (\<lambda>(n, v). (n, writeCanonical v)) ms) = map_of (map (\<lambda>(n, v). (n, writeCanonical v)) ms')" by (simp add: map_of_map_abs fun_eq_iff)
  then have "sort_key fst (map (\<lambda>(n, v). (n, writeCanonical v)) ms) = sort_key fst (map (\<lambda>(n, v). (n, writeCanonical v)) ms')"
    by (rule members_unique) (use JObject.prems(1,2) w(1) in \<open>simp_all only: map_members_fst json_wf.simps\<close>)
  then show ?case using w(1) by simp
qed (case_tac w; simp)+

lemma sorted_abs: "json_wf v \<Longrightarrow> json_abs (json_sorted v) = json_abs v \<and> json_wf (json_sorted v)"
proof (induction v)
  case (JObject ms)
  have IH: "json_abs (json_sorted v) = json_abs v" "json_wf (json_sorted v)" if "(n, v) \<in> set ms" for n v using JObject.IH [of "(n, v)" v] JObject.prems that by auto
  have d: "distinct (map fst ms)" using JObject.prems by simp
  let ?f = "map (\<lambda>(n, v). (n, json_abs v))"
  have "?f (map (\<lambda>(n, v). (n, json_sorted v)) (sort_key fst ms)) = ?f (sort_key fst ms)" using IH by (auto simp: case_prod_unfold)
  moreover have "map_of (?f (sort_key fst ms)) = map_of (?f ms)"
    using d by (subst map_of_inject_set) (simp_all only: map_members_fst set_map set_sort, simp_all add: distinct_map)
  ultimately have "json_abs (json_sorted (JObject ms)) = json_abs (JObject ms)" by (simp only: json_sorted.simps json_abs.simps sort_members)
  moreover have "distinct (map fst (sort_key fst ms))" using d by (simp add: distinct_map)
  then have "json_wf (json_sorted (JObject ms))" unfolding json_sorted.simps json_wf.simps sort_members map_members_fst using IH(2) by auto
  ultimately show ?case by blast
qed auto

lemma parse_write: "json_ok v \<Longrightarrow> json_parse (writeCanonical v) = Some (json_sorted v)"
  using reads_ok [of v] by (auto simp: reads_def json_parse_def skip_ws_def stops_def dest: spec [of _ "[]"])

text \<open>
  C13. The canonical encoding is a canonical form of JSON documents: every unambiguous document has one and no
  other text has; reading it back gives a document equal to the original, which is its own encoding; and two
  documents have the same encoding exactly when they are equal, whatever their white space, member order,
  escapes or spelling of numbers. Digests of the encoding therefore identify JSON values.
\<close>

theorem canonical_form:
  "(Canonical raw \<noteq> None \<longleftrightarrow> jsonvalue_Valid raw) \<and>
   (\<forall>c. Canonical raw = Some c \<longrightarrow> jsonvalue_Equal c raw \<and> Canonical c = Some c) \<and>
   (jsonvalue_Equal raw raw' \<longleftrightarrow> (\<exists>c. Canonical raw = Some c \<and> Canonical raw' = Some c))"
proof -
  have stable: "jsonvalue_Equal c raw \<and> Canonical c = Some c" if c: "Canonical raw = Some c" for c raw
  proof -
    obtain v where v: "json_parse raw = Some v" "c = writeCanonical v" using c by (auto simp: Canonical_def)
    have ok: "json_ok v" "json_wf v" using json_parse_ok [OF v(1)] json_ok_wf by blast+
    have p: "json_parse c = Some (json_sorted v)" using parse_write [OF ok(1)] v(2) by simp
    note a = sorted_abs [OF ok(2)]
    have "writeCanonical (json_sorted v) = writeCanonical v" using a ok(2) by (intro write_abs) simp_all
    then show ?thesis using p a v by (simp add: jsonvalue_Equal_meaning json_meaning_def Canonical_def)
  qed
  have "jsonvalue_Equal raw raw' \<longleftrightarrow> (\<exists>c. Canonical raw = Some c \<and> Canonical raw' = Some c)"
  proof
    assume "jsonvalue_Equal raw raw'"
    then obtain v w where "json_parse raw = Some v" "json_parse raw' = Some w" "json_abs v = json_abs w"
      by (cases "json_parse raw'") (auto simp: jsonvalue_Equal_meaning json_meaning_def)
    then show "\<exists>c. Canonical raw = Some c \<and> Canonical raw' = Some c" using write_abs json_parse_wf by (auto simp: Canonical_def)
  next
    assume "\<exists>c. Canonical raw = Some c \<and> Canonical raw' = Some c"
    then show "jsonvalue_Equal raw raw'" using stable jsonvalue_Equal_sym jsonvalue_Equal_trans by blast
  qed
  then show ?thesis using stable by (auto simp: Canonical_def jsonvalue_Valid_def)
qed

theorem canonical_form_witness:
  "Canonical ''[ 1.50, 10, 0e3 ]'' = Some ''[15e-1,1e1,0]'' \<and> jsonvalue_Equal ''[15e-1,1e1,0]'' ''[ 1.50, 10, 0e3 ]'' \<and> Canonical ''[15e-1,1e1,0]'' = Some ''[15e-1,1e1,0]''"
proof -
  have "Canonical ''[ 1.50, 10, 0e3 ]'' = Some ''[15e-1,1e1,0]''" by code_simp
  then show ?thesis using canonical_form [of "''[ 1.50, 10, 0e3 ]''"] by simp
qed

end
