(* ===== verification/Event_Stream.thy ===== *)
theory Event_Stream
  imports Agent_Types "HOL-Library.Sublist"
begin

text \<open>
  The event streams of a Session runtime (\<^verbatim>\<open>standardagent/event_stream.go\<close>, the event contract of
  \<^verbatim>\<open>interaction/contracts.go\<close>): one hub per runtime, one bounded queue per subscriber, readers that wait on a
  channel. A pointer to a stream is its position in \<open>hub_streams\<close>. The channel \<^verbatim>\<open>changed\<close> is a number drawn anew by
  every \<^verbatim>\<open>make\<close>; \<open>es_shut\<close> are the closed ones, and closing one of them again is the run-time panic
  \<open>CloseOfClosedChannel\<close>. A nil map of subscribers has no elements, as in Go.
\<close>

section \<open>Events and streams\<close>

datatype EventKind = EventChunk | EventReset | EventRevision | EventKind_text string

record Event =
  evt_Kind :: EventKind
  evt_SessionID :: SessionID
  evt_RunID :: RunID
  evt_StepID :: StepID
  evt_MessageID :: MessageID
  evt_AttemptID :: string
  evt_Revision :: Revision
  evt_Text :: string

datatype streamError = ErrEventStreamClosed | ErrEventStreamOverflow

datatype channelPanic = CloseOfClosedChannel

definition eventStreamBufferLimit :: nat where
  "eventStreamBufferLimit = 1024"

record runtimeEventStream =
  es_changed :: nat
  es_shut :: "nat set"
  es_queue :: "Event list"
  es_closed :: bool
  es_err :: "streamError option"

definition temporary :: "Event \<Rightarrow> bool" where
  "temporary e \<longleftrightarrow> evt_Kind e = EventChunk \<or> evt_Kind e = EventReset"

definition closeChanged :: "runtimeEventStream \<Rightarrow> channelPanic + runtimeEventStream" where
  "closeChanged s = (if es_changed s \<in> es_shut s then Inl CloseOfClosedChannel
     else Inr (s\<lparr>es_shut := insert (es_changed s) (es_shut s)\<rparr>))"

text \<open>The loop over the queue: the first temporary event is taken out and the later ones move up.\<close>

fun dropTemporary :: "Event list \<Rightarrow> Event list option" where
  "dropTemporary [] = None"
| "dropTemporary (e # q) = (if temporary e then Some q else map_option (Cons e) (dropTemporary q))"

definition pushEvent :: "Event \<Rightarrow> Event list \<Rightarrow> runtimeEventStream \<Rightarrow> channelPanic + bool \<times> runtimeEventStream" where
  "pushEvent e q s = bindE (closeChanged (s\<lparr>es_queue := q @ [e]\<rparr>)) (\<lambda>t.
     Inr (True, t\<lparr>es_changed := es_changed t + 1\<rparr>))"

definition enqueue :: "Event \<Rightarrow> runtimeEventStream \<Rightarrow> channelPanic + bool \<times> runtimeEventStream" where
  "enqueue e s =
    (if es_closed s then Inr (False, s)
     else if eventStreamBufferLimit \<le> length (es_queue s) then
       (if temporary e then Inr (True, s)
        else case dropTemporary (es_queue s) of
            None \<Rightarrow> bindE (closeChanged (s\<lparr>es_closed := True, es_err := Some ErrEventStreamOverflow, es_queue := []\<rparr>))
              (\<lambda>t. Inr (False, t))
          | Some q \<Rightarrow> pushEvent e q s)
     else pushEvent e (es_queue s) s)"

text \<open>\<^verbatim>\<open>Close\<close> up to the unlock, and \<^verbatim>\<open>closeFromHub\<close>: the same section. The result tells whether the call closed it.\<close>

definition closeStream :: "runtimeEventStream \<Rightarrow> channelPanic + bool \<times> runtimeEventStream" where
  "closeStream s =
    (if es_closed s then Inr (False, s)
     else bindE (closeChanged (s\<lparr>es_closed := True, es_queue := []\<rparr>)) (\<lambda>t. Inr (True, t)))"

text \<open>One round of the loop of \<^verbatim>\<open>Recv\<close> under the lock: an event, an error, or the channel to wait for.\<close>

datatype recvAnswer = RecvEvent Event runtimeEventStream | RecvError streamError | RecvWait nat

definition recvRound :: "runtimeEventStream \<Rightarrow> recvAnswer" where
  "recvRound s = (case es_queue s of
      e # q \<Rightarrow> RecvEvent e (s\<lparr>es_queue := q\<rparr>)
    | [] \<Rightarrow> if es_closed s then RecvError (case es_err s of Some e \<Rightarrow> e | None \<Rightarrow> ErrEventStreamClosed)
            else RecvWait (es_changed s))"

section \<open>The hub\<close>

record eventHub =
  hub_streams :: "runtimeEventStream list"
  hub_subscribers :: "nat set"
  hub_closed :: bool

definition newEventHub :: eventHub where
  "newEventHub = \<lparr>hub_streams = [], hub_subscribers = {}, hub_closed = False\<rparr>"

definition hub_subscribe :: "eventHub \<Rightarrow> streamError + nat \<times> eventHub" where
  "hub_subscribe h = (if hub_closed h then Inl ErrEventStreamClosed
     else let i = length (hub_streams h) in
       Inr (i, h\<lparr>hub_streams := hub_streams h @ [\<lparr>es_changed = 0, es_shut = {}, es_queue = [], es_closed = False, es_err = None\<rparr>],
                 hub_subscribers := insert i (hub_subscribers h)\<rparr>))"

definition publishTo :: "Event \<Rightarrow> eventHub \<Rightarrow> nat \<Rightarrow> channelPanic + eventHub" where
  "publishTo e h i = bindE (enqueue e (hub_streams h ! i)) (\<lambda>(kept, s).
     Inr (h\<lparr>hub_streams := (hub_streams h)[i := s],
            hub_subscribers := if kept then hub_subscribers h else hub_subscribers h - {i}\<rparr>))"

text \<open>
  \<open>order\<close> is the order in which Go ranges over the subscribers. The hub stays locked for the whole loop, and each
  turn changes one stream under that stream's lock.
\<close>

definition publish :: "nat list \<Rightarrow> Event \<Rightarrow> eventHub \<Rightarrow> channelPanic + eventHub" where
  "publish order e h = (if hub_closed h then Inr h else foldE (publishTo e) h order)"

definition hub_remove :: "nat \<Rightarrow> eventHub \<Rightarrow> eventHub" where
  "hub_remove i h = h\<lparr>hub_subscribers := hub_subscribers h - {i}\<rparr>"

text \<open>\<^verbatim>\<open>close\<close> under the hub's lock: the streams that are then closed one by one, and the hub.\<close>

definition hub_close :: "nat list \<Rightarrow> eventHub \<Rightarrow> nat list \<times> eventHub" where
  "hub_close order h = (if hub_closed h then ([], h) else (order, h\<lparr>hub_closed := True, hub_subscribers := {}\<rparr>))"

definition hub_closeStream :: "nat \<Rightarrow> eventHub \<Rightarrow> channelPanic + bool \<times> eventHub" where
  "hub_closeStream i h = bindE (closeStream (hub_streams h ! i)) (\<lambda>(did, s). Inr (did, h\<lparr>hub_streams := (hub_streams h)[i := s]\<rparr>))"

section \<open>Steps\<close>

text \<open>
  The hub with the calls that are under way: \<open>sys_removing\<close> are the streams whose \<^verbatim>\<open>Close\<close> has not yet removed them,
  \<open>sys_closing\<close> those the closing hub has still to close, and \<open>sys_readers\<close> the \<^verbatim>\<open>Recv\<close> calls that wait, each with its
  stream and channel. A trace lists what subscribers and publishers can observe.
\<close>

record hubSystem =
  sys_hub :: eventHub
  sys_removing :: "nat list"
  sys_closing :: "nat list"
  sys_readers :: "nat \<rightharpoonup> nat \<times> nat"

datatype hubAction = Subscribed nat | Published Event | Received nat Event | Ended nat streamError

definition newHubSystem :: hubSystem where
  "newHubSystem = \<lparr>sys_hub = newEventHub, sys_removing = [], sys_closing = [], sys_readers = Map.empty\<rparr>"

abbreviation sys_stream :: "hubSystem \<Rightarrow> nat \<Rightarrow> runtimeEventStream" where
  "sys_stream y i \<equiv> hub_streams (sys_hub y) ! i"

abbreviation sys_count :: "hubSystem \<Rightarrow> nat" where
  "sys_count y \<equiv> length (hub_streams (sys_hub y))"

definition set_stream :: "nat \<Rightarrow> runtimeEventStream \<Rightarrow> hubSystem \<Rightarrow> hubSystem" where
  "set_stream i s y = y\<lparr>sys_hub := (sys_hub y)\<lparr>hub_streams := (hub_streams (sys_hub y))[i := s]\<rparr>\<rparr>"

inductive hub_run :: "hubAction list \<Rightarrow> hubSystem \<Rightarrow> bool" where
  run_new: "hub_run [] newHubSystem"
| run_subscribe: "hub_run tr y \<Longrightarrow> hub_subscribe (sys_hub y) = Inr (i, h) \<Longrightarrow>
    hub_run (tr @ [Subscribed i]) (y\<lparr>sys_hub := h\<rparr>)"
| run_publish: "hub_run tr y \<Longrightarrow> distinct order \<Longrightarrow> set order = hub_subscribers (sys_hub y) \<Longrightarrow>
    publish order e (sys_hub y) = Inr h \<Longrightarrow> hub_run (tr @ [Published e]) (y\<lparr>sys_hub := h\<rparr>)"
| run_receive: "hub_run tr y \<Longrightarrow> i < sys_count y \<Longrightarrow> recvRound (sys_stream y i) = RecvEvent e s \<Longrightarrow>
    hub_run (tr @ [Received i e]) (set_stream i s y)"
| run_end: "hub_run tr y \<Longrightarrow> i < sys_count y \<Longrightarrow> recvRound (sys_stream y i) = RecvError x \<Longrightarrow>
    hub_run (tr @ [Ended i x]) y"
| run_wait: "hub_run tr y \<Longrightarrow> i < sys_count y \<Longrightarrow> sys_readers y r = None \<Longrightarrow> recvRound (sys_stream y i) = RecvWait c \<Longrightarrow>
    hub_run tr (y\<lparr>sys_readers := (sys_readers y)(r \<mapsto> (i, c))\<rparr>)"
| run_wake: "hub_run tr y \<Longrightarrow> sys_readers y r = Some (i, c) \<Longrightarrow> c \<in> es_shut (sys_stream y i) \<Longrightarrow>
    hub_run tr (y\<lparr>sys_readers := (sys_readers y)(r := None)\<rparr>)"
| run_give_up: "hub_run tr y \<Longrightarrow> hub_run tr (y\<lparr>sys_readers := (sys_readers y)(r := None)\<rparr>)"
| run_close: "hub_run tr y \<Longrightarrow> i < sys_count y \<Longrightarrow> hub_closeStream i (sys_hub y) = Inr (did, h) \<Longrightarrow>
    hub_run tr (y\<lparr>sys_hub := h, sys_removing := (if did then i # sys_removing y else sys_removing y)\<rparr>)"
| run_remove: "hub_run tr y \<Longrightarrow> i \<in> set (sys_removing y) \<Longrightarrow>
    hub_run tr (y\<lparr>sys_hub := hub_remove i (sys_hub y), sys_removing := remove1 i (sys_removing y)\<rparr>)"
| run_close_hub: "hub_run tr y \<Longrightarrow> distinct order \<Longrightarrow> set order = hub_subscribers (sys_hub y) \<Longrightarrow>
    hub_close order (sys_hub y) = (is, h) \<Longrightarrow> hub_run tr (y\<lparr>sys_hub := h, sys_closing := is @ sys_closing y\<rparr>)"
| run_close_from_hub: "hub_run tr y \<Longrightarrow> sys_closing y = i # is \<Longrightarrow> hub_closeStream i (sys_hub y) = Inr (did, h) \<Longrightarrow>
    hub_run tr (y\<lparr>sys_hub := h, sys_closing := is\<rparr>)"

text \<open>What stream \<open>i\<close> was offered since it was subscribed, and what its readers were given, oldest first.\<close>

fun offered :: "nat \<Rightarrow> hubAction list \<Rightarrow> Event list" where
  "offered i [] = []"
| "offered i (Subscribed j # tr) = (if i = j then concat (map (\<lambda>a. case a of Published e \<Rightarrow> [e] | _ \<Rightarrow> []) tr) else offered i tr)"
| "offered i (_ # tr) = offered i tr"

definition received :: "nat \<Rightarrow> hubAction list \<Rightarrow> Event list" where
  "received i tr = concat (map (\<lambda>a. case a of Received j e \<Rightarrow> if i = j then [e] else [] | _ \<Rightarrow> []) tr)"

abbreviation durable :: "Event list \<Rightarrow> Event list" where
  "durable es \<equiv> filter (\<lambda>e. \<not> temporary e) es"

section \<open>One stream\<close>

lemma durable_dropTemporary: "dropTemporary q = Some q' \<Longrightarrow> durable q' = durable q"
  by (induction q arbitrary: q') (auto split: if_splits)

lemma subseq_dropTemporary: "dropTemporary q = Some q' \<Longrightarrow> subseq q' q"
  by (induction q arbitrary: q') (auto split: if_splits intro: list_emb_Cons)

lemma length_dropTemporary: "dropTemporary q = Some q' \<Longrightarrow> length q = Suc (length q')"
  by (induction q arbitrary: q') (auto split: if_splits)

lemma dropTemporary_None: "dropTemporary q = None \<Longrightarrow> durable q = q"
  by (induction q) (auto split: if_splits)

text \<open>
  The invariant of a stream that was offered \<open>off\<close> and whose readers were given \<open>rcv\<close>; \<open>live\<close> says that the hub is
  open, so that what is offered also reaches the stream.
\<close>

definition stream_ok :: "bool \<Rightarrow> Event list \<Rightarrow> Event list \<Rightarrow> runtimeEventStream \<Rightarrow> bool" where
  "stream_ok live off rcv s \<longleftrightarrow>
     es_shut s = (if es_closed s then {..es_changed s} else {..<es_changed s}) \<and>
     length (es_queue s) \<le> eventStreamBufferLimit \<and>
     (es_closed s \<longrightarrow> es_queue s = []) \<and>
     subseq (rcv @ es_queue s) off \<and>
     prefix (durable (rcv @ es_queue s)) (durable off) \<and>
     (live \<and> \<not> es_closed s \<longrightarrow> durable (rcv @ es_queue s) = durable off \<and>
        (rcv @ es_queue s = off \<or> eventStreamBufferLimit < length off)) \<and>
     (es_err s = Some ErrEventStreamOverflow \<longrightarrow> es_closed s \<and>
        length (durable rcv) + eventStreamBufferLimit < length (durable off)) \<and>
     es_err s \<noteq> Some ErrEventStreamClosed"

lemma stream_ok_new: "stream_ok live [] [] \<lparr>es_changed = 0, es_shut = {}, es_queue = [], es_closed = False, es_err = None\<rparr>"
  by (simp add: stream_ok_def)

lemma stream_ok_offline: "stream_ok live off rcv s \<Longrightarrow> stream_ok False off rcv s"
  by (simp add: stream_ok_def)

lemma stream_ok_offer:
  assumes "stream_ok live off rcv s" "\<not> live \<or> es_closed s"
  shows "stream_ok live (off @ [e]) rcv s"
  using assms by (auto simp: stream_ok_def intro: prefix_prefix list_emb_prefix)

text \<open>
  A reader that got channel \<open>c\<close> may wait while it is open; \<open>woken s t\<close> says that a change of the queue from \<open>s\<close> to \<open>t\<close>
  replaced the channel or left no event to wait for.
\<close>

definition reader_ok :: "nat \<Rightarrow> runtimeEventStream \<Rightarrow> bool" where
  "reader_ok c s \<longleftrightarrow> c \<le> es_changed s \<and> (c = es_changed s \<longrightarrow> es_queue s = [])"

definition woken :: "runtimeEventStream \<Rightarrow> runtimeEventStream \<Rightarrow> bool" where
  "woken s t \<longleftrightarrow> es_changed s < es_changed t \<or> es_changed t = es_changed s \<and> (es_queue t = es_queue s \<or> es_queue t = [])"

lemma reader_ok_woken: "woken s t \<Longrightarrow> reader_ok c s \<Longrightarrow> reader_ok c t"
  by (auto simp: woken_def reader_ok_def)

lemma woken_refl [simp]: "woken s s"
  by (simp add: woken_def)

lemma subseq_snoc: "subseq xs ys \<Longrightarrow> subseq (xs @ [e]) (ys @ [e])"
  by (simp add: list_emb_append_mono)

lemma pushEvent_ok:
  assumes ok: "stream_ok True off rcv s" and opn: "\<not> es_closed s" and len: "length q < eventStreamBufferLimit"
    and sub: "subseq q (es_queue s)" and dur: "durable q = durable (es_queue s)"
    and all: "q = es_queue s \<or> eventStreamBufferLimit \<le> length off"
  obtains t where "pushEvent e q s = Inr (True, t)" "stream_ok True (off @ [e]) rcv t" "es_changed s < es_changed t" "\<not> es_closed t"
proof -
  define t where "t = s\<lparr>es_queue := q @ [e], es_shut := insert (es_changed s) (es_shut s), es_changed := es_changed s + 1\<rparr>"
  have push: "pushEvent e q s = Inr (True, t)"
    using ok opn by (simp add: pushEvent_def closeChanged_def t_def stream_ok_def bindE_def)
  have inv: "es_shut s = {..<es_changed s}" "durable rcv @ durable (es_queue s) = durable off" "subseq (rcv @ es_queue s) off"
    "rcv @ es_queue s = off \<or> eventStreamBufferLimit < length off"
    using ok opn by (simp_all add: stream_ok_def)
  have err: "es_err s = None"
    using ok opn by (cases "es_err s"; cases "the (es_err s)") (simp_all add: stream_ok_def)
  have "subseq (rcv @ q) off"
    by (rule subseq_order.trans [OF list_emb_append_mono [OF _ sub] inv(3)]) simp
  then have "subseq (rcv @ q @ [e]) (off @ [e])" using subseq_snoc [of "rcv @ q"] by simp
  moreover have "rcv @ q @ [e] = off @ [e] \<or> eventStreamBufferLimit < Suc (length off)" using all inv(4) by auto
  moreover have "insert (es_changed s) {..<es_changed s} = {..<es_changed s + 1}" by auto
  moreover have "durable (rcv @ q @ [e]) = durable (off @ [e])" using inv(2) dur by simp
  ultimately have "stream_ok True (off @ [e]) rcv t"
    unfolding stream_ok_def using opn len inv(1) err by (simp add: t_def)
  with push show thesis using that opn by (simp add: t_def)
qed

lemma overflow_ok:
  assumes ok: "stream_ok True off rcv s" and opn: "\<not> es_closed s" and full: "eventStreamBufferLimit \<le> length (es_queue s)"
    and dur: "\<not> temporary e" and none: "dropTemporary (es_queue s) = None"
  obtains t where "enqueue e s = Inr (False, t)" "stream_ok True (off @ [e]) rcv t" "woken s t" "es_closed t"
proof -
  define t where "t = s\<lparr>es_closed := True, es_err := Some ErrEventStreamOverflow, es_queue := [], es_shut := insert (es_changed s) (es_shut s)\<rparr>"
  have enq: "enqueue e s = Inr (False, t)"
    using ok opn full dur none by (simp add: enqueue_def closeChanged_def t_def stream_ok_def bindE_def)
  have inv: "es_shut s = {..<es_changed s}" "durable rcv @ durable (es_queue s) = durable off" "subseq (rcv @ es_queue s) off"
    using ok opn by (simp_all add: stream_ok_def)
  have "length (durable off) = length (durable rcv) + length (es_queue s)"
    by (simp flip: inv(2) add: dropTemporary_None [OF none])
  moreover have "subseq rcv off" by (rule subseq_order.trans [OF _ inv(3)]) (simp add: list_emb_prefix)
  moreover have "prefix (durable rcv) (durable (off @ [e]))" by (simp flip: inv(2))
  moreover have "insert (es_changed s) {..<es_changed s} = {..es_changed s}" by auto
  ultimately have "stream_ok True (off @ [e]) rcv t"
    unfolding stream_ok_def using full dur inv(1) by (simp add: t_def list_emb_prefix)
  with enq show thesis using that by (simp add: t_def woken_def)
qed

lemma stream_ok_length:
  assumes "stream_ok live off rcv s"
  shows "length rcv + length (es_queue s) \<le> length off"
  using assms list_emb_length [of "(=)" "rcv @ es_queue s" off] by (simp add: stream_ok_def)

lemma enqueue_ok:
  assumes ok: "stream_ok True off rcv s"
  obtains k t where "enqueue e s = Inr (k, t)" "stream_ok True (off @ [e]) rcv t" "woken s t" "k \<or> es_closed t"
    "es_closed s \<Longrightarrow> es_closed t"
proof -
  consider "es_closed s" | "\<not> es_closed s" "length (es_queue s) < eventStreamBufferLimit"
    | "\<not> es_closed s" "eventStreamBufferLimit \<le> length (es_queue s)" "temporary e"
    | "\<not> es_closed s" "eventStreamBufferLimit \<le> length (es_queue s)" "\<not> temporary e" "dropTemporary (es_queue s) = None"
    | q where "\<not> es_closed s" "eventStreamBufferLimit \<le> length (es_queue s)" "\<not> temporary e" "dropTemporary (es_queue s) = Some q"
    by (metis not_le option.exhaust)
  then show thesis
  proof cases
    case 1
    then show thesis using that [of False s] stream_ok_offer [OF ok] by (simp add: enqueue_def)
  next
    case 2
    then obtain t where "pushEvent e (es_queue s) s = Inr (True, t)" "stream_ok True (off @ [e]) rcv t" "es_changed s < es_changed t"
      using pushEvent_ok [OF ok, of "es_queue s" e] by blast
    then show thesis using that [of True t] 2 by (simp add: enqueue_def woken_def)
  next
    case 3
    have "stream_ok True (off @ [e]) rcv s"
      using ok 3 stream_ok_length [OF ok] by (simp add: stream_ok_def list_emb_prefix)
    then show thesis using that [of True s] 3 by (simp add: enqueue_def)
  next
    case 4
    then show thesis using overflow_ok [OF ok, of e] that by blast
  next
    case (5 q)
    have len: "length (es_queue s) \<le> length off" using stream_ok_length [OF ok] by simp
    have "length q < eventStreamBufferLimit"
      using 5 length_dropTemporary [of "es_queue s" q] ok by (simp add: stream_ok_def)
    then obtain t where "pushEvent e q s = Inr (True, t)" "stream_ok True (off @ [e]) rcv t" "es_changed s < es_changed t"
      using pushEvent_ok [OF ok 5(1), of q e] subseq_dropTemporary [OF 5(4)] durable_dropTemporary [OF 5(4)] 5(2) len
      by (metis order.trans)
    then show thesis using that [of True t] 5 by (simp add: enqueue_def woken_def)
  qed
qed

lemma recv_ok:
  assumes "stream_ok live off rcv s" "recvRound s = RecvEvent e t"
  shows "stream_ok live off (rcv @ [e]) t \<and> es_changed t = es_changed s \<and> es_queue s \<noteq> [] \<and> es_closed t = es_closed s \<and> es_shut t = es_shut s"
proof -
  obtain q where q: "es_queue s = e # q" "t = s\<lparr>es_queue := q\<rparr>"
    using assms(2) by (auto simp: recvRound_def split: list.splits if_splits)
  have opn: "\<not> es_closed s" "es_err s \<noteq> Some ErrEventStreamOverflow" using assms(1) q by (auto simp: stream_ok_def)
  show ?thesis using assms(1) q opn by (simp add: stream_ok_def)
qed

lemma closeStream_ok:
  assumes ok: "stream_ok live off rcv s"
  obtains did t where "closeStream s = Inr (did, t)" "stream_ok live off rcv t" "woken s t" "es_closed t"
proof (cases "es_closed s")
  case True
  then show thesis using that [of False s] ok by (simp add: closeStream_def)
next
  case False
  define t where "t = s\<lparr>es_closed := True, es_queue := [], es_shut := insert (es_changed s) (es_shut s)\<rparr>"
  have "closeStream s = Inr (True, t)"
    using ok False by (simp add: closeStream_def closeChanged_def t_def stream_ok_def bindE_def)
  moreover have "subseq rcv off" "prefix (durable rcv) (durable off)"
  proof -
    have "subseq (rcv @ es_queue s) off" "prefix (durable rcv @ durable (es_queue s)) (durable off)"
      using ok by (simp_all add: stream_ok_def)
    then show "subseq rcv off" "prefix (durable rcv) (durable off)"
      by (auto intro: subseq_order.trans [OF _ \<open>subseq (rcv @ es_queue s) off\<close>] list_emb_prefix dest: append_prefixD)
  qed
  moreover have "insert (es_changed s) {..<es_changed s} = {..es_changed s}" by auto
  ultimately have "stream_ok live off rcv t" using ok False by (simp add: stream_ok_def t_def)
  then show thesis using that \<open>closeStream s = Inr (True, t)\<close> by (simp add: t_def woken_def)
qed

section \<open>The whole system\<close>

lemma offered_Published:
  "offered i (tr @ [Published e]) = offered i tr @ (if Subscribed i \<in> set tr then [e] else [])"
  by (induction i tr rule: offered.induct) auto

lemma offered_other:
  "a \<notin> range Published \<Longrightarrow> offered i (tr @ [a]) = offered i tr"
  by (cases a; induction i tr rule: offered.induct) auto

lemma received_snoc:
  "received i (tr @ [a]) = received i tr @ (case a of Received j e \<Rightarrow> if i = j then [e] else [] | _ \<Rightarrow> [])"
  by (simp add: received_def)

lemma offered_none: "Subscribed i \<notin> set tr \<Longrightarrow> offered i tr = []"
  by (induction i tr rule: offered.induct) auto

text \<open>The effect of the publishing loop on every stream, for any order of the subscribers.\<close>

definition served :: "Event \<Rightarrow> (nat \<Rightarrow> Event list) \<Rightarrow> (nat \<Rightarrow> Event list) \<Rightarrow> eventHub \<Rightarrow> eventHub \<Rightarrow> nat \<Rightarrow> bool" where
  "served e off rcv h h' i \<longleftrightarrow> stream_ok True (off i @ [e]) (rcv i) (hub_streams h' ! i) \<and>
     woken (hub_streams h ! i) (hub_streams h' ! i) \<and>
     (es_closed (hub_streams h ! i) \<longrightarrow> es_closed (hub_streams h' ! i)) \<and>
     (i \<in> hub_subscribers h \<longrightarrow> i \<in> hub_subscribers h' \<or> es_closed (hub_streams h' ! i))"

lemma publish_loop:
  assumes "distinct order" "\<And>i. i \<in> set order \<Longrightarrow> i < length (hub_streams h) \<and> stream_ok True (off i) (rcv i) (hub_streams h ! i)"
  shows "\<exists>h'. foldE (publishTo e) h order = Inr h' \<and> length (hub_streams h') = length (hub_streams h) \<and> hub_closed h' = hub_closed h \<and>
    hub_subscribers h' \<subseteq> hub_subscribers h \<and>
    (\<forall>i. i \<notin> set order \<longrightarrow> hub_streams h' ! i = hub_streams h ! i \<and> (i \<in> hub_subscribers h \<longrightarrow> i \<in> hub_subscribers h')) \<and>
    (\<forall>i\<in>set order. served e off rcv h h' i)"
  using assms
proof (induction order arbitrary: h)
  case Nil
  then show ?case by simp
next
  case (Cons i order)
  have i: "i < length (hub_streams h)" "stream_ok True (off i) (rcv i) (hub_streams h ! i)" using Cons.prems(2) by auto
  obtain k t where t: "enqueue e (hub_streams h ! i) = Inr (k, t)" "stream_ok True (off i @ [e]) (rcv i) t"
    "woken (hub_streams h ! i) t" "k \<or> es_closed t" "es_closed (hub_streams h ! i) \<Longrightarrow> es_closed t"
    using enqueue_ok [OF i(2)] by metis
  define h1 where "h1 = h\<lparr>hub_streams := (hub_streams h)[i := t], hub_subscribers := if k then hub_subscribers h else hub_subscribers h - {i}\<rparr>"
  have step: "publishTo e h i = Inr h1" by (simp add: publishTo_def t(1) h1_def bindE_def)
  have h1: "hub_streams h1 ! j = (if j = i then t else hub_streams h ! j)" for j using i(1) by (simp add: h1_def nth_list_update)
  have notin: "i \<notin> set order" using Cons.prems(1) by simp
  have "\<And>j. j \<in> set order \<Longrightarrow> j < length (hub_streams h1) \<and> stream_ok True (off j) (rcv j) (hub_streams h1 ! j)"
    using Cons.prems(2) notin by (auto simp: h1) (simp add: h1_def)
  from Cons.IH [OF _ this] Cons.prems(1) obtain h' where h': "foldE (publishTo e) h1 order = Inr h'"
    "length (hub_streams h') = length (hub_streams h1)" "hub_closed h' = hub_closed h1" "hub_subscribers h' \<subseteq> hub_subscribers h1"
    "\<forall>j. j \<notin> set order \<longrightarrow> hub_streams h' ! j = hub_streams h1 ! j \<and> (j \<in> hub_subscribers h1 \<longrightarrow> j \<in> hub_subscribers h')"
    "\<forall>j\<in>set order. served e off rcv h1 h' j"
    by auto
  have keep: "j \<noteq> i \<Longrightarrow> j \<in> hub_subscribers h1 \<longleftrightarrow> j \<in> hub_subscribers h" "hub_subscribers h1 \<subseteq> hub_subscribers h"
    "k \<Longrightarrow> hub_subscribers h1 = hub_subscribers h" "length (hub_streams h1) = length (hub_streams h)" "hub_closed h1 = hub_closed h" for j
    by (auto simp: h1_def)
  have "foldE (publishTo e) h (i # order) = Inr h'" using step h'(1) by (simp add: bindE_def)
  moreover have "hub_streams h' ! j = hub_streams h ! j \<and> (j \<in> hub_subscribers h \<longrightarrow> j \<in> hub_subscribers h')" if "j \<notin> set (i # order)" for j
    using h'(5) that keep(1) [of j] by (auto simp: h1)
  moreover have "served e off rcv h h' j" if "j \<in> set (i # order)" for j
  proof (cases "j = i")
    case True
    then show ?thesis using h'(5) notin t keep(3) by (auto simp: h1 served_def)
  next
    case False
    then show ?thesis using h'(6) that keep(1) [of j] by (auto simp: h1 served_def)
  qed
  ultimately show ?case using h'(2,3,4) keep by (intro exI [of _ h']) auto
qed

text \<open>The invariant of the system: every stream is in order, an open stream of an open hub is subscribed, and a
  reader waits for a channel that its stream has made.\<close>

definition hub_ok :: "hubAction list \<Rightarrow> hubSystem \<Rightarrow> bool" where
  "hub_ok tr y \<longleftrightarrow>
     (\<forall>i. Subscribed i \<in> set tr \<longleftrightarrow> i < sys_count y) \<and>
     (\<forall>i. sys_count y \<le> i \<longrightarrow> received i tr = []) \<and>
     (\<forall>i < sys_count y. stream_ok (\<not> hub_closed (sys_hub y)) (offered i tr) (received i tr) (sys_stream y i)) \<and>
     hub_subscribers (sys_hub y) \<subseteq> {..<sys_count y} \<and>
     (\<forall>i < sys_count y. \<not> hub_closed (sys_hub y) \<longrightarrow> i \<in> hub_subscribers (sys_hub y) \<or> es_closed (sys_stream y i)) \<and>
     (\<forall>i\<in>set (sys_removing y). i < sys_count y \<and> es_closed (sys_stream y i)) \<and>
     set (sys_closing y) \<subseteq> {..<sys_count y} \<and>
     (\<forall>r i c. sys_readers y r = Some (i, c) \<longrightarrow> i < sys_count y \<and> reader_ok c (sys_stream y i))"

lemma hub_ok_new: "hub_ok [] newHubSystem"
  by (simp add: hub_ok_def newHubSystem_def newEventHub_def received_def)

lemma hub_ok_subscribe:
  assumes ok: "hub_ok tr y" and sub: "hub_subscribe (sys_hub y) = Inr (i, h)"
  shows "hub_ok (tr @ [Subscribed i]) (y\<lparr>sys_hub := h\<rparr>)"
proof -
  have opn: "\<not> hub_closed (sys_hub y)" and i: "i = sys_count y" using sub by (auto simp: hub_subscribe_def Let_def split: if_splits)
  have "offered i tr = []" using ok i by (intro offered_none) (auto simp: hub_ok_def)
  then show ?thesis
    using ok sub opn i stream_ok_new
    by (auto simp: hub_ok_def reader_ok_def hub_subscribe_def Let_def nth_append less_Suc_eq received_snoc offered_other image_iff split: if_splits)
qed

lemma hub_ok_publish:
  assumes ok: "hub_ok tr y" and order: "distinct order" "set order = hub_subscribers (sys_hub y)"
  obtains h where "publish order e (sys_hub y) = Inr h" "hub_ok (tr @ [Published e]) (y\<lparr>sys_hub := h\<rparr>)"
proof (cases "hub_closed (sys_hub y)")
  case True
  then have "publish order e (sys_hub y) = Inr (sys_hub y)" by (simp add: publish_def)
  moreover have "hub_ok (tr @ [Published e]) y"
    using ok True by (auto simp: hub_ok_def received_snoc offered_Published intro: stream_ok_offer)
  ultimately show thesis using that by simp
next
  case False
  have str: "i < sys_count y \<and> stream_ok True (offered i tr) (received i tr) (sys_stream y i)" if "i \<in> set order" for i
    using that ok order False by (auto simp: hub_ok_def)
  obtain h where h: "foldE (publishTo e) (sys_hub y) order = Inr h" "length (hub_streams h) = sys_count y" "hub_closed h = hub_closed (sys_hub y)"
    "hub_subscribers h \<subseteq> hub_subscribers (sys_hub y)"
    "\<forall>i. i \<notin> set order \<longrightarrow> hub_streams h ! i = sys_stream y i \<and> (i \<in> hub_subscribers (sys_hub y) \<longrightarrow> i \<in> hub_subscribers h)"
    "\<forall>i\<in>set order. served e (\<lambda>i. offered i tr) (\<lambda>i. received i tr) (sys_hub y) h i"
    using publish_loop [of order "sys_hub y" "\<lambda>i. offered i tr" "\<lambda>i. received i tr" e] order(1) str by blast
  have keep: "woken (sys_stream y i) (hub_streams h ! i) \<and> (es_closed (sys_stream y i) \<longrightarrow> es_closed (hub_streams h ! i))" for i
    using h(5,6) by (cases "i \<in> set order") (auto simp: served_def)
  have "stream_ok True (offered i tr @ [e]) (received i tr) (hub_streams h ! i) \<and> (i \<in> hub_subscribers h \<or> es_closed (hub_streams h ! i))"
    if "i < sys_count y" for i
  proof (cases "i \<in> set order")
    case True
    then show ?thesis using h(6) order by (auto simp: served_def)
  next
    case unsub: False
    then have "es_closed (sys_stream y i)" using ok False that order by (auto simp: hub_ok_def)
    then show ?thesis using h(5) unsub ok that False by (auto simp: hub_ok_def intro: stream_ok_offer)
  qed
  then have "hub_ok (tr @ [Published e]) (y\<lparr>sys_hub := h\<rparr>)"
    using ok h(2,3,4) False keep
    by (auto simp: hub_ok_def received_snoc offered_Published) (meson reader_ok_woken)
  then show thesis using that h(1) False by (simp add: publish_def)
qed

lemma hub_ok_receive:
  assumes "hub_ok tr y" "i < sys_count y" "recvRound (sys_stream y i) = RecvEvent e s"
  shows "hub_ok (tr @ [Received i e]) (set_stream i s y)"
proof -
  have "stream_ok (\<not> hub_closed (sys_hub y)) (offered i tr) (received i tr) (sys_stream y i)" using assms by (simp add: hub_ok_def)
  from recv_ok [OF this assms(3)] assms(1,2) show ?thesis
    by (auto simp: hub_ok_def set_stream_def received_snoc offered_other image_iff nth_list_update reader_ok_def)
qed

lemma hub_closeStream_ok:
  assumes ok: "hub_ok tr y" and i: "i < sys_count y"
  obtains did h where "hub_closeStream i (sys_hub y) = Inr (did, h)" "hub_ok tr (y\<lparr>sys_hub := h\<rparr>)" "length (hub_streams h) = sys_count y"
    "es_closed (hub_streams h ! i)"
proof -
  have "stream_ok (\<not> hub_closed (sys_hub y)) (offered i tr) (received i tr) (sys_stream y i)" using ok i by (simp add: hub_ok_def)
  then obtain did t where t: "closeStream (sys_stream y i) = Inr (did, t)" "stream_ok (\<not> hub_closed (sys_hub y)) (offered i tr) (received i tr) t"
    "woken (sys_stream y i) t" "es_closed t" by (rule closeStream_ok)
  define h where "h = (sys_hub y)\<lparr>hub_streams := (hub_streams (sys_hub y))[i := t]\<rparr>"
  have "hub_ok tr (y\<lparr>sys_hub := h\<rparr>)"
    using ok t i by (simp add: hub_ok_def h_def nth_list_update) (meson reader_ok_woken)
  moreover have "hub_closeStream i (sys_hub y) = Inr (did, h)" by (simp add: hub_closeStream_def t(1) h_def bindE_def)
  ultimately show thesis using that i t(4) by (simp add: h_def)
qed

lemma hub_run_ok: "hub_run tr y \<Longrightarrow> hub_ok tr y"
proof (induction rule: hub_run.induct)
  case run_new
  show ?case by (rule hub_ok_new)
next
  case (run_subscribe tr y i h)
  then show ?case by (simp add: hub_ok_subscribe)
next
  case (run_publish tr y order e h)
  then show ?case using hub_ok_publish [of tr y order e] by auto
next
  case (run_receive tr y i e s)
  then show ?case by (simp add: hub_ok_receive)
next
  case (run_end tr y i x)
  then show ?case by (auto simp: hub_ok_def received_snoc offered_other image_iff)
next
  case (run_wait tr y i r c)
  then show ?case by (auto simp: hub_ok_def recvRound_def reader_ok_def split: list.splits if_splits)
next
  case (run_close tr y i did h)
  then have "hub_ok tr (y\<lparr>sys_hub := h\<rparr>)" "es_closed (hub_streams h ! i)" "length (hub_streams h) = sys_count y"
    using hub_closeStream_ok [of tr y i] by auto
  then show ?case using run_close.hyps(2) by (simp add: hub_ok_def)
next
  case (run_remove tr y i)
  then show ?case by (auto simp: hub_ok_def hub_remove_def dest: notin_set_remove1)
next
  case (run_close_hub tr y order "is" h)
  then show ?case by (auto simp: hub_ok_def hub_close_def split: if_splits) (metis stream_ok_offline)
next
  case (run_close_from_hub tr y i "is" did h)
  then have "i < sys_count y" by (simp add: hub_ok_def)
  then have "hub_ok tr (y\<lparr>sys_hub := h\<rparr>)" using run_close_from_hub hub_closeStream_ok [of tr y i] by auto
  then show ?case using run_close_from_hub.hyps(2) by (simp add: hub_ok_def)
qed (auto simp: hub_ok_def)

section \<open>What subscribers can rely on\<close>

text \<open>
  Subscribers of a Session runtime, for every interleaving of publishers, readers, closing and slow
  subscribers: the queue of a stream never exceeds its limit; what its readers receive is a part of what was
  published since the subscription, in order; durable events are never skipped, so the received ones are always
  the first of the published ones, and while the stream and the hub are open all the others still wait in the queue;
  nothing at all is dropped before more events than the limit were published; and a stream reports an overflow
  only when its readers lag behind by more durable events than the queue can hold.
\<close>

theorem durable_events_delivered:
  assumes "hub_run tr y" "i < sys_count y"
  shows "length (es_queue (sys_stream y i)) \<le> eventStreamBufferLimit \<and>
    subseq (received i tr @ es_queue (sys_stream y i)) (offered i tr) \<and>
    prefix (durable (received i tr)) (durable (offered i tr)) \<and>
    (\<not> hub_closed (sys_hub y) \<and> \<not> es_closed (sys_stream y i) \<longrightarrow>
      durable (received i tr @ es_queue (sys_stream y i)) = durable (offered i tr) \<and>
      (length (offered i tr) \<le> eventStreamBufferLimit \<longrightarrow> received i tr @ es_queue (sys_stream y i) = offered i tr)) \<and>
    (recvRound (sys_stream y i) = RecvError ErrEventStreamOverflow \<longrightarrow>
      length (durable (received i tr)) + eventStreamBufferLimit < length (durable (offered i tr)))"
proof -
  have ok: "stream_ok (\<not> hub_closed (sys_hub y)) (offered i tr) (received i tr) (sys_stream y i)"
    using hub_run_ok [OF assms(1)] assms(2) by (simp add: hub_ok_def)
  then have "prefix (durable (received i tr)) (durable (offered i tr))" by (auto simp: stream_ok_def dest: append_prefixD)
  moreover have "es_err (sys_stream y i) = Some ErrEventStreamOverflow"
    if "recvRound (sys_stream y i) = RecvError ErrEventStreamOverflow"
    using that by (simp add: recvRound_def split: list.splits if_splits option.splits)
  ultimately show ?thesis using ok unfolding stream_ok_def by (metis not_less)
qed

text \<open>
  Readers of an event stream, for every interleaving: a reader that waits although its stream has an event or was
  closed waits for a channel that is closed, so it wakes up; and no publisher or closer panics by closing a
  channel twice.
\<close>

theorem stream_readers_wake:
  assumes "hub_run tr y"
  shows "(\<forall>r i c. sys_readers y r = Some (i, c) \<and> (es_queue (sys_stream y i) \<noteq> [] \<or> es_closed (sys_stream y i)) \<longrightarrow>
      c \<in> es_shut (sys_stream y i)) \<and>
    (\<forall>order e. distinct order \<and> set order = hub_subscribers (sys_hub y) \<longrightarrow> (\<exists>h. publish order e (sys_hub y) = Inr h)) \<and>
    (\<forall>i < sys_count y. \<exists>did h. hub_closeStream i (sys_hub y) = Inr (did, h))"
proof -
  have ok: "hub_ok tr y" by (rule hub_run_ok [OF assms])
  have "c \<in> es_shut (sys_stream y i)"
    if r: "sys_readers y r = Some (i, c)" and q: "es_queue (sys_stream y i) \<noteq> [] \<or> es_closed (sys_stream y i)" for r i c
  proof -
    have i: "i < sys_count y" "reader_ok c (sys_stream y i)" using ok r by (auto simp: hub_ok_def)
    then have "es_shut (sys_stream y i) = (if es_closed (sys_stream y i) then {..es_changed (sys_stream y i)} else {..<es_changed (sys_stream y i)})"
      using ok by (simp add: hub_ok_def stream_ok_def)
    then show ?thesis using q i(2) by (auto simp: reader_ok_def order.order_iff_strict)
  qed
  then show ?thesis using hub_ok_publish [OF ok] hub_closeStream_ok [OF ok] by metis
qed

section \<open>An example\<close>

definition demo_event :: "EventKind \<Rightarrow> string \<Rightarrow> Event" where
  "demo_event k x = \<lparr>evt_Kind = k, evt_SessionID = ''s'', evt_RunID = ''r'', evt_StepID = ''p'', evt_MessageID = ''m'',
     evt_AttemptID = ''a'', evt_Revision = 1, evt_Text = x\<rparr>"

definition demo_reader :: hubSystem where
  "demo_reader = \<lparr>sys_hub = \<lparr>hub_streams = [\<lparr>es_changed = 1, es_shut = {0}, es_queue = [demo_event EventRevision ''''], es_closed = False, es_err = None\<rparr>],
     hub_subscribers = {0}, hub_closed = False\<rparr>, sys_removing = [], sys_closing = [], sys_readers = [7 \<mapsto> (0, 0)]\<rparr>"

lemma demo_reader_run: "hub_run [Subscribed 0, Published (demo_event EventRevision '''')] demo_reader"
proof -
  define y1 where "y1 = newHubSystem\<lparr>sys_hub := \<lparr>hub_streams = [\<lparr>es_changed = 0, es_shut = {}, es_queue = [], es_closed = False, es_err = None\<rparr>],
     hub_subscribers = {0}, hub_closed = False\<rparr>\<rparr>"
  have "hub_run [Subscribed 0] y1"
    using run_subscribe [OF run_new, of 0] by (simp add: y1_def newHubSystem_def hub_subscribe_def newEventHub_def Let_def)
  then have "hub_run [Subscribed 0] (y1\<lparr>sys_readers := (sys_readers y1)(7 \<mapsto> (0, 0))\<rparr>)"
    by (rule run_wait) (simp_all add: y1_def newHubSystem_def recvRound_def)
  then have "hub_run ([Subscribed 0] @ [Published (demo_event EventRevision '''')])
      (y1\<lparr>sys_readers := (sys_readers y1)(7 \<mapsto> (0, 0)), sys_hub := sys_hub demo_reader\<rparr>)"
    by (rule run_publish [of _ _ "[0]"])
      (simp_all add: y1_def demo_reader_def publish_def publishTo_def enqueue_def pushEvent_def closeChanged_def bindE_def eventStreamBufferLimit_def)
  moreover have "y1\<lparr>sys_readers := (sys_readers y1)(7 \<mapsto> (0, 0)), sys_hub := sys_hub demo_reader\<rparr> = demo_reader"
    by (simp add: y1_def newHubSystem_def demo_reader_def)
  ultimately show ?thesis by simp
qed

theorem durable_events_delivered_witness:
  "hub_run [Subscribed 0, Published (demo_event EventRevision '''')] demo_reader \<and>
   received 0 [Subscribed 0, Published (demo_event EventRevision '''')] @ es_queue (sys_stream demo_reader 0) =
     [demo_event EventRevision '''']"
  using durable_events_delivered [OF demo_reader_run, of 0] demo_reader_run by (simp add: demo_reader_def eventStreamBufferLimit_def)

theorem stream_readers_wake_witness: "sys_readers demo_reader 7 = Some (0, 0) \<and> 0 \<in> es_shut (sys_stream demo_reader 0)"
proof -
  have "sys_readers demo_reader 7 = Some (0, 0) \<and> es_queue (sys_stream demo_reader 0) \<noteq> []" by (simp add: demo_reader_def)
  then show ?thesis using stream_readers_wake [OF demo_reader_run] by blast
qed

end
