(* ===== verification/Runtime_Registry.thy ===== *)
theory Runtime_Registry
  imports Agent_Types
begin

text \<open>
  The registry of Session runtimes and the operations of the coordinator that create, open, close and drop them
  (\<^verbatim>\<open>standardagent/runtime.go\<close>), with the handshakes of a runtime they rely on: \<^verbatim>\<open>open\<close>, \<^verbatim>\<open>abortOpen\<close>, \<^verbatim>\<open>awaitOpen\<close>
  (\<^verbatim>\<open>runtime_lifecycle.go\<close>) and \<^verbatim>\<open>close\<close> (\<^verbatim>\<open>runtime_commands.go\<close>). Pointers to runtimes and flights are positions in
  lists. Every locked section is a definition; \<open>reg_step\<close> interleaves the sections of any number of operations. What
  an operation does outside (loading and building a Session, the work of \<^verbatim>\<open>finishOpen\<close> and of a closing runtime) ends in
  any way at any time. \<open>regError\<close> keeps apart the errors that the code tells apart.
\<close>

section \<open>Runtimes\<close>

datatype regError = CtxCanceled | CtxDeadlineExceeded | RegError ClassifiedError | RegFailed string

abbreviation (input) "CodeSessionNotOpen \<equiv> ''session_not_open''"
abbreviation (input) "CodeSessionAlreadyOpen \<equiv> ''session_already_open''"
abbreviation (input) "CodeRuntimeClosed \<equiv> ''runtime_closed''"

text \<open>\<^verbatim>\<open>openOnce\<close> with \<^verbatim>\<open>openDone\<close> and \<^verbatim>\<open>openErr\<close>: not begun, running in one operation, or done with its error.\<close>

datatype openOnce = OpenNever | OpenRunning | OpenDone "regError option"

record runtimeHandle =
  rh_session :: SessionID
  rh_open :: openOnce
  rh_closing :: bool
  rh_closed :: bool

definition newRuntimeHandle :: "SessionID \<Rightarrow> runtimeHandle" where
  "newRuntimeHandle sid = \<lparr>rh_session = sid, rh_open = OpenNever, rh_closing = False, rh_closed = False\<rparr>"

definition open_begin :: "runtimeHandle \<Rightarrow> runtimeHandle" where
  "open_begin h = h\<lparr>rh_open := OpenRunning\<rparr>"

definition open_end :: "regError option \<Rightarrow> runtimeHandle \<Rightarrow> runtimeHandle" where
  "open_end e h = h\<lparr>rh_open := OpenDone e\<rparr>"

definition abortOpen :: "regError \<Rightarrow> runtimeHandle \<Rightarrow> runtimeHandle" where
  "abortOpen cause h = (if rh_open h = OpenNever then h\<lparr>rh_open := OpenDone (Some cause)\<rparr> else h)"

text \<open>The answers \<^verbatim>\<open>awaitOpen\<close> may give; with both channels ready the \<^verbatim>\<open>select\<close> takes either.\<close>

definition ctxError :: "regError \<Rightarrow> bool" where
  "ctxError e \<longleftrightarrow> e = CtxCanceled \<or> e = CtxDeadlineExceeded"

definition awaitOpen :: "bool \<Rightarrow> runtimeHandle \<Rightarrow> regError option \<Rightarrow> bool" where
  "awaitOpen canceled h r \<longleftrightarrow> rh_open h = OpenDone r \<or> canceled \<and> (case r of None \<Rightarrow> False | Some e \<Rightarrow> ctxError e)"

text \<open>\<^verbatim>\<open>close\<close> after \<^verbatim>\<open>openDone\<close>, under the lock: closing begins unless it has begun or the runtime is closed.\<close>

definition close_begin :: "runtimeHandle \<Rightarrow> runtimeHandle" where
  "close_begin h = (if rh_closed h then h else h\<lparr>rh_closing := True\<rparr>)"

text \<open>\<^verbatim>\<open>ensureOpenLocked\<close> at the start of \<^verbatim>\<open>beginClose\<close>, and its effect; its other failures are \<open>RegFailed\<close>.\<close>

definition beginClose_error :: "runtimeHandle \<Rightarrow> regError option" where
  "beginClose_error h = (if rh_closed h \<or> rh_closing h
     then Some (RegError (NewCodedError ErrorConflict CodeRuntimeClosed ''gateway.close_session'' ''Session Runtime is closed'')) else None)"

definition beginClose :: "runtimeHandle \<Rightarrow> runtimeHandle" where
  "beginClose h = h\<lparr>rh_closing := True\<rparr>"

definition close_end :: "runtimeHandle \<Rightarrow> runtimeHandle" where
  "close_end h = h\<lparr>rh_closed := True\<rparr>"

text \<open>A runtime that fails closed after a Run (\<^verbatim>\<open>recoverAfterRunFailureLocked\<close>).\<close>

definition fail_closed :: "runtimeHandle \<Rightarrow> runtimeHandle" where
  "fail_closed h = h\<lparr>rh_closing := True, rh_closed := True\<rparr>"

section \<open>The registry\<close>

record runtimeFlight =
  fl_done :: bool
  fl_err :: "regError option"

record runtimeRegistry =
  reg_entries :: "SessionID \<rightharpoonup> nat"
  reg_inflight :: "SessionID \<rightharpoonup> nat"
  reg_flights :: "runtimeFlight list"

definition newRuntimeRegistry :: runtimeRegistry where
  "newRuntimeRegistry = \<lparr>reg_entries = Map.empty, reg_inflight = Map.empty, reg_flights = []\<rparr>"

definition take_off :: "SessionID \<Rightarrow> runtimeRegistry \<Rightarrow> runtimeRegistry" where
  "take_off sid g = g\<lparr>reg_inflight := (reg_inflight g)(sid \<mapsto> length (reg_flights g)),
     reg_flights := reg_flights g @ [\<lparr>fl_done = False, fl_err = None\<rparr>]\<rparr>"

text \<open>A round of \<^verbatim>\<open>getOrCreate\<close>: the runtime, the flight to wait for, or an own flight and the registry with it.\<close>

datatype lookupRound = Found nat | Joins nat | Leads nat runtimeRegistry

definition getOrCreate_lookup :: "SessionID \<Rightarrow> runtimeRegistry \<Rightarrow> lookupRound" where
  "getOrCreate_lookup sid g = (case reg_entries g sid of
      Some rt \<Rightarrow> Found rt
    | None \<Rightarrow> (case reg_inflight g sid of
          Some f \<Rightarrow> Joins f
        | None \<Rightarrow> Leads (length (reg_flights g)) (take_off sid g)))"

definition getOrCreate_land :: "SessionID \<Rightarrow> nat \<Rightarrow> regError + nat \<Rightarrow> runtimeRegistry \<Rightarrow> runtimeRegistry" where
  "getOrCreate_land sid f result g = g\<lparr>reg_inflight := (reg_inflight g)(sid := None),
     reg_flights := (reg_flights g)[f := \<lparr>fl_done = True, fl_err = (case result of Inl e \<Rightarrow> Some e | Inr _ \<Rightarrow> None)\<rparr>],
     reg_entries := (case result of Inl _ \<Rightarrow> reg_entries g | Inr rt \<Rightarrow> (reg_entries g)(sid \<mapsto> rt))\<rparr>"

text \<open>A waiter after its flight is done: it returns the error, or tries again.\<close>

definition flight_retry :: "bool \<Rightarrow> runtimeFlight \<Rightarrow> regError option" where
  "flight_retry canceled f = (case fl_err f of
      None \<Rightarrow> None
    | Some e \<Rightarrow> if \<not> canceled \<and> ctxError e then None else Some e)"

definition registry_add :: "SessionID \<Rightarrow> nat \<Rightarrow> runtimeRegistry \<Rightarrow> regError + runtimeRegistry" where
  "registry_add sid rt g =
    (if reg_entries g sid \<noteq> None then
       Inl (RegError (NewCodedError ErrorConflict CodeSessionAlreadyOpen ''runtime_registry.add'' ''Session already has an open Runtime''))
     else if reg_inflight g sid \<noteq> None then
       Inl (RegError (NewCodedError ErrorConflict CodeSessionAlreadyOpen ''runtime_registry.add'' ''Session Runtime is being opened''))
     else Inr (g\<lparr>reg_entries := (reg_entries g)(sid \<mapsto> rt)\<rparr>))"

definition registry_discard :: "SessionID \<Rightarrow> nat \<Rightarrow> runtimeRegistry \<Rightarrow> runtimeRegistry" where
  "registry_discard sid rt g =
    (if reg_entries g sid = Some rt then g\<lparr>reg_entries := (reg_entries g)(sid := None)\<rparr> else g)"

text \<open>A round of \<^verbatim>\<open>wait\<close>: the runtime, nothing, or the flight to wait for.\<close>

datatype waitRound = WaitFound nat | WaitNone | WaitFor nat

definition registry_wait :: "SessionID \<Rightarrow> runtimeRegistry \<Rightarrow> waitRound" where
  "registry_wait sid g = (case reg_entries g sid of
      Some rt \<Rightarrow> WaitFound rt
    | None \<Rightarrow> (case reg_inflight g sid of None \<Rightarrow> WaitNone | Some f \<Rightarrow> WaitFor f))"

text \<open>\<^verbatim>\<open>markClosing\<close> returns the tombstone flight; the goroutine that waits for the runtime is \<open>tombstone_end\<close>.\<close>

definition markClosing :: "SessionID \<Rightarrow> nat \<Rightarrow> runtimeRegistry \<Rightarrow> regError + nat \<times> runtimeRegistry" where
  "markClosing sid rt g =
    (if reg_entries g sid \<noteq> Some rt \<or> reg_inflight g sid \<noteq> None then
       Inl (RegError (NewCodedError ErrorConflict CodeSessionAlreadyOpen ''runtime_registry.close'' ''Session Runtime changed during close''))
     else Inr (length (reg_flights g), take_off sid (g\<lparr>reg_entries := (reg_entries g)(sid := None)\<rparr>)))"

definition tombstone_end :: "SessionID \<Rightarrow> nat \<Rightarrow> runtimeRegistry \<Rightarrow> runtimeRegistry" where
  "tombstone_end sid f g = g\<lparr>reg_inflight := (if reg_inflight g sid = Some f then (reg_inflight g)(sid := None) else reg_inflight g),
     reg_flights := (reg_flights g)[f := (reg_flights g ! f)\<lparr>fl_done := True\<rparr>]\<rparr>"

definition closeAll_take :: "runtimeRegistry \<Rightarrow> runtimeRegistry" where
  "closeAll_take g = g\<lparr>reg_entries := Map.empty\<rparr>"

section \<open>Operations under way\<close>

text \<open>
  Where an operation stands. \<open>Resume...\<close> is \<^verbatim>\<open>resume\<close> inside \<^verbatim>\<open>getOrCreate\<close>; \<open>New...\<close> is \<^verbatim>\<open>create\<close>, \<^verbatim>\<open>fork\<close> or \<^verbatim>\<open>summary\<close> once it
  has built its candidate (\<^verbatim>\<open>registerNew\<close> included); \<open>Open...\<close> and \<open>Fail...\<close> are their common end; \<open>Close...\<close> is \<^verbatim>\<open>close\<close> of
  the coordinator, \<open>Stop...\<close> is \<^verbatim>\<open>stop\<close> with \<^verbatim>\<open>closeAll\<close>. \<open>Ended\<close> is the answer, \<open>Stopped\<close> that of \<^verbatim>\<open>stop\<close>.
\<close>

datatype opState =
    ResumeAt SessionID | ResumeJoined SessionID nat | ResumeLeads SessionID nat | ResumeBuilt SessionID nat nat
  | ResumeDrops SessionID nat nat regError | ResumeDropping SessionID nat nat regError
  | NewAt | NewBuilt nat | NewDrops nat regError | NewDropping nat regError
  | OpenAt nat | OpenRuns nat | OpenAwaits nat | FailCloses nat regError | FailClosing nat regError | FailDiscards nat regError
  | CloseAt SessionID | CloseJoined SessionID nat | CloseAwaits SessionID nat | CloseBegins SessionID nat | CloseMarks SessionID nat | CloseWaits nat
  | StopTakes | StopCloses "nat list" | StopClosing nat "nat list"
  | Ended "regError + nat" | Stopped

record regSystem =
  sy_registry :: runtimeRegistry
  sy_runtimes :: "runtimeHandle list"
  sy_ops :: "nat \<rightharpoonup> opState"
  sy_canceled :: "nat set"
  sy_tombs :: "nat \<rightharpoonup> SessionID \<times> nat"
  sy_started :: bool

definition newRegSystem :: regSystem where
  "newRegSystem = \<lparr>sy_registry = newRuntimeRegistry, sy_runtimes = [], sy_ops = Map.empty, sy_canceled = {}, sy_tombs = Map.empty, sy_started = True\<rparr>"

abbreviation runtime :: "regSystem \<Rightarrow> nat \<Rightarrow> runtimeHandle" where
  "runtime y rt \<equiv> sy_runtimes y ! rt"

abbreviation entries :: "regSystem \<Rightarrow> SessionID \<rightharpoonup> nat" where
  "entries y \<equiv> reg_entries (sy_registry y)"

abbreviation inflight :: "regSystem \<Rightarrow> SessionID \<rightharpoonup> nat" where
  "inflight y \<equiv> reg_inflight (sy_registry y)"

definition goto :: "nat \<Rightarrow> opState \<Rightarrow> regSystem \<Rightarrow> regSystem" where
  "goto t p y = y\<lparr>sy_ops := (sy_ops y)(t \<mapsto> p)\<rparr>"

definition with_rt :: "nat \<Rightarrow> (runtimeHandle \<Rightarrow> runtimeHandle) \<Rightarrow> regSystem \<Rightarrow> regSystem" where
  "with_rt rt f y = y\<lparr>sy_runtimes := (sy_runtimes y)[rt := f (runtime y rt)]\<rparr>"

definition with_reg :: "(runtimeRegistry \<Rightarrow> runtimeRegistry) \<Rightarrow> regSystem \<Rightarrow> regSystem" where
  "with_reg f y = y\<lparr>sy_registry := f (sy_registry y)\<rparr>"

definition allocate :: "SessionID \<Rightarrow> regSystem \<Rightarrow> regSystem" where
  "allocate sid y = y\<lparr>sy_runtimes := sy_runtimes y @ [newRuntimeHandle sid]\<rparr>"

definition mismatch :: regError where
  "mismatch = RegError (NewError ErrorInternal ''gateway.resume_session'' ''framework Manager returned a different SessionID'')"

definition sessionNotOpen :: regError where
  "sessionNotOpen = RegError (NewCodedError ErrorNotFound CodeSessionNotOpen ''gateway.close'' ''session is not open'')"

section \<open>Steps\<close>

text \<open>
  \<open>begin_...\<close> are the operations the gateway admits while the application is started (\<^verbatim>\<open>acquire\<close>); \<open>cancels\<close> is the end of
  the context of an operation, by its caller or, later than \<^verbatim>\<open>stop\<close>, by the application. \<open>tomb_ends\<close>, \<open>closing_ends\<close> and
  \<open>fails_closed\<close> are the goroutines of a closing runtime and the failure of a Run.
\<close>

inductive reg_step :: "regSystem \<Rightarrow> regSystem \<Rightarrow> bool" where
  begin_resume: "sy_started y \<Longrightarrow> sy_ops y t = None \<Longrightarrow> reg_step y (goto t (ResumeAt sid) y)"
| begin_new: "sy_started y \<Longrightarrow> sy_ops y t = None \<Longrightarrow> reg_step y (goto t NewAt y)"
| begin_close: "sy_started y \<Longrightarrow> sy_ops y t = None \<Longrightarrow> reg_step y (goto t (CloseAt sid) y)"
| cancels: "reg_step y (y\<lparr>sy_canceled := insert t (sy_canceled y)\<rparr>)"
| resume_finds: "sy_ops y t = Some (ResumeAt sid) \<Longrightarrow> getOrCreate_lookup sid (sy_registry y) = Found rt \<Longrightarrow>
    reg_step y (goto t (OpenAt rt) y)"
| resume_joins: "sy_ops y t = Some (ResumeAt sid) \<Longrightarrow> getOrCreate_lookup sid (sy_registry y) = Joins f \<Longrightarrow>
    reg_step y (goto t (ResumeJoined sid f) y)"
| resume_leads: "sy_ops y t = Some (ResumeAt sid) \<Longrightarrow> getOrCreate_lookup sid (sy_registry y) = Leads f g \<Longrightarrow>
    reg_step y (goto t (ResumeLeads sid f) (with_reg (\<lambda>_. g) y))"
| resume_retries: "sy_ops y t = Some (ResumeJoined sid f) \<Longrightarrow> fl_done (reg_flights (sy_registry y) ! f) \<Longrightarrow> flight_retry (t \<in> sy_canceled y) (reg_flights (sy_registry y) ! f) = None \<Longrightarrow>
    reg_step y (goto t (ResumeAt sid) y)"
| resume_shares: "sy_ops y t = Some (ResumeJoined sid f) \<Longrightarrow> fl_done (reg_flights (sy_registry y) ! f) \<Longrightarrow> flight_retry (t \<in> sy_canceled y) (reg_flights (sy_registry y) ! f) = Some e \<Longrightarrow>
    reg_step y (goto t (Ended (Inl e)) y)"
| resume_gives_up: "sy_ops y t = Some (ResumeJoined sid f) \<Longrightarrow> t \<in> sy_canceled y \<Longrightarrow> ctxError e \<Longrightarrow>
    reg_step y (goto t (Ended (Inl e)) y)"
| resume_fails: "sy_ops y t = Some (ResumeLeads sid f) \<Longrightarrow>
    reg_step y (goto t (Ended (Inl e)) (with_reg (getOrCreate_land sid f (Inl e)) y))"
| resume_builds: "sy_ops y t = Some (ResumeLeads sid f) \<Longrightarrow>
    reg_step y (goto t (ResumeBuilt sid f (length (sy_runtimes y))) (allocate sid' y))"
| resume_canceled: "sy_ops y t = Some (ResumeBuilt sid f rt) \<Longrightarrow> t \<in> sy_canceled y \<Longrightarrow> ctxError e \<Longrightarrow>
    reg_step y (goto t (ResumeDrops sid f rt e) (with_rt rt (abortOpen e) y))"
| resume_mismatch: "sy_ops y t = Some (ResumeBuilt sid f rt) \<Longrightarrow> t \<notin> sy_canceled y \<Longrightarrow> rh_session (runtime y rt) \<noteq> sid \<Longrightarrow>
    reg_step y (goto t (ResumeDrops sid f rt mismatch) (with_rt rt (abortOpen mismatch) y))"
| resume_lands: "sy_ops y t = Some (ResumeBuilt sid f rt) \<Longrightarrow> t \<notin> sy_canceled y \<Longrightarrow> rh_session (runtime y rt) = sid \<Longrightarrow>
    reg_step y (goto t (OpenAt rt) (with_reg (getOrCreate_land sid f (Inr rt)) y))"
| resume_drops: "sy_ops y t = Some (ResumeDrops sid f rt e) \<Longrightarrow> rh_open (runtime y rt) = OpenDone x \<Longrightarrow>
    reg_step y (goto t (ResumeDropping sid f rt e) (with_rt rt close_begin y))"
| resume_dropped: "sy_ops y t = Some (ResumeDropping sid f rt e) \<Longrightarrow> rh_closed (runtime y rt) \<Longrightarrow>
    reg_step y (goto t (Ended (Inl e)) (with_reg (getOrCreate_land sid f (Inl e)) y))"
| new_fails: "sy_ops y t = Some NewAt \<Longrightarrow> reg_step y (goto t (Ended (Inl e)) y)"
| new_builds: "sy_ops y t = Some NewAt \<Longrightarrow> reg_step y (goto t (NewBuilt (length (sy_runtimes y))) (allocate sid y))"
| new_canceled: "sy_ops y t = Some (NewBuilt rt) \<Longrightarrow> t \<in> sy_canceled y \<Longrightarrow> ctxError e \<Longrightarrow>
    reg_step y (goto t (NewDrops rt e) (with_rt rt (abortOpen e) y))"
| new_conflicts: "sy_ops y t = Some (NewBuilt rt) \<Longrightarrow> t \<notin> sy_canceled y \<Longrightarrow> registry_add (rh_session (runtime y rt)) rt (sy_registry y) = Inl e \<Longrightarrow>
    reg_step y (goto t (NewDrops rt e) (with_rt rt (abortOpen e) y))"
| new_adds: "sy_ops y t = Some (NewBuilt rt) \<Longrightarrow> t \<notin> sy_canceled y \<Longrightarrow> registry_add (rh_session (runtime y rt)) rt (sy_registry y) = Inr g \<Longrightarrow>
    reg_step y (goto t (OpenAt rt) (with_reg (\<lambda>_. g) y))"
| new_drops: "sy_ops y t = Some (NewDrops rt e) \<Longrightarrow> rh_open (runtime y rt) = OpenDone x \<Longrightarrow>
    reg_step y (goto t (NewDropping rt e) (with_rt rt close_begin y))"
| new_dropped: "sy_ops y t = Some (NewDropping rt e) \<Longrightarrow> rh_closed (runtime y rt) \<Longrightarrow>
    reg_step y (goto t (Ended (Inl e)) y)"
| opens: "sy_ops y t = Some (OpenAt rt) \<Longrightarrow> rh_open (runtime y rt) = OpenNever \<Longrightarrow>
    reg_step y (goto t (OpenRuns rt) (with_rt rt open_begin y))"
| open_ends: "sy_ops y t = Some (OpenRuns rt) \<Longrightarrow> reg_step y (goto t (OpenAwaits rt) (with_rt rt (open_end r) y))"
| open_shared: "sy_ops y t = Some (OpenAt rt) \<Longrightarrow> rh_open (runtime y rt) = OpenDone x \<Longrightarrow>
    reg_step y (goto t (OpenAwaits rt) y)"
| open_answers: "sy_ops y t = Some (OpenAwaits rt) \<Longrightarrow> awaitOpen (t \<in> sy_canceled y) (runtime y rt) None \<Longrightarrow>
    reg_step y (goto t (Ended (Inr rt)) y)"
| open_fails: "sy_ops y t = Some (OpenAwaits rt) \<Longrightarrow> awaitOpen (t \<in> sy_canceled y) (runtime y rt) (Some e) \<Longrightarrow>
    reg_step y (goto t (FailCloses rt e) y)"
| fail_closes: "sy_ops y t = Some (FailCloses rt e) \<Longrightarrow> rh_open (runtime y rt) = OpenDone x \<Longrightarrow>
    reg_step y (goto t (FailClosing rt e) (with_rt rt close_begin y))"
| fail_waits: "sy_ops y t = Some (FailClosing rt e) \<Longrightarrow> rh_closed (runtime y rt) \<Longrightarrow>
    reg_step y (goto t (FailDiscards rt e) y)"
| fail_discards: "sy_ops y t = Some (FailDiscards rt e) \<Longrightarrow>
    reg_step y (goto t (Ended (Inl e)) (with_reg (registry_discard (rh_session (runtime y rt)) rt) y))"
| close_finds: "sy_ops y t = Some (CloseAt sid) \<Longrightarrow> registry_wait sid (sy_registry y) = WaitFound rt \<Longrightarrow>
    reg_step y (goto t (CloseAwaits sid rt) y)"
| close_misses: "sy_ops y t = Some (CloseAt sid) \<Longrightarrow> registry_wait sid (sy_registry y) = WaitNone \<Longrightarrow>
    reg_step y (goto t (Ended (Inl sessionNotOpen)) y)"
| close_joins: "sy_ops y t = Some (CloseAt sid) \<Longrightarrow> registry_wait sid (sy_registry y) = WaitFor f \<Longrightarrow>
    reg_step y (goto t (CloseJoined sid f) y)"
| close_retries: "sy_ops y t = Some (CloseJoined sid f) \<Longrightarrow> fl_done (reg_flights (sy_registry y) ! f) \<Longrightarrow>
    reg_step y (goto t (CloseAt sid) y)"
| close_gives_up: "sy_ops y t = Some (CloseJoined sid f) \<Longrightarrow> t \<in> sy_canceled y \<Longrightarrow> ctxError e \<Longrightarrow>
    reg_step y (goto t (Ended (Inl e)) y)"
| close_awaits: "sy_ops y t = Some (CloseAwaits sid rt) \<Longrightarrow> awaitOpen (t \<in> sy_canceled y) (runtime y rt) None \<Longrightarrow>
    reg_step y (goto t (CloseBegins sid rt) y)"
| close_unopened: "sy_ops y t = Some (CloseAwaits sid rt) \<Longrightarrow> awaitOpen (t \<in> sy_canceled y) (runtime y rt) (Some e) \<Longrightarrow>
    reg_step y (goto t (Ended (Inl e)) y)"
| close_refused: "sy_ops y t = Some (CloseBegins sid rt) \<Longrightarrow> beginClose_error (runtime y rt) = Some e \<Longrightarrow>
    reg_step y (goto t (Ended (Inl e)) y)"
| close_fails: "sy_ops y t = Some (CloseBegins sid rt) \<Longrightarrow> beginClose_error (runtime y rt) = None \<Longrightarrow>
    reg_step y (goto t (Ended (Inl (RegFailed m))) y)"
| close_begins: "sy_ops y t = Some (CloseBegins sid rt) \<Longrightarrow> beginClose_error (runtime y rt) = None \<Longrightarrow>
    reg_step y (goto t (CloseMarks sid rt) (with_rt rt beginClose y))"
| close_marks: "sy_ops y t = Some (CloseMarks sid rt) \<Longrightarrow> markClosing sid rt (sy_registry y) = Inr (f, g) \<Longrightarrow>
    reg_step y (goto t (CloseWaits rt) (with_reg (\<lambda>_. g) (y\<lparr>sy_tombs := (sy_tombs y)(f \<mapsto> (sid, rt))\<rparr>)))"
| close_changed: "sy_ops y t = Some (CloseMarks sid rt) \<Longrightarrow> markClosing sid rt (sy_registry y) = Inl e \<Longrightarrow>
    reg_step y (goto t (Ended (Inl e)) y)"
| close_answers: "sy_ops y t = Some (CloseWaits rt) \<Longrightarrow> rh_closed (runtime y rt) \<Longrightarrow>
    reg_step y (goto t (Ended (Inr rt)) y)"
| close_leaves: "sy_ops y t = Some (CloseWaits rt) \<Longrightarrow> t \<in> sy_canceled y \<Longrightarrow> ctxError e \<Longrightarrow>
    reg_step y (goto t (Ended (Inl e)) y)"
| tomb_ends: "sy_tombs y f = Some (sid, rt) \<Longrightarrow> rh_closed (runtime y rt) \<Longrightarrow>
    reg_step y (with_reg (tombstone_end sid f) (y\<lparr>sy_tombs := (sy_tombs y)(f := None)\<rparr>))"
| closing_ends: "rt < length (sy_runtimes y) \<Longrightarrow> rh_closing (runtime y rt) \<Longrightarrow> reg_step y (with_rt rt close_end y)"
| fails_closed: "rt < length (sy_runtimes y) \<Longrightarrow> rh_open (runtime y rt) = OpenDone None \<Longrightarrow>
    reg_step y (with_rt rt fail_closed y)"
| stop_begins: "sy_started y \<Longrightarrow> sy_ops y t = None \<Longrightarrow>
    reg_step y (goto t StopTakes (y\<lparr>sy_started := False\<rparr>))"
| stop_takes: "sy_ops y t = Some StopTakes \<Longrightarrow> distinct rts \<Longrightarrow> set rts = ran (entries y) \<Longrightarrow>
    reg_step y (goto t (StopCloses rts) (with_reg closeAll_take y))"
| stop_skips: "sy_ops y t = Some (StopCloses (rt # rts)) \<Longrightarrow> t \<in> sy_canceled y \<Longrightarrow>
    reg_step y (goto t (StopCloses rts) y)"
| stop_closes: "sy_ops y t = Some (StopCloses (rt # rts)) \<Longrightarrow> rh_open (runtime y rt) = OpenDone x \<Longrightarrow>
    reg_step y (goto t (StopClosing rt rts) (with_rt rt close_begin y))"
| stop_waits: "sy_ops y t = Some (StopClosing rt rts) \<Longrightarrow> rh_closed (runtime y rt) \<or> t \<in> sy_canceled y \<Longrightarrow>
    reg_step y (goto t (StopCloses rts) y)"
| stop_ends: "sy_ops y t = Some (StopCloses []) \<Longrightarrow> t \<in> sy_canceled y \<or> (\<forall>u p. u \<noteq> t \<and> sy_ops y u = Some p \<longrightarrow> (\<exists>r. p = Ended r)) \<Longrightarrow>
    reg_step y (goto t Stopped y)"

definition reg_reachable :: "regSystem \<Rightarrow> bool" where
  "reg_reachable y \<longleftrightarrow> reg_step\<^sup>*\<^sup>* newRegSystem y"

text \<open>A runtime serves its Session from the beginning of its opening until it is closed, unless the opening failed.\<close>

definition serving :: "runtimeHandle \<Rightarrow> bool" where
  "serving h \<longleftrightarrow> (rh_open h = OpenRunning \<or> rh_open h = OpenDone None) \<and> \<not> rh_closed h"

end
