(* ===== verification/Registry_Guarantees.thy ===== *)
theory Registry_Guarantees
  imports Runtime_Registry
begin

text \<open>
  What the registry of runtimes guarantees: in every interleaving of Resume, Create, Close and failing runtimes, a
  Session is served by at most one runtime. Two gaps follow: a runtime that failed closed stays registered, and
  a canceled Resume closes a runtime that others use.
\<close>

section \<open>The invariant\<close>

text \<open>The Session whose flight an operation leads.\<close>

fun leads :: "opState \<Rightarrow> (SessionID \<times> nat) option" where
  "leads (ResumeLeads sid f) = Some (sid, f)"
| "leads (ResumeBuilt sid f rt) = Some (sid, f)"
| "leads (ResumeDrops sid f rt e) = Some (sid, f)"
| "leads (ResumeDropping sid f rt e) = Some (sid, f)"
| "leads _ = None"

text \<open>The runtimes an operation holds.\<close>

fun holds :: "opState \<Rightarrow> nat list" where
  "holds (ResumeBuilt sid f rt) = [rt]"
| "holds (ResumeDrops sid f rt e) = [rt]"
| "holds (ResumeDropping sid f rt e) = [rt]"
| "holds (NewBuilt rt) = [rt]"
| "holds (NewDrops rt e) = [rt]"
| "holds (NewDropping rt e) = [rt]"
| "holds (OpenAt rt) = [rt]"
| "holds (OpenRuns rt) = [rt]"
| "holds (OpenAwaits rt) = [rt]"
| "holds (FailCloses rt e) = [rt]"
| "holds (FailClosing rt e) = [rt]"
| "holds (FailDiscards rt e) = [rt]"
| "holds (CloseAwaits sid rt) = [rt]"
| "holds (CloseBegins sid rt) = [rt]"
| "holds (CloseMarks sid rt) = [rt]"
| "holds (CloseWaits rt) = [rt]"
| "holds (StopCloses rts) = rts"
| "holds (StopClosing rt rts) = rt # rts"
| "holds _ = []"

text \<open>What an operation knows of the runtime it holds.\<close>

fun knows :: "regSystem \<Rightarrow> opState \<Rightarrow> bool" where
  "knows y (OpenAt rt) \<longleftrightarrow> (sy_started y \<and> rh_open (runtime y rt) = OpenNever \<longrightarrow> entries y (rh_session (runtime y rt)) = Some rt)"
| "knows y (OpenRuns rt) \<longleftrightarrow> rh_open (runtime y rt) = OpenRunning"
| "knows y (FailDiscards rt e) \<longleftrightarrow> rh_closed (runtime y rt)"
| "knows y (CloseAwaits sid rt) \<longleftrightarrow> rh_session (runtime y rt) = sid"
| "knows y (CloseBegins sid rt) \<longleftrightarrow> rh_session (runtime y rt) = sid \<and> rh_open (runtime y rt) = OpenDone None"
| "knows y (CloseMarks sid rt) \<longleftrightarrow> rh_session (runtime y rt) = sid \<and> rh_open (runtime y rt) = OpenDone None"
| "knows y _ \<longleftrightarrow> True"

definition op_ok :: "regSystem \<Rightarrow> opState \<Rightarrow> bool" where
  "op_ok y p \<longleftrightarrow> knows y p \<and> set (holds p) \<subseteq> {..<length (sy_runtimes y)} \<and>
     (\<forall>sid f. leads p = Some (sid, f) \<longrightarrow> inflight y sid = Some f \<and> sy_tombs y f = None)"

definition routed :: "regSystem \<Rightarrow> nat \<Rightarrow> bool" where
  "routed y rt \<longleftrightarrow> entries y (rh_session (runtime y rt)) = Some rt \<or>
     (\<exists>f. inflight y (rh_session (runtime y rt)) = Some f \<and> sy_tombs y f = Some (rh_session (runtime y rt), rt))"

definition tables_ok :: "regSystem \<Rightarrow> bool" where
  "tables_ok y \<longleftrightarrow>
     (\<forall>sid rt. entries y sid = Some rt \<longrightarrow> rt < length (sy_runtimes y) \<and> rh_session (runtime y rt) = sid \<and> inflight y sid = None) \<and>
     (\<forall>f sid rt. sy_tombs y f = Some (sid, rt) \<longrightarrow> inflight y sid = Some f \<and> rt < length (sy_runtimes y) \<and> rh_session (runtime y rt) = sid) \<and>
     (\<forall>sid f. inflight y sid = Some f \<longrightarrow> f < length (reg_flights (sy_registry y)))"

definition runtimes_ok :: "regSystem \<Rightarrow> bool" where
  "runtimes_ok y \<longleftrightarrow> (\<forall>rt < length (sy_runtimes y).
     ((rh_closing (runtime y rt) \<or> rh_closed (runtime y rt)) \<longrightarrow> (\<exists>e. rh_open (runtime y rt) = OpenDone e)) \<and>
     (sy_started y \<and> serving (runtime y rt) \<longrightarrow> routed y rt))"

text \<open>Two operations exclude each other when they lead flights of one Session or run the opening of one runtime.\<close>

definition clash :: "opState \<Rightarrow> opState \<Rightarrow> bool" where
  "clash p q \<longleftrightarrow> (\<exists>sid f g. leads p = Some (sid, f) \<and> leads q = Some (sid, g)) \<or> (\<exists>rt. p = OpenRuns rt \<and> q = OpenRuns rt)"

definition exclusive :: "(nat \<rightharpoonup> opState) \<Rightarrow> bool" where
  "exclusive ops \<longleftrightarrow> (\<forall>t u p q. ops t = Some p \<longrightarrow> ops u = Some q \<longrightarrow> t \<noteq> u \<longrightarrow> \<not> clash p q)"

definition reg_ok :: "regSystem \<Rightarrow> bool" where
  "reg_ok y \<longleftrightarrow> tables_ok y \<and> runtimes_ok y \<and> (\<forall>t p. sy_ops y t = Some p \<longrightarrow> op_ok y p) \<and> exclusive (sy_ops y)"

lemma reg_ok_new: "reg_ok newRegSystem"
  by (simp add: reg_ok_def tables_ok_def runtimes_ok_def exclusive_def newRegSystem_def newRuntimeRegistry_def)

section \<open>Moving one operation\<close>

lemma goto_simps [simp]:
  "sy_registry (goto t p y) = sy_registry y" "sy_runtimes (goto t p y) = sy_runtimes y" "sy_tombs (goto t p y) = sy_tombs y"
  "sy_started (goto t p y) = sy_started y" "sy_canceled (goto t p y) = sy_canceled y" "sy_ops (goto t p y) = (sy_ops y)(t \<mapsto> p)"
  by (simp_all add: goto_def)

lemma with_reg_simps [simp]:
  "sy_registry (with_reg f y) = f (sy_registry y)" "sy_runtimes (with_reg f y) = sy_runtimes y" "sy_tombs (with_reg f y) = sy_tombs y"
  "sy_started (with_reg f y) = sy_started y" "sy_canceled (with_reg f y) = sy_canceled y" "sy_ops (with_reg f y) = sy_ops y"
  by (simp_all add: with_reg_def)

lemma with_rt_simps [simp]:
  "sy_registry (with_rt rt f y) = sy_registry y" "sy_runtimes (with_rt rt f y) = (sy_runtimes y)[rt := f (runtime y rt)]"
  "sy_tombs (with_rt rt f y) = sy_tombs y" "sy_started (with_rt rt f y) = sy_started y" "sy_canceled (with_rt rt f y) = sy_canceled y"
  "sy_ops (with_rt rt f y) = sy_ops y"
  by (simp_all add: with_rt_def)

lemma allocate_simps [simp]:
  "sy_registry (allocate sid y) = sy_registry y" "sy_runtimes (allocate sid y) = sy_runtimes y @ [newRuntimeHandle sid]"
  "sy_tombs (allocate sid y) = sy_tombs y" "sy_started (allocate sid y) = sy_started y" "sy_canceled (allocate sid y) = sy_canceled y"
  "sy_ops (allocate sid y) = sy_ops y"
  by (simp_all add: allocate_def)

text \<open>The invariant reads only the registry, the runtimes, the tombstones and whether the application is started.\<close>

lemma op_ok_cong:
  assumes "sy_registry y = sy_registry z" "sy_runtimes y = sy_runtimes z" "sy_tombs y = sy_tombs z" "sy_started y = sy_started z"
  shows "op_ok y p = op_ok z p"
  using assms by (cases p) (simp_all add: op_ok_def)

lemma tables_ok_cong:
  assumes "sy_registry y = sy_registry z" "sy_runtimes y = sy_runtimes z" "sy_tombs y = sy_tombs z" "sy_started y = sy_started z"
  shows "tables_ok y = tables_ok z" "runtimes_ok y = runtimes_ok z"
  using assms by (simp_all add: tables_ok_def runtimes_ok_def routed_def)

lemma op_at: "reg_ok y \<Longrightarrow> sy_ops y t = Some p \<Longrightarrow> op_ok y p"
  by (simp add: reg_ok_def)

lemma entryD: "tables_ok y \<Longrightarrow> entries y sid = Some rt \<Longrightarrow> rt < length (sy_runtimes y) \<and> rh_session (runtime y rt) = sid \<and> inflight y sid = None"
  by (simp add: tables_ok_def)

lemma tombD: "tables_ok y \<Longrightarrow> sy_tombs y f = Some (sid, rt) \<Longrightarrow> inflight y sid = Some f \<and> rt < length (sy_runtimes y) \<and> rh_session (runtime y rt) = sid"
  by (simp add: tables_ok_def)

lemma flightD: "tables_ok y \<Longrightarrow> inflight y sid = Some f \<Longrightarrow> f < length (reg_flights (sy_registry y))"
  by (simp add: tables_ok_def)

lemma tables_okI:
  assumes "\<And>sid rt. entries y sid = Some rt \<Longrightarrow> rt < length (sy_runtimes y) \<and> rh_session (runtime y rt) = sid \<and> inflight y sid = None"
    and "\<And>f sid rt. sy_tombs y f = Some (sid, rt) \<Longrightarrow> inflight y sid = Some f \<and> rt < length (sy_runtimes y) \<and> rh_session (runtime y rt) = sid"
    and "\<And>sid f. inflight y sid = Some f \<Longrightarrow> f < length (reg_flights (sy_registry y))"
  shows "tables_ok y"
  using assms by (simp add: tables_ok_def)

lemma clash_sym: "clash p q = clash q p"
  by (auto simp: clash_def)

lemma exclusive_move:
  assumes "exclusive ops" "\<And>u q. u \<noteq> t \<Longrightarrow> ops u = Some q \<Longrightarrow> \<not> clash p q"
  shows "exclusive (ops(t \<mapsto> p))"
  using assms clash_sym by (auto simp: exclusive_def)

lemma moved_ok:
  assumes "tables_ok y" "runtimes_ok y" "\<And>u q. u \<noteq> t \<Longrightarrow> sy_ops y u = Some q \<Longrightarrow> op_ok y q \<and> \<not> clash p q"
    and "op_ok y p" "exclusive (sy_ops y)"
  shows "reg_ok (goto t p y)"
proof -
  have "exclusive ((sy_ops y)(t \<mapsto> p))" by (rule exclusive_move) (use assms in auto)
  moreover have "op_ok (goto t p y) q = op_ok y q" for q by (rule op_ok_cong) simp_all
  moreover have "tables_ok (goto t p y)" "runtimes_ok (goto t p y)"
    using assms(1,2) tables_ok_cong [of "goto t p y" y] by simp_all
  ultimately show ?thesis using assms(3,4) by (simp add: reg_ok_def)
qed

lemma goto_ok:
  assumes "reg_ok y" "op_ok y p" "\<And>rt. p \<noteq> OpenRuns rt"
    and "leads p = None \<or> (\<exists>q. sy_ops y t = Some q \<and> leads p = leads q)"
  shows "reg_ok (goto t p y)"
proof (rule moved_ok)
  fix u q
  assume u: "u \<noteq> t" "sy_ops y u = Some q"
  have "\<not> clash p q"
  proof
    assume "clash p q"
    then obtain sid f g where *: "leads p = Some (sid, f)" "leads q = Some (sid, g)" using assms(3) by (auto simp: clash_def)
    with assms(4) obtain r where r: "sy_ops y t = Some r" "leads r = Some (sid, f)" by auto
    then have "clash r q" using * by (auto simp: clash_def)
    then show False using assms(1) r(1) u by (auto simp: reg_ok_def exclusive_def)
  qed
  then show "op_ok y q \<and> \<not> clash p q" using assms(1) u(2) by (auto simp: reg_ok_def)
qed (use assms in \<open>auto simp: reg_ok_def\<close>)

section \<open>Changing one runtime\<close>

text \<open>A runtime keeps its Session, its closing and the result of its opening.\<close>

definition advances :: "runtimeHandle \<Rightarrow> runtimeHandle \<Rightarrow> bool" where
  "advances h h' \<longleftrightarrow> rh_session h' = rh_session h \<and> (rh_closed h \<longrightarrow> rh_closed h') \<and>
     ((rh_closing h' \<or> rh_closed h') \<longrightarrow> (\<exists>e. rh_open h' = OpenDone e)) \<and>
     (rh_open h' = rh_open h \<or> rh_open h = OpenNever \<and> (\<exists>c. rh_open h' = OpenDone (Some c)))"

lemma nth_update: "rt < length xs \<Longrightarrow> (xs[rt := x]) ! i = (if i = rt then x else xs ! i)"
  by simp

lemma op_ok_advances:
  assumes "op_ok y p" "rt < length (sy_runtimes y)" "advances (runtime y rt) (f (runtime y rt))"
  shows "op_ok (with_rt rt f y) p"
  using assms by (cases p) (auto simp: op_ok_def advances_def nth_update)

lemma tables_with_rt:
  assumes "tables_ok y" "rt < length (sy_runtimes y)" "rh_session (f (runtime y rt)) = rh_session (runtime y rt)"
  shows "tables_ok (with_rt rt f y)"
  using assms by (simp add: tables_ok_def nth_update)

lemma routed_with_rt:
  assumes "rt < length (sy_runtimes y)" "rh_session (f (runtime y rt)) = rh_session (runtime y rt)"
  shows "routed (with_rt rt f y) i = routed y i"
  using assms by (simp add: routed_def nth_update)

lemma advances_ok:
  assumes ok: "reg_ok y" and rt: "rt < length (sy_runtimes y)" and adv: "advances (runtime y rt) (f (runtime y rt))"
  shows "reg_ok (with_rt rt f y)"
proof -
  have s: "rh_session (f (runtime y rt)) = rh_session (runtime y rt)" using adv by (simp add: advances_def)
  have "serving (f (runtime y rt)) \<Longrightarrow> serving (runtime y rt)" using adv by (auto simp: advances_def serving_def)
  then have "runtimes_ok (with_rt rt f y)"
    using ok rt adv by (auto simp: runtimes_ok_def reg_ok_def routed_with_rt [where f = f, OF rt s] nth_update advances_def)
  then show ?thesis
    using ok op_ok_advances [where f = f, OF _ rt adv] tables_with_rt [where f = f, OF _ rt s] by (simp add: reg_ok_def)
qed

lemma advances_close_begin: "rh_open h = OpenDone x \<Longrightarrow> advances h (close_begin h)"
  by (simp add: advances_def close_begin_def)

lemma ok_closed_done:
  "reg_ok y \<Longrightarrow> rt < length (sy_runtimes y) \<Longrightarrow> rh_closing (runtime y rt) \<or> rh_closed (runtime y rt) \<Longrightarrow> \<exists>e. rh_open (runtime y rt) = OpenDone e"
  by (auto simp: reg_ok_def runtimes_ok_def)

lemma abortOpen_ok:
  assumes "reg_ok y" "rt < length (sy_runtimes y)"
  shows "reg_ok (with_rt rt (abortOpen c) y)"
  using assms ok_closed_done [OF assms] by (intro advances_ok) (auto simp: advances_def abortOpen_def)

lemma close_begin_ok:
  assumes "reg_ok y" "rt < length (sy_runtimes y)" "rh_open (runtime y rt) = OpenDone x"
  shows "reg_ok (with_rt rt close_begin y)"
  using assms by (intro advances_ok) (auto intro: advances_close_begin)

lemma allocate_ok:
  assumes "reg_ok y"
  shows "reg_ok (allocate sid y)"
proof -
  have op: "op_ok (allocate sid y) p" if "op_ok y p" for p
    using that by (cases p) (auto simp: op_ok_def nth_append newRuntimeHandle_def)
  have "tables_ok (allocate sid y)" using assms by (fastforce simp: reg_ok_def tables_ok_def nth_append)
  moreover have "runtimes_ok (allocate sid y)"
    using assms by (auto simp: reg_ok_def runtimes_ok_def nth_append newRuntimeHandle_def serving_def routed_def less_Suc_eq)
  ultimately show ?thesis using assms op by (simp add: reg_ok_def)
qed

text \<open>The opening of a registered runtime begins, and ends.\<close>

lemma open_begin_ok:
  assumes ok: "reg_ok y" and t: "sy_ops y t = Some (OpenAt rt)" and never: "rh_open (runtime y rt) = OpenNever"
  shows "reg_ok (goto t (OpenRuns rt) (with_rt rt open_begin y))"
proof -
  have rt: "rt < length (sy_runtimes y)" and reg: "sy_started y \<Longrightarrow> entries y (rh_session (runtime y rt)) = Some rt"
    using op_at [OF ok t] never by (simp_all add: op_ok_def)
  have shut: "\<not> rh_closing (runtime y rt) \<and> \<not> rh_closed (runtime y rt)" using ok_closed_done [OF ok rt] never by auto
  have other: "op_ok (with_rt rt open_begin y) q \<and> \<not> clash (OpenRuns rt) q" if "sy_ops y u = Some q" for u q
  proof -
    have "op_ok y q" using ok that by (auto simp: reg_ok_def)
    then show ?thesis using rt never shut by (cases q) (auto simp: op_ok_def nth_update open_begin_def clash_def)
  qed
  have "runtimes_ok (with_rt rt open_begin y)"
    using ok rt reg shut unfolding runtimes_ok_def
    by (auto simp: reg_ok_def runtimes_ok_def nth_update open_begin_def routed_def)
  moreover have "tables_ok (with_rt rt open_begin y)"
    using ok rt by (intro tables_with_rt) (auto simp: reg_ok_def open_begin_def)
  moreover have "op_ok (with_rt rt open_begin y) (OpenRuns rt)" using rt by (simp add: op_ok_def open_begin_def)
  ultimately show ?thesis using ok other by (intro moved_ok) (auto simp: reg_ok_def)
qed

lemma open_end_ok:
  assumes ok: "reg_ok y" and t: "sy_ops y t = Some (OpenRuns rt)"
  shows "reg_ok (goto t (OpenAwaits rt) (with_rt rt (open_end r) y))"
proof -
  have rt: "rt < length (sy_runtimes y)" and running: "rh_open (runtime y rt) = OpenRunning"
    using op_at [OF ok t] by (simp_all add: op_ok_def)
  have other: "op_ok (with_rt rt (open_end r) y) q" if "u \<noteq> t" "sy_ops y u = Some q" for u q
  proof -
    have "op_ok y q" "q \<noteq> OpenRuns rt" using ok that t by (auto simp: reg_ok_def exclusive_def clash_def)
    then show ?thesis using rt running by (cases q) (auto simp: op_ok_def nth_update open_end_def)
  qed
  have "serving (open_end r (runtime y rt)) \<Longrightarrow> serving (runtime y rt)" using running by (auto simp: serving_def open_end_def)
  then have "runtimes_ok (with_rt rt (open_end r) y)"
    using ok rt running by (auto simp: reg_ok_def runtimes_ok_def nth_update routed_def open_end_def)
  moreover have "tables_ok (with_rt rt (open_end r) y)"
    using ok rt by (intro tables_with_rt) (auto simp: reg_ok_def open_end_def)
  moreover have "op_ok (with_rt rt (open_end r) y) (OpenAwaits rt)" using rt by (simp add: op_ok_def)
  ultimately show ?thesis using ok other by (intro moved_ok) (auto simp: reg_ok_def clash_def)
qed

section \<open>Changing the registry\<close>

lemma lead_ok:
  assumes ok: "reg_ok y" and t: "sy_ops y t = Some (ResumeAt sid)" and look: "getOrCreate_lookup sid (sy_registry y) = Leads f g"
  shows "reg_ok (goto t (ResumeLeads sid f) (with_reg (\<lambda>_. g) y))"
proof (rule moved_ok)
  have none: "entries y sid = None" "inflight y sid = None" and f: "f = length (reg_flights (sy_registry y))" and g: "g = take_off sid (sy_registry y)"
    using look by (auto simp: getOrCreate_lookup_def split: option.splits)
  have tables: "tables_ok y" "runtimes_ok y" using ok by (simp_all add: reg_ok_def)
  have tomb: "sy_tombs y f = None"
    using tables(1) f by (cases "sy_tombs y f") (fastforce simp: tables_ok_def)+
  show "tables_ok (with_reg (\<lambda>_. g) y)"
    using tables(1) none by (fastforce simp: tables_ok_def g take_off_def)
  show "runtimes_ok (with_reg (\<lambda>_. g) y)"
    using tables(2) none by (auto simp: runtimes_ok_def routed_def g take_off_def)
  show "op_ok (with_reg (\<lambda>_. g) y) (ResumeLeads sid f)" using tomb by (simp add: op_ok_def g take_off_def f)
  show "op_ok (with_reg (\<lambda>_. g) y) q \<and> \<not> clash (ResumeLeads sid f) q" if "u \<noteq> t" "sy_ops (with_reg (\<lambda>_. g) y) u = Some q" for u q
  proof -
    have q: "op_ok y q" using op_at [OF ok] that(2) by simp
    then have "leads q = Some (s, k) \<Longrightarrow> s \<noteq> sid" for s k using none by (auto simp: op_ok_def)
    with q show ?thesis by (cases q) (auto simp: op_ok_def clash_def g take_off_def)
  qed
  show "exclusive (sy_ops (with_reg (\<lambda>_. g) y))" using ok by (simp add: reg_ok_def)
qed

text \<open>The leader of a flight lands it; nobody else leads it, and it is no tombstone.\<close>

lemma land_others:
  assumes ok: "reg_ok y" and t: "sy_ops y t = Some p" "leads p = Some (sid, f)"
    and u: "u \<noteq> t" "sy_ops y u = Some q"
  shows "op_ok (with_reg (getOrCreate_land sid f r) y) q"
proof -
  have q: "op_ok y q" "\<not> clash p q" using ok t u by (auto simp: reg_ok_def exclusive_def)
  then have 1: "leads q = Some (s, k) \<Longrightarrow> s \<noteq> sid" for s k using t(2) by (auto simp: clash_def)
  have 2: "entries y sid = None"
    using ok op_at [OF ok t(1)] t(2) by (cases "entries y sid") (auto simp: reg_ok_def tables_ok_def op_ok_def)
  show ?thesis using q 1 2 by (cases q) (auto simp: op_ok_def getOrCreate_land_def split: sum.split)
qed

lemma land_tables:
  assumes ok: "reg_ok y" and t: "sy_ops y t = Some p" "leads p = Some (sid, f)"
    and r: "\<And>rt. r = Inr rt \<Longrightarrow> rt < length (sy_runtimes y) \<and> rh_session (runtime y rt) = sid"
  shows "tables_ok (with_reg (getOrCreate_land sid f r) y) \<and> runtimes_ok (with_reg (getOrCreate_land sid f r) y)"
proof
  have fl: "inflight y sid = Some f" "sy_tombs y f = None" using op_at [OF ok t(1)] t(2) by (auto simp: op_ok_def)
  have tables: "tables_ok y" "runtimes_ok y" using ok by (simp_all add: reg_ok_def)
  have none: "entries y sid = None" using tables(1) fl by (cases "entries y sid") (auto simp: tables_ok_def)
  show "tables_ok (with_reg (getOrCreate_land sid f r) y)"
    using tables(1) fl r by (cases r) (auto simp: tables_ok_def getOrCreate_land_def)
  have "routed y rt \<Longrightarrow> routed (with_reg (getOrCreate_land sid f r) y) rt" for rt
    using fl none by (cases r) (auto simp: routed_def getOrCreate_land_def)
  then show "runtimes_ok (with_reg (getOrCreate_land sid f r) y)"
    using tables(2) by (simp add: runtimes_ok_def)
qed

lemma land_fails_ok:
  assumes ok: "reg_ok y" and t: "sy_ops y t = Some p" "leads p = Some (sid, f)"
  shows "reg_ok (goto t (Ended (Inl e)) (with_reg (getOrCreate_land sid f (Inl e)) y))"
  using land_tables [OF ok t, of "Inl e"] land_others [OF ok t] ok
  by (intro moved_ok) (auto simp: reg_ok_def op_ok_def clash_def)

lemma land_ok:
  assumes ok: "reg_ok y" and t: "sy_ops y t = Some (ResumeBuilt sid f rt)" and s: "rh_session (runtime y rt) = sid"
  shows "reg_ok (goto t (OpenAt rt) (with_reg (getOrCreate_land sid f (Inr rt)) y))"
proof (rule moved_ok)
  have rt: "rt < length (sy_runtimes y)" using op_at [OF ok t] by (simp add: op_ok_def)
  show "tables_ok (with_reg (getOrCreate_land sid f (Inr rt)) y)" "runtimes_ok (with_reg (getOrCreate_land sid f (Inr rt)) y)"
    using land_tables [OF ok t, of sid f "Inr rt"] rt s by simp_all
  show "op_ok (with_reg (getOrCreate_land sid f (Inr rt)) y) (OpenAt rt)" using rt s by (simp add: op_ok_def getOrCreate_land_def)
  show "op_ok (with_reg (getOrCreate_land sid f (Inr rt)) y) q \<and> \<not> clash (OpenAt rt) q"
    if "u \<noteq> t" "sy_ops (with_reg (getOrCreate_land sid f (Inr rt)) y) u = Some q" for u q
    using land_others [OF ok t, of sid f u q] that by (simp add: clash_def)
  show "exclusive (sy_ops (with_reg (getOrCreate_land sid f (Inr rt)) y))" using ok by (simp add: reg_ok_def)
qed

text \<open>
  The other sections change the entry of one Session only. \<open>kept_ops\<close> says what the operations that are under way need
  of such a change.
\<close>

lemma kept_ops:
  assumes "op_ok y q" "sy_runtimes z = sy_runtimes y" "sy_started z = sy_started y" "inflight z = inflight y" "sy_tombs z = sy_tombs y"
    and "\<And>rt. rt < length (sy_runtimes y) \<Longrightarrow> rh_open (runtime y rt) = OpenNever \<Longrightarrow> entries y (rh_session (runtime y rt)) = Some rt \<Longrightarrow>
      entries z (rh_session (runtime y rt)) = Some rt"
  shows "op_ok z q"
  using assms by (cases q) (auto simp: op_ok_def)

lemma add_ok:
  assumes ok: "reg_ok y" and t: "sy_ops y t = Some (NewBuilt rt)" and add: "registry_add (rh_session (runtime y rt)) rt (sy_registry y) = Inr g"
  shows "reg_ok (goto t (OpenAt rt) (with_reg (\<lambda>_. g) y))"
proof (rule moved_ok)
  let ?sid = "rh_session (runtime y rt)"
  have rt: "rt < length (sy_runtimes y)" using op_at [OF ok t] by (simp add: op_ok_def)
  have none: "entries y ?sid = None" "inflight y ?sid = None" and g: "g = (sy_registry y)\<lparr>reg_entries := (entries y)(?sid \<mapsto> rt)\<rparr>"
    using add by (auto simp: registry_add_def split: if_splits)
  have tables: "tables_ok y" "runtimes_ok y" using ok by (simp_all add: reg_ok_def)
  show "tables_ok (with_reg (\<lambda>_. g) y)" using tables(1) none rt by (auto simp: tables_ok_def g)
  show "runtimes_ok (with_reg (\<lambda>_. g) y)" using tables(2) none by (auto simp: runtimes_ok_def routed_def g)
  show "op_ok (with_reg (\<lambda>_. g) y) (OpenAt rt)" using rt by (simp add: op_ok_def g)
  show "op_ok (with_reg (\<lambda>_. g) y) q \<and> \<not> clash (OpenAt rt) q" if "u \<noteq> t" "sy_ops (with_reg (\<lambda>_. g) y) u = Some q" for u q
    using that none by (simp add: clash_def) (rule kept_ops [OF op_at [OF ok, of u q]], auto simp: g)
  show "exclusive (sy_ops (with_reg (\<lambda>_. g) y))" using ok by (simp add: reg_ok_def)
qed

lemma discard_ok:
  assumes ok: "reg_ok y" and t: "sy_ops y t = Some (FailDiscards rt e)"
  shows "reg_ok (goto t (Ended (Inl e)) (with_reg (registry_discard (rh_session (runtime y rt)) rt) y))"
    (is "reg_ok (goto t _ ?z)")
proof (rule moved_ok)
  have rt: "rt < length (sy_runtimes y)" "rh_closed (runtime y rt)" using op_at [OF ok t] by (simp_all add: op_ok_def)
  obtain x where x: "rh_open (runtime y rt) = OpenDone x" using ok_closed_done [OF ok rt(1)] rt(2) by auto
  have tables: "tables_ok y" "runtimes_ok y" using ok by (simp_all add: reg_ok_def)
  show "tables_ok ?z"
    by (rule tables_okI) (auto simp: registry_discard_def split: if_splits dest: entryD [OF tables(1)] tombD [OF tables(1)] flightD [OF tables(1)])
  have "routed y i \<Longrightarrow> i \<noteq> rt \<Longrightarrow> routed ?z i" for i by (auto simp: routed_def registry_discard_def)
  then show "runtimes_ok ?z" using tables(2) rt(2) by (auto simp: runtimes_ok_def serving_def)
  show "op_ok ?z q \<and> \<not> clash (Ended (Inl e)) q" if "u \<noteq> t" "sy_ops ?z u = Some q" for u q
    using that x by (simp add: clash_def) (rule kept_ops [OF op_at [OF ok, of u q]], auto simp: registry_discard_def)
qed (use ok in \<open>auto simp: op_ok_def reg_ok_def\<close>)

lemma mark_ok:
  assumes ok: "reg_ok y" and t: "sy_ops y t = Some (CloseMarks sid rt)" and mark: "markClosing sid rt (sy_registry y) = Inr (f, g)"
  shows "reg_ok (goto t (CloseWaits rt) (with_reg (\<lambda>_. g) (y\<lparr>sy_tombs := (sy_tombs y)(f \<mapsto> (sid, rt))\<rparr>)))"
    (is "reg_ok (goto t _ ?z)")
proof (rule moved_ok)
  have rt: "rt < length (sy_runtimes y)" "rh_session (runtime y rt) = sid" "rh_open (runtime y rt) = OpenDone None"
    using op_at [OF ok t] by (simp_all add: op_ok_def)
  have was: "entries y sid = Some rt" "inflight y sid = None" and f: "f = length (reg_flights (sy_registry y))"
    and g: "g = take_off sid ((sy_registry y)\<lparr>reg_entries := (entries y)(sid := None)\<rparr>)"
    using mark by (auto simp: markClosing_def split: if_splits)
  have tables: "tables_ok y" "runtimes_ok y" using ok by (simp_all add: reg_ok_def)
  have fresh: "inflight y s \<noteq> Some f" for s using tables(1) f by (auto simp: tables_ok_def)
  show "tables_ok ?z"
    by (rule tables_okI)
      (use was rt fresh in \<open>auto simp: g take_off_def f split: if_splits dest: entryD [OF tables(1)] tombD [OF tables(1)] flightD [OF tables(1)]\<close>)
  have "routed ?z i" if reg: "routed y i" for i
  proof (cases "entries y (rh_session (runtime y i)) = Some i")
    case True
    then have "rh_session (runtime y i) = sid \<Longrightarrow> i = rt" using was by simp
    with True show ?thesis by (cases "rh_session (runtime y i) = sid") (simp_all add: routed_def g take_off_def f)
  next
    case False
    then obtain k where "inflight y (rh_session (runtime y i)) = Some k" "sy_tombs y k = Some (rh_session (runtime y i), i)"
      using reg by (auto simp: routed_def)
    moreover from this have "k \<noteq> f" "rh_session (runtime y i) \<noteq> sid" using fresh was by auto
    ultimately show ?thesis by (simp add: routed_def g take_off_def)
  qed
  then show "runtimes_ok ?z" using tables(2) by (auto simp: runtimes_ok_def)
  show "op_ok ?z (CloseWaits rt)" using rt by (simp add: op_ok_def)
  show "op_ok ?z q \<and> \<not> clash (CloseWaits rt) q" if "u \<noteq> t" "sy_ops ?z u = Some q" for u q
  proof -
    have q: "op_ok y q" using op_at [OF ok, of u q] that by simp
    then have "leads q = Some (s, k) \<Longrightarrow> s \<noteq> sid \<and> k \<noteq> f" for s k using was fresh by (auto simp: op_ok_def)
    moreover have "rh_open (runtime y i) = OpenNever \<Longrightarrow> entries y (rh_session (runtime y i)) = Some i \<Longrightarrow> rh_session (runtime y i) \<noteq> sid" for i
      using was(1) rt(3) by (metis openOnce.distinct(3) option.inject)
    ultimately show ?thesis using q by (cases q) (auto simp: op_ok_def clash_def g take_off_def)
  qed
  show "exclusive (sy_ops ?z)" using ok by (simp add: reg_ok_def)
qed

lemma tomb_ok:
  assumes ok: "reg_ok y" and f: "sy_tombs y f = Some (sid, rt)" and closed: "rh_closed (runtime y rt)"
  shows "reg_ok (with_reg (tombstone_end sid f) (y\<lparr>sy_tombs := (sy_tombs y)(f := None)\<rparr>))" (is "reg_ok ?z")
proof -
  have tables: "tables_ok y" "runtimes_ok y" using ok by (simp_all add: reg_ok_def)
  have fl: "inflight y sid = Some f" using tables(1) f by (auto simp: tables_ok_def)
  have "tables_ok ?z"
    by (rule tables_okI)
      (use fl f in \<open>auto simp: tombstone_end_def split: if_splits dest: entryD [OF tables(1)] tombD [OF tables(1)] flightD [OF tables(1)]\<close>)
  moreover have "routed y i \<Longrightarrow> i \<noteq> rt \<Longrightarrow> routed ?z i" for i
    using fl f by (auto simp: routed_def tombstone_end_def) (metis option.inject prod.inject)
  then have "runtimes_ok ?z" using tables(2) closed by (auto simp: runtimes_ok_def serving_def)
  moreover have "op_ok ?z q" if "sy_ops y u = Some q" for u q
  proof -
    have q: "op_ok y q" using op_at [OF ok that] .
    then have "leads q = Some (s, k) \<Longrightarrow> k \<noteq> f \<and> s \<noteq> sid" for s k using f fl by (auto simp: op_ok_def)
    with q show ?thesis by (cases q) (auto simp: op_ok_def tombstone_end_def)
  qed
  ultimately show ?thesis using ok by (simp add: reg_ok_def)
qed

lemma stop_ok:
  assumes ok: "reg_ok y" and not: "\<not> sy_started y" and t: "sy_ops y t = Some StopTakes" and rts: "set rts = ran (entries y)"
  shows "reg_ok (goto t (StopCloses rts) (with_reg closeAll_take y))" (is "reg_ok (goto t _ ?z)")
proof (rule moved_ok)
  have tables: "tables_ok y" "runtimes_ok y" using ok by (simp_all add: reg_ok_def)
  show "tables_ok ?z" using tables(1) by (auto simp: tables_ok_def closeAll_take_def)
  show "runtimes_ok ?z" using tables(2) not by (auto simp: runtimes_ok_def)
  show "op_ok ?z (StopCloses rts)" using tables(1) rts by (auto simp: op_ok_def tables_ok_def ran_def)
  show "op_ok ?z q \<and> \<not> clash (StopCloses rts) q" if "u \<noteq> t" "sy_ops ?z u = Some q" for u q
  proof -
    have "op_ok y q" using op_at [OF ok, of u q] that by simp
    then show ?thesis using not by (cases q) (auto simp: op_ok_def clash_def closeAll_take_def)
  qed
  show "exclusive (sy_ops ?z)" using ok by (simp add: reg_ok_def)
qed

section \<open>Every step\<close>

text \<open>The operation \<^verbatim>\<open>stop\<close> runs only after the application is no longer started.\<close>

definition stopping :: "regSystem \<Rightarrow> bool" where
  "stopping y \<longleftrightarrow> (\<forall>t. sy_ops y t = Some StopTakes \<longrightarrow> \<not> sy_started y)"

lemma started_ok:
  assumes "reg_ok y"
  shows "reg_ok (y\<lparr>sy_started := False\<rparr>)"
proof -
  have "op_ok (y\<lparr>sy_started := False\<rparr>) p" if "op_ok y p" for p using that by (cases p) (auto simp: op_ok_def)
  then show ?thesis using assms by (auto simp: reg_ok_def tables_ok_def runtimes_ok_def)
qed

lemma reg_step_stopping: "reg_step y z \<Longrightarrow> stopping y \<Longrightarrow> stopping z"
  by (induction rule: reg_step.induct) (auto simp: stopping_def)

lemma holdsD: "reg_ok y \<Longrightarrow> sy_ops y t = Some p \<Longrightarrow> rt \<in> set (holds p) \<Longrightarrow> rt < length (sy_runtimes y)"
  using op_at by (fastforce simp: op_ok_def)

lemma reg_step_ok: "reg_step y z \<Longrightarrow> stopping y \<Longrightarrow> reg_ok y \<Longrightarrow> reg_ok z"
proof (induction rule: reg_step.induct)
  case (resume_leads y t sid f g)
  then show ?case by (simp add: lead_ok)
next
  case (resume_fails y t sid f e)
  then show ?case by (simp add: land_fails_ok)
next
  case (resume_builds y t sid f sid')
  then have "op_ok (allocate sid' y) (ResumeBuilt sid f (length (sy_runtimes y)))" using op_at [of y t] by (auto simp: op_ok_def)
  then show ?case using resume_builds by (intro goto_ok allocate_ok) auto
next
  case (resume_canceled y t sid f rt e)
  then show ?case using op_at [of y t] holdsD [of y t] by (intro goto_ok abortOpen_ok) (auto simp: op_ok_def)
next
  case (resume_mismatch y t sid f rt)
  then show ?case using op_at [of y t] holdsD [of y t] by (intro goto_ok abortOpen_ok) (auto simp: op_ok_def)
next
  case (resume_lands y t sid f rt)
  then show ?case by (simp add: land_ok)
next
  case (resume_drops y t sid f rt e x)
  then show ?case using op_at [of y t] holdsD [of y t] by (intro goto_ok close_begin_ok) (auto simp: op_ok_def)
next
  case (resume_dropped y t sid f rt e)
  then show ?case by (simp add: land_fails_ok)
next
  case (new_builds y t sid)
  then show ?case by (intro goto_ok allocate_ok) (auto simp: op_ok_def)
next
  case (new_canceled y t rt e)
  then show ?case using holdsD [of y t] by (intro goto_ok abortOpen_ok) (auto simp: op_ok_def)
next
  case (new_conflicts y t rt e)
  then show ?case using holdsD [of y t] by (intro goto_ok abortOpen_ok) (auto simp: op_ok_def)
next
  case (new_adds y t rt g)
  then show ?case by (simp add: add_ok)
next
  case (new_drops y t rt e x)
  then show ?case using holdsD [of y t] by (intro goto_ok close_begin_ok) (auto simp: op_ok_def)
next
  case (opens y t rt)
  then show ?case by (simp add: open_begin_ok)
next
  case (open_ends y t rt r)
  then show ?case by (simp add: open_end_ok)
next
  case (fail_closes y t rt e x)
  then show ?case using holdsD [of y t] by (intro goto_ok close_begin_ok) (auto simp: op_ok_def)
next
  case (fail_discards y t rt e)
  then show ?case by (simp add: discard_ok)
next
  case (close_begins y t sid rt)
  then show ?case using op_at [of y t] by (intro goto_ok advances_ok) (auto simp: op_ok_def advances_def beginClose_def)
next
  case (close_marks y t sid rt f g)
  then show ?case by (simp add: mark_ok)
next
  case (tomb_ends y f sid rt)
  then show ?case by (simp add: tomb_ok)
next
  case (closing_ends rt y)
  then show ?case using ok_closed_done [of y rt] by (intro advances_ok) (auto simp: advances_def close_end_def)
next
  case (fails_closed rt y)
  then show ?case by (intro advances_ok) (auto simp: advances_def fail_closed_def)
next
  case (stop_begins y t)
  then show ?case by (intro goto_ok started_ok) (auto simp: op_ok_def)
next
  case (stop_takes y t rts)
  then show ?case by (intro stop_ok) (auto simp: stopping_def)
next
  case (stop_closes y t rt rts x)
  then show ?case using holdsD [of y t] by (intro goto_ok close_begin_ok) (auto simp: op_ok_def)
next
  case (cancels y t)
  have "op_ok (y\<lparr>sy_canceled := insert t (sy_canceled y)\<rparr>) p = op_ok y p" for p by (rule op_ok_cong) simp_all
  then show ?case using cancels by (simp add: reg_ok_def tables_ok_cong [of "y\<lparr>sy_canceled := insert t (sy_canceled y)\<rparr>" y])
next
  case (resume_finds y t sid rt)
  then have "entries y sid = Some rt" by (auto simp: getOrCreate_lookup_def split: option.splits)
  then have "rt < length (sy_runtimes y) \<and> rh_session (runtime y rt) = sid" using entryD resume_finds by (auto simp: reg_ok_def)
  then show ?case using resume_finds \<open>entries y sid = Some rt\<close> by (intro goto_ok) (auto simp: op_ok_def)
next
  case (close_finds y t sid rt)
  then have "entries y sid = Some rt" by (auto simp: registry_wait_def split: option.splits)
  then have "rt < length (sy_runtimes y) \<and> rh_session (runtime y rt) = sid" using entryD close_finds by (auto simp: reg_ok_def)
  then show ?case using close_finds by (intro goto_ok) (auto simp: op_ok_def)
next
  case (close_awaits y t sid rt)
  then show ?case using op_at [of y t] by (intro goto_ok) (auto simp: op_ok_def awaitOpen_def)
next
  case (stop_skips y t rt rts)
  then show ?case using holdsD [of y t] by (intro goto_ok) (auto simp: op_ok_def)
next
  case (stop_waits y t rt rts)
  then show ?case using holdsD [of y t] by (intro goto_ok) (auto simp: op_ok_def)
qed (use holdsD in \<open>intro goto_ok; fastforce simp: op_ok_def\<close>)+

lemma reg_reachable_ok: "reg_reachable y \<Longrightarrow> reg_ok y \<and> stopping y"
  unfolding reg_reachable_def
proof (induction rule: rtranclp_induct)
  case base
  show ?case using reg_ok_new by (simp add: stopping_def newRegSystem_def)
next
  case (step y z)
  then show ?case using reg_step_ok reg_step_stopping by blast
qed

lemma serving_unique:
  assumes "reg_ok y" "sy_started y" "a < length (sy_runtimes y)" "b < length (sy_runtimes y)"
    and "serving (runtime y a)" "serving (runtime y b)" "rh_session (runtime y a) = rh_session (runtime y b)"
  shows "a = b"
proof -
  have "routed y a" "routed y b" using assms by (auto simp: reg_ok_def runtimes_ok_def)
  moreover have "entries y sid = Some rt \<Longrightarrow> inflight y sid = None" for sid rt using assms(1) entryD by (auto simp: reg_ok_def)
  ultimately show ?thesis using assms(7) unfolding routed_def by (metis option.distinct(1) option.inject prod.inject)
qed

section \<open>One runtime per Session\<close>

text \<open>
  C28. While the application is started, in every interleaving of resuming, creating, forking, closing and failing
  operations, with any cancellations: two runtimes that serve the same Session are the same one; it is registered, or
  the tombstone of its closing keeps every other operation from building a second one; and a runtime answered by
  the registry belongs to the Session that was asked for.
\<close>

theorem one_runtime_per_session:
  assumes "reg_reachable y" "sy_started y"
  shows "(\<forall>a < length (sy_runtimes y). \<forall>b < length (sy_runtimes y).
        serving (runtime y a) \<and> serving (runtime y b) \<and> rh_session (runtime y a) = rh_session (runtime y b) \<longrightarrow> a = b) \<and>
    (\<forall>a < length (sy_runtimes y). serving (runtime y a) \<longrightarrow>
        entries y (rh_session (runtime y a)) = Some a \<or>
        (\<exists>f. getOrCreate_lookup (rh_session (runtime y a)) (sy_registry y) = Joins f \<and> sy_tombs y f = Some (rh_session (runtime y a), a))) \<and>
    (\<forall>sid a. getOrCreate_lookup sid (sy_registry y) = Found a \<longrightarrow> rh_session (runtime y a) = sid)"
proof -
  have ok: "reg_ok y" using reg_reachable_ok [OF assms(1)] by simp
  have tables: "tables_ok y" using ok by (simp add: reg_ok_def)
  have "entries y (rh_session (runtime y a)) = Some a \<or>
      (\<exists>f. getOrCreate_lookup (rh_session (runtime y a)) (sy_registry y) = Joins f \<and> sy_tombs y f = Some (rh_session (runtime y a), a))"
    if "a < length (sy_runtimes y)" "serving (runtime y a)" for a
  proof -
    have "routed y a" using ok that assms(2) by (simp add: reg_ok_def runtimes_ok_def)
    then show ?thesis
      by (auto simp: routed_def getOrCreate_lookup_def split: option.split dest: entryD [OF tables])
  qed
  moreover have "rh_session (runtime y a) = sid" if "getOrCreate_lookup sid (sy_registry y) = Found a" for sid a
    using that entryD [OF tables] by (auto simp: getOrCreate_lookup_def split: option.splits)
  ultimately show ?thesis using serving_unique [OF ok assms(2)] by blast
qed

section \<open>A runtime that failed closed stays registered\<close>

text \<open>
  A registered runtime that failed closed, and no operation that is about to drop it. \<open>calm_step\<close> are the steps of a
  started application without canceled contexts.
\<close>

definition dropping :: "nat \<Rightarrow> opState \<Rightarrow> bool" where
  "dropping rt p \<longleftrightarrow> (\<exists>e. p = FailCloses rt e \<or> p = FailClosing rt e \<or> p = FailDiscards rt e) \<or> (\<exists>sid. p = CloseMarks sid rt)"

definition failed :: "SessionID \<Rightarrow> nat \<Rightarrow> regSystem \<Rightarrow> bool" where
  "failed sid rt y \<longleftrightarrow> entries y sid = Some rt \<and> rh_closed (runtime y rt) \<and> rh_open (runtime y rt) = OpenDone None \<and>
     sy_started y \<and> sy_canceled y = {} \<and> (\<forall>t p. sy_ops y t = Some p \<longrightarrow> \<not> dropping rt p)"

definition calm_step :: "regSystem \<Rightarrow> regSystem \<Rightarrow> bool" where
  "calm_step y z \<longleftrightarrow> reg_step y z \<and> sy_started z \<and> sy_canceled z = {}"

lemma failed_goto: "failed sid rt y \<Longrightarrow> \<not> dropping rt p \<Longrightarrow> failed sid rt (goto t p y)"
  by (simp add: failed_def)

lemma failed_with_rt:
  assumes "failed sid rt y" "rt < length (sy_runtimes y)"
    and "i = rt \<Longrightarrow> rh_closed (f (runtime y rt)) \<and> rh_open (f (runtime y rt)) = OpenDone None"
  shows "failed sid rt (with_rt i f y)"
  using assms by (cases "i = rt") (simp_all add: failed_def)

lemma failed_with_reg: "failed sid rt y \<Longrightarrow> reg_entries (f (sy_registry y)) sid = Some rt \<Longrightarrow> failed sid rt (with_reg f y)"
  by (simp add: failed_def)

lemma failed_allocate: "failed sid rt y \<Longrightarrow> rt < length (sy_runtimes y) \<Longrightarrow> failed sid rt (allocate s y)"
  by (simp add: failed_def nth_append)

lemma failedD:
  assumes "failed sid rt y"
  shows "entries y sid = Some rt" "rh_closed (runtime y rt)" "rh_open (runtime y rt) = OpenDone None" "sy_canceled y = {}"
    "sy_ops y t = Some p \<Longrightarrow> \<not> dropping rt p"
  using assms by (simp_all add: failed_def)

lemmas failed_intros = failed_goto failed_with_rt failed_with_reg failed_allocate

lemmas handle_defs = awaitOpen_def beginClose_error_def abortOpen_def close_begin_def beginClose_def close_end_def fail_closed_def

lemma failed_step:
  assumes step: "reg_step y z" and calm: "sy_started z" "sy_canceled z = {}"
    and ok: "reg_ok y" "stopping y" and failed: "failed sid rt y"
  shows "failed sid rt z"
proof -
  have rt: "rt < length (sy_runtimes y)" "inflight y sid = None"
    using ok(1) failed entryD [of y sid rt] by (auto simp: reg_ok_def failed_def)
  have lead: "\<not> (\<exists>t p f. sy_ops y t = Some p \<and> leads p = Some (sid, f))"
    using op_at [OF ok(1)] rt(2) by (fastforce simp: op_ok_def)
  show ?thesis using step calm failed rt lead ok
  proof (induction rule: reg_step.induct)
    case (fail_discards y t i e)
    then have "\<not> dropping rt (FailDiscards i e)" using failedD(5) by blast
    then have "i \<noteq> rt" by (auto simp: dropping_def)
    then show ?case using fail_discards by (intro failed_intros) (auto simp: dropping_def registry_discard_def failedD(1))
  next
    case (close_marks y t s i f g)
    then have "\<not> dropping rt (CloseMarks s i)" using failedD(5) by blast
    then have "i \<noteq> rt" by (auto simp: dropping_def)
    then show ?case using close_marks
      by (auto simp: failed_def dropping_def markClosing_def take_off_def split: if_splits)
  next
    case (resume_lands y t s f i)
    then have "leads (ResumeBuilt s f i) \<noteq> Some (sid, f)" by blast
    then have "s \<noteq> sid" by simp
    then show ?case using resume_lands by (intro failed_intros) (auto simp: dropping_def getOrCreate_land_def failedD(1))
  next
    case (new_adds y t i g)
    then show ?case by (intro failed_intros) (auto simp: dropping_def registry_add_def failedD(1) split: if_splits)
  next
    case (resume_leads y t s f g)
    then show ?case
      by (intro failed_intros) (auto simp: dropping_def getOrCreate_lookup_def take_off_def failedD(1) split: option.splits)
  next
    case (tomb_ends y f s i)
    then show ?case by (auto simp: failed_def tombstone_end_def)
  next
    case (fail_waits y t i e)
    then have "\<not> dropping rt (FailClosing i e)" using failedD(5) by blast
    then show ?case using fail_waits by (intro failed_intros) (auto simp: dropping_def)
  next
    case (fail_closes y t i e x)
    then have "\<not> dropping rt (FailCloses i e)" using failedD(5) by blast
    then show ?case using fail_closes by (intro failed_intros) (auto simp: dropping_def handle_defs failedD)
  next
    case (open_fails y t i e)
    then have "i \<noteq> rt" using failedD(3,4) by (auto simp: awaitOpen_def)
    then show ?case using open_fails by (intro failed_intros) (auto simp: dropping_def)
  next
    case (close_begins y t s i)
    then have "i \<noteq> rt" using failedD(2) by (auto simp: beginClose_error_def)
    then show ?case using close_begins by (intro failed_intros) (auto simp: dropping_def)
  next
    case (opens y t i)
    then have "i \<noteq> rt" using failedD(3) by fastforce
    then show ?case using opens by (intro failed_intros) (auto simp: dropping_def)
  next
    case (open_ends y t i r)
    then have "i \<noteq> rt" using failedD(3) op_at [of y t] by (fastforce simp: op_ok_def)
    then show ?case using open_ends by (intro failed_intros) (auto simp: dropping_def)
  next
    case (stop_takes y t rts)
    then show ?case by (auto simp: stopping_def)
  next
    case (cancels y t)
    then show ?case by simp
  next
    case (stop_begins y t)
    then show ?case by simp
  qed (intro failed_intros; auto simp: dropping_def handle_defs getOrCreate_land_def dest: failedD(1,2,3))+
qed

lemma failed_run:
  assumes "calm_step\<^sup>*\<^sup>* y z" "reg_reachable y" "failed sid rt y"
  shows "reg_reachable z \<and> failed sid rt z"
  using assms
proof (induction rule: rtranclp_induct)
  case (step z w)
  then have "reg_reachable z" "failed sid rt z" "reg_step z w" "sy_started w" "sy_canceled w = {}" by (auto simp: calm_step_def)
  moreover from this have "reg_ok z" "stopping z" using reg_reachable_ok by auto
  ultimately show ?case using failed_step by (auto simp: reg_reachable_def)
qed auto

text \<open>
  A runtime that fails closed after a Run keeps its place in the registry: as long as no context is canceled and
  the application runs, whatever operations follow, its Session has no serving runtime, every Resume finds the
  closed runtime and answers success with it, and every Close is refused because it is closed. The fresh recovery
  that an explicit Close or Resume is meant to obtain does not happen.
\<close>

theorem failed_runtime_blocks_session:
  assumes "reg_reachable y" "failed sid rt y" "calm_step\<^sup>*\<^sup>* y z"
  shows "getOrCreate_lookup sid (sy_registry z) = Found rt \<and> rh_closed (runtime z rt) \<and>
    (\<forall>a < length (sy_runtimes z). rh_session (runtime z a) = sid \<longrightarrow> \<not> serving (runtime z a)) \<and>
    (\<forall>t. sy_ops z t = Some (OpenAwaits rt) \<longrightarrow> reg_step z (goto t (Ended (Inr rt)) z)) \<and>
    (\<forall>t r. awaitOpen (t \<in> sy_canceled z) (runtime z rt) r \<longrightarrow> r = None) \<and>
    beginClose_error (runtime z rt) \<noteq> None"
proof -
  have z: "reg_reachable z" "failed sid rt z" using failed_run [OF assms(3,1,2)] by auto
  have f: "entries z sid = Some rt" "rh_closed (runtime z rt)" "rh_open (runtime z rt) = OpenDone None" "sy_started z" "sy_canceled z = {}"
    using z(2) by (simp_all add: failed_def)
  have ok: "reg_ok z" using reg_reachable_ok [OF z(1)] by simp
  have "\<not> serving (runtime z a)" if "a < length (sy_runtimes z)" "rh_session (runtime z a) = sid" for a
  proof
    assume s: "serving (runtime z a)"
    then have "routed z a" using ok that f(4) by (simp add: reg_ok_def runtimes_ok_def)
    moreover have "inflight z sid = None" using entryD f(1) ok by (auto simp: reg_ok_def)
    ultimately have "a = rt" using that(2) f(1) by (auto simp: routed_def)
    then show False using s f(2) by (simp add: serving_def)
  qed
  moreover have "reg_step z (goto t (Ended (Inr rt)) z)" if "sy_ops z t = Some (OpenAwaits rt)" for t
    by (rule open_answers [OF that]) (simp add: awaitOpen_def f)
  ultimately show ?thesis
    using f by (auto simp: getOrCreate_lookup_def awaitOpen_def beginClose_error_def)
qed

section \<open>A canceled Resume closes a shared runtime\<close>

lemma close_shared:
  assumes "sy_ops y t = Some (FailCloses rt e)" "rt < length (sy_runtimes y)" "rh_open (runtime y rt) = OpenDone None"
    "entries y (rh_session (runtime y rt)) = Some rt" "\<not> rh_closed (runtime y rt)"
  shows "\<exists>z. reg_step\<^sup>*\<^sup>* y z \<and> rh_closed (runtime z rt) \<and> entries z (rh_session (runtime y rt)) = None \<and> sy_ops z t = Some (Ended (Inl e))"
proof -
  define y1 where "y1 = goto t (FailClosing rt e) (with_rt rt close_begin y)"
  define y2 where "y2 = with_rt rt close_end y1"
  define y3 where "y3 = goto t (FailDiscards rt e) y2"
  define y4 where "y4 = goto t (Ended (Inl e)) (with_reg (registry_discard (rh_session (runtime y3 rt)) rt) y3)"
  have s1: "reg_step y y1" unfolding y1_def using assms(1,3) by (rule fail_closes)
  have "reg_step y1 y2"
    unfolding y2_def by (rule closing_ends) (use assms(2,5) in \<open>auto simp: y1_def close_begin_def\<close>)
  then have s2: "reg_step\<^sup>*\<^sup>* y1 y2" by (rule r_into_rtranclp)
  have y2: "rh_closed (runtime y2 rt)" "rh_session (runtime y2 rt) = rh_session (runtime y rt)" "sy_ops y2 t = Some (FailClosing rt e)"
    "entries y2 = entries y"
    using assms(2) by (auto simp: y2_def y1_def close_end_def close_begin_def)
  have s3: "reg_step y2 y3" unfolding y3_def using y2 by (intro fail_waits)
  have s4: "reg_step y3 y4" unfolding y4_def by (rule fail_discards) (simp add: y3_def)
  have "rh_closed (runtime y4 rt)" "entries y4 (rh_session (runtime y rt)) = None" "sy_ops y4 t = Some (Ended (Inl e))"
    using y2 assms(4) by (auto simp: y4_def y3_def registry_discard_def)
  moreover have "reg_step\<^sup>*\<^sup>* y y4" using s1 s2 s3 s4 by (meson converse_rtranclp_into_rtranclp rtranclp.rtrancl_into_rtrancl)
  ultimately show ?thesis by blast
qed

text \<open>
  A Resume whose context ends, after it was admitted, on a Session that already has an open runtime may close that
  runtime for everybody: \<^verbatim>\<open>awaitOpen\<close> may answer the error of the context although the opening is done, and the
  operation then closes and discards the runtime as if it had failed to open it.
\<close>

theorem canceled_resume_closes_open_session:
  assumes "reg_reachable y" "entries y sid = Some rt" "serving (runtime y rt)" "rh_open (runtime y rt) = OpenDone None"
    and "sy_ops y t = Some (ResumeAt sid)" "t \<in> sy_canceled y"
  shows "\<exists>z. reg_step\<^sup>*\<^sup>* y z \<and> rh_closed (runtime z rt) \<and> entries z sid = None \<and> sy_ops z t = Some (Ended (Inl CtxCanceled))"
proof -
  have rt: "rt < length (sy_runtimes y)" "rh_session (runtime y rt) = sid"
    using entryD assms(2) reg_reachable_ok [OF assms(1)] by (auto simp: reg_ok_def)
  let ?y1 = "goto t (OpenAt rt) y"
  let ?y2 = "goto t (OpenAwaits rt) ?y1"
  let ?y3 = "goto t (FailCloses rt CtxCanceled) ?y2"
  have "reg_step y ?y1" using assms(2,5) by (intro resume_finds) (auto simp: getOrCreate_lookup_def)
  moreover have "reg_step ?y1 ?y2" using assms(4) by (intro open_shared [where x = None]) auto
  moreover have "reg_step ?y2 ?y3" using assms(6) by (intro open_fails) (auto simp: awaitOpen_def ctxError_def)
  ultimately have "reg_step\<^sup>*\<^sup>* y ?y3" by (meson converse_rtranclp_into_rtranclp rtranclp.rtrancl_refl)
  moreover obtain z where "reg_step\<^sup>*\<^sup>* ?y3 z" "rh_closed (runtime z rt)" "entries z sid = None" "sy_ops z t = Some (Ended (Inl CtxCanceled))"
    using close_shared [of ?y3 t rt CtxCanceled] rt assms(2,3,4) by (auto simp: serving_def)
  ultimately show ?thesis using rtranclp_trans by metis
qed

section \<open>An example\<close>

text \<open>Operation 1 resumes a Session and opens its runtime.\<close>

definition demo_resumed :: regSystem where
  "demo_resumed = newRegSystem\<lparr>sy_registry := \<lparr>reg_entries = [''s'' \<mapsto> 0], reg_inflight = Map.empty, reg_flights = [\<lparr>fl_done = True, fl_err = None\<rparr>]\<rparr>,
     sy_runtimes := [\<lparr>rh_session = ''s'', rh_open = OpenDone None, rh_closing = False, rh_closed = False\<rparr>],
     sy_ops := [1 \<mapsto> Ended (Inr 0)]\<rparr>"

lemma demo_resumed_reachable: "reg_reachable demo_resumed"
proof -
  define y1 where "y1 = goto 1 (ResumeAt ''s'') newRegSystem"
  define y2 where "y2 = goto 1 (ResumeLeads ''s'' 0) (with_reg (\<lambda>_. take_off ''s'' newRuntimeRegistry) y1)"
  define y3 where "y3 = goto 1 (ResumeBuilt ''s'' 0 (length (sy_runtimes y2))) (allocate ''s'' y2)"
  define y4 where "y4 = goto 1 (OpenAt 0) (with_reg (getOrCreate_land ''s'' 0 (Inr 0)) y3)"
  define y5 where "y5 = goto 1 (OpenRuns 0) (with_rt 0 open_begin y4)"
  define y6 where "y6 = goto 1 (OpenAwaits 0) (with_rt 0 (open_end None) y5)"
  note defs = newRegSystem_def newRuntimeRegistry_def newRuntimeHandle_def take_off_def getOrCreate_land_def open_begin_def open_end_def
  have r1: "reg_step\<^sup>*\<^sup>* newRegSystem y1" unfolding y1_def by (rule r_into_rtranclp, rule begin_resume) (simp_all add: defs)
  have "reg_step y1 y2" unfolding y2_def by (rule resume_leads) (simp_all add: y1_def getOrCreate_lookup_def defs)
  note r2 = rtranclp.rtrancl_into_rtrancl [OF r1 this]
  have "reg_step y2 y3" unfolding y3_def by (rule resume_builds) (simp add: y2_def)
  note r3 = rtranclp.rtrancl_into_rtrancl [OF r2 this]
  have "reg_step y3 y4" unfolding y4_def by (rule resume_lands) (simp_all add: y3_def y2_def y1_def defs)
  note r4 = rtranclp.rtrancl_into_rtrancl [OF r3 this]
  have "reg_step y4 y5" unfolding y5_def by (rule opens) (simp_all add: y4_def y3_def y2_def y1_def defs)
  note r5 = rtranclp.rtrancl_into_rtrancl [OF r4 this]
  have "reg_step y5 y6" unfolding y6_def by (rule open_ends) (simp add: y5_def)
  note r6 = rtranclp.rtrancl_into_rtrancl [OF r5 this]
  have "reg_step y6 (goto 1 (Ended (Inr 0)) y6)"
    by (rule open_answers) (simp_all add: y6_def y5_def y4_def y3_def y2_def y1_def defs awaitOpen_def)
  note r7 = rtranclp.rtrancl_into_rtrancl [OF r6 this]
  have "goto 1 (Ended (Inr 0)) y6 = demo_resumed"
    by (simp add: y6_def y5_def y4_def y3_def y2_def y1_def defs goto_def with_reg_def with_rt_def allocate_def demo_resumed_def fun_eq_iff)
  then show ?thesis using r7 by (simp add: reg_reachable_def)
qed

text \<open>The runtime fails closed.\<close>

definition demo_failed :: regSystem where
  "demo_failed = with_rt 0 fail_closed demo_resumed"

lemma demo_failed_reachable: "reg_reachable demo_failed"
proof -
  have "reg_step demo_resumed demo_failed" unfolding demo_failed_def by (rule fails_closed) (simp_all add: demo_resumed_def)
  then show ?thesis using demo_resumed_reachable by (auto simp: reg_reachable_def)
qed

text \<open>Operation 2 resumes the open Session and is canceled.\<close>

definition demo_canceled :: regSystem where
  "demo_canceled = (goto 2 (ResumeAt ''s'') demo_resumed)\<lparr>sy_canceled := {2}\<rparr>"

lemma demo_canceled_reachable: "reg_reachable demo_canceled"
proof -
  have "reg_step demo_resumed (goto 2 (ResumeAt ''s'') demo_resumed)"
    by (rule begin_resume) (simp_all add: demo_resumed_def newRegSystem_def)
  moreover have "reg_step (goto 2 (ResumeAt ''s'') demo_resumed) demo_canceled"
    using cancels [of "goto 2 (ResumeAt ''s'') demo_resumed" 2] by (simp add: demo_canceled_def demo_resumed_def newRegSystem_def)
  ultimately show ?thesis using demo_resumed_reachable by (auto simp: reg_reachable_def)
qed

theorem one_runtime_per_session_witness:
  "reg_reachable demo_resumed \<and> serving (runtime demo_resumed 0) \<and>
   (entries demo_resumed ''s'' = Some 0 \<or>
    (\<exists>f. getOrCreate_lookup ''s'' (sy_registry demo_resumed) = Joins f \<and> sy_tombs demo_resumed f = Some (''s'', 0)))"
proof -
  have "sy_started demo_resumed" "0 < length (sy_runtimes demo_resumed)" "serving (runtime demo_resumed 0)" "rh_session (runtime demo_resumed 0) = ''s''"
    by (simp_all add: demo_resumed_def newRegSystem_def serving_def)
  then show ?thesis using one_runtime_per_session [OF demo_resumed_reachable] demo_resumed_reachable by metis
qed

theorem failed_runtime_blocks_session_witness:
  "reg_reachable demo_failed \<and> failed ''s'' 0 demo_failed \<and> getOrCreate_lookup ''s'' (sy_registry demo_failed) = Found 0 \<and>
   \<not> serving (runtime demo_failed 0)"
proof -
  have f: "failed ''s'' 0 demo_failed"
    by (simp add: failed_def demo_failed_def demo_resumed_def newRegSystem_def fail_closed_def dropping_def)
  show ?thesis
    using failed_runtime_blocks_session [OF demo_failed_reachable f rtranclp.rtrancl_refl] f demo_failed_reachable
    by (simp add: serving_def)
qed

theorem canceled_resume_closes_open_session_witness:
  "\<exists>z. reg_step\<^sup>*\<^sup>* demo_canceled z \<and> rh_closed (runtime z 0) \<and> entries z ''s'' = None"
proof -
  have "entries demo_canceled ''s'' = Some 0" "serving (runtime demo_canceled 0)" "rh_open (runtime demo_canceled 0) = OpenDone None"
    "sy_ops demo_canceled 2 = Some (ResumeAt ''s'')" "2 \<in> sy_canceled demo_canceled"
    by (simp_all add: demo_canceled_def demo_resumed_def serving_def)
  from canceled_resume_closes_open_session [OF demo_canceled_reachable this] show ?thesis by blast
qed

section \<open>Stopping may leave a runtime open\<close>

text \<open>
  \<^verbatim>\<open>closeAll\<close> takes the entries of the moment: a Resume that lands its runtime later opens it after the registry was
  closed, and \<^verbatim>\<open>stop\<close> ends with that runtime serving, although it means to close every runtime.
\<close>

theorem stop_leaves_runtime_open:
  "\<exists>y. reg_reachable y \<and> sy_ops y 2 = Some Stopped \<and> (\<forall>u p. sy_ops y u = Some p \<longrightarrow> p = Stopped \<or> (\<exists>r. p = Ended r)) \<and>
     length (sy_runtimes y) = 1 \<and> serving (runtime y 0)"
proof -
  define y1 where "y1 = goto 1 (ResumeAt ''s'') newRegSystem"
  define y2 where "y2 = goto 1 (ResumeLeads ''s'' 0) (with_reg (\<lambda>_. take_off ''s'' newRuntimeRegistry) y1)"
  define y3 where "y3 = goto 2 StopTakes (y2\<lparr>sy_started := False\<rparr>)"
  define y4 where "y4 = goto 2 (StopCloses []) (with_reg closeAll_take y3)"
  define y5 where "y5 = goto 1 (ResumeBuilt ''s'' 0 (length (sy_runtimes y4))) (allocate ''s'' y4)"
  define y6 where "y6 = goto 1 (OpenAt 0) (with_reg (getOrCreate_land ''s'' 0 (Inr 0)) y5)"
  define y7 where "y7 = goto 1 (OpenRuns 0) (with_rt 0 open_begin y6)"
  define y8 where "y8 = goto 1 (OpenAwaits 0) (with_rt 0 (open_end None) y7)"
  define y9 where "y9 = goto 1 (Ended (Inr 0)) y8"
  note defs = newRegSystem_def newRuntimeRegistry_def newRuntimeHandle_def take_off_def getOrCreate_land_def closeAll_take_def
    open_begin_def open_end_def
  note ys = y9_def y8_def y7_def y6_def y5_def y4_def y3_def y2_def y1_def
  have r1: "reg_step\<^sup>*\<^sup>* newRegSystem y1" unfolding y1_def by (rule r_into_rtranclp, rule begin_resume) (simp_all add: defs)
  have "reg_step y1 y2" unfolding y2_def by (rule resume_leads) (simp_all add: y1_def getOrCreate_lookup_def defs)
  note r2 = rtranclp.rtrancl_into_rtrancl [OF r1 this]
  have "reg_step y2 y3" unfolding y3_def by (rule stop_begins) (simp_all add: y2_def y1_def defs)
  note r3 = rtranclp.rtrancl_into_rtrancl [OF r2 this]
  have "reg_step y3 y4" unfolding y4_def by (rule stop_takes) (simp_all add: y3_def y2_def y1_def defs)
  note r4 = rtranclp.rtrancl_into_rtrancl [OF r3 this]
  have "reg_step y4 y5" unfolding y5_def by (rule resume_builds) (simp add: y4_def y3_def y2_def)
  note r5 = rtranclp.rtrancl_into_rtrancl [OF r4 this]
  have "reg_step y5 y6" unfolding y6_def by (rule resume_lands) (simp_all add: y5_def y4_def y3_def y2_def y1_def defs)
  note r6 = rtranclp.rtrancl_into_rtrancl [OF r5 this]
  have "reg_step y6 y7" unfolding y7_def by (rule opens) (simp_all add: y6_def y5_def y4_def y3_def y2_def y1_def defs)
  note r7 = rtranclp.rtrancl_into_rtrancl [OF r6 this]
  have "reg_step y7 y8" unfolding y8_def by (rule open_ends) (simp add: y7_def)
  note r8 = rtranclp.rtrancl_into_rtrancl [OF r7 this]
  have "reg_step y8 y9" unfolding y9_def by (rule open_answers) (simp_all add: ys defs awaitOpen_def)
  note r9 = rtranclp.rtrancl_into_rtrancl [OF r8 this]
  have "reg_step y9 (goto 2 Stopped y9)"
    by (rule stop_ends) (simp_all add: ys defs)
  note r10 = rtranclp.rtrancl_into_rtrancl [OF r9 this]
  have "\<forall>u p. sy_ops (goto 2 Stopped y9) u = Some p \<longrightarrow> p = Stopped \<or> (\<exists>r. p = Ended r)" by (simp add: ys defs)
  moreover have "length (sy_runtimes y9) = 1" "serving (runtime y9 0)" by (simp_all add: ys defs serving_def)
  ultimately show ?thesis using r10 by (intro exI [of _ "goto 2 Stopped y9"]) (simp add: reg_reachable_def)
qed

end
