(* ===== verification/Spec2Isabelle.thy ===== *)
theory Spec2Isabelle
  imports Model_Protocol Session_Gaps Journal_Progress History_Pages List_Pages Slot_Guarantees Goal_Store Context_Compaction Workflow_Guarantees Fork_Guarantees Loop_Guarantees Runtime_Guarantees Json_Canonical Event_Stream Registry_Guarantees
begin

text \<open>
  Verification of agentSlot, a Go framework that assembles agent applications out of replaceable components and
  runs durable agent Sessions. The development follows the repository (paths are relative to \<^verbatim>\<open>src/\<close>).

  \<^bold>\<open>The program.\<close> An application is assembled by the slot kernel (\<^verbatim>\<open>slot.go\<close>, \<^verbatim>\<open>builder.go\<close>, \<^verbatim>\<open>defaults.go\<close>,
  \<^verbatim>\<open>dependency.go\<close>, \<^verbatim>\<open>resolver.go\<close>, \<^verbatim>\<open>lifecycle.go\<close>, \<^verbatim>\<open>application.go\<close>): modules declare contributions and
  requirements, the kernel picks defaults, orders the modules by their dependencies, constructs the values and
  starts and stops them. The standard agent (\<^verbatim>\<open>standardagent/\<close>) is such a module: per Session it keeps one
  runtime, which turns commands into Runs, lets an agent loop drive model requests and tool batches, and commits
  every step to the Session store. The store (\<^verbatim>\<open>session/\<close>) keeps one aggregate per Session: an append-only
  History, a queue, a run journal, an extension journal, a context and the state of the Run; a commit is an
  optimistic, idempotent transaction of changes, and recovery settles what a crash left open. Around it stand
  the value contracts (\<^verbatim>\<open>agent/\<close>, \<^verbatim>\<open>model/\<close>, \<^verbatim>\<open>tool/\<close>, \<^verbatim>\<open>hook/\<close>, \<^verbatim>\<open>policy/\<close>, \<^verbatim>\<open>loop/\<close>, \<^verbatim>\<open>internal/jsonvalue\<close>), the
  Session manager with forks, goals (\<^verbatim>\<open>goal/\<close>), workflow jobs and mailboxes (\<^verbatim>\<open>workflow/\<close>) and context
  compaction (\<^verbatim>\<open>context/\<close>).

  \<^bold>\<open>Theories and sources.\<close>
  \<^item> \<open>Prelude\<close>: results of fallible code, loops that stop at the first error (\<open>foldE\<close>, \<open>foldS\<close>), the locale
    \<open>loop_step\<close> of such loops. \<open>Go_Text\<close>: byte strings, UTF-8, decimal texts, identifiers. \<open>Versioned_Store\<close>: the
    locale \<open>versioned_store\<close> of stores with optimistic concurrency.
  \<^item> \<open>Json_Value\<close>: \<^verbatim>\<open>internal/jsonvalue\<close> (strict parsing, numbers, equality) and its data model;
    \<open>Json_Canonical\<close>: the canonical encoding, a canonical form that reads back as the value.
  \<^item> \<open>Agent_Types\<close> (\<^verbatim>\<open>agent/types.go\<close>), \<open>Tool_Contracts\<close> (\<^verbatim>\<open>tool/\<close>, \<^verbatim>\<open>artifact/contracts.go\<close>), \<open>Model_Contracts\<close> and
    \<open>Model_Protocol\<close> (\<^verbatim>\<open>model/\<close>), \<open>Hook_Invocation\<close> (\<^verbatim>\<open>hook/\<close>), \<open>Extension_Journal\<close>
    (\<^verbatim>\<open>session/extension_journal.go\<close>), \<open>Session_Contracts\<close> (\<^verbatim>\<open>session/contracts.go\<close>): the records, datatypes and
    every \<^verbatim>\<open>Validate\<close> of the contracts.
  \<^item> \<open>Session_History\<close> (\<^verbatim>\<open>session/history.go\<close>), \<open>Session_Changes\<close>, \<open>Session_Recovery\<close>, \<open>Session_Store\<close>
    (\<^verbatim>\<open>session/memory_store.go\<close>, \<^verbatim>\<open>session/list.go\<close>): the transaction, one definition per change kind; crash recovery;
    \<^verbatim>\<open>MemoryStore\<close> with \<open>Create\<close>, \<open>Load\<close>, \<open>Commit_op\<close>, \<open>Recover\<close> and the queries. \<open>Session_Manager\<close>
    (\<^verbatim>\<open>session/memory_manager.go\<close>): create, resume, fork, summary start.
  \<^item> \<open>Session_Invariant\<close>, \<open>Recovery_Invariant\<close>, \<open>Store_Invariant\<close>, \<open>Store_Steps\<close>: the aggregate invariant, change by
    change, through recovery and for the store; the relation \<open>store_step\<close> and the reachable stores.
    \<open>Session_Guarantees\<close>, \<open>Journal_Progress\<close>, \<open>History_Pages\<close>, \<open>List_Pages\<close>, \<open>Fork_Rename\<close>, \<open>Fork_Guarantees\<close>,
    \<open>Session_Gaps\<close>: what follows for clients. \<open>Store_Example\<close>: concrete stores for the witnesses.
  \<^item> \<open>Tool_Policy\<close> (\<^verbatim>\<open>policy/contracts.go\<close>), \<open>Tool_Dispatch\<close> (\<^verbatim>\<open>standardagent/tool_dispatcher.go\<close>),
    \<open>Dispatch_Guarantees\<close>: authorization and execution of a batch of tool calls, in every interleaving of a parallel
    group.
  \<^item> \<open>Loop_Contracts\<close> (\<^verbatim>\<open>loop/\<close>), \<open>Loop_Driver\<close> (\<^verbatim>\<open>standardagent/loop_module.go\<close> and the driver in
    \<^verbatim>\<open>runtime_execution.go\<close>), \<open>Loop_Guarantees\<close>: the driver against an arbitrary loop, and the standard loop.
  \<^item> \<open>Runtime_State\<close>, \<open>Runtime_Steps\<close>, \<open>Runtime_Commands\<close> (\<^verbatim>\<open>standardagent/runtime_execution.go\<close>,
    \<^verbatim>\<open>runtime_commands.go\<close>, \<^verbatim>\<open>runtime_lifecycle.go\<close> and the reservations of \<^verbatim>\<open>runtime_tool_preflight.go\<close> and
    \<^verbatim>\<open>runtime_tool_result.go\<close>): one Session runtime, its locked sections as operations; \<open>Runtime_Gates\<close>
    (\<^verbatim>\<open>runtime_input_gate.go\<close>, \<^verbatim>\<open>runtime_input_gate_context.go\<close>): the sections for input that input gates have
    accepted. \<open>Run_Counts\<close>, \<open>Runtime_Invariant\<close>, \<open>Runtime_Kept\<close>, \<open>Runtime_Counted\<close>, \<open>Runtime_Finish\<close>,
    \<open>Runtime_Machine\<close>, \<open>Runtime_Guarantees\<close>: the invariant between runtime and store, kept by every step of \<open>rt_step\<close>.
  \<^item> \<open>Runtime_Registry\<close>, \<open>Registry_Guarantees\<close> (\<^verbatim>\<open>standardagent/runtime.go\<close> and the handshakes of
    \<^verbatim>\<open>runtime_lifecycle.go\<close> and \<^verbatim>\<open>runtime_commands.go\<close>): the registry of runtimes with the operations of the
    coordinator as interleaved steps; one runtime per Session. \<open>Event_Stream\<close> (\<^verbatim>\<open>standardagent/event_stream.go\<close>):
    the event hub and its bounded streams; what a subscriber receives and that its readers wake.
  \<^item> \<open>Slot_Registry\<close>, \<open>Slot_Resolution\<close>, \<open>Slot_Build\<close>: the slot kernel; \<open>Slot_Order\<close>, \<open>Slot_Invariant\<close>,
    \<open>Slot_Guarantees\<close>: its properties. \<open>Goal_Store\<close> (\<^verbatim>\<open>goal/\<close>), \<open>Workflow_Store\<close> and \<open>Workflow_Guarantees\<close>
    (\<^verbatim>\<open>workflow/\<close>), \<open>Context_Compaction\<close> (\<^verbatim>\<open>context/\<close>).

  \<^bold>\<open>How code becomes definitions.\<close> A struct is a record whose fields carry a prefix, a string enumeration is a
  datatype with the source's constants and one constructor for any other text, a Go string is its bytes, a map is
  a HOL map or an association list with distinct keys where the order of traversal matters. Errors are values
  (an option for a check, a sum for a result); a run-time panic of the code is an error of its own
  (\<open>RtPanicked\<close>). Counters that the code keeps in 64 bits are words where the width matters (token counts, versions,
  revisions and extension sequences); identifiers write the sequence number modulo 2^64; lengths and History
  sequence numbers are natural numbers. A stateful operation takes its state and returns the next one. A locked
  section is one step, and an operation with several sections is several definitions, so every interleaving
  between sections is a sequence of steps. Copies of values (\<^verbatim>\<open>clone...\<close>) are the values themselves, a nil slice is
  an empty list, and texts of errors are the format without the quoted value. Times are integers with 0 as the
  zero time, so \<^verbatim>\<open>reflect.DeepEqual\<close> on goal records is equality of the logic and does not tell a nil slice from an
  empty one or the location of a time. A fork is one step although \<^verbatim>\<open>memory_manager.go\<close> loads the source, draws
  the identifier and creates the target in separate sections; the source only grows between them, and a target
  that appears in between is refused by \<^verbatim>\<open>Create\<close>. The cursor codec is assumed to round trip within the 4096 bytes
  a cursor may have (\<open>codec_ok\<close>), which holds for identifiers of ordinary length: \<^verbatim>\<open>validID\<close> itself has no bound.

  \<^bold>\<open>Parameters.\<close> What is not in the repository is an argument: the fingerprints (SHA-256 of encodings; \<open>env_fp\<close>,
  \<open>env_fpt\<close> and those of the hook views), the clocks, the order in which Go ranges over a map (\<open>env_ord\<close>, a
  permutation), the signed cursor codec, the random prefix of identifiers, JSON Schema acceptance, and the
  components of an application: constructors and \<^verbatim>\<open>Register\<close> methods, lifecycle callbacks, guards, approval
  services, tools, models, loops. A component is any function of its view and may answer anything, errors and
  panics included; \<open>env_ok\<close> collects what is assumed of an environment (clocks are never the zero time, the map
  order is a permutation).

  \<^bold>\<open>Interfaces.\<close> \<open>loop_step\<close> (a transaction loop keeps what its step keeps) is interpreted for the changes of a
  commit; \<open>versioned_store\<close> for goals and jobs; \<open>notified_store\<close> (no waiter misses a change) for jobs and
  mailboxes; \<open>context_compactor\<close> for the tail compactor; \<open>move_order\<close> for the two journals.

  \<^bold>\<open>What the theorems show.\<close> For the store: exactly-once commits as compare-and-swap, uniqueness and causal order of
  the History, append-only growth, consistency of the aggregate, journals that only advance, recovery that always
  succeeds, unchanged state after errors, complete pagination, faithful forks. For models and tools: the validator
  and the stream state machine accept exactly their protocols, tools run only when authorized and durably marked.
  For loops and runtimes: the driver enforces the Run protocol against any loop, the standard loop returns when the model calls are
  bounded, a Session is served by one runtime, a runtime
  agrees with its Session in every interleaving, limits per Run hold, the end of a Run is durable or the runtime
  fails closed. For the kernel: dependency order, construction, cardinalities, balanced lifecycles. For goals,
  workflow and compaction: exactly-once decisions, forward-moving jobs, ordered mailboxes, no lost wake-up,
  protocol-complete suffixes. Some theorems state behaviour that contradicts the intent of the code: wrap-around in
  usage validation, a tool result without a call, an overwritten termination, a canceled Run that is resumed, a
  panic under a lowered limit, a failed runtime that stays registered, and a canceled Resume that closes a Session.

  \<^bold>\<open>Bounds.\<close> Every recursion has a termination proof. The loops that may run for ever in the source are handled as
  follows: the agent loop is a \<open>partial_function (option)\<close> whose result is proved to exist when the model
  calls of the Run are bounded (\<open>model_budget\<close>), with no assumption on contexts, hooks, tools or commits;
  waiting is a loop over the answers of the store; a stuck dependency order is shown to be a cycle. The runtime
  theorems assume that fewer than 2^64 identifiers were drawn and that the random prefix is not in use, which
  \<open>created\<close> states.

  \<^bold>\<open>Not modelled.\<close> The file store (the same operations around JSON documents on disk), observation
  (best-effort copies that no durable step reads), the evaluation of hooks, input gates and completion gates and the
  preparation of the model context (they reserve, start and settle invocations with commits that are the quiet
  commits of \<open>rt_step\<close>; the commit that follows accepted input, which may start a Run, is modelled), the gateway,
  the workflow scheduler and its tools, billing and memory contracts, model providers and transports,
  tools, credentials, artifacts and workspaces (network, process and file I/O), the catalog and command line.
\<close>

end
